(* ===== verification/Taclab_Prelude.thy ===== *)
theory Taclab_Prelude
  imports "HOL-Library.Word"
begin

text \<open>
  Shared vocabulary of the development.

  Go's machine integers are words (\<open>byte\<close>, \<open>uint16\<close>, \<open>uint32\<close>), a Go byte slice is a
  list of words and a Go string is a HOL \<open>string\<close> (a list of 8-bit characters, as a Go
  string is a sequence of bytes). A Go function that returns \<open>(value, error)\<close> becomes a
  value of a sum type, \<open>Inl\<close> for the error; \<open>rbind\<close> is the early return
  \<open>if err != nil { return err }\<close> and \<open>guard_r\<close> is a check that fails with an error.

  The named collections \<open>wire_simps\<close> (byte-level reading and writing) and
  \<open>result_simps\<close> (early returns) carry the component proofs.
\<close>

unbundle bit_operations_syntax

named_theorems wire_simps \<open>reading and writing bytes\<close>
named_theorems result_simps \<open>early returns\<close>

type_synonym byte = "8 word"
type_synonym bytes = "8 word list"
type_synonym uint16 = "16 word"
type_synonym uint32 = "32 word"
type_synonym uint64 = "64 word"

subsection \<open>Results and early returns\<close>

definition rbind :: "'e + 'a \<Rightarrow> ('a \<Rightarrow> 'e + 'b) \<Rightarrow> 'e + 'b" where
  "rbind m f = (case m of Inl e \<Rightarrow> Inl e | Inr x \<Rightarrow> f x)"

definition guard_r :: "bool \<Rightarrow> 'e \<Rightarrow> 'e + unit" where
  "guard_r b e = (if b then Inr () else Inl e)"

lemma rbind_Inl [simp]: "rbind (Inl e) f = Inl e"
  by (simp add: rbind_def)

lemma rbind_Inr [simp]: "rbind (Inr x) f = f x"
  by (simp add: rbind_def)

lemma rbind_eq_Inr [result_simps]: "rbind m f = Inr y \<longleftrightarrow> (\<exists>x. m = Inr x \<and> f x = Inr y)"
  by (cases m) simp_all

lemma rbind_eq_Inl [result_simps]:
  "rbind m f = Inl e \<longleftrightarrow> m = Inl e \<or> (\<exists>x. m = Inr x \<and> f x = Inl e)"
  by (cases m) simp_all

lemma guard_r_True [simp]: "guard_r True e = Inr ()"
  by (simp add: guard_r_def)

lemma guard_r_False [simp]: "guard_r False e = Inl e"
  by (simp add: guard_r_def)

lemma guard_r_eq_Inr [simp]: "guard_r b e = Inr u \<longleftrightarrow> b"
  by (simp add: guard_r_def)

lemma guard_r_eq_Inl [simp]: "guard_r b e = Inl e' \<longleftrightarrow> \<not> b \<and> e' = e"
  by (auto simp: guard_r_def)

text \<open>Sequencing a fallible operation over a list, stopping at the first error.\<close>

fun rmap :: "('a \<Rightarrow> 'e + 'b) \<Rightarrow> 'a list \<Rightarrow> 'e + 'b list" where
  "rmap f [] = Inr []"
| "rmap f (x # xs) = rbind (f x) (\<lambda>y. rbind (rmap f xs) (\<lambda>ys. Inr (y # ys)))"

lemma rmap_eq_Inr: "rmap f xs = Inr ys \<longleftrightarrow> list_all2 (\<lambda>x y. f x = Inr y) xs ys"
  by (induction xs arbitrary: ys) (auto simp: result_simps list_all2_Cons1)

lemma length_rmap: "rmap f xs = Inr ys \<Longrightarrow> length ys = length xs"
  by (simp add: rmap_eq_Inr list_all2_lengthD)

subsection \<open>Big-endian integers\<close>

text \<open>\<open>binary.BigEndian.Uint16\<close> and \<open>PutUint16\<close>, \<open>Uint32\<close> and \<open>PutUint32\<close>.\<close>

definition Uint16_BE :: "byte \<Rightarrow> byte \<Rightarrow> uint16" where
  "Uint16_BE b0 b1 = (push_bit 8 (ucast b0)) OR ucast b1"

definition PutUint16_BE :: "uint16 \<Rightarrow> bytes" where
  "PutUint16_BE v = [ucast (drop_bit 8 v), ucast v]"

definition Uint32_BE :: "byte \<Rightarrow> byte \<Rightarrow> byte \<Rightarrow> byte \<Rightarrow> uint32" where
  "Uint32_BE b0 b1 b2 b3 =
     push_bit 24 (ucast b0) OR push_bit 16 (ucast b1) OR push_bit 8 (ucast b2) OR ucast b3"

definition PutUint32_BE :: "uint32 \<Rightarrow> bytes" where
  "PutUint32_BE v = [ucast (drop_bit 24 v), ucast (drop_bit 16 v), ucast (drop_bit 8 v), ucast v]"

lemma Uint16_PutUint16 [wire_simps]:
  "Uint16_BE (ucast (drop_bit 8 v)) (ucast v) = v"
  unfolding Uint16_BE_def
  by (rule bit_word_eqI) (auto simp: bit_simps)

lemma PutUint16_Uint16 [wire_simps]: "PutUint16_BE (Uint16_BE b0 b1) = [b0, b1]"
proof -
  have "ucast (drop_bit 8 (Uint16_BE b0 b1)) = b0"
    unfolding Uint16_BE_def by (rule bit_word_eqI) (auto simp: bit_simps dest: bit_imp_le_length)
  moreover have "ucast (Uint16_BE b0 b1) = b1"
    unfolding Uint16_BE_def by (rule bit_word_eqI) (auto simp: bit_simps)
  ultimately show ?thesis by (simp add: PutUint16_BE_def)
qed

lemma Uint32_PutUint32 [wire_simps]:
  "Uint32_BE (ucast (drop_bit 24 v)) (ucast (drop_bit 16 v)) (ucast (drop_bit 8 v)) (ucast v) = v"
proof (rule bit_word_eqI)
  fix n
  assume "n < LENGTH(32)"
  then consider "n < 8" | "8 \<le> n \<and> n < 16" | "16 \<le> n \<and> n < 24" | "24 \<le> n \<and> n < 32"
    by fastforce
  then show "bit (Uint32_BE (ucast (drop_bit 24 v)) (ucast (drop_bit 16 v))
      (ucast (drop_bit 8 v)) (ucast v)) n = bit v n"
    by cases (auto simp: Uint32_BE_def bit_simps)
qed

lemma PutUint32_Uint32 [wire_simps]:
  "PutUint32_BE (Uint32_BE b0 b1 b2 b3) = [b0, b1, b2, b3]"
proof -
  have "ucast (drop_bit 24 (Uint32_BE b0 b1 b2 b3)) = b0"
    "ucast (drop_bit 16 (Uint32_BE b0 b1 b2 b3)) = b1"
    "ucast (drop_bit 8 (Uint32_BE b0 b1 b2 b3)) = b2"
    "ucast (Uint32_BE b0 b1 b2 b3) = b3"
    unfolding Uint32_BE_def
    by (rule bit_word_eqI; auto simp: bit_simps dest: bit_imp_le_length)+
  then show ?thesis by (simp add: PutUint32_BE_def)
qed

lemma length_PutUint16 [simp]: "length (PutUint16_BE v) = 2"
  by (simp add: PutUint16_BE_def)

lemma length_PutUint32 [simp]: "length (PutUint32_BE v) = 4"
  by (simp add: PutUint32_BE_def)

subsection \<open>Lengths that fit a word\<close>

lemma unat_of_nat_byte [simp]: "n \<le> 255 \<Longrightarrow> unat (of_nat n :: byte) = n"
  by (simp add: unat_of_nat take_bit_nat_eq_self)

lemma unat_of_nat_u16 [simp]: "n \<le> 65535 \<Longrightarrow> unat (of_nat n :: uint16) = n"
  by (simp add: unat_of_nat take_bit_nat_eq_self)

lemma unat_of_nat_u32: "n < 2 ^ 32 \<Longrightarrow> unat (of_nat n :: uint32) = n"
  by (simp add: unat_of_nat take_bit_nat_eq_self)

lemma unat_byte_less [simp]: "unat (b :: byte) < 256"
proof -
  have "unat b < 2 ^ LENGTH(8)" by (rule unsigned_less)
  then show ?thesis by simp
qed

lemma unat_byte_le [simp]: "unat (b :: byte) \<le> 255"
  using unat_byte_less [of b] by linarith

lemma unat_u16_le [simp]: "unat (v :: uint16) \<le> 65535"
proof -
  have "unat v < 2 ^ LENGTH(16)" by (rule unsigned_less)
  then show ?thesis by simp
qed

lemma of_nat_unat_byte [simp]: "of_nat (unat b) = (b :: byte)"
  by simp

subsection \<open>Go strings and byte slices\<close>

definition string_of_bytes :: "bytes \<Rightarrow> string" where
  "string_of_bytes bs = map (\<lambda>b. char_of (unat b)) bs"

definition bytes_of_string :: "string \<Rightarrow> bytes" where
  "bytes_of_string s = map (\<lambda>c. of_nat (of_char c)) s"

lemma bytes_of_string_of_bytes [simp]: "bytes_of_string (string_of_bytes bs) = bs"
  by (simp add: bytes_of_string_def string_of_bytes_def comp_def take_bit_nat_eq_self map_idI)

lemma string_of_bytes_of_string [simp]: "string_of_bytes (bytes_of_string s) = s"
  by (simp add: bytes_of_string_def string_of_bytes_def comp_def unat_of_nat
      take_bit_nat_eq_self map_idI)

lemma length_bytes_of_string [simp]: "length (bytes_of_string s) = length s"
  by (simp add: bytes_of_string_def)

lemma length_string_of_bytes [simp]: "length (string_of_bytes s) = length s"
  by (simp add: string_of_bytes_def)

lemma string_of_bytes_Nil [simp]: "string_of_bytes bs = [] \<longleftrightarrow> bs = []"
  by (simp add: string_of_bytes_def)

lemma bytes_of_string_Nil [simp]: "bytes_of_string s = [] \<longleftrightarrow> s = []"
  by (simp add: bytes_of_string_def)

lemma string_of_bytes_inject [simp]: "string_of_bytes a = string_of_bytes b \<longleftrightarrow> a = b"
  by (metis bytes_of_string_of_bytes)

subsection \<open>Lists\<close>

lemma take_drop_exact: "n \<le> length xs \<Longrightarrow> xs = take n xs @ drop n xs"
  by simp

lemma length_le_Cons_conv: "Suc n \<le> length xs \<longleftrightarrow> (\<exists>y ys. xs = y # ys \<and> n \<le> length ys)"
  by (cases xs) auto

text \<open>A slice that is long enough, as a prefix of explicit elements (for fixed headers).\<close>

lemma length_ge_numeral_conv:
  "numeral k \<le> length xs \<longleftrightarrow> (\<exists>y ys. xs = y # ys \<and> pred_numeral k \<le> length ys)"
  by (simp add: numeral_eq_Suc length_le_Cons_conv)

lemma find_map: "find P (map f xs) = map_option f (find (\<lambda>x. P (f x)) xs)"
  by (induction xs) auto

lemma find_append: "find P (xs @ ys) = (case find P xs of None \<Rightarrow> find P ys | Some x \<Rightarrow> Some x)"
  by (induction xs) auto

end
