(* ===== verification/Tacacs_Header.thy ===== *)
theory Tacacs_Header
  imports Taclab_Prelude
begin

text \<open>
  The 12-byte TACACS+ header (\<open>internal/tacacs/codec/header.go\<close>), session identifiers
  (\<open>sessionid.go\<close>), the codec's error values (\<open>errors.go\<close>) and the server's
  (\<open>internal/tacacs/server/errors.go\<close>). The lemmas say that decoding and encoding a
  header are inverse to each other, that a packet body is never larger than the budget,
  and that sequence arithmetic never wraps.
\<close>

datatype tac_err =
    ErrHeaderShort | ErrUnsupportedMajor | ErrUnknownType | ErrSeqZero | ErrSeqWrap
  | ErrBodyTooLarge | ErrBodyShort
  | ErrLengthMismatch | ErrNonPrintable | ErrFieldTooLong | ErrTooManyArgs | ErrArgument
  | ErrCHAPLength | ErrMSCHAPLength | ErrAcctFlags | ErrFollow | ErrSeqUnexpected
  | ErrSeqParity | ErrSessionClosed | ErrSessionMismatch | ErrPrematurePacket
  | ErrTooManyContinues | ErrEntropy
  | ErrUnencrypted | ErrMissingUnencrypted | ErrSecretMismatch | ErrConnLimit
  | ErrHandler | ErrClosedPipe | ErrIO | ErrContext

abbreviation (input) HeaderSize :: nat where "HeaderSize \<equiv> 12"
abbreviation (input) MajorVer :: byte where "MajorVer \<equiv> 0x0c"
abbreviation (input) TypeAuthen :: byte where "TypeAuthen \<equiv> 0x01"
abbreviation (input) TypeAuthor :: byte where "TypeAuthor \<equiv> 0x02"
abbreviation (input) TypeAcct :: byte where "TypeAcct \<equiv> 0x03"
abbreviation (input) FlagUnencrypted :: byte where "FlagUnencrypted \<equiv> 0x01"
abbreviation (input) FlagSingleConnect :: byte where "FlagSingleConnect \<equiv> 0x04"
abbreviation (input) FlagKnownMask :: byte where "FlagKnownMask \<equiv> FlagUnencrypted OR FlagSingleConnect"
abbreviation (input) MaxBodyBytes :: nat where "MaxBodyBytes \<equiv> 65536"

record Header =
  hdr_Version :: byte
  hdr_Type :: byte
  hdr_SeqNo :: byte
  hdr_Flags :: byte
  hdr_SessionID :: uint32
  hdr_Length :: uint32

definition zero_Header :: Header where
  "zero_Header = \<lparr>hdr_Version = 0, hdr_Type = 0, hdr_SeqNo = 0, hdr_Flags = 0,
     hdr_SessionID = 0, hdr_Length = 0\<rparr>"

definition VersionByte :: "byte \<Rightarrow> byte" where
  "VersionByte minor = push_bit 4 MajorVer OR (minor AND 0x0f)"

definition Header_Major :: "Header \<Rightarrow> byte" where
  "Header_Major h = drop_bit 4 (hdr_Version h)"

definition Header_Minor :: "Header \<Rightarrow> byte" where
  "Header_Minor h = hdr_Version h AND 0x0f"

definition KnownType :: "Header \<Rightarrow> bool" where
  "KnownType h \<longleftrightarrow> hdr_Type h = TypeAuthen \<or> hdr_Type h = TypeAuthor \<or> hdr_Type h = TypeAcct"

definition DecodeHeader :: "bytes \<Rightarrow> tac_err + Header" where
  "DecodeHeader p =
     (if length p < HeaderSize then Inl ErrHeaderShort
      else Inr \<lparr>hdr_Version = p ! 0, hdr_Type = p ! 1, hdr_SeqNo = p ! 2, hdr_Flags = p ! 3,
                hdr_SessionID = Uint32_BE (p ! 4) (p ! 5) (p ! 6) (p ! 7),
                hdr_Length = Uint32_BE (p ! 8) (p ! 9) (p ! 10) (p ! 11)\<rparr>)"

definition Header_Encode :: "Header \<Rightarrow> bytes" where
  "Header_Encode h =
     [hdr_Version h, hdr_Type h, hdr_SeqNo h, hdr_Flags h]
     @ PutUint32_BE (hdr_SessionID h) @ PutUint32_BE (hdr_Length h)"

definition ClearUnknownFlags :: "Header \<Rightarrow> Header" where
  "ClearUnknownFlags h = h\<lparr>hdr_Flags := hdr_Flags h AND FlagKnownMask\<rparr>"

definition Header_Validate :: "Header \<Rightarrow> tac_err + unit" where
  "Header_Validate h =
     (if Header_Major h \<noteq> MajorVer then Inl ErrUnsupportedMajor
      else if hdr_SeqNo h = 0 then Inl ErrSeqZero
      else Inr ())"

definition ClampMaxBody :: "uint32 \<Rightarrow> uint32" where
  "ClampMaxBody mx = (if mx = 0 \<or> 65536 < mx then 65536 else mx)"

definition BodyBudget :: "Header \<Rightarrow> uint32 \<Rightarrow> uint32" where
  "BodyBudget h mx =
     (let mx' = ClampMaxBody mx in if mx' < hdr_Length h then mx' else hdr_Length h)"

definition AllocateBody :: "Header \<Rightarrow> uint32 \<Rightarrow> tac_err + bytes" where
  "AllocateBody h mx =
     (let mx' = ClampMaxBody mx
      in if mx' < hdr_Length h then Inl ErrBodyTooLarge
         else if hdr_Length h = 0 then Inr []
         else Inr (replicate (unat (hdr_Length h)) 0))"

text \<open>
  \<open>DecodePacket\<close> returns the header beside the error once the header itself was read, so
  the error side carries the header too. The body buffer is allocated first and then
  overwritten by \<open>copy\<close>.
\<close>

definition DecodePacket :: "bytes \<Rightarrow> uint32 \<Rightarrow> (Header \<times> tac_err) + (Header \<times> bytes)" where
  "DecodePacket p mx =
     (case DecodeHeader p of
        Inl e \<Rightarrow> Inl (zero_Header, e)
      | Inr h \<Rightarrow>
          (case AllocateBody h mx of
             Inl e \<Rightarrow> Inl (h, e)
           | Inr body \<Rightarrow>
               (let need = HeaderSize + unat (hdr_Length h)
                in if length p < need then Inl (h, ErrBodyShort)
                   else Inr (h, take (length body) (take (need - HeaderSize) (drop HeaderSize p))))))"

definition NextSeq :: "byte \<Rightarrow> tac_err + byte" where
  "NextSeq seqn =
     (if seqn = 0 then Inl ErrSeqZero
      else if seqn = 255 then Inl ErrSeqWrap
      else Inr (seqn + 1))"

definition UnknownTypeReply :: "Header \<Rightarrow> tac_err + Header" where
  "UnknownTypeReply h =
     rbind (NextSeq (hdr_SeqNo h)) (\<lambda>s. Inr (h\<lparr>hdr_SeqNo := s, hdr_Length := 0\<rparr>))"

text \<open>The reader of \<open>NewSessionID\<close> is absent (\<open>nil\<close>) or yields the bytes it has left.\<close>

definition NewSessionID :: "bytes option \<Rightarrow> tac_err + uint32" where
  "NewSessionID r =
     (case r of None \<Rightarrow> Inl ErrEntropy
      | Some b \<Rightarrow> if length b < 4 then Inl ErrEntropy
                  else Inr (Uint32_BE (b ! 0) (b ! 1) (b ! 2) (b ! 3)))"

subsection \<open>Headers round trip\<close>

lemma length_Header_Encode [simp]: "length (Header_Encode h) = 12"
  by (simp add: Header_Encode_def)

lemma list_12_conv:
  "12 \<le> length p \<longleftrightarrow> (\<exists>a0 a1 a2 a3 a4 a5 a6 a7 a8 a9 b0 b1 r.
     p = a0 # a1 # a2 # a3 # a4 # a5 # a6 # a7 # a8 # a9 # b0 # b1 # r)"
  by (auto simp: numeral_eq_Suc length_le_Cons_conv)

lemma DecodeHeader_Encode_append [simp]: "DecodeHeader (Header_Encode h @ r) = Inr h"
  by (simp add: DecodeHeader_def Header_Encode_def PutUint32_BE_def wire_simps)

lemma DecodeHeader_InrD: "DecodeHeader p = Inr h \<Longrightarrow> p = Header_Encode h @ drop 12 p"
  by (auto simp: DecodeHeader_def Header_Encode_def wire_simps not_less list_12_conv
      split: if_splits)

lemma DecodeHeader_iff: "DecodeHeader p = Inr h \<longleftrightarrow> (\<exists>r. p = Header_Encode h @ r)"
  using DecodeHeader_InrD by fastforce

lemma DecodeHeader_short_iff: "DecodeHeader p = Inl e \<longleftrightarrow> length p < 12 \<and> e = ErrHeaderShort"
  by (auto simp: DecodeHeader_def)

subsection \<open>Body budget\<close>

lemma ClampMaxBody_bound: "unat (ClampMaxBody mx) \<le> MaxBodyBytes"
  by (auto simp: ClampMaxBody_def word_less_nat_alt not_less)

lemma ClampMaxBody_pos: "0 < ClampMaxBody mx"
  by (auto simp: ClampMaxBody_def word_gt_0)

lemma AllocateBody_Inr:
  "AllocateBody h mx = Inr b \<longleftrightarrow>
     hdr_Length h \<le> ClampMaxBody mx \<and> b = replicate (unat (hdr_Length h)) 0"
  by (auto simp: AllocateBody_def Let_def not_less)

lemma BodyBudget_bound:
  "unat (BodyBudget h mx) \<le> MaxBodyBytes \<and> BodyBudget h mx \<le> hdr_Length h"
  using ClampMaxBody_bound [of mx]
  by (auto simp: BodyBudget_def Let_def word_le_nat_alt word_less_nat_alt)

text \<open>A packet is accepted exactly when it is a header, a body of the declared length within the budget, and leftover bytes that are ignored.\<close>

lemma DecodePacket_Inr:
  "DecodePacket p mx = Inr (h, body) \<longleftrightarrow>
     (\<exists>r. p = Header_Encode h @ body @ r) \<and>
     length body = unat (hdr_Length h) \<and> hdr_Length h \<le> ClampMaxBody mx"
proof
  assume "DecodePacket p mx = Inr (h, body)"
  then have h: "DecodeHeader p = Inr h" and le: "hdr_Length h \<le> ClampMaxBody mx"
    and len: "12 + unat (hdr_Length h) \<le> length p"
    and b: "body = take (unat (hdr_Length h)) (drop 12 p)"
    by (auto simp: DecodePacket_def AllocateBody_Inr Let_def not_less
        split: sum.splits if_splits)
  have "p = Header_Encode h @ drop 12 p" by (rule DecodeHeader_InrD [OF h])
  also have "drop 12 p = body @ drop (unat (hdr_Length h)) (drop 12 p)"
    unfolding b by (rule append_take_drop_id [symmetric])
  finally show "(\<exists>r. p = Header_Encode h @ body @ r) \<and>
     length body = unat (hdr_Length h) \<and> hdr_Length h \<le> ClampMaxBody mx"
    using le len b by auto
next
  assume "(\<exists>r. p = Header_Encode h @ body @ r) \<and>
     length body = unat (hdr_Length h) \<and> hdr_Length h \<le> ClampMaxBody mx"
  then show "DecodePacket p mx = Inr (h, body)"
    by (auto simp: DecodePacket_def AllocateBody_def Let_def not_less [symmetric])
qed

subsection \<open>Sequence arithmetic\<close>

lemma unat_add_1_byte: "unat (s :: byte) < 255 \<Longrightarrow> unat (s + 1) = unat s + 1"
  by (simp add: unat_word_ariths)

lemma NextSeq_Inr:
  "NextSeq s = Inr t \<longleftrightarrow> 0 < unat s \<and> unat s < 255 \<and> t = s + 1"
proof -
  have "s = 255 \<longleftrightarrow> unat s = 255" by (simp add: word_unat_eq_iff)
  then show ?thesis
    using le_neq_implies_less [OF unat_byte_le [of s]]
    by (auto simp: NextSeq_def word_gt_0 unat_gt_0)
qed

lemma NextSeq_unat: "NextSeq s = Inr t \<Longrightarrow> unat t = unat s + 1"
  by (simp add: NextSeq_Inr unat_add_1_byte)

lemma NextSeq_Inl: "NextSeq s = Inl e \<longleftrightarrow> s = 0 \<and> e = ErrSeqZero \<or> s = 255 \<and> e = ErrSeqWrap"
  by (auto simp: NextSeq_def)

subsection \<open>Version octet\<close>

lemma VersionByte_nibbles:
  assumes "hdr_Version h = VersionByte m"
  shows "Header_Major h = MajorVer \<and> Header_Minor h = m AND 0x0f"
proof -
  have "drop_bit 4 (VersionByte m) = MajorVer"
    by (rule bit_word_eqI) (auto simp: VersionByte_def bit_simps)
  moreover have "VersionByte m AND 0x0f = m AND 0x0f"
    by (simp add: VersionByte_def bit.conj_disj_distrib2 and.assoc)
  ultimately show ?thesis by (simp add: assms Header_Major_def Header_Minor_def)
qed

lemma ClearUnknownFlags_idem: "ClearUnknownFlags (ClearUnknownFlags h) = ClearUnknownFlags h"
  by (simp add: ClearUnknownFlags_def and.assoc)

end
