(* ===== verification/Tacacs_Cursor.thy ===== *)
theory Tacacs_Cursor
  imports Tacacs_Header
begin

text \<open>
  The bounds-checked byte cursor of the TACACS+ body codec (\<open>cursor.go\<close>) and the
  printable-ASCII check (\<open>ascii.go\<close>).

  The locale \<open>byte_reader\<close> is the interface the body decoders rely on: a reader stands
  between the bytes already consumed and those still unread, and every read either
  moves an exact prefix of the unread part across or fails. The client lemmas, proved
  once inside the locale, turn "this read succeeded" into "the unread bytes start with
  what was read"; they are what makes the decoders' inverse lemmas automatic. The
  cursor of the code is an instance.
\<close>

record cursor =
  cur_b :: bytes
  cur_off :: nat

definition cursor_remain :: "cursor \<Rightarrow> nat" where
  "cursor_remain c = length (cur_b c) - cur_off c"

definition cursor_u8 :: "cursor \<Rightarrow> tac_err + (byte \<times> cursor)" where
  "cursor_u8 c =
     (if cursor_remain c < 1 then Inl ErrLengthMismatch
      else Inr (cur_b c ! cur_off c, c\<lparr>cur_off := cur_off c + 1\<rparr>))"

definition cursor_u16 :: "cursor \<Rightarrow> tac_err + (uint16 \<times> cursor)" where
  "cursor_u16 c =
     (if cursor_remain c < 2 then Inl ErrLengthMismatch
      else Inr (Uint16_BE (cur_b c ! cur_off c) (cur_b c ! (cur_off c + 1)),
                c\<lparr>cur_off := cur_off c + 2\<rparr>))"

text \<open>The length argument comes from an unsigned wire octet, so it is never negative.\<close>

definition cursor_bytes :: "cursor \<Rightarrow> nat \<Rightarrow> tac_err + (bytes \<times> cursor)" where
  "cursor_bytes c n =
     (if cursor_remain c < n then Inl ErrLengthMismatch
      else if n = 0 then Inr ([], c)
      else Inr (take n (drop (cur_off c) (cur_b c)), c\<lparr>cur_off := cur_off c + n\<rparr>))"

definition cursor_done :: "cursor \<Rightarrow> tac_err + unit" where
  "cursor_done c = guard_r (cur_off c = length (cur_b c)) ErrLengthMismatch"

definition u8len :: "'a list \<Rightarrow> tac_err + byte" where
  "u8len b = (if 255 < length b then Inl ErrFieldTooLong else Inr (of_nat (length b)))"

definition u16len :: "'a list \<Rightarrow> tac_err + uint16" where
  "u16len b = (if 65535 < length b then Inl ErrFieldTooLong else Inr (of_nat (length b)))"

definition checkBodyCap :: "nat \<Rightarrow> tac_err + unit" where
  "checkBodyCap n = guard_r (n \<le> MaxBodyBytes) ErrBodyTooLarge"

definition PrintableASCII :: "bytes \<Rightarrow> bool" where
  "PrintableASCII b = list_all (\<lambda>c. \<not> (c < 0x20 \<or> 0x7e < c)) b"

definition requirePrintable :: "bytes \<Rightarrow> tac_err + unit" where
  "requirePrintable b = guard_r (PrintableASCII b) ErrNonPrintable"

subsection \<open>The reader interface\<close>

locale byte_reader =
  fixes pos :: "bytes \<Rightarrow> bytes \<Rightarrow> 'c"
    and u8 :: "'c \<Rightarrow> 'e + (byte \<times> 'c)"
    and u16 :: "'c \<Rightarrow> 'e + (uint16 \<times> 'c)"
    and getn :: "'c \<Rightarrow> nat \<Rightarrow> 'e + (bytes \<times> 'c)"
    and left :: "'c \<Rightarrow> nat"
    and fin :: "'c \<Rightarrow> 'e + unit"
    and short :: 'e
  assumes u8_Nil: "u8 (pos pre []) = Inl short"
    and u8_Cons: "u8 (pos pre (x # s)) = Inr (x, pos (pre @ [x]) s)"
    and u16_short: "length s < 2 \<Longrightarrow> u16 (pos pre s) = Inl short"
    and u16_Cons: "u16 (pos pre (x # y # s)) = Inr (Uint16_BE x y, pos (pre @ [x, y]) s)"
    and getn_law: "getn (pos pre s) n =
      (if length s < n then Inl short else Inr (take n s, pos (pre @ take n s) (drop n s)))"
    and left_law: "left (pos pre s) = length s"
    and fin_law: "fin (pos pre s) = (if s = [] then Inr () else Inl short)"
begin

lemma u8_iff:
  "u8 (pos pre s) = Inr (x, c) \<longleftrightarrow> (\<exists>t. s = x # t \<and> c = pos (pre @ [x]) t)"
  by (cases s) (auto simp: u8_Nil u8_Cons)

lemma u8_short: "u8 (pos pre s) = Inl e \<longleftrightarrow> s = [] \<and> e = short"
  by (cases s) (auto simp: u8_Nil u8_Cons)

lemma u16_iff:
  "u16 (pos pre s) = Inr (v, c) \<longleftrightarrow>
     (\<exists>x y t. s = x # y # t \<and> v = Uint16_BE x y \<and> c = pos (pre @ [x, y]) t)"
proof (cases "length s < 2")
  case True
  then show ?thesis by (auto simp: u16_short)
next
  case False
  then obtain x y t where "s = x # y # t"
    by (metis One_nat_def Suc_1 length_Cons length_greater_0_conv lessI list.exhaust
        list.size(3) not_less_iff_gr_or_eq)
  then show ?thesis by (auto simp: u16_Cons)
qed

lemma getn_iff:
  "getn (pos pre s) n = Inr (b, c) \<longleftrightarrow>
     (\<exists>t. s = b @ t \<and> length b = n \<and> c = pos (pre @ b) t)"
proof
  assume "getn (pos pre s) n = Inr (b, c)"
  then have "n \<le> length s" "b = take n s" "c = pos (pre @ take n s) (drop n s)"
    by (auto simp: getn_law not_less split: if_splits)
  then show "\<exists>t. s = b @ t \<and> length b = n \<and> c = pos (pre @ b) t"
    by (auto intro!: exI [of _ "drop n s"])
qed (auto simp: getn_law)

lemma getn_append: "getn (pos pre (b @ t)) (length b) = Inr (b, pos (pre @ b) t)"
  by (simp add: getn_law)

lemma getn_all: "getn (pos pre b) (length b) = Inr (b, pos (pre @ b) [])"
  by (simp add: getn_law)

text \<open>A two-byte integer is two single bytes, the most significant first.\<close>

lemma u16_as_u8s:
  "u16 (pos pre s) = rbind (u8 (pos pre s)) (\<lambda>(x, c). rbind (u8 c) (\<lambda>(y, c'). Inr (Uint16_BE x y, c')))"
proof (cases s)
  case Nil
  then show ?thesis by (simp add: u16_short u8_Nil)
next
  case (Cons x t)
  then show ?thesis by (cases t) (auto simp: u16_short u16_Cons u8_Nil u8_Cons)
qed

text \<open>Every successful read hands over a prefix: nothing is skipped, nothing is read twice.\<close>

lemma getn_split:
  "getn (pos pre s) (m + n) =
     rbind (getn (pos pre s) m) (\<lambda>(a, c). rbind (getn c n) (\<lambda>(b, c'). Inr (a @ b, c')))"
  by (auto simp: getn_law take_add add.commute rbind_def split: if_splits)

end

subsection \<open>The cursor is such a reader\<close>

definition cursor_at :: "bytes \<Rightarrow> bytes \<Rightarrow> cursor" where
  "cursor_at pre s = \<lparr>cur_b = pre @ s, cur_off = length pre\<rparr>"

interpretation cur: byte_reader cursor_at cursor_u8 cursor_u16 cursor_bytes cursor_remain
    cursor_done ErrLengthMismatch
  by unfold_locales
    (auto simp: cursor_at_def cursor_u8_def cursor_u16_def cursor_bytes_def cursor_remain_def
      cursor_done_def guard_r_def nth_append)

lemma cursor_init [wire_simps]: "\<lparr>cur_b = p, cur_off = 0\<rparr> = cursor_at [] p"
  by (simp add: cursor_at_def)

lemmas cursor_reads [wire_simps] =
  cur.u8_Nil cur.u8_Cons cur.u16_Cons cur.getn_append cur.getn_all cur.left_law cur.fin_law

lemmas cursor_inverts = cur.u8_iff cur.u16_iff cur.getn_iff

subsection \<open>Length fields\<close>

lemma u8len_Inr [result_simps]: "u8len b = Inr l \<longleftrightarrow> length b \<le> 255 \<and> l = of_nat (length b)"
  by (auto simp: u8len_def)

lemma u16len_Inr [result_simps]: "u16len b = Inr l \<longleftrightarrow> length b \<le> 65535 \<and> l = of_nat (length b)"
  by (auto simp: u16len_def)

lemma u8len_unat [simp]: "length b = unat (l :: byte) \<Longrightarrow> u8len b = Inr l"
  by (simp add: u8len_def not_less)

lemma u16len_unat [simp]: "length b = unat (l :: uint16) \<Longrightarrow> u16len b = Inr l"
  by (simp add: u16len_def not_less)

lemma checkBodyCap_Inr [simp]: "checkBodyCap n = Inr u \<longleftrightarrow> n \<le> MaxBodyBytes"
  by (simp add: checkBodyCap_def)

lemma requirePrintable_Inr [simp]: "requirePrintable b = Inr u \<longleftrightarrow> PrintableASCII b"
  by (simp add: requirePrintable_def)

lemma requirePrintable_True [simp]: "PrintableASCII b \<Longrightarrow> requirePrintable b = Inr ()"
  by (simp add: requirePrintable_def)

lemma checkBodyCap_le [simp]: "n \<le> MaxBodyBytes \<Longrightarrow> checkBodyCap n = Inr ()"
  by (simp add: checkBodyCap_def)

lemma PrintableASCII_Nil [simp]: "PrintableASCII []"
  by (simp add: PrintableASCII_def)

lemma PrintableASCII_append [simp]:
  "PrintableASCII (a @ b) \<longleftrightarrow> PrintableASCII a \<and> PrintableASCII b"
  by (simp add: PrintableASCII_def)

lemma PrintableASCII_Cons [simp]:
  "PrintableASCII (x # b) \<longleftrightarrow> \<not> (x < 0x20 \<or> 0x7e < x) \<and> PrintableASCII b"
  by (simp add: PrintableASCII_def)

end
