(* ===== verification/Tacacs_Args.thy ===== *)
theory Tacacs_Args
  imports Tacacs_Cursor
begin

text \<open>
  Authorization and accounting arguments (\<open>internal/tacacs/codec/args.go\<close>): one
  argument is a name, a separator \<open>=\<close> or \<open>*\<close> and a value; a list of arguments is a run
  of one-byte lengths followed, later in the body, by the concatenated arguments.
\<close>

abbreviation (input) ArgSepMandatory :: byte where "ArgSepMandatory \<equiv> 0x3d"
abbreviation (input) ArgSepOptional :: byte where "ArgSepOptional \<equiv> 0x2a"

record Argument =
  arg_Name :: string
  arg_Separator :: byte
  arg_Value :: string

definition isArgSep :: "byte \<Rightarrow> bool" where
  "isArgSep c \<longleftrightarrow> c = ArgSepMandatory \<or> c = ArgSepOptional"

definition containsArgSep :: "string \<Rightarrow> bool" where
  "containsArgSep s = list_ex isArgSep (bytes_of_string s)"

definition Argument_Encode :: "Argument \<Rightarrow> tac_err + bytes" where
  "Argument_Encode a =
     (if arg_Name a = '''' then Inl ErrArgument
      else if containsArgSep (arg_Name a) then Inl ErrArgument
      else if \<not> (arg_Separator a = ArgSepMandatory \<or> arg_Separator a = ArgSepOptional) then Inl ErrArgument
      else (let n = length (arg_Name a) + 1 + length (arg_Value a)
            in if n < 2 \<or> 255 < n then Inl ErrFieldTooLong
               else (let out = bytes_of_string (arg_Name a) @ [arg_Separator a]
                               @ bytes_of_string (arg_Value a)
                     in rbind (requirePrintable out) (\<lambda>_. Inr out))))"

text \<open>The scan for the first separator: its index and the separator found, if any.\<close>

fun argSepScan :: "bytes \<Rightarrow> nat \<Rightarrow> (nat \<times> byte) option" where
  "argSepScan [] i = None"
| "argSepScan (c # cs) i = (if isArgSep c then Some (i, c) else argSepScan cs (i + 1))"

definition ParseArgument :: "bytes \<Rightarrow> tac_err + Argument option" where
  "ParseArgument raw =
     (if length raw = 0 then Inr None
      else rbind (requirePrintable raw) (\<lambda>_.
        case argSepScan raw 0 of
          None \<Rightarrow> Inl ErrArgument
        | Some (sep, kind) \<Rightarrow>
            if sep = 0 then Inl ErrArgument
            else Inr (Some \<lparr>arg_Name = string_of_bytes (take sep raw), arg_Separator = kind,
                            arg_Value = string_of_bytes (drop (sep + 1) raw)\<rparr>)))"

fun encodeArgLoop :: "Argument list \<Rightarrow> bytes \<Rightarrow> bytes \<Rightarrow> tac_err + (bytes \<times> bytes)" where
  "encodeArgLoop [] lens payload = Inr (lens, payload)"
| "encodeArgLoop (a # as) lens payload =
     rbind (Argument_Encode a) (\<lambda>raw. encodeArgLoop as (lens @ [of_nat (length raw)]) (payload @ raw))"

definition encodeArgList :: "Argument list \<Rightarrow> tac_err + (bytes \<times> bytes)" where
  "encodeArgList args =
     (if 255 < length args then Inl ErrTooManyArgs else encodeArgLoop args [] [])"

fun readArgLensLoop :: "cursor \<Rightarrow> nat \<Rightarrow> tac_err + (bytes \<times> cursor)" where
  "readArgLensLoop c 0 = Inr ([], c)"
| "readArgLensLoop c (Suc n) =
     rbind (cursor_u8 c) (\<lambda>(v, c'). rbind (readArgLensLoop c' n) (\<lambda>(vs, c''). Inr (v # vs, c'')))"

definition readArgLens :: "cursor \<Rightarrow> nat \<Rightarrow> tac_err + (bytes \<times> cursor)" where
  "readArgLens c n =
     (if 255 < n then Inl ErrTooManyArgs
      else if cursor_remain c < n then Inl ErrLengthMismatch
      else readArgLensLoop c n)"

fun readArgs :: "cursor \<Rightarrow> bytes \<Rightarrow> tac_err + (Argument list \<times> cursor)" where
  "readArgs c [] = Inr ([], c)"
| "readArgs c (ln # lens) =
     rbind (cursor_bytes c (unat ln)) (\<lambda>(raw, c').
     rbind (ParseArgument raw) (\<lambda>a.
     rbind (readArgs c' lens) (\<lambda>(as, c'').
     Inr ((case a of None \<Rightarrow> as | Some x \<Rightarrow> x # as), c''))))"

subsection \<open>One argument\<close>

lemma argSepScan_Some:
  "argSepScan raw i = Some (j, k) \<longleftrightarrow>
     (\<exists>a b. raw = a @ k # b \<and> j = i + length a \<and> isArgSep k \<and> \<not> list_ex isArgSep a)"
proof (induction raw i rule: argSepScan.induct)
  case (2 c cs i)
  show ?case
  proof (cases "isArgSep c")
    case True
    then show ?thesis by (auto simp: Cons_eq_append_conv)
  next
    case False
    show ?thesis
    proof
      assume "argSepScan (c # cs) i = Some (j, k)"
      with False have "argSepScan cs (i + 1) = Some (j, k)" by simp
      with "2.IH" [OF False] obtain a b where "cs = a @ k # b" "j = i + 1 + length a" "isArgSep k"
        "\<not> list_ex isArgSep a" by blast
      with False show "\<exists>a b. c # cs = a @ k # b \<and> j = i + length a \<and> isArgSep k \<and> \<not> list_ex isArgSep a"
        by (intro exI [of _ "c # a"] exI [of _ b]) simp
    next
      assume "\<exists>a b. c # cs = a @ k # b \<and> j = i + length a \<and> isArgSep k \<and> \<not> list_ex isArgSep a"
      then obtain a b where ab: "c # cs = a @ k # b" "j = i + length a" "isArgSep k"
        "\<not> list_ex isArgSep a" by blast
      with False obtain a' where "a = c # a'" by (cases a) auto
      with ab "2.IH" [OF False] have "argSepScan cs (i + 1) = Some (j, k)" by auto
      with False show "argSepScan (c # cs) i = Some (j, k)" by simp
    qed
  qed
qed simp

lemma ParseArgument_None: "ParseArgument raw = Inr None \<longleftrightarrow> raw = []"
  by (auto simp: ParseArgument_def result_simps split: option.splits if_splits)

lemma Argument_Encode_Inr:
  "Argument_Encode a = Inr raw \<longleftrightarrow>
     arg_Name a \<noteq> [] \<and> \<not> containsArgSep (arg_Name a) \<and> isArgSep (arg_Separator a) \<and>
     length raw \<le> 255 \<and> PrintableASCII raw \<and>
     raw = bytes_of_string (arg_Name a) @ arg_Separator a # bytes_of_string (arg_Value a)"
proof (cases "arg_Name a = []")
  case False
  then have "1 \<le> length (arg_Name a)" by (cases "arg_Name a") auto
  then show ?thesis
    using False by (auto simp: Argument_Encode_def isArgSep_def Let_def result_simps)
qed (simp add: Argument_Encode_def)

lemma ParseArgument_Some:
  "ParseArgument raw = Inr (Some a) \<longleftrightarrow>
     arg_Name a \<noteq> [] \<and> \<not> containsArgSep (arg_Name a) \<and> isArgSep (arg_Separator a) \<and>
     PrintableASCII raw \<and>
     raw = bytes_of_string (arg_Name a) @ arg_Separator a # bytes_of_string (arg_Value a)"
  (is "?p \<longleftrightarrow> ?w")
proof
  assume ?p
  then obtain x k y where "raw = x @ k # y" "isArgSep k" "\<not> list_ex isArgSep x" "x \<noteq> []"
    "a = \<lparr>arg_Name = string_of_bytes x, arg_Separator = k, arg_Value = string_of_bytes y\<rparr>"
    "PrintableASCII raw"
    by (auto simp: ParseArgument_def result_simps argSepScan_Some split: option.splits if_splits)
  then show ?w by (simp add: containsArgSep_def)
next
  assume w: ?w
  then have "argSepScan raw 0 = Some (length (arg_Name a), arg_Separator a)"
    unfolding argSepScan_Some containsArgSep_def
    by (intro exI [of _ "bytes_of_string (arg_Name a)"] exI [of _ "bytes_of_string (arg_Value a)"]) simp
  with w show ?p by (cases a) (auto simp: ParseArgument_def)
qed

lemma ParseArgument_Encode:
  "Argument_Encode a = Inr raw \<longleftrightarrow> ParseArgument raw = Inr (Some a) \<and> length raw \<le> 255"
  by (auto simp: Argument_Encode_Inr ParseArgument_Some)

subsection \<open>Lists of arguments\<close>

lemma encodeArgLoop_Inr:
  "encodeArgLoop args l0 p0 = Inr (lens, payload) \<longleftrightarrow>
     (\<exists>raws. list_all2 (\<lambda>a r. Argument_Encode a = Inr r) args raws \<and>
             lens = l0 @ map (of_nat \<circ> length) raws \<and> payload = p0 @ concat raws)"
proof (induction args arbitrary: l0 p0)
  case Nil
  then show ?case by auto
next
  case (Cons a args)
  show ?case by (simp add: result_simps Cons.IH list_all2_Cons1) fastforce
qed

lemma encodeArgList_Inr:
  "encodeArgList args = Inr (lens, payload) \<longleftrightarrow>
     length args \<le> 255 \<and>
     (\<exists>raws. list_all2 (\<lambda>a r. Argument_Encode a = Inr r) args raws \<and>
             lens = map (of_nat \<circ> length) raws \<and> payload = concat raws)"
  by (auto simp: encodeArgList_def encodeArgLoop_Inr)

lemma readArgLensLoop_Inr:
  "readArgLensLoop (cursor_at pre s) n = Inr (lens, c) \<longleftrightarrow>
     (\<exists>t. s = lens @ t \<and> length lens = n \<and> c = cursor_at (pre @ lens) t)"
proof (induction n arbitrary: pre s lens c)
  case 0
  then show ?case by auto
next
  case (Suc n)
  show ?case
  proof (cases s)
    case Nil
    then show ?thesis by (auto simp: wire_simps)
  next
    case (Cons x t)
    then show ?thesis
      by (cases lens) (auto simp: wire_simps result_simps Suc.IH)
  qed
qed

lemma readArgLens_Inr:
  "readArgLens (cursor_at pre s) n = Inr (lens, c) \<longleftrightarrow>
     n \<le> 255 \<and> (\<exists>t. s = lens @ t \<and> length lens = n \<and> c = cursor_at (pre @ lens) t)"
  by (auto simp: readArgLens_def readArgLensLoop_Inr cur.left_law)

text \<open>
  Reading a run of arguments splits off one slice per length octet, parses each and drops
  the empty ones.
\<close>

primrec somes :: "'a option list \<Rightarrow> 'a list" where
  "somes [] = []"
| "somes (p # ps) = (case p of None \<Rightarrow> somes ps | Some x \<Rightarrow> x # somes ps)"

lemma readArgs_Inr:
  "readArgs (cursor_at pre s) lens = Inr (args, c) \<longleftrightarrow>
     (\<exists>raws opts t. s = concat raws @ t \<and> map length raws = map unat lens \<and>
        c = cursor_at (pre @ concat raws) t \<and>
        list_all2 (\<lambda>r p. ParseArgument r = Inr p) raws opts \<and> args = somes opts)"
proof (induction lens arbitrary: pre s args c)
  case Nil
  then show ?case by auto
next
  case (Cons ln lens)
  show ?case (is "?l \<longleftrightarrow> ?r")
  proof
    assume ?l
    then obtain raw s' p as c' where "s = raw @ s'" "length raw = unat ln"
      "ParseArgument raw = Inr p" "readArgs (cursor_at (pre @ raw) s') lens = Inr (as, c)"
      "args = (case p of None \<Rightarrow> as | Some x \<Rightarrow> x # as)"
      by (auto simp: result_simps cur.getn_iff)
    then obtain raws opts t where "s' = concat raws @ t" "map length raws = map unat lens"
      "c = cursor_at (pre @ raw @ concat raws) t"
      "list_all2 (\<lambda>r p. ParseArgument r = Inr p) raws opts" "as = somes opts"
      using Cons.IH by auto
    then show ?r
      using \<open>s = raw @ s'\<close> \<open>length raw = unat ln\<close> \<open>ParseArgument raw = Inr p\<close> \<open>args = _\<close>
      by (intro exI [of _ "raw # raws"] exI [of _ "p # opts"] exI [of _ t])
        (auto split: option.splits)
  next
    assume ?r
    then obtain raw raws p opts t where "s = raw @ concat raws @ t" "length raw = unat ln"
      "map length raws = map unat lens" "c = cursor_at (pre @ raw @ concat raws) t"
      "ParseArgument raw = Inr p" "list_all2 (\<lambda>r p. ParseArgument r = Inr p) raws opts"
      "args = somes (p # opts)"
      by (auto simp: Cons_eq_map_conv map_eq_Cons_conv list_all2_Cons1)
    moreover from this have
      "readArgs (cursor_at (pre @ raw) (concat raws @ t)) lens = Inr (somes opts, c)"
      using Cons.IH by auto
    ultimately show ?l
      by (auto simp: cur.getn_law split: option.splits)
  qed
qed

text \<open>
  An encoded list is read back unchanged; conversely, a run with no empty argument is the
  encoding of what it is read as.
\<close>

lemma list_all2_Encode_Parse:
  "list_all2 (\<lambda>a r. Argument_Encode a = Inr r) args raws \<longleftrightarrow>
     list_all2 (\<lambda>r p. ParseArgument r = Inr p) raws (map Some args) \<and>
     (\<forall>r\<in>set raws. length r \<le> 255)"
  by (induction args arbitrary: raws)
    (auto simp: list_all2_Cons1 list_all2_Cons2 ParseArgument_Encode)

lemma somes_Some [simp]: "somes (map Some xs) = xs"
  by (induction xs) auto

lemma length_somes_le: "length (somes xs) \<le> length xs"
  by (induction xs) (auto split: option.splits)

lemma somes_full:
  "length (somes opts) = length opts \<Longrightarrow> opts = map Some (somes opts)"
proof (induction opts)
  case (Cons p opts)
  show ?case
  proof (cases p)
    case None
    with Cons.prems length_somes_le [of opts] show ?thesis by simp
  next
    case (Some x)
    with Cons show ?thesis by simp
  qed
qed simp

lemma map_unat_of_nat_lengths:
  "\<forall>r\<in>set raws. length r \<le> 255 \<Longrightarrow> map unat (map (of_nat \<circ> length) raws :: bytes) = map length raws"
  by (induction raws) auto

lemma map_of_nat_unat_lengths:
  "map length raws = map unat (lens :: bytes) \<Longrightarrow>
     map (of_nat \<circ> length) raws = lens \<and> (\<forall>r\<in>set raws. length r \<le> 255)"
  by (induction raws arbitrary: lens) (auto simp: Cons_eq_map_conv map_eq_Cons_conv)

text \<open>
  The two halves of an argument list on the wire (lengths, payload) against the list: this
  is the form the body codecs use.
\<close>

definition argsOnWire :: "Argument list \<Rightarrow> bytes \<Rightarrow> bytes \<Rightarrow> bool" where
  "argsOnWire args lens payload \<longleftrightarrow>
     (\<exists>raws. list_all2 (\<lambda>a r. Argument_Encode a = Inr r) args raws \<and>
             lens = map (of_nat \<circ> length) raws \<and> payload = concat raws)"

lemma argsOnWire_length: "argsOnWire args lens payload \<Longrightarrow> length lens = length args"
  by (auto simp: argsOnWire_def dest: list_all2_lengthD)

lemma encodeArgList_onWire:
  "encodeArgList args = Inr (lens, payload) \<longleftrightarrow> length lens \<le> 255 \<and> argsOnWire args lens payload"
  unfolding encodeArgList_Inr argsOnWire_def [symmetric] using argsOnWire_length by metis

lemma readArgs_onWire:
  assumes "argsOnWire args lens payload"
  shows "readArgs (cursor_at pre (payload @ t)) lens = Inr (args, cursor_at (pre @ payload) t)"
proof -
  obtain raws where r: "list_all2 (\<lambda>a r. Argument_Encode a = Inr r) args raws"
    "lens = map (of_nat \<circ> length) raws" "payload = concat raws"
    using assms by (auto simp: argsOnWire_def)
  then have "list_all2 (\<lambda>r p. ParseArgument r = Inr p) raws (map Some args)"
    and "map length raws = map unat lens"
    using map_unat_of_nat_lengths by (auto simp: list_all2_Encode_Parse)
  then show ?thesis
    unfolding readArgs_Inr
    by (intro exI [of _ raws] exI [of _ "map Some args"] exI [of _ t]) (simp add: r(3))
qed

lemma onWire_readArgs:
  assumes "readArgs (cursor_at pre s) lens = Inr (args, c)" and "length args = length lens"
  shows "\<exists>payload t. s = payload @ t \<and> c = cursor_at (pre @ payload) t \<and> argsOnWire args lens payload"
proof -
  obtain raws opts t where r: "s = concat raws @ t" "map length raws = map unat lens"
    "c = cursor_at (pre @ concat raws) t"
    "list_all2 (\<lambda>r p. ParseArgument r = Inr p) raws opts" "args = somes opts"
    using assms(1) by (auto simp: readArgs_Inr)
  have "length opts = length lens"
    using r(2,4) by (metis length_map list_all2_lengthD)
  with assms(2) have "opts = map Some args"
    using r(5) somes_full by metis
  then have "list_all2 (\<lambda>a r. Argument_Encode a = Inr r) args raws"
    using r(4) map_of_nat_unat_lengths [OF r(2)] by (simp add: list_all2_Encode_Parse)
  then have "argsOnWire args lens (concat raws)"
    unfolding argsOnWire_def using map_of_nat_unat_lengths [OF r(2)]
    by (intro exI [of _ raws]) simp
  with r(1,3) show ?thesis by blast
qed

text \<open>
  The last part of a body: its payload read to the end against its length octets. A body
  may hold empty arguments, which are dropped, so the list can be shorter than the octets;
  when it is not, the payload is the encoding of the list.
\<close>

definition argsRead :: "bytes \<Rightarrow> bytes \<Rightarrow> Argument list \<Rightarrow> bool" where
  "argsRead lens payload args \<longleftrightarrow>
     (\<exists>raws opts. payload = concat raws \<and> map length raws = map unat lens \<and>
        list_all2 (\<lambda>r p. ParseArgument r = Inr p) raws opts \<and> args = somes opts)"

lemma readArgs_iff:
  "readArgs (cursor_at pre s) lens = Inr (args, c) \<longleftrightarrow>
     (\<exists>payload t. s = payload @ t \<and> c = cursor_at (pre @ payload) t \<and> argsRead lens payload args)"
  unfolding readArgs_Inr argsRead_def by blast

lemma readArgs_read:
  "argsRead lens s args \<Longrightarrow>
     readArgs (cursor_at pre s) lens = Inr (args, cursor_at (pre @ s) [])"
  by (auto simp: readArgs_iff)

lemma readArgLens_append:
  "n = length lens \<Longrightarrow> n \<le> 255 \<Longrightarrow>
     readArgLens (cursor_at pre (lens @ t)) n = Inr (lens, cursor_at (pre @ lens) t)"
  by (simp add: readArgLens_Inr)

lemma readArgs_done:
  "rbind (readArgs (cursor_at pre s) lens) (\<lambda>(args, c). rbind (cursor_done c) (\<lambda>_. f args)) = Inr y \<longleftrightarrow>
     (\<exists>args. argsRead lens s args \<and> f args = Inr y)" (is "?l \<longleftrightarrow> ?r")
proof
  assume ?l
  then obtain args c where "readArgs (cursor_at pre s) lens = Inr (args, c)"
    "cursor_done c = Inr ()" "f args = Inr y"
    by (auto simp: result_simps)
  then show ?r
    by (auto simp: readArgs_iff cur.fin_law split: if_splits)
next
  assume ?r
  then obtain args where "argsRead lens s args" "f args = Inr y" by blast
  moreover from this have "readArgs (cursor_at pre s) lens = Inr (args, cursor_at (pre @ s) [])"
    by (simp add: readArgs_read)
  ultimately show ?l by (simp add: cur.fin_law)
qed

lemma argsRead_onWire:
  "argsOnWire args lens s \<longleftrightarrow> argsRead lens s args \<and> length args = length lens" (is "?w \<longleftrightarrow> ?r")
proof
  assume ?w
  with readArgs_onWire [of args lens s "[]" "[]"] readArgs_done [of "[]" s lens "\<lambda>a. Inr a" args]
  show ?r by (simp add: cur.fin_law argsOnWire_length)
next
  assume r: ?r
  then have "readArgs (cursor_at [] s) lens = Inr (args, cursor_at s [])"
    using readArgs_read [of lens s args "[]"] by simp
  with r onWire_readArgs [of "[]" s lens args "cursor_at s []"]
  show ?w by (auto simp: cursor_at_def)
qed

lemma argsRead_length: "argsRead lens s args \<Longrightarrow> length args \<le> length lens"
  unfolding argsRead_def using length_somes_le list_all2_lengthD map_eq_imp_length_eq by metis

end
