(* ===== verification/Tacacs_Author.thy ===== *)
theory Tacacs_Author
  imports Tacacs_Args
begin

text \<open>
  Authorization bodies (\<open>internal/tacacs/codec/author.go\<close>): REQUEST and RESPONSE, each a
  fixed part, a run of argument lengths, text fields and the arguments.
\<close>

abbreviation (input) AuthorStatusPassAdd :: byte where "AuthorStatusPassAdd \<equiv> 0x01"
abbreviation (input) AuthorStatusPassRepl :: byte where "AuthorStatusPassRepl \<equiv> 0x02"
abbreviation (input) AuthorStatusFail :: byte where "AuthorStatusFail \<equiv> 0x10"
abbreviation (input) AuthorStatusError :: byte where "AuthorStatusError \<equiv> 0x11"
abbreviation (input) AuthorStatusFollow :: byte where "AuthorStatusFollow \<equiv> 0x21"

record AuthorRequest =
  arq_AuthenMethod :: byte
  arq_PrivLvl :: byte
  arq_AuthenType :: byte
  arq_Service :: byte
  arq_User :: bytes
  arq_Port :: bytes
  arq_RemAddr :: bytes
  arq_Args :: "Argument list"

definition DecodeAuthorRequest :: "bytes \<Rightarrow> tac_err + AuthorRequest" where
  "DecodeAuthorRequest p =
     rbind (cursor_u8 \<lparr>cur_b = p, cur_off = 0\<rparr>) (\<lambda>(authenMethod, c).
     rbind (cursor_u8 c) (\<lambda>(privLvl, c).
     rbind (cursor_u8 c) (\<lambda>(authenType, c).
     rbind (cursor_u8 c) (\<lambda>(service, c).
     rbind (cursor_u8 c) (\<lambda>(userLen, c).
     rbind (cursor_u8 c) (\<lambda>(portLen, c).
     rbind (cursor_u8 c) (\<lambda>(remLen, c).
     rbind (cursor_u8 c) (\<lambda>(argCnt, c).
     rbind (readArgLens c (unat argCnt)) (\<lambda>(lens, c).
     rbind (cursor_bytes c (unat userLen)) (\<lambda>(user, c).
     rbind (cursor_bytes c (unat portLen)) (\<lambda>(port, c).
     rbind (cursor_bytes c (unat remLen)) (\<lambda>(remAddr, c).
     rbind (readArgs c lens) (\<lambda>(args, c).
     rbind (cursor_done c) (\<lambda>_.
     rbind (requirePrintable port) (\<lambda>_.
     rbind (requirePrintable remAddr) (\<lambda>_.
     Inr \<lparr>arq_AuthenMethod = authenMethod, arq_PrivLvl = privLvl, arq_AuthenType = authenType,
          arq_Service = service, arq_User = user, arq_Port = port, arq_RemAddr = remAddr,
          arq_Args = args\<rparr>))))))))))))))))"

definition AuthorRequest_Encode :: "AuthorRequest \<Rightarrow> tac_err + bytes" where
  "AuthorRequest_Encode r =
     rbind (requirePrintable (arq_Port r)) (\<lambda>_.
     rbind (requirePrintable (arq_RemAddr r)) (\<lambda>_.
     rbind (u8len (arq_User r)) (\<lambda>ul.
     rbind (u8len (arq_Port r)) (\<lambda>pl.
     rbind (u8len (arq_RemAddr r)) (\<lambda>rl.
     rbind (encodeArgList (arq_Args r)) (\<lambda>(lens, payload).
     rbind (checkBodyCap (8 + length lens + unat ul + unat pl + unat rl + length payload)) (\<lambda>_.
     Inr ([arq_AuthenMethod r, arq_PrivLvl r, arq_AuthenType r, arq_Service r, ul, pl, rl,
           of_nat (length lens)]
          @ lens @ arq_User r @ arq_Port r @ arq_RemAddr r @ payload))))))))"

record AuthorResponse =
  ars_Status :: byte
  ars_ServerMsg :: bytes
  ars_Data :: bytes
  ars_Args :: "Argument list"

definition DecodeAuthorResponse :: "bytes \<Rightarrow> tac_err + AuthorResponse" where
  "DecodeAuthorResponse p =
     rbind (cursor_u8 \<lparr>cur_b = p, cur_off = 0\<rparr>) (\<lambda>(status, c).
     rbind (cursor_u8 c) (\<lambda>(argCnt, c).
     rbind (cursor_u16 c) (\<lambda>(smLen, c).
     rbind (cursor_u16 c) (\<lambda>(dataLen, c).
     rbind (readArgLens c (unat argCnt)) (\<lambda>(lens, c).
     rbind (cursor_bytes c (unat smLen)) (\<lambda>(serverMsg, c).
     rbind (cursor_bytes c (unat dataLen)) (\<lambda>(data, c).
     rbind (readArgs c lens) (\<lambda>(args, c).
     rbind (cursor_done c) (\<lambda>_.
     rbind (requirePrintable serverMsg) (\<lambda>_.
     rbind (requirePrintable data) (\<lambda>_.
     Inr \<lparr>ars_Status = status, ars_ServerMsg = serverMsg, ars_Data = data,
          ars_Args = args\<rparr>)))))))))))"

definition AuthorResponse_Encode :: "AuthorResponse \<Rightarrow> tac_err + bytes" where
  "AuthorResponse_Encode r =
     rbind (guard_r (ars_Status r \<noteq> AuthorStatusFollow) ErrFollow) (\<lambda>_.
     rbind (requirePrintable (ars_ServerMsg r)) (\<lambda>_.
     rbind (requirePrintable (ars_Data r)) (\<lambda>_.
     rbind (u16len (ars_ServerMsg r)) (\<lambda>sl.
     rbind (u16len (ars_Data r)) (\<lambda>dl.
     rbind (encodeArgList (ars_Args r)) (\<lambda>(lens, payload).
     rbind (checkBodyCap (6 + length lens + unat sl + unat dl + length payload)) (\<lambda>_.
     Inr ([ars_Status r, of_nat (length lens)] @ PutUint16_BE sl @ PutUint16_BE dl
          @ lens @ ars_ServerMsg r @ ars_Data r @ payload))))))))"

definition KnownAuthorStatus :: "byte \<Rightarrow> bool" where
  "KnownAuthorStatus status \<longleftrightarrow>
     status \<in> {AuthorStatusPassAdd, AuthorStatusPassRepl, AuthorStatusFail, AuthorStatusError,
               AuthorStatusFollow}"

subsection \<open>What the decoders accept\<close>

lemma DecodeAuthorRequest_Inr:
  "DecodeAuthorRequest p = Inr r \<longleftrightarrow>
     PrintableASCII (arq_Port r) \<and> PrintableASCII (arq_RemAddr r) \<and>
     length (arq_User r) \<le> 255 \<and> length (arq_Port r) \<le> 255 \<and> length (arq_RemAddr r) \<le> 255 \<and>
     (\<exists>lens payload. length lens \<le> 255 \<and> argsRead lens payload (arq_Args r) \<and>
        p = [arq_AuthenMethod r, arq_PrivLvl r, arq_AuthenType r, arq_Service r,
             of_nat (length (arq_User r)), of_nat (length (arq_Port r)),
             of_nat (length (arq_RemAddr r)), of_nat (length lens)]
            @ lens @ arq_User r @ arq_Port r @ arq_RemAddr r @ payload)"
  (is "?d \<longleftrightarrow> ?w")
proof
  assume ?d
  then show ?w
    by (auto simp: DecodeAuthorRequest_def wire_simps result_simps cursor_inverts readArgLens_Inr
        readArgs_iff split: if_splits) (metis unat_byte_le of_nat_unat_byte)
next
  assume ?w
  then obtain lens payload where "length lens \<le> 255" "argsRead lens payload (arq_Args r)"
    "p = [arq_AuthenMethod r, arq_PrivLvl r, arq_AuthenType r, arq_Service r,
             of_nat (length (arq_User r)), of_nat (length (arq_Port r)),
             of_nat (length (arq_RemAddr r)), of_nat (length lens)]
            @ lens @ arq_User r @ arq_Port r @ arq_RemAddr r @ payload"
    by blast
  with \<open>?w\<close> show ?d
    by (cases r) (simp add: DecodeAuthorRequest_def wire_simps readArgLens_append readArgs_read)
qed

lemma DecodeAuthorResponse_Inr:
  "DecodeAuthorResponse p = Inr r \<longleftrightarrow>
     PrintableASCII (ars_ServerMsg r) \<and> PrintableASCII (ars_Data r) \<and>
     length (ars_ServerMsg r) \<le> 65535 \<and> length (ars_Data r) \<le> 65535 \<and>
     (\<exists>lens payload. length lens \<le> 255 \<and> argsRead lens payload (ars_Args r) \<and>
        p = [ars_Status r, of_nat (length lens)]
            @ PutUint16_BE (of_nat (length (ars_ServerMsg r)))
            @ PutUint16_BE (of_nat (length (ars_Data r)))
            @ lens @ ars_ServerMsg r @ ars_Data r @ payload)"
  (is "?d \<longleftrightarrow> ?w")
proof
  assume ?d
  then show ?w
    by (auto simp: DecodeAuthorResponse_def wire_simps result_simps cursor_inverts readArgLens_Inr
        readArgs_iff split: if_splits) (metis unat_byte_le of_nat_unat_byte)
next
  assume ?w
  then obtain lens payload where "length lens \<le> 255" "argsRead lens payload (ars_Args r)"
    "p = [ars_Status r, of_nat (length lens)]
            @ PutUint16_BE (of_nat (length (ars_ServerMsg r)))
            @ PutUint16_BE (of_nat (length (ars_Data r)))
            @ lens @ ars_ServerMsg r @ ars_Data r @ payload"
    by blast
  with \<open>?w\<close> show ?d
    by (cases r)
      (simp add: DecodeAuthorResponse_def PutUint16_BE_def wire_simps readArgLens_append readArgs_read)
qed

subsection \<open>What the encoders produce\<close>

lemma AuthorRequest_Encode_Inr:
  "AuthorRequest_Encode r = Inr p \<longleftrightarrow>
     PrintableASCII (arq_Port r) \<and> PrintableASCII (arq_RemAddr r) \<and>
     length (arq_User r) \<le> 255 \<and> length (arq_Port r) \<le> 255 \<and> length (arq_RemAddr r) \<le> 255 \<and>
     length p \<le> MaxBodyBytes \<and>
     (\<exists>lens payload. length lens \<le> 255 \<and> argsOnWire (arq_Args r) lens payload \<and>
        p = [arq_AuthenMethod r, arq_PrivLvl r, arq_AuthenType r, arq_Service r,
             of_nat (length (arq_User r)), of_nat (length (arq_Port r)),
             of_nat (length (arq_RemAddr r)), of_nat (length lens)]
            @ lens @ arq_User r @ arq_Port r @ arq_RemAddr r @ payload)"
  by (auto simp: AuthorRequest_Encode_def result_simps encodeArgList_onWire)

lemma AuthorResponse_Encode_Inr:
  "AuthorResponse_Encode r = Inr p \<longleftrightarrow>
     ars_Status r \<noteq> AuthorStatusFollow \<and>
     PrintableASCII (ars_ServerMsg r) \<and> PrintableASCII (ars_Data r) \<and>
     length (ars_ServerMsg r) \<le> 65535 \<and> length (ars_Data r) \<le> 65535 \<and>
     length p \<le> MaxBodyBytes \<and>
     (\<exists>lens payload. length lens \<le> 255 \<and> argsOnWire (ars_Args r) lens payload \<and>
        p = [ars_Status r, of_nat (length lens)]
            @ PutUint16_BE (of_nat (length (ars_ServerMsg r)))
            @ PutUint16_BE (of_nat (length (ars_Data r)))
            @ lens @ ars_ServerMsg r @ ars_Data r @ payload)"
  by (auto simp: AuthorResponse_Encode_def result_simps encodeArgList_onWire)

subsection \<open>Properties\<close>

text \<open>
  An authorization REQUEST encodes to a byte string if and only if the string
  is within the body cap, decodes to that request and declares (octet 7) exactly as many
  arguments as the request has; in a string that declares more, the surplus arguments are
  empty and the decoder drops them.
\<close>

theorem AuthorRequest_codec:
  "AuthorRequest_Encode r = Inr p \<longleftrightarrow>
     length p \<le> MaxBodyBytes \<and> DecodeAuthorRequest p = Inr r \<and> unat (p ! 7) = length (arq_Args r)"
  unfolding AuthorRequest_Encode_Inr DecodeAuthorRequest_Inr argsRead_onWire by auto

text \<open>
  An authorization RESPONSE encodes to a byte string if and only if its status
  is not FOLLOW, the string is within the body cap, decodes to that response and declares
  (octet 1) exactly as many arguments as the response has.
\<close>

theorem AuthorResponse_codec:
  "AuthorResponse_Encode r = Inr p \<longleftrightarrow>
     ars_Status r \<noteq> AuthorStatusFollow \<and> length p \<le> MaxBodyBytes \<and>
     DecodeAuthorResponse p = Inr r \<and> unat (p ! 1) = length (ars_Args r)"
  unfolding AuthorResponse_Encode_Inr DecodeAuthorResponse_Inr argsRead_onWire by auto

end
