(* ===== verification/Tacacs_Acct.thy ===== *)
theory Tacacs_Acct
  imports Tacacs_Args
begin

text \<open>
  Accounting bodies (\<open>internal/tacacs/codec/acct.go\<close>): REQUEST, whose decoder hands back the
  fields together with the error when only the flag combination is invalid, and REPLY.
\<close>

abbreviation (input) AcctFlagStart :: byte where "AcctFlagStart \<equiv> 0x02"
abbreviation (input) AcctFlagStop :: byte where "AcctFlagStop \<equiv> 0x04"
abbreviation (input) AcctFlagWatchdog :: byte where "AcctFlagWatchdog \<equiv> 0x08"
abbreviation (input) AcctFlagWatchdogUpdate :: byte where "AcctFlagWatchdogUpdate \<equiv> 0x0a"
abbreviation (input) AcctStatusSuccess :: byte where "AcctStatusSuccess \<equiv> 0x01"
abbreviation (input) AcctStatusError :: byte where "AcctStatusError \<equiv> 0x02"
abbreviation (input) AcctStatusFollow :: byte where "AcctStatusFollow \<equiv> 0x21"

record AcctRequest =
  acq_Flags :: byte
  acq_AuthenMethod :: byte
  acq_PrivLvl :: byte
  acq_AuthenType :: byte
  acq_Service :: byte
  acq_User :: bytes
  acq_Port :: bytes
  acq_RemAddr :: bytes
  acq_Args :: "Argument list"

definition zero_AcctRequest :: AcctRequest where
  "zero_AcctRequest = \<lparr>acq_Flags = 0, acq_AuthenMethod = 0, acq_PrivLvl = 0, acq_AuthenType = 0,
     acq_Service = 0, acq_User = [], acq_Port = [], acq_RemAddr = [], acq_Args = []\<rparr>"

definition UseArguments :: "AcctRequest \<Rightarrow> bool" where
  "UseArguments r \<longleftrightarrow> acq_Flags r \<noteq> AcctFlagWatchdog"

definition ValidAcctFlags :: "byte \<Rightarrow> bool" where
  "ValidAcctFlags flags \<longleftrightarrow>
     flags \<in> {AcctFlagStart, AcctFlagStop, AcctFlagWatchdog, AcctFlagWatchdogUpdate}"

text \<open>Everything \<open>DecodeAcctRequest\<close> does before its flag check.\<close>

definition decodeAcctFields :: "bytes \<Rightarrow> tac_err + AcctRequest" where
  "decodeAcctFields p =
     rbind (cursor_u8 \<lparr>cur_b = p, cur_off = 0\<rparr>) (\<lambda>(flags, c).
     rbind (cursor_u8 c) (\<lambda>(authenMethod, c).
     rbind (cursor_u8 c) (\<lambda>(privLvl, c).
     rbind (cursor_u8 c) (\<lambda>(authenType, c).
     rbind (cursor_u8 c) (\<lambda>(service, c).
     rbind (cursor_u8 c) (\<lambda>(userLen, c).
     rbind (cursor_u8 c) (\<lambda>(portLen, c).
     rbind (cursor_u8 c) (\<lambda>(remLen, c).
     rbind (cursor_u8 c) (\<lambda>(argCnt, c).
     rbind (readArgLens c (unat argCnt)) (\<lambda>(lens, c).
     rbind (cursor_bytes c (unat userLen)) (\<lambda>(user, c).
     rbind (cursor_bytes c (unat portLen)) (\<lambda>(port, c).
     rbind (cursor_bytes c (unat remLen)) (\<lambda>(remAddr, c).
     rbind (readArgs c lens) (\<lambda>(args, c).
     rbind (cursor_done c) (\<lambda>_.
     rbind (requirePrintable port) (\<lambda>_.
     rbind (requirePrintable remAddr) (\<lambda>_.
     Inr \<lparr>acq_Flags = flags, acq_AuthenMethod = authenMethod, acq_PrivLvl = privLvl,
          acq_AuthenType = authenType, acq_Service = service, acq_User = user, acq_Port = port,
          acq_RemAddr = remAddr, acq_Args = args\<rparr>)))))))))))))))))"

text \<open>The error side carries the value Go returns beside the error.\<close>

definition DecodeAcctRequest :: "bytes \<Rightarrow> (AcctRequest \<times> tac_err) + AcctRequest" where
  "DecodeAcctRequest p =
     (case decodeAcctFields p of
        Inl e \<Rightarrow> Inl (zero_AcctRequest, e)
      | Inr z \<Rightarrow> if \<not> ValidAcctFlags (acq_Flags z) then Inl (z, ErrAcctFlags) else Inr z)"

definition AcctRequest_Encode :: "AcctRequest \<Rightarrow> tac_err + bytes" where
  "AcctRequest_Encode r =
     rbind (guard_r (ValidAcctFlags (acq_Flags r)) ErrAcctFlags) (\<lambda>_.
     rbind (requirePrintable (acq_Port r)) (\<lambda>_.
     rbind (requirePrintable (acq_RemAddr r)) (\<lambda>_.
     rbind (u8len (acq_User r)) (\<lambda>ul.
     rbind (u8len (acq_Port r)) (\<lambda>pl.
     rbind (u8len (acq_RemAddr r)) (\<lambda>rl.
     (let args = (if \<not> UseArguments r then [] else acq_Args r)
      in rbind (encodeArgList args) (\<lambda>(lens, payload).
     rbind (checkBodyCap (9 + length lens + unat ul + unat pl + unat rl + length payload)) (\<lambda>_.
     Inr ([acq_Flags r, acq_AuthenMethod r, acq_PrivLvl r, acq_AuthenType r, acq_Service r,
           ul, pl, rl, of_nat (length lens)]
          @ lens @ acq_User r @ acq_Port r @ acq_RemAddr r @ payload))))))))))"

record AcctReply =
  acr_Status :: byte
  acr_ServerMsg :: bytes
  acr_Data :: bytes

definition DecodeAcctReply :: "bytes \<Rightarrow> tac_err + AcctReply" where
  "DecodeAcctReply p =
     rbind (cursor_u16 \<lparr>cur_b = p, cur_off = 0\<rparr>) (\<lambda>(smLen, c).
     rbind (cursor_u16 c) (\<lambda>(dataLen, c).
     rbind (cursor_u8 c) (\<lambda>(status, c).
     (let need = unat smLen + unat dataLen
      in rbind (guard_r (cursor_remain c = need) ErrLengthMismatch) (\<lambda>_.
     rbind (cursor_bytes c (unat smLen)) (\<lambda>(serverMsg, c).
     rbind (cursor_bytes c (unat dataLen)) (\<lambda>(data, c).
     rbind (cursor_done c) (\<lambda>_.
     rbind (requirePrintable serverMsg) (\<lambda>_.
     rbind (requirePrintable data) (\<lambda>_.
     Inr \<lparr>acr_Status = status, acr_ServerMsg = serverMsg, acr_Data = data\<rparr>))))))))))"

definition AcctReply_Encode :: "AcctReply \<Rightarrow> tac_err + bytes" where
  "AcctReply_Encode r =
     rbind (guard_r (acr_Status r \<noteq> AcctStatusFollow) ErrFollow) (\<lambda>_.
     rbind (requirePrintable (acr_ServerMsg r)) (\<lambda>_.
     rbind (requirePrintable (acr_Data r)) (\<lambda>_.
     rbind (u16len (acr_ServerMsg r)) (\<lambda>sl.
     rbind (u16len (acr_Data r)) (\<lambda>dl.
     rbind (checkBodyCap (5 + unat sl + unat dl)) (\<lambda>_.
     Inr (PutUint16_BE sl @ PutUint16_BE dl @ [acr_Status r] @ acr_ServerMsg r @ acr_Data r)))))))"

subsection \<open>What the decoders accept\<close>

lemma decodeAcctFields_Inr:
  "decodeAcctFields p = Inr r \<longleftrightarrow>
     PrintableASCII (acq_Port r) \<and> PrintableASCII (acq_RemAddr r) \<and>
     length (acq_User r) \<le> 255 \<and> length (acq_Port r) \<le> 255 \<and> length (acq_RemAddr r) \<le> 255 \<and>
     (\<exists>lens payload. length lens \<le> 255 \<and> argsRead lens payload (acq_Args r) \<and>
        p = [acq_Flags r, acq_AuthenMethod r, acq_PrivLvl r, acq_AuthenType r, acq_Service r,
             of_nat (length (acq_User r)), of_nat (length (acq_Port r)),
             of_nat (length (acq_RemAddr r)), of_nat (length lens)]
            @ lens @ acq_User r @ acq_Port r @ acq_RemAddr r @ payload)"
  (is "?d \<longleftrightarrow> ?w")
proof
  assume ?d
  then show ?w
    by (auto simp: decodeAcctFields_def wire_simps result_simps cursor_inverts readArgLens_Inr
        readArgs_iff split: if_splits) (metis unat_byte_le of_nat_unat_byte)
next
  assume ?w
  then obtain lens payload where "length lens \<le> 255" "argsRead lens payload (acq_Args r)"
    "p = [acq_Flags r, acq_AuthenMethod r, acq_PrivLvl r, acq_AuthenType r, acq_Service r,
             of_nat (length (acq_User r)), of_nat (length (acq_Port r)),
             of_nat (length (acq_RemAddr r)), of_nat (length lens)]
            @ lens @ acq_User r @ acq_Port r @ acq_RemAddr r @ payload"
    by blast
  with \<open>?w\<close> show ?d
    by (cases r) (simp add: decodeAcctFields_def wire_simps readArgLens_append readArgs_read)
qed

lemma DecodeAcctRequest_Inr:
  "DecodeAcctRequest p = Inr r \<longleftrightarrow> decodeAcctFields p = Inr r \<and> ValidAcctFlags (acq_Flags r)"
  by (auto simp: DecodeAcctRequest_def split: sum.splits)

lemma DecodeAcctReply_Inr:
  "DecodeAcctReply p = Inr r \<longleftrightarrow>
     PrintableASCII (acr_ServerMsg r) \<and> PrintableASCII (acr_Data r) \<and>
     length (acr_ServerMsg r) \<le> 65535 \<and> length (acr_Data r) \<le> 65535 \<and>
     p = PutUint16_BE (of_nat (length (acr_ServerMsg r))) @ PutUint16_BE (of_nat (length (acr_Data r)))
         @ [acr_Status r] @ acr_ServerMsg r @ acr_Data r"
  (is "?d \<longleftrightarrow> ?w")
proof
  assume ?d
  then show ?w
    by (auto simp: DecodeAcctReply_def Let_def wire_simps result_simps cursor_inverts)
next
  assume ?w
  then show ?d
    by (cases r) (simp add: DecodeAcctReply_def Let_def PutUint16_BE_def wire_simps)
qed

subsection \<open>What the encoders produce\<close>

lemma AcctRequest_Encode_Inr:
  "AcctRequest_Encode r = Inr p \<longleftrightarrow>
     ValidAcctFlags (acq_Flags r) \<and>
     PrintableASCII (acq_Port r) \<and> PrintableASCII (acq_RemAddr r) \<and>
     length (acq_User r) \<le> 255 \<and> length (acq_Port r) \<le> 255 \<and> length (acq_RemAddr r) \<le> 255 \<and>
     length p \<le> MaxBodyBytes \<and>
     (\<exists>lens payload. length lens \<le> 255 \<and>
        argsOnWire (if UseArguments r then acq_Args r else []) lens payload \<and>
        p = [acq_Flags r, acq_AuthenMethod r, acq_PrivLvl r, acq_AuthenType r, acq_Service r,
             of_nat (length (acq_User r)), of_nat (length (acq_Port r)),
             of_nat (length (acq_RemAddr r)), of_nat (length lens)]
            @ lens @ acq_User r @ acq_Port r @ acq_RemAddr r @ payload)"
  by (auto simp: AcctRequest_Encode_def Let_def result_simps encodeArgList_onWire)

lemma AcctReply_Encode_Inr:
  "AcctReply_Encode r = Inr p \<longleftrightarrow>
     acr_Status r \<noteq> AcctStatusFollow \<and> PrintableASCII (acr_ServerMsg r) \<and> PrintableASCII (acr_Data r) \<and>
     length (acr_ServerMsg r) \<le> 65535 \<and> length (acr_Data r) \<le> 65535 \<and> length p \<le> MaxBodyBytes \<and>
     p = PutUint16_BE (of_nat (length (acr_ServerMsg r))) @ PutUint16_BE (of_nat (length (acr_Data r)))
         @ [acr_Status r] @ acr_ServerMsg r @ acr_Data r"
  by (auto simp: AcctReply_Encode_def result_simps)

lemma UseArguments_update [simp]: "UseArguments (r\<lparr>acq_Args := a\<rparr>) = UseArguments r"
  by (simp add: UseArguments_def)

lemma if_args_update: "acq_Args (if u then r else r\<lparr>acq_Args := []\<rparr>) = (if u then acq_Args r else [])"
  by simp

subsection \<open>Properties\<close>

text \<open>
  An accounting REQUEST encodes to a byte string if and only if the string is
  within the body cap, is accepted by the decoder as the same request, with its arguments
  removed when it is a watchdog without update, and declares (octet 8) exactly as many
  arguments as that request has. Both directions reject invalid flag combinations.
\<close>

theorem AcctRequest_codec:
  "AcctRequest_Encode r = Inr p \<longleftrightarrow>
     length p \<le> MaxBodyBytes \<and>
     DecodeAcctRequest p = Inr (if UseArguments r then r else r\<lparr>acq_Args := []\<rparr>) \<and>
     unat (p ! 8) = (if UseArguments r then length (acq_Args r) else 0)"
  unfolding AcctRequest_Encode_Inr DecodeAcctRequest_Inr decodeAcctFields_Inr argsRead_onWire
  by (cases "UseArguments r") auto

text \<open>
  An accounting REPLY encodes to a byte string if and only if its status is not
  FOLLOW, the string is within the body cap and decodes to that reply.
\<close>

theorem AcctReply_codec:
  "AcctReply_Encode r = Inr p \<longleftrightarrow>
     acr_Status r \<noteq> AcctStatusFollow \<and> length p \<le> MaxBodyBytes \<and> DecodeAcctReply p = Inr r"
  unfolding AcctReply_Encode_Inr DecodeAcctReply_Inr by auto

end
