(* ===== verification/Tacacs_Authen.thy ===== *)
theory Tacacs_Authen
  imports Tacacs_Cursor
begin

text \<open>
  Authentication bodies (\<open>internal/tacacs/codec/authen.go\<close>): START, CONTINUE and REPLY.
  Each codec is characterised by one equivalence between its encoder and its decoder, so
  both round trips, the rejection of every other byte string and the injectivity of the
  encoding follow.
\<close>

abbreviation (input) AuthenStatusPass :: byte where "AuthenStatusPass \<equiv> 0x01"
abbreviation (input) AuthenStatusFail :: byte where "AuthenStatusFail \<equiv> 0x02"
abbreviation (input) AuthenStatusGetData :: byte where "AuthenStatusGetData \<equiv> 0x03"
abbreviation (input) AuthenStatusGetUser :: byte where "AuthenStatusGetUser \<equiv> 0x04"
abbreviation (input) AuthenStatusGetPass :: byte where "AuthenStatusGetPass \<equiv> 0x05"
abbreviation (input) AuthenStatusRestart :: byte where "AuthenStatusRestart \<equiv> 0x06"
abbreviation (input) AuthenStatusError :: byte where "AuthenStatusError \<equiv> 0x07"
abbreviation (input) AuthenStatusFollow :: byte where "AuthenStatusFollow \<equiv> 0x21"
abbreviation (input) ContinueFlagAbort :: byte where "ContinueFlagAbort \<equiv> 0x01"
abbreviation (input) ContinueFlagKnownMask :: byte where "ContinueFlagKnownMask \<equiv> ContinueFlagAbort"
abbreviation (input) ReplyFlagNoEcho :: byte where "ReplyFlagNoEcho \<equiv> 0x01"
abbreviation (input) ReplyFlagKnownMask :: byte where "ReplyFlagKnownMask \<equiv> ReplyFlagNoEcho"

record AuthenStart =
  as_Action :: byte
  as_PrivLvl :: byte
  as_Type :: byte
  as_Service :: byte
  as_User :: bytes
  as_Port :: bytes
  as_RemAddr :: bytes
  as_Data :: bytes

definition DecodeAuthenStart :: "bytes \<Rightarrow> tac_err + AuthenStart" where
  "DecodeAuthenStart p =
     rbind (cursor_u8 \<lparr>cur_b = p, cur_off = 0\<rparr>) (\<lambda>(action, c).
     rbind (cursor_u8 c) (\<lambda>(privLvl, c).
     rbind (cursor_u8 c) (\<lambda>(typ, c).
     rbind (cursor_u8 c) (\<lambda>(service, c).
     rbind (cursor_u8 c) (\<lambda>(userLen, c).
     rbind (cursor_u8 c) (\<lambda>(portLen, c).
     rbind (cursor_u8 c) (\<lambda>(remLen, c).
     rbind (cursor_u8 c) (\<lambda>(dataLen, c).
     (let need = unat userLen + unat portLen + unat remLen + unat dataLen
      in rbind (guard_r (cursor_remain c = need) ErrLengthMismatch) (\<lambda>_.
     rbind (cursor_bytes c (unat userLen)) (\<lambda>(user, c).
     rbind (cursor_bytes c (unat portLen)) (\<lambda>(port, c).
     rbind (cursor_bytes c (unat remLen)) (\<lambda>(remAddr, c).
     rbind (cursor_bytes c (unat dataLen)) (\<lambda>(data, c).
     rbind (cursor_done c) (\<lambda>_.
     rbind (requirePrintable port) (\<lambda>_.
     rbind (requirePrintable remAddr) (\<lambda>_.
     Inr \<lparr>as_Action = action, as_PrivLvl = privLvl, as_Type = typ, as_Service = service,
          as_User = user, as_Port = port, as_RemAddr = remAddr, as_Data = data\<rparr>)))))))))))))))))"

definition AuthenStart_Encode :: "AuthenStart \<Rightarrow> tac_err + bytes" where
  "AuthenStart_Encode s =
     rbind (requirePrintable (as_Port s)) (\<lambda>_.
     rbind (requirePrintable (as_RemAddr s)) (\<lambda>_.
     rbind (u8len (as_User s)) (\<lambda>ul.
     rbind (u8len (as_Port s)) (\<lambda>pl.
     rbind (u8len (as_RemAddr s)) (\<lambda>rl.
     rbind (u8len (as_Data s)) (\<lambda>dl.
     rbind (checkBodyCap (8 + unat ul + unat pl + unat rl + unat dl)) (\<lambda>_.
     Inr ([as_Action s, as_PrivLvl s, as_Type s, as_Service s, ul, pl, rl, dl]
          @ as_User s @ as_Port s @ as_RemAddr s @ as_Data s))))))))"

record AuthenContinue =
  ac_Flags :: byte
  ac_UserMsg :: bytes
  ac_Data :: bytes

definition AuthenContinue_Abort :: "AuthenContinue \<Rightarrow> bool" where
  "AuthenContinue_Abort c \<longleftrightarrow> ac_Flags c AND ContinueFlagAbort \<noteq> 0"

definition DecodeAuthenContinue :: "bytes \<Rightarrow> tac_err + AuthenContinue" where
  "DecodeAuthenContinue p =
     rbind (cursor_u16 \<lparr>cur_b = p, cur_off = 0\<rparr>) (\<lambda>(umLen, c).
     rbind (cursor_u16 c) (\<lambda>(dataLen, c).
     rbind (cursor_u8 c) (\<lambda>(flags, c).
     (let need = unat umLen + unat dataLen
      in rbind (guard_r (cursor_remain c = need) ErrLengthMismatch) (\<lambda>_.
     rbind (cursor_bytes c (unat umLen)) (\<lambda>(userMsg, c).
     rbind (cursor_bytes c (unat dataLen)) (\<lambda>(data, c).
     rbind (cursor_done c) (\<lambda>_.
     rbind (requirePrintable userMsg) (\<lambda>_.
     Inr \<lparr>ac_Flags = flags, ac_UserMsg = userMsg, ac_Data = data\<rparr>)))))))))"

definition AuthenContinue_Encode :: "AuthenContinue \<Rightarrow> tac_err + bytes" where
  "AuthenContinue_Encode k =
     rbind (requirePrintable (ac_UserMsg k)) (\<lambda>_.
     rbind (u16len (ac_UserMsg k)) (\<lambda>ul.
     rbind (u16len (ac_Data k)) (\<lambda>dl.
     rbind (checkBodyCap (5 + unat ul + unat dl)) (\<lambda>_.
     Inr (PutUint16_BE ul @ PutUint16_BE dl @ [ac_Flags k AND ContinueFlagKnownMask]
          @ ac_UserMsg k @ ac_Data k)))))"

record AuthenReply =
  ar_Status :: byte
  ar_Flags :: byte
  ar_ServerMsg :: bytes
  ar_Data :: bytes

definition DecodeAuthenReply :: "bytes \<Rightarrow> tac_err + AuthenReply" where
  "DecodeAuthenReply p =
     rbind (cursor_u8 \<lparr>cur_b = p, cur_off = 0\<rparr>) (\<lambda>(status, c).
     rbind (cursor_u8 c) (\<lambda>(flags, c).
     rbind (cursor_u16 c) (\<lambda>(smLen, c).
     rbind (cursor_u16 c) (\<lambda>(dataLen, c).
     (let need = unat smLen + unat dataLen
      in rbind (guard_r (cursor_remain c = need) ErrLengthMismatch) (\<lambda>_.
     rbind (cursor_bytes c (unat smLen)) (\<lambda>(serverMsg, c).
     rbind (cursor_bytes c (unat dataLen)) (\<lambda>(data, c).
     rbind (cursor_done c) (\<lambda>_.
     rbind (requirePrintable serverMsg) (\<lambda>_.
     Inr \<lparr>ar_Status = status, ar_Flags = flags, ar_ServerMsg = serverMsg, ar_Data = data\<rparr>))))))))))"

definition AuthenReply_Encode :: "AuthenReply \<Rightarrow> tac_err + bytes" where
  "AuthenReply_Encode r =
     rbind (guard_r (ar_Status r \<noteq> AuthenStatusFollow) ErrFollow) (\<lambda>_.
     rbind (requirePrintable (ar_ServerMsg r)) (\<lambda>_.
     rbind (u16len (ar_ServerMsg r)) (\<lambda>sl.
     rbind (u16len (ar_Data r)) (\<lambda>dl.
     rbind (checkBodyCap (6 + unat sl + unat dl)) (\<lambda>_.
     Inr ([ar_Status r, ar_Flags r AND ReplyFlagKnownMask] @ PutUint16_BE sl @ PutUint16_BE dl
          @ ar_ServerMsg r @ ar_Data r))))))"

definition NormalizeAuthenStatus :: "byte \<Rightarrow> byte" where
  "NormalizeAuthenStatus status = (if status = AuthenStatusFollow then AuthenStatusFail else status)"

subsection \<open>What each decoder accepts\<close>

lemma DecodeAuthenStart_Inr:
  "DecodeAuthenStart p = Inr s \<longleftrightarrow>
     PrintableASCII (as_Port s) \<and> PrintableASCII (as_RemAddr s) \<and>
     length (as_User s) \<le> 255 \<and> length (as_Port s) \<le> 255 \<and>
     length (as_RemAddr s) \<le> 255 \<and> length (as_Data s) \<le> 255 \<and>
     p = [as_Action s, as_PrivLvl s, as_Type s, as_Service s,
          of_nat (length (as_User s)), of_nat (length (as_Port s)),
          of_nat (length (as_RemAddr s)), of_nat (length (as_Data s))]
         @ as_User s @ as_Port s @ as_RemAddr s @ as_Data s"
  (is "?d \<longleftrightarrow> ?w")
proof
  assume ?d
  then show ?w
    by (auto simp: DecodeAuthenStart_def Let_def wire_simps result_simps cursor_inverts)
next
  assume ?w
  then show ?d
    by (cases s) (simp add: DecodeAuthenStart_def Let_def wire_simps)
qed

lemma DecodeAuthenContinue_Inr:
  "DecodeAuthenContinue p = Inr k \<longleftrightarrow>
     PrintableASCII (ac_UserMsg k) \<and>
     length (ac_UserMsg k) \<le> 65535 \<and> length (ac_Data k) \<le> 65535 \<and>
     p = PutUint16_BE (of_nat (length (ac_UserMsg k))) @ PutUint16_BE (of_nat (length (ac_Data k)))
         @ [ac_Flags k] @ ac_UserMsg k @ ac_Data k"
  (is "?d \<longleftrightarrow> ?w")
proof
  assume ?d
  then show ?w
    by (auto simp: DecodeAuthenContinue_def Let_def wire_simps result_simps cursor_inverts)
next
  assume ?w
  then show ?d
    by (cases k) (simp add: DecodeAuthenContinue_def Let_def PutUint16_BE_def wire_simps)
qed

lemma DecodeAuthenReply_Inr:
  "DecodeAuthenReply p = Inr r \<longleftrightarrow>
     PrintableASCII (ar_ServerMsg r) \<and>
     length (ar_ServerMsg r) \<le> 65535 \<and> length (ar_Data r) \<le> 65535 \<and>
     p = [ar_Status r, ar_Flags r]
         @ PutUint16_BE (of_nat (length (ar_ServerMsg r))) @ PutUint16_BE (of_nat (length (ar_Data r)))
         @ ar_ServerMsg r @ ar_Data r"
  (is "?d \<longleftrightarrow> ?w")
proof
  assume ?d
  then show ?w
    by (auto simp: DecodeAuthenReply_def Let_def wire_simps result_simps cursor_inverts)
next
  assume ?w
  then show ?d
    by (cases r) (simp add: DecodeAuthenReply_def Let_def PutUint16_BE_def wire_simps)
qed

subsection \<open>What each encoder produces\<close>

lemma AuthenStart_Encode_Inr:
  "AuthenStart_Encode s = Inr p \<longleftrightarrow>
     PrintableASCII (as_Port s) \<and> PrintableASCII (as_RemAddr s) \<and>
     length (as_User s) \<le> 255 \<and> length (as_Port s) \<le> 255 \<and>
     length (as_RemAddr s) \<le> 255 \<and> length (as_Data s) \<le> 255 \<and>
     p = [as_Action s, as_PrivLvl s, as_Type s, as_Service s,
          of_nat (length (as_User s)), of_nat (length (as_Port s)),
          of_nat (length (as_RemAddr s)), of_nat (length (as_Data s))]
         @ as_User s @ as_Port s @ as_RemAddr s @ as_Data s"
  by (auto simp: AuthenStart_Encode_def result_simps)

lemma AuthenContinue_Encode_Inr:
  "AuthenContinue_Encode k = Inr p \<longleftrightarrow>
     PrintableASCII (ac_UserMsg k) \<and>
     length (ac_UserMsg k) \<le> 65535 \<and> length (ac_Data k) \<le> 65535 \<and> length p \<le> MaxBodyBytes \<and>
     p = PutUint16_BE (of_nat (length (ac_UserMsg k))) @ PutUint16_BE (of_nat (length (ac_Data k)))
         @ [ac_Flags k AND ContinueFlagKnownMask] @ ac_UserMsg k @ ac_Data k"
  by (auto simp: AuthenContinue_Encode_def result_simps)

lemma AuthenReply_Encode_Inr:
  "AuthenReply_Encode r = Inr p \<longleftrightarrow>
     ar_Status r \<noteq> AuthenStatusFollow \<and> PrintableASCII (ar_ServerMsg r) \<and>
     length (ar_ServerMsg r) \<le> 65535 \<and> length (ar_Data r) \<le> 65535 \<and> length p \<le> MaxBodyBytes \<and>
     p = [ar_Status r, ar_Flags r AND ReplyFlagKnownMask]
         @ PutUint16_BE (of_nat (length (ar_ServerMsg r))) @ PutUint16_BE (of_nat (length (ar_Data r)))
         @ ar_ServerMsg r @ ar_Data r"
  by (auto simp: AuthenReply_Encode_def result_simps)

subsection \<open>Properties\<close>

text \<open>
  The START codec is exact: a byte string decodes to a START body if and only
  if encoding that body produces that byte string. So both round trips hold, the encoding
  is injective, and a body whose component lengths do not consume it exactly, or whose
  port or remote address is not printable, is rejected.
\<close>

theorem AuthenStart_codec_exact:
  "DecodeAuthenStart p = Inr s \<longleftrightarrow> AuthenStart_Encode s = Inr p"
  by (simp only: DecodeAuthenStart_Inr AuthenStart_Encode_Inr)

text \<open>
  A CONTINUE body encodes to a byte string if and only if that string is within
  the body cap and decodes to the same body with the undefined flag bits cleared.
\<close>

theorem AuthenContinue_codec:
  "AuthenContinue_Encode k = Inr p \<longleftrightarrow>
     length p \<le> MaxBodyBytes \<and>
     DecodeAuthenContinue p = Inr (k\<lparr>ac_Flags := ac_Flags k AND ContinueFlagKnownMask\<rparr>)"
  by (auto simp: DecodeAuthenContinue_Inr AuthenContinue_Encode_Inr)

text \<open>
  A REPLY body encodes to a byte string if and only if its status is not FOLLOW,
  the string is within the body cap and it decodes to the same body with the undefined flag
  bits cleared. FOLLOW is therefore never emitted, although it is accepted when received.
\<close>

theorem AuthenReply_codec:
  "AuthenReply_Encode r = Inr p \<longleftrightarrow>
     ar_Status r \<noteq> AuthenStatusFollow \<and> length p \<le> MaxBodyBytes \<and>
     DecodeAuthenReply p = Inr (r\<lparr>ar_Flags := ar_Flags r AND ReplyFlagKnownMask\<rparr>)"
  by (auto simp: DecodeAuthenReply_Inr AuthenReply_Encode_Inr)

end
