(* ===== verification/Tacacs_Flows.thy ===== *)
theory Tacacs_Flows
  imports Tacacs_Authen
begin

text \<open>
  The CHAP and MS-CHAP payloads carried in START data
  (\<open>internal/tacacs/codec/chap.go\<close>) and the version, action, type and service matrix that
  names the authentication conversation (\<open>version.go\<close>).
\<close>

abbreviation (input) AuthenActionLogin :: byte where "AuthenActionLogin \<equiv> 0x01"
abbreviation (input) AuthenActionCHPASS :: byte where "AuthenActionCHPASS \<equiv> 0x02"
abbreviation (input) AuthenActionSendPass :: byte where "AuthenActionSendPass \<equiv> 0x03"
abbreviation (input) AuthenActionSendAuth :: byte where "AuthenActionSendAuth \<equiv> 0x04"
abbreviation (input) AuthenTypeASCII :: byte where "AuthenTypeASCII \<equiv> 0x01"
abbreviation (input) AuthenTypePAP :: byte where "AuthenTypePAP \<equiv> 0x02"
abbreviation (input) AuthenTypeCHAP :: byte where "AuthenTypeCHAP \<equiv> 0x03"
abbreviation (input) AuthenTypeMSCHAP :: byte where "AuthenTypeMSCHAP \<equiv> 0x05"
abbreviation (input) AuthenTypeMSCHAPV2 :: byte where "AuthenTypeMSCHAPV2 \<equiv> 0x06"
abbreviation (input) AuthenServiceNone :: byte where "AuthenServiceNone \<equiv> 0x00"
abbreviation (input) AuthenServiceLogin :: byte where "AuthenServiceLogin \<equiv> 0x01"
abbreviation (input) AuthenServiceEnable :: byte where "AuthenServiceEnable \<equiv> 0x02"
abbreviation (input) AuthenServicePPP :: byte where "AuthenServicePPP \<equiv> 0x03"
abbreviation (input) AuthenServicePT :: byte where "AuthenServicePT \<equiv> 0x05"
abbreviation (input) AuthenServiceRCMD :: byte where "AuthenServiceRCMD \<equiv> 0x06"
abbreviation (input) AuthenServiceX25 :: byte where "AuthenServiceX25 \<equiv> 0x07"
abbreviation (input) AuthenServiceNASI :: byte where "AuthenServiceNASI \<equiv> 0x08"
abbreviation (input) AuthenServiceFWProxy :: byte where "AuthenServiceFWProxy \<equiv> 0x09"
abbreviation (input) DefaultCHAPMinChallenge :: int where "DefaultCHAPMinChallenge \<equiv> 8"
abbreviation (input) MinCHAPChallenge :: int where "MinCHAPChallenge \<equiv> 5"
abbreviation (input) MSCHAPv1ChallengeLen :: nat where "MSCHAPv1ChallengeLen \<equiv> 8"
abbreviation (input) MSCHAPv2ChallengeLen :: nat where "MSCHAPv2ChallengeLen \<equiv> 16"
abbreviation (input) MSCHAPResponseLen :: nat where "MSCHAPResponseLen \<equiv> 49"
abbreviation (input) CHAPResponseLen :: nat where "CHAPResponseLen \<equiv> 16"

record CHAPData =
  chap_ID :: byte
  chap_Challenge :: bytes
  chap_Response :: bytes

text \<open>The effective minimum challenge: the default when unset, never below the RFC floor.\<close>

definition chapMin :: "int \<Rightarrow> nat" where
  "chapMin minChallenge =
     nat (let m = (if minChallenge \<le> 0 then DefaultCHAPMinChallenge else minChallenge)
          in if m < MinCHAPChallenge then MinCHAPChallenge else m)"

definition DecodeCHAPData :: "bytes \<Rightarrow> int \<Rightarrow> tac_err + CHAPData" where
  "DecodeCHAPData data minChallenge =
     (if length data < 1 + chapMin minChallenge + CHAPResponseLen then Inl ErrCHAPLength
      else (let n = length data - 1 - CHAPResponseLen
            in Inr \<lparr>chap_ID = data ! 0, chap_Challenge = take n (drop 1 data),
                    chap_Response = take CHAPResponseLen (drop (1 + n) data)\<rparr>))"

record MSCHAPData =
  mschap_ID :: byte
  mschap_Challenge :: bytes
  mschap_Response :: bytes

definition decodeMSCHAP :: "bytes \<Rightarrow> nat \<Rightarrow> tac_err + MSCHAPData" where
  "decodeMSCHAP data challengeLen =
     (if length data \<noteq> 1 + challengeLen + MSCHAPResponseLen then Inl ErrMSCHAPLength
      else Inr \<lparr>mschap_ID = data ! 0, mschap_Challenge = take challengeLen (drop 1 data),
                mschap_Response = take MSCHAPResponseLen (drop (1 + challengeLen) data)\<rparr>)"

definition DecodeMSCHAPv1Data :: "bytes \<Rightarrow> tac_err + MSCHAPData" where
  "DecodeMSCHAPv1Data data = decodeMSCHAP data MSCHAPv1ChallengeLen"

definition DecodeMSCHAPv2Data :: "bytes \<Rightarrow> tac_err + MSCHAPData" where
  "DecodeMSCHAPv2Data data = decodeMSCHAP data MSCHAPv2ChallengeLen"

definition EncodeCHAPData :: "CHAPData \<Rightarrow> tac_err + bytes" where
  "EncodeCHAPData d =
     (if length (chap_Response d) \<noteq> CHAPResponseLen then Inl ErrCHAPLength
      else Inr (chap_ID d # chap_Challenge d @ chap_Response d))"

definition EncodeMSCHAPData :: "MSCHAPData \<Rightarrow> tac_err + bytes" where
  "EncodeMSCHAPData d =
     (if length (mschap_Response d) \<noteq> MSCHAPResponseLen then Inl ErrMSCHAPLength
      else if \<not> (length (mschap_Challenge d) = MSCHAPv1ChallengeLen
                \<or> length (mschap_Challenge d) = MSCHAPv2ChallengeLen) then Inl ErrMSCHAPLength
      else Inr (mschap_ID d # mschap_Challenge d @ mschap_Response d))"

datatype Flow = FlowNone | FlowASCIILogin | FlowPAPLogin | FlowCHAPLogin | FlowMSCHAPv1
  | FlowMSCHAPv2 | FlowEnable | FlowASCIIChpass

datatype Disposition = DispositionAccept | DispositionFail | DispositionError

definition Disposition_AuthenStatus :: "Disposition \<Rightarrow> byte" where
  "Disposition_AuthenStatus d =
     (case d of DispositionFail \<Rightarrow> AuthenStatusFail | DispositionError \<Rightarrow> AuthenStatusError
      | DispositionAccept \<Rightarrow> 0)"

definition KnownAuthenService :: "byte \<Rightarrow> bool" where
  "KnownAuthenService service \<longleftrightarrow>
     service \<in> {AuthenServiceNone, AuthenServiceLogin, AuthenServiceEnable, AuthenServicePPP,
                AuthenServicePT, AuthenServiceRCMD, AuthenServiceX25, AuthenServiceNASI,
                AuthenServiceFWProxy}"

definition loginFlow :: "byte \<Rightarrow> Flow \<times> bool" where
  "loginFlow typ =
     (if typ = AuthenTypeASCII then (FlowASCIILogin, True)
      else if typ = AuthenTypePAP then (FlowPAPLogin, True)
      else if typ = AuthenTypeCHAP then (FlowCHAPLogin, True)
      else if typ = AuthenTypeMSCHAP then (FlowMSCHAPv1, True)
      else if typ = AuthenTypeMSCHAPV2 then (FlowMSCHAPv2, True)
      else (FlowNone, False))"

definition classifyCHPASS :: "byte \<Rightarrow> AuthenStart \<Rightarrow> Flow \<times> Disposition" where
  "classifyCHPASS minor s =
     (if as_Service s = AuthenServiceEnable then (FlowNone, DispositionFail)
      else if as_Type s \<noteq> AuthenTypeASCII then (FlowNone, DispositionError)
      else if as_Service s = AuthenServiceNone \<or> \<not> KnownAuthenService (as_Service s)
      then (FlowASCIIChpass, DispositionFail)
      else if minor \<noteq> 0 then (FlowASCIIChpass, DispositionFail)
      else (FlowASCIIChpass, DispositionAccept))"

definition classifyLogin :: "byte \<Rightarrow> AuthenStart \<Rightarrow> Flow \<times> Disposition" where
  "classifyLogin minor s =
     (if as_Service s = AuthenServiceEnable
      then (if minor \<noteq> 0 then (FlowEnable, DispositionFail) else (FlowEnable, DispositionAccept))
      else case loginFlow (as_Type s) of
        (flow, ok) \<Rightarrow>
          if \<not> ok then (FlowNone, DispositionError)
          else if as_Service s = AuthenServiceNone \<or> \<not> KnownAuthenService (as_Service s)
          then (flow, DispositionFail)
          else (let want = (if flow \<noteq> FlowASCIILogin then 1 else 0)
                in if minor \<noteq> want then (flow, DispositionFail) else (flow, DispositionAccept)))"

definition ClassifyAuthenStart :: "byte \<Rightarrow> AuthenStart \<Rightarrow> Flow \<times> Disposition" where
  "ClassifyAuthenStart minor s =
     (if as_Action s = AuthenActionSendAuth \<or> as_Action s = AuthenActionSendPass
      then (FlowNone, DispositionError)
      else if as_Action s = AuthenActionCHPASS then classifyCHPASS minor s
      else if as_Action s = AuthenActionLogin then classifyLogin minor s
      else (FlowNone, DispositionError))"

definition ClassifyAuthorMinor :: "byte \<Rightarrow> Disposition" where
  "ClassifyAuthorMinor minor = (if minor \<noteq> 0 then DispositionError else DispositionAccept)"

definition ClassifyAcctMinor :: "byte \<Rightarrow> Disposition" where
  "ClassifyAcctMinor minor = (if minor \<noteq> 0 then DispositionError else DispositionAccept)"

definition ClassifyPacketMinor :: "byte \<Rightarrow> byte \<Rightarrow> Disposition" where
  "ClassifyPacketMinor typ minor =
     (if typ = TypeAuthor \<or> typ = TypeAcct
      then (if minor \<noteq> 0 then DispositionError else DispositionAccept)
      else if typ = TypeAuthen
      then (if 1 < minor then DispositionFail else DispositionAccept)
      else DispositionError)"

subsection \<open>Challenge payloads\<close>

lemma chapMin_bounds: "5 \<le> chapMin m" "m \<le> 0 \<Longrightarrow> chapMin m = 8" "5 \<le> m \<Longrightarrow> int (chapMin m) = m"
  by (auto simp: chapMin_def Let_def)

lemma DecodeCHAPData_Inr:
  "DecodeCHAPData data m = Inr d \<longleftrightarrow>
     data = chap_ID d # chap_Challenge d @ chap_Response d \<and>
     chapMin m \<le> length (chap_Challenge d) \<and> length (chap_Response d) = CHAPResponseLen"
  (is "?l \<longleftrightarrow> ?r")
proof
  assume ?l
  then obtain x xs where "data = x # xs" "chapMin m + 16 \<le> length xs"
    "d = \<lparr>chap_ID = x, chap_Challenge = take (length xs - 16) xs,
          chap_Response = take 16 (drop (length xs - 16) xs)\<rparr>"
    by (cases data) (auto simp: DecodeCHAPData_def Let_def split: if_splits)
  then show ?r by simp
next
  assume ?r
  then show ?l by (cases d) (simp add: DecodeCHAPData_def Let_def)
qed

lemma decodeMSCHAP_Inr:
  "decodeMSCHAP data n = Inr d \<longleftrightarrow>
     data = mschap_ID d # mschap_Challenge d @ mschap_Response d \<and>
     length (mschap_Challenge d) = n \<and> length (mschap_Response d) = MSCHAPResponseLen"
  (is "?l \<longleftrightarrow> ?r")
proof
  assume ?l
  then obtain x xs where "data = x # xs" "length xs = n + 49"
    "d = \<lparr>mschap_ID = x, mschap_Challenge = take n xs, mschap_Response = take 49 (drop n xs)\<rparr>"
    by (cases data) (auto simp: decodeMSCHAP_def split: if_splits)
  then show ?r by simp
next
  assume ?r
  then show ?l by (cases d) (simp add: decodeMSCHAP_def)
qed

subsection \<open>The matrix, action by action\<close>

definition usableService :: "byte \<Rightarrow> bool" where
  "usableService v \<longleftrightarrow> v \<in> {1, 3, 5, 6, 7, 8, 9}"

lemma usableService_iff:
  "usableService v \<longleftrightarrow> v \<noteq> AuthenServiceEnable \<and> v \<noteq> AuthenServiceNone \<and> KnownAuthenService v"
  by (auto simp: usableService_def KnownAuthenService_def)

lemma classifyCHPASS_accept:
  "classifyCHPASS minor s = (flow, DispositionAccept) \<longleftrightarrow>
     usableService (as_Service s) \<and> as_Type s = AuthenTypeASCII \<and> minor = 0 \<and> flow = FlowASCIIChpass"
  by (auto simp: classifyCHPASS_def usableService_iff)

lemma classifyLogin_accept:
  "classifyLogin minor s = (flow, DispositionAccept) \<longleftrightarrow>
     flow = FlowEnable \<and> as_Service s = AuthenServiceEnable \<and> minor = 0 \<or>
     usableService (as_Service s) \<and> loginFlow (as_Type s) = (flow, True) \<and>
       minor = (if flow \<noteq> FlowASCIILogin then 1 else 0)"
  by (auto simp: classifyLogin_def usableService_iff Let_def split: prod.splits if_splits)

lemma loginFlow_True:
  "loginFlow t = (flow, True) \<longleftrightarrow>
     t = AuthenTypeASCII \<and> flow = FlowASCIILogin \<or> t = AuthenTypePAP \<and> flow = FlowPAPLogin \<or>
     t = AuthenTypeCHAP \<and> flow = FlowCHAPLogin \<or> t = AuthenTypeMSCHAP \<and> flow = FlowMSCHAPv1 \<or>
     t = AuthenTypeMSCHAPV2 \<and> flow = FlowMSCHAPv2"
  by (auto simp: loginFlow_def)

subsection \<open>Properties\<close>

text \<open>
  CHAP and MS-CHAP payloads round trip: a CHAP payload decodes exactly when it
  is the encoding of the result and its challenge has at least the effective minimum length;
  an MS-CHAP payload is encodable exactly when one of the two decoders, version 1 or 2, reads
  it back.
\<close>

theorem challenge_payload_codec:
  "(DecodeCHAPData data m = Inr d \<longleftrightarrow>
      EncodeCHAPData d = Inr data \<and> chapMin m \<le> length (chap_Challenge d)) \<and>
   (EncodeMSCHAPData e = Inr data \<longleftrightarrow>
      DecodeMSCHAPv1Data data = Inr e \<or> DecodeMSCHAPv2Data data = Inr e)"
  by (auto simp: DecodeCHAPData_Inr EncodeCHAPData_def EncodeMSCHAPData_def decodeMSCHAP_Inr
      DecodeMSCHAPv1Data_def DecodeMSCHAPv2Data_def)

text \<open>
  The START matrix accepts exactly these conversations: ENABLE (a LOGIN with
  service ENABLE, whatever its type) with minor 0; an ASCII login or ASCII password change
  with minor 0; a PAP, CHAP, MS-CHAP or MS-CHAPv2 login with minor 1; each of the last two
  groups with a known service other than NONE and ENABLE. The flow named by an accepted
  START determines action and type, except that ENABLE leaves the type free.
\<close>

theorem ClassifyAuthenStart_accept_iff:
  "ClassifyAuthenStart minor s = (flow, DispositionAccept) \<longleftrightarrow>
     flow = FlowEnable \<and> as_Action s = AuthenActionLogin \<and> as_Service s = AuthenServiceEnable \<and> minor = 0 \<or>
     as_Service s \<in> {1, 3, 5, 6, 7, 8, 9} \<and>
       (as_Action s = AuthenActionCHPASS \<and> as_Type s = AuthenTypeASCII \<and> minor = 0 \<and> flow = FlowASCIIChpass \<or>
        as_Action s = AuthenActionLogin \<and>
          (as_Type s = AuthenTypeASCII \<and> minor = 0 \<and> flow = FlowASCIILogin \<or>
           as_Type s = AuthenTypePAP \<and> minor = 1 \<and> flow = FlowPAPLogin \<or>
           as_Type s = AuthenTypeCHAP \<and> minor = 1 \<and> flow = FlowCHAPLogin \<or>
           as_Type s = AuthenTypeMSCHAP \<and> minor = 1 \<and> flow = FlowMSCHAPv1 \<or>
           as_Type s = AuthenTypeMSCHAPV2 \<and> minor = 1 \<and> flow = FlowMSCHAPv2))"
  unfolding usableService_def [symmetric]
  by (auto simp: ClassifyAuthenStart_def classifyCHPASS_accept classifyLogin_accept loginFlow_True)

end
