(* ===== verification/Tacacs_Sequence.thy ===== *)
theory Tacacs_Sequence
  imports Tacacs_Header
begin

text \<open>
  The per-session packet-order machine and the single-connect negotiation
  (\<open>internal/tacacs/codec/sequence.go\<close>).

  A method that mutates its receiver returns the new state beside its result, also when the
  result is an error. The relation \<open>seq_session\<close> is the life of one session: any interleaving
  of \<open>CheckRequest\<close>, \<open>NextReply\<close> and \<open>Close\<close>, with the sequence numbers accepted from the
  client and those given to replies as history.
\<close>

abbreviation (input) DefaultMaxContinues :: int where "DefaultMaxContinues \<equiv> 32"

definition ClientSeq :: "byte \<Rightarrow> bool" where
  "ClientSeq seqn \<longleftrightarrow> seqn mod 2 = 1"

definition ServerSeq :: "byte \<Rightarrow> bool" where
  "ServerSeq seqn \<longleftrightarrow> seqn \<noteq> 0 \<and> seqn mod 2 = 0"

record Sequence =
  sq_sessionID :: uint32
  sq_typ :: byte
  sq_next :: byte
  sq_started :: bool
  sq_replied :: bool
  sq_closed :: bool
  sq_continues :: int
  sq_maxCont :: int
  sq_wrap :: bool

definition NewSequence :: "uint32 \<Rightarrow> byte \<Rightarrow> Sequence" where
  "NewSequence sessionID typ =
     \<lparr>sq_sessionID = sessionID, sq_typ = typ, sq_next = 1, sq_started = False, sq_replied = False,
      sq_closed = False, sq_continues = 0, sq_maxCont = DefaultMaxContinues, sq_wrap = False\<rparr>"

definition SetMaxContinues :: "Sequence \<Rightarrow> int \<Rightarrow> Sequence" where
  "SetMaxContinues s n = s\<lparr>sq_maxCont := (if n \<le> 0 then DefaultMaxContinues else n)\<rparr>"

text \<open>The common tail of \<open>CheckRequest\<close>: 255 is a legal client packet, its successor is not.\<close>

definition advanceRequest :: "Sequence \<Rightarrow> Header \<Rightarrow> Sequence \<times> (tac_err + unit)" where
  "advanceRequest s h =
     (case NextSeq (hdr_SeqNo h) of
        Inl _ \<Rightarrow> (s\<lparr>sq_wrap := True\<rparr>, Inr ())
      | Inr next \<Rightarrow> (s\<lparr>sq_next := next\<rparr>, Inr ()))"

definition CheckRequest :: "Sequence \<Rightarrow> Header \<Rightarrow> Sequence \<times> (tac_err + unit)" where
  "CheckRequest s h =
     (if sq_closed s then (s, Inl ErrSessionClosed)
      else if hdr_SessionID h \<noteq> sq_sessionID s \<or> hdr_Type h \<noteq> sq_typ s then (s, Inl ErrSessionMismatch)
      else case Header_Validate h of
        Inl e \<Rightarrow> (s, Inl e)
      | Inr _ \<Rightarrow>
          if \<not> ClientSeq (hdr_SeqNo h) then (s, Inl ErrSeqParity)
          else if sq_started s \<and> \<not> sq_replied s then (s, Inl ErrPrematurePacket)
          else if hdr_SeqNo h \<noteq> sq_next s then (s, Inl ErrSeqUnexpected)
          else if \<not> sq_started s
          then (if hdr_SeqNo h \<noteq> 1 then (s, Inl ErrSeqUnexpected)
                else advanceRequest (s\<lparr>sq_started := True\<rparr>) h)
          else if sq_typ s = TypeAuthor \<or> sq_typ s = TypeAcct
          then (s\<lparr>sq_closed := True\<rparr>, Inl ErrSessionClosed)
          else (let s = s\<lparr>sq_continues := sq_continues s + 1\<rparr>
                in if sq_continues s > sq_maxCont s
                   then (s\<lparr>sq_closed := True\<rparr>, Inl ErrTooManyContinues)
                   else advanceRequest s h))"

definition NextReply :: "Sequence \<Rightarrow> byte \<Rightarrow> Sequence \<times> (tac_err + Header)" where
  "NextReply s flags =
     (if sq_closed s then (s, Inl ErrSessionClosed)
      else if \<not> sq_started s then (s, Inl ErrSeqUnexpected)
      else if sq_wrap s then (s\<lparr>sq_closed := True\<rparr>, Inl ErrSeqWrap)
      else if \<not> ServerSeq (sq_next s) then (s, Inl ErrSeqParity)
      else (let seqn = sq_next s
            in case NextSeq seqn of
                 Inl e \<Rightarrow> (s\<lparr>sq_closed := True\<rparr>, Inl e)
               | Inr next \<Rightarrow>
                   (s\<lparr>sq_next := next, sq_replied := True,
                      sq_closed := sq_closed s \<or> sq_typ s = TypeAuthor \<or> sq_typ s = TypeAcct\<rparr>,
                    Inr (zero_Header\<lparr>hdr_Type := sq_typ s, hdr_SeqNo := seqn, hdr_Flags := flags,
                           hdr_SessionID := sq_sessionID s\<rparr>))))"

definition Sequence_Close :: "Sequence \<Rightarrow> Sequence" where
  "Sequence_Close s = s\<lparr>sq_closed := True\<rparr>"

record SingleConnect =
  sc_sawClient :: bool
  sc_client :: bool
  sc_done :: bool
  sc_ok :: bool

definition zero_SingleConnect :: SingleConnect where
  "zero_SingleConnect = \<lparr>sc_sawClient = False, sc_client = False, sc_done = False, sc_ok = False\<rparr>"

definition OnClientFirst :: "SingleConnect \<Rightarrow> byte \<Rightarrow> SingleConnect" where
  "OnClientFirst s flags =
     (if sc_sawClient s \<or> sc_done s then s
      else s\<lparr>sc_sawClient := True, sc_client := (flags AND FlagSingleConnect \<noteq> 0)\<rparr>)"

definition OnServerFirst :: "SingleConnect \<Rightarrow> byte \<Rightarrow> SingleConnect \<times> bool" where
  "OnServerFirst s flags =
     (if sc_done s then (s, sc_ok s)
      else (let ok = sc_sawClient s \<and> sc_client s \<and> flags AND FlagSingleConnect \<noteq> 0
            in (s\<lparr>sc_ok := ok, sc_done := True\<rparr>, ok)))"

definition Negotiated :: "SingleConnect \<Rightarrow> bool" where
  "Negotiated s = sc_ok s"

definition SingleConnect_Pending :: "SingleConnect \<Rightarrow> bool" where
  "SingleConnect_Pending s \<longleftrightarrow> sc_sawClient s \<and> \<not> sc_done s"

definition SingleConnect_Complete :: "SingleConnect \<Rightarrow> bool" where
  "SingleConnect_Complete s = sc_done s"

definition AllowNewSession :: "SingleConnect \<Rightarrow> tac_err + unit" where
  "AllowNewSession s = guard_r (Negotiated s) ErrPrematurePacket"

definition NegotiateSingleConnect :: "bool \<Rightarrow> byte \<Rightarrow> byte \<Rightarrow> bool" where
  "NegotiateSingleConnect firstPair clientFlags serverFlags \<longleftrightarrow>
     firstPair \<and> clientFlags AND FlagSingleConnect \<noteq> 0 \<and> serverFlags AND FlagSingleConnect \<noteq> 0"

subsection \<open>The life of a session\<close>

inductive seq_session :: "uint32 \<Rightarrow> byte \<Rightarrow> int \<Rightarrow> Sequence \<Rightarrow> byte list \<Rightarrow> byte list \<Rightarrow> bool"
  for sid :: uint32 and ty :: byte and n :: int where
  session_new: "seq_session sid ty n (SetMaxContinues (NewSequence sid ty) n) [] []"
| session_accept: "seq_session sid ty n s reqs reps \<Longrightarrow> CheckRequest s h = (s', Inr ()) \<Longrightarrow>
     seq_session sid ty n s' (reqs @ [hdr_SeqNo h]) reps"
| session_refuse: "seq_session sid ty n s reqs reps \<Longrightarrow> CheckRequest s h = (s', Inl e) \<Longrightarrow>
     seq_session sid ty n s' reqs reps"
| session_reply: "seq_session sid ty n s reqs reps \<Longrightarrow> NextReply s flags = (s', Inr h) \<Longrightarrow>
     seq_session sid ty n s' reqs (reps @ [hdr_SeqNo h])"
| session_stop: "seq_session sid ty n s reqs reps \<Longrightarrow> NextReply s flags = (s', Inl e) \<Longrightarrow>
     seq_session sid ty n s' reqs reps"
| session_close: "seq_session sid ty n s reqs reps \<Longrightarrow> seq_session sid ty n (Sequence_Close s) reqs reps"

text \<open>The sequence numbers a session may use, in order: odd for the client, even for the server.\<close>

definition oddSeqs :: "nat \<Rightarrow> byte list" where
  "oddSeqs k = map (\<lambda>i. of_nat (2 * i + 1)) [0..<k]"

definition evenSeqs :: "nat \<Rightarrow> byte list" where
  "evenSeqs k = map (\<lambda>i. of_nat (2 * i + 2)) [0..<k]"

text \<open>
  The requests a session accepts: the odd numbers in order and, after the 128th, only 255 again.
  \<open>CheckRequest\<close> on 255 sets \<open>wrap\<close> and leaves \<open>next\<close> at 255, and \<open>replied\<close> is never reset, so
  until \<open>NextReply\<close> closes the session a repeated 255 is accepted as one more CONTINUE.
\<close>

definition acceptedSeqs :: "nat \<Rightarrow> byte list" where
  "acceptedSeqs k = oddSeqs (min 128 k) @ replicate (k - 128) 255"

definition oneShot :: "byte \<Rightarrow> bool" where
  "oneShot ty \<longleftrightarrow> ty = TypeAuthor \<or> ty = TypeAcct"

text \<open>
  The invariant. While the machine is open, \<open>next\<close> is one more than the packets exchanged
  and the client is at most one packet ahead; once 255 has been accepted only the wrap is
  left.
\<close>

definition session_inv :: "uint32 \<Rightarrow> byte \<Rightarrow> int \<Rightarrow> Sequence \<Rightarrow> byte list \<Rightarrow> byte list \<Rightarrow> bool" where
  "session_inv sid ty n s reqs reps \<longleftrightarrow>
     sq_sessionID s = sid \<and> sq_typ s = ty \<and> sq_maxCont s = (if n \<le> 0 then 32 else n) \<and>
     reps = evenSeqs (length reps) \<and> length reps \<le> length reqs \<and> length reps \<le> 127 \<and>
     reqs = acceptedSeqs (length reqs) \<and>
     int (length reqs) \<le> sq_maxCont s + 1 \<and>
     (oneShot ty \<longrightarrow> length reqs \<le> 1 \<and> (reps \<noteq> [] \<longrightarrow> sq_closed s)) \<and>
     (sq_started s \<longleftrightarrow> reqs \<noteq> []) \<and> (sq_replied s \<longleftrightarrow> reps \<noteq> []) \<and>
     (\<not> sq_closed s \<longrightarrow> sq_continues s = int (length reqs) - (if reqs = [] then 0 else 1)) \<and>
     (if sq_wrap s then sq_next s = 255 \<and> length reps = 127 \<and> 128 \<le> length reqs
      else unat (sq_next s) = length reqs + length reps + 1 \<and> length reqs \<le> length reps + 1)"

lemma mod2_byte: "(s :: byte) mod 2 = (if even (unat s) then 0 else 1)"
  by (simp add: word_unat_eq_iff unat_mod_distrib even_iff_mod_2_eq_zero)

lemma ClientSeq_odd: "ClientSeq s \<longleftrightarrow> odd (unat s)"
  by (simp add: ClientSeq_def mod2_byte)

lemma ServerSeq_even: "ServerSeq s \<longleftrightarrow> unat s \<noteq> 0 \<and> even (unat s)"
  by (simp add: ServerSeq_def mod2_byte unat_eq_zero)

lemma length_oddSeqs [simp]: "length (oddSeqs k) = k"
  by (simp add: oddSeqs_def)

lemma length_evenSeqs [simp]: "length (evenSeqs k) = k"
  by (simp add: evenSeqs_def)

lemma Seqs_Nil [simp]: "oddSeqs k = [] \<longleftrightarrow> k = 0" "evenSeqs k = [] \<longleftrightarrow> k = 0"
  by (simp_all add: oddSeqs_def evenSeqs_def)

lemma oddSeqs_Suc: "oddSeqs (Suc k) = oddSeqs k @ [of_nat (2 * k + 1)]"
  by (simp add: oddSeqs_def)

lemma evenSeqs_Suc: "evenSeqs (Suc k) = evenSeqs k @ [of_nat (2 * k + 2)]"
  by (simp add: evenSeqs_def)

lemma acceptedSeqs_simps [simp]:
  "length (acceptedSeqs k) = k" "acceptedSeqs 0 = []" "k \<le> 128 \<Longrightarrow> acceptedSeqs k = oddSeqs k"
  "acceptedSeqs k = [] \<longleftrightarrow> k = 0"
  by (auto simp: acceptedSeqs_def)

lemma acceptedSeqs_repeat: "128 \<le> k \<Longrightarrow> acceptedSeqs (Suc k) = acceptedSeqs k @ [255]"
  by (simp only: acceptedSeqs_def Suc_diff_le replicate_Suc replicate_append_same [symmetric] append_assoc
      min_absorb1 [of 128 k] min_absorb1 [of 128 "Suc k"] le_SucI)

lemma byte_of_unat: "unat (s :: byte) = n \<Longrightarrow> s = of_nat n"
  by auto

subsection \<open>The operations, branch by branch\<close>

lemma advanceRequest_eq:
  "advanceRequest s h = (s', r) \<longleftrightarrow>
     r = Inr () \<and> s' = (if hdr_SeqNo h = 0 \<or> hdr_SeqNo h = 255 then s\<lparr>sq_wrap := True\<rparr>
                       else s\<lparr>sq_next := hdr_SeqNo h + 1\<rparr>)"
  by (auto simp: advanceRequest_def NextSeq_def)

lemma CheckRequest_Inr:
  "CheckRequest s h = (s', Inr ()) \<longleftrightarrow>
     \<not> sq_closed s \<and> hdr_SessionID h = sq_sessionID s \<and> hdr_Type h = sq_typ s \<and>
     Header_Validate h = Inr () \<and> ClientSeq (hdr_SeqNo h) \<and> hdr_SeqNo h = sq_next s \<and>
     (if sq_started s
      then sq_replied s \<and> \<not> oneShot (sq_typ s) \<and> sq_continues s < sq_maxCont s \<and>
           advanceRequest (s\<lparr>sq_continues := sq_continues s + 1\<rparr>) h = (s', Inr ())
      else hdr_SeqNo h = 1 \<and> advanceRequest (s\<lparr>sq_started := True\<rparr>) h = (s', Inr ()))"
  by (cases "Header_Validate h")
    (auto simp: CheckRequest_def oneShot_def Let_def split: if_splits)

lemma CheckRequest_Inl:
  "CheckRequest s h = (s', Inl e) \<Longrightarrow>
     s' = s \<or> s' = s\<lparr>sq_closed := True\<rparr> \<or> (\<exists>n. s' = s\<lparr>sq_continues := n, sq_closed := True\<rparr>)"
  by (auto simp: CheckRequest_def Let_def advanceRequest_eq split: sum.splits if_splits)

lemma NextReply_Inr:
  "NextReply s flags = (s', Inr h) \<longleftrightarrow>
     \<not> sq_closed s \<and> sq_started s \<and> \<not> sq_wrap s \<and> ServerSeq (sq_next s) \<and>
     0 < unat (sq_next s) \<and> unat (sq_next s) < 255 \<and>
     s' = s\<lparr>sq_next := sq_next s + 1, sq_replied := True, sq_closed := oneShot (sq_typ s)\<rparr> \<and>
     h = zero_Header\<lparr>hdr_Type := sq_typ s, hdr_SeqNo := sq_next s, hdr_Flags := flags,
                     hdr_SessionID := sq_sessionID s\<rparr>"
  unfolding NextReply_def oneShot_def
  by (simp add: Let_def NextSeq_Inr NextSeq_Inl split: sum.splits) blast

lemma NextReply_Inl:
  "NextReply s flags = (s', Inl e) \<Longrightarrow> s' = s \<or> s' = s\<lparr>sq_closed := True\<rparr>"
  by (auto simp: NextReply_def Let_def split: sum.splits if_splits)

subsection \<open>The invariant is kept\<close>

lemma session_inv_new: "session_inv sid ty n (SetMaxContinues (NewSequence sid ty) n) [] []"
  by (simp add: session_inv_def SetMaxContinues_def NewSequence_def oddSeqs_def evenSeqs_def)

lemma session_inv_closed:
  "session_inv sid ty n s reqs reps \<Longrightarrow>
     session_inv sid ty n (s\<lparr>sq_continues := k, sq_closed := True\<rparr>) reqs reps \<and>
     session_inv sid ty n (s\<lparr>sq_closed := True\<rparr>) reqs reps"
  by (auto simp: session_inv_def)

lemma session_inv_accept:
  assumes inv: "session_inv sid ty n s reqs reps" and "CheckRequest s h = (s', Inr ())"
  shows "session_inv sid ty n s' (reqs @ [hdr_SeqNo h]) reps"
proof -
  let ?k = "length reqs"
  note acc = assms(2) [unfolded CheckRequest_Inr advanceRequest_eq]
  have parity: "odd (unat (sq_next s))" using acc by (auto simp: ClientSeq_odd)
  show ?thesis
  proof (cases "sq_wrap s")
    case True
    then have w: "sq_next s = 255" "length reps = 127" "128 \<le> ?k" "reqs \<noteq> []" "sq_started s"
      using inv by (auto simp: session_inv_def)
    have s': "s' = s\<lparr>sq_continues := sq_continues s + 1\<rparr>" "hdr_SeqNo h = 255" "sq_continues s < sq_maxCont s"
        "\<not> oneShot (sq_typ s)"
      using acc w True by simp_all
    have "reqs @ [hdr_SeqNo h] = acceptedSeqs (Suc ?k)"
      using inv s' w by (simp add: session_inv_def acceptedSeqs_repeat)
    then show ?thesis using inv s' w True acc by (simp add: session_inv_def)
  next
    case False
    then have n: "unat (sq_next s) = ?k + length reps + 1" "?k \<le> length reps + 1" "length reps \<le> ?k"
      using inv by (auto simp: session_inv_def)
    have k: "length reps = ?k"
    proof (rule ccontr)
      assume "length reps \<noteq> ?k"
      with n have "?k = Suc (length reps)" by linarith
      with n(1) parity show False by simp
    qed
    have seqn: "hdr_SeqNo h = of_nat (2 * ?k + 1)"
      using acc n k by (simp only: byte_of_unat [OF n(1)] mult_2)
    have small: "?k \<le> 127" using n k unat_byte_le [of "sq_next s"] by linarith
    have nz: "hdr_SeqNo h \<noteq> 0" using acc n by auto
    have odds: "reqs @ [hdr_SeqNo h] = oddSeqs (Suc ?k)"
      using inv small seqn by (simp add: session_inv_def oddSeqs_Suc)
    have wrapped: "hdr_SeqNo h = 255 \<Longrightarrow> ?k = 127" using acc n k by simp
    have grow: "hdr_SeqNo h \<noteq> 255 \<Longrightarrow> unat (hdr_SeqNo h + 1) = 2 * ?k + 2"
    proof -
      assume "hdr_SeqNo h \<noteq> 255"
      then have "unat (sq_next s) < 255"
        using acc unat_byte_le [of "sq_next s"] by (auto simp: word_unat_eq_iff order_le_less)
      then show ?thesis using acc n k by (simp add: unat_add_1_byte)
    qed
    have "reqs @ [hdr_SeqNo h] = acceptedSeqs (Suc ?k)"
      using odds small by simp
    moreover note inv' = inv [unfolded session_inv_def]
    moreover have "sq_sessionID s' = sq_sessionID s" "sq_typ s' = sq_typ s"
      "sq_maxCont s' = sq_maxCont s" "sq_started s'" "sq_replied s' = sq_replied s"
      "sq_wrap s' = (hdr_SeqNo h = 255)"
      "sq_next s' = (if hdr_SeqNo h = 255 then 255 else hdr_SeqNo h + 1)"
      "sq_continues s' = int ?k" "?k \<noteq> 0 \<Longrightarrow> int ?k \<le> sq_maxCont s \<and> \<not> oneShot ty"
      using acc False nz inv' by (auto split: if_splits)
    ultimately show ?thesis
      using False k small wrapped grow unfolding session_inv_def by (cases "reqs = []") auto
  qed
qed

lemma session_inv_reply:
  assumes inv: "session_inv sid ty n s reqs reps" and "NextReply s flags = (s', Inr h)"
  shows "session_inv sid ty n s' reqs (reps @ [hdr_SeqNo h])"
proof -
  note rep = assms(2) [unfolded NextReply_Inr ServerSeq_even]
  have n: "unat (sq_next s) = length reqs + length reps + 1" "length reqs \<le> length reps + 1"
    "length reps \<le> length reqs"
    using inv rep by (auto simp: session_inv_def)
  then have k: "length reqs = length reps + 1"
    using rep by (cases "length reqs = length reps") auto
  have "length reps < 127" using n k rep by linarith
  have "unat (sq_next s) = 2 * length reps + 2" using n k by simp
  then have seqn: "hdr_SeqNo h = of_nat (2 * length reps + 2)"
    using byte_of_unat [of "sq_next s"] rep by simp
  then have "reps @ [hdr_SeqNo h] = evenSeqs (Suc (length reps))"
    using inv by (simp add: session_inv_def evenSeqs_Suc)
  then show ?thesis
    using inv rep n k \<open>length reps < 127\<close> by (auto simp: session_inv_def unat_add_1_byte)
qed

lemma seq_session_inv: "seq_session sid ty n s reqs reps \<Longrightarrow> session_inv sid ty n s reqs reps"
proof (induction rule: seq_session.induct)
  case session_new
  show ?case by (rule session_inv_new)
next
  case (session_accept s reqs reps h s')
  then show ?case by (blast intro: session_inv_accept)
next
  case (session_refuse s reqs reps h s' e)
  then show ?case using CheckRequest_Inl session_inv_closed by metis
next
  case (session_reply s reqs reps flags s' h)
  then show ?case by (blast intro: session_inv_reply)
next
  case (session_stop s reqs reps flags s' e)
  then show ?case using NextReply_Inl session_inv_closed by metis
next
  case (session_close s reqs reps)
  then show ?case using session_inv_closed by (metis Sequence_Close_def)
qed

subsection \<open>Single connect\<close>

text \<open>The negotiation machine computes the two-flag test on the first request and the first reply.\<close>

lemma OnServerFirst_result:
  "OnServerFirst (OnClientFirst zero_SingleConnect cf) sf =
     (\<lparr>sc_sawClient = True, sc_client = (cf AND FlagSingleConnect \<noteq> 0), sc_done = True,
       sc_ok = NegotiateSingleConnect True cf sf\<rparr>, NegotiateSingleConnect True cf sf)"
  by (simp add: OnServerFirst_def OnClientFirst_def zero_SingleConnect_def NegotiateSingleConnect_def
      Let_def)

lemma single_connect_settled:
  "sc_done s \<Longrightarrow> OnClientFirst s f = s \<and> OnServerFirst s f = (s, sc_ok s)"
  by (simp add: OnServerFirst_def OnClientFirst_def)

subsection \<open>Properties\<close>

text \<open>
  Property C12. In every session, whatever packets the client sends and in whatever order
  checks and replies are made, the replies carry exactly the sequence numbers 2, 4, 6, ...
  without a gap, a repetition or a wrap (so at most 127 of them); the requests accepted
  carry 1, 3, 5, ... up to 255 in this order, and only 255 may be accepted again, as often
  as the CONTINUE cap admits; the client is never answered more often than it asked, is
  never more than one packet ahead except by such repetitions of 255, after which no reply
  is given any more, and is granted at most the configured number of CONTINUE packets; an
  authorization or accounting session accepts one request and gives one reply.
\<close>

theorem session_sequence_numbers:
  assumes "seq_session sid ty n s reqs reps"
  shows "reps = evenSeqs (length reps) \<and> length reps \<le> 127 \<and>
     reqs = oddSeqs (min 128 (length reqs)) @ replicate (length reqs - 128) 255 \<and>
     length reps \<le> length reqs \<and> min 128 (length reqs) \<le> length reps + 1 \<and>
     (128 \<le> length reqs \<longrightarrow> (\<forall>flags s' h. NextReply s flags \<noteq> (s', Inr h))) \<and>
     int (length reqs) \<le> 1 + (if n \<le> 0 then 32 else n) \<and>
     (ty = TypeAuthor \<or> ty = TypeAcct \<longrightarrow> length reqs \<le> 1)"
  using seq_session_inv [OF assms]
  by (auto simp: session_inv_def oneShot_def acceptedSeqs_def NextReply_Inr split: if_splits)

text \<open>
  A session with the CONTINUE cap 200 that runs through all sequence numbers, after which 255
  is accepted a second time.
\<close>

definition wit_header :: "byte \<Rightarrow> Header" where
  "wit_header k = \<lparr>hdr_Version = 0xc0, hdr_Type = TypeAuthen, hdr_SeqNo = k, hdr_Flags = 0,
                   hdr_SessionID = 7, hdr_Length = 0\<rparr>"

definition wit_sequence :: "nat \<Rightarrow> Sequence" where
  "wit_sequence k = \<lparr>sq_sessionID = 7, sq_typ = TypeAuthen, sq_next = of_nat (2 * k + 1), sq_started = 0 < k,
     sq_replied = 0 < k, sq_closed = False, sq_continues = int (k - 1), sq_maxCont = 200, sq_wrap = False\<rparr>"

lemma wit_exchange:
  assumes "k < 127"
  defines "s \<equiv> (wit_sequence k)\<lparr>sq_started := True, sq_continues := int k, sq_next := of_nat (2 * k + 2)\<rparr>"
  shows "CheckRequest (wit_sequence k) (wit_header (of_nat (2 * k + 1))) = (s, Inr ())"
    and "NextReply s 0 = (wit_sequence (Suc k),
      Inr (zero_Header\<lparr>hdr_Type := TypeAuthen, hdr_SeqNo := of_nat (2 * k + 2), hdr_Flags := 0, hdr_SessionID := 7\<rparr>))"
proof -
  have u: "unat (of_nat (2 * k + 1) :: byte) = 2 * k + 1" "unat (of_nat (2 * k + 2) :: byte) = 2 * k + 2"
    using assms(1) by (simp_all add: unat_of_nat del: of_nat_Suc of_nat_add of_nat_mult)
  then have n: "of_nat (2 * k + 1) \<noteq> (0 :: byte)" "of_nat (2 * k + 1) \<noteq> (255 :: byte)"
    using assms(1) by (auto simp: word_unat_eq_iff simp del: of_nat_Suc of_nat_add of_nat_mult)
  have "Header_Validate (wit_header (of_nat (2 * k + 1))) = Inr ()"
    using n(1) by (simp add: Header_Validate_def Header_Major_def wit_header_def del: of_nat_Suc of_nat_add of_nat_mult)
  then show "CheckRequest (wit_sequence k) (wit_header (of_nat (2 * k + 1))) = (s, Inr ())"
    using n u assms(1) unfolding CheckRequest_Inr advanceRequest_eq ClientSeq_odd s_def
    by (cases k) (auto simp: wit_sequence_def wit_header_def oneShot_def add.commute)
  show "NextReply s 0 = (wit_sequence (Suc k),
      Inr (zero_Header\<lparr>hdr_Type := TypeAuthen, hdr_SeqNo := of_nat (2 * k + 2), hdr_Flags := 0, hdr_SessionID := 7\<rparr>))"
    using u assms(1) unfolding NextReply_Inr ServerSeq_even s_def
    by (auto simp: wit_sequence_def oneShot_def simp del: of_nat_Suc of_nat_add of_nat_mult) simp
qed

lemma wit_session: "k \<le> 127 \<Longrightarrow> seq_session 7 TypeAuthen 200 (wit_sequence k) (oddSeqs k) (evenSeqs k)"
proof (induction k)
  case 0
  have "wit_sequence 0 = SetMaxContinues (NewSequence 7 TypeAuthen) 200"
    by (simp add: wit_sequence_def SetMaxContinues_def NewSequence_def)
  then show ?case using session_new [of 7 TypeAuthen 200] by (simp add: oddSeqs_def evenSeqs_def)
next
  case (Suc k)
  then have "seq_session 7 TypeAuthen 200 (wit_sequence k) (oddSeqs k) (evenSeqs k)" "k < 127" by simp_all
  from session_reply [OF session_accept [OF this(1) wit_exchange(1)] wit_exchange(2)] this(2) show ?case
    unfolding oddSeqs_Suc evenSeqs_Suc by (simp add: wit_header_def)
qed

lemma wit_session_repeat: "\<exists>s. seq_session 7 TypeAuthen 200 s (oddSeqs 127 @ [255, 255]) (evenSeqs 127)"
proof -
  let ?s1 = "fst (CheckRequest (wit_sequence 127) (wit_header 255))"
  have "CheckRequest (wit_sequence 127) (wit_header 255) = (?s1, Inr ())"
    "CheckRequest ?s1 (wit_header 255) = (fst (CheckRequest ?s1 (wit_header 255)), Inr ())" by code_simp+
  from session_accept [OF session_accept [OF wit_session [of 127] this(1)] this(2)]
  show ?thesis by (auto simp: wit_header_def)
qed

theorem session_sequence_numbers_witness:
  "\<exists>s reqs. seq_session 7 TypeAuthen 200 s reqs (evenSeqs 127) \<and> length reqs = 129 \<and>
     reqs = oddSeqs 128 @ [255] \<and> (\<forall>flags s' h. NextReply s flags \<noteq> (s', Inr h))"
proof -
  obtain s where s: "seq_session 7 TypeAuthen 200 s (oddSeqs 127 @ [255, 255]) (evenSeqs 127)"
    using wit_session_repeat by blast
  have "oddSeqs 127 @ [255, 255] = oddSeqs 128 @ [255]"
    using session_sequence_numbers [OF s] by simp
  with s have "seq_session 7 TypeAuthen 200 s (oddSeqs 128 @ [255]) (evenSeqs 127)" by metis
  moreover have "\<forall>flags s' h. NextReply s flags \<noteq> (s', Inr h)" using session_sequence_numbers [OF s] by simp
  ultimately show ?thesis by (intro exI [of _ s] exI [of _ "oddSeqs 128 @ [255]"]) simp
qed

text \<open>
  Single-connect negotiation: whatever flags follow, the outcome of a connection
  is fixed by the first request and the first reply, and another session is allowed exactly
  when both of those carried the single-connect flag.
\<close>

theorem single_connect_negotiation:
  "OnServerFirst (OnClientFirst (fst (OnServerFirst (OnClientFirst zero_SingleConnect cf) sf)) cf') sf' =
     OnServerFirst (OnClientFirst zero_SingleConnect cf) sf \<and>
   (AllowNewSession (fst (OnServerFirst (OnClientFirst zero_SingleConnect cf) sf)) = Inr () \<longleftrightarrow>
     NegotiateSingleConnect True cf sf)"
  by (simp add: OnServerFirst_result single_connect_settled AllowNewSession_def Negotiated_def)

end
