(* ===== verification/Tacacs_Dispatch.thy ===== *)
theory Tacacs_Dispatch
  imports Tacacs_Author Tacacs_Acct Tacacs_Flows Tacacs_Sequence
begin

text \<open>
  One packet of one session (\<open>internal/tacacs/server/conn.go\<close>: \<open>dispatch\<close> and what it
  calls; \<open>handler.go\<close>; \<open>limits.go\<close>).

  The AAA hook is the record \<open>Handler\<close> of Go's interface methods over a state of its own,
  so that calls that change it are visible; \<open>EndSession\<close> is the optional
  \<open>SessionFinalizer\<close>. The locale \<open>reply_codec\<close> states what the dispatcher relies on from a
  body codec: an encoded reply is within the body cap and decodes to the reply.
\<close>

datatype Transport = TransportLegacy | TransportTLS

record Identity =
  id_ClientID :: string
  id_Transport :: Transport
  id_Peer :: bytes
  id_Revision :: uint64

record Env =
  env_Identity :: Identity
  env_SessionID :: uint32
  env_ConnKey :: uint64

record 's Handler =
  h_AuthenStart :: "Env \<Rightarrow> AuthenStart \<Rightarrow> 's \<Rightarrow> 's \<times> (tac_err + AuthenReply)"
  h_AuthenContinue :: "Env \<Rightarrow> AuthenContinue \<Rightarrow> 's \<Rightarrow> 's \<times> (tac_err + AuthenReply)"
  h_Authorize :: "Env \<Rightarrow> AuthorRequest \<Rightarrow> 's \<Rightarrow> 's \<times> (tac_err + AuthorResponse)"
  h_Account :: "Env \<Rightarrow> AcctRequest \<Rightarrow> 's \<Rightarrow> 's \<times> (tac_err + AcctReply)"
  h_EndSession :: "(Env \<Rightarrow> 's \<Rightarrow> 's) option"

definition authenStatus :: "byte \<Rightarrow> AuthenReply" where
  "authenStatus st = \<lparr>ar_Status = st, ar_Flags = 0, ar_ServerMsg = [], ar_Data = []\<rparr>"

definition authorStatus :: "byte \<Rightarrow> AuthorResponse" where
  "authorStatus st = \<lparr>ars_Status = st, ars_ServerMsg = [], ars_Data = [], ars_Args = []\<rparr>"

definition acctStatus :: "byte \<Rightarrow> AcctReply" where
  "acctStatus st = \<lparr>acr_Status = st, acr_ServerMsg = [], acr_Data = []\<rparr>"

definition Stub :: "'s Handler" where
  "Stub =
     \<lparr>h_AuthenStart = (\<lambda>_ _ s. (s, Inr (authenStatus AuthenStatusError))),
      h_AuthenContinue = (\<lambda>_ cont s. (s, Inr (if AuthenContinue_Abort cont
                                             then authenStatus AuthenStatusFail
                                             else authenStatus AuthenStatusError))),
      h_Authorize = (\<lambda>_ _ s. (s, Inr (authorStatus AuthorStatusFail))),
      h_Account = (\<lambda>_ req s. (s, Inr (if \<not> ValidAcctFlags (acq_Flags req)
                                      then acctStatus AcctStatusError
                                      else acctStatus AcctStatusSuccess))),
      h_EndSession = None\<rparr>"

text \<open>Durations are nanoseconds.\<close>

record Limits =
  lim_MaxConnections :: int
  lim_MaxSessionsPerConnection :: int
  lim_MaxPacketBodyBytes :: uint32
  lim_ReadTimeout :: int
  lim_WriteTimeout :: int
  lim_IdleTimeout :: int
  lim_HandshakeTimeout :: int
  lim_SingleConnectEnabled :: bool
  lim_MaxLifetime :: int
  lim_ShutdownGrace :: int

definition normalized :: "Limits \<Rightarrow> Limits" where
  "normalized l =
     \<lparr>lim_MaxConnections = (if lim_MaxConnections l < 0 then 0 else lim_MaxConnections l),
      lim_MaxSessionsPerConnection =
        (if lim_MaxSessionsPerConnection l \<le> 0 then 1024 else lim_MaxSessionsPerConnection l),
      lim_MaxPacketBodyBytes = lim_MaxPacketBodyBytes l,
      lim_ReadTimeout = (if lim_ReadTimeout l \<le> 0 then 15 * 10 ^ 9 else lim_ReadTimeout l),
      lim_WriteTimeout = (if lim_WriteTimeout l \<le> 0 then 15 * 10 ^ 9 else lim_WriteTimeout l),
      lim_IdleTimeout = (if lim_IdleTimeout l \<le> 0 then 60 * 10 ^ 9 else lim_IdleTimeout l),
      lim_HandshakeTimeout =
        (if lim_HandshakeTimeout l \<le> 0 then 10 * 10 ^ 9 else lim_HandshakeTimeout l),
      lim_SingleConnectEnabled = lim_SingleConnectEnabled l,
      lim_MaxLifetime = lim_MaxLifetime l,
      lim_ShutdownGrace = (if lim_ShutdownGrace l \<le> 0 then 15 * 10 ^ 9 else lim_ShutdownGrace l)\<rparr>"

record outgoing =
  out_hdr :: Header
  out_body :: bytes
  out_terminal :: bool

definition mapDecodeErr :: "Transport \<Rightarrow> tac_err \<Rightarrow> tac_err" where
  "mapDecodeErr tr err =
     (if err = ErrLengthMismatch \<and> tr = TransportLegacy then ErrSecretMismatch else err)"

definition authenTerminal :: "byte \<Rightarrow> bool" where
  "authenTerminal status \<longleftrightarrow>
     status \<in> {AuthenStatusPass, AuthenStatusFail, AuthenStatusRestart, AuthenStatusError}"

definition encodeAuthen :: "Header \<Rightarrow> AuthenReply \<Rightarrow> bool \<Rightarrow> tac_err + outgoing" where
  "encodeAuthen h r terminal =
     rbind (AuthenReply_Encode r) (\<lambda>body.
     Inr \<lparr>out_hdr = h\<lparr>hdr_Length := of_nat (length body)\<rparr>, out_body = body, out_terminal = terminal\<rparr>)"

definition encodeAuthor :: "Header \<Rightarrow> AuthorResponse \<Rightarrow> tac_err + outgoing" where
  "encodeAuthor h r =
     rbind (AuthorResponse_Encode r) (\<lambda>body.
     Inr \<lparr>out_hdr = h\<lparr>hdr_Length := of_nat (length body)\<rparr>, out_body = body, out_terminal = True\<rparr>)"

definition encodeAcct :: "Header \<Rightarrow> AcctReply \<Rightarrow> tac_err + outgoing" where
  "encodeAcct h r =
     rbind (AcctReply_Encode r) (\<lambda>body.
     Inr \<lparr>out_hdr = h\<lparr>hdr_Length := of_nat (length body)\<rparr>, out_body = body, out_terminal = True\<rparr>)"

definition dispatchAuthen ::
  "'s Handler \<Rightarrow> Env \<Rightarrow> Header \<Rightarrow> Header \<Rightarrow> bytes \<Rightarrow> 's \<Rightarrow> 's \<times> (tac_err + outgoing)" where
  "dispatchAuthen H env hdr rh body s =
     (let tr = id_Transport (env_Identity env)
      in if hdr_SeqNo hdr = 1
         then (case DecodeAuthenStart body of
                 Inl e \<Rightarrow> (s, Inl (mapDecodeErr tr e))
               | Inr start \<Rightarrow>
                   (let disp = snd (ClassifyAuthenStart (Header_Minor hdr) start)
                    in if disp \<noteq> DispositionAccept
                       then (s, encodeAuthen rh (authenStatus (Disposition_AuthenStatus disp)) True)
                       else (case h_AuthenStart H env start s of
                               (s', Inl _) \<Rightarrow> (s', encodeAuthen rh (authenStatus AuthenStatusError) True)
                             | (s', Inr reply) \<Rightarrow>
                                 (s', encodeAuthen rh reply (authenTerminal (ar_Status reply))))))
         else (case DecodeAuthenContinue body of
                 Inl e \<Rightarrow> (s, Inl (mapDecodeErr tr e))
               | Inr cont \<Rightarrow>
                   (case h_AuthenContinue H env cont s of
                      (s', Inl _) \<Rightarrow> (s', encodeAuthen rh (authenStatus AuthenStatusError) True)
                    | (s', Inr reply) \<Rightarrow>
                        (s', encodeAuthen rh reply
                               (authenTerminal (ar_Status reply) \<or> AuthenContinue_Abort cont)))))"

definition dispatchAuthor ::
  "'s Handler \<Rightarrow> Env \<Rightarrow> Header \<Rightarrow> Header \<Rightarrow> bytes \<Rightarrow> 's \<Rightarrow> 's \<times> (tac_err + outgoing)" where
  "dispatchAuthor H env hdr rh body s =
     (if ClassifyAuthorMinor (Header_Minor hdr) \<noteq> DispositionAccept
      then (s, encodeAuthor rh (authorStatus AuthorStatusError))
      else case DecodeAuthorRequest body of
        Inl e \<Rightarrow> (s, Inl (mapDecodeErr (id_Transport (env_Identity env)) e))
      | Inr req \<Rightarrow>
          (case h_Authorize H env req s of
             (s', Inl _) \<Rightarrow> (s', encodeAuthor rh (authorStatus AuthorStatusError))
           | (s', Inr reply) \<Rightarrow> (s', encodeAuthor rh reply)))"

definition dispatchAcct ::
  "'s Handler \<Rightarrow> Env \<Rightarrow> Header \<Rightarrow> Header \<Rightarrow> bytes \<Rightarrow> 's \<Rightarrow> 's \<times> (tac_err + outgoing)" where
  "dispatchAcct H env hdr rh body s =
     (if ClassifyAcctMinor (Header_Minor hdr) \<noteq> DispositionAccept
      then (s, encodeAcct rh (acctStatus AcctStatusError))
      else case DecodeAcctRequest body of
        Inl (_, e) \<Rightarrow>
          if e = ErrAcctFlags then (s, encodeAcct rh (acctStatus AcctStatusError))
          else (s, Inl (mapDecodeErr (id_Transport (env_Identity env)) e))
      | Inr req \<Rightarrow>
          (case h_Account H env req s of
             (s', Inl _) \<Rightarrow> (s', encodeAcct rh (acctStatus AcctStatusError))
           | (s', Inr reply) \<Rightarrow> (s', encodeAcct rh reply)))"

text \<open>\<open>dispatch\<close> advances the session's sequence machine and the handler's state.\<close>

definition dispatch ::
  "'s Handler \<Rightarrow> Identity \<Rightarrow> uint64 \<Rightarrow> Sequence \<Rightarrow> Header \<Rightarrow> bytes \<Rightarrow> 's
     \<Rightarrow> Sequence \<times> 's \<times> (tac_err + outgoing)" where
  "dispatch H ident connKey q hdr body s =
     (case CheckRequest q hdr of
        (q, Inl e) \<Rightarrow> (q, s, Inl e)
      | (q, Inr _) \<Rightarrow>
          (case NextReply q 0 of
             (q, Inl e) \<Rightarrow> (q, s, Inl e)
           | (q, Inr rh) \<Rightarrow>
               (let rh = rh\<lparr>hdr_Version := hdr_Version hdr, hdr_Flags := 0\<rparr>;
                    env = \<lparr>env_Identity = ident, env_SessionID = hdr_SessionID hdr,
                           env_ConnKey = connKey\<rparr>
                in if hdr_Type hdr = TypeAuthen then (q, dispatchAuthen H env hdr rh body s)
                   else if hdr_Type hdr = TypeAuthor then (q, dispatchAuthor H env hdr rh body s)
                   else if hdr_Type hdr = TypeAcct then (q, dispatchAcct H env hdr rh body s)
                   else (q, s, Inl ErrUnknownType))))"

subsection \<open>What a reply codec promises\<close>

locale reply_codec =
  fixes enc :: "'a \<Rightarrow> tac_err + bytes"
    and dec :: "bytes \<Rightarrow> tac_err + 'a"
    and norm :: "'a \<Rightarrow> 'a"
  assumes enc_dec: "enc r = Inr p \<Longrightarrow> dec p = Inr (norm r)"
    and enc_cap: "enc r = Inr p \<Longrightarrow> length p \<le> MaxBodyBytes"
begin

definition packed :: "Header \<Rightarrow> 'a \<Rightarrow> bool \<Rightarrow> tac_err + outgoing" where
  "packed h r t =
     rbind (enc r) (\<lambda>body.
     Inr \<lparr>out_hdr = h\<lparr>hdr_Length := of_nat (length body)\<rparr>, out_body = body, out_terminal = t\<rparr>)"

lemma enc_inj: "enc r = Inr p \<Longrightarrow> enc r' = Inr p \<Longrightarrow> norm r = norm r'"
  by (metis enc_dec sum.inject(2))

lemma packed_reply:
  "packed h r t = Inr out \<Longrightarrow>
     dec (out_body out) = Inr (norm r) \<and> unat (hdr_Length (out_hdr out)) = length (out_body out) \<and>
     length (out_body out) \<le> MaxBodyBytes \<and> out_terminal out = t \<and>
     (\<exists>n. out_hdr out = h\<lparr>hdr_Length := n\<rparr>)"
  using enc_dec [of r] enc_cap [of r]
  by (force simp: packed_def result_simps unat_of_nat_u32)

lemma packed_error: "packed h r t = Inl e \<longleftrightarrow> enc r = Inl e"
  by (auto simp: packed_def result_simps)

end

interpretation authen_reply: reply_codec AuthenReply_Encode DecodeAuthenReply
    "\<lambda>r. r\<lparr>ar_Flags := ar_Flags r AND ReplyFlagKnownMask\<rparr>"
  by unfold_locales (auto simp: AuthenReply_Encode_Inr DecodeAuthenReply_Inr)

interpretation author_reply: reply_codec AuthorResponse_Encode DecodeAuthorResponse "\<lambda>r. r"
  by unfold_locales (auto simp: AuthorResponse_Encode_Inr DecodeAuthorResponse_Inr argsRead_onWire)

interpretation acct_reply: reply_codec AcctReply_Encode DecodeAcctReply "\<lambda>r. r"
  by unfold_locales (auto simp: AcctReply_Encode_Inr DecodeAcctReply_Inr)

lemma encode_packed:
  "encodeAuthen h ra t = authen_reply.packed h ra t"
  "encodeAuthor h rz = author_reply.packed h rz True"
  "encodeAcct h rc = acct_reply.packed h rc True"
  by (simp_all add: encodeAuthen_def encodeAuthor_def encodeAcct_def authen_reply.packed_def
      author_reply.packed_def acct_reply.packed_def)

subsection \<open>Bare status replies\<close>

lemma PutUint16_0: "PutUint16_BE 0 = [0, 0]"
  by (simp add: PutUint16_BE_def)

lemma authenStatus_Encode: "st \<noteq> AuthenStatusFollow \<Longrightarrow> AuthenReply_Encode (authenStatus st) = Inr [st, 0, 0, 0, 0, 0]"
  by (simp add: AuthenReply_Encode_def authenStatus_def u16len_def PutUint16_0)

lemma authorStatus_Encode: "st \<noteq> AuthorStatusFollow \<Longrightarrow> AuthorResponse_Encode (authorStatus st) = Inr [st, 0, 0, 0, 0, 0]"
  by (simp add: AuthorResponse_Encode_def authorStatus_def u16len_def PutUint16_0 encodeArgList_def)

lemma acctStatus_Encode: "st \<noteq> AcctStatusFollow \<Longrightarrow> AcctReply_Encode (acctStatus st) = Inr [0, 0, 0, 0, st]"
  by (simp add: AcctReply_Encode_def acctStatus_def u16len_def PutUint16_0)

lemmas status_Encode = authenStatus_Encode authorStatus_Encode acctStatus_Encode

subsection \<open>Replies of the dispatcher\<close>

text \<open>The body of a reply of the given packet type that is not a FOLLOW.\<close>

definition replyBody :: "byte \<Rightarrow> bytes \<Rightarrow> bool" where
  "replyBody ty b \<longleftrightarrow>
     (ty = TypeAuthen \<and> (\<exists>r. DecodeAuthenReply b = Inr r \<and> ar_Status r \<noteq> AuthenStatusFollow) \<or>
      ty = TypeAuthor \<and> (\<exists>r. DecodeAuthorResponse b = Inr r \<and> ars_Status r \<noteq> AuthorStatusFollow) \<or>
      ty = TypeAcct \<and> (\<exists>r. DecodeAcctReply b = Inr r \<and> acr_Status r \<noteq> AcctStatusFollow))"

definition wellFormedReply :: "byte \<Rightarrow> Header \<Rightarrow> outgoing \<Rightarrow> bool" where
  "wellFormedReply ty rh out \<longleftrightarrow>
     replyBody ty (out_body out) \<and> length (out_body out) \<le> MaxBodyBytes \<and>
     unat (hdr_Length (out_hdr out)) = length (out_body out) \<and>
     (\<exists>n. out_hdr out = rh\<lparr>hdr_Length := n\<rparr>)"

lemma encodeAuthen_Encode: "encodeAuthen h r t = Inr out \<Longrightarrow> AuthenReply_Encode r = Inr (out_body out)"
  by (auto simp: encodeAuthen_def result_simps)

lemma encodeAuthor_Encode: "encodeAuthor h r = Inr out \<Longrightarrow> AuthorResponse_Encode r = Inr (out_body out)"
  by (auto simp: encodeAuthor_def result_simps)

lemma encodeAcct_Encode: "encodeAcct h r = Inr out \<Longrightarrow> AcctReply_Encode r = Inr (out_body out)"
  by (auto simp: encodeAcct_def result_simps)

lemma encodeAuthen_wf: "encodeAuthen h r t = Inr out \<Longrightarrow> wellFormedReply TypeAuthen h out"
  using encodeAuthen_Encode [of h r t out] authen_reply.packed_reply [of h r t out]
  by (auto simp: encode_packed wellFormedReply_def replyBody_def AuthenReply_Encode_Inr)

lemma encodeAuthor_wf: "encodeAuthor h r = Inr out \<Longrightarrow> wellFormedReply TypeAuthor h out"
  using encodeAuthor_Encode [of h r out] author_reply.packed_reply [of h r True out]
  by (auto simp: encode_packed wellFormedReply_def replyBody_def AuthorResponse_Encode_Inr)

lemma encodeAcct_wf: "encodeAcct h r = Inr out \<Longrightarrow> wellFormedReply TypeAcct h out"
  using encodeAcct_Encode [of h r out] acct_reply.packed_reply [of h r True out]
  by (auto simp: encode_packed wellFormedReply_def replyBody_def AcctReply_Encode_Inr)

lemmas encode_wf = encodeAuthen_wf encodeAuthor_wf encodeAcct_wf

lemma dispatchAuthen_wf:
  "dispatchAuthen H env hdr rh body s = (s', Inr out) \<Longrightarrow> wellFormedReply TypeAuthen rh out"
  by (auto simp: dispatchAuthen_def Let_def split: sum.splits prod.splits if_splits intro: encode_wf)

lemma dispatchAuthor_wf:
  "dispatchAuthor H env hdr rh body s = (s', Inr out) \<Longrightarrow> wellFormedReply TypeAuthor rh out"
  by (auto simp: dispatchAuthor_def Let_def split: sum.splits prod.splits if_splits intro: encode_wf)

lemma dispatchAcct_wf:
  "dispatchAcct H env hdr rh body s = (s', Inr out) \<Longrightarrow> wellFormedReply TypeAcct rh out"
  by (auto simp: dispatchAcct_def Let_def split: sum.splits prod.splits if_splits intro: encode_wf)

lemma dispatch_Inr:
  assumes "dispatch H ident key q hdr body s = (q', s', Inr out)"
  shows "\<exists>q1 rh. CheckRequest q hdr = (q1, Inr ()) \<and> NextReply q1 0 = (q', Inr rh) \<and>
     wellFormedReply (hdr_Type hdr) (rh\<lparr>hdr_Version := hdr_Version hdr, hdr_Flags := 0\<rparr>) out"
  using assms
  by (auto simp: dispatch_def Let_def split: sum.splits prod.splits if_splits
      dest: dispatchAuthen_wf dispatchAuthor_wf dispatchAcct_wf)

lemma wellFormedReply_known: "wellFormedReply ty rh out \<Longrightarrow> ty = TypeAuthen \<or> ty = TypeAuthor \<or> ty = TypeAcct"
  by (auto simp: wellFormedReply_def replyBody_def)

lemma CheckRequest_next:
  "CheckRequest q hdr = (q1, Inr ()) \<Longrightarrow>
     (if hdr_SeqNo hdr = 255 then sq_wrap q1 else sq_next q1 = hdr_SeqNo hdr + 1 \<and> sq_wrap q1 = sq_wrap q) \<and>
     sq_sessionID q1 = sq_sessionID q \<and> sq_typ q1 = sq_typ q \<and>
     hdr_SessionID hdr = sq_sessionID q \<and> hdr_Type hdr = sq_typ q"
  by (auto simp: CheckRequest_Inr advanceRequest_eq ClientSeq_odd split: if_splits)

text \<open>The header of the reply to an accepted request.\<close>

lemma NextReply_after_Check:
  assumes "CheckRequest q hdr = (q1, Inr ())" and "NextReply q1 f = (q2, Inr rh)"
  shows "unat (hdr_SeqNo rh) = unat (hdr_SeqNo hdr) + 1 \<and> hdr_Type rh = hdr_Type hdr \<and>
     hdr_SessionID rh = hdr_SessionID hdr \<and> hdr_Flags rh = f"
proof -
  have "\<not> sq_wrap q1" using assms(2) by (simp add: NextReply_Inr)
  then have n: "hdr_SeqNo hdr \<noteq> 255" "sq_next q1 = hdr_SeqNo hdr + 1"
    using CheckRequest_next [OF assms(1)] by (auto split: if_splits)
  then have "unat (hdr_SeqNo hdr) < 255"
    using unat_byte_le [of "hdr_SeqNo hdr"] by (auto simp: word_unat_eq_iff order_le_less)
  with n show ?thesis
    using assms(2) CheckRequest_next [OF assms(1)]
    by (auto simp: NextReply_Inr unat_add_1_byte)
qed

subsection \<open>Properties\<close>

text \<open>
  Property C14. Whatever the AAA handler does, a reply produced by the dispatcher echoes the
  version, type and session of the request, carries the next sequence number and no flags,
  declares the length of its body, which is within the body cap, and the body is a
  well-formed reply of the request's type whose status is not FOLLOW.
\<close>

theorem dispatch_reply:
  assumes "dispatch H ident key q hdr body s = (q', s', Inr out)"
  shows "hdr_Version (out_hdr out) = hdr_Version hdr \<and> hdr_Type (out_hdr out) = hdr_Type hdr \<and>
     hdr_SessionID (out_hdr out) = hdr_SessionID hdr \<and> hdr_Flags (out_hdr out) = 0 \<and>
     unat (hdr_SeqNo (out_hdr out)) = unat (hdr_SeqNo hdr) + 1 \<and>
     unat (hdr_Length (out_hdr out)) = length (out_body out) \<and>
     length (out_body out) \<le> MaxBodyBytes \<and> replyBody (hdr_Type hdr) (out_body out)"
proof -
  obtain q1 rh where "CheckRequest q hdr = (q1, Inr ())" "NextReply q1 0 = (q', Inr rh)"
    "wellFormedReply (hdr_Type hdr) (rh\<lparr>hdr_Version := hdr_Version hdr, hdr_Flags := 0\<rparr>) out"
    using dispatch_Inr [OF assms] by blast
  with NextReply_after_Check [OF this(1,2)] show ?thesis
    by (cases out) (auto simp: wellFormedReply_def)
qed

definition wit_identity :: Identity where
  "wit_identity = \<lparr>id_ClientID = ''nas'', id_Transport = TransportLegacy, id_Peer = [], id_Revision = 1\<rparr>"

definition wit_author_header :: Header where
  "wit_author_header = \<lparr>hdr_Version = 0xc0, hdr_Type = 2, hdr_SeqNo = 1, hdr_Flags = 0,
                        hdr_SessionID = 9, hdr_Length = 8\<rparr>"

lemma wit_author_steps:
  "snd (CheckRequest (NewSequence 9 2) wit_author_header) = Inr ()"
  "snd (NextReply (fst (CheckRequest (NewSequence 9 2) wit_author_header)) 0) =
     Inr \<lparr>hdr_Version = 0, hdr_Type = 2, hdr_SeqNo = 2, hdr_Flags = 0, hdr_SessionID = 9, hdr_Length = 0\<rparr>"
  "\<exists>r. DecodeAuthorRequest [0, 0, 0, 0, 0, 0, 0, 0] = Inr r"
  by (code_simp, code_simp, simp add: DecodeAuthorRequest_def wire_simps readArgLens_def cur.getn_law)

theorem dispatch_reply_witness:
  "\<exists>q' out. dispatch (Stub :: unit Handler) wit_identity 1 (NewSequence 9 2) wit_author_header
       [0, 0, 0, 0, 0, 0, 0, 0] () = (q', (), Inr out) \<and> replyBody 2 (out_body out)"
proof -
  let ?d = "dispatch (Stub :: unit Handler) wit_identity 1 (NewSequence 9 2) wit_author_header
       [0, 0, 0, 0, 0, 0, 0, 0] ()"
  let ?o = "\<lparr>out_hdr = \<lparr>hdr_Version = 0xc0, hdr_Type = 2, hdr_SeqNo = 2, hdr_Flags = 0,
      hdr_SessionID = 9, hdr_Length = 6\<rparr>, out_body = [0x10, 0, 0, 0, 0, 0], out_terminal = True\<rparr>"
  have d: "?d = (fst ?d, (), Inr ?o)"
    using wit_author_steps
    by (auto simp: dispatch_def wit_author_header_def dispatchAuthor_def ClassifyAuthorMinor_def
        Header_Minor_def Stub_def encodeAuthor_def status_Encode split: prod.splits sum.splits)
  have "hdr_Type wit_author_header = 2" by (simp add: wit_author_header_def)
  with dispatch_reply [OF d] d show ?thesis by (metis outgoing.select_convs(2))
qed

text \<open>
  Property C15. The AAA handler only sees requests the protocol layer has accepted: if
  dispatching a packet changes the handler's state, then the packet passed the sequence
  check of its open session and carried either a START that decodes and that the version
  matrix accepts, or a decodable CONTINUE beyond the first packet, or a decodable
  authorization or accounting REQUEST with minor version 0 (with valid flags for
  accounting); and the handler's method was called once, on that request.
\<close>

theorem dispatch_guards_handler:
  assumes "dispatch H ident key q hdr body s = (q', s', res)" and "s' \<noteq> s"
  defines "env \<equiv> \<lparr>env_Identity = ident, env_SessionID = hdr_SessionID hdr, env_ConnKey = key\<rparr>"
  shows "snd (CheckRequest q hdr) = Inr () \<and>
     (hdr_Type hdr = TypeAuthen \<and> hdr_SeqNo hdr = 1 \<and>
        (\<exists>start flow. DecodeAuthenStart body = Inr start \<and>
           ClassifyAuthenStart (Header_Minor hdr) start = (flow, DispositionAccept) \<and>
           s' = fst (h_AuthenStart H env start s)) \<or>
      hdr_Type hdr = TypeAuthen \<and> hdr_SeqNo hdr \<noteq> 1 \<and>
        (\<exists>cont. DecodeAuthenContinue body = Inr cont \<and> s' = fst (h_AuthenContinue H env cont s)) \<or>
      hdr_Type hdr = TypeAuthor \<and> Header_Minor hdr = 0 \<and>
        (\<exists>req. DecodeAuthorRequest body = Inr req \<and> s' = fst (h_Authorize H env req s)) \<or>
      hdr_Type hdr = TypeAcct \<and> Header_Minor hdr = 0 \<and>
        (\<exists>req. DecodeAcctRequest body = Inr req \<and> s' = fst (h_Account H env req s)))"
proof -
  obtain q1 rh where ok: "CheckRequest q hdr = (q1, Inr ())" "NextReply q1 0 = (q', Inr rh)"
    using assms(1,2) by (auto simp: dispatch_def Let_def split: sum.splits prod.splits if_splits)
  define rh' where "rh' = rh\<lparr>hdr_Version := hdr_Version hdr, hdr_Flags := 0\<rparr>"
  consider "hdr_Type hdr = TypeAuthen" "dispatchAuthen H env hdr rh' body s = (s', res)"
    | "hdr_Type hdr = TypeAuthor" "dispatchAuthor H env hdr rh' body s = (s', res)"
    | "hdr_Type hdr = TypeAcct" "dispatchAcct H env hdr rh' body s = (s', res)"
    using assms ok by (auto simp: dispatch_def Let_def rh'_def split: if_splits)
  then show ?thesis
  proof cases
    case 1
    with ok assms(2) show ?thesis
      by (auto simp: dispatchAuthen_def Let_def prod_eq_iff split: sum.splits prod.splits if_splits)
  next
    case 2
    with ok assms(2) show ?thesis
      by (auto simp: dispatchAuthor_def ClassifyAuthorMinor_def split: sum.splits prod.splits if_splits)
  next
    case 3
    with ok assms(2) show ?thesis
      by (auto simp: dispatchAcct_def ClassifyAcctMinor_def split: sum.splits prod.splits if_splits)
  qed
qed

definition wit_handler :: "nat Handler" where
  "wit_handler = Stub\<lparr>h_Authorize := (\<lambda>_ _ n. (n + 1, Inr (authorStatus AuthorStatusFail)))\<rparr>"

theorem dispatch_guards_handler_witness:
  "(\<exists>res. snd (dispatch wit_handler wit_identity 1 (NewSequence 9 2) wit_author_header
       [0, 0, 0, 0, 0, 0, 0, 0] 0) = (1, res)) \<and>
   (\<exists>req. DecodeAuthorRequest [0, 0, 0, 0, 0, 0, 0, 0] = Inr req)"
proof -
  let ?d = "dispatch wit_handler wit_identity 1 (NewSequence 9 2) wit_author_header
       [0, 0, 0, 0, 0, 0, 0, 0] 0"
  have d: "?d = (fst ?d, 1, snd (snd ?d))"
    using wit_author_steps
    by (auto simp: dispatch_def wit_author_header_def dispatchAuthor_def ClassifyAuthorMinor_def
        Header_Minor_def wit_handler_def Stub_def split: prod.splits sum.splits)
  have "hdr_Type wit_author_header = 2" by (simp add: wit_author_header_def)
  then have "\<exists>req. DecodeAuthorRequest [0, 0, 0, 0, 0, 0, 0, 0] = Inr req"
    using dispatch_guards_handler [OF d] by simp blast
  with d show ?thesis by (metis snd_conv)
qed

end
