(* ===== verification/Assoc_Table.thy ===== *)
theory Assoc_Table
  imports Taclab_Prelude "HOL-Library.AList"
begin

text \<open>
  Go maps as association lists with distinct keys: the number of entries, a property of
  every entry, and a size summed over the entries, through insertion, replacement and
  deletion. The connection's session table and the bounded stores share these lemmas,
  which the collection \<open>table_simps\<close> gathers.
\<close>

named_theorems table_simps \<open>association lists as tables\<close>

definition tbl_ok :: "('k \<Rightarrow> 'v \<Rightarrow> bool) \<Rightarrow> ('k \<times> 'v) list \<Rightarrow> bool" where
  "tbl_ok P al \<longleftrightarrow> distinct (map fst al) \<and> (\<forall>(k, v) \<in> set al. P k v)"

definition tbl_sum :: "('v \<Rightarrow> nat) \<Rightarrow> ('k \<times> 'v) list \<Rightarrow> nat" where
  "tbl_sum f al = (\<Sum>(k, v) \<leftarrow> al. f v)"

lemma tbl_ok_Nil [simp]: "tbl_ok P []"
  by (simp add: tbl_ok_def)

lemma tbl_ok_distinct: "tbl_ok P al \<Longrightarrow> distinct (map fst al)"
  by (simp add: tbl_ok_def)

lemma tbl_ok_lookup: "tbl_ok P al \<Longrightarrow> map_of al k = Some v \<Longrightarrow> P k v"
  by (auto simp: tbl_ok_def dest: map_of_SomeD)

lemma set_update_subset: "set (AList.update k v al) \<subseteq> insert (k, v) (set al)"
  by (induction al) auto

lemma tbl_ok_update: "tbl_ok P al \<Longrightarrow> P k v \<Longrightarrow> tbl_ok P (AList.update k v al)"
  using set_update_subset [of k v al] by (auto simp: tbl_ok_def distinct_update)

lemma set_delete_subset: "set (AList.delete k al) \<subseteq> set al"
  by (induction al) auto

lemma tbl_ok_delete: "tbl_ok P al \<Longrightarrow> tbl_ok P (AList.delete k al)"
  using set_delete_subset [of k al] by (auto simp: tbl_ok_def distinct_delete)

lemma tbl_ok_mono: "tbl_ok P al \<Longrightarrow> (\<And>k v. P k v \<Longrightarrow> Q k v) \<Longrightarrow> tbl_ok Q al"
  by (auto simp: tbl_ok_def)

lemma tbl_ok_filter: "tbl_ok P al \<Longrightarrow> tbl_ok P (filter Q al)"
  by (auto simp: tbl_ok_def distinct_map_filter)

lemma length_update [table_simps]:
  "length (AList.update k v al) = length al + (if map_of al k = None then 1 else 0)"
  by (induction al) auto

lemma length_delete [table_simps]:
  "distinct (map fst al) \<Longrightarrow>
     length (AList.delete k al) = length al - (if map_of al k = None then 0 else 1)"
proof (induction al)
  case (Cons p al)
  show ?case
  proof (cases "fst p = k")
    case True
    with Cons.prems have "k \<notin> fst ` set al" by auto
    with True show ?thesis by (cases p) simp
  next
    case False
    with Cons show ?thesis by (cases p; cases al) auto
  qed
qed simp

lemma tbl_sum_Nil [simp]: "tbl_sum f [] = 0"
  by (simp add: tbl_sum_def)

lemma tbl_sum_Cons [simp]: "tbl_sum f ((k, v) # al) = f v + tbl_sum f al"
  by (simp add: tbl_sum_def)

lemma tbl_sum_lookup: "map_of al k = Some v \<Longrightarrow> f v \<le> tbl_sum f al"
  by (induction al) (auto split: if_splits)

lemma tbl_sum_update [table_simps]:
  "tbl_sum f (AList.update k v al) =
     tbl_sum f al + f v - (case map_of al k of None \<Rightarrow> 0 | Some w \<Rightarrow> f w)"
proof (induction al)
  case (Cons p al)
  then show ?case
    using tbl_sum_lookup [of al k _ f] by (cases p) (auto split: option.splits)
qed simp

lemma tbl_sum_delete [table_simps]:
  "distinct (map fst al) \<Longrightarrow>
     tbl_sum f (AList.delete k al) = tbl_sum f al - (case map_of al k of None \<Rightarrow> 0 | Some w \<Rightarrow> f w)"
proof (induction al)
  case (Cons p al)
  show ?case
  proof (cases "fst p = k")
    case True
    with Cons.prems have "k \<notin> fst ` set al" by auto
    with True show ?thesis by (cases p) simp
  next
    case False
    with Cons show ?thesis
      using tbl_sum_lookup [of al k _ f] by (cases p) (auto split: option.splits)
  qed
qed simp

lemmas map_of_table [table_simps] = update_conv' delete_conv'

end
