(* ===== verification/Tacacs_Conn.thy ===== *)
theory Tacacs_Conn
  imports Tacacs_Dispatch Assoc_Table
begin

text \<open>
  A TACACS+ connection (\<open>internal/tacacs/server/conn.go\<close>) and the connection slots of a
  listener (\<open>engine.go\<close>).

  The reader goroutine and the session goroutines of a connection interleave. A step of the
  relation \<open>conn_step\<close> is one iteration of the read loop, one packet handled by a session
  goroutine, the deferred clean-up of a goroutine whose session was dropped under it, or an
  event of the environment (the peer goes away, the context is cancelled). What the transport
  delivers is the argument of the read step and what is written is recorded in \<open>cs_out\<close>.
  A session leaves the table when it is stopped, so the closed \<open>done\<close> channel of a session
  of the table is the \<open>cs_closed\<close> flag that \<open>shutdownSessions\<close> sets. Metrics are left out.
\<close>

record sess =
  se_id :: uint32
  se_typ :: byte
  se_seq :: Sequence
  se_in :: "(Header \<times> bytes) option"
  se_running :: bool

record 's connState =
  cs_id :: Identity
  cs_lim :: Limits
  cs_connKey :: uint64
  cs_sc :: SingleConnect
  cs_sessions :: "(uint32 \<times> sess) list"
  cs_drain :: bool
  cs_closed :: bool
  cs_started :: int
  cs_lastAct :: int
  cs_ending :: "uint32 list"
  cs_hs :: 's
  cs_out :: "(Header \<times> bytes) list"
  cs_broken :: bool
  cs_cancel :: bool

definition newConn :: "Identity \<Rightarrow> Limits \<Rightarrow> uint64 \<Rightarrow> int \<Rightarrow> 's \<Rightarrow> 's connState" where
  "newConn ident lim key now hs =
     \<lparr>cs_id = ident, cs_lim = normalized lim, cs_connKey = key, cs_sc = zero_SingleConnect,
      cs_sessions = [], cs_drain = False, cs_closed = False, cs_started = now, cs_lastAct = now,
      cs_ending = [], cs_hs = hs, cs_out = [], cs_broken = False, cs_cancel = False\<rparr>"

definition newSession :: "uint32 \<Rightarrow> byte \<Rightarrow> sess" where
  "newSession sid ty =
     \<lparr>se_id = sid, se_typ = ty, se_seq = NewSequence sid ty, se_in = None, se_running = False\<rparr>"

definition sessionCount :: "'s connState \<Rightarrow> int" where
  "sessionCount cs = int (length (cs_sessions cs))"

definition conn_write :: "Header \<Rightarrow> bytes \<Rightarrow> 's connState \<Rightarrow> 's connState \<times> tac_err option" where
  "conn_write h body cs =
     (if cs_closed cs then (cs, Some ErrClosedPipe)
      else if cs_broken cs then (cs, Some ErrIO)
      else (cs\<lparr>cs_out := cs_out cs @ [(h, body)]\<rparr>, None))"

definition negotiateFlags :: "'s connState \<Rightarrow> 's connState \<times> byte" where
  "negotiateFlags cs =
     (let flags = (if lim_SingleConnectEnabled (cs_lim cs) then FlagSingleConnect else 0);
          sc = fst (OnServerFirst (cs_sc cs) flags)
      in (cs\<lparr>cs_sc := sc\<rparr>, if Negotiated sc then FlagSingleConnect else 0))"

definition orEmpty :: "tac_err + bytes \<Rightarrow> bytes" where
  "orEmpty r = (case r of Inl _ \<Rightarrow> [] | Inr b \<Rightarrow> b)"

definition errorBody :: "byte \<Rightarrow> bytes" where
  "errorBody ty =
     (if ty = TypeAuthen then orEmpty (AuthenReply_Encode (authenStatus AuthenStatusError))
      else if ty = TypeAuthor then orEmpty (AuthorResponse_Encode (authorStatus AuthorStatusError))
      else if ty = TypeAcct then orEmpty (AcctReply_Encode (acctStatus AcctStatusError))
      else [])"

definition replyError :: "Header \<Rightarrow> 's connState \<Rightarrow> 's connState" where
  "replyError req cs =
     (if \<not> KnownType req then cs
      else case (case NextSeq (hdr_SeqNo req) of
                   Inl _ \<Rightarrow> if hdr_SeqNo req \<noteq> 0 then None else Some 1
                 | Inr s \<Rightarrow> Some s) of
        None \<Rightarrow> cs
      | Some seqn \<Rightarrow>
          (let h = zero_Header\<lparr>hdr_Version := hdr_Version req, hdr_Type := hdr_Type req,
                               hdr_SeqNo := seqn, hdr_SessionID := hdr_SessionID req\<rparr>;
               (cs, flags) = (if \<not> SingleConnect_Complete (cs_sc cs) then negotiateFlags cs else (cs, 0));
               body = errorBody (hdr_Type req)
           in fst (conn_write (h\<lparr>hdr_Flags := flags, hdr_Length := of_nat (length body)\<rparr>) body cs)))"

definition endAAA :: "'s Handler \<Rightarrow> uint32 \<Rightarrow> 's connState \<Rightarrow> 's connState" where
  "endAAA H sid cs =
     (case h_EndSession H of
        None \<Rightarrow> cs
      | Some f \<Rightarrow> cs\<lparr>cs_hs := f \<lparr>env_Identity = cs_id cs, env_SessionID = sid, env_ConnKey = cs_connKey cs\<rparr>
                              (cs_hs cs)\<rparr>)"

text \<open>
  \<open>dropSession\<close> removes the session from the table and tells the AAA layer. When it is
  called by the reader on a session whose goroutine is running, that goroutine will find
  \<open>done\<close> closed and run its own deferred \<open>dropSession\<close>, which only finds the AAA layer left
  to tell (\<open>lateEnd\<close>).
\<close>

definition dropSession :: "'s Handler \<Rightarrow> bool \<Rightarrow> uint32 \<Rightarrow> 's connState \<Rightarrow> 's connState" where
  "dropSession H byOwner sid cs =
     endAAA H sid
       (cs\<lparr>cs_sessions := AList.delete sid (cs_sessions cs),
           cs_ending := (case map_of (cs_sessions cs) sid of
                           Some s \<Rightarrow> if se_running s \<and> \<not> byOwner then cs_ending cs @ [sid] else cs_ending cs
                         | None \<Rightarrow> cs_ending cs)\<rparr>)"

definition lateEnd :: "'s Handler \<Rightarrow> 's connState \<Rightarrow> 's connState" where
  "lateEnd H cs =
     (case cs_ending cs of [] \<Rightarrow> cs
      | sid # rest \<Rightarrow> endAAA H sid (cs\<lparr>cs_ending := rest\<rparr>))"

text \<open>\<open>offer\<close> does not block: the packet is refused when the one-packet channel is full.\<close>

definition offer :: "uint32 \<Rightarrow> Header \<times> bytes \<Rightarrow> 's connState \<Rightarrow> 's connState \<times> bool" where
  "offer sid p cs =
     (case map_of (cs_sessions cs) sid of
        None \<Rightarrow> (cs, False)
      | Some s \<Rightarrow>
          if cs_cancel cs \<or> cs_closed cs \<or> se_in s \<noteq> None then (cs, False)
          else (cs\<lparr>cs_sessions := AList.update sid (s\<lparr>se_in := Some p\<rparr>) (cs_sessions cs)\<rparr>, True))"

definition conn_dispatch ::
  "'s Handler \<Rightarrow> uint32 \<Rightarrow> sess \<Rightarrow> Header \<Rightarrow> bytes \<Rightarrow> 's connState
     \<Rightarrow> 's connState \<times> Sequence \<times> (tac_err + outgoing)" where
  "conn_dispatch H sid s hdr body cs =
     (case dispatch H (cs_id cs) (cs_connKey cs) (se_seq s) hdr body (cs_hs cs) of
        (q, hs, res) \<Rightarrow>
          (cs\<lparr>cs_hs := hs, cs_sessions := AList.update sid (s\<lparr>se_seq := q\<rparr>) (cs_sessions cs)\<rparr>, q, res))"

definition startRun :: "uint32 \<Rightarrow> 's connState \<Rightarrow> 's connState" where
  "startRun sid cs =
     (case map_of (cs_sessions cs) sid of
        None \<Rightarrow> cs
      | Some s \<Rightarrow> cs\<lparr>cs_sessions := AList.update sid (s\<lparr>se_running := True\<rparr>) (cs_sessions cs)\<rparr>)"

definition processFirst ::
  "'s Handler \<Rightarrow> sess \<Rightarrow> Header \<Rightarrow> bytes \<Rightarrow> 's connState \<Rightarrow> 's connState \<times> tac_err option" where
  "processFirst H s hdr body cs =
     (case conn_dispatch H (se_id s) s hdr body cs of
        (cs, q, Inl e) \<Rightarrow>
          if e = ErrSecretMismatch
          then (dropSession H False (se_id s) ((replyError hdr cs)\<lparr>cs_drain := True\<rparr>), Some ErrSecretMismatch)
          else (dropSession H False (se_id s) (replyError hdr cs), None)
      | (cs, q, Inr out) \<Rightarrow>
          (case negotiateFlags cs of (cs, flags) \<Rightarrow>
           (case conn_write ((out_hdr out)\<lparr>hdr_Flags := flags\<rparr>) (out_body out) cs of
              (cs, Some e) \<Rightarrow> (dropSession H False (se_id s) cs, Some e)
            | (cs, None) \<Rightarrow>
                if out_terminal out \<or> sq_closed q then (dropSession H False (se_id s) cs, None)
                else (startRun (se_id s) cs, None))))"

text \<open>The part of \<open>handlePacket\<close> for a valid header, from the session lookup on.\<close>

definition handleSession ::
  "'s Handler \<Rightarrow> Header \<Rightarrow> bytes \<Rightarrow> bool \<Rightarrow> 's connState \<Rightarrow> 's connState \<times> tac_err option" where
  "handleSession H hdr body first cs =
     (case map_of (cs_sessions cs) (hdr_SessionID hdr) of
        Some s \<Rightarrow>
          if se_typ s \<noteq> hdr_Type hdr
          then (dropSession H False (hdr_SessionID hdr) (replyError hdr cs), None)
          else (case offer (hdr_SessionID hdr) (hdr, body) cs of
                  (cs, ok) \<Rightarrow> (if \<not> ok then replyError hdr cs else cs, None))
      | None \<Rightarrow>
          if cs_drain cs then (replyError hdr cs, None)
          else if \<not> first \<and> AllowNewSession (cs_sc cs) \<noteq> Inr () then (replyError hdr cs, None)
          else if sessionCount cs \<ge> lim_MaxSessionsPerConnection (cs_lim cs) then (replyError hdr cs, None)
          else (let s = newSession (hdr_SessionID hdr) (hdr_Type hdr);
                    cs = cs\<lparr>cs_sessions := AList.update (hdr_SessionID hdr) s (cs_sessions cs)\<rparr>
                in if first then processFirst H s hdr body cs
                   else (case offer (hdr_SessionID hdr) (hdr, body) (startRun (hdr_SessionID hdr) cs) of
                           (cs, ok) \<Rightarrow>
                             (if \<not> ok then dropSession H False (hdr_SessionID hdr) (replyError hdr cs)
                              else cs, None))))"

definition handlePacket ::
  "'s Handler \<Rightarrow> Header \<Rightarrow> bytes \<Rightarrow> bool \<Rightarrow> 's connState \<Rightarrow> 's connState \<times> tac_err option" where
  "handlePacket H hdr body first cs =
     (let cs = (if first then cs\<lparr>cs_sc := OnClientFirst (cs_sc cs) (hdr_Flags hdr)\<rparr> else cs)
      in if \<not> KnownType hdr
         then (case UnknownTypeReply hdr of
                 Inl e \<Rightarrow> (cs\<lparr>cs_drain := True\<rparr>, Some e)
               | Inr reply \<Rightarrow>
                   (let cs = (if \<not> SingleConnect_Complete (cs_sc cs) \<and> first
                              then cs\<lparr>cs_sc := fst (OnServerFirst (cs_sc cs) (hdr_Flags reply))\<rparr> else cs)
                    in ((fst (conn_write reply [] cs))\<lparr>cs_drain := True\<rparr>, None)))
         else case Header_Validate hdr of
           Inl _ \<Rightarrow> ((replyError hdr cs)\<lparr>cs_drain := True\<rparr>, None)
         | Inr _ \<Rightarrow> handleSession H hdr body first cs)"

definition handleReadError :: "Header \<Rightarrow> tac_err \<Rightarrow> 's connState \<Rightarrow> 's connState \<times> bool \<times> tac_err option" where
  "handleReadError hdr err cs =
     (if err = ErrUnencrypted \<or> err = ErrMissingUnencrypted
      then ((replyError hdr cs)\<lparr>cs_drain := True\<rparr>, True, None)
      else if err = ErrBodyTooLarge
      then ((if KnownType hdr then replyError hdr cs else cs)\<lparr>cs_drain := True\<rparr>, False, Some err)
      else (cs, False, Some err))"

definition shouldClose :: "'s connState \<Rightarrow> bool" where
  "shouldClose cs =
     (if SingleConnect_Pending (cs_sc cs) then False
      else if \<not> Negotiated (cs_sc cs) \<and> sessionCount cs = 0 then True
      else cs_drain cs \<and> sessionCount cs = 0)"

definition readDeadline :: "'s connState \<Rightarrow> bool \<Rightarrow> int \<Rightarrow> int" where
  "readDeadline cs first now =
     (let dl = now + lim_ReadTimeout (cs_lim cs)
      in if first
         then (let hs = now + lim_HandshakeTimeout (cs_lim cs) in if hs < dl then hs else dl)
         else (let idle = cs_lastAct cs + lim_IdleTimeout (cs_lim cs);
                   dl = (if idle < dl then idle else dl)
               in if lim_MaxLifetime (cs_lim cs) > 0
                  then (let life = cs_started cs + lim_MaxLifetime (cs_lim cs)
                        in if life < dl then life else dl)
                  else dl))"

text \<open>
  One iteration of \<open>readLoop\<close> at time \<open>now\<close>; \<open>rd\<close> is what \<open>pio.Read\<close> delivers. The result
  is the connection, the value of \<open>first\<close> and, when the loop returns, its error.
\<close>

definition readIter ::
  "'s Handler \<Rightarrow> int \<Rightarrow> (Header \<times> tac_err) + (Header \<times> bytes) \<Rightarrow> bool \<Rightarrow> 's connState
     \<Rightarrow> 's connState \<times> bool \<times> (tac_err option) option" where
  "readIter H now rd first cs =
     (if cs_cancel cs then (cs, first, Some (Some ErrContext))
      else if lim_MaxLifetime (cs_lim cs) > 0 \<and> now - cs_started cs \<ge> lim_MaxLifetime (cs_lim cs)
      then (cs, first, Some None)
      else if cs_drain cs \<and> sessionCount cs = 0 then (cs, first, Some None)
      else case rd of
        Inl (hdr, err) \<Rightarrow>
          (case handleReadError hdr err cs of
             (cs, cont, herr) \<Rightarrow>
               if \<not> cont then (cs, False, Some herr)
               else if shouldClose cs then (cs, False, Some None)
               else (cs, False, None))
      | Inr (hdr, body) \<Rightarrow>
          (case handlePacket H hdr body first (cs\<lparr>cs_lastAct := now\<rparr>) of
             (cs, Some e) \<Rightarrow> (cs, first, Some (Some e))
           | (cs, None) \<Rightarrow>
               if shouldClose cs then (cs, False, Some None) else (cs, False, None)))"

text \<open>One packet handled by the goroutine of session \<open>sid\<close> (\<open>runSession\<close>).\<close>

definition runIter :: "'s Handler \<Rightarrow> uint32 \<Rightarrow> 's connState \<Rightarrow> 's connState" where
  "runIter H sid cs =
     (case map_of (cs_sessions cs) sid of
        None \<Rightarrow> cs
      | Some s \<Rightarrow>
          if \<not> se_running s then cs
          else if cs_cancel cs \<or> cs_closed cs then dropSession H True sid cs
          else case se_in s of
            None \<Rightarrow> cs
          | Some (hdr, body) \<Rightarrow>
              (case conn_dispatch H sid (s\<lparr>se_in := None\<rparr>) hdr body cs of
                 (cs, q, Inl e) \<Rightarrow>
                   (let cs = replyError hdr cs;
                        cs = (if e = ErrSecretMismatch then cs\<lparr>cs_drain := True\<rparr> else cs)
                    in dropSession H True sid cs)
               | (cs, q, Inr out) \<Rightarrow>
                   (case conn_write (out_hdr out) (out_body out) cs of
                      (cs, Some _) \<Rightarrow> dropSession H True sid cs
                    | (cs, None) \<Rightarrow>
                        if out_terminal out \<or> sq_closed q then dropSession H True sid cs else cs)))"

definition shutdownSessions :: "'s connState \<Rightarrow> 's connState" where
  "shutdownSessions cs = cs\<lparr>cs_closed := True\<rparr>"

text \<open>The whole connection: its state, whether the next packet is the first, whether the read loop is still running.\<close>

inductive conn_step ::
  "'s Handler \<Rightarrow> 's connState \<times> bool \<times> bool \<Rightarrow> 's connState \<times> bool \<times> bool \<Rightarrow> bool"
  for H :: "'s Handler" where
  step_read: "readIter H now rd first cs = (cs', first', None) \<Longrightarrow>
     conn_step H (cs, first, True) (cs', first', True)"
| step_return: "readIter H now rd first cs = (cs', first', Some e) \<Longrightarrow>
     conn_step H (cs, first, True) (shutdownSessions cs', first', False)"
| step_run: "conn_step H (cs, first, open) (runIter H sid cs, first, open)"
| step_late: "conn_step H (cs, first, open) (lateEnd H cs, first, open)"
| step_broken: "conn_step H (cs, first, open) (cs\<lparr>cs_broken := True\<rparr>, first, open)"
| step_cancel: "conn_step H (cs, first, open) (cs\<lparr>cs_cancel := True\<rparr>, first, open)"

inductive conn_reach ::
  "'s Handler \<Rightarrow> 's connState \<Rightarrow> 's connState \<times> bool \<times> bool \<Rightarrow> bool"
  for H :: "'s Handler" and cs0 :: "'s connState" where
  reach_init: "conn_reach H cs0 (cs0, True, True)"
| reach_step: "conn_reach H cs0 st \<Longrightarrow> conn_step H st st' \<Longrightarrow> conn_reach H cs0 st'"

record Engine =
  eng_Limits :: Limits
  eng_sem :: "nat option"
  eng_active :: int

definition Engine_init :: "Limits \<Rightarrow> Engine" where
  "Engine_init lim =
     (let l = normalized lim
      in \<lparr>eng_Limits = l, eng_sem = (if lim_MaxConnections l > 0 then Some 0 else None), eng_active = 0\<rparr>)"

definition TryAcquire :: "Engine \<Rightarrow> Engine \<times> bool" where
  "TryAcquire e =
     (case eng_sem e of
        None \<Rightarrow> (e\<lparr>eng_active := eng_active e + 1\<rparr>, True)
      | Some k \<Rightarrow> if int k < lim_MaxConnections (eng_Limits e)
                  then (e\<lparr>eng_sem := Some (k + 1), eng_active := eng_active e + 1\<rparr>, True)
                  else (e, False))"

definition Release :: "Engine \<Rightarrow> Engine" where
  "Release e =
     e\<lparr>eng_active := eng_active e - 1, eng_sem := map_option (\<lambda>k. k - 1) (eng_sem e)\<rparr>"

subsection \<open>What a connection keeps\<close>

definition wfOut :: "Header \<Rightarrow> bytes \<Rightarrow> bool" where
  "wfOut h b \<longleftrightarrow>
     unat (hdr_Length h) = length b \<and> length b \<le> MaxBodyBytes \<and>
     (if KnownType h then replyBody (hdr_Type h) b \<and> (hdr_Flags h = 0 \<or> hdr_Flags h = FlagSingleConnect)
      else b = [])"

definition sessOk :: "uint32 \<Rightarrow> sess \<Rightarrow> bool" where
  "sessOk k s \<longleftrightarrow> se_id s = k \<and> sq_sessionID (se_seq s) = k \<and> sq_typ (se_seq s) = se_typ s"

definition conn_ok :: "Limits \<Rightarrow> 's connState \<Rightarrow> bool" where
  "conn_ok L cs \<longleftrightarrow>
     cs_lim cs = L \<and> tbl_ok sessOk (cs_sessions cs) \<and>
     sessionCount cs \<le> lim_MaxSessionsPerConnection (cs_lim cs) \<and>
     0 < lim_MaxSessionsPerConnection (cs_lim cs) \<and>
     (sc_ok (cs_sc cs) \<longrightarrow> sc_done (cs_sc cs)) \<and>
     (\<not> Negotiated (cs_sc cs) \<longrightarrow> length (cs_sessions cs) \<le> 1) \<and>
     (\<forall>(h, b) \<in> set (cs_out cs). wfOut h b)"

text \<open>The part of the state a helper may touch beside the sessions.\<close>

definition sameTable :: "'s connState \<Rightarrow> 's connState \<Rightarrow> bool" where
  "sameTable cs cs' \<longleftrightarrow>
     cs_sessions cs' = cs_sessions cs \<and> cs_lim cs' = cs_lim cs \<and>
     (Negotiated (cs_sc cs) \<longrightarrow> Negotiated (cs_sc cs'))"

lemma sameTable_ok:
  "conn_ok L cs \<Longrightarrow> sameTable cs cs' \<Longrightarrow> sc_ok (cs_sc cs') \<longrightarrow> sc_done (cs_sc cs') \<Longrightarrow>
     \<forall>(h, b) \<in> set (cs_out cs'). wfOut h b \<Longrightarrow> conn_ok L cs'"
  by (auto simp: conn_ok_def sameTable_def sessionCount_def)

lemma conn_write_eq:
  "conn_write h b cs = (cs', r) \<Longrightarrow> cs' = cs \<or> cs' = cs\<lparr>cs_out := cs_out cs @ [(h, b)]\<rparr>"
  by (auto simp: conn_write_def split: if_splits)

lemma conn_write_ok: "conn_ok L cs \<Longrightarrow> wfOut h b \<Longrightarrow> conn_write h b cs = (cs', r) \<Longrightarrow> conn_ok L cs'"
  by (auto simp: conn_ok_def sessionCount_def dest!: conn_write_eq)

lemma OnServerFirst_ok:
  "(sc_ok sc \<longrightarrow> sc_done sc) \<Longrightarrow>
     sc_done (fst (OnServerFirst sc f)) \<and> (sc_ok sc \<longrightarrow> sc_ok (fst (OnServerFirst sc f)))"
  by (auto simp: OnServerFirst_def Let_def)

lemma negotiateFlags_ok:
  assumes "conn_ok L cs" and "negotiateFlags cs = (cs', f)"
  shows "conn_ok L cs' \<and> (f = 0 \<or> f = FlagSingleConnect)"
  using assms
  by (auto simp: negotiateFlags_def Let_def conn_ok_def sessionCount_def Negotiated_def
      OnServerFirst_def split: if_splits)

lemma replyBody_errors:
  "replyBody TypeAuthen [7, 0, 0, 0, 0, 0]" "replyBody TypeAuthor [17, 0, 0, 0, 0, 0]"
  "replyBody TypeAcct [0, 0, 0, 0, 2]"
  using authen_reply.enc_dec [OF authenStatus_Encode [of 7]]
    author_reply.enc_dec [OF authorStatus_Encode [of 17]]
    acct_reply.enc_dec [OF acctStatus_Encode [of 2]]
  by (auto simp: replyBody_def authenStatus_def authorStatus_def acctStatus_def)

lemma errorBody_wf:
  assumes "KnownType h" and "f = 0 \<or> f = FlagSingleConnect"
  shows "wfOut (h\<lparr>hdr_Flags := f, hdr_Length := of_nat (length (errorBody (hdr_Type h)))\<rparr>)
           (errorBody (hdr_Type h))"
  using assms replyBody_errors
  by (auto simp: errorBody_def orEmpty_def KnownType_def status_Encode wfOut_def)

lemma replyError_ok:
  assumes "conn_ok L cs"
  shows "conn_ok L (replyError hdr cs)"
proof -
  let ?h = "\<lambda>q. zero_Header\<lparr>hdr_Version := hdr_Version hdr, hdr_Type := hdr_Type hdr,
                 hdr_SeqNo := q, hdr_SessionID := hdr_SessionID hdr\<rparr>"
  have wf: "KnownType hdr \<Longrightarrow> f = 0 \<or> f = FlagSingleConnect \<Longrightarrow>
      wfOut ((?h q)\<lparr>hdr_Flags := f, hdr_Length := of_nat (length (errorBody (hdr_Type hdr)))\<rparr>)
        (errorBody (hdr_Type hdr))" for q f
    using errorBody_wf [of "?h q" f] by (simp add: KnownType_def)
  show ?thesis
    using assms wf negotiateFlags_ok [OF assms]
    by (auto simp: replyError_def Let_def split: option.splits prod.splits
        intro: conn_write_ok [OF _ _ prod.collapse [symmetric]])
qed

lemma conn_write_frame: "cs_sessions (fst (conn_write h b cs)) = cs_sessions cs" "cs_lim (fst (conn_write h b cs)) = cs_lim cs"
  by (simp_all add: conn_write_def)

lemma negotiateFlags_frame:
  "negotiateFlags cs = (cs', f) \<Longrightarrow> cs_sessions cs' = cs_sessions cs" "negotiateFlags cs = (cs', f) \<Longrightarrow> cs_lim cs' = cs_lim cs"
  by (auto simp: negotiateFlags_def Let_def)

lemma replyError_sessions [simp]:
  "cs_sessions (replyError hdr cs) = cs_sessions cs" "cs_lim (replyError hdr cs) = cs_lim cs"
  by (auto simp: replyError_def Let_def conn_write_frame negotiateFlags_frame simp del: fst_conv split: option.split prod.split)

lemma sessions_shrink_ok:
  assumes "conn_ok L cs" and "cs_sessions cs' = AList.delete k (cs_sessions cs)"
    and "cs_lim cs' = cs_lim cs" "cs_sc cs' = cs_sc cs" "cs_out cs' = cs_out cs"
  shows "conn_ok L cs'"
  using assms length_delete_le [of k "cs_sessions cs"]
  by (auto simp: conn_ok_def sessionCount_def tbl_ok_delete)

lemma endAAA_fields [simp]:
  "cs_sessions (endAAA H k cs) = cs_sessions cs" "cs_lim (endAAA H k cs) = cs_lim cs"
  "cs_sc (endAAA H k cs) = cs_sc cs" "cs_out (endAAA H k cs) = cs_out cs"
  "cs_drain (endAAA H k cs) = cs_drain cs"
  by (auto simp: endAAA_def split: option.splits)

lemma dropSession_ok: "conn_ok L cs \<Longrightarrow> conn_ok L (dropSession H own k cs)"
  by (erule sessions_shrink_ok [where k = k]) (simp_all add: dropSession_def)

lemma sessions_update_ok:
  assumes "conn_ok L cs" and "cs_sessions cs' = AList.update k s' (cs_sessions cs)"
    and "map_of (cs_sessions cs) k \<noteq> None" and "sessOk k s'"
    and "cs_lim cs' = cs_lim cs" "cs_sc cs' = cs_sc cs" "cs_out cs' = cs_out cs"
  shows "conn_ok L cs'"
  using assms by (auto simp: conn_ok_def sessionCount_def tbl_ok_update length_update)

lemma conn_ok_lookup: "conn_ok L cs \<Longrightarrow> map_of (cs_sessions cs) k = Some s \<Longrightarrow> sessOk k s"
  by (auto simp: conn_ok_def dest: tbl_ok_lookup)

lemma session_touch_ok:
  assumes "conn_ok L cs" and "map_of (cs_sessions cs) k = Some s"
    and "se_id s' = se_id s" "se_typ s' = se_typ s" "sq_sessionID (se_seq s') = sq_sessionID (se_seq s)"
    "sq_typ (se_seq s') = sq_typ (se_seq s)"
  shows "conn_ok L (cs\<lparr>cs_sessions := AList.update k s' (cs_sessions cs)\<rparr>)"
proof (rule sessions_update_ok [OF assms(1)])
  show "sessOk k s'" using conn_ok_lookup [OF assms(1,2)] assms(3-) by (simp add: sessOk_def)
qed (use assms(2) in simp_all)

lemma offer_ok: "conn_ok L cs \<Longrightarrow> offer k p cs = (cs', ok) \<Longrightarrow> conn_ok L cs'"
  by (auto simp: offer_def split: option.splits if_splits intro: session_touch_ok)

lemma startRun_ok: "conn_ok L cs \<Longrightarrow> conn_ok L (startRun k cs)"
  by (auto simp: startRun_def split: option.splits intro: session_touch_ok)

lemma fields_irrelevant_ok [simp]:
  "conn_ok L (cs\<lparr>cs_hs := x\<rparr>) = conn_ok L cs" "conn_ok L (cs\<lparr>cs_drain := d\<rparr>) = conn_ok L cs"
  "conn_ok L (cs\<lparr>cs_closed := d\<rparr>) = conn_ok L cs" "conn_ok L (cs\<lparr>cs_lastAct := n\<rparr>) = conn_ok L cs"
  "conn_ok L (cs\<lparr>cs_ending := l\<rparr>) = conn_ok L cs" "conn_ok L (cs\<lparr>cs_broken := d\<rparr>) = conn_ok L cs"
  "conn_ok L (cs\<lparr>cs_cancel := d\<rparr>) = conn_ok L cs"
  by (simp_all add: conn_ok_def sessionCount_def)

lemma dispatch_seq_fields:
  "dispatch H i key q hdr body s = (q', s', res) \<Longrightarrow>
     sq_sessionID q' = sq_sessionID q \<and> sq_typ q' = sq_typ q"
proof -
  have c: "CheckRequest q hdr = (q1, r) \<Longrightarrow> sq_sessionID q1 = sq_sessionID q \<and> sq_typ q1 = sq_typ q" for q1 r
    by (cases r) (auto simp: CheckRequest_Inr advanceRequest_eq dest!: CheckRequest_Inl split: if_splits)
  have n: "NextReply q1 f = (q2, r) \<Longrightarrow> sq_sessionID q2 = sq_sessionID q1 \<and> sq_typ q2 = sq_typ q1" for q1 q2 f r
    by (cases r) (auto simp: NextReply_Inr dest!: NextReply_Inl)
  show "dispatch H i key q hdr body s = (q', s', res) \<Longrightarrow> ?thesis"
    by (auto simp: dispatch_def Let_def split: prod.splits sum.splits if_splits dest!: c n)
qed

lemma conn_dispatch_ok:
  assumes "conn_ok L cs" and "map_of (cs_sessions cs) k = Some s0"
    and "se_id s = se_id s0" "se_typ s = se_typ s0" "se_seq s = se_seq s0"
    and "conn_dispatch H k s hdr body cs = (cs', q, res)"
  shows "conn_ok L cs'"
proof -
  obtain hs where d: "dispatch H (cs_id cs) (cs_connKey cs) (se_seq s) hdr body (cs_hs cs) = (q, hs, res)"
    and cs': "cs' = cs\<lparr>cs_sessions := AList.update k (s\<lparr>se_seq := q\<rparr>) (cs_sessions cs), cs_hs := hs\<rparr>"
    using assms(6) by (auto simp: conn_dispatch_def split: prod.splits)
  have "conn_ok L (cs\<lparr>cs_sessions := AList.update k (s\<lparr>se_seq := q\<rparr>) (cs_sessions cs)\<rparr>)"
    using dispatch_seq_fields [OF d] assms(3-5) by (intro session_touch_ok [OF assms(1,2)]) auto
  then show ?thesis by (simp add: cs')
qed

lemma conn_dispatch_reply:
  "conn_dispatch H k s hdr body cs = (cs', q, Inr out) \<Longrightarrow>
     wfOut (out_hdr out) (out_body out) \<and> KnownType (out_hdr out)"
proof -
  assume "conn_dispatch H k s hdr body cs = (cs', q, Inr out)"
  then obtain s' where "dispatch H (cs_id cs) (cs_connKey cs) (se_seq s) hdr body (cs_hs cs) = (q, s', Inr out)"
    by (auto simp: conn_dispatch_def split: prod.splits)
  from dispatch_Inr [OF this] obtain q1 rh where
    r: "CheckRequest (se_seq s) hdr = (q1, Inr ())" "NextReply q1 0 = (q, Inr rh)"
      "wellFormedReply (hdr_Type hdr) (rh\<lparr>hdr_Version := hdr_Version hdr, hdr_Flags := 0\<rparr>) out"
    by blast
  then obtain n where "out_hdr out = rh\<lparr>hdr_Version := hdr_Version hdr, hdr_Flags := 0, hdr_Length := n\<rparr>"
    by (auto simp: wellFormedReply_def)
  then show ?thesis
    using r(3) wellFormedReply_known [OF r(3)] NextReply_after_Check [OF r(1,2)]
    by (auto simp: wellFormedReply_def wfOut_def KnownType_def)
qed

lemma wfOut_flags: "wfOut h b \<Longrightarrow> KnownType h \<Longrightarrow> f = 0 \<or> f = FlagSingleConnect \<Longrightarrow> wfOut (h\<lparr>hdr_Flags := f\<rparr>) b"
  by (auto simp: wfOut_def KnownType_def)

lemma processFirst_ok:
  assumes "conn_ok L cs" and "map_of (cs_sessions cs) (se_id s) = Some s"
    and "processFirst H s hdr body cs = (cs', r)"
  shows "conn_ok L cs'"
proof -
  obtain cs1 q res where d: "conn_dispatch H (se_id s) s hdr body cs = (cs1, q, res)"
    by (metis prod_cases3)
  have ok1: "conn_ok L cs1" by (rule conn_dispatch_ok [OF assms(1,2) refl refl refl d])
  show ?thesis
  proof (cases res)
    case (Inl e)
    then show ?thesis
      using assms(3) d ok1
      by (auto simp: processFirst_def split: if_splits intro!: dropSession_ok replyError_ok)
  next
    case (Inr out)
    obtain cs2 f where n: "negotiateFlags cs1 = (cs2, f)" by fastforce
    obtain cs3 e where w: "conn_write ((out_hdr out)\<lparr>hdr_Flags := f\<rparr>) (out_body out) cs2 = (cs3, e)"
      by fastforce
    have "conn_ok L cs3"
      using w negotiateFlags_ok [OF ok1 n] conn_dispatch_reply [of H "se_id s" s hdr body cs cs1 q out] d Inr
      by (auto intro: conn_write_ok wfOut_flags)
    then show ?thesis
      using assms(3) d Inr n w
      by (auto simp: processFirst_def split: option.splits if_splits intro!: dropSession_ok startRun_ok)
  qed
qed

lemma runIter_ok:
  assumes "conn_ok L cs"
  shows "conn_ok L (runIter H k cs)"
proof (cases "map_of (cs_sessions cs) k")
  case (Some s)
  show ?thesis
  proof (cases "se_in s")
    case None
    then show ?thesis using assms Some by (simp add: runIter_def dropSession_ok)
  next
    case (Some p)
    obtain hdr body where p: "p = (hdr, body)" by fastforce
    obtain cs1 q res where d: "conn_dispatch H k (s\<lparr>se_in := None\<rparr>) hdr body cs = (cs1, q, res)"
      by (metis prod_cases3)
    have ok1: "conn_ok L cs1"
      by (rule conn_dispatch_ok [OF assms \<open>map_of _ k = Some s\<close> _ _ _ d]) simp_all
    show ?thesis
    proof (cases res)
      case (Inl e)
      then show ?thesis
        using assms d ok1 Some p \<open>map_of _ k = Some s\<close>
        by (auto simp: runIter_def Let_def intro!: dropSession_ok replyError_ok)
    next
      case (Inr out)
      obtain cs2 e where w: "conn_write (out_hdr out) (out_body out) cs1 = (cs2, e)" by fastforce
      then have "conn_ok L cs2"
        using ok1 conn_dispatch_reply [of H k "s\<lparr>se_in := None\<rparr>" hdr body cs cs1 q out] d Inr
        by (auto intro: conn_write_ok)
      then show ?thesis
        using assms d w Inr Some p \<open>map_of _ k = Some s\<close>
        by (auto simp: runIter_def dropSession_ok split: option.splits)
    qed
  qed
qed (simp add: runIter_def assms)

text \<open>A session is added only while the table has room, and on top of another one only after negotiation.\<close>

lemma new_session_ok:
  assumes "conn_ok L cs" and "map_of (cs_sessions cs) sid = None"
    and "sessionCount cs < lim_MaxSessionsPerConnection (cs_lim cs)"
    and "cs_sessions cs = [] \<or> Negotiated (cs_sc cs)"
  shows "conn_ok L (cs\<lparr>cs_sessions := AList.update sid (newSession sid ty) (cs_sessions cs)\<rparr>)"
  using assms
  by (auto simp: conn_ok_def sessionCount_def length_update newSession_def sessOk_def NewSequence_def
      intro!: tbl_ok_update)

definition firstClean :: "bool \<Rightarrow> 's connState \<Rightarrow> bool" where
  "firstClean first cs \<longleftrightarrow> (first \<longrightarrow> cs_sessions cs = [] \<and> cs_sc cs = zero_SingleConnect)"

lemma OnClientFirst_ok:
  "conn_ok L cs \<Longrightarrow> cs_sc cs = zero_SingleConnect \<Longrightarrow> conn_ok L (cs\<lparr>cs_sc := OnClientFirst (cs_sc cs) f\<rparr>)"
  by (auto simp: conn_ok_def sessionCount_def OnClientFirst_def zero_SingleConnect_def Negotiated_def)

lemma handleUnknown_ok:
  assumes "conn_ok L cs" and "\<not> KnownType hdr" and "UnknownTypeReply hdr = Inr reply"
  shows "conn_ok L (fst (conn_write reply [] cs))"
proof -
  have "wfOut reply []"
    using assms(2,3) by (auto simp: UnknownTypeReply_def result_simps wfOut_def KnownType_def)
  then show ?thesis by (rule conn_write_ok [OF assms(1) _ prod.collapse [symmetric]])
qed

lemma handleNew_ok:
  assumes ok: "conn_ok L cs" and none: "map_of (cs_sessions cs) sid = None"
    and room: "sessionCount cs < lim_MaxSessionsPerConnection (cs_lim cs)"
    and neg: "cs_sessions cs = [] \<or> Negotiated (cs_sc cs)"
    and cs1: "cs1 = cs\<lparr>cs_sessions := AList.update sid (newSession sid ty) (cs_sessions cs)\<rparr>"
  shows "processFirst H (newSession sid ty) hdr body cs1 = (cs', r) \<Longrightarrow> conn_ok L cs'"
    and "offer sid (hdr, body) (startRun sid cs1) = (cs2, b) \<Longrightarrow> conn_ok L cs2"
proof -
  have ok1: "conn_ok L cs1" unfolding cs1 by (rule new_session_ok [OF ok none room neg])
  show "processFirst H (newSession sid ty) hdr body cs1 = (cs', r) \<Longrightarrow> conn_ok L cs'"
    by (erule processFirst_ok [OF ok1, rotated]) (simp add: cs1 newSession_def update_conv')
  show "offer sid (hdr, body) (startRun sid cs1) = (cs2, b) \<Longrightarrow> conn_ok L cs2"
    by (rule offer_ok [OF startRun_ok [OF ok1]])
qed

lemma handleSession_ok:
  assumes ok: "conn_ok L cs" and first: "first \<longrightarrow> cs_sessions cs = []"
    and res: "handleSession H hdr body first cs = (cs', r)"
  shows "conn_ok L cs'"
proof (cases "map_of (cs_sessions cs) (hdr_SessionID hdr)")
  case (Some s)
  show ?thesis
  proof (cases "se_typ s = hdr_Type hdr")
    case True
    obtain cs1 b where o: "offer (hdr_SessionID hdr) (hdr, body) cs = (cs1, b)" by fastforce
    with True Some res offer_ok [OF ok o] show ?thesis
      by (auto simp: handleSession_def split: if_splits intro: replyError_ok)
  next
    case False
    with Some res ok show ?thesis
      by (auto simp: handleSession_def intro!: dropSession_ok replyError_ok)
  qed
next
  case None
  let ?sid = "hdr_SessionID hdr"
  let ?cs1 = "cs\<lparr>cs_sessions := AList.update ?sid (newSession ?sid (hdr_Type hdr)) (cs_sessions cs)\<rparr>"
  consider (refuse) "cs' = replyError hdr cs"
    | (add) "sessionCount cs < lim_MaxSessionsPerConnection (cs_lim cs)"
        "first \<or> AllowNewSession (cs_sc cs) = Inr ()"
        "if first then processFirst H (newSession ?sid (hdr_Type hdr)) hdr body ?cs1 = (cs', r)
         else (\<exists>cs2 b. offer ?sid (hdr, body) (startRun ?sid ?cs1) = (cs2, b) \<and>
                 cs' = (if b then cs2 else dropSession H False ?sid (replyError hdr cs2)))"
    using res None
    by (cases first) (auto simp: handleSession_def Let_def not_le split: if_splits prod.splits)
  then show ?thesis
  proof cases
    case refuse
    then show ?thesis by (simp add: replyError_ok ok)
  next
    case add
    have neg: "cs_sessions cs = [] \<or> Negotiated (cs_sc cs)"
      using add(2) first by (auto simp: AllowNewSession_def)
    note new = handleNew_ok [OF ok None add(1) neg refl]
    show ?thesis
      using add(3) new(1) new(2)
      by (cases first) (auto intro!: dropSession_ok replyError_ok split: if_splits)
  qed
qed

lemma handlePacket_ok:
  assumes ok: "conn_ok L cs" and first: "firstClean first cs"
    and res: "handlePacket H hdr body first cs = (cs', r)"
  shows "conn_ok L cs'"
proof -
  let ?cs = "if first then cs\<lparr>cs_sc := OnClientFirst (cs_sc cs) (hdr_Flags hdr)\<rparr> else cs"
  have ok0: "conn_ok L ?cs" using ok first OnClientFirst_ok [OF ok] by (auto simp: firstClean_def)
  have sc: "conn_ok L (?cs\<lparr>cs_sc := fst (OnServerFirst (cs_sc ?cs) f)\<rparr>)" for f
    using ok0 OnServerFirst_ok [of "cs_sc ?cs" f]
    by (auto simp: conn_ok_def sessionCount_def Negotiated_def)
  show ?thesis
  proof (cases "KnownType hdr")
    case False
    with res ok0 show ?thesis
      using handleUnknown_ok [OF ok0 False] handleUnknown_ok [OF sc False]
      by (auto simp: handlePacket_def Let_def split: sum.splits if_splits)
  next
    case True
    show ?thesis
    proof (cases "Header_Validate hdr")
      case (Inl e)
      with True res replyError_ok [OF ok0, of hdr] show ?thesis
        by (auto simp: handlePacket_def Let_def)
    next
      case (Inr u)
      with True res have "handleSession H hdr body first ?cs = (cs', r)"
        by (simp add: handlePacket_def Let_def)
      then show ?thesis
        using first by (intro handleSession_ok [OF ok0]) (auto simp: firstClean_def)
    qed
  qed
qed

lemma handleReadError_ok: "conn_ok L cs \<Longrightarrow> handleReadError hdr e cs = (cs', c, r) \<Longrightarrow> conn_ok L cs'"
  by (auto simp: handleReadError_def replyError_ok split: if_splits)

lemma readIter_ok:
  assumes "conn_ok L cs" and "firstClean first cs" and "readIter H now rd first cs = (cs', first', r)"
  shows "conn_ok L cs' \<and> (r = None \<longrightarrow> \<not> first')"
proof (cases rd)
  case (Inl p)
  with assms show ?thesis
    by (cases p) (auto simp: readIter_def split: if_splits prod.splits dest: handleReadError_ok)
next
  case (Inr p)
  obtain hdr body where p: "p = (hdr, body)" by fastforce
  obtain cs1 e where h: "handlePacket H hdr body first (cs\<lparr>cs_lastAct := now\<rparr>) = (cs1, e)" by fastforce
  have "conn_ok L cs1"
    by (rule handlePacket_ok [OF _ _ h]) (use assms(1,2) in \<open>simp_all add: firstClean_def\<close>)
  with assms Inr p h show ?thesis
    by (auto simp: readIter_def split: if_splits option.splits)
qed

lemma lateEnd_fields: "cs_sessions (lateEnd H cs) = cs_sessions cs \<and> cs_sc (lateEnd H cs) = cs_sc cs \<and> conn_ok L (lateEnd H cs) = conn_ok L cs"
  by (auto simp: lateEnd_def endAAA_def split: list.splits option.splits)

lemma newConn_ok: "conn_ok (normalized lim) (newConn ident lim key now hs) \<and> firstClean True (newConn ident lim key now hs)"
  by (simp add: conn_ok_def newConn_def sessionCount_def zero_SingleConnect_def normalized_def firstClean_def)

lemma runIter_empty: "cs_sessions cs = [] \<Longrightarrow> runIter H k cs = cs"
  by (simp add: runIter_def)

lemma conn_step_ok:
  assumes "conn_step H st st'" and "conn_ok L (fst st)"
    and "snd (snd st) \<longrightarrow> firstClean (fst (snd st)) (fst st)"
  shows "conn_ok L (fst st') \<and> (snd (snd st') \<longrightarrow> firstClean (fst (snd st')) (fst st'))"
  using assms
proof (cases rule: conn_step.cases)
  case (step_read now rd first cs cs' first')
  with assms(2,3) readIter_ok [OF _ _ step_read(3), of L]
  show ?thesis by (auto simp: firstClean_def)
next
  case (step_return now rd first cs cs' first' e)
  with assms(2,3) readIter_ok [OF _ _ step_return(3), of L]
  show ?thesis by (auto simp: shutdownSessions_def)
next
  case (step_run cs first op sid)
  then show ?thesis using assms(2,3) by (auto simp: runIter_ok firstClean_def runIter_empty)
next
  case (step_late cs first op)
  then show ?thesis using lateEnd_fields assms(2,3) by (auto simp: firstClean_def)
qed (use assms(2,3) in \<open>auto simp: firstClean_def\<close>)

lemma conn_reach_ok:
  "conn_reach H (newConn ident lim key now hs) st \<Longrightarrow>
     conn_ok (normalized lim) (fst st) \<and> (snd (snd st) \<longrightarrow> firstClean (fst (snd st)) (fst st))"
proof (induction rule: conn_reach.induct)
  case reach_init
  then show ?case using newConn_ok by simp
next
  case (reach_step st st')
  then show ?case using conn_step_ok by blast
qed

subsection \<open>Connection slots\<close>

text \<open>Acquisitions and releases of a listener, with the number of slots held by callers.\<close>

inductive engine_reach :: "Limits \<Rightarrow> Engine \<Rightarrow> nat \<Rightarrow> bool" for lim :: Limits where
  engine_start: "engine_reach lim (Engine_init lim) 0"
| engine_acquire: "engine_reach lim e held \<Longrightarrow> TryAcquire e = (e', True) \<Longrightarrow> engine_reach lim e' (held + 1)"
| engine_refuse: "engine_reach lim e held \<Longrightarrow> TryAcquire e = (e', False) \<Longrightarrow> engine_reach lim e' held"
| engine_release: "engine_reach lim e (held + 1) \<Longrightarrow> engine_reach lim (Release e) held"

lemma engine_reach_inv:
  "engine_reach lim e held \<Longrightarrow>
     eng_Limits e = normalized lim \<and> eng_active e = int held \<and>
     eng_sem e = (if lim_MaxConnections (normalized lim) > 0 then Some held else None) \<and>
     (lim_MaxConnections (normalized lim) > 0 \<longrightarrow> int held \<le> lim_MaxConnections (normalized lim))"
  by (induction rule: engine_reach.induct)
    (auto simp: Engine_init_def Let_def TryAcquire_def Release_def split: option.splits if_splits)

subsection \<open>Properties\<close>

text \<open>
  Property C13. In every reachable state of a connection, whatever the client sends, however
  the reader and the session goroutines interleave and whatever the AAA handler does: session
  ids are unique, the number of open sessions is within the configured (or default) limit, at
  most one session is open unless single-connect was negotiated, every session's sequence
  machine belongs to its id and type, and every packet written declares the length of its
  body, stays within the body cap and is either a well-formed reply of a known type that is
  not a FOLLOW and carries no flag other than single-connect, or a bare header that answers
  an unknown type.
\<close>

theorem connection_invariant:
  assumes "conn_reach H (newConn ident lim key now hs) (cs, first, running)"
  shows "distinct (map fst (cs_sessions cs)) \<and>
     sessionCount cs \<le> (if lim_MaxSessionsPerConnection lim \<le> 0 then 1024 else lim_MaxSessionsPerConnection lim) \<and>
     (\<not> Negotiated (cs_sc cs) \<longrightarrow> length (cs_sessions cs) \<le> 1) \<and>
     (\<forall>(k, s) \<in> set (cs_sessions cs).
        se_id s = k \<and> sq_sessionID (se_seq s) = k \<and> sq_typ (se_seq s) = se_typ s) \<and>
     (\<forall>(h, b) \<in> set (cs_out cs).
        unat (hdr_Length h) = length b \<and> length b \<le> MaxBodyBytes \<and>
        (if KnownType h then replyBody (hdr_Type h) b \<and> (hdr_Flags h = 0 \<or> hdr_Flags h = FlagSingleConnect)
         else b = []))"
proof -
  have ok: "conn_ok (normalized lim) cs" using conn_reach_ok [OF assms] by simp
  then have "tbl_ok sessOk (cs_sessions cs)" by (simp add: conn_ok_def)
  moreover have "\<forall>(h, b) \<in> set (cs_out cs). wfOut h b" using ok by (simp add: conn_ok_def)
  moreover have "sessionCount cs \<le> lim_MaxSessionsPerConnection (normalized lim)"
    using ok by (auto simp: conn_ok_def)
  moreover have "\<not> Negotiated (cs_sc cs) \<longrightarrow> length (cs_sessions cs) \<le> 1" using ok by (simp add: conn_ok_def)
  ultimately show ?thesis
    unfolding tbl_ok_def sessOk_def wfOut_def normalized_def by auto
qed

definition wit_limits :: Limits where
  "wit_limits = \<lparr>lim_MaxConnections = 1, lim_MaxSessionsPerConnection = 0, lim_MaxPacketBodyBytes = 0,
     lim_ReadTimeout = 0, lim_WriteTimeout = 0, lim_IdleTimeout = 0, lim_HandshakeTimeout = 0,
     lim_SingleConnectEnabled = True, lim_MaxLifetime = 0, lim_ShutdownGrace = 0\<rparr>"

definition wit_unknown :: Header where
  "wit_unknown = \<lparr>hdr_Version = 0xc0, hdr_Type = 9, hdr_SeqNo = 1, hdr_Flags = 0, hdr_SessionID = 5,
                  hdr_Length = 0\<rparr>"

theorem connection_invariant_witness:
  "\<exists>cs first running.
     conn_reach (Stub :: unit Handler) (newConn wit_identity wit_limits 1 0 ()) (cs, first, running) \<and>
     length (cs_out cs) = 1 \<and> sessionCount cs \<le> 1024"
proof -
  let ?c0 = "newConn wit_identity wit_limits 1 0 ()"
  let ?r = "readIter (Stub :: unit Handler) 1 (Inr (wit_unknown, [])) True ?c0"
  have r: "?r = (fst ?r, False, Some None)" and len: "length (cs_out (fst ?r)) = 1"
    by (simp_all add: readIter_def newConn_def wit_limits_def normalized_def wit_unknown_def
        handlePacket_def KnownType_def UnknownTypeReply_def NextSeq_def conn_write_def shouldClose_def
        zero_SingleConnect_def OnClientFirst_def OnServerFirst_def SingleConnect_Pending_def
        SingleConnect_Complete_def Negotiated_def sessionCount_def)
  have reach: "conn_reach (Stub :: unit Handler) ?c0 (shutdownSessions (fst ?r), False, False)"
    by (rule reach_step [OF reach_init step_return [OF r]])
  have "sessionCount (shutdownSessions (fst ?r)) \<le> 1024"
    using connection_invariant [OF reach] by (simp add: wit_limits_def)
  with reach len show ?thesis by (intro exI conjI) (simp_all add: shutdownSessions_def)
qed

text \<open>
  A listener with a connection limit never has more connections than the limit,
  in every interleaving of acquisitions and releases in which only held slots are released;
  the occupancy it reports is the number of slots held, and an acquisition is refused exactly
  when the limit is reached.
\<close>

theorem connection_slots_bounded:
  assumes "engine_reach lim e held"
  shows "eng_active e = int held \<and>
     (lim_MaxConnections lim > 0 \<longrightarrow> int held \<le> lim_MaxConnections lim) \<and>
     (snd (TryAcquire e) \<longleftrightarrow> \<not> (lim_MaxConnections lim > 0 \<and> int held = lim_MaxConnections lim))"
  using engine_reach_inv [OF assms] by (auto simp: TryAcquire_def normalized_def split: if_splits)

theorem connection_slots_bounded_witness:
  "\<exists>e. engine_reach wit_limits e 1 \<and> \<not> snd (TryAcquire e)"
proof -
  let ?e = "fst (TryAcquire (Engine_init wit_limits))"
  have "engine_reach wit_limits ?e (0 + 1)"
    by (rule engine_acquire [OF engine_start]) (simp add: TryAcquire_def Engine_init_def wit_limits_def normalized_def Let_def)
  with connection_slots_bounded [OF this] show ?thesis by (auto simp: wit_limits_def)
qed

end
