(* ===== verification/Go_Crypto.thy ===== *)
theory Go_Crypto
  imports Taclab_Prelude
begin

text \<open>
  The hash functions of Go's standard library that the program calls: \<open>crypto/md5\<close>
  (RFC 1321), \<open>crypto/hmac\<close> over MD5 (RFC 2104) and \<open>crypto/sha256\<close> (FIPS 180-4).
  They are executable; the test vectors of the standards are evaluated in the kernel.
  The protocol proofs use only that a digest has a fixed length: no property of a digest
  is assumed anywhere.
\<close>

subsection \<open>MD5\<close>

definition md5_K :: "uint32 list" where
  "md5_K = [
    0xd76aa478, 0xe8c7b756, 0x242070db, 0xc1bdceee, 0xf57c0faf, 0x4787c62a, 0xa8304613, 0xfd469501,
    0x698098d8, 0x8b44f7af, 0xffff5bb1, 0x895cd7be, 0x6b901122, 0xfd987193, 0xa679438e, 0x49b40821,
    0xf61e2562, 0xc040b340, 0x265e5a51, 0xe9b6c7aa, 0xd62f105d, 0x02441453, 0xd8a1e681, 0xe7d3fbc8,
    0x21e1cde6, 0xc33707d6, 0xf4d50d87, 0x455a14ed, 0xa9e3e905, 0xfcefa3f8, 0x676f02d9, 0x8d2a4c8a,
    0xfffa3942, 0x8771f681, 0x6d9d6122, 0xfde5380c, 0xa4beea44, 0x4bdecfa9, 0xf6bb4b60, 0xbebfbc70,
    0x289b7ec6, 0xeaa127fa, 0xd4ef3085, 0x04881d05, 0xd9d4d039, 0xe6db99e5, 0x1fa27cf8, 0xc4ac5665,
    0xf4292244, 0x432aff97, 0xab9423a7, 0xfc93a039, 0x655b59c3, 0x8f0ccc92, 0xffeff47d, 0x85845dd1,
    0x6fa87e4f, 0xfe2ce6e0, 0xa3014314, 0x4e0811a1, 0xf7537e82, 0xbd3af235, 0x2ad7d2bb, 0xeb86d391]"

definition md5_S :: "nat list" where
  "md5_S = concat (replicate 4 [7, 12, 17, 22]) @ concat (replicate 4 [5, 9, 14, 20]) @
     concat (replicate 4 [4, 11, 16, 23]) @ concat (replicate 4 [6, 10, 15, 21])"

definition md5_F :: "nat \<Rightarrow> uint32 \<Rightarrow> uint32 \<Rightarrow> uint32 \<Rightarrow> uint32" where
  "md5_F i b c d =
     (if i < 16 then (b AND c) OR (NOT b AND d)
      else if i < 32 then (d AND b) OR (NOT d AND c)
      else if i < 48 then b XOR c XOR d
      else c XOR (b OR NOT d))"

definition md5_G :: "nat \<Rightarrow> nat" where
  "md5_G i =
     (if i < 16 then i
      else if i < 32 then (5 * i + 1) mod 16
      else if i < 48 then (3 * i + 5) mod 16
      else (7 * i) mod 16)"

type_synonym md5_state = "uint32 \<times> uint32 \<times> uint32 \<times> uint32"

definition md5_round :: "uint32 list \<Rightarrow> nat \<Rightarrow> md5_state \<Rightarrow> md5_state" where
  "md5_round m i s =
     (case s of (a, b, c, d) \<Rightarrow>
       (d, b + word_rotl (md5_S ! i) (a + md5_F i b c d + md5_K ! i + m ! md5_G i), b, c))"

definition le32 :: "bytes \<Rightarrow> uint32" where
  "le32 bs = foldr (\<lambda>b w. ucast b OR push_bit 8 w) (take 4 bs) 0"

definition le32_bytes :: "uint32 \<Rightarrow> bytes" where
  "le32_bytes w = [ucast w, ucast (drop_bit 8 w), ucast (drop_bit 16 w), ucast (drop_bit 24 w)]"

definition md5_block :: "md5_state \<Rightarrow> bytes \<Rightarrow> md5_state" where
  "md5_block s blk =
     (let m = map (\<lambda>i. le32 (drop (4 * i) blk)) [0..<16]
      in case s of (a0, b0, c0, d0) \<Rightarrow>
           case fold (md5_round m) [0..<64] s of (a, b, c, d) \<Rightarrow>
             (a0 + a, b0 + b, c0 + c, d0 + d))"

definition md5_pad :: "bytes \<Rightarrow> bytes" where
  "md5_pad p = p @ [0x80] @ replicate ((119 - length p mod 64) mod 64) 0 @
     map (\<lambda>i. ucast (drop_bit (8 * i) (of_nat (8 * length p) :: uint64))) [0..<8]"

text \<open>The padded input is a whole number of 64-byte blocks, processed in order.\<close>

fun hash_blocks :: "('s \<Rightarrow> bytes \<Rightarrow> 's) \<Rightarrow> nat \<Rightarrow> 's \<Rightarrow> bytes \<Rightarrow> 's" where
  "hash_blocks f 0 s p = s"
| "hash_blocks f (Suc n) s p = hash_blocks f n (f s (take 64 p)) (drop 64 p)"

definition md5 :: "bytes \<Rightarrow> bytes" where
  "md5 p =
     (let q = md5_pad p
      in case hash_blocks md5_block (length q div 64)
                (0x67452301, 0xefcdab89, 0x98badcfe, 0x10325476) q of
           (a, b, c, d) \<Rightarrow> le32_bytes a @ le32_bytes b @ le32_bytes c @ le32_bytes d)"

lemma length_md5 [simp]: "length (md5 p) = 16"
  by (simp add: md5_def Let_def le32_bytes_def split: prod.splits)

lemma md5_neq_Nil [simp]: "md5 p \<noteq> []"
  by (metis length_md5 list.size(3) zero_neq_numeral)

text \<open>RFC 1321, appendix A.5.\<close>

lemma md5_vector_empty:
  "md5 [] = [0xd4, 0x1d, 0x8c, 0xd9, 0x8f, 0x00, 0xb2, 0x04, 0xe9, 0x80, 0x09, 0x98, 0xec, 0xf8, 0x42, 0x7e]"
  by code_simp

subsection \<open>XOR of two byte slices\<close>

definition xorBytes :: "bytes \<Rightarrow> bytes \<Rightarrow> bytes" where
  "xorBytes a b = map2 (\<lambda>x y. x XOR y) a b"

lemma length_xorBytes [simp]: "length (xorBytes a b) = min (length a) (length b)"
  by (simp add: xorBytes_def)

lemma xorBytes_cancel: "length b \<le> length k \<Longrightarrow> xorBytes (xorBytes b k) k = b"
  by (rule nth_equalityI) (simp_all add: xorBytes_def xor.assoc)

lemma xorBytes_take: "length b \<le> n \<Longrightarrow> xorBytes b (take n k) = xorBytes b k"
  by (rule nth_equalityI) (simp_all add: xorBytes_def)

lemma take_xorBytes: "take n (xorBytes a b) = xorBytes (take n a) (take n b)"
  by (simp add: xorBytes_def take_map take_zip)

subsection \<open>HMAC-MD5\<close>

definition hmac_key :: "bytes \<Rightarrow> bytes" where
  "hmac_key secret =
     (let k = (if 64 < length secret then md5 secret else secret)
      in k @ replicate (64 - length k) 0)"

definition hmac_md5 :: "bytes \<Rightarrow> bytes \<Rightarrow> bytes" where
  "hmac_md5 secret data =
     (let k = hmac_key secret
      in md5 (map (\<lambda>b. b XOR 0x5c) k @ md5 (map (\<lambda>b. b XOR 0x36) k @ data)))"

lemma length_hmac_md5 [simp]: "length (hmac_md5 secret data) = 16"
  by (simp add: hmac_md5_def Let_def)

subsection \<open>SHA-256\<close>

definition sha256_K :: "uint32 list" where
  "sha256_K = [
    1116352408, 1899447441, 3049323471, 3921009573, 961987163, 1508970993,
    2453635748, 2870763221, 3624381080, 310598401, 607225278, 1426881987,
    1925078388, 2162078206, 2614888103, 3248222580, 3835390401, 4022224774,
    264347078, 604807628, 770255983, 1249150122, 1555081692, 1996064986,
    2554220882, 2821834349, 2952996808, 3210313671, 3336571891, 3584528711,
    113926993, 338241895, 666307205, 773529912, 1294757372, 1396182291,
    1695183700, 1986661051, 2177026350, 2456956037, 2730485921, 2820302411,
    3259730800, 3345764771, 3516065817, 3600352804, 4094571909, 275423344,
    430227734, 506948616, 659060556, 883997877, 958139571, 1322822218,
    1537002063, 1747873779, 1955562222, 2024104815, 2227730452, 2361852424,
    2428436474, 2756734187, 3204031479, 3329325298]"

type_synonym sha256_state = "uint32 list"

definition be32 :: "bytes \<Rightarrow> uint32" where
  "be32 bs = foldl (\<lambda>w b. push_bit 8 w OR ucast b) 0 (take 4 bs)"

text \<open>The message schedule, newest word first.\<close>

fun sha256_schedule :: "nat \<Rightarrow> uint32 list \<Rightarrow> uint32 list" where
  "sha256_schedule 0 w = w"
| "sha256_schedule (Suc n) w =
     (let x = w ! 14; y = w ! 1;
          s0 = word_rotr 7 x XOR word_rotr 18 x XOR drop_bit 3 x;
          s1 = word_rotr 17 y XOR word_rotr 19 y XOR drop_bit 10 y
      in sha256_schedule n ((w ! 15 + s0 + w ! 6 + s1) # w))"

definition sha256_round :: "uint32 \<times> uint32 \<Rightarrow> sha256_state \<Rightarrow> sha256_state" where
  "sha256_round kw st =
     (case (kw, st) of ((k, w), [a, b, c, d, e, f, g, h]) \<Rightarrow>
        let s1 = word_rotr 6 e XOR word_rotr 11 e XOR word_rotr 25 e;
            ch = (e AND f) XOR (NOT e AND g);
            t1 = h + s1 + ch + k + w;
            s0 = word_rotr 2 a XOR word_rotr 13 a XOR word_rotr 22 a;
            mj = (a AND b) XOR (a AND c) XOR (b AND c);
            t2 = s0 + mj
        in [t1 + t2, a, b, c, d + t1, e, f, g]
      | _ \<Rightarrow> st)"

definition sha256_block :: "sha256_state \<Rightarrow> bytes \<Rightarrow> sha256_state" where
  "sha256_block st blk =
     (let w0 = rev (map (\<lambda>i. be32 (drop (4 * i) blk)) [0..<16]);
          w = rev (sha256_schedule 48 w0)
      in map2 (+) st (fold sha256_round (zip sha256_K w) st))"

definition sha256_pad :: "bytes \<Rightarrow> bytes" where
  "sha256_pad p = p @ [0x80] @ replicate ((119 - length p mod 64) mod 64) 0 @
     rev (map (\<lambda>i. ucast (drop_bit (8 * i) (of_nat (8 * length p) :: uint64))) [0..<8])"

definition sha256 :: "bytes \<Rightarrow> bytes" where
  "sha256 p =
     (let q = sha256_pad p
      in concat (map PutUint32_BE (hash_blocks sha256_block (length q div 64)
           [1779033703, 3144134277, 1013904242, 2773480762,
            1359893119, 2600822924, 528734635, 1541459225] q)))"

lemma length_sha256_round [simp]: "length (sha256_round kw st) = length st"
  by (auto simp: sha256_round_def Let_def split: prod.splits list.splits)

lemma length_sha256_rounds [simp]: "length (fold sha256_round xs st) = length st"
  by (induction xs arbitrary: st) auto

lemma length_sha256_block [simp]: "length (sha256_block st blk) = length st"
  by (simp add: sha256_block_def Let_def)

lemma length_hash_blocks:
  "(\<And>s b. length (f s b) = length s) \<Longrightarrow> length (hash_blocks f n s p) = length s"
  by (induction n arbitrary: s p) auto

lemma length_sha256 [simp]: "length (sha256 p) = 32"
proof -
  have "length (concat (map PutUint32_BE ws)) = 4 * length ws" for ws
    by (induction ws) auto
  then show ?thesis by (simp add: sha256_def Let_def length_hash_blocks)
qed

text \<open>FIPS 180-4: the digest of the empty message.\<close>

lemma sha256_vector_empty:
  "sha256 [] = [227, 176, 196, 66, 152, 252, 28, 20, 154, 251, 244, 200, 153, 111, 185, 36,
     39, 174, 65, 228, 100, 155, 147, 76, 164, 149, 153, 27, 120, 82, 184, 85]"
  by code_simp

end
