(* ===== verification/Tacacs_Obfuscate.thy ===== *)
theory Tacacs_Obfuscate
  imports Tacacs_Header Go_Crypto
begin

text \<open>
  Body obfuscation (\<open>internal/tacacs/codec/obfuscate.go\<close>): the body XORed with a pad made
  of a chain of MD5 blocks. The locale \<open>keystream\<close> is what the XOR relies on: pads of every
  length, each a prefix of the longer ones.
\<close>

text \<open>The loop of \<open>obfuscationPad\<close>: MD5 blocks are appended until the pad is long enough.\<close>

function padLoop :: "bytes \<Rightarrow> bytes \<Rightarrow> bytes \<Rightarrow> nat \<Rightarrow> bytes" where
  "padLoop prefix prev pad n =
     (if length pad < n
      then (let block = md5 (prefix @ prev) in padLoop prefix block (pad @ block) n)
      else pad)"
  by pat_completeness auto
termination
  by (relation "measure (\<lambda>(prefix, prev, pad, n). n - length pad)") (auto simp: length_md5)

declare padLoop.simps [simp del]

definition obfuscationPad :: "uint32 \<Rightarrow> byte \<Rightarrow> byte \<Rightarrow> bytes \<Rightarrow> nat \<Rightarrow> bytes" where
  "obfuscationPad sessionID version seqNo key n =
     (let prefix = PutUint32_BE sessionID @ key @ [version, seqNo]
      in take n (padLoop prefix [] [] n))"

definition Obfuscate :: "uint32 \<Rightarrow> byte \<Rightarrow> byte \<Rightarrow> bytes \<Rightarrow> bytes \<Rightarrow> bytes" where
  "Obfuscate sessionID version seqNo key body =
     (if length body = 0 then []
      else (let pad = obfuscationPad sessionID version seqNo key (length body)
            in map2 (\<lambda>b p. b XOR p) body pad))"

subsection \<open>Key streams\<close>

locale keystream =
  fixes pad :: "nat \<Rightarrow> bytes"
  assumes length_pad: "length (pad n) = n"
    and pad_prefix: "m \<le> n \<Longrightarrow> take m (pad n) = pad m"
begin

definition mask :: "bytes \<Rightarrow> bytes" where
  "mask b = xorBytes b (pad (length b))"

lemma length_mask: "length (mask b) = length b"
  by (simp add: mask_def length_pad)

lemma mask_mask: "mask (mask b) = b"
  by (simp add: mask_def length_pad xorBytes_cancel)

lemma mask_inject: "mask a = mask b \<longleftrightarrow> a = b"
  by (metis mask_mask)

lemma mask_prefix: "take n (mask b) = mask (take n b)"
proof (cases "n \<le> length b")
  case True
  then show ?thesis by (simp add: mask_def take_xorBytes pad_prefix min_absorb2)
next
  case False
  then show ?thesis by (simp add: length_mask)
qed

end

subsection \<open>The MD5 chain\<close>

primrec padBlock :: "bytes \<Rightarrow> nat \<Rightarrow> bytes" where
  "padBlock prefix 0 = md5 prefix"
| "padBlock prefix (Suc i) = md5 (prefix @ padBlock prefix i)"

definition padBlocks :: "bytes \<Rightarrow> nat \<Rightarrow> bytes" where
  "padBlocks prefix k = concat (map (padBlock prefix) [0..<k])"

lemma length_padBlock: "length (padBlock prefix i) = 16"
  by (cases i) (simp_all add: length_md5)

lemma length_padBlocks: "length (padBlocks prefix k) = 16 * k"
  by (induction k) (simp_all add: padBlocks_def length_padBlock)

lemma padBlocks_Suc: "padBlocks prefix (Suc k) = padBlocks prefix k @ padBlock prefix k"
  by (simp add: padBlocks_def)

lemma take_padBlocks: "j \<le> k \<Longrightarrow> n \<le> 16 * j \<Longrightarrow> take n (padBlocks prefix k) = take n (padBlocks prefix j)"
  by (induction k) (auto simp: padBlocks_Suc length_padBlocks le_Suc_eq)

lemma padLoop_chain:
  "prev = (case k of 0 \<Rightarrow> [] | Suc i \<Rightarrow> padBlock prefix i) \<Longrightarrow>
     \<exists>j. padLoop prefix prev (padBlocks prefix k) n = padBlocks prefix j \<and> n \<le> 16 * j"
proof (induction "n - 16 * k" arbitrary: k prev rule: less_induct)
  case less
  have block: "md5 (prefix @ prev) = padBlock prefix k"
    using less.prems by (cases k) simp_all
  show ?case
  proof (cases "16 * k < n")
    case True
    then have "n - 16 * Suc k < n - 16 * k" by simp
    from less.hyps [OF this, of "padBlock prefix k"]
    obtain j where "padLoop prefix (padBlock prefix k) (padBlocks prefix (Suc k)) n = padBlocks prefix j"
      "n \<le> 16 * j" by auto
    then show ?thesis
      using True block
      by (subst padLoop.simps) (auto simp: length_padBlocks padBlocks_Suc Let_def)
  next
    case False
    then show ?thesis
      by (subst padLoop.simps) (auto simp: length_padBlocks intro!: exI [of _ k])
  qed
qed

lemma obfuscationPad_blocks:
  "n \<le> 16 * k \<Longrightarrow>
     obfuscationPad sid v q key n = take n (padBlocks (PutUint32_BE sid @ key @ [v, q]) k)"
proof -
  let ?p = "PutUint32_BE sid @ key @ [v, q]"
  assume k: "n \<le> 16 * k"
  obtain j where "padLoop ?p [] [] n = padBlocks ?p j" "n \<le> 16 * j"
    using padLoop_chain [where prev = "[]" and k = 0 and prefix = ?p and n = n] by (auto simp: padBlocks_def)
  then show ?thesis
    using k take_padBlocks [of j k n ?p] take_padBlocks [of k j n ?p]
    by (cases "j \<le> k") (simp_all add: obfuscationPad_def)
qed

interpretation tacacs_pad: keystream "obfuscationPad sid v q key" for sid v q key
proof
  show "length (obfuscationPad sid v q key n) = n" for n
    using obfuscationPad_blocks [of n n] by (simp add: length_padBlocks)
  show "m \<le> n \<Longrightarrow> take m (obfuscationPad sid v q key n) = obfuscationPad sid v q key m" for m n
    using obfuscationPad_blocks [of n n] obfuscationPad_blocks [of m n] by (simp add: min_absorb1)
qed

lemma Obfuscate_mask: "Obfuscate sid v q key body = tacacs_pad.mask sid v q key body"
  by (simp add: Obfuscate_def tacacs_pad.mask_def xorBytes_def)

subsection \<open>Properties\<close>

text \<open>
  Obfuscation is an involution that keeps the length, and it is prefix-wise:
  obfuscating a prefix gives the prefix of the obfuscated body, so a body of any length is
  recovered by applying the same transform with the same session, version, sequence number
  and key.
\<close>

theorem Obfuscate_involution:
  "Obfuscate sid v q key (Obfuscate sid v q key body) = body \<and>
   length (Obfuscate sid v q key body) = length body \<and>
   take n (Obfuscate sid v q key body) = Obfuscate sid v q key (take n body)"
  by (simp add: Obfuscate_mask tacacs_pad.mask_mask tacacs_pad.length_mask tacacs_pad.mask_prefix)

text \<open>
  The pad is the chain of RFC 8907 section 4.5: octet i of the obfuscated body is
  octet i of the body XORed with octet (i mod 16) of block (i div 16), where block 0 is the
  MD5 of session id, key, version and sequence number and every later block is the MD5 of
  the same prefix followed by the block before it.
\<close>

theorem Obfuscate_chain:
  assumes "i < length body"
  shows "Obfuscate sid v q key body ! i =
     body ! i XOR padBlock (PutUint32_BE sid @ key @ [v, q]) (i div 16) ! (i mod 16)"
proof -
  let ?p = "PutUint32_BE sid @ key @ [v, q]"
  have nth: "i < 16 * k \<Longrightarrow> padBlocks ?p k ! i = padBlock ?p (i div 16) ! (i mod 16)" for k
  proof (induction k)
    case (Suc k)
    then show ?case
    proof (cases "i < 16 * k")
      case False
      with Suc.prems have k: "i div 16 = k" by auto
      then have "i - 16 * k = i mod 16" by (simp flip: minus_mult_div_eq_mod)
      with k False show ?thesis by (simp add: padBlocks_Suc nth_append length_padBlocks)
    qed (simp add: padBlocks_Suc nth_append length_padBlocks)
  qed simp
  have "obfuscationPad sid v q key (length body) = take (length body) (padBlocks ?p (length body))"
    by (rule obfuscationPad_blocks) simp
  with assms nth [of "length body"] show ?thesis
    by (simp add: Obfuscate_mask tacacs_pad.mask_def xorBytes_def tacacs_pad.length_pad length_padBlocks)
qed

theorem Obfuscate_chain_witness:
  "Obfuscate 1 0xc0 1 [0x6b] [0x41] ! 0 = 0x41 XOR padBlock (PutUint32_BE 1 @ [0x6b] @ [0xc0, 1]) (0 div 16) ! (0 mod 16)"
  using Obfuscate_chain [where i = 0 and body = "[0x41]" and sid = 1 and v = "0xc0" and q = 1 and key = "[0x6b]"] by simp

end
