(* ===== verification/Domain_AVPair.thy ===== *)
theory Domain_AVPair
  imports Taclab_Prelude "HOL-Library.Char_ord" "HOL-Library.List_Lexorder" "HOL-Library.Product_Lexorder"
begin

text \<open>
  Attribute-value pairs of the domain (\<open>internal/domain/avpair.go\<close>), the domain's error
  value (\<open>error.go\<close>) and the decision and status enumerations (\<open>enums.go\<close>).
\<close>

record Error =
  err_Code :: string
  err_Message :: string
  err_Path :: string

abbreviation (input) CodeInvalidArgument :: string where "CodeInvalidArgument \<equiv> ''invalid_argument''"
abbreviation (input) CodeRegexInvalid :: string where "CodeRegexInvalid \<equiv> ''REGEX_INVALID''"

definition NewError :: "string \<Rightarrow> string \<Rightarrow> Error" where
  "NewError code message = \<lparr>err_Code = code, err_Message = message, err_Path = ''''\<rparr>"

definition WithPath :: "Error \<Rightarrow> string \<Rightarrow> Error" where
  "WithPath e path = e\<lparr>err_Path := path\<rparr>"

definition Error_Error :: "Error \<Rightarrow> string" where
  "Error_Error e =
     (if err_Path e \<noteq> '''' \<and> err_Message e \<noteq> '''' then err_Code e @ '' at '' @ err_Path e @ '': '' @ err_Message e
      else if err_Path e \<noteq> '''' then err_Code e @ '' at '' @ err_Path e
      else if err_Message e \<noteq> '''' then err_Code e @ '': '' @ err_Message e
      else err_Code e)"

abbreviation (input) AVSepMandatory :: byte where "AVSepMandatory \<equiv> 0x3d"
abbreviation (input) AVSepOptional :: byte where "AVSepOptional \<equiv> 0x2a"

record AVPair =
  av_Name :: string
  av_Separator :: byte
  av_Value :: string

type_synonym AVPairs = "AVPair list"

definition EncodedLen :: "AVPair \<Rightarrow> nat" where
  "EncodedLen p = length (av_Name p) + 1 + length (av_Value p)"

definition Mandatory :: "AVPair \<Rightarrow> bool" where
  "Mandatory p \<longleftrightarrow> av_Separator p = AVSepMandatory"

definition containsSeparator :: "string \<Rightarrow> bool" where
  "containsSeparator s = list_ex (\<lambda>c. c = CHR ''='' \<or> c = CHR ''*'') s"

definition AVPair_Validate :: "AVPair \<Rightarrow> Error + unit" where
  "AVPair_Validate p =
     (if av_Name p = '''' then Inl (NewError CodeInvalidArgument ''AV pair name is required'')
      else if containsSeparator (av_Name p)
      then Inl (NewError CodeInvalidArgument ''AV pair name must not contain = or *'')
      else if \<not> (av_Separator p = AVSepMandatory \<or> av_Separator p = AVSepOptional)
      then Inl (NewError CodeInvalidArgument ''AV pair separator must be = or *'')
      else if EncodedLen p < 2 \<or> 255 < EncodedLen p
      then Inl (NewError CodeInvalidArgument ''AV pair encoded length must be 2-255 bytes'')
      else Inr ())"

definition AVPair_Encode :: "AVPair \<Rightarrow> Error + string" where
  "AVPair_Encode p =
     rbind (AVPair_Validate p) (\<lambda>_.
     Inr (av_Name p @ [char_of (unat (av_Separator p))] @ av_Value p))"

text \<open>\<open>strings.IndexByte\<close>: the first position of a byte, if any.\<close>

fun IndexByte :: "string \<Rightarrow> char \<Rightarrow> nat option" where
  "IndexByte [] c = None"
| "IndexByte (x # xs) c = (if x = c then Some 0 else map_option Suc (IndexByte xs c))"

definition firstSeparator :: "string \<Rightarrow> (nat \<times> byte) option" where
  "firstSeparator s =
     (case (IndexByte s (CHR ''=''), IndexByte s (CHR ''*'')) of
        (None, None) \<Rightarrow> None
      | (None, Some st) \<Rightarrow> Some (st, AVSepOptional)
      | (Some eq, None) \<Rightarrow> Some (eq, AVSepMandatory)
      | (Some eq, Some st) \<Rightarrow> if eq < st then Some (eq, AVSepMandatory) else Some (st, AVSepOptional))"

definition ParseAVPair :: "string \<Rightarrow> Error + AVPair option" where
  "ParseAVPair s =
     (if s = '''' then Inr None
      else if length s < 2 \<or> 255 < length s
      then Inl (NewError CodeInvalidArgument ''AV pair encoded length must be 2-255 bytes'')
      else case firstSeparator s of
        None \<Rightarrow> Inl (NewError CodeInvalidArgument ''AV pair must contain = or *'')
      | Some (i, sep) \<Rightarrow>
          if take i s = '''' then Inl (NewError CodeInvalidArgument ''AV pair name is required'')
          else Inr (Some \<lparr>av_Name = take i s, av_Separator = sep, av_Value = drop (i + 1) s\<rparr>))"

fun ParseAVPairs :: "string list \<Rightarrow> Error + AVPairs" where
  "ParseAVPairs [] = Inr []"
| "ParseAVPairs (s # raw) =
     rbind (ParseAVPair s) (\<lambda>p.
     rbind (ParseAVPairs raw) (\<lambda>ps.
     Inr (case p of None \<Rightarrow> ps | Some x \<Rightarrow> x # ps)))"

definition AVPairs_Encode :: "AVPairs \<Rightarrow> Error + string list" where
  "AVPairs_Encode ps = rmap AVPair_Encode ps"

datatype AuthorDecision = DecisionPermitAdd | DecisionPermitReplace | DecisionDeny | DecisionUnset

definition AuthorDecision_String :: "AuthorDecision \<Rightarrow> string" where
  "AuthorDecision_String d =
     (case d of DecisionPermitAdd \<Rightarrow> ''permit_add'' | DecisionPermitReplace \<Rightarrow> ''permit_replace''
      | DecisionDeny \<Rightarrow> ''deny'' | DecisionUnset \<Rightarrow> '''')"

datatype AuthorStatus = StPassAdd | StPassRepl | StFail | StError | StFollow

definition AuthorStatus_byte :: "AuthorStatus \<Rightarrow> byte" where
  "AuthorStatus_byte s =
     (case s of StPassAdd \<Rightarrow> 0x01 | StPassRepl \<Rightarrow> 0x02 | StFail \<Rightarrow> 0x10 | StError \<Rightarrow> 0x11
      | StFollow \<Rightarrow> 0x21)"

definition AuthorStatus_String :: "AuthorStatus \<Rightarrow> string" where
  "AuthorStatus_String s =
     (case s of StPassAdd \<Rightarrow> ''pass_add'' | StPassRepl \<Rightarrow> ''pass_repl'' | StFail \<Rightarrow> ''fail''
      | StError \<Rightarrow> ''error'' | StFollow \<Rightarrow> ''follow'')"

definition WireStatus :: "AuthorDecision \<Rightarrow> AuthorStatus" where
  "WireStatus d =
     (case d of DecisionPermitAdd \<Rightarrow> StPassAdd | DecisionPermitReplace \<Rightarrow> StPassRepl
      | DecisionDeny \<Rightarrow> StFail | DecisionUnset \<Rightarrow> StError)"

definition AuthenMethod_String :: "byte \<Rightarrow> string" where
  "AuthenMethod_String m =
     (if m = 0x00 then ''not_set'' else if m = 0x01 then ''none'' else if m = 0x02 then ''krb5''
      else if m = 0x03 then ''line'' else if m = 0x04 then ''enable'' else if m = 0x05 then ''local''
      else if m = 0x06 then ''tacacs'' else if m = 0x08 then ''guest'' else if m = 0x10 then ''radius''
      else if m = 0x11 then ''krb4'' else if m = 0x20 then ''rcmd'' else '''')"

subsection \<open>Parsing and printing pairs\<close>

lemma IndexByte_Some:
  "IndexByte s c = Some i \<longleftrightarrow> i < length s \<and> s ! i = c \<and> c \<notin> set (take i s)"
proof (induction s arbitrary: i)
  case (Cons x xs)
  then show ?case by (cases i) auto
qed simp

lemma IndexByte_None: "IndexByte s c = None \<longleftrightarrow> c \<notin> set s"
  by (induction s) auto

lemma IndexByte_append: "c \<notin> set a \<Longrightarrow> IndexByte (a @ c # b) c = Some (length a)"
  by (induction a) auto

lemma containsSeparator_set: "containsSeparator s \<longleftrightarrow> CHR ''='' \<in> set s \<or> CHR ''*'' \<in> set s"
  by (auto simp: containsSeparator_def list_ex_iff)

lemma IndexByte_skip:
  "c \<notin> set a \<Longrightarrow> c \<noteq> d \<Longrightarrow>
     IndexByte (a @ d # b) c = map_option (\<lambda>i. length a + 1 + i) (IndexByte b c)"
  by (induction a) (auto simp: option.map_comp comp_def intro!: option.map_cong)

lemma firstSeparator_append:
  assumes "\<not> containsSeparator a"
  shows "firstSeparator (a @ CHR ''='' # b) = Some (length a, AVSepMandatory)"
    and "firstSeparator (a @ CHR ''*'' # b) = Some (length a, AVSepOptional)"
  using assms
  by (auto simp: firstSeparator_def containsSeparator_set IndexByte_append IndexByte_skip
      split: option.splits)

lemma sep_chars [simp]: "(char_of (61 :: nat) :: char) = CHR ''=''" "(char_of (42 :: nat) :: char) = CHR ''*''"
  by code_simp+

lemma firstSeparator_Some:
  assumes "firstSeparator s = Some (i, sep)"
  shows "i < length s \<and> s ! i = char_of (unat sep) \<and> \<not> containsSeparator (take i s) \<and>
     (sep = AVSepMandatory \<or> sep = AVSepOptional)"
proof -
  have take: "c \<notin> set (take j s) \<Longrightarrow> k \<le> j \<Longrightarrow> c \<notin> set (take k s)" for c j k
    using set_take_subset_set_take [of k j s] by blast
  have none: "c \<notin> set s \<Longrightarrow> c \<notin> set (take k s)" for c k
    using in_set_takeD by fast
  show ?thesis
    using assms take none
    by (auto simp: firstSeparator_def containsSeparator_set IndexByte_Some IndexByte_None
        split: option.splits if_splits)
qed

text \<open>
  Printing and parsing a pair are inverse: a non-empty string parses to a pair
  if and only if the pair is valid and encodes to that string. So the name never contains a
  separator, both separators are kept, and the encoded length is between 2 and 255.
\<close>

theorem AVPair_parse_print:
  "ParseAVPair s = Inr (Some p) \<longleftrightarrow> AVPair_Encode p = Inr s"
proof
  assume "ParseAVPair s = Inr (Some p)"
  then obtain i sep where s: "2 \<le> length s" "length s \<le> 255" "firstSeparator s = Some (i, sep)" "take i s \<noteq> []"
    and p: "p = \<lparr>av_Name = take i s, av_Separator = sep, av_Value = drop (i + 1) s\<rparr>"
    by (auto simp: ParseAVPair_def not_less split: if_splits option.splits)
  note f = firstSeparator_Some [OF s(3)]
  have "s = take i s @ s ! i # drop (i + 1) s" using f id_take_nth_drop [of i s] by simp
  moreover have "EncodedLen p = length s" using f s(1) p by (auto simp: EncodedLen_def)
  ultimately show "AVPair_Encode p = Inr s"
    using f s p by (auto simp: AVPair_Encode_def AVPair_Validate_def)
next
  assume e: "AVPair_Encode p = Inr s"
  then have v: "av_Name p \<noteq> []" "\<not> containsSeparator (av_Name p)" "EncodedLen p = length s"
    "2 \<le> length s" "length s \<le> 255" "av_Separator p = AVSepMandatory \<or> av_Separator p = AVSepOptional"
    "s = av_Name p @ char_of (unat (av_Separator p)) # av_Value p"
    by (auto simp: AVPair_Encode_def AVPair_Validate_def result_simps EncodedLen_def Suc_le_eq
        split: if_splits)
  then have "firstSeparator s = Some (length (av_Name p), av_Separator p)"
    using firstSeparator_append [OF v(2)] by auto
  then show "ParseAVPair s = Inr (Some p)"
    using v by (cases p) (auto simp: ParseAVPair_def)
qed

end
