(* ===== verification/Go_Strings.thy ===== *)
theory Go_Strings
  imports Taclab_Prelude "HOL-Library.List_Lexorder" "HOL-Library.Char_ord" "HOL-Library.Product_Lexorder"
begin

text \<open>
  What the program uses of Go's packages \<open>strconv\<close>, \<open>strings\<close>, \<open>bytes\<close>, \<open>unicode/utf8\<close>,
  \<open>sort\<close> and \<open>encoding/hex\<close>, on strings as sequences of bytes.
\<close>

text \<open>\<open>strconv.Itoa\<close> on a natural number (also \<open>%d\<close> on an unsigned value).\<close>

fun Itoa :: "nat \<Rightarrow> string" where
  "Itoa n = (if n < 10 then [char_of (48 + n)] else Itoa (n div 10) @ [char_of (48 + n mod 10)])"

declare Itoa.simps [simp del]

text \<open>\<open>strings.HasPrefix\<close>, \<open>strings.HasSuffix\<close>, \<open>strings.Contains\<close>.\<close>

definition HasPrefix :: "string \<Rightarrow> string \<Rightarrow> bool" where
  "HasPrefix s p \<longleftrightarrow> take (length p) s = p"

definition HasSuffix :: "string \<Rightarrow> string \<Rightarrow> bool" where
  "HasSuffix s p \<longleftrightarrow> HasPrefix (rev s) (rev p)"

fun Contains :: "string \<Rightarrow> string \<Rightarrow> bool" where
  "Contains [] p = (p = [])"
| "Contains (c # s) p = (HasPrefix (c # s) p \<or> Contains s p)"

text \<open>\<open>strings.Join\<close>.\<close>

fun Join :: "string list \<Rightarrow> string \<Rightarrow> string" where
  "Join [] sep = ''''"
| "Join [x] sep = x"
| "Join (x # y # xs) sep = x @ sep @ Join (y # xs) sep"

text \<open>
  \<open>strings.TrimSpace\<close> removes the white space of \<open>unicode.IsSpace\<close> at both ends; the table
  lists the UTF-8 encoding of each such rune.
\<close>

definition spaceRunes :: "string list" where
  "spaceRunes =
     [[CHR 0x09], [CHR 0x0A], [CHR 0x0B], [CHR 0x0C], [CHR 0x0D], [CHR 0x20], [CHR 0xC2, CHR 0x85],
      [CHR 0xC2, CHR 0xA0], [CHR 0xE1, CHR 0x9A, CHR 0x80], [CHR 0xE2, CHR 0x80, CHR 0x80],
      [CHR 0xE2, CHR 0x80, CHR 0x81], [CHR 0xE2, CHR 0x80, CHR 0x82], [CHR 0xE2, CHR 0x80, CHR 0x83],
      [CHR 0xE2, CHR 0x80, CHR 0x84], [CHR 0xE2, CHR 0x80, CHR 0x85], [CHR 0xE2, CHR 0x80, CHR 0x86],
      [CHR 0xE2, CHR 0x80, CHR 0x87], [CHR 0xE2, CHR 0x80, CHR 0x88], [CHR 0xE2, CHR 0x80, CHR 0x89],
      [CHR 0xE2, CHR 0x80, CHR 0x8A], [CHR 0xE2, CHR 0x80, CHR 0xA8], [CHR 0xE2, CHR 0x80, CHR 0xA9],
      [CHR 0xE2, CHR 0x80, CHR 0xAF], [CHR 0xE2, CHR 0x81, CHR 0x9F], [CHR 0xE3, CHR 0x80, CHR 0x80]]"

definition spacePrefix :: "string list \<Rightarrow> string \<Rightarrow> nat" where
  "spacePrefix rs s = (case find (HasPrefix s) rs of None \<Rightarrow> 0 | Some r \<Rightarrow> length r)"

function trimLeft :: "string list \<Rightarrow> string \<Rightarrow> string" where
  "trimLeft rs s = (if s = [] \<or> spacePrefix rs s = 0 then s else trimLeft rs (drop (spacePrefix rs s) s))"
  by pat_completeness auto
termination
  by (relation "measure (\<lambda>(_, s). length s)") auto

declare trimLeft.simps [simp del]

definition TrimSpace :: "string \<Rightarrow> string" where
  "TrimSpace s = rev (trimLeft (map rev spaceRunes) (rev (trimLeft spaceRunes s)))"

text \<open>\<open>utf8.Valid\<close>: the table of well-formed byte sequences of the Unicode standard.\<close>

definition contByte :: "byte \<Rightarrow> bool" where
  "contByte b \<longleftrightarrow> 0x80 \<le> b \<and> b \<le> 0xBF"

fun utf8Valid :: "bytes \<Rightarrow> bool" where
  "utf8Valid [] = True"
| "utf8Valid (a # s) =
     (if a < 0x80 then utf8Valid s
      else if 0xC2 \<le> a \<and> a \<le> 0xDF
        then (case s of b # t \<Rightarrow> contByte b \<and> utf8Valid t | _ \<Rightarrow> False)
      else if 0xE0 \<le> a \<and> a \<le> 0xEF
        then (case s of b # c # t \<Rightarrow>
                 (if a = 0xE0 then 0xA0 \<le> b \<and> b \<le> 0xBF else if a = 0xED then 0x80 \<le> b \<and> b \<le> 0x9F else contByte b)
                 \<and> contByte c \<and> utf8Valid t
               | _ \<Rightarrow> False)
      else if 0xF0 \<le> a \<and> a \<le> 0xF4
        then (case s of b # c # e # t \<Rightarrow>
                 (if a = 0xF0 then 0x90 \<le> b \<and> b \<le> 0xBF else if a = 0xF4 then 0x80 \<le> b \<and> b \<le> 0x8F else contByte b)
                 \<and> contByte c \<and> contByte e \<and> utf8Valid t
               | _ \<Rightarrow> False)
      else False)"

text \<open>\<open>hex.EncodeToString\<close>.\<close>

definition hexDigit :: "nat \<Rightarrow> char" where
  "hexDigit n = (if n < 10 then char_of (48 + n) else char_of (87 + n))"

definition EncodeToString :: "bytes \<Rightarrow> string" where
  "EncodeToString bs = concat (map (\<lambda>b. [hexDigit (unat b div 16), hexDigit (unat b mod 16)]) bs)"

lemma length_EncodeToString [simp]: "length (EncodeToString bs) = 2 * length bs"
  by (induction bs) (auto simp: EncodeToString_def)

lemma HasPrefix_split: "HasPrefix s p \<longleftrightarrow> (\<exists>t. s = p @ t)"
  unfolding HasPrefix_def by (metis append_eq_conv_conj)

lemma HasPrefix_refl [simp]: "HasPrefix (p @ t) p"
  by (auto simp: HasPrefix_split)

lemma TrimSpace_plain: "spacePrefix spaceRunes s = 0 \<Longrightarrow> spacePrefix (map rev spaceRunes) (rev s) = 0 \<Longrightarrow> TrimSpace s = s"
  by (simp add: TrimSpace_def trimLeft.simps)

end
