(* ===== verification/Policy_Dictionary.thy ===== *)
theory Policy_Dictionary
  imports Domain_AVPair Go_Strings
begin

text \<open>
  The dictionary of RFC 8907 arguments and the checks of their values
  (\<open>internal/policy/dictionary.go\<close>), with what it uses of \<open>strconv\<close>. The parser of
  textual IP addresses and the time zone database are parameters.
\<close>

datatype Encoding = EncText | EncBoolean | EncNumeric | EncPrivilege | EncAddress | EncRepeatable
  | EncTimezone | EncEpoch | EncUnknown

record ArgSpec =
  spec_Name :: string
  spec_Encoding :: Encoding
  spec_Known :: bool
  spec_Repeatable :: bool

definition argSpec :: "string \<Rightarrow> Encoding \<Rightarrow> ArgSpec" where
  "argSpec name enc = \<lparr>spec_Name = name, spec_Encoding = enc, spec_Known = True,
                       spec_Repeatable = (enc = EncRepeatable)\<rparr>"

definition commonArgs :: "ArgSpec list" where
  "commonArgs =
     [argSpec ''service'' EncText, argSpec ''protocol'' EncText, argSpec ''cmd'' EncText,
      argSpec ''cmd-arg'' EncRepeatable, argSpec ''acl'' EncNumeric, argSpec ''inacl'' EncText,
      argSpec ''outacl'' EncText, argSpec ''addr'' EncAddress, argSpec ''addr-pool'' EncText,
      argSpec ''timeout'' EncNumeric, argSpec ''idletime'' EncNumeric, argSpec ''autocmd'' EncText,
      argSpec ''noescape'' EncBoolean, argSpec ''nohangup'' EncBoolean, argSpec ''priv-lvl'' EncPrivilege,
      argSpec ''timezone'' EncTimezone, argSpec ''start_time'' EncEpoch, argSpec ''stop_time'' EncEpoch,
      argSpec ''task_id'' EncText, argSpec ''elapsed_time'' EncNumeric, argSpec ''event'' EncText,
      argSpec ''reason'' EncText, argSpec ''bytes'' EncNumeric, argSpec ''bytes_in'' EncNumeric,
      argSpec ''bytes_out'' EncNumeric, argSpec ''paks'' EncNumeric, argSpec ''paks_in'' EncNumeric,
      argSpec ''paks_out'' EncNumeric, argSpec ''err_msg'' EncText]"

definition LookupArg :: "string \<Rightarrow> ArgSpec" where
  "LookupArg name =
     (case find (\<lambda>s. spec_Name s = name) (rev commonArgs) of
        Some s \<Rightarrow> s
      | None \<Rightarrow> \<lparr>spec_Name = name, spec_Encoding = EncUnknown, spec_Known = False,
                 spec_Repeatable = False\<rparr>)"

subsection \<open>Decimal numbers\<close>

definition isDigit :: "char \<Rightarrow> bool" where
  "isDigit c \<longleftrightarrow> CHR ''0'' \<le> c \<and> c \<le> CHR ''9''"

definition digitVal :: "char \<Rightarrow> nat" where
  "digitVal c = of_char c - 48"

definition decValue :: "string \<Rightarrow> nat" where
  "decValue s = foldl (\<lambda>n c. 10 * n + digitVal c) 0 s"

text \<open>\<open>strconv.ParseUint(s, 10, 64)\<close>, and \<open>strconv.Atoi\<close> on a 64-bit machine.\<close>

definition ParseUint :: "string \<Rightarrow> nat option" where
  "ParseUint s = (if s \<noteq> '''' \<and> list_all isDigit s \<and> decValue s < 2 ^ 64 then Some (decValue s) else None)"

definition Atoi :: "string \<Rightarrow> int option" where
  "Atoi s =
     (let (sign, ds) = (case s of CHR ''-'' # r \<Rightarrow> (- 1, r) | CHR ''+'' # r \<Rightarrow> (1, r) | _ \<Rightarrow> (1 :: int, s))
      in if ds \<noteq> '''' \<and> list_all isDigit ds \<and> - (2 ^ 63) \<le> sign * int (decValue ds)
            \<and> sign * int (decValue ds) < 2 ^ 63
         then Some (sign * int (decValue ds)) else None)"

abbreviation (input) maxUintDigits :: nat where "maxUintDigits \<equiv> 20"

definition parseBoundedUint :: "string \<Rightarrow> Error + nat" where
  "parseBoundedUint s =
     (let bad = Inl (NewError CodeInvalidArgument ''numeric argument is unrepresentable'')
      in if s = '''' \<or> maxUintDigits < length s then bad
         else if \<not> list_all (\<lambda>c. \<not> (c < CHR ''0'' \<or> CHR ''9'' < c)) s then bad
         else if length s = maxUintDigits \<and> ''18446744073709551615'' < s then bad
         else case ParseUint s of None \<Rightarrow> bad | Some n \<Rightarrow> Inr n)"

subsection \<open>Time zones\<close>

datatype 'z Location = UTC | Zone 'z | FixedZone string int

definition parseFixedOffset :: "string \<Rightarrow> Error + 'z Location" where
  "parseFixedOffset s =
     (let bad = Inl (NewError CodeInvalidArgument ''unknown timezone'')
      in if length s < 2 \<or> (s ! 0 \<noteq> CHR ''+'' \<and> s ! 0 \<noteq> CHR ''-'') then bad
         else (let sign = (if s ! 0 = CHR ''-'' then - 1 else 1);
                   rest = drop 1 s;
                   parsed =
                     (if length rest = 2 then map_option (\<lambda>h. (h, 0)) (Atoi rest)
                      else if length rest = 4
                      then (case Atoi (take 2 rest) of None \<Rightarrow> None
                            | Some h \<Rightarrow> map_option (Pair h) (Atoi (drop 2 rest)))
                      else if length rest = 5 \<and> rest ! 2 = CHR '':''
                      then (case Atoi (take 2 rest) of None \<Rightarrow> None
                            | Some h \<Rightarrow> map_option (Pair h) (Atoi (drop 3 rest)))
                      else None)
               in case parsed of None \<Rightarrow> bad
                  | Some (hours, mins) \<Rightarrow>
                      if hours > 14 \<or> mins > 59 then bad
                      else Inr (FixedZone s (sign * (hours * 3600 + mins * 60)))))"

definition LoadLocation :: "(string \<Rightarrow> 'z option) \<Rightarrow> string \<Rightarrow> Error + 'z Location" where
  "LoadLocation tzdb timezone =
     (if timezone = '''' \<or> timezone = ''UTC'' \<or> timezone = ''Z'' then Inr UTC
      else case tzdb timezone of
        Some z \<Rightarrow> Inr (Zone z)
      | None \<Rightarrow>
          (case parseFixedOffset timezone of
             Inr loc \<Rightarrow> Inr loc
           | Inl _ \<Rightarrow> Inl (WithPath (NewError CodeInvalidArgument ''unknown timezone'') ''timezone'')))"

definition validateTimezone :: "(string \<Rightarrow> 'z option) \<Rightarrow> string \<Rightarrow> Error + unit" where
  "validateTimezone tzdb value = rbind (LoadLocation tzdb value) (\<lambda>_. Inr ())"

definition ValidateValue ::
  "(string \<Rightarrow> bool) \<Rightarrow> (string \<Rightarrow> 'z option) \<Rightarrow> string \<Rightarrow> string \<Rightarrow> Error + unit" where
  "ValidateValue isIP tzdb name value =
     (let spec = LookupArg name;
          bad = (\<lambda>m. Inl (WithPath (NewError CodeInvalidArgument m) name))
      in if \<not> spec_Known spec then Inr ()
         else case spec_Encoding spec of
           EncText \<Rightarrow> Inr ()
         | EncRepeatable \<Rightarrow> Inr ()
         | EncBoolean \<Rightarrow>
             if value \<noteq> ''true'' \<and> value \<noteq> ''false'' then bad ''boolean argument must be true or false'' else Inr ()
         | EncNumeric \<Rightarrow>
             (case parseBoundedUint value of Inl _ \<Rightarrow> bad ''numeric argument is unrepresentable'' | Inr _ \<Rightarrow> Inr ())
         | EncPrivilege \<Rightarrow>
             (case parseBoundedUint value of
                Inl _ \<Rightarrow> bad ''privilege level must be 0-15''
              | Inr n \<Rightarrow> if n > 15 then bad ''privilege level must be 0-15'' else Inr ())
         | EncAddress \<Rightarrow>
             if \<not> isIP value then bad ''address must be canonical IPv4 or IPv6 text'' else Inr ()
         | EncTimezone \<Rightarrow> validateTimezone tzdb value
         | EncEpoch \<Rightarrow>
             (case parseBoundedUint value of Inl _ \<Rightarrow> bad ''epoch seconds are unrepresentable'' | Inr _ \<Rightarrow> Inr ())
         | EncUnknown \<Rightarrow> Inr ())"

definition ValidatePair ::
  "(string \<Rightarrow> bool) \<Rightarrow> (string \<Rightarrow> 'z option) \<Rightarrow> AVPair \<Rightarrow> Error + unit" where
  "ValidatePair isIP tzdb p =
     rbind (AVPair_Validate p) (\<lambda>_. ValidateValue isIP tzdb (av_Name p) (av_Value p))"

definition firstAV :: "AVPairs \<Rightarrow> string \<Rightarrow> string option" where
  "firstAV args name = map_option av_Value (find (\<lambda>p. av_Name p = name) args)"

definition allAV :: "AVPairs \<Rightarrow> string \<Rightarrow> string list" where
  "allAV args name = map av_Value (filter (\<lambda>p. av_Name p = name) args)"

definition orEmptyString :: "string option \<Rightarrow> string" where
  "orEmptyString s = (case s of None \<Rightarrow> '''' | Some x \<Rightarrow> x)"

text \<open>Service, protocol, command with its presence, and command arguments of a request.\<close>

definition extractFromAVs :: "AVPairs \<Rightarrow> string \<times> string \<times> string \<times> bool \<times> string list" where
  "extractFromAVs args =
     (orEmptyString (firstAV args ''service''), orEmptyString (firstAV args ''protocol''),
      orEmptyString (firstAV args ''cmd''), firstAV args ''cmd'' \<noteq> None, allAV args ''cmd-arg'')"

subsection \<open>Decimal strings and their order\<close>

lemma isDigit_range: "isDigit c \<longleftrightarrow> 48 \<le> (of_char c :: nat) \<and> (of_char c :: nat) \<le> 57"
  by (simp add: isDigit_def less_eq_char_def)

text \<open>Decimal printing and parsing are inverse.\<close>

lemma Itoa_digits: "list_all isDigit (Itoa n) \<and> Itoa n \<noteq> '''' \<and> decValue (Itoa n) = n"
proof (induction n rule: less_induct)
  case (less n)
  have dig: "isDigit (char_of (48 + d)) \<and> digitVal (char_of (48 + d)) = d" if "d < 10" for d :: nat
    using that by (auto simp: isDigit_def digitVal_def less_eq_char_def)
  show ?case
  proof (cases "n < 10")
    case True
    then show ?thesis using dig [of n] by (subst (1 2 3) Itoa.simps) (simp add: decValue_def)
  next
    case False
    then have ih: "list_all isDigit (Itoa (n div 10))" "decValue (Itoa (n div 10)) = n div 10"
      using less [of "n div 10"] by simp_all
    show ?thesis
      using False ih dig [of "n mod 10"] by (subst (1 2 3) Itoa.simps) (simp add: decValue_def)
  qed
qed

lemma digitVal_less: "isDigit c \<Longrightarrow> digitVal c < 10"
  by (auto simp: isDigit_range digitVal_def)

lemma digitVal_order: "isDigit c \<Longrightarrow> isDigit d \<Longrightarrow> c < d \<longleftrightarrow> digitVal c < digitVal d"
  by (auto simp: isDigit_range digitVal_def less_char_def)

lemma digitVal_inject: "isDigit c \<Longrightarrow> isDigit d \<Longrightarrow> digitVal c = digitVal d \<longleftrightarrow> c = d"
  by (metis digitVal_order linorder_less_linear order.irrefl)

lemma foldl_digits: "foldl (\<lambda>n c. 10 * n + digitVal c) a s = a * 10 ^ length s + decValue s"
proof (induction s arbitrary: a)
  case (Cons c s)
  show ?case
    using Cons [of "10 * a + digitVal c"] Cons [of "digitVal c"]
    by (simp add: decValue_def algebra_simps)
qed (simp add: decValue_def)

lemma decValue_Cons: "decValue (c # s) = digitVal c * 10 ^ length s + decValue s"
  using foldl_digits [of "digitVal c" s] by (simp add: decValue_def)

lemma decValue_bound: "list_all isDigit s \<Longrightarrow> decValue s < 10 ^ length s"
proof (induction s)
  case (Cons c s)
  then have "digitVal c * 10 ^ length s \<le> 9 * 10 ^ length s"
    using digitVal_less [of c] by (intro mult_right_mono) auto
  with Cons have "digitVal c * 10 ^ length s + decValue s < 9 * 10 ^ length s + 10 ^ length s"
    by (intro add_le_less_mono) auto
  then show ?case by (simp add: decValue_Cons)
qed (simp add: decValue_def)

text \<open>On digit strings of the same length the byte-wise order is the numeric order.\<close>

lemma decValue_order:
  assumes "length s = length t" and "list_all isDigit s" and "list_all isDigit t"
  shows "s < t \<longleftrightarrow> decValue s < decValue t"
  using assms
proof (induction s t rule: list_induct2)
  case (Cons c s d t)
  then have IH: "s < t \<longleftrightarrow> decValue s < decValue t" and c: "isDigit c" "isDigit d" by auto
  have b: "decValue s < 10 ^ length t" "decValue t < 10 ^ length t"
    using Cons.prems Cons.hyps decValue_bound [of s] decValue_bound [of t] by auto
  have carry: "x < y \<Longrightarrow> u < B \<Longrightarrow> x * B + u < y * B + v" for x y u v B :: nat
  proof -
    assume "x < y" "u < B"
    then have "(x + 1) * B \<le> y * B" by (intro mult_right_mono) auto
    with \<open>u < B\<close> show ?thesis by (simp add: algebra_simps)
  qed
  consider "digitVal c < digitVal d" | "digitVal c = digitVal d" | "digitVal d < digitVal c" by linarith
  then show ?case
  proof cases
    case 1
    with c Cons.hyps carry [OF 1 b(1)] show ?thesis
      by (auto simp: decValue_Cons digitVal_order)
  next
    case 2
    with c IH Cons.hyps show ?thesis by (auto simp: decValue_Cons digitVal_inject)
  next
    case 3
    with c Cons.hyps carry [OF 3 b(2), of "decValue s"] have "\<not> c < d" "c \<noteq> d"
      by (auto simp: digitVal_order)
    with 3 c Cons.hyps carry [OF 3 b(2), of "decValue s"] show ?thesis
      by (auto simp: decValue_Cons)
  qed
qed (simp add: decValue_def)

lemma decValue_max: "decValue ''18446744073709551615'' = 2 ^ 64 - 1"
  by (simp add: decValue_def digitVal_def)

lemma notDigit_conv: "list_all (\<lambda>c. \<not> (c < CHR ''0'' \<or> CHR ''9'' < c)) s = list_all isDigit s"
  by (auto simp: list_all_iff isDigit_def not_less)

lemma Atoi_two: "length s = 2 \<Longrightarrow> Atoi s = Some v \<Longrightarrow> - 9 \<le> v \<and> v \<le> 99"
proof -
  assume "length s = 2" and v: "Atoi s = Some v"
  then obtain a b where s: "s = [a, b]" by (auto simp: numeral_2_eq_2 length_Suc_conv)
  have "decValue [a, b] \<le> 99" if "isDigit a" "isDigit b"
    using that digitVal_less [of a] digitVal_less [of b] by (simp add: decValue_def)
  moreover have "decValue [b] \<le> 9" if "isDigit b"
    using that digitVal_less [of b] by (simp add: decValue_def)
  ultimately show ?thesis
    using v unfolding s by (auto simp: Atoi_def Let_def split: if_splits prod.splits list.splits char.splits bool.splits)
qed

subsection \<open>Properties\<close>

text \<open>
  A numeric argument is accepted exactly when it is a non-empty string of at
  most 20 decimal digits whose value fits an unsigned 64-bit integer, and the result is that
  value: the byte-wise comparison with the largest 20-digit value is the numeric one, and the
  conversion never overflows.
\<close>

theorem parseBoundedUint_iff:
  "parseBoundedUint s = Inr n \<longleftrightarrow>
     s \<noteq> [] \<and> length s \<le> 20 \<and> list_all isDigit s \<and> decValue s < 2 ^ 64 \<and> n = decValue s"
proof (cases "s \<noteq> [] \<and> length s \<le> 20 \<and> list_all isDigit s")
  case True
  have small: "decValue s < 2 ^ 64" if "length s < 20"
  proof -
    have "decValue s < 10 ^ length s" using True decValue_bound by blast
    also have "(10 :: nat) ^ length s \<le> 10 ^ 19" using that by (intro power_increasing) auto
    finally show ?thesis by simp
  qed
  have big: "''18446744073709551615'' < s \<longleftrightarrow> 2 ^ 64 - 1 < decValue s" if "length s = 20"
    using decValue_order [of "''18446744073709551615''" s] True that
    by (simp add: decValue_max isDigit_range)
  show ?thesis
    unfolding parseBoundedUint_def Let_def notDigit_conv
    using True small big by (auto simp: ParseUint_def not_less split: option.splits)
next
  case False
  then show ?thesis unfolding parseBoundedUint_def Let_def notDigit_conv by auto
qed

text \<open>
  A fixed time zone offset that is accepted is named after its text and is
  within 14 hours and 59 minutes of UTC. The digits may carry a sign of their own, so a
  doubly signed offset is accepted too, as the negated offset.
\<close>

theorem parseFixedOffset_bounded:
  "(parseFixedOffset s = Inr loc \<longrightarrow> (\<exists>off. loc = FixedZone s off \<and> \<bar>off\<bar> \<le> 14 * 3600 + 59 * 60)) \<and>
   (parseFixedOffset ''+-9'' :: Error + 'z Location) = Inr (FixedZone ''+-9'' (- (9 * 3600)))"
proof
  show "(parseFixedOffset ''+-9'' :: Error + 'z Location) = Inr (FixedZone ''+-9'' (- (9 * 3600)))"
    by (simp add: parseFixedOffset_def Atoi_def decValue_def digitVal_def isDigit_range)
  have two: "Atoi x = Some h \<Longrightarrow> length x = 2 \<Longrightarrow> - 9 \<le> h" for x h using Atoi_two by blast
  show "parseFixedOffset s = Inr loc \<longrightarrow> (\<exists>off. loc = FixedZone s off \<and> \<bar>off\<bar> \<le> 14 * 3600 + 59 * 60)"
  proof
    assume "parseFixedOffset s = Inr loc"
    then show "\<exists>off. loc = FixedZone s off \<and> \<bar>off\<bar> \<le> 14 * 3600 + 59 * 60"
      by (auto simp: parseFixedOffset_def Let_def abs_le_iff split: if_splits option.splits dest!: two)
  qed
qed

theorem parseFixedOffset_bounded_witness:
  "\<exists>off. (FixedZone ''+05:30'' 19800 :: unit Location) = FixedZone ''+05:30'' off \<and> \<bar>off\<bar> \<le> 14 * 3600 + 59 * 60"
proof -
  have "parseFixedOffset ''+05:30'' = Inr (FixedZone ''+05:30'' 19800 :: unit Location)"
    by (simp add: parseFixedOffset_def Atoi_def decValue_def digitVal_def isDigit_range)
  with parseFixedOffset_bounded [of "''+05:30''" "FixedZone ''+05:30'' 19800 :: unit Location"]
  show ?thesis by blast
qed

end
