(* ===== verification/Policy_Engine.thy ===== *)
theory Policy_Engine
  imports Policy_Dictionary Go_Strings
begin

text \<open>
  The authorization policy (\<open>internal/policy\<close>: \<open>types.go\<close>, \<open>compile.go\<close>,
  \<open>response.go\<close>, \<open>evaluate.go\<close>).

  The regular expression engine is a parameter: \<open>reCompile\<close> compiles a pattern and
  \<open>reMatch\<close> decides a match; so are the IP address parser and the time zone database of
  the dictionary. Times are nanoseconds since the epoch and the clock of an engine
  is \<open>None\<close> when it reads the zero time. Go's stable sort by priority and then by id is
  \<open>sort_key\<close> on the pair of the two, with the lexicographic order of byte strings.
\<close>

datatype RuleKind = RuleKindService | RuleKindCommand

definition RuleKind_string :: "RuleKind \<Rightarrow> string" where
  "RuleKind_string k = (case k of RuleKindService \<Rightarrow> ''service'' | RuleKindCommand \<Rightarrow> ''command'')"

record Request =
  prq_UserID :: string
  prq_ClientID :: string
  prq_Service :: string
  prq_Protocol :: string
  prq_Cmd :: string
  prq_CmdArgs :: "string list"
  prq_Arguments :: AVPairs
  prq_AuthenMethod :: byte
  prq_Privilege :: byte
  prq_Port :: string
  prq_RemoteAddr :: string

record TraceAV =
  tav_Name :: string
  tav_Separator :: string
  tav_Value :: string

record TraceStep =
  ts_Source :: string
  ts_RuleID :: string
  ts_Kind :: string
  ts_Matched :: bool
  ts_Reason :: string

record TraceWinner =
  tw_Source :: string
  tw_RuleID :: string
  tw_Action :: string

record Trace =
  tr_Evaluator :: string
  tr_UserID :: string
  tr_ClientID :: string
  tr_Service :: string
  tr_Protocol :: string
  tr_Cmd :: string
  tr_CmdArgs :: "string list"
  tr_DisplayCmd :: string
  tr_RequestArguments :: "TraceAV list"
  tr_AuthenMethod :: string
  tr_Privilege :: byte
  tr_EffectiveGroupIDs :: "string list"
  tr_Steps :: "TraceStep list"
  tr_Winner :: "TraceWinner option"
  tr_Decision :: string
  tr_Status :: string
  tr_Arguments :: "TraceAV list"
  tr_DefaultDeny :: string
  tr_Error :: string

definition zero_Trace :: Trace where
  "zero_Trace = \<lparr>tr_Evaluator = '''', tr_UserID = '''', tr_ClientID = '''', tr_Service = '''',
     tr_Protocol = '''', tr_Cmd = '''', tr_CmdArgs = [], tr_DisplayCmd = '''', tr_RequestArguments = [],
     tr_AuthenMethod = '''', tr_Privilege = 0, tr_EffectiveGroupIDs = [], tr_Steps = [],
     tr_Winner = None, tr_Decision = '''', tr_Status = '''', tr_Arguments = [], tr_DefaultDeny = '''',
     tr_Error = ''''\<rparr>"

record PolicyResult =
  res_Decision :: AuthorDecision
  res_Status :: AuthorStatus
  res_Arguments :: AVPairs
  res_Trace :: Trace

text \<open>\<open>strings.Join(args, " ")\<close>.\<close>

fun joinArgs :: "string list \<Rightarrow> string" where
  "joinArgs [] = ''''"
| "joinArgs [a] = a"
| "joinArgs (a # b # r) = a @ '' '' @ joinArgs (b # r)"

definition displayCommand :: "string \<Rightarrow> string list \<Rightarrow> string" where
  "displayCommand cmd args =
     (if cmd = '''' then joinArgs args
      else if args = [] then cmd
      else cmd @ '' '' @ joinArgs args)"

definition traceAVs :: "AVPairs \<Rightarrow> TraceAV list" where
  "traceAVs ps = map (\<lambda>p. \<lparr>tav_Name = av_Name p, tav_Separator = [char_of (unat (av_Separator p))],
                          tav_Value = av_Value p\<rparr>) ps"

subsection \<open>Compiled policy\<close>

record 're matcher =
  m_exact :: string
  m_pattern :: "'re option"

definition matcher_match :: "('re \<Rightarrow> string \<Rightarrow> bool) \<Rightarrow> 're matcher \<Rightarrow> string \<Rightarrow> bool" where
  "matcher_match reMatch m s = (case m_pattern m of Some re \<Rightarrow> reMatch re s | None \<Rightarrow> m_exact m = s)"

record limits =
  pl_maxArgs :: int
  pl_maxArgBytes :: int
  pl_maxCmdBytes :: int
  pl_maxTraceSteps :: int

record compiledService =
  csv_id :: string
  csv_service :: string
  csv_protocol :: "string option"
  csv_action :: AuthorDecision
  csv_reply :: AVPairs

record 're compiledCommand =
  ccm_id :: string
  ccm_priority :: int
  ccm_action :: AuthorDecision
  ccm_command :: "'re matcher"
  ccm_args :: "'re matcher"
  ccm_reason :: string

record 're compiledRuleSet =
  crs_services :: "compiledService list"
  crs_commands :: "'re compiledCommand list"

record 're compiledUser =
  cu_id :: string
  cu_enabled :: bool
  cu_groupIDs :: "string list"
  cu_rules :: "'re compiledRuleSet"
  cu_clientIDs :: "string list"
  cu_validAfter :: "int option"
  cu_validBefore :: "int option"

record 're compiledGroup =
  cg_id :: string
  cg_enabled :: bool
  cg_priority :: int
  cg_rules :: "'re compiledRuleSet"

record compiledClient =
  cc_id :: string
  cc_enabled :: bool
  cc_defaultGroupIDs :: "string list"

record 're PolicyEngine =
  pe_users :: "string \<rightharpoonup> 're compiledUser"
  pe_groups :: "string \<rightharpoonup> 're compiledGroup"
  pe_clients :: "string \<rightharpoonup> compiledClient"
  pe_fallback :: "'re compiledRuleSet"
  pe_limits :: limits

subsection \<open>Compilation\<close>

record StringMatch =
  sm_Exact :: string
  sm_Pattern :: string

record ServiceRule =
  sr_Service :: string
  sr_Protocol :: "string option"
  sr_Action :: AuthorDecision
  sr_ReplyAttributes :: AVPairs

record CommandRule =
  cr_ID :: string
  cr_Priority :: int
  cr_Action :: AuthorDecision
  cr_Command :: StringMatch
  cr_Arguments :: StringMatch
  cr_Reason :: string

record RuleSet =
  rs_Services :: "ServiceRule list"
  rs_CommandRules :: "CommandRule list"

record PUser =
  pu_ID :: string
  pu_Enabled :: bool
  pu_GroupIDs :: "string list"
  pu_Rules :: RuleSet
  pu_ClientIDs :: "string list"
  pu_ValidAfter :: "int option"
  pu_ValidBefore :: "int option"

record PGroup =
  pg_ID :: string
  pg_Priority :: int
  pg_Enabled :: bool
  pg_Services :: "ServiceRule list"
  pg_CommandRules :: "CommandRule list"

record PClient =
  pc_ID :: string
  pc_Enabled :: bool
  pc_DefaultGroupIDs :: "string list"

record PolicyInput =
  in_Users :: "PUser list"
  in_Groups :: "PGroup list"
  in_Clients :: "PClient list"
  in_Fallback :: RuleSet
  in_Limits :: limits

definition compileLimits :: "limits \<Rightarrow> limits" where
  "compileLimits l =
     \<lparr>pl_maxArgs = (if pl_maxArgs l \<le> 0 then 256 else pl_maxArgs l),
      pl_maxArgBytes = (if pl_maxArgBytes l \<le> 0 then 65535 else pl_maxArgBytes l),
      pl_maxCmdBytes = (if pl_maxCmdBytes l \<le> 0 then 65535 else pl_maxCmdBytes l),
      pl_maxTraceSteps = (if pl_maxTraceSteps l \<le> 0 then 1000 else pl_maxTraceSteps l)\<rparr>"

definition compileMatcher :: "(string \<Rightarrow> 're option) \<Rightarrow> StringMatch \<Rightarrow> string \<Rightarrow> Error + 're matcher" where
  "compileMatcher reCompile m path =
     (if sm_Pattern m \<noteq> ''''
      then (case reCompile (sm_Pattern m) of
              None \<Rightarrow> Inl (WithPath (NewError CodeRegexInvalid ''invalid regular expression'') (path @ ''.pattern''))
            | Some re \<Rightarrow> Inr \<lparr>m_exact = '''', m_pattern = Some re\<rparr>)
      else Inr \<lparr>m_exact = sm_Exact m, m_pattern = None\<rparr>)"

text \<open>The loops carry the index of the element, for the error path.\<close>

fun compileReplyLoop :: "(string \<Rightarrow> bool) \<Rightarrow> (string \<Rightarrow> 'z option) \<Rightarrow> string \<Rightarrow> nat \<Rightarrow> AVPairs \<Rightarrow> Error + AVPairs" where
  "compileReplyLoop isIP tzdb path i [] = Inr []"
| "compileReplyLoop isIP tzdb path i (p # ps) =
     (case ValidatePair isIP tzdb p of
        Inl _ \<Rightarrow> Inl (WithPath (NewError CodeInvalidArgument ''invalid reply attribute'')
                       (path @ ''['' @ Itoa i @ '']''))
      | Inr _ \<Rightarrow> rbind (compileReplyLoop isIP tzdb path (i + 1) ps) (\<lambda>out. Inr (p # out)))"

definition compileReply :: "(string \<Rightarrow> bool) \<Rightarrow> (string \<Rightarrow> 'z option) \<Rightarrow> AVPairs \<Rightarrow> string \<Rightarrow> Error + AVPairs" where
  "compileReply isIP tzdb ps path = compileReplyLoop isIP tzdb path 0 ps"

fun compileServices ::
  "(string \<Rightarrow> bool) \<Rightarrow> (string \<Rightarrow> 'z option) \<Rightarrow> string \<Rightarrow> nat \<Rightarrow> ServiceRule list \<Rightarrow> Error + compiledService list" where
  "compileServices isIP tzdb path i [] = Inr []"
| "compileServices isIP tzdb path i (r # rs) =
     rbind (compileReply isIP tzdb (sr_ReplyAttributes r)
              (path @ ''.services['' @ Itoa i @ ''].reply_attributes'')) (\<lambda>reply.
     rbind (compileServices isIP tzdb path (i + 1) rs) (\<lambda>out.
     Inr (\<lparr>csv_id = ''services['' @ Itoa i @ '']'', csv_service = sr_Service r,
           csv_protocol = sr_Protocol r, csv_action = sr_Action r, csv_reply = reply\<rparr> # out)))"

fun compileCommands ::
  "(string \<Rightarrow> 're option) \<Rightarrow> string \<Rightarrow> nat \<Rightarrow> CommandRule list \<Rightarrow> Error + 're compiledCommand list" where
  "compileCommands reCompile path i [] = Inr []"
| "compileCommands reCompile path i (r # rs) =
     rbind (compileMatcher reCompile (cr_Command r)
              (path @ ''.command_rules['' @ Itoa i @ ''].command'')) (\<lambda>cmd.
     rbind (compileMatcher reCompile (cr_Arguments r)
              (path @ ''.command_rules['' @ Itoa i @ ''].arguments'')) (\<lambda>args.
     rbind (compileCommands reCompile path (i + 1) rs) (\<lambda>out.
     Inr (\<lparr>ccm_id = cr_ID r, ccm_priority = cr_Priority r, ccm_action = cr_Action r,
           ccm_command = cmd, ccm_args = args, ccm_reason = cr_Reason r\<rparr> # out))))"

definition commandRank :: "'re compiledCommand \<Rightarrow> int \<times> string" where
  "commandRank c = (ccm_priority c, ccm_id c)"

definition compileRuleSet ::
  "(string \<Rightarrow> 're option) \<Rightarrow> (string \<Rightarrow> bool) \<Rightarrow> (string \<Rightarrow> 'z option) \<Rightarrow> RuleSet \<Rightarrow> string \<Rightarrow> Error + 're compiledRuleSet" where
  "compileRuleSet reCompile isIP tzdb rs path =
     rbind (compileServices isIP tzdb path 0 (rs_Services rs)) (\<lambda>services.
     rbind (compileCommands reCompile path 0 (rs_CommandRules rs)) (\<lambda>commands.
     Inr \<lparr>crs_services = services, crs_commands = sort_key commandRank commands\<rparr>))"

fun compileGroups ::
  "(string \<Rightarrow> 're option) \<Rightarrow> (string \<Rightarrow> bool) \<Rightarrow> (string \<Rightarrow> 'z option) \<Rightarrow> nat \<Rightarrow> PGroup list
     \<Rightarrow> (string \<rightharpoonup> 're compiledGroup) \<Rightarrow> Error + (string \<rightharpoonup> 're compiledGroup)" where
  "compileGroups reCompile isIP tzdb i [] m = Inr m"
| "compileGroups reCompile isIP tzdb i (g # gs) m =
     rbind (compileRuleSet reCompile isIP tzdb
              \<lparr>rs_Services = pg_Services g, rs_CommandRules = pg_CommandRules g\<rparr>
              (''groups['' @ Itoa i @ '']'')) (\<lambda>rules.
     compileGroups reCompile isIP tzdb (i + 1) gs
       (m(pg_ID g \<mapsto> \<lparr>cg_id = pg_ID g, cg_enabled = pg_Enabled g, cg_priority = pg_Priority g,
                       cg_rules = rules\<rparr>)))"

fun compileUsers ::
  "(string \<Rightarrow> 're option) \<Rightarrow> (string \<Rightarrow> bool) \<Rightarrow> (string \<Rightarrow> 'z option) \<Rightarrow> nat \<Rightarrow> PUser list
     \<Rightarrow> (string \<rightharpoonup> 're compiledUser) \<Rightarrow> Error + (string \<rightharpoonup> 're compiledUser)" where
  "compileUsers reCompile isIP tzdb i [] m = Inr m"
| "compileUsers reCompile isIP tzdb i (u # us) m =
     rbind (compileRuleSet reCompile isIP tzdb (pu_Rules u) (''users['' @ Itoa i @ ''].rules'')) (\<lambda>rules.
     compileUsers reCompile isIP tzdb (i + 1) us
       (m(pu_ID u \<mapsto> \<lparr>cu_id = pu_ID u, cu_enabled = pu_Enabled u, cu_groupIDs = pu_GroupIDs u,
                       cu_rules = rules, cu_clientIDs = pu_ClientIDs u,
                       cu_validAfter = pu_ValidAfter u, cu_validBefore = pu_ValidBefore u\<rparr>)))"

definition Compile ::
  "(string \<Rightarrow> 're option) \<Rightarrow> (string \<Rightarrow> bool) \<Rightarrow> (string \<Rightarrow> 'z option) \<Rightarrow> PolicyInput \<Rightarrow> Error + 're PolicyEngine" where
  "Compile reCompile isIP tzdb inp =
     rbind (compileGroups reCompile isIP tzdb 0 (in_Groups inp) Map.empty) (\<lambda>groups.
     rbind (compileUsers reCompile isIP tzdb 0 (in_Users inp) Map.empty) (\<lambda>users.
     rbind (compileRuleSet reCompile isIP tzdb (in_Fallback inp) ''fallback_rules'') (\<lambda>fb.
     Inr \<lparr>pe_users = users, pe_groups = groups,
          pe_clients = foldl (\<lambda>m c. m(pc_ID c \<mapsto> \<lparr>cc_id = pc_ID c, cc_enabled = pc_Enabled c,
                                                  cc_defaultGroupIDs = pc_DefaultGroupIDs c\<rparr>))
                         Map.empty (in_Clients inp),
          pe_fallback = fb, pe_limits = compileLimits (in_Limits inp)\<rparr>)))"

end
