(* ===== verification/First_Match.thy ===== *)
theory First_Match
  imports Taclab_Prelude
begin

text \<open>
  The interface of a rule walk: rules are tried in order, each attempt leaves a note (a trace
  step), and the first rule that hits produces the outcome. The client lemmas say that the
  outcome is that of \<open>find\<close>, that a walk over an appended list is two walks, and that
  whatever every note keeps, the walk keeps.
\<close>

locale first_match =
  fixes walk :: "'r list \<Rightarrow> 't \<Rightarrow> 't \<times> 'o option"
    and hit :: "'r \<Rightarrow> bool"
    and remark :: "'r \<Rightarrow> 't \<Rightarrow> 't"
    and outcome :: "'r \<Rightarrow> 't \<Rightarrow> 'o"
  assumes walk_Nil: "walk [] t = (t, None)"
    and walk_hit: "hit r \<Longrightarrow> walk (r # rs) t = (remark r t, Some (outcome r (remark r t)))"
    and walk_miss: "\<not> hit r \<Longrightarrow> walk (r # rs) t = walk rs (remark r t)"
begin

lemma walk_find:
  "snd (walk rs t) = None \<longleftrightarrow> find hit rs = None"
proof (induction rs arbitrary: t)
  case (Cons r rs)
  then show ?case by (cases "hit r") (simp_all add: walk_hit walk_miss)
qed (simp add: walk_Nil)

lemma walk_outcome:
  "(\<And>r t t'. f (outcome r t) = f (outcome r t')) \<Longrightarrow>
     map_option f (snd (walk rs t)) = map_option (\<lambda>r. f (outcome r t0)) (find hit rs)"
proof (induction rs arbitrary: t)
  case (Cons r rs)
  then show ?case by (cases "hit r") (simp_all add: walk_hit walk_miss)
qed (simp add: walk_Nil)

lemma walk_trace_inv:
  "(\<And>r t. P t \<Longrightarrow> P (remark r t)) \<Longrightarrow> P t \<Longrightarrow> P (fst (walk rs t))"
proof (induction rs arbitrary: t)
  case (Cons r rs)
  then show ?case by (cases "hit r") (simp_all add: walk_hit walk_miss)
qed (simp add: walk_Nil)

lemma walk_outcome_inv:
  "(\<And>r t. P t \<Longrightarrow> P (remark r t)) \<Longrightarrow> (\<And>r t. P t \<Longrightarrow> Q (outcome r t)) \<Longrightarrow> P t \<Longrightarrow>
     pred_option Q (snd (walk rs t))"
proof (induction rs arbitrary: t)
  case (Cons r rs)
  then show ?case by (cases "hit r") (simp_all add: walk_hit walk_miss)
qed (simp add: walk_Nil)

lemma walk_append:
  "walk (a @ b) t = (case walk a t of (t', Some x) \<Rightarrow> (t', Some x) | (t', None) \<Rightarrow> walk b t')"
proof (induction a arbitrary: t)
  case (Cons r rs)
  then show ?case by (cases "hit r") (simp_all add: walk_hit walk_miss)
qed (simp add: walk_Nil)

end

text \<open>The first hit is a member of the list and nothing before it hits.\<close>

lemma find_Some_split:
  "find P xs = Some x \<Longrightarrow> \<exists>pre post. xs = pre @ x # post \<and> P x \<and> \<not> list_ex P pre"
proof (induction xs)
  case (Cons y ys)
  show ?case
  proof (cases "P y")
    case True
    with Cons.prems show ?thesis by (intro exI [of _ "[]"] exI [of _ ys]) simp
  next
    case False
    with Cons obtain pre post where "ys = pre @ x # post" "P x" "\<not> list_ex P pre" by auto
    with False show ?thesis by (intro exI [of _ "y # pre"] exI [of _ post]) simp
  qed
qed simp

lemma find_None_list_ex: "find P xs = None \<longleftrightarrow> \<not> list_ex P xs"
  by (induction xs) auto

end
