(* ===== verification/Policy_Evaluate.thy ===== *)
theory Policy_Evaluate
  imports Policy_Engine First_Match
begin

text \<open>
  Evaluation of an authorization request (\<open>internal/policy/evaluate.go\<close>, \<open>response.go\<close>
  and \<open>effectiveGroups\<close> of \<open>compile.go\<close>), and its specification: the first matching rule of
  one ordered list of rules decides, and nothing else can permit.
\<close>

definition buildReply :: "AuthorDecision \<Rightarrow> AVPairs \<Rightarrow> limits \<Rightarrow> Error + AVPairs" where
  "buildReply action reply lim =
     (if action = DecisionDeny \<or> length reply = 0 then Inr []
      else if pl_maxArgs lim > 0 \<and> int (length reply) > pl_maxArgs lim
      then Inl (NewError CodeInvalidArgument ''authorization response exceeds max_authorization_arguments'')
      else rmap (\<lambda>p.
             rbind (AVPair_Validate p) (\<lambda>_.
             if pl_maxArgBytes lim > 0 \<and> int (EncodedLen p) > pl_maxArgBytes lim
             then Inl (NewError CodeInvalidArgument ''authorization argument exceeds max_argument_bytes'')
             else Inr p)) reply)"

definition errorResult :: "Trace \<Rightarrow> string \<Rightarrow> PolicyResult" where
  "errorResult tr reason =
     \<lparr>res_Decision = DecisionUnset, res_Status = StError, res_Arguments = [],
      res_Trace = tr\<lparr>tr_DefaultDeny := '''', tr_Error := reason, tr_Winner := None, tr_Decision := '''',
                     tr_Status := AuthorStatus_String StError, tr_Arguments := []\<rparr>\<rparr>"

definition finish :: "Trace \<Rightarrow> AuthorDecision \<Rightarrow> AVPairs \<Rightarrow> limits \<Rightarrow> PolicyResult" where
  "finish tr action reply lim =
     (case buildReply action reply lim of
        Inl err \<Rightarrow> errorResult tr (Error_Error err)
      | Inr avs \<Rightarrow>
          \<lparr>res_Decision = action, res_Status = WireStatus action, res_Arguments = avs,
           res_Trace = tr\<lparr>tr_Decision := AuthorDecision_String action,
                          tr_Status := AuthorStatus_String (WireStatus action),
                          tr_Arguments := traceAVs avs\<rparr>\<rparr>)"

definition zero_limits :: limits where
  "zero_limits = \<lparr>pl_maxArgs = 0, pl_maxArgBytes = 0, pl_maxCmdBytes = 0, pl_maxTraceSteps = 0\<rparr>"

definition denyResult :: "Trace \<Rightarrow> string \<Rightarrow> PolicyResult" where
  "denyResult tr reason =
     finish (tr\<lparr>tr_DefaultDeny := reason, tr_Winner := None\<rparr>) DecisionDeny [] zero_limits"

definition matchedResult ::
  "Trace \<Rightarrow> string \<Rightarrow> string \<Rightarrow> AuthorDecision \<Rightarrow> AVPairs \<Rightarrow> limits \<Rightarrow> PolicyResult" where
  "matchedResult tr source ruleID action reply lim =
     finish (tr\<lparr>tr_Winner := Some \<lparr>tw_Source = source, tw_RuleID = ruleID,
                                    tw_Action = AuthorDecision_String action\<rparr>,
                tr_DefaultDeny := ''''\<rparr>) action reply lim"

definition matchService :: "compiledService \<Rightarrow> Request \<Rightarrow> bool \<times> string" where
  "matchService r req =
     (if csv_service r \<noteq> prq_Service req then (False, ''service mismatch'')
      else case csv_protocol r of
        None \<Rightarrow> (True, ''matched'')
      | Some pr \<Rightarrow> if pr \<noteq> '''' \<and> pr \<noteq> prq_Protocol req then (False, ''protocol mismatch'')
                   else (True, ''matched''))"

definition matchCommand :: "('re \<Rightarrow> string \<Rightarrow> bool) \<Rightarrow> 're compiledCommand \<Rightarrow> Request \<Rightarrow> bool \<times> string" where
  "matchCommand reMatch r req =
     (if \<not> matcher_match reMatch (ccm_command r) (prq_Cmd req) then (False, ''command mismatch'')
      else if \<not> matcher_match reMatch (ccm_args r) (joinArgs (prq_CmdArgs req))
      then (False, ''arguments mismatch'')
      else (True, ''matched''))"

definition record_step :: "limits \<Rightarrow> Trace \<Rightarrow> TraceStep \<Rightarrow> Trace" where
  "record_step lim tr step =
     (if int (length (tr_Steps tr)) \<ge> pl_maxTraceSteps lim then tr
      else tr\<lparr>tr_Steps := tr_Steps tr @ [step]\<rparr>)"

text \<open>\<open>walkRules\<close>: the loop over the rules of one kind; the trace grows even without a match.\<close>

fun walkServices ::
  "limits \<Rightarrow> string \<Rightarrow> compiledService list \<Rightarrow> Request \<Rightarrow> Trace \<Rightarrow> Trace \<times> PolicyResult option" where
  "walkServices lim source [] req tr = (tr, None)"
| "walkServices lim source (r # rs) req tr =
     (let (matched, reason) = matchService r req;
          tr = record_step lim tr \<lparr>ts_Source = source, ts_RuleID = csv_id r,
                 ts_Kind = RuleKind_string RuleKindService, ts_Matched = matched, ts_Reason = reason\<rparr>
      in if matched then (tr, Some (matchedResult tr source (csv_id r) (csv_action r) (csv_reply r) lim))
         else walkServices lim source rs req tr)"

fun walkCommands ::
  "('re \<Rightarrow> string \<Rightarrow> bool) \<Rightarrow> limits \<Rightarrow> string \<Rightarrow> 're compiledCommand list \<Rightarrow> Request \<Rightarrow> Trace
     \<Rightarrow> Trace \<times> PolicyResult option" where
  "walkCommands reMatch lim source [] req tr = (tr, None)"
| "walkCommands reMatch lim source (r # rs) req tr =
     (let (matched, reason) = matchCommand reMatch r req;
          reason = (if matched \<and> ccm_reason r \<noteq> '''' then ccm_reason r else reason);
          tr = record_step lim tr \<lparr>ts_Source = source, ts_RuleID = ccm_id r,
                 ts_Kind = RuleKind_string RuleKindCommand, ts_Matched = matched, ts_Reason = reason\<rparr>
      in if matched then (tr, Some (matchedResult tr source (ccm_id r) (ccm_action r) [] lim))
         else walkCommands reMatch lim source rs req tr)"

definition walkRules ::
  "('re \<Rightarrow> string \<Rightarrow> bool) \<Rightarrow> limits \<Rightarrow> string \<Rightarrow> 're compiledRuleSet \<Rightarrow> Request \<Rightarrow> RuleKind \<Rightarrow> Trace
     \<Rightarrow> Trace \<times> PolicyResult option" where
  "walkRules reMatch lim source rs req kind tr =
     (case kind of
        RuleKindService \<Rightarrow> walkServices lim source (crs_services rs) req tr
      | RuleKindCommand \<Rightarrow> walkCommands reMatch lim source (crs_commands rs) req tr)"

text \<open>The ids of \<open>effectiveGroups\<close>: in order, without empty ids and without repetitions.\<close>

fun addIDs :: "string list \<Rightarrow> string list \<Rightarrow> string list" where
  "addIDs ids [] = ids"
| "addIDs ids (x # xs) =
     (if x = '''' then addIDs ids xs
      else if x \<in> set ids then addIDs ids xs
      else addIDs (ids @ [x]) xs)"

definition groupRank :: "'re compiledGroup \<Rightarrow> int \<times> string" where
  "groupRank g = (cg_priority g, cg_id g)"

definition effectiveGroups :: "'re PolicyEngine \<Rightarrow> 're compiledUser \<Rightarrow> string \<Rightarrow> 're compiledGroup list" where
  "effectiveGroups e u clientID =
     (let ids = addIDs [] (cu_groupIDs u);
          ids = (case pe_clients e clientID of
                   Some c \<Rightarrow> if cc_enabled c then addIDs ids (cc_defaultGroupIDs c) else ids
                 | None \<Rightarrow> ids)
      in sort_key groupRank
           (concat (map (\<lambda>i. case pe_groups e i of
                              None \<Rightarrow> []
                            | Some g \<Rightarrow> if cg_enabled g then [g] else []) ids)))"

definition newTrace :: "limits \<Rightarrow> RuleKind \<Rightarrow> Request \<Rightarrow> 're compiledGroup list \<Rightarrow> Trace" where
  "newTrace lim kind req groups =
     (let display = displayCommand (prq_Cmd req) (prq_CmdArgs req);
          display = (if pl_maxCmdBytes lim > 0 \<and> int (length display) > pl_maxCmdBytes lim
                     then take (nat (pl_maxCmdBytes lim)) display else display)
      in zero_Trace\<lparr>tr_Evaluator := RuleKind_string kind, tr_UserID := prq_UserID req,
           tr_ClientID := prq_ClientID req, tr_Service := prq_Service req, tr_Protocol := prq_Protocol req,
           tr_Cmd := prq_Cmd req, tr_CmdArgs := prq_CmdArgs req, tr_DisplayCmd := display,
           tr_RequestArguments := traceAVs (prq_Arguments req),
           tr_AuthenMethod := AuthenMethod_String (prq_AuthenMethod req), tr_Privilege := prq_Privilege req,
           tr_EffectiveGroupIDs := map cg_id groups\<rparr>)"

definition policy_normalize :: "Request \<Rightarrow> Request" where
  "policy_normalize req =
     (case extractFromAVs (prq_Arguments req) of
        (svc, proto, cmd, cmdPresent, args) \<Rightarrow>
          req\<lparr>prq_Service := (if prq_Service req = '''' then svc else prq_Service req),
              prq_Protocol := (if prq_Protocol req = '''' then proto else prq_Protocol req),
              prq_Cmd := (if prq_Cmd req = '''' \<and> cmdPresent then cmd else prq_Cmd req),
              prq_CmdArgs := (if prq_CmdArgs req = [] \<and> args \<noteq> [] then args else prq_CmdArgs req)\<rparr>)"

definition commandKey :: "Request \<Rightarrow> string" where
  "commandKey req = prq_Cmd req"

text \<open>
  The engine holds a clock function (\<open>Now\<close> of the compilation input; the manager passes its own clock)
  and \<open>userValid\<close> calls it in every evaluation. The reading is the argument \<open>now\<close> of the
  evaluation, \<open>None\<close> for the zero time; it is not part of the compiled engine.
\<close>

definition userValid :: "int option \<Rightarrow> 're compiledUser \<Rightarrow> bool" where
  "userValid reading u =
     (case reading of
        None \<Rightarrow> True
      | Some now \<Rightarrow>
          \<not> (case cu_validAfter u of None \<Rightarrow> False | Some t \<Rightarrow> now < t) \<and>
          \<not> (case cu_validBefore u of None \<Rightarrow> False | Some t \<Rightarrow> \<not> now < t))"

definition clientAllowed :: "'re compiledUser \<Rightarrow> string \<Rightarrow> bool" where
  "clientAllowed u clientID =
     (if cu_clientIDs u = [] then True
      else if clientID = '''' then False
      else clientID \<in> set (cu_clientIDs u))"

fun walkGroups ::
  "('re \<Rightarrow> string \<Rightarrow> bool) \<Rightarrow> limits \<Rightarrow> 're compiledGroup list \<Rightarrow> Request \<Rightarrow> RuleKind \<Rightarrow> Trace
     \<Rightarrow> Trace \<times> PolicyResult option" where
  "walkGroups reMatch lim [] req kind tr = (tr, None)"
| "walkGroups reMatch lim (g # gs) req kind tr =
     (case walkRules reMatch lim (''group:'' @ cg_id g) (cg_rules g) req kind tr of
        (tr, Some res) \<Rightarrow> (tr, Some res)
      | (tr, None) \<Rightarrow> walkGroups reMatch lim gs req kind tr)"

definition evaluate ::
  "('re \<Rightarrow> string \<Rightarrow> bool) \<Rightarrow> int option \<Rightarrow> 're PolicyEngine \<Rightarrow> Request \<Rightarrow> RuleKind \<Rightarrow> PolicyResult" where
  "evaluate reMatch now e req kind =
     (let lim = pe_limits e
      in case pe_users e (prq_UserID req) of
           None \<Rightarrow> denyResult (newTrace lim kind req ([] :: 're compiledGroup list)) ''user not found''
         | Some u \<Rightarrow>
             (let groups = (if cu_enabled u then effectiveGroups e u (prq_ClientID req) else []);
                  tr = newTrace lim kind req groups
              in if \<not> cu_enabled u then denyResult tr ''user disabled''
                 else if \<not> userValid now u then denyResult tr ''user not valid at evaluation time''
                 else if \<not> clientAllowed u (prq_ClientID req) then denyResult tr ''user not permitted on client''
                 else (case walkRules reMatch lim ''user'' (cu_rules u) req kind tr of
                         (tr, Some res) \<Rightarrow> res
                       | (tr, None) \<Rightarrow>
                           (case walkGroups reMatch lim groups req kind tr of
                              (tr, Some res) \<Rightarrow> res
                            | (tr, None) \<Rightarrow>
                                (case walkRules reMatch lim ''fallback'' (pe_fallback e) req kind tr of
                                   (tr, Some res) \<Rightarrow> res
                                 | (tr, None) \<Rightarrow>
                                     denyResult tr (''no matching '' @ RuleKind_string kind @ '' rule''))))))"

text \<open>The engine pointer may be nil.\<close>

definition Authorize :: "('re \<Rightarrow> string \<Rightarrow> bool) \<Rightarrow> int option \<Rightarrow> 're PolicyEngine option \<Rightarrow> Request \<Rightarrow> PolicyResult" where
  "Authorize reMatch now eo req =
     (case eo of
        None \<Rightarrow> errorResult zero_Trace ''policy engine is not compiled''
      | Some e \<Rightarrow>
          (let req = policy_normalize req
           in if commandKey req \<noteq> '''' then evaluate reMatch now e req RuleKindCommand
              else evaluate reMatch now e req RuleKindService))"

definition EvaluateService :: "('re \<Rightarrow> string \<Rightarrow> bool) \<Rightarrow> int option \<Rightarrow> 're PolicyEngine option \<Rightarrow> Request \<Rightarrow> PolicyResult" where
  "EvaluateService reMatch now eo req =
     (case eo of
        None \<Rightarrow> errorResult zero_Trace ''policy engine is not compiled''
      | Some e \<Rightarrow>
          (let req = policy_normalize req
           in if commandKey req \<noteq> ''''
              then denyResult (newTrace (pe_limits e) RuleKindService req ([] :: 're compiledGroup list))
                     ''service evaluator does not authorize commands''
              else evaluate reMatch now e req RuleKindService))"

definition EvaluateCommand :: "('re \<Rightarrow> string \<Rightarrow> bool) \<Rightarrow> int option \<Rightarrow> 're PolicyEngine option \<Rightarrow> Request \<Rightarrow> PolicyResult" where
  "EvaluateCommand reMatch now eo req =
     (case eo of
        None \<Rightarrow> errorResult zero_Trace ''policy engine is not compiled''
      | Some e \<Rightarrow>
          (let req = policy_normalize req
           in if commandKey req = ''''
              then denyResult (newTrace (pe_limits e) RuleKindCommand req ([] :: 're compiledGroup list))
                     ''command evaluator does not decide session requests''
              else evaluate reMatch now e req RuleKindCommand))"

subsection \<open>The walks are first-match walks\<close>

definition serviceStep :: "limits \<Rightarrow> string \<Rightarrow> Request \<Rightarrow> compiledService \<Rightarrow> Trace \<Rightarrow> Trace" where
  "serviceStep lim source req r tr =
     record_step lim tr \<lparr>ts_Source = source, ts_RuleID = csv_id r,
       ts_Kind = RuleKind_string RuleKindService, ts_Matched = fst (matchService r req),
       ts_Reason = snd (matchService r req)\<rparr>"

definition commandStep ::
  "('re \<Rightarrow> string \<Rightarrow> bool) \<Rightarrow> limits \<Rightarrow> string \<Rightarrow> Request \<Rightarrow> 're compiledCommand \<Rightarrow> Trace \<Rightarrow> Trace" where
  "commandStep reMatch lim source req r tr =
     record_step lim tr \<lparr>ts_Source = source, ts_RuleID = ccm_id r,
       ts_Kind = RuleKind_string RuleKindCommand, ts_Matched = fst (matchCommand reMatch r req),
       ts_Reason = (if fst (matchCommand reMatch r req) \<and> ccm_reason r \<noteq> '''' then ccm_reason r
                    else snd (matchCommand reMatch r req))\<rparr>"

interpretation services: first_match "\<lambda>rs. walkServices lim source rs req" "\<lambda>r. fst (matchService r req)"
    "serviceStep lim source req"
    "\<lambda>r tr. matchedResult tr source (csv_id r) (csv_action r) (csv_reply r) lim" for lim source req
  by unfold_locales (auto simp: serviceStep_def Let_def split: prod.splits)

interpretation commands: first_match "\<lambda>rs. walkCommands reMatch lim source rs req"
    "\<lambda>r. fst (matchCommand reMatch r req)" "commandStep reMatch lim source req"
    "\<lambda>r tr. matchedResult tr source (ccm_id r) (ccm_action r) [] lim" for reMatch lim source req
  by unfold_locales (auto simp: commandStep_def Let_def split: prod.splits)

subsection \<open>The specification\<close>

text \<open>A rule as the specification sees it: where it comes from, its id, its effect, whether it matches.\<close>

record cand =
  cd_source :: string
  cd_id :: string
  cd_action :: AuthorDecision
  cd_reply :: AVPairs
  cd_hit :: bool

definition candidates ::
  "('re \<Rightarrow> string \<Rightarrow> bool) \<Rightarrow> Request \<Rightarrow> RuleKind \<Rightarrow> string \<Rightarrow> 're compiledRuleSet \<Rightarrow> cand list" where
  "candidates reMatch req kind source rs =
     (case kind of
        RuleKindService \<Rightarrow>
          map (\<lambda>r. \<lparr>cd_source = source, cd_id = csv_id r, cd_action = csv_action r,
                    cd_reply = csv_reply r, cd_hit = fst (matchService r req)\<rparr>) (crs_services rs)
      | RuleKindCommand \<Rightarrow>
          map (\<lambda>r. \<lparr>cd_source = source, cd_id = ccm_id r, cd_action = ccm_action r,
                    cd_reply = [], cd_hit = fst (matchCommand reMatch r req)\<rparr>) (crs_commands rs))"

definition ruleOrder ::
  "('re \<Rightarrow> string \<Rightarrow> bool) \<Rightarrow> 're PolicyEngine \<Rightarrow> Request \<Rightarrow> RuleKind \<Rightarrow> 're compiledUser \<Rightarrow> cand list" where
  "ruleOrder reMatch e req kind u =
     candidates reMatch req kind ''user'' (cu_rules u)
     @ concat (map (\<lambda>g. candidates reMatch req kind (''group:'' @ cg_id g) (cg_rules g))
                 (effectiveGroups e u (prq_ClientID req)))
     @ candidates reMatch req kind ''fallback'' (pe_fallback e)"

definition admitted :: "int option \<Rightarrow> Request \<Rightarrow> 're compiledUser \<Rightarrow> bool" where
  "admitted now req u \<longleftrightarrow> cu_enabled u \<and> userValid now u \<and> clientAllowed u (prq_ClientID req)"

definition verdict :: "PolicyResult \<Rightarrow> AuthorDecision \<times> AuthorStatus \<times> AVPairs" where
  "verdict r = (res_Decision r, res_Status r, res_Arguments r)"

definition ruleEffect :: "limits \<Rightarrow> AuthorDecision \<Rightarrow> AVPairs \<Rightarrow> AuthorDecision \<times> AuthorStatus \<times> AVPairs" where
  "ruleEffect lim action reply =
     (case buildReply action reply lim of
        Inl _ \<Rightarrow> (DecisionUnset, StError, [])
      | Inr avs \<Rightarrow> (action, WireStatus action, avs))"

definition ruleVerdict :: "limits \<Rightarrow> cand \<Rightarrow> AuthorDecision \<times> AuthorStatus \<times> AVPairs" where
  "ruleVerdict lim c = ruleEffect lim (cd_action c) (cd_reply c)"

definition specVerdict ::
  "('re \<Rightarrow> string \<Rightarrow> bool) \<Rightarrow> int option \<Rightarrow> 're PolicyEngine \<Rightarrow> Request \<Rightarrow> RuleKind
     \<Rightarrow> AuthorDecision \<times> AuthorStatus \<times> AVPairs" where
  "specVerdict reMatch now e req kind =
     (case pe_users e (prq_UserID req) of
        None \<Rightarrow> (DecisionDeny, StFail, [])
      | Some u \<Rightarrow>
          if \<not> admitted now req u then (DecisionDeny, StFail, [])
          else (case find cd_hit (ruleOrder reMatch e req kind u) of
                  None \<Rightarrow> (DecisionDeny, StFail, [])
                | Some c \<Rightarrow> ruleVerdict (pe_limits e) c))"

subsection \<open>Walks against the specification\<close>

lemma buildReply_deny: "buildReply DecisionDeny reply lim = Inr []"
  by (simp add: buildReply_def)

lemma verdict_deny [simp]: "verdict (denyResult tr reason) = (DecisionDeny, StFail, [])"
  by (simp add: verdict_def denyResult_def finish_def buildReply_deny WireStatus_def)

lemma verdict_matched: "verdict (matchedResult tr source i action reply lim) = ruleEffect lim action reply"
  by (simp add: verdict_def matchedResult_def finish_def ruleEffect_def errorResult_def split: sum.splits)

lemma walkRules_spec:
  "map_option verdict (snd (walkRules reMatch lim source rs req kind tr)) =
     map_option (ruleVerdict lim) (find cd_hit (candidates reMatch req kind source rs))"
proof (cases kind)
  case RuleKindService
  have "map_option verdict (snd (walkServices lim source (crs_services rs) req tr)) =
     map_option (\<lambda>r. verdict (matchedResult zero_Trace source (csv_id r) (csv_action r) (csv_reply r) lim))
       (find (\<lambda>r. fst (matchService r req)) (crs_services rs))"
    by (rule services.walk_outcome) (simp add: verdict_matched)
  with RuleKindService show ?thesis
    by (simp add: walkRules_def candidates_def find_map option.map_comp comp_def
        verdict_matched ruleVerdict_def)
next
  case RuleKindCommand
  have "map_option verdict (snd (walkCommands reMatch lim source (crs_commands rs) req tr)) =
     map_option (\<lambda>r. verdict (matchedResult zero_Trace source (ccm_id r) (ccm_action r) [] lim))
       (find (\<lambda>r. fst (matchCommand reMatch r req)) (crs_commands rs))"
    by (rule commands.walk_outcome) (simp add: verdict_matched)
  with RuleKindCommand show ?thesis
    by (simp add: walkRules_def candidates_def find_map option.map_comp comp_def
        verdict_matched ruleVerdict_def)
qed

lemma walkGroups_spec:
  "map_option verdict (snd (walkGroups reMatch lim gs req kind tr)) =
     map_option (ruleVerdict lim)
       (find cd_hit (concat (map (\<lambda>g. candidates reMatch req kind (''group:'' @ cg_id g) (cg_rules g)) gs)))"
proof (induction gs arbitrary: tr)
  case (Cons g gs)
  show ?case
    using Cons walkRules_spec [of reMatch lim "''group:'' @ cg_id g" "cg_rules g" req kind tr]
    by (auto simp: find_append split: prod.splits option.splits)
qed simp

subsection \<open>Group order and compiled order\<close>

lemma addIDs_props:
  "distinct ids \<Longrightarrow> '''' \<notin> set ids \<Longrightarrow>
     distinct (addIDs ids xs) \<and> '''' \<notin> set (addIDs ids xs) \<and>
     set (addIDs ids xs) = set ids \<union> (set xs - {''''})"
  by (induction ids xs rule: addIDs.induct) auto

definition groupsNamed :: "'re PolicyEngine \<Rightarrow> bool" where
  "groupsNamed e \<longleftrightarrow> (\<forall>i g. pe_groups e i = Some g \<longrightarrow> cg_id g = i)"

lemma concat_groups_ids:
  assumes "groupsNamed e" and "distinct ids"
  shows "distinct (map cg_id (concat (map (\<lambda>i. case pe_groups e i of None \<Rightarrow> []
           | Some g \<Rightarrow> if cg_enabled g then [g] else []) ids)))"
  using assms(2)
proof (induction ids)
  case (Cons i ids)
  have "cg_id ` set (concat (map (\<lambda>i. case pe_groups e i of None \<Rightarrow> []
           | Some g \<Rightarrow> if cg_enabled g then [g] else []) ids)) \<subseteq> set ids"
    using assms(1) by (auto simp: groupsNamed_def split: option.splits if_splits)
  with Cons show ?case
    using assms(1) by (auto simp: groupsNamed_def split: option.splits)
qed simp

lemma distinct_map_sort_key: "distinct (map f (sort_key k xs)) = distinct (map f xs)"
  by (metis distinct_map distinct_sort set_sort)

lemma set_concat_groups:
  assumes "groupsNamed e"
  shows "set (concat (map (\<lambda>i. case pe_groups e i of None \<Rightarrow> []
           | Some g \<Rightarrow> if cg_enabled g then [g] else []) ids)) =
     {g. cg_enabled g \<and> pe_groups e (cg_id g) = Some g \<and> cg_id g \<in> set ids}"
  using assms by (induction ids) (auto simp: groupsNamed_def split: option.splits if_splits)

lemma map_insort_key: "map f (insort_key (\<lambda>x. k (f x)) x ys) = insort_key k (f x) (map f ys)"
  by (induction ys) auto

lemma map_sort_key: "map f (sort_key (\<lambda>x. k (f x)) xs) = sort_key k (map f xs)"
  by (induction xs) (simp_all add: map_insort_key)

text \<open>Compiling indexes every group under its own id.\<close>

lemma compileGroups_named:
  "compileGroups reCompile isIP tzdb i gs m = Inr m' \<Longrightarrow> (\<And>k g. m k = Some g \<Longrightarrow> cg_id g = k) \<Longrightarrow>
     m' k = Some g \<Longrightarrow> cg_id g = k"
proof (induction gs arbitrary: i m)
  case (Cons x gs)
  from Cons.prems(1) obtain rules where
    "compileGroups reCompile isIP tzdb (i + 1) gs
       (m(pg_ID x \<mapsto> \<lparr>cg_id = pg_ID x, cg_enabled = pg_Enabled x, cg_priority = pg_Priority x,
                       cg_rules = rules\<rparr>)) = Inr m'"
    by (auto simp: result_simps)
  from Cons.IH [OF this _ Cons.prems(3)] show ?case using Cons.prems(2) by (force split: if_splits)
qed auto

lemma Compile_groupsNamed: "Compile reCompile isIP tzdb inp = Inr e \<Longrightarrow> groupsNamed e"
  by (auto simp: Compile_def result_simps groupsNamed_def dest!: compileGroups_named)

lemma compileRuleSet_commands:
  "compileRuleSet reCompile isIP tzdb rs path = Inr c \<Longrightarrow>
     \<exists>cs. compileCommands reCompile path 0 (rs_CommandRules rs) = Inr cs \<and>
          crs_commands c = sort_key commandRank cs"
  by (auto simp: compileRuleSet_def result_simps)

lemma compileCommands_ids:
  "compileCommands reCompile path i rs = Inr cs \<Longrightarrow>
     map (\<lambda>c. (ccm_id c, ccm_priority c, ccm_action c)) cs = map (\<lambda>r. (cr_ID r, cr_Priority r, cr_Action r)) rs"
  by (induction rs arbitrary: i cs) (auto simp: result_simps)

subsection \<open>Traces and replies stay bounded\<close>

definition traceOk :: "limits \<Rightarrow> Trace \<Rightarrow> bool" where
  "traceOk lim tr \<longleftrightarrow> int (length (tr_Steps tr)) \<le> max 0 (pl_maxTraceSteps lim)"

lemma record_step_ok: "traceOk lim tr \<Longrightarrow> traceOk lim (record_step lim tr st)"
  by (auto simp: traceOk_def record_step_def)

lemma newTrace_ok: "traceOk lim (newTrace lim kind req gs)"
  by (simp add: traceOk_def newTrace_def zero_Trace_def Let_def)

lemma walkRules_trace: "traceOk lim tr \<Longrightarrow> traceOk lim (fst (walkRules reMatch lim source rs req kind tr))"
  by (cases kind)
    (simp_all add: walkRules_def services.walk_trace_inv [where P = "traceOk lim"]
      commands.walk_trace_inv [where P = "traceOk lim"] serviceStep_def commandStep_def record_step_ok)

definition resultOk :: "limits \<Rightarrow> PolicyResult \<Rightarrow> bool" where
  "resultOk lim r \<longleftrightarrow>
     traceOk lim (res_Trace r) \<and> res_Status r \<noteq> StFollow \<and>
     int (length (res_Arguments r)) \<le> max 0 (pl_maxArgs lim) \<and>
     list_all (\<lambda>p. AVPair_Validate p = Inr () \<and> int (EncodedLen p) \<le> max 0 (pl_maxArgBytes lim))
       (res_Arguments r) \<and>
     (res_Status r = StFail \<longrightarrow> res_Arguments r = [])"

lemma buildReply_Inr:
  assumes "buildReply action reply lim = Inr avs" and "0 < pl_maxArgs lim" and "0 < pl_maxArgBytes lim"
  shows "int (length avs) \<le> pl_maxArgs lim \<and>
     list_all (\<lambda>p. AVPair_Validate p = Inr () \<and> int (EncodedLen p) \<le> pl_maxArgBytes lim) avs \<and>
     (action = DecisionDeny \<longrightarrow> avs = [])"
proof (cases "action = DecisionDeny \<or> length reply = 0")
  case True
  with assms show ?thesis by (auto simp: buildReply_def)
next
  case False
  define f where "f = (\<lambda>p. rbind (AVPair_Validate p) (\<lambda>_.
      if int (EncodedLen p) > pl_maxArgBytes lim
      then Inl (NewError CodeInvalidArgument ''authorization argument exceeds max_argument_bytes'')
      else Inr p))"
  have r: "rmap f reply = Inr avs" "int (length reply) \<le> pl_maxArgs lim"
    using assms False by (auto simp: buildReply_def f_def split: if_splits)
  have "list_all2 (\<lambda>p q. q = p \<and> AVPair_Validate p = Inr () \<and> int (EncodedLen p) \<le> pl_maxArgBytes lim) reply avs"
    using r(1) unfolding rmap_eq_Inr
    by (rule list_all2_mono) (auto simp: f_def result_simps split: if_splits)
  then have "list_all (\<lambda>p. AVPair_Validate p = Inr () \<and> int (EncodedLen p) \<le> pl_maxArgBytes lim) avs"
    by (induction rule: list_all2_induct) auto
  with r False length_rmap [OF r(1)] show ?thesis by auto
qed

lemma evaluate_verdict: "verdict (evaluate reMatch now e req kind) = specVerdict reMatch now e req kind"
proof (cases "pe_users e (prq_UserID req)")
  case None
  then show ?thesis by (simp add: evaluate_def specVerdict_def)
next
  case (Some u)
  show ?thesis
  proof (cases "admitted now req u")
    case False
    with Some show ?thesis by (auto simp: evaluate_def specVerdict_def admitted_def Let_def)
  next
    case True
    let ?lim = "pe_limits e" and ?gs = "effectiveGroups e u (prq_ClientID req)"
    let ?t0 = "newTrace ?lim kind req ?gs"
    obtain t1 r1 where w1: "walkRules reMatch ?lim ''user'' (cu_rules u) req kind ?t0 = (t1, r1)" by fastforce
    obtain t2 r2 where w2: "walkGroups reMatch ?lim ?gs req kind t1 = (t2, r2)" by fastforce
    obtain t3 r3 where w3: "walkRules reMatch ?lim ''fallback'' (pe_fallback e) req kind t2 = (t3, r3)" by fastforce
    have "verdict (evaluate reMatch now e req kind) =
        (case r1 of Some r \<Rightarrow> verdict r | None \<Rightarrow>
          (case r2 of Some r \<Rightarrow> verdict r | None \<Rightarrow>
            (case r3 of Some r \<Rightarrow> verdict r | None \<Rightarrow> (DecisionDeny, StFail, []))))"
      using Some True w1 w2 w3
      by (simp add: evaluate_def admitted_def Let_def split: option.splits)
    then show ?thesis
      using Some True walkRules_spec [of reMatch ?lim "''user''" "cu_rules u" req kind ?t0]
        walkGroups_spec [of reMatch ?lim ?gs req kind t1]
        walkRules_spec [of reMatch ?lim "''fallback''" "pe_fallback e" req kind t2] w1 w2 w3
      by (auto simp: specVerdict_def ruleOrder_def find_append split: option.splits)
  qed
qed

lemma walkRules_resultOk:
  assumes "0 < pl_maxArgs lim" "0 < pl_maxArgBytes lim" "traceOk lim tr"
  shows "pred_option (resultOk lim) (snd (walkRules reMatch lim source rs req kind tr))"
proof -
  have m: "traceOk lim t \<Longrightarrow> resultOk lim (matchedResult t source i action reply lim)" for t i action reply
    using buildReply_Inr [of action reply lim] assms
    by (auto simp: matchedResult_def finish_def resultOk_def traceOk_def errorResult_def WireStatus_def
        max_def split: sum.splits AuthorDecision.splits)
  show ?thesis
    using assms(3) m
    by (cases kind)
      (auto simp: walkRules_def serviceStep_def commandStep_def record_step_ok
        intro!: services.walk_outcome_inv [where P = "traceOk lim"]
          commands.walk_outcome_inv [where P = "traceOk lim"])
qed

lemma walkGroups_resultOk:
  assumes "0 < pl_maxArgs lim" "0 < pl_maxArgBytes lim"
  shows "traceOk lim tr \<Longrightarrow>
     traceOk lim (fst (walkGroups reMatch lim gs req kind tr)) \<and>
     pred_option (resultOk lim) (snd (walkGroups reMatch lim gs req kind tr))"
proof (induction gs arbitrary: tr)
  case (Cons g gs)
  obtain t1 r1 where w: "walkRules reMatch lim (''group:'' @ cg_id g) (cg_rules g) req kind tr = (t1, r1)"
    by fastforce
  have "traceOk lim t1" "pred_option (resultOk lim) r1"
    using walkRules_trace [OF Cons.prems, of reMatch "''group:'' @ cg_id g" "cg_rules g" req kind]
      walkRules_resultOk [OF assms Cons.prems, of reMatch "''group:'' @ cg_id g" "cg_rules g" req kind] w
    by auto
  with w Cons.IH [of t1] show ?case by (cases r1) simp_all
qed simp

lemma denyResult_ok: "traceOk lim tr \<Longrightarrow> resultOk lim (denyResult tr reason)"
  by (simp add: denyResult_def finish_def buildReply_deny resultOk_def traceOk_def WireStatus_def)

lemma evaluate_resultOk:
  assumes "0 < pl_maxArgs (pe_limits e)" "0 < pl_maxArgBytes (pe_limits e)"
  shows "resultOk (pe_limits e) (evaluate reMatch now e req kind)"
proof (cases "pe_users e (prq_UserID req)")
  case None
  then show ?thesis by (simp add: evaluate_def denyResult_ok newTrace_ok)
next
  case (Some u)
  let ?lim = "pe_limits e" and ?gs = "effectiveGroups e u (prq_ClientID req)"
  let ?t0 = "newTrace ?lim kind req ?gs"
  obtain t1 r1 where w1: "walkRules reMatch ?lim ''user'' (cu_rules u) req kind ?t0 = (t1, r1)" by fastforce
  obtain t2 r2 where w2: "walkGroups reMatch ?lim ?gs req kind t1 = (t2, r2)" by fastforce
  obtain t3 r3 where w3: "walkRules reMatch ?lim ''fallback'' (pe_fallback e) req kind t2 = (t3, r3)" by fastforce
  have t1: "traceOk ?lim t1" "pred_option (resultOk ?lim) r1"
    using walkRules_trace [of ?lim ?t0 reMatch "''user''" "cu_rules u" req kind]
      walkRules_resultOk [of ?lim ?t0 reMatch "''user''" "cu_rules u" req kind] assms newTrace_ok w1
    by auto
  have t2: "traceOk ?lim t2" "pred_option (resultOk ?lim) r2"
    using walkGroups_resultOk [OF assms t1(1), of reMatch ?gs req kind] w2 by auto
  have t3: "traceOk ?lim t3" "pred_option (resultOk ?lim) r3"
    using walkRules_trace [OF t2(1), of reMatch "''fallback''" "pe_fallback e" req kind]
      walkRules_resultOk [OF assms t2(1), of reMatch "''fallback''" "pe_fallback e" req kind] w3
    by auto
  show ?thesis
    using Some w1 w2 w3 t1 t2 t3
    by (auto simp: evaluate_def Let_def denyResult_ok newTrace_ok split: option.splits)
qed

subsection \<open>Properties\<close>

text \<open>
  Property C26. Authorization refines its specification: the request, completed from its
  arguments, is a command request exactly when its command is not empty; an unknown user, or
  one who is disabled, outside the validity window at the time of the evaluation or not
  permitted on the client, is denied;
  otherwise the first matching rule of that kind decides, in the order user rules, rules of
  the effective groups, fallback rules; and no match is a deny.
\<close>

theorem Authorize_first_match:
  "verdict (Authorize reMatch now (Some e) req) =
     (let r = policy_normalize req
      in specVerdict reMatch now e r (if prq_Cmd r \<noteq> '''' then RuleKindCommand else RuleKindService))"
  by (simp add: Authorize_def Let_def commandKey_def evaluate_verdict)

text \<open>
  Default deny: if a request is permitted (the status is PASS_ADD or
  PASS_REPL), then the user exists, is enabled, valid now and allowed on the client, and some
  rule in the order of evaluation matches and carries exactly that permit decision, while no
  rule before it matches.
\<close>

theorem Authorize_permit_needs_rule:
  assumes "res_Status (Authorize reMatch now (Some e) req) = StPassAdd \<or>
           res_Status (Authorize reMatch now (Some e) req) = StPassRepl"
  defines "r \<equiv> policy_normalize req"
  shows "\<exists>u pre c post. pe_users e (prq_UserID r) = Some u \<and> admitted now r u \<and>
     ruleOrder reMatch e r (if prq_Cmd r \<noteq> '''' then RuleKindCommand else RuleKindService) u = pre @ c # post \<and>
     cd_hit c \<and> \<not> list_ex cd_hit pre \<and>
     cd_action c = res_Decision (Authorize reMatch now (Some e) req) \<and>
     res_Status (Authorize reMatch now (Some e) req) = WireStatus (cd_action c)"
proof -
  let ?kind = "if prq_Cmd r \<noteq> '''' then RuleKindCommand else RuleKindService"
  let ?res = "Authorize reMatch now (Some e) req"
  have v: "verdict ?res = specVerdict reMatch now e r ?kind"
    by (simp add: Authorize_def Let_def commandKey_def evaluate_verdict r_def)
  then obtain u c where u: "pe_users e (prq_UserID r) = Some u" "admitted now r u"
    and c: "find cd_hit (ruleOrder reMatch e r ?kind u) = Some c"
    and rv: "verdict ?res = ruleVerdict (pe_limits e) c"
    using assms(1) by (auto simp: specVerdict_def verdict_def split: option.splits if_splits)
  have "cd_action c = res_Decision ?res \<and> res_Status ?res = WireStatus (cd_action c)"
    using rv assms(1) by (auto simp: ruleVerdict_def ruleEffect_def verdict_def split: sum.splits)
  with find_Some_split [OF c] u show ?thesis by blast
qed

text \<open>
  The two evaluators never answer for each other: the service evaluator denies
  every request with a command and the command evaluator denies every request without one,
  whatever the rules; otherwise each is the general entry point.
\<close>

theorem evaluators_separate:
  "verdict (EvaluateService reMatch now (Some e) req) =
     (if prq_Cmd (policy_normalize req) \<noteq> '''' then (DecisionDeny, StFail, [])
      else verdict (Authorize reMatch now (Some e) req)) \<and>
   verdict (EvaluateCommand reMatch now (Some e) req) =
     (if prq_Cmd (policy_normalize req) = '''' then (DecisionDeny, StFail, [])
      else verdict (Authorize reMatch now (Some e) req))"
  by (simp add: EvaluateService_def EvaluateCommand_def Authorize_def commandKey_def Let_def)

text \<open>
  The result of a compiled policy is bounded whatever the request: the trace
  has at most the configured number of steps, the status is never FOLLOW, the reply has at
  most the configured number of arguments, each of them valid and within the configured size,
  and a denial carries no argument.
\<close>

theorem Authorize_bounded:
  assumes "Compile reCompile isIP tzdb inp = Inr e"
  shows "resultOk (compileLimits (in_Limits inp)) (Authorize reMatch now (Some e) req)"
proof -
  have "pe_limits e = compileLimits (in_Limits inp)"
    using assms by (auto simp: Compile_def result_simps)
  moreover have "0 < pl_maxArgs (compileLimits l)" "0 < pl_maxArgBytes (compileLimits l)" for l
    by (simp_all add: compileLimits_def)
  ultimately show ?thesis
    using evaluate_resultOk [of e reMatch now] by (simp add: Authorize_def Let_def)
qed

text \<open>
  The groups that apply to a user on a client are exactly the enabled groups
  named by the user or by the enabled client's defaults, each once, ordered by priority and
  then by id.
\<close>

theorem effectiveGroups_ordered:
  assumes "Compile reCompile isIP tzdb inp = Inr e"
  shows "sorted (map groupRank (effectiveGroups e u clientID)) \<and>
     distinct (map cg_id (effectiveGroups e u clientID)) \<and>
     set (effectiveGroups e u clientID) =
       {g. cg_enabled g \<and> pe_groups e (cg_id g) = Some g \<and> cg_id g \<noteq> '''' \<and>
           (cg_id g \<in> set (cu_groupIDs u) \<or>
            (\<exists>c. pe_clients e clientID = Some c \<and> cc_enabled c \<and> cg_id g \<in> set (cc_defaultGroupIDs c)))}"
proof -
  define ids where "ids = (case pe_clients e clientID of
      Some c \<Rightarrow> if cc_enabled c then addIDs (addIDs [] (cu_groupIDs u)) (cc_defaultGroupIDs c)
                else addIDs [] (cu_groupIDs u)
    | None \<Rightarrow> addIDs [] (cu_groupIDs u))"
  note one = addIDs_props [of "[]" "cu_groupIDs u"]
  have ids: "distinct ids" "set ids = {i. i \<noteq> '''' \<and> (i \<in> set (cu_groupIDs u) \<or>
      (\<exists>c. pe_clients e clientID = Some c \<and> cc_enabled c \<and> i \<in> set (cc_defaultGroupIDs c)))}"
    using one addIDs_props [of "addIDs [] (cu_groupIDs u)"]
    by (auto simp: ids_def split: option.splits)
  have named: "groupsNamed e" by (rule Compile_groupsNamed [OF assms])
  have eff: "effectiveGroups e u clientID = sort_key groupRank
      (concat (map (\<lambda>i. case pe_groups e i of None \<Rightarrow> [] | Some g \<Rightarrow> if cg_enabled g then [g] else []) ids))"
    by (simp add: effectiveGroups_def ids_def Let_def)
  have "set (effectiveGroups e u clientID) =
      {g. cg_enabled g \<and> pe_groups e (cg_id g) = Some g \<and> cg_id g \<in> set ids}"
    unfolding eff set_sort by (rule set_concat_groups [OF named])
  then show ?thesis
    using concat_groups_ids [OF named ids(1)] unfolding ids(2)
    by (simp add: eff distinct_map_sort_key)
qed

text \<open>
  Compiling a rule set keeps exactly the configured command rules, with their
  id, priority and action, and orders them by priority and then by id, rules of the same
  priority and id keeping their configured order.
\<close>

theorem compileRuleSet_sorted:
  assumes "compileRuleSet reCompile isIP tzdb rs path = Inr c"
  shows "map (\<lambda>r. (ccm_id r, ccm_priority r, ccm_action r)) (crs_commands c) =
     map (\<lambda>r. (cr_ID r, cr_Priority r, cr_Action r))
       (sort_key (\<lambda>r. (cr_Priority r, cr_ID r)) (rs_CommandRules rs)) \<and>
     sorted (map commandRank (crs_commands c))"
proof -
  obtain cs where cs: "compileCommands reCompile path 0 (rs_CommandRules rs) = Inr cs"
    "crs_commands c = sort_key commandRank cs"
    using compileRuleSet_commands [OF assms] by blast
  define key :: "string \<times> int \<times> AuthorDecision \<Rightarrow> int \<times> string" where "key = (\<lambda>(i, p, a). (p, i))"
  have k1: "commandRank = (\<lambda>r. key (ccm_id r, ccm_priority r, ccm_action r))"
    and k2: "(\<lambda>r. (cr_Priority r, cr_ID r)) = (\<lambda>r. key (cr_ID r, cr_Priority r, cr_Action r))"
    by (auto simp: key_def commandRank_def)
  have "map (\<lambda>r. (ccm_id r, ccm_priority r, ccm_action r)) (sort_key commandRank cs) =
      map (\<lambda>r. (cr_ID r, cr_Priority r, cr_Action r))
        (sort_key (\<lambda>r. (cr_Priority r, cr_ID r)) (rs_CommandRules rs))"
    unfolding k1 k2
    using map_sort_key [of "\<lambda>r. (ccm_id r, ccm_priority r, ccm_action r)" key cs]
      map_sort_key [of "\<lambda>r. (cr_ID r, cr_Priority r, cr_Action r)" key "rs_CommandRules rs"]
      compileCommands_ids [OF cs(1)]
    by simp
  then show ?thesis unfolding cs(2) by simp
qed

subsection \<open>The hypotheses can hold\<close>

lemma userValid_always: "cu_validAfter u = None \<Longrightarrow> cu_validBefore u = None \<Longrightarrow> userValid now u"
  by (simp add: userValid_def split: option.split)

definition wit_rules :: RuleSet where
  "wit_rules =
     \<lparr>rs_Services = [\<lparr>sr_Service = ''shell'', sr_Protocol = None, sr_Action = DecisionPermitAdd,
                     sr_ReplyAttributes = [\<lparr>av_Name = ''priv-lvl'', av_Separator = 0x3d, av_Value = ''15''\<rparr>]\<rparr>],
      rs_CommandRules = [\<lparr>cr_ID = ''b'', cr_Priority = 20, cr_Action = DecisionDeny,
                          cr_Command = \<lparr>sm_Exact = ''show'', sm_Pattern = ''''\<rparr>,
                          cr_Arguments = \<lparr>sm_Exact = '''', sm_Pattern = ''.*''\<rparr>, cr_Reason = ''''\<rparr>,
                         \<lparr>cr_ID = ''a'', cr_Priority = 10, cr_Action = DecisionPermitAdd,
                          cr_Command = \<lparr>sm_Exact = ''show'', sm_Pattern = ''''\<rparr>,
                          cr_Arguments = \<lparr>sm_Exact = '''', sm_Pattern = ''.*''\<rparr>, cr_Reason = ''''\<rparr>]\<rparr>"

definition wit_input :: PolicyInput where
  "wit_input =
     \<lparr>in_Users = [\<lparr>pu_ID = ''alice'', pu_Enabled = True, pu_GroupIDs = [''ops''],
                  pu_Rules = \<lparr>rs_Services = [], rs_CommandRules = []\<rparr>, pu_ClientIDs = [],
                  pu_ValidAfter = None, pu_ValidBefore = None\<rparr>],
      in_Groups = [\<lparr>pg_ID = ''ops'', pg_Priority = 1, pg_Enabled = True,
                    pg_Services = rs_Services wit_rules, pg_CommandRules = rs_CommandRules wit_rules\<rparr>],
      in_Clients = [], in_Fallback = \<lparr>rs_Services = [], rs_CommandRules = []\<rparr>,
      in_Limits = zero_limits\<rparr>"

definition wit_request :: Request where
  "wit_request =
     \<lparr>prq_UserID = ''alice'', prq_ClientID = ''nas'', prq_Service = ''shell'', prq_Protocol = '''',
      prq_Cmd = ''show'', prq_CmdArgs = [''run''], prq_Arguments = [], prq_AuthenMethod = 6,
      prq_Privilege = 1, prq_Port = '''', prq_RemoteAddr = ''''\<rparr>"

abbreviation (input) wit_compile :: "Error + unit PolicyEngine" where
  "wit_compile \<equiv> Compile (\<lambda>_. Some ()) (\<lambda>_. False) (\<lambda>_. None :: unit option) wit_input"

lemma wit_compile_ok: "\<exists>e. wit_compile = Inr e"
  by (simp add: Compile_def wit_input_def wit_rules_def compileRuleSet_def compileReply_def
      ValidatePair_def AVPair_Validate_def containsSeparator_def EncodedLen_def ValidateValue_def
      LookupArg_def commonArgs_def argSpec_def parseBoundedUint_def ParseUint_def decValue_def
      digitVal_def isDigit_range compileMatcher_def Let_def less_char_def)

lemma wit_permitted:
  assumes "wit_compile = Inr e"
  shows "res_Status (Authorize (\<lambda>_ _. True) now (Some e) wit_request) = StPassAdd"
proof -
  have "verdict (evaluate (\<lambda>_ _. True) now e wit_request RuleKindCommand) = (DecisionPermitAdd, StPassAdd, [])"
    unfolding evaluate_verdict using assms
    by (auto simp: Compile_def wit_input_def wit_rules_def compileRuleSet_def compileReply_def
        compileMatcher_def result_simps specVerdict_def wit_request_def admitted_def userValid_always
        clientAllowed_def ruleOrder_def candidates_def effectiveGroups_def commandRank_def
        matchCommand_def matcher_match_def ruleVerdict_def ruleEffect_def buildReply_def WireStatus_def
        zero_limits_def split: sum.splits)
  then show ?thesis
    by (simp add: Authorize_def policy_normalize_def extractFromAVs_def firstAV_def allAV_def orEmptyString_def
        commandKey_def wit_request_def verdict_def Let_def)
qed

theorem Authorize_permit_needs_rule_witness:
  "\<exists>e. wit_compile = Inr e \<and> (\<exists>u. pe_users e ''alice'' = Some u)"
proof -
  obtain e where e: "wit_compile = Inr e" using wit_compile_ok by blast
  have "prq_UserID (policy_normalize wit_request) = ''alice''"
    by (simp add: policy_normalize_def extractFromAVs_def wit_request_def)
  with Authorize_permit_needs_rule [OF disjI1 [OF wit_permitted [OF e]]] e show ?thesis by auto
qed

theorem Authorize_bounded_witness:
  "\<exists>e. wit_compile = Inr e \<and>
     int (length (res_Arguments (Authorize (\<lambda>_ _. True) (Some 7) (Some e) wit_request))) \<le> 256"
proof -
  obtain e where e: "wit_compile = Inr e" using wit_compile_ok by blast
  from Authorize_bounded [OF e, of "\<lambda>_ _. True" "Some 7" wit_request] e show ?thesis
    by (auto simp: resultOk_def compileLimits_def wit_input_def zero_limits_def)
qed

theorem effectiveGroups_ordered_witness:
  "\<exists>e. wit_compile = Inr e \<and> sorted (map groupRank (effectiveGroups e (the (pe_users e ''alice'')) ''nas''))"
proof -
  obtain e where e: "wit_compile = Inr e" using wit_compile_ok by blast
  from effectiveGroups_ordered [OF e] e show ?thesis by blast
qed

theorem compileRuleSet_sorted_witness:
  "\<exists>c. compileRuleSet (\<lambda>_. Some ()) (\<lambda>_. False) (\<lambda>_. None :: unit option)
         (wit_rules\<lparr>rs_Services := []\<rparr>) ''p'' = Inr c \<and> sorted (map commandRank (crs_commands c))"
proof -
  have "\<exists>c. compileRuleSet (\<lambda>_. Some ()) (\<lambda>_. False) (\<lambda>_. None :: unit option)
         (wit_rules\<lparr>rs_Services := []\<rparr>) ''p'' = Inr c"
    by (simp add: compileRuleSet_def wit_rules_def compileMatcher_def)
  then obtain c where c: "compileRuleSet (\<lambda>_. Some ()) (\<lambda>_. False) (\<lambda>_. None :: unit option)
         (wit_rules\<lparr>rs_Services := []\<rparr>) ''p'' = Inr c" by blast
  from compileRuleSet_sorted [OF c] c show ?thesis by blast
qed

end
