(* ===== verification/Tlv_Stream.thy ===== *)
theory Tlv_Stream
  imports Taclab_Prelude
begin

text \<open>
  The contract of a parser for a stream of items (type, length, value): it accepts a payload
  exactly when the payload is the concatenation of the encodings of the items it returns,
  and those items satisfy the parser's bounds. The RADIUS attribute parser and the parser of
  nested vendor attributes are its instances.
\<close>

definition wireOf :: "('a \<Rightarrow> bytes) \<Rightarrow> 'a list \<Rightarrow> bytes" where
  "wireOf item xs = concat (map item xs)"

lemma wireOf_Nil [simp]: "wireOf item [] = []"
  by (simp add: wireOf_def)

lemma wireOf_Cons [simp]: "wireOf item (x # xs) = item x @ wireOf item xs"
  by (simp add: wireOf_def)

lemma wireOf_append [simp]: "wireOf item (xs @ ys) = wireOf item xs @ wireOf item ys"
  by (simp add: wireOf_def)

lemma length_wireOf: "length (wireOf item xs) = (\<Sum>x\<leftarrow>xs. length (item x))"
  by (induction xs) auto

locale tlv_stream =
  fixes parse :: "bytes \<Rightarrow> 'e + 'a list"
    and item :: "'a \<Rightarrow> bytes"
    and fits :: "'a list \<Rightarrow> bool"
  assumes parse_iff: "parse p = Inr xs \<longleftrightarrow> p = wireOf item xs \<and> fits xs"
begin

lemma parse_wire: "fits xs \<Longrightarrow> parse (wireOf item xs) = Inr xs"
  by (simp add: parse_iff)

lemma parse_sound: "parse p = Inr xs \<Longrightarrow> wireOf item xs = p"
  by (simp add: parse_iff)

lemma parse_fits: "parse p = Inr xs \<Longrightarrow> fits xs"
  by (simp add: parse_iff)

lemma wire_inject: "fits xs \<Longrightarrow> fits ys \<Longrightarrow> wireOf item xs = wireOf item ys \<Longrightarrow> xs = ys"
  using parse_wire by (metis sum.inject(2))

lemma parse_rejects: "(\<exists>e. parse p = Inl e) \<longleftrightarrow> (\<forall>xs. fits xs \<longrightarrow> wireOf item xs \<noteq> p)"
  using parse_iff by (metis sum.exhaust sum.distinct(1))

lemma parse_length: "parse p = Inr xs \<Longrightarrow> length p = (\<Sum>x\<leftarrow>xs. length (item x))"
  by (simp add: parse_iff length_wireOf)

end

end
