(* ===== verification/Radius_Attribute.thy ===== *)
theory Radius_Attribute
  imports Tlv_Stream
begin

text \<open>
  RADIUS attributes, from \<open>internal/radius/attribute\<close>: raw attributes and ordered sets
  (\<open>raw.go\<close>, \<open>set.go\<close>), the bounded attribute walk (\<open>decode.go\<close>), the canonical encoder
  (\<open>encode.go\<close>) and Vendor-Specific framing with nested attributes (\<open>vendor.go\<close>). The error
  values of the packages \<open>attribute\<close>, \<open>codec\<close> and \<open>crypto\<close> are one datatype, as they are
  values of one Go interface; where two packages use the same identifier the constructor
  carries the package's name. A nil slice and an empty slice are the same list.
\<close>

datatype radius_err =
    ErrOverflow | ErrLength | ErrTooMany | ErrBudget | ErrValueTooLong
  | ErrNotVSA | ErrVSAShort | ErrVSAValueLong | ErrVendorTLV | ErrVendorTLVLong
  | ErrUnknownPacket | ErrIllegalRole | ErrCardinality | ErrMissingRequired | ErrNotFirst
  | ErrValueLength
  | ErrRadiusHeaderShort | ErrInvalidLength | ErrPacketTooLarge
  | ErrEmptySecret | ErrPacketShort | ErrCryptoInvalidLength | ErrCryptoLengthMismatch
  | ErrPasswordTooLong | ErrHiddenPassword
  | ErrMissingMessageAuthenticator | ErrDuplicateMessageAuthenticator
  | ErrInvalidMessageAuthenticator
  | ErrInvalidAccountingAuthenticator | ErrInvalidResponseAuthenticator
  | ErrInvalidDynAuthAuthenticator

abbreviation (input) MaxValueLength :: nat where "MaxValueLength \<equiv> 253"
abbreviation (input) DefaultMaxAttributes :: int where "DefaultMaxAttributes \<equiv> 256"
abbreviation (input) DefaultMaxValueBytes :: int where "DefaultMaxValueBytes \<equiv> 4096"
abbreviation (input) TypeVendorSpecific :: byte where "TypeVendorSpecific \<equiv> 26"
abbreviation (input) TypeMessageAuthenticator :: byte where "TypeMessageAuthenticator \<equiv> 80"
abbreviation (input) vendorIDSize :: nat where "vendorIDSize \<equiv> 4"
abbreviation (input) VendorMicrosoft :: uint32 where "VendorMicrosoft \<equiv> 311"
abbreviation (input) VendorCisco :: uint32 where "VendorCisco \<equiv> 9"
abbreviation (input) TypeCiscoAVPair :: byte where "TypeCiscoAVPair \<equiv> 1"
abbreviation (input) MaxVendorTLVValue :: nat where "MaxVendorTLVValue \<equiv> 247"

subsection \<open>Raw attributes and sets\<close>

record Raw =
  raw_Type :: byte
  raw_Value :: bytes

type_synonym RawSet = "Raw list"

definition WireLength :: "Raw \<Rightarrow> nat" where
  "WireLength r = 2 + length (raw_Value r)"

fun ValueBytes :: "RawSet \<Rightarrow> nat" where
  "ValueBytes [] = 0"
| "ValueBytes (a # s) = length (raw_Value a) + ValueBytes s"

fun WireSize :: "RawSet \<Rightarrow> nat" where
  "WireSize [] = 0"
| "WireSize (a # s) = WireLength a + WireSize s"

fun RawSet_First :: "RawSet \<Rightarrow> byte \<Rightarrow> Raw option" where
  "RawSet_First [] ty = None"
| "RawSet_First (a # s) ty = (if raw_Type a = ty then Some a else RawSet_First s ty)"

fun AllOf :: "RawSet \<Rightarrow> byte \<Rightarrow> RawSet" where
  "AllOf [] ty = []"
| "AllOf (a # s) ty = (if raw_Type a = ty then a # AllOf s ty else AllOf s ty)"

subsection \<open>Decoding and encoding\<close>

text \<open>
  The loop of \<open>Decode\<close>: the list argument is the payload from \<open>off\<close> on.
\<close>

function decodeLoop :: "int \<Rightarrow> int \<Rightarrow> bytes \<Rightarrow> RawSet \<Rightarrow> int \<Rightarrow> radius_err + RawSet" where
  "decodeLoop maxAttrs maxValueBytes [] out valueBytes = Inr out"
| "decodeLoop maxAttrs maxValueBytes [b] out valueBytes = Inl ErrOverflow"
| "decodeLoop maxAttrs maxValueBytes (ty # l # body) out valueBytes =
     (if unat l < 2 then Inl ErrLength
      else if unat l > length body + 2 then Inl ErrOverflow
      else if int (length out) \<ge> maxAttrs then Inl ErrTooMany
      else if valueBytes + int (unat l - 2) > maxValueBytes then Inl ErrBudget
      else decodeLoop maxAttrs maxValueBytes (drop (unat l - 2) body)
             (out @ [\<lparr>raw_Type = ty, raw_Value = take (unat l - 2) body\<rparr>])
             (valueBytes + int (unat l - 2)))"
  by pat_completeness auto
termination
  by (relation "measure (\<lambda>(_, _, p, _, _). length p)") auto

definition capOr :: "int \<Rightarrow> int \<Rightarrow> int" where
  "capOr cap def = (if cap \<le> 0 then def else cap)"

definition attribute_Decode :: "bytes \<Rightarrow> int \<Rightarrow> int \<Rightarrow> radius_err + RawSet" where
  "attribute_Decode payload maxAttrs maxValueBytes =
     decodeLoop (capOr maxAttrs DefaultMaxAttributes) (capOr maxValueBytes DefaultMaxValueBytes)
       payload [] 0"

fun encodeSize :: "RawSet \<Rightarrow> nat \<Rightarrow> radius_err + nat" where
  "encodeSize [] n = Inr n"
| "encodeSize (a # s) n =
     (if length (raw_Value a) > MaxValueLength then Inl ErrValueTooLong
      else encodeSize s (n + (2 + length (raw_Value a))))"

definition rawItem :: "Raw \<Rightarrow> bytes" where
  "rawItem a = raw_Type a # of_nat (2 + length (raw_Value a)) # raw_Value a"

fun encodeAttrs :: "RawSet \<Rightarrow> bytes" where
  "encodeAttrs [] = []"
| "encodeAttrs (a # s) = rawItem a @ encodeAttrs s"

definition attribute_Encode :: "RawSet \<Rightarrow> radius_err + bytes" where
  "attribute_Encode s =
     rbind (encodeSize s 0) (\<lambda>n. if n = 0 then Inr [] else Inr (encodeAttrs s))"

subsection \<open>Vendor-Specific framing\<close>

record VSA =
  vsa_Vendor :: uint32
  vsa_Payload :: bytes

record VendorTLV =
  tlv_Type :: byte
  tlv_Value :: bytes

definition ParseVSA :: "Raw \<Rightarrow> radius_err + VSA" where
  "ParseVSA r =
     (if raw_Type r \<noteq> TypeVendorSpecific then Inl ErrNotVSA
      else case raw_Value r of
        b0 # b1 # b2 # b3 # rest \<Rightarrow> Inr \<lparr>vsa_Vendor = Uint32_BE b0 b1 b2 b3, vsa_Payload = rest\<rparr>
      | _ \<Rightarrow> Inl ErrVSAShort)"

definition VSA_Raw :: "VSA \<Rightarrow> radius_err + Raw" where
  "VSA_Raw v =
     (if length (vsa_Payload v) > MaxValueLength - vendorIDSize then Inl ErrVSAValueLong
      else Inr \<lparr>raw_Type = TypeVendorSpecific, raw_Value = PutUint32_BE (vsa_Vendor v) @ vsa_Payload v\<rparr>)"

function vendorLoop :: "bytes \<Rightarrow> VendorTLV list \<Rightarrow> radius_err + VendorTLV list" where
  "vendorLoop [] out = Inr out"
| "vendorLoop [b] out = Inl ErrVendorTLV"
| "vendorLoop (ty # l # body) out =
     (if unat l < 2 then Inl ErrVendorTLV
      else if unat l > length body + 2 then Inl ErrVendorTLV
      else vendorLoop (drop (unat l - 2) body)
             (out @ [\<lparr>tlv_Type = ty, tlv_Value = take (unat l - 2) body\<rparr>]))"
  by pat_completeness auto
termination
  by (relation "measure (\<lambda>(p, _). length p)") auto

definition ParseVendorTLVs :: "bytes \<Rightarrow> radius_err + VendorTLV list" where
  "ParseVendorTLVs payload = vendorLoop payload []"

fun vendorSize :: "VendorTLV list \<Rightarrow> nat \<Rightarrow> radius_err + nat" where
  "vendorSize [] n = Inr n"
| "vendorSize (t # ts) n =
     (if length (tlv_Value t) > MaxVendorTLVValue then Inl ErrVendorTLVLong
      else vendorSize ts (n + (2 + length (tlv_Value t))))"

definition tlvItem :: "VendorTLV \<Rightarrow> bytes" where
  "tlvItem t = tlv_Type t # of_nat (2 + length (tlv_Value t)) # tlv_Value t"

fun encodeTLVs :: "VendorTLV list \<Rightarrow> bytes" where
  "encodeTLVs [] = []"
| "encodeTLVs (t # ts) = tlvItem t @ encodeTLVs ts"

definition EncodeVendorTLVs :: "VendorTLV list \<Rightarrow> radius_err + bytes" where
  "EncodeVendorTLVs tlvs =
     rbind (vendorSize tlvs 0) (\<lambda>n.
       if n = 0 then Inr []
       else if n > MaxValueLength - vendorIDSize then Inl ErrVSAValueLong
       else Inr (encodeTLVs tlvs))"

definition MicrosoftVSA :: "byte \<Rightarrow> bytes \<Rightarrow> radius_err + Raw" where
  "MicrosoftVSA vendorType val =
     rbind (EncodeVendorTLVs [\<lparr>tlv_Type = vendorType, tlv_Value = val\<rparr>]) (\<lambda>payload.
       VSA_Raw \<lparr>vsa_Vendor = VendorMicrosoft, vsa_Payload = payload\<rparr>)"

definition MicrosoftSecret :: "Raw \<Rightarrow> bool" where
  "MicrosoftSecret r =
     (if raw_Type r \<noteq> TypeVendorSpecific then False
      else case ParseVSA r of
        Inl _ \<Rightarrow> False
      | Inr vsa \<Rightarrow>
          if vsa_Vendor vsa \<noteq> VendorMicrosoft then False
          else (case ParseVendorTLVs (vsa_Payload vsa) of
                  Inl _ \<Rightarrow> True
                | Inr tlvs \<Rightarrow> list_ex (\<lambda>t. tlv_Type t \<in> {1, 2, 11, 25, 26}) tlvs))"

definition EncodeCiscoAVPair :: "string \<Rightarrow> radius_err + Raw" where
  "EncodeCiscoAVPair txt =
     rbind (EncodeVendorTLVs [\<lparr>tlv_Type = TypeCiscoAVPair, tlv_Value = bytes_of_string txt\<rparr>]) (\<lambda>payload.
       VSA_Raw \<lparr>vsa_Vendor = VendorCisco, vsa_Payload = payload\<rparr>)"

definition DecodeCiscoAVPairs :: "Raw \<Rightarrow> radius_err + string list" where
  "DecodeCiscoAVPairs r =
     rbind (ParseVSA r) (\<lambda>vsa.
     if vsa_Vendor vsa \<noteq> VendorCisco then Inr []
     else rbind (ParseVendorTLVs (vsa_Payload vsa)) (\<lambda>tlvs.
       Inr (map (\<lambda>t. string_of_bytes (tlv_Value t)) (filter (\<lambda>t. tlv_Type t = TypeCiscoAVPair) tlvs))))"

subsection \<open>The attribute walk meets the stream contract\<close>

definition rawFits :: "Raw \<Rightarrow> bool" where
  "rawFits r \<longleftrightarrow> length (raw_Value r) \<le> MaxValueLength"

definition setFits :: "int \<Rightarrow> int \<Rightarrow> RawSet \<Rightarrow> bool" where
  "setFits maxAttrs maxValueBytes rs \<longleftrightarrow>
     list_all rawFits rs \<and> int (length rs) \<le> maxAttrs \<and> int (ValueBytes rs) \<le> maxValueBytes"

lemma ValueBytes_append [simp]: "ValueBytes (xs @ ys) = ValueBytes xs + ValueBytes ys"
  by (induction xs) auto

lemma encodeAttrs_wire: "encodeAttrs s = wireOf rawItem s"
  by (induction s) auto

lemma length_rawItem [simp]: "length (rawItem r) = WireLength r"
  by (simp add: rawItem_def WireLength_def)

lemma length_encodeAttrs: "length (encodeAttrs s) = WireSize s"
  by (induction s) auto

lemma WireSize_split: "WireSize s = 2 * length s + ValueBytes s"
  by (induction s) (auto simp: WireLength_def)

lemma AllOf_filter: "AllOf s ty = filter (\<lambda>a. raw_Type a = ty) s"
  by (induction s) auto

text \<open>A length octet between 2 and 255 and the value it announces.\<close>

lemma item_split:
  fixes l :: byte
  assumes "2 \<le> unat l" "unat l \<le> length body + 2"
  shows "l # body = of_nat (2 + length (take (unat l - 2) body)) # take (unat l - 2) body @ drop (unat l - 2) body"
    "length (take (unat l - 2) body) \<le> MaxValueLength"
proof -
  have "2 + length (take (unat l - 2) body) = unat l" using assms by simp
  then show "l # body = of_nat (2 + length (take (unat l - 2) body)) # take (unat l - 2) body @ drop (unat l - 2) body"
    by simp
  have "unat l - 2 \<le> 255 - 2" by (rule diff_le_mono) (rule unat_byte_le)
  then show "length (take (unat l - 2) body) \<le> MaxValueLength" by (simp add: min.coboundedI2)
qed

lemma unat_item_length [simp]: "length v \<le> 253 \<Longrightarrow> unat (of_nat (2 + length v) :: byte) = 2 + length v"
  by (rule unat_of_nat_byte) simp

lemma decodeLoop_wire:
  "\<lbrakk>list_all rawFits ys; ys \<noteq> [] \<longrightarrow> int (length out + length ys) \<le> ma \<and> vb + int (ValueBytes ys) \<le> mv\<rbrakk>
     \<Longrightarrow> decodeLoop ma mv (wireOf rawItem ys) out vb = Inr (out @ ys)"
proof (induction ys arbitrary: out vb)
  case (Cons y ys)
  then have "length (raw_Value y) \<le> 253" by (simp add: rawFits_def)
  then have "unat (of_nat (2 + length (raw_Value y)) :: byte) = 2 + length (raw_Value y)"
    by (rule unat_item_length)
  then show ?case using Cons.prems by (simp add: rawItem_def [of y] Cons.IH del: of_nat_add)
qed simp

lemma decodeLoop_sound:
  "decodeLoop ma mv p out vb = Inr rs \<Longrightarrow>
     \<exists>ys. rs = out @ ys \<and> p = wireOf rawItem ys \<and> list_all rawFits ys \<and>
       (ys \<noteq> [] \<longrightarrow> int (length out + length ys) \<le> ma \<and> vb + int (ValueBytes ys) \<le> mv)"
proof (induction ma mv p out vb rule: decodeLoop.induct)
  case (3 ma mv ty l body out vb)
  let ?v = "take (unat l - 2) body"
  from "3.prems" have g: "2 \<le> unat l" "unat l \<le> length body + 2" "int (length out) < ma"
      "vb + int (unat l - 2) \<le> mv"
    and rec: "decodeLoop ma mv (drop (unat l - 2) body) (out @ [\<lparr>raw_Type = ty, raw_Value = ?v\<rparr>])
      (vb + int (unat l - 2)) = Inr rs"
    by (auto split: if_splits)
  from "3.IH" rec g obtain ys where ys: "rs = (out @ [\<lparr>raw_Type = ty, raw_Value = ?v\<rparr>]) @ ys"
      "drop (unat l - 2) body = wireOf rawItem ys" "list_all rawFits ys"
      "ys \<noteq> [] \<longrightarrow> int (length (out @ [\<lparr>raw_Type = ty, raw_Value = ?v\<rparr>]) + length ys) \<le> ma \<and>
        vb + int (unat l - 2) + int (ValueBytes ys) \<le> mv"
    by (metis leD not_less)
  have len: "length ?v = unat l - 2" using g by simp
  show ?case
  proof (intro exI conjI impI)
    let ?ys = "\<lparr>raw_Type = ty, raw_Value = ?v\<rparr> # ys"
    show "rs = out @ ?ys" using ys(1) by simp
    show "ty # l # body = wireOf rawItem ?ys"
      using item_split(1) [OF g(1,2)] ys(2) by (simp add: rawItem_def [of "\<lparr>raw_Type = ty, raw_Value = ?v\<rparr>"])
    show "list_all rawFits ?ys" using item_split(2) [OF g(1,2)] ys(3) by (simp add: rawFits_def)
    show "int (length out + length ?ys) \<le> ma" using g(3) ys(4) by (cases ys) auto
    show "vb + int (ValueBytes ?ys) \<le> mv" using g(4) ys(4) len by (cases ys) auto
  qed
qed simp_all

lemma capOr_pos: "0 < def \<Longrightarrow> 0 < capOr cap def"
  by (simp add: capOr_def)

lemma attribute_Decode_iff:
  "attribute_Decode p ma mv = Inr rs \<longleftrightarrow>
     p = wireOf rawItem rs \<and> setFits (capOr ma DefaultMaxAttributes) (capOr mv DefaultMaxValueBytes) rs"
proof -
  have pos: "0 < capOr ma 256" "0 < capOr mv 4096" by (simp_all add: capOr_pos)
  show ?thesis
    using decodeLoop_sound [of "capOr ma 256" "capOr mv 4096" p "[]" 0 rs]
      decodeLoop_wire [of rs "[]" "capOr ma 256" 0 "capOr mv 4096"] pos
    by (cases rs) (auto simp: attribute_Decode_def setFits_def)
qed

interpretation attrs: tlv_stream "\<lambda>p. attribute_Decode p ma mv" rawItem
  "setFits (capOr ma DefaultMaxAttributes) (capOr mv DefaultMaxValueBytes)" for ma mv
  by unfold_locales (rule attribute_Decode_iff)

lemma vendorLoop_wire:
  "\<forall>t\<in>set ys. length (tlv_Value t) \<le> MaxValueLength \<Longrightarrow> vendorLoop (wireOf tlvItem ys) out = Inr (out @ ys)"
proof (induction ys arbitrary: out)
  case (Cons y ys)
  then have "unat (of_nat (2 + length (tlv_Value y)) :: byte) = 2 + length (tlv_Value y)"
    by (intro unat_item_length) simp
  then show ?case using Cons.prems by (simp add: tlvItem_def [of y] Cons.IH del: of_nat_add)
qed simp

lemma vendorLoop_sound:
  "vendorLoop p out = Inr rs \<Longrightarrow>
     \<exists>ys. rs = out @ ys \<and> p = wireOf tlvItem ys \<and> (\<forall>t\<in>set ys. length (tlv_Value t) \<le> MaxValueLength)"
proof (induction p out rule: vendorLoop.induct)
  case (3 ty l body out)
  let ?v = "take (unat l - 2) body"
  from "3.prems" have g: "2 \<le> unat l" "unat l \<le> length body + 2"
    and rec: "vendorLoop (drop (unat l - 2) body) (out @ [\<lparr>tlv_Type = ty, tlv_Value = ?v\<rparr>]) = Inr rs"
    by (auto split: if_splits)
  from "3.IH" rec g obtain ys where ys: "rs = (out @ [\<lparr>tlv_Type = ty, tlv_Value = ?v\<rparr>]) @ ys"
      "drop (unat l - 2) body = wireOf tlvItem ys" "\<forall>t\<in>set ys. length (tlv_Value t) \<le> MaxValueLength"
    by (metis leD not_less)
  show ?case
    using item_split [OF g] ys
    by (intro exI [of _ "\<lparr>tlv_Type = ty, tlv_Value = ?v\<rparr> # ys"]) (simp add: tlvItem_def [of "\<lparr>tlv_Type = ty, tlv_Value = ?v\<rparr>"])
qed simp_all

definition tlvsFit :: "VendorTLV list \<Rightarrow> bool" where
  "tlvsFit ts \<longleftrightarrow> (\<forall>t\<in>set ts. length (tlv_Value t) \<le> MaxValueLength)"

lemma ParseVendorTLVs_iff: "ParseVendorTLVs p = Inr ts \<longleftrightarrow> p = wireOf tlvItem ts \<and> tlvsFit ts"
  using vendorLoop_sound [of p "[]" ts] vendorLoop_wire [of ts "[]"]
  by (auto simp: ParseVendorTLVs_def tlvsFit_def)

interpretation vendor: tlv_stream ParseVendorTLVs tlvItem tlvsFit
  by unfold_locales (rule ParseVendorTLVs_iff)


lemma encodeSize_spec:
  "encodeSize s n = (if list_all rawFits s then Inr (n + WireSize s) else Inl ErrValueTooLong)"
  by (induction s arbitrary: n) (auto simp: rawFits_def WireLength_def)

lemma WireSize_0 [simp]: "WireSize s = 0 \<longleftrightarrow> s = []"
  by (cases s) (auto simp: WireLength_def)

lemma attribute_Encode_spec:
  "attribute_Encode s = (if list_all rawFits s then Inr (wireOf rawItem s) else Inl ErrValueTooLong)"
  by (cases "s = []") (auto simp: attribute_Encode_def encodeSize_spec encodeAttrs_wire simp flip: neq_Nil_conv)

fun tlvSize :: "VendorTLV list \<Rightarrow> nat" where
  "tlvSize [] = 0"
| "tlvSize (t # ts) = 2 + length (tlv_Value t) + tlvSize ts"

lemma vendorSize_spec:
  "vendorSize ts n =
     (if list_all (\<lambda>t. length (tlv_Value t) \<le> MaxVendorTLVValue) ts then Inr (n + tlvSize ts) else Inl ErrVendorTLVLong)"
  by (induction ts arbitrary: n) auto

lemma encodeTLVs_wire: "encodeTLVs ts = wireOf tlvItem ts"
  by (induction ts) auto

lemma length_wire_tlvs: "length (wireOf tlvItem ts) = tlvSize ts"
  by (induction ts) (simp_all add: tlvItem_def [of "_ :: VendorTLV"])

lemma tlvSize_0 [simp]: "tlvSize ts = 0 \<longleftrightarrow> ts = []"
  by (cases ts) auto

lemma tlvSize_member: "t \<in> set ts \<Longrightarrow> 2 + length (tlv_Value t) \<le> tlvSize ts"
  by (induction ts) auto

lemma EncodeVendorTLVs_Inr:
  "EncodeVendorTLVs ts = Inr p \<longleftrightarrow> p = wireOf tlvItem ts \<and> length p \<le> MaxValueLength - vendorIDSize"
proof -
  have "list_all (\<lambda>t. length (tlv_Value t) \<le> MaxVendorTLVValue) ts" if "tlvSize ts \<le> 249"
    using that tlvSize_member [of _ ts] by (fastforce simp: list_all_iff)
  then show ?thesis
    by (cases "ts = []") (auto simp: EncodeVendorTLVs_def vendorSize_spec encodeTLVs_wire length_wire_tlvs
        simp flip: neq_Nil_conv)
qed

lemma ParseVSA_iff:
  "ParseVSA r = Inr v \<longleftrightarrow>
     raw_Type r = TypeVendorSpecific \<and> raw_Value r = PutUint32_BE (vsa_Vendor v) @ vsa_Payload v"
proof
  assume "ParseVSA r = Inr v"
  then show "raw_Type r = TypeVendorSpecific \<and> raw_Value r = PutUint32_BE (vsa_Vendor v) @ vsa_Payload v"
    by (auto simp: ParseVSA_def wire_simps split: if_splits list.splits)
next
  assume "raw_Type r = TypeVendorSpecific \<and> raw_Value r = PutUint32_BE (vsa_Vendor v) @ vsa_Payload v"
  then show "ParseVSA r = Inr v"
    by (simp add: ParseVSA_def PutUint32_BE_def wire_simps)
qed

lemma ParseVSA_type: "ParseVSA r = Inr v \<Longrightarrow> raw_Type r = TypeVendorSpecific"
  by (simp add: ParseVSA_iff)

lemma VSA_Raw_Inr:
  "VSA_Raw v = Inr r \<longleftrightarrow> ParseVSA r = Inr v \<and> rawFits r"
  by (cases r) (auto simp: VSA_Raw_def ParseVSA_iff rawFits_def)

lemma single_tlv_fits: "length v \<le> MaxVendorTLVValue \<Longrightarrow> length (wireOf tlvItem [\<lparr>tlv_Type = ty, tlv_Value = v\<rparr>]) \<le> 249"
  by (simp add: tlvItem_def)

text \<open>One nested attribute in a Vendor-Specific attribute: what the two encoders build.\<close>

definition nestedVSA :: "uint32 \<Rightarrow> byte \<Rightarrow> bytes \<Rightarrow> radius_err + Raw" where
  "nestedVSA vendor ty v =
     rbind (EncodeVendorTLVs [\<lparr>tlv_Type = ty, tlv_Value = v\<rparr>]) (\<lambda>payload.
       VSA_Raw \<lparr>vsa_Vendor = vendor, vsa_Payload = payload\<rparr>)"

lemma nestedVSA_cases:
  "case nestedVSA vendor ty v of
     Inl e \<Rightarrow> e = ErrVendorTLVLong \<and> length v > MaxVendorTLVValue
   | Inr r \<Rightarrow> length v \<le> MaxVendorTLVValue \<and> rawFits r \<and> raw_Type r = TypeVendorSpecific \<and>
       (\<exists>payload. ParseVSA r = Inr \<lparr>vsa_Vendor = vendor, vsa_Payload = payload\<rparr> \<and>
          ParseVendorTLVs payload = Inr [\<lparr>tlv_Type = ty, tlv_Value = v\<rparr>])"
proof (cases "length v \<le> MaxVendorTLVValue")
  case True
  let ?p = "wireOf tlvItem [\<lparr>tlv_Type = ty, tlv_Value = v\<rparr>]"
  let ?r = "\<lparr>raw_Type = 26, raw_Value = PutUint32_BE vendor @ ?p\<rparr>"
  have enc: "EncodeVendorTLVs [\<lparr>tlv_Type = ty, tlv_Value = v\<rparr>] = Inr ?p"
    using True by (simp only: EncodeVendorTLVs_Inr) (simp add: tlvItem_def)
  have raw: "VSA_Raw \<lparr>vsa_Vendor = vendor, vsa_Payload = ?p\<rparr> = Inr ?r"
    using True by (simp add: VSA_Raw_def tlvItem_def)
  then have "ParseVSA ?r = Inr \<lparr>vsa_Vendor = vendor, vsa_Payload = ?p\<rparr>" "rawFits ?r"
    by (simp_all only: VSA_Raw_Inr)
  moreover have "ParseVendorTLVs ?p = Inr [\<lparr>tlv_Type = ty, tlv_Value = v\<rparr>]"
    using True by (intro vendor.parse_wire) (simp add: tlvsFit_def)
  moreover have "nestedVSA vendor ty v = Inr ?r"
    unfolding nestedVSA_def enc rbind_Inr by (rule raw)
  ultimately show ?thesis using True by (simp del: wireOf_Cons wireOf_Nil)
qed (simp add: nestedVSA_def EncodeVendorTLVs_def)

subsection \<open>Properties\<close>

text \<open>
  The attribute walk accepts a payload exactly when the payload is the canonical
  encoding of the attributes it returns and the attribute count and the sum of the value
  lengths are within the caps (256 attributes and 4096 octets when a cap is not positive);
  order and duplicates are those of the payload, no octet is skipped, and each value has at
  most 253 octets.
\<close>

theorem attribute_codec:
  "attribute_Decode p ma mv = Inr rs \<longleftrightarrow>
     attribute_Encode rs = Inr p \<and>
     int (length rs) \<le> (if ma \<le> 0 then 256 else ma) \<and>
     int (ValueBytes rs) \<le> (if mv \<le> 0 then 4096 else mv)"
  by (auto simp: attribute_Decode_iff attribute_Encode_spec setFits_def capOr_def split: if_splits)

text \<open>
  A Cisco-AVPair text is encodable exactly when it has at most 247 octets; then the
  Vendor-Specific attribute fits one attribute value, decoding it gives back the one text,
  and it is not classified as a Microsoft secret. A longer text is the error
  \<open>ErrVendorTLVLong\<close>.
\<close>

theorem CiscoAVPair_round_trip:
  "case EncodeCiscoAVPair txt of
     Inl e \<Rightarrow> e = ErrVendorTLVLong \<and> length txt > 247
   | Inr r \<Rightarrow> length txt \<le> 247 \<and> attribute_Encode [r] \<noteq> Inl ErrValueTooLong \<and>
       DecodeCiscoAVPairs r = Inr [txt] \<and> \<not> MicrosoftSecret r"
proof -
  have "EncodeCiscoAVPair txt = nestedVSA 9 1 (bytes_of_string txt)"
    by (simp add: EncodeCiscoAVPair_def nestedVSA_def)
  with nestedVSA_cases [where vendor = 9 and ty = 1 and v = "bytes_of_string txt"] show ?thesis
    by (auto simp: DecodeCiscoAVPairs_def MicrosoftSecret_def attribute_Encode_spec split: sum.splits)
qed

text \<open>
  An attribute built by \<open>MicrosoftVSA\<close> is classified as secret exactly when its
  vendor type is one of the five MS-CHAP types, and a Vendor-Specific attribute of Microsoft
  whose nested attributes do not parse is secret too.
\<close>

theorem MicrosoftSecret_classifies:
  "(MicrosoftVSA ty v = Inr r \<longrightarrow> (MicrosoftSecret r \<longleftrightarrow> ty \<in> {1, 2, 11, 25, 26})) \<and>
   (ParseVSA r = Inr vsa \<and> vsa_Vendor vsa = 311 \<and> ParseVendorTLVs (vsa_Payload vsa) = Inl e
      \<longrightarrow> MicrosoftSecret r)"
proof -
  have "MicrosoftVSA ty v = nestedVSA 311 ty v"
    by (simp add: MicrosoftVSA_def nestedVSA_def)
  with nestedVSA_cases [where vendor = 311 and ty = ty and v = v] show ?thesis
    by (auto simp: MicrosoftSecret_def split: sum.splits dest: ParseVSA_type)
qed

theorem MicrosoftSecret_classifies_witness:
  "MicrosoftSecret \<lparr>raw_Type = 26, raw_Value = [0, 0, 1, 55, 25, 3, 7]\<rparr> \<and>
   MicrosoftSecret \<lparr>raw_Type = 26, raw_Value = [0, 0, 1, 55, 99]\<rparr>"
proof -
  have "MicrosoftVSA 25 [7] = Inr \<lparr>raw_Type = 26, raw_Value = [0, 0, 1, 55, 25, 3, 7]\<rparr>"
    by code_simp
  moreover have "ParseVSA \<lparr>raw_Type = 26, raw_Value = [0, 0, 1, 55, 99]\<rparr> =
      Inr \<lparr>vsa_Vendor = 311, vsa_Payload = [99]\<rparr>"
    by code_simp
  moreover have "ParseVendorTLVs [99] = Inl ErrVendorTLV"
    by (simp add: ParseVendorTLVs_def)
  ultimately show ?thesis
    using MicrosoftSecret_classifies [of 25 "[7]" "\<lparr>raw_Type = 26, raw_Value = [0, 0, 1, 55, 25, 3, 7]\<rparr>"]
      MicrosoftSecret_classifies [of 0 "[]" "\<lparr>raw_Type = 26, raw_Value = [0, 0, 1, 55, 99]\<rparr>"
        "\<lparr>vsa_Vendor = 311, vsa_Payload = [99]\<rparr>" ErrVendorTLV]
    by simp
qed

end
