(* ===== verification/Radius_Codec.thy ===== *)
theory Radius_Codec
  imports Radius_Attribute
begin

text \<open>
  The RADIUS packet codec, from \<open>internal/radius/codec\<close>: packet codes (\<open>code.go\<close>), bounds
  (\<open>bounds.go\<close>), header and datagram decoding (\<open>decode.go\<close>), encoding (\<open>encode.go\<close>) and the
  discard reasons (\<open>errors.go\<close>). A Go array \<open>[16]byte\<close> is a list of 16 octets.
\<close>

abbreviation (input) RadiusHeaderSize :: nat where "RadiusHeaderSize \<equiv> 20"
abbreviation (input) AuthenticatorSize :: nat where "AuthenticatorSize \<equiv> 16"
abbreviation (input) MinPacketBytes :: int where "MinPacketBytes \<equiv> 20"
abbreviation (input) MaxPacketBytes :: int where "MaxPacketBytes \<equiv> 4096"

type_synonym Code = byte

abbreviation (input) CodeAccessRequest :: Code where "CodeAccessRequest \<equiv> 1"
abbreviation (input) CodeAccessAccept :: Code where "CodeAccessAccept \<equiv> 2"
abbreviation (input) CodeAccessReject :: Code where "CodeAccessReject \<equiv> 3"
abbreviation (input) CodeAccountingRequest :: Code where "CodeAccountingRequest \<equiv> 4"
abbreviation (input) CodeAccountingResponse :: Code where "CodeAccountingResponse \<equiv> 5"
abbreviation (input) CodeAccessChallenge :: Code where "CodeAccessChallenge \<equiv> 11"
abbreviation (input) CodeDisconnectRequest :: Code where "CodeDisconnectRequest \<equiv> 40"
abbreviation (input) CodeDisconnectACK :: Code where "CodeDisconnectACK \<equiv> 41"
abbreviation (input) CodeDisconnectNAK :: Code where "CodeDisconnectNAK \<equiv> 42"
abbreviation (input) CodeCoARequest :: Code where "CodeCoARequest \<equiv> 43"
abbreviation (input) CodeCoAACK :: Code where "CodeCoAACK \<equiv> 44"
abbreviation (input) CodeCoANAK :: Code where "CodeCoANAK \<equiv> 45"

definition Code_Known :: "Code \<Rightarrow> bool" where
  "Code_Known c \<longleftrightarrow>
     c \<in> {CodeAccessRequest, CodeAccessAccept, CodeAccessReject,
          CodeAccountingRequest, CodeAccountingResponse, CodeAccessChallenge,
          CodeDisconnectRequest, CodeDisconnectACK, CodeDisconnectNAK,
          CodeCoARequest, CodeCoAACK, CodeCoANAK}"

definition Code_Advertised :: "Code \<Rightarrow> bool" where
  "Code_Advertised c \<longleftrightarrow>
     c \<in> {CodeAccessRequest, CodeAccessAccept, CodeAccessReject,
          CodeAccountingRequest, CodeAccountingResponse, CodeAccessChallenge,
          CodeDisconnectRequest, CodeDisconnectACK, CodeDisconnectNAK,
          CodeCoARequest, CodeCoAACK, CodeCoANAK}"

definition DynamicAuthFamily :: "Code \<Rightarrow> bool" where
  "DynamicAuthFamily c \<longleftrightarrow>
     c \<in> {CodeDisconnectRequest, CodeDisconnectACK, CodeDisconnectNAK,
          CodeCoARequest, CodeCoAACK, CodeCoANAK}"

definition AccessFamily :: "Code \<Rightarrow> bool" where
  "AccessFamily c \<longleftrightarrow>
     c \<in> {CodeAccessRequest, CodeAccessAccept, CodeAccessReject, CodeAccessChallenge}"

definition AccountingFamily :: "Code \<Rightarrow> bool" where
  "AccountingFamily c \<longleftrightarrow> c = CodeAccountingRequest \<or> c = CodeAccountingResponse"

record Bounds =
  b_MaxPacketBytes :: int
  b_MaxAttributes :: int
  b_MaxValueBytes :: int

definition DefaultBounds :: Bounds where
  "DefaultBounds = \<lparr>b_MaxPacketBytes = MaxPacketBytes, b_MaxAttributes = DefaultMaxAttributes,
                   b_MaxValueBytes = DefaultMaxValueBytes\<rparr>"

definition Bounds_normalized :: "Bounds \<Rightarrow> Bounds" where
  "Bounds_normalized b =
     (let b = (if b_MaxPacketBytes b \<le> 0 \<or> b_MaxPacketBytes b > MaxPacketBytes
               then b\<lparr>b_MaxPacketBytes := MaxPacketBytes\<rparr> else b);
          b = (if b_MaxPacketBytes b < MinPacketBytes then b\<lparr>b_MaxPacketBytes := MinPacketBytes\<rparr> else b);
          b = (if b_MaxAttributes b \<le> 0 then b\<lparr>b_MaxAttributes := DefaultMaxAttributes\<rparr> else b)
      in (if b_MaxValueBytes b \<le> 0 then b\<lparr>b_MaxValueBytes := DefaultMaxValueBytes\<rparr> else b))"

record Packet =
  pk_Code :: Code
  pk_Identifier :: byte
  pk_Authenticator :: bytes
  pk_Attributes :: RawSet

record RadiusHeader =
  rh_Code :: Code
  rh_Identifier :: byte
  rh_Length :: uint16
  rh_Authenticator :: bytes

definition radius_DecodeHeader :: "bytes \<Rightarrow> radius_err + RadiusHeader" where
  "radius_DecodeHeader p =
     (if length p < RadiusHeaderSize then Inl ErrRadiusHeaderShort
      else Inr \<lparr>rh_Code = p ! 0, rh_Identifier = p ! 1, rh_Length = Uint16_BE (p ! 2) (p ! 3),
                rh_Authenticator = take 16 (drop 4 p)\<rparr>)"

definition DecodeBounded :: "bytes \<Rightarrow> Bounds \<Rightarrow> radius_err + Packet" where
  "DecodeBounded datagram b =
     rbind (radius_DecodeHeader datagram) (\<lambda>h.
     let b = Bounds_normalized b; declared = unat (rh_Length h)
     in if int declared < MinPacketBytes then Inl ErrInvalidLength
        else if int declared > b_MaxPacketBytes b then Inl ErrInvalidLength
        else if declared > length datagram then Inl ErrInvalidLength
        else rbind (attribute_Decode (drop RadiusHeaderSize (take declared datagram))
                      (b_MaxAttributes b) (b_MaxValueBytes b)) (\<lambda>attrs.
          Inr \<lparr>pk_Code = rh_Code h, pk_Identifier = rh_Identifier h,
               pk_Authenticator = rh_Authenticator h, pk_Attributes = attrs\<rparr>))"

definition EncodeBounded :: "Packet \<Rightarrow> Bounds \<Rightarrow> radius_err + bytes" where
  "EncodeBounded p b =
     (let b = Bounds_normalized b
      in if int (length (pk_Attributes p)) > b_MaxAttributes b then Inl ErrTooMany
         else if int (ValueBytes (pk_Attributes p)) > b_MaxValueBytes b then Inl ErrBudget
         else rbind (attribute_Encode (pk_Attributes p)) (\<lambda>payload.
           let n = RadiusHeaderSize + length payload
           in if int n > b_MaxPacketBytes b then Inl ErrPacketTooLarge
              else Inr (pk_Code p # pk_Identifier p # PutUint16_BE (of_nat n) @ pk_Authenticator p @ payload)))"

definition radius_Decode :: "bytes \<Rightarrow> radius_err + Packet" where
  "radius_Decode datagram = DecodeBounded datagram DefaultBounds"

definition radius_Encode :: "Packet \<Rightarrow> radius_err + bytes" where
  "radius_Encode p = EncodeBounded p DefaultBounds"

text \<open>\<open>DiscardReason\<close>; a nil error is \<open>None\<close>.\<close>

definition DiscardReason :: "radius_err option \<Rightarrow> string" where
  "DiscardReason err =
     (case err of
        None \<Rightarrow> ''''
      | Some e \<Rightarrow>
          if e = ErrRadiusHeaderShort then ''discard_malformed_header''
          else if e \<in> {ErrInvalidLength, ErrPacketTooLarge, ErrOverflow, ErrLength, ErrTooMany,
                       ErrBudget, ErrValueTooLong} then ''discard_invalid_length''
          else ''discard_malformed_header'')"

subsection \<open>Lemmas\<close>

lemma Bounds_normalized_range:
  "MinPacketBytes \<le> b_MaxPacketBytes (Bounds_normalized b)"
  "b_MaxPacketBytes (Bounds_normalized b) \<le> MaxPacketBytes"
  "0 < b_MaxAttributes (Bounds_normalized b)"
  "0 < b_MaxValueBytes (Bounds_normalized b)"
  by (simp_all add: Bounds_normalized_def Let_def)

lemma DefaultBounds_normalized [simp]: "Bounds_normalized DefaultBounds = DefaultBounds"
  by (simp add: Bounds_normalized_def DefaultBounds_def)

lemma DefaultBounds_fields [simp]:
  "b_MaxPacketBytes DefaultBounds = 4096" "b_MaxAttributes DefaultBounds = 256"
  "b_MaxValueBytes DefaultBounds = 4096"
  by (simp_all add: DefaultBounds_def)

text \<open>The datagram of a packet: the octets that \<open>EncodeBounded\<close> writes.\<close>

definition wirePacket :: "Packet \<Rightarrow> bytes" where
  "wirePacket p = pk_Code p # pk_Identifier p #
     PutUint16_BE (of_nat (RadiusHeaderSize + WireSize (pk_Attributes p))) @
     pk_Authenticator p @ wireOf rawItem (pk_Attributes p)"

definition packetFits :: "Bounds \<Rightarrow> Packet \<Rightarrow> bool" where
  "packetFits b p \<longleftrightarrow>
     list_all rawFits (pk_Attributes p) \<and>
     int (length (pk_Attributes p)) \<le> b_MaxAttributes (Bounds_normalized b) \<and>
     int (ValueBytes (pk_Attributes p)) \<le> b_MaxValueBytes (Bounds_normalized b) \<and>
     int (RadiusHeaderSize + WireSize (pk_Attributes p)) \<le> b_MaxPacketBytes (Bounds_normalized b)"

lemma length_wire_attrs [simp]: "length (wireOf rawItem s) = WireSize s"
  by (simp flip: encodeAttrs_wire add: length_encodeAttrs)

lemma EncodeBounded_Inr: "EncodeBounded p b = Inr w \<longleftrightarrow> packetFits b p \<and> w = wirePacket p"
  by (auto simp: EncodeBounded_def packetFits_def wirePacket_def attribute_Encode_spec Let_def)

lemma length_wirePacket:
  "length (pk_Authenticator p) = 16 \<Longrightarrow> length (wirePacket p) = 20 + WireSize (pk_Attributes p)"
  by (simp add: wirePacket_def)

lemma header_split:
  assumes "20 \<le> length d"
  shows "d = d ! 0 # d ! 1 # PutUint16_BE (Uint16_BE (d ! 2) (d ! 3)) @ take 16 (drop 4 d) @ drop 20 d"
proof -
  obtain a b c e r where d: "d = a # b # c # e # r"
    using assms by (auto simp: length_ge_numeral_conv length_le_Cons_conv)
  have "r = take 16 r @ drop 16 r" by simp
  then show ?thesis by (simp add: d wire_simps)
qed

lemma DecodeHeader_wire:
  assumes "length (pk_Authenticator p) = 16" "20 + WireSize (pk_Attributes p) \<le> 4096"
  shows "radius_DecodeHeader (wirePacket p @ pad) =
    Inr \<lparr>rh_Code = pk_Code p, rh_Identifier = pk_Identifier p,
         rh_Length = of_nat (20 + WireSize (pk_Attributes p)), rh_Authenticator = pk_Authenticator p\<rparr>"
  using assms
  by (simp add: radius_DecodeHeader_def wirePacket_def PutUint16_BE_def wire_simps del: of_nat_add)

lemma drop_wirePacket:
  "length (pk_Authenticator p) = 16 \<Longrightarrow> drop 20 (wirePacket p) = wireOf rawItem (pk_Attributes p)"
  by (simp add: wirePacket_def PutUint16_BE_def)

lemma DecodeBounded_wire:
  assumes auth: "length (pk_Authenticator p) = 16" and fits: "packetFits b p"
  shows "DecodeBounded (wirePacket p @ pad) b = Inr p"
proof -
  let ?n = "20 + WireSize (pk_Attributes p)"
  have n: "?n \<le> 4096" "int ?n \<le> b_MaxPacketBytes (Bounds_normalized b)"
    using fits Bounds_normalized_range(2) [of b] by (auto simp: packetFits_def)
  have un: "unat (of_nat ?n :: uint16) = ?n"
    using n(1) by (intro unat_of_nat_u16) simp
  have "attribute_Decode (wireOf rawItem (pk_Attributes p)) (b_MaxAttributes (Bounds_normalized b))
      (b_MaxValueBytes (Bounds_normalized b)) = Inr (pk_Attributes p)"
    using fits Bounds_normalized_range(3,4) [of b]
    by (intro attrs.parse_wire) (simp add: packetFits_def setFits_def capOr_def)
  then show ?thesis
    using n length_wirePacket [OF auth]
    by (simp add: DecodeBounded_def DecodeHeader_wire [OF auth n(1)] un drop_wirePacket [OF auth] Let_def del: of_nat_add)
qed

lemma DecodeBounded_sound:
  assumes "DecodeBounded d b = Inr p"
  shows "length (pk_Authenticator p) = 16 \<and> packetFits b p \<and> (\<exists>pad. d = wirePacket p @ pad)"
proof -
  let ?l = "Uint16_BE (d ! 2) (d ! 3)"
  let ?bn = "Bounds_normalized b"
  from assms have len: "20 \<le> length d" and lo: "20 \<le> unat ?l" and hi: "int (unat ?l) \<le> b_MaxPacketBytes ?bn"
    and le: "unat ?l \<le> length d"
    and dec: "attribute_Decode (drop 20 (take (unat ?l) d)) (b_MaxAttributes ?bn) (b_MaxValueBytes ?bn) =
        Inr (pk_Attributes p)"
    and p: "pk_Code p = d ! 0" "pk_Identifier p = d ! 1" "pk_Authenticator p = take 16 (drop 4 d)"
    by (auto simp: DecodeBounded_def radius_DecodeHeader_def Let_def result_simps split: if_splits)
  from attrs.parse_sound [OF dec] attrs.parse_fits [OF dec]
  have wire: "wireOf rawItem (pk_Attributes p) = drop 20 (take (unat ?l) d)"
    and fits: "setFits (capOr (b_MaxAttributes ?bn) 256) (capOr (b_MaxValueBytes ?bn) 4096) (pk_Attributes p)"
    by auto
  have size: "20 + WireSize (pk_Attributes p) = unat ?l"
    using arg_cong [OF wire, of length] lo le by simp
  let ?t = "take (unat ?l) d"
  have t: "?t ! 0 = d ! 0" "?t ! 1 = d ! 1" "?t ! 2 = d ! 2" "?t ! 3 = d ! 3"
    "take 16 (drop 4 ?t) = take 16 (drop 4 d)"
    using lo by (simp_all add: drop_take take_take)
  have "20 \<le> length ?t" using lo le by simp
  from header_split [OF this, unfolded t]
  have "?t = wirePacket p"
    unfolding wirePacket_def size wire p by simp
  then have "d = wirePacket p @ drop (unat ?l) d" by (metis append_take_drop_id)
  moreover have "packetFits b p"
    using fits hi size Bounds_normalized_range(3,4) [of b]
    by (simp add: packetFits_def setFits_def capOr_def split: if_splits)
  moreover have "length (pk_Authenticator p) = 16" using p(3) len by simp
  ultimately show ?thesis by blast
qed


subsection \<open>Properties\<close>

text \<open>
  Property C38. The decoder accepts exactly the datagrams that start with an encoding: a datagram
  decodes to a packet if and only if the packet has a 16-octet authenticator, encodes under
  the same bounds, and the datagram is that encoding followed by any padding. In particular
  decoding after encoding is the identity and the octets past the declared length are
  ignored.
\<close>

theorem radius_packet_codec:
  "DecodeBounded d b = Inr p \<longleftrightarrow>
     length (pk_Authenticator p) = 16 \<and> (\<exists>w pad. EncodeBounded p b = Inr w \<and> d = w @ pad)"
  using DecodeBounded_wire DecodeBounded_sound by (fastforce simp: EncodeBounded_Inr)

text \<open>
  Whatever the configured bounds, a decoded packet is small: the encoding of its
  attributes fits the 4096-octet packet limit and the datagram, every value has at most 253
  octets, and with the default bounds there are at most 256 attributes. A datagram that is
  refused has a discard reason that is not empty.
\<close>

theorem radius_decode_bounds:
  "case DecodeBounded d b of
     Inl e \<Rightarrow> DiscardReason (Some e) \<noteq> ''''
   | Inr p \<Rightarrow> 20 + WireSize (pk_Attributes p) \<le> min 4096 (length d) \<and>
       list_all rawFits (pk_Attributes p) \<and>
       (b = DefaultBounds \<longrightarrow> length (pk_Attributes p) \<le> 256)"
proof (cases "DecodeBounded d b")
  case (Inr p)
  from DecodeBounded_sound [OF this] obtain pad where auth: "length (pk_Authenticator p) = 16"
    and fits: "packetFits b p" and d: "d = wirePacket p @ pad" by blast
  have "int (20 + WireSize (pk_Attributes p)) \<le> 4096"
    using fits Bounds_normalized_range(2) [of b] by (auto simp: packetFits_def)
  with fits d length_wirePacket [OF auth] Inr show ?thesis
    by (auto simp: packetFits_def)
qed (auto simp: DiscardReason_def)

definition wit_packet :: Packet where
  "wit_packet = \<lparr>pk_Code = 1, pk_Identifier = 7, pk_Authenticator = replicate 16 9,
     pk_Attributes = [\<lparr>raw_Type = 1, raw_Value = [98, 111, 98]\<rparr>]\<rparr>"

theorem radius_decode_bounds_witness:
  "DecodeBounded ([1, 7, 0, 25] @ replicate 16 9 @ [1, 5, 98, 111, 98]) DefaultBounds = Inr wit_packet
   \<and> length (pk_Attributes wit_packet) \<le> 256"
proof -
  have dec: "DecodeBounded ([1, 7, 0, 25] @ replicate 16 9 @ [1, 5, 98, 111, 98]) DefaultBounds = Inr wit_packet"
    using DecodeBounded_wire [of wit_packet DefaultBounds "[]"]
    by (simp add: wit_packet_def wirePacket_def packetFits_def
        WireLength_def rawItem_def rawFits_def PutUint16_BE_def)
  with radius_decode_bounds [of "[1, 7, 0, 25] @ replicate 16 9 @ [1, 5, 98, 111, 98]" DefaultBounds]
  show ?thesis by simp
qed

end
