(* ===== verification/Radius_Crypto.thy ===== *)
theory Radius_Crypto
  imports Radius_Codec Go_Crypto
begin

text \<open>
  RADIUS authenticators and User-Password hiding, from \<open>internal/radius/crypto\<close>
  (\<open>packet.go\<close>, \<open>hash.go\<close>, \<open>accounting.go\<close>, \<open>response.go\<close>, \<open>message_authenticator.go\<close>,
  \<open>dynauth.go\<close>, \<open>user_password.go\<close>). A validator returns \<open>Inr ()\<close> where the Go function returns a nil
  error. \<open>subtle.ConstantTimeCompare\<close> is equality of the two slices; wiping buffers has no
  observable result.
\<close>

definition declaredHeader :: "bytes \<Rightarrow> radius_err + (RadiusHeader \<times> bytes)" where
  "declaredHeader packet =
     (if length packet < RadiusHeaderSize then Inl ErrPacketShort
      else rbind (radius_DecodeHeader packet) (\<lambda>h.
        let n = unat (rh_Length h)
        in if int n < MinPacketBytes \<or> int n > MaxPacketBytes \<or> n > length packet
           then Inl ErrCryptoInvalidLength
           else Inr (h, take n packet)))"

definition md5Concat :: "bytes list \<Rightarrow> bytes" where
  "md5Concat parts = md5 (concat parts)"

abbreviation (input) zero16 :: bytes where "zero16 \<equiv> replicate 16 0"
abbreviation (input) messageAuthenticatorWireLen :: nat where "messageAuthenticatorWireLen \<equiv> 18"

subsection \<open>Accounting-Request Authenticator\<close>

text \<open>The loop of \<open>zeroAccountingMA\<close>, on the attributes from \<open>off\<close> on.\<close>

function zeroAccountingMA :: "bytes \<Rightarrow> bytes" where
  "zeroAccountingMA [] = []"
| "zeroAccountingMA [b] = [b]"
| "zeroAccountingMA (ty # l # body) =
     (if unat l < 2 \<or> unat l > length body + 2 then ty # l # body
      else ty # l # (if ty = TypeMessageAuthenticator \<and> unat l = messageAuthenticatorWireLen
                     then zero16 else take (unat l - 2) body)
           @ zeroAccountingMA (drop (unat l - 2) body))"
  by pat_completeness auto
termination
  by (relation "measure length") auto

definition AccountingRequestAuthenticator :: "bytes \<Rightarrow> bytes \<Rightarrow> radius_err + bytes" where
  "AccountingRequestAuthenticator secret packetWithoutAuth =
     (if length secret = 0 then Inl ErrEmptySecret
      else rbind (declaredHeader packetWithoutAuth) (\<lambda>(h, declared).
        let attrs = zeroAccountingMA (drop RadiusHeaderSize declared)
        in Inr (md5Concat [take 4 declared, zero16, attrs, secret])))"

definition ValidateAccountingRequestAuthenticator :: "bytes \<Rightarrow> bytes \<Rightarrow> radius_err + unit" where
  "ValidateAccountingRequestAuthenticator secret packet =
     rbind (declaredHeader packet) (\<lambda>(h, declared).
     rbind (AccountingRequestAuthenticator secret packet) (\<lambda>want.
     if rh_Authenticator h \<noteq> want then Inl ErrInvalidAccountingAuthenticator else Inr ()))"

subsection \<open>Response Authenticator\<close>

definition ResponseAuthenticator ::
  "bytes \<Rightarrow> Code \<Rightarrow> byte \<Rightarrow> uint16 \<Rightarrow> bytes \<Rightarrow> RawSet \<Rightarrow> radius_err + bytes" where
  "ResponseAuthenticator secret code ident len reqAuth attrs =
     (if length secret = 0 then Inl ErrEmptySecret
      else rbind (attribute_Encode attrs) (\<lambda>attrBytes.
        let computed = (of_nat (RadiusHeaderSize + length attrBytes) :: uint16);
            len' = (if len = 0 then computed else len)
        in if len' \<noteq> computed then Inl ErrCryptoLengthMismatch
           else Inr (md5Concat [code # ident # PutUint16_BE len', reqAuth, attrBytes, secret])))"

definition ValidateResponseAuthenticator :: "bytes \<Rightarrow> bytes \<Rightarrow> bytes \<Rightarrow> radius_err + unit" where
  "ValidateResponseAuthenticator secret packet reqAuth =
     rbind (declaredHeader packet) (\<lambda>(h, declared).
     rbind (attribute_Decode (drop RadiusHeaderSize declared) 0 0) (\<lambda>attrs.
     rbind (ResponseAuthenticator secret (rh_Code h) (rh_Identifier h) (rh_Length h) reqAuth attrs) (\<lambda>want.
     if rh_Authenticator h \<noteq> want then Inl ErrInvalidResponseAuthenticator else Inr ())))"

subsection \<open>Message-Authenticator\<close>

definition messageAuthenticatorValue :: "bytes \<Rightarrow> radius_err + bytes" where
  "messageAuthenticatorValue packet =
     rbind (declaredHeader packet) (\<lambda>(h, declared).
     rbind (attribute_Decode (drop RadiusHeaderSize declared) 0 0) (\<lambda>attrs.
     case AllOf attrs TypeMessageAuthenticator of
       [] \<Rightarrow> Inl ErrMissingMessageAuthenticator
     | [a] \<Rightarrow> if length (raw_Value a) \<noteq> AuthenticatorSize then Inl ErrInvalidMessageAuthenticator
              else Inr (raw_Value a)
     | _ \<Rightarrow> Inl ErrDuplicateMessageAuthenticator))"

text \<open>The clearing loop of \<open>packetWithZeroedMA\<close>: the octets from \<open>off\<close> on and the number cleared.\<close>

function clearLoop :: "bytes \<Rightarrow> nat \<Rightarrow> radius_err + (bytes \<times> nat)" where
  "clearLoop [] cleared = Inr ([], cleared)"
| "clearLoop [b] cleared = Inr ([b], cleared)"
| "clearLoop (ty # l # body) cleared =
     (if unat l < 2 \<or> unat l > length body + 2 then Inl ErrCryptoInvalidLength
      else if ty = TypeMessageAuthenticator then
        (if unat l \<noteq> messageAuthenticatorWireLen then Inl ErrInvalidMessageAuthenticator
         else rbind (clearLoop (drop (unat l - 2) body) (cleared + 1)) (\<lambda>(rest, n).
                Inr (ty # l # zero16 @ rest, n)))
      else rbind (clearLoop (drop (unat l - 2) body) cleared) (\<lambda>(rest, n).
             Inr (ty # l # take (unat l - 2) body @ rest, n)))"
  by pat_completeness auto
termination
  by (relation "measure (\<lambda>(p, _). length p)") auto

definition packetWithZeroedMA :: "bytes \<Rightarrow> radius_err + bytes" where
  "packetWithZeroedMA packet =
     rbind (declaredHeader packet) (\<lambda>(h, declared).
     rbind (attribute_Decode (drop RadiusHeaderSize declared) 0 0) (\<lambda>attrs.
     case AllOf attrs TypeMessageAuthenticator of
       [] \<Rightarrow> Inl ErrMissingMessageAuthenticator
     | [a] \<Rightarrow>
         if length (raw_Value a) \<noteq> AuthenticatorSize then Inl ErrInvalidMessageAuthenticator
         else rbind (clearLoop (drop RadiusHeaderSize declared) 0) (\<lambda>(work, cleared).
                if cleared \<noteq> 1 then Inl ErrInvalidMessageAuthenticator
                else Inr (take RadiusHeaderSize declared @ work))
     | _ \<Rightarrow> Inl ErrDuplicateMessageAuthenticator))"

definition MessageAuthenticator :: "bytes \<Rightarrow> bytes \<Rightarrow> radius_err + bytes" where
  "MessageAuthenticator secret packet =
     (if length secret = 0 then Inl ErrEmptySecret
      else rbind (packetWithZeroedMA packet) (\<lambda>work. Inr (hmac_md5 secret work)))"

definition ValidateMessageAuthenticator :: "bytes \<Rightarrow> bytes \<Rightarrow> radius_err + unit" where
  "ValidateMessageAuthenticator secret packet =
     (if length secret = 0 then Inl ErrEmptySecret
      else rbind (messageAuthenticatorValue packet) (\<lambda>got.
           rbind (MessageAuthenticator secret packet) (\<lambda>want.
           if got \<noteq> want then Inl ErrInvalidMessageAuthenticator else Inr ())))"

subsection \<open>Dynamic authorization requests\<close>

definition DynAuthRequestAuthenticator :: "bytes \<Rightarrow> bytes \<Rightarrow> radius_err + bytes" where
  "DynAuthRequestAuthenticator secret packet =
     (if length secret = 0 then Inl ErrEmptySecret
      else rbind (declaredHeader packet) (\<lambda>(h, declared).
        Inr (md5Concat [take 4 declared, zero16, drop RadiusHeaderSize declared, secret])))"

definition ValidateDynAuthRequestAuthenticator :: "bytes \<Rightarrow> bytes \<Rightarrow> radius_err + unit" where
  "ValidateDynAuthRequestAuthenticator secret packet =
     rbind (declaredHeader packet) (\<lambda>(h, declared).
     rbind (DynAuthRequestAuthenticator secret packet) (\<lambda>want.
     if rh_Authenticator h \<noteq> want then Inl ErrInvalidDynAuthAuthenticator else Inr ()))"

definition DynAuthMessageAuthenticator :: "bytes \<Rightarrow> bytes \<Rightarrow> radius_err + bytes" where
  "DynAuthMessageAuthenticator secret packet =
     (if length secret = 0 then Inl ErrEmptySecret
      else rbind (packetWithZeroedMA packet) (\<lambda>work.
        Inr (hmac_md5 secret (take 4 work @ zero16 @ drop RadiusHeaderSize work))))"

definition ValidateDynAuthMessageAuthenticator :: "bytes \<Rightarrow> bytes \<Rightarrow> radius_err + unit" where
  "ValidateDynAuthMessageAuthenticator secret packet =
     rbind (messageAuthenticatorValue packet) (\<lambda>got.
     rbind (DynAuthMessageAuthenticator secret packet) (\<lambda>want.
     if got \<noteq> want then Inl ErrInvalidMessageAuthenticator else Inr ()))"

subsection \<open>User-Password hiding\<close>

abbreviation (input) MaxUserPassword :: nat where "MaxUserPassword \<equiv> 128"
abbreviation (input) hiddenBlock :: nat where "hiddenBlock \<equiv> 16"

text \<open>
  The block loop of \<open>HideUserPassword\<close>: \<open>prev\<close> is the request authenticator for the first
  block and the previous hidden block for the others.
\<close>

function hideLoop :: "bytes \<Rightarrow> bytes \<Rightarrow> bytes \<Rightarrow> bytes" where
  "hideLoop secret prev padded =
     (if padded = [] then []
      else (let c = xorBytes (take hiddenBlock padded) (md5 (secret @ prev))
            in c @ hideLoop secret c (drop hiddenBlock padded)))"
  by pat_completeness auto
termination
  by (relation "measure (\<lambda>(_, _, p). length p)") auto

declare hideLoop.simps [simp del]

definition HideUserPassword :: "bytes \<Rightarrow> bytes \<Rightarrow> bytes \<Rightarrow> radius_err + bytes" where
  "HideUserPassword secret reqAuth password =
     (if length secret = 0 then Inl ErrEmptySecret
      else if length password > MaxUserPassword then Inl ErrPasswordTooLong
      else (let n = (length password + hiddenBlock - 1) div hiddenBlock * hiddenBlock;
                n = (if n = 0 then hiddenBlock else n);
                padded = password @ replicate (n - length password) 0
            in Inr (hideLoop secret reqAuth padded)))"

function unhideLoop :: "bytes \<Rightarrow> bytes \<Rightarrow> bytes \<Rightarrow> bytes" where
  "unhideLoop secret prev hidden =
     (if hidden = [] then []
      else xorBytes (take hiddenBlock hidden) (md5 (secret @ prev))
           @ unhideLoop secret (take hiddenBlock hidden) (drop hiddenBlock hidden))"
  by pat_completeness auto
termination
  by (relation "measure (\<lambda>(_, _, h). length h)") auto

declare unhideLoop.simps [simp del]

text \<open>The loop that drops the trailing NUL octets.\<close>

definition stripNUL :: "bytes \<Rightarrow> bytes" where
  "stripNUL plain = rev (dropWhile (\<lambda>b. b = 0) (rev plain))"

definition UnhideUserPassword :: "bytes \<Rightarrow> bytes \<Rightarrow> bytes \<Rightarrow> radius_err + bytes" where
  "UnhideUserPassword secret reqAuth hidden =
     (if length secret = 0 then Inl ErrEmptySecret
      else if length hidden < hiddenBlock \<or> length hidden > MaxUserPassword \<or> length hidden mod hiddenBlock \<noteq> 0
      then Inl ErrHiddenPassword
      else Inr (stripNUL (unhideLoop secret reqAuth hidden)))"

subsection \<open>Hiding and unhiding\<close>

lemma length_hideLoop: "length (hideLoop secret prev p) = length p"
proof (induction secret prev p rule: hideLoop.induct)
  case (1 secret prev p)
  then show ?case by (subst hideLoop.simps) (auto simp: Let_def)
qed

lemma unhide_hide: "length p mod 16 = 0 \<Longrightarrow> unhideLoop secret prev (hideLoop secret prev p) = p"
proof (induction secret prev p rule: hideLoop.induct)
  case (1 secret prev p)
  show ?case
  proof (cases "p = []")
    case False
    let ?c = "xorBytes (take 16 p) (md5 (secret @ prev))"
    have len: "16 \<le> length p" using "1.prems" False by (cases "length p < 16") auto
    then have c: "length ?c = 16" by simp
    then have ne: "?c \<noteq> []" by force
    have "length (drop 16 p) mod 16 = 0" using "1.prems" len by (simp add: mod_if)
    with "1.IH" False have "unhideLoop secret ?c (hideLoop secret ?c (drop 16 p)) = drop 16 p" by simp
    moreover have "hideLoop secret prev p = ?c @ hideLoop secret ?c (drop 16 p)"
      using False by (subst hideLoop.simps) (simp add: Let_def)
    moreover have "xorBytes ?c (md5 (secret @ prev)) = take 16 p"
      by (rule xorBytes_cancel) simp
    ultimately show ?thesis using c ne by (subst unhideLoop.simps) simp
  qed (simp add: hideLoop.simps unhideLoop.simps)
qed

lemma stripNUL_pad: "stripNUL (p @ replicate k 0) = stripNUL p"
  by (induction k) (simp_all add: stripNUL_def replicate_append_same flip: append_assoc)

lemma stripNUL_id: "p = [] \<or> last p \<noteq> 0 \<Longrightarrow> stripNUL p = p"
  by (induction p rule: rev_induct) (auto simp: stripNUL_def)

lemma stripNUL_split: "\<exists>k. p = stripNUL p @ replicate k 0"
proof (induction p rule: rev_induct)
  case (snoc b p)
  then obtain k where k: "p = stripNUL p @ replicate k 0" by blast
  show ?case
  proof (cases "b = 0")
    case True
    then have "stripNUL (p @ [b]) = stripNUL p" by (simp add: stripNUL_def)
    with True k show ?thesis
      by (metis append_assoc replicate_Suc replicate_append_same)
  qed (simp add: stripNUL_id)
qed (simp add: stripNUL_def)

lemma padded_length:
  fixes n :: nat
  assumes "n \<le> 128"
  defines "m \<equiv> (n + 16 - 1) div 16 * 16"
  defines "k \<equiv> if m = 0 then 16 else m"
  shows "16 \<le> k" "k \<le> 128" "k mod 16 = 0" "n \<le> k"
  using assms(1) unfolding k_def m_def by auto

text \<open>
  A hidden password has 16 to 128 octets, a multiple of 16, and revealing it with
  the same secret and request authenticator gives back the password up to trailing NUL
  octets, so exactly the password when it does not end in NUL. Hiding fails only with an
  empty secret or a password longer than 128 octets.
\<close>

theorem user_password_round_trip:
  "case HideUserPassword secret reqAuth pw of
     Inl e \<Rightarrow> (e = ErrEmptySecret \<and> secret = []) \<or> (e = ErrPasswordTooLong \<and> length pw > 128)
   | Inr hidden \<Rightarrow> 16 \<le> length hidden \<and> length hidden \<le> 128 \<and> length hidden mod 16 = 0 \<and>
       (\<exists>k. UnhideUserPassword secret reqAuth hidden = Inr (stripNUL pw) \<and> pw = stripNUL pw @ replicate k 0)"
proof (cases "secret = [] \<or> length pw > 128")
  case False
  let ?m = "(length pw + 16 - 1) div 16 * 16"
  let ?n = "if ?m = 0 then 16 else ?m"
  let ?p = "pw @ replicate (?n - length pw) 0"
  have n: "16 \<le> ?n" "?n \<le> 128" "?n mod 16 = 0" "length pw \<le> ?n"
    using False by (intro padded_length; simp)+
  then have len: "length ?p = ?n" by simp
  have hide: "HideUserPassword secret reqAuth pw = Inr (hideLoop secret reqAuth ?p)"
    using False by (simp add: HideUserPassword_def Let_def)
  have "UnhideUserPassword secret reqAuth (hideLoop secret reqAuth ?p) = Inr (stripNUL pw)"
    using False n len by (simp add: UnhideUserPassword_def length_hideLoop unhide_hide stripNUL_pad)
  with hide n len stripNUL_split [of pw] show ?thesis
    by (simp add: length_hideLoop)
qed (auto simp: HideUserPassword_def)

subsection \<open>Authenticators of an encoded packet\<close>

text \<open>
  A packet that fits the default bounds, with its 16-octet authenticator: what the encoder
  writes and the validators read.
\<close>

definition signable :: "Packet \<Rightarrow> bool" where
  "signable p \<longleftrightarrow> length (pk_Authenticator p) = 16 \<and> packetFits DefaultBounds p"

definition headerOf :: "Packet \<Rightarrow> RadiusHeader" where
  "headerOf p = \<lparr>rh_Code = pk_Code p, rh_Identifier = pk_Identifier p,
     rh_Length = of_nat (20 + WireSize (pk_Attributes p)), rh_Authenticator = pk_Authenticator p\<rparr>"

definition head4 :: "Packet \<Rightarrow> bytes" where
  "head4 p = pk_Code p # pk_Identifier p # PutUint16_BE (of_nat (20 + WireSize (pk_Attributes p)))"

definition zeroMA :: "RawSet \<Rightarrow> RawSet" where
  "zeroMA s = map (\<lambda>a. if raw_Type a = TypeMessageAuthenticator \<and> length (raw_Value a) = 16
                       then a\<lparr>raw_Value := zero16\<rparr> else a) s"

lemma signable_size: "signable p \<Longrightarrow> 20 + WireSize (pk_Attributes p) \<le> 4096"
  by (simp add: signable_def packetFits_def)

lemma signable_rawFits: "signable p \<Longrightarrow> list_all rawFits (pk_Attributes p)"
  by (simp add: signable_def packetFits_def)

lemma wirePacket_head4: "wirePacket p = head4 p @ pk_Authenticator p @ wireOf rawItem (pk_Attributes p)"
  by (simp add: wirePacket_def head4_def)

lemma length_head4 [simp]: "length (head4 p) = 4"
  by (simp add: head4_def)

lemma take_head4 [simp]: "take 4 (wirePacket p) = head4 p"
  by (simp add: wirePacket_head4)

lemma declaredHeader_wire:
  assumes "signable p"
  shows "declaredHeader (wirePacket p) = Inr (headerOf p, wirePacket p)"
proof -
  let ?n = "20 + WireSize (pk_Attributes p)"
  have auth: "length (pk_Authenticator p) = 16" using assms by (simp add: signable_def)
  have n: "?n \<le> 4096" by (rule signable_size [OF assms])
  have un: "unat (of_nat ?n :: uint16) = ?n" using n by (intro unat_of_nat_u16) simp
  show ?thesis
    using DecodeHeader_wire [OF auth n, of "[]"] length_wirePacket [OF auth] n un
    by (simp add: declaredHeader_def headerOf_def Let_def del: of_nat_add)
qed

lemma attrs_wire:
  assumes "signable p"
  shows "attribute_Decode (drop 20 (wirePacket p)) 0 0 = Inr (pk_Attributes p)"
proof -
  have "attribute_Decode (wireOf rawItem (pk_Attributes p)) 0 0 = Inr (pk_Attributes p)"
    using assms by (intro attrs.parse_wire) (simp add: signable_def packetFits_def setFits_def capOr_def)
  then show ?thesis using assms by (simp add: drop_wirePacket signable_def)
qed

lemma zeroMA_sizes [simp]:
  "WireSize (zeroMA s) = WireSize s" "length (zeroMA s) = length s" "ValueBytes (zeroMA s) = ValueBytes s"
  "list_all rawFits (zeroMA s) = list_all rawFits s"
  by (induction s) (auto simp: zeroMA_def WireLength_def rawFits_def)

lemma zeroMA_Cons:
  "zeroMA (a # s) = (if raw_Type a = 80 \<and> length (raw_Value a) = 16 then a\<lparr>raw_Value := zero16\<rparr> else a) # zeroMA s"
  by (simp add: zeroMA_def)

lemma zeroAccountingMA_wire:
  "list_all rawFits s \<Longrightarrow> zeroAccountingMA (wireOf rawItem s) = wireOf rawItem (zeroMA s)"
proof (induction s)
  case (Cons a s)
  then have "unat (of_nat (2 + length (raw_Value a)) :: byte) = 2 + length (raw_Value a)"
    by (intro unat_item_length) (simp add: rawFits_def)
  with Cons show ?case
    by (simp add: rawItem_def [of a] rawItem_def [of "a\<lparr>raw_Value := zero16\<rparr>"] zeroMA_Cons del: of_nat_add)
qed (simp add: zeroMA_def)

lemma clearLoop_wire:
  "\<lbrakk>list_all rawFits s; \<forall>a\<in>set s. raw_Type a = 80 \<longrightarrow> length (raw_Value a) = 16\<rbrakk> \<Longrightarrow>
     clearLoop (wireOf rawItem s) n = Inr (wireOf rawItem (zeroMA s), n + length (AllOf s 80))"
proof (induction s arbitrary: n)
  case (Cons a s)
  then have "unat (of_nat (2 + length (raw_Value a)) :: byte) = 2 + length (raw_Value a)"
    by (intro unat_item_length) (simp add: rawFits_def)
  with Cons show ?case
    by (simp add: rawItem_def [of a] rawItem_def [of "a\<lparr>raw_Value := zero16\<rparr>"] zeroMA_Cons del: of_nat_add)
qed (simp add: zeroMA_def)


lemma ValidateResponse_wire:
  assumes "signable p"
  shows "ValidateResponseAuthenticator secret (wirePacket p) reqAuth = Inr () \<longleftrightarrow>
     secret \<noteq> [] \<and> pk_Authenticator p = md5 (head4 p @ reqAuth @ wireOf rawItem (pk_Attributes p) @ secret)"
  using signable_rawFits [OF assms]
  by (auto simp: ValidateResponseAuthenticator_def declaredHeader_wire [OF assms] attrs_wire [OF assms]
      ResponseAuthenticator_def attribute_Encode_spec headerOf_def head4_def md5Concat_def Let_def)

lemma ValidateAccounting_wire:
  assumes "signable p"
  shows "ValidateAccountingRequestAuthenticator secret (wirePacket p) = Inr () \<longleftrightarrow>
     secret \<noteq> [] \<and>
     pk_Authenticator p = md5 (head4 p @ zero16 @ wireOf rawItem (zeroMA (pk_Attributes p)) @ secret)"
proof -
  have "drop 20 (wirePacket p) = wireOf rawItem (pk_Attributes p)"
    using assms by (simp add: drop_wirePacket signable_def)
  then show ?thesis
    using zeroAccountingMA_wire [OF signable_rawFits [OF assms]]
    by (auto simp: ValidateAccountingRequestAuthenticator_def AccountingRequestAuthenticator_def
        declaredHeader_wire [OF assms] headerOf_def md5Concat_def Let_def)
qed

text \<open>The one Message-Authenticator of an attribute list, if there is exactly one of 16 octets.\<close>

definition theMA :: "RawSet \<Rightarrow> bytes option" where
  "theMA s = (case AllOf s TypeMessageAuthenticator of
     [a] \<Rightarrow> if length (raw_Value a) = 16 then Some (raw_Value a) else None | _ \<Rightarrow> None)"

lemma theMA_SomeE:
  assumes "theMA s = Some v"
  obtains a where "AllOf s 80 = [a]" "raw_Value a = v" "length v = 16"
  using assms by (auto simp: theMA_def split: list.splits if_splits)

lemma AllOf_member: "a \<in> set s \<Longrightarrow> raw_Type a = ty \<Longrightarrow> a \<in> set (AllOf s ty)"
  by (simp add: AllOf_filter)

lemma messageAuthenticatorValue_wire:
  assumes "signable p"
  shows "messageAuthenticatorValue (wirePacket p) = Inr v \<longleftrightarrow> theMA (pk_Attributes p) = Some v"
  by (auto simp: messageAuthenticatorValue_def declaredHeader_wire [OF assms] attrs_wire [OF assms]
      theMA_def split: list.splits)

lemma messageAuthenticatorValue_None:
  assumes "signable p" "theMA (pk_Attributes p) = None"
  obtains e where "messageAuthenticatorValue (wirePacket p) = Inl e"
  using messageAuthenticatorValue_wire [OF assms(1)] assms(2)
  by (cases "messageAuthenticatorValue (wirePacket p)") auto

lemma packetWithZeroedMA_wire:
  assumes p: "signable p" and ma: "theMA (pk_Attributes p) = Some v"
  shows "packetWithZeroedMA (wirePacket p) = Inr (wirePacket (p\<lparr>pk_Attributes := zeroMA (pk_Attributes p)\<rparr>))"
proof -
  from ma obtain a where a: "AllOf (pk_Attributes p) 80 = [a]" "length (raw_Value a) = 16"
    by (auto elim: theMA_SomeE)
  have "\<forall>b\<in>set (pk_Attributes p). raw_Type b = 80 \<longrightarrow> length (raw_Value b) = 16"
    using AllOf_member [of _ "pk_Attributes p" 80] a by fastforce
  from clearLoop_wire [OF signable_rawFits [OF p] this]
  have "clearLoop (drop 20 (wirePacket p)) 0 = Inr (wireOf rawItem (zeroMA (pk_Attributes p)), 1)"
    using p a by (simp add: drop_wirePacket signable_def)
  moreover have "take 20 (wirePacket p) = head4 p @ pk_Authenticator p"
    using p by (simp add: wirePacket_head4 signable_def)
  moreover have "wirePacket (p\<lparr>pk_Attributes := zeroMA (pk_Attributes p)\<rparr>) =
      head4 p @ pk_Authenticator p @ wireOf rawItem (zeroMA (pk_Attributes p))"
    by (simp add: wirePacket_head4 head4_def)
  ultimately show ?thesis
    by (simp add: packetWithZeroedMA_def declaredHeader_wire [OF p] attrs_wire [OF p] a)
qed

lemma packetWithZeroedMA_None:
  assumes p: "signable p" and ma: "theMA (pk_Attributes p) = None"
  obtains e where "packetWithZeroedMA (wirePacket p) = Inl e"
  using ma that
  by (auto simp: packetWithZeroedMA_def declaredHeader_wire [OF p] attrs_wire [OF p] theMA_def
      split: list.splits if_splits)

lemma MessageAuthenticator_wire:
  assumes p: "signable p" and ma: "theMA (pk_Attributes p) = Some v" and s: "secret \<noteq> []"
  shows "MessageAuthenticator secret (wirePacket p) =
     Inr (hmac_md5 secret (wirePacket (p\<lparr>pk_Attributes := zeroMA (pk_Attributes p)\<rparr>)))"
  using s by (simp add: MessageAuthenticator_def packetWithZeroedMA_wire [OF p ma])

lemma ValidateMA_wire:
  assumes p: "signable p"
  shows "ValidateMessageAuthenticator secret (wirePacket p) = Inr () \<longleftrightarrow>
     secret \<noteq> [] \<and> theMA (pk_Attributes p) =
       Some (hmac_md5 secret (wirePacket (p\<lparr>pk_Attributes := zeroMA (pk_Attributes p)\<rparr>)))"
proof (cases "theMA (pk_Attributes p)")
  case None
  obtain e where "messageAuthenticatorValue (wirePacket p) = Inl e"
    by (rule messageAuthenticatorValue_None [OF p None])
  then show ?thesis by (simp add: ValidateMessageAuthenticator_def None)
next
  case (Some v)
  have "messageAuthenticatorValue (wirePacket p) = Inr v"
    using Some by (simp add: messageAuthenticatorValue_wire [OF p])
  then show ?thesis
    by (simp add: ValidateMessageAuthenticator_def MessageAuthenticator_def
        packetWithZeroedMA_wire [OF p Some] Some)
qed

lemma ValidateDynAuthMA_wire:
  assumes p: "signable p"
  shows "ValidateDynAuthMessageAuthenticator secret (wirePacket p) = Inr () \<longleftrightarrow>
     secret \<noteq> [] \<and> theMA (pk_Attributes p) =
       Some (hmac_md5 secret (wirePacket (p\<lparr>pk_Authenticator := zero16, pk_Attributes := zeroMA (pk_Attributes p)\<rparr>)))"
proof (cases "theMA (pk_Attributes p)")
  case None
  obtain e where "messageAuthenticatorValue (wirePacket p) = Inl e"
    by (rule messageAuthenticatorValue_None [OF p None])
  then show ?thesis by (simp add: ValidateDynAuthMessageAuthenticator_def None)
next
  case (Some v)
  let ?q = "p\<lparr>pk_Attributes := zeroMA (pk_Attributes p)\<rparr>"
  let ?r = "p\<lparr>pk_Authenticator := zero16, pk_Attributes := zeroMA (pk_Attributes p)\<rparr>"
  have "length (pk_Authenticator ?q) = 16" using p by (simp add: signable_def)
  then have "head4 ?q @ zero16 @ drop 20 (wirePacket ?q) = wirePacket ?r"
    by (simp add: drop_wirePacket) (simp add: wirePacket_head4 head4_def)
  moreover have "messageAuthenticatorValue (wirePacket p) = Inr v"
    using Some by (simp add: messageAuthenticatorValue_wire [OF p])
  ultimately show ?thesis
    by (simp add: ValidateDynAuthMessageAuthenticator_def DynAuthMessageAuthenticator_def
        packetWithZeroedMA_wire [OF p Some] Some)
qed

lemma ValidateDynAuthRequest_wire:
  assumes "signable p"
  shows "ValidateDynAuthRequestAuthenticator secret (wirePacket p) = Inr () \<longleftrightarrow>
     secret \<noteq> [] \<and> pk_Authenticator p = md5 (head4 p @ zero16 @ wireOf rawItem (pk_Attributes p) @ secret)"
proof -
  have "drop 20 (wirePacket p) = wireOf rawItem (pk_Attributes p)"
    using assms by (simp add: drop_wirePacket signable_def)
  then show ?thesis
    by (auto simp: ValidateDynAuthRequestAuthenticator_def DynAuthRequestAuthenticator_def
        declaredHeader_wire [OF assms] headerOf_def md5Concat_def Let_def)
qed

end
