(* ===== verification/Go_Netip.thy ===== *)
theory Go_Netip
  imports Go_Strings
begin

text \<open>
  What the program uses of Go's \<open>net\<close> and \<open>net/netip\<close>. An address value is kept as its
  canonical text, which identifies it (a zone is part of the text): \<open>None\<close> is the invalid
  address \<open>netip.Addr{}\<close>. An address and port is a pair. The printing of address octets,
  which the accounting handler uses for NAS addresses, is written out.
\<close>

type_synonym Addr = "string option"
type_synonym AddrPort = "string option \<times> uint16"

definition Addr_String :: "Addr \<Rightarrow> string" where
  "Addr_String a = (case a of None \<Rightarrow> ''invalid IP'' | Some t \<Rightarrow> t)"

text \<open>The text of an IPv6 address contains a colon, that of an IPv4 address does not.\<close>

definition AddrPort_String :: "AddrPort \<Rightarrow> string" where
  "AddrPort_String p =
     (case fst p of
        None \<Rightarrow> ''invalid AddrPort''
      | Some t \<Rightarrow> if CHR '':'' \<in> set t then ''['' @ t @ '']:'' @ Itoa (unat (snd p)) else t @ '':'' @ Itoa (unat (snd p)))"

definition IPv4_String :: "bytes \<Rightarrow> string" where
  "IPv4_String v = Join (map (\<lambda>b. Itoa (unat b)) v) ''.''"

text \<open>The eight groups of an IPv6 address, each printed in hexadecimal without leading zeros.\<close>

fun hextets :: "bytes \<Rightarrow> nat list" where
  "hextets (a # b # rest) = (256 * unat a + unat b) # hextets rest"
| "hextets _ = []"

definition appendHex :: "nat \<Rightarrow> string" where
  "appendHex n =
     (if n \<ge> 0x1000 then [hexDigit (n div 0x1000)] else []) @
     (if n \<ge> 0x100 then [hexDigit (n div 0x100 mod 16)] else []) @
     (if n \<ge> 0x10 then [hexDigit (n div 0x10 mod 16)] else []) @
     [hexDigit (n mod 16)]"

text \<open>The longest run of at least two zero groups, the first of several of the same length.\<close>

fun zeroRun :: "nat \<Rightarrow> nat list \<Rightarrow> nat \<times> nat \<Rightarrow> nat \<times> nat" where
  "zeroRun i [] best = best"
| "zeroRun i (g # gs) (s, e) =
     (let l = length (takeWhile (\<lambda>x. x = 0) (g # gs))
      in zeroRun (Suc i) gs (if l \<ge> 2 \<and> l > e - s then (i, i + l) else (s, e)))"

definition IPv6_String :: "bytes \<Rightarrow> string" where
  "IPv6_String v =
     (let gs = hextets v; (s, e) = zeroRun 0 gs (255, 255)
      in if s = 255 then Join (map appendHex gs) '':''
         else Join (map appendHex (take s gs)) '':'' @ ''::'' @ Join (map appendHex (drop e gs)) '':'')"

text \<open>\<open>net.IP.String\<close>: a 16-octet address in the IPv4-mapped block prints as IPv4.\<close>

definition IP_String :: "bytes \<Rightarrow> string" where
  "IP_String v =
     (if length v = 0 then ''<nil>''
      else if length v = 4 then IPv4_String v
      else if length v \<noteq> 16 then ''?'' @ EncodeToString v
      else if take 10 v = replicate 10 0 \<and> take 2 (drop 10 v) = [0xFF, 0xFF] then IPv4_String (drop 12 v)
      else IPv6_String v)"

end
