(* ===== verification/Radius_Reply.thy ===== *)
theory Radius_Reply
  imports Radius_Crypto Go_Netip
begin

text \<open>
  Signed RADIUS replies and the integrity gate, from \<open>internal/radius/server\<close>: \<open>reply.go\<close>,
  \<open>integrity.go\<close>, \<open>stub.go\<close> and \<open>CheckAccountingIntegrity\<close> of \<open>accounting.go\<close>. A discard reason
  is a string; the empty string is "no reason", as in the code. The request record has the
  fields that these functions and the accounting handler read.
\<close>

abbreviation (input) TypeProxyState :: byte where "TypeProxyState \<equiv> 33"
abbreviation (input) TypeEAPMessage :: byte where "TypeEAPMessage \<equiv> 79"

text \<open>\<open>domain.ListenerRole\<close> is a string type with these constants; any other string is \<open>RoleOther\<close>.\<close>

datatype ListenerRole =
    RoleAuthentication | RoleAuthorization | RoleAccounting | RoleAccess | RoleAdmin | RoleAAA
  | RoleDynamicAuthorization | RoleOther string

record RadiusRequest =
  rq_Role :: ListenerRole
  rq_Packet :: Packet
  rq_Declared :: bytes
  rq_Secret :: bytes
  rq_ClientID :: string
  rq_EndpointID :: string
  rq_Carrier :: string
  rq_ListenerID :: string
  rq_Revision :: uint64
  rq_Peer :: AddrPort
  rq_RequireMA :: bool
  rq_LimitProxyState :: bool
  rq_AllowedMethods :: "string list"
  rq_AcceptStatusTypes :: "string list"
  rq_TLSCertFP :: bytes

text \<open>\<open>requestCarrier\<close> of \<open>challenge.go\<close>: an empty carrier stands for UDP.\<close>

definition requestCarrier :: "RadiusRequest \<Rightarrow> string" where
  "requestCarrier q = (if rq_Carrier q \<noteq> '''' then rq_Carrier q else ''radius_udp'')"

datatype Action = ActionDiscard | ActionReply

record RadiusResult =
  rr_Action :: Action
  rr_Reason :: string
  rr_Response :: bytes
  rr_JournalSaturated :: bool

definition discard :: "string \<Rightarrow> RadiusResult" where
  "discard reason = \<lparr>rr_Action = ActionDiscard, rr_Reason = reason, rr_Response = [], rr_JournalSaturated = False\<rparr>"

subsection \<open>Signed replies\<close>

definition SignResponse :: "bytes \<Rightarrow> Code \<Rightarrow> byte \<Rightarrow> bytes \<Rightarrow> RawSet \<Rightarrow> radius_err + bytes" where
  "SignResponse secret code ident reqAuth rest =
     (if length secret = 0 then Inl ErrEmptySecret
      else (let attrs = \<lparr>raw_Type = TypeMessageAuthenticator, raw_Value = zero16\<rparr> # rest
            in rbind (radius_Encode \<lparr>pk_Code = code, pk_Identifier = ident, pk_Authenticator = reqAuth,
                                    pk_Attributes = attrs\<rparr>) (\<lambda>wire.
               rbind (MessageAuthenticator secret wire) (\<lambda>mac.
               if length wire < 20 + 2 + 16 \<or> wire ! 20 \<noteq> TypeMessageAuthenticator \<or> wire ! 21 \<noteq> 18
               then Inl ErrInvalidMessageAuthenticator
               else (let wire = take 22 wire @ mac @ drop 38 wire;
                         attrs = \<lparr>raw_Type = TypeMessageAuthenticator, raw_Value = mac\<rparr> # rest
                     in rbind (ResponseAuthenticator secret code ident 0 reqAuth attrs) (\<lambda>ra.
                          Inr (take 4 wire @ ra @ drop 20 wire)))))))"

definition CopyProxyState :: "RawSet \<Rightarrow> RawSet" where
  "CopyProxyState s = AllOf s TypeProxyState"

definition ReplyAccess :: "bytes \<Rightarrow> Code \<Rightarrow> byte \<Rightarrow> bytes \<Rightarrow> RawSet \<Rightarrow> RawSet \<Rightarrow> radius_err + bytes" where
  "ReplyAccess secret code ident reqAuth reqAttrs policy =
     (let rest = CopyProxyState reqAttrs;
          rest = (if length policy > 0 then rest @ policy else rest)
      in SignResponse secret code ident reqAuth rest)"

definition RejectAccess :: "bytes \<Rightarrow> byte \<Rightarrow> bytes \<Rightarrow> RawSet \<Rightarrow> radius_err + bytes" where
  "RejectAccess secret ident reqAuth reqAttrs =
     ReplyAccess secret CodeAccessReject ident reqAuth reqAttrs []"

subsection \<open>Integrity\<close>

definition declaredPacket :: "RadiusRequest \<Rightarrow> bytes" where
  "declaredPacket q =
     (if length (rq_Declared q) > 0 then rq_Declared q
      else case radius_Encode (rq_Packet q) of Inl _ \<Rightarrow> [] | Inr raw \<Rightarrow> raw)"

definition checkDynAuthIntegrity :: "RadiusRequest \<Rightarrow> string" where
  "checkDynAuthIntegrity q =
     (let mas = AllOf (pk_Attributes (rq_Packet q)) TypeMessageAuthenticator;
          declared = declaredPacket q
      in if length mas > 1 then ''discard_invalid_message_authenticator''
         else if length declared = 0 then ''discard_malformed_header''
         else if length mas = 0 then ''discard_missing_message_authenticator''
         else if ValidateDynAuthMessageAuthenticator (rq_Secret q) declared \<noteq> Inr ()
         then ''discard_invalid_message_authenticator''
         else if ValidateDynAuthRequestAuthenticator (rq_Secret q) declared \<noteq> Inr ()
         then ''discard_invalid_dynauth_request_authenticator''
         else '''')"

definition checkAccessIntegrity :: "RadiusRequest \<Rightarrow> string" where
  "checkAccessIntegrity q =
     (let attrs = pk_Attributes (rq_Packet q);
          mas = AllOf attrs TypeMessageAuthenticator;
          declared = declaredPacket q;
          maValid = (length mas = 1)
      in if length mas > 1 then ''discard_invalid_message_authenticator''
         else if length declared = 0 then ''discard_malformed_header''
         else if length mas = 1 \<and> ValidateMessageAuthenticator (rq_Secret q) declared \<noteq> Inr ()
         then ''discard_invalid_message_authenticator''
         else if length (AllOf attrs TypeEAPMessage) > 0 \<and> \<not> maValid then ''discard_eap_without_ma''
         else if rq_RequireMA q \<and> \<not> maValid then ''discard_missing_message_authenticator''
         else if rq_LimitProxyState q \<and> length (AllOf attrs TypeProxyState) > 0 \<and> \<not> maValid
         then ''discard_proxy_state_without_ma''
         else '''')"

definition checkAccountingMA :: "RadiusRequest \<Rightarrow> string" where
  "checkAccountingMA q =
     (let mas = AllOf (pk_Attributes (rq_Packet q)) TypeMessageAuthenticator
      in if length mas = 0 then ''''
         else if length mas > 1 then ''discard_invalid_message_authenticator''
         else if length (declaredPacket q) = 0 then ''discard_malformed_header''
         else if ValidateMessageAuthenticator (rq_Secret q) (declaredPacket q) \<noteq> Inr ()
         then ''discard_invalid_message_authenticator''
         else '''')"

definition CheckIntegrity :: "RadiusRequest \<Rightarrow> string" where
  "CheckIntegrity q =
     (case rq_Role q of
        RoleAccess \<Rightarrow> checkAccessIntegrity q
      | RoleAccounting \<Rightarrow> checkAccountingMA q
      | RoleDynamicAuthorization \<Rightarrow> checkDynAuthIntegrity q
      | _ \<Rightarrow> ''discard_invalid_code'')"

definition CheckAccountingIntegrity :: "bytes \<Rightarrow> bytes \<Rightarrow> Packet \<Rightarrow> string" where
  "CheckAccountingIntegrity secret declared pkt =
     (if ValidateAccountingRequestAuthenticator secret declared \<noteq> Inr ()
      then ''discard_invalid_accounting_request_authenticator''
      else case AllOf (pk_Attributes pkt) TypeMessageAuthenticator of
        [] \<Rightarrow> ''''
      | [a] \<Rightarrow> if ValidateMessageAuthenticator secret declared \<noteq> Inr ()
               then ''discard_invalid_message_authenticator'' else ''''
      | _ \<Rightarrow> ''discard_invalid_message_authenticator'')"

subsection \<open>The stub handler\<close>

definition signedReply :: "RadiusRequest \<Rightarrow> Code \<Rightarrow> string \<Rightarrow> bool \<Rightarrow> RadiusResult" where
  "signedReply q code reason saturated =
     (case SignResponse (rq_Secret q) code (pk_Identifier (rq_Packet q)) (pk_Authenticator (rq_Packet q))
             (CopyProxyState (pk_Attributes (rq_Packet q))) of
        Inl _ \<Rightarrow> discard ''discard_malformed_header''
      | Inr wire \<Rightarrow> \<lparr>rr_Action = ActionReply, rr_Reason = reason, rr_Response = wire,
                     rr_JournalSaturated = saturated\<rparr>)"

definition Stub_Handle :: "bool \<Rightarrow> RadiusRequest \<Rightarrow> RadiusResult" where
  "Stub_Handle ctxDone q =
     (if ctxDone then discard ''drop_overload''
      else case rq_Role q of
        RoleAccess \<Rightarrow>
          if pk_Code (rq_Packet q) \<noteq> CodeAccessRequest then discard ''discard_invalid_code''
          else signedReply q CodeAccessReject ''reject_unsupported_method'' False
      | RoleAccounting \<Rightarrow>
          if pk_Code (rq_Packet q) \<noteq> CodeAccountingRequest then discard ''discard_invalid_code''
          else if ValidateAccountingRequestAuthenticator (rq_Secret q) (rq_Declared q) \<noteq> Inr ()
          then discard ''discard_invalid_accounting_request_authenticator''
          else signedReply q CodeAccountingResponse ''ok'' False
      | _ \<Rightarrow> discard ''discard_invalid_code'')"

subsection \<open>What a signed reply is\<close>

definition maAttr :: "bytes \<Rightarrow> Raw" where
  "maAttr v = \<lparr>raw_Type = TypeMessageAuthenticator, raw_Value = v\<rparr>"

text \<open>The packet the Message-Authenticator is computed over, and the packet that is sent.\<close>

definition unsignedReply :: "Code \<Rightarrow> byte \<Rightarrow> bytes \<Rightarrow> RawSet \<Rightarrow> Packet" where
  "unsignedReply code ident reqAuth rest =
     \<lparr>pk_Code = code, pk_Identifier = ident, pk_Authenticator = reqAuth, pk_Attributes = maAttr zero16 # rest\<rparr>"

definition replyMAC :: "bytes \<Rightarrow> Code \<Rightarrow> byte \<Rightarrow> bytes \<Rightarrow> RawSet \<Rightarrow> bytes" where
  "replyMAC secret code ident reqAuth rest = hmac_md5 secret (wirePacket (unsignedReply code ident reqAuth rest))"

definition sentReply :: "bytes \<Rightarrow> Code \<Rightarrow> byte \<Rightarrow> bytes \<Rightarrow> RawSet \<Rightarrow> Packet" where
  "sentReply secret code ident reqAuth rest =
     (let p = unsignedReply code ident reqAuth rest;
          attrs = maAttr (replyMAC secret code ident reqAuth rest) # rest
      in \<lparr>pk_Code = code, pk_Identifier = ident,
          pk_Authenticator = md5 (head4 p @ reqAuth @ wireOf rawItem attrs @ secret),
          pk_Attributes = attrs\<rparr>)"

lemma zeroMA_none: "AllOf s 80 = [] \<Longrightarrow> zeroMA s = s"
  by (induction s) (auto simp: zeroMA_Cons zeroMA_def split: if_splits)

lemma theMA_maAttr: "length v = 16 \<Longrightarrow> theMA (maAttr v # s) = (if AllOf s 80 = [] then Some v else None)"
  by (auto simp: theMA_def maAttr_def split: list.splits)

lemma zeroMA_maAttr: "length v = 16 \<Longrightarrow> AllOf s 80 = [] \<Longrightarrow> zeroMA (maAttr v # s) = maAttr zero16 # s"
  by (simp add: zeroMA_Cons zeroMA_none) (simp add: maAttr_def)

lemma ma_sizes [simp]:
  "WireLength (maAttr v) = 2 + length v" "raw_Value (maAttr v) = v" "raw_Type (maAttr v) = 80"
  "rawFits (maAttr v) = (length v \<le> 253)"
  by (simp_all add: maAttr_def WireLength_def rawFits_def)

lemma rawItem_maAttr: "length v = 16 \<Longrightarrow> rawItem (maAttr v) = 80 # 18 # v"
  by (simp add: rawItem_def maAttr_def)

text \<open>Replacing the value of the leading Message-Authenticator, and the authenticator, in place.\<close>

lemma patch_ma:
  assumes "length (pk_Authenticator p) = 16" "length v = 16" "length m = 16"
  shows "take 22 (wirePacket (p\<lparr>pk_Attributes := maAttr v # rest\<rparr>)) @ m @
      drop 38 (wirePacket (p\<lparr>pk_Attributes := maAttr v # rest\<rparr>)) =
    wirePacket (p\<lparr>pk_Attributes := maAttr m # rest\<rparr>)"
  using assms by (simp add: wirePacket_def PutUint16_BE_def rawItem_maAttr)

lemma patch_authenticator:
  assumes "length (pk_Authenticator p) = 16"
  shows "take 4 (wirePacket p) @ a @ drop 20 (wirePacket p) = wirePacket (p\<lparr>pk_Authenticator := a\<rparr>)"
  using assms by (simp add: drop_wirePacket) (simp add: wirePacket_head4 head4_def)

lemma radius_Encode_Inr: "radius_Encode p = Inr w \<longleftrightarrow> packetFits DefaultBounds p \<and> w = wirePacket p"
  by (simp add: radius_Encode_def EncodeBounded_Inr)

lemma wirePacket_ma_layout:
  assumes "length (pk_Authenticator p) = 16" "length v = 16" "pk_Attributes p = maAttr v # rest"
  shows "\<not> length (wirePacket p) < 20 + 2 + 16" "wirePacket p ! 20 = 80" "wirePacket p ! 21 = 18"
  using assms by (simp_all add: wirePacket_def PutUint16_BE_def rawItem_maAttr nth_append)

lemma SignResponse_Inr:
  assumes auth: "length reqAuth = 16"
  shows "SignResponse secret code ident reqAuth rest = Inr w \<longleftrightarrow>
     secret \<noteq> [] \<and> AllOf rest 80 = [] \<and> packetFits DefaultBounds (unsignedReply code ident reqAuth rest) \<and>
     w = wirePacket (sentReply secret code ident reqAuth rest)"
proof (cases "secret \<noteq> [] \<and> packetFits DefaultBounds (unsignedReply code ident reqAuth rest)")
  case False
  then show ?thesis
    by (cases "radius_Encode (unsignedReply code ident reqAuth rest)")
      (auto simp: SignResponse_def radius_Encode_Inr Let_def unsignedReply_def maAttr_def)
next
  case True
  let ?p = "unsignedReply code ident reqAuth rest"
  let ?lit = "\<lparr>pk_Code = code, pk_Identifier = ident, pk_Authenticator = reqAuth,
      pk_Attributes = \<lparr>raw_Type = 80, raw_Value = zero16\<rparr> # rest\<rparr>"
  have lit: "?lit = ?p" by (simp add: unsignedReply_def maAttr_def)
  have p: "signable ?p" using True auth by (simp add: signable_def unsignedReply_def)
  have enc: "radius_Encode ?p = Inr (wirePacket ?p)" using True by (simp add: radius_Encode_Inr)
  have attrs: "pk_Attributes ?p = maAttr zero16 # rest" "length (pk_Authenticator ?p) = 16"
    using auth by (simp_all add: unsignedReply_def)
  show ?thesis
  proof (cases "AllOf rest 80 = []")
    case False
    then have "theMA (pk_Attributes ?p) = None" by (simp add: attrs theMA_maAttr)
    then obtain e where "packetWithZeroedMA (wirePacket ?p) = Inl e" by (rule packetWithZeroedMA_None [OF p])
    with True False show ?thesis
      unfolding SignResponse_def Let_def lit by (simp add: enc MessageAuthenticator_def)
  next
    case none: True
    let ?mac = "replyMAC secret code ident reqAuth rest"
    have ma: "theMA (pk_Attributes ?p) = Some zero16" using none by (simp add: attrs theMA_maAttr)
    have mac: "MessageAuthenticator secret (wirePacket ?p) = Inr ?mac"
      using MessageAuthenticator_wire [OF p ma] True none
      by (simp add: attrs zeroMA_maAttr replyMAC_def) (simp add: unsignedReply_def)
    have lm: "length ?mac = 16" by (simp add: replyMAC_def)
    have "wirePacket ?p = wirePacket (?p\<lparr>pk_Attributes := maAttr zero16 # rest\<rparr>)"
      by (simp add: unsignedReply_def)
    then have patched: "take 22 (wirePacket ?p) @ ?mac @ drop 38 (wirePacket ?p) =
        wirePacket (?p\<lparr>pk_Attributes := maAttr ?mac # rest\<rparr>)"
      using patch_ma [OF attrs(2) _ lm, of zero16 rest] by simp
    have fits: "list_all rawFits (maAttr ?mac # rest)"
      using True lm by (simp add: packetFits_def attrs)
    have ra: "ResponseAuthenticator secret code ident 0 reqAuth (maAttr ?mac # rest) =
        Inr (pk_Authenticator (sentReply secret code ident reqAuth rest))"
      using True fits lm
      by (simp add: ResponseAuthenticator_def attribute_Encode_spec md5Concat_def sentReply_def Let_def
          head4_def unsignedReply_def)
    have sent: "take 4 (wirePacket (?p\<lparr>pk_Attributes := maAttr ?mac # rest\<rparr>)) @
        pk_Authenticator (sentReply secret code ident reqAuth rest) @
        drop 20 (wirePacket (?p\<lparr>pk_Attributes := maAttr ?mac # rest\<rparr>)) =
        wirePacket (sentReply secret code ident reqAuth rest)"
      using patch_authenticator [of "?p\<lparr>pk_Attributes := maAttr ?mac # rest\<rparr>"] auth
      by (simp add: unsignedReply_def sentReply_def Let_def)
    have "SignResponse secret code ident reqAuth rest = Inr (wirePacket (sentReply secret code ident reqAuth rest))"
      unfolding SignResponse_def Let_def lit enc rbind_Inr mac
      unfolding patched maAttr_def [symmetric] ra rbind_Inr sent
      using True wirePacket_ma_layout [OF attrs(2) _ attrs(1)] by simp
    with True none show ?thesis by auto
  qed
qed


lemma sentReply_signable:
  assumes "length reqAuth = 16" "packetFits DefaultBounds (unsignedReply code ident reqAuth rest)"
  shows "signable (sentReply secret code ident reqAuth rest)"
    "signable (sentReply secret code ident reqAuth rest\<lparr>pk_Authenticator := reqAuth\<rparr>)"
  using assms by (simp_all add: signable_def sentReply_def unsignedReply_def packetFits_def replyMAC_def Let_def)

lemma sentReply_fields:
  "pk_Code (sentReply secret code ident reqAuth rest) = code"
  "pk_Identifier (sentReply secret code ident reqAuth rest) = ident"
  "pk_Attributes (sentReply secret code ident reqAuth rest) =
     maAttr (replyMAC secret code ident reqAuth rest) # rest"
  by (simp_all add: sentReply_def Let_def)

lemma signable_Decode: "signable p \<Longrightarrow> radius_Decode (wirePacket p) = Inr p"
  using DecodeBounded_wire [of p DefaultBounds "[]"] by (simp add: radius_Decode_def signable_def)

lemma sentReply_validates:
  assumes "length reqAuth = 16" "packetFits DefaultBounds (unsignedReply code ident reqAuth rest)"
    and "secret \<noteq> []"
  shows "ValidateResponseAuthenticator secret (wirePacket (sentReply secret code ident reqAuth rest)) reqAuth = Inr ()"
proof -
  let ?p = "sentReply secret code ident reqAuth rest"
  have eq: "pk_Authenticator ?p = md5 (head4 ?p @ reqAuth @ wireOf rawItem (pk_Attributes ?p) @ secret)"
    by (simp add: sentReply_def Let_def head4_def unsignedReply_def replyMAC_def)
  show ?thesis
    unfolding ValidateResponse_wire [OF sentReply_signable(1) [OF assms(1,2)]]
    by (rule conjI [OF assms(3) eq])
qed

lemma sentReply_ma_validates:
  assumes "length reqAuth = 16" "packetFits DefaultBounds (unsignedReply code ident reqAuth rest)"
    and "secret \<noteq> []" "AllOf rest 80 = []"
  shows "ValidateMessageAuthenticator secret
     (wirePacket (sentReply secret code ident reqAuth rest\<lparr>pk_Authenticator := reqAuth\<rparr>)) = Inr ()"
proof -
  let ?p = "sentReply secret code ident reqAuth rest\<lparr>pk_Authenticator := reqAuth\<rparr>"
  let ?mac = "replyMAC secret code ident reqAuth rest"
  have lm: "length ?mac = 16" by (simp add: replyMAC_def)
  have attrs: "pk_Attributes ?p = maAttr ?mac # rest" by (simp add: sentReply_fields)
  have "?p\<lparr>pk_Attributes := zeroMA (pk_Attributes ?p)\<rparr> = unsignedReply code ident reqAuth rest"
    using lm assms(4) by (simp add: attrs zeroMA_maAttr sentReply_def Let_def unsignedReply_def)
  then have eq: "theMA (pk_Attributes ?p) = Some (hmac_md5 secret (wirePacket (?p\<lparr>pk_Attributes := zeroMA (pk_Attributes ?p)\<rparr>)))"
    using assms(4) lm by (simp only: attrs theMA_maAttr [OF lm]) (simp add: replyMAC_def)
  show ?thesis
    unfolding ValidateMA_wire [OF sentReply_signable(2) [OF assms(1,2)]]
    by (rule conjI [OF assms(3) eq])
qed

subsection \<open>Properties\<close>

text \<open>
  Property C16. A signed reply verifies at the client: it decodes to the code and identifier asked
  for, with the Message-Authenticator first and the other attributes unchanged after it; its
  Response Authenticator is the one the client computes from the request authenticator; and
  with the request authenticator put back in the header its Message-Authenticator is valid.
  The attributes that follow never hold a second Message-Authenticator: signing them fails.
\<close>

theorem SignResponse_verifies:
  assumes "length reqAuth = 16" "SignResponse secret code ident reqAuth rest = Inr w"
  shows "(\<exists>p mac. radius_Decode w = Inr p \<and> pk_Code p = code \<and> pk_Identifier p = ident \<and>
       pk_Attributes p = \<lparr>raw_Type = 80, raw_Value = mac\<rparr> # rest \<and> AllOf rest 80 = [] \<and>
       length w \<le> 4096) \<and>
     ValidateResponseAuthenticator secret w reqAuth = Inr () \<and>
     ValidateMessageAuthenticator secret (take 4 w @ reqAuth @ drop 20 w) = Inr ()"
proof (intro conjI)
  let ?p = "sentReply secret code ident reqAuth rest"
  from assms have w: "w = wirePacket ?p" and s: "secret \<noteq> []" and none: "AllOf rest 80 = []"
    and fits: "packetFits DefaultBounds (unsignedReply code ident reqAuth rest)"
    by (simp_all add: SignResponse_Inr)
  have p: "signable ?p" by (rule sentReply_signable(1) [OF assms(1) fits])
  then have len: "length w \<le> 4096"
    using signable_size [OF p] by (simp add: w length_wirePacket signable_def)
  show "\<exists>p mac. radius_Decode w = Inr p \<and> pk_Code p = code \<and> pk_Identifier p = ident \<and>
       pk_Attributes p = \<lparr>raw_Type = 80, raw_Value = mac\<rparr> # rest \<and> AllOf rest 80 = [] \<and> length w \<le> 4096"
    using signable_Decode [OF p] none len by (auto simp: w sentReply_fields maAttr_def)
  show "ValidateResponseAuthenticator secret w reqAuth = Inr ()"
    unfolding w by (rule sentReply_validates [OF assms(1) fits s])
  show "ValidateMessageAuthenticator secret (take 4 w @ reqAuth @ drop 20 w) = Inr ()"
    using patch_authenticator [of ?p reqAuth] p sentReply_ma_validates [OF assms(1) fits s none]
    unfolding w by (simp only: signable_def)
qed

text \<open>
  Property C19. The integrity gate of the access role, for a request whose declared octets are the
  encoding of its packet: it passes if and only if the packet has no Message-Authenticator
  and none is needed (the endpoint does not require one, there is no EAP-Message, and no
  Proxy-State when Proxy-State is limited), or the packet has exactly one and it equals the
  HMAC-MD5 of the packet with that attribute zeroed, under the shared secret.
\<close>

theorem access_integrity_gate:
  assumes "rq_Role q = RoleAccess" "radius_Encode (rq_Packet q) = Inr (rq_Declared q)"
    and "length (pk_Authenticator (rq_Packet q)) = 16"
  defines "attrs \<equiv> pk_Attributes (rq_Packet q)"
  shows "CheckIntegrity q = '''' \<longleftrightarrow>
     (AllOf attrs 80 = [] \<and> \<not> rq_RequireMA q \<and> AllOf attrs 79 = [] \<and>
        \<not> (rq_LimitProxyState q \<and> AllOf attrs 33 \<noteq> [])) \<or>
     (rq_Secret q \<noteq> [] \<and> theMA attrs = Some (hmac_md5 (rq_Secret q)
        (wirePacket (rq_Packet q\<lparr>pk_Attributes := zeroMA attrs\<rparr>))))"
proof -
  have p: "signable (rq_Packet q)" and d: "rq_Declared q = wirePacket (rq_Packet q)"
    using assms by (simp_all add: radius_Encode_Inr signable_def)
  have ne: "rq_Declared q \<noteq> []" by (simp add: d wirePacket_def)
  have one: "length (AllOf attrs 80) = 1" if "theMA attrs = Some v" for v
    using that by (auto elim: theMA_SomeE)
  note valid = ValidateMA_wire [OF p, of "rq_Secret q", folded d attrs_def]
  show ?thesis
    using assms(1) ne one
    by (cases "AllOf attrs 80"; cases "tl (AllOf attrs 80)")
      (auto simp: CheckIntegrity_def checkAccessIntegrity_def declaredPacket_def Let_def valid
        simp flip: attrs_def)
qed

text \<open>
  The stub accounting handler never acknowledges a request it cannot authenticate:
  it replies only when the request authenticator is the MD5 of the packet (with the
  authenticator and any Message-Authenticator value zeroed) and the secret, and then the
  reply verifies against that request authenticator.
\<close>

theorem Stub_accounting_authentic:
  assumes "rq_Role q = RoleAccounting" "radius_Encode (rq_Packet q) = Inr (rq_Declared q)"
    and "length (pk_Authenticator (rq_Packet q)) = 16"
    and "rr_Action (Stub_Handle ctxDone q) = ActionReply"
  shows "pk_Authenticator (rq_Packet q) =
       md5 (head4 (rq_Packet q) @ replicate 16 0 @
            wireOf rawItem (zeroMA (pk_Attributes (rq_Packet q))) @ rq_Secret q) \<and>
     ValidateResponseAuthenticator (rq_Secret q) (rr_Response (Stub_Handle ctxDone q))
           (pk_Authenticator (rq_Packet q)) = Inr ()"
proof (intro conjI)
  have p: "signable (rq_Packet q)" and d: "rq_Declared q = wirePacket (rq_Packet q)"
    using assms by (simp_all add: radius_Encode_Inr signable_def)
  from assms(1,4) have v: "ValidateAccountingRequestAuthenticator (rq_Secret q) (rq_Declared q) = Inr ()"
    and code: "Stub_Handle ctxDone q = signedReply q CodeAccountingResponse ''ok'' False"
    by (auto simp: Stub_Handle_def discard_def split: if_splits)
  from v show "pk_Authenticator (rq_Packet q) =
       md5 (head4 (rq_Packet q) @ replicate 16 0 @
            wireOf rawItem (zeroMA (pk_Attributes (rq_Packet q))) @ rq_Secret q)"
    by (simp add: d ValidateAccounting_wire [OF p])
  from assms(4) code obtain w where
    "SignResponse (rq_Secret q) 5 (pk_Identifier (rq_Packet q)) (pk_Authenticator (rq_Packet q))
       (CopyProxyState (pk_Attributes (rq_Packet q))) = Inr w" "rr_Response (Stub_Handle ctxDone q) = w"
    by (auto simp: signedReply_def discard_def split: sum.splits)
  then show "ValidateResponseAuthenticator (rq_Secret q) (rr_Response (Stub_Handle ctxDone q))
           (pk_Authenticator (rq_Packet q)) = Inr ()"
    using sentReply_validates [OF assms(3)] by (simp add: SignResponse_Inr [OF assms(3)])
qed


subsection \<open>Concrete instances\<close>

definition wit_access :: RadiusRequest where
  "wit_access = \<lparr>rq_Role = RoleAccess, rq_Packet = wit_packet, rq_Declared = wirePacket wit_packet,
     rq_Secret = [115], rq_ClientID = ''nas'', rq_EndpointID = ''ep'', rq_Carrier = '''',
     rq_ListenerID = ''udp'', rq_Revision = 1, rq_Peer = (Some ''192.0.2.1'', 1812), rq_RequireMA = False,
     rq_LimitProxyState = True, rq_AllowedMethods = [], rq_AcceptStatusTypes = [], rq_TLSCertFP = replicate 32 0\<rparr>"

lemma wit_packet_signable: "signable wit_packet" "radius_Encode wit_packet = Inr (wirePacket wit_packet)"
  by (simp_all add: signable_def radius_Encode_Inr packetFits_def wit_packet_def WireLength_def rawFits_def)

definition wit_acct_packet :: Packet where
  "wit_acct_packet = (let p = wit_packet\<lparr>pk_Code := 4\<rparr> in
     p\<lparr>pk_Authenticator := md5 (head4 p @ replicate 16 0 @ wireOf rawItem (pk_Attributes p) @ [115])\<rparr>)"

definition wit_acct :: RadiusRequest where
  "wit_acct = wit_access\<lparr>rq_Role := RoleAccounting, rq_Packet := wit_acct_packet,
     rq_Declared := wirePacket wit_acct_packet\<rparr>"

lemma wit_acct_signable: "signable wit_acct_packet" "radius_Encode wit_acct_packet = Inr (wirePacket wit_acct_packet)"
  by (simp_all add: signable_def radius_Encode_Inr packetFits_def wit_acct_packet_def wit_packet_def
      WireLength_def rawFits_def Let_def)

lemma wit_acct_valid:
  "ValidateAccountingRequestAuthenticator [115] (wirePacket wit_acct_packet) = Inr ()"
proof -
  have "zeroMA (pk_Attributes wit_acct_packet) = pk_Attributes wit_acct_packet"
    by (simp add: zeroMA_none wit_acct_packet_def wit_packet_def Let_def)
  then show ?thesis
    by (simp add: ValidateAccounting_wire [OF wit_acct_signable(1)])
      (simp add: wit_acct_packet_def head4_def Let_def)
qed

lemma wit_sign:
  "\<exists>w. SignResponse [115] code 7 (replicate 16 1) [] = Inr w"
  by (simp add: SignResponse_Inr unsignedReply_def packetFits_def)

theorem SignResponse_verifies_witness:
  "\<exists>w. SignResponse [115] 2 7 (replicate 16 1) [] = Inr w \<and>
     ValidateResponseAuthenticator [115] w (replicate 16 1) = Inr () \<and>
     ValidateMessageAuthenticator [115] (take 4 w @ replicate 16 1 @ drop 20 w) = Inr ()"
proof -
  obtain w where w: "SignResponse [115] 2 7 (replicate 16 1) [] = Inr w"
    using wit_sign [of 2] by blast
  have "length (replicate 16 (1 :: byte)) = 16" by simp
  from SignResponse_verifies [OF this w] w show ?thesis by blast
qed

theorem access_integrity_gate_witness:
  "CheckIntegrity wit_access = '''' \<and> CheckIntegrity (wit_access\<lparr>rq_RequireMA := True\<rparr>) \<noteq> ''''"
proof -
  have n: "AllOf (pk_Attributes wit_packet) ty = []" if "ty \<noteq> 1" for ty
    using that by (simp add: wit_packet_def)
  have m: "theMA (pk_Attributes wit_packet) = None" by (simp add: theMA_def n)
  have "length (pk_Authenticator wit_packet) = 16" by (simp add: wit_packet_def)
  then show ?thesis
    using access_integrity_gate [of wit_access] access_integrity_gate [of "wit_access\<lparr>rq_RequireMA := True\<rparr>"]
    by (simp add: wit_access_def wit_packet_signable n m)
qed

theorem Stub_accounting_authentic_witness:
  "rr_Action (Stub_Handle False wit_acct) = ActionReply \<and>
   ValidateResponseAuthenticator [115] (rr_Response (Stub_Handle False wit_acct))
     (pk_Authenticator wit_acct_packet) = Inr ()"
proof -
  have auth: "length (pk_Authenticator wit_acct_packet) = 16"
    by (simp add: wit_acct_packet_def Let_def)
  have "AllOf (pk_Attributes wit_acct_packet) 33 = []" "pk_Code wit_acct_packet = 4"
    by (simp_all add: wit_acct_packet_def wit_packet_def Let_def)
  moreover have "\<exists>w. SignResponse [115] 5 (pk_Identifier wit_acct_packet) (pk_Authenticator wit_acct_packet) [] = Inr w"
    using auth by (simp add: SignResponse_Inr unsignedReply_def packetFits_def)
  ultimately have r: "rr_Action (Stub_Handle False wit_acct) = ActionReply"
    by (auto simp: Stub_Handle_def wit_acct_def wit_access_def signedReply_def CopyProxyState_def wit_acct_valid)
  moreover have "rq_Role wit_acct = RoleAccounting" "rq_Packet wit_acct = wit_acct_packet"
    "rq_Declared wit_acct = wirePacket wit_acct_packet" "rq_Secret wit_acct = [115]"
    by (simp_all add: wit_acct_def wit_access_def)
  ultimately show ?thesis
    using Stub_accounting_authentic [of wit_acct False] auth wit_acct_signable(2) by metis
qed

end
