(* ===== verification/Bounded_Store.thy ===== *)
theory Bounded_Store
  imports Assoc_Table
begin

text \<open>
  The in-memory stores keep a map of entries and a running byte count. The locale
  \<open>accounted_store\<close> states what a store promises of its removal (\<open>removeLocked\<close> in the code:
  delete the entry, subtract its size, never below zero); its lemmas show that removal and
  the expiry sweep built from it keep the count equal to the sum of the sizes, so that the
  clamp at zero never takes effect, and that the sweep keeps exactly the live entries.
\<close>

lemma delete_notin: "k \<notin> fst ` set al \<Longrightarrow> AList.delete k al = al"
  by (induction al) auto

lemma keys_delete: "fst ` set (AList.delete k al) = fst ` set al - {k}"
  by (induction al) auto

lemma delete_None: "map_of al k = None \<Longrightarrow> AList.delete k al = al"
  by (simp add: map_of_eq_None_iff delete_notin)

lemma delete_append: "AList.delete k (xs @ ys) = AList.delete k xs @ AList.delete k ys"
  by (simp add: AList.delete_eq)

lemma int_length_filter: "int (length xs) \<le> m \<Longrightarrow> int (length (filter P xs)) \<le> m"
  using length_filter_le [of P xs] by linarith

lemma length_delete_le: "length (AList.delete k al) \<le> length al"
  by (simp add: AList.delete_eq)

locale accounted_store =
  fixes entries :: "'s \<Rightarrow> ('k \<times> 'v) list"
    and used :: "'s \<Rightarrow> int"
    and size_of :: "'v \<Rightarrow> nat"
    and remove :: "'k \<Rightarrow> 's \<Rightarrow> 's"
  assumes entries_remove: "entries (remove k s) = AList.delete k (entries s)"
    and used_remove: "used (remove k s) =
      (case map_of (entries s) k of None \<Rightarrow> used s
       | Some e \<Rightarrow> (if used s - int (size_of e) < 0 then 0 else used s - int (size_of e)))"
begin

definition balanced :: "'s \<Rightarrow> bool" where
  "balanced s \<longleftrightarrow> distinct (map fst (entries s)) \<and> used s = int (tbl_sum size_of (entries s))"

text \<open>The expiry loop: every key of the table is visited and the dead ones are removed.\<close>

definition sweep :: "('v \<Rightarrow> bool) \<Rightarrow> 's \<Rightarrow> 's" where
  "sweep dead s = fold (\<lambda>(k, e) s. if dead e then remove k s else s) (entries s) s"

lemma balanced_distinct: "balanced s \<Longrightarrow> distinct (map fst (entries s))"
  by (simp add: balanced_def)

lemma balanced_used: "balanced s \<Longrightarrow> used s = int (tbl_sum size_of (entries s))"
  by (simp add: balanced_def)

lemma remove_balanced: "balanced s \<Longrightarrow> balanced (remove k s)"
proof (cases "map_of (entries s) k")
  case (Some e)
  assume "balanced s"
  moreover have "size_of e \<le> tbl_sum size_of (entries s)" by (rule tbl_sum_lookup [OF Some])
  ultimately show ?thesis
    by (simp add: balanced_def entries_remove used_remove distinct_delete tbl_sum_delete Some)
qed (simp add: balanced_def entries_remove used_remove distinct_delete tbl_sum_delete)

lemma remove_used: "balanced s \<Longrightarrow> map_of (entries s) k = Some e \<Longrightarrow> used (remove k s) = used s - int (size_of e)"
  using tbl_sum_lookup [of "entries s" k e size_of] by (auto simp: balanced_def used_remove)

lemma remove_used_le: "balanced s \<Longrightarrow> used (remove k s) \<le> used s"
  by (auto simp: balanced_def used_remove split: option.splits)

lemma fold_remove_balanced:
  "balanced s \<Longrightarrow> balanced (fold (\<lambda>(k, e) s. if dead e then remove k s else s) al s)"
proof (induction al arbitrary: s)
  case (Cons x al)
  then show ?case using remove_balanced [OF Cons.prems] by (cases x) simp
qed simp

lemma sweep_balanced: "balanced s \<Longrightarrow> balanced (sweep dead s)"
  by (simp add: sweep_def fold_remove_balanced)

lemma fold_remove_used_le:
  "balanced s \<Longrightarrow> used (fold (\<lambda>(k, e) s. if dead e then remove k s else s) al s) \<le> used s"
proof (induction al arbitrary: s)
  case (Cons x al)
  then show ?case
    by (cases x) (auto dest: remove_balanced intro: order_trans [OF _ remove_used_le])
qed simp

lemma sweep_used_le: "balanced s \<Longrightarrow> used (sweep dead s) \<le> used s"
  by (simp add: sweep_def fold_remove_used_le)

lemma fold_remove_entries:
  "\<lbrakk>distinct (map fst al); entries s = pre @ al; fst ` set pre \<inter> fst ` set al = {}\<rbrakk> \<Longrightarrow>
     entries (fold (\<lambda>(k, e) s. if dead e then remove k s else s) al s) = pre @ filter (\<lambda>(k, e). \<not> dead e) al"
proof (induction al arbitrary: s pre)
  case (Cons x al)
  obtain k e where x: "x = (k, e)" by (cases x)
  show ?case
  proof (cases "dead e")
    case True
    have "k \<notin> fst ` set pre" "k \<notin> fst ` set al" using Cons.prems x by auto
    then have "entries (remove k s) = pre @ al"
      using Cons.prems(2) x by (simp add: entries_remove delete_append delete_notin)
    from Cons.IH [OF _ this] Cons.prems x True show ?thesis by auto
  next
    case False
    have "entries s = (pre @ [x]) @ al" using Cons.prems by simp
    from Cons.IH [OF _ this] Cons.prems x False show ?thesis by auto
  qed
qed simp

lemma sweep_entries:
  "distinct (map fst (entries s)) \<Longrightarrow> entries (sweep dead s) = filter (\<lambda>(k, e). \<not> dead e) (entries s)"
  using fold_remove_entries [of "entries s" s "[]" dead] by (simp add: sweep_def)

lemma sweep_length: "balanced s \<Longrightarrow> length (entries (sweep dead s)) \<le> length (entries s)"
  by (simp add: sweep_entries balanced_def)

lemma sweep_lookup:
  assumes "balanced s"
  shows "map_of (entries (sweep dead s)) k =
    (case map_of (entries s) k of None \<Rightarrow> None | Some e \<Rightarrow> if dead e then None else Some e)"
proof -
  have d: "distinct (map fst (entries s))" using assms by (simp add: balanced_def)
  have "map_of (filter (\<lambda>(k, e). \<not> dead e) al) k =
      (case map_of al k of None \<Rightarrow> None | Some e \<Rightarrow> if dead e then None else Some e)"
    if "distinct (map fst al)" for al
    using that by (induction al) (force split: option.splits dest: map_of_SomeD)+
  with d show ?thesis by (simp add: sweep_entries)
qed

end

text \<open>
  A bounded store also has caps, which removal does not touch. A store is \<open>within\<close> its caps
  when its byte count is exact and the caps hold; removal, the sweep and any insertion that
  was checked against the caps keep it so.
\<close>

locale bounded_store = accounted_store entries used size_of remove
  for entries :: "'s \<Rightarrow> ('k \<times> 'v) list"
    and used :: "'s \<Rightarrow> int"
    and size_of :: "'v \<Rightarrow> nat"
    and remove :: "'k \<Rightarrow> 's \<Rightarrow> 's" +
  fixes max_entries :: "'s \<Rightarrow> int"
    and max_bytes :: "'s \<Rightarrow> int"
    and ttl :: "'s \<Rightarrow> int"
  assumes caps_remove: "max_entries (remove k s) = max_entries s" "max_bytes (remove k s) = max_bytes s"
      "ttl (remove k s) = ttl s"
begin

definition within :: "'s \<Rightarrow> bool" where
  "within s \<longleftrightarrow> balanced s \<and> int (length (entries s)) \<le> max_entries s \<and> used s \<le> max_bytes s"

lemma caps_sweep: "max_entries (sweep dead s) = max_entries s" "max_bytes (sweep dead s) = max_bytes s"
  "ttl (sweep dead s) = ttl s"
proof -
  have "max_entries (fold (\<lambda>(k, e) s. if dead e then remove k s else s) al s) = max_entries s \<and>
      max_bytes (fold (\<lambda>(k, e) s. if dead e then remove k s else s) al s) = max_bytes s \<and>
      ttl (fold (\<lambda>(k, e) s. if dead e then remove k s else s) al s) = ttl s" for al
    by (induction al arbitrary: s) (auto simp: caps_remove)
  then show "max_entries (sweep dead s) = max_entries s" "max_bytes (sweep dead s) = max_bytes s"
    "ttl (sweep dead s) = ttl s"
    by (simp_all add: sweep_def)
qed

lemma within_balanced: "within s \<Longrightarrow> balanced s"
  by (simp add: within_def)

lemma within_remove: "within s \<Longrightarrow> within (remove k s)"
  using remove_used_le [of s k] length_delete_le [of k "entries s"]
  by (auto simp: within_def remove_balanced entries_remove caps_remove)

lemma within_sweep: "within s \<Longrightarrow> within (sweep dead s)"
  using sweep_used_le [of s dead]
  by (auto simp: within_def sweep_balanced caps_sweep sweep_entries balanced_distinct intro: int_length_filter)

lemma within_insert:
  assumes "within s" "map_of (entries s) k = None"
    and "int (length (entries s)) < max_entries s" "used s + int (size_of v) \<le> max_bytes s"
    and "entries s' = AList.update k v (entries s)" "used s' = used s + int (size_of v)"
    and "max_entries s' = max_entries s" "max_bytes s' = max_bytes s"
  shows "within s'"
  using assms by (simp add: within_def balanced_def distinct_update tbl_sum_update length_update)

lemma within_replace:
  assumes "within s" "map_of (entries s) k = Some v" "used s + int (size_of v') - int (size_of v) \<le> max_bytes s"
    and "entries s' = AList.update k v' (entries s)" "used s' = used s + int (size_of v') - int (size_of v)"
    and "max_entries s' = max_entries s" "max_bytes s' = max_bytes s"
  shows "within s'"
  using assms tbl_sum_lookup [OF assms(2), of size_of]
  by (simp add: within_def balanced_def distinct_update tbl_sum_update length_update)

end

end
