(* ===== verification/Radius_Cache.thy ===== *)
theory Radius_Cache
  imports Radius_Reply Bounded_Store
begin

text \<open>
  The exact-response retransmission cache of the RADIUS/UDP listener
  (\<open>internal/radius/udp/cache.go\<close>). Times and durations are integers (nanoseconds); the
  clock reading of each call is an argument. Each method holds the mutex for its whole body,
  so an execution is a sequence of calls: \<open>cache_reach\<close> is the states such a sequence
  reaches, with the calls made so far as its history.
\<close>

record fingerprint =
  fp_auth :: bytes
  fp_digest :: bytes

record slotKey =
  sk_endpointID :: string
  sk_role :: ListenerRole
  sk_src :: string
  sk_listenerID :: string
  sk_code :: Code
  sk_id :: byte

record cacheEntry =
  ce_pending :: bool
  ce_fp :: fingerprint
  ce_response :: bytes
  ce_expires :: int
  ce_bytes :: nat

record Cache =
  ca_entries :: "(slotKey \<times> cacheEntry) list"
  ca_maxEntries :: int
  ca_maxBytes :: int
  ca_usedBytes :: int
  ca_ttl :: int

datatype Lookup = LookupMiss | LookupHit | LookupPending | LookupSaturated | LookupPurged

abbreviation (input) Second :: int where "Second \<equiv> 1000000000"

definition newCache :: "int \<Rightarrow> int \<Rightarrow> int \<Rightarrow> Cache" where
  "newCache maxEntries maxBytes ttl =
     \<lparr>ca_entries = [], ca_maxEntries = (if maxEntries \<le> 0 then 1 else maxEntries),
      ca_maxBytes = (if maxBytes \<le> 0 then 4096 else maxBytes), ca_usedBytes = 0,
      ca_ttl = (if ttl \<le> 0 then 15 * Second else ttl)\<rparr>"

definition fingerprintOf :: "bytes \<Rightarrow> fingerprint" where
  "fingerprintOf declared =
     \<lparr>fp_auth = (if length declared \<ge> RadiusHeaderSize then take 16 (drop 4 declared) else replicate 16 0),
      fp_digest = sha256 declared\<rparr>"

definition sameFP :: "fingerprint \<Rightarrow> fingerprint \<Rightarrow> bool" where
  "sameFP a b \<longleftrightarrow> fp_auth a = fp_auth b \<and> fp_digest a = fp_digest b"

definition cache_removeLocked :: "slotKey \<Rightarrow> Cache \<Rightarrow> Cache" where
  "cache_removeLocked key c =
     (case map_of (ca_entries c) key of
        None \<Rightarrow> c
      | Some e \<Rightarrow>
          (let used = ca_usedBytes c - int (ce_bytes e);
               used = (if used < 0 then 0 else used)
           in c\<lparr>ca_usedBytes := used, ca_entries := AList.delete key (ca_entries c)\<rparr>))"

definition cache_expireLocked :: "int \<Rightarrow> Cache \<Rightarrow> Cache" where
  "cache_expireLocked now c =
     fold (\<lambda>(k, e) c. if \<not> ce_expires e > now then cache_removeLocked k c else c) (ca_entries c) c"

text \<open>Reserving a slot: the part of \<open>Begin\<close> after the lookup.\<close>

definition reserve :: "slotKey \<Rightarrow> fingerprint \<Rightarrow> int \<Rightarrow> bool \<Rightarrow> Cache \<Rightarrow> Cache \<times> Lookup \<times> bytes" where
  "reserve key fp now purged c =
     (if int (length (ca_entries c)) \<ge> ca_maxEntries c then (c, LookupSaturated, [])
      else (c\<lparr>ca_entries := AList.update key
                \<lparr>ce_pending = True, ce_fp = fp, ce_response = [], ce_expires = now + ca_ttl c, ce_bytes = 0\<rparr>
                (ca_entries c)\<rparr>,
            if purged then LookupPurged else LookupMiss, []))"

definition cache_Begin :: "slotKey \<Rightarrow> fingerprint \<Rightarrow> int \<Rightarrow> Cache \<Rightarrow> Cache \<times> Lookup \<times> bytes" where
  "cache_Begin key fp now c =
     (let c = cache_expireLocked now c
      in case map_of (ca_entries c) key of
           Some e \<Rightarrow>
             if sameFP (ce_fp e) fp
             then (if ce_pending e then (c, LookupPending, []) else (c, LookupHit, ce_response e))
             else reserve key fp now True (cache_removeLocked key c)
         | None \<Rightarrow> reserve key fp now False c)"

definition cache_Complete :: "slotKey \<Rightarrow> fingerprint \<Rightarrow> bytes \<Rightarrow> int \<Rightarrow> Cache \<Rightarrow> Cache" where
  "cache_Complete key fp response now c =
     (case map_of (ca_entries c) key of
        None \<Rightarrow> c
      | Some e \<Rightarrow>
          if \<not> ce_pending e \<or> \<not> sameFP (ce_fp e) fp then c
          else (let n = length response
                in if ca_usedBytes c + int n > ca_maxBytes c then cache_removeLocked key c
                   else c\<lparr>ca_entries := AList.update key
                            (e\<lparr>ce_pending := False, ce_response := response, ce_bytes := n,
                               ce_expires := now + ca_ttl c\<rparr>) (ca_entries c),
                          ca_usedBytes := ca_usedBytes c + int n\<rparr>))"

definition cache_Abandon :: "slotKey \<Rightarrow> fingerprint \<Rightarrow> Cache \<Rightarrow> Cache" where
  "cache_Abandon key fp c =
     (case map_of (ca_entries c) key of
        None \<Rightarrow> c
      | Some e \<Rightarrow> if \<not> sameFP (ce_fp e) fp then c else cache_removeLocked key c)"

subsection \<open>Executions\<close>

datatype cacheCall =
    CallBegin slotKey fingerprint int
  | CallComplete slotKey fingerprint bytes int
  | CallAbandon slotKey fingerprint

fun cache_call :: "cacheCall \<Rightarrow> Cache \<Rightarrow> Cache" where
  "cache_call (CallBegin key fp now) c = fst (cache_Begin key fp now c)"
| "cache_call (CallComplete key fp response now) c = cache_Complete key fp response now c"
| "cache_call (CallAbandon key fp) c = cache_Abandon key fp c"

inductive cache_reach :: "int \<Rightarrow> int \<Rightarrow> int \<Rightarrow> cacheCall list \<Rightarrow> Cache \<Rightarrow> bool"
  for maxEntries maxBytes ttl where
  start: "cache_reach maxEntries maxBytes ttl [] (newCache maxEntries maxBytes ttl)"
| call: "cache_reach maxEntries maxBytes ttl h c \<Longrightarrow>
    cache_reach maxEntries maxBytes ttl (h @ [op]) (cache_call op c)"

subsection \<open>The cache is an accounted store\<close>

lemma sameFP_eq [simp]: "sameFP a b \<longleftrightarrow> a = b"
  by (cases a; cases b) (simp add: sameFP_def)

lemma cache_removeLocked_simps [simp]:
  "ca_entries (cache_removeLocked k c) = AList.delete k (ca_entries c)"
  "ca_maxEntries (cache_removeLocked k c) = ca_maxEntries c"
  "ca_maxBytes (cache_removeLocked k c) = ca_maxBytes c"
  "ca_ttl (cache_removeLocked k c) = ca_ttl c"
  by (auto simp: cache_removeLocked_def Let_def map_of_eq_None_iff delete_notin split: option.splits)

interpretation cache: bounded_store ca_entries ca_usedBytes ce_bytes cache_removeLocked
  ca_maxEntries ca_maxBytes ca_ttl
  by unfold_locales (auto simp: cache_removeLocked_def Let_def delete_None split: option.splits)

lemmas cache_caps_sweep [simp] = cache.caps_sweep

lemma cache_expireLocked_sweep: "cache_expireLocked now c = cache.sweep (\<lambda>e. \<not> ce_expires e > now) c"
  by (simp add: cache_expireLocked_def cache.sweep_def)

text \<open>
  The invariant: the byte count is the sum of the cached replies and within its cap, the
  number of slots is within its cap, and a slot's size is the length of its reply, which is
  empty while the slot is pending.
\<close>

definition entryOk :: "slotKey \<Rightarrow> cacheEntry \<Rightarrow> bool" where
  "entryOk k e \<longleftrightarrow> ce_bytes e = length (ce_response e) \<and> (ce_pending e \<longrightarrow> ce_response e = [])"

definition cache_ok :: "Cache \<Rightarrow> bool" where
  "cache_ok c \<longleftrightarrow> cache.within c \<and> tbl_ok entryOk (ca_entries c)"

lemma cache_ok_balanced: "cache_ok c \<Longrightarrow> cache.balanced c"
  by (simp add: cache_ok_def cache.within_balanced)

lemma cache_ok_sweep: "cache_ok c \<Longrightarrow> cache_ok (cache_expireLocked now c)"
  by (simp add: cache_ok_def cache_expireLocked_sweep cache.within_sweep cache.sweep_entries
      cache.balanced_distinct cache.within_balanced tbl_ok_filter)

lemma cache_ok_remove: "cache_ok c \<Longrightarrow> cache_ok (cache_removeLocked k c)"
  by (simp add: cache_ok_def cache.within_remove tbl_ok_delete)

lemma cache_ok_reserve:
  assumes "cache_ok c" "map_of (ca_entries c) key = None"
  shows "cache_ok (fst (reserve key fp now purged c))"
proof (cases "int (length (ca_entries c)) \<ge> ca_maxEntries c")
  case False
  let ?e = "\<lparr>ce_pending = True, ce_fp = fp, ce_response = [], ce_expires = now + ca_ttl c, ce_bytes = 0\<rparr>"
  let ?c = "c\<lparr>ca_entries := AList.update key ?e (ca_entries c)\<rparr>"
  have "cache.within ?c"
    by (rule cache.within_insert [of c key ?e]) (use assms False in \<open>auto simp: cache_ok_def cache.within_def\<close>)
  moreover have "tbl_ok entryOk (AList.update key ?e (ca_entries c))"
    using assms by (intro tbl_ok_update) (auto simp: cache_ok_def entryOk_def)
  ultimately show ?thesis using False by (simp add: reserve_def cache_ok_def)
qed (use assms in \<open>simp add: reserve_def\<close>)

lemma cache_ok_Begin: "cache_ok c \<Longrightarrow> cache_ok (fst (cache_Begin key fp now c))"
  using cache_ok_sweep [of c now]
  by (auto simp: cache_Begin_def Let_def delete_conv' intro!: cache_ok_reserve cache_ok_remove
      split: option.splits)

lemma cache_ok_Complete: "cache_ok c \<Longrightarrow> cache_ok (cache_Complete key fp response now c)"
proof (cases "map_of (ca_entries c) key")
  case (Some e)
  assume ok: "cache_ok c"
  let ?e = "e\<lparr>ce_pending := False, ce_response := response, ce_bytes := length response, ce_expires := now + ca_ttl c\<rparr>"
  let ?c = "c\<lparr>ca_entries := AList.update key ?e (ca_entries c), ca_usedBytes := ca_usedBytes c + int (length response)\<rparr>"
  have e: "entryOk key e" using ok by (auto simp: cache_ok_def intro: tbl_ok_lookup [OF _ Some])
  have "cache_ok ?c" if "ce_pending e" "ca_usedBytes c + int (length response) \<le> ca_maxBytes c"
  proof -
    have "cache.within ?c"
      by (rule cache.within_replace [of c key e ?e]) (use that e ok Some in \<open>auto simp: cache_ok_def entryOk_def\<close>)
    moreover have "tbl_ok entryOk (AList.update key ?e (ca_entries c))"
      using ok by (intro tbl_ok_update) (auto simp: cache_ok_def entryOk_def)
    ultimately show ?thesis by (simp add: cache_ok_def)
  qed
  then show ?thesis using ok by (auto simp: cache_Complete_def Some Let_def cache_ok_remove)
qed (simp add: cache_Complete_def)

lemma cache_ok_Abandon: "cache_ok c \<Longrightarrow> cache_ok (cache_Abandon key fp c)"
  by (simp add: cache_Abandon_def cache_ok_remove split: option.splits)

lemmas cache_ok_calls = cache_ok_Begin cache_ok_Complete cache_ok_Abandon

lemma cache_ok_call: "cache_ok c \<Longrightarrow> cache_ok (cache_call op c)"
  by (cases op) (simp_all add: cache_ok_calls)

lemma cache_ok_new: "cache_ok (newCache maxEntries maxBytes ttl)"
  by (simp add: cache_ok_def newCache_def cache.within_def cache.balanced_def)

text \<open>Where a cached reply comes from: some call completed this slot with it.\<close>

definition traced :: "cacheCall list \<Rightarrow> Cache \<Rightarrow> bool" where
  "traced h c \<longleftrightarrow> tbl_ok (\<lambda>k e. ce_pending e \<or>
     (\<exists>now. CallComplete k (ce_fp e) (ce_response e) now \<in> set h)) (ca_entries c)"

lemma traced_mono: "traced h c \<Longrightarrow> traced (h @ [op]) c"
  by (auto simp: traced_def elim!: tbl_ok_mono)

lemma traced_remove: "traced h c \<Longrightarrow> traced h (cache_removeLocked k c)"
  by (simp add: traced_def tbl_ok_delete)

lemma traced_sweep: "traced h c \<Longrightarrow> traced h (cache_expireLocked now c)"
  by (simp add: traced_def cache_expireLocked_sweep cache.sweep_entries tbl_ok_distinct tbl_ok_filter)

lemma traced_reserve: "traced h c \<Longrightarrow> traced h (fst (reserve key fp now purged c))"
  by (auto simp: traced_def reserve_def intro!: tbl_ok_update)

lemma traced_Begin: "traced h c \<Longrightarrow> traced h (fst (cache_Begin key fp now c))"
  using traced_sweep [of h c now]
  by (auto simp: cache_Begin_def Let_def intro!: traced_reserve traced_remove split: option.splits)

lemma traced_Complete:
  assumes "traced h c"
  shows "traced (h @ [CallComplete key fp response now]) (cache_Complete key fp response now c)"
proof -
  have t: "traced (h @ [CallComplete key fp response now]) c" by (rule traced_mono [OF assms])
  then show ?thesis
    by (auto simp: cache_Complete_def Let_def traced_remove split: option.splits)
      (auto simp: traced_def intro!: tbl_ok_update)
qed

lemma traced_call: "traced h c \<Longrightarrow> traced (h @ [op]) (cache_call op c)"
proof (cases op)
  case (CallAbandon key fp)
  assume "traced h c"
  then show ?thesis
    using traced_mono [of h c op] CallAbandon by (auto simp: cache_Abandon_def traced_remove split: option.splits)
qed (simp_all add: traced_Begin traced_mono traced_Complete)

lemma cache_call_config:
  "ca_maxEntries (cache_call op c) = ca_maxEntries c \<and> ca_maxBytes (cache_call op c) = ca_maxBytes c \<and>
   ca_ttl (cache_call op c) = ca_ttl c"
  by (cases op) (auto simp: cache_Begin_def reserve_def cache_Complete_def cache_Abandon_def Let_def
      cache_expireLocked_sweep split: option.splits)

lemma cache_reach_ok:
  "cache_reach maxEntries maxBytes ttl h c \<Longrightarrow>
     cache_ok c \<and> traced h c \<and> ca_maxEntries c = ca_maxEntries (newCache maxEntries maxBytes ttl) \<and>
     ca_maxBytes c = ca_maxBytes (newCache maxEntries maxBytes ttl)"
proof (induction rule: cache_reach.induct)
  case start
  show ?case by (simp add: cache_ok_new) (simp add: traced_def newCache_def)
next
  case (call h c op)
  then show ?case by (simp add: cache_ok_call traced_call cache_call_config)
qed

text \<open>How a slot behaves between two calls of the same request.\<close>

lemma cache_Begin_live:
  assumes "cache_ok c" "map_of (ca_entries c) key = Some e" "ce_expires e > now"
  shows "snd (cache_Begin key (ce_fp e) now c) =
    (if ce_pending e then (LookupPending, []) else (LookupHit, ce_response e))"
  using assms cache.sweep_lookup [of c "\<lambda>e. \<not> ce_expires e > now" key]
  by (simp add: cache_Begin_def Let_def cache_expireLocked_sweep cache_ok_balanced)

subsection \<open>Properties\<close>

text \<open>
  Property C36. In every state the retransmission cache reaches, the number of slots and the
  bytes of the cached replies are within the configured caps, the byte counter is exactly
  the sum of the lengths of the cached replies (the clamp at zero is never needed), and a
  hit returns exactly the bytes that an earlier \<open>Complete\<close> stored for the same slot and the same
  request fingerprint.
\<close>

theorem cache_bounded_and_exact:
  assumes "cache_reach maxEntries maxBytes ttl h c"
  shows "int (length (ca_entries c)) \<le> (if maxEntries \<le> 0 then 1 else maxEntries) \<and>
    ca_usedBytes c \<le> (if maxBytes \<le> 0 then 4096 else maxBytes) \<and>
    ca_usedBytes c = int (tbl_sum (\<lambda>e. length (ce_response e)) (ca_entries c)) \<and>
    (snd (cache_Begin key fp now c) = (LookupHit, r) \<longrightarrow>
       (\<exists>t. CallComplete key fp r t \<in> set h))"
proof -
  from cache_reach_ok [OF assms] have ok: "cache_ok c" and tr: "traced h c"
    and cfg: "ca_maxEntries c = ca_maxEntries (newCache maxEntries maxBytes ttl)"
      "ca_maxBytes c = ca_maxBytes (newCache maxEntries maxBytes ttl)" by auto
  have "tbl_sum ce_bytes al = tbl_sum (\<lambda>e. length (ce_response e)) al" if "tbl_ok entryOk al" for al
    using that by (induction al) (auto simp: tbl_ok_def entryOk_def)
  moreover have "\<exists>t. CallComplete key fp r t \<in> set h"
    if "snd (cache_Begin key fp now c) = (LookupHit, r)"
    using that tbl_ok_lookup [OF traced_sweep [OF tr, of now, unfolded traced_def], of key]
    by (auto simp: cache_Begin_def reserve_def Let_def split: option.splits if_splits)
  ultimately show ?thesis
    using ok cfg by (auto simp: cache_ok_def cache.within_def newCache_def cache.balanced_used)
qed


text \<open>
  The calls others may make while a request owns its slot: any calls on other slots, any number of
  duplicates of the request itself, and the late completion or release of an earlier request of
  the same slot (another fingerprint). Excluded are a new request with the same slot, which purges
  it, the owner's own completion or release, and a clock past the limit.
\<close>

fun othersCall :: "slotKey \<Rightarrow> fingerprint \<Rightarrow> int \<Rightarrow> cacheCall \<Rightarrow> bool" where
  "othersCall key fp limit (CallBegin k f now) = ((k = key \<longrightarrow> f = fp) \<and> now < limit)"
| "othersCall key fp limit (CallComplete k f response now) = (k = key \<longrightarrow> f \<noteq> fp)"
| "othersCall key fp limit (CallAbandon k f) = (k = key \<longrightarrow> f \<noteq> fp)"

lemma reserve_other: "k \<noteq> key \<Longrightarrow> map_of (ca_entries (fst (reserve k fp now purged c))) key = map_of (ca_entries c) key"
  by (simp add: reserve_def update_conv')

lemma slot_kept_call:
  assumes "cache_ok c" "map_of (ca_entries c) key = Some e" "othersCall key (ce_fp e) (ce_expires e) op"
  shows "map_of (ca_entries (cache_call op c)) key = Some e"
proof (cases op)
  case (CallBegin k fp now)
  then have "map_of (ca_entries (cache_expireLocked now c)) key = Some e"
    using assms cache.sweep_lookup [of c "\<lambda>e. \<not> ce_expires e > now" key]
    by (simp add: cache_expireLocked_sweep cache_ok_balanced)
  then show ?thesis
    using CallBegin assms(3)
    by (cases "k = key") (auto simp: cache_Begin_def Let_def reserve_other delete_conv' split: option.splits)
qed (use assms in \<open>auto simp: cache_Complete_def cache_Abandon_def Let_def update_conv' delete_conv'
      split: option.splits\<close>)

lemma slot_kept:
  "\<lbrakk>cache_ok c; map_of (ca_entries c) key = Some e; list_all (othersCall key (ce_fp e) (ce_expires e)) ops\<rbrakk> \<Longrightarrow>
     cache_ok (fold cache_call ops c) \<and> map_of (ca_entries (fold cache_call ops c)) key = Some e"
  by (induction ops arbitrary: c) (auto simp: cache_ok_call slot_kept_call)

lemma Begin_reserves:
  assumes "cache_Begin key fp t0 c = (c1, got, out)" "got = LookupMiss \<or> got = LookupPurged"
  shows "map_of (ca_entries c1) key =
    Some \<lparr>ce_pending = True, ce_fp = fp, ce_response = [], ce_expires = t0 + ca_ttl c, ce_bytes = 0\<rparr>"
  using assms
  by (auto simp: cache_Begin_def reserve_def Let_def update_conv' cache_expireLocked_sweep
      split: option.splits if_splits)

lemma Complete_stores:
  assumes "map_of (ca_entries c) key = Some e" "ce_pending e"
    and "ca_usedBytes c + int (length r) \<le> ca_maxBytes c"
  shows "map_of (ca_entries (cache_Complete key (ce_fp e) r t1 c)) key =
    Some (e\<lparr>ce_pending := False, ce_response := r, ce_bytes := length r, ce_expires := t1 + ca_ttl c\<rparr>)"
  using assms by (simp add: cache_Complete_def Let_def update_conv')

text \<open>
  Property C35. A request is processed once while its slot lives. After \<open>Begin\<close> gave a slot to a
  caller at time \<open>t0\<close>, every exact duplicate before \<open>t0 + ttl\<close>, the first like any later one, is
  reported as pending and not processed again, whatever calls others make in between: on other
  slots, further duplicates, and the late completion or release of an earlier request of the
  slot. Once the owner completes the slot with a reply that fits the byte budget, every duplicate
  within the time to live is answered with exactly that reply, again whatever duplicates and
  calls of others come before it.
\<close>

theorem cache_duplicate_suppressed:
  assumes "cache_reach maxEntries maxBytes ttl h c"
    and "cache_Begin key fp t0 c = (c1, got, out)" "got = LookupMiss \<or> got = LookupPurged"
    and "list_all (othersCall key fp (t0 + ca_ttl c)) ops" "t < t0 + ca_ttl c"
    and "ca_usedBytes (fold cache_call ops c1) + int (length r) \<le> ca_maxBytes c"
    and "list_all (othersCall key fp (t1 + ca_ttl c)) ops'" "t' < t1 + ca_ttl c"
  shows "snd (cache_Begin key fp t (fold cache_call ops c1)) = (LookupPending, []) \<and>
    snd (cache_Begin key fp t' (fold cache_call ops' (cache_Complete key fp r t1 (fold cache_call ops c1))))
      = (LookupHit, r)"
proof -
  let ?e = "\<lparr>ce_pending = True, ce_fp = fp, ce_response = [], ce_expires = t0 + ca_ttl c, ce_bytes = 0\<rparr>"
  let ?c2 = "fold cache_call ops c1"
  have ok: "cache_ok c" using cache_reach_ok [OF assms(1)] by simp
  have ok1: "cache_ok c1" using cache_ok_Begin [OF ok, of key fp t0] assms(2) by simp
  have cfg1: "ca_maxBytes c1 = ca_maxBytes c" "ca_ttl c1 = ca_ttl c"
    using cache_call_config [of "CallBegin key fp t0" c] assms(2) by auto
  have cfgs: "ca_maxBytes (fold cache_call os d) = ca_maxBytes d \<and> ca_ttl (fold cache_call os d) = ca_ttl d" for os d
    by (induction os arbitrary: d) (auto simp: cache_call_config)
  have m1: "map_of (ca_entries c1) key = Some ?e" by (rule Begin_reserves [OF assms(2,3)])
  have k2: "cache_ok ?c2" "map_of (ca_entries ?c2) key = Some ?e"
    using slot_kept [OF ok1 m1, of ops] assms(4) by auto
  let ?c3 = "cache_Complete key fp r t1 ?c2"
  have m3: "map_of (ca_entries ?c3) key =
      Some (?e\<lparr>ce_pending := False, ce_response := r, ce_bytes := length r, ce_expires := t1 + ca_ttl c\<rparr>)"
    using Complete_stores [OF k2(2), of r t1] assms(6) cfgs [of ops c1] cfg1 by simp
  have "cache_ok ?c3" by (rule cache_ok_Complete [OF k2(1)])
  from slot_kept [OF this m3, of ops'] assms(7) k2 assms(5,8) show ?thesis
    using cache_Begin_live [of ?c2 key ?e t]
      cache_Begin_live [of "fold cache_call ops' ?c3" key _ t'] by simp
qed


subsection \<open>Concrete instances\<close>

definition wit_key :: "byte \<Rightarrow> slotKey" where
  "wit_key i = \<lparr>sk_endpointID = ''ep'', sk_role = RoleAccess, sk_src = ''192.0.2.1:1024'',
     sk_listenerID = ''l1'', sk_code = 1, sk_id = i\<rparr>"

definition wit_fp :: fingerprint where
  "wit_fp = \<lparr>fp_auth = replicate 16 7, fp_digest = replicate 32 5\<rparr>"

lemma wit_key_inj [simp]: "wit_key i = wit_key j \<longleftrightarrow> i = j"
  by (simp add: wit_key_def)

definition wit_cache :: Cache where
  "wit_cache = cache_Complete (wit_key 1) wit_fp [9] 5 (fst (cache_Begin (wit_key 1) wit_fp 0 (newCache 4 100 10)))"

lemma wit_cache_reach:
  "cache_reach 4 100 10 [CallBegin (wit_key 1) wit_fp 0, CallComplete (wit_key 1) wit_fp [9] 5] wit_cache"
proof -
  have "cache_reach 4 100 10 ([] @ [CallBegin (wit_key 1) wit_fp 0])
      (cache_call (CallBegin (wit_key 1) wit_fp 0) (newCache 4 100 10))"
    by (intro cache_reach.intros)
  from cache_reach.call [OF this, of "CallComplete (wit_key 1) wit_fp [9] 5"]
  show ?thesis by (simp add: wit_cache_def)
qed

theorem cache_bounded_and_exact_witness:
  "snd (cache_Begin (wit_key 1) wit_fp 6 wit_cache) = (LookupHit, [9]) \<and> ca_usedBytes wit_cache \<le> 100 \<and>
   (\<exists>t. CallComplete (wit_key 1) wit_fp [9] t \<in>
     set [CallBegin (wit_key 1) wit_fp 0, CallComplete (wit_key 1) wit_fp [9] 5])"
proof -
  have "snd (cache_Begin (wit_key 1) wit_fp 6 wit_cache) = (LookupHit, [9])"
    by (simp add: wit_cache_def cache_Begin_def cache_Complete_def newCache_def cache_expireLocked_def
        reserve_def Let_def)
  with cache_bounded_and_exact [OF wit_cache_reach, of "wit_key 1" wit_fp 6 "[9]"] show ?thesis by simp
qed

theorem cache_duplicate_suppressed_witness:
  "snd (cache_Begin (wit_key 2) wit_fp 9
     (fold cache_call [CallAbandon (wit_key 1) wit_fp, CallBegin (wit_key 2) wit_fp 8]
        (fst (cache_Begin (wit_key 2) wit_fp 7 wit_cache)))) = (LookupPending, []) \<and>
   snd (cache_Begin (wit_key 2) wit_fp 12
     (fold cache_call [CallBegin (wit_key 2) wit_fp 11]
        (cache_Complete (wit_key 2) wit_fp [3] 10
           (fold cache_call [CallAbandon (wit_key 1) wit_fp, CallBegin (wit_key 2) wit_fp 8]
              (fst (cache_Begin (wit_key 2) wit_fp 7 wit_cache)))))) = (LookupHit, [3])"
proof -
  let ?ops = "[CallAbandon (wit_key 1) wit_fp, CallBegin (wit_key 2) wit_fp 8]"
  let ?ops' = "[CallBegin (wit_key 2) wit_fp 11]"
  obtain c1 got out where b: "cache_Begin (wit_key 2) wit_fp 7 wit_cache = (c1, got, out)" by (metis prod_cases3)
  then have got: "got = LookupMiss \<or> got = LookupPurged" and ttl: "ca_ttl wit_cache = 10"
    and used: "ca_usedBytes (fold cache_call ?ops c1) + int (length [3 :: byte]) \<le> ca_maxBytes wit_cache"
    by (auto simp: wit_cache_def cache_Begin_def cache_Complete_def newCache_def cache_expireLocked_def
        reserve_def cache_Abandon_def cache_removeLocked_def Let_def)
  have "list_all (othersCall (wit_key 2) wit_fp (7 + ca_ttl wit_cache)) ?ops"
    "list_all (othersCall (wit_key 2) wit_fp (10 + ca_ttl wit_cache)) ?ops'" by (simp_all add: ttl)
  from cache_duplicate_suppressed [OF wit_cache_reach b got this(1) _ used this(2), of 9 12] b ttl
  show ?thesis by simp
qed

end
