(* ===== verification/Radius_Journal.thy ===== *)
theory Radius_Journal
  imports Bounded_Store
begin

text \<open>
  The semantic accounting journal and the minute sampler of the RADIUS/UDP listener
  (\<open>internal/radius/udp/journal.go\<close>). \<open>Begin\<close> is a loop that waits on the channel of a pending
  key and tries again; \<open>journal_attempt\<close> is one iteration under the mutex, with \<open>BeginWait\<close>
  for the iteration that goes to wait. The pending map is the list of its keys; its channels
  only wake the waiting goroutines.
\<close>

record JournalKey =
  jk_EndpointID :: string
  jk_SrcIP :: string
  jk_SrcPort :: uint16
  jk_SessionID :: string
  jk_StatusType :: string
  jk_NAS :: string
  jk_Fingerprint :: bytes

record journal =
  jo_pending :: "JournalKey list"
  jo_pendingBytes :: int
  jo_entries :: "(JournalKey \<times> int) list"
  jo_sizes :: "(JournalKey \<times> int) list"
  jo_maxEntries :: int
  jo_maxBytes :: int
  jo_usedBytes :: int
  jo_ttl :: int
  jo_sat :: uint64

definition newJournal :: "int \<Rightarrow> int \<Rightarrow> int \<Rightarrow> journal" where
  "newJournal maxEntries maxBytes ttl =
     \<lparr>jo_pending = [], jo_pendingBytes = 0, jo_entries = [], jo_sizes = [],
      jo_maxEntries = (if maxEntries \<le> 0 then 20000 else maxEntries),
      jo_maxBytes = (if maxBytes \<le> 0 then 8388608 else maxBytes),
      jo_usedBytes = 0, jo_ttl = (if ttl \<le> 0 then 60000000000 else ttl), jo_sat = 0\<rparr>"

definition journalKeyBytes :: "JournalKey \<Rightarrow> int" where
  "journalKeyBytes k =
     int (length (jk_EndpointID k) + length (jk_SrcIP k) + 2 + length (jk_SessionID k)
          + length (jk_StatusType k) + length (jk_NAS k) + length (jk_Fingerprint k))"

text \<open>Reading an absent key of the size map gives 0, as a Go map does.\<close>

definition sizeOf :: "journal \<Rightarrow> JournalKey \<Rightarrow> int" where
  "sizeOf j k = (case map_of (jo_sizes j) k of None \<Rightarrow> 0 | Some n \<Rightarrow> n)"

definition journal_expireLocked :: "int \<Rightarrow> journal \<Rightarrow> journal" where
  "journal_expireLocked now j =
     fold (\<lambda>(k, e) j.
       if \<not> e > now
       then (let used = jo_usedBytes j - sizeOf j k
             in j\<lparr>jo_usedBytes := (if used < 0 then 0 else used),
                  jo_entries := AList.delete k (jo_entries j),
                  jo_sizes := AList.delete k (jo_sizes j)\<rparr>)
       else j) (jo_entries j) j"

definition journal_Seen :: "JournalKey \<Rightarrow> int \<Rightarrow> journal \<Rightarrow> journal \<times> bool" where
  "journal_Seen key now j =
     (let j = journal_expireLocked now j
      in (j, case map_of (jo_entries j) key of None \<Rightarrow> False | Some e \<Rightarrow> e > now))"

definition journal_Remember :: "JournalKey \<Rightarrow> int \<Rightarrow> journal \<Rightarrow> journal \<times> bool" where
  "journal_Remember key now j =
     (let j = journal_expireLocked now j; n = journalKeyBytes key
      in if (case map_of (jo_entries j) key of None \<Rightarrow> False | Some e \<Rightarrow> e > now)
         then (j\<lparr>jo_entries := AList.update key (now + jo_ttl j) (jo_entries j)\<rparr>, True)
         else if int (length (jo_entries j)) \<ge> jo_maxEntries j \<or> jo_usedBytes j + n > jo_maxBytes j
         then (j\<lparr>jo_sat := jo_sat j + 1\<rparr>, False)
         else (j\<lparr>jo_entries := AList.update key (now + jo_ttl j) (jo_entries j),
                 jo_sizes := AList.update key n (jo_sizes j),
                 jo_usedBytes := jo_usedBytes j + n\<rparr>, True))"

datatype beginOutcome = BeginDuplicate | BeginWait | BeginSaturated | BeginOwner

definition journal_attempt :: "JournalKey \<Rightarrow> int \<Rightarrow> journal \<Rightarrow> journal \<times> beginOutcome" where
  "journal_attempt key now j =
     (let j = journal_expireLocked now j; n = journalKeyBytes key
      in if (case map_of (jo_entries j) key of None \<Rightarrow> False | Some e \<Rightarrow> e > now) then (j, BeginDuplicate)
         else if key \<in> set (jo_pending j) then (j, BeginWait)
         else if int (length (jo_entries j)) + int (length (jo_pending j)) \<ge> jo_maxEntries j
                 \<or> jo_usedBytes j + jo_pendingBytes j + n > jo_maxBytes j
         then (j\<lparr>jo_sat := jo_sat j + 1\<rparr>, BeginSaturated)
         else (j\<lparr>jo_pending := key # jo_pending j, jo_pendingBytes := jo_pendingBytes j + n\<rparr>, BeginOwner))"

definition journal_Finish :: "JournalKey \<Rightarrow> bool \<Rightarrow> int \<Rightarrow> journal \<Rightarrow> journal" where
  "journal_Finish key accepted now j =
     (if key \<notin> set (jo_pending j) then j
      else (let n = journalKeyBytes key;
                j = j\<lparr>jo_pending := removeAll key (jo_pending j), jo_pendingBytes := jo_pendingBytes j - n\<rparr>
            in if accepted
               then j\<lparr>jo_entries := AList.update key (now + jo_ttl j) (jo_entries j),
                      jo_sizes := AList.update key n (jo_sizes j),
                      jo_usedBytes := jo_usedBytes j + n\<rparr>
               else j))"

text \<open>
  The minute sampler: the window is the clock truncated to a minute. The limit and the count
  are Go ints.
\<close>

record minuteSampler =
  ms_limit :: int
  ms_win :: int
  ms_count :: int

definition sampler_Allow :: "int \<Rightarrow> minuteSampler option \<Rightarrow> minuteSampler option \<times> bool" where
  "sampler_Allow now so =
     (case so of
        None \<Rightarrow> (None, False)
      | Some s \<Rightarrow>
          if ms_limit s \<le> 0 then (Some s, False)
          else (let win = now - now mod 60000000000;
                    s = (if win \<noteq> ms_win s then s\<lparr>ms_win := win, ms_count := 0\<rparr> else s)
                in if ms_count s \<ge> ms_limit s then (Some s, False)
                   else (Some (s\<lparr>ms_count := ms_count s + 1\<rparr>), True)))"

subsection \<open>Invariant\<close>

definition keysBytes :: "JournalKey list \<Rightarrow> int" where
  "keysBytes ks = (\<Sum>k\<leftarrow>ks. journalKeyBytes k)"

definition journalOk :: "journal \<Rightarrow> bool" where
  "journalOk j \<longleftrightarrow>
     distinct (map fst (jo_entries j)) \<and> distinct (map fst (jo_sizes j)) \<and> distinct (jo_pending j) \<and>
     (\<forall>k. map_of (jo_sizes j) k = (if k \<in> fst ` set (jo_entries j) then Some (journalKeyBytes k) else None)) \<and>
     jo_usedBytes j = keysBytes (map fst (jo_entries j)) \<and>
     jo_pendingBytes j = keysBytes (jo_pending j) \<and>
     fst ` set (jo_entries j) \<inter> set (jo_pending j) = {}"

lemma journalKeyBytes_pos: "0 < journalKeyBytes k"
  by (simp add: journalKeyBytes_def)

text \<open>One removal of the expiry loop.\<close>

definition dropKey :: "JournalKey \<Rightarrow> journal \<Rightarrow> journal" where
  "dropKey k j =
     (let used = jo_usedBytes j - sizeOf j k
      in j\<lparr>jo_usedBytes := (if used < 0 then 0 else used),
           jo_entries := AList.delete k (jo_entries j), jo_sizes := AList.delete k (jo_sizes j)\<rparr>)"

lemma dropKey_simps [simp]:
  "jo_entries (dropKey k j) = AList.delete k (jo_entries j)" "jo_pending (dropKey k j) = jo_pending j"
  "jo_pendingBytes (dropKey k j) = jo_pendingBytes j" "jo_maxEntries (dropKey k j) = jo_maxEntries j"
  "jo_maxBytes (dropKey k j) = jo_maxBytes j" "jo_ttl (dropKey k j) = jo_ttl j"
  by (simp_all add: dropKey_def Let_def)

lemma expire_drops:
  "journal_expireLocked now j = fold (\<lambda>(k, e) j. if \<not> e > now then dropKey k j else j) (jo_entries j) j"
  unfolding journal_expireLocked_def dropKey_def by (rule refl)

lemma keysBytes_simps [simp]: "keysBytes [] = 0" "keysBytes (k # ks) = journalKeyBytes k + keysBytes ks"
  by (simp_all add: keysBytes_def)

lemma keysBytes_nonneg: "0 \<le> keysBytes ks"
  by (induction ks) (auto intro: add_nonneg_nonneg less_imp_le journalKeyBytes_pos)

lemma keysBytes_delete:
  assumes "distinct (map fst al)" "k \<in> fst ` set al"
  shows "keysBytes (map fst (AList.delete k al)) = keysBytes (map fst al) - journalKeyBytes k"
  using assms
proof (induction al)
  case (Cons p al)
  show ?case
  proof (cases "fst p = k")
    case True
    with Cons.prems have "AList.delete k al = al" by (intro delete_notin) auto
    with True show ?thesis by (cases p) simp
  next
    case False
    with Cons show ?thesis by (cases p) auto
  qed
qed simp

lemma dropKey_ok:
  assumes ok: "journalOk j" and k: "k \<in> fst ` set (jo_entries j)"
  shows "journalOk (dropKey k j)" "jo_usedBytes (dropKey k j) = jo_usedBytes j - journalKeyBytes k"
proof -
  have size: "sizeOf j k = journalKeyBytes k" using ok k by (simp add: journalOk_def sizeOf_def)
  have "jo_usedBytes j - journalKeyBytes k = keysBytes (map fst (AList.delete k (jo_entries j)))"
    using ok k by (simp add: journalOk_def keysBytes_delete)
  then have used: "0 \<le> jo_usedBytes j - journalKeyBytes k" using keysBytes_nonneg by simp
  then show u: "jo_usedBytes (dropKey k j) = jo_usedBytes j - journalKeyBytes k"
    by (simp add: dropKey_def size Let_def)
  have "jo_sizes (dropKey k j) = AList.delete k (jo_sizes j)" by (simp add: dropKey_def Let_def)
  with ok k u show "journalOk (dropKey k j)"
    by (auto simp: journalOk_def distinct_delete delete_conv' keysBytes_delete keys_delete)
qed

lemma fold_drop:
  "\<lbrakk>journalOk j; distinct (map fst al); jo_entries j = pre @ al\<rbrakk> \<Longrightarrow>
     (let j' = fold (\<lambda>(k, e) j. if \<not> e > now then dropKey k j else j) al j
      in journalOk j' \<and> jo_entries j' = pre @ filter (\<lambda>(k, e). e > now) al \<and>
         jo_usedBytes j' \<le> jo_usedBytes j)"
proof (induction al arbitrary: j pre)
  case (Cons x al)
  obtain k e where x: "x = (k, e)" by (cases x)
  have d: "distinct (map fst (pre @ x # al))" using Cons.prems by (metis journalOk_def)
  show ?case
  proof (cases "e > now")
    case True
    have "jo_entries j = (pre @ [x]) @ al" using Cons.prems by simp
    from Cons.IH [OF Cons.prems(1) _ this] Cons.prems(2) x True show ?thesis by (simp add: Let_def)
  next
    case False
    have "k \<in> fst ` set (jo_entries j)" using Cons.prems x by force
    note drop = dropKey_ok [OF Cons.prems(1) this]
    have "jo_entries (dropKey k j) = pre @ al"
      using Cons.prems(3) d x by (auto simp: delete_append delete_notin)
    from Cons.IH [OF drop(1) _ this] Cons.prems(2) x False drop(2) journalKeyBytes_pos [of k]
    show ?thesis by (auto simp: Let_def)
  qed
qed simp

lemma journalOk_distinct: "journalOk j \<Longrightarrow> distinct (map fst (jo_entries j))"
  by (simp add: journalOk_def)

lemma expire_ok:
  assumes "journalOk j"
  shows "journalOk (journal_expireLocked now j)"
    "jo_entries (journal_expireLocked now j) = filter (\<lambda>(k, e). e > now) (jo_entries j)"
    "jo_usedBytes (journal_expireLocked now j) \<le> jo_usedBytes j"
  using fold_drop [OF assms, of "jo_entries j" "[]" now] journalOk_distinct [OF assms]
  by (simp_all add: expire_drops Let_def)

lemma expire_config:
  "jo_pending (journal_expireLocked now j) = jo_pending j"
  "jo_pendingBytes (journal_expireLocked now j) = jo_pendingBytes j"
  "jo_maxEntries (journal_expireLocked now j) = jo_maxEntries j"
  "jo_maxBytes (journal_expireLocked now j) = jo_maxBytes j"
  "jo_ttl (journal_expireLocked now j) = jo_ttl j"
proof -
  have "let j' = fold (\<lambda>(k, e) j. if \<not> e > now then dropKey k j else j) al j
        in jo_pending j' = jo_pending j \<and> jo_pendingBytes j' = jo_pendingBytes j \<and>
           jo_maxEntries j' = jo_maxEntries j \<and> jo_maxBytes j' = jo_maxBytes j \<and> jo_ttl j' = jo_ttl j" for al
    by (induction al arbitrary: j) (auto simp: Let_def)
  from this [of "jo_entries j"]
  show "jo_pending (journal_expireLocked now j) = jo_pending j"
    "jo_pendingBytes (journal_expireLocked now j) = jo_pendingBytes j"
    "jo_maxEntries (journal_expireLocked now j) = jo_maxEntries j"
    "jo_maxBytes (journal_expireLocked now j) = jo_maxBytes j"
    "jo_ttl (journal_expireLocked now j) = jo_ttl j"
    by (simp_all add: expire_drops Let_def)
qed

lemma expire_lookup:
  assumes "journalOk j"
  shows "map_of (jo_entries (journal_expireLocked now j)) k =
    (case map_of (jo_entries j) k of None \<Rightarrow> None | Some e \<Rightarrow> if e > now then Some e else None)"
proof -
  have "map_of (filter (\<lambda>(k, e). e > now) al) k =
      (case map_of al k of None \<Rightarrow> None | Some e \<Rightarrow> if e > now then Some e else None)"
    if "distinct (map fst al)" for al :: "(JournalKey \<times> int) list"
    using that by (induction al) (force split: option.splits dest: map_of_SomeD)+
  then show ?thesis using assms by (simp add: expire_ok(2) journalOk_def)
qed


subsection \<open>Executions\<close>

datatype journalCall = CallAttempt JournalKey int | CallFinish JournalKey bool int

fun journal_call :: "journalCall \<Rightarrow> journal \<Rightarrow> journal" where
  "journal_call (CallAttempt key now) j = fst (journal_attempt key now j)"
| "journal_call (CallFinish key accepted now) j = journal_Finish key accepted now j"

inductive journal_reach :: "int \<Rightarrow> int \<Rightarrow> int \<Rightarrow> journal \<Rightarrow> bool" for maxEntries maxBytes ttl where
  jstart: "journal_reach maxEntries maxBytes ttl (newJournal maxEntries maxBytes ttl)"
| jcall: "journal_reach maxEntries maxBytes ttl j \<Longrightarrow> journal_reach maxEntries maxBytes ttl (journal_call op j)"

definition journalCaps :: "journal \<Rightarrow> bool" where
  "journalCaps j \<longleftrightarrow> int (length (jo_entries j)) + int (length (jo_pending j)) \<le> jo_maxEntries j \<and>
     jo_usedBytes j + jo_pendingBytes j \<le> jo_maxBytes j"

definition journalInv :: "journal \<Rightarrow> bool" where
  "journalInv j \<longleftrightarrow> journalOk j \<and> journalCaps j"

lemma keysBytes_removeAll:
  "distinct ks \<Longrightarrow> k \<in> set ks \<Longrightarrow> keysBytes (removeAll k ks) = keysBytes ks - journalKeyBytes k"
proof (induction ks)
  case (Cons x ks)
  then show ?case by (cases "x = k") (auto simp: removeAll_id)
qed simp

lemma length_removeAll_distinct: "distinct ks \<Longrightarrow> k \<in> set ks \<Longrightarrow> length (removeAll k ks) = length ks - 1"
  by (simp add: distinct_remove1_removeAll [symmetric] length_remove1)

lemma keysBytes_update:
  "k \<notin> fst ` set al \<Longrightarrow> keysBytes (map fst (AList.update k v al)) = keysBytes (map fst al) + journalKeyBytes k"
  by (induction al) auto

lemma journalInv_expire: "journalInv j \<Longrightarrow> journalInv (journal_expireLocked now j)"
  using expire_ok(1,3) [of j now]
  by (auto simp: journalInv_def journalCaps_def expire_config expire_ok(2))
    (metis (no_types, lifting) add_right_mono int_length_filter le_diff_eq)

lemma expire_live: "journalOk j \<Longrightarrow> (k, e) \<in> set (jo_entries (journal_expireLocked now j)) \<Longrightarrow> e > now"
  by (auto simp: expire_ok(2))

lemma journal_attempt_inv:
  assumes "journalInv j"
  shows "journalInv (fst (journal_attempt key now j))"
proof -
  let ?j = "journal_expireLocked now j"
  have inv: "journalInv ?j" by (rule journalInv_expire [OF assms])
  have "key \<notin> fst ` set (jo_entries ?j)"
    if "\<not> (case map_of (jo_entries ?j) key of None \<Rightarrow> False | Some e \<Rightarrow> e > now)"
    using that expire_lookup [of j now key] assms
    by (auto simp: journalInv_def map_of_eq_None_iff split: option.splits if_splits)
  with inv show ?thesis
    by (auto simp: journal_attempt_def Let_def journalInv_def journalOk_def journalCaps_def)
qed

lemma journal_Finish_inv:
  assumes "journalInv j"
  shows "journalInv (journal_Finish key accepted now j)"
proof (cases "key \<in> set (jo_pending j)")
  case True
  then have notin: "key \<notin> fst ` set (jo_entries j)" using assms by (auto simp: journalInv_def journalOk_def)
  then have none: "map_of (jo_entries j) key = None" by (simp add: map_of_eq_None_iff)
  have len: "int (length (removeAll key (jo_pending j))) = int (length (jo_pending j)) - 1"
    using assms True length_removeAll_distinct [of "jo_pending j" key]
    by (cases "jo_pending j") (auto simp: journalInv_def journalOk_def)
  show ?thesis
    using assms True notin none len journalKeyBytes_pos [of key]
    by (auto simp: journal_Finish_def Let_def journalInv_def journalOk_def journalCaps_def distinct_update
        keysBytes_removeAll keysBytes_update update_conv' length_update dom_update distinct_removeAll)
qed (use assms in \<open>simp add: journal_Finish_def\<close>)

lemma journal_call_inv: "journalInv j \<Longrightarrow> journalInv (journal_call op j)"
  by (cases op) (simp_all add: journal_attempt_inv journal_Finish_inv)

lemma journal_reach_inv: "journal_reach maxEntries maxBytes ttl j \<Longrightarrow> journalInv j"
  by (induction rule: journal_reach.induct)
    (auto simp: journal_call_inv, simp add: newJournal_def journalInv_def journalOk_def journalCaps_def)


text \<open>The owner of a pending key keeps it until it finishes, whatever the other callers do.\<close>

fun notFinish :: "JournalKey \<Rightarrow> journalCall \<Rightarrow> bool" where
  "notFinish key (CallFinish k accepted now) = (k \<noteq> key)"
| "notFinish key (CallAttempt k now) = True"

fun before :: "int \<Rightarrow> journalCall \<Rightarrow> bool" where
  "before limit (CallAttempt k now) = (now < limit)"
| "before limit (CallFinish k accepted now) = True"

lemma attempt_pending_mono: "key \<in> set (jo_pending j) \<Longrightarrow> key \<in> set (jo_pending (fst (journal_attempt k now j)))"
  by (simp add: journal_attempt_def Let_def expire_config)

lemma pending_kept:
  "\<lbrakk>journalInv j; key \<in> set (jo_pending j); list_all (notFinish key) ops\<rbrakk> \<Longrightarrow>
     journalInv (fold journal_call ops j) \<and> key \<in> set (jo_pending (fold journal_call ops j))"
proof (induction ops arbitrary: j)
  case (Cons op ops)
  then have "key \<in> set (jo_pending (journal_call op j))"
    by (cases op) (auto simp: attempt_pending_mono journal_Finish_def Let_def)
  with Cons show ?case by (simp add: journal_call_inv)
qed simp

lemma pending_not_entry: "journalInv j \<Longrightarrow> key \<in> set (jo_pending j) \<Longrightarrow> map_of (jo_entries j) key = None"
  by (auto simp: journalInv_def journalOk_def map_of_eq_None_iff)

lemma attempt_on_pending:
  "journalInv j \<Longrightarrow> key \<in> set (jo_pending j) \<Longrightarrow> snd (journal_attempt key now j) = BeginWait"
  using pending_not_entry [of j key]
  by (simp add: journal_attempt_def Let_def expire_lookup expire_config journalInv_def)

lemma entry_kept_call:
  assumes "journalInv j" "map_of (jo_entries j) key = Some e" "before e op"
  shows "map_of (jo_entries (journal_call op j)) key = Some e"
proof (cases op)
  case (CallAttempt k now)
  with assms have "map_of (jo_entries (journal_expireLocked now j)) key = Some e"
    by (simp add: expire_lookup journalInv_def)
  with CallAttempt show ?thesis by (simp add: journal_attempt_def Let_def)
next
  case (CallFinish k accepted now)
  have "k \<noteq> key" if "k \<in> set (jo_pending j)" using that pending_not_entry [of j k] assms by auto
  with CallFinish assms show ?thesis by (auto simp: journal_Finish_def Let_def update_conv')
qed

lemma entry_kept:
  "\<lbrakk>journalInv j; map_of (jo_entries j) key = Some e; list_all (before e) ops\<rbrakk> \<Longrightarrow>
     journalInv (fold journal_call ops j) \<and> map_of (jo_entries (fold journal_call ops j)) key = Some e"
  by (induction ops arbitrary: j) (auto simp: journal_call_inv entry_kept_call)

lemma journal_call_ttl: "jo_ttl (journal_call op j) = jo_ttl j"
  by (cases op) (simp_all add: journal_attempt_def journal_Finish_def Let_def expire_config)

lemma fold_journal_ttl: "jo_ttl (fold journal_call ops j) = jo_ttl j"
  by (induction ops arbitrary: j) (simp_all add: journal_call_ttl)

lemma attempt_owner: "journal_attempt key now j = (j', BeginOwner) \<Longrightarrow> key \<in> set (jo_pending j')"
  by (auto simp: journal_attempt_def Let_def split: if_splits)

lemma retry_after_reject:
  assumes "journalInv j" "key \<in> set (jo_pending j)"
  shows "snd (journal_attempt key now (journal_Finish key False t j)) = BeginOwner"
proof -
  let ?f = "journal_Finish key False t j"
  let ?j = "journal_expireLocked now ?f"
  have f: "jo_pending ?f = removeAll key (jo_pending j)" "jo_entries ?f = jo_entries j"
    "jo_pendingBytes ?f = jo_pendingBytes j - journalKeyBytes key" "jo_usedBytes ?f = jo_usedBytes j"
    "jo_maxEntries ?f = jo_maxEntries j" "jo_maxBytes ?f = jo_maxBytes j"
    using assms(2) by (simp_all add: journal_Finish_def Let_def)
  have inv: "journalInv ?f" by (rule journal_Finish_inv [OF assms(1)])
  have "map_of (jo_entries ?j) key = None"
    using pending_not_entry [OF assms] expire_lookup [of ?f now key] inv by (simp add: journalInv_def f)
  moreover have "int (length (jo_entries ?j)) \<le> int (length (jo_entries j))"
    using inv by (simp add: expire_ok(2) journalInv_def f)
  moreover have "jo_usedBytes ?j \<le> jo_usedBytes j" using expire_ok(3) [of ?f now] inv by (simp add: journalInv_def f)
  moreover have "int (length (removeAll key (jo_pending j))) < int (length (jo_pending j))"
    using assms by (simp add: length_removeAll_less)
  ultimately show ?thesis
    using assms(1) by (auto simp: journal_attempt_def Let_def expire_config f journalInv_def journalCaps_def)
qed

subsection \<open>Properties\<close>

text \<open>
  Accounting is recorded once per semantic identity. Once a caller owns a key, and
  until it finishes, every other attempt on that key waits, whatever calls interleave; after
  the owner finishes with an accepted record, every attempt before the entry's time to live
  runs out is reported as a duplicate, whatever calls interleave; and after a rejected
  record the next attempt owns the key again, so a failure can be retried.
\<close>

theorem journal_exactly_once:
  assumes "journal_reach maxEntries maxBytes ttl j" "journal_attempt key t0 j = (j1, BeginOwner)"
    and "list_all (notFinish key) ops" "list_all (before (t1 + jo_ttl j)) ops'" "t' < t1 + jo_ttl j"
  shows "snd (journal_attempt key t (fold journal_call ops j1)) = BeginWait \<and>
    snd (journal_attempt key t' (fold journal_call ops' (journal_Finish key True t1 (fold journal_call ops j1))))
      = BeginDuplicate \<and>
    snd (journal_attempt key t (journal_Finish key False t1 (fold journal_call ops j1))) = BeginOwner"
proof -
  let ?j2 = "fold journal_call ops j1"
  have j1: "j1 = journal_call (CallAttempt key t0) j" using assms(2) by simp
  have inv1: "journalInv j1" using journal_call_inv [OF journal_reach_inv [OF assms(1)]] by (simp only: j1)
  from pending_kept [OF inv1 attempt_owner [OF assms(2)] assms(3)]
  have inv2: "journalInv ?j2" and p2: "key \<in> set (jo_pending ?j2)" by auto
  let ?j3 = "journal_Finish key True t1 ?j2"
  have ttl: "jo_ttl ?j2 = jo_ttl j" by (simp only: fold_journal_ttl j1 journal_call_ttl)
  have "map_of (jo_entries ?j3) key = Some (t1 + jo_ttl j)"
    using p2 by (simp add: journal_Finish_def Let_def update_conv' ttl)
  from entry_kept [OF journal_Finish_inv [OF inv2] this assms(4)]
  have "journalInv (fold journal_call ops' ?j3)" "map_of (jo_entries (fold journal_call ops' ?j3)) key = Some (t1 + jo_ttl j)"
    by auto
  then have "snd (journal_attempt key t' (fold journal_call ops' ?j3)) = BeginDuplicate"
    using assms(5) by (simp add: journal_attempt_def Let_def expire_lookup journalInv_def)
  with attempt_on_pending [OF inv2 p2] retry_after_reject [OF inv2 p2] show ?thesis by simp
qed

definition wit_jkey :: JournalKey where
  "wit_jkey = \<lparr>jk_EndpointID = ''ep'', jk_SrcIP = ''192.0.2.1'', jk_SrcPort = 1813, jk_SessionID = ''s1'',
     jk_StatusType = ''start'', jk_NAS = ''id:nas'', jk_Fingerprint = replicate 32 0\<rparr>"

theorem journal_exactly_once_witness:
  "snd (journal_attempt wit_jkey 50
     (journal_Finish wit_jkey True 7 (fst (journal_attempt wit_jkey 5 (newJournal 10 1000 60))))) = BeginDuplicate"
proof -
  let ?j = "newJournal 10 1000 60"
  obtain j1 where a: "journal_attempt wit_jkey 5 ?j = (j1, BeginOwner)"
    by (simp add: journal_attempt_def newJournal_def journal_expireLocked_def wit_jkey_def journalKeyBytes_def Let_def)
  have "jo_ttl ?j = 60" by (simp add: newJournal_def)
  with journal_exactly_once [OF jstart a, of "[]" 7 "[]" 50 0] a show ?thesis by simp
qed

end
