(* ===== verification/Challenge_Store.thy ===== *)
theory Challenge_Store
  imports Radius_Attribute Go_Crypto Bounded_Store
begin

text \<open>
  The Access-Challenge State table (\<open>internal/radius/runtime/challenge_store.go\<close>): a bounded,
  consume-on-use store keyed by the SHA-256 of the endpoint identifier and the State octets.
  Times are integers and the clock reading is an argument; a \<open>netip.Addr\<close> is \<open>None\<close> when it is
  not valid. Each method holds the mutex, so executions are sequences of calls.
\<close>

datatype BindKind = BindUDPIP | BindTLSCert | BindOther byte

record ChallengeBind =
  cb_Kind :: BindKind
  cb_SourceIP :: "string option"
  cb_CertFP :: bytes

abbreviation (input) zeroFP :: bytes where "zeroFP \<equiv> replicate 32 0"

definition Bind_Unset :: "ChallengeBind \<Rightarrow> bool" where
  "Bind_Unset b \<longleftrightarrow> cb_SourceIP b = None \<and> cb_CertFP b = zeroFP"

definition Bind_match :: "ChallengeBind \<Rightarrow> ChallengeBind \<Rightarrow> bool" where
  "Bind_match b other =
     (if cb_Kind b \<noteq> cb_Kind other then False
      else case cb_Kind b of
        BindUDPIP \<Rightarrow> cb_SourceIP b \<noteq> None \<and> cb_SourceIP b = cb_SourceIP other
      | BindTLSCert \<Rightarrow> cb_CertFP b \<noteq> zeroFP \<and> cb_CertFP b = cb_CertFP other
      | BindOther _ \<Rightarrow> False)"

record ChallengeIssue =
  ci_State :: bytes
  ci_EndpointID :: string
  ci_ClientID :: string
  ci_Bind :: ChallengeBind
  ci_UserID :: string
  ci_Method :: string
  ci_EAPID :: byte
  ci_EAPType :: byte
  ci_Step :: string
  ci_ReplyAttributes :: RawSet
  ci_MD5Challenge :: bytes
  ci_TunnelID :: string
  ci_Revision :: uint64

record challengeEntry =
  ch_endpointID :: string
  ch_clientID :: string
  ch_bind :: ChallengeBind
  ch_userID :: string
  ch_method :: string
  ch_eapID :: byte
  ch_eapType :: byte
  ch_step :: string
  ch_reply :: RawSet
  ch_md5 :: bytes
  ch_tunnelID :: string
  ch_expires :: int
  ch_revision :: uint64
  ch_bytes :: nat

record ChallengeRecord =
  cr_EndpointID :: string
  cr_ClientID :: string
  cr_Bind :: ChallengeBind
  cr_UserID :: string
  cr_Method :: string
  cr_EAPID :: byte
  cr_EAPType :: byte
  cr_Step :: string
  cr_ReplyAttributes :: RawSet
  cr_MD5Challenge :: bytes
  cr_TunnelID :: string
  cr_Expires :: int
  cr_Revision :: uint64

datatype IssueResult = IssueOK | IssueInvalid | IssueExists | IssueSaturated

text \<open>\<open>ConsumeOK\<close> carries the record that the Go function returns beside it.\<close>

datatype ConsumeResult = ConsumeOK ChallengeRecord | ConsumeUnknown | ConsumeExpired | ConsumeBinding

record ChallengeStore =
  cs_entries :: "(bytes \<times> challengeEntry) list"
  cs_maxEntries :: int
  cs_maxBytes :: int
  cs_usedBytes :: int
  cs_ttl :: int
  cs_saturations :: uint64

definition NewChallengeStore :: "int \<Rightarrow> int \<Rightarrow> int \<Rightarrow> ChallengeStore" where
  "NewChallengeStore maxEntries maxBytes ttl =
     \<lparr>cs_entries = [], cs_maxEntries = (if maxEntries \<le> 0 then 4096 else maxEntries),
      cs_maxBytes = (if maxBytes \<le> 0 then 1048576 else maxBytes), cs_usedBytes = 0,
      cs_ttl = (if ttl \<le> 0 then 30000000000 else ttl), cs_saturations = 0\<rparr>"

definition challengeKey :: "string \<Rightarrow> bytes \<Rightarrow> bytes" where
  "challengeKey endpointID st = sha256 (bytes_of_string endpointID @ st)"

definition entryBytes :: "challengeEntry \<Rightarrow> nat" where
  "entryBytes e = 32 + length (ch_endpointID e) + length (ch_clientID e) + length (ch_userID e)
     + length (ch_method e) + length (ch_md5 e) + length (ch_tunnelID e) + WireSize (ch_reply e)
     + length (ch_reply e) * 24 + 64"

definition issueValid :: "ChallengeIssue \<Rightarrow> bool" where
  "issueValid i =
     (if length (ci_State i) = 0 \<or> ci_EndpointID i = '''' \<or> ci_ClientID i = '''' then False
      else case cb_Kind (ci_Bind i) of
        BindUDPIP \<Rightarrow> cb_SourceIP (ci_Bind i) \<noteq> None
      | BindTLSCert \<Rightarrow> cb_CertFP (ci_Bind i) \<noteq> zeroFP
      | BindOther _ \<Rightarrow> False)"

definition store_removeLocked :: "bytes \<Rightarrow> ChallengeStore \<Rightarrow> ChallengeStore" where
  "store_removeLocked key s =
     (case map_of (cs_entries s) key of
        None \<Rightarrow> s
      | Some e \<Rightarrow>
          (let used = cs_usedBytes s - int (ch_bytes e)
           in s\<lparr>cs_usedBytes := (if used < 0 then 0 else used), cs_entries := AList.delete key (cs_entries s)\<rparr>))"

definition store_expireLocked :: "int \<Rightarrow> ChallengeStore \<Rightarrow> ChallengeStore" where
  "store_expireLocked now s =
     fold (\<lambda>(k, e) s. if \<not> ch_expires e > now then store_removeLocked k s else s) (cs_entries s) s"

definition entryOf :: "ChallengeIssue \<Rightarrow> int \<Rightarrow> challengeEntry" where
  "entryOf i expires =
     (let e = \<lparr>ch_endpointID = ci_EndpointID i, ch_clientID = ci_ClientID i, ch_bind = ci_Bind i,
               ch_userID = ci_UserID i, ch_method = ci_Method i, ch_eapID = ci_EAPID i,
               ch_eapType = ci_EAPType i, ch_step = ci_Step i, ch_reply = ci_ReplyAttributes i,
               ch_md5 = ci_MD5Challenge i, ch_tunnelID = ci_TunnelID i, ch_expires = expires,
               ch_revision = ci_Revision i, ch_bytes = 0\<rparr>
      in e\<lparr>ch_bytes := entryBytes e\<rparr>)"

definition Issue :: "ChallengeIssue \<Rightarrow> int \<Rightarrow> ChallengeStore \<Rightarrow> ChallengeStore \<times> IssueResult" where
  "Issue i now s =
     (if \<not> issueValid i then (s, IssueInvalid)
      else (let key = challengeKey (ci_EndpointID i) (ci_State i);
                s = store_expireLocked now s
            in if map_of (cs_entries s) key \<noteq> None then (s, IssueExists)
               else (let e = entryOf i (now + cs_ttl s)
                     in if int (length (cs_entries s)) \<ge> cs_maxEntries s
                           \<or> cs_usedBytes s + int (ch_bytes e) > cs_maxBytes s
                        then (s\<lparr>cs_saturations := cs_saturations s + 1\<rparr>, IssueSaturated)
                        else (s\<lparr>cs_entries := AList.update key e (cs_entries s),
                                cs_usedBytes := cs_usedBytes s + int (ch_bytes e)\<rparr>, IssueOK))))"

definition recordOf :: "challengeEntry \<Rightarrow> ChallengeRecord" where
  "recordOf e = \<lparr>cr_EndpointID = ch_endpointID e, cr_ClientID = ch_clientID e, cr_Bind = ch_bind e,
     cr_UserID = ch_userID e, cr_Method = ch_method e, cr_EAPID = ch_eapID e, cr_EAPType = ch_eapType e,
     cr_Step = ch_step e, cr_ReplyAttributes = ch_reply e, cr_MD5Challenge = ch_md5 e,
     cr_TunnelID = ch_tunnelID e, cr_Expires = ch_expires e, cr_Revision = ch_revision e\<rparr>"

definition Consume ::
  "string \<Rightarrow> bytes \<Rightarrow> string \<Rightarrow> ChallengeBind \<Rightarrow> int \<Rightarrow> ChallengeStore \<Rightarrow> ChallengeStore \<times> ConsumeResult" where
  "Consume endpointID st clientID bind now s =
     (if endpointID = '''' \<or> length st = 0 then (s, ConsumeUnknown)
      else (let key = challengeKey endpointID st
            in case map_of (cs_entries s) key of
                 None \<Rightarrow> (s, ConsumeUnknown)
               | Some e \<Rightarrow>
                   if \<not> ch_expires e > now then (store_removeLocked key s, ConsumeExpired)
                   else if ch_clientID e \<noteq> clientID \<or> \<not> Bind_match (ch_bind e) bind then (s, ConsumeBinding)
                   else (store_removeLocked key s, ConsumeOK (recordOf e))))"

definition store_Reset :: "ChallengeStore \<Rightarrow> ChallengeStore" where
  "store_Reset s = fold (\<lambda>(k, e) s. store_removeLocked k s) (cs_entries s) s"

definition store_Len :: "int \<Rightarrow> ChallengeStore \<Rightarrow> ChallengeStore \<times> nat" where
  "store_Len now s = (let s = store_expireLocked now s in (s, length (cs_entries s)))"

subsection \<open>Executions\<close>

datatype storeCall =
    CallIssue ChallengeIssue int
  | CallConsume string bytes string ChallengeBind int
  | CallReset
  | CallLen int

fun store_call :: "storeCall \<Rightarrow> ChallengeStore \<Rightarrow> ChallengeStore" where
  "store_call (CallIssue i now) s = fst (Issue i now s)"
| "store_call (CallConsume ep st cl b now) s = fst (Consume ep st cl b now s)"
| "store_call CallReset s = store_Reset s"
| "store_call (CallLen now) s = fst (store_Len now s)"

inductive store_reach :: "int \<Rightarrow> int \<Rightarrow> int \<Rightarrow> storeCall list \<Rightarrow> ChallengeStore \<Rightarrow> bool"
  for maxEntries maxBytes ttl where
  sstart: "store_reach maxEntries maxBytes ttl [] (NewChallengeStore maxEntries maxBytes ttl)"
| scall: "store_reach maxEntries maxBytes ttl h s \<Longrightarrow>
    store_reach maxEntries maxBytes ttl (h @ [op]) (store_call op s)"

subsection \<open>The store is an accounted store\<close>

lemma store_removeLocked_simps [simp]:
  "cs_entries (store_removeLocked k s) = AList.delete k (cs_entries s)"
  "cs_maxEntries (store_removeLocked k s) = cs_maxEntries s"
  "cs_maxBytes (store_removeLocked k s) = cs_maxBytes s"
  "cs_ttl (store_removeLocked k s) = cs_ttl s"
  by (auto simp: store_removeLocked_def Let_def delete_None split: option.splits)

interpretation chst: bounded_store cs_entries cs_usedBytes ch_bytes store_removeLocked
  cs_maxEntries cs_maxBytes cs_ttl
  by unfold_locales (auto simp: store_removeLocked_def Let_def delete_None split: option.splits)

lemmas store_caps_sweep [simp] = chst.caps_sweep

lemma store_expireLocked_sweep: "store_expireLocked now s = chst.sweep (\<lambda>e. \<not> ch_expires e > now) s"
  by (simp add: store_expireLocked_def chst.sweep_def)

lemma store_Reset_sweep: "store_Reset s = chst.sweep (\<lambda>e. True) s"
  by (simp add: store_Reset_def chst.sweep_def)


lemma within_Issue: "chst.within s \<Longrightarrow> chst.within (fst (Issue i now s))"
proof -
  assume w: "chst.within s"
  let ?s = "store_expireLocked now s"
  let ?key = "challengeKey (ci_EndpointID i) (ci_State i)"
  let ?e = "entryOf i (now + cs_ttl ?s)"
  have ws: "chst.within ?s" using w by (simp add: store_expireLocked_sweep chst.within_sweep)
  have "chst.within (?s\<lparr>cs_entries := AList.update ?key ?e (cs_entries ?s),
      cs_usedBytes := cs_usedBytes ?s + int (ch_bytes ?e)\<rparr>)"
    if "map_of (cs_entries ?s) ?key = None" "int (length (cs_entries ?s)) < cs_maxEntries ?s"
      "cs_usedBytes ?s + int (ch_bytes ?e) \<le> cs_maxBytes ?s"
    by (rule chst.within_insert [OF ws that]) simp_all
  moreover have "chst.within (?s\<lparr>cs_saturations := n\<rparr>)" for n
    using ws by (simp add: chst.within_def chst.balanced_def)
  ultimately show ?thesis using w ws by (auto simp: Issue_def Let_def)
qed

lemma within_Consume: "chst.within s \<Longrightarrow> chst.within (fst (Consume ep st cl b now s))"
  by (auto simp: Consume_def Let_def chst.within_remove split: option.splits)

lemma within_store_call: "chst.within s \<Longrightarrow> chst.within (store_call op s)"
  by (cases op) (simp_all add: within_Issue within_Consume store_Reset_sweep store_Len_def Let_def
      store_expireLocked_sweep chst.within_sweep)

lemma store_call_caps:
  "cs_maxEntries (store_call op s) = cs_maxEntries s \<and> cs_maxBytes (store_call op s) = cs_maxBytes s"
  by (cases op) (auto simp: Issue_def Consume_def store_Reset_sweep store_Len_def Let_def
      store_expireLocked_sweep split: option.splits)

text \<open>Every entry was put there by an \<open>Issue\<close> call for its key.\<close>

definition issued :: "storeCall list \<Rightarrow> ChallengeStore \<Rightarrow> bool" where
  "issued h s \<longleftrightarrow> tbl_ok (\<lambda>k e. \<exists>i t. CallIssue i t \<in> set h \<and> issueValid i \<and>
     k = challengeKey (ci_EndpointID i) (ci_State i) \<and> e = entryOf i (ch_expires e)) (cs_entries s)"

lemma issued_mono: "issued h s \<Longrightarrow> issued (h @ [op]) s"
  by (auto simp: issued_def elim!: tbl_ok_mono)

lemma issued_remove: "issued h s \<Longrightarrow> issued h (store_removeLocked k s)"
  by (simp add: issued_def tbl_ok_delete)

lemma issued_sweep: "chst.within s \<Longrightarrow> issued h s \<Longrightarrow> issued h (chst.sweep dead s)"
  by (simp add: issued_def chst.sweep_entries chst.balanced_distinct chst.within_balanced tbl_ok_filter)

lemma ch_expires_entryOf [simp]: "ch_expires (entryOf i t) = t"
  by (simp add: entryOf_def Let_def)

lemma issued_Issue:
  assumes "chst.within s" "issued h s"
  shows "issued (h @ [CallIssue i now]) (fst (Issue i now s))"
proof -
  let ?s = "store_expireLocked now s"
  have t: "issued (h @ [CallIssue i now]) s" by (rule issued_mono [OF assms(2)])
  then have ts: "issued (h @ [CallIssue i now]) ?s"
    using assms(1) by (simp add: store_expireLocked_sweep issued_sweep)
  have "issued (h @ [CallIssue i now]) (?s\<lparr>cs_entries := AList.update (challengeKey (ci_EndpointID i) (ci_State i))
      (entryOf i t) (cs_entries ?s), cs_usedBytes := n\<rparr>)" if "issueValid i" for t n
    using ts that by (auto simp: issued_def intro!: tbl_ok_update)
  moreover have "issued (h @ [CallIssue i now]) (?s\<lparr>cs_saturations := n\<rparr>)" for n
    using ts by (simp add: issued_def)
  ultimately show ?thesis using t ts by (auto simp: Issue_def Let_def)
qed

lemma issued_store_call:
  assumes "chst.within s" "issued h s"
  shows "issued (h @ [op]) (store_call op s)"
proof (cases op)
  case (CallConsume ep st cl b now)
  then show ?thesis
    using issued_mono [OF assms(2), of op] by (auto simp: Consume_def Let_def issued_remove split: option.splits)
qed (use assms issued_mono [OF assms(2), of op] in
    \<open>simp_all add: issued_Issue store_Reset_sweep store_Len_def Let_def store_expireLocked_sweep issued_sweep\<close>)

lemma store_reach_inv:
  "store_reach maxEntries maxBytes ttl h s \<Longrightarrow>
     chst.within s \<and> issued h s \<and> cs_maxEntries s = cs_maxEntries (NewChallengeStore maxEntries maxBytes ttl) \<and>
     cs_maxBytes s = cs_maxBytes (NewChallengeStore maxEntries maxBytes ttl)"
proof (induction rule: store_reach.induct)
  case sstart
  show ?case by (simp add: NewChallengeStore_def chst.within_def chst.balanced_def issued_def)
next
  case (scall h s op)
  then show ?case by (simp add: within_store_call issued_store_call store_call_caps)
qed

text \<open>A key that is absent stays absent until it is issued again.\<close>

fun notIssue :: "bytes \<Rightarrow> storeCall \<Rightarrow> bool" where
  "notIssue key (CallIssue i now) = (challengeKey (ci_EndpointID i) (ci_State i) \<noteq> key)"
| "notIssue key _ = True"

lemma absent_call:
  assumes "chst.within s" "map_of (cs_entries s) key = None" "notIssue key op"
  shows "map_of (cs_entries (store_call op s)) key = None"
proof -
  have sw: "map_of (cs_entries (chst.sweep dead s)) key = None" for dead
    using assms by (simp add: chst.sweep_lookup chst.within_balanced)
  show ?thesis
    by (cases op) (use assms sw in \<open>auto simp: Issue_def Consume_def store_Reset_sweep store_Len_def Let_def
        store_expireLocked_sweep update_conv' delete_conv' split: option.splits\<close>)
qed

lemma absent_kept:
  "\<lbrakk>chst.within s; map_of (cs_entries s) key = None; list_all (notIssue key) ops\<rbrakk> \<Longrightarrow>
     map_of (cs_entries (fold store_call ops s)) key = None"
  by (induction ops arbitrary: s) (auto simp: within_store_call absent_call)

subsection \<open>Properties\<close>

text \<open>
  Property C37. A challenge State is single use and bound. In every state the store reaches, its
  entry count and byte count are within the caps. When a continuation consumes a State, that
  State was issued before, to the same client and with a bind that matches the
  continuation's, the entry has not expired, and the record returned is the one issued. From
  then on, unless that State is issued again, every continuation with it is unknown.
\<close>

theorem challenge_single_use:
  assumes "store_reach maxEntries maxBytes ttl h s" "Consume ep st cl b now s = (s', ConsumeOK r)"
    and "list_all (notIssue (challengeKey ep st)) ops"
  shows "(\<exists>i t. CallIssue i t \<in> set h \<and> challengeKey (ci_EndpointID i) (ci_State i) = challengeKey ep st \<and>
        ci_ClientID i = cl \<and> Bind_match (ci_Bind i) b \<and> cr_Expires r > now \<and>
        r = recordOf (entryOf i (cr_Expires r))) \<and>
    snd (Consume ep st cl' b' now' (fold store_call ops s')) = ConsumeUnknown \<and>
    int (length (cs_entries s)) \<le> (if maxEntries \<le> 0 then 4096 else maxEntries) \<and>
    cs_usedBytes s \<le> (if maxBytes \<le> 0 then 1048576 else maxBytes)"
proof -
  let ?key = "challengeKey ep st"
  from store_reach_inv [OF assms(1)] have w: "chst.within s" and iss: "issued h s"
    and caps: "cs_maxEntries s = cs_maxEntries (NewChallengeStore maxEntries maxBytes ttl)"
      "cs_maxBytes s = cs_maxBytes (NewChallengeStore maxEntries maxBytes ttl)" by auto
  from assms(2) obtain e where e: "map_of (cs_entries s) ?key = Some e" "ch_expires e > now" "ch_clientID e = cl"
      "Bind_match (ch_bind e) b" "r = recordOf e" and s': "s' = store_removeLocked ?key s"
    by (auto simp: Consume_def Let_def split: if_splits option.splits)
  have "map_of (cs_entries s') ?key = None" by (simp add: s' delete_conv')
  moreover have "chst.within s'" by (simp add: s' chst.within_remove w)
  ultimately have "map_of (cs_entries (fold store_call ops s')) ?key = None"
    using absent_kept assms(3) by blast
  then have u: "snd (Consume ep st cl' b' now' (fold store_call ops s')) = ConsumeUnknown"
    by (simp add: Consume_def Let_def)
  from tbl_ok_lookup [OF iss [unfolded issued_def] e(1)] obtain i t
    where i: "CallIssue i t \<in> set h" "?key = challengeKey (ci_EndpointID i) (ci_State i)" "e = entryOf i (ch_expires e)"
    by blast
  have "ch_clientID e = ci_ClientID i" "ch_bind e = ci_Bind i"
    by (subst i(3), simp add: entryOf_def Let_def)+
  with i e have "CallIssue i t \<in> set h \<and> challengeKey (ci_EndpointID i) (ci_State i) = ?key \<and>
      ci_ClientID i = cl \<and> Bind_match (ci_Bind i) b \<and> cr_Expires r > now \<and> r = recordOf (entryOf i (cr_Expires r))"
    by (auto simp: recordOf_def)
  with u show ?thesis
    using w caps by (auto simp: chst.within_def NewChallengeStore_def)
qed


definition wit_bind :: ChallengeBind where
  "wit_bind = \<lparr>cb_Kind = BindUDPIP, cb_SourceIP = Some ''192.0.2.1'', cb_CertFP = replicate 32 0\<rparr>"

definition wit_issue :: "string \<Rightarrow> bytes \<Rightarrow> ChallengeIssue" where
  "wit_issue ep st = \<lparr>ci_State = st, ci_EndpointID = ep, ci_ClientID = ''nas'', ci_Bind = wit_bind,
     ci_UserID = ''bob'', ci_Method = ''eap'', ci_EAPID = 1, ci_EAPType = 4, ci_Step = ''md5_challenge'',
     ci_ReplyAttributes = [], ci_MD5Challenge = [7], ci_TunnelID = '''', ci_Revision = 1\<rparr>"

definition wit_store :: "string \<Rightarrow> bytes \<Rightarrow> ChallengeStore" where
  "wit_store ep st = fst (Issue (wit_issue ep st) 0 (NewChallengeStore 8 4096 10))"

lemma wit_store_reach: "store_reach 8 4096 10 [CallIssue (wit_issue ep st) 0] (wit_store ep st)"
  using scall [OF sstart, of 8 4096 10 "CallIssue (wit_issue ep st) 0"] by (simp add: wit_store_def)

lemma wit_consume:
  assumes "st \<noteq> []" "length ep < 100" "ep \<noteq> ''''" "ep' \<noteq> ''''" "st' \<noteq> []"
    and "challengeKey ep' st' = challengeKey ep st"
  shows "\<exists>s' r. Consume ep' st' ''nas'' wit_bind 5 (wit_store ep st) = (s', ConsumeOK r) \<and> cr_EndpointID r = ep"
  using assms
  by (simp add: wit_store_def Issue_def wit_issue_def issueValid_def NewChallengeStore_def store_expireLocked_def
      Consume_def entryOf_def entryBytes_def wit_bind_def Bind_match_def recordOf_def Let_def)

theorem challenge_single_use_witness:
  "\<exists>s' r. Consume ''ep'' [1] ''nas'' wit_bind 5 (wit_store ''ep'' [1]) = (s', ConsumeOK r) \<and>
     snd (Consume ''ep'' [1] ''nas'' wit_bind 6 (fold store_call [CallReset] s')) = ConsumeUnknown"
proof -
  obtain s' r where c: "Consume ''ep'' [1] ''nas'' wit_bind 5 (wit_store ''ep'' [1]) = (s', ConsumeOK r)"
    using wit_consume [of "[1]" "''ep''" "''ep''" "[1]"] by auto
  from challenge_single_use [OF wit_store_reach c, of "[CallReset]"] c show ?thesis by auto
qed

text \<open>
  The key is the hash of the endpoint identifier and the State with nothing between them, and
  \<open>Consume\<close> does not compare the endpoint of the entry: a State issued for the endpoint \<open>ab\<close> is
  consumed by a continuation on the endpoint \<open>a\<close> of the same client whose State starts with \<open>b\<close>.
\<close>

lemma challengeKey_ambiguous: "challengeKey (x @ y) st = challengeKey x (bytes_of_string y @ st)"
  by (simp add: challengeKey_def bytes_of_string_def)

lemma challenge_endpoint_confusion:
  "\<exists>s' r. Consume ''a'' [98, 1] ''nas'' wit_bind 5 (wit_store ''ab'' [1]) = (s', ConsumeOK r) \<and>
     cr_EndpointID r = ''ab''"
proof -
  have "challengeKey ''a'' [98, 1] = challengeKey ''ab'' [1]"
    using challengeKey_ambiguous [of "''a''" "''b''" "[1]"] by (simp add: bytes_of_string_def)
  then show ?thesis by (intro wit_consume) simp_all
qed

end
