(* ===== verification/Radius_Dictionary.thy ===== *)
theory Radius_Dictionary
  imports Radius_Attribute Go_Strings
begin

text \<open>
  The attribute dictionary (\<open>internal/radius/attribute\<close>: \<open>key.go\<close>, \<open>definition.go\<close>,
  \<open>standard.go\<close>, \<open>dictionary.go\<close>, \<open>sensitivity.go\<close>): definitions with their packet roles
  as a bit mask, the built-in table, lookups, the value-free summary and the legality check
  of an attribute set. A Go panic is \<open>None\<close>. The maps of a dictionary are association
  lists; the formatted text of an error is left out and its sentinel kept.
\<close>

subsection \<open>Keys, roles and definitions\<close>

datatype AttributeSpace = SpaceIETF | SpaceVSA

record Key =
  key_Vendor :: uint32
  key_Code :: uint32
  key_Space :: AttributeSpace

definition IETFKey :: "byte \<Rightarrow> Key" where
  "IETFKey code = \<lparr>key_Vendor = 0, key_Code = ucast code, key_Space = SpaceIETF\<rparr>"

abbreviation (input) PacketAccessRequest :: byte where "PacketAccessRequest \<equiv> 1"
abbreviation (input) PacketAccessAccept :: byte where "PacketAccessAccept \<equiv> 2"
abbreviation (input) PacketAccessReject :: byte where "PacketAccessReject \<equiv> 3"
abbreviation (input) PacketAccountingRequest :: byte where "PacketAccountingRequest \<equiv> 4"
abbreviation (input) PacketAccountingResponse :: byte where "PacketAccountingResponse \<equiv> 5"
abbreviation (input) PacketAccessChallenge :: byte where "PacketAccessChallenge \<equiv> 11"
abbreviation (input) PacketDisconnectRequest :: byte where "PacketDisconnectRequest \<equiv> 40"
abbreviation (input) PacketDisconnectACK :: byte where "PacketDisconnectACK \<equiv> 41"
abbreviation (input) PacketDisconnectNAK :: byte where "PacketDisconnectNAK \<equiv> 42"
abbreviation (input) PacketCoARequest :: byte where "PacketCoARequest \<equiv> 43"
abbreviation (input) PacketCoAACK :: byte where "PacketCoAACK \<equiv> 44"
abbreviation (input) PacketCoANAK :: byte where "PacketCoANAK \<equiv> 45"

datatype ValueKind =
    KindText | KindString | KindInteger | KindIPv4 | KindIPv6 | KindTime | KindOctets | KindVSA | KindUnknown

datatype Cardinality = CardinalitySingle | CardinalityMulti

datatype Sensitivity = SensitivitySecret | SensitivityRestricted | SensitivityPublic | SensitivityUnknown

type_synonym packetMask = "16 word"

record Definition =
  def_Name :: string
  def_Vendor :: uint32
  def_Code :: byte
  def_Kind :: ValueKind
  def_Cardinality :: Cardinality
  def_Sensitivity :: Sensitivity
  def_Source :: string
  def_MinOctets :: int
  def_MaxOctets :: int
  def_allowed :: packetMask
  def_required :: packetMask
  def_first :: packetMask

definition Definition_Key :: "Definition \<Rightarrow> Key" where
  "Definition_Key d =
     (if def_Vendor d = 0 then IETFKey (def_Code d)
      else \<lparr>key_Vendor = def_Vendor d, key_Code = ucast (def_Code d), key_Space = SpaceVSA\<rparr>)"

definition packetBit :: "byte \<Rightarrow> packetMask option" where
  "packetBit code =
     (if code = PacketAccessRequest then Some (push_bit 0 1)
      else if code = PacketAccessAccept then Some (push_bit 1 1)
      else if code = PacketAccessReject then Some (push_bit 2 1)
      else if code = PacketAccountingRequest then Some (push_bit 3 1)
      else if code = PacketAccountingResponse then Some (push_bit 4 1)
      else if code = PacketAccessChallenge then Some (push_bit 5 1)
      else if code = PacketDisconnectRequest then Some (push_bit 6 1)
      else if code = PacketDisconnectACK then Some (push_bit 7 1)
      else if code = PacketDisconnectNAK then Some (push_bit 8 1)
      else if code = PacketCoARequest then Some (push_bit 9 1)
      else if code = PacketCoAACK then Some (push_bit 10 1)
      else if code = PacketCoANAK then Some (push_bit 11 1)
      else None)"

fun maskLoop :: "byte list \<Rightarrow> packetMask \<Rightarrow> packetMask option" where
  "maskLoop [] m = Some m"
| "maskLoop (c # cs) m = (case packetBit c of None \<Rightarrow> None | Some b \<Rightarrow> maskLoop cs (m OR b))"

definition maskOf :: "byte list \<Rightarrow> packetMask option" where
  "maskOf codes = maskLoop codes 0"

definition mask_has :: "packetMask \<Rightarrow> byte \<Rightarrow> bool" where
  "mask_has m code = (case packetBit code of None \<Rightarrow> False | Some b \<Rightarrow> m AND b \<noteq> 0)"

definition allPackets :: "byte list" where
  "allPackets = [PacketAccessRequest, PacketAccessAccept, PacketAccessReject, PacketAccountingRequest,
     PacketAccountingResponse, PacketAccessChallenge, PacketDisconnectRequest, PacketDisconnectACK,
     PacketDisconnectNAK, PacketCoARequest, PacketCoAACK, PacketCoANAK]"

definition mask_codes :: "packetMask \<Rightarrow> byte list" where
  "mask_codes m = filter (mask_has m) allPackets"

definition knownPacket :: "byte \<Rightarrow> bool" where
  "knownPacket code \<longleftrightarrow> packetBit code \<noteq> None"

definition requestPacket :: "byte \<Rightarrow> bool" where
  "requestPacket code \<longleftrightarrow> code = PacketAccessRequest \<or> code = PacketAccountingRequest
     \<or> code = PacketDisconnectRequest \<or> code = PacketCoARequest"

definition packetName :: "byte \<Rightarrow> string" where
  "packetName code =
     (if code = PacketAccessRequest then ''Access-Request''
      else if code = PacketAccessAccept then ''Access-Accept''
      else if code = PacketAccessReject then ''Access-Reject''
      else if code = PacketAccountingRequest then ''Accounting-Request''
      else if code = PacketAccountingResponse then ''Accounting-Response''
      else if code = PacketAccessChallenge then ''Access-Challenge''
      else if code = PacketDisconnectRequest then ''Disconnect-Request''
      else if code = PacketDisconnectACK then ''Disconnect-ACK''
      else if code = PacketDisconnectNAK then ''Disconnect-NAK''
      else if code = PacketCoARequest then ''CoA-Request''
      else if code = PacketCoAACK then ''CoA-ACK''
      else if code = PacketCoANAK then ''CoA-NAK''
      else ''Packet('' @ Itoa (unat code) @ '')'')"

definition AllowedIn :: "Definition \<Rightarrow> byte \<Rightarrow> bool" where
  "AllowedIn d packet = mask_has (def_allowed d) packet"

definition RequiredIn :: "Definition \<Rightarrow> byte \<Rightarrow> bool" where
  "RequiredIn d packet = mask_has (def_required d) packet"

definition MustBeFirst :: "Definition \<Rightarrow> byte \<Rightarrow> bool" where
  "MustBeFirst d packet = mask_has (def_first d) packet"

definition AllowedPackets :: "Definition \<Rightarrow> byte list" where
  "AllowedPackets d = mask_codes (def_allowed d)"

definition define_attr :: "string \<Rightarrow> byte \<Rightarrow> ValueKind \<Rightarrow> Cardinality \<Rightarrow> Sensitivity \<Rightarrow> packetMask \<Rightarrow> Definition" where
  "define_attr name code kind crd sens allow =
     (let d = \<lparr>def_Name = name, def_Vendor = 0, def_Code = code, def_Kind = kind, def_Cardinality = crd,
               def_Sensitivity = sens, def_Source = '''', def_MinOctets = 0, def_MaxOctets = int MaxValueLength,
               def_allowed = allow, def_required = 0, def_first = 0\<rparr>
      in if kind = KindInteger \<or> kind = KindIPv4 \<or> kind = KindTime
           then d\<lparr>def_MinOctets := 4, def_MaxOctets := 4\<rparr>
         else if kind = KindIPv6 then d\<lparr>def_MinOctets := 16, def_MaxOctets := 16\<rparr>
         else if kind = KindVSA then d\<lparr>def_MinOctets := int vendorIDSize\<rparr>
         else d)"

definition defineVendor ::
  "string \<Rightarrow> uint32 \<Rightarrow> byte \<Rightarrow> ValueKind \<Rightarrow> Cardinality \<Rightarrow> Sensitivity \<Rightarrow> packetMask \<Rightarrow> Definition" where
  "defineVendor name vendor code kind crd sens allow =
     (define_attr name code kind crd sens allow)\<lparr>def_Vendor := vendor\<rparr>"

definition withOctets :: "int \<Rightarrow> int \<Rightarrow> Definition \<Rightarrow> Definition" where
  "withOctets mn mx d = d\<lparr>def_MinOctets := mn, def_MaxOctets := mx\<rparr>"

definition require :: "byte list \<Rightarrow> Definition \<Rightarrow> Definition option" where
  "require codes d = map_option (\<lambda>m. d\<lparr>def_required := m\<rparr>) (maskOf codes)"

definition firstIn :: "byte list \<Rightarrow> Definition \<Rightarrow> Definition option" where
  "firstIn codes d = map_option (\<lambda>m. d\<lparr>def_first := m\<rparr>) (maskOf codes)"

text \<open>The built-in table, row by row; a role list with an unknown packet code panics.\<close>

definition mvpDefinitions :: "Definition list option" where
  "mvpDefinitions = those [
      map_option (define_attr ''User-Name'' 1 KindText CardinalitySingle SensitivityRestricted)
         (maskOf [PacketAccessRequest, PacketAccessAccept, PacketAccessChallenge, PacketAccountingRequest,
           PacketDisconnectRequest, PacketCoARequest]),
      map_option (withOctets 16 128) (map_option (define_attr ''User-Password'' 2 KindString CardinalitySingle SensitivitySecret)
         (maskOf [PacketAccessRequest])),
      map_option (withOctets 17 17) (map_option (define_attr ''CHAP-Password'' 3 KindString CardinalitySingle SensitivitySecret)
         (maskOf [PacketAccessRequest])),
      map_option (define_attr ''NAS-IP-Address'' 4 KindIPv4 CardinalitySingle SensitivityRestricted)
         (maskOf [PacketAccessRequest, PacketAccountingRequest, PacketDisconnectRequest, PacketCoARequest]),
      map_option (define_attr ''NAS-Port'' 5 KindInteger CardinalitySingle SensitivityPublic)
         (maskOf [PacketAccessRequest, PacketAccountingRequest, PacketDisconnectRequest, PacketCoARequest]),
      map_option (define_attr ''Service-Type'' 6 KindInteger CardinalitySingle SensitivityPublic)
         (maskOf [PacketAccessRequest, PacketAccessAccept, PacketAccessChallenge, PacketAccountingRequest]),
      map_option (define_attr ''Framed-Protocol'' 7 KindInteger CardinalitySingle SensitivityPublic)
         (maskOf [PacketAccessRequest, PacketAccessAccept, PacketAccountingRequest]),
      map_option (define_attr ''Framed-IP-Address'' 8 KindIPv4 CardinalitySingle SensitivityPublic)
         (maskOf [PacketAccessRequest, PacketAccessAccept, PacketAccountingRequest]),
      map_option (define_attr ''Filter-Id'' 11 KindText CardinalityMulti SensitivityPublic)
         (maskOf [PacketAccessAccept]),
      map_option (define_attr ''Framed-MTU'' 12 KindInteger CardinalitySingle SensitivityPublic)
         (maskOf [PacketAccessRequest, PacketAccessAccept, PacketAccessChallenge]),
      map_option (define_attr ''Reply-Message'' 18 KindText CardinalityMulti SensitivityPublic)
         (maskOf [PacketAccessAccept, PacketAccessReject, PacketAccessChallenge, PacketCoARequest, PacketCoAACK,
           PacketDisconnectACK, PacketCoANAK, PacketDisconnectNAK]),
      map_option (define_attr ''State'' 24 KindString CardinalitySingle SensitivitySecret)
         (maskOf [PacketAccessRequest, PacketAccessAccept, PacketAccessChallenge]),
      map_option (define_attr ''Class'' 25 KindString CardinalityMulti SensitivityRestricted)
         (maskOf [PacketAccessAccept, PacketAccountingRequest, PacketDisconnectRequest, PacketCoARequest]),
      map_option (define_attr ''Vendor-Specific'' 26 KindVSA CardinalityMulti SensitivityRestricted)
         (maskOf [PacketAccessRequest, PacketAccessAccept, PacketAccessChallenge, PacketAccountingRequest]),
      map_option (define_attr ''Session-Timeout'' 27 KindInteger CardinalitySingle SensitivityPublic)
         (maskOf [PacketAccessAccept, PacketAccessChallenge, PacketCoARequest]),
      map_option (define_attr ''Idle-Timeout'' 28 KindInteger CardinalitySingle SensitivityPublic)
         (maskOf [PacketAccessAccept, PacketAccessChallenge, PacketCoARequest]),
      map_option (define_attr ''Called-Station-Id'' 30 KindText CardinalitySingle SensitivityRestricted)
         (maskOf [PacketAccessRequest, PacketAccountingRequest]),
      map_option (define_attr ''Calling-Station-Id'' 31 KindText CardinalitySingle SensitivityRestricted)
         (maskOf [PacketAccessRequest, PacketAccountingRequest]),
      map_option (define_attr ''NAS-Identifier'' 32 KindText CardinalitySingle SensitivityRestricted)
         (maskOf [PacketAccessRequest, PacketAccountingRequest, PacketDisconnectRequest, PacketCoARequest]),
      map_option (define_attr ''Proxy-State'' 33 KindString CardinalityMulti SensitivityPublic)
         (maskOf [PacketAccessRequest, PacketAccessAccept, PacketAccessReject, PacketAccessChallenge,
           PacketAccountingRequest, PacketAccountingResponse, PacketDisconnectRequest, PacketDisconnectACK,
           PacketDisconnectNAK, PacketCoARequest, PacketCoAACK, PacketCoANAK]),
      Option.bind (map_option (define_attr ''Acct-Status-Type'' 40 KindInteger CardinalitySingle SensitivityPublic)
         (maskOf [PacketAccountingRequest]))
         (require [PacketAccountingRequest]),
      map_option (define_attr ''Acct-Delay-Time'' 41 KindInteger CardinalitySingle SensitivityPublic)
         (maskOf [PacketAccountingRequest]),
      map_option (define_attr ''Acct-Input-Octets'' 42 KindInteger CardinalitySingle SensitivityPublic)
         (maskOf [PacketAccountingRequest]),
      map_option (define_attr ''Acct-Output-Octets'' 43 KindInteger CardinalitySingle SensitivityPublic)
         (maskOf [PacketAccountingRequest]),
      map_option (define_attr ''Acct-Session-Id'' 44 KindText CardinalitySingle SensitivityRestricted)
         (maskOf [PacketAccountingRequest, PacketDisconnectRequest, PacketCoARequest]),
      map_option (define_attr ''Acct-Authentic'' 45 KindInteger CardinalitySingle SensitivityPublic)
         (maskOf [PacketAccountingRequest]),
      map_option (define_attr ''Acct-Session-Time'' 46 KindInteger CardinalitySingle SensitivityPublic)
         (maskOf [PacketAccountingRequest]),
      map_option (define_attr ''Acct-Input-Packets'' 47 KindInteger CardinalitySingle SensitivityPublic)
         (maskOf [PacketAccountingRequest]),
      map_option (define_attr ''Acct-Output-Packets'' 48 KindInteger CardinalitySingle SensitivityPublic)
         (maskOf [PacketAccountingRequest]),
      map_option (define_attr ''Acct-Terminate-Cause'' 49 KindInteger CardinalitySingle SensitivityPublic)
         (maskOf [PacketAccountingRequest]),
      map_option (define_attr ''Acct-Input-Gigawords'' 52 KindInteger CardinalitySingle SensitivityPublic)
         (maskOf [PacketAccountingRequest]),
      map_option (define_attr ''Acct-Output-Gigawords'' 53 KindInteger CardinalitySingle SensitivityPublic)
         (maskOf [PacketAccountingRequest]),
      map_option (define_attr ''Event-Timestamp'' 55 KindTime CardinalitySingle SensitivityPublic)
         (maskOf [PacketAccessRequest, PacketAccessAccept, PacketAccountingRequest, PacketDisconnectRequest,
           PacketCoARequest]),
      map_option (define_attr ''CHAP-Challenge'' 60 KindString CardinalitySingle SensitivityPublic)
         (maskOf [PacketAccessRequest]),
      map_option (define_attr ''NAS-Port-Type'' 61 KindInteger CardinalitySingle SensitivityPublic)
         (maskOf [PacketAccessRequest, PacketAccountingRequest]),
      map_option (define_attr ''EAP-Message'' 79 KindString CardinalityMulti SensitivityRestricted)
         (maskOf [PacketAccessRequest, PacketAccessAccept, PacketAccessReject, PacketAccessChallenge]),
      Option.bind (Option.bind (map_option (withOctets 16 16) (map_option (define_attr ''Message-Authenticator'' 80 KindString CardinalitySingle SensitivitySecret)
         (maskOf [PacketAccessRequest, PacketAccessAccept, PacketAccessReject, PacketAccessChallenge,
           PacketAccountingRequest, PacketAccountingResponse, PacketDisconnectRequest, PacketDisconnectACK,
           PacketDisconnectNAK, PacketCoARequest, PacketCoAACK, PacketCoANAK])))
         (require [PacketAccessAccept, PacketAccessReject, PacketAccessChallenge, PacketAccountingResponse,
           PacketDisconnectRequest, PacketDisconnectACK, PacketDisconnectNAK, PacketCoARequest, PacketCoAACK,
           PacketCoANAK]))
         (firstIn [PacketAccessAccept, PacketAccessReject, PacketAccessChallenge, PacketAccountingResponse,
           PacketDisconnectRequest, PacketDisconnectACK, PacketDisconnectNAK, PacketCoARequest, PacketCoAACK,
           PacketCoANAK]),
      map_option (define_attr ''Acct-Interim-Interval'' 85 KindInteger CardinalitySingle SensitivityPublic)
         (maskOf [PacketAccessAccept]),
      map_option (define_attr ''NAS-IPv6-Address'' 95 KindIPv6 CardinalitySingle SensitivityRestricted)
         (maskOf [PacketAccessRequest, PacketAccountingRequest, PacketDisconnectRequest, PacketCoARequest]),
      map_option (define_attr ''Error-Cause'' 101 KindInteger CardinalitySingle SensitivityPublic)
         (maskOf [PacketDisconnectNAK, PacketCoANAK]),
      map_option (withOctets 50 50) (map_option (defineVendor ''MS-CHAP-Response'' VendorMicrosoft 1 KindString CardinalitySingle SensitivitySecret)
         (maskOf [PacketAccessRequest])),
      map_option (defineVendor ''MS-CHAP-Error'' VendorMicrosoft 2 KindText CardinalitySingle SensitivitySecret)
         (maskOf [PacketAccessReject]),
      map_option (withOctets 8 16) (map_option (defineVendor ''MS-CHAP-Challenge'' VendorMicrosoft 11 KindString CardinalitySingle SensitivitySecret)
         (maskOf [PacketAccessRequest])),
      map_option (withOctets 50 50) (map_option (defineVendor ''MS-CHAP2-Response'' VendorMicrosoft 25 KindString CardinalitySingle SensitivitySecret)
         (maskOf [PacketAccessRequest])),
      map_option (withOctets 43 43) (map_option (defineVendor ''MS-CHAP2-Success'' VendorMicrosoft 26 KindString CardinalitySingle SensitivitySecret)
         (maskOf [PacketAccessAccept])),
      map_option (defineVendor ''Cisco-AVPair'' VendorCisco 1 KindText CardinalityMulti SensitivityRestricted)
         (maskOf [PacketAccessRequest, PacketAccessAccept, PacketAccessReject, PacketAccessChallenge,
           PacketAccountingRequest])]"

subsection \<open>Dictionaries\<close>

record Dictionary =
  dict_version :: string
  dict_byName :: "(string \<times> Definition) list"
  dict_byKey :: "(Key \<times> Definition) list"
  dict_order :: "Definition list"

abbreviation (input) DictionaryVersion :: string where "DictionaryVersion \<equiv> ''builtin-mvp-1''"
abbreviation (input) SourceBuiltin :: string where "SourceBuiltin \<equiv> ''builtin''"

definition withSource :: "Definition \<Rightarrow> Definition" where
  "withSource def = (if def_Source def = '''' then def\<lparr>def_Source := SourceBuiltin\<rparr> else def)"

text \<open>The loop of \<open>mustBuiltin\<close>; \<open>order\<close> is rewritten in place, so it ends as the definitions inserted.\<close>

fun builtinLoop :: "Definition list \<Rightarrow> Dictionary \<Rightarrow> Dictionary option" where
  "builtinLoop [] d = Some d"
| "builtinLoop (def # defs) d =
     (if def_Name def = '''' then None
      else if map_of (dict_byName d) (def_Name def) \<noteq> None then None
      else if map_of (dict_byKey d) (Definition_Key def) \<noteq> None then None
      else builtinLoop defs
             (d\<lparr>dict_byName := dict_byName d @ [(def_Name def, withSource def)],
                dict_byKey := dict_byKey d @ [(Definition_Key def, withSource def)],
                dict_order := dict_order d @ [withSource def]\<rparr>))"

definition mustBuiltin :: "Dictionary option" where
  "mustBuiltin = Option.bind mvpDefinitions (\<lambda>defs.
     builtinLoop defs \<lparr>dict_version = DictionaryVersion, dict_byName = [], dict_byKey = [], dict_order = []\<rparr>)"

definition LookupName :: "Dictionary \<Rightarrow> string \<Rightarrow> Definition option" where
  "LookupName d name = map_of (dict_byName d) name"

definition LookupKey :: "Dictionary \<Rightarrow> Key \<Rightarrow> Definition option" where
  "LookupKey d k = map_of (dict_byKey d) k"

definition LookupIETF :: "Dictionary \<Rightarrow> byte \<Rightarrow> Definition option" where
  "LookupIETF d code = LookupKey d (IETFKey code)"

definition Dictionary_AllowedIn :: "Dictionary \<Rightarrow> byte \<Rightarrow> byte \<Rightarrow> bool" where
  "Dictionary_AllowedIn d code packet =
     (case LookupIETF d code of
        Some def \<Rightarrow> AllowedIn def packet
      | None \<Rightarrow> requestPacket packet \<and> knownPacket packet)"

definition RequiredFirst :: "Dictionary \<Rightarrow> byte \<Rightarrow> Definition option" where
  "RequiredFirst d packet = find (\<lambda>def. MustBeFirst def packet) (dict_order d)"

definition SensitivityOf :: "Dictionary \<Rightarrow> byte \<Rightarrow> Sensitivity" where
  "SensitivityOf d ty = (case LookupIETF d ty of Some def \<Rightarrow> def_Sensitivity def | None \<Rightarrow> SensitivityUnknown)"

record Summary =
  sum_Type :: byte
  sum_Vendor :: uint32
  sum_Length :: nat
  sum_Name :: string
  sum_Sensitivity :: Sensitivity
  sum_Known :: bool

definition namedVSASummary :: "Dictionary \<Rightarrow> VSA \<Rightarrow> Definition option" where
  "namedVSASummary d v =
     (case ParseVendorTLVs (vsa_Payload v) of
        Inr [t] \<Rightarrow> LookupKey d \<lparr>key_Vendor = vsa_Vendor v, key_Code = ucast (tlv_Type t), key_Space = SpaceVSA\<rparr>
      | _ \<Rightarrow> None)"

definition Summarize :: "Dictionary \<Rightarrow> Raw \<Rightarrow> Summary" where
  "Summarize d r =
     (let s = \<lparr>sum_Type = raw_Type r, sum_Vendor = 0, sum_Length = length (raw_Value r), sum_Name = '''',
               sum_Sensitivity = SensitivityUnknown, sum_Known = False\<rparr>
      in if raw_Type r = TypeVendorSpecific
         then (let s = s\<lparr>sum_Name := ''Vendor-Specific'', sum_Known := True, sum_Sensitivity := SensitivityRestricted\<rparr>
               in case ParseVSA r of
                    Inl _ \<Rightarrow> s
                  | Inr v \<Rightarrow>
                      (let s = s\<lparr>sum_Vendor := vsa_Vendor v\<rparr>
                       in case namedVSASummary d v of
                            None \<Rightarrow> s
                          | Some named \<Rightarrow> s\<lparr>sum_Name := def_Name named, sum_Sensitivity := def_Sensitivity named\<rparr>))
         else case LookupIETF d (raw_Type r) of
                Some def \<Rightarrow> s\<lparr>sum_Name := def_Name def, sum_Known := True, sum_Sensitivity := def_Sensitivity def\<rparr>
              | None \<Rightarrow> s)"

subsection \<open>Legality of an attribute set\<close>

definition checkOctets :: "Definition \<Rightarrow> Raw \<Rightarrow> radius_err + unit" where
  "checkOctets def raw =
     (let n = int (length (raw_Value raw))
      in if def_MinOctets def > 0 \<and> n < def_MinOctets def then Inl ErrValueLength
         else if def_MaxOctets def > 0 \<and> n > def_MaxOctets def then Inl ErrValueLength
         else Inr ())"

text \<open>The first loop of \<open>CheckSet\<close> from index \<open>i\<close> on; \<open>counts\<close> is the Go map with default 0.\<close>

fun checkLoop :: "Dictionary \<Rightarrow> byte \<Rightarrow> nat \<Rightarrow> RawSet \<Rightarrow> (Key \<Rightarrow> nat) \<Rightarrow> radius_err + (Key \<Rightarrow> nat)" where
  "checkLoop d packet i [] counts = Inr counts"
| "checkLoop d packet i (raw # rest) counts =
     (case LookupIETF d (raw_Type raw) of
        None \<Rightarrow> if \<not> requestPacket packet then Inl ErrIllegalRole else checkLoop d packet (Suc i) rest counts
      | Some def \<Rightarrow>
          if \<not> AllowedIn def packet then Inl ErrIllegalRole
          else if MustBeFirst def packet \<and> i \<noteq> 0 then Inl ErrNotFirst
          else rbind (checkOctets def raw) (\<lambda>_.
            let k = Definition_Key def; counts = counts(k := counts k + 1)
            in if def_Cardinality def = CardinalitySingle \<and> counts k > 1 then Inl ErrCardinality
               else checkLoop d packet (Suc i) rest counts))"

fun requiredLoop :: "byte \<Rightarrow> RawSet \<Rightarrow> (Key \<Rightarrow> nat) \<Rightarrow> Definition list \<Rightarrow> radius_err + unit" where
  "requiredLoop packet rs counts [] = Inr ()"
| "requiredLoop packet rs counts (def # defs) =
     (if \<not> RequiredIn def packet then requiredLoop packet rs counts defs
      else if counts (Definition_Key def) > 0
        then (if MustBeFirst def packet \<and> (length rs = 0 \<or> raw_Type (hd rs) \<noteq> def_Code def)
              then Inl ErrNotFirst
              else requiredLoop packet rs counts defs)
      else Inl ErrMissingRequired)"

definition CheckSet :: "Dictionary \<Rightarrow> RawSet \<Rightarrow> byte \<Rightarrow> radius_err + unit" where
  "CheckSet d rs packet =
     (if \<not> knownPacket packet then Inl ErrUnknownPacket
      else rbind (checkLoop d packet 0 rs (\<lambda>_. 0)) (\<lambda>counts.
             requiredLoop packet rs counts (dict_order d)))"

subsection \<open>Well-formed dictionaries\<close>

text \<open>
  Both maps are indexes of the ordered table, and neither a name nor a key occurs twice. The
  built-in construction establishes this and every dictionary below keeps it.
\<close>

definition dict_wf :: "Dictionary \<Rightarrow> bool" where
  "dict_wf d \<longleftrightarrow>
     dict_byName d = map (\<lambda>def. (def_Name def, def)) (dict_order d) \<and>
     dict_byKey d = map (\<lambda>def. (Definition_Key def, def)) (dict_order d) \<and>
     distinct (map def_Name (dict_order d)) \<and> distinct (map Definition_Key (dict_order d)) \<and>
     '''' \<notin> set (map def_Name (dict_order d))"

definition dict_add :: "Definition \<Rightarrow> Dictionary \<Rightarrow> Dictionary" where
  "dict_add def d = d\<lparr>dict_byName := dict_byName d @ [(def_Name def, def)],
     dict_byKey := dict_byKey d @ [(Definition_Key def, def)], dict_order := dict_order d @ [def]\<rparr>"

lemma map_of_index: "distinct (map f xs) \<Longrightarrow> map_of (map (\<lambda>x. (f x, x)) xs) k = Some y \<longleftrightarrow> y \<in> set xs \<and> f y = k"
  by (subst map_of_eq_Some_iff) (auto simp: comp_def)

lemma map_of_index_None: "map_of (map (\<lambda>x. (f x, x)) xs) k = None \<longleftrightarrow> k \<notin> f ` set xs"
  by (simp add: map_of_eq_None_iff image_image)

lemma LookupKey_iff: "dict_wf d \<Longrightarrow> LookupKey d k = Some def \<longleftrightarrow> def \<in> set (dict_order d) \<and> Definition_Key def = k"
  by (simp add: LookupKey_def dict_wf_def map_of_index)

lemma LookupName_iff: "dict_wf d \<Longrightarrow> LookupName d n = Some def \<longleftrightarrow> def \<in> set (dict_order d) \<and> def_Name def = n"
  by (simp add: LookupName_def dict_wf_def map_of_index)

lemma dict_wf_add:
  "\<lbrakk>dict_wf d; def_Name def \<noteq> ''''; LookupName d (def_Name def) = None; LookupKey d (Definition_Key def) = None\<rbrakk>
     \<Longrightarrow> dict_wf (dict_add def d)"
  by (auto simp: dict_wf_def dict_add_def LookupName_def LookupKey_def map_of_index_None)

lemma withSource_simps [simp]:
  "def_Name (withSource def) = def_Name def" "Definition_Key (withSource def) = Definition_Key def"
  by (simp_all add: withSource_def Definition_Key_def)

lemma builtinLoop_Cons:
  "builtinLoop (def # defs) d =
     (if def_Name def = '''' \<or> LookupName d (def_Name def) \<noteq> None \<or> LookupKey d (Definition_Key def) \<noteq> None
      then None else builtinLoop defs (dict_add (withSource def) d))"
  by (auto simp: LookupName_def LookupKey_def dict_add_def)

lemma builtinLoop_wf: "\<lbrakk>builtinLoop defs d = Some d'; dict_wf d\<rbrakk> \<Longrightarrow> dict_wf d'"
proof (induction defs arbitrary: d)
  case (Cons def defs)
  then show ?case
    using dict_wf_add [of d "withSource def"]
    by (auto simp: builtinLoop_Cons simp del: builtinLoop.simps(2) split: if_splits)
qed simp

lemma mustBuiltin_wf: "mustBuiltin = Some d \<Longrightarrow> dict_wf d"
  unfolding mustBuiltin_def bind_eq_Some_conv
  by (elim exE conjE builtinLoop_wf) (simp add: dict_wf_def)

lemma IETFKey_inject [simp]: "IETFKey a = IETFKey b \<longleftrightarrow> a = b"
proof -
  have "a = b" if "ucast a = (ucast b :: uint32)"
  proof -
    have inv: "(ucast (ucast w :: uint32) :: byte) = w" for w
      by (rule bit_word_eqI) (simp add: bit_simps)
    show ?thesis using that inv by metis
  qed
  then show ?thesis by (auto simp: IETFKey_def)
qed

lemma Definition_Key_IETF: "Definition_Key def = IETFKey c \<longleftrightarrow> def_Vendor def = 0 \<and> def_Code def = c"
  by (auto simp: Definition_Key_def) (auto simp: IETFKey_def)

lemma LookupIETF_key: "\<lbrakk>dict_wf d; LookupIETF d c = Some def\<rbrakk> \<Longrightarrow> Definition_Key def = IETFKey c"
  by (simp add: LookupIETF_def LookupKey_iff)

subsection \<open>What the legality check accepts\<close>

definition slot_ok :: "Dictionary \<Rightarrow> byte \<Rightarrow> nat \<Rightarrow> Raw \<Rightarrow> bool" where
  "slot_ok d packet i raw =
     (case LookupIETF d (raw_Type raw) of
        None \<Rightarrow> requestPacket packet
      | Some def \<Rightarrow> AllowedIn def packet \<and> (MustBeFirst def packet \<longrightarrow> i = 0) \<and> checkOctets def raw = Inr ())"

definition single :: "Dictionary \<Rightarrow> byte \<Rightarrow> bool" where
  "single d ty = (case LookupIETF d ty of None \<Rightarrow> False | Some def \<Rightarrow> def_Cardinality def = CardinalitySingle)"

definition known :: "Dictionary \<Rightarrow> byte \<Rightarrow> bool" where
  "known d ty \<longleftrightarrow> LookupIETF d ty \<noteq> None"

definition tally :: "Dictionary \<Rightarrow> RawSet \<Rightarrow> Key \<Rightarrow> nat" where
  "tally d rs k = length (filter (\<lambda>r. known d (raw_Type r) \<and> IETFKey (raw_Type r) = k) rs)"

lemma tally_Cons:
  "tally d (r # rs) k = (if known d (raw_Type r) \<and> IETFKey (raw_Type r) = k then 1 else 0) + tally d rs k"
  by (simp add: tally_def)

lemma tally_IETF: "known d ty \<Longrightarrow> tally d rs (IETFKey ty) = length (AllOf rs ty)"
  unfolding tally_def AllOf_filter by (intro arg_cong [where f = length] filter_cong) auto

lemma AllOf_Nil_iff: "AllOf rs ty = [] \<longleftrightarrow> (\<forall>r\<in>set rs. raw_Type r \<noteq> ty)"
  by (induction rs) auto

lemma single_step:
  fixes c :: "Key \<Rightarrow> nat"
  shows "(single d (raw_Type r) \<longrightarrow> c (IETFKey (raw_Type r)) = 0) \<and>
    (\<forall>x \<in> set rs. single d (raw_Type x) \<longrightarrow>
       (c(IETFKey (raw_Type r) := c (IETFKey (raw_Type r)) + 1)) (IETFKey (raw_Type x)) + length (AllOf rs (raw_Type x)) \<le> 1)
    \<longleftrightarrow> (\<forall>x \<in> set (r # rs). single d (raw_Type x) \<longrightarrow> c (IETFKey (raw_Type x)) + length (AllOf (r # rs) (raw_Type x)) \<le> 1)"
    (is "?A \<and> ?B \<longleftrightarrow> ?C")
proof
  assume h: "?A \<and> ?B"
  have "AllOf rs (raw_Type r) = []" if "single d (raw_Type r)"
    using h that by (fastforce simp: AllOf_Nil_iff)
  with h show ?C by fastforce
next
  assume ?C
  then show "?A \<and> ?B" by fastforce
qed

lemma checkLoop_Inr:
  assumes "dict_wf d"
  shows "checkLoop d packet i rs c = Inr c' \<longleftrightarrow>
    (\<forall>j < length rs. slot_ok d packet (i + j) (rs ! j)) \<and>
    (\<forall>r \<in> set rs. single d (raw_Type r) \<longrightarrow> c (IETFKey (raw_Type r)) + length (AllOf rs (raw_Type r)) \<le> 1) \<and>
    c' = (\<lambda>k. c k + tally d rs k)"
proof (induction rs arbitrary: i c)
  case (Cons r rs)
  show ?case
  proof (cases "LookupIETF d (raw_Type r)")
    case None
    then have "\<not> single d ty" if "ty = raw_Type r" for ty using that by (simp add: single_def)
    with None show ?thesis
      by (auto simp: Cons.IH slot_ok_def [of d packet i r] known_def tally_Cons All_less_Suc2)
  next
    case (Some def)
    let ?k = "IETFKey (raw_Type r)"
    let ?c = "c(?k := c ?k + 1)"
    from Some have key: "Definition_Key def = ?k" using assms LookupIETF_key by blast
    have sum: "(\<lambda>k. ?c k + tally d rs k) = (\<lambda>k. c k + tally d (r # rs) k)"
      using Some by (auto simp: tally_Cons known_def fun_eq_iff)
    have "checkLoop d packet i (r # rs) c = Inr c' \<longleftrightarrow>
        slot_ok d packet i r \<and> (single d (raw_Type r) \<longrightarrow> c ?k = 0) \<and> checkLoop d packet (Suc i) rs ?c = Inr c'"
      using Some key by (auto simp: slot_ok_def single_def Let_def result_simps)
    also have "\<dots> \<longleftrightarrow> slot_ok d packet i r \<and> (\<forall>j < length rs. slot_ok d packet (Suc i + j) (rs ! j)) \<and>
        (\<forall>x \<in> set (r # rs). single d (raw_Type x) \<longrightarrow> c (IETFKey (raw_Type x)) + length (AllOf (r # rs) (raw_Type x)) \<le> 1) \<and>
        c' = (\<lambda>k. c k + tally d (r # rs) k)"
      unfolding Cons.IH sum single_step [symmetric] by blast
    also have "\<dots> \<longleftrightarrow> (\<forall>j < length (r # rs). slot_ok d packet (i + j) ((r # rs) ! j)) \<and>
        (\<forall>x \<in> set (r # rs). single d (raw_Type x) \<longrightarrow> c (IETFKey (raw_Type x)) + length (AllOf (r # rs) (raw_Type x)) \<le> 1) \<and>
        c' = (\<lambda>k. c k + tally d (r # rs) k)"
      by (simp add: All_less_Suc2)
    finally show ?thesis .
  qed
qed (auto simp: tally_def)

lemma requiredLoop_Inr:
  "requiredLoop packet rs c defs = Inr () \<longleftrightarrow>
     (\<forall>def \<in> set defs. RequiredIn def packet \<longrightarrow> c (Definition_Key def) > 0 \<and>
        (MustBeFirst def packet \<longrightarrow> rs \<noteq> [] \<and> raw_Type (hd rs) = def_Code def))"
  by (induction defs) auto

text \<open>A positive tally of a table row: the row is an IETF attribute and occurs in the set.\<close>

lemma tally_order:
  assumes "dict_wf d" "def \<in> set (dict_order d)"
  shows "tally d rs (Definition_Key def) > 0 \<longleftrightarrow> def_Vendor def = 0 \<and> AllOf rs (def_Code def) \<noteq> []"
proof -
  have "LookupIETF d (def_Code def) = Some def" if "def_Vendor def = 0"
    using assms that by (simp add: LookupIETF_def LookupKey_iff Definition_Key_def)
  then have "known d (def_Code def)" if "def_Vendor def = 0" using that by (simp add: known_def)
  moreover have "IETFKey t = Definition_Key def \<longleftrightarrow> def_Vendor def = 0 \<and> t = def_Code def" for t
    using Definition_Key_IETF [of def t] by metis
  ultimately show ?thesis by (auto simp: tally_def AllOf_Nil_iff filter_empty_conv) metis
qed

lemma hd_first:
  assumes "dict_wf d" "def \<in> set (dict_order d)" "def_Vendor def = 0" "MustBeFirst def packet"
    "\<forall>j < length rs. slot_ok d packet j (rs ! j)" "AllOf rs (def_Code def) \<noteq> []"
  shows "rs \<noteq> [] \<and> raw_Type (hd rs) = def_Code def"
proof -
  have "LookupIETF d (def_Code def) = Some def"
    using assms(1-3) by (simp add: LookupIETF_def LookupKey_iff Definition_Key_def)
  moreover obtain j where "j < length rs" "raw_Type (rs ! j) = def_Code def"
    using assms(6) by (auto simp: AllOf_Nil_iff in_set_conv_nth)
  ultimately show ?thesis using assms(4,5) by (cases rs) (auto simp: slot_ok_def)
qed

definition octetsFit :: "Definition \<Rightarrow> nat \<Rightarrow> bool" where
  "octetsFit def n \<longleftrightarrow> (def_MinOctets def > 0 \<longrightarrow> def_MinOctets def \<le> int n) \<and>
     (def_MaxOctets def > 0 \<longrightarrow> int n \<le> def_MaxOctets def)"

lemma checkOctets_Inr: "checkOctets def raw = Inr () \<longleftrightarrow> octetsFit def (length (raw_Value raw))"
  by (auto simp: checkOctets_def octetsFit_def Let_def)

lemma CheckSet_Inr:
  assumes "dict_wf d"
  shows "CheckSet d rs packet = Inr () \<longleftrightarrow>
    knownPacket packet \<and>
    (\<forall>j < length rs. slot_ok d packet j (rs ! j)) \<and>
    (\<forall>r \<in> set rs. single d (raw_Type r) \<longrightarrow> length (AllOf rs (raw_Type r)) \<le> 1) \<and>
    (\<forall>def \<in> set (dict_order d). RequiredIn def packet \<longrightarrow> def_Vendor def = 0 \<and> AllOf rs (def_Code def) \<noteq> [])"
proof -
  have "(\<forall>def \<in> set (dict_order d). RequiredIn def packet \<longrightarrow> tally d rs (Definition_Key def) > 0 \<and>
           (MustBeFirst def packet \<longrightarrow> rs \<noteq> [] \<and> raw_Type (hd rs) = def_Code def)) \<longleftrightarrow>
        (\<forall>def \<in> set (dict_order d). RequiredIn def packet \<longrightarrow> def_Vendor def = 0 \<and> AllOf rs (def_Code def) \<noteq> [])"
    if "\<forall>j < length rs. slot_ok d packet j (rs ! j)"
    using tally_order [OF assms] hd_first [OF assms _ _ _ that] by blast
  then show ?thesis
    by (simp add: CheckSet_def result_simps checkLoop_Inr [OF assms] requiredLoop_Inr cong: conj_cong)
qed

subsection \<open>The built-in table\<close>

text \<open>\<open>Builtin()\<close>: the variable is initialised when the program starts, which \<open>mustBuiltin\<close> survives.\<close>

definition Builtin :: Dictionary where
  "Builtin = (case mustBuiltin of
     Some d \<Rightarrow> d
   | None \<Rightarrow> \<lparr>dict_version = '''', dict_byName = [], dict_byKey = [], dict_order = []\<rparr>)"

definition maDefinition :: Definition where
  "maDefinition = \<lparr>def_Name = ''Message-Authenticator'', def_Vendor = 0, def_Code = 80, def_Kind = KindString,
     def_Cardinality = CardinalitySingle, def_Sensitivity = SensitivitySecret, def_Source = ''builtin'',
     def_MinOctets = 16, def_MaxOctets = 16, def_allowed = 0x0FFF, def_required = 0x0FF6, def_first = 0x0FF6\<rparr>"

definition wit_accept :: RawSet where
  "wit_accept = [\<lparr>raw_Type = 80, raw_Value = replicate 16 7\<rparr>, \<lparr>raw_Type = 18, raw_Value = [72, 105]\<rparr>]"

definition wit_dasAttrs :: RawSet where
  "wit_dasAttrs = [\<lparr>raw_Type = 44, raw_Value = [115]\<rparr>]"

text \<open>Everything about the built-in table that is settled by evaluating it, evaluated once.\<close>

lemma Builtin_evaluated:
  "case mustBuiltin of
     None \<Rightarrow> False
   | Some d \<Rightarrow> LookupIETF d 80 = Some maDefinition \<and>
       list_all (\<lambda>def. def_Vendor def = 0 \<and> def_Sensitivity def = SensitivitySecret \<longrightarrow>
         def_Code def \<in> {24, 80} \<or> AllowedPackets def = [1]) (dict_order d) \<and>
       CheckSet d wit_accept 2 = Inr () \<and>
       CheckSet d (\<lparr>raw_Type = 80, raw_Value = replicate 16 0\<rparr> # wit_dasAttrs) 40 = Inr () \<and> LookupName d ''Acme-Role'' = None \<and>
       LookupKey d \<lparr>key_Vendor = 1000, key_Code = 1, key_Space = SpaceVSA\<rparr> = None"
  by code_simp

lemma Builtin_defined: "mustBuiltin = Some Builtin"
proof -
  obtain d where h: "mustBuiltin = Some d" using Builtin_evaluated by (auto split: option.splits)
  show ?thesis unfolding Builtin_def h by simp
qed

lemma Builtin_facts:
  "LookupIETF Builtin 80 = Some maDefinition"
  "list_all (\<lambda>def. def_Vendor def = 0 \<and> def_Sensitivity def = SensitivitySecret \<longrightarrow>
     def_Code def \<in> {24, 80} \<or> AllowedPackets def = [1]) (dict_order Builtin)"
  "CheckSet Builtin wit_accept 2 = Inr ()" "LookupName Builtin ''Acme-Role'' = None"
  "LookupKey Builtin \<lparr>key_Vendor = 1000, key_Code = 1, key_Space = SpaceVSA\<rparr> = None"
  "CheckSet Builtin (\<lparr>raw_Type = 80, raw_Value = replicate 16 0\<rparr> # wit_dasAttrs) 40 = Inr ()"
  using Builtin_evaluated unfolding Builtin_defined option.case by blast+

lemma Builtin_wf: "dict_wf Builtin"
  by (rule mustBuiltin_wf) (rule Builtin_defined)

lemma AllowedIn_packets: "\<lbrakk>AllowedIn def packet; knownPacket packet\<rbrakk> \<Longrightarrow> packet \<in> set (AllowedPackets def)"
proof -
  assume "knownPacket packet"
  then have "packet \<in> set allPackets"
    by (simp add: knownPacket_def packetBit_def allPackets_def split: if_splits)
  then show "AllowedIn def packet \<Longrightarrow> packet \<in> set (AllowedPackets def)"
    by (simp add: AllowedIn_def AllowedPackets_def mask_codes_def)
qed

lemma ma_required:
  "\<lbrakk>knownPacket packet; \<not> requestPacket packet\<rbrakk> \<Longrightarrow> RequiredIn maDefinition packet \<and> MustBeFirst maDefinition packet"
  by (auto simp: knownPacket_def requestPacket_def packetBit_def RequiredIn_def MustBeFirst_def mask_has_def
      maDefinition_def split: if_splits; code_simp)

subsection \<open>Properties\<close>

text \<open>
  Property C23. \<open>CheckSet\<close> accepts an attribute set for a packet code exactly when the code is
  known and, for every position of the set: an attribute the dictionary does not know only
  occurs in a request; a known attribute is allowed in that packet, stands at the front if
  the dictionary says so, has a value length within its bounds and, when it is
  single-valued, occurs once; and every attribute required in that packet is present (a
  nested vendor attribute can never be, as it has no attribute type of its own).
\<close>

theorem CheckSet_accepts:
  assumes "dict_wf d"
  shows "CheckSet d rs packet = Inr () \<longleftrightarrow>
    knownPacket packet \<and>
    (\<forall>j < length rs.
       case LookupIETF d (raw_Type (rs ! j)) of
         None \<Rightarrow> requestPacket packet
       | Some def \<Rightarrow> AllowedIn def packet \<and> (MustBeFirst def packet \<longrightarrow> j = 0) \<and>
           octetsFit def (length (raw_Value (rs ! j))) \<and>
           (def_Cardinality def = CardinalitySingle \<longrightarrow> AllOf rs (raw_Type (rs ! j)) = [rs ! j])) \<and>
    (\<forall>def \<in> set (dict_order d). RequiredIn def packet \<longrightarrow> def_Vendor def = 0 \<and> AllOf rs (def_Code def) \<noteq> [])"
proof -
  have one: "length (AllOf rs (raw_Type r)) \<le> 1 \<longleftrightarrow> AllOf rs (raw_Type r) = [r]" if "r \<in> set rs" for r
  proof -
    have "r \<in> set (AllOf rs (raw_Type r))" using that by (simp add: AllOf_filter)
    then show ?thesis by (cases "AllOf rs (raw_Type r)") auto
  qed
  have single: "(\<forall>r \<in> set rs. single d (raw_Type r) \<longrightarrow> length (AllOf rs (raw_Type r)) \<le> 1) \<longleftrightarrow>
      (\<forall>j < length rs. single d (raw_Type (rs ! j)) \<longrightarrow> AllOf rs (raw_Type (rs ! j)) = [rs ! j])"
    using one by (auto simp: all_set_conv_all_nth)
  have slot: "slot_ok d packet j r \<and> (single d (raw_Type r) \<longrightarrow> AllOf rs (raw_Type r) = [r]) \<longleftrightarrow>
      (case LookupIETF d (raw_Type r) of
         None \<Rightarrow> requestPacket packet
       | Some def \<Rightarrow> AllowedIn def packet \<and> (MustBeFirst def packet \<longrightarrow> j = 0) \<and>
           octetsFit def (length (raw_Value r)) \<and>
           (def_Cardinality def = CardinalitySingle \<longrightarrow> AllOf rs (raw_Type r) = [r]))" for j r
    by (auto simp: slot_ok_def single_def checkOctets_Inr split: option.splits)
  show ?thesis unfolding CheckSet_Inr [OF assms] single slot [symmetric] by blast
qed

text \<open>
  Property C24. The program starts with a built-in dictionary (its construction does not
  panic), and with it every response that passes \<open>CheckSet\<close> begins with a
  Message-Authenticator of 16 octets, has no second one, and of the standard (top-level)
  attribute types that the dictionary classifies as secret it carries none but State; in
  particular no User-Password or CHAP-Password. This is a statement about the types of the
  attributes: \<open>CheckSet\<close> does not look into a Vendor-Specific attribute (type 26), so a secret
  vendor attribute inside one is not excluded by it.
\<close>

theorem Builtin_responses:
  "mustBuiltin = Some Builtin \<and>
   (CheckSet Builtin rs packet = Inr () \<and> \<not> requestPacket packet \<longrightarrow>
      (\<exists>v rest. rs = \<lparr>raw_Type = 80, raw_Value = v\<rparr> # rest \<and> length v = 16 \<and>
         (\<forall>r \<in> set rest. raw_Type r \<noteq> 80 \<and>
            (SensitivityOf Builtin (raw_Type r) = SensitivitySecret \<longrightarrow> raw_Type r = 24))))"
proof (intro conjI impI)
  show "mustBuiltin = Some Builtin" by (rule Builtin_defined)
  assume h: "CheckSet Builtin rs packet = Inr () \<and> \<not> requestPacket packet"
  note acc = CheckSet_Inr [OF Builtin_wf, of rs packet, THEN iffD1, OF conjunct1, OF h]
  then have "knownPacket packet" by simp
  then have ma: "RequiredIn maDefinition packet" "MustBeFirst maDefinition packet"
    using h ma_required by blast+
  have inord: "maDefinition \<in> set (dict_order Builtin)"
    using Builtin_facts(1) by (simp add: LookupIETF_def LookupKey_iff [OF Builtin_wf])
  then have "AllOf rs 80 \<noteq> []"
    using acc ma(1) by (auto simp: maDefinition_def)
  then have "rs \<noteq> [] \<and> raw_Type (hd rs) = 80"
    using hd_first [OF Builtin_wf inord _ ma(2)] acc by (simp add: maDefinition_def)
  then obtain r rest where rs: "rs = r # rest" "raw_Type r = 80" by (cases rs) auto
  have slots: "slot_ok Builtin packet j (rs ! j)" if "j < length rs" for j using acc that by blast
  have "length (raw_Value r) = 16"
    using slots [of 0] rs Builtin_facts(1) by (auto simp: slot_ok_def checkOctets_Inr octetsFit_def maDefinition_def)
  moreover have noma: "raw_Type x \<noteq> 80" if "x \<in> set rest" for x
    using acc rs that Builtin_facts(1) by (auto simp: single_def maDefinition_def AllOf_Nil_iff)
  moreover have "raw_Type x = 24"
    if x: "x \<in> set rest" "SensitivityOf Builtin (raw_Type x) = SensitivitySecret" for x
  proof -
    from x(2) obtain def where def: "LookupIETF Builtin (raw_Type x) = Some def"
        "def_Sensitivity def = SensitivitySecret"
      by (auto simp: SensitivityOf_def split: option.splits)
    then have "def \<in> set (dict_order Builtin)" "def_Vendor def = 0" "def_Code def = raw_Type x"
      by (auto simp: LookupIETF_def LookupKey_iff [OF Builtin_wf] Definition_Key_IETF)
    moreover from this have "def_Code def \<in> {24, 80} \<or> AllowedPackets def = [1]"
      using Builtin_facts(2) def(2) by (auto simp: list_all_iff)
    moreover have "AllowedIn def packet"
    proof -
      obtain j where "j < length rs" "rs ! j = x" using x(1) rs by (metis in_set_conv_nth list.set_intros(2))
      then show ?thesis using slots [of j] def(1) by (simp add: slot_ok_def)
    qed
    then have "packet \<in> set (AllowedPackets def)"
      using \<open>knownPacket packet\<close> by (rule AllowedIn_packets)
    ultimately show ?thesis using noma [OF x(1)] h by (auto simp: requestPacket_def)
  qed
  ultimately show "\<exists>v rest. rs = \<lparr>raw_Type = 80, raw_Value = v\<rparr> # rest \<and> length v = 16 \<and>
         (\<forall>r \<in> set rest. raw_Type r \<noteq> 80 \<and>
            (SensitivityOf Builtin (raw_Type r) = SensitivitySecret \<longrightarrow> raw_Type r = 24))"
    using rs by (cases r) auto
qed

theorem CheckSet_accepts_witness:
  "dict_wf Builtin \<and> CheckSet Builtin wit_accept 2 = Inr () \<and> AllOf wit_accept 80 \<noteq> []"
proof -
  have "RequiredIn maDefinition 2" by code_simp
  moreover have "maDefinition \<in> set (dict_order Builtin)"
    using Builtin_facts(1) by (simp add: LookupIETF_def LookupKey_iff [OF Builtin_wf])
  moreover have "def_Code maDefinition = 80" by (simp add: maDefinition_def)
  ultimately show ?thesis
    using CheckSet_accepts [OF Builtin_wf, of wit_accept 2] Builtin_wf Builtin_facts(3) by metis
qed

theorem Builtin_responses_witness:
  "CheckSet Builtin wit_accept 2 = Inr () \<and> \<not> requestPacket 2 \<and>
   (\<exists>v rest. wit_accept = \<lparr>raw_Type = 80, raw_Value = v\<rparr> # rest \<and> length v = 16)"
proof -
  have "\<not> requestPacket 2" by code_simp
  then show ?thesis using Builtin_facts(3) Builtin_responses [of wit_accept 2] by blast
qed

end
