(* ===== verification/Radius_Operator.thy ===== *)
theory Radius_Operator
  imports Radius_Dictionary Domain_AVPair Go_Strings Go_Crypto
begin

text \<open>
  Operator dictionaries (\<open>internal/radius/attribute/operator.go\<close>, \<open>operator_inspect.go\<close>):
  vendor attributes an operator adds to the built-in table from YAML files. The YAML library
  is third-party code: \<open>yamlRead data n\<close> is the result of the \<open>n\<close>-th call of \<open>Decode\<close> on a
  decoder over \<open>data\<close> and \<open>nodeDecode\<close> is \<open>Node.Decode\<close> into \<open>rawOperatorFile\<close>; both are
  arguments. Nodes are trees with the kind, value and content the code inspects.
\<close>

abbreviation (input) MaxOperatorDictionaryBytes :: nat where "MaxOperatorDictionaryBytes \<equiv> 65536"
abbreviation (input) MaxOperatorAttributes :: nat where "MaxOperatorAttributes \<equiv> 256"
abbreviation (input) MaxOperatorVendors :: nat where "MaxOperatorVendors \<equiv> 32"
abbreviation (input) MaxOperatorNameLength :: nat where "MaxOperatorNameLength \<equiv> 64"
abbreviation (input) CodeConfigYAMLInvalid :: string where "CodeConfigYAMLInvalid \<equiv> ''CONFIG_YAML_INVALID''"
abbreviation (input) CodeConfigUnknownField :: string where "CodeConfigUnknownField \<equiv> ''CONFIG_UNKNOWN_FIELD''"

record OperatorSource =
  os_ID :: string
  os_Data :: bytes

record rawOperatorAttr =
  roa_Name :: string
  roa_VendorType :: "int option"
  roa_Kind :: string
  roa_Cardinality :: string
  roa_Sensitivity :: string
  roa_AllowedIn :: "string list"

record rawOperatorFile =
  rof_SchemaVersion :: "int option"
  rof_VendorID :: "uint32 option"
  rof_VendorName :: string
  rof_Attributes :: "rawOperatorAttr list"

record parsedOperatorFile =
  pof_vendorID :: uint32
  pof_vendorName :: string
  pof_attrs :: "rawOperatorAttr list"

record compiledOperatorFile =
  cof_id :: string
  cof_defs :: "Definition list"
  cof_vend :: uint32
  cof_vname :: string

definition yamlOpError :: "string \<Rightarrow> string \<Rightarrow> Error" where
  "yamlOpError path message = WithPath (NewError CodeConfigYAMLInvalid message) path"

definition SourceOperator :: "string \<Rightarrow> string" where
  "SourceOperator fid = ''operator:'' @ fid"

subsection \<open>The shape of a file\<close>

datatype YamlKind = DocumentNode | SequenceNode | MappingNode | ScalarNode | AliasNode

datatype YamlNode = YamlNode (yn_Kind: YamlKind) (yn_Value: string) (yn_Content: "YamlNode list")

datatype YamlRead = YamlEOF | YamlFail | YamlDoc YamlNode

definition joinOpPath :: "string \<Rightarrow> string \<Rightarrow> string" where
  "joinOpPath parent key = (if parent = '''' then key else if key = '''' then parent else parent @ ''.'' @ key)"

definition orOpRoot :: "string \<Rightarrow> string" where
  "orOpRoot path = (if path = '''' then ''radius_dictionaries'' else path)"

definition unknownOpField :: "string \<Rightarrow> string \<Rightarrow> Error" where
  "unknownOpField path field =
     WithPath (NewError CodeConfigUnknownField ''unknown field'')
       (if path \<noteq> '''' then path @ ''.'' @ field else field)"

text \<open>The loop over the key and value nodes of a mapping; a trailing single node is ignored.\<close>

fun mappingLoop ::
  "string \<Rightarrow> string list \<Rightarrow> (string \<Rightarrow> YamlNode \<Rightarrow> string \<Rightarrow> Error + unit) option \<Rightarrow> string list \<Rightarrow>
     YamlNode list \<Rightarrow> Error + unit" where
  "mappingLoop path allow child seen (key # val # rest) =
     (if yn_Kind key = AliasNode \<or> yn_Kind val = AliasNode
        then Inl (yamlOpError (orOpRoot path) ''YAML aliases are not allowed'')
      else let name = yn_Value key
           in if name = ''<<'' then Inl (yamlOpError (orOpRoot path) ''YAML merge keys are not allowed'')
              else if name \<in> set seen then Inl (yamlOpError (joinOpPath path name) ''duplicate mapping key'')
              else if name \<notin> set allow then Inl (unknownOpField path name)
              else rbind (case child of None \<Rightarrow> Inr () | Some f \<Rightarrow> f name val path) (\<lambda>_.
                     mappingLoop path allow child (name # seen) rest))"
| "mappingLoop path allow child seen [k] = Inr ()"
| "mappingLoop path allow child seen [] = Inr ()"

definition inspectOperatorMapping ::
  "YamlNode \<Rightarrow> string \<Rightarrow> string list \<Rightarrow> (string \<Rightarrow> YamlNode \<Rightarrow> string \<Rightarrow> Error + unit) option \<Rightarrow> Error + unit" where
  "inspectOperatorMapping n path allow child =
     (if yn_Kind n = AliasNode then Inl (yamlOpError (orOpRoot path) ''YAML aliases are not allowed'')
      else if yn_Kind n \<noteq> MappingNode then Inl (yamlOpError (orOpRoot path) ''mapping required'')
      else mappingLoop path allow child [] (yn_Content n))"

definition inspectOperatorAttrValue :: "string \<Rightarrow> YamlNode \<Rightarrow> string \<Rightarrow> Error + unit" where
  "inspectOperatorAttrValue key val path =
     (if key \<noteq> ''allowed_in'' then Inr ()
      else let child = joinOpPath path key
           in if yn_Kind val = AliasNode then Inl (yamlOpError child ''YAML aliases are not allowed'')
              else if yn_Kind val \<noteq> SequenceNode then Inl (yamlOpError child ''allowed_in must be a list'')
              else Inr ())"

definition operatorAttrFields :: "string list" where
  "operatorAttrFields = [''name'', ''vendor_type'', ''kind'', ''cardinality'', ''sensitivity'', ''allowed_in'']"

fun attrNodes :: "string \<Rightarrow> nat \<Rightarrow> YamlNode list \<Rightarrow> Error + unit" where
  "attrNodes child i [] = Inr ()"
| "attrNodes child i (item # items) =
     (let ip = child @ ''['' @ Itoa i @ '']''
      in if yn_Kind item = AliasNode then Inl (yamlOpError ip ''YAML aliases are not allowed'')
         else if yn_Kind item \<noteq> MappingNode then Inl (yamlOpError ip ''attribute must be a mapping'')
         else rbind (inspectOperatorMapping item ip operatorAttrFields (Some inspectOperatorAttrValue)) (\<lambda>_.
                attrNodes child (Suc i) items))"

definition inspectOperatorRootValue :: "string \<Rightarrow> YamlNode \<Rightarrow> string \<Rightarrow> Error + unit" where
  "inspectOperatorRootValue key val path =
     (let child = joinOpPath path key
      in if key = ''vendor'' then
           (if yn_Kind val \<noteq> MappingNode then Inl (yamlOpError child ''vendor must be a mapping'')
            else inspectOperatorMapping val child [''id'', ''name''] None)
         else if key = ''attributes'' then
           (if yn_Kind val \<noteq> SequenceNode then Inl (yamlOpError child ''attributes must be a list'')
            else attrNodes child 0 (yn_Content val))
         else Inr ())"

lemma size_content: "yn_Content n = [c] \<Longrightarrow> size c < size n"
  by (cases n) simp

function inspectOperatorNode :: "YamlNode \<Rightarrow> string \<Rightarrow> Error + unit" where
  "inspectOperatorNode n path =
     (if yn_Kind n = DocumentNode then
        (case yn_Content n of
           [] \<Rightarrow> Inl (yamlOpError path ''dictionary YAML document is empty'')
         | [c] \<Rightarrow> inspectOperatorNode c path
         | _ \<Rightarrow> Inl (yamlOpError path ''multiple YAML documents are not allowed''))
      else if yn_Kind n = AliasNode then Inl (yamlOpError (orOpRoot path) ''YAML aliases are not allowed'')
      else if yn_Kind n \<noteq> MappingNode then Inl (yamlOpError (orOpRoot path) ''dictionary root must be a mapping'')
      else inspectOperatorMapping n path [''schema_version'', ''vendor'', ''attributes''] (Some inspectOperatorRootValue))"
  by pat_completeness auto
termination
  by (relation "measure (\<lambda>(n, _). size n)") (auto simp: size_content)

declare inspectOperatorNode.simps [simp del]

definition parseOperatorFile ::
  "(bytes \<Rightarrow> nat \<Rightarrow> YamlRead) \<Rightarrow> (YamlNode \<Rightarrow> rawOperatorFile option) \<Rightarrow> string \<Rightarrow> bytes \<Rightarrow> Error + parsedOperatorFile" where
  "parseOperatorFile yamlRead nodeDecode fid data =
     (let path = ''radius_dictionaries.'' @ fid
      in if \<not> utf8Valid data then Inl (yamlOpError path ''dictionary file is not valid UTF-8'')
         else case yamlRead data 0 of
           YamlEOF \<Rightarrow> Inl (yamlOpError path ''dictionary YAML document is empty'')
         | YamlFail \<Rightarrow> Inl (yamlOpError path ''dictionary YAML is invalid'')
         | YamlDoc root \<Rightarrow>
             (case yamlRead data 1 of
                YamlDoc _ \<Rightarrow> Inl (yamlOpError path ''multiple YAML documents are not allowed'')
              | YamlFail \<Rightarrow> Inl (yamlOpError path ''dictionary YAML is invalid'')
              | YamlEOF \<Rightarrow>
                  rbind (inspectOperatorNode root path) (\<lambda>_.
                  case nodeDecode root of
                    None \<Rightarrow> Inl (yamlOpError path ''dictionary YAML is invalid'')
                  | Some raw \<Rightarrow>
                      if rof_SchemaVersion raw \<noteq> Some 1
                        then Inl (yamlOpError (path @ ''.schema_version'') ''schema_version must be 1'')
                      else (case rof_VendorID raw of
                        None \<Rightarrow> Inl (yamlOpError (path @ ''.vendor.id'') ''vendor.id is required'')
                      | Some vid \<Rightarrow>
                          let name = TrimSpace (rof_VendorName raw)
                          in if name = '''' then Inl (yamlOpError (path @ ''.vendor.name'') ''vendor.name is required'')
                             else if length name > MaxOperatorNameLength
                               then Inl (yamlOpError (path @ ''.vendor.name'') ''vendor name exceeds maximum length'')
                             else if rof_Attributes raw = []
                               then Inl (yamlOpError (path @ ''.attributes'') ''at least one attribute is required'')
                             else Inr \<lparr>pof_vendorID = vid, pof_vendorName = name, pof_attrs = rof_Attributes raw\<rparr>))))"

subsection \<open>Compiling one attribute\<close>

fun kindName :: "ValueKind \<Rightarrow> string" where
  "kindName KindText = ''text''"
| "kindName KindString = ''string''"
| "kindName KindInteger = ''integer''"
| "kindName KindIPv4 = ''ipaddr''"
| "kindName KindIPv6 = ''ipv6addr''"
| "kindName KindTime = ''time''"
| "kindName KindOctets = ''octets''"
| "kindName KindVSA = ''vsa''"
| "kindName KindUnknown = ''unknown''"

fun cardinalityName :: "Cardinality \<Rightarrow> string" where
  "cardinalityName CardinalitySingle = ''single''"
| "cardinalityName CardinalityMulti = ''multi''"

fun sensitivityName :: "Sensitivity \<Rightarrow> string" where
  "sensitivityName SensitivitySecret = ''secret''"
| "sensitivityName SensitivityRestricted = ''restricted''"
| "sensitivityName SensitivityPublic = ''public''"
| "sensitivityName SensitivityUnknown = ''unknown''"

definition parseOperatorKind :: "string \<Rightarrow> string + ValueKind" where
  "parseOperatorKind raw =
     (case find (\<lambda>k. kindName k = raw) [KindText, KindString, KindInteger, KindIPv4, KindIPv6, KindTime, KindOctets] of
        Some k \<Rightarrow> Inr k
      | None \<Rightarrow> if raw = '''' then Inl ''kind is required''
                else Inl ''kind must be text, string, integer, ipaddr, ipv6addr, time, or octets'')"

text \<open>The Go function returns the empty string for an unknown token: here \<open>None\<close>.\<close>

definition parseOperatorSensitivity :: "string \<Rightarrow> Sensitivity option" where
  "parseOperatorSensitivity raw =
     find (\<lambda>s. sensitivityName s = raw) [SensitivityPublic, SensitivityRestricted, SensitivitySecret]"

definition operatorPacketToken :: "(string \<times> byte) list" where
  "operatorPacketToken =
     [(''access_request'', PacketAccessRequest), (''access_accept'', PacketAccessAccept),
      (''access_reject'', PacketAccessReject), (''access_challenge'', PacketAccessChallenge),
      (''accounting_request'', PacketAccountingRequest), (''accounting_response'', PacketAccountingResponse)]"

text \<open>\<open>mustPacketBit\<close> panics on an unknown code (\<open>None\<close>); no token names one (\<open>token_bits\<close>).\<close>

definition mustPacketBit :: "byte \<Rightarrow> packetMask option" where
  "mustPacketBit code = packetBit code"

fun allowedLoop :: "string list \<Rightarrow> packetMask \<Rightarrow> (string + packetMask) option" where
  "allowedLoop [] m = Some (Inr m)"
| "allowedLoop (tok # toks) m =
     (case map_of operatorPacketToken tok of
        None \<Rightarrow> Some (Inl ''allowed_in token is not a known packet role'')
      | Some code \<Rightarrow> Option.bind (mustPacketBit code) (\<lambda>b. allowedLoop toks (m OR b)))"

definition parseOperatorAllowed :: "string list \<Rightarrow> (string + packetMask) option" where
  "parseOperatorAllowed tokens =
     (if tokens = [] then Some (Inl ''allowed_in is required'') else allowedLoop tokens 0)"

definition reserveOperatorVendor :: "uint32 \<Rightarrow> string \<Rightarrow> Error + unit" where
  "reserveOperatorVendor vid fileID =
     (if vid = 0 \<or> vid = VendorCisco \<or> vid = VendorMicrosoft
      then Inl (yamlOpError (''radius_dictionaries.'' @ fileID @ ''.vendor.id'') ''reserved vendor id'')
      else Inr ())"

definition reservedOperatorName :: "string \<Rightarrow> bool" where
  "reservedOperatorName name \<longleftrightarrow>
     name = ''Cisco-AVPair'' \<or> HasPrefix name ''MS-CHAP'' \<or> LookupName Builtin name \<noteq> None"

definition operatorDefinition ::
  "string \<Rightarrow> uint32 \<Rightarrow> int \<Rightarrow> ValueKind \<Rightarrow> Cardinality \<Rightarrow> Sensitivity \<Rightarrow> string \<Rightarrow> packetMask \<Rightarrow> Definition" where
  "operatorDefinition name vendor vt kind crd sens fileID allow =
     (let def = \<lparr>def_Name = name, def_Vendor = vendor, def_Code = of_int vt, def_Kind = kind,
                 def_Cardinality = crd, def_Sensitivity = sens, def_Source = SourceOperator fileID,
                 def_MinOctets = 0, def_MaxOctets = int MaxValueLength,
                 def_allowed = allow, def_required = 0, def_first = 0\<rparr>
      in if kind = KindInteger \<or> kind = KindIPv4 \<or> kind = KindTime
           then def\<lparr>def_MinOctets := 4, def_MaxOctets := 4\<rparr>
         else if kind = KindIPv6 then def\<lparr>def_MinOctets := 16, def_MaxOctets := 16\<rparr>
         else def)"

definition compileOperatorAttr ::
  "Dictionary \<Rightarrow> uint32 \<Rightarrow> string \<Rightarrow> rawOperatorAttr \<Rightarrow> string \<Rightarrow> (Error + Definition) option" where
  "compileOperatorAttr base vendor fileID raw path =
     (let name = TrimSpace (roa_Name raw);
          bad = (\<lambda>field message. Some (Inl (yamlOpError (path @ field) message)))
      in if name = '''' then bad ''.name'' ''name is required''
         else if length name > MaxOperatorNameLength then bad ''.name'' ''name exceeds maximum length''
         else if reservedOperatorName name then bad ''.name'' ''attribute name is reserved''
         else case LookupName base name of
           Some def \<Rightarrow>
             if def_Sensitivity def = SensitivitySecret \<and> parseOperatorSensitivity (roa_Sensitivity raw) = Some SensitivityPublic
               then bad ''.sensitivity'' ''cannot set public on a built-in secret attribute''
             else if def_Source def = SourceBuiltin \<or> def_Source def = ''''
               then bad ''.name'' ''cannot redefine a built-in attribute''
             else bad ''.name'' ''duplicate attribute name''
         | None \<Rightarrow>
             (case roa_VendorType raw of
                None \<Rightarrow> bad ''.vendor_type'' ''vendor_type must be 1-255''
              | Some vt \<Rightarrow>
                  if vt < 1 \<or> vt > 255 then bad ''.vendor_type'' ''vendor_type must be 1-255''
                  else case parseOperatorKind (roa_Kind raw) of
                    Inl e \<Rightarrow> bad ''.kind'' e
                  | Inr kind \<Rightarrow>
                      (case (if roa_Cardinality raw = '''' then Some CardinalitySingle
                             else find (\<lambda>c. cardinalityName c = roa_Cardinality raw) [CardinalitySingle, CardinalityMulti]) of
                         None \<Rightarrow> bad ''.cardinality'' ''cardinality must be single or multi''
                       | Some crd \<Rightarrow>
                           (case (if roa_Sensitivity raw = '''' then Some SensitivityRestricted
                                  else parseOperatorSensitivity (roa_Sensitivity raw)) of
                              None \<Rightarrow> bad ''.sensitivity'' ''sensitivity must be public, restricted, or secret''
                            | Some sens \<Rightarrow>
                                Option.bind (parseOperatorAllowed (roa_AllowedIn raw)) (\<lambda>r.
                                case r of
                                  Inl e \<Rightarrow> bad ''.allowed_in'' e
                                | Inr allow \<Rightarrow>
                                    Some (Inr (operatorDefinition name vendor vt kind crd sens fileID allow)))))))"

text \<open>
  The second test of the sensitivity against a built-in secret cannot succeed in the Go
  function, as it is only reached when no definition has that name; it is left out.
\<close>

subsection \<open>Merging\<close>

definition cloneDictionary :: "Dictionary \<Rightarrow> Dictionary" where
  "cloneDictionary d =
     fold (\<lambda>def out. dict_add (withSource def) out) (dict_order d)
       \<lparr>dict_version = dict_version d, dict_byName = [], dict_byKey = [], dict_order = []\<rparr>"

record opAttrs =
  oa_out :: Dictionary
  oa_added :: nat
  oa_defs :: "Definition list"

text \<open>The attribute loop of one file, from index \<open>i\<close> on.\<close>

fun attrLoop :: "uint32 \<Rightarrow> string \<Rightarrow> nat \<Rightarrow> rawOperatorAttr list \<Rightarrow> opAttrs \<Rightarrow> (Error + opAttrs) option" where
  "attrLoop vendor fid i [] st = Some (Inr st)"
| "attrLoop vendor fid i (raw # raws) st =
     (let path = ''radius_dictionaries.'' @ fid @ ''.attributes['' @ Itoa i @ '']''
      in Option.bind (compileOperatorAttr (oa_out st) vendor fid raw path) (\<lambda>r.
         case r of
           Inl e \<Rightarrow> Some (Inl e)
         | Inr def \<Rightarrow>
             if oa_added st + 1 > MaxOperatorAttributes
               then Some (Inl (yamlOpError path ''operator attribute count exceeds maximum''))
             else if map_of (dict_byName (oa_out st)) (def_Name def) \<noteq> None
               then Some (Inl (yamlOpError (path @ ''.name'') ''duplicate attribute name''))
             else if map_of (dict_byKey (oa_out st)) (Definition_Key def) \<noteq> None
               then Some (Inl (yamlOpError path ''duplicate attribute vendor and type''))
             else attrLoop vendor fid (Suc i) raws
                    (st\<lparr>oa_out := dict_add def (oa_out st), oa_added := oa_added st + 1, oa_defs := oa_defs st @ [def]\<rparr>)))"

record opMerge =
  om_out :: Dictionary
  om_vendorID :: "(uint32 \<times> string) list"
  om_vendorName :: "(string \<times> uint32) list"
  om_added :: nat
  om_compiled :: "compiledOperatorFile list"

text \<open>The vendor tables: one name per identifier and one identifier per name, at most 32 vendors.\<close>

definition registerVendor :: "string \<Rightarrow> parsedOperatorFile \<Rightarrow> opMerge \<Rightarrow> Error + opMerge" where
  "registerVendor fid p st =
     (let path = ''radius_dictionaries.'' @ fid; vid = pof_vendorID p; vname = pof_vendorName p
      in case map_of (om_vendorID st) vid of
           Some prev \<Rightarrow>
             if prev \<noteq> vname then Inl (yamlOpError (path @ ''.vendor.id'') (''vendor id is already defined as '' @ prev))
             else if (case map_of (om_vendorName st) vname of None \<Rightarrow> False | Some v \<Rightarrow> v \<noteq> vid)
               then Inl (yamlOpError (path @ ''.vendor.name'') ''vendor name is already defined with a different id'')
             else Inr st
         | None \<Rightarrow>
             if (case map_of (om_vendorName st) vname of None \<Rightarrow> False | Some v \<Rightarrow> v \<noteq> vid)
               then Inl (yamlOpError (path @ ''.vendor.name'') ''vendor name is already defined with a different id'')
             else if length (om_vendorID st) + 1 > MaxOperatorVendors
               then Inl (yamlOpError (path @ ''.vendor.id'') ''operator vendor count exceeds maximum'')
             else Inr (st\<lparr>om_vendorID := (vid, vname) # om_vendorID st, om_vendorName := (vname, vid) # om_vendorName st\<rparr>))"

definition mergeFile ::
  "(bytes \<Rightarrow> nat \<Rightarrow> YamlRead) \<Rightarrow> (YamlNode \<Rightarrow> rawOperatorFile option) \<Rightarrow> OperatorSource \<Rightarrow> opMerge \<Rightarrow>
     (Error + opMerge) option" where
  "mergeFile yamlRead nodeDecode f st =
     (let path = ''radius_dictionaries.'' @ os_ID f
      in if os_ID f = '''' then Some (Inl (yamlOpError ''radius_dictionaries'' ''id is required''))
         else if length (os_Data f) > MaxOperatorDictionaryBytes
           then Some (Inl (yamlOpError path ''dictionary file exceeds maximum size''))
         else if Contains (string_of_bytes (os_Data f)) ''$INCLUDE''
           then Some (Inl (yamlOpError path ''FreeRADIUS $INCLUDE is not allowed''))
         else case rbind (parseOperatorFile yamlRead nodeDecode (os_ID f) (os_Data f)) (\<lambda>p.
                   rbind (reserveOperatorVendor (pof_vendorID p) (os_ID f)) (\<lambda>_.
                   rbind (registerVendor (os_ID f) p st) (\<lambda>st. Inr (p, st)))) of
           Inl e \<Rightarrow> Some (Inl e)
         | Inr (p, st) \<Rightarrow>
             map_option (\<lambda>r. rbind r (\<lambda>a.
                 Inr (st\<lparr>om_out := oa_out a, om_added := oa_added a,
                         om_compiled := om_compiled st @
                           [\<lparr>cof_id = os_ID f, cof_defs = oa_defs a, cof_vend = pof_vendorID p, cof_vname = pof_vendorName p\<rparr>]\<rparr>)))
               (attrLoop (pof_vendorID p) (os_ID f) 0 (pof_attrs p)
                  \<lparr>oa_out = om_out st, oa_added = om_added st, oa_defs = []\<rparr>))"

fun mergeFiles ::
  "(bytes \<Rightarrow> nat \<Rightarrow> YamlRead) \<Rightarrow> (YamlNode \<Rightarrow> rawOperatorFile option) \<Rightarrow> OperatorSource list \<Rightarrow> opMerge \<Rightarrow>
     (Error + opMerge) option" where
  "mergeFiles yamlRead nodeDecode [] st = Some (Inr st)"
| "mergeFiles yamlRead nodeDecode (f # fs) st =
     Option.bind (mergeFile yamlRead nodeDecode f st) (\<lambda>r.
       case r of Inl e \<Rightarrow> Some (Inl e) | Inr st \<Rightarrow> mergeFiles yamlRead nodeDecode fs st)"

text \<open>
  The version string: the rows of the files in order of identifier and name, hashed. A later
  file of the same identifier replaces the earlier one in \<open>byID\<close>.
\<close>

definition operatorPacketName :: "byte \<Rightarrow> string" where
  "operatorPacketName code =
     (case find (\<lambda>(tok, c). c = code) operatorPacketToken of
        Some (tok, _) \<Rightarrow> tok
      | None \<Rightarrow> packetName code)"

definition operatorRow :: "Definition \<Rightarrow> string" where
  "operatorRow d = def_Name d @ [CHR 0x09] @ Itoa (unat (def_Code d)) @ [CHR 0x09] @ kindName (def_Kind d) @ [CHR 0x09]
     @ cardinalityName (def_Cardinality d) @ [CHR 0x09] @ sensitivityName (def_Sensitivity d)
     @ concat (map (\<lambda>pkt. [CHR 0x09] @ operatorPacketName pkt) (AllowedPackets d)) @ [CHR 0x0A]"

definition operatorSection :: "compiledOperatorFile \<Rightarrow> string" where
  "operatorSection f = cof_id f @ [CHR 0x09] @ Itoa (unat (cof_vend f)) @ [CHR 0x09] @ cof_vname f @ [CHR 0x0A]
     @ concat (map operatorRow (sort_key def_Name (cof_defs f)))"

definition operatorVersion :: "compiledOperatorFile list \<Rightarrow> string" where
  "operatorVersion files =
     (let ids = sort (map cof_id files);
          byID = map_of (rev (map (\<lambda>f. (cof_id f, f)) files));
          text = concat (map (\<lambda>i. case byID i of None \<Rightarrow> '''' | Some f \<Rightarrow> operatorSection f) ids)
      in DictionaryVersion @ ''+op:'' @ Join ids '','' @ '':'' @ EncodeToString (sha256 (bytes_of_string text)))"

definition MergeOperator ::
  "(bytes \<Rightarrow> nat \<Rightarrow> YamlRead) \<Rightarrow> (YamlNode \<Rightarrow> rawOperatorFile option) \<Rightarrow> Dictionary \<Rightarrow> OperatorSource list \<Rightarrow>
     (Error + Dictionary) option" where
  "MergeOperator yamlRead nodeDecode base files =
     (if files = [] then Some (Inr base)
      else map_option (\<lambda>r. rbind r (\<lambda>st. Inr ((om_out st)\<lparr>dict_version := operatorVersion (om_compiled st)\<rparr>)))
             (mergeFiles yamlRead nodeDecode files
                \<lparr>om_out = cloneDictionary base, om_vendorID = [], om_vendorName = [], om_added = 0, om_compiled = []\<rparr>))"

subsection \<open>What a merge can add\<close>

definition addedOk :: "Definition \<Rightarrow> bool" where
  "addedOk def \<longleftrightarrow> def_Vendor def \<notin> {0, VendorCisco, VendorMicrosoft} \<and> def_required def = 0 \<and> def_first def = 0 \<and>
     def_Name def \<noteq> '''' \<and> length (def_Name def) \<le> MaxOperatorNameLength \<and> \<not> reservedOperatorName (def_Name def) \<and>
     HasPrefix (def_Source def) ''operator:''"

text \<open>A dictionary that extends \<open>base\<close> by \<open>n\<close> admissible definitions.\<close>

definition extends :: "Dictionary \<Rightarrow> Dictionary \<Rightarrow> nat \<Rightarrow> bool" where
  "extends base d n \<longleftrightarrow> dict_wf d \<and> n \<le> MaxOperatorAttributes \<and>
     (\<exists>xs. dict_order d = dict_order base @ xs \<and> length xs = n \<and> list_all addedOk xs)"

text \<open>A step that may panic and may return an error, followed by another.\<close>

lemma pbind_Inr:
  "Option.bind m (\<lambda>r. case r of Inl e \<Rightarrow> Some (Inl e) | Inr x \<Rightarrow> f x) = Some (Inr y) \<longleftrightarrow>
     (\<exists>x. m = Some (Inr x) \<and> f x = Some (Inr y))"
  by (cases m) (auto split: sum.splits)

lemma token_bits: "map_of operatorPacketToken tok = Some code \<Longrightarrow> mustPacketBit code \<noteq> None"
  by (auto simp: operatorPacketToken_def mustPacketBit_def packetBit_def split: if_splits)

lemma allowedLoop_total: "\<exists>r. allowedLoop toks m = Some r"
proof (induction toks arbitrary: m)
  case (Cons tok toks)
  then show ?case using token_bits [of tok] by (auto split: option.splits)
qed simp

lemma parseOperatorAllowed_total: "\<exists>r. parseOperatorAllowed toks = Some r"
  using allowedLoop_total by (auto simp: parseOperatorAllowed_def)

lemma compileOperatorAttr_total: "\<exists>r. compileOperatorAttr base vendor fid raw path = Some r"
proof -
  obtain r where "parseOperatorAllowed (roa_AllowedIn raw) = Some r"
    using parseOperatorAllowed_total by blast
  then show ?thesis
    by (simp add: compileOperatorAttr_def Let_def split: option.split sum.split)
qed

lemma operatorDefinition_fields [simp]:
  "def_Name (operatorDefinition n v t k c s f a) = n" "def_Vendor (operatorDefinition n v t k c s f a) = v"
  "def_Source (operatorDefinition n v t k c s f a) = SourceOperator f"
  "def_required (operatorDefinition n v t k c s f a) = 0" "def_first (operatorDefinition n v t k c s f a) = 0"
  by (simp_all add: operatorDefinition_def Let_def)

lemma HasPrefix_source: "HasPrefix (SourceOperator f) ''operator:''"
  unfolding SourceOperator_def by (rule HasPrefix_refl)

lemma compileOperatorAttr_ok:
  assumes "compileOperatorAttr base vendor fid raw path = Some (Inr def)" "vendor \<notin> {0, VendorCisco, VendorMicrosoft}"
  shows "addedOk def"
proof (cases "TrimSpace (roa_Name raw) = '''' \<or> length (TrimSpace (roa_Name raw)) > MaxOperatorNameLength \<or>
    reservedOperatorName (TrimSpace (roa_Name raw))")
  case True
  then show ?thesis using assms by (auto simp: compileOperatorAttr_def Let_def split: if_split_asm)
next
  case False
  obtain r where "parseOperatorAllowed (roa_AllowedIn raw) = Some r"
    using parseOperatorAllowed_total by blast
  with False show ?thesis using assms HasPrefix_source
    by (cases r) (auto simp: compileOperatorAttr_def Let_def addedOk_def
        split: option.split_asm sum.split_asm if_split_asm)
qed

lemma attrLoop_total: "\<exists>r. attrLoop vendor fid i raws st = Some r"
proof (induction raws arbitrary: i st)
  case (Cons raw raws)
  obtain r where "compileOperatorAttr (oa_out st) vendor fid raw
      (''radius_dictionaries.'' @ fid @ ''.attributes['' @ Itoa i @ '']'') = Some r"
    using compileOperatorAttr_total by blast
  then show ?case using Cons by (cases r) (simp_all add: Let_def)
qed simp

lemma extends_add:
  assumes "extends base d n" "addedOk def" "n + 1 \<le> MaxOperatorAttributes"
    "map_of (dict_byName d) (def_Name def) = None" "map_of (dict_byKey d) (Definition_Key def) = None"
  shows "extends base (dict_add def d) (n + 1)"
proof -
  have "dict_wf (dict_add def d)"
    using assms by (intro dict_wf_add) (auto simp: extends_def addedOk_def LookupName_def LookupKey_def)
  moreover obtain xs where "dict_order d = dict_order base @ xs" "length xs = n" "list_all addedOk xs"
    using assms(1) by (auto simp: extends_def)
  ultimately show ?thesis
    using assms(2,3) by (auto simp: extends_def dict_add_def intro!: exI [of _ "xs @ [def]"])
qed

lemma attrLoop_extends:
  "\<lbrakk>attrLoop vendor fid i raws st = Some (Inr st'); extends base (oa_out st) (oa_added st);
    vendor \<notin> {0, VendorCisco, VendorMicrosoft}\<rbrakk> \<Longrightarrow> extends base (oa_out st') (oa_added st')"
proof (induction raws arbitrary: i st)
  case (Cons raw raws)
  from Cons.prems(1) obtain def path where
      def: "compileOperatorAttr (oa_out st) vendor fid raw path = Some (Inr def)"
    and g: "oa_added st + 1 \<le> MaxOperatorAttributes" "map_of (dict_byName (oa_out st)) (def_Name def) = None"
      "map_of (dict_byKey (oa_out st)) (Definition_Key def) = None"
    and rec: "attrLoop vendor fid (Suc i) raws
      (st\<lparr>oa_out := dict_add def (oa_out st), oa_added := oa_added st + 1, oa_defs := oa_defs st @ [def]\<rparr>) = Some (Inr st')"
    by (auto simp: Let_def pbind_Inr split: if_splits)
  have "extends base (dict_add def (oa_out st)) (oa_added st + 1)"
    using Cons.prems compileOperatorAttr_ok [OF def] g by (intro extends_add) auto
  then show ?case using Cons.IH [OF rec] Cons.prems(3) by simp
qed simp

lemma registerVendor_out: "registerVendor fid p st = Inr st' \<Longrightarrow> om_out st' = om_out st \<and> om_added st' = om_added st"
  by (auto simp: registerVendor_def Let_def split: option.splits if_splits)

lemma mergeFile_total: "\<exists>r. mergeFile yr nd f st = Some r"
  using attrLoop_total by (fastforce simp: mergeFile_def Let_def split: sum.split prod.split)

lemma mergeFile_extends:
  assumes "mergeFile yr nd f st = Some (Inr st')" "extends base (om_out st) (om_added st)"
  shows "extends base (om_out st') (om_added st')"
proof -
  from assms(1) obtain p st1 a where p: "reserveOperatorVendor (pof_vendorID p) (os_ID f) = Inr ()"
      "registerVendor (os_ID f) p st = Inr st1"
      "attrLoop (pof_vendorID p) (os_ID f) 0 (pof_attrs p)
         \<lparr>oa_out = om_out st1, oa_added = om_added st1, oa_defs = []\<rparr> = Some (Inr a)"
      "om_out st' = oa_out a" "om_added st' = oa_added a"
    by (auto simp: mergeFile_def Let_def result_simps split: sum.splits if_splits)
  have "pof_vendorID p \<notin> {0, VendorCisco, VendorMicrosoft}"
    using p(1) by (auto simp: reserveOperatorVendor_def split: if_splits)
  then show ?thesis
    using attrLoop_extends [OF p(3)] registerVendor_out [OF p(2)] assms(2) p(4,5) by simp
qed

lemma mergeFiles_total: "\<exists>r. mergeFiles yr nd fs st = Some r"
proof (induction fs arbitrary: st)
  case (Cons f fs)
  then show ?case using mergeFile_total [of yr nd f st] by (auto split: sum.split)
qed simp

lemma mergeFiles_extends:
  "\<lbrakk>mergeFiles yr nd fs st = Some (Inr st'); extends base (om_out st) (om_added st)\<rbrakk>
     \<Longrightarrow> extends base (om_out st') (om_added st')"
proof (induction fs arbitrary: st)
  case (Cons f fs)
  then show ?case using mergeFile_extends by (fastforce simp: pbind_Inr)
qed simp

text \<open>Cloning a dictionary whose definitions all have a source changes nothing.\<close>

lemma clone_fold:
  "\<forall>def \<in> set defs. def_Source def \<noteq> '''' \<Longrightarrow>
     fold (\<lambda>def out. dict_add (withSource def) out) defs d =
     d\<lparr>dict_byName := dict_byName d @ map (\<lambda>def. (def_Name def, def)) defs,
       dict_byKey := dict_byKey d @ map (\<lambda>def. (Definition_Key def, def)) defs, dict_order := dict_order d @ defs\<rparr>"
  by (induction defs arbitrary: d) (simp_all add: dict_add_def withSource_def)

lemma cloneDictionary_id:
  "\<lbrakk>dict_wf d; \<forall>def \<in> set (dict_order d). def_Source def \<noteq> ''''\<rbrakk> \<Longrightarrow> cloneDictionary d = d"
  by (cases d) (simp add: cloneDictionary_def clone_fold dict_wf_def)

lemma builtinLoop_sources:
  "\<lbrakk>builtinLoop defs d = Some d'; \<forall>def \<in> set (dict_order d). def_Source def \<noteq> ''''\<rbrakk>
     \<Longrightarrow> \<forall>def \<in> set (dict_order d'). def_Source def \<noteq> ''''"
proof (induction defs arbitrary: d)
  case (Cons def defs)
  from Cons.prems(1) have rec: "builtinLoop defs (dict_add (withSource def) d) = Some d'"
    unfolding builtinLoop_Cons by (simp split: if_splits)
  have "def_Source (withSource def) \<noteq> ''''" by (simp add: withSource_def)
  then have "\<forall>x \<in> set (dict_order (dict_add (withSource def) d)). def_Source x \<noteq> ''''"
    using Cons.prems(2) by (simp add: dict_add_def)
  then show ?case by (rule Cons.IH [OF rec])
qed simp

lemma Builtin_sources: "\<forall>def \<in> set (dict_order Builtin). def_Source def \<noteq> ''''"
proof -
  obtain defs where "builtinLoop defs
      \<lparr>dict_version = ''builtin-mvp-1'', dict_byName = [], dict_byKey = [], dict_order = []\<rparr> = Some Builtin"
    using Builtin_defined unfolding mustBuiltin_def bind_eq_Some_conv by blast
  then show ?thesis by (rule builtinLoop_sources) simp
qed

subsection \<open>Extensions are conservative\<close>

lemma extends_LookupKey:
  assumes "dict_wf base" "extends base d n" "key_Vendor k \<in> {0, VendorCisco, VendorMicrosoft}"
  shows "LookupKey d k = LookupKey base k"
proof -
  obtain xs where xs: "dict_order d = dict_order base @ xs" "list_all addedOk xs" and wf: "dict_wf d"
    using assms(2) by (auto simp: extends_def)
  have "Definition_Key x \<noteq> k" if "x \<in> set xs" for x
  proof -
    have "addedOk x" using xs(2) that by (simp add: list_all_iff)
    then show ?thesis using assms(3) by (auto simp: addedOk_def Definition_Key_def IETFKey_def)
  qed
  then have "LookupKey d k = Some def \<longleftrightarrow> LookupKey base k = Some def" for def
    using xs(1) by (auto simp: LookupKey_iff [OF wf] LookupKey_iff [OF assms(1)])
  then show ?thesis by (metis option.exhaust)
qed

lemma checkLoop_cong:
  assumes "\<And>c. LookupIETF d c = LookupIETF d' c"
  shows "checkLoop d packet i rs counts = checkLoop d' packet i rs counts"
proof (induction rs arbitrary: i counts)
  case (Cons r rs)
  show ?case by (simp only: checkLoop.simps assms Cons.IH)
qed simp

lemma requiredLoop_extra:
  "\<forall>x \<in> set xs. def_required x = 0 \<Longrightarrow> requiredLoop packet rs c (defs @ xs) = requiredLoop packet rs c defs"
proof (induction defs)
  case Nil
  then show ?case by (induction xs) (auto simp: RequiredIn_def mask_has_def split: option.splits)
qed auto

lemma extends_CheckSet:
  assumes "dict_wf base" "extends base d n"
  shows "CheckSet d rs packet = CheckSet base rs packet"
proof -
  obtain xs where xs: "dict_order d = dict_order base @ xs" "list_all addedOk xs"
    using assms(2) by (auto simp: extends_def)
  have "LookupIETF d c = LookupIETF base c" for c
    unfolding LookupIETF_def by (rule extends_LookupKey [OF assms]) (simp add: IETFKey_def)
  then have "checkLoop d packet 0 rs (\<lambda>_. 0) = checkLoop base packet 0 rs (\<lambda>_. 0)" by (rule checkLoop_cong)
  moreover have "requiredLoop packet rs c (dict_order d) = requiredLoop packet rs c (dict_order base)" for c
    unfolding xs(1) using xs(2) by (intro requiredLoop_extra) (auto simp: list_all_iff addedOk_def)
  ultimately show ?thesis by (simp add: CheckSet_def)
qed

subsection \<open>Properties\<close>

text \<open>
  Property C25. Operator dictionaries are conservative. Whatever the YAML library returns,
  merging files into the built-in dictionary does not panic; when it succeeds, both indexes
  agree with the ordered table and no name or key is defined twice, the table is the
  built-in one followed by at most 256 definitions of vendors other than IETF, Cisco and
  Microsoft, with a name of 1 to 64 octets that is not reserved and the mark of an operator
  source; every lookup in the reserved spaces is unchanged, and so is the verdict of
  \<open>CheckSet\<close> on every attribute set and packet.
\<close>

theorem operator_merge_conservative:
  "MergeOperator yamlRead nodeDecode Builtin files \<noteq> None \<and>
   (MergeOperator yamlRead nodeDecode Builtin files = Some (Inr d) \<longrightarrow>
      dict_wf d \<and>
      (\<exists>added. dict_order d = dict_order Builtin @ added \<and> length added \<le> 256 \<and>
         list_all (\<lambda>def. def_Vendor def \<notin> {0, 9, 311} \<and> def_Name def \<noteq> '''' \<and> length (def_Name def) \<le> 64 \<and>
           \<not> reservedOperatorName (def_Name def) \<and> HasPrefix (def_Source def) ''operator:'') added) \<and>
      (\<forall>k. key_Vendor k \<in> {0, 9, 311} \<longrightarrow> LookupKey d k = LookupKey Builtin k) \<and>
      (\<forall>rs packet. CheckSet d rs packet = CheckSet Builtin rs packet))"
proof (intro conjI impI)
  show "MergeOperator yamlRead nodeDecode Builtin files \<noteq> None"
    using mergeFiles_total by (simp add: MergeOperator_def)
next
  assume ok: "MergeOperator yamlRead nodeDecode Builtin files = Some (Inr d)"
  have start: "extends Builtin Builtin 0" using Builtin_wf by (simp add: extends_def)
  have version: "extends Builtin (x\<lparr>dict_version := v\<rparr>) n \<longleftrightarrow> extends Builtin x n" for x v n
    by (simp add: extends_def dict_wf_def)
  obtain n where ext: "extends Builtin d n"
  proof (cases "files = []")
    case True
    then show ?thesis using ok start that by (auto simp: MergeOperator_def)
  next
    case False
    then show ?thesis
      using ok mergeFiles_extends [of yamlRead nodeDecode files _ _ Builtin] start that
        cloneDictionary_id [OF Builtin_wf Builtin_sources]
      by (fastforce simp: MergeOperator_def result_simps version)
  qed
  then show "dict_wf d" by (simp add: extends_def)
  from ext obtain xs where "dict_order d = dict_order Builtin @ xs" "length xs \<le> 256" "list_all addedOk xs"
    by (auto simp: extends_def)
  then show "\<exists>added. dict_order d = dict_order Builtin @ added \<and> length added \<le> 256 \<and>
      list_all (\<lambda>def. def_Vendor def \<notin> {0, 9, 311} \<and> def_Name def \<noteq> '''' \<and> length (def_Name def) \<le> 64 \<and>
        \<not> reservedOperatorName (def_Name def) \<and> HasPrefix (def_Source def) ''operator:'') added"
    by (intro exI [of _ xs]) (simp add: list_all_iff addedOk_def)
  show "\<forall>k. key_Vendor k \<in> {0, 9, 311} \<longrightarrow> LookupKey d k = LookupKey Builtin k"
    using extends_LookupKey [OF Builtin_wf ext] by blast
  show "\<forall>rs packet. CheckSet d rs packet = CheckSet Builtin rs packet"
    using extends_CheckSet [OF Builtin_wf ext] by blast
qed

definition wit_node :: YamlNode where
  "wit_node = YamlNode DocumentNode '''' [YamlNode MappingNode ''''
     [YamlNode ScalarNode ''schema_version'' [], YamlNode ScalarNode ''1'' []]]"

definition wit_yaml :: "bytes \<Rightarrow> nat \<Rightarrow> YamlRead" where
  "wit_yaml data n = (if n = 0 then YamlDoc wit_node else YamlEOF)"

definition wit_attr :: rawOperatorAttr where
  "wit_attr = \<lparr>roa_Name = ''Acme-Role'', roa_VendorType = Some 1, roa_Kind = ''text'', roa_Cardinality = '''',
     roa_Sensitivity = ''public'', roa_AllowedIn = [''access_accept'']\<rparr>"

definition wit_decode :: "YamlNode \<Rightarrow> rawOperatorFile option" where
  "wit_decode n = Some \<lparr>rof_SchemaVersion = Some 1, rof_VendorID = Some 1000, rof_VendorName = ''Acme'',
     rof_Attributes = [wit_attr]\<rparr>"

definition wit_source :: OperatorSource where
  "wit_source = \<lparr>os_ID = ''acme'', os_Data = [120]\<rparr>"

lemma wit_parse: "parseOperatorFile wit_yaml wit_decode ''acme'' [120] =
    Inr \<lparr>pof_vendorID = 1000, pof_vendorName = ''Acme'', pof_attrs = [wit_attr]\<rparr>"
  by code_simp

lemma wit_compile: "\<exists>def. compileOperatorAttr Builtin 1000 ''acme'' wit_attr path = Some (Inr def) \<and>
    def_Name def = ''Acme-Role'' \<and> Definition_Key def = \<lparr>key_Vendor = 1000, key_Code = 1, key_Space = SpaceVSA\<rparr>"
proof -
  have "TrimSpace ''Acme-Role'' = ''Acme-Role''" by code_simp
  moreover have "\<not> HasPrefix ''Acme-Role'' ''MS-CHAP''" by code_simp
  moreover have "parseOperatorKind ''text'' = Inr KindText" by code_simp
  moreover have "parseOperatorSensitivity ''public'' = Some SensitivityPublic" by code_simp
  moreover have "parseOperatorAllowed [''access_accept''] = Some (Inr 2)" by code_simp
  ultimately show ?thesis
    using Builtin_facts(4)
    by (simp add: compileOperatorAttr_def wit_attr_def reservedOperatorName_def operatorDefinition_def Definition_Key_def)
qed

theorem operator_merge_conservative_witness:
  "\<exists>d. MergeOperator wit_yaml wit_decode Builtin [wit_source] = Some (Inr d) \<and> dict_wf d \<and>
     length (dict_order d) = Suc (length (dict_order Builtin)) \<and> CheckSet d wit_accept 2 = Inr ()"
proof -
  have inc: "\<not> Contains (string_of_bytes [120]) ''$INCLUDE''" by code_simp
  obtain def where def: "compileOperatorAttr Builtin 1000 ''acme'' wit_attr
        (''radius_dictionaries.'' @ ''acme'' @ ''.attributes['' @ Itoa 0 @ '']'') = Some (Inr def)"
      "def_Name def = ''Acme-Role''" "Definition_Key def = \<lparr>key_Vendor = 1000, key_Code = 1, key_Space = SpaceVSA\<rparr>"
    using wit_compile by blast
  then have loop: "attrLoop 1000 ''acme'' 0 [wit_attr] \<lparr>oa_out = Builtin, oa_added = 0, oa_defs = []\<rparr> =
      Some (Inr \<lparr>oa_out = dict_add def Builtin, oa_added = 1, oa_defs = [def]\<rparr>)"
    using Builtin_facts(4,5) by (simp add: Let_def LookupName_def LookupKey_def)
  have "\<exists>v. MergeOperator wit_yaml wit_decode Builtin [wit_source] =
      Some (Inr ((dict_add def Builtin)\<lparr>dict_version := v\<rparr>))"
    using inc by (simp add: MergeOperator_def mergeFile_def wit_source_def wit_parse reserveOperatorVendor_def
        registerVendor_def cloneDictionary_id [OF Builtin_wf Builtin_sources] loop Let_def del: attrLoop.simps) blast
  then obtain v where v: "MergeOperator wit_yaml wit_decode Builtin [wit_source] =
      Some (Inr ((dict_add def Builtin)\<lparr>dict_version := v\<rparr>))" ..
  then show ?thesis
    using operator_merge_conservative [of wit_yaml wit_decode "[wit_source]"] Builtin_facts(3)
    by (auto simp: dict_add_def)
qed

end
