(* ===== verification/Overwrite_Log.thy ===== *)
theory Overwrite_Log
  imports Main
begin

text \<open>
  The interface of a bounded sink that forgets its oldest entries: what it shows after a put is
  the tail of what it showed before, extended by the new entry. A client that only knows
  this contract knows that the sink always shows the last entries of everything put into it.
\<close>

locale overwrite_log =
  fixes put :: "'e \<Rightarrow> 's \<Rightarrow> 's"
    and shows_of :: "'s \<Rightarrow> 'e list"
    and bound :: "'s \<Rightarrow> nat"
    and inv :: "'s \<Rightarrow> bool"
  assumes put_inv: "inv s \<Longrightarrow> inv (put e s)"
    and put_bound: "bound (put e s) = bound s"
    and put_shows: "inv s \<Longrightarrow> shows_of (put e s) = drop (Suc (length (shows_of s)) - bound s) (shows_of s @ [e])"
begin

text \<open>The sink shows the last \<open>bound\<close> entries of the log.\<close>

definition tails :: "'e list \<Rightarrow> 's \<Rightarrow> bool" where
  "tails log s \<longleftrightarrow> inv s \<and> shows_of s = drop (length log - bound s) log"

lemma tails_put: "tails log s \<Longrightarrow> tails (log @ [e]) (put e s)"
  by (cases "bound s \<le> length log") (auto simp: tails_def put_inv put_bound put_shows drop_drop Suc_diff_le)

lemma tails_length: "tails log s \<Longrightarrow> length (shows_of s) = min (bound s) (length log)"
  by (auto simp: tails_def)

lemma tails_nth: "\<lbrakk>tails log s; i < length (shows_of s)\<rbrakk> \<Longrightarrow> shows_of s ! i = log ! (length log - bound s + i)"
  by (simp add: tails_def)

lemma tails_last: "\<lbrakk>tails log s; log \<noteq> []; 0 < bound s\<rbrakk> \<Longrightarrow> last (shows_of s) = last log"
  by (simp add: tails_def last_drop)

end

end
