(* ===== verification/Event_Ring.thy ===== *)
theory Event_Ring
  imports Policy_Dictionary Go_Strings Overwrite_Log "HOL-Library.AList"
begin

text \<open>
  The event ring (\<open>internal/events/ring.go\<close>, \<open>cursor.go\<close>): a bounded sink that overwrites its
  oldest entry, cursor pages over the retained window, and bounded fan-out to subscribers.
  A time is \<open>None\<close> when it is Go's zero time; the clock reading is an argument. Channels are
  shared between the ring and a consumer, so they live in a store (\<open>rg_chans\<close>) and the ring
  holds their addresses. Every method runs under the mutex except the two halves of a
  subscription's cancel function, which are two steps. Metrics are not part of the state.
\<close>

record EventAV =
  ea_Name :: string
  ea_Separator :: string
  ea_Value :: string

record Event =
  ev_SchemaVersion :: int
  ev_ID :: uint64
  ev_Time :: "int option"
  ev_Category :: string
  ev_Type :: string
  ev_Result :: string
  ev_Transport :: string
  ev_ClientID :: string
  ev_SessionID :: uint32
  ev_Revision :: uint64
  ev_UserID :: string
  ev_Command :: string
  ev_TaskID :: string
  ev_Arguments :: "EventAV list"
  ev_StartTime :: "int option"
  ev_StopTime :: "int option"
  ev_AuthenMethod :: string
  ev_AuthenType :: string
  ev_Service :: string
  ev_Privilege :: byte
  ev_Port :: string
  ev_Remote :: string
  ev_Protocol :: string
  ev_Carrier :: string
  ev_ListenerRole :: string
  ev_ListenerID :: string
  ev_PacketCode :: string
  ev_Outcome :: string
  ev_ReasonCode :: string
  ev_EndpointID :: string
  ev_AcctSessionID :: string
  ev_SuppressExport :: bool

definition zeroEvent :: Event where
  "zeroEvent = \<lparr>ev_SchemaVersion = 0, ev_ID = 0, ev_Time = None, ev_Category = '''', ev_Type = '''', ev_Result = '''',
     ev_Transport = '''', ev_ClientID = '''', ev_SessionID = 0, ev_Revision = 0, ev_UserID = '''', ev_Command = '''',
     ev_TaskID = '''', ev_Arguments = [], ev_StartTime = None, ev_StopTime = None, ev_AuthenMethod = '''',
     ev_AuthenType = '''', ev_Service = '''', ev_Privilege = 0, ev_Port = '''', ev_Remote = '''', ev_Protocol = '''',
     ev_Carrier = '''', ev_ListenerRole = '''', ev_ListenerID = '''', ev_PacketCode = '''', ev_Outcome = '''',
     ev_ReasonCode = '''', ev_EndpointID = '''', ev_AcctSessionID = '''', ev_SuppressExport = False\<rparr>"

record Query =
  q_AfterID :: uint64
  q_Limit :: int
  q_Categories :: "string list"
  q_Protocol :: string
  q_ListenerRole :: string
  q_PacketCode :: string
  q_Outcome :: string

record Page =
  pg_Items :: "Event list"
  pg_NextAfterID :: uint64
  pg_HasMore :: bool
  pg_Reset :: bool
  pg_Overwritten :: uint64
  pg_OldestID :: uint64
  pg_NewestID :: uint64

text \<open>A channel with its buffered events, its drop signal, and how far its cancel function has run.\<close>

datatype cancelStage = Subscribed | Unsubscribed | Released

record Chan =
  ch_buf :: nat
  ch_queue :: "Event list"
  ch_drop :: bool
  ch_stage :: cancelStage

record Ring =
  rg_cap :: nat
  rg_seq :: uint64
  rg_buf :: "Event list"
  rg_start :: nat
  rg_n :: nat
  rg_overwritten :: uint64
  rg_reject :: bool
  rg_stdoutCh :: "(nat \<times> Event list) option"
  rg_stdoutDropped :: uint64
  rg_subs :: "nat list"
  rg_chans :: "(nat \<times> Chan) list"
  rg_admitted :: int
  rg_closed :: bool

abbreviation (input) defaultSubBuffer :: int where "defaultSubBuffer \<equiv> 16"
abbreviation (input) DefaultLimit :: int where "DefaultLimit \<equiv> 50"
abbreviation (input) MaxLimit :: int where "MaxLimit \<equiv> 200"
abbreviation (input) MaxSubscribers :: int where "MaxSubscribers \<equiv> 128"

text \<open>\<open>stdout\<close> is the size of the stdout buffer when a writer is configured.\<close>

definition NewRing :: "int \<Rightarrow> int option \<Rightarrow> Ring" where
  "NewRing capacity stdout =
     (let capacity = (if capacity \<le> 0 then 10000 else nat capacity)
      in \<lparr>rg_cap = capacity, rg_seq = 0, rg_buf = replicate capacity zeroEvent, rg_start = 0, rg_n = 0,
          rg_overwritten = 0, rg_reject = False,
          rg_stdoutCh = map_option (\<lambda>b. (if b \<le> 0 then 256 else nat b, [])) stdout,
          rg_stdoutDropped = 0, rg_subs = [], rg_chans = [], rg_admitted = 0, rg_closed = False\<rparr>)"

definition SetReject :: "bool \<Rightarrow> Ring \<Rightarrow> Ring" where
  "SetReject v r = r\<lparr>rg_reject := v\<rparr>"

subsection \<open>Accepting an event\<close>

definition emitStdout :: "Event \<Rightarrow> Ring \<Rightarrow> Ring" where
  "emitStdout e r =
     (case rg_stdoutCh r of
        None \<Rightarrow> r
      | Some (sz, q) \<Rightarrow>
          if ev_SuppressExport e then r
          else if rg_closed r then r
          else if length q < sz then r\<lparr>rg_stdoutCh := Some (sz, q @ [e])\<rparr>
          else r\<lparr>rg_stdoutDropped := rg_stdoutDropped r + 1\<rparr>)"

text \<open>One non-blocking send: the subscriber is kept, or its drop channel is closed.\<close>

definition trySend :: "Event \<Rightarrow> Chan \<Rightarrow> Chan \<times> bool" where
  "trySend e c =
     (if length (ch_queue c) < ch_buf c then (c\<lparr>ch_queue := ch_queue c @ [e]\<rparr>, True)
      else (c\<lparr>ch_drop := True\<rparr>, False))"

fun fanoutLoop :: "Event \<Rightarrow> nat list \<Rightarrow> (nat \<times> Chan) list \<Rightarrow> nat list \<times> (nat \<times> Chan) list" where
  "fanoutLoop e [] chans = ([], chans)"
| "fanoutLoop e (s # subs) chans =
     (case map_of chans s of
        None \<Rightarrow> fanoutLoop e subs chans
      | Some c \<Rightarrow>
          (let (c', kept) = trySend e c; (ks, chans') = fanoutLoop e subs (AList.update s c' chans)
           in (if kept then s # ks else ks, chans')))"

definition fanoutLocked :: "Event \<Rightarrow> Ring \<Rightarrow> Ring" where
  "fanoutLocked e r =
     (if ev_SuppressExport e then r
      else let (kept, chans) = fanoutLoop e (rg_subs r) (rg_chans r)
           in r\<lparr>rg_subs := kept, rg_chans := chans\<rparr>)"

definition stamped :: "int \<Rightarrow> uint64 \<Rightarrow> Event \<Rightarrow> Event" where
  "stamped now i e =
     (let e = e\<lparr>ev_ID := i\<rparr>;
          e = (if ev_SchemaVersion e = 0 then e\<lparr>ev_SchemaVersion := 1\<rparr> else e)
      in if ev_Time e = None then e\<lparr>ev_Time := Some now\<rparr> else e)"

definition ring_put :: "Event \<Rightarrow> Ring \<Rightarrow> Ring" where
  "ring_put e r =
     (if rg_n r = rg_cap r
      then r\<lparr>rg_buf := (rg_buf r)[rg_start r := e], rg_start := (rg_start r + 1) mod rg_cap r,
             rg_overwritten := rg_overwritten r + 1\<rparr>
      else r\<lparr>rg_buf := (rg_buf r)[(rg_start r + rg_n r) mod rg_cap r := e], rg_n := rg_n r + 1\<rparr>)"

definition ring_Accept :: "int \<Rightarrow> Event \<Rightarrow> Ring \<Rightarrow> Ring \<times> Event" where
  "ring_Accept now e r =
     (if rg_reject r then (r, zeroEvent)
      else if rg_closed r then (r, zeroEvent)
      else (let seq = rg_seq r + 1;
                e = stamped now seq e;
                r = ring_put e (r\<lparr>rg_seq := seq\<rparr>);
                r = emitStdout e r;
                r = (if length (rg_subs r) > 0 then fanoutLocked e r else r)
            in (r, e)))"

subsection \<open>Reading\<close>

definition ring_Len :: "Ring \<Rightarrow> nat" where
  "ring_Len r = rg_n r"

definition ring_at :: "Ring \<Rightarrow> nat \<Rightarrow> Event" where
  "ring_at r i = rg_buf r ! ((rg_start r + i) mod rg_cap r)"

definition Latest :: "Ring \<Rightarrow> Event option" where
  "Latest r = (if rg_n r = 0 then None else Some (rg_buf r ! ((rg_start r + rg_n r - 1) mod rg_cap r)))"

definition Snapshot :: "Ring \<Rightarrow> Event list" where
  "Snapshot r = map (ring_at r) [0..<rg_n r]"

text \<open>\<open>None\<close> is the nil set, which matches every category.\<close>

definition categorySet :: "string list \<Rightarrow> string list option" where
  "categorySet cats =
     (if cats = [] then None
      else let out = filter (\<lambda>c. c \<noteq> '''') cats in if out = [] then None else Some out)"

definition categoryOK :: "string list option \<Rightarrow> string \<Rightarrow> bool" where
  "categoryOK want got = (case want of None \<Rightarrow> True | Some cs \<Rightarrow> got \<in> set cs)"

definition queryMatch :: "Query \<Rightarrow> string list option \<Rightarrow> Event \<Rightarrow> bool" where
  "queryMatch q wantCats ev =
     (if \<not> categoryOK wantCats (ev_Category ev) then False
      else if q_Protocol q \<noteq> '''' \<and> (if ev_Protocol ev = '''' then ''tacacs'' else ev_Protocol ev) \<noteq> q_Protocol q then False
      else if q_ListenerRole q \<noteq> '''' \<and> ev_ListenerRole ev \<noteq> q_ListenerRole q then False
      else if q_PacketCode q \<noteq> '''' \<and> ev_PacketCode ev \<noteq> q_PacketCode q then False
      else if q_Outcome q \<noteq> '''' \<and> ev_Outcome ev \<noteq> q_Outcome q then False
      else True)"

definition Match :: "Query \<Rightarrow> Event \<Rightarrow> bool" where
  "Match q ev = queryMatch q (categorySet (q_Categories q)) ev"

fun readLoop_ev :: "Query \<Rightarrow> string list option \<Rightarrow> int \<Rightarrow> Event list \<Rightarrow> Event list \<Rightarrow> Event list" where
  "readLoop_ev q want limit [] out = out"
| "readLoop_ev q want limit (ev # evs) out =
     (if \<not> int (length out) < limit then out
      else if ev_ID ev \<le> q_AfterID q \<or> ev_SuppressExport ev then readLoop_ev q want limit evs out
      else if \<not> queryMatch q want ev then readLoop_ev q want limit evs out
      else readLoop_ev q want limit evs (out @ [ev]))"

definition readLocked :: "Query \<Rightarrow> int \<Rightarrow> Ring \<Rightarrow> Page" where
  "readLocked q limit r =
     (let want = categorySet (q_Categories q);
          page = \<lparr>pg_Items = [], pg_NextAfterID = 0, pg_HasMore = False, pg_Reset = False,
                  pg_Overwritten = rg_overwritten r, pg_OldestID = 0, pg_NewestID = 0\<rparr>
      in if rg_n r = 0 then page
         else (let oldest = ev_ID (rg_buf r ! rg_start r);
                   newest = ev_ID (rg_buf r ! ((rg_start r + rg_n r - 1) mod rg_cap r));
                   out = readLoop_ev q want limit (map (ring_at r) [0..<rg_n r]) [];
                   nxt = (if length out > 0 then ev_ID (last out) else q_AfterID q)
               in page\<lparr>pg_OldestID := oldest, pg_NewestID := newest,
                       pg_Reset := q_AfterID q > 0 \<and> oldest > 1 \<and> q_AfterID q < oldest - 1,
                       pg_Items := out, pg_NextAfterID := nxt,
                       pg_HasMore := list_ex (\<lambda>ev. \<not> (ev_ID ev \<le> nxt \<or> ev_SuppressExport ev) \<and> queryMatch q want ev)
                         (map (ring_at r) [0..<rg_n r])\<rparr>))"

definition ring_Replay :: "Query \<Rightarrow> Ring \<Rightarrow> Page" where
  "ring_Replay q r = readLocked q (int (rg_cap r)) r"

definition ring_Read :: "Query \<Rightarrow> Ring \<Rightarrow> Page" where
  "ring_Read q r =
     (let limit = (if q_Limit q \<le> 0 then DefaultLimit else q_Limit q);
          limit = (if limit > MaxLimit then MaxLimit else limit)
      in readLocked q limit r)"

subsection \<open>Subscriptions\<close>

definition TrySubscribe :: "int \<Rightarrow> Ring \<Rightarrow> Ring \<times> nat option" where
  "TrySubscribe buf r =
     (let buf = (if buf \<le> 0 then defaultSubBuffer else buf);
          buf = (if buf > int (rg_cap r) then int (rg_cap r) else buf)
      in if rg_closed r \<or> rg_admitted r \<ge> MaxSubscribers then (r, None)
         else (let i = length (rg_chans r)
               in (r\<lparr>rg_chans := rg_chans r @ [(i, \<lparr>ch_buf = nat buf, ch_queue = [], ch_drop = False, ch_stage = Subscribed\<rparr>)],
                     rg_subs := rg_subs r @ [i], rg_admitted := rg_admitted r + 1\<rparr>, Some i)))"

text \<open>The first half of a cancel function (\<open>detach\<close>) and the second (giving back the admission).\<close>

definition ring_detach :: "nat \<Rightarrow> Ring \<Rightarrow> Ring" where
  "ring_detach i r =
     (case map_of (rg_chans r) i of
        None \<Rightarrow> r
      | Some c \<Rightarrow>
          if ch_stage c \<noteq> Subscribed then r
          else r\<lparr>rg_subs := remove1 i (rg_subs r), rg_chans := AList.update i (c\<lparr>ch_stage := Unsubscribed\<rparr>) (rg_chans r)\<rparr>)"

definition ring_release :: "nat \<Rightarrow> Ring \<Rightarrow> Ring" where
  "ring_release i r =
     (case map_of (rg_chans r) i of
        None \<Rightarrow> r
      | Some c \<Rightarrow>
          if ch_stage c \<noteq> Unsubscribed then r
          else r\<lparr>rg_admitted := rg_admitted r - 1, rg_chans := AList.update i (c\<lparr>ch_stage := Released\<rparr>) (rg_chans r)\<rparr>)"

definition ring_Close :: "Ring \<Rightarrow> Ring" where
  "ring_Close r =
     (if rg_closed r then r
      else r\<lparr>rg_closed := True, rg_subs := [],
             rg_chans := map (\<lambda>(i, c). (i, if i \<in> set (rg_subs r) then c\<lparr>ch_drop := True\<rparr> else c)) (rg_chans r)\<rparr>)"

text \<open>The consumer's end: receiving one buffered event, and the stdout goroutine doing so (the
  receiving alternative of its \<open>select\<close>).\<close>

definition ring_receive :: "nat \<Rightarrow> Ring \<Rightarrow> Ring \<times> Event option" where
  "ring_receive i r =
     (case map_of (rg_chans r) i of
        None \<Rightarrow> (r, None)
      | Some c \<Rightarrow>
          (case ch_queue c of
             [] \<Rightarrow> (r, None)
           | e # q \<Rightarrow> (r\<lparr>rg_chans := AList.update i (c\<lparr>ch_queue := q\<rparr>) (rg_chans r)\<rparr>, Some e)))"

definition stdoutStep :: "Ring \<Rightarrow> Ring \<times> Event option" where
  "stdoutStep r =
     (case rg_stdoutCh r of
        Some (sz, e # q) \<Rightarrow> (r\<lparr>rg_stdoutCh := Some (sz, q)\<rparr>, Some e)
      | _ \<Rightarrow> (r, None))"

subsection \<open>Cursors\<close>

definition EncodeCursor :: "uint64 \<Rightarrow> string" where
  "EncodeCursor afterID = (if afterID = 0 then '''' else ''evt_'' @ Itoa (unat afterID))"

definition DecodeCursor :: "string \<Rightarrow> Error + uint64" where
  "DecodeCursor s =
     (if s = '''' then Inr 0
      else if \<not> HasPrefix s ''evt_'' then Inl (NewError CodeInvalidArgument ''invalid event cursor'')
      else case ParseUint (drop 4 s) of
        None \<Rightarrow> Inl (NewError CodeInvalidArgument ''invalid event cursor'')
      | Some n \<Rightarrow> Inr (of_nat n))"

subsection \<open>The buffer is an overwriting log\<close>

definition ring_wf :: "Ring \<Rightarrow> bool" where
  "ring_wf r \<longleftrightarrow> 0 < rg_cap r \<and> length (rg_buf r) = rg_cap r \<and> rg_start r < rg_cap r \<and> rg_n r \<le> rg_cap r \<and>
     (rg_n r < rg_cap r \<longrightarrow> rg_start r = 0)"

lemma ring_at_seq [simp]: "ring_at (r\<lparr>rg_seq := i\<rparr>) = ring_at r"
  by (rule ext) (simp add: ring_at_def)

lemma length_Snapshot [simp]: "length (Snapshot r) = rg_n r"
  by (simp add: Snapshot_def)

lemma Snapshot_nth: "i < rg_n r \<Longrightarrow> Snapshot r ! i = ring_at r i"
  by (simp add: Snapshot_def)

lemma wrap_index: "\<lbrakk>(s::nat) < c; i < c\<rbrakk> \<Longrightarrow> (s + i) mod c = (if s + i < c then s + i else s + i - c)"
  by (simp add: le_mod_geq)

lemma ring_put_wf: "ring_wf r \<Longrightarrow> ring_wf (ring_put e r)"
  by (auto simp: ring_wf_def ring_put_def)

lemma ring_put_Snapshot:
  assumes wf: "ring_wf r"
  shows "Snapshot (ring_put e r) = drop (Suc (rg_n r) - rg_cap r) (Snapshot r @ [e])"
proof (cases "rg_n r = rg_cap r")
  case True
  have "Snapshot (ring_put e r) ! i = (tl (Snapshot r) @ [e]) ! i" if i: "i < rg_cap r" for i
  proof -
    have "Snapshot (ring_put e r) ! i = (rg_buf r)[rg_start r := e] ! ((rg_start r + 1 + i) mod rg_cap r)"
      using True i by (simp add: Snapshot_nth ring_put_def ring_at_def mod_simps)
    also have "\<dots> = (tl (Snapshot r) @ [e]) ! i"
    proof (cases "i = rg_cap r - 1")
      case True
      then have "(rg_start r + 1 + i) mod rg_cap r = rg_start r" using wf by (auto simp: ring_wf_def)
      then show ?thesis using wf True \<open>rg_n r = rg_cap r\<close> by (simp add: ring_wf_def nth_append)
    next
      case False
      then have j: "Suc i < rg_cap r" using i by simp
      then have "(rg_start r + 1 + i) mod rg_cap r \<noteq> rg_start r"
        using wf wrap_index [of "rg_start r" "rg_cap r" "Suc i"] by (auto simp: ring_wf_def split: if_splits)
      then show ?thesis using j True by (simp add: nth_append nth_tl Snapshot_nth ring_at_def)
    qed
    finally show ?thesis .
  qed
  moreover have "rg_n (ring_put e r) = rg_cap r" using True by (simp add: ring_put_def)
  ultimately have "Snapshot (ring_put e r) = tl (Snapshot r) @ [e]"
    using True wf by (intro nth_equalityI) (auto simp: ring_wf_def)
  moreover have "Snapshot r \<noteq> []" using True wf by (auto simp: ring_wf_def simp flip: length_greater_0_conv)
  ultimately show ?thesis using True by (cases "Snapshot r") auto
next
  case False
  then have n: "rg_n r < rg_cap r" "rg_start r = 0" using wf by (auto simp: ring_wf_def)
  have "Snapshot (ring_put e r) ! i = (Snapshot r @ [e]) ! i" if "i < Suc (rg_n r)" for i
    using n that wf by (auto simp: Snapshot_nth ring_put_def ring_at_def nth_append less_Suc_eq ring_wf_def)
  moreover have "rg_n (ring_put e r) = Suc (rg_n r)" using n by (simp add: ring_put_def)
  ultimately show ?thesis using n by (intro nth_equalityI) auto
qed

interpretation rlog: overwrite_log ring_put Snapshot rg_cap ring_wf
proof
  show "rg_cap (ring_put e s) = rg_cap s" for e s by (simp add: ring_put_def)
qed (simp_all add: ring_put_wf ring_put_Snapshot)

subsection \<open>Executions\<close>

datatype ring_op =
    OpAccept int Event | OpReject bool | OpSubscribe int | OpDetach nat | OpRelease nat | OpClose
  | OpReceive nat | OpStdout

text \<open>
  A ring together with what an observer has seen: the log of accepted events, and for every
  subscription the length of the log when it began and the events received from it.
\<close>

record ringTrace =
  tr_ring :: Ring
  tr_log :: "Event list"
  tr_from :: "nat \<Rightarrow> nat"
  tr_got :: "nat \<Rightarrow> Event list"

fun ring_step :: "ring_op \<Rightarrow> ringTrace \<Rightarrow> ringTrace" where
  "ring_step (OpAccept now e) t =
     (let (r, a) = ring_Accept now e (tr_ring t)
      in t\<lparr>tr_ring := r, tr_log := (if rg_reject (tr_ring t) \<or> rg_closed (tr_ring t) then tr_log t else tr_log t @ [a])\<rparr>)"
| "ring_step (OpReject v) t = t\<lparr>tr_ring := SetReject v (tr_ring t)\<rparr>"
| "ring_step (OpSubscribe buf) t =
     (let (r, i) = TrySubscribe buf (tr_ring t)
      in case i of
           None \<Rightarrow> t\<lparr>tr_ring := r\<rparr>
         | Some i \<Rightarrow> t\<lparr>tr_ring := r, tr_from := (tr_from t)(i := length (tr_log t)), tr_got := (tr_got t)(i := [])\<rparr>)"
| "ring_step (OpDetach i) t = t\<lparr>tr_ring := ring_detach i (tr_ring t)\<rparr>"
| "ring_step (OpRelease i) t = t\<lparr>tr_ring := ring_release i (tr_ring t)\<rparr>"
| "ring_step OpClose t = t\<lparr>tr_ring := ring_Close (tr_ring t)\<rparr>"
| "ring_step (OpReceive i) t =
     (let (r, e) = ring_receive i (tr_ring t)
      in t\<lparr>tr_ring := r, tr_got := (tr_got t)(i := tr_got t i @ (case e of None \<Rightarrow> [] | Some e \<Rightarrow> [e]))\<rparr>)"
| "ring_step OpStdout t = t\<lparr>tr_ring := fst (stdoutStep (tr_ring t))\<rparr>"

definition ring_run :: "int \<Rightarrow> int option \<Rightarrow> ring_op list \<Rightarrow> ringTrace" where
  "ring_run capacity stdout ops =
     fold ring_step ops \<lparr>tr_ring = NewRing capacity stdout, tr_log = [], tr_from = (\<lambda>_. 0), tr_got = (\<lambda>_. [])\<rparr>"

definition exported :: "Event list \<Rightarrow> Event list" where
  "exported es = filter (\<lambda>e. \<not> ev_SuppressExport e) es"

subsubsection \<open>The retained window\<close>

definition window_ok :: "ringTrace \<Rightarrow> bool" where
  "window_ok t \<longleftrightarrow> rlog.tails (tr_log t) (tr_ring t) \<and>
     rg_seq (tr_ring t) = of_nat (length (tr_log t)) \<and>
     rg_overwritten (tr_ring t) = of_nat (length (tr_log t) - rg_cap (tr_ring t)) \<and>
     (\<forall>i < length (tr_log t). ev_ID (tr_log t ! i) = of_nat (Suc i))"

text \<open>The fields of the window: everything but \<open>Accept\<close> leaves them alone.\<close>

definition same_window :: "Ring \<Rightarrow> Ring \<Rightarrow> bool" where
  "same_window r r' \<longleftrightarrow> rg_cap r' = rg_cap r \<and> rg_seq r' = rg_seq r \<and> rg_buf r' = rg_buf r \<and>
     rg_start r' = rg_start r \<and> rg_n r' = rg_n r \<and> rg_overwritten r' = rg_overwritten r"

lemma same_window_refl [simp]: "same_window r r"
  by (simp add: same_window_def)

lemma same_window_Snapshot: "same_window r r' \<Longrightarrow> Snapshot r' = Snapshot r \<and> ring_wf r' = ring_wf r"
  by (simp add: same_window_def Snapshot_def ring_at_def ring_wf_def)

lemma same_window_steps [simp]:
  "same_window r (emitStdout e r)" "same_window r (fanoutLocked e r)" "same_window r (SetReject v r)"
  "same_window r (fst (TrySubscribe b r))" "same_window r (ring_detach i r)" "same_window r (ring_release i r)"
  "same_window r (ring_Close r)" "same_window r (fst (ring_receive i r))" "same_window r (fst (stdoutStep r))"
  by (simp_all add: same_window_def emitStdout_def fanoutLocked_def SetReject_def TrySubscribe_def ring_detach_def
      ring_release_def ring_Close_def ring_receive_def stdoutStep_def Let_def split_beta split: option.split list.split)

lemma same_window_trans: "\<lbrakk>same_window r r'; same_window r' r''\<rbrakk> \<Longrightarrow> same_window r r''"
  by (simp add: same_window_def)

lemma window_same: "\<lbrakk>window_ok t; same_window (tr_ring t) (tr_ring t'); tr_log t' = tr_log t\<rbrakk> \<Longrightarrow> window_ok t'"
  using same_window_Snapshot [of "tr_ring t" "tr_ring t'"]
  by (simp add: window_ok_def rlog.tails_def same_window_def)

text \<open>An accepting ring: what \<open>Accept\<close> does to the window and to the subscribers.\<close>

lemma ring_Accept_accepts:
  assumes "\<not> rg_reject r" "\<not> rg_closed r"
  shows "snd (ring_Accept now e r) = stamped now (rg_seq r + 1) e"
    "same_window (ring_put (stamped now (rg_seq r + 1) e) (r\<lparr>rg_seq := rg_seq r + 1\<rparr>)) (fst (ring_Accept now e r))"
  using assms by (auto simp: ring_Accept_def Let_def intro: same_window_trans [OF same_window_steps(1) same_window_steps(2)])

lemma stamped_ID [simp]: "ev_ID (stamped now i e) = i"
  by (simp add: stamped_def Let_def)

lemma window_Accept:
  assumes "window_ok t" "\<not> rg_reject (tr_ring t)" "\<not> rg_closed (tr_ring t)"
  shows "window_ok (ring_step (OpAccept now e) t)"
proof -
  let ?r = "tr_ring t" and ?i = "rg_seq (tr_ring t) + 1"
  let ?e = "stamped now ?i e"
  let ?p = "ring_put ?e (?r\<lparr>rg_seq := ?i\<rparr>)"
  have "rlog.tails (tr_log t) (?r\<lparr>rg_seq := ?i\<rparr>)"
    using assms(1) by (simp add: window_ok_def rlog.tails_def Snapshot_def ring_wf_def)
  then have "rlog.tails (tr_log t @ [?e]) ?p" by (rule rlog.tails_put)
  moreover have "rg_n ?r = min (rg_cap ?r) (length (tr_log t))"
    using assms(1) rlog.tails_length [of "tr_log t" ?r] by (simp add: window_ok_def)
  ultimately have "window_ok (t\<lparr>tr_ring := ?p, tr_log := tr_log t @ [?e]\<rparr>)"
    using assms(1) by (auto simp: window_ok_def ring_put_def nth_append less_Suc_eq Suc_diff_le min_def)
  then show ?thesis
    by (rule window_same) (use ring_Accept_accepts [OF assms(2,3), of now e] assms(2,3) in \<open>simp_all add: split_beta\<close>)
qed

lemma other_step_same:
  assumes "\<And>now e. op \<noteq> OpAccept now e"
  shows "same_window (tr_ring t) (tr_ring (ring_step op t)) \<and> tr_log (ring_step op t) = tr_log t"
proof (cases op)
  case (OpSubscribe b)
  then show ?thesis using same_window_steps(4) [of "tr_ring t" b] by (simp add: split_beta split: option.split)
qed (use assms in \<open>simp_all add: split_beta\<close>)

lemma window_step:
  assumes ok: "window_ok t"
  shows "window_ok (ring_step op t)"
proof (cases "\<exists>now e. op = OpAccept now e")
  case True
  then obtain now e where op: "op = OpAccept now e" by blast
  show ?thesis
  proof (cases "rg_reject (tr_ring t) \<or> rg_closed (tr_ring t)")
    case True
    then show ?thesis using ok by (intro window_same [OF ok]) (auto simp: op ring_Accept_def)
  qed (use ok op window_Accept in simp)
next
  case False
  then show ?thesis using other_step_same [of op t] by (intro window_same [OF ok]) auto
qed

lemma window_run: "window_ok (ring_run capacity stdout ops)"
proof -
  have "window_ok (fold ring_step ops t)" if "window_ok t" for t
    using that by (induction ops arbitrary: t) (simp_all add: window_step)
  moreover have "window_ok \<lparr>tr_ring = NewRing capacity stdout, tr_log = [], tr_from = (\<lambda>_. 0), tr_got = (\<lambda>_. [])\<rparr>"
    by (simp add: window_ok_def rlog.tails_def ring_wf_def NewRing_def Snapshot_def Let_def)
  ultimately show ?thesis by (simp add: ring_run_def)
qed

subsubsection \<open>Pages\<close>

definition selects :: "Query \<Rightarrow> uint64 \<Rightarrow> Event \<Rightarrow> bool" where
  "selects q after e \<longleftrightarrow> after < ev_ID e \<and> \<not> ev_SuppressExport e \<and> Match q e"

definition pageLimit :: "Query \<Rightarrow> nat" where
  "pageLimit q = (if q_Limit q \<le> 0 then 50 else if q_Limit q > 200 then 200 else nat (q_Limit q))"

lemma pageLimit_pos: "0 < pageLimit q"
  by (simp add: pageLimit_def)

lemma ring_Read_limit: "ring_Read q r = readLocked q (int (pageLimit q)) r"
  by (simp add: ring_Read_def pageLimit_def Let_def)

lemma readLoop_take:
  "length out \<le> l \<Longrightarrow> readLoop_ev q (categorySet (q_Categories q)) (int l) evs out =
     out @ take (l - length out) (filter (selects q (q_AfterID q)) evs)"
proof (induction evs arbitrary: out)
  case (Cons ev evs)
  show ?case
  proof (cases "length out < l")
    case True
    then have "l - length out = Suc (l - Suc (length out))" by simp
    then show ?thesis using True Cons by (auto simp: selects_def Match_def not_le)
  qed (use Cons.prems in simp)
qed simp

definition by_ID :: "Event list \<Rightarrow> bool" where
  "by_ID es \<longleftrightarrow> sorted_wrt (\<lambda>a b. ev_ID a < ev_ID b) es"

lemma by_ID_filter: "by_ID es \<Longrightarrow> by_ID (filter P es)"
  by (simp add: by_ID_def sorted_wrt_filter)

lemma by_ID_drop: "by_ID es \<Longrightarrow> by_ID (drop n es)"
  by (simp add: by_ID_def sorted_wrt_drop)

lemma by_ID_after_take:
  assumes "by_ID es" "take n es \<noteq> []"
  shows "filter (\<lambda>e. ev_ID (last (take n es)) < ev_ID e) es = drop n es"
proof -
  let ?a = "take n es" and ?m = "ev_ID (last (take n es))"
  have "by_ID (?a @ drop n es)" using assms(1) by simp
  then have s: "by_ID ?a" "\<forall>x \<in> set ?a. \<forall>y \<in> set (drop n es). ev_ID x < ev_ID y"
    unfolding by_ID_def sorted_wrt_append by auto
  have "\<forall>x \<in> set ?a. \<not> ?m < ev_ID x"
  proof -
    from assms(2) obtain ys y where ys: "?a = ys @ [y]" by (metis rev_exhaust)
    then show ?thesis using s(1) by (auto simp: by_ID_def sorted_wrt_append dest: less_asym)
  qed
  moreover have "\<forall>y \<in> set (drop n es). ?m < ev_ID y" using s(2) assms(2) by simp
  ultimately have "filter (\<lambda>e. ?m < ev_ID e) (?a @ drop n es) = drop n es"
    by (simp only: filter_append filter_True filter_False append_Nil)
  then show ?thesis by simp
qed

lemma selects_later:
  "after \<le> m \<Longrightarrow> filter (selects q m) es = filter (\<lambda>e. m < ev_ID e) (filter (selects q after) es)"
  by (auto simp: selects_def intro!: filter_cong)

text \<open>The page on the retained events \<open>w\<close>, as a reference for \<open>readLocked\<close>.\<close>

lemma readLocked_items:
  assumes "rg_n r \<noteq> 0"
  shows "pg_Items (readLocked q (int l) r) = take l (filter (selects q (q_AfterID q)) (Snapshot r))"
    "pg_NextAfterID (readLocked q (int l) r) =
       (let items = pg_Items (readLocked q (int l) r) in if items = [] then q_AfterID q else ev_ID (last items))"
    "pg_HasMore (readLocked q (int l) r) \<longleftrightarrow>
       filter (selects q (pg_NextAfterID (readLocked q (int l) r))) (Snapshot r) \<noteq> []"
  using assms readLoop_take [of "[]" l q "Snapshot r"]
  by (auto simp: readLocked_def Let_def Snapshot_def list_ex_iff filter_empty_conv selects_def Match_def not_le)

lemma readLocked_next:
  assumes "by_ID (Snapshot r)" "0 < l" "rg_n r \<noteq> 0"
  shows "filter (selects q (pg_NextAfterID (readLocked q (int l) r))) (Snapshot r) =
    drop l (filter (selects q (q_AfterID q)) (Snapshot r))"
proof -
  let ?sel = "filter (selects q (q_AfterID q)) (Snapshot r)"
  show ?thesis
  proof (cases "?sel = []")
    case True
    then show ?thesis using readLocked_items [OF assms(3)] assms(2) by (simp add: Let_def)
  next
    case False
    then have ne: "take l ?sel \<noteq> []" using assms(2) by simp
    let ?m = "ev_ID (last (take l ?sel))"
    have "last (take l ?sel) \<in> set ?sel" using ne by (meson in_set_takeD last_in_set)
    then have "q_AfterID q \<le> ?m" by (auto simp: selects_def)
    then have "filter (selects q ?m) (Snapshot r) = filter (\<lambda>e. ?m < ev_ID e) ?sel" by (rule selects_later)
    also have "\<dots> = drop l ?sel" using by_ID_filter [OF assms(1)] ne by (rule by_ID_after_take)
    finally show ?thesis using readLocked_items [OF assms(3)] ne by (simp add: Let_def)
  qed
qed

lemma log_by_ID:
  assumes "\<forall>i < length log. ev_ID (log ! i) = of_nat (Suc i)" "length log < 2 ^ 64"
  shows "by_ID log"
  unfolding by_ID_def sorted_wrt_iff_nth_less
  using assms by (simp add: word_less_nat_alt unat_of_nat take_bit_nat_eq_self del: of_nat_Suc)

lemma window_count:
  assumes "window_ok t"
  shows "rg_n (tr_ring t) = min (rg_cap (tr_ring t)) (length (tr_log t)) \<and> 0 < rg_cap (tr_ring t)"
proof -
  have "rlog.tails (tr_log t) (tr_ring t)" using assms by (simp add: window_ok_def)
  from rlog.tails_length [OF this] this show ?thesis
    by (simp only: length_Snapshot) (simp add: rlog.tails_def ring_wf_def)
qed

lemma reset_iff:
  assumes "window_ok t" "length (tr_log t) < 2 ^ 64"
  defines "k \<equiv> length (tr_log t) - rg_cap (tr_ring t)"
  shows "pg_Reset (readLocked q l (tr_ring t)) \<longleftrightarrow> q_AfterID q > 0 \<and> (\<exists>e \<in> set (take k (tr_log t)). q_AfterID q < ev_ID e)"
proof (cases "rg_n (tr_ring t) = 0")
  case True
  then have "tr_log t = []" using window_count [OF assms(1)] by (auto simp: min_def split: if_splits)
  then show ?thesis using True by (simp add: readLocked_def Let_def)
next
  case False
  let ?r = "tr_ring t" and ?log = "tr_log t"
  have tl: "rlog.tails ?log ?r" and ids: "\<forall>i < length ?log. ev_ID (?log ! i) = of_nat (Suc i)"
    using assms(1) by (simp_all add: window_ok_def)
  have k: "k < length ?log"
    using False window_count [OF assms(1)] by (auto simp: k_def min_def split: if_splits)
  have "rg_start ?r < rg_cap ?r" using tl by (simp add: rlog.tails_def ring_wf_def)
  then have "rg_buf ?r ! rg_start ?r = Snapshot ?r ! 0" using False by (simp add: Snapshot_nth ring_at_def)
  then have oldest: "ev_ID (rg_buf ?r ! rg_start ?r) = of_nat (Suc k)"
    using False rlog.tails_nth [OF tl, of 0] ids k by (simp add: k_def)
  have small: "Suc k < 2 ^ 64" using k assms(2) by simp
  have "(\<exists>e \<in> set (take k ?log). q_AfterID q < ev_ID e) \<longleftrightarrow> (\<exists>i < k. q_AfterID q < of_nat (Suc i))"
  proof -
    have "set (take k ?log) = (!) ?log ` {0..<k}" using k by (simp add: nth_image)
    then show ?thesis using k ids by (auto simp del: of_nat_Suc)
  qed
  also have "\<dots> \<longleftrightarrow> 0 < k \<and> q_AfterID q < of_nat k"
  proof
    assume "\<exists>i < k. q_AfterID q < of_nat (Suc i)"
    then obtain i where i: "i < k" "q_AfterID q < of_nat (Suc i)" by blast
    have "(of_nat (Suc i) :: uint64) \<le> of_nat k"
      using i(1) small by (simp add: word_le_nat_alt unat_of_nat take_bit_nat_eq_self del: of_nat_Suc)
    then show "0 < k \<and> q_AfterID q < of_nat k" using i by auto
  next
    assume "0 < k \<and> q_AfterID q < of_nat k"
    then show "\<exists>i < k. q_AfterID q < of_nat (Suc i)" by (intro exI [of _ "k - 1"]) simp
  qed
  finally have ev: "(\<exists>e \<in> set (take k ?log). q_AfterID q < ev_ID e) \<longleftrightarrow> 0 < k \<and> q_AfterID q < of_nat k" .
  have one: "(1 :: uint64) < of_nat (Suc k) \<longleftrightarrow> 0 < k"
    using small by (simp add: word_less_nat_alt unat_of_nat take_bit_nat_eq_self del: of_nat_Suc)
  have "pg_Reset (readLocked q l ?r) \<longleftrightarrow> q_AfterID q > 0 \<and> 1 < (of_nat (Suc k) :: uint64) \<and> q_AfterID q < of_nat (Suc k) - 1"
    using False oldest by (simp add: readLocked_def Let_def)
  then show ?thesis unfolding one ev by simp
qed

subsubsection \<open>Fan-out\<close>

text \<open>
  A channel against the log: what was received and what is buffered is a prefix of the exported
  events since the subscription, and all of them as long as it is subscribed and not
  dropped. The ring's list holds exactly those channels.
\<close>

definition chan_ok :: "ringTrace \<Rightarrow> nat \<Rightarrow> Chan \<Rightarrow> bool" where
  "chan_ok t i c \<longleftrightarrow> length (ch_queue c) \<le> ch_buf c \<and> tr_from t i \<le> length (tr_log t) \<and>
     (\<exists>rest. tr_got t i @ ch_queue c @ rest = exported (drop (tr_from t i) (tr_log t))) \<and>
     (ch_stage c = Subscribed \<and> \<not> ch_drop c \<longrightarrow>
        tr_got t i @ ch_queue c = exported (drop (tr_from t i) (tr_log t))) \<and>
     (i \<in> set (rg_subs (tr_ring t)) \<longleftrightarrow> ch_stage c = Subscribed \<and> \<not> ch_drop c)"

definition admitted :: "(nat \<times> Chan) list \<Rightarrow> nat" where
  "admitted chans = length (filter (\<lambda>(i, c). ch_stage c \<noteq> Released) chans)"

definition fan_ok :: "ringTrace \<Rightarrow> bool" where
  "fan_ok t \<longleftrightarrow> map fst (rg_chans (tr_ring t)) = [0..<length (rg_chans (tr_ring t))] \<and>
     distinct (rg_subs (tr_ring t)) \<and> set (rg_subs (tr_ring t)) \<subseteq> fst ` set (rg_chans (tr_ring t)) \<and>
     (rg_closed (tr_ring t) \<longrightarrow> rg_subs (tr_ring t) = []) \<and>
     rg_admitted (tr_ring t) = int (admitted (rg_chans (tr_ring t))) \<and> rg_admitted (tr_ring t) \<le> MaxSubscribers \<and>
     (\<forall>i c. map_of (rg_chans (tr_ring t)) i = Some c \<longrightarrow> chan_ok t i c)"

lemma exported_append [simp]: "exported (xs @ ys) = exported xs @ exported ys"
  by (simp add: exported_def)

text \<open>What the fan-out loop does to each channel.\<close>

lemma fanoutLoop_spec:
  assumes "distinct subs" "set subs \<subseteq> fst ` set chans"
  shows "case fanoutLoop e subs chans of (kept, chans') \<Rightarrow>
    map fst chans' = map fst chans \<and>
    (\<forall>i. map_of chans' i = map_option (\<lambda>c. if i \<in> set subs then fst (trySend e c) else c) (map_of chans i)) \<and>
    distinct kept \<and> set kept = {i \<in> set subs. \<exists>c. map_of chans i = Some c \<and> snd (trySend e c)}"
  using assms
proof (induction subs arbitrary: chans)
  case (Cons s subs)
  then obtain c where c: "map_of chans s = Some c" by (auto simp: map_of_eq_None_iff dest: weak_map_of_SomeI)
  then have "s \<in> fst ` set chans" by (metis domI dom_map_of_conv_image_fst)
  let ?chans = "AList.update s (fst (trySend e c)) chans"
  have keys: "map fst ?chans = map fst chans" using \<open>s \<in> fst ` set chans\<close> by (simp add: update_keys)
  then have "set subs \<subseteq> fst ` set ?chans" using Cons.prems by (metis image_set list.set_intros(2) subset_code(1))
  with Cons.IH [of ?chans] Cons.prems have ih: "case fanoutLoop e subs ?chans of (kept, chans') \<Rightarrow>
    map fst chans' = map fst ?chans \<and>
    (\<forall>i. map_of chans' i = map_option (\<lambda>c. if i \<in> set subs then fst (trySend e c) else c) (map_of ?chans i)) \<and>
    distinct kept \<and> set kept = {i \<in> set subs. \<exists>c. map_of ?chans i = Some c \<and> snd (trySend e c)}"
    by simp
  show ?case using ih c keys Cons.prems(1) by (auto simp: split_beta Let_def update_conv)
qed (auto simp: option.map_ident)

text \<open>The fan-out part of \<open>Accept\<close>.\<close>

definition fan_part :: "Ring \<Rightarrow> nat list \<times> (nat \<times> Chan) list \<times> int \<times> bool" where
  "fan_part r = (rg_subs r, rg_chans r, rg_admitted r, rg_closed r)"

lemma fan_part_same: "fan_part (emitStdout e r) = fan_part r" "fan_part (ring_put e r) = fan_part r"
    "fan_part (SetReject v r) = fan_part r" "fan_part (fst (stdoutStep r)) = fan_part r" "fan_part (r\<lparr>rg_seq := i\<rparr>) = fan_part r"
  by (simp_all add: fan_part_def emitStdout_def ring_put_def SetReject_def stdoutStep_def split_beta split: option.split list.split)

lemma fan_part_Accept:
  assumes "\<not> rg_reject r" "\<not> rg_closed r"
  shows "fan_part (fst (ring_Accept now e r)) = fan_part (fanoutLocked (stamped now (rg_seq r + 1) e) r)"
proof -
  let ?e = "stamped now (rg_seq r + 1) e"
  let ?r = "emitStdout ?e (ring_put ?e (r\<lparr>rg_seq := rg_seq r + 1\<rparr>))"
  have same: "fan_part ?r = fan_part r" by (simp only: fan_part_same)
  have "fan_part (fanoutLocked ?e ?r) = fan_part ?r" if "rg_subs ?r = []"
    using that by (simp add: fan_part_def fanoutLocked_def)
  then have "fan_part (fst (ring_Accept now e r)) = fan_part (fanoutLocked ?e ?r)"
    using assms by (simp add: ring_Accept_def Let_def)
  also have "\<dots> = fan_part (fanoutLocked ?e r)"
    using same by (simp add: fan_part_def fanoutLocked_def split_beta)
  finally show ?thesis .
qed

lemma fan_ok_cong: "\<lbrakk>fan_ok t; fan_part (tr_ring t') = fan_part (tr_ring t); tr_log t' = tr_log t; tr_from t' = tr_from t;
    tr_got t' = tr_got t\<rbrakk> \<Longrightarrow> fan_ok t'"
  by (simp add: fan_ok_def fan_part_def chan_ok_def)

lemma drop_log: "tr_from t i \<le> length (tr_log t) \<Longrightarrow> drop (tr_from t i) (tr_log t @ [e]) = drop (tr_from t i) (tr_log t) @ [e]"
  by simp

lemma admitted_stages:
  "\<lbrakk>map fst chans' = map fst chans; distinct (map fst chans);
    \<And>i. map_option ch_stage (map_of chans' i) = map_option ch_stage (map_of chans i)\<rbrakk> \<Longrightarrow> admitted chans' = admitted chans"
proof (induction chans arbitrary: chans')
  case (Cons p chans)
  from Cons.prems(1) obtain p' ps where p': "chans' = p' # ps" "fst p' = fst p" "map fst ps = map fst chans"
    by (cases chans') auto
  have "map_option ch_stage (map_of ps i) = map_option ch_stage (map_of chans i)" for i
  proof (cases "i = fst p")
    case True
    then have "i \<notin> fst ` set chans" "i \<notin> fst ` set ps" using Cons.prems(2) p'(3) by (auto simp flip: set_map)
    then show ?thesis by (simp add: map_of_eq_None_iff [THEN iffD2])
  next
    case False
    then show ?thesis using Cons.prems(3) [of i] p' by (cases p; cases p') auto
  qed
  then have "admitted ps = admitted chans" using Cons.IH [of ps] p'(3) Cons.prems(2) by simp
  moreover have "ch_stage (snd p') = ch_stage (snd p)" using Cons.prems(3) [of "fst p"] p' by (cases p; cases p') auto
  ultimately show ?case by (simp add: p'(1) admitted_def split_beta)
qed simp

lemma trySend_stage [simp]: "ch_stage (fst (trySend e c)) = ch_stage c"
  by (simp add: trySend_def)

lemma chan_ok_log:
  assumes ok: "chan_ok t i c" and log: "tr_log t' = tr_log t @ [e]" "tr_from t' = tr_from t" "tr_got t' = tr_got t"
    and exp: "\<not> ev_SuppressExport e"
    and kept: "i \<in> set (rg_subs (tr_ring t')) \<longleftrightarrow> i \<in> set (rg_subs (tr_ring t)) \<and> snd (trySend e c)"
  shows "chan_ok t' i (if i \<in> set (rg_subs (tr_ring t)) then fst (trySend e c) else c)"
proof -
  have tail: "exported (drop (tr_from t' i) (tr_log t')) = exported (drop (tr_from t i) (tr_log t)) @ [e]"
    using ok log exp by (simp add: chan_ok_def exported_def)
  show ?thesis
  proof (cases "i \<in> set (rg_subs (tr_ring t))")
    case True
    then have all: "tr_got t i @ ch_queue c = exported (drop (tr_from t i) (tr_log t))"
      and c: "ch_stage c = Subscribed" "\<not> ch_drop c"
      using ok by (simp_all add: chan_ok_def)
    have "tr_got t' i @ ch_queue c @ [e] = exported (drop (tr_from t' i) (tr_log t'))"
      unfolding tail all [symmetric] using log by simp
    then show ?thesis
      using True ok kept log c unfolding chan_ok_def trySend_def by auto
  next
    case False
    then have "\<not> (ch_stage c = Subscribed \<and> \<not> ch_drop c)" using ok by (simp add: chan_ok_def)
    moreover obtain rest where "tr_got t i @ ch_queue c @ rest = exported (drop (tr_from t i) (tr_log t))"
      using ok by (auto simp: chan_ok_def)
    then have "tr_got t' i @ ch_queue c @ (rest @ [e]) = exported (drop (tr_from t' i) (tr_log t'))"
      using tail log by simp
    ultimately show ?thesis using False ok kept log unfolding chan_ok_def by auto
  qed
qed

lemma chan_ok_suppressed:
  assumes "chan_ok t i c" "tr_log t' = tr_log t @ [e]" "tr_from t' = tr_from t" "tr_got t' = tr_got t"
    "ev_SuppressExport e" "rg_subs (tr_ring t') = rg_subs (tr_ring t)"
  shows "chan_ok t' i c"
  using assms by (simp add: chan_ok_def exported_def)

lemma fan_ok_send:
  assumes ok: "fan_ok t" and op: "\<not> rg_closed (tr_ring t)"
    and log: "tr_log t' = tr_log t @ [e]" "tr_from t' = tr_from t" "tr_got t' = tr_got t"
    and part: "fan_part (tr_ring t') = fan_part (fanoutLocked e (tr_ring t))"
  shows "fan_ok t'"
proof (cases "ev_SuppressExport e")
  case True
  then have "fan_part (tr_ring t') = fan_part (tr_ring t)" using part by (simp add: fanoutLocked_def)
  then show ?thesis
    using ok chan_ok_suppressed [OF _ log True] unfolding fan_ok_def fan_part_def by simp
next
  case False
  let ?r = "tr_ring t"
  have sub: "distinct (rg_subs ?r)" "set (rg_subs ?r) \<subseteq> fst ` set (rg_chans ?r)"
    using ok by (simp_all add: fan_ok_def)
  obtain kept chans where f: "fanoutLoop e (rg_subs ?r) (rg_chans ?r) = (kept, chans)" by fastforce
  note spec = fanoutLoop_spec [OF sub, of e, unfolded f, simplified]
  have fields: "rg_subs (tr_ring t') = kept" "rg_chans (tr_ring t') = chans" "rg_admitted (tr_ring t') = rg_admitted ?r"
      "rg_closed (tr_ring t') = rg_closed ?r"
    using part False f by (simp_all add: fanoutLocked_def fan_part_def)
  have "chan_ok t' i c'" if c': "map_of chans i = Some c'" for i c'
  proof -
    from c' spec obtain c where c: "map_of (rg_chans ?r) i = Some c"
        "c' = (if i \<in> set (rg_subs ?r) then fst (trySend e c) else c)" by auto
    then have "chan_ok t i c" using ok by (simp add: fan_ok_def)
    moreover have "i \<in> set (rg_subs (tr_ring t')) \<longleftrightarrow> i \<in> set (rg_subs ?r) \<and> snd (trySend e c)"
      using spec c(1) fields(1) by auto
    ultimately show ?thesis using chan_ok_log [OF _ log False] c(2) by simp
  qed
  moreover have "admitted chans = admitted (rg_chans ?r)"
    using spec ok by (intro admitted_stages) (auto simp: fan_ok_def option.map_comp comp_def intro!: option.map_cong)
  moreover have "length chans = length (rg_chans ?r)" using spec by (metis length_map)
  moreover have "set kept \<subseteq> fst ` set chans"
    using spec sub(2) by (metis (no_types, lifting) image_set mem_Collect_eq subset_iff)
  ultimately show ?thesis using ok spec op fields unfolding fan_ok_def by simp
qed

lemma fan_ok_Accept:
  assumes ok: "fan_ok t" and acc: "\<not> rg_reject (tr_ring t)" "\<not> rg_closed (tr_ring t)"
  shows "fan_ok (ring_step (OpAccept now e) t)"
  by (rule fan_ok_send [OF ok acc(2)])
     (use fan_part_Accept [OF acc] ring_Accept_accepts(1) [OF acc] acc in \<open>simp_all add: split_beta\<close>)

text \<open>Steps that update one channel in place.\<close>

lemma fan_ok_update:
  assumes ok: "fan_ok t" and c: "map_of (rg_chans (tr_ring t)) i = Some c"
    and r: "rg_chans (tr_ring t') = AList.update i c' (rg_chans (tr_ring t))" "rg_closed (tr_ring t') = rg_closed (tr_ring t)"
      "distinct (rg_subs (tr_ring t'))" "set (rg_subs (tr_ring t')) - {i} = set (rg_subs (tr_ring t)) - {i}"
      "set (rg_subs (tr_ring t')) \<subseteq> set (rg_subs (tr_ring t))"
    and adm: "rg_admitted (tr_ring t') = int (admitted (AList.update i c' (rg_chans (tr_ring t))))"
      "rg_admitted (tr_ring t') \<le> rg_admitted (tr_ring t)"
    and log: "tr_log t' = tr_log t" "tr_from t' = tr_from t" "\<And>j. j \<noteq> i \<Longrightarrow> tr_got t' j = tr_got t j"
    and new: "chan_ok t i c \<Longrightarrow> chan_ok t' i c'"
  shows "fan_ok t'"
proof -
  have keys: "map fst (AList.update i c' (rg_chans (tr_ring t))) = map fst (rg_chans (tr_ring t))"
    using c by (auto simp: update_keys dom_map_of_conv_image_fst [symmetric])
  then have len: "length (AList.update i c' (rg_chans (tr_ring t))) = length (rg_chans (tr_ring t))" by (metis length_map)
  have "chan_ok t' j d" if "map_of (rg_chans (tr_ring t')) j = Some d" for j d
  proof (cases "j = i")
    case True
    then show ?thesis using that r(1) new ok c by (simp add: update_conv fan_ok_def)
  next
    case False
    then have "chan_ok t j d" using that r(1) ok by (simp add: update_conv fan_ok_def)
    moreover have "j \<in> set (rg_subs (tr_ring t')) \<longleftrightarrow> j \<in> set (rg_subs (tr_ring t))" using r(4) False by blast
    ultimately show ?thesis using log False by (simp add: chan_ok_def)
  qed
  moreover have "rg_subs (tr_ring t') = []" if "rg_closed (tr_ring t')" using that r ok by (simp add: fan_ok_def)
  moreover have "set (rg_subs (tr_ring t')) \<subseteq> fst ` set (rg_chans (tr_ring t'))"
    using r(1,5) ok keys unfolding fan_ok_def by (metis image_set order_trans)
  ultimately show ?thesis using ok r adm keys len unfolding fan_ok_def by simp
qed

lemma admitted_update:
  assumes "distinct (map fst chans)" "map_of chans i = Some c"
  shows "int (admitted (AList.update i c' chans)) =
    int (admitted chans) - of_bool (ch_stage c \<noteq> Released) + of_bool (ch_stage c' \<noteq> Released)"
  using assms
proof (induction chans)
  case (Cons p chans)
  show ?case
  proof (cases "fst p = i")
    case True
    then show ?thesis using Cons.prems by (cases p) (auto simp: admitted_def)
  next
    case False
    then show ?thesis using Cons by (cases p) (auto simp: admitted_def)
  qed
qed simp

lemma fan_ok_distinct: "fan_ok t \<Longrightarrow> distinct (map fst (rg_chans (tr_ring t)))"
  by (simp add: fan_ok_def)

lemma fan_ok_detach: "fan_ok t \<Longrightarrow> fan_ok (ring_step (OpDetach i) t)"
proof (cases "\<exists>c. map_of (rg_chans (tr_ring t)) i = Some c \<and> ch_stage c = Subscribed")
  case True
  assume ok: "fan_ok t"
  from True obtain c where c: "map_of (rg_chans (tr_ring t)) i = Some c" "ch_stage c = Subscribed" by blast
  have d: "distinct (rg_subs (tr_ring t))" using ok by (simp add: fan_ok_def)
  show ?thesis
    by (rule fan_ok_update [OF ok c(1), where c' = "c\<lparr>ch_stage := Unsubscribed\<rparr>"])
       (use ok c d admitted_update [OF fan_ok_distinct [OF ok] c(1), of "c\<lparr>ch_stage := Unsubscribed\<rparr>"]
        in \<open>auto simp: ring_detach_def chan_ok_def fan_ok_def set_remove1_eq distinct_remove1\<close>)
next
  case False
  assume "fan_ok t"
  then show ?thesis using False by (auto simp: ring_detach_def split: option.split)
qed

lemma fan_ok_release: "fan_ok t \<Longrightarrow> fan_ok (ring_step (OpRelease i) t)"
proof (cases "\<exists>c. map_of (rg_chans (tr_ring t)) i = Some c \<and> ch_stage c = Unsubscribed")
  case True
  assume ok: "fan_ok t"
  from True obtain c where c: "map_of (rg_chans (tr_ring t)) i = Some c" "ch_stage c = Unsubscribed" by blast
  show ?thesis
    by (rule fan_ok_update [OF ok c(1), where c' = "c\<lparr>ch_stage := Released\<rparr>"])
       (use ok c admitted_update [OF fan_ok_distinct [OF ok] c(1), of "c\<lparr>ch_stage := Released\<rparr>"]
        in \<open>auto simp: ring_release_def chan_ok_def fan_ok_def\<close>)
next
  case False
  assume "fan_ok t"
  then show ?thesis using False by (auto simp: ring_release_def split: option.split)
qed

lemma fan_ok_receive: "fan_ok t \<Longrightarrow> fan_ok (ring_step (OpReceive i) t)"
proof (cases "\<exists>c e q. map_of (rg_chans (tr_ring t)) i = Some c \<and> ch_queue c = e # q")
  case True
  assume ok: "fan_ok t"
  from True obtain c e q where c: "map_of (rg_chans (tr_ring t)) i = Some c" "ch_queue c = e # q" by blast
  show ?thesis
    by (rule fan_ok_update [OF ok c(1), where c' = "c\<lparr>ch_queue := q\<rparr>"])
       (use ok c admitted_update [OF fan_ok_distinct [OF ok] c(1), of "c\<lparr>ch_queue := q\<rparr>"]
        in \<open>auto simp: ring_receive_def chan_ok_def fan_ok_def\<close>)
next
  case False
  assume "fan_ok t"
  moreover have "ring_receive i (tr_ring t) = (tr_ring t, None)"
    using False by (auto simp: ring_receive_def split: option.split list.split)
  ultimately show ?thesis by simp
qed

lemma fan_ok_subscribe: "fan_ok t \<Longrightarrow> fan_ok (ring_step (OpSubscribe b) t)"
proof (cases "rg_closed (tr_ring t) \<or> rg_admitted (tr_ring t) \<ge> MaxSubscribers")
  case False
  let ?r = "tr_ring t" and ?n = "length (rg_chans (tr_ring t))"
  assume ok: "fan_ok t"
  then have fresh: "?n \<notin> fst ` set (rg_chans ?r)" "?n \<notin> set (rg_subs ?r)"
    unfolding fan_ok_def by (metis atLeastLessThan_iff image_set less_irrefl set_upt subset_iff)+
  then have "map_of (rg_chans ?r) ?n = None" by (simp add: map_of_eq_None_iff)
  moreover have "chan_ok t j c" "j \<noteq> ?n" if "map_of (rg_chans ?r) j = Some c" for j c
    using that ok fresh by (auto simp: fan_ok_def dest: map_of_SomeD image_eqI [where f = fst, rotated])
  ultimately show ?thesis
    using ok False fresh
    by (auto simp: TrySubscribe_def Let_def fan_ok_def chan_ok_def admitted_def map_add_def exported_def split: option.splits)
qed (auto simp: TrySubscribe_def Let_def)

lemma fan_ok_close: "fan_ok t \<Longrightarrow> fan_ok (ring_step OpClose t)"
proof (cases "rg_closed (tr_ring t)")
  case False
  let ?f = "\<lambda>i c. if i \<in> set (rg_subs (tr_ring t)) then c\<lparr>ch_drop := True\<rparr> else c"
  assume ok: "fan_ok t"
  have look: "map_of (map (\<lambda>(i, c). (i, ?f i c)) chans) j = map_option (?f j) (map_of chans j)" for chans j
    by (induction chans) auto
  have adm: "admitted (map (\<lambda>(i, c). (i, ?f i c)) chans) = admitted chans" for chans
    by (induction chans) (simp_all add: admitted_def split_beta)
  have keys: "map (fst \<circ> (\<lambda>(i, c). (i, ?f i c))) chans = map fst chans" for chans
    by (induction chans) auto
  let ?t = "ring_step OpClose t"
  have r: "rg_chans (tr_ring ?t) = map (\<lambda>(i, c). (i, ?f i c)) (rg_chans (tr_ring t))" "rg_subs (tr_ring ?t) = []"
      "rg_admitted (tr_ring ?t) = rg_admitted (tr_ring t)" "tr_log ?t = tr_log t" "tr_from ?t = tr_from t" "tr_got ?t = tr_got t"
    using False by (simp_all add: ring_Close_def)
  have "chan_ok ?t j d" if d: "map_of (rg_chans (tr_ring ?t)) j = Some d" for j d
  proof -
    obtain c where c: "map_of (rg_chans (tr_ring t)) j = Some c" "d = ?f j c"
      using d unfolding r(1) look by blast
    have "chan_ok t j c" using c(1) ok by (simp add: fan_ok_def)
    then show ?thesis using c(2) r(2,4,5,6) unfolding chan_ok_def by (cases "j \<in> set (rg_subs (tr_ring t))") auto
  qed
  then show ?thesis using ok r(2,3) unfolding fan_ok_def r(1) by (simp add: adm keys)
qed (simp add: ring_Close_def)

lemma fan_ok_step: "fan_ok t \<Longrightarrow> fan_ok (ring_step op t)"
proof (cases op)
  case (OpAccept now e)
  assume ok: "fan_ok t"
  show ?thesis
  proof (cases "rg_reject (tr_ring t) \<or> rg_closed (tr_ring t)")
    case True
    then have "ring_step op t = t" using OpAccept by (auto simp: ring_Accept_def)
    then show ?thesis using ok by simp
  qed (use ok OpAccept fan_ok_Accept in blast)
qed (auto intro: fan_ok_cong simp: fan_part_same fan_ok_subscribe fan_ok_detach fan_ok_release fan_ok_close fan_ok_receive
    simp del: ring_step.simps(3,4,5,6,7))

lemma fan_run: "fan_ok (ring_run capacity stdout ops)"
proof -
  have "fan_ok (fold ring_step ops t)" if "fan_ok t" for t
    using that by (induction ops arbitrary: t) (simp_all add: fan_ok_step)
  moreover have "fan_ok \<lparr>tr_ring = NewRing capacity stdout, tr_log = [], tr_from = (\<lambda>_. 0), tr_got = (\<lambda>_. [])\<rparr>"
    by (simp add: fan_ok_def NewRing_def Let_def admitted_def)
  ultimately show ?thesis by (simp add: ring_run_def)
qed

subsection \<open>Properties\<close>

text \<open>
  Property C20. After every interleaving of operations the ring shows exactly the last events it
  accepted: with the log of all accepted events, the snapshot is the log's last \<open>cap\<close>
  entries in order, \<open>Len\<close> is their number, \<open>Latest\<close> is the last of them, the identifier of
  the \<open>i\<close>-th accepted event is \<open>i\<close> (from 1, modulo 2 to the 64) and the overwrite counter is
  the number of accepted events that are no longer shown. An event is refused exactly when
  the ring rejects or is closed, and then nothing changes.
\<close>

theorem ring_refines_log:
  assumes "t = ring_run capacity stdout ops" "log = tr_log t" "r = tr_ring t"
  shows "Snapshot r = drop (length log - rg_cap r) log \<and>
    ring_Len r = min (rg_cap r) (length log) \<and>
    Latest r = (if log = [] then None else Some (last log)) \<and>
    map ev_ID log = map of_nat [1..<Suc (length log)] \<and>
    rg_overwritten r = of_nat (length log - ring_Len r) \<and>
    (rg_reject r \<or> rg_closed r \<longrightarrow> ring_Accept now e r = (r, zeroEvent)) \<and>
    (\<not> rg_reject r \<and> \<not> rg_closed r \<longrightarrow>
       tr_log (ring_step (OpAccept now e) t) = log @ [snd (ring_Accept now e r)])"
proof (intro conjI impI)
  have ok: "window_ok t" by (simp add: assms(1) window_run)
  then have tl: "rlog.tails log r" using assms by (simp add: window_ok_def)
  show snap: "Snapshot r = drop (length log - rg_cap r) log" using tl by (simp add: rlog.tails_def)
  show len: "ring_Len r = min (rg_cap r) (length log)"
    using rlog.tails_length [OF tl] by (simp add: ring_Len_def)
  have n: "rg_n r = min (rg_cap r) (length log)" using len by (simp add: ring_Len_def)
  have pos: "0 < rg_cap r" using tl by (simp add: rlog.tails_def ring_wf_def)
  show "Latest r = (if log = [] then None else Some (last log))"
  proof (cases "log = []")
    case False
    then have "0 < rg_n r" using n pos by simp
    then have "rg_buf r ! ((rg_start r + rg_n r - 1) mod rg_cap r) = Snapshot r ! (rg_n r - 1)"
      by (simp add: Snapshot_nth ring_at_def)
    also have "\<dots> = last (Snapshot r)" using \<open>0 < rg_n r\<close> by (simp add: last_conv_nth flip: length_0_conv)
    finally show ?thesis using False \<open>0 < rg_n r\<close> rlog.tails_last [OF tl] pos by (simp add: Latest_def)
  qed (simp add: Latest_def n)
  show "map ev_ID log = map of_nat [1..<Suc (length log)]"
    using ok assms by (intro nth_equalityI) (auto simp: window_ok_def simp del: upt_Suc)
  show "rg_overwritten r = of_nat (length log - ring_Len r)"
    using ok assms len by (auto simp: window_ok_def min_def)
  show "ring_Accept now e r = (r, zeroEvent)" if "rg_reject r \<or> rg_closed r"
    using that by (auto simp: ring_Accept_def)
  show "tr_log (ring_step (OpAccept now e) t) = log @ [snd (ring_Accept now e r)]" if "\<not> rg_reject r \<and> \<not> rg_closed r"
    using that assms by (simp add: split_beta)
qed

text \<open>
  Cursor pages enumerate the matching events without gap or repetition. While fewer
  than 2 to the 64 events were accepted, a page of a reachable ring holds the first events
  after the cursor that match the query and may be exported, at most the page limit (1 to
  200, 50 by default); reading on from \<open>NextAfterID\<close> selects exactly the remaining ones,
  \<open>HasMore\<close> says whether there are any, and \<open>Reset\<close> is set exactly when the cursor is set
  and an accepted event after it has been overwritten.
\<close>

theorem ring_pages:
  assumes "t = ring_run capacity stdout ops" "log = tr_log t" "length log < 2 ^ 64" "log \<noteq> []"
    and "sel = (\<lambda>after. filter (selects q after) (drop (length log - rg_cap (tr_ring t)) log))"
    and "page = ring_Read q (tr_ring t)"
  shows "pg_Items page = take (pageLimit q) (sel (q_AfterID q)) \<and>
    sel (pg_NextAfterID page) = drop (pageLimit q) (sel (q_AfterID q)) \<and>
    pg_HasMore page = (length (sel (q_AfterID q)) > pageLimit q) \<and>
    pg_Reset page = (q_AfterID q > 0 \<and>
      (\<exists>e \<in> set (take (length log - rg_cap (tr_ring t)) log). q_AfterID q < ev_ID e))"
proof -
  have ok: "window_ok t" by (simp add: assms(1) window_run)
  then have tl: "rlog.tails log (tr_ring t)" using assms by (simp add: window_ok_def)
  then have snap: "Snapshot (tr_ring t) = drop (length log - rg_cap (tr_ring t)) log" by (simp add: rlog.tails_def)
  have n: "rg_n (tr_ring t) \<noteq> 0"
    using window_count [OF ok] assms(2,4) by simp
  have "by_ID log" using ok assms by (intro log_by_ID) (simp_all add: window_ok_def)
  then have sorted: "by_ID (Snapshot (tr_ring t))" unfolding snap by (rule by_ID_drop)
  note items = readLocked_items [OF n, where l = "pageLimit q" and q = q] readLocked_next [OF sorted pageLimit_pos n, where q = q]
  have sel: "sel after = filter (selects q after) (Snapshot (tr_ring t))" for after by (simp add: assms(5) snap)
  have "pg_HasMore page \<longleftrightarrow> drop (pageLimit q) (sel (q_AfterID q)) \<noteq> []"
    unfolding sel assms(6) ring_Read_limit using items(3,4) by simp
  moreover have "pg_Reset page \<longleftrightarrow> q_AfterID q > 0 \<and>
      (\<exists>e \<in> set (take (length log - rg_cap (tr_ring t)) log). q_AfterID q < ev_ID e)"
    unfolding assms(2,6) ring_Read_limit by (rule reset_iff [OF ok]) (use assms(2,3) in simp)
  ultimately show ?thesis
    unfolding sel assms(6) ring_Read_limit using items(1,4) by (simp add: not_le)
qed

text \<open>
  Property C21. Fan-out is bounded and gapless. After every interleaving, at most 128 subscriptions
  are admitted; of every subscription, what its consumer received followed by what is
  buffered is, in order, a prefix of the exportable events accepted since it began, within
  its buffer; and it is all of them as long as the subscription is neither cancelled nor
  signalled as dropped, in which case it is also still attached.
\<close>

theorem ring_fanout_gapless:
  assumes "t = ring_run capacity stdout ops" "map_of (rg_chans (tr_ring t)) i = Some c"
    and "since = exported (drop (tr_from t i) (tr_log t))"
  shows "rg_admitted (tr_ring t) \<le> 128 \<and> length (ch_queue c) \<le> ch_buf c \<and>
    (\<exists>later. since = (tr_got t i @ ch_queue c) @ later) \<and>
    (ch_stage c = Subscribed \<and> \<not> ch_drop c \<longrightarrow>
       tr_got t i @ ch_queue c = since \<and> i \<in> set (rg_subs (tr_ring t)))"
proof -
  have ok: "fan_ok t" by (simp add: assms(1) fan_run)
  then have "chan_ok t i c" using assms(2) by (simp add: fan_ok_def)
  moreover from this obtain rest where "tr_got t i @ ch_queue c @ rest = since"
    unfolding chan_ok_def assms(3) by blast
  then have "since = (tr_got t i @ ch_queue c) @ rest" by simp
  ultimately show ?thesis using ok unfolding chan_ok_def fan_ok_def assms(3) by blast
qed

definition wit_event :: Event where
  "wit_event = zeroEvent\<lparr>ev_Category := ''acct''\<rparr>"

definition wit_ops :: "ring_op list" where
  "wit_ops = [OpAccept 5 wit_event, OpSubscribe 4, OpAccept 6 wit_event, OpAccept 7 wit_event, OpReceive 0]"

definition wit_query :: Query where
  "wit_query = \<lparr>q_AfterID = 0, q_Limit = 1, q_Categories = [''acct''], q_Protocol = '''', q_ListenerRole = '''',
     q_PacketCode = '''', q_Outcome = ''''\<rparr>"

lemma wit_run: "tr_log (ring_run 2 None wit_ops) = [stamped 5 1 wit_event, stamped 6 2 wit_event, stamped 7 3 wit_event]"
    "rg_cap (tr_ring (ring_run 2 None wit_ops)) = 2" "\<not> rg_reject (tr_ring (ring_run 2 None wit_ops))"
    "\<not> rg_closed (tr_ring (ring_run 2 None wit_ops))"
  by code_simp+

theorem ring_refines_log_witness:
  "Snapshot (tr_ring (ring_run 2 None wit_ops)) = [stamped 6 2 wit_event, stamped 7 3 wit_event]"
  using ring_refines_log [of _ 2 None wit_ops _ _ 8 wit_event, OF refl refl refl] unfolding wit_run by simp

theorem ring_pages_witness:
  "pg_Items (ring_Read wit_query (tr_ring (ring_run 2 None wit_ops))) = [stamped 6 2 wit_event] \<and>
   pg_HasMore (ring_Read wit_query (tr_ring (ring_run 2 None wit_ops)))"
proof -
  have sel: "filter (selects wit_query (q_AfterID wit_query)) [stamped 6 2 wit_event, stamped 7 3 wit_event] =
      [stamped 6 2 wit_event, stamped 7 3 wit_event]" "pageLimit wit_query = 1"
    by code_simp+
  from ring_pages [of _ 2 None wit_ops _ _ wit_query, OF refl refl _ _ refl refl] show ?thesis
    unfolding wit_run using sel by simp
qed

theorem ring_fanout_gapless_witness:
  "tr_got (ring_run 2 None wit_ops) 0 @ [stamped 7 3 wit_event] = [stamped 6 2 wit_event, stamped 7 3 wit_event]"
proof -
  have c: "map_of (rg_chans (tr_ring (ring_run 2 None wit_ops))) 0 =
      Some \<lparr>ch_buf = 2, ch_queue = [stamped 7 3 wit_event], ch_drop = False, ch_stage = Subscribed\<rparr>"
    "exported (drop (tr_from (ring_run 2 None wit_ops) 0) (tr_log (ring_run 2 None wit_ops))) =
      [stamped 6 2 wit_event, stamped 7 3 wit_event]"
    by code_simp+
  show ?thesis using ring_fanout_gapless [OF refl c(1) refl] unfolding c(2) by simp
qed

text \<open>
  Cursors round-trip: decoding an encoded cursor gives back the identifier for every
  64-bit identifier; a text is refused exactly when it is not empty and is not the prefix
  \<open>evt_\<close> followed by decimal digits of a 64-bit number.
\<close>

theorem cursor_round_trip:
  "DecodeCursor (EncodeCursor n) = Inr n \<and>
   ((\<exists>e. DecodeCursor s = Inl e) \<longleftrightarrow>
      s \<noteq> '''' \<and> (\<forall>ds. s = ''evt_'' @ ds \<longrightarrow> ds = '''' \<or> \<not> list_all isDigit ds \<or> decValue ds \<ge> 2 ^ 64))"
proof
  have "unat n < 2 ^ 64" using unsigned_less [of n] by simp
  then show "DecodeCursor (EncodeCursor n) = Inr n"
    using Itoa_digits [of "unat n"]
    by (simp add: DecodeCursor_def EncodeCursor_def ParseUint_def HasPrefix_def)
  show "(\<exists>e. DecodeCursor s = Inl e) \<longleftrightarrow>
      s \<noteq> '''' \<and> (\<forall>ds. s = ''evt_'' @ ds \<longrightarrow> ds = '''' \<or> \<not> list_all isDigit ds \<or> decValue ds \<ge> 2 ^ 64)"
  proof (cases "HasPrefix s ''evt_''")
    case True
    then obtain ds where "s = ''evt_'' @ ds" by (auto simp: HasPrefix_split)
    then show ?thesis by (auto simp: DecodeCursor_def ParseUint_def HasPrefix_def not_less)
  next
    case False
    then show ?thesis by (auto simp: DecodeCursor_def HasPrefix_split)
  qed
qed

theorem cursor_round_trip_witness:
  "DecodeCursor (EncodeCursor 12) = Inr 12 \<and> (\<exists>e. DecodeCursor ''evt_x'' = Inl e)"
proof -
  have "\<not> list_all isDigit ''x''" by code_simp
  then show ?thesis using cursor_round_trip [of 12 "''evt_x''"] by auto
qed

end
