(* ===== verification/Session_Index.thy ===== *)
theory Session_Index
  imports Assoc_Table Domain_AVPair Go_Netip
begin

text \<open>
  The accounting session index (\<open>internal/radius/runtime/session_index.go\<close>, \<open>ulid.go\<close>): the
  table of live sessions that dynamic authorization consults, reachable by accounting
  identity and by opaque handle. A \<open>netip.Addr\<close> is \<open>None\<close> when it is not valid, a time is
  \<open>None\<close> when it is the zero time; clock readings are arguments, in the order the code takes
  them. The entropy reader is the list of octets it still has. Each method holds the mutex.
\<close>

abbreviation (input) EventStart :: string where "EventStart \<equiv> ''start''"
abbreviation (input) EventStop :: string where "EventStop \<equiv> ''stop''"
abbreviation (input) EventInterim :: string where "EventInterim \<equiv> ''interim_update''"
abbreviation (input) EventOn :: string where "EventOn \<equiv> ''accounting_on''"
abbreviation (input) EventOff :: string where "EventOff \<equiv> ''accounting_off''"

record SessionKey =
  sk_EndpointID :: string
  sk_AcctSessionID :: string

record LastCoA =
  lc_SessionTimeout :: "uint32 option"
  lc_IdleTimeout :: "uint32 option"
  lc_ReplyMessage :: "string list"

record SessionRecord =
  sr_Key :: SessionKey
  sr_Handle :: string
  sr_ClientID :: string
  sr_EndpointID :: string
  sr_UserID :: string
  sr_NASIP :: Addr
  sr_NASIdentifier :: string
  sr_NASPort :: uint32
  sr_Peer :: AddrPort
  sr_Class :: bytes
  sr_StartedAt :: "int option"
  sr_LastUpdate :: int
  sr_Revision :: uint64
  sr_LastCoA :: LastCoA

record DASQuery =
  das_ClientID :: string
  das_SessionID :: string
  das_UserID :: string
  das_NASIP :: Addr
  das_NASIdentifier :: string

record AcctEvent =
  ae_Kind :: string
  ae_EndpointID :: string
  ae_ClientID :: string
  ae_UserID :: string
  ae_SessionID :: string
  ae_NASIP :: Addr
  ae_NASIdentifier :: string
  ae_NASPort :: uint32
  ae_Peer :: AddrPort
  ae_Class :: bytes
  ae_StartedAt :: "int option"
  ae_Revision :: uint64

record SessionIndex =
  ix_maxEntries :: int
  ix_maxBytes :: int
  ix_ttl :: int
  ix_entropy :: bytes
  ix_byKey :: "(SessionKey \<times> string) list"
  ix_byHandle :: "(string \<times> SessionRecord) list"
  ix_bytes :: int

definition NewSessionIndex :: "int \<Rightarrow> int \<Rightarrow> int \<Rightarrow> bytes option \<Rightarrow> Error + SessionIndex" where
  "NewSessionIndex maxEntries maxBytes ttl entropy =
     (if maxEntries \<le> 0 \<or> maxBytes \<le> 0 \<or> ttl \<le> 0
        then Inl (NewError CodeInvalidArgument ''session index requires entries, bytes, and ttl caps'')
      else case entropy of
        None \<Rightarrow> Inl (NewError CodeInvalidArgument ''session index entropy is required'')
      | Some ent \<Rightarrow> Inr \<lparr>ix_maxEntries = maxEntries, ix_maxBytes = maxBytes, ix_ttl = ttl, ix_entropy = ent,
                         ix_byKey = [], ix_byHandle = [], ix_bytes = 0\<rparr>)"

definition record_size :: "SessionRecord \<Rightarrow> nat" where
  "record_size r = 192 + length (sk_EndpointID (sr_Key r)) + length (sk_AcctSessionID (sr_Key r))
     + length (sr_Handle r) + length (sr_ClientID r) + length (sr_UserID r) + length (sr_NASIdentifier r)
     + length (sr_Class r) + sum_list (map length (lc_ReplyMessage (sr_LastCoA r)))"

subsection \<open>Handles\<close>

definition crockford :: string where
  "crockford = ''0123456789ABCDEFGHJKMNPQRSTVWXYZ''"

text \<open>
  One output character of \<open>encodeCrockford\<close>: the inner loop shifts octets in until five bits
  are there (at most twice, as an octet has eight), the tail is padded with zero bits.
\<close>

fun refill :: "uint64 \<Rightarrow> nat \<Rightarrow> bytes \<Rightarrow> uint64 \<times> nat \<times> bytes" where
  "refill acc nbits [] = (if nbits < 5 then (push_bit (5 - nbits) acc, 5, []) else (acc, nbits, []))"
| "refill acc nbits (b # src) =
     (if nbits < 5 then refill (push_bit 8 acc OR ucast b) (nbits + 8) src else (acc, nbits, b # src))"

fun encodeCrockford :: "nat \<Rightarrow> uint64 \<Rightarrow> nat \<Rightarrow> bytes \<Rightarrow> string" where
  "encodeCrockford 0 acc nbits src = []"
| "encodeCrockford (Suc n) acc nbits src =
     (let (acc, nbits, src) = refill acc nbits src;
          shift = nbits - 5
      in crockford ! unat (drop_bit shift acc AND 31) # encodeCrockford n (acc AND (push_bit shift 1 - 1)) shift src)"

text \<open>\<open>ms\<close> is the clock in milliseconds as a 64-bit value; a short read of the entropy is an error.\<close>

definition newULID :: "uint64 \<Rightarrow> bytes \<Rightarrow> string option \<times> bytes" where
  "newULID ms ent =
     (if length ent < 10 then (None, [])
      else (let ts = [ucast (drop_bit 40 ms), ucast (drop_bit 32 ms), ucast (drop_bit 24 ms), ucast (drop_bit 16 ms),
                      ucast (drop_bit 8 ms), ucast ms]
            in (Some (encodeCrockford 10 0 0 ts @ encodeCrockford 16 0 0 (take 10 ent)), drop 10 ent)))"

text \<open>The clock is in nanoseconds; \<open>UnixMilli\<close> rounds down.\<close>

definition UnixMilli :: "int \<Rightarrow> uint64" where
  "UnixMilli now = of_int (now div 1000000)"

fun handleLoop :: "nat \<Rightarrow> uint64 \<Rightarrow> (string \<times> SessionRecord) list \<Rightarrow> bytes \<Rightarrow> string option \<times> bytes" where
  "handleLoop 0 ms byHandle ent = (None, ent)"
| "handleLoop (Suc n) ms byHandle ent =
     (case newULID ms ent of
        (None, ent) \<Rightarrow> (None, ent)
      | (Some h, ent) \<Rightarrow> if map_of byHandle h = None then (Some h, ent) else handleLoop n ms byHandle ent)"

definition uniqueHandle :: "int \<Rightarrow> SessionIndex \<Rightarrow> string option \<times> bytes" where
  "uniqueHandle now s = handleLoop 8 (UnixMilli now) (ix_byHandle s) (ix_entropy s)"

subsection \<open>Operations under the mutex\<close>

definition deleteKeyLocked :: "SessionKey \<Rightarrow> SessionIndex \<Rightarrow> SessionIndex" where
  "deleteKeyLocked key s =
     (if sk_AcctSessionID key = '''' then s
      else case map_of (ix_byKey s) key of
        None \<Rightarrow> s
      | Some handle \<Rightarrow>
          s\<lparr>ix_bytes := (case map_of (ix_byHandle s) handle of None \<Rightarrow> ix_bytes s | Some rec \<Rightarrow> ix_bytes s - int (record_size rec)),
            ix_byKey := AList.delete key (ix_byKey s), ix_byHandle := AList.delete handle (ix_byHandle s)\<rparr>)"

definition index_expireLocked :: "int \<Rightarrow> SessionIndex \<Rightarrow> SessionIndex" where
  "index_expireLocked now s =
     fold deleteKeyLocked
       (map (\<lambda>(h, rec). sr_Key rec) (filter (\<lambda>(h, rec). now - sr_LastUpdate rec \<ge> ix_ttl s) (ix_byHandle s))) s"

definition fill :: "AcctEvent \<Rightarrow> int \<Rightarrow> SessionRecord \<Rightarrow> SessionRecord" where
  "fill ev now rec =
     rec\<lparr>sr_Key := \<lparr>sk_EndpointID = ae_EndpointID ev, sk_AcctSessionID = ae_SessionID ev\<rparr>,
         sr_ClientID := ae_ClientID ev, sr_EndpointID := ae_EndpointID ev, sr_UserID := ae_UserID ev,
         sr_NASIP := ae_NASIP ev, sr_NASIdentifier := ae_NASIdentifier ev, sr_NASPort := ae_NASPort ev,
         sr_Peer := ae_Peer ev, sr_Class := ae_Class ev,
         sr_StartedAt := (case ae_StartedAt ev of
            Some t \<Rightarrow> Some t
          | None \<Rightarrow> (case sr_StartedAt rec of None \<Rightarrow> Some now | Some t \<Rightarrow> Some t)),
         sr_LastUpdate := now, sr_Revision := ae_Revision ev\<rparr>"

definition emptyRecord :: "SessionKey \<Rightarrow> SessionRecord" where
  "emptyRecord key = \<lparr>sr_Key = key, sr_Handle = '''', sr_ClientID = '''', sr_EndpointID = '''', sr_UserID = '''',
     sr_NASIP = None, sr_NASIdentifier = '''', sr_NASPort = 0, sr_Peer = (None, 0), sr_Class = [], sr_StartedAt = None,
     sr_LastUpdate = 0, sr_Revision = 0,
     sr_LastCoA = \<lparr>lc_SessionTimeout = None, lc_IdleTimeout = None, lc_ReplyMessage = []\<rparr>\<rparr>"

text \<open>Replacing the record behind a handle, with the byte count adjusted.\<close>

definition put_record :: "string \<Rightarrow> SessionRecord \<Rightarrow> SessionRecord \<Rightarrow> SessionIndex \<Rightarrow> SessionIndex" where
  "put_record handle old new s =
     s\<lparr>ix_bytes := ix_bytes s - int (record_size old) + int (record_size new),
       ix_byHandle := AList.update handle new (ix_byHandle s)\<rparr>"

text \<open>
  A handle in \<open>byKey\<close> without a record would be a nil dereference in \<open>insertLocked\<close> and
  \<open>updateLocked\<close>: here the state is returned unchanged, and the invariant below shows that
  the branch is never taken.
\<close>

definition insertLocked :: "AcctEvent \<Rightarrow> int \<Rightarrow> SessionIndex \<Rightarrow> SessionIndex \<times> bool" where
  "insertLocked ev now s =
     (if ae_SessionID ev = '''' then (s, True)
      else (let key = \<lparr>sk_EndpointID = ae_EndpointID ev, sk_AcctSessionID = ae_SessionID ev\<rparr>
            in case map_of (ix_byKey s) key of
                 Some handle \<Rightarrow>
                   (case map_of (ix_byHandle s) handle of
                      None \<Rightarrow> (s, True)
                    | Some rec \<Rightarrow> (put_record handle rec ((fill ev now rec)\<lparr>sr_Handle := handle\<rparr>) s, True))
               | None \<Rightarrow>
                   (let rec = fill ev now (emptyRecord key)
                    in if int (length (ix_byHandle s)) \<ge> ix_maxEntries s \<or> ix_bytes s + int (record_size rec) > ix_maxBytes s
                       then (s, False)
                       else (case uniqueHandle now s of
                               (None, ent) \<Rightarrow> (s\<lparr>ix_entropy := ent\<rparr>, False)
                             | (Some handle, ent) \<Rightarrow>
                                 (let rec = rec\<lparr>sr_Handle := handle\<rparr>
                                  in (s\<lparr>ix_entropy := ent, ix_byHandle := AList.update handle rec (ix_byHandle s),
                                        ix_byKey := AList.update key handle (ix_byKey s),
                                        ix_bytes := ix_bytes s + int (record_size rec)\<rparr>, True))))))"

definition interim :: "AcctEvent \<Rightarrow> int \<Rightarrow> SessionRecord \<Rightarrow> SessionRecord" where
  "interim ev now rec =
     rec\<lparr>sr_UserID := (if ae_UserID ev \<noteq> '''' then ae_UserID ev else sr_UserID rec),
         sr_NASIP := (if ae_NASIP ev \<noteq> None then ae_NASIP ev else sr_NASIP rec),
         sr_NASIdentifier := (if ae_NASIdentifier ev \<noteq> '''' then ae_NASIdentifier ev else sr_NASIdentifier rec),
         sr_NASPort := (if ae_NASPort ev \<noteq> 0 then ae_NASPort ev else sr_NASPort rec),
         sr_Peer := (if fst (ae_Peer ev) \<noteq> None then ae_Peer ev else sr_Peer rec),
         sr_Class := (if length (ae_Class ev) > 0 then ae_Class ev else sr_Class rec),
         sr_LastUpdate := now,
         sr_Revision := (if ae_Revision ev \<noteq> 0 then ae_Revision ev else sr_Revision rec)\<rparr>"

definition updateLocked :: "AcctEvent \<Rightarrow> int \<Rightarrow> SessionIndex \<Rightarrow> SessionIndex" where
  "updateLocked ev now s =
     (if ae_SessionID ev = '''' then s
      else case map_of (ix_byKey s) \<lparr>sk_EndpointID = ae_EndpointID ev, sk_AcctSessionID = ae_SessionID ev\<rparr> of
        None \<Rightarrow> s
      | Some handle \<Rightarrow>
          (case map_of (ix_byHandle s) handle of
             None \<Rightarrow> s
           | Some rec \<Rightarrow> put_record handle rec (interim ev now rec) s))"

definition matchesFlush :: "SessionRecord \<Rightarrow> Addr \<Rightarrow> Addr \<Rightarrow> string \<Rightarrow> bool" where
  "matchesFlush rec peerIP nasIP nasID \<longleftrightarrow>
     peerIP \<noteq> None \<and> fst (sr_Peer rec) \<noteq> None \<and> fst (sr_Peer rec) = peerIP \<or>
     nasIP \<noteq> None \<and> sr_NASIP rec \<noteq> None \<and> sr_NASIP rec = nasIP \<or>
     nasID \<noteq> '''' \<and> sr_NASIdentifier rec = nasID"

definition flushLocked :: "AcctEvent \<Rightarrow> SessionIndex \<Rightarrow> SessionIndex" where
  "flushLocked ev s =
     fold deleteKeyLocked
       (map fst (filter (\<lambda>(key, handle).
          sk_EndpointID key = ae_EndpointID ev \<and>
          (case map_of (ix_byHandle s) handle of
             None \<Rightarrow> True
           | Some rec \<Rightarrow> matchesFlush rec (fst (ae_Peer ev)) (ae_NASIP ev) (ae_NASIdentifier ev))) (ix_byKey s))) s"

subsection \<open>Methods\<close>

text \<open>\<open>now\<close> is the reading for the expiry sweep and \<open>now'\<close> the later one of the operation.\<close>

definition index_Apply :: "AcctEvent \<Rightarrow> int \<Rightarrow> int \<Rightarrow> SessionIndex \<Rightarrow> SessionIndex \<times> bool" where
  "index_Apply ev now now' s =
     (let s = index_expireLocked now s
      in if ae_Kind ev = EventStart then insertLocked ev now' s
         else if ae_Kind ev = EventInterim then (updateLocked ev now' s, True)
         else if ae_Kind ev = EventStop
           then (deleteKeyLocked \<lparr>sk_EndpointID = ae_EndpointID ev, sk_AcctSessionID = ae_SessionID ev\<rparr> s, True)
         else if ae_Kind ev = EventOn \<or> ae_Kind ev = EventOff then (flushLocked ev s, True)
         else (s, True))"

definition index_LookupHandle :: "string \<Rightarrow> int \<Rightarrow> SessionIndex \<Rightarrow> SessionIndex \<times> SessionRecord option" where
  "index_LookupHandle handle now s =
     (if handle = '''' then (s, None)
      else let s = index_expireLocked now s in (s, map_of (ix_byHandle s) handle))"

definition index_LookupKey :: "SessionKey \<Rightarrow> int \<Rightarrow> SessionIndex \<Rightarrow> SessionIndex \<times> SessionRecord option" where
  "index_LookupKey key now s =
     (if sk_AcctSessionID key = '''' then (s, None)
      else let s = index_expireLocked now s
           in (s, Option.bind (map_of (ix_byKey s) key) (map_of (ix_byHandle s))))"

definition index_List :: "string \<Rightarrow> int \<Rightarrow> int \<Rightarrow> SessionIndex \<Rightarrow> SessionIndex \<times> SessionRecord list" where
  "index_List cursor limit now s =
     (let limit = (if limit \<le> 0 then 100 else limit);
          s = index_expireLocked now s;
          handles = sort (filter (\<lambda>h. h > cursor) (map fst (ix_byHandle s)));
          handles = (if int (length handles) > limit then take (nat limit) handles else handles)
      in (s, map (\<lambda>h. the (map_of (ix_byHandle s) h)) handles))"

definition index_Len :: "int \<Rightarrow> SessionIndex \<Rightarrow> SessionIndex \<times> nat" where
  "index_Len now s = (let s = index_expireLocked now s in (s, length (ix_byHandle s)))"

definition dasMatch :: "DASQuery \<Rightarrow> SessionRecord \<Rightarrow> bool" where
  "dasMatch q rec \<longleftrightarrow>
     \<not> (das_ClientID q \<noteq> '''' \<and> sr_ClientID rec \<noteq> das_ClientID q) \<and>
     \<not> (das_SessionID q \<noteq> '''' \<and> sk_AcctSessionID (sr_Key rec) \<noteq> das_SessionID q) \<and>
     \<not> (das_UserID q \<noteq> '''' \<and> sr_UserID rec \<noteq> das_UserID q) \<and>
     \<not> (das_NASIP q \<noteq> None \<and> sr_NASIP rec \<noteq> das_NASIP q) \<and>
     \<not> (das_NASIdentifier q \<noteq> '''' \<and> sr_NASIdentifier rec \<noteq> das_NASIdentifier q)"

text \<open>The record is returned with the count 1; it is the zero record (\<open>None\<close>) otherwise.\<close>

definition FindDAS :: "DASQuery \<Rightarrow> int \<Rightarrow> SessionIndex \<Rightarrow> SessionIndex \<times> SessionRecord option \<times> nat" where
  "FindDAS q now s =
     (let s = index_expireLocked now s;
          hits = filter (dasMatch q) (map snd (ix_byHandle s))
      in (s, case hits of [rec] \<Rightarrow> (Some rec, 1) | _ \<Rightarrow> (None, length hits)))"

definition StoreLastCoA :: "SessionKey \<Rightarrow> LastCoA \<Rightarrow> int \<Rightarrow> int \<Rightarrow> SessionIndex \<Rightarrow> SessionIndex \<times> bool" where
  "StoreLastCoA key attrs now now' s =
     (if sk_AcctSessionID key = '''' then (s, False)
      else let s = index_expireLocked now s
           in case map_of (ix_byKey s) key of
                None \<Rightarrow> (s, False)
              | Some handle \<Rightarrow>
                  (case map_of (ix_byHandle s) handle of
                     None \<Rightarrow> (s, False)
                   | Some rec \<Rightarrow> (put_record handle rec (rec\<lparr>sr_LastCoA := attrs, sr_LastUpdate := now'\<rparr>) s, True)))"

definition index_Delete :: "SessionKey \<Rightarrow> int \<Rightarrow> SessionIndex \<Rightarrow> SessionIndex \<times> bool" where
  "index_Delete key now s =
     (if sk_AcctSessionID key = '''' then (s, False)
      else let s = index_expireLocked now s
           in if map_of (ix_byKey s) key = None then (s, False) else (deleteKeyLocked key s, True))"

definition index_Reset :: "SessionIndex \<Rightarrow> SessionIndex" where
  "index_Reset s = s\<lparr>ix_byKey := [], ix_byHandle := [], ix_bytes := 0\<rparr>"

subsection \<open>The two maps are one table\<close>

definition index_ok :: "SessionIndex \<Rightarrow> bool" where
  "index_ok s \<longleftrightarrow> distinct (map fst (ix_byHandle s)) \<and> distinct (map fst (ix_byKey s)) \<and>
     (\<forall>k h. map_of (ix_byKey s) k = Some h \<longleftrightarrow> (\<exists>rec. map_of (ix_byHandle s) h = Some rec \<and> sr_Key rec = k)) \<and>
     (\<forall>h rec. map_of (ix_byHandle s) h = Some rec \<longrightarrow>
        sr_Handle rec = h \<and> length h = 26 \<and> sk_AcctSessionID (sr_Key rec) \<noteq> '''') \<and>
     ix_bytes s = int (tbl_sum record_size (ix_byHandle s)) \<and> int (length (ix_byHandle s)) \<le> ix_maxEntries s"

text \<open>The abstraction: accounting identities to records.\<close>

definition index_abs :: "SessionIndex \<Rightarrow> SessionKey \<Rightarrow> SessionRecord option" where
  "index_abs s k = Option.bind (map_of (ix_byKey s) k) (map_of (ix_byHandle s))"

definition liveAt :: "int \<Rightarrow> int \<Rightarrow> (SessionKey \<Rightarrow> SessionRecord option) \<Rightarrow> SessionKey \<Rightarrow> SessionRecord option" where
  "liveAt now ttl m k = (case m k of None \<Rightarrow> None | Some rec \<Rightarrow> if now - sr_LastUpdate rec \<ge> ttl then None else Some rec)"

lemma index_abs_Some:
  "index_ok s \<Longrightarrow> index_abs s k = Some rec \<longleftrightarrow> (\<exists>h. map_of (ix_byHandle s) h = Some rec \<and> sr_Key rec = k)"
  unfolding index_ok_def index_abs_def bind_eq_Some_conv by (metis option.inject)

lemma index_abs_byKey:
  "\<lbrakk>index_ok s; map_of (ix_byKey s) k = Some h\<rbrakk> \<Longrightarrow>
     \<exists>rec. map_of (ix_byHandle s) h = Some rec \<and> sr_Key rec = k \<and> index_abs s k = Some rec"
  unfolding index_ok_def index_abs_def by fastforce

lemma index_abs_None: "index_ok s \<Longrightarrow> index_abs s k = None \<longleftrightarrow> map_of (ix_byKey s) k = None"
  using index_abs_byKey [of s k] by (cases "map_of (ix_byKey s) k") (fastforce simp: index_abs_def)+

lemma index_ok_entropy [simp]: "index_ok (s\<lparr>ix_entropy := e\<rparr>) = index_ok s"
  "index_abs (s\<lparr>ix_entropy := e\<rparr>) = index_abs s"
  by (simp_all add: index_ok_def index_abs_def fun_eq_iff)

lemma delete_None_id: "\<lbrakk>index_ok s; map_of (ix_byKey s) k = None\<rbrakk> \<Longrightarrow> deleteKeyLocked k s = s"
  by (simp add: deleteKeyLocked_def)

lemma byKey_named: "\<lbrakk>index_ok s; map_of (ix_byKey s) k = Some h\<rbrakk> \<Longrightarrow> sk_AcctSessionID k \<noteq> ''''"
  unfolding index_ok_def by metis

lemma deleteKeyLocked_caps [simp]:
  "ix_maxEntries (deleteKeyLocked k s) = ix_maxEntries s" "ix_maxBytes (deleteKeyLocked k s) = ix_maxBytes s"
  "ix_ttl (deleteKeyLocked k s) = ix_ttl s"
  by (simp_all add: deleteKeyLocked_def split: option.split)

lemma deleteKeyLocked_ok:
  assumes ok: "index_ok s"
  shows "index_ok (deleteKeyLocked k s) \<and> index_abs (deleteKeyLocked k s) = (index_abs s)(k := None) \<and>
    ix_bytes (deleteKeyLocked k s) \<le> ix_bytes s"
proof (cases "map_of (ix_byKey s) k")
  case None
  then show ?thesis using ok by (simp add: delete_None_id fun_upd_idem index_abs_None)
next
  case (Some h)
  then obtain rec where rec: "map_of (ix_byHandle s) h = Some rec" "sr_Key rec = k" using ok index_abs_byKey by blast
  let ?s = "deleteKeyLocked k s"
  have f: "ix_byKey ?s = AList.delete k (ix_byKey s)" "ix_byHandle ?s = AList.delete h (ix_byHandle s)"
      "ix_bytes ?s = ix_bytes s - int (record_size rec)"
    using Some rec byKey_named [OF ok Some] by (simp_all add: deleteKeyLocked_def)
  have bk: "map_of (ix_byKey ?s) k' = (if k' = k then None else map_of (ix_byKey s) k')"
    and bh: "map_of (ix_byHandle ?s) h' = (if h' = h then None else map_of (ix_byHandle s) h')" for k' h'
    by (simp_all add: f delete_conv)
  have link: "map_of (ix_byKey s) k' = Some h' \<longleftrightarrow> (\<exists>r. map_of (ix_byHandle s) h' = Some r \<and> sr_Key r = k')" for k' h'
    using ok by (simp add: index_ok_def)
  have "map_of (ix_byKey ?s) k' = Some h' \<longleftrightarrow> (\<exists>r. map_of (ix_byHandle ?s) h' = Some r \<and> sr_Key r = k')" for k' h'
    using link [of k' h'] link [of k h'] link [of k' h] rec Some by (auto simp: bk bh)
  moreover have "ix_bytes ?s = int (tbl_sum record_size (ix_byHandle ?s))"
    using ok rec(1) tbl_sum_lookup [OF rec(1), of record_size] by (simp add: f index_ok_def tbl_sum_delete)
  moreover have "int (length (ix_byHandle ?s)) \<le> ix_maxEntries s"
  proof -
    have "length (ix_byHandle ?s) \<le> length (ix_byHandle s)" by (simp add: f AList.length_delete_le)
    moreover have "int (length (ix_byHandle s)) \<le> ix_maxEntries s" using ok by (simp add: index_ok_def)
    ultimately show ?thesis by linarith
  qed
  moreover have "sr_Handle r = h' \<and> length h' = 26 \<and> sk_AcctSessionID (sr_Key r) \<noteq> ''''"
    if "map_of (ix_byHandle ?s) h' = Some r" for h' r
    using that ok by (auto simp: bh index_ok_def split: if_splits)
  moreover have "distinct (map fst (ix_byHandle ?s))" "distinct (map fst (ix_byKey ?s))"
    using ok by (simp_all add: f index_ok_def distinct_delete)
  ultimately have "index_ok ?s" unfolding index_ok_def by simp
  moreover have "index_abs ?s k' = ((index_abs s)(k := None)) k'" for k'
    using link [of k' h] link [of k h] rec by (cases "map_of (ix_byKey s) k'") (auto simp: index_abs_def bk bh)
  ultimately show ?thesis using f(3) by (auto simp: fun_eq_iff)
qed

text \<open>Deleting several keys, and the two loops built from it.\<close>

lemma delete_keys_ok:
  "index_ok s \<Longrightarrow> index_ok (fold deleteKeyLocked ks s) \<and>
     index_abs (fold deleteKeyLocked ks s) = (\<lambda>k. if k \<in> set ks then None else index_abs s k) \<and>
     ix_bytes (fold deleteKeyLocked ks s) \<le> ix_bytes s"
proof (induction ks arbitrary: s)
  case (Cons k ks)
  from deleteKeyLocked_ok [OF Cons.prems, of k] Cons.IH [of "deleteKeyLocked k s"] show ?case by auto
qed simp

lemma delete_keys_caps [simp]:
  "ix_maxEntries (fold deleteKeyLocked ks s) = ix_maxEntries s" "ix_maxBytes (fold deleteKeyLocked ks s) = ix_maxBytes s"
  "ix_ttl (fold deleteKeyLocked ks s) = ix_ttl s"
  by (induction ks arbitrary: s) simp_all

lemma expire_caps [simp]:
  "ix_maxEntries (index_expireLocked now s) = ix_maxEntries s" "ix_maxBytes (index_expireLocked now s) = ix_maxBytes s"
  "ix_ttl (index_expireLocked now s) = ix_ttl s"
  by (simp_all add: index_expireLocked_def)

lemma expire_index_ok:
  assumes ok: "index_ok s"
  shows "index_ok (index_expireLocked now s) \<and> index_abs (index_expireLocked now s) = liveAt now (ix_ttl s) (index_abs s) \<and>
    ix_bytes (index_expireLocked now s) \<le> ix_bytes s"
proof -
  let ?ks = "map (\<lambda>(h, rec). sr_Key rec) (filter (\<lambda>(h, rec). now - sr_LastUpdate rec \<ge> ix_ttl s) (ix_byHandle s))"
  have d: "distinct (map fst (ix_byHandle s))" using ok by (simp add: index_ok_def)
  have mem: "k \<in> set ?ks \<longleftrightarrow> (\<exists>rec. index_abs s k = Some rec \<and> now - sr_LastUpdate rec \<ge> ix_ttl s)" for k
    unfolding index_abs_Some [OF ok] using d by (force simp: map_of_eq_Some_iff)
  have "(\<lambda>k. if k \<in> set ?ks then None else index_abs s k) = liveAt now (ix_ttl s) (index_abs s)"
    unfolding fun_eq_iff mem liveAt_def by (auto split: option.split)
  then show ?thesis using delete_keys_ok [OF ok, of ?ks] by (simp add: index_expireLocked_def)
qed

lemma flush_index_ok:
  assumes ok: "index_ok s"
  shows "index_ok (flushLocked ev s) \<and> ix_bytes (flushLocked ev s) \<le> ix_bytes s \<and>
    index_abs (flushLocked ev s) = (\<lambda>k. case index_abs s k of None \<Rightarrow> None | Some rec \<Rightarrow>
      if sk_EndpointID k = ae_EndpointID ev \<and> matchesFlush rec (fst (ae_Peer ev)) (ae_NASIP ev) (ae_NASIdentifier ev)
      then None else Some rec)"
proof -
  let ?ks = "map fst (filter (\<lambda>(key, handle). sk_EndpointID key = ae_EndpointID ev \<and>
    (case map_of (ix_byHandle s) handle of None \<Rightarrow> True
     | Some rec \<Rightarrow> matchesFlush rec (fst (ae_Peer ev)) (ae_NASIP ev) (ae_NASIdentifier ev))) (ix_byKey s))"
  have d: "distinct (map fst (ix_byKey s))" using ok by (simp add: index_ok_def)
  have "k \<in> set ?ks \<longleftrightarrow> (\<exists>rec. index_abs s k = Some rec \<and> sk_EndpointID k = ae_EndpointID ev \<and>
      matchesFlush rec (fst (ae_Peer ev)) (ae_NASIP ev) (ae_NASIdentifier ev))" for k
  proof -
    have "k \<in> set ?ks \<longleftrightarrow> (\<exists>h. map_of (ix_byKey s) k = Some h \<and> sk_EndpointID k = ae_EndpointID ev \<and>
        (case map_of (ix_byHandle s) h of None \<Rightarrow> True
         | Some rec \<Rightarrow> matchesFlush rec (fst (ae_Peer ev)) (ae_NASIP ev) (ae_NASIdentifier ev)))"
      using d by (force simp: map_of_eq_Some_iff)
    also have "\<dots> \<longleftrightarrow> (\<exists>rec. index_abs s k = Some rec \<and> sk_EndpointID k = ae_EndpointID ev \<and>
        matchesFlush rec (fst (ae_Peer ev)) (ae_NASIP ev) (ae_NASIdentifier ev))"
      using index_abs_byKey [OF ok] by (fastforce simp: index_abs_def bind_eq_Some_conv)
    finally show ?thesis .
  qed
  then show ?thesis
    using delete_keys_ok [OF ok, of ?ks] unfolding flushLocked_def by (auto simp: fun_eq_iff split: option.split)
qed

lemma put_record_ok:
  assumes ok: "index_ok s" and old: "map_of (ix_byHandle s) h = Some old"
    and new: "sr_Key new = sr_Key old" "sr_Handle new = sr_Handle old"
  shows "index_ok (put_record h old new s) \<and> index_abs (put_record h old new s) = (index_abs s)(sr_Key old \<mapsto> new)"
proof -
  let ?s = "put_record h old new s"
  have f: "ix_byKey ?s = ix_byKey s" "map_of (ix_byHandle ?s) h' = (if h' = h then Some new else map_of (ix_byHandle s) h')" for h'
    by (simp_all add: put_record_def update_conv)
  have link: "map_of (ix_byKey s) k' = Some h' \<longleftrightarrow> (\<exists>r. map_of (ix_byHandle s) h' = Some r \<and> sr_Key r = k')" for k' h'
    using ok by (simp add: index_ok_def)
  have "map_of (ix_byKey ?s) k' = Some h' \<longleftrightarrow> (\<exists>r. map_of (ix_byHandle ?s) h' = Some r \<and> sr_Key r = k')" for k' h'
    using link [of k' h'] old new by (auto simp: f)
  moreover have "ix_bytes ?s = int (tbl_sum record_size (ix_byHandle ?s))"
    using ok old tbl_sum_lookup [OF old, of record_size] by (simp add: put_record_def index_ok_def tbl_sum_update)
  moreover have "length (ix_byHandle ?s) = length (ix_byHandle s)" using old by (simp add: put_record_def length_update)
  moreover have "ix_maxEntries ?s = ix_maxEntries s" "distinct (map fst (ix_byHandle ?s))"
    using ok by (simp_all add: put_record_def index_ok_def distinct_update)
  ultimately have "index_ok ?s" using ok old new unfolding index_ok_def f by (auto split: if_splits)
  moreover have "index_abs ?s k' = ((index_abs s)(sr_Key old \<mapsto> new)) k'" for k'
    using link [of k' h] link [of "sr_Key old" h] old by (cases "map_of (ix_byKey s) k'") (auto simp: index_abs_def f)
  ultimately show ?thesis by (auto simp: fun_eq_iff)
qed

lemma put_record_caps [simp]:
  "ix_maxEntries (put_record h old new s) = ix_maxEntries s" "ix_maxBytes (put_record h old new s) = ix_maxBytes s"
  "ix_ttl (put_record h old new s) = ix_ttl s"
  by (simp_all add: put_record_def)

text \<open>Fresh handles: 26 characters and not in use.\<close>

lemma length_encodeCrockford [simp]: "length (encodeCrockford n acc nbits src) = n"
  by (induction n arbitrary: acc nbits src) (simp_all add: split_beta Let_def)

lemma newULID_length: "newULID ms ent = (Some h, ent') \<Longrightarrow> length h = 26"
  by (auto simp: newULID_def Let_def split: if_splits)

lemma handleLoop_fresh: "handleLoop n ms byHandle ent = (Some h, ent') \<Longrightarrow> map_of byHandle h = None \<and> length h = 26"
  by (induction n ms byHandle ent rule: handleLoop.induct)
     (auto split: prod.splits option.splits if_splits dest: newULID_length)

lemma add_record_ok:
  assumes ok: "index_ok s" and new: "map_of (ix_byKey s) k = None" "map_of (ix_byHandle s) h = None"
    and rec: "sr_Key rec = k" "sr_Handle rec = h" "length h = 26" "sk_AcctSessionID k \<noteq> ''''"
    and cap: "int (length (ix_byHandle s)) < ix_maxEntries s"
    and s': "s' = s\<lparr>ix_entropy := ent, ix_byHandle := AList.update h rec (ix_byHandle s),
      ix_byKey := AList.update k h (ix_byKey s), ix_bytes := ix_bytes s + int (record_size rec)\<rparr>"
  shows "index_ok s' \<and> index_abs s' = (index_abs s)(k \<mapsto> rec)"
proof -
  have f: "map_of (ix_byKey s') k' = (if k' = k then Some h else map_of (ix_byKey s) k')"
      "map_of (ix_byHandle s') h' = (if h' = h then Some rec else map_of (ix_byHandle s) h')" for k' h'
    by (simp_all add: s' update_conv)
  have link: "map_of (ix_byKey s) k' = Some h' \<longleftrightarrow> (\<exists>r. map_of (ix_byHandle s) h' = Some r \<and> sr_Key r = k')" for k' h'
    using ok by (simp add: index_ok_def)
  have "map_of (ix_byKey s') k' = Some h' \<longleftrightarrow> (\<exists>r. map_of (ix_byHandle s') h' = Some r \<and> sr_Key r = k')" for k' h'
    using link [of k' h'] link [of k h'] link [of k' h] new rec by (auto simp: f)
  moreover have "ix_bytes s' = int (tbl_sum record_size (ix_byHandle s'))" "length (ix_byHandle s') = Suc (length (ix_byHandle s))"
    using ok new by (simp_all add: s' index_ok_def tbl_sum_update length_update)
  moreover have "distinct (map fst (ix_byHandle s'))" "distinct (map fst (ix_byKey s'))" "ix_maxEntries s' = ix_maxEntries s"
    using ok by (simp_all add: s' index_ok_def distinct_update)
  ultimately have "index_ok s'" using ok cap rec unfolding index_ok_def f by (auto split: if_splits)
  moreover have "index_abs s' k' = ((index_abs s)(k \<mapsto> rec)) k'" for k'
    using link [of k' h] new by (cases "map_of (ix_byKey s) k'") (auto simp: index_abs_def f)
  ultimately show ?thesis by (auto simp: fun_eq_iff)
qed

definition eventKey :: "AcctEvent \<Rightarrow> SessionKey" where
  "eventKey ev = \<lparr>sk_EndpointID = ae_EndpointID ev, sk_AcctSessionID = ae_SessionID ev\<rparr>"

lemma fill_simps [simp]: "sr_Key (fill ev now rec) = eventKey ev" "sr_Handle (fill ev now rec) = sr_Handle rec"
  by (simp_all add: fill_def eventKey_def)

lemma interim_simps [simp]: "sr_Key (interim ev now rec) = sr_Key rec" "sr_Handle (interim ev now rec) = sr_Handle rec"
  by (simp_all add: interim_def)

text \<open>\<open>insertLocked\<close>, branch by branch.\<close>

lemma insertLocked_ok:
  assumes ok: "index_ok s" and ins: "insertLocked ev now s = (s', added)"
  shows "index_ok s' \<and>
    (if ae_SessionID ev = '''' then added \<and> index_abs s' = index_abs s
     else case index_abs s (eventKey ev) of
       Some rec \<Rightarrow> added \<and> index_abs s' = (index_abs s)(eventKey ev \<mapsto> fill ev now rec)
     | None \<Rightarrow>
         if added then \<exists>h. length h = 26 \<and> (\<forall>rec. rec \<in> ran (index_abs s) \<longrightarrow> sr_Handle rec \<noteq> h) \<and>
           index_abs s' = (index_abs s)(eventKey ev \<mapsto> (fill ev now (emptyRecord (eventKey ev)))\<lparr>sr_Handle := h\<rparr>)
         else index_abs s' = index_abs s)"
proof (cases "ae_SessionID ev = ''''")
  case False
  let ?k = "eventKey ev"
  show ?thesis
  proof (cases "map_of (ix_byKey s) ?k")
    case (Some h)
    then obtain rec where rec: "map_of (ix_byHandle s) h = Some rec" "sr_Key rec = ?k" "index_abs s ?k = Some rec"
      using index_abs_byKey [OF ok] by blast
    have hd: "sr_Handle rec = h" using ok rec(1) by (simp add: index_ok_def)
    then have "(fill ev now rec)\<lparr>sr_Handle := h\<rparr> = fill ev now rec" by (simp add: fill_def)
    then have "s' = put_record h rec (fill ev now rec) s \<and> added"
      using ins False Some rec by (simp add: insertLocked_def eventKey_def [symmetric] Let_def)
    then show ?thesis using put_record_ok [OF ok rec(1), of "fill ev now rec"] rec False by simp
  next
    case None
    then have abs: "index_abs s ?k = None" using index_abs_None [OF ok] by blast
    let ?rec = "fill ev now (emptyRecord ?k)"
    show ?thesis
    proof (cases "int (length (ix_byHandle s)) \<ge> ix_maxEntries s \<or> ix_bytes s + int (record_size ?rec) > ix_maxBytes s")
      case True
      then have "s' = s \<and> \<not> added"
        using ins False None by (auto simp: insertLocked_def eventKey_def [symmetric] Let_def)
      then show ?thesis using ok False abs by simp
    next
      case room: False
      obtain ho ent where u: "uniqueHandle now s = (ho, ent)" by fastforce
      show ?thesis
      proof (cases ho)
        case none: None
        then have "s' = s\<lparr>ix_entropy := ent\<rparr> \<and> \<not> added"
          using ins False None room u by (auto simp: insertLocked_def eventKey_def [symmetric] Let_def)
        then show ?thesis using ok False abs by simp
      next
        case (Some h)
        then have fresh: "map_of (ix_byHandle s) h = None" "length h = 26"
          using u handleLoop_fresh by (auto simp: uniqueHandle_def)
        have s': "s' = s\<lparr>ix_entropy := ent, ix_byHandle := AList.update h (?rec\<lparr>sr_Handle := h\<rparr>) (ix_byHandle s),
            ix_byKey := AList.update ?k h (ix_byKey s), ix_bytes := ix_bytes s + int (record_size (?rec\<lparr>sr_Handle := h\<rparr>))\<rparr>"
          and "added"
          using ins False None room u Some by (auto simp: insertLocked_def eventKey_def [symmetric] Let_def)
        have "sr_Handle r \<noteq> h" if "r \<in> ran (index_abs s)" for r
          using that fresh ok unfolding ran_def index_abs_Some [OF ok] by (auto simp: index_ok_def)
        then show ?thesis
          using add_record_ok [OF ok None fresh(1) _ _ fresh(2) _ _ s'] False room abs \<open>added\<close> fresh(2)
          by (auto simp: eventKey_def)
      qed
    qed
  qed
qed (use assms in \<open>auto simp: insertLocked_def\<close>)

lemma insertLocked_caps:
  "insertLocked ev now s = (s', b) \<Longrightarrow> ix_maxEntries s' = ix_maxEntries s \<and> ix_maxBytes s' = ix_maxBytes s \<and> ix_ttl s' = ix_ttl s"
  by (auto simp: insertLocked_def Let_def split: if_splits option.splits prod.splits)

lemma updateLocked_ok:
  assumes ok: "index_ok s"
  shows "index_ok (updateLocked ev now s) \<and>
    index_abs (updateLocked ev now s) =
      (if ae_SessionID ev = '''' then index_abs s
       else (index_abs s)(eventKey ev := map_option (interim ev now) (index_abs s (eventKey ev))))"
proof (cases "map_of (ix_byKey s) (eventKey ev)")
  case None
  then have "index_abs s (eventKey ev) = None" using index_abs_None [OF ok] by blast
  then show ?thesis using None ok by (auto simp: updateLocked_def eventKey_def)
next
  case (Some h)
  then obtain rec where rec: "map_of (ix_byHandle s) h = Some rec" "sr_Key rec = eventKey ev" "index_abs s (eventKey ev) = Some rec"
    using index_abs_byKey [OF ok] by blast
  have "updateLocked ev now s = (if ae_SessionID ev = '''' then s else put_record h rec (interim ev now rec) s)"
    using Some rec(1) by (simp add: updateLocked_def eventKey_def)
  then show ?thesis using put_record_ok [OF ok rec(1), of "interim ev now rec"] rec ok by simp
qed

subsection \<open>Executions\<close>

datatype indexCall =
    CallApply AcctEvent int int | CallLookupHandle string int | CallLookupKey SessionKey int | CallList string int int
  | CallIndexLen int | CallFindDAS DASQuery int | CallStoreLastCoA SessionKey LastCoA int int | CallDelete SessionKey int
  | CallIndexReset

fun index_call :: "indexCall \<Rightarrow> SessionIndex \<Rightarrow> SessionIndex" where
  "index_call (CallApply ev now now') s = fst (index_Apply ev now now' s)"
| "index_call (CallLookupHandle h now) s = fst (index_LookupHandle h now s)"
| "index_call (CallLookupKey k now) s = fst (index_LookupKey k now s)"
| "index_call (CallList c l now) s = fst (index_List c l now s)"
| "index_call (CallIndexLen now) s = fst (index_Len now s)"
| "index_call (CallFindDAS q now) s = fst (FindDAS q now s)"
| "index_call (CallStoreLastCoA k a now now') s = fst (StoreLastCoA k a now now' s)"
| "index_call (CallDelete k now) s = fst (index_Delete k now s)"
| "index_call CallIndexReset s = index_Reset s"

inductive index_reach :: "int \<Rightarrow> int \<Rightarrow> int \<Rightarrow> SessionIndex \<Rightarrow> bool" for maxEntries maxBytes ttl where
  istart: "NewSessionIndex maxEntries maxBytes ttl (Some ent) = Inr s \<Longrightarrow> index_reach maxEntries maxBytes ttl s"
| icall: "index_reach maxEntries maxBytes ttl s \<Longrightarrow> index_reach maxEntries maxBytes ttl (index_call op s)"

lemma Apply_index_ok: "index_ok s \<Longrightarrow> index_ok (fst (index_Apply ev now now' s))"
proof -
  assume "index_ok s"
  then have e: "index_ok (index_expireLocked now s)" using expire_index_ok by blast
  show ?thesis
    using e insertLocked_ok [OF e, of ev now' "fst (insertLocked ev now' (index_expireLocked now s))"
        "snd (insertLocked ev now' (index_expireLocked now s))"] updateLocked_ok [OF e]
      deleteKeyLocked_ok [OF e] flush_index_ok [OF e]
    by (simp add: index_Apply_def Let_def)
qed

lemma StoreLastCoA_index_ok: "index_ok s \<Longrightarrow> index_ok (fst (StoreLastCoA k a now now' s))"
proof -
  assume ok: "index_ok s"
  then have "index_ok (index_expireLocked now s)" using expire_index_ok by blast
  then show ?thesis
    using put_record_ok ok by (auto simp: StoreLastCoA_def Let_def split: option.split)
qed

lemma index_call_ok:
  assumes ok: "index_ok s" and pos: "0 < ix_maxEntries s"
  shows "index_ok (index_call op s)"
proof -
  have e: "index_ok (index_expireLocked now s)" for now using expire_index_ok [OF ok] by blast
  have d: "index_ok (deleteKeyLocked k (index_expireLocked now s))" for k now using deleteKeyLocked_ok [OF e] by blast
  show ?thesis
  proof (cases op)
    case CallIndexReset
    then show ?thesis using pos by (simp add: index_Reset_def index_ok_def)
  qed (use ok e d in \<open>simp_all add: Apply_index_ok StoreLastCoA_index_ok index_LookupHandle_def index_LookupKey_def
      index_List_def index_Len_def FindDAS_def index_Delete_def Let_def\<close>)
qed

lemma index_call_caps: "ix_maxEntries (index_call op s) = ix_maxEntries s \<and> ix_ttl (index_call op s) = ix_ttl s
    \<and> ix_maxBytes (index_call op s) = ix_maxBytes s"
proof (cases op)
  case (CallApply ev now now')
  then show ?thesis
    using insertLocked_caps [OF prod.collapse [symmetric], of ev now' "index_expireLocked now s"]
    by (auto simp: index_Apply_def Let_def updateLocked_def flushLocked_def split: option.split)
qed (auto simp: index_LookupHandle_def index_LookupKey_def index_List_def index_Len_def FindDAS_def index_Delete_def
    StoreLastCoA_def Let_def index_Reset_def split: option.split)

lemma index_reach_ok:
  "index_reach maxEntries maxBytes ttl s \<Longrightarrow>
     index_ok s \<and> ix_maxEntries s = maxEntries \<and> ix_maxBytes s = maxBytes \<and> ix_ttl s = ttl \<and> 0 < maxEntries"
proof (induction rule: index_reach.induct)
  case (istart ent s)
  then show ?case by (auto simp: NewSessionIndex_def index_ok_def split: if_splits)
next
  case (icall s op)
  then show ?case using index_call_ok [of s op] index_call_caps [of op s] by simp
qed

lemma distinct_singleton: "distinct xs \<Longrightarrow> set xs = {a} \<longleftrightarrow> xs = [a]"
proof
  assume "distinct xs" "set xs = {a}"
  then have "length xs = 1" using distinct_card [of xs] by simp
  with \<open>set xs = {a}\<close> show "xs = [a]" by (cases xs) auto
qed simp

subsection \<open>Properties\<close>

text \<open>
  Property C22. The session index refines a map from accounting identities to records. In every
  state the index reaches, \<open>Apply\<close> first forgets the sessions idle for the time to live, and
  then: a Start of a known session refreshes its record and keeps its handle, a Start of a
  new one adds it under a fresh handle of 26 characters or, when it is refused (result
  false), changes nothing; an interim update changes a known session only; a Stop forgets
  the session; accounting-on and -off forget exactly the sessions of that endpoint that
  match the peer, the NAS address or the NAS identifier; an event without a session
  identifier or of another kind changes nothing.
\<close>

theorem session_index_refines:
  assumes "index_reach maxEntries maxBytes ttl s" "index_Apply ev now now' s = (s', added)"
    and "m = liveAt now ttl (index_abs s)" "k = eventKey ev"
  shows "if ae_Kind ev = ''start'' \<and> ae_SessionID ev \<noteq> '''' then
      (case m k of
         Some rec \<Rightarrow> added \<and> index_abs s' = m(k \<mapsto> fill ev now' rec)
       | None \<Rightarrow>
           if added then \<exists>h. length h = 26 \<and> (\<forall>rec. rec \<in> ran m \<longrightarrow> sr_Handle rec \<noteq> h) \<and>
             index_abs s' = m(k \<mapsto> (fill ev now' (emptyRecord k))\<lparr>sr_Handle := h\<rparr>)
           else index_abs s' = m)
    else added \<and>
      (if ae_Kind ev = ''interim_update'' \<and> ae_SessionID ev \<noteq> ''''
         then index_abs s' = m(k := map_option (interim ev now') (m k))
       else if ae_Kind ev = ''stop'' then index_abs s' = m(k := None)
       else if ae_Kind ev \<in> {''accounting_on'', ''accounting_off''}
         then index_abs s' = (\<lambda>k. case m k of None \<Rightarrow> None | Some rec \<Rightarrow>
           if sk_EndpointID k = ae_EndpointID ev \<and> matchesFlush rec (fst (ae_Peer ev)) (ae_NASIP ev) (ae_NASIdentifier ev)
           then None else Some rec)
       else index_abs s' = m)"
proof -
  let ?e = "index_expireLocked now s"
  have ok: "index_ok s" "ix_ttl s = ttl" using index_reach_ok [OF assms(1)] by simp_all
  then have e: "index_ok ?e" "index_abs ?e = m" using expire_index_ok [of s now] assms(3) by simp_all
  show ?thesis
  proof (cases "ae_Kind ev = ''start''")
    case True
    then have "insertLocked ev now' ?e = (s', added)" using assms(2) by (simp add: index_Apply_def Let_def)
    from insertLocked_ok [OF e(1) this] show ?thesis using True unfolding e(2) assms(4) by simp
  next
    case False
    then have "index_Apply ev now now' s = (if ae_Kind ev = ''interim_update'' then (updateLocked ev now' ?e, True)
        else if ae_Kind ev = ''stop'' then (deleteKeyLocked k ?e, True)
        else if ae_Kind ev = ''accounting_on'' \<or> ae_Kind ev = ''accounting_off'' then (flushLocked ev ?e, True)
        else (?e, True))"
      by (simp add: index_Apply_def Let_def assms(4) eventKey_def)
    note step = this [unfolded assms(2)]
    consider "ae_Kind ev = ''interim_update''" | "ae_Kind ev = ''stop''"
      | "ae_Kind ev = ''accounting_on'' \<or> ae_Kind ev = ''accounting_off''"
      | "ae_Kind ev \<notin> {''interim_update'', ''stop'', ''accounting_on'', ''accounting_off''}"
      by blast
    then show ?thesis
    proof cases
      case 1
      then show ?thesis using step updateLocked_ok [OF e(1), of ev now'] by (simp add: e(2) assms(4))
    next
      case 2
      then show ?thesis using step deleteKeyLocked_ok [OF e(1), of k] by (simp add: e(2))
    next
      case 3
      then have "s' = flushLocked ev ?e" "added" using step by (auto split: if_splits)
      then show ?thesis using 3 flush_index_ok [OF e(1), of ev] unfolding e(2) by auto
    next
      case 4
      then show ?thesis using step e(2) False by simp
    qed
  qed
qed

definition wit_start :: AcctEvent where
  "wit_start = \<lparr>ae_Kind = ''start'', ae_EndpointID = ''e'', ae_ClientID = '''', ae_UserID = '''', ae_SessionID = ''s'',
     ae_NASIP = None, ae_NASIdentifier = '''', ae_NASPort = 0, ae_Peer = (None, 0), ae_Class = [], ae_StartedAt = None,
     ae_Revision = 0\<rparr>"

definition wit_interim :: AcctEvent where
  "wit_interim = wit_start\<lparr>ae_Kind := ''interim_update'', ae_UserID := replicate 200 CHR ''u''\<rparr>"

definition wit_index :: SessionIndex where
  "wit_index = \<lparr>ix_maxEntries = 1, ix_maxBytes = 300, ix_ttl = 10, ix_entropy = replicate 10 0, ix_byKey = [],
     ix_byHandle = [], ix_bytes = 0\<rparr>"

lemma wit_index_start: "index_reach 1 300 10 wit_index"
  by (rule istart [where ent = "replicate 10 0"]) (simp add: NewSessionIndex_def wit_index_def)

lemma wit_index_calls: "snd (index_Apply wit_start 1 1 wit_index)"
    "ix_bytes (index_call (CallApply wit_interim 2 2) (index_call (CallApply wit_start 1 1) wit_index)) = 420"
  by code_simp+

lemma wit_index_exceeds: "\<exists>s. index_reach 1 300 10 s \<and> ix_bytes s > 300"
proof -
  let ?s = "index_call (CallApply wit_interim 2 2) (index_call (CallApply wit_start 1 1) wit_index)"
  have "index_reach 1 300 10 ?s" by (intro icall wit_index_start)
  moreover have "ix_bytes ?s > 300" using wit_index_calls(2) by linarith
  ultimately show ?thesis by blast
qed

text \<open>
  Property C40. In every state the index reaches, the number of sessions is within the entry cap,
  the byte count is exactly the sum of the record sizes, every record is found under its own
  identity and its own handle, and \<open>FindDAS\<close> returns a record exactly when it is the only
  live one that matches. The byte cap is not an invariant: it is checked when a session is
  added, without the handle, and not when a record is updated, and there is a reachable
  state above it.
\<close>

theorem session_index_bounds:
  "(index_reach maxEntries maxBytes ttl s \<longrightarrow>
      int (length (ix_byHandle s)) \<le> maxEntries \<and> ix_bytes s = int (tbl_sum record_size (ix_byHandle s)) \<and>
      (\<forall>h rec. map_of (ix_byHandle s) h = Some rec \<longrightarrow> sr_Handle rec = h \<and> index_abs s (sr_Key rec) = Some rec) \<and>
      (fst (snd (FindDAS q now s)) = Some rec \<longleftrightarrow>
         {r. dasMatch q r \<and> liveAt now ttl (index_abs s) (sr_Key r) = Some r} = {rec})) \<and>
   (\<exists>s. index_reach 1 300 10 s \<and> ix_bytes s > 300)"
proof (intro conjI impI)
  assume r: "index_reach maxEntries maxBytes ttl s"
  have ok: "index_ok s" "ix_maxEntries s = maxEntries" "ix_ttl s = ttl" using index_reach_ok [OF r] by simp_all
  then show "int (length (ix_byHandle s)) \<le> maxEntries" "ix_bytes s = int (tbl_sum record_size (ix_byHandle s))"
    by (simp_all add: index_ok_def)
  show "\<forall>h rec. map_of (ix_byHandle s) h = Some rec \<longrightarrow> sr_Handle rec = h \<and> index_abs s (sr_Key rec) = Some rec"
    using ok(1) index_abs_Some [OF ok(1)] by (auto simp: index_ok_def)
  let ?e = "index_expireLocked now s"
  have e: "index_ok ?e" "index_abs ?e = liveAt now ttl (index_abs s)" using expire_index_ok [OF ok(1), of now] ok(3) by simp_all
  have d: "distinct (map fst (ix_byHandle ?e))" using e(1) by (simp add: index_ok_def)
  have mem: "r \<in> set (map snd (ix_byHandle ?e)) \<longleftrightarrow> index_abs ?e (sr_Key r) = Some r" for r
    unfolding index_abs_Some [OF e(1)] using d by (force simp: map_of_eq_Some_iff)
  have "inj_on snd (set (ix_byHandle ?e))"
    using e(1) d unfolding index_ok_def inj_on_def by (metis map_of_eq_Some_iff prod.collapse)
  then have "distinct (map snd (ix_byHandle ?e))"
    using d by (simp add: distinct_map inj_on_def)
  then have "distinct (filter (dasMatch q) (map snd (ix_byHandle ?e)))" by (rule distinct_filter)
  then have "set (filter (dasMatch q) (map snd (ix_byHandle ?e))) = {rec} \<longleftrightarrow>
      filter (dasMatch q) (map snd (ix_byHandle ?e)) = [rec]"
    by (rule distinct_singleton)
  moreover have "{r. dasMatch q r \<and> index_abs ?e (sr_Key r) = Some r} = set (filter (dasMatch q) (map snd (ix_byHandle ?e)))"
    unfolding mem [symmetric] by auto
  moreover have "fst (snd (FindDAS q now s)) = Some rec \<longleftrightarrow> filter (dasMatch q) (map snd (ix_byHandle ?e)) = [rec]"
    by (auto simp: FindDAS_def Let_def split: list.split)
  ultimately show "fst (snd (FindDAS q now s)) = Some rec \<longleftrightarrow>
      {r. dasMatch q r \<and> liveAt now ttl (index_abs s) (sr_Key r) = Some r} = {rec}"
    unfolding e(2) [symmetric] by simp
next
  show "\<exists>s. index_reach 1 300 10 s \<and> ix_bytes s > 300" by (rule wit_index_exceeds)
qed

theorem session_index_refines_witness:
  "\<exists>h. length h = 26 \<and>
     index_abs (fst (index_Apply wit_start 1 1 wit_index)) (eventKey wit_start) =
       Some ((fill wit_start 1 (emptyRecord (eventKey wit_start)))\<lparr>sr_Handle := h\<rparr>)"
proof -
  have none: "liveAt 1 10 (index_abs wit_index) (eventKey wit_start) = None"
    by (simp add: liveAt_def index_abs_def wit_index_def)
  have kind: "ae_Kind wit_start = ''start''" "ae_SessionID wit_start \<noteq> ''''" by (simp_all add: wit_start_def)
  show ?thesis
    using session_index_refines [OF wit_index_start prod.collapse [symmetric] refl refl, of wit_start 1 1]
      kind none wit_index_calls(1) by auto
qed

theorem session_index_bounds_witness:
  "ix_bytes (index_call (CallApply wit_start 1 1) wit_index) =
     int (tbl_sum record_size (ix_byHandle (index_call (CallApply wit_start 1 1) wit_index)))"
  using session_index_bounds [of 1 300 10 "index_call (CallApply wit_start 1 1) wit_index"] icall [OF wit_index_start]
  by blast

end
