(* ===== verification/Aaa_Accounting.thy ===== *)
theory Aaa_Accounting
  imports Event_Ring Session_Index Go_Ascii
begin

text \<open>
  RADIUS accounting in the AAA service (\<open>internal/aaa/radius_accounting.go\<close>): a decoded
  record becomes one event of the ring and one update of the session index. The settings of
  the published snapshot are an option (\<open>None\<close> is the nil snapshot or nil settings). A
  duration and a time are integers in nanoseconds.
\<close>

record AAASettings =
  set_IncludeSuccessfulAuthentication :: bool
  set_IncludeFailedAuthentication :: bool
  set_IncludeAuthorization :: bool
  set_IncludeAccounting :: bool
  set_MaxUsernameBytes :: int
  set_MaxPortBytes :: int
  set_MaxRemoteAddressBytes :: int
  set_MaxAuthenticationRounds :: int
  set_MaxAuthorizationArguments :: int
  set_MaxArgumentBytes :: int

text \<open>An error of a call is a cancelled context or an error value of the program.\<close>

datatype callErr = ErrContext | ErrDomain Error

definition includeAccounting :: "AAASettings option \<Rightarrow> bool" where
  "includeAccounting snap = (case snap of None \<Rightarrow> True | Some s \<Rightarrow> set_IncludeAccounting s)"

subsection \<open>Records\<close>

abbreviation (input) AccountingStart :: string where "AccountingStart \<equiv> ''start''"
abbreviation (input) AccountingStop :: string where "AccountingStop \<equiv> ''stop''"
abbreviation (input) AccountingInterim :: string where "AccountingInterim \<equiv> ''interim_update''"
abbreviation (input) AccountingOn :: string where "AccountingOn \<equiv> ''accounting_on''"
abbreviation (input) AccountingOff :: string where "AccountingOff \<equiv> ''accounting_off''"

definition AccountingKind_Valid :: "string \<Rightarrow> bool" where
  "AccountingKind_Valid k \<longleftrightarrow>
     k \<in> set [AccountingStart, AccountingStop, AccountingInterim, AccountingOn, AccountingOff]"

record SafeAttributeSummary =
  sa_Name :: string
  sa_Count :: int

record RequestContext =
  rc_Protocol :: string
  rc_Carrier :: string
  rc_ListenerRole :: string
  rc_ListenerID :: string
  rc_ClientID :: string
  rc_EndpointID :: string
  rc_Peer :: AddrPort
  rc_SnapshotRevision :: uint64
  rc_CorrelationID :: string
  rc_ReceivedAt :: "int option"

record RADIUSAccountingRecord =
  ra_Context :: RequestContext
  ra_Kind :: string
  ra_UserID :: string
  ra_SessionID :: string
  ra_StartedAt :: "int option"
  ra_SessionTime :: int
  ra_InputOctets :: uint64
  ra_OutputOctets :: uint64
  ra_TerminateCause :: string
  ra_SafeAttributes :: "SafeAttributeSummary list"
  ra_IdempotencyKey :: string
  ra_NASIP :: Addr
  ra_NASIdentifier :: string
  ra_NASPort :: uint32
  ra_Class :: bytes

record AccountingResult =
  ar_OK :: bool
  ar_EventID :: uint64

subsection \<open>The steps of recording\<close>

definition terminateCauses :: "(string \<times> string) list" where
  "terminateCauses =
     [(''user-request'', ''User-Request''), (''lost-carrier'', ''Lost-Carrier''), (''lost-service'', ''Lost-Service''),
      (''idle-timeout'', ''Idle-Timeout''), (''session-timeout'', ''Session-Timeout''), (''admin-reset'', ''Admin-Reset''),
      (''admin-reboot'', ''Admin-Reboot''), (''port-error'', ''Port-Error''), (''nas-error'', ''NAS-Error''),
      (''nas-request'', ''NAS-Request''), (''nas-reboot'', ''NAS-Reboot''), (''port-unneeded'', ''Port-Unneeded''),
      (''port-preempted'', ''Port-Preempted''), (''port-suspended'', ''Port-Suspended''),
      (''service-unavailable'', ''Service-Unavailable''), (''callback'', ''Callback''), (''user-error'', ''User-Error''),
      (''host-request'', ''Host-Request'')]"

definition canonicalTerminateCause :: "string \<Rightarrow> string option" where
  "canonicalTerminateCause s =
     map_of terminateCauses (ToLower (replaceChar (CHR ''_'') (CHR ''-'') (TrimSpace s)))"

definition CheckCount :: "string \<Rightarrow> int \<Rightarrow> int \<Rightarrow> Error + unit" where
  "CheckCount name n mx =
     (if mx \<le> 0 \<or> n \<le> mx then Inr ()
      else Inl (WithPath (NewError ''OBJECT_LIMIT_EXCEEDED'' ''object or field count exceeds configured limit'') name))"

definition checkSafeAttributeBudget :: "AAASettings option \<Rightarrow> SafeAttributeSummary list \<Rightarrow> Error + unit" where
  "checkSafeAttributeBudget snap attrs =
     (if length attrs = 0 then Inr ()
      else let maxArgs = (case snap of
                            Some s \<Rightarrow> if set_MaxAuthorizationArguments s > 0 then set_MaxAuthorizationArguments s else 256
                          | None \<Rightarrow> 256)
           in CheckCount ''arguments'' (int (length attrs)) maxArgs)"

abbreviation (input) RedactedValue :: string where "RedactedValue \<equiv> ''<redacted>''"

definition RedactedAV :: "string \<Rightarrow> EventAV" where
  "RedactedAV name = \<lparr>ea_Name = name, ea_Separator = '''', ea_Value = RedactedValue\<rparr>"

definition namesSession :: "string \<Rightarrow> bool" where
  "namesSession name \<longleftrightarrow> EqualFold name ''Acct-Session-Id'' \<or> HasPrefix (ToLower name) ''acct-session-id#''"

text \<open>The loop over the summaries: the redacted pairs and whether the session was named.\<close>

fun safeLoop :: "SafeAttributeSummary list \<Rightarrow> bool \<Rightarrow> EventAV list \<Rightarrow> bool \<times> EventAV list" where
  "safeLoop [] seen out = (seen, out)"
| "safeLoop (a # attrs) seen out =
     (let name = TrimSpace (sa_Name a)
      in if name = '''' then safeLoop attrs seen out
         else let seen = (namesSession name \<or> seen);
                  name = (if sa_Count a > 1 then name @ ''#'' @ Itoa (nat (sa_Count a)) else name)
              in safeLoop attrs seen (out @ [RedactedAV name]))"

definition plainAV :: "string \<Rightarrow> string \<Rightarrow> EventAV" where
  "plainAV name v = \<lparr>ea_Name = name, ea_Separator = '''', ea_Value = v\<rparr>"

definition radiusAccountingAVs :: "RADIUSAccountingRecord \<Rightarrow> EventAV list" where
  "radiusAccountingAVs rec =
     (let (seenSession, out) = safeLoop (ra_SafeAttributes rec) False []
      in out @
         (if ra_SessionID rec \<noteq> '''' \<and> \<not> seenSession then [RedactedAV ''Acct-Session-Id''] else []) @
         (if ra_InputOctets rec \<noteq> 0 then [plainAV ''Acct-Input-Octets'' (Itoa (unat (ra_InputOctets rec)))] else []) @
         (if ra_OutputOctets rec \<noteq> 0 then [plainAV ''Acct-Output-Octets'' (Itoa (unat (ra_OutputOctets rec)))] else []) @
         (if ra_SessionTime rec > 0 then [plainAV ''Acct-Session-Time'' (Itoa (nat (ra_SessionTime rec div 1000000000)))] else []) @
         (if ra_TerminateCause rec \<noteq> '''' then [plainAV ''Acct-Terminate-Cause'' (ra_TerminateCause rec)] else []))"

definition toSessionEvent :: "RADIUSAccountingRecord \<Rightarrow> AcctEvent" where
  "toSessionEvent rec =
     \<lparr>ae_Kind = ra_Kind rec, ae_EndpointID = rc_EndpointID (ra_Context rec), ae_ClientID = rc_ClientID (ra_Context rec),
      ae_UserID = ra_UserID rec, ae_SessionID = ra_SessionID rec, ae_NASIP = ra_NASIP rec,
      ae_NASIdentifier = ra_NASIdentifier rec, ae_NASPort = ra_NASPort rec, ae_Peer = rc_Peer (ra_Context rec),
      ae_Class = ra_Class rec, ae_StartedAt = ra_StartedAt rec, ae_Revision = rc_SnapshotRevision (ra_Context rec)\<rparr>"

definition accountingEvent :: "AAASettings option \<Rightarrow> RADIUSAccountingRecord \<Rightarrow> Event" where
  "accountingEvent snap rec =
     (let c = ra_Context rec
      in zeroEvent\<lparr>
           ev_Category := ''acct'', ev_Type := ra_Kind rec, ev_Result := ''success'',
           ev_Protocol := (if rc_Protocol c = '''' then ''radius'' else rc_Protocol c), ev_Carrier := rc_Carrier c,
           ev_ListenerRole := (if rc_ListenerRole c = '''' then ''accounting'' else rc_ListenerRole c),
           ev_ListenerID := rc_ListenerID c, ev_EndpointID := rc_EndpointID c, ev_ClientID := rc_ClientID c,
           ev_Revision := rc_SnapshotRevision c, ev_UserID := ra_UserID rec, ev_AcctSessionID := ra_SessionID rec,
           ev_Outcome := ''success'', ev_SuppressExport := \<not> includeAccounting snap,
           ev_Remote := (if fst (rc_Peer c) \<noteq> None then AddrPort_String (rc_Peer c) else ''''),
           ev_StartTime := ra_StartedAt rec, ev_Arguments := radiusAccountingAVs rec\<rparr>)"

text \<open>
  The sinks of the service: the ring and, where configured, the session index. The clock of
  the ring is read once and that of the index twice.
\<close>

record acctSinks =
  sn_ring :: Ring
  sn_index :: "SessionIndex option"

definition prepareRecord :: "bool \<Rightarrow> AAASettings option \<Rightarrow> RADIUSAccountingRecord \<Rightarrow> callErr + RADIUSAccountingRecord" where
  "prepareRecord ctxDone snap rec =
     (if ctxDone then Inl ErrContext
      else if \<not> AccountingKind_Valid (ra_Kind rec)
        then Inl (ErrDomain (NewError CodeInvalidArgument
               ''accounting kind must be start, stop, interim_update, accounting_on, or accounting_off''))
      else if rc_Protocol (ra_Context rec) \<noteq> '''' \<and> rc_Protocol (ra_Context rec) \<noteq> ''radius''
        then Inl (ErrDomain (NewError CodeInvalidArgument ''RADIUS accounting protocol must be radius''))
      else case (if ra_TerminateCause rec = '''' then Some '''' else canonicalTerminateCause (ra_TerminateCause rec)) of
        None \<Rightarrow> Inl (ErrDomain (NewError CodeInvalidArgument ''unknown accounting terminate cause''))
      | Some canon \<Rightarrow>
          (case checkSafeAttributeBudget snap (ra_SafeAttributes rec) of
             Inl e \<Rightarrow> Inl (ErrDomain e)
           | Inr _ \<Rightarrow> Inr (rec\<lparr>ra_TerminateCause := canon\<rparr>)))"

definition RecordRADIUSAccounting ::
  "bool \<Rightarrow> AAASettings option \<Rightarrow> int \<Rightarrow> int \<times> int \<Rightarrow> RADIUSAccountingRecord \<Rightarrow> acctSinks \<Rightarrow>
   acctSinks \<times> (callErr + AccountingResult)" where
  "RecordRADIUSAccounting ctxDone snap now idxNow rec s =
     (case prepareRecord ctxDone snap rec of
        Inl e \<Rightarrow> (s, Inl e)
      | Inr rec \<Rightarrow>
          (let (r, accepted) = ring_Accept now (accountingEvent snap rec) (sn_ring s);
               s = s\<lparr>sn_ring := r\<rparr>
           in if ev_ID accepted = 0
              then (s, Inl (ErrDomain (NewError ''internal'' ''accounting ring rejected the record'')))
              else (s\<lparr>sn_index := map_option (\<lambda>ix. fst (index_Apply (toSessionEvent rec) (fst idxNow) (snd idxNow) ix)) (sn_index s)\<rparr>,
                    Inr \<lparr>ar_OK = True, ar_EventID = ev_ID accepted\<rparr>)))"

end
