(* ===== verification/Radius_Accounting.thy ===== *)
theory Radius_Accounting
  imports Aaa_Accounting Radius_Reply Radius_Journal Radius_Dictionary
begin

text \<open>
  The accounting handler of the RADIUS server (\<open>internal/radius/server/accounting.go\<close>) over
  the semantic journal, the minute sampler, the event ring and the session index.

  \<open>Accounting_Handle\<close> is the whole handler as one caller sees it when nobody holds its journal
  key. Listener workers run it concurrently: the transition system \<open>acct_step\<close> interleaves the
  pieces of any number of requests at the points where the code takes a lock (each try of
  \<open>Begin\<close>, the recording, the deferred \<open>Finish\<close>), with the cancellation of a request possible
  at any point.
\<close>

subsection \<open>Reading attributes\<close>

abbreviation (input) TypeUserName :: byte where "TypeUserName \<equiv> 1"
abbreviation (input) TypeNASIPAddress :: byte where "TypeNASIPAddress \<equiv> 4"
abbreviation (input) TypeNASPort :: byte where "TypeNASPort \<equiv> 5"
abbreviation (input) TypeClass :: byte where "TypeClass \<equiv> 25"
abbreviation (input) TypeNASIdentifier :: byte where "TypeNASIdentifier \<equiv> 32"
abbreviation (input) TypeAcctStatusType :: byte where "TypeAcctStatusType \<equiv> 40"
abbreviation (input) TypeAcctDelayTime :: byte where "TypeAcctDelayTime \<equiv> 41"
abbreviation (input) TypeAcctInputOctets :: byte where "TypeAcctInputOctets \<equiv> 42"
abbreviation (input) TypeAcctOutputOctets :: byte where "TypeAcctOutputOctets \<equiv> 43"
abbreviation (input) TypeAcctSessionID :: byte where "TypeAcctSessionID \<equiv> 44"
abbreviation (input) TypeAcctSessionTime :: byte where "TypeAcctSessionTime \<equiv> 46"
abbreviation (input) TypeAcctInputPackets :: byte where "TypeAcctInputPackets \<equiv> 47"
abbreviation (input) TypeAcctOutputPackets :: byte where "TypeAcctOutputPackets \<equiv> 48"
abbreviation (input) TypeAcctTerminateCause :: byte where "TypeAcctTerminateCause \<equiv> 49"
abbreviation (input) TypeAcctInputGigawords :: byte where "TypeAcctInputGigawords \<equiv> 52"
abbreviation (input) TypeAcctOutputGigawords :: byte where "TypeAcctOutputGigawords \<equiv> 53"
abbreviation (input) TypeEventTimestamp :: byte where "TypeEventTimestamp \<equiv> 55"
abbreviation (input) TypeNASIPv6Address :: byte where "TypeNASIPv6Address \<equiv> 95"

definition uint32Val :: "Raw \<Rightarrow> uint32 option" where
  "uint32Val a =
     (case raw_Value a of
        [b0, b1, b2, b3] \<Rightarrow> Some (push_bit 24 (ucast b0) OR push_bit 16 (ucast b1) OR push_bit 8 (ucast b2) OR ucast b3)
      | _ \<Rightarrow> None)"

definition firstUint32 :: "RawSet \<Rightarrow> byte \<Rightarrow> uint32 option" where
  "firstUint32 attrs ty = Option.bind (RawSet_First attrs ty) uint32Val"

definition textAttr :: "RawSet \<Rightarrow> byte \<Rightarrow> string" where
  "textAttr attrs ty =
     (case RawSet_First attrs ty of
        None \<Rightarrow> ''''
      | Some a \<Rightarrow> if length (raw_Value a) = 0 then '''' else string_of_bytes (raw_Value a))"

definition foldedOctets :: "RawSet \<Rightarrow> byte \<Rightarrow> byte \<Rightarrow> uint64" where
  "foldedOctets attrs lo hi =
     (case firstUint32 attrs lo of None \<Rightarrow> 0 | Some v \<Rightarrow> ucast v) +
     (case firstUint32 attrs hi of None \<Rightarrow> 0 | Some v \<Rightarrow> push_bit 32 (ucast v))"

definition durationAttr :: "RawSet \<Rightarrow> byte \<Rightarrow> int" where
  "durationAttr attrs ty = (case firstUint32 attrs ty of None \<Rightarrow> 0 | Some v \<Rightarrow> uint v * 1000000000)"

definition timeAttr :: "RawSet \<Rightarrow> byte \<Rightarrow> int option" where
  "timeAttr attrs ty = map_option (\<lambda>v. uint v * 1000000000) (firstUint32 attrs ty)"

definition terminateCauseByNum :: "(uint32 \<times> string) list" where
  "terminateCauseByNum =
     [(1, ''User-Request''), (2, ''Lost-Carrier''), (3, ''Lost-Service''), (4, ''Idle-Timeout''), (5, ''Session-Timeout''),
      (6, ''Admin-Reset''), (7, ''Admin-Reboot''), (8, ''Port-Error''), (9, ''NAS-Error''), (10, ''NAS-Request''),
      (11, ''NAS-Reboot''), (12, ''Port-Unneeded''), (13, ''Port-Preempted''), (14, ''Port-Suspended''),
      (15, ''Service-Unavailable''), (16, ''Callback''), (17, ''User-Error''), (18, ''Host-Request'')]"

definition terminateCauseName :: "RawSet \<Rightarrow> string" where
  "terminateCauseName attrs =
     (case firstUint32 attrs TypeAcctTerminateCause of
        None \<Rightarrow> ''''
      | Some v \<Rightarrow> (case map_of terminateCauseByNum v of None \<Rightarrow> '''' | Some n \<Rightarrow> n))"

text \<open>Names in the order of their first occurrence, with their number of occurrences.\<close>

definition summaryName :: "Raw \<Rightarrow> string" where
  "summaryName raw =
     (let name = sum_Name (Summarize Builtin raw)
      in if name = '''' then ''Type-'' @ Itoa (unat (raw_Type raw)) else name)"

fun countLoop :: "RawSet \<Rightarrow> string list \<Rightarrow> (string \<Rightarrow> int) \<Rightarrow> string list \<times> (string \<Rightarrow> int)" where
  "countLoop [] order counts = (order, counts)"
| "countLoop (raw # attrs) order counts =
     (let name = summaryName raw
      in countLoop attrs (if name \<in> set order then order else order @ [name]) (counts(name := counts name + 1)))"

definition summarizeAttrs :: "RawSet \<Rightarrow> SafeAttributeSummary list" where
  "summarizeAttrs attrs =
     (let (order, counts) = countLoop attrs [] (\<lambda>_. 0)
      in map (\<lambda>name. \<lparr>sa_Name = name, sa_Count = counts name\<rparr>) order)"

subsection \<open>The semantic identity\<close>

definition mapAcctStatus :: "RawSet \<Rightarrow> string option" where
  "mapAcctStatus attrs =
     (case AllOf attrs TypeAcctStatusType of
        [a] \<Rightarrow>
          (case uint32Val a of
             None \<Rightarrow> None
           | Some v \<Rightarrow>
               if v = 1 then Some AccountingStart
               else if v = 2 then Some AccountingStop
               else if v = 3 then Some AccountingInterim
               else if v = 7 then Some AccountingOn
               else if v = 8 then Some AccountingOff
               else None)
      | _ \<Rightarrow> None)"

definition statusAllowed :: "string \<Rightarrow> string list \<Rightarrow> bool" where
  "statusAllowed kind allow \<longleftrightarrow>
     AccountingKind_Valid kind \<and> (length allow = 0 \<or> kind \<in> set allow)"

definition typedBytes :: "byte \<Rightarrow> bytes \<Rightarrow> bytes" where
  "typedBytes ty v = [ty, of_nat (length v)] @ v"

definition writeTyped :: "RawSet \<Rightarrow> byte \<Rightarrow> bytes" where
  "writeTyped attrs ty =
     (case RawSet_First attrs ty of None \<Rightarrow> [ty, 0] | Some a \<Rightarrow> typedBytes ty (raw_Value a))"

definition fingerprintInput :: "string \<Rightarrow> RawSet \<Rightarrow> bytes" where
  "fingerprintInput kind attrs =
     (if kind = AccountingInterim
      then concat (map (writeTyped attrs)
             [TypeEventTimestamp, TypeAcctSessionTime, TypeAcctInputOctets, TypeAcctInputGigawords,
              TypeAcctOutputOctets, TypeAcctOutputGigawords, TypeAcctInputPackets, TypeAcctOutputPackets])
      else concat (map (\<lambda>a. typedBytes (raw_Type a) (raw_Value a))
             (filter (\<lambda>a. raw_Type a \<notin> {TypeAcctDelayTime, TypeMessageAuthenticator, TypeProxyState}) attrs)))"

definition eventFingerprint :: "string \<Rightarrow> RawSet \<Rightarrow> bytes" where
  "eventFingerprint kind attrs = sha256 (fingerprintInput kind attrs)"

definition firstWith :: "RawSet \<Rightarrow> byte \<Rightarrow> (nat \<Rightarrow> bool) \<Rightarrow> bytes option" where
  "firstWith attrs ty ok =
     (case RawSet_First attrs ty of
        Some a \<Rightarrow> if ok (length (raw_Value a)) then Some (raw_Value a) else None
      | None \<Rightarrow> None)"

definition nasIdentity :: "RawSet \<Rightarrow> string" where
  "nasIdentity attrs =
     (case firstWith attrs TypeNASIPAddress (\<lambda>n. n = 4) of
        Some v \<Rightarrow> ''ip4:'' @ IP_String v
      | None \<Rightarrow>
          (case firstWith attrs TypeNASIPv6Address (\<lambda>n. n = 16) of
             Some v \<Rightarrow> ''ip6:'' @ IP_String v
           | None \<Rightarrow>
               (case firstWith attrs TypeNASIdentifier (\<lambda>n. n > 0) of
                  Some v \<Rightarrow> ''id:'' @ string_of_bytes v
                | None \<Rightarrow> '''')))"

definition acctKey :: "RadiusRequest \<Rightarrow> string \<Rightarrow> JournalKey" where
  "acctKey q kind =
     (let attrs = pk_Attributes (rq_Packet q)
      in \<lparr>jk_EndpointID = rq_EndpointID q, jk_SrcIP = Addr_String (fst (rq_Peer q)), jk_SrcPort = snd (rq_Peer q),
          jk_SessionID = textAttr attrs TypeAcctSessionID, jk_StatusType = kind, jk_NAS = nasIdentity attrs,
          jk_Fingerprint = eventFingerprint kind attrs\<rparr>)"

subsection \<open>The record handed to the AAA service\<close>

definition buildRADIUSRecord :: "RadiusRequest \<Rightarrow> string \<Rightarrow> string \<Rightarrow> JournalKey \<Rightarrow> RADIUSAccountingRecord" where
  "buildRADIUSRecord q kind sessionID key =
     (let attrs = pk_Attributes (rq_Packet q)
      in \<lparr>ra_Context = \<lparr>rc_Protocol = ''radius'', rc_Carrier = requestCarrier q, rc_ListenerRole = ''accounting'',
            rc_ListenerID = rq_ListenerID q, rc_ClientID = rq_ClientID q, rc_EndpointID = rq_EndpointID q,
            rc_Peer = rq_Peer q, rc_SnapshotRevision = rq_Revision q, rc_CorrelationID = '''', rc_ReceivedAt = None\<rparr>,
          ra_Kind = kind, ra_UserID = textAttr attrs TypeUserName, ra_SessionID = sessionID,
          ra_StartedAt = timeAttr attrs TypeEventTimestamp, ra_SessionTime = durationAttr attrs TypeAcctSessionTime,
          ra_InputOctets = foldedOctets attrs TypeAcctInputOctets TypeAcctInputGigawords,
          ra_OutputOctets = foldedOctets attrs TypeAcctOutputOctets TypeAcctOutputGigawords,
          ra_TerminateCause = terminateCauseName attrs, ra_SafeAttributes = summarizeAttrs attrs,
          ra_IdempotencyKey = EncodeToString (jk_Fingerprint key),
          ra_NASIP = map_option IPv4_String (firstWith attrs TypeNASIPAddress (\<lambda>n. n = 4)),
          ra_NASIdentifier = textAttr attrs TypeNASIdentifier,
          ra_NASPort = (case firstUint32 attrs TypeNASPort of None \<Rightarrow> 0 | Some v \<Rightarrow> v),
          ra_Class = (case firstWith attrs TypeClass (\<lambda>n. n > 0) of None \<Rightarrow> [] | Some v \<Rightarrow> v)\<rparr>)"

subsection \<open>The handler\<close>

record acctWorld =
  aw_journal :: "journal option"
  aw_sampler :: "minuteSampler option"
  aw_sinks :: "acctSinks option"

definition accountingReply :: "RadiusRequest \<Rightarrow> string \<Rightarrow> bool \<Rightarrow> RadiusResult" where
  "accountingReply q reason saturated = signedReply q CodeAccountingResponse reason saturated"

text \<open>The checks before the journal: a result, or the kind of the record.\<close>

definition acct_admit :: "bool \<Rightarrow> RadiusRequest \<Rightarrow> RadiusResult + string" where
  "acct_admit ctxDone q =
     (if ctxDone then Inl (discard ''drop_overload'')
      else if rq_Role q \<noteq> RoleAccounting then Inl (discard ''discard_invalid_code'')
      else if pk_Code (rq_Packet q) \<noteq> CodeAccountingRequest then Inl (discard ''discard_invalid_code'')
      else let reason = CheckAccountingIntegrity (rq_Secret q) (rq_Declared q) (rq_Packet q)
           in if reason \<noteq> '''' then Inl (discard reason)
              else case mapAcctStatus (pk_Attributes (rq_Packet q)) of
                None \<Rightarrow> Inl (discard ''discard_unknown_acct_status'')
              | Some kind \<Rightarrow>
                  if \<not> statusAllowed kind (rq_AcceptStatusTypes q) then Inl (discard ''discard_unknown_acct_status'')
                  else Inr kind)"

text \<open>
  The clock readings of one recording: the sampler's, the ring's and the two of the index.
\<close>

record acctClock =
  ck_sampler :: int
  ck_ring :: int
  ck_index :: "int \<times> int"

definition acct_sink ::
  "bool \<Rightarrow> AAASettings option \<Rightarrow> acctClock \<Rightarrow> RadiusRequest \<Rightarrow> string \<Rightarrow> bool \<Rightarrow> acctWorld \<Rightarrow> acctWorld \<times> bool \<times> RadiusResult" where
  "acct_sink ctxDone snap ck q kind saturated w =
     (case aw_sinks w of
        None \<Rightarrow> (w, False, discard ''internal_error'')
      | Some sinks \<Rightarrow>
          (let rec = buildRADIUSRecord q kind (textAttr (pk_Attributes (rq_Packet q)) TypeAcctSessionID) (acctKey q kind);
               (sinks, res) = RecordRADIUSAccounting ctxDone snap (ck_ring ck) (ck_index ck) rec sinks;
               w = w\<lparr>aw_sinks := Some sinks\<rparr>
           in case res of
                Inl e \<Rightarrow> (w, False, discard ''internal_error'')
              | Inr r \<Rightarrow> if \<not> ar_OK r \<or> ar_EventID r = 0 then (w, False, discard ''internal_error'')
                        else (w, True, accountingReply q ''ok'' saturated)))"

text \<open>
  From the ambiguity test to the result; the flag is the variable \<open>accepted\<close> that the
  deferred \<open>Finish\<close> reads.
\<close>

definition acct_record ::
  "bool \<Rightarrow> AAASettings option \<Rightarrow> acctClock \<Rightarrow> RadiusRequest \<Rightarrow> string \<Rightarrow> bool \<Rightarrow> acctWorld \<Rightarrow> acctWorld \<times> bool \<times> RadiusResult" where
  "acct_record ctxDone snap ck q kind saturated w =
     (if jk_SessionID (acctKey q kind) = '''' \<and> jk_NAS (acctKey q kind) = ''''
      then (let (smp, allow) = sampler_Allow (ck_sampler ck) (aw_sampler w);
                w = w\<lparr>aw_sampler := smp\<rparr>
            in if \<not> allow then (w, True, accountingReply q ''ambiguous_identity'' False)
               else acct_sink ctxDone snap ck q kind saturated w)
      else acct_sink ctxDone snap ck q kind saturated w)"

text \<open>
  The whole handler for one caller. The three flags say whether the context is done at the
  first test, in \<open>Begin\<close> and in the AAA call; \<open>tbegin\<close> and \<open>tfinish\<close> are the journal's clock
  readings. \<open>None\<close> is the wait for another owner of the same key.
\<close>

definition Accounting_Handle ::
  "bool \<times> bool \<times> bool \<Rightarrow> AAASettings option \<Rightarrow> int \<Rightarrow> acctClock \<Rightarrow> int \<Rightarrow> RadiusRequest \<Rightarrow> acctWorld \<Rightarrow> (acctWorld \<times> RadiusResult) option" where
  "Accounting_Handle ctx snap tbegin ck tfinish q w =
     (case acct_admit (fst ctx) q of
        Inl res \<Rightarrow> Some (w, res)
      | Inr kind \<Rightarrow>
          (case aw_journal w of
             None \<Rightarrow> (let (w, accepted, res) = acct_record (snd (snd ctx)) snap ck q kind False w in Some (w, res))
           | Some j \<Rightarrow>
               if fst (snd ctx) then Some (w, discard ''drop_overload'')
               else (let (j, out) = journal_attempt (acctKey q kind) tbegin j; w = w\<lparr>aw_journal := Some j\<rparr>
                     in case out of
                          BeginWait \<Rightarrow> None
                        | BeginDuplicate \<Rightarrow> Some (w, accountingReply q ''ok'' False)
                        | BeginSaturated \<Rightarrow>
                            (let (w, accepted, res) = acct_record (snd (snd ctx)) snap ck q kind True w in Some (w, res))
                        | BeginOwner \<Rightarrow>
                            (let (w, accepted, res) = acct_record (snd (snd ctx)) snap ck q kind False w
                             in Some (w\<lparr>aw_journal := map_option (journal_Finish (acctKey q kind) accepted tfinish) (aw_journal w)\<rparr>, res)))))"

subsection \<open>Concurrent requests\<close>

text \<open>
  A request that passed the checks is a task: it tries \<open>Begin\<close> (again after each wait), records
  as the owner of its key or as a saturated caller, and an owner finishes the key. Next to
  the state of the program, the system keeps what an observer would note: the operations on
  the ring, and for each recording its key, whether the key was owned, the time and the
  event the ring accepted.
\<close>

datatype acctPhase = AtBegin | AtRecord bool | AtFinish bool RadiusResult | AtEnd RadiusResult

record acctTask =
  tk_req :: RadiusRequest
  tk_kind :: string
  tk_ctxDone :: bool
  tk_phase :: acctPhase

record acctLog =
  lg_key :: JournalKey
  lg_owned :: bool
  lg_time :: int
  lg_event :: Event

record acctSys =
  sy_world :: acctWorld
  sy_tasks :: "acctTask list"
  sy_now :: int
  sy_ops :: "ring_op list"
  sy_log :: "acctLog list"

definition tkey :: "acctTask \<Rightarrow> JournalKey" where
  "tkey t = acctKey (tk_req t) (tk_kind t)"

definition clockAt :: "int \<Rightarrow> acctClock" where
  "clockAt now = \<lparr>ck_sampler = now, ck_ring = now, ck_index = (now, now)\<rparr>"

definition ambiguousKey :: "JournalKey \<Rightarrow> bool" where
  "ambiguousKey k \<longleftrightarrow> jk_SessionID k = '''' \<and> jk_NAS k = ''''"

text \<open>The event a recording offers to the ring, if it gets that far.\<close>

definition acct_offer :: "bool \<Rightarrow> AAASettings option \<Rightarrow> int \<Rightarrow> RadiusRequest \<Rightarrow> string \<Rightarrow> acctWorld \<Rightarrow> Event option" where
  "acct_offer ctxDone snap now q kind w =
     (if aw_sinks w = None \<or> ambiguousKey (acctKey q kind) \<and> \<not> snd (sampler_Allow now (aw_sampler w)) then None
      else case prepareRecord ctxDone snap
                  (buildRADIUSRecord q kind (textAttr (pk_Attributes (rq_Packet q)) TypeAcctSessionID) (acctKey q kind)) of
             Inl _ \<Rightarrow> None
           | Inr rec \<Rightarrow> Some (accountingEvent snap rec))"

definition sysRing :: "acctSys \<Rightarrow> Ring option" where
  "sysRing s = map_option sn_ring (aw_sinks (sy_world s))"

datatype acctAct = Arrive RadiusRequest | Pass nat | CancelTask nat | TryBegin nat | DoRecord nat | DoFinish nat | RingEnv ring_op

definition setTask :: "nat \<Rightarrow> acctPhase \<Rightarrow> acctSys \<Rightarrow> acctSys" where
  "setTask i ph s = s\<lparr>sy_tasks := (sy_tasks s)[i := (sy_tasks s ! i)\<lparr>tk_phase := ph\<rparr>]\<rparr>"

definition tryBegin :: "nat \<Rightarrow> acctTask \<Rightarrow> acctSys \<Rightarrow> acctSys" where
  "tryBegin i t s =
     (case aw_journal (sy_world s) of
        None \<Rightarrow> setTask i (AtRecord False) s
      | Some j \<Rightarrow>
          if tk_ctxDone t then setTask i (AtEnd (discard ''drop_overload'')) s
          else (let (j, out) = journal_attempt (tkey t) (sy_now s) j;
               s = s\<lparr>sy_world := (sy_world s)\<lparr>aw_journal := Some j\<rparr>\<rparr>
           in case out of
                BeginWait \<Rightarrow> s
              | BeginDuplicate \<Rightarrow> setTask i (AtEnd (accountingReply (tk_req t) ''ok'' False)) s
              | BeginSaturated \<Rightarrow> setTask i (AtRecord False) s
              | BeginOwner \<Rightarrow> setTask i (AtRecord True) s))"

definition doRecord :: "AAASettings option \<Rightarrow> nat \<Rightarrow> acctTask \<Rightarrow> bool \<Rightarrow> acctSys \<Rightarrow> acctSys" where
  "doRecord snap i t owned s =
     (let w = sy_world s;
          offer = acct_offer (tk_ctxDone t) snap (sy_now s) (tk_req t) (tk_kind t) w;
          (w', accepted, res) = acct_record (tk_ctxDone t) snap (clockAt (sy_now s)) (tk_req t) (tk_kind t)
                                  (aw_journal w \<noteq> None \<and> \<not> owned) w
      in setTask i (if owned then AtFinish accepted res else AtEnd res)
           (case (offer, sysRing s) of
              (Some e, Some r) \<Rightarrow>
                s\<lparr>sy_world := w', sy_ops := sy_ops s @ [OpAccept (sy_now s) e],
                  sy_log := sy_log s @ (if accepted
                    then [\<lparr>lg_key = tkey t, lg_owned = owned, lg_time = sy_now s, lg_event = snd (ring_Accept (sy_now s) e r)\<rparr>]
                    else [])\<rparr>
            | _ \<Rightarrow> s\<lparr>sy_world := w'\<rparr>))"

definition doFinish :: "nat \<Rightarrow> acctTask \<Rightarrow> bool \<Rightarrow> RadiusResult \<Rightarrow> acctSys \<Rightarrow> acctSys" where
  "doFinish i t accepted res s =
     setTask i (AtEnd res)
       (s\<lparr>sy_world := (sy_world s)\<lparr>aw_journal := map_option (journal_Finish (tkey t) accepted (sy_now s)) (aw_journal (sy_world s))\<rparr>\<rparr>)"

text \<open>One operation of another component on the ring.\<close>

definition ringEnv :: "ring_op \<Rightarrow> acctSys \<Rightarrow> acctSys" where
  "ringEnv op s =
     (case aw_sinks (sy_world s) of
        None \<Rightarrow> s
      | Some sinks \<Rightarrow>
          s\<lparr>sy_world := (sy_world s)\<lparr>aw_sinks := Some (sinks\<lparr>sn_ring :=
              tr_ring (ring_step op \<lparr>tr_ring = sn_ring sinks, tr_log = [], tr_from = (\<lambda>_. 0), tr_got = (\<lambda>_. [])\<rparr>)\<rparr>)\<rparr>,
            sy_ops := sy_ops s @ [op]\<rparr>)"

text \<open>A step that is not enabled does nothing.\<close>

fun acct_step :: "AAASettings option \<Rightarrow> acctAct \<Rightarrow> acctSys \<Rightarrow> acctSys" where
  "acct_step snap (Arrive q) s =
     s\<lparr>sy_tasks := sy_tasks s @
        [case acct_admit False q of
           Inl res \<Rightarrow> \<lparr>tk_req = q, tk_kind = '''', tk_ctxDone = False, tk_phase = AtEnd res\<rparr>
         | Inr kind \<Rightarrow> \<lparr>tk_req = q, tk_kind = kind, tk_ctxDone = False, tk_phase = AtBegin\<rparr>]\<rparr>"
| "acct_step snap (Pass d) s = s\<lparr>sy_now := sy_now s + int d\<rparr>"
| "acct_step snap (CancelTask i) s =
     (if i < length (sy_tasks s) then s\<lparr>sy_tasks := (sy_tasks s)[i := (sy_tasks s ! i)\<lparr>tk_ctxDone := True\<rparr>]\<rparr> else s)"
| "acct_step snap (TryBegin i) s =
     (if i < length (sy_tasks s) \<and> tk_phase (sy_tasks s ! i) = AtBegin then tryBegin i (sy_tasks s ! i) s else s)"
| "acct_step snap (DoRecord i) s =
     (if i < length (sy_tasks s)
      then (case tk_phase (sy_tasks s ! i) of AtRecord owned \<Rightarrow> doRecord snap i (sy_tasks s ! i) owned s | _ \<Rightarrow> s) else s)"
| "acct_step snap (DoFinish i) s =
     (if i < length (sy_tasks s)
      then (case tk_phase (sy_tasks s ! i) of AtFinish accepted res \<Rightarrow> doFinish i (sy_tasks s ! i) accepted res s | _ \<Rightarrow> s) else s)"
| "acct_step snap (RingEnv op) s = ringEnv op s"

text \<open>The settings of the published snapshot may change between any two steps.\<close>

inductive acct_reach :: "acctWorld \<Rightarrow> acctSys \<Rightarrow> bool" for w where
  astart: "acct_reach w \<lparr>sy_world = w, sy_tasks = [], sy_now = now, sy_ops = [], sy_log = []\<rparr>"
| astep: "acct_reach w s \<Longrightarrow> acct_reach w (acct_step snap act s)"

subsection \<open>What one recording does\<close>

lemma accountingEvent_fields [simp]:
  "ev_Type (accountingEvent snap rec) = ra_Kind rec"
  "ev_AcctSessionID (accountingEvent snap rec) = ra_SessionID rec"
  "ev_EndpointID (accountingEvent snap rec) = rc_EndpointID (ra_Context rec)"
  by (simp_all add: accountingEvent_def Let_def)

lemma prepareRecord_Inr:
  "prepareRecord ctxDone snap rec = Inr rec' \<Longrightarrow>
     \<not> ctxDone \<and> ra_Kind rec' = ra_Kind rec \<and> ra_SessionID rec' = ra_SessionID rec \<and> ra_Context rec' = ra_Context rec"
  by (auto simp: prepareRecord_def split: if_splits option.splits sum.splits)

lemma ring_Accept_fields:
  assumes "ring_Accept now e r = (r', a)" "ev_ID a \<noteq> 0"
  shows "ev_Type a = ev_Type e" "ev_AcctSessionID a = ev_AcctSessionID e" "ev_EndpointID a = ev_EndpointID e"
    "\<not> rg_reject r" "\<not> rg_closed r"
  using assms by (auto simp: ring_Accept_def stamped_def Let_def zeroEvent_def split: if_splits)

text \<open>The event of a request: kind, session and endpoint are those of its journal key.\<close>

definition eventOf :: "JournalKey \<Rightarrow> Event \<Rightarrow> bool" where
  "eventOf k e \<longleftrightarrow> ev_Type e = jk_StatusType k \<and> ev_AcctSessionID e = jk_SessionID k \<and> ev_EndpointID e = jk_EndpointID k"

lemma acct_offer_event: "acct_offer ctxDone snap now q kind w = Some e \<Longrightarrow> eventOf (acctKey q kind) e"
  by (auto simp: acct_offer_def eventOf_def acctKey_def buildRADIUSRecord_def Let_def
      dest!: prepareRecord_Inr split: if_splits sum.splits)

lemma accountingReply_action: "rr_Action (accountingReply q reason sat) = ActionReply \<or> accountingReply q reason sat = discard ''discard_malformed_header''"
  by (auto simp: accountingReply_def signedReply_def split: sum.splits)

lemma acct_record_journal: "acct_record c snap ck q kind sat w = (w', acc, res) \<Longrightarrow> aw_journal w' = aw_journal w"
  by (auto simp: acct_record_def acct_sink_def Let_def split: if_splits prod.splits option.splits sum.splits)

lemma acct_record_reply:
  "acct_record c snap ck q kind sat w = (w', acc, res) \<Longrightarrow> rr_Action res = ActionReply \<Longrightarrow> acc"
  by (auto simp: acct_record_def acct_sink_def Let_def discard_def split: if_splits prod.splits option.splits sum.splits)

lemma acct_record_no_offer:
  assumes "acct_record c snap (clockAt now) q kind sat w = (w', acc, res)" "acct_offer c snap now q kind w = None"
  shows "map_option sn_ring (aw_sinks w') = map_option sn_ring (aw_sinks w)" "acc \<Longrightarrow> ambiguousKey (acctKey q kind)"
  using assms
  by (auto simp: acct_record_def acct_sink_def acct_offer_def RecordRADIUSAccounting_def clockAt_def ambiguousKey_def Let_def
      split: if_splits prod.splits option.splits sum.splits)

lemma acct_record_offer:
  assumes "acct_record c snap (clockAt now) q kind sat w = (w', acc, res)" "acct_offer c snap now q kind w = Some e"
    and "aw_sinks w = Some sinks" "ring_Accept now e (sn_ring sinks) = (r', a)"
  shows "map_option sn_ring (aw_sinks w') = Some r' \<and> (acc \<longleftrightarrow> ev_ID a \<noteq> 0)"
  using assms
  by (auto simp: acct_record_def acct_sink_def acct_offer_def RecordRADIUSAccounting_def clockAt_def ambiguousKey_def Let_def
      split: if_splits prod.splits option.splits sum.splits)

subsection \<open>The journal as the tasks see it\<close>

lemma journal_attempt_cases:
  assumes "journalInv j" "journal_attempt k now j = (j', out)"
  shows "journalInv j'" "jo_ttl j' = jo_ttl j"
    "map_of (jo_entries j') k' = (case map_of (jo_entries j) k' of None \<Rightarrow> None | Some e \<Rightarrow> if e > now then Some e else None)"
    "out \<noteq> BeginOwner \<Longrightarrow> jo_pending j' = jo_pending j"
    "out = BeginOwner \<Longrightarrow> jo_pending j' = k # jo_pending j \<and> k \<notin> set (jo_pending j) \<and> map_of (jo_entries j') k = None"
    "out = BeginDuplicate \<longleftrightarrow> map_of (jo_entries j') k \<noteq> None"
    "out = BeginWait \<Longrightarrow> k \<in> set (jo_pending j)"
proof -
  have ok: "journalOk j" using assms(1) by (simp add: journalInv_def)
  show "journalInv j'" using journal_attempt_inv [OF assms(1), of k now] assms(2) by simp
  have e: "jo_entries j' = jo_entries (journal_expireLocked now j)"
    using assms(2) by (auto simp: journal_attempt_def Let_def split: if_splits)
  show "map_of (jo_entries j') k' = (case map_of (jo_entries j) k' of None \<Rightarrow> None | Some e \<Rightarrow> if e > now then Some e else None)"
    by (simp add: e expire_lookup [OF ok])
  show "jo_ttl j' = jo_ttl j" "out \<noteq> BeginOwner \<Longrightarrow> jo_pending j' = jo_pending j"
    "out = BeginOwner \<Longrightarrow> jo_pending j' = k # jo_pending j \<and> k \<notin> set (jo_pending j) \<and> map_of (jo_entries j') k = None"
    "out = BeginDuplicate \<longleftrightarrow> map_of (jo_entries j') k \<noteq> None" "out = BeginWait \<Longrightarrow> k \<in> set (jo_pending j)"
    using assms(2)
    by (auto simp: journal_attempt_def Let_def expire_config expire_lookup [OF ok] split: if_splits option.splits)
qed

lemma journal_Finish_pending:
  assumes "journalInv j" "k \<in> set (jo_pending j)" "j' = journal_Finish k acc now j"
  shows "journalInv j'" "jo_ttl j' = jo_ttl j" "set (jo_pending j') = set (jo_pending j) - {k}"
    "map_of (jo_entries j') k' = (if k' = k \<and> acc then Some (now + jo_ttl j) else map_of (jo_entries j) k')"
  using assms journal_Finish_inv [OF assms(1), of k acc now]
  by (auto simp: journal_Finish_def Let_def update_conv')

subsection \<open>Invariants of concurrent recording\<close>

text \<open>Three invariants: what the ring holds, who owns a key, and what an acknowledgement rests on.\<close>

definition ringLog :: "int \<Rightarrow> int option \<Rightarrow> acctSys \<Rightarrow> Event list" where
  "ringLog capacity stdout s = tr_log (ring_run capacity stdout (sy_ops s))"

definition ring_inv :: "int \<Rightarrow> int option \<Rightarrow> acctSys \<Rightarrow> bool" where
  "ring_inv capacity stdout s \<longleftrightarrow>
     sysRing s = Some (tr_ring (ring_run capacity stdout (sy_ops s))) \<and>
     (\<forall>l \<in> set (sy_log s). lg_event l \<in> set (ringLog capacity stdout s) \<and> ev_ID (lg_event l) \<noteq> 0 \<and> eventOf (lg_key l) (lg_event l))"

lemma ring_run_snoc: "ring_run capacity stdout (ops @ [op]) = ring_step op (ring_run capacity stdout ops)"
  by (simp add: ring_run_def)

lemma ring_step_log_mono: "set (tr_log t) \<subseteq> set (tr_log (ring_step op t))"
  by (cases op) (auto simp: Let_def split: prod.splits option.splits)

lemma ring_step_ring: "tr_ring (ring_step op t) = tr_ring (ring_step op \<lparr>tr_ring = tr_ring t, tr_log = lg, tr_from = f, tr_got = g\<rparr>)"
  by (cases op) (auto simp: Let_def split: prod.splits option.splits)

lemma ring_Accept_logged:
  "ring_Accept now e (tr_ring t) = (r, a) \<Longrightarrow> ev_ID a \<noteq> 0 \<Longrightarrow>
     tr_ring (ring_step (OpAccept now e) t) = r \<and> a \<in> set (tr_log (ring_step (OpAccept now e) t))"
  using ring_Accept_fields(4,5) [of now e "tr_ring t" r a] by (simp add: Let_def)

lemma setTask_simps [simp]:
  "sy_world (setTask i ph s) = sy_world s" "sy_now (setTask i ph s) = sy_now s" "sy_ops (setTask i ph s) = sy_ops s"
  "sy_log (setTask i ph s) = sy_log s" "sysRing (setTask i ph s) = sysRing s"
  by (simp_all add: setTask_def sysRing_def)

lemma setTask_tasks: "sy_tasks (setTask i ph s) = (sy_tasks s)[i := (sy_tasks s ! i)\<lparr>tk_phase := ph\<rparr>]"
  by (simp add: setTask_def)

lemma ring_inv_cong:
  "sysRing s' = sysRing s \<Longrightarrow> sy_ops s' = sy_ops s \<Longrightarrow> sy_log s' = sy_log s \<Longrightarrow> ring_inv capacity stdout s \<Longrightarrow> ring_inv capacity stdout s'"
  by (simp add: ring_inv_def ringLog_def)

lemma tryBegin_frame:
  "sysRing (tryBegin i t s) = sysRing s" "sy_ops (tryBegin i t s) = sy_ops s" "sy_log (tryBegin i t s) = sy_log s"
  "sy_now (tryBegin i t s) = sy_now s"
  by (auto simp: tryBegin_def Let_def sysRing_def split: option.splits prod.splits beginOutcome.splits)

lemma ring_inv_more:
  assumes "ring_inv capacity stdout s" "sysRing s' = Some (tr_ring (ring_step op (ring_run capacity stdout (sy_ops s))))"
    and "sy_ops s' = sy_ops s @ [op]" "sy_log s' = sy_log s @ new"
    and "\<forall>l \<in> set new. lg_event l \<in> set (tr_log (ring_step op (ring_run capacity stdout (sy_ops s)))) \<and> ev_ID (lg_event l) \<noteq> 0 \<and> eventOf (lg_key l) (lg_event l)"
  shows "ring_inv capacity stdout s'"
  using assms ring_step_log_mono [of "ring_run capacity stdout (sy_ops s)" op]
  by (auto simp: ring_inv_def ringLog_def ring_run_snoc)

lemma doRecord_ring:
  assumes "ring_inv capacity stdout s"
  shows "ring_inv capacity stdout (doRecord snap i t owned s)"
proof -
  obtain w' acc res where rec: "acct_record (tk_ctxDone t) snap (clockAt (sy_now s)) (tk_req t) (tk_kind t)
      (aw_journal (sy_world s) \<noteq> None \<and> \<not> owned) (sy_world s) = (w', acc, res)" by (metis prod_cases3)
  let ?t = "ring_run capacity stdout (sy_ops s)"
  have sr: "sysRing s = Some (tr_ring ?t)" using assms by (simp add: ring_inv_def)
  then obtain sinks where sinks: "aw_sinks (sy_world s) = Some sinks" "sn_ring sinks = tr_ring ?t" by (auto simp: sysRing_def)
  show ?thesis
  proof (cases "acct_offer (tk_ctxDone t) snap (sy_now s) (tk_req t) (tk_kind t) (sy_world s)")
    case None
    from acct_record_no_offer(1) [OF rec None] None rec assms show ?thesis
      by (auto simp: doRecord_def Let_def sysRing_def intro: ring_inv_cong [of _ s])
  next
    case (Some e)
    obtain r' a where acc: "ring_Accept (sy_now s) e (tr_ring ?t) = (r', a)" by (cases "ring_Accept (sy_now s) e (tr_ring ?t)")
    from acct_record_offer [OF rec Some sinks(1)] acc sinks(2)
    have post: "map_option sn_ring (aw_sinks w') = Some r'" "acc \<longleftrightarrow> ev_ID a \<noteq> 0" by auto
    have "tr_ring (ring_step (OpAccept (sy_now s) e) ?t) = r'" using acc by (simp add: Let_def)
    moreover have "eventOf (tkey t) a" if "ev_ID a \<noteq> 0"
      using acct_offer_event [OF Some] ring_Accept_fields [OF acc that] by (simp add: eventOf_def tkey_def)
    ultimately show ?thesis
      using rec Some sr post acc ring_Accept_logged [OF acc]
      by (intro ring_inv_more [OF assms, where op = "OpAccept (sy_now s) e"
          and new = "if acc then [\<lparr>lg_key = tkey t, lg_owned = owned, lg_time = sy_now s, lg_event = a\<rparr>] else []"])
        (auto simp: doRecord_def Let_def sysRing_def split: if_splits)
  qed
qed

lemma ringEnv_ring: "ring_inv capacity stdout s \<Longrightarrow> ring_inv capacity stdout (ringEnv op s)"
proof -
  assume inv: "ring_inv capacity stdout s"
  let ?t = "ring_run capacity stdout (sy_ops s)"
  obtain sinks where sinks: "aw_sinks (sy_world s) = Some sinks" "sn_ring sinks = tr_ring ?t"
    using inv by (auto simp: ring_inv_def sysRing_def)
  show ?thesis
    using sinks ring_step_ring [of op ?t "[]" "\<lambda>_. 0" "\<lambda>_. []"]
    by (intro ring_inv_more [OF inv, where op = op and new = "[]"]) (auto simp: ringEnv_def sysRing_def)
qed

lemma ring_inv_step:
  assumes "ring_inv capacity stdout s"
  shows "ring_inv capacity stdout (acct_step snap act s)"
proof (cases act)
  case (DoRecord i)
  then show ?thesis using assms doRecord_ring by (auto split: acctPhase.splits)
next
  case (RingEnv op)
  then show ?thesis using assms ringEnv_ring by simp
next
  case (DoFinish i)
  then show ?thesis using assms
    by (auto simp: doFinish_def sysRing_def split: acctPhase.splits intro: ring_inv_cong [OF _ _ _ assms])
next
  case (TryBegin i)
  then show ?thesis using assms by (auto simp: tryBegin_frame intro: ring_inv_cong [OF _ _ _ assms])
qed (use assms in \<open>auto simp: sysRing_def intro: ring_inv_cong [OF _ _ _ assms]\<close>)

definition owns :: "acctTask \<Rightarrow> bool" where
  "owns t \<longleftrightarrow> tk_phase t = AtRecord True \<or> (\<exists>a r. tk_phase t = AtFinish a r)"

definition owner :: "acctTask list \<Rightarrow> JournalKey \<Rightarrow> nat \<Rightarrow> bool" where
  "owner ts k i \<longleftrightarrow> i < length ts \<and> owns (ts ! i) \<and> tkey (ts ! i) = k"

definition committing :: "acctTask list \<Rightarrow> JournalKey \<Rightarrow> bool" where
  "committing ts k \<longleftrightarrow> (\<exists>i r. owner ts k i \<and> tk_phase (ts ! i) = AtFinish True r)"

definition settled :: "int \<Rightarrow> journal \<Rightarrow> acctTask list \<Rightarrow> int \<Rightarrow> acctLog \<Rightarrow> bool" where
  "settled ttl j ts now l \<longleftrightarrow> lg_time l \<le> now \<and>
     (committing ts (lg_key l) \<or> (\<exists>e. map_of (jo_entries j) (lg_key l) = Some e \<and> lg_time l + ttl \<le> e) \<or> lg_time l + ttl \<le> now)"

definition apart :: "int \<Rightarrow> acctLog list \<Rightarrow> bool" where
  "apart ttl log \<longleftrightarrow> sorted_wrt (\<lambda>l m. lg_owned l \<and> lg_owned m \<and> lg_key l = lg_key m \<longrightarrow> lg_time l + ttl \<le> lg_time m) log"

definition own_ok :: "int \<Rightarrow> journal \<Rightarrow> acctTask list \<Rightarrow> int \<Rightarrow> acctLog list \<Rightarrow> bool" where
  "own_ok ttl j ts now log \<longleftrightarrow> journalInv j \<and> jo_ttl j = ttl \<and>
     (\<forall>k. k \<in> set (jo_pending j) \<longleftrightarrow> (\<exists>i. owner ts k i)) \<and>
     (\<forall>k i i'. owner ts k i \<and> owner ts k i' \<longrightarrow> i = i') \<and>
     (\<forall>l \<in> set log. lg_owned l \<longrightarrow> settled ttl j ts now l) \<and> apart ttl log"

definition own_inv :: "int \<Rightarrow> acctSys \<Rightarrow> bool" where
  "own_inv ttl s \<longleftrightarrow> (\<exists>j. aw_journal (sy_world s) = Some j \<and> own_ok ttl j (sy_tasks s) (sy_now s) (sy_log s))"

lemma owner_cong:
  assumes "length ts' = length ts" "\<And>i. i < length ts \<Longrightarrow> owns (ts' ! i) = owns (ts ! i) \<and> (owns (ts ! i) \<longrightarrow> tkey (ts' ! i) = tkey (ts ! i))"
  shows "owner ts' k i = owner ts k i"
  using assms by (auto simp: owner_def)

lemma own_ok_tasks:
  assumes "own_ok ttl j ts now log" "\<And>k i. owner ts' k i = owner ts k i" "\<And>k. committing ts k \<Longrightarrow> committing ts' k"
  shows "own_ok ttl j ts' now log"
  using assms(1,3) by (auto simp: own_ok_def settled_def assms(2))

text \<open>A task that does not own a key moves to a phase that does not either.\<close>

lemma own_ok_idle:
  assumes "own_ok ttl j ts now log" "i < length ts" "\<not> owns (ts ! i)" "\<not> owns t'"
  shows "own_ok ttl j (ts[i := t']) now log"
proof (rule own_ok_tasks [OF assms(1)])
  show o: "owner (ts[i := t']) k i' = owner ts k i'" for k i'
    using assms(2-4) by (auto simp: owner_def nth_list_update)
  show "committing (ts[i := t']) k" if "committing ts k" for k
    using that assms(2-4) unfolding committing_def o by (auto simp: owner_def nth_list_update)
qed

lemma own_ok_arrive:
  assumes "own_ok ttl j ts now log" "\<not> owns t'"
  shows "own_ok ttl j (ts @ [t']) now log"
proof (rule own_ok_tasks [OF assms(1)])
  show o: "owner (ts @ [t']) k i = owner ts k i" for k i
    using assms(2) by (auto simp: owner_def nth_append less_Suc_eq)
  show "committing (ts @ [t']) k" if "committing ts k" for k
    using that unfolding committing_def o by (auto simp: owner_def nth_append)
qed

lemma own_ok_attempt:
  assumes "own_ok ttl j ts now log" "journal_attempt k now j = (j', out)" "out \<noteq> BeginOwner"
  shows "own_ok ttl j' ts now log"
proof -
  have inv: "journalInv j" using assms(1) by (simp add: own_ok_def)
  note att = journal_attempt_cases [OF inv assms(2)]
  have "settled ttl j' ts now l" if "settled ttl j ts now l" for l
    using that by (force simp: settled_def att(3))
  then show ?thesis using assms(1,3) att(1,2,4) by (auto simp: own_ok_def)
qed

lemma own_ok_acquire:
  assumes ok: "own_ok ttl j ts now log" and att: "journal_attempt k now j = (j', BeginOwner)"
    and i: "i < length ts" "\<not> owns (ts ! i)" "owns t'" "tkey t' = k"
  shows "own_ok ttl j' (ts[i := t']) now log"
proof -
  have inv: "journalInv j" using ok by (simp add: own_ok_def)
  note a = journal_attempt_cases [OF inv att]
  have p: "jo_pending j' = k # jo_pending j" "k \<notin> set (jo_pending j)" using a(5) by auto
  have o: "owner (ts[i := t']) k' i' \<longleftrightarrow> (if i' = i then k' = k else owner ts k' i')" for k' i'
    using i by (auto simp: owner_def nth_list_update)
  have ni: "\<not> owner ts k' i" for k' using i(2) by (simp add: owner_def)
  have nk: "\<not> owner ts k i'" for i' using ok p(2) by (auto simp: own_ok_def)
  have com: "committing (ts[i := t']) k'" if "committing ts k'" for k'
  proof -
    from that obtain i' r where "owner ts k' i'" "tk_phase (ts ! i') = AtFinish True r" by (auto simp: committing_def)
    moreover from this ni have "i' \<noteq> i" by auto
    ultimately show ?thesis unfolding committing_def o by (intro exI [of _ i']) auto
  qed
  have "settled ttl j' (ts[i := t']) now l" if "settled ttl j ts now l" for l
    using that com by (force simp: settled_def a(3))
  moreover have "k' \<in> set (jo_pending j') \<longleftrightarrow> (\<exists>i'. owner (ts[i := t']) k' i')" for k'
    using ok p o by (cases "k' = k") (auto simp: own_ok_def, metis ni)
  ultimately show ?thesis
    using ok a(1,2) o ni nk by (auto simp: own_ok_def)
qed

lemma own_ok_phase:
  assumes ok: "own_ok ttl j ts now log" and i: "owner ts k i" "tk_phase (ts ! i) = AtRecord True" "owns t'" "tkey t' = k"
  shows "own_ok ttl j (ts[i := t']) now log"
proof (rule own_ok_tasks [OF ok])
  show o: "owner (ts[i := t']) k' i' = owner ts k' i'" for k' i'
    using i by (auto simp: owner_def nth_list_update)
  show "committing (ts[i := t']) k'" if c: "committing ts k'" for k'
  proof -
    from c obtain i' r where i': "owner ts k' i'" "tk_phase (ts ! i') = AtFinish True r" by (auto simp: committing_def)
    with i(2) have "i' \<noteq> i" by auto
    with i' show ?thesis unfolding committing_def o by (intro exI [of _ i']) auto
  qed
qed

lemma own_ok_log:
  assumes ok: "own_ok ttl j ts now log" and i: "owner ts k i" "tk_phase (ts ! i) = AtRecord True"
    and t': "tk_phase t' = AtFinish True r" "tkey t' = k" and l: "lg_key l = k" "lg_time l = now"
  shows "own_ok ttl j (ts[i := t']) now (log @ [l])"
proof -
  have o': "owns t'" using t'(1) by (auto simp: owns_def)
  have ok': "own_ok ttl j (ts[i := t']) now log" by (rule own_ok_phase [OF ok i o' t'(2)])
  have "lg_time m + ttl \<le> now" if m: "m \<in> set log" "lg_owned m" "lg_key m = k" for m
  proof -
    have inv: "journalInv j" and p: "k \<in> set (jo_pending j)" using ok i(1) by (auto simp: own_ok_def)
    have "\<not> committing ts k"
    proof
      assume "committing ts k"
      then obtain i' r where "owner ts k i'" "tk_phase (ts ! i') = AtFinish True r" by (auto simp: committing_def)
      moreover from this ok i(1) have "i' = i" by (auto simp: own_ok_def)
      ultimately show False using i(2) by simp
    qed
    moreover have "settled ttl j ts now m" using ok m by (auto simp: own_ok_def)
    ultimately show ?thesis using pending_not_entry [OF inv p] m by (auto simp: settled_def)
  qed
  moreover have "committing (ts[i := t']) k"
    using i(1) t' o' by (auto simp: committing_def owner_def nth_list_update)
  ultimately show ?thesis
    using ok' l by (auto simp: own_ok_def apart_def settled_def sorted_wrt_append)
qed

lemma own_ok_finish:
  assumes ok: "own_ok ttl j ts now log" and i: "i < length ts" "tk_phase (ts ! i) = AtFinish acc r" "\<not> owns t'"
  shows "own_ok ttl (journal_Finish (tkey (ts ! i)) acc now j) (ts[i := t']) now log"
proof -
  let ?k = "tkey (ts ! i)"
  let ?j = "journal_Finish ?k acc now j"
  have own: "owner ts ?k i" using i by (simp add: owner_def owns_def)
  have inv: "journalInv j" "jo_ttl j = ttl" and p: "?k \<in> set (jo_pending j)"
    and uniq: "\<And>k i'. owner ts k i \<Longrightarrow> owner ts k i' \<Longrightarrow> i' = i" using ok own by (auto simp: own_ok_def)
  note f = journal_Finish_pending [OF inv(1) p refl, of acc now]
  have o: "owner (ts[i := t']) k i' \<longleftrightarrow> owner ts k i' \<and> i' \<noteq> i" for k i'
    using i by (auto simp: owner_def nth_list_update)
  have com: "committing (ts[i := t']) k" if c: "committing ts k" "k \<noteq> ?k \<or> \<not> acc" for k
  proof -
    from c(1) obtain i' r' where i': "owner ts k i'" "tk_phase (ts ! i') = AtFinish True r'" by (auto simp: committing_def)
    have "i' \<noteq> i" using i' c(2) i(2) by (auto simp: owner_def)
    with i' show ?thesis unfolding committing_def o by (intro exI [of _ i']) auto
  qed
  have "settled ttl ?j (ts[i := t']) now l" if "settled ttl j ts now l" for l
    using that com [of "lg_key l"] f(4) [of "lg_key l"] inv(2) by (auto simp: settled_def split: if_splits)
  moreover have "k \<in> set (jo_pending ?j) \<longleftrightarrow> (\<exists>i'. owner (ts[i := t']) k i')" for k
  proof (cases "k = ?k")
    case True
    then show ?thesis using f(3) own uniq by (auto simp: o)
  next
    case False
    then have "\<not> owner ts k i" by (auto simp: owner_def)
    with False show ?thesis using ok f(3) by (auto simp: o own_ok_def)
  qed
  ultimately show ?thesis
    using ok f(1,2) o by (auto simp: own_ok_def)
qed

lemma own_ok_later: "own_ok ttl j ts now log \<Longrightarrow> own_ok ttl j ts (now + int d) log"
  by (auto simp: own_ok_def settled_def)

lemma own_ok_cancel:
  assumes "own_ok ttl j ts now log" "i < length ts"
  shows "own_ok ttl j (ts[i := (ts ! i)\<lparr>tk_ctxDone := True\<rparr>]) now log"
proof (rule own_ok_tasks [OF assms(1)])
  show o: "owner (ts[i := (ts ! i)\<lparr>tk_ctxDone := True\<rparr>]) k i' = owner ts k i'" for k i'
    using assms(2) by (auto simp: owner_def nth_list_update owns_def tkey_def)
  show "committing (ts[i := (ts ! i)\<lparr>tk_ctxDone := True\<rparr>]) k" if "committing ts k" for k
    using that assms(2) unfolding committing_def o by (auto simp: owner_def nth_list_update)
qed

lemma own_ok_unowned_log: "own_ok ttl j ts now log \<Longrightarrow> \<not> lg_owned l \<Longrightarrow> own_ok ttl j ts now (log @ [l])"
  by (auto simp: own_ok_def apart_def sorted_wrt_append)

lemma tkey_phase [simp]: "tkey (t\<lparr>tk_phase := ph\<rparr>) = tkey t"
  by (simp add: tkey_def)

lemma owns_phase [simp]:
  "\<not> owns (t\<lparr>tk_phase := AtEnd r\<rparr>)" "\<not> owns (t\<lparr>tk_phase := AtBegin\<rparr>)" "\<not> owns (t\<lparr>tk_phase := AtRecord False\<rparr>)"
  "owns (t\<lparr>tk_phase := AtRecord True\<rparr>)" "owns (t\<lparr>tk_phase := AtFinish acc r\<rparr>)"
  by (auto simp: owns_def)

lemma tryBegin_own:
  assumes "own_inv ttl s" "i < length (sy_tasks s)" "tk_phase (sy_tasks s ! i) = AtBegin"
  shows "own_inv ttl (tryBegin i (sy_tasks s ! i) s)"
proof -
  let ?t = "sy_tasks s ! i"
  obtain j where j: "aw_journal (sy_world s) = Some j" and ok: "own_ok ttl j (sy_tasks s) (sy_now s) (sy_log s)"
    using assms(1) by (auto simp: own_inv_def)
  have idle: "\<not> owns ?t" using assms(3) by (simp add: owns_def)
  obtain j' out where att: "journal_attempt (tkey ?t) (sy_now s) j = (j', out)" by fastforce
  note acq = own_ok_acquire [OF ok _ assms(2) idle, of "tkey ?t" j' "?t\<lparr>tk_phase := AtRecord True\<rparr>"]
  note rest = own_ok_attempt [OF ok att]
  show ?thesis
    using j att acq rest own_ok_idle [OF ok assms(2) idle] own_ok_idle [OF rest assms(2) idle]
    by (cases out) (auto simp: tryBegin_def own_inv_def setTask_tasks Let_def)
qed

lemma doRecord_own:
  assumes inv: "own_inv ttl s" and i: "i < length (sy_tasks s)" "tk_phase (sy_tasks s ! i) = AtRecord owned"
  shows "own_inv ttl (doRecord snap i (sy_tasks s ! i) owned s)"
proof -
  let ?t = "sy_tasks s ! i"
  obtain w' acc res where rec: "acct_record (tk_ctxDone ?t) snap (clockAt (sy_now s)) (tk_req ?t) (tk_kind ?t)
      (aw_journal (sy_world s) \<noteq> None \<and> \<not> owned) (sy_world s) = (w', acc, res)" by (metis prod_cases3)
  obtain j where j: "aw_journal (sy_world s) = Some j" and ok: "own_ok ttl j (sy_tasks s) (sy_now s) (sy_log s)"
    using inv by (auto simp: own_inv_def)
  have j': "aw_journal w' = Some j" using acct_record_journal [OF rec] j by simp
  show ?thesis
  proof (cases owned)
    case True
    have own: "owner (sy_tasks s) (tkey ?t) i" using i True by (simp add: owner_def owns_def)
    have ph: "tk_phase ?t = AtRecord True" using i True by simp
    note step = own_ok_phase [OF ok own ph, of "?t\<lparr>tk_phase := AtFinish acc res\<rparr>"]
    note log = own_ok_log [OF ok own ph, of "?t\<lparr>tk_phase := AtFinish True res\<rparr>"]
    show ?thesis using True rec j' step log
      by (auto simp: doRecord_def Let_def own_inv_def setTask_tasks split: option.splits if_splits)
  next
    case False
    then have idle: "\<not> owns ?t" using i by (simp add: owns_def)
    note step = own_ok_idle [OF ok i(1) idle, of "?t\<lparr>tk_phase := AtEnd res\<rparr>"]
    show ?thesis using False rec j' step own_ok_unowned_log [OF step]
      by (auto simp: doRecord_def Let_def own_inv_def setTask_tasks split: option.splits if_splits)
  qed
qed

lemma own_inv_step:
  assumes "own_inv ttl s"
  shows "own_inv ttl (acct_step snap act s)"
proof (cases act)
  case (Arrive q)
  then show ?thesis using assms
    by (auto simp: own_inv_def owns_def split: sum.splits intro!: own_ok_arrive)
next
  case (Pass d)
  then show ?thesis using assms by (auto simp: own_inv_def intro: own_ok_later)
next
  case (CancelTask i)
  then show ?thesis using assms by (auto simp: own_inv_def intro: own_ok_cancel)
next
  case (TryBegin i)
  then show ?thesis using assms tryBegin_own by auto
next
  case (DoRecord i)
  then show ?thesis using assms doRecord_own by (auto split: acctPhase.splits)
next
  case (DoFinish i)
  then show ?thesis using assms
    by (auto simp: own_inv_def doFinish_def setTask_tasks split: acctPhase.splits intro!: own_ok_finish)
next
  case (RingEnv op)
  then show ?thesis using assms by (auto simp: own_inv_def ringEnv_def split: option.splits)
qed

text \<open>
  What an acknowledgement rests on: the request was admitted, and its key is in the log of
  recordings unless it names neither a session nor a NAS.
\<close>

definition noted :: "acctLog list \<Rightarrow> JournalKey \<Rightarrow> bool" where
  "noted log k \<longleftrightarrow> ambiguousKey k \<or> (\<exists>l \<in> set log. lg_key l = k)"

definition task_ok :: "acctLog list \<Rightarrow> acctTask \<Rightarrow> bool" where
  "task_ok log t \<longleftrightarrow>
     (case tk_phase t of
        AtEnd r \<Rightarrow> rr_Action r = ActionReply \<longrightarrow> acct_admit False (tk_req t) = Inr (tk_kind t) \<and> noted log (tkey t)
      | AtFinish acc r \<Rightarrow> acct_admit False (tk_req t) = Inr (tk_kind t) \<and> (acc \<longrightarrow> noted log (tkey t)) \<and>
          (rr_Action r = ActionReply \<longrightarrow> acc)
      | _ \<Rightarrow> acct_admit False (tk_req t) = Inr (tk_kind t))"

definition ack_inv :: "acctSys \<Rightarrow> bool" where
  "ack_inv s \<longleftrightarrow>
     (\<exists>j. aw_journal (sy_world s) = Some j \<and> journalInv j \<and>
        (\<forall>k e. map_of (jo_entries j) k = Some e \<longrightarrow> noted (sy_log s) k)) \<and>
     (\<forall>t \<in> set (sy_tasks s). task_ok (sy_log s) t)"

lemma noted_mono: "noted log k \<Longrightarrow> noted (log @ log') k"
  by (auto simp: noted_def)

lemma task_ok_mono: "task_ok log t \<Longrightarrow> task_ok (log @ log') t"
  by (auto simp: task_ok_def noted_mono split: acctPhase.splits)

lemma acct_admit_no_reply: "acct_admit False q = Inl res \<Longrightarrow> rr_Action res \<noteq> ActionReply"
  by (auto simp: acct_admit_def discard_def Let_def split: if_splits option.splits)

lemma set_task_update: "t \<in> set (ts[i := t']) \<Longrightarrow> t = t' \<or> t \<in> set ts"
  using set_update_subset_insert by fastforce

lemma tryBegin_ack:
  assumes "ack_inv s" "i < length (sy_tasks s)" "tk_phase (sy_tasks s ! i) = AtBegin"
  shows "ack_inv (tryBegin i (sy_tasks s ! i) s)"
proof -
  let ?t = "sy_tasks s ! i"
  obtain j where j: "aw_journal (sy_world s) = Some j" "journalInv j"
    and ent: "\<And>k e. map_of (jo_entries j) k = Some e \<Longrightarrow> noted (sy_log s) k"
    and ts: "\<And>t. t \<in> set (sy_tasks s) \<Longrightarrow> task_ok (sy_log s) t" using assms(1) by (auto simp: ack_inv_def)
  have adm: "acct_admit False (tk_req ?t) = Inr (tk_kind ?t)"
    using ts [of ?t] assms(2,3) by (simp add: task_ok_def)
  obtain j' out where att: "journal_attempt (tkey ?t) (sy_now s) j = (j', out)" by fastforce
  note a = journal_attempt_cases [OF j(2) att]
  have ent': "noted (sy_log s) k" if "map_of (jo_entries j') k = Some e" for k e
    using that ent [of k] a(3) [of k] by (auto split: option.splits if_splits)
  have "task_ok (sy_log s) (?t\<lparr>tk_phase := AtEnd (discard ''drop_overload'')\<rparr>)"
    "task_ok (sy_log s) (?t\<lparr>tk_phase := AtRecord b\<rparr>)"
    "out = BeginDuplicate \<Longrightarrow> task_ok (sy_log s) (?t\<lparr>tk_phase := AtEnd (accountingReply (tk_req ?t) ''ok'' False)\<rparr>)" for b
    using adm a(6) ent' by (auto simp: task_ok_def discard_def)
  with j att a(1) ent ent' ts show ?thesis
    by (cases out) (auto simp: tryBegin_def ack_inv_def setTask_tasks Let_def dest!: set_task_update)
qed

lemma doRecord_ack:
  assumes "ack_inv s" "i < length (sy_tasks s)" "tk_phase (sy_tasks s ! i) = AtRecord owned" "sysRing s \<noteq> None"
  shows "ack_inv (doRecord snap i (sy_tasks s ! i) owned s)"
proof -
  let ?t = "sy_tasks s ! i"
  obtain w' acc res where rec: "acct_record (tk_ctxDone ?t) snap (clockAt (sy_now s)) (tk_req ?t) (tk_kind ?t)
      (aw_journal (sy_world s) \<noteq> None \<and> \<not> owned) (sy_world s) = (w', acc, res)" by (metis prod_cases3)
  obtain j where j: "aw_journal (sy_world s) = Some j" "journalInv j"
    and ent: "\<And>k e. map_of (jo_entries j) k = Some e \<Longrightarrow> noted (sy_log s) k"
    and ts: "\<And>t. t \<in> set (sy_tasks s) \<Longrightarrow> task_ok (sy_log s) t" using assms(1) by (auto simp: ack_inv_def)
  have adm: "acct_admit False (tk_req ?t) = Inr (tk_kind ?t)" using ts [of ?t] assms(2,3) by (simp add: task_ok_def)
  have j': "aw_journal w' = Some j" using acct_record_journal [OF rec] j by simp
  note reply = acct_record_reply [OF rec]
  obtain r where r: "sysRing s = Some r" using assms(4) by auto
  let ?ph = "if owned then AtFinish acc res else AtEnd res"
  have new: "task_ok log (?t\<lparr>tk_phase := ?ph\<rparr>)" if "acc \<Longrightarrow> noted log (tkey ?t)" for log
    using that adm reply by (auto simp: task_ok_def)
  show ?thesis
  proof (cases "acct_offer (tk_ctxDone ?t) snap (sy_now s) (tk_req ?t) (tk_kind ?t) (sy_world s)")
    case None
    then have "acc \<Longrightarrow> noted (sy_log s) (tkey ?t)" using acct_record_no_offer(2) [OF rec None] by (simp add: noted_def tkey_def)
    with None rec j' j ent ts new [of "sy_log s"] show ?thesis
      by (auto simp: doRecord_def ack_inv_def setTask_tasks dest!: set_task_update)
  next
    case (Some e)
    let ?more = "if acc then [\<lparr>lg_key = tkey ?t, lg_owned = owned, lg_time = sy_now s, lg_event = snd (ring_Accept (sy_now s) e r)\<rparr>] else []"
    have "acc \<Longrightarrow> noted (sy_log s @ ?more) (tkey ?t)" by (simp add: noted_def)
    with Some r rec j' j ent ts new [of "sy_log s @ ?more"] task_ok_mono [of "sy_log s" _ ?more] noted_mono [of "sy_log s" _ ?more] show ?thesis
      by (auto simp: doRecord_def ack_inv_def setTask_tasks dest!: set_task_update simp del: set_append)
  qed
qed

lemma doFinish_ack:
  assumes "ack_inv s" "own_inv ttl s" "i < length (sy_tasks s)" "tk_phase (sy_tasks s ! i) = AtFinish acc res"
  shows "ack_inv (doFinish i (sy_tasks s ! i) acc res s)"
proof -
  let ?t = "sy_tasks s ! i"
  obtain j where j: "aw_journal (sy_world s) = Some j" "journalInv j"
    and ent: "\<And>k e. map_of (jo_entries j) k = Some e \<Longrightarrow> noted (sy_log s) k"
    and ts: "\<And>t. t \<in> set (sy_tasks s) \<Longrightarrow> task_ok (sy_log s) t" using assms(1) by (auto simp: ack_inv_def)
  have "owner (sy_tasks s) (tkey ?t) i" using assms(3,4) by (simp add: owner_def owns_def)
  then have p: "tkey ?t \<in> set (jo_pending j)" using assms(2) j by (auto simp: own_inv_def own_ok_def)
  note f = journal_Finish_pending [OF j(2) p refl, of acc "sy_now s"]
  have t: "task_ok (sy_log s) ?t" using ts assms(3) by simp
  then have "acc \<Longrightarrow> noted (sy_log s) (tkey ?t)" "task_ok (sy_log s) (?t\<lparr>tk_phase := AtEnd res\<rparr>)"
    using assms(4) by (auto simp: task_ok_def)
  moreover have "noted (sy_log s) k" if "map_of (jo_entries (journal_Finish (tkey ?t) acc (sy_now s) j)) k = Some e" for k e
    using that f(4) [of k] ent [of k] calculation(1) by (auto split: if_splits)
  ultimately show ?thesis
    using j f(1) ts by (auto simp: doFinish_def ack_inv_def setTask_tasks dest!: set_task_update)
qed

lemma ack_inv_step:
  assumes "ack_inv s" "own_inv ttl s" "sysRing s \<noteq> None"
  shows "ack_inv (acct_step snap act s)"
proof (cases act)
  case (Arrive q)
  then show ?thesis using assms(1) acct_admit_no_reply [of q]
    by (auto simp: ack_inv_def task_ok_def split: sum.splits)
next
  case (CancelTask i)
  have "task_ok (sy_log s) ((sy_tasks s ! i)\<lparr>tk_ctxDone := True\<rparr>)" if "i < length (sy_tasks s)"
    using assms(1) that by (auto simp: ack_inv_def task_ok_def tkey_def dest: nth_mem split: acctPhase.splits)
  with CancelTask assms(1) show ?thesis by (auto simp: ack_inv_def dest!: set_task_update)
next
  case (TryBegin i)
  then show ?thesis using assms(1) tryBegin_ack by auto
next
  case (DoRecord i)
  then show ?thesis using assms(1,3) doRecord_ack by (auto split: acctPhase.splits)
next
  case (DoFinish i)
  then show ?thesis using assms(1,2) doFinish_ack by (auto split: acctPhase.splits)
next
  case (RingEnv op)
  then show ?thesis using assms(1) by (auto simp: ack_inv_def ringEnv_def split: option.splits)
qed (use assms(1) in \<open>auto simp: ack_inv_def\<close>)

subsection \<open>Reachable systems\<close>

text \<open>The listener starts with an empty journal and an empty ring.\<close>

definition acct_start :: "int \<Rightarrow> int \<Rightarrow> int \<Rightarrow> int \<Rightarrow> int option \<Rightarrow> acctWorld \<Rightarrow> bool" where
  "acct_start maxEntries maxBytes ttl capacity stdout w \<longleftrightarrow>
     aw_journal w = Some (newJournal maxEntries maxBytes ttl) \<and>
     map_option sn_ring (aw_sinks w) = Some (NewRing capacity stdout)"

abbreviation (input) journalTTL :: "int \<Rightarrow> int" where "journalTTL ttl \<equiv> if ttl \<le> 0 then 60000000000 else ttl"

lemma newJournal_inv: "journalInv (newJournal maxEntries maxBytes ttl)"
  by (rule journal_reach_inv [OF jstart])

lemma acct_reach_inv:
  assumes "acct_reach w s" "acct_start maxEntries maxBytes ttl capacity stdout w"
  shows "ring_inv capacity stdout s \<and> own_inv (journalTTL ttl) s \<and> ack_inv s"
  using assms
proof (induction rule: acct_reach.induct)
  case (astart now)
  then show ?case using newJournal_inv [of maxEntries maxBytes ttl]
    by (auto simp: acct_start_def ring_inv_def sysRing_def ring_run_def own_inv_def own_ok_def ack_inv_def owner_def
        apart_def newJournal_def)
next
  case (astep s snap act)
  then have inv: "ring_inv capacity stdout s" "own_inv (journalTTL ttl) s" "ack_inv s" by auto
  then have "sysRing s \<noteq> None" by (simp add: ring_inv_def)
  with inv show ?case using ring_inv_step own_inv_step ack_inv_step by auto
qed

subsection \<open>Progress\<close>

lemma step_tasks:
  "length (sy_tasks (acct_step snap (TryBegin i) s)) = length (sy_tasks s)"
  "length (sy_tasks (acct_step snap (DoRecord i) s)) = length (sy_tasks s)"
  "length (sy_tasks (acct_step snap (DoFinish i) s)) = length (sy_tasks s)"
  "n \<noteq> i \<Longrightarrow> sy_tasks (acct_step snap (TryBegin i) s) ! n = sy_tasks s ! n"
  "n \<noteq> i \<Longrightarrow> sy_tasks (acct_step snap (DoRecord i) s) ! n = sy_tasks s ! n"
  "n \<noteq> i \<Longrightarrow> sy_tasks (acct_step snap (DoFinish i) s) ! n = sy_tasks s ! n"
  by (auto simp: tryBegin_def doRecord_def doFinish_def setTask_tasks Let_def
      split: acctPhase.splits option.splits prod.splits beginOutcome.splits)

lemma record_then_finish:
  assumes "i < length (sy_tasks s)" "tk_phase (sy_tasks s ! i) \<noteq> AtBegin"
  shows "\<exists>res. tk_phase (sy_tasks (acct_step snap (DoFinish i) (acct_step snap (DoRecord i) s)) ! i) = AtEnd res"
proof -
  let ?s = "acct_step snap (DoRecord i) s"
  have "(\<exists>a r. tk_phase (sy_tasks ?s ! i) = AtFinish a r) \<or> (\<exists>r. tk_phase (sy_tasks ?s ! i) = AtEnd r)"
    using assms by (auto simp: doRecord_def setTask_tasks Let_def split: acctPhase.splits option.splits prod.splits)
  moreover have "i < length (sy_tasks ?s)" by (simp only: step_tasks assms(1))
  ultimately show ?thesis by (auto simp: doFinish_def setTask_tasks simp del: acct_step.simps(5))
qed

lemma tryBegin_proceeds:
  assumes "own_inv ttl s" "i < length (sy_tasks s)"
    and free: "\<And>n. \<not> owner (sy_tasks s) (tkey (sy_tasks s ! i)) n"
  shows "tk_phase (sy_tasks (acct_step snap (TryBegin i) s) ! i) \<noteq> AtBegin"
proof (cases "tk_phase (sy_tasks s ! i) = AtBegin")
  case True
  obtain j where j: "aw_journal (sy_world s) = Some j" "journalInv j" "tkey (sy_tasks s ! i) \<notin> set (jo_pending j)"
    using assms(1) free by (auto simp: own_inv_def own_ok_def)
  obtain j' out where att: "journal_attempt (tkey (sy_tasks s ! i)) (sy_now s) j = (j', out)" by fastforce
  have "out \<noteq> BeginWait" using journal_attempt_cases(7) [OF j(2) att] j(3) by auto
  with True att j(1) assms(2) show ?thesis
    by (cases out) (auto simp: tryBegin_def setTask_tasks Let_def)
qed simp

lemma owner_released:
  assumes inv: "own_inv ttl s" and o: "owner (sy_tasks s) k n" and
    s': "s' = acct_step snap (DoFinish n) (acct_step snap (DoRecord n) s)"
  shows "own_inv ttl s'" "\<not> owner (sy_tasks s') k m" "m \<noteq> n \<Longrightarrow> sy_tasks s' ! m = sy_tasks s ! m"
    "length (sy_tasks s') = length (sy_tasks s)"
proof -
  show frame: "m \<noteq> n \<Longrightarrow> sy_tasks s' ! m = sy_tasks s ! m" for m
    unfolding s' by (simp only: step_tasks not_False_eq_True)
  show len: "length (sy_tasks s') = length (sy_tasks s)" unfolding s' by (simp only: step_tasks)
  show "own_inv ttl s'" unfolding s' by (intro own_inv_step inv)
  have "\<exists>res. tk_phase (sy_tasks s' ! n) = AtEnd res"
    unfolding s' by (rule record_then_finish) (use o in \<open>auto simp: owner_def owns_def\<close>)
  then have end_n: "\<not> owns (sy_tasks s' ! n)" by (auto simp: owns_def)
  have uniq: "m = n" if "owner (sy_tasks s) k m" using inv o that by (auto simp: own_inv_def own_ok_def)
  show "\<not> owner (sy_tasks s') k m"
  proof (cases "m = n")
    case False
    then show ?thesis using uniq frame [OF False] len by (auto simp: owner_def)
  qed (use end_n in \<open>simp add: owner_def\<close>)
qed

subsection \<open>Concrete instances\<close>

definition wit_start_packet :: Packet where
  "wit_start_packet = (let p = wit_packet\<lparr>pk_Code := 4, pk_Attributes :=
       [\<lparr>raw_Type = 40, raw_Value = [0, 0, 0, 1]\<rparr>, \<lparr>raw_Type = 44, raw_Value = [115]\<rparr>]\<rparr> in
     p\<lparr>pk_Authenticator := md5 (head4 p @ replicate 16 0 @ wireOf rawItem (pk_Attributes p) @ [115])\<rparr>)"

definition wit_start_req :: RadiusRequest where
  "wit_start_req = wit_access\<lparr>rq_Role := RoleAccounting, rq_Packet := wit_start_packet, rq_Declared := wirePacket wit_start_packet\<rparr>"

lemma wit_start_fields:
  "rq_Role wit_start_req = RoleAccounting" "rq_Packet wit_start_req = wit_start_packet" "rq_Secret wit_start_req = [115]"
  "rq_Declared wit_start_req = wirePacket wit_start_packet" "rq_AcceptStatusTypes wit_start_req = []"
  "rq_EndpointID wit_start_req = ''ep''" "rq_Peer wit_start_req = (Some ''192.0.2.1'', 1812)"
  "pk_Code wit_start_packet = 4" "pk_Identifier wit_start_packet = 7" "length (pk_Authenticator wit_start_packet) = 16"
  "pk_Attributes wit_start_packet = [\<lparr>raw_Type = 40, raw_Value = [0, 0, 0, 1]\<rparr>, \<lparr>raw_Type = 44, raw_Value = [115]\<rparr>]"
  by (simp_all add: wit_start_req_def wit_access_def wit_start_packet_def wit_packet_def Let_def)

lemma wit_start_signable: "signable wit_start_packet" "radius_Encode wit_start_packet = Inr (wirePacket wit_start_packet)"
  by (simp_all add: signable_def radius_Encode_Inr packetFits_def wit_start_fields WireLength_def rawFits_def)

lemma wit_start_valid: "ValidateAccountingRequestAuthenticator [115] (wirePacket wit_start_packet) = Inr ()"
proof -
  have "zeroMA (pk_Attributes wit_start_packet) = pk_Attributes wit_start_packet"
    by (simp add: zeroMA_none wit_start_fields)
  then show ?thesis
    by (simp add: ValidateAccounting_wire [OF wit_start_signable(1)]) (simp add: wit_start_packet_def head4_def Let_def)
qed

lemma wit_start_admit: "acct_admit False wit_start_req = Inr ''start''"
  by (simp add: acct_admit_def wit_start_fields CheckAccountingIntegrity_def wit_start_valid mapAcctStatus_def
      uint32Val_def statusAllowed_def AccountingKind_Valid_def Let_def)

lemma wit_start_key:
  "jk_SessionID (acctKey wit_start_req ''start'') \<noteq> ''''" "journalKeyBytes (acctKey wit_start_req ''start'') \<le> 100"
  by (simp_all add: acctKey_def wit_start_fields textAttr_def journalKeyBytes_def nasIdentity_def firstWith_def
      eventFingerprint_def string_of_bytes_def Addr_String_def Let_def)

lemma wit_start_reply: "rr_Action (accountingReply wit_start_req reason sat) = ActionReply"
proof -
  have "\<exists>w. SignResponse [115] 5 7 (pk_Authenticator wit_start_packet) [] = Inr w"
    by (simp add: SignResponse_Inr unsignedReply_def packetFits_def wit_start_fields)
  then show ?thesis by (auto simp: accountingReply_def signedReply_def wit_start_fields CopyProxyState_def)
qed

definition wit_world :: acctWorld where
  "wit_world = \<lparr>aw_journal = Some (newJournal 0 0 10), aw_sampler = None, aw_sinks = Some \<lparr>sn_ring = NewRing 8 None, sn_index = None\<rparr>\<rparr>"

definition wit_sys :: "acctAct list \<Rightarrow> acctSys" where
  "wit_sys acts = fold (acct_step None) acts \<lparr>sy_world = wit_world, sy_tasks = [], sy_now = 0, sy_ops = [], sy_log = []\<rparr>"

lemma wit_world_start: "acct_start 0 0 10 8 None wit_world"
  by (simp add: acct_start_def wit_world_def)

lemma fold_reach: "acct_reach w s \<Longrightarrow> acct_reach w (fold (acct_step snap) acts s)"
  by (induction acts arbitrary: s) (auto intro: astep)

lemma wit_sys_reach: "acct_reach wit_world (wit_sys acts)"
  unfolding wit_sys_def by (intro fold_reach astart)

lemma wit_sys_snoc: "wit_sys (acts @ [a]) = acct_step None a (wit_sys acts)"
  by (simp add: wit_sys_def)

lemma wit_offer: "aw_sinks w \<noteq> None \<Longrightarrow> \<exists>e. acct_offer False None now wit_start_req ''start'' w = Some e"
  using wit_start_key(1)
  by (auto simp: acct_offer_def ambiguousKey_def prepareRecord_def buildRADIUSRecord_def AccountingKind_Valid_def Let_def
      terminateCauseName_def firstUint32_def wit_start_fields checkSafeAttributeBudget_def summarizeAttrs_def CheckCount_def
      split: sum.splits)

lemma ring_Accept_seq:
  assumes "\<not> rg_reject r" "\<not> rg_closed r"
  shows "rg_seq (fst (ring_Accept now e r)) = rg_seq r + 1" "\<not> rg_reject (fst (ring_Accept now e r))"
    "\<not> rg_closed (fst (ring_Accept now e r))" "ev_ID (snd (ring_Accept now e r)) = rg_seq r + 1"
  using assms
  by (auto simp: ring_Accept_def ring_put_def emitStdout_def fanoutLocked_def stamped_def Let_def
      split: if_splits option.splits prod.splits)

text \<open>A system in which nobody holds the key and the ring accepts.\<close>

definition solo :: "acctSys \<Rightarrow> bool" where
  "solo s \<longleftrightarrow> (\<exists>j sinks. aw_journal (sy_world s) = Some j \<and> aw_sinks (sy_world s) = Some sinks \<and>
     snd (journal_attempt (acctKey wit_start_req ''start'') (sy_now s) j) = BeginOwner \<and>
     \<not> rg_reject (sn_ring sinks) \<and> \<not> rg_closed (sn_ring sinks) \<and> rg_seq (sn_ring sinks) + 1 \<noteq> 0)"

lemma solo_run:
  assumes "solo s" "i = length (sy_tasks s)" "k = acctKey wit_start_req ''start''"
    and "s' = fold (acct_step None) [Arrive wit_start_req, TryBegin i, DoRecord i, DoFinish i] s"
  shows "\<exists>res e. rr_Action res = ActionReply \<and> sy_now s' = sy_now s \<and>
    sy_tasks s' = sy_tasks s @ [\<lparr>tk_req = wit_start_req, tk_kind = ''start'', tk_ctxDone = False, tk_phase = AtEnd res\<rparr>] \<and>
    sy_log s' = sy_log s @ [\<lparr>lg_key = k, lg_owned = True, lg_time = sy_now s, lg_event = e\<rparr>] \<and>
    aw_journal (sy_world s') = map_option (\<lambda>j. journal_Finish k True (sy_now s) (fst (journal_attempt k (sy_now s) j))) (aw_journal (sy_world s)) \<and>
    (\<exists>r' r. sysRing s = Some r \<and> sysRing s' = Some r' \<and> rg_seq r' = rg_seq r + 1 \<and> \<not> rg_reject r' \<and> \<not> rg_closed r')"
proof -
  obtain j sinks j' where j: "aw_journal (sy_world s) = Some j" "journal_attempt k (sy_now s) j = (j', BeginOwner)"
    and sinks: "aw_sinks (sy_world s) = Some sinks" "\<not> rg_reject (sn_ring sinks)" "\<not> rg_closed (sn_ring sinks)"
      "rg_seq (sn_ring sinks) + 1 \<noteq> 0"
    using assms(1,3) by (auto simp: solo_def) (metis prod.collapse)
  let ?w = "(sy_world s)\<lparr>aw_journal := Some j'\<rparr>"
  obtain w' acc res where rec: "acct_record False None (clockAt (sy_now s)) wit_start_req ''start'' False ?w = (w', acc, res)"
    by (metis prod_cases3)
  obtain e where e: "acct_offer False None (sy_now s) wit_start_req ''start'' ?w = Some e"
    using wit_offer [of ?w "sy_now s"] sinks(1) by auto
  let ?a = "ring_Accept (sy_now s) e (sn_ring sinks)"
  note seq = ring_Accept_seq [OF sinks(2,3), of "sy_now s" e]
  have post: "map_option sn_ring (aw_sinks w') = Some (fst ?a)" "acc"
    using acct_record_offer [OF rec e, of sinks "fst ?a" "snd ?a"] sinks seq by auto
  have reply: "rr_Action res = ActionReply"
    using rec post(2) wit_start_reply [of "''ok''" False] wit_start_key(1)
    by (auto simp: acct_record_def acct_sink_def Let_def split: if_splits prod.splits option.splits sum.splits)
  have jw: "aw_journal w' = Some j'" using acct_record_journal [OF rec] by simp
  have key: "tkey \<lparr>tk_req = wit_start_req, tk_kind = ''start'', tk_ctxDone = False, tk_phase = ph\<rparr> = k" for ph
    by (simp add: tkey_def assms(3))
  have "\<exists>r' r. sysRing s = Some r \<and> map_option sn_ring (aw_sinks w') = Some r' \<and> rg_seq r' = rg_seq r + 1 \<and> \<not> rg_reject r' \<and> \<not> rg_closed r'"
    using post(1) sinks(1) seq by (auto simp: sysRing_def)
  then show ?thesis
    using reply rec e post jw j sinks
    by (intro exI [of _ res] exI [of _ "snd ?a"])
      (auto simp: assms(2,4) wit_start_admit tryBegin_def doRecord_def doFinish_def setTask_def key sysRing_def Let_def)
qed

subsection \<open>Properties\<close>

text \<open>
  Property C1. An acknowledged accounting request is authentic and recorded. In every reachable
  state of the concurrent handlers, whatever the interleaving, cancellations and ring
  operations, a request that was answered passed the integrity check, has one of the five
  status types, and if it names a session or a NAS, the ring accepted (with an event ID) an
  event with its kind, session and endpoint. The condition is needed: a request that names
  neither is acknowledged also when the sampler drops it and no event is recorded.
\<close>

theorem accounting_ack_recorded:
  assumes "acct_reach w s" "acct_start maxEntries maxBytes ttl capacity stdout w"
    and "t \<in> set (sy_tasks s)" "tk_phase t = AtEnd res" "rr_Action res = ActionReply"
    and "q = tk_req t" "k = acctKey q (tk_kind t)"
  shows "CheckAccountingIntegrity (rq_Secret q) (rq_Declared q) (rq_Packet q) = '''' \<and>
    mapAcctStatus (pk_Attributes (rq_Packet q)) = Some (jk_StatusType k) \<and>
    (jk_SessionID k \<noteq> '''' \<or> jk_NAS k \<noteq> '''' \<longrightarrow>
       (\<exists>e \<in> set (ringLog capacity stdout s). ev_ID e \<noteq> 0 \<and> ev_Type e = jk_StatusType k \<and>
          ev_AcctSessionID e = jk_SessionID k \<and> ev_EndpointID e = rq_EndpointID q))"
proof -
  from acct_reach_inv [OF assms(1,2)] have ring: "ring_inv capacity stdout s" and "ack_inv s" by auto
  then have "task_ok (sy_log s) t" using assms(3) by (simp add: ack_inv_def)
  then have adm: "acct_admit False q = Inr (tk_kind t)" and n: "noted (sy_log s) k"
    using assms(4-7) by (simp_all add: task_ok_def tkey_def)
  have kind: "jk_StatusType k = tk_kind t" "jk_EndpointID k = rq_EndpointID q" using assms(7) by (simp_all add: acctKey_def Let_def)
  from adm have "CheckAccountingIntegrity (rq_Secret q) (rq_Declared q) (rq_Packet q) = ''''"
    "mapAcctStatus (pk_Attributes (rq_Packet q)) = Some (tk_kind t)"
    by (auto simp: acct_admit_def Let_def split: if_splits option.splits)
  with n ring kind show ?thesis
    by (auto simp: noted_def ambiguousKey_def ring_inv_def eventOf_def)
qed

theorem accounting_ack_recorded_witness:
  "\<exists>e \<in> set (ringLog 8 None (wit_sys [Arrive wit_start_req, TryBegin 0, DoRecord 0, DoFinish 0])). ev_ID e \<noteq> 0 \<and> ev_EndpointID e = ''ep''"
proof -
  let ?s = "wit_sys [Arrive wit_start_req, TryBegin 0, DoRecord 0, DoFinish 0]"
  have "solo \<lparr>sy_world = wit_world, sy_tasks = [], sy_now = 0, sy_ops = [], sy_log = []\<rparr>"
    using wit_start_key(2) by (auto simp: solo_def wit_world_def journal_attempt_def journal_expireLocked_def newJournal_def NewRing_def)
  from solo_run [OF this, of 0 _ ?s] obtain res where res: "rr_Action res = ActionReply"
    "sy_tasks ?s = [\<lparr>tk_req = wit_start_req, tk_kind = ''start'', tk_ctxDone = False, tk_phase = AtEnd res\<rparr>]"
    by (auto simp: wit_sys_def)
  show ?thesis
    using accounting_ack_recorded [OF wit_sys_reach wit_world_start, of "sy_tasks ?s ! 0" "[Arrive wit_start_req, TryBegin 0, DoRecord 0, DoFinish 0]"
        res wit_start_req "acctKey wit_start_req ''start''"] res wit_start_key(1) wit_start_fields(6) by auto
qed

text \<open>
  Property C2. Accounting is recorded once per semantic identity. In every reachable state of the
  concurrent handlers, two recordings by owners of the same journal key are at least the
  journal's time to live apart, whatever the interleaving of retransmissions, waiting
  callers, cancellations and failed recordings.
\<close>

theorem accounting_recorded_once:
  assumes "acct_reach w s" "acct_start maxEntries maxBytes ttl capacity stdout w"
    and "i < i'" "i' < length (sy_log s)" "lg_owned (sy_log s ! i)" "lg_owned (sy_log s ! i')"
    and "lg_key (sy_log s ! i) = lg_key (sy_log s ! i')"
  shows "lg_time (sy_log s ! i) + (if ttl \<le> 0 then 60000000000 else ttl) \<le> lg_time (sy_log s ! i')"
  using acct_reach_inv [OF assms(1,2)] assms(3-7)
  by (auto simp: own_inv_def own_ok_def apart_def sorted_wrt_iff_nth_less)

theorem accounting_recorded_once_witness:
  "let s = wit_sys [Arrive wit_start_req, TryBegin 0, DoRecord 0, DoFinish 0, Pass 10, Arrive wit_start_req, TryBegin 1, DoRecord 1, DoFinish 1]
   in length (sy_log s) = 2 \<and> lg_time (sy_log s ! 0) + 10 \<le> lg_time (sy_log s ! 1)"
proof -
  let ?k = "acctKey wit_start_req ''start''"
  let ?s0 = "\<lparr>sy_world = wit_world, sy_tasks = [], sy_now = 0, sy_ops = [], sy_log = []\<rparr> :: acctSys"
  let ?s1 = "fold (acct_step None) [Arrive wit_start_req, TryBegin 0, DoRecord 0, DoFinish 0] ?s0"
  let ?s2 = "?s1\<lparr>sy_now := 10\<rparr>"
  let ?acts = "[Arrive wit_start_req, TryBegin 0, DoRecord 0, DoFinish 0, Pass 10, Arrive wit_start_req, TryBegin 1, DoRecord 1, DoFinish 1]"
  let ?s3 = "fold (acct_step None) [Arrive wit_start_req, TryBegin 1, DoRecord 1, DoFinish 1] ?s2"
  let ?j0 = "newJournal 0 0 10"
  have att0: "journal_attempt ?k 0 ?j0 = (?j0\<lparr>jo_pending := [?k], jo_pendingBytes := journalKeyBytes ?k\<rparr>, BeginOwner)"
    using wit_start_key(2) by (simp add: journal_attempt_def journal_expireLocked_def newJournal_def)
  have "solo ?s0" using att0 by (auto simp: solo_def wit_world_def NewRing_def)
  from solo_run [OF this, of 0 ?k ?s1] obtain e0 r1 res where s1: "sy_now ?s1 = 0" "length (sy_tasks ?s1) = 1"
    "sy_log ?s1 = [\<lparr>lg_key = ?k, lg_owned = True, lg_time = 0, lg_event = e0\<rparr>]"
    "aw_journal (sy_world ?s1) = Some (journal_Finish ?k True 0 (?j0\<lparr>jo_pending := [?k], jo_pendingBytes := journalKeyBytes ?k\<rparr>))"
    "sysRing ?s1 = Some r1" "rg_seq r1 = 1" "\<not> rg_reject r1" "\<not> rg_closed r1"
    by (auto simp: att0 wit_world_def sysRing_def NewRing_def simp del: fold.simps fold_simps)
  let ?j1 = "journal_Finish ?k True 0 (?j0\<lparr>jo_pending := [?k], jo_pendingBytes := journalKeyBytes ?k\<rparr>)"
  have "snd (journal_attempt ?k 10 ?j1) = BeginOwner"
    using wit_start_key(2)
    by (simp add: journal_Finish_def journal_attempt_def journal_expireLocked_def newJournal_def sizeOf_def Let_def)
  with s1 have "solo ?s2" by (auto simp: solo_def sysRing_def simp del: fold.simps fold_simps)
  from solo_run [OF this, of 1 ?k ?s3] s1 obtain e1 where
    log: "sy_log ?s3 = [\<lparr>lg_key = ?k, lg_owned = True, lg_time = 0, lg_event = e0\<rparr>, \<lparr>lg_key = ?k, lg_owned = True, lg_time = 10, lg_event = e1\<rparr>]"
    by (auto simp del: fold.simps fold_simps)
  have "acct_step None (Pass 10) ?s1 = ?s2" using s1(1) by (simp del: fold.simps fold_simps)
  then have "wit_sys ?acts = ?s3"
    by (simp add: wit_sys_def del: acct_step.simps)
  with log have l: "sy_log (wit_sys ?acts) = [\<lparr>lg_key = ?k, lg_owned = True, lg_time = 0, lg_event = e0\<rparr>, \<lparr>lg_key = ?k, lg_owned = True, lg_time = 10, lg_event = e1\<rparr>]"
    by (simp only:)
  show ?thesis
    unfolding Let_def l using accounting_recorded_once [OF wit_sys_reach wit_world_start, of 0 1 ?acts, unfolded l] by simp
qed

definition handlerStep :: "acctAct \<Rightarrow> bool" where
  "handlerStep act \<longleftrightarrow> (\<exists>i. act \<in> {TryBegin i, DoRecord i, DoFinish i})"

lemma finish_run:
  assumes "i < length (sy_tasks s)" "tk_phase (sy_tasks s ! i) \<noteq> AtBegin"
  shows "\<exists>res. tk_phase (sy_tasks (fold (acct_step snap) [DoRecord i, DoFinish i] s) ! i) = AtEnd res"
  using record_then_finish [OF assms] by (simp del: acct_step.simps)

lemma begin_run:
  assumes "own_inv ttl s" "i < length (sy_tasks s)" "\<And>n. \<not> owner (sy_tasks s) (tkey (sy_tasks s ! i)) n"
  shows "\<exists>res. tk_phase (sy_tasks (fold (acct_step snap) [TryBegin i, DoRecord i, DoFinish i] s) ! i) = AtEnd res"
  using finish_run [of i "acct_step snap (TryBegin i) s" snap] tryBegin_proceeds [OF assms, of snap] assms(2)
  by (simp add: step_tasks del: acct_step.simps)

text \<open>
  Property C3. Waiting for another owner never deadlocks. From every reachable state, every
  request has a schedule of at most five steps of handlers (its own and those of the owner of
  its key, with no further arrival, cancellation or passing of time) after which it has its
  result.
\<close>

theorem accounting_progress:
  assumes "acct_reach w s" "acct_start maxEntries maxBytes ttl capacity stdout w" "i < length (sy_tasks s)"
  shows "\<exists>acts. length acts \<le> 5 \<and> list_all handlerStep acts \<and>
    (\<exists>res. tk_phase (sy_tasks (fold (acct_step snap) acts s) ! i) = AtEnd res)"
proof (cases "tk_phase (sy_tasks s ! i) = AtBegin")
  case False
  from finish_run [OF assms(3) False] show ?thesis
    by (intro exI [of _ "[DoRecord i, DoFinish i]"]) (auto simp: handlerStep_def simp del: acct_step.simps)
next
  case True
  have inv: "own_inv (journalTTL ttl) s" using acct_reach_inv [OF assms(1,2)] by simp
  show ?thesis
  proof (cases "\<exists>n. owner (sy_tasks s) (tkey (sy_tasks s ! i)) n")
    case False
    then show ?thesis using begin_run [OF inv assms(3), of snap]
      by (intro exI [of _ "[TryBegin i, DoRecord i, DoFinish i]"]) (auto simp: handlerStep_def simp del: acct_step.simps)
  next
    case owned: True
    then obtain n where n: "owner (sy_tasks s) (tkey (sy_tasks s ! i)) n" by auto
    then have "i \<noteq> n" using True by (auto simp: owner_def owns_def)
    note rel = owner_released [OF inv n refl, where snap = snap]
    from begin_run [OF rel(1), of i snap] rel(2-4) \<open>i \<noteq> n\<close> assms(3) show ?thesis
      by (intro exI [of _ "[DoRecord n, DoFinish n, TryBegin i, DoRecord i, DoFinish i]"])
        (auto simp: handlerStep_def simp del: acct_step.simps)
  qed
qed

theorem accounting_progress_witness:
  "\<exists>acts. length acts \<le> 5 \<and> list_all handlerStep acts \<and>
    (\<exists>res. tk_phase (sy_tasks (fold (acct_step None) acts (wit_sys [Arrive wit_start_req, Arrive wit_start_req, TryBegin 0, TryBegin 1])) ! 1) = AtEnd res)"
proof -
  have "length (sy_tasks (wit_sys [Arrive wit_start_req, Arrive wit_start_req, TryBegin 0, TryBegin 1])) = 2"
    by (simp add: wit_sys_def step_tasks del: acct_step.simps(4))
  then show ?thesis
    by (intro accounting_progress [OF wit_sys_reach wit_world_start]) simp
qed

text \<open>
  The interleaved steps of one request, run without interference, are the handler: a free key
  gives its result and its world.
\<close>

lemma Accounting_Handle_steps:
  assumes "acct_admit False q = Inr kind" "aw_journal (sy_world s) = Some j" "i = length (sy_tasks s)"
    and "snd (journal_attempt (acctKey q kind) (sy_now s) j) \<noteq> BeginWait"
    and "s' = fold (acct_step snap) [Arrive q, TryBegin i, DoRecord i, DoFinish i] s"
  shows "\<exists>res. tk_phase (sy_tasks s' ! i) = AtEnd res \<and>
    Accounting_Handle (False, False, False) snap (sy_now s) (clockAt (sy_now s)) (sy_now s) q (sy_world s) = Some (sy_world s', res)"
proof -
  obtain j' out where att: "journal_attempt (acctKey q kind) (sy_now s) j = (j', out)" by fastforce
  let ?w = "(sy_world s)\<lparr>aw_journal := Some j'\<rparr>"
  obtain w' acc res where rec: "acct_record False snap (clockAt (sy_now s)) q kind (out = BeginSaturated) ?w = (w', acc, res)"
    by (metis prod_cases3)
  have key: "tkey \<lparr>tk_req = q, tk_kind = kind, tk_ctxDone = False, tk_phase = ph\<rparr> = acctKey q kind" for ph by (simp add: tkey_def)
  show ?thesis
    using assms(1-4) att rec acct_record_journal [OF rec]
    by (cases out)
      (auto simp: assms(5) Accounting_Handle_def tryBegin_def doRecord_def doFinish_def setTask_def key Let_def split: option.splits)
qed

end
