(* ===== verification/Domain_Enums.thy ===== *)
theory Domain_Enums
  imports Domain_AVPair Go_Ascii
begin

text \<open>
  The closed vocabularies of the domain layer (\<open>internal/domain/enums.go\<close>, \<open>aaa_neutral.go\<close>,
  \<open>protocol.go\<close>, \<open>meta.go\<close>): which values are valid, how they print and which texts parse to them.
  Wire values are octets, the other vocabularies are strings. \<open>strings.ToLower\<close> is the argument
  \<open>lower\<close> of the parsers: only its behaviour on ASCII text is known (\<open>lower_law\<close>); its Unicode tables
  are not modelled.
\<close>

definition lower_law :: "(string \<Rightarrow> string) \<Rightarrow> bool" where
  "lower_law lower \<longleftrightarrow> (\<forall>s. (\<forall>c \<in> set s. (of_char c :: nat) < 128) \<longrightarrow> lower s = ToLower s)"

text \<open>A switch over constants with its default branch.\<close>

definition goSwitch :: "('a \<times> 'b) list \<Rightarrow> 'b \<Rightarrow> 'a \<Rightarrow> 'b" where
  "goSwitch branches dflt x = (case map_of branches x of None \<Rightarrow> dflt | Some y \<Rightarrow> y)"

abbreviation (input) invalidArg :: "string \<Rightarrow> Error" where "invalidArg m \<equiv> NewError CodeInvalidArgument m"

subsection \<open>Wire values\<close>

definition AuthenType_Valid :: "byte \<Rightarrow> bool" where
  "AuthenType_Valid t \<longleftrightarrow> t \<in> set [0x01, 0x02, 0x03, 0x04, 0x05, 0x06]"

definition AuthenType_String :: "byte \<Rightarrow> string" where
  "AuthenType_String =
     goSwitch [(0x01, ''ascii''), (0x02, ''pap''), (0x03, ''chap''), (0x04, ''arap''), (0x05, ''mschap''), (0x06, ''mschapv2'')] ''''"

definition ParseAuthenType :: "(string \<Rightarrow> string) \<Rightarrow> string \<Rightarrow> Error + byte" where
  "ParseAuthenType lower s =
     goSwitch [(''ascii'', Inr 0x01), (''pap'', Inr 0x02), (''chap'', Inr 0x03), (''arap'', Inr 0x04), (''mschap'', Inr 0x05),
       (''mschapv1'', Inr 0x05), (''mschapv2'', Inr 0x06)] (Inl (invalidArg ''unknown authentication type'')) (lower s)"

definition AuthenMethod_Valid :: "byte \<Rightarrow> bool" where
  "AuthenMethod_Valid m \<longleftrightarrow> m \<in> set [0x00, 0x01, 0x02, 0x03, 0x04, 0x05, 0x06, 0x08, 0x10, 0x11, 0x20]"

definition ParseAuthenMethod :: "(string \<Rightarrow> string) \<Rightarrow> string \<Rightarrow> Error + byte" where
  "ParseAuthenMethod lower s =
     goSwitch [(''not_set'', Inr 0x00), (''none'', Inr 0x01), (''krb5'', Inr 0x02), (''line'', Inr 0x03), (''enable'', Inr 0x04),
       (''local'', Inr 0x05), (''tacacs'', Inr 0x06), (''tacacs+'', Inr 0x06), (''guest'', Inr 0x08), (''radius'', Inr 0x10),
       (''krb4'', Inr 0x11), (''rcmd'', Inr 0x20)] (Inl (invalidArg ''unknown authentication method'')) (lower s)"

definition AuthenService_Valid :: "byte \<Rightarrow> bool" where
  "AuthenService_Valid s \<longleftrightarrow> s \<in> set [0x00, 0x01, 0x02, 0x03, 0x04, 0x05, 0x06, 0x07, 0x08, 0x09]"

definition AuthenService_String :: "byte \<Rightarrow> string" where
  "AuthenService_String =
     goSwitch [(0x00, ''none''), (0x01, ''login''), (0x02, ''enable''), (0x03, ''ppp''), (0x04, ''arap''), (0x05, ''pt''),
       (0x06, ''rcmd''), (0x07, ''x25''), (0x08, ''nasi''), (0x09, ''fwproxy'')] ''''"

definition ParseAuthenService :: "(string \<Rightarrow> string) \<Rightarrow> string \<Rightarrow> Error + byte" where
  "ParseAuthenService lower s =
     goSwitch [(''none'', Inr 0x00), (''login'', Inr 0x01), (''enable'', Inr 0x02), (''ppp'', Inr 0x03), (''arap'', Inr 0x04),
       (''pt'', Inr 0x05), (''rcmd'', Inr 0x06), (''x25'', Inr 0x07), (''nasi'', Inr 0x08), (''fwproxy'', Inr 0x09)]
       (Inl (invalidArg ''unknown authentication service'')) (lower s)"

definition AuthenAction_Valid :: "byte \<Rightarrow> bool" where
  "AuthenAction_Valid a \<longleftrightarrow> a \<in> set [0x01, 0x02, 0x03, 0x04]"

definition AuthenAction_String :: "byte \<Rightarrow> string" where
  "AuthenAction_String = goSwitch [(0x01, ''login''), (0x02, ''chpass''), (0x03, ''sendpass''), (0x04, ''sendauth'')] ''''"

definition ParseAuthenAction :: "(string \<Rightarrow> string) \<Rightarrow> string \<Rightarrow> Error + byte" where
  "ParseAuthenAction lower s =
     goSwitch [(''login'', Inr 0x01), (''chpass'', Inr 0x02), (''sendpass'', Inr 0x03), (''sendauth'', Inr 0x04)]
       (Inl (invalidArg ''unknown authentication action'')) (lower s)"

definition AuthenStatus_Valid :: "byte \<Rightarrow> bool" where
  "AuthenStatus_Valid s \<longleftrightarrow> s \<in> set [0x01, 0x02, 0x03, 0x04, 0x05, 0x06, 0x07, 0x21]"

definition AuthenStatus_String :: "byte \<Rightarrow> string" where
  "AuthenStatus_String =
     goSwitch [(0x01, ''pass''), (0x02, ''fail''), (0x03, ''getdata''), (0x04, ''getuser''), (0x05, ''getpass''),
       (0x06, ''restart''), (0x07, ''error''), (0x21, ''follow'')] ''''"

definition ParseAuthenStatus :: "(string \<Rightarrow> string) \<Rightarrow> string \<Rightarrow> Error + byte" where
  "ParseAuthenStatus lower s =
     goSwitch [(''pass'', Inr 0x01), (''fail'', Inr 0x02), (''getdata'', Inr 0x03), (''getuser'', Inr 0x04), (''getpass'', Inr 0x05),
       (''restart'', Inr 0x06), (''error'', Inr 0x07), (''follow'', Inr 0x21)]
       (Inl (invalidArg ''unknown authentication status'')) (lower s)"

definition AcctFlags_Valid :: "byte \<Rightarrow> bool" where
  "AcctFlags_Valid f \<longleftrightarrow> f \<in> set [0x02, 0x04, 0x08, 0x0a]"

definition AcctFlags_String :: "byte \<Rightarrow> string" where
  "AcctFlags_String = goSwitch [(0x02, ''start''), (0x04, ''stop''), (0x08, ''watchdog''), (0x0a, ''watchdog_update'')] ''''"

definition ParseAcctFlags :: "(string \<Rightarrow> string) \<Rightarrow> string \<Rightarrow> Error + byte" where
  "ParseAcctFlags lower s =
     goSwitch [(''start'', Inr 0x02), (''stop'', Inr 0x04), (''watchdog'', Inr 0x08), (''watchdog_update'', Inr 0x0a)]
       (Inl (invalidArg ''unknown accounting flags'')) (lower s)"

definition AcctStatus_Valid :: "byte \<Rightarrow> bool" where
  "AcctStatus_Valid s \<longleftrightarrow> s \<in> set [0x01, 0x02, 0x21]"

definition AcctStatus_String :: "byte \<Rightarrow> string" where
  "AcctStatus_String = goSwitch [(0x01, ''success''), (0x02, ''error''), (0x21, ''follow'')] ''''"

definition PacketFamily_Valid :: "byte \<Rightarrow> bool" where
  "PacketFamily_Valid p \<longleftrightarrow> p \<in> set [0x01, 0x02, 0x03]"

definition PacketFamily_String :: "byte \<Rightarrow> string" where
  "PacketFamily_String = goSwitch [(0x01, ''authen''), (0x02, ''author''), (0x03, ''acct'')] ''''"

definition Privilege_Valid :: "byte \<Rightarrow> bool" where
  "Privilege_Valid p \<longleftrightarrow> p \<le> 15"

definition ParsePrivilegeLevel :: "int \<Rightarrow> Error + byte" where
  "ParsePrivilegeLevel v = (if v < 0 \<or> v > 15 then Inl (invalidArg ''privilege level must be 0-15'') else Inr (word_of_int v))"

subsection \<open>String vocabularies\<close>

definition RuleKind_Valid :: "string \<Rightarrow> bool" where
  "RuleKind_Valid k \<longleftrightarrow> k \<in> set [''service'', ''command'']"

definition ParseRuleKind :: "(string \<Rightarrow> string) \<Rightarrow> string \<Rightarrow> Error + string" where
  "ParseRuleKind lower s =
     (let k = lower s in if RuleKind_Valid k then Inr k else Inl (invalidArg ''rule kind must be service or command''))"

definition AuthorDecision_Valid :: "string \<Rightarrow> bool" where
  "AuthorDecision_Valid d \<longleftrightarrow> d \<in> set [''permit_add'', ''permit_replace'', ''deny'']"

definition ParseAuthorDecision :: "(string \<Rightarrow> string) \<Rightarrow> string \<Rightarrow> Error + string" where
  "ParseAuthorDecision lower s =
     (let d = lower s in if AuthorDecision_Valid d then Inr d
      else Inl (invalidArg ''authorization decision must be permit_add, permit_replace, or deny''))"

definition Transport_Valid :: "string \<Rightarrow> bool" where
  "Transport_Valid t \<longleftrightarrow> t \<in> set [''legacy'', ''tls'']"

definition ParseTransport :: "(string \<Rightarrow> string) \<Rightarrow> string \<Rightarrow> Error + string" where
  "ParseTransport lower s =
     (let t = lower s in if Transport_Valid t then Inr t else Inl (invalidArg ''transport must be legacy or tls''))"

definition MatchMode_Valid :: "string \<Rightarrow> bool" where
  "MatchMode_Valid m \<longleftrightarrow> m \<in> set [''address_and_certificate'', ''certificate_only'']"

definition ParseMatchMode :: "(string \<Rightarrow> string) \<Rightarrow> string \<Rightarrow> Error + string" where
  "ParseMatchMode lower s =
     (let m = lower s in if MatchMode_Valid m then Inr m
      else Inl (invalidArg ''match mode must be address_and_certificate or certificate_only''))"

definition AuthMethod_Valid :: "string \<Rightarrow> bool" where
  "AuthMethod_Valid m \<longleftrightarrow> m \<in> set [''password'', ''chap'', ''mschapv1'', ''mschapv2'', ''eap'']"

definition ParseAuthMethod :: "(string \<Rightarrow> string) \<Rightarrow> string \<Rightarrow> Error + string" where
  "ParseAuthMethod lower s =
     goSwitch [(''password'', Inr ''password''), (''pap'', Inr ''password''), (''chap'', Inr ''chap''), (''mschapv1'', Inr ''mschapv1''),
       (''mschapv2'', Inr ''mschapv2''), (''eap'', Inr ''eap'')]
       (Inl (invalidArg ''authentication method must be password, pap, chap, mschapv1, mschapv2, or eap'')) (lower s)"

definition Effect_Valid :: "string \<Rightarrow> bool" where
  "Effect_Valid e \<longleftrightarrow> e \<in> set [''permit'', ''deny'', ''error'']"

definition ParseEffect :: "(string \<Rightarrow> string) \<Rightarrow> string \<Rightarrow> Error + string" where
  "ParseEffect lower s =
     (let e = lower s in if Effect_Valid e then Inr e else Inl (invalidArg ''effect must be permit, deny, or error''))"

definition AuthOutcome_Valid :: "string \<Rightarrow> bool" where
  "AuthOutcome_Valid o' \<longleftrightarrow> o' \<in> set [''pass'', ''reject'', ''challenge'', ''error'']"

definition ParseAuthOutcome :: "(string \<Rightarrow> string) \<Rightarrow> string \<Rightarrow> Error + string" where
  "ParseAuthOutcome lower s =
     (let r = lower s in if AuthOutcome_Valid r then Inr r
      else Inl (invalidArg ''authentication outcome must be pass, reject, challenge, or error''))"

definition Protocol_Valid :: "string \<Rightarrow> bool" where
  "Protocol_Valid p \<longleftrightarrow> p \<in> set [''tacacs'', ''radius'', ''http'']"

definition ParseProtocol :: "(string \<Rightarrow> string) \<Rightarrow> string \<Rightarrow> Error + string" where
  "ParseProtocol lower s =
     (let p = lower s in if Protocol_Valid p then Inr p else Inl (invalidArg ''protocol must be tacacs, radius, or http''))"

definition ListenerRole_Valid :: "string \<Rightarrow> bool" where
  "ListenerRole_Valid r \<longleftrightarrow>
     r \<in> set [''authentication'', ''authorization'', ''accounting'', ''access'', ''admin'', ''aaa'', ''dynamic_authorization'']"

definition ParseListenerRole :: "(string \<Rightarrow> string) \<Rightarrow> string \<Rightarrow> Error + string" where
  "ParseListenerRole lower s =
     (let r = lower s in if ListenerRole_Valid r then Inr r
      else Inl (invalidArg ''listener role must be authentication, authorization, accounting, access, admin, aaa, or dynamic_authorization''))"

definition Carrier_Valid :: "string \<Rightarrow> bool" where
  "Carrier_Valid c \<longleftrightarrow> c \<in> set [''tacacs_legacy_tcp'', ''tacacs_tls'', ''radius_udp'', ''http_tcp'', ''radius_tls'']"

definition ParseCarrier :: "(string \<Rightarrow> string) \<Rightarrow> string \<Rightarrow> Error + string" where
  "ParseCarrier lower s =
     (let c = lower s in if Carrier_Valid c then Inr c
      else Inl (invalidArg ''carrier must be tacacs_legacy_tcp, tacacs_tls, radius_udp, http_tcp, or radius_tls''))"

definition ObjectSource_Valid :: "string \<Rightarrow> bool" where
  "ObjectSource_Valid s \<longleftrightarrow> s \<in> set [''config'', ''runtime'', ''override'']"

definition ParseObjectSource :: "string \<Rightarrow> Error + string" where
  "ParseObjectSource v =
     (if ObjectSource_Valid v then Inr v else Inl (invalidArg ''object source must be config, runtime, or override''))"

definition SecretLifecycle_Valid :: "string \<Rightarrow> bool" where
  "SecretLifecycle_Valid s \<longleftrightarrow> s \<in> set [''current'', ''due_soon'', ''overdue'', ''unknown'']"

subsection \<open>Vocabularies as an interface\<close>

text \<open>
  What every vocabulary promises to its users: a valid value parses back from its text in any
  spelling of the ASCII case, and nothing but a valid value is ever parsed.
\<close>

locale vocabulary =
  fixes lower :: "string \<Rightarrow> string" and valid :: "'a \<Rightarrow> bool" and str :: "'a \<Rightarrow> string" and parse :: "string \<Rightarrow> Error + 'a"
  assumes parse_lower: "lower s = lower t \<Longrightarrow> parse s = parse t"
    and parse_str: "valid v \<Longrightarrow> parse (str v) = Inr v"
    and parse_valid: "parse s = Inr v \<Longrightarrow> valid v"
    and parse_code: "parse s = Inl e \<Longrightarrow> err_Code e = CodeInvalidArgument"
begin

lemma str_inj: "valid v \<Longrightarrow> valid w \<Longrightarrow> str v = str w \<Longrightarrow> v = w"
  using parse_str by (metis sum.inject(2))

lemma parse_normal: "parse s = Inr v \<Longrightarrow> parse (str v) = parse s"
  using parse_str parse_valid by simp

lemma valid_iff: "valid v \<longleftrightarrow> (\<exists>s. parse s = Inr v)"
  using parse_str parse_valid by blast

end

subsection \<open>The vocabularies of the program\<close>

lemma lower_ascii: "lower_law lower \<Longrightarrow> \<forall>c \<in> set s. (of_char c :: nat) < 128 \<Longrightarrow> lower s = ToLower s"
  by (simp add: lower_law_def)

lemma vocabulary_tableI:
  assumes low: "lower_law lower"
    and valid: "\<And>v. valid v \<longleftrightarrow> v \<in> set vals"
    and parse: "\<And>s. parse s = goSwitch tab (Inl (invalidArg m)) (lower s)"
    and vals: "list_all (\<lambda>v. list_all (\<lambda>c. (of_char c :: nat) < 128) (str v) \<and> ToLower (str v) = str v \<and> map_of tab (str v) = Some (Inr v)) vals"
    and tab: "list_all (\<lambda>(_, r). case r of Inl _ \<Rightarrow> False | Inr v \<Rightarrow> v \<in> set vals) tab"
  shows "vocabulary lower valid str parse"
proof
  fix s t :: string and v :: 'a and e :: Error
  show "parse s = parse t" if "lower s = lower t" using that by (simp add: parse)
  show "parse (str v) = Inr v" if "valid v"
    using that vals lower_ascii [OF low, of "str v"] by (auto simp: valid parse goSwitch_def list_all_iff)
  have branch: "\<exists>v \<in> set vals. r = Inr v" if "map_of tab k = Some r" for k r
    using map_of_SomeD [OF that] tab by (auto simp: list_all_iff split: sum.splits)
  show "valid v" if "parse s = Inr v"
    using that branch by (fastforce simp: parse goSwitch_def valid split: option.splits)
  show "err_Code e = CodeInvalidArgument" if "parse s = Inl e"
    using that branch by (fastforce simp: parse goSwitch_def NewError_def split: option.splits)
qed

lemma vocabulary_stringI:
  assumes low: "lower_law lower"
    and valid: "\<And>v. valid v \<longleftrightarrow> v \<in> set vals"
    and parse: "\<And>s. parse s = (let k = lower s in if valid k then Inr k else Inl (invalidArg m))"
    and vals: "list_all (\<lambda>v. list_all (\<lambda>c. (of_char c :: nat) < 128) v \<and> ToLower v = v) vals"
  shows "vocabulary lower valid (\<lambda>v. v) parse"
proof
  fix s t v :: string and e :: Error
  show "parse s = parse t" if "lower s = lower t" using that by (simp add: parse)
  show "parse v = Inr v" if "valid v"
    using that vals lower_ascii [OF low, of v] by (auto simp: valid parse list_all_iff Let_def)
  show "valid v" if "parse s = Inr v" using that by (auto simp: parse Let_def split: if_splits)
  show "err_Code e = CodeInvalidArgument" if "parse s = Inl e"
    using that by (auto simp: parse Let_def NewError_def split: if_splits)
qed

lemma vocabulary_wire:
  assumes "lower_law lower"
  shows "vocabulary lower AuthenType_Valid AuthenType_String (ParseAuthenType lower)"
    "vocabulary lower AuthenMethod_Valid AuthenMethod_String (ParseAuthenMethod lower)"
    "vocabulary lower AuthenService_Valid AuthenService_String (ParseAuthenService lower)"
    "vocabulary lower AuthenAction_Valid AuthenAction_String (ParseAuthenAction lower)"
    "vocabulary lower AuthenStatus_Valid AuthenStatus_String (ParseAuthenStatus lower)"
    "vocabulary lower AcctFlags_Valid AcctFlags_String (ParseAcctFlags lower)"
    "vocabulary lower AuthMethod_Valid (\<lambda>m. m) (ParseAuthMethod lower)"
  by (rule vocabulary_tableI, rule assms, rule AuthenType_Valid_def, rule ParseAuthenType_def, code_simp, code_simp)
    (rule vocabulary_tableI, rule assms, rule AuthenMethod_Valid_def, rule ParseAuthenMethod_def, code_simp, code_simp,
     rule vocabulary_tableI, rule assms, rule AuthenService_Valid_def, rule ParseAuthenService_def, code_simp, code_simp,
     rule vocabulary_tableI, rule assms, rule AuthenAction_Valid_def, rule ParseAuthenAction_def, code_simp, code_simp,
     rule vocabulary_tableI, rule assms, rule AuthenStatus_Valid_def, rule ParseAuthenStatus_def, code_simp, code_simp,
     rule vocabulary_tableI, rule assms, rule AcctFlags_Valid_def, rule ParseAcctFlags_def, code_simp, code_simp,
     rule vocabulary_tableI, rule assms, rule AuthMethod_Valid_def, rule ParseAuthMethod_def, code_simp, code_simp)

lemma vocabulary_strings:
  assumes "lower_law lower"
  shows "vocabulary lower RuleKind_Valid (\<lambda>v. v) (ParseRuleKind lower)"
    "vocabulary lower AuthorDecision_Valid (\<lambda>v. v) (ParseAuthorDecision lower)"
    "vocabulary lower Transport_Valid (\<lambda>v. v) (ParseTransport lower)"
    "vocabulary lower MatchMode_Valid (\<lambda>v. v) (ParseMatchMode lower)"
    "vocabulary lower Effect_Valid (\<lambda>v. v) (ParseEffect lower)"
    "vocabulary lower AuthOutcome_Valid (\<lambda>v. v) (ParseAuthOutcome lower)"
    "vocabulary lower Protocol_Valid (\<lambda>v. v) (ParseProtocol lower)"
    "vocabulary lower ListenerRole_Valid (\<lambda>v. v) (ParseListenerRole lower)"
    "vocabulary lower Carrier_Valid (\<lambda>v. v) (ParseCarrier lower)"
  by (rule vocabulary_stringI, rule assms, rule RuleKind_Valid_def, rule ParseRuleKind_def, code_simp)
    (rule vocabulary_stringI, rule assms, rule AuthorDecision_Valid_def, rule ParseAuthorDecision_def, code_simp,
     rule vocabulary_stringI, rule assms, rule Transport_Valid_def, rule ParseTransport_def, code_simp,
     rule vocabulary_stringI, rule assms, rule MatchMode_Valid_def, rule ParseMatchMode_def, code_simp,
     rule vocabulary_stringI, rule assms, rule Effect_Valid_def, rule ParseEffect_def, code_simp,
     rule vocabulary_stringI, rule assms, rule AuthOutcome_Valid_def, rule ParseAuthOutcome_def, code_simp,
     rule vocabulary_stringI, rule assms, rule Protocol_Valid_def, rule ParseProtocol_def, code_simp,
     rule vocabulary_stringI, rule assms, rule ListenerRole_Valid_def, rule ParseListenerRole_def, code_simp,
     rule vocabulary_stringI, rule assms, rule Carrier_Valid_def, rule ParseCarrier_def, code_simp)

lemma lower_law_ToLower: "lower_law ToLower"
  by (simp add: lower_law_def)

interpretation authen_type: vocabulary ToLower AuthenType_Valid AuthenType_String "ParseAuthenType ToLower"
  by (rule vocabulary_wire [OF lower_law_ToLower])

interpretation auth_method: vocabulary ToLower AuthMethod_Valid "\<lambda>m. m" "ParseAuthMethod ToLower"
  by (rule vocabulary_wire [OF lower_law_ToLower])

interpretation object_source: vocabulary "\<lambda>s. s" ObjectSource_Valid "\<lambda>v. v" ParseObjectSource
  by unfold_locales (auto simp: ParseObjectSource_def NewError_def split: if_splits)

lemma wire_text_empty:
  "AuthenType_String v = '''' \<longleftrightarrow> \<not> AuthenType_Valid v"
  "AuthenMethod_String v = '''' \<longleftrightarrow> \<not> AuthenMethod_Valid v"
  "AuthenService_String v = '''' \<longleftrightarrow> \<not> AuthenService_Valid v"
  "AuthenAction_String v = '''' \<longleftrightarrow> \<not> AuthenAction_Valid v"
  "AuthenStatus_String v = '''' \<longleftrightarrow> \<not> AuthenStatus_Valid v"
  "AcctFlags_String v = '''' \<longleftrightarrow> \<not> AcctFlags_Valid v"
  "AcctStatus_String v = '''' \<longleftrightarrow> \<not> AcctStatus_Valid v"
  "PacketFamily_String v = '''' \<longleftrightarrow> \<not> PacketFamily_Valid v"
  by (simp_all add: AuthenType_String_def AuthenType_Valid_def AuthenMethod_String_def AuthenMethod_Valid_def AuthenService_String_def
      AuthenService_Valid_def AuthenAction_String_def AuthenAction_Valid_def AuthenStatus_String_def AuthenStatus_Valid_def
      AcctFlags_String_def AcctFlags_Valid_def AcctStatus_String_def AcctStatus_Valid_def PacketFamily_String_def PacketFamily_Valid_def
      goSwitch_def)

lemma ParseObjectSource_Inr:
  "ParseObjectSource src = Inr source \<longleftrightarrow> source = src \<and> src \<in> {''config'', ''runtime'', ''override''}"
  by (auto simp: ParseObjectSource_def ObjectSource_Valid_def)

lemma ParsePrivilegeLevel_Inr: "ParsePrivilegeLevel n = Inr p \<longleftrightarrow> Privilege_Valid p \<and> uint p = n"
  by (auto simp: ParsePrivilegeLevel_def Privilege_Valid_def word_le_def uint_word_of_int)

text \<open>
  Property C32. The parsers of the domain vocabularies are type checks: with \<open>strings.ToLower\<close> as documented on
  ASCII text, each parses the text of every valid value back to it, never yields an invalid
  value, and fails with \<open>invalid_argument\<close> only. All but \<open>ParseObjectSource\<close> read the same
  value from texts that only differ in case; \<open>ParseObjectSource\<close> is case-sensitive and accepts
  exactly the three texts of the object sources. Of the wire vocabularies exactly the valid octets have a text. A
  privilege level is parsed exactly from the integers 0 to 15, without truncation.
\<close>

theorem domain_vocabularies:
  assumes "lower_law lower"
  shows "vocabulary lower AuthenType_Valid AuthenType_String (ParseAuthenType lower) \<and>
    vocabulary lower AuthenMethod_Valid AuthenMethod_String (ParseAuthenMethod lower) \<and>
    vocabulary lower AuthenService_Valid AuthenService_String (ParseAuthenService lower) \<and>
    vocabulary lower AuthenAction_Valid AuthenAction_String (ParseAuthenAction lower) \<and>
    vocabulary lower AuthenStatus_Valid AuthenStatus_String (ParseAuthenStatus lower) \<and>
    vocabulary lower AcctFlags_Valid AcctFlags_String (ParseAcctFlags lower) \<and>
    vocabulary lower AuthMethod_Valid (\<lambda>m. m) (ParseAuthMethod lower) \<and>
    vocabulary lower RuleKind_Valid (\<lambda>v. v) (ParseRuleKind lower) \<and>
    vocabulary lower AuthorDecision_Valid (\<lambda>v. v) (ParseAuthorDecision lower) \<and>
    vocabulary lower Transport_Valid (\<lambda>v. v) (ParseTransport lower) \<and>
    vocabulary lower MatchMode_Valid (\<lambda>v. v) (ParseMatchMode lower) \<and>
    vocabulary lower Effect_Valid (\<lambda>v. v) (ParseEffect lower) \<and>
    vocabulary lower AuthOutcome_Valid (\<lambda>v. v) (ParseAuthOutcome lower) \<and>
    vocabulary lower Protocol_Valid (\<lambda>v. v) (ParseProtocol lower) \<and>
    vocabulary lower ListenerRole_Valid (\<lambda>v. v) (ParseListenerRole lower) \<and>
    vocabulary lower Carrier_Valid (\<lambda>v. v) (ParseCarrier lower) \<and>
    vocabulary (\<lambda>s. s) ObjectSource_Valid (\<lambda>v. v) ParseObjectSource \<and>
    (ParseObjectSource src = Inr source \<longleftrightarrow> source = src \<and> src \<in> {''config'', ''runtime'', ''override''}) \<and>
    (AuthenType_String b = '''' \<longleftrightarrow> \<not> AuthenType_Valid b) \<and> (AuthenMethod_String b = '''' \<longleftrightarrow> \<not> AuthenMethod_Valid b) \<and>
    (AuthenService_String b = '''' \<longleftrightarrow> \<not> AuthenService_Valid b) \<and> (AuthenAction_String b = '''' \<longleftrightarrow> \<not> AuthenAction_Valid b) \<and>
    (AuthenStatus_String b = '''' \<longleftrightarrow> \<not> AuthenStatus_Valid b) \<and> (AcctFlags_String b = '''' \<longleftrightarrow> \<not> AcctFlags_Valid b) \<and>
    (AcctStatus_String b = '''' \<longleftrightarrow> \<not> AcctStatus_Valid b) \<and> (PacketFamily_String b = '''' \<longleftrightarrow> \<not> PacketFamily_Valid b) \<and>
    (ParsePrivilegeLevel n = Inr b \<longleftrightarrow> Privilege_Valid b \<and> uint b = n)"
  by (intro conjI vocabulary_wire [OF assms] vocabulary_strings [OF assms] object_source.vocabulary_axioms
      ParseObjectSource_Inr wire_text_empty ParsePrivilegeLevel_Inr)

theorem domain_vocabularies_witness:
  "vocabulary ToLower AuthMethod_Valid (\<lambda>m. m) (ParseAuthMethod ToLower) \<and>
   ParseAuthMethod ToLower ''PAP'' = Inr ''password'' \<and> ParseAuthenType ToLower ''MSCHAPv1'' = Inr 0x05 \<and>
   ParsePrivilegeLevel 15 = Inr 15 \<and> ParseObjectSource ''config'' = Inr ''config'' \<and> ParseObjectSource ''Config'' \<noteq> Inr ''config''"
proof -
  have "ParseAuthMethod ToLower ''PAP'' = Inr ''password''" "ParseAuthenType ToLower ''MSCHAPv1'' = Inr 0x05" by code_simp+
  moreover have "ParsePrivilegeLevel 15 = Inr 15"
    using domain_vocabularies [OF lower_law_ToLower, of "[]" "[]" 15 15] by (simp add: Privilege_Valid_def)
  moreover have "ParseObjectSource ''config'' = Inr ''config''" "ParseObjectSource ''Config'' \<noteq> Inr ''config''"
    using domain_vocabularies [OF lower_law_ToLower, of "''config''" "''config''"]
      domain_vocabularies [OF lower_law_ToLower, of "''Config''" "''config''"] by simp_all
  ultimately show ?thesis
    using domain_vocabularies [OF lower_law_ToLower] by blast
qed

end
