(* ===== verification/Config_Types.thy ===== *)
theory Config_Types
  imports Policy_Engine Aaa_Accounting Domain_Enums
begin

text \<open>
  The configuration document as the state package holds it (\<open>internal/config/types.go\<close>) and the
  administrative metadata of its objects (\<open>internal/domain/meta.go\<close>). Of the document the sections
  that the state and AAA packages read are kept: the objects, the runtime section, and the
  limits and event switches (\<open>AAASettings\<close>). Maps are association lists, a time is an integer, an
  absent or zero time is \<open>None\<close>. Values are immutable here, so the cloning functions of
  \<open>internal/state/clone.go\<close> are the identity.
\<close>

record SecretRef =
  ref_Purpose :: string
  ref_File :: string
  ref_Environment :: string
  ref_PreserveTrailingNewline :: bool
  ref_MemoryID :: string

definition SecretRef_Set :: "SecretRef \<Rightarrow> bool" where
  "SecretRef_Set r \<longleftrightarrow> ref_File r \<noteq> '''' \<or> ref_Environment r \<noteq> '''' \<or> ref_MemoryID r \<noteq> ''''"

definition noRef :: SecretRef where
  "noRef = \<lparr>ref_Purpose = '''', ref_File = '''', ref_Environment = '''', ref_PreserveTrailingNewline = False, ref_MemoryID = ''''\<rparr>"

record RADIUSAttrMatch =
  am_Name :: string
  am_Vendor :: uint32
  am_Code :: byte
  am_Op :: string
  am_Value :: string
  am_ValueHex :: string

record RADIUSMatch =
  rm_GroupsAny :: "string list"
  rm_Method :: "string option"
  rm_Attributes :: "RADIUSAttrMatch list"

record RADIUSRule =
  rul_ID :: string
  rul_Enabled :: bool
  rul_Match :: RADIUSMatch
  rul_Effect :: string
  rul_ReplyProfiles :: "string list"

record RADIUSPolicy =
  rp_ID :: string
  rp_Rules :: "RADIUSRule list"

record RADIUSReplyAttr =
  ra_Name :: string
  ra_Vendor :: uint32
  ra_Code :: byte
  ra_Value :: string
  ra_ValueHex :: string

record RADIUSReplyProfile =
  rpf_ID :: string
  rpf_Attributes :: "RADIUSReplyAttr list"

text \<open>Of an endpoint the fields that the policy compiler and the listener read.\<close>

record RADIUSEndpoint =
  rep_SharedSecret :: SecretRef
  rep_RequireMessageAuthenticator :: bool
  rep_LimitProxyState :: bool
  rep_AllowedAuthenticationMethods :: "string list"
  rep_AccessPolicyID :: string
  rep_AcceptStatusTypes :: "string list"

record ClientEndpoint =
  ep_ID :: string
  ep_Protocol :: string
  ep_Transport :: string
  ep_Roles :: "string list"
  ep_RADIUS :: "RADIUSEndpoint option"

record ClientMatch =
  mt_SourceCIDRs :: "string list"
  mt_Transports :: "string list"
  mt_Mode :: string
  mt_DNSSANs :: "string list"
  mt_IPSANs :: "string list"

record CfgUser =
  us_ID :: string
  us_DisplayName :: string
  us_Enabled :: bool
  us_Labels :: "(string \<times> string) list"
  us_GroupIDs :: "string list"
  us_Rules :: RuleSet
  us_Login :: SecretRef
  us_Challenge :: SecretRef
  us_Enable :: SecretRef
  us_ClientIDs :: "string list"
  us_ValidAfter :: "int option"
  us_ValidBefore :: "int option"
  us_MustChangeLogin :: bool
  us_MustChangeEnable :: bool
  us_RADIUSPolicyID :: string

record CfgGroup =
  gr_ID :: string
  gr_DisplayName :: string
  gr_Priority :: int
  gr_Enabled :: bool
  gr_Labels :: "(string \<times> string) list"
  gr_Services :: "ServiceRule list"
  gr_CommandRules :: "CommandRule list"
  gr_DefaultCommandAction :: AuthorDecision
  gr_RADIUSPolicyID :: string

record CfgClient =
  cl_ID :: string
  cl_DisplayName :: string
  cl_Priority :: int
  cl_Enabled :: bool
  cl_Labels :: "(string \<times> string) list"
  cl_AllowedMethods :: "string list"
  cl_DefaultGroupIDs :: "string list"
  cl_AcctEnabled :: bool
  cl_AcceptStart :: bool
  cl_AcceptStop :: bool
  cl_AcceptWatchdog :: bool
  cl_Match :: ClientMatch
  cl_Endpoints :: "ClientEndpoint list"

record BootstrapToken =
  bt_ID :: string
  bt_Token :: SecretRef
  bt_Scopes :: "string list"
  bt_ExpiresAt :: "int option"

record Document =
  doc_AllowShadowing :: bool
  doc_ReloadOverlayBehavior :: string
  doc_MaxUsers :: int
  doc_MaxGroups :: int
  doc_MaxClients :: int
  doc_MaxAPITokens :: int
  doc_Settings :: AAASettings
  doc_Limits :: limits
  doc_Clients :: "CfgClient list"
  doc_Groups :: "CfgGroup list"
  doc_Users :: "CfgUser list"
  doc_BootstrapTokens :: "BootstrapToken list"
  doc_FallbackRules :: RuleSet
  doc_RADIUSPolicies :: "RADIUSPolicy list"
  doc_RADIUSReplyProfiles :: "RADIUSReplyProfile list"
  doc_FallbackRADIUSPolicyID :: string

record ObjectMeta =
  om_ID :: string
  om_Kind :: string
  om_DisplayName :: string
  om_Source :: string
  om_ShadowsSource :: string
  om_Deleted :: bool
  om_RevisionCreated :: uint64
  om_RevisionUpdated :: uint64
  om_EffectiveRevision :: uint64
  om_Enabled :: bool
  om_Labels :: "(string \<times> string) list"
  om_CreatedAt :: "int option"
  om_UpdatedAt :: "int option"

record Tombstone =
  tb_Kind :: string
  tb_ID :: string
  tb_Deleted :: bool
  tb_ActorID :: string
  tb_AtRevision :: uint64
  tb_At :: int

abbreviation (input) SourceConfig :: string where "SourceConfig \<equiv> ''config''"
abbreviation (input) SourceRuntime :: string where "SourceRuntime \<equiv> ''runtime''"
abbreviation (input) SourceOverride :: string where "SourceOverride \<equiv> ''override''"
abbreviation (input) KindUser :: string where "KindUser \<equiv> ''user''"
abbreviation (input) KindGroup :: string where "KindGroup \<equiv> ''group''"
abbreviation (input) KindClient :: string where "KindClient \<equiv> ''client''"
abbreviation (input) KindToken :: string where "KindToken \<equiv> ''token''"

definition NewTombstone :: "string \<Rightarrow> string \<Rightarrow> string \<Rightarrow> uint64 \<Rightarrow> int \<Rightarrow> Tombstone" where
  "NewTombstone kind i actor rv at =
     \<lparr>tb_Kind = kind, tb_ID = i, tb_Deleted = True, tb_ActorID = actor, tb_AtRevision = rv, tb_At = at\<rparr>"

abbreviation (input) CodeNotFound :: string where "CodeNotFound \<equiv> ''not_found''"
abbreviation (input) CodeAlreadyExists :: string where "CodeAlreadyExists \<equiv> ''already_exists''"
abbreviation (input) CodeClientMatchAmbiguous :: string where "CodeClientMatchAmbiguous \<equiv> ''CLIENT_MATCH_AMBIGUOUS''"
abbreviation (input) CodeConflict :: string where "CodeConflict \<equiv> ''conflict''"
abbreviation (input) CodeRevisionMismatch :: string where "CodeRevisionMismatch \<equiv> ''revision_mismatch''"
abbreviation (input) CodeUnauthenticated :: string where "CodeUnauthenticated \<equiv> ''unauthenticated''"
abbreviation (input) CodeUnavailable :: string where "CodeUnavailable \<equiv> ''unavailable''"
abbreviation (input) CodeInternal :: string where "CodeInternal \<equiv> ''internal''"
abbreviation (input) CodeAuthMethodCredentialMissing :: string where "CodeAuthMethodCredentialMissing \<equiv> ''AUTH_METHOD_CREDENTIAL_MISSING''"
abbreviation (input) CodeGroupNotFound :: string where "CodeGroupNotFound \<equiv> ''GROUP_NOT_FOUND''"
abbreviation (input) CodeObjectLimitExceeded :: string where "CodeObjectLimitExceeded \<equiv> ''OBJECT_LIMIT_EXCEEDED''"

end
