(* ===== verification/Config_Validate.thy ===== *)
theory Config_Validate
  imports Config_Types
begin

text \<open>
  Validation of a document (\<open>internal/config/validate.go\<close>): object counts, bootstrap tokens,
  unique identifiers, references between users, groups and clients, rule sets. Validation of the
  listeners and of one client, and the RADIUS references and match indexes, are the functions of
  the record \<open>validateEnv\<close>; nothing is assumed about them.
\<close>

record 're validateEnv =
  ve_reCompile :: "string \<Rightarrow> 're option"
  ve_listeners :: "Document \<Rightarrow> Error + unit"
  ve_client :: "CfgClient \<Rightarrow> string list \<Rightarrow> string \<Rightarrow> Error + unit"
  ve_indexes :: "Document \<Rightarrow> Error + unit"

definition indexPath :: "string \<Rightarrow> nat \<Rightarrow> string" where
  "indexPath parent i = parent @ ''['' @ Itoa i @ '']''"

definition ItoaInt :: "int \<Rightarrow> string" where
  "ItoaInt n = (if n < 0 then ''-'' @ Itoa (nat (- n)) else Itoa (nat n))"

definition knownScopes :: "string list" where
  "knownScopes =
     [''state:read'', ''state:write'', ''config:reload'', ''config:export'', ''policy:test'', ''events:read'', ''events:sensitive'',
      ''tokens:manage'', ''runtime:reset'', ''radius:dynamic'']"

definition ValidScope :: "string \<Rightarrow> bool" where
  "ValidScope s \<longleftrightarrow> s \<in> set knownScopes"

definition overCap :: "int \<Rightarrow> 'a list \<Rightarrow> bool" where
  "overCap cap xs \<longleftrightarrow> cap > 0 \<and> int (length xs) > cap"

definition validateLimits :: "Document \<Rightarrow> Error + unit" where
  "validateLimits doc =
     (if overCap (doc_MaxUsers doc) (doc_Users doc)
      then Inl (WithPath (NewError CodeObjectLimitExceeded ''user count exceeds configured maximum'') ''users'')
      else if overCap (doc_MaxGroups doc) (doc_Groups doc)
      then Inl (WithPath (NewError CodeObjectLimitExceeded ''group count exceeds configured maximum'') ''groups'')
      else if overCap (doc_MaxClients doc) (doc_Clients doc)
      then Inl (WithPath (NewError CodeObjectLimitExceeded ''client count exceeds configured maximum'') ''clients'')
      else if overCap (doc_MaxAPITokens doc) (doc_BootstrapTokens doc)
      then Inl (WithPath (NewError CodeObjectLimitExceeded ''token count exceeds configured maximum'') ''api.bootstrap_tokens'')
      else Inr ())"

fun scopesLoop :: "string \<Rightarrow> nat \<Rightarrow> string list \<Rightarrow> Error + unit" where
  "scopesLoop path j [] = Inr ()"
| "scopesLoop path j (s # ss) =
     (if ValidScope s then scopesLoop path (j + 1) ss
      else Inl (WithPath (NewError CodeInvalidArgument ''unknown scope'') (indexPath path j)))"

fun tokensLoop :: "string list \<Rightarrow> nat \<Rightarrow> BootstrapToken list \<Rightarrow> Error + unit" where
  "tokensLoop seen i [] = Inr ()"
| "tokensLoop seen i (t # ts) =
     (let path = indexPath ''api.bootstrap_tokens'' i
      in if bt_ID t = '''' then Inl (WithPath (NewError CodeInvalidArgument ''id is required'') (path @ ''.id''))
         else if bt_ID t \<in> set seen then Inl (WithPath (NewError CodeInvalidArgument ''duplicate token id'') (path @ ''.id''))
         else if \<not> SecretRef_Set (bt_Token t)
         then Inl (WithPath (NewError CodeAuthMethodCredentialMissing ''bootstrap token secret is required'') (path @ ''.token''))
         else if length (bt_Scopes t) = 0 then Inl (WithPath (NewError CodeInvalidArgument ''at least one scope is required'') (path @ ''.scopes''))
         else rbind (scopesLoop (path @ ''.scopes'') 0 (bt_Scopes t)) (\<lambda>_. tokensLoop (bt_ID t # seen) (i + 1) ts))"

definition validateBootstrapTokens :: "BootstrapToken list \<Rightarrow> Error + unit" where
  "validateBootstrapTokens toks = tokensLoop [] 0 toks"

definition validateStringMatch :: "(string \<Rightarrow> 're option) \<Rightarrow> StringMatch \<Rightarrow> string \<Rightarrow> Error + unit" where
  "validateStringMatch reCompile m path =
     (if sm_Pattern m = '''' then Inr ()
      else if reCompile (sm_Pattern m) = None
      then Inl (WithPath (NewError CodeRegexInvalid ''invalid regular expression'') (path @ ''.pattern''))
      else Inr ())"

fun rulesLoop :: "(string \<Rightarrow> 're option) \<Rightarrow> string \<Rightarrow> (int \<times> string) list \<Rightarrow> nat \<Rightarrow> CommandRule list \<Rightarrow> Error + unit" where
  "rulesLoop reCompile path prio i [] = Inr ()"
| "rulesLoop reCompile path prio i (r # rs) =
     (let p = indexPath (path @ ''.command_rules'') i
      in case map_of prio (cr_Priority r) of
           Some prev \<Rightarrow> Inl (WithPath (NewError CodeInvalidArgument
             (''duplicate command rule priority '' @ ItoaInt (cr_Priority r) @ '' (also '' @ prev @ '')'')) (p @ ''.priority''))
         | None \<Rightarrow>
             rbind (validateStringMatch reCompile (cr_Command r) (p @ ''.command'')) (\<lambda>_.
             rbind (validateStringMatch reCompile (cr_Arguments r) (p @ ''.arguments'')) (\<lambda>_.
             rulesLoop reCompile path ((cr_Priority r, cr_ID r) # prio) (i + 1) rs)))"

definition validateRuleSet :: "(string \<Rightarrow> 're option) \<Rightarrow> CommandRule list \<Rightarrow> string \<Rightarrow> Error + unit" where
  "validateRuleSet reCompile commands path = rulesLoop reCompile path [] 0 commands"

text \<open>A loop that requires every identifier of a list to be known.\<close>

fun refsLoop :: "string list \<Rightarrow> Error \<Rightarrow> string \<Rightarrow> nat \<Rightarrow> string list \<Rightarrow> Error + unit" where
  "refsLoop known e path i [] = Inr ()"
| "refsLoop known e path i (x # xs) =
     (if x \<in> set known then refsLoop known e path (i + 1) xs else Inl (WithPath e (indexPath path i)))"

definition validateUser :: "(string \<Rightarrow> 're option) \<Rightarrow> CfgUser \<Rightarrow> string list \<Rightarrow> string list \<Rightarrow> string \<Rightarrow> Error + unit" where
  "validateUser reCompile u groups clients path =
     rbind (refsLoop groups (NewError CodeGroupNotFound ''group does not exist'') (path @ ''.group_ids'') 0 (us_GroupIDs u)) (\<lambda>_.
     rbind (refsLoop clients (NewError CodeInvalidArgument ''restricted client does not exist'') (path @ ''.restrictions.client_ids'') 0
              (us_ClientIDs u)) (\<lambda>_.
     if (case (us_ValidAfter u, us_ValidBefore u) of (Some a, Some b) \<Rightarrow> a > b | _ \<Rightarrow> False)
     then Inl (WithPath (NewError CodeInvalidArgument ''valid_after must be before valid_before'') (path @ ''.restrictions''))
     else if us_MustChangeLogin u \<and> \<not> SecretRef_Set (us_Login u)
     then Inl (WithPath (NewError CodeInvalidArgument ''must_change_login requires a login verifier'') (path @ ''.must_change_login''))
     else if us_MustChangeEnable u \<and> \<not> SecretRef_Set (us_Enable u)
     then Inl (WithPath (NewError CodeInvalidArgument ''must_change_enable requires an enable verifier'') (path @ ''.must_change_enable''))
     else validateRuleSet reCompile (rs_CommandRules (us_Rules u)) (path @ ''.rules'')))"

text \<open>The three loops of \<open>validateDocument\<close> over groups, clients and users.\<close>

fun groupsLoop :: "'re validateEnv \<Rightarrow> string list \<Rightarrow> nat \<Rightarrow> CfgGroup list \<Rightarrow> Error + string list" where
  "groupsLoop ve seen i [] = Inr seen"
| "groupsLoop ve seen i (g # gs) =
     (let path = indexPath ''groups'' i
      in if gr_ID g \<in> set seen then Inl (WithPath (NewError CodeInvalidArgument ''duplicate group id'') (path @ ''.id''))
         else if gr_DefaultCommandAction g \<noteq> DecisionUnset \<and> gr_DefaultCommandAction g \<noteq> DecisionDeny
         then Inl (WithPath (NewError CodeInvalidArgument ''default_command_action must be deny'') (path @ ''.default_command_action''))
         else rbind (validateRuleSet (ve_reCompile ve) (gr_CommandRules g) path) (\<lambda>_. groupsLoop ve (gr_ID g # seen) (i + 1) gs))"

fun clientsLoop :: "'re validateEnv \<Rightarrow> string list \<Rightarrow> string list \<Rightarrow> nat \<Rightarrow> CfgClient list \<Rightarrow> Error + string list" where
  "clientsLoop ve groups seen i [] = Inr seen"
| "clientsLoop ve groups seen i (c # cs) =
     (let path = indexPath ''clients'' i
      in if cl_ID c \<in> set seen then Inl (WithPath (NewError CodeInvalidArgument ''duplicate client id'') (path @ ''.id''))
         else rbind (ve_client ve c groups path) (\<lambda>_. clientsLoop ve groups (cl_ID c # seen) (i + 1) cs))"

fun usersLoop :: "'re validateEnv \<Rightarrow> string list \<Rightarrow> string list \<Rightarrow> string list \<Rightarrow> nat \<Rightarrow> CfgUser list \<Rightarrow> Error + string list" where
  "usersLoop ve groups clients seen i [] = Inr seen"
| "usersLoop ve groups clients seen i (u # us) =
     (let path = indexPath ''users'' i
      in if us_ID u \<in> set seen then Inl (WithPath (NewError CodeInvalidArgument ''duplicate user id'') (path @ ''.id''))
         else rbind (validateUser (ve_reCompile ve) u groups clients path) (\<lambda>_. usersLoop ve groups clients (us_ID u # seen) (i + 1) us))"

text \<open>
  The document is checked and not changed: \<open>Validate\<close> also rewrites the TACACS+ endpoints of a client
  without a RADIUS endpoint from its flat fields, which the readers of the document modelled
  here (the RADIUS client indexes and policies) do not look at; the check of a client is the
  parameter \<open>ve_client\<close>.
\<close>

definition validateDocument :: "'re validateEnv \<Rightarrow> Document \<Rightarrow> Error + unit" where
  "validateDocument ve doc =
     rbind (validateLimits doc) (\<lambda>_.
     rbind (ve_listeners ve doc) (\<lambda>_.
     rbind (validateBootstrapTokens (doc_BootstrapTokens doc)) (\<lambda>_.
     rbind (groupsLoop ve [] 0 (doc_Groups doc)) (\<lambda>groups.
     rbind (clientsLoop ve groups [] 0 (doc_Clients doc)) (\<lambda>clients.
     rbind (usersLoop ve groups clients [] 0 (doc_Users doc)) (\<lambda>_.
     rbind (validateRuleSet (ve_reCompile ve) (rs_CommandRules (doc_FallbackRules doc)) ''fallback_rules'') (\<lambda>_.
     ve_indexes ve doc)))))))"

subsection \<open>What validation accepts\<close>

text \<open>The loops accept exactly the lists with new, distinct keys whose elements are fine.\<close>

definition freshKeys :: "'k list \<Rightarrow> 'k list \<Rightarrow> bool" where
  "freshKeys seen ks \<longleftrightarrow> distinct ks \<and> set ks \<inter> set seen = {}"

lemma freshKeys_simps [simp]:
  "freshKeys seen []" "freshKeys seen (k # ks) \<longleftrightarrow> k \<notin> set seen \<and> freshKeys (k # seen) ks"
  by (auto simp: freshKeys_def)

lemma freshKeys_Nil: "freshKeys [] ks \<longleftrightarrow> distinct ks"
  by (simp add: freshKeys_def)

definition patternOK :: "(string \<Rightarrow> 're option) \<Rightarrow> StringMatch \<Rightarrow> bool" where
  "patternOK reCompile m \<longleftrightarrow> sm_Pattern m = '''' \<or> reCompile (sm_Pattern m) \<noteq> None"

definition rulesOK :: "(string \<Rightarrow> 're option) \<Rightarrow> CommandRule list \<Rightarrow> bool" where
  "rulesOK reCompile rs \<longleftrightarrow>
     distinct (map cr_Priority rs) \<and> (\<forall>r \<in> set rs. patternOK reCompile (cr_Command r) \<and> patternOK reCompile (cr_Arguments r))"

definition tokenOK :: "BootstrapToken \<Rightarrow> bool" where
  "tokenOK t \<longleftrightarrow> bt_ID t \<noteq> '''' \<and> SecretRef_Set (bt_Token t) \<and> bt_Scopes t \<noteq> [] \<and> set (bt_Scopes t) \<subseteq> set knownScopes"

definition userOK :: "(string \<Rightarrow> 're option) \<Rightarrow> string set \<Rightarrow> string set \<Rightarrow> CfgUser \<Rightarrow> bool" where
  "userOK reCompile groups clients u \<longleftrightarrow>
     set (us_GroupIDs u) \<subseteq> groups \<and> set (us_ClientIDs u) \<subseteq> clients \<and>
     (\<forall>a b. us_ValidAfter u = Some a \<and> us_ValidBefore u = Some b \<longrightarrow> a \<le> b) \<and>
     (us_MustChangeLogin u \<longrightarrow> SecretRef_Set (us_Login u)) \<and> (us_MustChangeEnable u \<longrightarrow> SecretRef_Set (us_Enable u)) \<and>
     rulesOK reCompile (rs_CommandRules (us_Rules u))"

definition groupOK :: "(string \<Rightarrow> 're option) \<Rightarrow> CfgGroup \<Rightarrow> bool" where
  "groupOK reCompile g \<longleftrightarrow> gr_DefaultCommandAction g \<in> {DecisionUnset, DecisionDeny} \<and> rulesOK reCompile (gr_CommandRules g)"

lemma unit_sum: "(r :: 'e + unit) = Inr x \<longleftrightarrow> r = Inr ()"
  by simp

lemma scopesLoop_iff: "scopesLoop path j ss = Inr () \<longleftrightarrow> set ss \<subseteq> set knownScopes"
  by (induction path j ss rule: scopesLoop.induct) (simp_all add: ValidScope_def)

lemma tokensLoop_iff: "tokensLoop seen i ts = Inr () \<longleftrightarrow> freshKeys seen (map bt_ID ts) \<and> (\<forall>t \<in> set ts. tokenOK t)"
  by (induction seen i ts rule: tokensLoop.induct) (auto simp: Let_def rbind_eq_Inr scopesLoop_iff tokenOK_def)

lemma validateStringMatch_iff: "validateStringMatch reCompile m path = Inr () \<longleftrightarrow> patternOK reCompile m"
  by (simp add: validateStringMatch_def patternOK_def)

lemma map_of_fst: "map_of al k = Some v \<Longrightarrow> k \<in> fst ` set al"
  by (force dest: map_of_SomeD)

lemma rulesLoop_iff:
  "rulesLoop reCompile path prio i rs = Inr () \<longleftrightarrow> freshKeys (map fst prio) (map cr_Priority rs) \<and>
     (\<forall>r \<in> set rs. patternOK reCompile (cr_Command r) \<and> patternOK reCompile (cr_Arguments r))"
  by (induction reCompile path prio i rs rule: rulesLoop.induct)
    (auto simp: Let_def rbind_eq_Inr validateStringMatch_iff map_of_eq_None_iff split: option.splits dest: map_of_fst)

lemma validateRuleSet_iff: "validateRuleSet reCompile rs path = Inr () \<longleftrightarrow> rulesOK reCompile rs"
  by (simp add: validateRuleSet_def rulesLoop_iff rulesOK_def freshKeys_Nil)

lemma refsLoop_iff: "refsLoop known e path i xs = Inr () \<longleftrightarrow> set xs \<subseteq> set known"
  by (induction known e path i xs rule: refsLoop.induct) simp_all

lemma validateUser_iff:
  "validateUser reCompile u groups clients path = Inr () \<longleftrightarrow> userOK reCompile (set groups) (set clients) u"
  by (auto simp: validateUser_def rbind_eq_Inr refsLoop_iff validateRuleSet_iff userOK_def not_less split: option.splits if_splits)

lemma groupsLoop_iff:
  "groupsLoop ve seen i gs = Inr out \<longleftrightarrow> out = rev (map gr_ID gs) @ seen \<and> freshKeys seen (map gr_ID gs) \<and> (\<forall>g \<in> set gs. groupOK (ve_reCompile ve) g)"
  by (induction ve seen i gs rule: groupsLoop.induct) (auto simp: Let_def rbind_eq_Inr validateRuleSet_iff groupOK_def)

lemma clientsLoop_iff:
  "clientsLoop ve groups seen i cs = Inr out \<longleftrightarrow> out = rev (map cl_ID cs) @ seen \<and> freshKeys seen (map cl_ID cs) \<and>
     (\<forall>k < length cs. ve_client ve (cs ! k) groups (indexPath ''clients'' (i + k)) = Inr ())"
  by (induction ve groups seen i cs rule: clientsLoop.induct) (auto simp: Let_def rbind_eq_Inr All_less_Suc2)

lemma usersLoop_iff:
  "usersLoop ve groups clients seen i us = Inr out \<longleftrightarrow> out = rev (map us_ID us) @ seen \<and> freshKeys seen (map us_ID us) \<and>
     (\<forall>u \<in> set us. userOK (ve_reCompile ve) (set groups) (set clients) u)"
  by (induction ve groups clients seen i us rule: usersLoop.induct) (auto simp: Let_def rbind_eq_Inr validateUser_iff)

text \<open>The documents that are well formed by themselves.\<close>

definition docOK :: "(string \<Rightarrow> 're option) \<Rightarrow> Document \<Rightarrow> bool" where
  "docOK reCompile doc \<longleftrightarrow>
     \<not> overCap (doc_MaxUsers doc) (doc_Users doc) \<and> \<not> overCap (doc_MaxGroups doc) (doc_Groups doc) \<and>
     \<not> overCap (doc_MaxClients doc) (doc_Clients doc) \<and> \<not> overCap (doc_MaxAPITokens doc) (doc_BootstrapTokens doc) \<and>
     distinct (map bt_ID (doc_BootstrapTokens doc)) \<and> (\<forall>t \<in> set (doc_BootstrapTokens doc). tokenOK t) \<and>
     distinct (map gr_ID (doc_Groups doc)) \<and> (\<forall>g \<in> set (doc_Groups doc). groupOK reCompile g) \<and>
     distinct (map cl_ID (doc_Clients doc)) \<and>
     distinct (map us_ID (doc_Users doc)) \<and>
     (\<forall>u \<in> set (doc_Users doc). userOK reCompile (set (map gr_ID (doc_Groups doc))) (set (map cl_ID (doc_Clients doc))) u) \<and>
     rulesOK reCompile (rs_CommandRules (doc_FallbackRules doc))"

lemma validateDocument_iff:
  "validateDocument ve doc = Inr () \<longleftrightarrow> docOK (ve_reCompile ve) doc \<and> ve_listeners ve doc = Inr () \<and> ve_indexes ve doc = Inr () \<and>
     (\<forall>k < length (doc_Clients doc). ve_client ve (doc_Clients doc ! k) (rev (map gr_ID (doc_Groups doc))) (indexPath ''clients'' k) = Inr ())"
  by (auto simp: validateDocument_def rbind_eq_Inr validateLimits_def validateBootstrapTokens_def tokensLoop_iff groupsLoop_iff
      clientsLoop_iff usersLoop_iff validateRuleSet_iff docOK_def freshKeys_Nil split: if_splits)

end
