(* ===== verification/Go_Base64.thy ===== *)
theory Go_Base64
  imports Go_Strings
begin

text \<open>
  \<open>base64.RawStdEncoding\<close> of Go's \<open>encoding/base64\<close>: the standard alphabet without padding.
  Decoding skips carriage returns and newlines, and ignores the unused low bits of the last
  character (the encoding is not \<open>Strict\<close>).
\<close>

definition b64Char :: "nat \<Rightarrow> char" where
  "b64Char n =
     (if n < 26 then char_of (65 + n)
      else if n < 52 then char_of (97 + (n - 26))
      else if n < 62 then char_of (48 + (n - 52))
      else if n = 62 then CHR ''+'' else CHR ''/'')"

definition b64Value :: "char \<Rightarrow> nat option" where
  "b64Value c =
     (let n = (of_char c :: nat)
      in if 65 \<le> n \<and> n \<le> 90 then Some (n - 65)
         else if 97 \<le> n \<and> n \<le> 122 then Some (n - 97 + 26)
         else if 48 \<le> n \<and> n \<le> 57 then Some (n - 48 + 52)
         else if n = 43 then Some 62
         else if n = 47 then Some 63
         else None)"

fun b64Encode :: "bytes \<Rightarrow> string" where
  "b64Encode [] = ''''"
| "b64Encode [a] = [b64Char (unat a div 4), b64Char (unat a mod 4 * 16)]"
| "b64Encode [a, b] =
     [b64Char (unat a div 4), b64Char (unat a mod 4 * 16 + unat b div 16), b64Char (unat b mod 16 * 4)]"
| "b64Encode (a # b # c # rest) =
     b64Char (unat a div 4) # b64Char (unat a mod 4 * 16 + unat b div 16) #
     b64Char (unat b mod 16 * 4 + unat c div 64) # b64Char (unat c mod 64) # b64Encode rest"

text \<open>Decoding the six-bit values of a text without line breaks; one character alone is an error.\<close>

fun b64Groups :: "nat list \<Rightarrow> bytes option" where
  "b64Groups [] = Some []"
| "b64Groups [p] = None"
| "b64Groups [p, q] = Some [of_nat (p * 4 + q div 16)]"
| "b64Groups [p, q, r] = Some [of_nat (p * 4 + q div 16), of_nat (q mod 16 * 16 + r div 4)]"
| "b64Groups (p # q # r # s # rest) =
     map_option (\<lambda>bs. of_nat (p * 4 + q div 16) # of_nat (q mod 16 * 16 + r div 4) # of_nat (r mod 4 * 64 + s) # bs)
       (b64Groups rest)"

definition b64Decode :: "string \<Rightarrow> bytes option" where
  "b64Decode s =
     (let vs = map b64Value (filter (\<lambda>c. c \<noteq> CHR 0x0A \<and> c \<noteq> CHR 0x0D) s)
      in if None \<in> set vs then None else b64Groups (map the vs))"

lemma b64Value_Char [simp]: "n < 64 \<Longrightarrow> b64Value (b64Char n) = Some n"
  by (auto simp: b64Value_def b64Char_def Let_def)

lemma b64Char_no_break: "n < 64 \<Longrightarrow> b64Char n \<noteq> CHR 0x0A \<and> b64Char n \<noteq> CHR 0x0D"
proof -
  assume n: "n < 64"
  have "b64Value (CHR 0x0A) = None" "b64Value (CHR 0x0D) = None" by (simp_all add: b64Value_def Let_def)
  with b64Value_Char [OF n] show ?thesis by (metis option.distinct(1))
qed

text \<open>The six-bit values an encoding writes.\<close>

fun sixBits :: "bytes \<Rightarrow> nat list" where
  "sixBits [] = []"
| "sixBits [a] = [unat a div 4, unat a mod 4 * 16]"
| "sixBits [a, b] = [unat a div 4, unat a mod 4 * 16 + unat b div 16, unat b mod 16 * 4]"
| "sixBits (a # b # c # rest) =
     unat a div 4 # (unat a mod 4 * 16 + unat b div 16) # (unat b mod 16 * 4 + unat c div 64) # (unat c mod 64) # sixBits rest"

lemma byte_bound: "unat (a :: byte) < 256"
  using unsigned_less [where 'a = nat, of a] by simp

lemma byte_divs [simp]: "unat (a :: byte) div 4 < 64" "unat (a :: byte) div 16 < 16" "unat (a :: byte) div 64 < 4"
  by (rule less_mult_imp_div_less, use byte_bound [of a] in linarith)+

lemma byte_mods: "unat (a :: byte) mod 4 \<le> 3" "unat (a :: byte) mod 16 \<le> 15" "unat (a :: byte) mod 64 \<le> 63"
  using mod_less_divisor [of 4 "unat a"] mod_less_divisor [of 16 "unat a"] mod_less_divisor [of 64 "unat a"] by linarith+

lemma sixBits_parts:
  "unat (a :: byte) mod 4 * 16 < 64" "unat (b :: byte) mod 16 * 4 < 64"
  "unat (a :: byte) mod 4 * 16 + unat (b :: byte) div 16 < 64"
  "unat (b :: byte) mod 16 * 4 + unat (c :: byte) div 64 < 64"
  using byte_mods [of a] byte_mods [of b] byte_divs(2) [of b] byte_divs(3) [of c] by linarith+

lemma b64Encode_sixBits: "b64Encode bs = map b64Char (sixBits bs)"
  by (induction bs rule: b64Encode.induct) simp_all

lemma sixBits_bound: "\<forall>n \<in> set (sixBits bs). n < 64"
  by (induction bs rule: sixBits.induct) (simp_all add: sixBits_parts)

lemma byte_of_nat_unat: "n = unat (a :: byte) \<Longrightarrow> of_nat n = a"
  by simp

lemma b64Groups_sixBits: "b64Groups (sixBits bs) = Some bs"
proof (induction bs rule: sixBits.induct)
  case (2 a)
  then show ?case using byte_bound [of a] by (simp add: byte_of_nat_unat)
next
  case (3 a b)
  have "(unat a mod 4 * 16 + unat b div 16) div 16 = unat a mod 4" "(unat a mod 4 * 16 + unat b div 16) mod 16 = unat b div 16"
    using byte_divs(2) [of b] by (simp_all del: byte_divs)
  then show ?case using byte_bound [of a] byte_bound [of b] by (auto intro!: byte_of_nat_unat)
next
  case (4 a b c rest)
  have "(unat a mod 4 * 16 + unat b div 16) div 16 = unat a mod 4" "(unat a mod 4 * 16 + unat b div 16) mod 16 = unat b div 16"
    "(unat b mod 16 * 4 + unat c div 64) div 4 = unat b mod 16" "(unat b mod 16 * 4 + unat c div 64) mod 4 = unat c div 64"
    using byte_divs(2) [of b] byte_divs(3) [of c] by (simp_all del: byte_divs)
  then show ?case using 4 byte_bound [of a] byte_bound [of b] byte_bound [of c]
    by (auto intro!: byte_of_nat_unat)
qed simp

lemma b64_round_trip [simp]: "b64Decode (b64Encode bs) = Some bs"
proof -
  have "filter (\<lambda>c. c \<noteq> CHR 0x0A \<and> c \<noteq> CHR 0x0D) (map b64Char (sixBits bs)) = map b64Char (sixBits bs)"
    using sixBits_bound [of bs] b64Char_no_break by (auto simp: filter_id_conv)
  moreover have "map b64Value (map b64Char (sixBits bs)) = map Some (sixBits bs)"
    using sixBits_bound [of bs] by simp
  moreover have "None \<notin> set (map Some (sixBits bs))" "map the (map Some (sixBits bs)) = sixBits bs" by (auto simp: comp_def)
  ultimately show ?thesis
    unfolding b64Decode_def b64Encode_sixBits Let_def by (simp only: if_False b64Groups_sixBits)
qed

lemma b64Char_plain: "n < 64 \<Longrightarrow> b64Char n \<noteq> CHR ''$''"
proof -
  assume n: "n < 64"
  have "b64Value (CHR ''$'') = None" by (simp add: b64Value_def Let_def)
  with b64Value_Char [OF n] show ?thesis by (metis option.distinct(1))
qed

lemma b64Encode_no_dollar: "CHR ''$'' \<notin> set (b64Encode bs)"
  using sixBits_bound [of bs] b64Char_plain by (auto simp: b64Encode_sixBits) metis

end
