(* ===== verification/Go_Legacy_Crypto.thy ===== *)
theory Go_Legacy_Crypto
  imports Go_Crypto
begin

text \<open>
  The two other algorithms of Go's standard library that MS-CHAP uses: \<open>crypto/sha1\<close>
  (FIPS 180-4) and one block of \<open>crypto/des\<close> (FIPS 46-3), both executable.
\<close>

subsection \<open>SHA-1\<close>

text \<open>The message schedule, newest word first.\<close>

fun sha1_schedule :: "nat \<Rightarrow> uint32 list \<Rightarrow> uint32 list" where
  "sha1_schedule 0 w = w"
| "sha1_schedule (Suc n) w = sha1_schedule n (word_rotl 1 (w ! 2 XOR w ! 7 XOR w ! 13 XOR w ! 15) # w)"

definition sha1_round :: "nat \<times> uint32 \<Rightarrow> uint32 list \<Rightarrow> uint32 list" where
  "sha1_round tw st =
     (case (tw, st) of ((t, w), [a, b, c, d, e]) \<Rightarrow>
        let f = (if t < 20 then (b AND c) OR (NOT b AND d)
                 else if t < 40 then b XOR c XOR d
                 else if t < 60 then (b AND c) OR (b AND d) OR (c AND d)
                 else b XOR c XOR d);
            k = (if t < 20 then 0x5a827999 else if t < 40 then 0x6ed9eba1 else if t < 60 then 0x8f1bbcdc else 0xca62c1d6)
        in [word_rotl 5 a + f + e + k + w, a, word_rotl 30 b, c, d]
      | _ \<Rightarrow> st)"

definition sha1_block :: "uint32 list \<Rightarrow> bytes \<Rightarrow> uint32 list" where
  "sha1_block st blk =
     (let w0 = rev (map (\<lambda>i. be32 (drop (4 * i) blk)) [0..<16]);
          w = rev (sha1_schedule 64 w0)
      in map2 (+) st (fold sha1_round (zip [0..<80] w) st))"

definition sha1 :: "bytes \<Rightarrow> bytes" where
  "sha1 p =
     (let q = sha256_pad p
      in concat (map PutUint32_BE (hash_blocks sha1_block (length q div 64)
           [0x67452301, 0xefcdab89, 0x98badcfe, 0x10325476, 0xc3d2e1f0] q)))"

lemma length_sha1_round [simp]: "length (sha1_round tw st) = length st"
  by (auto simp: sha1_round_def Let_def split: prod.splits list.splits)

lemma length_sha1_rounds [simp]: "length (fold sha1_round xs st) = length st"
  by (induction xs arbitrary: st) auto

lemma length_sha1_block [simp]: "length (sha1_block st blk) = length st"
  by (simp add: sha1_block_def Let_def)

lemma length_sha1 [simp]: "length (sha1 p) = 20"
proof -
  have "length (concat (map PutUint32_BE ws)) = 4 * length ws" for ws
    by (induction ws) auto
  then show ?thesis by (simp add: sha1_def Let_def length_hash_blocks)
qed

subsection \<open>One block of DES\<close>

text \<open>Blocks and keys are lists of bits, most significant first; a table selects bits counted from 1.\<close>

definition bitsOf :: "bytes \<Rightarrow> bool list" where
  "bitsOf bs = concat (map (\<lambda>b. map (\<lambda>i. bit b i) [7, 6, 5, 4, 3, 2, 1, 0]) bs)"

definition natOfBits :: "bool list \<Rightarrow> nat" where
  "natOfBits xs = foldl (\<lambda>n x. 2 * n + of_bool x) 0 xs"

fun bytesOfBits :: "bool list \<Rightarrow> bytes" where
  "bytesOfBits (a # b # c # d # e # f # g # h # rest) = of_nat (natOfBits [a, b, c, d, e, f, g, h]) # bytesOfBits rest"
| "bytesOfBits _ = []"

definition permute :: "nat list \<Rightarrow> bool list \<Rightarrow> bool list" where
  "permute tbl xs = map (\<lambda>i. xs ! (i - 1)) tbl"

definition des_IP :: "nat list" where
  "des_IP =
     [58, 50, 42, 34, 26, 18, 10, 2, 60, 52, 44, 36, 28, 20, 12, 4,
      62, 54, 46, 38, 30, 22, 14, 6, 64, 56, 48, 40, 32, 24, 16, 8,
      57, 49, 41, 33, 25, 17, 9, 1, 59, 51, 43, 35, 27, 19, 11, 3,
      61, 53, 45, 37, 29, 21, 13, 5, 63, 55, 47, 39, 31, 23, 15, 7]"

definition des_FP :: "nat list" where
  "des_FP =
     [40, 8, 48, 16, 56, 24, 64, 32, 39, 7, 47, 15, 55, 23, 63, 31,
      38, 6, 46, 14, 54, 22, 62, 30, 37, 5, 45, 13, 53, 21, 61, 29,
      36, 4, 44, 12, 52, 20, 60, 28, 35, 3, 43, 11, 51, 19, 59, 27,
      34, 2, 42, 10, 50, 18, 58, 26, 33, 1, 41, 9, 49, 17, 57, 25]"

definition des_E :: "nat list" where
  "des_E =
     [32, 1, 2, 3, 4, 5, 4, 5, 6, 7, 8, 9, 8, 9, 10, 11,
      12, 13, 12, 13, 14, 15, 16, 17, 16, 17, 18, 19, 20, 21, 20, 21,
      22, 23, 24, 25, 24, 25, 26, 27, 28, 29, 28, 29, 30, 31, 32, 1]"

definition des_P :: "nat list" where
  "des_P =
     [16, 7, 20, 21, 29, 12, 28, 17, 1, 15, 23, 26, 5, 18, 31, 10,
      2, 8, 24, 14, 32, 27, 3, 9, 19, 13, 30, 6, 22, 11, 4, 25]"

definition des_PC1 :: "nat list" where
  "des_PC1 =
     [57, 49, 41, 33, 25, 17, 9, 1, 58, 50, 42, 34, 26, 18, 10, 2,
      59, 51, 43, 35, 27, 19, 11, 3, 60, 52, 44, 36, 63, 55, 47, 39,
      31, 23, 15, 7, 62, 54, 46, 38, 30, 22, 14, 6, 61, 53, 45, 37,
      29, 21, 13, 5, 28, 20, 12, 4]"

definition des_PC2 :: "nat list" where
  "des_PC2 =
     [14, 17, 11, 24, 1, 5, 3, 28, 15, 6, 21, 10, 23, 19, 12, 4,
      26, 8, 16, 7, 27, 20, 13, 2, 41, 52, 31, 37, 47, 55, 30, 40,
      51, 45, 33, 48, 44, 49, 39, 56, 34, 53, 46, 42, 50, 36, 29, 32]"

definition des_S :: "nat list list" where
  "des_S =
     [[14, 4, 13, 1, 2, 15, 11, 8, 3, 10, 6, 12, 5, 9, 0, 7,
       0, 15, 7, 4, 14, 2, 13, 1, 10, 6, 12, 11, 9, 5, 3, 8,
       4, 1, 14, 8, 13, 6, 2, 11, 15, 12, 9, 7, 3, 10, 5, 0,
       15, 12, 8, 2, 4, 9, 1, 7, 5, 11, 3, 14, 10, 0, 6, 13],
      [15, 1, 8, 14, 6, 11, 3, 4, 9, 7, 2, 13, 12, 0, 5, 10,
       3, 13, 4, 7, 15, 2, 8, 14, 12, 0, 1, 10, 6, 9, 11, 5,
       0, 14, 7, 11, 10, 4, 13, 1, 5, 8, 12, 6, 9, 3, 2, 15,
       13, 8, 10, 1, 3, 15, 4, 2, 11, 6, 7, 12, 0, 5, 14, 9],
      [10, 0, 9, 14, 6, 3, 15, 5, 1, 13, 12, 7, 11, 4, 2, 8,
       13, 7, 0, 9, 3, 4, 6, 10, 2, 8, 5, 14, 12, 11, 15, 1,
       13, 6, 4, 9, 8, 15, 3, 0, 11, 1, 2, 12, 5, 10, 14, 7,
       1, 10, 13, 0, 6, 9, 8, 7, 4, 15, 14, 3, 11, 5, 2, 12],
      [7, 13, 14, 3, 0, 6, 9, 10, 1, 2, 8, 5, 11, 12, 4, 15,
       13, 8, 11, 5, 6, 15, 0, 3, 4, 7, 2, 12, 1, 10, 14, 9,
       10, 6, 9, 0, 12, 11, 7, 13, 15, 1, 3, 14, 5, 2, 8, 4,
       3, 15, 0, 6, 10, 1, 13, 8, 9, 4, 5, 11, 12, 7, 2, 14],
      [2, 12, 4, 1, 7, 10, 11, 6, 8, 5, 3, 15, 13, 0, 14, 9,
       14, 11, 2, 12, 4, 7, 13, 1, 5, 0, 15, 10, 3, 9, 8, 6,
       4, 2, 1, 11, 10, 13, 7, 8, 15, 9, 12, 5, 6, 3, 0, 14,
       11, 8, 12, 7, 1, 14, 2, 13, 6, 15, 0, 9, 10, 4, 5, 3],
      [12, 1, 10, 15, 9, 2, 6, 8, 0, 13, 3, 4, 14, 7, 5, 11,
       10, 15, 4, 2, 7, 12, 9, 5, 6, 1, 13, 14, 0, 11, 3, 8,
       9, 14, 15, 5, 2, 8, 12, 3, 7, 0, 4, 10, 1, 13, 11, 6,
       4, 3, 2, 12, 9, 5, 15, 10, 11, 14, 1, 7, 6, 0, 8, 13],
      [4, 11, 2, 14, 15, 0, 8, 13, 3, 12, 9, 7, 5, 10, 6, 1,
       13, 0, 11, 7, 4, 9, 1, 10, 14, 3, 5, 12, 2, 15, 8, 6,
       1, 4, 11, 13, 12, 3, 7, 14, 10, 15, 6, 8, 0, 5, 9, 2,
       6, 11, 13, 8, 1, 4, 10, 7, 9, 5, 0, 15, 14, 2, 3, 12],
      [13, 2, 8, 4, 6, 15, 11, 1, 10, 9, 3, 14, 5, 0, 12, 7,
       1, 15, 13, 8, 10, 3, 7, 4, 12, 5, 6, 11, 0, 14, 9, 2,
       7, 11, 4, 1, 9, 12, 14, 2, 0, 6, 10, 13, 15, 3, 5, 8,
       2, 1, 14, 7, 4, 10, 8, 13, 15, 12, 9, 0, 3, 5, 6, 11]]"

definition des_shifts :: "nat list" where
  "des_shifts = [1, 1, 2, 2, 2, 2, 2, 2, 1, 2, 2, 2, 2, 2, 2, 1]"

fun des_subkeys :: "nat list \<Rightarrow> bool list \<Rightarrow> bool list \<Rightarrow> bool list list" where
  "des_subkeys [] c d = []"
| "des_subkeys (n # ns) c d = (let c = rotate n c; d = rotate n d in permute des_PC2 (c @ d) # des_subkeys ns c d)"

text \<open>One substitution box: the outer bits select the row, the inner ones the column.\<close>

definition sbox :: "nat list \<Rightarrow> bool list \<Rightarrow> bool list" where
  "sbox tbl xs =
     (let n = tbl ! (natOfBits [xs ! 0, xs ! 5] * 16 + natOfBits (take 4 (drop 1 xs)))
      in [n div 8 mod 2 = 1, n div 4 mod 2 = 1, n div 2 mod 2 = 1, n mod 2 = 1])"

definition des_f :: "bool list \<Rightarrow> bool list \<Rightarrow> bool list" where
  "des_f r k =
     (let x = map2 (\<lambda>a b. a \<noteq> b) (permute des_E r) k
      in permute des_P (concat (map (\<lambda>i. sbox (des_S ! i) (take 6 (drop (6 * i) x))) [0..<8])))"

definition des_round :: "bool list \<Rightarrow> bool list \<times> bool list \<Rightarrow> bool list \<times> bool list" where
  "des_round k lr = (snd lr, map2 (\<lambda>a b. a \<noteq> b) (fst lr) (des_f (snd lr) k))"

definition des_encrypt :: "bytes \<Rightarrow> bytes \<Rightarrow> bytes" where
  "des_encrypt key blk =
     (let cd = permute des_PC1 (bitsOf key);
          ks = des_subkeys des_shifts (take 28 cd) (drop 28 cd);
          ip = permute des_IP (bitsOf blk);
          (l, r) = fold des_round ks (take 32 ip, drop 32 ip)
      in bytesOfBits (permute des_FP (r @ l)))"

lemma length_bytesOfBits: "length xs = 64 \<Longrightarrow> length (bytesOfBits xs) = 8"
proof -
  have "length (bytesOfBits xs) = length xs div 8" for xs
    by (induction xs rule: bytesOfBits.induct) auto
  then show "length xs = 64 \<Longrightarrow> ?thesis" by simp
qed

lemma length_des_encrypt [simp]: "length (des_encrypt key blk) = 8"
  by (auto simp: des_encrypt_def Let_def permute_def des_FP_def intro!: length_bytesOfBits split: prod.splits)

end
