(* ===== verification/Credentials.thy ===== *)
theory Credentials
  imports Go_Base64 Go_Legacy_Crypto Policy_Dictionary
begin

text \<open>
  Credential verification (\<open>internal/credentials\<close>): Argon2id password verifiers in PHC form,
  CHAP, MS-CHAP version 1 and 2, and the service that looks a user up before it compares.

  Three algorithms come from outside the repository and Go's standard library: the PRECIS
  profile \<open>UsernameCasePreserved\<close>, \<open>argon2.IDKey\<close> and MD4. They are the fields of a record that
  the definitions take as an argument. Wiping of buffers has no counterpart. The comparison
  of secrets in constant time is equality.
\<close>

record credLib =
  cl_precis :: "string \<Rightarrow> string option"
  cl_argon2 :: "bytes \<Rightarrow> bytes \<Rightarrow> uint32 \<Rightarrow> uint32 \<Rightarrow> byte \<Rightarrow> uint32 \<Rightarrow> bytes"
  cl_md4 :: "bytes \<Rightarrow> bytes"

subsection \<open>Errors\<close>

datatype FailureKind =
    KindUnknown | KindDisabled | KindRestricted | KindExpired | KindWrong | KindMissing | KindMalformed | KindInvalid

text \<open>A typed verification result, a cancelled context, or a failed read of the entropy source.\<close>

datatype credErr = AuthErr FailureKind | CtxErr | EntropyErr

abbreviation (input) fail :: "FailureKind \<Rightarrow> credErr" where "fail k \<equiv> AuthErr k"
abbreviation (input) unavailable :: credErr where "unavailable \<equiv> AuthErr KindMissing"
abbreviation (input) malformed :: credErr where "malformed \<equiv> AuthErr KindMalformed"
abbreviation (input) invalidMaterial :: credErr where "invalidMaterial \<equiv> AuthErr KindInvalid"

subsection \<open>Argon2id verifiers\<close>

record Argon2Params =
  ap_Time :: uint32
  ap_Memory :: uint32
  ap_Threads :: byte
  ap_SaltLen :: uint32
  ap_KeyLen :: uint32

definition DefaultParams :: Argon2Params where
  "DefaultParams = \<lparr>ap_Time = 3, ap_Memory = 65536, ap_Threads = 1, ap_SaltLen = 16, ap_KeyLen = 32\<rparr>"

record parsedPHC =
  ph_memory :: uint32
  ph_time :: uint32
  ph_threads :: byte
  ph_salt :: bytes
  ph_hash :: bytes

definition validEncode :: "Argon2Params \<Rightarrow> bool" where
  "validEncode p \<longleftrightarrow>
     \<not> (ap_Time p < 1 \<or> ap_Time p > 16) \<and>
     \<not> (ap_Memory p < 8 \<or> ap_Memory p > 1048576) \<and>
     \<not> (ap_Threads p < 1 \<or> ap_Threads p > 16) \<and>
     \<not> (ap_SaltLen p < 8 \<or> ap_KeyLen p < 16)"

definition encodePHC :: "Argon2Params \<Rightarrow> bytes \<Rightarrow> bytes \<Rightarrow> string" where
  "encodePHC p salt hash =
     ''$argon2id$v=19$m='' @ Itoa (unat (ap_Memory p)) @ '',t='' @ Itoa (unat (ap_Time p)) @ '',p='' @
     Itoa (unat (ap_Threads p)) @ ''$'' @ b64Encode salt @ ''$'' @ b64Encode hash"

text \<open>\<open>strings.Split\<close> and \<open>strings.Cut\<close> with a separator of one character, and \<open>strconv.ParseUint(v, 10, 32)\<close>.\<close>

fun SplitChar :: "char \<Rightarrow> string \<Rightarrow> string list" where
  "SplitChar sep [] = ['''']"
| "SplitChar sep (c # s) =
     (if c = sep then '''' # SplitChar sep s
      else case SplitChar sep s of [] \<Rightarrow> [[c]] | x # xs \<Rightarrow> (c # x) # xs)"

definition CutChar :: "char \<Rightarrow> string \<Rightarrow> (string \<times> string) option" where
  "CutChar sep s = (if sep \<in> set s then Some (takeWhile (\<lambda>c. c \<noteq> sep) s, tl (dropWhile (\<lambda>c. c \<noteq> sep) s)) else None)"

definition ParseUint32 :: "string \<Rightarrow> nat option" where
  "ParseUint32 s = (if s \<noteq> '''' \<and> list_all isDigit s \<and> decValue s < 2 ^ 32 then Some (decValue s) else None)"

record costs =
  co_mem :: "nat option"
  co_time :: "nat option"
  co_threads :: "nat option"

fun costLoop :: "string list \<Rightarrow> costs \<Rightarrow> costs option" where
  "costLoop [] c = Some c"
| "costLoop (field # rest) c =
     (case CutChar (CHR ''='') field of
        None \<Rightarrow> None
      | Some (k, v) \<Rightarrow>
          (case ParseUint32 v of
             None \<Rightarrow> None
           | Some n \<Rightarrow>
               if k = ''m'' then (if co_mem c \<noteq> None \<or> n < 8 \<or> n > 1048576 then None
                                  else costLoop rest (c\<lparr>co_mem := Some n\<rparr>))
               else if k = ''t'' then (if co_time c \<noteq> None \<or> n < 1 \<or> n > 16 then None
                                  else costLoop rest (c\<lparr>co_time := Some n\<rparr>))
               else if k = ''p'' then (if co_threads c \<noteq> None \<or> n < 1 \<or> n > 16 then None
                                  else costLoop rest (c\<lparr>co_threads := Some n\<rparr>))
               else None))"

definition parseCost :: "string \<Rightarrow> credErr + uint32 \<times> uint32 \<times> byte" where
  "parseCost s =
     (case costLoop (SplitChar (CHR '','') s) \<lparr>co_mem = None, co_time = None, co_threads = None\<rparr> of
        None \<Rightarrow> Inl invalidMaterial
      | Some c \<Rightarrow>
          (case (co_mem c, co_time c, co_threads c) of
             (Some m, Some t, Some p) \<Rightarrow> Inr (of_nat m, of_nat t, of_nat p)
           | _ \<Rightarrow> Inl invalidMaterial))"

definition parsePHC :: "bytes \<Rightarrow> credErr + parsedPHC" where
  "parsePHC encoded =
     (case SplitChar (CHR ''$'') (string_of_bytes encoded) of
        [p0, p1, p2, p3, p4, p5] \<Rightarrow>
          if p0 \<noteq> '''' \<or> p1 \<noteq> ''argon2id'' then Inl invalidMaterial
          else if p2 \<noteq> ''v=19'' then Inl invalidMaterial
          else (case parseCost p3 of
                  Inl e \<Rightarrow> Inl e
                | Inr (m, t, p) \<Rightarrow>
                    (case (b64Decode p4, b64Decode p5) of
                       (Some salt, Some hash) \<Rightarrow>
                         if length salt < 8 \<or> length hash < 16 then Inl invalidMaterial
                         else Inr \<lparr>ph_memory = m, ph_time = t, ph_threads = p, ph_salt = salt, ph_hash = hash\<rparr>
                     | _ \<Rightarrow> Inl invalidMaterial))
      | _ \<Rightarrow> Inl invalidMaterial)"

definition ValidatePHC :: "bytes \<Rightarrow> credErr + unit" where
  "ValidatePHC encoded = (case parsePHC encoded of Inl e \<Rightarrow> Inl e | Inr _ \<Rightarrow> Inr ())"

text \<open>The entropy reader is the list of octets it still has; a short read is an error.\<close>

definition DeriveArgon2id :: "credLib \<Rightarrow> bytes \<Rightarrow> Argon2Params \<Rightarrow> bytes \<Rightarrow> bytes \<times> (credErr + bytes)" where
  "DeriveArgon2id lib password p entropy =
     (if \<not> validEncode p then (entropy, Inl invalidMaterial)
      else let n = unat (ap_SaltLen p)
           in if length entropy < n then ([], Inl EntropyErr)
              else let salt = take n entropy;
                       sum = cl_argon2 lib password salt (ap_Time p) (ap_Memory p) (ap_Threads p) (ap_KeyLen p)
                   in (drop n entropy, Inr (bytes_of_string (encodePHC p salt sum))))"

definition VerifyArgon2id :: "credLib \<Rightarrow> bytes \<Rightarrow> bytes \<Rightarrow> credErr + unit" where
  "VerifyArgon2id lib encoded password =
     (case parsePHC encoded of
        Inl e \<Rightarrow> Inl e
      | Inr ph \<Rightarrow>
          (let got = cl_argon2 lib password (ph_salt ph) (ph_time ph) (ph_memory ph) (ph_threads ph) (of_nat (length (ph_hash ph)))
           in if got \<noteq> ph_hash ph then Inl (fail KindWrong) else Inr ()))"

subsection \<open>CHAP\<close>

abbreviation (input) DefaultMinCHAPChallenge :: int where "DefaultMinCHAPChallenge \<equiv> 8"

definition CHAPResponse :: "byte \<Rightarrow> bytes \<Rightarrow> bytes \<Rightarrow> bytes" where
  "CHAPResponse ident secret challenge = md5 ([ident] @ secret @ challenge)"

definition verifyCHAP :: "byte \<Rightarrow> bytes \<Rightarrow> bytes \<Rightarrow> bytes \<Rightarrow> int \<Rightarrow> credErr + unit" where
  "verifyCHAP ident secret challenge response minChallenge =
     (let minChallenge = (if minChallenge \<le> 0 then DefaultMinCHAPChallenge else minChallenge)
      in if int (length challenge) < minChallenge \<or> length response \<noteq> 16 then Inl malformed
         else if CHAPResponse ident secret challenge \<noteq> response then Inl (fail KindWrong)
         else Inr ())"

subsection \<open>MS-CHAP\<close>

text \<open>
  \<open>[]rune(string(b))\<close> decodes UTF-8 and replaces every octet that does not start a valid
  sequence by U+FFFD; \<open>utf16.Encode\<close> writes a surrogate pair above U+FFFF.
\<close>

definition runeBits :: "byte \<Rightarrow> nat \<Rightarrow> nat" where
  "runeBits b n = unat b mod 2 ^ n"

function decodeRunes :: "bytes \<Rightarrow> nat list" where
  "decodeRunes [] = []"
| "decodeRunes (a # s) =
     (if a < 0x80 then unat a # decodeRunes s
      else if length s \<ge> 1 \<and> utf8Valid [a, s ! 0]
        then (runeBits a 5 * 64 + runeBits (s ! 0) 6) # decodeRunes (drop 1 s)
      else if length s \<ge> 2 \<and> utf8Valid [a, s ! 0, s ! 1] \<and> \<not> contByte a \<and> a \<ge> 0xE0
        then ((runeBits a 4 * 64 + runeBits (s ! 0) 6) * 64 + runeBits (s ! 1) 6) # decodeRunes (drop 2 s)
      else if length s \<ge> 3 \<and> utf8Valid [a, s ! 0, s ! 1, s ! 2] \<and> a \<ge> 0xF0
        then (((runeBits a 3 * 64 + runeBits (s ! 0) 6) * 64 + runeBits (s ! 1) 6) * 64 + runeBits (s ! 2) 6) # decodeRunes (drop 3 s)
      else 0xFFFD # decodeRunes s)"
  by pat_completeness auto
termination
  by (relation "measure length") auto

definition utf16Encode :: "nat \<Rightarrow> nat list" where
  "utf16Encode r =
     (if r < 0x10000 then [r]
      else [0xD800 + (r - 0x10000) div 1024, 0xDC00 + (r - 0x10000) mod 1024])"

definition utf16LE :: "bytes \<Rightarrow> bytes" where
  "utf16LE password =
     concat (map (\<lambda>u. [of_nat u, of_nat (u div 256)]) (concat (map utf16Encode (decodeRunes password))))"

definition NtPasswordHash :: "credLib \<Rightarrow> bytes \<Rightarrow> bytes" where
  "NtPasswordHash lib password = cl_md4 lib (utf16LE password)"

definition hashNtPasswordHash :: "credLib \<Rightarrow> bytes \<Rightarrow> bytes" where
  "hashNtPasswordHash lib h = cl_md4 lib h"

definition toOEMUpper :: "bytes \<Rightarrow> bytes" where
  "toOEMUpper password = map (\<lambda>c. if 97 \<le> c \<and> c \<le> 122 then c - 32 else c) (take 14 password)"

text \<open>\<open>copy\<close> into a zeroed array of \<open>n\<close> octets.\<close>

definition padded :: "nat \<Rightarrow> bytes \<Rightarrow> bytes" where
  "padded n b = take n b @ replicate (n - length b) 0"

definition desEncryptBlock :: "bytes \<Rightarrow> bytes \<Rightarrow> bytes" where
  "desEncryptBlock k data =
     des_encrypt
       [k ! 0,
        push_bit 7 (k ! 0) OR drop_bit 1 (k ! 1),
        push_bit 6 (k ! 1) OR drop_bit 2 (k ! 2),
        push_bit 5 (k ! 2) OR drop_bit 3 (k ! 3),
        push_bit 4 (k ! 3) OR drop_bit 4 (k ! 4),
        push_bit 3 (k ! 4) OR drop_bit 5 (k ! 5),
        push_bit 2 (k ! 5) OR drop_bit 6 (k ! 6),
        push_bit 1 (k ! 6)] data"

definition lmMagic :: bytes where
  "lmMagic = bytes_of_string ''KGS!@#$%''"

definition LmPasswordHash :: "bytes \<Rightarrow> bytes" where
  "LmPasswordHash password =
     (let p = padded 14 (toOEMUpper password)
      in desEncryptBlock (take 7 p) lmMagic @ desEncryptBlock (take 7 (drop 7 p)) lmMagic)"

definition ChallengeResponse :: "bytes \<Rightarrow> bytes \<Rightarrow> bytes" where
  "ChallengeResponse challenge passwordHash =
     (let z = padded 21 passwordHash
      in desEncryptBlock (take 7 z) challenge @ desEncryptBlock (take 7 (drop 7 z)) challenge @
         desEncryptBlock (take 7 (drop 14 z)) challenge)"

definition MSCHAPv1Response :: "credLib \<Rightarrow> bytes \<Rightarrow> bytes \<Rightarrow> bool \<Rightarrow> bytes" where
  "MSCHAPv1Response lib password challenge useNT =
     ChallengeResponse challenge (LmPasswordHash password) @ ChallengeResponse challenge (NtPasswordHash lib password) @
     [if useNT then 1 else 0]"

definition MSCHAPv2ChallengeHash :: "bytes \<Rightarrow> bytes \<Rightarrow> bytes \<Rightarrow> bytes" where
  "MSCHAPv2ChallengeHash peerChallenge authChallenge username = take 8 (sha1 (peerChallenge @ authChallenge @ username))"

definition MSCHAPv2NTResponse :: "credLib \<Rightarrow> bytes \<Rightarrow> bytes \<Rightarrow> bytes \<Rightarrow> bytes \<Rightarrow> bytes" where
  "MSCHAPv2NTResponse lib password username authChallenge peerChallenge =
     ChallengeResponse (MSCHAPv2ChallengeHash peerChallenge authChallenge username) (NtPasswordHash lib password)"

definition MSCHAPv2Response :: "credLib \<Rightarrow> bytes \<Rightarrow> bytes \<Rightarrow> bytes \<Rightarrow> bytes \<Rightarrow> bytes" where
  "MSCHAPv2Response lib password username authChallenge peerChallenge =
     padded 16 peerChallenge @ replicate 8 0 @ MSCHAPv2NTResponse lib password username authChallenge peerChallenge @ [0]"

definition magic1 :: bytes where
  "magic1 = bytes_of_string ''Magic server to client signing constant''"

definition magic2 :: bytes where
  "magic2 = bytes_of_string ''Pad to make it do more than one iteration''"

definition upperHex :: "nat \<Rightarrow> byte" where
  "upperHex n = of_nat (if n < 10 then 48 + n else 55 + n)"

definition generateAuthenticatorResponse :: "bytes \<Rightarrow> bytes \<Rightarrow> bytes \<Rightarrow> bytes \<Rightarrow> bytes \<Rightarrow> bytes" where
  "generateAuthenticatorResponse passwordHashHash ntResponse peerChallenge authChallenge username =
     (let digest = sha1 (passwordHashHash @ ntResponse @ magic1);
          ch = MSCHAPv2ChallengeHash peerChallenge authChallenge username;
          digest2 = sha1 (digest @ ch @ magic2)
      in bytes_of_string ''S='' @ concat (map (\<lambda>b. [upperHex (unat b div 16), upperHex (unat b mod 16)]) digest2))"

definition GenerateMSCHAPv2Success :: "credLib \<Rightarrow> byte \<Rightarrow> bytes \<Rightarrow> bytes \<Rightarrow> bytes \<Rightarrow> bytes \<Rightarrow> credErr + bytes" where
  "GenerateMSCHAPv2Success lib ident password username authChallenge peerChallenge =
     (if length authChallenge \<noteq> 16 \<or> length peerChallenge \<noteq> 16 then Inl malformed
      else Inr (ident # generateAuthenticatorResponse (hashNtPasswordHash lib (NtPasswordHash lib password))
             (MSCHAPv2NTResponse lib password username authChallenge peerChallenge) peerChallenge authChallenge username))"

definition verifyMSCHAPv1 :: "credLib \<Rightarrow> bytes \<Rightarrow> bytes \<Rightarrow> bytes \<Rightarrow> credErr + unit" where
  "verifyMSCHAPv1 lib password challenge response =
     (if length challenge \<noteq> 8 \<or> length response \<noteq> 49 then Inl malformed
      else if response ! 48 \<noteq> 0
        then (if ChallengeResponse challenge (NtPasswordHash lib password) \<noteq> take 24 (drop 24 response)
              then Inl (fail KindWrong) else Inr ())
      else (if ChallengeResponse challenge (LmPasswordHash password) \<noteq> take 24 response
            then Inl (fail KindWrong) else Inr ()))"

definition mschapv2WireOK :: "bytes \<Rightarrow> bytes \<Rightarrow> credErr + unit" where
  "mschapv2WireOK challenge response =
     (if length challenge \<noteq> 16 \<or> length response \<noteq> 49 then Inl malformed
      else if take 8 (drop 16 response) \<noteq> replicate 8 0 then Inl malformed
      else if response ! 48 \<noteq> 0 then Inl malformed
      else Inr ())"

definition verifyMSCHAPv2 :: "credLib \<Rightarrow> bytes \<Rightarrow> bytes \<Rightarrow> bytes \<Rightarrow> bytes \<Rightarrow> credErr + unit" where
  "verifyMSCHAPv2 lib password username authChallenge response =
     (case mschapv2WireOK authChallenge response of
        Inl e \<Rightarrow> Inl e
      | Inr _ \<Rightarrow>
          if MSCHAPv2NTResponse lib password username authChallenge (take 16 response) \<noteq> take 24 (drop 24 response)
          then Inl (fail KindWrong) else Inr ())"

subsection \<open>Payloads of authentication START packets\<close>

definition SplitCHAPData :: "bytes \<Rightarrow> int \<Rightarrow> credErr + byte \<times> bytes \<times> bytes" where
  "SplitCHAPData data minChallenge =
     (let minChallenge = (if minChallenge \<le> 0 then DefaultMinCHAPChallenge else minChallenge)
      in if int (length data) < 1 + minChallenge + 16 then Inl malformed
         else let n = length data - 1 - 16
              in Inr (data ! 0, take n (drop 1 data), take 16 (drop (1 + n) data)))"

definition splitMSCHAP :: "bytes \<Rightarrow> nat \<Rightarrow> credErr + byte \<times> bytes \<times> bytes" where
  "splitMSCHAP data chalLen =
     (if length data \<noteq> 1 + chalLen + 49 then Inl malformed
      else Inr (data ! 0, take chalLen (drop 1 data), take 49 (drop (1 + chalLen) data)))"

definition SplitMSCHAPv1Data :: "bytes \<Rightarrow> credErr + byte \<times> bytes \<times> bytes" where
  "SplitMSCHAPv1Data data = splitMSCHAP data 8"

definition SplitMSCHAPv2Data :: "bytes \<Rightarrow> credErr + byte \<times> bytes \<times> bytes" where
  "SplitMSCHAPv2Data data = splitMSCHAP data 16"

subsection \<open>The service\<close>

record CredRecord =
  rec_ID :: string
  rec_Enabled :: bool
  rec_Restricted :: bool
  rec_Login :: bytes
  rec_Challenge :: bytes
  rec_Enable :: bytes
  rec_ValidAfter :: "int option"
  rec_ValidBefore :: "int option"
  rec_MustChangeLogin :: bool
  rec_MustChangeEnable :: bool

record Capabilities =
  cap_Login :: bool
  cap_Challenge :: bool
  cap_Enable :: bool

definition Caps :: "CredRecord \<Rightarrow> Capabilities" where
  "Caps r = \<lparr>cap_Login = rec_Login r \<noteq> [], cap_Challenge = rec_Challenge r \<noteq> [], cap_Enable = rec_Enable r \<noteq> []\<rparr>"

text \<open>
  The service: its store, the encoding parameters, the least CHAP challenge and the dummy
  material it compares with when there is no user. The KDF limiter only delays a call; a call
  that is cancelled while it waits is the flag \<open>kdfCancelled\<close> of a context.
\<close>

record CredService =
  cs_store :: "string \<Rightarrow> CredRecord option"
  cs_params :: Argon2Params
  cs_minCHAP :: int

record callCtx =
  cx_done :: bool
  cx_kdfCancelled :: bool

definition CanonicalUsername :: "credLib \<Rightarrow> string \<Rightarrow> credErr + string" where
  "CanonicalUsername lib raw =
     (case cl_precis lib raw of
        None \<Rightarrow> Inl invalidMaterial
      | Some out \<Rightarrow> if out = '''' then Inl invalidMaterial else Inr out)"

definition cred_lookup :: "credLib \<Rightarrow> int \<Rightarrow> CredService \<Rightarrow> string \<Rightarrow> credErr + CredRecord" where
  "cred_lookup lib now s userID =
     (case CanonicalUsername lib userID of
        Inl _ \<Rightarrow> Inl (fail KindUnknown)
      | Inr canon \<Rightarrow>
          (case cs_store s canon of
             None \<Rightarrow> Inl (fail KindUnknown)
           | Some r \<Rightarrow>
               if \<not> rec_Enabled r then Inl (fail KindDisabled)
               else if rec_Restricted r then Inl (fail KindRestricted)
               else if (case rec_ValidAfter r of None \<Rightarrow> False | Some t \<Rightarrow> now < t) then Inl (fail KindExpired)
               else if (case rec_ValidBefore r of None \<Rightarrow> False | Some t \<Rightarrow> \<not> now < t) then Inl (fail KindExpired)
               else Inr r))"

definition cred_Capabilities :: "credLib \<Rightarrow> int \<Rightarrow> CredService \<Rightarrow> string \<Rightarrow> Capabilities" where
  "cred_Capabilities lib now s userID =
     (case cred_lookup lib now s userID of
        Inl _ \<Rightarrow> \<lparr>cap_Login = False, cap_Challenge = False, cap_Enable = False\<rparr>
      | Inr r \<Rightarrow> Caps r)"

definition VerifyASCIIOrPAP :: "credLib \<Rightarrow> callCtx \<Rightarrow> int \<Rightarrow> CredService \<Rightarrow> string \<Rightarrow> bytes \<Rightarrow> credErr + unit" where
  "VerifyASCIIOrPAP lib ctx now s userID password =
     (if cx_done ctx then Inl CtxErr
      else let found = cred_lookup lib now s userID
           in if cx_kdfCancelled ctx then Inl CtxErr
              else case found of
                Inl e \<Rightarrow> Inl e
              | Inr r \<Rightarrow> if rec_Login r = [] then Inl unavailable else VerifyArgon2id lib (rec_Login r) password)"

definition VerifyCHAP :: "credLib \<Rightarrow> callCtx \<Rightarrow> int \<Rightarrow> CredService \<Rightarrow> string \<Rightarrow> byte \<Rightarrow> bytes \<Rightarrow> bytes \<Rightarrow> credErr + unit" where
  "VerifyCHAP lib ctx now s userID ident challenge response =
     (if cx_done ctx then Inl CtxErr
      else if int (length challenge) < cs_minCHAP s \<or> length response \<noteq> 16 then Inl malformed
      else case cred_lookup lib now s userID of
        Inl e \<Rightarrow> Inl e
      | Inr r \<Rightarrow> if rec_Challenge r = [] then Inl unavailable
                else verifyCHAP ident (rec_Challenge r) challenge response (cs_minCHAP s))"

definition VerifyMSCHAPv1 :: "credLib \<Rightarrow> callCtx \<Rightarrow> int \<Rightarrow> CredService \<Rightarrow> string \<Rightarrow> bytes \<Rightarrow> bytes \<Rightarrow> credErr + unit" where
  "VerifyMSCHAPv1 lib ctx now s userID challenge response =
     (if cx_done ctx then Inl CtxErr
      else if length challenge \<noteq> 8 \<or> length response \<noteq> 49 then Inl malformed
      else case cred_lookup lib now s userID of
        Inl e \<Rightarrow> Inl e
      | Inr r \<Rightarrow> if rec_Challenge r = [] then Inl unavailable
                else verifyMSCHAPv1 lib (rec_Challenge r) challenge response)"

definition VerifyMSCHAPv2 :: "credLib \<Rightarrow> callCtx \<Rightarrow> int \<Rightarrow> CredService \<Rightarrow> string \<Rightarrow> bytes \<Rightarrow> bytes \<Rightarrow> credErr + unit" where
  "VerifyMSCHAPv2 lib ctx now s userID challenge response =
     (if cx_done ctx then Inl CtxErr
      else case mschapv2WireOK challenge response of
        Inl e \<Rightarrow> Inl e
      | Inr _ \<Rightarrow>
          (case (CanonicalUsername lib userID, cred_lookup lib now s userID) of
             (_, Inl e) \<Rightarrow> Inl e
           | (Inl _, Inr _) \<Rightarrow> Inl (fail KindUnknown)
           | (Inr canon, Inr r) \<Rightarrow>
               if rec_Challenge r = [] then Inl unavailable
               else verifyMSCHAPv2 lib (rec_Challenge r) (bytes_of_string canon) challenge response))"

definition MSCHAPv2Success :: "credLib \<Rightarrow> callCtx \<Rightarrow> int \<Rightarrow> CredService \<Rightarrow> string \<Rightarrow> byte \<Rightarrow> bytes \<Rightarrow> bytes \<Rightarrow> credErr + bytes" where
  "MSCHAPv2Success lib ctx now s userID ident authChallenge peerChallenge =
     (if cx_done ctx then Inl CtxErr
      else if length authChallenge \<noteq> 16 \<or> length peerChallenge \<noteq> 16 then Inl malformed
      else case (CanonicalUsername lib userID, cred_lookup lib now s userID) of
             (_, Inl e) \<Rightarrow> Inl e
           | (Inl _, Inr _) \<Rightarrow> Inl (fail KindUnknown)
           | (Inr canon, Inr r) \<Rightarrow>
               if rec_Challenge r = [] then Inl unavailable
               else GenerateMSCHAPv2Success lib ident (rec_Challenge r) (bytes_of_string canon) authChallenge peerChallenge)"

definition VerifyEnable :: "credLib \<Rightarrow> callCtx \<Rightarrow> int \<Rightarrow> CredService \<Rightarrow> string \<Rightarrow> bytes \<Rightarrow> credErr + unit" where
  "VerifyEnable lib ctx now s userID secret =
     (if cx_done ctx then Inl CtxErr
      else let found = cred_lookup lib now s userID
           in if cx_kdfCancelled ctx then Inl CtxErr
              else case found of
                Inl e \<Rightarrow> Inl e
              | Inr r \<Rightarrow> if rec_Enable r = [] then Inl unavailable else VerifyArgon2id lib (rec_Enable r) secret)"

text \<open>Login and enable verifiers are derived alike; they differ in the type of the result only.\<close>

definition DeriveVerifier :: "credLib \<Rightarrow> callCtx \<Rightarrow> CredService \<Rightarrow> bytes \<Rightarrow> bytes \<Rightarrow> bytes \<times> (credErr + bytes)" where
  "DeriveVerifier lib ctx s password entropy =
     (if cx_done ctx \<or> cx_kdfCancelled ctx then (entropy, Inl CtxErr)
      else DeriveArgon2id lib password (cs_params s) entropy)"

definition ChangeASCIIPassword ::
  "credLib \<Rightarrow> callCtx \<Rightarrow> int \<Rightarrow> CredService \<Rightarrow> string \<Rightarrow> bytes \<Rightarrow> bytes \<Rightarrow> bytes \<Rightarrow> bytes \<times> (credErr + bytes)" where
  "ChangeASCIIPassword lib ctx now s userID old new entropy =
     (if cx_done ctx then (entropy, Inl CtxErr)
      else if length new = 0 then (entropy, Inl malformed)
      else case VerifyASCIIOrPAP lib ctx now s userID old of
        Inl e \<Rightarrow> (entropy, Inl e)
      | Inr _ \<Rightarrow> DeriveVerifier lib ctx s new entropy)"

subsection \<open>PHC strings\<close>

lemma SplitChar_snoc: "sep \<notin> set a \<Longrightarrow> SplitChar sep (a @ sep # b) = a # SplitChar sep b"
  by (induction a) auto

lemma SplitChar_plain: "sep \<notin> set a \<Longrightarrow> SplitChar sep a = [a]"
  by (induction a) auto

lemma isDigit_no_sep: "list_all isDigit s \<Longrightarrow> c \<in> {CHR ''$'', CHR '','', CHR ''=''} \<Longrightarrow> c \<notin> set s"
  by (auto simp: list_all_iff isDigit_range)

lemma Itoa_no_sep: "c \<in> {CHR ''$'', CHR '','', CHR ''=''} \<Longrightarrow> c \<notin> set (Itoa n)"
  using Itoa_digits [of n] isDigit_no_sep by blast

lemma ParseUint32_Itoa: "n < 2 ^ 32 \<Longrightarrow> ParseUint32 (Itoa n) = Some n"
  using Itoa_digits [of n] by (simp add: ParseUint32_def)

definition costText :: "Argon2Params \<Rightarrow> string" where
  "costText p = (''m='' @ Itoa (unat (ap_Memory p))) @ CHR '','' # (''t='' @ Itoa (unat (ap_Time p))) @ CHR '','' # ''p='' @ Itoa (unat (ap_Threads p))"

lemma encodePHC_parts:
  "encodePHC p salt hash =
     [] @ CHR ''$'' # ''argon2id'' @ CHR ''$'' # ''v=19'' @ CHR ''$'' # costText p @ CHR ''$'' # b64Encode salt @ CHR ''$'' # b64Encode hash"
  by (simp add: encodePHC_def costText_def)

lemma costText_no_dollar: "CHR ''$'' \<notin> set (costText p)"
  using Itoa_no_sep by (auto simp: costText_def)

lemma CutChar_field: "k \<noteq> CHR ''='' \<Longrightarrow> CutChar (CHR ''='') (k # CHR ''='' # v) = Some ([k], v)"
  by (simp add: CutChar_def)

lemma validEncode_bounds:
  assumes "validEncode p"
  shows "8 \<le> unat (ap_Memory p)" "unat (ap_Memory p) \<le> 1048576" "1 \<le> unat (ap_Time p)" "unat (ap_Time p) \<le> 16"
    "1 \<le> unat (ap_Threads p)" "unat (ap_Threads p) \<le> 16" "8 \<le> unat (ap_SaltLen p)" "16 \<le> unat (ap_KeyLen p)"
  using assms by (auto simp: validEncode_def not_less word_le_nat_alt unat_gt_0 Suc_le_eq)

lemma parseCost_text:
  assumes "validEncode p"
  shows "parseCost (costText p) = Inr (ap_Memory p, ap_Time p, ap_Threads p)"
proof -
  have sep: "CHR '','' \<notin> set (''m='' @ Itoa n)" "CHR '','' \<notin> set (''t='' @ Itoa n)" "CHR '','' \<notin> set (''p='' @ Itoa n)" for n
    using Itoa_no_sep by auto
  have "SplitChar (CHR '','') (costText p) =
      [''m='' @ Itoa (unat (ap_Memory p)), ''t='' @ Itoa (unat (ap_Time p)), ''p='' @ Itoa (unat (ap_Threads p))]"
    unfolding costText_def by (simp only: SplitChar_snoc [OF sep(1)] SplitChar_snoc [OF sep(2)] SplitChar_plain [OF sep(3)])
  then show ?thesis
    using validEncode_bounds [OF assms] by (simp add: parseCost_def CutChar_field ParseUint32_Itoa)
qed

lemma parsePHC_encode:
  assumes "validEncode p" "8 \<le> length salt" "16 \<le> length hash"
  shows "parsePHC (bytes_of_string (encodePHC p salt hash)) =
    Inr \<lparr>ph_memory = ap_Memory p, ph_time = ap_Time p, ph_threads = ap_Threads p, ph_salt = salt, ph_hash = hash\<rparr>"
proof -
  have "SplitChar (CHR ''$'') (encodePHC p salt hash) = [[], ''argon2id'', ''v=19'', costText p, b64Encode salt, b64Encode hash]"
    unfolding encodePHC_parts
    by (simp only: SplitChar_snoc [OF costText_no_dollar] SplitChar_snoc [OF b64Encode_no_dollar] SplitChar_plain [OF b64Encode_no_dollar]
        append_Nil) (simp add: SplitChar_snoc [OF costText_no_dollar] SplitChar_snoc [OF b64Encode_no_dollar] SplitChar_plain [OF b64Encode_no_dollar])
  then show ?thesis
    using assms by (simp add: parsePHC_def parseCost_text)
qed

text \<open>A derived verifier parses to the costs, the salt and the key it was made from.\<close>

lemma derived_parse:
  assumes "\<forall>pw salt t m p n. length (cl_argon2 lib pw salt t m p n) = unat n"
    and "DeriveArgon2id lib pw p entropy = (rest, Inr enc)" and "salt = take (unat (ap_SaltLen p)) entropy"
  shows "entropy = salt @ rest"
    and "parsePHC enc = Inr \<lparr>ph_memory = ap_Memory p, ph_time = ap_Time p, ph_threads = ap_Threads p, ph_salt = salt,
      ph_hash = cl_argon2 lib pw salt (ap_Time p) (ap_Memory p) (ap_Threads p) (ap_KeyLen p)\<rparr>"
    and "VerifyArgon2id lib enc pw = Inr ()"
proof -
  let ?key = "cl_argon2 lib pw salt (ap_Time p) (ap_Memory p) (ap_Threads p) (ap_KeyLen p)"
  have ok: "validEncode p" and enc: "enc = bytes_of_string (encodePHC p salt ?key)" and rest: "entropy = salt @ rest"
    and len: "length salt = unat (ap_SaltLen p)"
    using assms(2,3) by (auto simp: DeriveArgon2id_def Let_def split: if_splits)
  have k: "length ?key = unat (ap_KeyLen p)" using assms(1) by simp
  show parse: "parsePHC enc = Inr \<lparr>ph_memory = ap_Memory p, ph_time = ap_Time p, ph_threads = ap_Threads p, ph_salt = salt, ph_hash = ?key\<rparr>"
    unfolding enc using validEncode_bounds [OF ok] len k by (intro parsePHC_encode [OF ok]) auto
  show "VerifyArgon2id lib enc pw = Inr ()" using parse k by (simp add: VerifyArgon2id_def)
  show "entropy = salt @ rest" by (rule rest)
qed

text \<open>What every accepted PHC string satisfies: the costs that verification will pay are bounded.\<close>

definition costsOk :: "costs \<Rightarrow> bool" where
  "costsOk c \<longleftrightarrow> pred_option (\<lambda>m. 8 \<le> m \<and> m \<le> 1048576) (co_mem c) \<and>
     pred_option (\<lambda>t. 1 \<le> t \<and> t \<le> 16) (co_time c) \<and> pred_option (\<lambda>p. 1 \<le> p \<and> p \<le> 16) (co_threads c)"

lemma costLoop_ok: "costLoop fs c = Some c' \<Longrightarrow> costsOk c \<Longrightarrow> costsOk c'"
proof (induction fs arbitrary: c)
  case (Cons f fs)
  from Cons.prems(1) obtain k v n where f: "CutChar (CHR ''='') f = Some (k, v)" "ParseUint32 v = Some n"
    by (auto split: option.splits)
  note ih = Cons.IH [of "c\<lparr>co_mem := Some n\<rparr>"] Cons.IH [of "c\<lparr>co_time := Some n\<rparr>"] Cons.IH [of "c\<lparr>co_threads := Some n\<rparr>"]
  show ?case
    using Cons.prems f ih by (auto simp: costsOk_def split: if_splits)
qed simp

lemma parsePHC_bounds:
  assumes "parsePHC encoded = Inr ph"
  shows "8 \<le> unat (ph_memory ph) \<and> unat (ph_memory ph) \<le> 1048576" "1 \<le> unat (ph_time ph) \<and> unat (ph_time ph) \<le> 16"
    "1 \<le> unat (ph_threads ph) \<and> unat (ph_threads ph) \<le> 16" "8 \<le> length (ph_salt ph)" "16 \<le> length (ph_hash ph)"
proof -
  from assms obtain p3 m t p where cost: "parseCost p3 = Inr (m, t, p)"
    and ph: "ph_memory ph = m" "ph_time ph = t" "ph_threads ph = p" "8 \<le> length (ph_salt ph)" "16 \<le> length (ph_hash ph)"
    by (auto simp: parsePHC_def split: list.splits if_splits sum.splits option.splits)
  from cost obtain c m' t' p' where c: "costLoop (SplitChar (CHR '','') p3) \<lparr>co_mem = None, co_time = None, co_threads = None\<rparr> = Some c"
    "co_mem c = Some m'" "co_time c = Some t'" "co_threads c = Some p'" "m = of_nat m'" "t = of_nat t'" "p = of_nat p'"
    by (auto simp: parseCost_def split: option.splits)
  have "costsOk c" by (rule costLoop_ok [OF c(1)]) (simp add: costsOk_def)
  then have b: "8 \<le> m' \<and> m' \<le> 1048576" "1 \<le> t' \<and> t' \<le> 16" "1 \<le> p' \<and> p' \<le> 16" by (simp_all add: costsOk_def c)
  then have "unat m = m'" "unat t = t'" "unat p = p'"
    by (simp_all add: c(5-7) unat_of_nat_u32 unat_of_nat)
  with b ph show "8 \<le> unat (ph_memory ph) \<and> unat (ph_memory ph) \<le> 1048576" "1 \<le> unat (ph_time ph) \<and> unat (ph_time ph) \<le> 16"
    "1 \<le> unat (ph_threads ph) \<and> unat (ph_threads ph) \<le> 16" "8 \<le> length (ph_salt ph)" "16 \<le> length (ph_hash ph)" by auto
qed

subsection \<open>Lookup before verification\<close>

text \<open>A user who may authenticate now, with the record the store has for the canonical name.\<close>

definition liveUser :: "credLib \<Rightarrow> int \<Rightarrow> CredService \<Rightarrow> string \<Rightarrow> CredRecord \<Rightarrow> bool" where
  "liveUser lib now s userID r \<longleftrightarrow>
     (\<exists>canon. cl_precis lib userID = Some canon \<and> canon \<noteq> '''' \<and> cs_store s canon = Some r) \<and>
     rec_Enabled r \<and> \<not> rec_Restricted r \<and>
     (\<forall>t. rec_ValidAfter r = Some t \<longrightarrow> t \<le> now) \<and> (\<forall>t. rec_ValidBefore r = Some t \<longrightarrow> now < t)"

lemma cred_lookup_Inr: "cred_lookup lib now s userID = Inr r \<longleftrightarrow> liveUser lib now s userID r"
  by (auto simp: cred_lookup_def liveUser_def CanonicalUsername_def split: option.splits if_splits sum.splits)

lemma cred_lookup_kind:
  "cred_lookup lib now s userID = Inl e \<Longrightarrow> e \<in> {AuthErr KindUnknown, AuthErr KindDisabled, AuthErr KindRestricted, AuthErr KindExpired}"
  by (auto simp: cred_lookup_def split: option.splits if_splits sum.splits)

lemma ChallengeResponse_length [simp]: "length (ChallengeResponse challenge h) = 24"
  by (simp add: ChallengeResponse_def desEncryptBlock_def Let_def)

lemma MSCHAPv2NTResponse_length [simp]: "length (MSCHAPv2NTResponse lib pw u a p) = 24"
  by (simp add: MSCHAPv2NTResponse_def)

subsection \<open>Properties\<close>

text \<open>
  Property C34. Password verifiers round-trip. When \<open>argon2.IDKey\<close> returns a key of the length it is
  asked for, the parser reads a derived verifier back as exactly the costs, the salt and the key it
  was made of; it verifies the password it was derived from, and verifies another password exactly when Argon2id maps both to the same
  key; the derivation consumed exactly the salt from the entropy source. Every verifier the
  parser accepts, derived or not, has memory, time and thread costs within the fixed limits.
\<close>

theorem phc_verifier_round_trip:
  assumes "\<forall>pw salt t m p n. length (cl_argon2 lib pw salt t m p n) = unat n"
    and "DeriveArgon2id lib pw p entropy = (rest, Inr enc)" and "salt = take (unat (ap_SaltLen p)) entropy"
  shows "parsePHC enc = Inr \<lparr>ph_memory = ap_Memory p, ph_time = ap_Time p, ph_threads = ap_Threads p, ph_salt = salt,
      ph_hash = cl_argon2 lib pw salt (ap_Time p) (ap_Memory p) (ap_Threads p) (ap_KeyLen p)\<rparr> \<and>
    ValidatePHC enc = Inr () \<and> VerifyArgon2id lib enc pw = Inr () \<and> entropy = salt @ rest \<and>
    (VerifyArgon2id lib enc pw' = Inr () \<longleftrightarrow>
       cl_argon2 lib pw' salt (ap_Time p) (ap_Memory p) (ap_Threads p) (ap_KeyLen p) =
       cl_argon2 lib pw salt (ap_Time p) (ap_Memory p) (ap_Threads p) (ap_KeyLen p)) \<and>
    (parsePHC other = Inr ph \<longrightarrow>
       8 \<le> unat (ph_memory ph) \<and> unat (ph_memory ph) \<le> 2 ^ 20 \<and> 1 \<le> unat (ph_time ph) \<and> unat (ph_time ph) \<le> 16 \<and>
       1 \<le> unat (ph_threads ph) \<and> unat (ph_threads ph) \<le> 16)"
  using derived_parse [OF assms] parsePHC_bounds [of other ph] assms(1) by (simp add: ValidatePHC_def VerifyArgon2id_def)

definition wit_lib :: credLib where
  "wit_lib = \<lparr>cl_precis = Some, cl_argon2 = (\<lambda>pw salt t m p n. replicate (unat n) (if pw = [1] then 7 else 8)), cl_md4 = (\<lambda>b. replicate 16 0)\<rparr>"

theorem phc_verifier_round_trip_witness:
  "\<exists>enc. DeriveArgon2id wit_lib [1] DefaultParams (replicate 20 5) = (replicate 4 5, Inr enc) \<and>
     parsePHC enc = Inr \<lparr>ph_memory = ap_Memory DefaultParams, ph_time = ap_Time DefaultParams, ph_threads = ap_Threads DefaultParams,
       ph_salt = replicate 16 5, ph_hash = replicate (unat (ap_KeyLen DefaultParams)) 7\<rparr> \<and>
     VerifyArgon2id wit_lib enc [1] = Inr () \<and> VerifyArgon2id wit_lib enc [2] \<noteq> Inr ()"
proof -
  have s: "unat (ap_SaltLen DefaultParams) = 16" by (simp add: DefaultParams_def)
  obtain enc where d: "DeriveArgon2id wit_lib [1] DefaultParams (replicate 20 5) = (replicate 4 5, Inr enc)"
    by (simp add: DeriveArgon2id_def validEncode_def DefaultParams_def Let_def)
  have len: "\<forall>pw salt t m p n. length (cl_argon2 wit_lib pw salt t m p n) = unat n" by (simp add: wit_lib_def)
  note th = phc_verifier_round_trip [OF len d refl, of "[2]" "[]"]
  have "parsePHC enc = Inr \<lparr>ph_memory = ap_Memory DefaultParams, ph_time = ap_Time DefaultParams, ph_threads = ap_Threads DefaultParams,
      ph_salt = replicate 16 5, ph_hash = replicate (unat (ap_KeyLen DefaultParams)) 7\<rparr>"
    using th by (simp add: wit_lib_def s)
  moreover have "VerifyArgon2id wit_lib enc [1] = Inr ()" "VerifyArgon2id wit_lib enc [2] \<noteq> Inr ()"
    using th by (auto simp: wit_lib_def DefaultParams_def)
  ultimately show ?thesis using d by blast
qed

text \<open>The responses a peer computes from the shared secret verify.\<close>

lemma mschap_response_verifies:
  "length challenge = 8 \<Longrightarrow> verifyMSCHAPv1 lib pw challenge (MSCHAPv1Response lib pw challenge useNT) = Inr ()"
  "length auth = 16 \<Longrightarrow> length peer = 16 \<Longrightarrow> verifyMSCHAPv2 lib pw u auth (MSCHAPv2Response lib pw u auth peer) = Inr ()"
  "8 \<le> length challenge \<Longrightarrow> verifyCHAP ident secret challenge (CHAPResponse ident secret challenge) 8 = Inr ()"
  by (auto simp: verifyMSCHAPv1_def MSCHAPv1Response_def verifyMSCHAPv2_def mschapv2WireOK_def MSCHAPv2Response_def padded_def
      nth_append verifyCHAP_def CHAPResponse_def Let_def)

text \<open>
  Property C33. A credential passes exactly for a live user with the method's own secret. Each of the
  five verifications succeeds if and only if the context is not cancelled, the canonical user
  exists, is enabled, is not restricted for the client and is inside its validity window, the
  secret of that method (login verifier, challenge secret, enable verifier, never another one)
  is set, and the evidence matches it. An MS-CHAP version 2 response is reported as malformed
  because of its shape alone, whatever the user is.
\<close>

theorem credential_pass_exact:
  "(VerifyASCIIOrPAP lib ctx now s u pw = Inr () \<longleftrightarrow> \<not> cx_done ctx \<and> \<not> cx_kdfCancelled ctx \<and>
      (\<exists>r. liveUser lib now s u r \<and> rec_Login r \<noteq> [] \<and> VerifyArgon2id lib (rec_Login r) pw = Inr ())) \<and>
   (VerifyEnable lib ctx now s u pw = Inr () \<longleftrightarrow> \<not> cx_done ctx \<and> \<not> cx_kdfCancelled ctx \<and>
      (\<exists>r. liveUser lib now s u r \<and> rec_Enable r \<noteq> [] \<and> VerifyArgon2id lib (rec_Enable r) pw = Inr ())) \<and>
   (VerifyCHAP lib ctx now s u ident chal resp = Inr () \<longleftrightarrow> \<not> cx_done ctx \<and>
      (if cs_minCHAP s \<le> 0 then 8 else cs_minCHAP s) \<le> int (length chal) \<and>
      (\<exists>r. liveUser lib now s u r \<and> rec_Challenge r \<noteq> [] \<and> CHAPResponse ident (rec_Challenge r) chal = resp)) \<and>
   (VerifyMSCHAPv1 lib ctx now s u chal resp = Inr () \<longleftrightarrow> \<not> cx_done ctx \<and>
      (\<exists>r. liveUser lib now s u r \<and> rec_Challenge r \<noteq> [] \<and> verifyMSCHAPv1 lib (rec_Challenge r) chal resp = Inr ())) \<and>
   (VerifyMSCHAPv2 lib ctx now s u chal resp = Inr () \<longleftrightarrow> \<not> cx_done ctx \<and>
      (\<exists>r canon. liveUser lib now s u r \<and> cl_precis lib u = Some canon \<and> rec_Challenge r \<noteq> [] \<and>
         verifyMSCHAPv2 lib (rec_Challenge r) (bytes_of_string canon) chal resp = Inr ())) \<and>
   (VerifyMSCHAPv2 lib ctx now s u chal resp = Inl (AuthErr KindMalformed) \<longleftrightarrow>
      \<not> cx_done ctx \<and> mschapv2WireOK chal resp \<noteq> Inr ())"
proof -
  have wire: "mschapv2WireOK chal resp = Inr () \<or> mschapv2WireOK chal resp = Inl malformed"
    by (simp add: mschapv2WireOK_def)
  have pw: "VerifyASCIIOrPAP lib ctx now s u pw = Inr () \<longleftrightarrow> \<not> cx_done ctx \<and> \<not> cx_kdfCancelled ctx \<and>
      (\<exists>r. liveUser lib now s u r \<and> rec_Login r \<noteq> [] \<and> VerifyArgon2id lib (rec_Login r) pw = Inr ())"
    by (auto simp: VerifyASCIIOrPAP_def Let_def cred_lookup_Inr [symmetric] split: sum.splits)
  have en: "VerifyEnable lib ctx now s u pw = Inr () \<longleftrightarrow> \<not> cx_done ctx \<and> \<not> cx_kdfCancelled ctx \<and>
      (\<exists>r. liveUser lib now s u r \<and> rec_Enable r \<noteq> [] \<and> VerifyArgon2id lib (rec_Enable r) pw = Inr ())"
    by (auto simp: VerifyEnable_def Let_def cred_lookup_Inr [symmetric] split: sum.splits)
  have chap: "VerifyCHAP lib ctx now s u ident chal resp = Inr () \<longleftrightarrow> \<not> cx_done ctx \<and>
      (if cs_minCHAP s \<le> 0 then 8 else cs_minCHAP s) \<le> int (length chal) \<and>
      (\<exists>r. liveUser lib now s u r \<and> rec_Challenge r \<noteq> [] \<and> CHAPResponse ident (rec_Challenge r) chal = resp)"
    by (auto simp: VerifyCHAP_def verifyCHAP_def Let_def cred_lookup_Inr [symmetric] CHAPResponse_def split: sum.splits if_splits)
  have v1: "VerifyMSCHAPv1 lib ctx now s u chal resp = Inr () \<longleftrightarrow> \<not> cx_done ctx \<and>
      (\<exists>r. liveUser lib now s u r \<and> rec_Challenge r \<noteq> [] \<and> verifyMSCHAPv1 lib (rec_Challenge r) chal resp = Inr ())"
    by (auto simp: VerifyMSCHAPv1_def verifyMSCHAPv1_def [of lib _ chal resp] cred_lookup_Inr [symmetric] split: sum.splits if_splits)
  have canon: "\<exists>canon. cl_precis lib u = Some canon \<and> CanonicalUsername lib u = Inr canon" if "liveUser lib now s u r" for r
    using that by (auto simp: liveUser_def CanonicalUsername_def)
  have v2: "VerifyMSCHAPv2 lib ctx now s u chal resp = Inr () \<longleftrightarrow> \<not> cx_done ctx \<and>
      (\<exists>r canon. liveUser lib now s u r \<and> cl_precis lib u = Some canon \<and> rec_Challenge r \<noteq> [] \<and>
         verifyMSCHAPv2 lib (rec_Challenge r) (bytes_of_string canon) chal resp = Inr ())"
  proof (cases "cred_lookup lib now s u")
    case (Inl e)
    then have "\<not> liveUser lib now s u r" for r by (simp add: cred_lookup_Inr [symmetric])
    with Inl show ?thesis by (auto simp: VerifyMSCHAPv2_def split: sum.splits)
  next
    case (Inr r)
    then have live: "liveUser lib now s u r" by (simp add: cred_lookup_Inr)
    then have "liveUser lib now s u r' \<longleftrightarrow> r' = r" for r' using Inr by (auto simp: cred_lookup_Inr [symmetric])
    with canon [OF live] Inr wire show ?thesis
      by (auto simp: VerifyMSCHAPv2_def verifyMSCHAPv2_def split: sum.splits)
  qed
  have "VerifyMSCHAPv2 lib ctx now s u chal resp \<noteq> Inl malformed" if "mschapv2WireOK chal resp = Inr ()"
    using that cred_lookup_kind [of lib now s u]
    by (auto simp: VerifyMSCHAPv2_def verifyMSCHAPv2_def split: sum.splits if_splits)
  then have "VerifyMSCHAPv2 lib ctx now s u chal resp = Inl malformed \<longleftrightarrow> \<not> cx_done ctx \<and> mschapv2WireOK chal resp \<noteq> Inr ()"
    using wire by (auto simp: VerifyMSCHAPv2_def)
  with pw en chap v1 v2 show ?thesis by blast
qed

end
