(* ===== verification/Go_Ip.thy ===== *)
theory Go_Ip
  imports Credentials
begin

text \<open>
  Address parsing of Go's \<open>net/netip\<close> and \<open>net\<close>, and \<open>hex.DecodeString\<close>. A \<open>netip.Addr\<close> is its octets (4 or 16, none for
  the zero value) and its zone; a \<open>net.IP\<close> is a list of octets, a \<open>net.IPNet\<close> an address and a mask.
\<close>

type_synonym NetAddr = "bytes \<times> string"

definition noAddr :: NetAddr where
  "noAddr = ([], '''')"

definition Addr_IsValid :: "NetAddr \<Rightarrow> bool" where
  "Addr_IsValid a \<longleftrightarrow> fst a \<noteq> []"

definition Addr_Is4 :: "NetAddr \<Rightarrow> bool" where
  "Addr_Is4 a \<longleftrightarrow> length (fst a) = 4"

definition Addr_Is6 :: "NetAddr \<Rightarrow> bool" where
  "Addr_Is6 a \<longleftrightarrow> length (fst a) = 16"

definition AddrFromSlice :: "bytes \<Rightarrow> NetAddr option" where
  "AddrFromSlice b = (if length b = 4 \<or> length b = 16 then Some (b, '''') else None)"

subsection \<open>Hexadecimal\<close>

definition hexValue :: "char \<Rightarrow> nat option" where
  "hexValue c =
     (let n = of_char c :: nat
      in if 48 \<le> n \<and> n \<le> 57 then Some (n - 48)
         else if 97 \<le> n \<and> n \<le> 102 then Some (n - 87)
         else if 65 \<le> n \<and> n \<le> 70 then Some (n - 55)
         else None)"

fun DecodeHexString :: "string \<Rightarrow> bytes option" where
  "DecodeHexString [] = Some []"
| "DecodeHexString [_] = None"
| "DecodeHexString (a # b # s) =
     (case (hexValue a, hexValue b) of
        (Some x, Some y) \<Rightarrow> map_option (\<lambda>r. of_nat (16 * x + y) # r) (DecodeHexString s)
      | _ \<Rightarrow> None)"

subsection \<open>Parsing addresses\<close>

text \<open>One decimal field of an IPv4 address: no leading zero, at most 255.\<close>

definition ipv4Field :: "string \<Rightarrow> byte option" where
  "ipv4Field f =
     (if f \<noteq> '''' \<and> list_all isDigit f \<and> (length f = 1 \<or> hd f \<noteq> CHR ''0'') \<and> decValue f \<le> 255
      then Some (of_nat (decValue f)) else None)"

definition parseIPv4Fields :: "string \<Rightarrow> bytes option" where
  "parseIPv4Fields s =
     (case map ipv4Field (SplitChar (CHR ''.'') s) of
        [Some a, Some b, Some c, Some d] \<Rightarrow> Some [a, b, c, d]
      | _ \<Rightarrow> None)"

text \<open>
  The loop of \<open>parseIPv6\<close>: the octets so far, the position of the ellipsis, the rest of the text. A group is
  at most four hexadecimal digits; a group followed by a dot starts a trailing IPv4 address.
\<close>

definition hexRun :: "string \<Rightarrow> string" where
  "hexRun s = takeWhile (\<lambda>c. hexValue c \<noteq> None) s"

definition hexNumber :: "string \<Rightarrow> nat" where
  "hexNumber s = foldl (\<lambda>n c. 16 * n + (case hexValue c of Some d \<Rightarrow> d | None \<Rightarrow> 0)) 0 s"

function ipv6Loop :: "bytes \<Rightarrow> nat option \<Rightarrow> string \<Rightarrow> (bytes \<times> nat option) option" where
  "ipv6Loop ip ell s =
     (if length ip \<ge> 16 then (if s = '''' then Some (ip, ell) else None)
      else let run = hexRun s; rest = drop (length run) s
           in if length run = 0 \<or> length run > 4 then None
              else if rest \<noteq> '''' \<and> hd rest = CHR ''.'' then
                (if (ell = None \<and> length ip \<noteq> 12) \<or> length ip + 4 > 16 then None
                 else case parseIPv4Fields s of None \<Rightarrow> None | Some v \<Rightarrow> Some (ip @ v, ell))
              else let n = hexNumber run; ip = ip @ [of_nat (n div 256), of_nat (n mod 256)]
                   in if rest = '''' then Some (ip, ell)
                      else if hd rest \<noteq> CHR '':'' \<or> length rest = 1 then None
                      else if rest ! 1 = CHR '':'' then
                        (if ell \<noteq> None then None
                         else if length rest = 2 then Some (ip, Some (length ip))
                         else ipv6Loop ip (Some (length ip)) (drop 2 rest))
                      else ipv6Loop ip ell (drop 1 rest))"
  by pat_completeness auto
termination by (relation "measure (\<lambda>(ip, ell, s). 16 - length ip)") auto

definition ipv6Finish :: "bytes \<times> nat option \<Rightarrow> bytes option" where
  "ipv6Finish r =
     (case r of
        (ip, ell) \<Rightarrow>
          if length ip < 16
          then (case ell of None \<Rightarrow> None | Some e \<Rightarrow> Some (take e ip @ replicate (16 - length ip) 0 @ drop e ip))
          else (if ell = None then Some ip else None))"

definition parseIPv6 :: "string \<Rightarrow> NetAddr option" where
  "parseIPv6 s =
     (let addr = takeWhile (\<lambda>c. c \<noteq> CHR ''%'') s;
          zone = drop (length addr + 1) s
      in if CHR ''%'' \<in> set s \<and> zone = '''' then None
         else if HasPrefix addr ''::''
         then (if length addr = 2 then Some (replicate 16 0, zone)
               else map_option (\<lambda>ip. (ip, zone)) (Option.bind (ipv6Loop [] (Some 0) (drop 2 addr)) ipv6Finish))
         else map_option (\<lambda>ip. (ip, zone)) (Option.bind (ipv6Loop [] None addr) ipv6Finish))"

definition ParseAddr :: "string \<Rightarrow> NetAddr option" where
  "ParseAddr s =
     (case find (\<lambda>c. c \<in> {CHR ''.'', CHR '':'', CHR ''%''}) s of
        Some c \<Rightarrow>
          if c = CHR ''.'' then map_option (\<lambda>ip. (ip, '''')) (parseIPv4Fields s)
          else if c = CHR '':'' then parseIPv6 s else None
      | None \<Rightarrow> None)"

declare ipv6Loop.simps [simp del]

text \<open>\<open>net.IP\<close>: an IPv4 address has four octets or is mapped into sixteen.\<close>

definition v4Prefix :: bytes where
  "v4Prefix = replicate 10 0 @ [0xFF, 0xFF]"

definition IP_To4 :: "bytes \<Rightarrow> bytes option" where
  "IP_To4 ip =
     (if length ip = 4 then Some ip
      else if length ip = 16 \<and> take 12 ip = v4Prefix then Some (drop 12 ip) else None)"

definition IP_To16 :: "bytes \<Rightarrow> bytes option" where
  "IP_To16 ip = (if length ip = 4 then Some (v4Prefix @ ip) else if length ip = 16 then Some ip else None)"

definition IP_Equal :: "bytes \<Rightarrow> bytes \<Rightarrow> bool" where
  "IP_Equal a b \<longleftrightarrow>
     (if length a = length b then a = b
      else if length a = 4 \<and> length b = 16 then v4Prefix @ a = b
      else if length a = 16 \<and> length b = 4 then a = v4Prefix @ b
      else False)"

end
