(* ===== verification/Radius_Policy.thy ===== *)
theory Radius_Policy
  imports Config_Validate Radius_Operator Policy_Evaluate Go_Ip
begin

text \<open>
  The RADIUS access policy (\<open>internal/policy/radius\<close>: \<open>types.go\<close>, \<open>dictionary.go\<close>, \<open>compile.go\<close>, \<open>evaluate.go\<close>): compilation of
  policies and reply profiles against a local dictionary, and evaluation, the first matching rule
  in the order user, groups, endpoint, fallback. Effects, methods and operators are the strings of
  the code; a compiled map is a partial function.
\<close>

subsection \<open>Types\<close>

record AttrKey =
  ak_Vendor :: uint32
  ak_Code :: byte
  ak_Name :: string

definition AttrKey_Equal :: "AttrKey \<Rightarrow> AttrKey \<Rightarrow> bool" where
  "AttrKey_Equal k q \<longleftrightarrow> ak_Vendor k = ak_Vendor q \<and> ak_Code k = ak_Code q"

record Typed =
  ty_Key :: AttrKey
  ty_Kind :: ValueKind
  ty_Text :: string
  ty_Uint :: uint32
  ty_Addr :: NetAddr
  ty_Raw :: bytes

definition zeroTyped :: "AttrKey \<Rightarrow> ValueKind \<Rightarrow> Typed" where
  "zeroTyped key kind = \<lparr>ty_Key = key, ty_Kind = kind, ty_Text = '''', ty_Uint = 0, ty_Addr = noAddr, ty_Raw = []\<rparr>"

type_synonym TypedSet = "Typed list"

definition TypedSet_First :: "TypedSet \<Rightarrow> AttrKey \<Rightarrow> Typed option" where
  "TypedSet_First s key = find (\<lambda>a. AttrKey_Equal (ty_Key a) key) s"

definition TypedSet_Present :: "TypedSet \<Rightarrow> AttrKey \<Rightarrow> bool" where
  "TypedSet_Present s key \<longleftrightarrow> TypedSet_First s key \<noteq> None"

record PolicyRequest =
  par_UserID :: string
  par_ClientID :: string
  par_EndpointID :: string
  par_Method :: string
  par_Groups :: "string list"
  par_Attributes :: TypedSet

record AccessStep =
  ast_Source :: string
  ast_RuleID :: string
  ast_Matched :: bool
  ast_Reason :: string

record AccessWinner =
  aw_Source :: string
  aw_RuleID :: string
  aw_Effect :: string

record AccessTrace =
  at_Evaluator :: string
  at_UserID :: string
  at_ClientID :: string
  at_EndpointID :: string
  at_Method :: string
  at_Groups :: "string list"
  at_Steps :: "AccessStep list"
  at_Winner :: "AccessWinner option"
  at_Effect :: string
  at_DefaultDeny :: string
  at_Error :: string

record AccessResult =
  ares_Effect :: string
  ares_ReplyAttributes :: TypedSet
  ares_Trace :: AccessTrace

abbreviation (input) EffectPermit :: string where "EffectPermit \<equiv> ''permit''"
abbreviation (input) EffectDeny :: string where "EffectDeny \<equiv> ''deny''"
abbreviation (input) EffectError :: string where "EffectError \<equiv> ''error''"

subsection \<open>The policy dictionary\<close>

record attrDef =
  ad_Name :: string
  ad_Vendor :: uint32
  ad_Code :: byte
  ad_Kind :: ValueKind
  ad_Cardinality :: Cardinality
  ad_Secret :: bool
  ad_ServerOwned :: bool
  ad_allowReq :: bool
  ad_allowAccept :: bool
  ad_allowReject :: bool

definition attrDef_key :: "attrDef \<Rightarrow> AttrKey" where
  "attrDef_key d = \<lparr>ak_Vendor = ad_Vendor d, ak_Code = ad_Code d, ak_Name = ad_Name d\<rparr>"

text \<open>A row of the table: secret, server owned, and the roles request, accept, reject.\<close>

definition polDef :: "string \<Rightarrow> byte \<Rightarrow> ValueKind \<Rightarrow> Cardinality \<Rightarrow> bool \<Rightarrow> bool \<Rightarrow> bool \<Rightarrow> bool \<Rightarrow> bool \<Rightarrow> attrDef" where
  "polDef name code kind cy secret owned req acc rej =
     \<lparr>ad_Name = name, ad_Vendor = 0, ad_Code = code, ad_Kind = kind, ad_Cardinality = cy, ad_Secret = secret, ad_ServerOwned = owned,
      ad_allowReq = req, ad_allowAccept = acc, ad_allowReject = rej\<rparr>"

definition polDefs :: "attrDef list" where
  "polDefs =
     [polDef ''User-Name'' 1 KindText CardinalitySingle False False True True False,
      polDef ''User-Password'' 2 KindString CardinalitySingle True False True False False,
      polDef ''CHAP-Password'' 3 KindString CardinalitySingle True False True False False,
      polDef ''NAS-IP-Address'' 4 KindIPv4 CardinalitySingle False False True False False,
      polDef ''NAS-Port'' 5 KindInteger CardinalitySingle False False True False False,
      polDef ''Service-Type'' 6 KindInteger CardinalitySingle False False True True False,
      polDef ''Framed-Protocol'' 7 KindInteger CardinalitySingle False False True True False,
      polDef ''Framed-IP-Address'' 8 KindIPv4 CardinalitySingle False False True True False,
      polDef ''Filter-Id'' 11 KindText CardinalityMulti False False False True False,
      polDef ''Framed-MTU'' 12 KindInteger CardinalitySingle False False True True False,
      polDef ''Reply-Message'' 18 KindText CardinalityMulti False False False True True,
      polDef ''State'' 24 KindString CardinalitySingle True True True True False,
      polDef ''Class'' 25 KindString CardinalityMulti False False False True False,
      polDef ''Vendor-Specific'' 26 KindVSA CardinalityMulti False False True True False,
      polDef ''Session-Timeout'' 27 KindInteger CardinalitySingle False False False True False,
      polDef ''Idle-Timeout'' 28 KindInteger CardinalitySingle False False False True False,
      polDef ''Called-Station-Id'' 30 KindText CardinalitySingle False False True False False,
      polDef ''Calling-Station-Id'' 31 KindText CardinalitySingle False False True False False,
      polDef ''NAS-Identifier'' 32 KindText CardinalitySingle False False True False False,
      polDef ''Proxy-State'' 33 KindString CardinalityMulti False True True True True,
      polDef ''Event-Timestamp'' 55 KindTime CardinalitySingle False False True True False,
      polDef ''CHAP-Challenge'' 60 KindString CardinalitySingle False False True False False,
      polDef ''NAS-Port-Type'' 61 KindInteger CardinalitySingle False False True False False,
      polDef ''Message-Authenticator'' 80 KindString CardinalitySingle True True True True True,
      polDef ''Acct-Interim-Interval'' 85 KindInteger CardinalitySingle False False False True False,
      polDef ''NAS-IPv6-Address'' 95 KindIPv6 CardinalitySingle False False True False False,
      (polDef ''Cisco-AVPair'' 1 KindText CardinalityMulti False False True True True)\<lparr>ad_Vendor := 9\<rparr>]"

text \<open>
  The constructor panics on a repeated name or a repeated IETF code; \<open>polDefs_distinct\<close> (\<open>Radius_Policy_Props\<close>) shows that
  it does not, so a lookup in either map is the only row with that name or code.
\<close>

definition pol_lookupName :: "string \<Rightarrow> attrDef option" where
  "pol_lookupName name = find (\<lambda>d. ad_Name d = name) polDefs"

definition pol_lookupCode :: "byte \<Rightarrow> attrDef option" where
  "pol_lookupCode code = find (\<lambda>d. ad_Vendor d = 0 \<and> ad_Code d = code) polDefs"

definition pol_lookupVSA :: "uint32 \<Rightarrow> byte \<Rightarrow> attrDef option" where
  "pol_lookupVSA vendor code = find (\<lambda>d. ad_Vendor d = vendor \<and> ad_Code d = code) polDefs"

subsection \<open>Compilation\<close>

record compiledAttrMatch =
  cam_key :: AttrKey
  cam_label :: string
  cam_op :: string
  cam_equals :: "Typed option"

record compiledMatch =
  cm_groupsAny :: "string list"
  cm_method :: "string option"
  cm_attrs :: "compiledAttrMatch list"

record compiledRule =
  crl_id :: string
  crl_match :: compiledMatch
  crl_effect :: string
  crl_reply :: TypedSet

record compiledPolicy =
  cp_id :: string
  cp_rules :: "compiledRule list"

record radClient =
  rc_endpoints :: "(string \<times> string) list"
  rc_defaultGroupIDs :: "string list"

record radUser =
  ru_id :: string
  ru_enabled :: bool
  ru_groupIDs :: "string list"
  ru_policyID :: string

record radGroup =
  rg_id :: string
  rg_enabled :: bool
  rg_priority :: int
  rg_policyID :: string

record RadiusEngine =
  re_policies :: "string \<rightharpoonup> compiledPolicy"
  re_clients :: "string \<rightharpoonup> radClient"
  re_users :: "string \<rightharpoonup> radUser"
  re_groups :: "string \<rightharpoonup> radGroup"
  re_fallback :: string

definition yamlAt :: "string \<Rightarrow> string \<Rightarrow> Error" where
  "yamlAt path msg = WithPath (NewError CodeConfigYAMLInvalid msg) path"

definition resolveAttr :: "string \<Rightarrow> uint32 \<Rightarrow> byte \<Rightarrow> string \<Rightarrow> Error + attrDef \<times> AttrKey" where
  "resolveAttr name vendor code path =
     (let name = TrimSpace name
      in if name \<noteq> '''' then
           (case pol_lookupName name of
              None \<Rightarrow> Inl (yamlAt (path @ ''.name'') ''unknown RADIUS attribute name'')
            | Some def \<Rightarrow>
                if ad_Vendor def \<noteq> 0 then
                  (if vendor \<noteq> 0 \<and> vendor \<noteq> ad_Vendor def then Inl (yamlAt path ''attribute name and vendor disagree'')
                   else if code \<noteq> 0 \<and> code \<noteq> ad_Code def then Inl (yamlAt path ''attribute name and code disagree'')
                   else Inr (def, attrDef_key def))
                else if ad_Kind def = KindVSA then
                  (if vendor = 0 \<or> code = 0 then Inl (yamlAt path ''raw VSA requires vendor and code'')
                   else case pol_lookupVSA vendor code of
                     Some named \<Rightarrow> Inr (named, attrDef_key named)
                   | None \<Rightarrow> Inr (def, \<lparr>ak_Vendor = vendor, ak_Code = code, ak_Name = ad_Name def\<rparr>))
                else if vendor \<noteq> 0 then Inl (yamlAt (path @ ''.vendor'') ''IETF attribute names must not set vendor'')
                else if code \<noteq> 0 \<and> code \<noteq> ad_Code def then Inl (yamlAt path ''attribute name and code disagree'')
                else Inr (def, attrDef_key def))
         else if vendor \<noteq> 0 then
           (if code = 0 then Inl (yamlAt (path @ ''.code'') ''vendor requires code'')
            else case pol_lookupVSA vendor code of
              Some named \<Rightarrow> Inr (named, attrDef_key named)
            | None \<Rightarrow>
                (case pol_lookupName ''Vendor-Specific'' of
                   Some def \<Rightarrow> Inr (def, \<lparr>ak_Vendor = vendor, ak_Code = code, ak_Name = ''Vendor-Specific''\<rparr>)
                 | None \<Rightarrow> Inl (yamlAt path '''')))
         else if code = 0 then Inl (yamlAt path ''attribute requires name or vendor+code'')
         else case pol_lookupCode code of
           None \<Rightarrow> Inl (yamlAt (path @ ''.code'') ''unknown RADIUS attribute code'')
         | Some def \<Rightarrow> Inr (def, attrDef_key def))"

definition parseTypedValue :: "attrDef \<Rightarrow> AttrKey \<Rightarrow> string \<Rightarrow> string \<Rightarrow> string \<Rightarrow> Error + Typed" where
  "parseTypedValue def key value valueHex path =
     (let out = zeroTyped key (ad_Kind def);
          badHex = Inl (yamlAt (path @ ''.value_hex'') ''value_hex must be even-length hex'')
      in if ad_Vendor def \<noteq> 0 \<and> ad_Kind def = KindText then
           (if valueHex \<noteq> '''' then
              (case DecodeHexString valueHex of
                 None \<Rightarrow> badHex
               | Some b \<Rightarrow>
                   if value \<noteq> '''' \<and> value \<noteq> string_of_bytes b then Inl (yamlAt path ''value and value_hex disagree'')
                   else Inr (out\<lparr>ty_Text := string_of_bytes b, ty_Raw := b\<rparr>))
            else Inr (out\<lparr>ty_Text := value, ty_Raw := bytes_of_string value\<rparr>))
         else if ad_Kind def = KindVSA \<or> ak_Vendor key \<noteq> 0 then
           (if valueHex = '''' then Inl (yamlAt (path @ ''.value_hex'') ''raw VSA requires value_hex'')
            else case DecodeHexString valueHex of None \<Rightarrow> badHex | Some b \<Rightarrow> Inr (out\<lparr>ty_Kind := KindVSA, ty_Raw := b\<rparr>))
         else if ad_Kind def = KindInteger \<or> ad_Kind def = KindTime then
           (case ParseUint32 (TrimSpace value) of
              None \<Rightarrow> Inl (yamlAt (path @ ''.value'') ''value must be an unsigned 32-bit integer'')
            | Some n \<Rightarrow> Inr (out\<lparr>ty_Uint := of_nat n\<rparr>))
         else if ad_Kind def = KindIPv4 then
           (case ParseAddr (TrimSpace value) of
              None \<Rightarrow> Inl (yamlAt (path @ ''.value'') ''value must be an IPv4 address'')
            | Some a \<Rightarrow> if Addr_Is4 a then Inr (out\<lparr>ty_Addr := a\<rparr>) else Inl (yamlAt (path @ ''.value'') ''value must be an IPv4 address''))
         else if ad_Kind def = KindIPv6 then
           (case ParseAddr (TrimSpace value) of
              None \<Rightarrow> Inl (yamlAt (path @ ''.value'') ''value must be an IPv6 address'')
            | Some a \<Rightarrow> if Addr_Is6 a then Inr (out\<lparr>ty_Addr := a\<rparr>) else Inl (yamlAt (path @ ''.value'') ''value must be an IPv6 address''))
         else if ad_Kind def = KindText then
           (if valueHex \<noteq> '''' then Inl (yamlAt (path @ ''.value_hex'') ''text attributes use value, not value_hex'')
            else Inr (out\<lparr>ty_Text := value\<rparr>))
         else if ad_Kind def = KindString then
           (if valueHex \<noteq> ''''
            then (case DecodeHexString valueHex of None \<Rightarrow> badHex | Some b \<Rightarrow> Inr (out\<lparr>ty_Raw := b\<rparr>))
            else Inr (out\<lparr>ty_Raw := bytes_of_string value\<rparr>))
         else Inl (yamlAt path ''unsupported attribute kind''))"

definition attrLabel :: "AttrKey \<Rightarrow> string" where
  "attrLabel k =
     (if ak_Name k \<noteq> '''' then ak_Name k
      else if ak_Vendor k \<noteq> 0 then ''vsa:'' @ Itoa (unat (ak_Vendor k)) @ '':'' @ Itoa (unat (ak_Code k))
      else ''type:'' @ Itoa (unat (ak_Code k)))"

definition compileAttrMatch :: "RADIUSAttrMatch \<Rightarrow> string \<Rightarrow> Error + compiledAttrMatch" where
  "compileAttrMatch a path =
     rbind (resolveAttr (am_Name a) (am_Vendor a) (am_Code a) path) (\<lambda>(def, key).
       if ad_Secret def \<or> ad_Name def = ''Message-Authenticator'' then Inl (yamlAt path ''attribute is not a named policy match key'')
       else if \<not> ad_allowReq def \<and> am_Vendor a = 0
       then Inl (yamlAt path ''attribute is not legal as an Access-Request match key'')
       else
         (let label = (if ak_Name key = '''' then attrLabel key else ak_Name key);
              out = \<lparr>cam_key = key, cam_label = label, cam_op = am_Op a, cam_equals = None\<rparr>
          in if am_Op a = ''present'' \<or> am_Op a = ''absent'' then
               (if am_Value a \<noteq> '''' \<or> am_ValueHex a \<noteq> '''' then Inl (yamlAt path ''present and absent matches must not set value'')
                else Inr out)
             else if am_Op a = ''equals'' then
               rbind (parseTypedValue def key (am_Value a) (am_ValueHex a) path) (\<lambda>tv. Inr (out\<lparr>cam_equals := Some tv\<rparr>))
             else Inl (yamlAt (path @ ''.op'') ''op must be equals, present, or absent'')))"

fun attrsLoop :: "string \<Rightarrow> nat \<Rightarrow> RADIUSAttrMatch list \<Rightarrow> Error + compiledAttrMatch list" where
  "attrsLoop path i [] = Inr []"
| "attrsLoop path i (a # as) =
     rbind (compileAttrMatch a (indexPath path i)) (\<lambda>c. rbind (attrsLoop path (i + 1) as) (\<lambda>cs. Inr (c # cs)))"

definition compileMatch :: "RADIUSMatch \<Rightarrow> string \<Rightarrow> Error + compiledMatch" where
  "compileMatch m path =
     (if (case rm_Method m of None \<Rightarrow> False | Some v \<Rightarrow> \<not> AuthMethod_Valid v)
      then Inl (yamlAt (path @ ''.method'') ''authentication method must be password, pap, chap, mschapv1, mschapv2, or eap'')
      else rbind (attrsLoop (path @ ''.attributes'') 0 (rm_Attributes m)) (\<lambda>cs.
             Inr \<lparr>cm_groupsAny = rm_GroupsAny m, cm_method = rm_Method m, cm_attrs = cs\<rparr>))"

record compiledReplyAttr =
  cra_def :: attrDef
  cra_key :: AttrKey
  cra_attr :: Typed

definition compileReplyAttr :: "RADIUSReplyAttr \<Rightarrow> string \<Rightarrow> Error + compiledReplyAttr" where
  "compileReplyAttr a path =
     rbind (resolveAttr (ra_Name a) (ra_Vendor a) (ra_Code a) path) (\<lambda>(def, key).
       if ad_Secret def \<or> ad_ServerOwned def then Inl (yamlAt path ''attribute is not a policy reply attribute'')
       else rbind (parseTypedValue def key (ra_Value a) (ra_ValueHex a) path) (\<lambda>tv.
              Inr \<lparr>cra_def = def, cra_key = key, cra_attr = tv\<rparr>))"

fun replyAttrsLoop :: "string \<Rightarrow> nat \<Rightarrow> RADIUSReplyAttr list \<Rightarrow> Error + compiledReplyAttr list" where
  "replyAttrsLoop path i [] = Inr []"
| "replyAttrsLoop path i (a # as) =
     rbind (compileReplyAttr a (indexPath path i)) (\<lambda>c. rbind (replyAttrsLoop path (i + 1) as) (\<lambda>cs. Inr (c # cs)))"

type_synonym profiles = "string \<rightharpoonup> compiledReplyAttr list"

fun compileReplyProfiles :: "RADIUSReplyProfile list \<Rightarrow> profiles \<Rightarrow> Error + profiles" where
  "compileReplyProfiles [] out = Inr out"
| "compileReplyProfiles (p # ps) out =
     rbind (replyAttrsLoop (''radius_reply_profiles.'' @ rpf_ID p @ ''.attributes'') 0 (rpf_Attributes p)) (\<lambda>as.
       compileReplyProfiles ps (out(rpf_ID p \<mapsto> as)))"

text \<open>
  Merging reply profiles: the attributes of one profile, and the profiles in order, with the single-valued
  keys seen so far and the profile each came from.
\<close>

fun mergeAttrs ::
  "bool \<Rightarrow> string \<Rightarrow> string \<Rightarrow> compiledReplyAttr list \<Rightarrow> (AttrKey \<rightharpoonup> string) \<Rightarrow> TypedSet \<Rightarrow> Error + (AttrKey \<rightharpoonup> string) \<times> TypedSet" where
  "mergeAttrs reject i path [] seen out = Inr (seen, out)"
| "mergeAttrs reject i path (a # as) seen out =
     (let at = path @ ''.reply_profiles''
      in if \<not> reject \<and> \<not> ad_allowAccept (cra_def a) \<and> ak_Vendor (cra_key a) = 0
         then Inl (yamlAt at ''attribute is not legal in Access-Accept'')
         else if reject \<and> (ak_Vendor (cra_key a) \<noteq> 0 \<or> \<not> ad_allowReject (cra_def a))
         then Inl (yamlAt at ''deny rules may include only Access-Reject attributes (Reply-Message)'')
         else if ad_Cardinality (cra_def a) = CardinalitySingle then
           (case seen (cra_key a) of
              Some prev \<Rightarrow>
                Inl (yamlAt at (''duplicate single-cardinality attribute '' @ ak_Name (cra_key a) @ '' from profiles '' @ prev @ '' and '' @ i))
            | None \<Rightarrow> mergeAttrs reject i path as (seen(cra_key a \<mapsto> i)) (out @ [cra_attr a]))
         else mergeAttrs reject i path as seen (out @ [cra_attr a]))"

fun mergeLoop ::
  "bool \<Rightarrow> string \<Rightarrow> profiles \<Rightarrow> nat \<Rightarrow> string list \<Rightarrow> (AttrKey \<rightharpoonup> string) \<Rightarrow> TypedSet \<Rightarrow> Error + TypedSet" where
  "mergeLoop reject path profs n [] seen out = Inr out"
| "mergeLoop reject path profs n (i # ids) seen out =
     (case profs i of
        None \<Rightarrow> Inl (WithPath (NewError CodeNotFound ''reply profile does not exist'') (indexPath (path @ ''.reply_profiles'') n))
      | Some as \<Rightarrow> rbind (mergeAttrs reject i path as seen out) (\<lambda>(seen, out). mergeLoop reject path profs (n + 1) ids seen out))"

definition mergeReplyProfiles :: "string \<Rightarrow> string list \<Rightarrow> profiles \<Rightarrow> string \<Rightarrow> Error + TypedSet" where
  "mergeReplyProfiles effect ids profs path =
     (if ids = [] then Inr [] else mergeLoop (effect = EffectDeny) path profs 0 ids Map.empty [])"

fun rulesCompileLoop :: "string \<Rightarrow> profiles \<Rightarrow> string list \<Rightarrow> RADIUSRule list \<Rightarrow> Error + compiledRule list" where
  "rulesCompileLoop i profs seen [] = Inr []"
| "rulesCompileLoop i profs seen (r # rs) =
     (if \<not> rul_Enabled r then rulesCompileLoop i profs seen rs
      else let base = ''radius_policies.'' @ i @ ''.rules.'' @ rul_ID r
           in if rul_ID r = '''' then Inl (yamlAt base ''id is required'')
              else if rul_ID r \<in> set seen then Inl (yamlAt base ''duplicate rule id'')
              else if rul_Effect r \<noteq> EffectPermit \<and> rul_Effect r \<noteq> EffectDeny
              then Inl (yamlAt (base @ ''.effect'') ''effect must be permit or deny'')
              else rbind (compileMatch (rul_Match r) (base @ ''.match'')) (\<lambda>m.
                   rbind (mergeReplyProfiles (rul_Effect r) (rul_ReplyProfiles r) profs base) (\<lambda>reply.
                   rbind (rulesCompileLoop i profs (rul_ID r # seen) rs) (\<lambda>cs.
                   Inr (\<lparr>crl_id = rul_ID r, crl_match = m, crl_effect = rul_Effect r, crl_reply = reply\<rparr> # cs)))))"

definition compilePolicy :: "RADIUSPolicy \<Rightarrow> profiles \<Rightarrow> Error + compiledPolicy" where
  "compilePolicy p profs =
     rbind (rulesCompileLoop (rp_ID p) profs [] (rp_Rules p)) (\<lambda>rules. Inr \<lparr>cp_id = rp_ID p, cp_rules = rules\<rparr>)"

fun policiesLoop :: "profiles \<Rightarrow> RADIUSPolicy list \<Rightarrow> (string \<rightharpoonup> compiledPolicy) \<Rightarrow> Error + (string \<rightharpoonup> compiledPolicy)" where
  "policiesLoop profs [] out = Inr out"
| "policiesLoop profs (p # ps) out =
     rbind (compilePolicy p profs) (\<lambda>cp.
       if out (rp_ID p) \<noteq> None then Inl (yamlAt (''radius_policies.'' @ rp_ID p) ''duplicate radius policy id'')
       else policiesLoop profs ps (out(rp_ID p \<mapsto> cp)))"

fun endpointsLoop ::
  "(string \<rightharpoonup> compiledPolicy) \<Rightarrow> CfgClient \<Rightarrow> ClientEndpoint list \<Rightarrow> (string \<rightharpoonup> radClient) \<Rightarrow> Error + (string \<rightharpoonup> radClient)" where
  "endpointsLoop pols c [] cls = Inr cls"
| "endpointsLoop pols c (ep # eps) cls =
     (case ep_RADIUS ep of
        None \<Rightarrow> endpointsLoop pols c eps cls
      | Some r \<Rightarrow>
          if ep_Protocol ep \<noteq> ''radius'' then endpointsLoop pols c eps cls
          else if rep_AccessPolicyID r \<noteq> '''' \<and> pols (rep_AccessPolicyID r) = None
          then Inl (WithPath (NewError CodeNotFound ''access_policy_id does not exist'') (''radius_policies.'' @ rep_AccessPolicyID r))
          else let binding = (case cls (cl_ID c) of Some b \<Rightarrow> b | None \<Rightarrow> \<lparr>rc_endpoints = [], rc_defaultGroupIDs = cl_DefaultGroupIDs c\<rparr>)
               in endpointsLoop pols c eps
                    (cls(cl_ID c \<mapsto> binding\<lparr>rc_endpoints := AList.update (ep_ID ep) (rep_AccessPolicyID r) (rc_endpoints binding)\<rparr>)))"

fun radClientsLoop ::
  "(string \<rightharpoonup> compiledPolicy) \<Rightarrow> CfgClient list \<Rightarrow> (string \<rightharpoonup> radClient) \<Rightarrow> Error + (string \<rightharpoonup> radClient)" where
  "radClientsLoop pols [] cls = Inr cls"
| "radClientsLoop pols (c # cs) cls =
     (if \<not> cl_Enabled c then radClientsLoop pols cs cls
      else rbind (endpointsLoop pols c (cl_Endpoints c) cls) (radClientsLoop pols cs))"

fun radGroupsLoop ::
  "(string \<rightharpoonup> compiledPolicy) \<Rightarrow> CfgGroup list \<Rightarrow> (string \<rightharpoonup> radGroup) \<Rightarrow> Error + (string \<rightharpoonup> radGroup)" where
  "radGroupsLoop pols [] gs = Inr gs"
| "radGroupsLoop pols (g # rest) gs =
     (if gr_RADIUSPolicyID g \<noteq> '''' \<and> pols (gr_RADIUSPolicyID g) = None
      then Inl (yamlAt (''groups.'' @ gr_ID g @ ''.radius_policy_id'') ''radius_policy_id does not exist'')
      else radGroupsLoop pols rest (gs(gr_ID g \<mapsto>
             \<lparr>rg_id = gr_ID g, rg_enabled = gr_Enabled g, rg_priority = gr_Priority g, rg_policyID = gr_RADIUSPolicyID g\<rparr>)))"

fun radUsersLoop ::
  "(string \<rightharpoonup> compiledPolicy) \<Rightarrow> CfgUser list \<Rightarrow> (string \<rightharpoonup> radUser) \<Rightarrow> Error + (string \<rightharpoonup> radUser)" where
  "radUsersLoop pols [] us = Inr us"
| "radUsersLoop pols (u # rest) us =
     (if us_RADIUSPolicyID u \<noteq> '''' \<and> pols (us_RADIUSPolicyID u) = None
      then Inl (yamlAt (''users.'' @ us_ID u @ ''.radius_policy_id'') ''radius_policy_id does not exist'')
      else radUsersLoop pols rest (us(us_ID u \<mapsto>
             \<lparr>ru_id = us_ID u, ru_enabled = us_Enabled u, ru_groupIDs = us_GroupIDs u, ru_policyID = us_RADIUSPolicyID u\<rparr>)))"

text \<open>\<open>CompileDocument\<close>, with \<open>Compile\<close> on its input taken from the document.\<close>

definition radius_CompileDocument :: "Document \<Rightarrow> Error + RadiusEngine" where
  "radius_CompileDocument doc =
     rbind (compileReplyProfiles (doc_RADIUSReplyProfiles doc) Map.empty) (\<lambda>profs.
     rbind (policiesLoop profs (doc_RADIUSPolicies doc) Map.empty) (\<lambda>pols.
     if doc_FallbackRADIUSPolicyID doc \<noteq> '''' \<and> pols (doc_FallbackRADIUSPolicyID doc) = None
     then Inl (WithPath (NewError CodeNotFound ''fallback_radius_policy_id does not exist'') ''fallback_radius_policy_id'')
     else rbind (radClientsLoop pols (doc_Clients doc) Map.empty) (\<lambda>cls.
          rbind (radGroupsLoop pols (doc_Groups doc) Map.empty) (\<lambda>gs.
          rbind (radUsersLoop pols (doc_Users doc) Map.empty) (\<lambda>us.
          Inr \<lparr>re_policies = pols, re_clients = cls, re_users = us, re_groups = gs, re_fallback = doc_FallbackRADIUSPolicyID doc\<rparr>)))))"

subsection \<open>Evaluation\<close>

definition radGroupRank :: "radGroup \<Rightarrow> int \<times> string" where
  "radGroupRank g = (rg_priority g, rg_id g)"

definition rad_effectiveGroups :: "RadiusEngine \<Rightarrow> string \<Rightarrow> string \<Rightarrow> radGroup list" where
  "rad_effectiveGroups e userID clientID =
     (let ids = (case re_users e userID of Some u \<Rightarrow> if ru_enabled u then addIDs [] (ru_groupIDs u) else [] | None \<Rightarrow> []);
          ids = (case re_clients e clientID of Some c \<Rightarrow> addIDs ids (rc_defaultGroupIDs c) | None \<Rightarrow> ids)
      in sort_key radGroupRank
           (concat (map (\<lambda>i. case re_groups e i of None \<Rightarrow> [] | Some g \<Rightarrow> if rg_enabled g then [g] else []) ids)))"

definition groupsIntersect :: "string list \<Rightarrow> string list \<Rightarrow> bool" where
  "groupsIntersect have want \<longleftrightarrow> list_ex (\<lambda>g. g \<noteq> '''' \<and> g \<in> set have) want"

definition typedEqual :: "Typed \<Rightarrow> Typed \<Rightarrow> bool" where
  "typedEqual got want \<longleftrightarrow>
     AttrKey_Equal (ty_Key got) (ty_Key want) \<and>
     (if ty_Kind want = KindInteger \<or> ty_Kind want = KindTime then ty_Uint got = ty_Uint want
      else if ty_Kind want = KindIPv4 \<or> ty_Kind want = KindIPv6 then Addr_IsValid (ty_Addr got) \<and> ty_Addr got = ty_Addr want
      else if length (ty_Raw want) > 0 \<or> ty_Kind want = KindString \<or> ty_Kind want = KindVSA then ty_Raw got = ty_Raw want
      else ty_Text got = ty_Text want)"

definition matchAttr :: "compiledAttrMatch \<Rightarrow> TypedSet \<Rightarrow> bool \<times> string" where
  "matchAttr a s =
     (if cam_op a = ''present''
      then (if \<not> TypedSet_Present s (cam_key a) then (False, ''attribute '' @ cam_label a @ '' not present'') else (True, ''matched''))
      else if cam_op a = ''absent''
      then (if TypedSet_Present s (cam_key a) then (False, ''attribute '' @ cam_label a @ '' present'') else (True, ''matched''))
      else if cam_op a = ''equals''
      then (case TypedSet_First s (cam_key a) of
              None \<Rightarrow> (False, ''attribute '' @ cam_label a @ '' equals mismatch'')
            | Some got \<Rightarrow>
                if \<not> typedEqual got (case cam_equals a of Some t \<Rightarrow> t | None \<Rightarrow> zeroTyped \<lparr>ak_Vendor = 0, ak_Code = 0, ak_Name = ''''\<rparr> ValueKind.KindUnknown)
                then (False, ''attribute '' @ cam_label a @ '' equals mismatch'') else (True, ''matched''))
      else (False, ''attribute '' @ cam_label a @ '' unsupported op''))"

fun matchAttrs :: "compiledAttrMatch list \<Rightarrow> TypedSet \<Rightarrow> bool \<times> string" where
  "matchAttrs [] s = (True, ''matched'')"
| "matchAttrs (a # as) s = (case matchAttr a s of (False, reason) \<Rightarrow> (False, reason) | (True, _) \<Rightarrow> matchAttrs as s)"

definition rad_matchRule :: "compiledRule \<Rightarrow> PolicyRequest \<Rightarrow> bool \<times> string" where
  "rad_matchRule r req =
     (let m = crl_match r
      in if length (cm_groupsAny m) > 0 \<and> \<not> groupsIntersect (par_Groups req) (cm_groupsAny m) then (False, ''groups_any mismatch'')
         else if (case cm_method m of None \<Rightarrow> False | Some v \<Rightarrow> par_Method req \<noteq> v) then (False, ''method mismatch'')
         else matchAttrs (cm_attrs m) (par_Attributes req))"

definition rad_newTrace :: "PolicyRequest \<Rightarrow> AccessTrace" where
  "rad_newTrace req =
     \<lparr>at_Evaluator = ''radius_access'', at_UserID = par_UserID req, at_ClientID = par_ClientID req, at_EndpointID = par_EndpointID req,
      at_Method = (if AuthMethod_Valid (par_Method req) then par_Method req else ''''), at_Groups = par_Groups req, at_Steps = [],
      at_Winner = None, at_Effect = '''', at_DefaultDeny = '''', at_Error = ''''\<rparr>"

definition rad_denyResult :: "AccessTrace \<Rightarrow> string \<Rightarrow> AccessResult" where
  "rad_denyResult tr reason =
     \<lparr>ares_Effect = EffectDeny, ares_ReplyAttributes = [],
      ares_Trace = tr\<lparr>at_DefaultDeny := reason, at_Winner := None, at_Effect := EffectDeny\<rparr>\<rparr>"

definition rad_errorResult :: "AccessTrace \<Rightarrow> string \<Rightarrow> AccessResult" where
  "rad_errorResult tr reason =
     \<lparr>ares_Effect = EffectError, ares_ReplyAttributes = [],
      ares_Trace = tr\<lparr>at_Error := reason, at_Winner := None, at_Effect := EffectError, at_DefaultDeny := ''''\<rparr>\<rparr>"

definition replyAttrLegal :: "bool \<Rightarrow> Typed \<Rightarrow> Error + unit" where
  "replyAttrLegal reject a =
     (if ak_Vendor (ty_Key a) \<noteq> 0 then
        (if reject then Inl (NewError CodeInvalidArgument ''deny rules may include only Access-Reject attributes (Reply-Message)'')
         else Inr ())
      else case pol_lookupCode (ak_Code (ty_Key a)) of
        None \<Rightarrow> Inl (NewError CodeInvalidArgument ''unknown RADIUS attribute code'')
      | Some def \<Rightarrow>
          if ad_Secret def \<or> ad_ServerOwned def then Inl (NewError CodeInvalidArgument ''attribute is not a policy reply attribute'')
          else if \<not> reject \<and> \<not> ad_allowAccept def then Inl (NewError CodeInvalidArgument ''attribute is not legal in Access-Accept'')
          else if reject \<and> \<not> ad_allowReject def
          then Inl (NewError CodeInvalidArgument ''deny rules may include only Access-Reject attributes (Reply-Message)'')
          else Inr ())"

definition CheckReplyLegal :: "string \<Rightarrow> TypedSet \<Rightarrow> Error + unit" where
  "CheckReplyLegal effect attrs =
     (if effect = EffectDeny then rbind (rmap (replyAttrLegal True) attrs) (\<lambda>_. Inr ())
      else if effect \<noteq> EffectPermit then Inr ()
      else rbind (rmap (replyAttrLegal False) attrs) (\<lambda>_. Inr ()))"

definition rad_matchedResult :: "AccessTrace \<Rightarrow> string \<Rightarrow> string \<Rightarrow> string \<Rightarrow> TypedSet \<Rightarrow> AccessResult" where
  "rad_matchedResult tr source ruleID effect reply =
     (case CheckReplyLegal effect reply of
        Inl _ \<Rightarrow> rad_errorResult tr ''illegal reply attributes''
      | Inr _ \<Rightarrow>
          \<lparr>ares_Effect = effect, ares_ReplyAttributes = reply,
           ares_Trace = tr\<lparr>at_Winner := Some \<lparr>aw_Source = source, aw_RuleID = ruleID, aw_Effect = effect\<rparr>, at_Effect := effect, at_DefaultDeny := ''''\<rparr>\<rparr>)"

definition rad_remark :: "PolicyRequest \<Rightarrow> string \<Rightarrow> compiledRule \<Rightarrow> AccessTrace \<Rightarrow> AccessTrace" where
  "rad_remark req source r tr =
     (case rad_matchRule r req of
        (matched, reason) \<Rightarrow>
          tr\<lparr>at_Steps := at_Steps tr @ [\<lparr>ast_Source = source, ast_RuleID = crl_id r, ast_Matched = matched, ast_Reason = reason\<rparr>]\<rparr>)"

text \<open>The rule loop of \<open>walk\<close>, and \<open>walk\<close>, which first looks the policy up.\<close>

fun rulesWalk :: "PolicyRequest \<Rightarrow> string \<Rightarrow> compiledRule list \<Rightarrow> AccessTrace \<Rightarrow> AccessTrace \<times> AccessResult option" where
  "rulesWalk req source [] tr = (tr, None)"
| "rulesWalk req source (r # rs) tr =
     (let tr = rad_remark req source r tr
      in if fst (rad_matchRule r req) then (tr, Some (rad_matchedResult tr source (crl_id r) (crl_effect r) (crl_reply r)))
         else rulesWalk req source rs tr)"

definition rad_walk :: "RadiusEngine \<Rightarrow> string \<Rightarrow> string \<Rightarrow> PolicyRequest \<Rightarrow> AccessTrace \<Rightarrow> AccessTrace \<times> AccessResult option" where
  "rad_walk e source policyID req tr =
     (case re_policies e policyID of
        None \<Rightarrow> (tr, Some (rad_errorResult tr ''compiled policy missing''))
      | Some p \<Rightarrow> rulesWalk req source (cp_rules p) tr)"

fun rad_walkGroups :: "RadiusEngine \<Rightarrow> radGroup list \<Rightarrow> PolicyRequest \<Rightarrow> AccessTrace \<Rightarrow> AccessTrace \<times> AccessResult option" where
  "rad_walkGroups e [] req tr = (tr, None)"
| "rad_walkGroups e (g # gs) req tr =
     (if rg_policyID g = '''' then rad_walkGroups e gs req tr
      else case rad_walk e (''group_policy:'' @ rg_policyID g) (rg_policyID g) req tr of
        (tr, Some res) \<Rightarrow> (tr, Some res)
      | (tr, None) \<Rightarrow> rad_walkGroups e gs req tr)"

text \<open>The policy of the client's endpoint; without an endpoint in the request the only one, if there is only one.\<close>

definition endpointPolicy :: "RadiusEngine \<Rightarrow> PolicyRequest \<Rightarrow> string" where
  "endpointPolicy e req =
     (case re_clients e (par_ClientID req) of
        None \<Rightarrow> ''''
      | Some b \<Rightarrow>
          if par_EndpointID req = '''' \<and> length (rc_endpoints b) = 1 then snd (hd (rc_endpoints b))
          else case map_of (rc_endpoints b) (par_EndpointID req) of None \<Rightarrow> '''' | Some pid \<Rightarrow> pid)"

definition thenWalk :: "AccessTrace \<times> AccessResult option \<Rightarrow> (AccessTrace \<Rightarrow> AccessTrace \<times> AccessResult option) \<Rightarrow> AccessTrace \<times> AccessResult option" where
  "thenWalk r f = (case r of (tr, Some res) \<Rightarrow> (tr, Some res) | (tr, None) \<Rightarrow> f tr)"

definition rad_Evaluate :: "RadiusEngine option \<Rightarrow> PolicyRequest \<Rightarrow> AccessResult" where
  "rad_Evaluate eng req =
     (case eng of
        None \<Rightarrow> rad_errorResult (rad_newTrace req) ''policy engine is not compiled''
      | Some e \<Rightarrow>
          if par_EndpointID req = '''' \<and> (case re_clients e (par_ClientID req) of Some b \<Rightarrow> length (rc_endpoints b) > 1 | None \<Rightarrow> False)
          then rad_errorResult (rad_newTrace req) ''endpoint is required for a client with multiple RADIUS endpoints''
          else
            let groups = rad_effectiveGroups e (par_UserID req) (par_ClientID req);
                req = (if re_users e (par_UserID req) \<noteq> None then req\<lparr>par_Groups := map rg_id groups\<rparr> else req);
                walked =
                  thenWalk (thenWalk (thenWalk
                    (case re_users e (par_UserID req) of
                       Some u \<Rightarrow> if ru_enabled u \<and> ru_policyID u \<noteq> ''''
                                 then rad_walk e (''user_policy:'' @ ru_policyID u) (ru_policyID u) req (rad_newTrace req)
                                 else (rad_newTrace req, None)
                     | None \<Rightarrow> (rad_newTrace req, None))
                    (rad_walkGroups e groups req))
                    (\<lambda>tr. if endpointPolicy e req \<noteq> ''''
                          then rad_walk e (''client_policy:'' @ endpointPolicy e req) (endpointPolicy e req) req tr else (tr, None)))
                    (\<lambda>tr. if re_fallback e \<noteq> '''' then rad_walk e ''fallback'' (re_fallback e) req tr else (tr, None))
            in (case walked of (tr, Some res) \<Rightarrow> res | (tr, None) \<Rightarrow> rad_denyResult tr ''no matching access rule''))"

end
