(* ===== verification/Config_Example.thy ===== *)
theory Config_Example
  imports Config_Types
begin

text \<open>
  A small configuration on which the theorems about configurations are evaluated: one RADIUS client
  with a UDP endpoint, a user without a policy of its own, and a policy that permits one group with a reply.
\<close>

definition wit_polLimits :: limits where
  "wit_polLimits = \<lparr>pl_maxArgs = 0, pl_maxArgBytes = 0, pl_maxCmdBytes = 0, pl_maxTraceSteps = 0\<rparr>"

definition wit_settings :: AAASettings where
  "wit_settings =
     \<lparr>set_IncludeSuccessfulAuthentication = True, set_IncludeFailedAuthentication = True, set_IncludeAuthorization = True,
      set_IncludeAccounting = True, set_MaxUsernameBytes = 0, set_MaxPortBytes = 0, set_MaxRemoteAddressBytes = 0,
      set_MaxAuthenticationRounds = 3, set_MaxAuthorizationArguments = 0, set_MaxArgumentBytes = 0\<rparr>"

definition wit_endpoint :: ClientEndpoint where
  "wit_endpoint =
     \<lparr>ep_ID = ''udp1'', ep_Protocol = ''radius'', ep_Transport = ''udp'', ep_Roles = [''access'', ''accounting''],
      ep_RADIUS = Some \<lparr>rep_SharedSecret = noRef\<lparr>ref_File := ''nas.secret''\<rparr>, rep_RequireMessageAuthenticator = True, rep_LimitProxyState = True,
        rep_AllowedAuthenticationMethods = [''pap''], rep_AccessPolicyID = ''lab'', rep_AcceptStatusTypes = []\<rparr>\<rparr>"

definition wit_client :: CfgClient where
  "wit_client =
     \<lparr>cl_ID = ''nas1'', cl_DisplayName = '''', cl_Priority = 10, cl_Enabled = True, cl_Labels = [], cl_AllowedMethods = [''pap''],
      cl_DefaultGroupIDs = [''staff''], cl_AcctEnabled = True, cl_AcceptStart = True, cl_AcceptStop = True, cl_AcceptWatchdog = True,
      cl_Match = \<lparr>mt_SourceCIDRs = [''10.0.0.0/8''], mt_Transports = [''udp''], mt_Mode = ''cidr'', mt_DNSSANs = [], mt_IPSANs = []\<rparr>,
      cl_Endpoints = [wit_endpoint]\<rparr>"

definition wit_group :: CfgGroup where
  "wit_group =
     \<lparr>gr_ID = ''staff'', gr_DisplayName = '''', gr_Priority = 10, gr_Enabled = True, gr_Labels = [], gr_Services = [], gr_CommandRules = [],
      gr_DefaultCommandAction = DecisionUnset, gr_RADIUSPolicyID = ''''\<rparr>"

definition wit_profile :: RADIUSReplyProfile where
  "wit_profile = \<lparr>rpf_ID = ''login'', rpf_Attributes = [\<lparr>ra_Name = ''Reply-Message'', ra_Vendor = 0, ra_Code = 0, ra_Value = ''hello'', ra_ValueHex = ''''\<rparr>]\<rparr>"

definition wit_policy :: RADIUSPolicy where
  "wit_policy =
     \<lparr>rp_ID = ''lab'', rp_Rules =
       [\<lparr>rul_ID = ''chap'', rul_Enabled = True, rul_Match = \<lparr>rm_GroupsAny = [], rm_Method = Some ''chap'', rm_Attributes = []\<rparr>,
         rul_Effect = ''deny'', rul_ReplyProfiles = []\<rparr>,
        \<lparr>rul_ID = ''staff'', rul_Enabled = True, rul_Match = \<lparr>rm_GroupsAny = [''staff''], rm_Method = None, rm_Attributes = []\<rparr>,
         rul_Effect = ''permit'', rul_ReplyProfiles = [''login'']\<rparr>]\<rparr>"

definition wit_radius_doc :: Document where
  "wit_radius_doc =
     \<lparr>doc_AllowShadowing = True, doc_ReloadOverlayBehavior = ''rebase'', doc_MaxUsers = 10, doc_MaxGroups = 10, doc_MaxClients = 10,
      doc_MaxAPITokens = 10, doc_Settings = wit_settings, doc_Limits = wit_polLimits, doc_Clients = [wit_client], doc_Groups = [wit_group],
      doc_Users = [], doc_BootstrapTokens = [], doc_FallbackRules = \<lparr>rs_Services = [], rs_CommandRules = []\<rparr>,
      doc_RADIUSPolicies = [wit_policy], doc_RADIUSReplyProfiles = [wit_profile], doc_FallbackRADIUSPolicyID = ''''\<rparr>"

end
