(* ===== verification/Client_Match.thy ===== *)
theory Client_Match
  imports Config_Validate Go_Ip Assoc_Table Config_Example
begin

text \<open>
  Client selection (\<open>internal/config/match.go\<close>, \<open>match_radius.go\<close>, \<open>match_radius_tls.go\<close>): indexes of the enabled clients for TACACS+, for a
  RADIUS role over UDP, and for a RADIUS role over TLS. A peer selects the client with the longest
  containing prefix, among those the smallest priority, and never one of several. Go iterates the
  maps in random order; the model keeps them in order of insertion and the properties do not
  depend on it. \<open>strings.EqualFold\<close> is the parameter \<open>eqf\<close>, a relation between strings.
\<close>

subsection \<open>Networks\<close>

definition maskOctet :: "nat \<Rightarrow> nat \<Rightarrow> byte" where
  "maskOctet n i = (if 8 * (i + 1) \<le> n then 0xFF else if 8 * i < n then NOT (drop_bit (n - 8 * i) 0xFF) else 0)"

definition CIDRMask :: "nat \<Rightarrow> nat \<Rightarrow> bytes" where
  "CIDRMask n octets = map (maskOctet n) [0..<octets]"

definition maskBytes :: "bytes \<Rightarrow> bytes \<Rightarrow> bytes" where
  "maskBytes ip m = map2 (AND) ip m"

text \<open>\<open>net.ParseCIDR\<close>: the masked network and the mask; an IPv4 network has four octets. The prefix length is returned too.\<close>

definition ParseCIDR :: "string \<Rightarrow> (bytes \<times> bytes \<times> nat) option" where
  "ParseCIDR s =
     (case CutChar (CHR ''/'') s of
        None \<Rightarrow> None
      | Some (addr, bits) \<Rightarrow>
          (case ParseAddr addr of
             None \<Rightarrow> None
           | Some (ip, zone) \<Rightarrow>
               if zone \<noteq> '''' \<or> bits = '''' \<or> \<not> list_all isDigit bits \<or> decValue bits > 8 * length ip
                 \<or> (length ip \<noteq> 4 \<and> length ip \<noteq> 16) then None
               else let n = decValue bits; m = CIDRMask n (length ip) in Some (maskBytes ip m, m, n)))"

record indexCIDR =
  cx_ip :: bytes
  cx_mask :: bytes
  cx_bits :: nat
  cx_v4 :: bool

definition indexNet :: "string \<Rightarrow> indexCIDR option" where
  "indexNet s =
     map_option (\<lambda>(ip, m, n).
       case IP_To4 ip of
         Some ip4 \<Rightarrow> \<lparr>cx_ip = ip4, cx_mask = m, cx_bits = n, cx_v4 = True\<rparr>
       | None \<Rightarrow> \<lparr>cx_ip = (case IP_To16 ip of Some x \<Rightarrow> x | None \<Rightarrow> []), cx_mask = m, cx_bits = n, cx_v4 = False\<rparr>) (ParseCIDR s)"

definition net_Contains :: "indexCIDR \<Rightarrow> bytes \<Rightarrow> bool" where
  "net_Contains c ip \<longleftrightarrow>
     (let nn = (case IP_To4 (cx_ip c) of Some x \<Rightarrow> x | None \<Rightarrow> cx_ip c);
          m = (if length (cx_mask c) = 16 \<and> length nn = 4 then drop 12 (cx_mask c) else cx_mask c);
          ip = (case IP_To4 ip of Some x \<Rightarrow> x | None \<Rightarrow> ip)
      in length m = length nn \<and> length ip = length nn \<and> maskBytes nn m = maskBytes ip m)"

definition canonicalizeIP :: "bytes \<Rightarrow> (bytes \<times> bool) option" where
  "canonicalizeIP ip =
     (case IP_To4 ip of Some v4 \<Rightarrow> Some (v4, True) | None \<Rightarrow> map_option (\<lambda>v6. (v6, False)) (IP_To16 ip))"

fun longestLoop :: "bytes \<Rightarrow> bool \<Rightarrow> indexCIDR list \<Rightarrow> nat option \<Rightarrow> nat option" where
  "longestLoop ip v4 [] best = best"
| "longestLoop ip v4 (c # cs) best =
     longestLoop ip v4 cs
       (if cx_v4 c \<noteq> v4 \<or> \<not> net_Contains c ip then best
        else if (case best of None \<Rightarrow> True | Some b \<Rightarrow> cx_bits c > b) then Some (cx_bits c) else best)"

definition longestContaining :: "indexCIDR list \<Rightarrow> bytes \<Rightarrow> bool \<Rightarrow> nat option" where
  "longestContaining cidrs ip v4 = longestLoop ip v4 cidrs None"

subsection \<open>Indexed clients\<close>

record indexClient =
  xc_id :: string
  xc_endpointID :: string
  xc_priority :: int
  xc_mode :: string
  xc_transports :: "string list"
  xc_cidrs :: "indexCIDR list"
  xc_dns :: "string list"
  xc_ips :: "bytes list"

record matchCandidate =
  mc_id :: string
  mc_priority :: int
  mc_prefix :: int

record CertIdentity =
  ci_DNSSANs :: "string list"
  ci_IPSANs :: "bytes list"

abbreviation (input) MatchCertificateOnly :: string where "MatchCertificateOnly \<equiv> ''certificate_only''"
abbreviation (input) TransportTLS :: string where "TransportTLS \<equiv> ''tls''"

definition ambiguousError :: "string \<Rightarrow> string \<Rightarrow> Error" where
  "ambiguousError a b =
     (case sort [a, b] of
        [x, y] \<Rightarrow> WithPath (NewError CodeClientMatchAmbiguous (''clients '' @ x @ '' and '' @ y @ '' are indistinguishable'')) ''clients''
      | _ \<Rightarrow> NewError CodeClientMatchAmbiguous '''')"

definition notFoundError :: Error where
  "notFoundError = WithPath (NewError CodeNotFound ''no client matches the peer'') ''clients''"

definition badPeerError :: Error where
  "badPeerError = WithPath (NewError CodeInvalidArgument ''peer address is not a valid IP'') ''clients''"

text \<open>The last part of the three \<open>Match\<close> functions: the longest prefix, then the smallest priority, then uniqueness.\<close>

definition selectCandidate :: "matchCandidate list \<Rightarrow> Error + string" where
  "selectCandidate cand =
     (let bestPrefix = fold (\<lambda>c b. if mc_prefix c > b then mc_prefix c else b) cand (- 1);
          final = filter (\<lambda>c. mc_prefix c < 0 \<or> mc_prefix c = bestPrefix) cand
      in case final of
           [] \<Rightarrow> Inl notFoundError
         | f # fs \<Rightarrow>
             (let bestPri = fold (\<lambda>c b. if mc_priority c < b then mc_priority c else b) fs (mc_priority f);
                  winners = sort (map mc_id (filter (\<lambda>c. mc_priority c = bestPri) final))
              in case winners of
                   [] \<Rightarrow> Inl notFoundError
                 | [w] \<Rightarrow> Inr w
                 | w1 # w2 # _ \<Rightarrow> Inl (ambiguousError w1 w2)))"

definition shareIdenticalCIDR :: "indexClient \<Rightarrow> indexClient \<Rightarrow> bool" where
  "shareIdenticalCIDR a b \<longleftrightarrow>
     list_ex (\<lambda>x. list_ex (\<lambda>y. cx_v4 x = cx_v4 y \<and> cx_bits x = cx_bits y \<and> IP_Equal (cx_ip x) (cx_ip y) \<and> cx_mask x = cx_mask y) (xc_cidrs b)) (xc_cidrs a)"

text \<open>\<open>checkAmbiguity\<close>: the pairs of clients in the order of their identifiers, up to the first ambiguous one.\<close>

fun allPairs :: "'a list \<Rightarrow> ('a \<times> 'a) list" where
  "allPairs [] = []"
| "allPairs (x # xs) = map (Pair x) xs @ allPairs xs"

definition checkPairs :: "(indexClient \<Rightarrow> indexClient \<Rightarrow> bool) \<Rightarrow> (string \<times> indexClient) list \<Rightarrow> Error + unit" where
  "checkPairs ambiguous byID =
     (case find (\<lambda>(a, b). ambiguous (snd a) (snd b)) (allPairs (sort_key fst byID)) of
        None \<Rightarrow> Inr ()
      | Some (a, b) \<Rightarrow> Inl (ambiguousError (xc_id (snd a)) (xc_id (snd b))))"

fun netsLoop :: "string \<Rightarrow> string list \<Rightarrow> Error + indexCIDR list" where
  "netsLoop path [] = Inr []"
| "netsLoop path (s # ss) =
     (case indexNet s of
        None \<Rightarrow> Inl (WithPath (NewError CodeInvalidArgument ''invalid CIDR'') (path @ ''.match.source_cidrs''))
      | Some c \<Rightarrow> rbind (netsLoop path ss) (\<lambda>cs. Inr (c # cs)))"

fun ipSANLoop :: "string \<Rightarrow> nat \<Rightarrow> string list \<Rightarrow> Error + bytes list" where
  "ipSANLoop path i [] = Inr []"
| "ipSANLoop path i (s # ss) =
     (case Option.bind (ParseAddr s) (\<lambda>(ip, zone). if zone = '''' then IP_To16 ip else None) of
        None \<Rightarrow> Inl (WithPath (NewError CodeInvalidArgument ''invalid IP address'') (indexPath (path @ ''.match.certificate.ip_sans'') i))
      | Some ip \<Rightarrow> rbind (ipSANLoop path (i + 1) ss) (\<lambda>ips. Inr (ip # ips)))"

definition parseStoredIPSAN :: "string list \<Rightarrow> string \<Rightarrow> Error + bytes list" where
  "parseStoredIPSAN vals path = ipSANLoop path 0 vals"

subsection \<open>RADIUS over UDP\<close>

definition radiusEndpoint :: "CfgClient \<Rightarrow> string \<Rightarrow> ClientEndpoint option" where
  "radiusEndpoint c transport =
     find (\<lambda>ep. ep_Protocol ep = ''radius'' \<and> ep_RADIUS ep \<noteq> None \<and> (transport = '''' \<or> ep_Transport ep = transport)) (cl_Endpoints c)"

definition endpointHasRole :: "ClientEndpoint \<Rightarrow> string \<Rightarrow> bool" where
  "endpointHasRole ep role \<longleftrightarrow> role \<in> set (ep_Roles ep)"

definition radiusIndexFromClient :: "CfgClient \<Rightarrow> ClientEndpoint \<Rightarrow> nat \<Rightarrow> Error + indexClient" where
  "radiusIndexFromClient c ep i =
     (let path = indexPath ''clients'' i
      in if length (mt_SourceCIDRs (cl_Match c)) = 0
         then Inl (WithPath (NewError CodeInvalidArgument ''RADIUS clients require match.source_cidrs'') (path @ ''.match.source_cidrs''))
         else rbind (netsLoop path (mt_SourceCIDRs (cl_Match c))) (\<lambda>nets.
                Inr \<lparr>xc_id = cl_ID c, xc_endpointID = ep_ID ep, xc_priority = cl_Priority c, xc_mode = '''', xc_transports = [],
                     xc_cidrs = nets, xc_dns = [], xc_ips = []\<rparr>))"

type_synonym clientIndex = "(string \<times> indexClient) list"

fun radiusIndexLoop :: "string \<Rightarrow> nat \<Rightarrow> CfgClient list \<Rightarrow> clientIndex \<Rightarrow> Error + clientIndex" where
  "radiusIndexLoop role i [] idx = Inr idx"
| "radiusIndexLoop role i (c # cs) idx =
     (if \<not> cl_Enabled c then radiusIndexLoop role (i + 1) cs idx
      else case radiusEndpoint c ''udp'' of
        None \<Rightarrow> radiusIndexLoop role (i + 1) cs idx
      | Some ep \<Rightarrow>
          if \<not> endpointHasRole ep role then radiusIndexLoop role (i + 1) cs idx
          else rbind (radiusIndexFromClient c ep i) (\<lambda>ic. radiusIndexLoop role (i + 1) cs (AList.update (cl_ID c) ic idx)))"

definition radiusPairAmbiguous :: "indexClient \<Rightarrow> indexClient \<Rightarrow> bool" where
  "radiusPairAmbiguous a b \<longleftrightarrow> xc_priority a = xc_priority b \<and> shareIdenticalCIDR a b"

text \<open>The carrier argument of \<open>CompileRADIUSIndex\<close> is \<open>radius_udp\<close> at every call.\<close>

definition CompileRADIUSIndex :: "CfgClient list \<Rightarrow> string \<Rightarrow> Error + clientIndex" where
  "CompileRADIUSIndex clients role =
     (if role \<notin> {''access'', ''accounting'', ''dynamic_authorization''}
      then Inl (NewError CodeInvalidArgument ''RADIUS index role must be access, accounting, or dynamic_authorization'')
      else rbind (radiusIndexLoop role 0 clients []) (\<lambda>idx.
           rbind (checkPairs radiusPairAmbiguous idx) (\<lambda>_. Inr idx)))"

definition candidate :: "indexClient \<Rightarrow> nat \<Rightarrow> matchCandidate" where
  "candidate ic n = \<lparr>mc_id = xc_id ic, mc_priority = xc_priority ic, mc_prefix = int n\<rparr>"

definition radiusCandidates :: "bytes \<Rightarrow> bool \<Rightarrow> clientIndex \<Rightarrow> matchCandidate list" where
  "radiusCandidates canon v4 idx =
     concat (map (\<lambda>(_, ic). case longestContaining (xc_cidrs ic) canon v4 of None \<Rightarrow> [] | Some n \<Rightarrow> [candidate ic n]) idx)"

definition endpointOf :: "clientIndex \<Rightarrow> string \<Rightarrow> string" where
  "endpointOf idx i = (case find (\<lambda>(_, ic). xc_id ic = i) idx of None \<Rightarrow> '''' | Some (_, ic) \<Rightarrow> xc_endpointID ic)"

definition RADIUSIndex_Match :: "clientIndex option \<Rightarrow> bytes \<Rightarrow> Error + string \<times> string" where
  "RADIUSIndex_Match index ip =
     (case index of
        None \<Rightarrow> Inl notFoundError
      | Some idx \<Rightarrow>
          (case canonicalizeIP ip of
             None \<Rightarrow> Inl badPeerError
           | Some (canon, v4) \<Rightarrow>
               rbind (selectCandidate (radiusCandidates canon v4 idx)) (\<lambda>w. Inr (w, endpointOf idx w))))"

subsection \<open>TACACS+\<close>

definition indexFromClient :: "CfgClient \<Rightarrow> nat \<Rightarrow> Error + indexClient" where
  "indexFromClient c i =
     (let path = indexPath ''clients'' i
      in rbind (parseStoredIPSAN (mt_IPSANs (cl_Match c)) path) (\<lambda>ips.
         rbind (netsLoop path (mt_SourceCIDRs (cl_Match c))) (\<lambda>nets.
           Inr \<lparr>xc_id = cl_ID c, xc_endpointID = '''', xc_priority = cl_Priority c, xc_mode = mt_Mode (cl_Match c),
                xc_transports = mt_Transports (cl_Match c), xc_cidrs = nets, xc_dns = mt_DNSSANs (cl_Match c), xc_ips = ips\<rparr>)))"

fun clientIndexLoop :: "nat \<Rightarrow> CfgClient list \<Rightarrow> clientIndex \<Rightarrow> Error + clientIndex" where
  "clientIndexLoop i [] idx = Inr idx"
| "clientIndexLoop i (c # cs) idx =
     (if \<not> cl_Enabled c \<or> mt_Transports (cl_Match c) = [] then clientIndexLoop (i + 1) cs idx
      else rbind (indexFromClient c i) (\<lambda>ic. clientIndexLoop (i + 1) cs (AList.update (cl_ID c) ic idx)))"

definition certSatisfied :: "(string \<Rightarrow> string \<Rightarrow> bool) \<Rightarrow> indexClient \<Rightarrow> CertIdentity option \<Rightarrow> bool" where
  "certSatisfied eqf ic cert =
     (if xc_dns ic = [] \<and> xc_ips ic = [] then True
      else case cert of
        None \<Rightarrow> False
      | Some ci \<Rightarrow>
          list_ex (\<lambda>want. list_ex (eqf want) (ci_DNSSANs ci)) (xc_dns ic) \<or>
          list_ex (\<lambda>want. list_ex (IP_Equal want) (ci_IPSANs ci)) (xc_ips ic))"

definition certsMayOverlap :: "(string \<Rightarrow> string \<Rightarrow> bool) \<Rightarrow> indexClient \<Rightarrow> indexClient \<Rightarrow> bool" where
  "certsMayOverlap eqf a b =
     (if xc_dns a = [] \<and> xc_ips a = [] then True
      else if xc_dns b = [] \<and> xc_ips b = [] then True
      else list_ex (\<lambda>x. list_ex (eqf x) (xc_dns b)) (xc_dns a) \<or> list_ex (\<lambda>x. list_ex (IP_Equal x) (xc_ips b)) (xc_ips a))"

definition pairAmbiguous :: "(string \<Rightarrow> string \<Rightarrow> bool) \<Rightarrow> indexClient \<Rightarrow> indexClient \<Rightarrow> bool" where
  "pairAmbiguous eqf a b \<longleftrightarrow>
     xc_priority a = xc_priority b \<and>
     list_ex (\<lambda>tr. \<not> (tr = TransportTLS \<and> \<not> certsMayOverlap eqf a b) \<and>
         (xc_mode a = MatchCertificateOnly \<or> xc_mode b = MatchCertificateOnly \<or> shareIdenticalCIDR a b))
       (filter (\<lambda>t. t \<in> set (xc_transports b)) (remdups (xc_transports a)))"

definition CompileClientIndex :: "(string \<Rightarrow> string \<Rightarrow> bool) \<Rightarrow> CfgClient list \<Rightarrow> Error + clientIndex" where
  "CompileClientIndex eqf clients =
     rbind (clientIndexLoop 0 clients []) (\<lambda>idx. rbind (checkPairs (pairAmbiguous eqf) idx) (\<lambda>_. Inr idx))"

definition certOnlyCandidate :: "indexClient \<Rightarrow> matchCandidate" where
  "certOnlyCandidate ic = \<lparr>mc_id = xc_id ic, mc_priority = xc_priority ic, mc_prefix = - 1\<rparr>"

definition clientCandidates ::
  "(string \<Rightarrow> string \<Rightarrow> bool) \<Rightarrow> string \<Rightarrow> bytes \<Rightarrow> bool \<Rightarrow> CertIdentity option \<Rightarrow> clientIndex \<Rightarrow> matchCandidate list" where
  "clientCandidates eqf transport canon v4 cert idx =
     concat (map (\<lambda>(_, ic).
       if transport \<notin> set (xc_transports ic) then []
       else if transport = TransportTLS \<and> \<not> certSatisfied eqf ic cert then []
       else if xc_mode ic = MatchCertificateOnly then [certOnlyCandidate ic]
       else case longestContaining (xc_cidrs ic) canon v4 of None \<Rightarrow> [] | Some n \<Rightarrow> [candidate ic n]) idx)"

definition ClientIndex_Match ::
  "(string \<Rightarrow> string \<Rightarrow> bool) \<Rightarrow> clientIndex option \<Rightarrow> string \<Rightarrow> bytes \<Rightarrow> CertIdentity option \<Rightarrow> Error + string" where
  "ClientIndex_Match eqf index transport ip cert =
     (case index of
        None \<Rightarrow> Inl notFoundError
      | Some idx \<Rightarrow>
          (case canonicalizeIP ip of
             None \<Rightarrow> Inl badPeerError
           | Some (canon, v4) \<Rightarrow> selectCandidate (clientCandidates eqf transport canon v4 cert idx)))"

subsection \<open>RADIUS over TLS\<close>

definition radiusCertFromClient :: "CfgClient \<Rightarrow> ClientEndpoint \<Rightarrow> nat \<Rightarrow> Error + indexClient" where
  "radiusCertFromClient c ep i =
     (let path = indexPath ''clients'' i;
          mode = (if mt_Mode (cl_Match c) = '''' then ''address_and_certificate'' else mt_Mode (cl_Match c))
      in if mode = ''address_and_certificate'' \<and> length (mt_SourceCIDRs (cl_Match c)) = 0
         then Inl (WithPath (NewError CodeInvalidArgument ''RADIUS clients with address_and_certificate require match.source_cidrs'')
                    (path @ ''.match.source_cidrs''))
         else rbind (parseStoredIPSAN (mt_IPSANs (cl_Match c)) path) (\<lambda>ips.
              rbind (netsLoop path (mt_SourceCIDRs (cl_Match c))) (\<lambda>nets.
                Inr \<lparr>xc_id = cl_ID c, xc_endpointID = ep_ID ep, xc_priority = cl_Priority c, xc_mode = mode, xc_transports = [],
                     xc_cidrs = nets, xc_dns = mt_DNSSANs (cl_Match c), xc_ips = ips\<rparr>)))"

fun radiusCertLoop :: "string \<Rightarrow> nat \<Rightarrow> CfgClient list \<Rightarrow> clientIndex \<Rightarrow> Error + clientIndex" where
  "radiusCertLoop role i [] idx = Inr idx"
| "radiusCertLoop role i (c # cs) idx =
     (if \<not> cl_Enabled c then radiusCertLoop role (i + 1) cs idx
      else case radiusEndpoint c ''tls'' of
        None \<Rightarrow> radiusCertLoop role (i + 1) cs idx
      | Some ep \<Rightarrow>
          if \<not> endpointHasRole ep role then radiusCertLoop role (i + 1) cs idx
          else rbind (radiusCertFromClient c ep i) (\<lambda>ic. radiusCertLoop role (i + 1) cs (AList.update (cl_ID c) ic idx)))"

definition radiusCertPairAmbiguous :: "(string \<Rightarrow> string \<Rightarrow> bool) \<Rightarrow> indexClient \<Rightarrow> indexClient \<Rightarrow> bool" where
  "radiusCertPairAmbiguous eqf a b \<longleftrightarrow>
     xc_priority a = xc_priority b \<and> certsMayOverlap eqf a b \<and>
     (xc_mode a = MatchCertificateOnly \<or> xc_mode b = MatchCertificateOnly \<or> shareIdenticalCIDR a b)"

definition CompileRADIUSCertIndex :: "(string \<Rightarrow> string \<Rightarrow> bool) \<Rightarrow> CfgClient list \<Rightarrow> string \<Rightarrow> Error + clientIndex" where
  "CompileRADIUSCertIndex eqf clients role =
     (if role \<notin> {''access'', ''accounting''}
      then Inl (NewError CodeInvalidArgument ''RADIUS cert index role must be access or accounting'')
      else rbind (radiusCertLoop role 0 clients []) (\<lambda>idx.
           rbind (checkPairs (radiusCertPairAmbiguous eqf) idx) (\<lambda>_. Inr idx)))"

definition hasUnconstrained :: "clientIndex \<Rightarrow> bool" where
  "hasUnconstrained idx \<longleftrightarrow> list_ex (\<lambda>(_, ic). xc_dns ic = [] \<and> xc_ips ic = []) idx"

definition radiusCertSatisfied :: "(string \<Rightarrow> string \<Rightarrow> bool) \<Rightarrow> indexClient \<Rightarrow> CertIdentity option \<Rightarrow> bool" where
  "radiusCertSatisfied eqf ic cert =
     (if xc_dns ic = [] \<and> xc_ips ic = [] then cert \<noteq> None else certSatisfied eqf ic cert)"

definition certCandidates ::
  "(string \<Rightarrow> string \<Rightarrow> bool) \<Rightarrow> bytes \<Rightarrow> CertIdentity option \<Rightarrow> clientIndex \<Rightarrow> matchCandidate list" where
  "certCandidates eqf ip cert idx =
     concat (map (\<lambda>(_, ic).
       if \<not> radiusCertSatisfied eqf ic cert then []
       else if xc_mode ic = MatchCertificateOnly then [certOnlyCandidate ic]
       else case canonicalizeIP ip of
         None \<Rightarrow> []
       | Some (canon, v4) \<Rightarrow>
           (case longestContaining (xc_cidrs ic) canon v4 of None \<Rightarrow> [] | Some n \<Rightarrow> [candidate ic n])) idx)"

definition RADIUSCertIndex_Match ::
  "(string \<Rightarrow> string \<Rightarrow> bool) \<Rightarrow> clientIndex option \<Rightarrow> bytes \<Rightarrow> CertIdentity option \<Rightarrow> Error + string \<times> string" where
  "RADIUSCertIndex_Match eqf index ip cert =
     (case index of
        None \<Rightarrow> Inl notFoundError
      | Some idx \<Rightarrow>
          if (case cert of None \<Rightarrow> True | Some ci \<Rightarrow> ci_DNSSANs ci = [] \<and> ci_IPSANs ci = [] \<and> \<not> hasUnconstrained idx)
          then Inl notFoundError
          else rbind (selectCandidate (certCandidates eqf ip cert idx)) (\<lambda>w. Inr (w, endpointOf idx w)))"

subsection \<open>Selection\<close>

lemma fold_max_props:
  fixes b :: int
  assumes "m = fold (\<lambda>c b. if f c > b then f c else b) xs b"
  shows "b \<le> m \<and> (\<forall>x \<in> set xs. f x \<le> m) \<and> (m = b \<or> m \<in> f ` set xs)"
  using assms by (induction xs arbitrary: b) (auto split: if_splits, fastforce+)

lemma fold_min_props:
  fixes b :: int
  assumes "m = fold (\<lambda>c b. if f c < b then f c else b) xs b"
  shows "m \<le> b \<and> (\<forall>x \<in> set xs. m \<le> f x) \<and> (m = b \<or> m \<in> f ` set xs)"
  using assms by (induction xs arbitrary: b) (auto split: if_splits, fastforce+)

text \<open>A candidate is best when no other has a longer prefix, or the same prefix and a smaller priority.\<close>

definition bestOf :: "matchCandidate list \<Rightarrow> matchCandidate \<Rightarrow> bool" where
  "bestOf cand c \<longleftrightarrow> c \<in> set cand \<and> (mc_prefix c < 0 \<or> (\<forall>d \<in> set cand. mc_prefix d \<le> mc_prefix c)) \<and>
     (\<forall>d \<in> set cand. (mc_prefix d < 0 \<or> (\<forall>e \<in> set cand. mc_prefix e \<le> mc_prefix d)) \<longrightarrow> mc_priority c \<le> mc_priority d)"

lemma selectCandidate_best:
  "\<exists>best. set best = {c. bestOf cand c} \<and> (best = [] \<longleftrightarrow> cand = []) \<and> length best \<le> length cand \<and>
     (distinct (map mc_id cand) \<longrightarrow> distinct (map mc_id best)) \<and>
     selectCandidate cand = (case sort (map mc_id best) of [] \<Rightarrow> Inl notFoundError | [w] \<Rightarrow> Inr w | w1 # w2 # _ \<Rightarrow> Inl (ambiguousError w1 w2))"
proof -
  define bp where "bp = fold (\<lambda>c b. if mc_prefix c > b then mc_prefix c else b) cand (- 1)"
  define fin where "fin = filter (\<lambda>c. mc_prefix c < 0 \<or> mc_prefix c = bp) cand"
  note bpp = fold_max_props [OF bp_def]
  have fin: "set fin = {c \<in> set cand. mc_prefix c < 0 \<or> (\<forall>d \<in> set cand. mc_prefix d \<le> mc_prefix c)}"
  proof -
    have "mc_prefix c < 0 \<or> mc_prefix c = bp \<longleftrightarrow> mc_prefix c < 0 \<or> (\<forall>d \<in> set cand. mc_prefix d \<le> mc_prefix c)" if "c \<in> set cand" for c
      using bpp that by (smt (verit) image_iff)
    then show ?thesis by (auto simp: fin_def)
  qed
  have ne: "fin = [] \<longleftrightarrow> cand = []"
  proof
    assume "fin = []"
    show "cand = []"
    proof (rule ccontr)
      assume "cand \<noteq> []"
      then obtain c where "c \<in> set cand" by (cases cand) auto
      with \<open>fin = []\<close> bpp have "bp \<in> mc_prefix ` set cand" by (auto simp: fin_def filter_empty_conv) (smt (verit, best))
      with \<open>fin = []\<close> show False by (auto simp: fin_def filter_empty_conv)
    qed
  qed (simp add: fin_def)
  show ?thesis
  proof (cases fin)
    case Nil
    then have "selectCandidate cand = Inl notFoundError" by (simp add: selectCandidate_def bp_def [symmetric] fin_def [symmetric] Let_def)
    with Nil ne show ?thesis by (intro exI [of _ "[]"]) (auto simp: bestOf_def)
  next
    case (Cons f fs)
    define pri where "pri = fold (\<lambda>c b. if mc_priority c < b then mc_priority c else b) fs (mc_priority f)"
    define best where "best = filter (\<lambda>c. mc_priority c = pri) fin"
    note prp = fold_min_props [OF pri_def]
    have "set best = {c. c \<in> set fin \<and> (\<forall>d \<in> set fin. mc_priority c \<le> mc_priority d)}"
      using prp by (auto simp: best_def Cons) (smt (verit) imageE)+
    then have "set best = {c. bestOf cand c}" by (auto simp: bestOf_def fin)
    moreover have "best \<noteq> []" using prp by (auto simp: best_def Cons filter_empty_conv)
    moreover have "selectCandidate cand = (case sort (map mc_id best) of [] \<Rightarrow> Inl notFoundError | [w] \<Rightarrow> Inr w | w1 # w2 # _ \<Rightarrow> Inl (ambiguousError w1 w2))"
      unfolding selectCandidate_def bp_def [symmetric] fin_def [symmetric] Let_def
      by (simp only: Cons list.case pri_def [symmetric]) (simp only: best_def Cons)
    moreover have "length best \<le> length cand" unfolding best_def fin_def by (meson le_trans length_filter_le)
    moreover have "distinct (map mc_id cand) \<longrightarrow> distinct (map mc_id best)" unfolding best_def fin_def by (auto intro: distinct_map_filter)
    ultimately show ?thesis using ne Cons by auto
  qed
qed

subsection \<open>Networks are canonical\<close>

text \<open>
  What a compiled network satisfies: the address is masked by the mask of its prefix length, in four octets or
  sixteen. An IPv4 network written in the mapped form has a sixteen-octet mask of at least 96 bits.
\<close>

definition netOK :: "indexCIDR \<Rightarrow> bool" where
  "netOK c \<longleftrightarrow>
     (if cx_v4 c
      then length (cx_ip c) = 4 \<and>
        (cx_bits c \<le> 32 \<and> cx_mask c = CIDRMask (cx_bits c) 4 \<and> maskBytes (cx_ip c) (cx_mask c) = cx_ip c \<or>
         96 \<le> cx_bits c \<and> cx_mask c = CIDRMask (cx_bits c) 16 \<and> maskBytes (cx_ip c) (drop 12 (cx_mask c)) = cx_ip c)
      else length (cx_ip c) = 16 \<and> IP_To4 (cx_ip c) = None \<and> cx_mask c = CIDRMask (cx_bits c) 16 \<and> maskBytes (cx_ip c) (cx_mask c) = cx_ip c)"

lemma length_CIDRMask [simp]: "length (CIDRMask n k) = k"
  by (simp add: CIDRMask_def)

lemma length_maskBytes [simp]: "length (maskBytes a b) = min (length a) (length b)"
  by (simp add: maskBytes_def)

lemma maskBytes_idem: "maskBytes (maskBytes ip m) m = maskBytes ip m"
  by (rule nth_equalityI) (auto simp: maskBytes_def and.assoc)

lemma drop_maskBytes: "drop k (maskBytes a b) = maskBytes (drop k a) (drop k b)"
  by (simp add: maskBytes_def drop_map drop_zip)

lemma maskOctet_full: "maskOctet n i AND 0xFF = 0xFF \<Longrightarrow> 8 * (i + 1) \<le> n"
proof (rule ccontr)
  assume a: "maskOctet n i AND 0xFF = 0xFF" and "\<not> 8 * (i + 1) \<le> n"
  then consider "n \<le> 8 * i" | k where "n - 8 * i = k" "0 < k" "k < 8" "8 * i < n" by fastforce
  then show False
  proof cases
    case 2
    then have "k \<in> {1, 2, 3, 4, 5, 6, 7}" by auto
    with a 2 show False by (auto simp: maskOctet_def split: if_splits)
  qed (use a in \<open>auto simp: maskOctet_def split: if_splits\<close>)
qed

lemma indexNet_OK:
  assumes "indexNet s = Some c"
  shows "netOK c"
proof -
  obtain ip n where ip: "length ip = 4 \<or> length ip = 16" "n \<le> 8 * length ip"
    and c: "c = (case IP_To4 (maskBytes ip (CIDRMask n (length ip))) of
         Some ip4 \<Rightarrow> \<lparr>cx_ip = ip4, cx_mask = CIDRMask n (length ip), cx_bits = n, cx_v4 = True\<rparr>
       | None \<Rightarrow> \<lparr>cx_ip = (case IP_To16 (maskBytes ip (CIDRMask n (length ip))) of Some x \<Rightarrow> x | None \<Rightarrow> []),
                  cx_mask = CIDRMask n (length ip), cx_bits = n, cx_v4 = False\<rparr>)"
  proof -
    from assms obtain ip m n where p: "ParseCIDR s = Some (ip, m, n)" by (auto simp: indexNet_def)
    then obtain raw where "length raw = 4 \<or> length raw = 16" "n \<le> 8 * length raw" "m = CIDRMask n (length raw)" "ip = maskBytes raw m"
      by (auto simp: ParseCIDR_def Let_def not_less split: option.splits prod.splits if_splits)
    with that assms p show ?thesis by (simp add: indexNet_def)
  qed
  let ?m = "CIDRMask n (length ip)" and ?net = "maskBytes ip (CIDRMask n (length ip))"
  show ?thesis
  proof (cases "length ip = 4")
    case True
    then show ?thesis using c ip by (simp add: IP_To4_def netOK_def maskBytes_idem)
  next
    case False
    then have l: "length ip = 16" using ip by simp
    show ?thesis
    proof (cases "take 12 ?net = v4Prefix")
      case True
      have "?net ! 11 = take 12 ?net ! 11" by (simp add: l)
      also have "\<dots> = 0xFF" by (simp add: True v4Prefix_def nth_append)
      finally have "ip ! 11 AND maskOctet n 11 = 0xFF" by (simp add: maskBytes_def CIDRMask_def l)
      then have "maskOctet n 11 AND 0xFF = 0xFF" by (metis and.assoc and.commute and.idem)
      then have "96 \<le> n" using maskOctet_full by force
      then show ?thesis using c l True maskBytes_idem [of ip ?m]
        by (simp add: IP_To4_def netOK_def drop_maskBytes [symmetric])
    next
      case False
      then show ?thesis using c l by (simp add: IP_To4_def IP_To16_def netOK_def maskBytes_idem)
    qed
  qed
qed

text \<open>Two networks of the same family and length that contain the same address are the same network.\<close>

lemma contains_unique:
  assumes "netOK a" "netOK b" "cx_v4 a = cx_v4 b" "cx_bits a = cx_bits b" "net_Contains a ip" "net_Contains b ip"
  shows "cx_ip a = cx_ip b" "cx_mask a = cx_mask b"
proof -
  define x where "x = (case IP_To4 ip of Some x \<Rightarrow> x | None \<Rightarrow> ip)"
  have net: "cx_ip c = maskBytes x (if length (cx_mask c) = 16 \<and> length (cx_ip c) = 4 then drop 12 (cx_mask c) else cx_mask c)"
    if "netOK c" "net_Contains c ip" for c
    using that by (auto simp: netOK_def net_Contains_def x_def IP_To4_def Let_def split: if_splits)
  have mask: "cx_mask a = cx_mask b" using assms(1-4) by (auto simp: netOK_def split: if_splits)
  moreover have "length (cx_ip a) = length (cx_ip b)" using assms(1-3) by (auto simp: netOK_def split: if_splits)
  ultimately show "cx_ip a = cx_ip b" "cx_mask a = cx_mask b" using net [OF assms(1,5)] net [OF assms(2,6)] by metis+
qed

lemma longestLoop_Some:
  "longestLoop ip v4 cs best = Some n \<Longrightarrow>
     best = Some n \<or> (\<exists>c \<in> set cs. cx_v4 c = v4 \<and> net_Contains c ip \<and> cx_bits c = n)"
  by (induction cs arbitrary: best) (auto split: if_splits option.splits)

lemma longest_Some:
  "longestContaining cs ip v4 = Some n \<Longrightarrow> \<exists>c \<in> set cs. cx_v4 c = v4 \<and> net_Contains c ip \<and> cx_bits c = n"
  using longestLoop_Some [of ip v4 cs None n] by (auto simp: longestContaining_def)

lemma share_of_same_prefix:
  assumes "longestContaining (xc_cidrs a) ip v4 = Some n" "longestContaining (xc_cidrs b) ip v4 = Some n"
    "list_all netOK (xc_cidrs a)" "list_all netOK (xc_cidrs b)"
  shows "shareIdenticalCIDR a b"
proof -
  from longest_Some [OF assms(1)] longest_Some [OF assms(2)] obtain x y where
    x: "x \<in> set (xc_cidrs a)" "cx_v4 x = v4" "net_Contains x ip" "cx_bits x = n" and
    y: "y \<in> set (xc_cidrs b)" "cx_v4 y = v4" "net_Contains y ip" "cx_bits y = n" by blast
  moreover have "IP_Equal (cx_ip x) (cx_ip y)" "cx_mask x = cx_mask y"
    using contains_unique [of x y ip] x y assms(3,4) by (auto simp: list_all_iff IP_Equal_def)
  ultimately show ?thesis unfolding shareIdenticalCIDR_def list_ex_iff by (intro bexI [of _ x] bexI [of _ y]) simp_all
qed

subsection \<open>Compiled indexes\<close>

text \<open>An index is keyed by the identifiers of its clients, and its networks are canonical.\<close>

definition indexOK :: "clientIndex \<Rightarrow> bool" where
  "indexOK = tbl_ok (\<lambda>i ic. xc_id ic = i \<and> list_all netOK (xc_cidrs ic))"

lemma netsLoop_OK: "netsLoop path ss = Inr cs \<Longrightarrow> list_all netOK cs"
  by (induction ss arbitrary: cs) (auto simp: rbind_eq_Inr indexNet_OK split: option.splits)

lemma indexOK_update: "indexOK idx \<Longrightarrow> xc_id ic = i \<Longrightarrow> list_all netOK (xc_cidrs ic) \<Longrightarrow> indexOK (AList.update i ic idx)"
  unfolding indexOK_def by (rule tbl_ok_update) simp_all

lemma radiusIndexFromClient_OK: "radiusIndexFromClient c ep i = Inr ic \<Longrightarrow> xc_id ic = cl_ID c \<and> xc_endpointID ic = ep_ID ep \<and> list_all netOK (xc_cidrs ic)"
  by (auto simp: radiusIndexFromClient_def Let_def rbind_eq_Inr netsLoop_OK split: if_splits)

text \<open>Every client of the index is an enabled one with an endpoint of the role.\<close>

definition fromClients :: "string \<Rightarrow> CfgClient list \<Rightarrow> clientIndex \<Rightarrow> bool" where
  "fromClients role cs idx \<longleftrightarrow>
     (\<forall>(i, ic) \<in> set idx. \<exists>c \<in> set cs. \<exists>ep. cl_ID c = i \<and> cl_Enabled c \<and> radiusEndpoint c ''udp'' = Some ep \<and> endpointHasRole ep role \<and> xc_endpointID ic = ep_ID ep)"

lemma radiusIndexLoop_OK:
  "radiusIndexLoop role i cs idx = Inr idx' \<Longrightarrow> indexOK idx \<Longrightarrow> fromClients role all idx \<Longrightarrow> set cs \<subseteq> set all \<Longrightarrow>
     indexOK idx' \<and> fromClients role all idx'"
proof (induction role i cs idx rule: radiusIndexLoop.induct)
  case (2 role i c cs idx)
  show ?case
  proof (cases "cl_Enabled c \<and> (\<exists>ep. radiusEndpoint c ''udp'' = Some ep \<and> endpointHasRole ep role)")
    case True
    then obtain ep ic where ep: "cl_Enabled c" "radiusEndpoint c ''udp'' = Some ep" "endpointHasRole ep role" and ic: "radiusIndexFromClient c ep i = Inr ic"
      and run: "radiusIndexLoop role (i + 1) cs (AList.update (cl_ID c) ic idx) = Inr idx'"
      using 2(5) by (auto simp: rbind_eq_Inr)
    have "indexOK (AList.update (cl_ID c) ic idx)" using indexOK_update 2(6) radiusIndexFromClient_OK [OF ic] by blast
    moreover have "fromClients role all (AList.update (cl_ID c) ic idx)"
      using set_update_subset [of "cl_ID c" ic idx] 2(7,8) ep radiusIndexFromClient_OK [OF ic] by (fastforce simp: fromClients_def)
    ultimately show ?thesis using 2(4) [OF _ ep(2) _ run] ep 2(8) by auto
  next
    case False
    then show ?thesis using 2 by (auto split: option.splits if_splits)
  qed
qed simp

lemma allPairs_mem: "x \<in> set xs \<Longrightarrow> y \<in> set xs \<Longrightarrow> x \<noteq> y \<Longrightarrow> (x, y) \<in> set (allPairs xs) \<or> (y, x) \<in> set (allPairs xs)"
  by (induction xs) auto

lemma checkPairs_OK:
  assumes "checkPairs ambiguous idx = Inr ()" "(i, a) \<in> set idx" "(j, b) \<in> set idx" "i \<noteq> j"
  shows "\<not> ambiguous a b \<or> \<not> ambiguous b a"
proof -
  have "find (\<lambda>(a, b). ambiguous (snd a) (snd b)) (allPairs (sort_key fst idx)) = None"
    using assms(1) by (auto simp: checkPairs_def split: option.splits)
  then have "\<forall>(a, b) \<in> set (allPairs (sort_key fst idx)). \<not> ambiguous (snd a) (snd b)" by (auto simp: find_None_iff)
  moreover have "((i, a), (j, b)) \<in> set (allPairs (sort_key fst idx)) \<or> ((j, b), (i, a)) \<in> set (allPairs (sort_key fst idx))"
    using assms(2-4) by (intro allPairs_mem) auto
  ultimately show ?thesis by fastforce
qed

subsection \<open>The selection interface\<close>

text \<open>
  What the three indexes share: a client offers at most one candidate, with its own identifier and priority, and
  two clients whose candidates cannot be told apart were refused when the index was compiled.
\<close>

locale peer_index =
  fixes cand :: "indexClient \<Rightarrow> matchCandidate option"
    and ambiguous :: "indexClient \<Rightarrow> indexClient \<Rightarrow> bool"
    and good :: "indexClient \<Rightarrow> bool"
  assumes cand_own: "cand ic = Some c \<Longrightarrow> mc_id c = xc_id ic \<and> mc_priority c = xc_priority ic"
    and clash: "good a \<Longrightarrow> good b \<Longrightarrow> cand a = Some c \<Longrightarrow> cand b = Some d \<Longrightarrow> mc_priority c = mc_priority d \<Longrightarrow>
      mc_prefix c < 0 \<or> mc_prefix d < 0 \<or> mc_prefix c = mc_prefix d \<Longrightarrow> ambiguous a b"
begin

definition offers :: "clientIndex \<Rightarrow> matchCandidate list" where
  "offers idx = concat (map (\<lambda>(_, ic). case cand ic of None \<Rightarrow> [] | Some c \<Rightarrow> [c]) idx)"

lemma offers_mem: "c \<in> set (offers idx) \<longleftrightarrow> (\<exists>i ic. (i, ic) \<in> set idx \<and> cand ic = Some c)"
  by (force simp: offers_def split: option.splits)

lemma offers_distinct:
  assumes "tbl_ok (\<lambda>i ic. xc_id ic = i \<and> good ic) idx"
  shows "distinct (map mc_id (offers idx))"
proof -
  have ids: "map mc_id (offers idx) = map fst (filter (\<lambda>(_, ic). cand ic \<noteq> None) idx)" if "\<forall>(i, ic) \<in> set idx. xc_id ic = i"
    using that by (induction idx) (auto simp: offers_def dest: cand_own split: option.splits)
  have d: "distinct (map fst idx)" and keys: "\<forall>(i, ic) \<in> set idx. xc_id ic = i" using assms by (auto simp: tbl_ok_def)
  show ?thesis unfolding ids [OF keys] using d by (rule distinct_map_filter)
qed

lemma best_unique:
  assumes ok: "tbl_ok (\<lambda>i ic. xc_id ic = i \<and> good ic) idx" and pairs: "checkPairs ambiguous idx = Inr ()"
    and best: "bestOf (offers idx) c" "bestOf (offers idx) d"
  shows "c = d"
proof -
  obtain i a where a: "(i, a) \<in> set idx" "cand a = Some c" using best(1) by (auto simp: bestOf_def offers_mem)
  obtain j b where b: "(j, b) \<in> set idx" "cand b = Some d" using best(2) by (auto simp: bestOf_def offers_mem)
  have pri: "mc_priority c = mc_priority d" using best unfolding bestOf_def by (intro antisym) blast+
  have pre: "mc_prefix c < 0 \<or> mc_prefix d < 0 \<or> mc_prefix c = mc_prefix d"
    using best unfolding bestOf_def by (meson antisym)
  have "good a" "good b" using ok a(1) b(1) by (auto simp: tbl_ok_def)
  then have "ambiguous a b" "ambiguous b a" using clash a(2) b(2) pri pre by (metis, metis)
  then have "i = j" using checkPairs_OK [OF pairs a(1) b(1)] by blast
  then have "a = b" using ok a(1) b(1) by (auto simp: tbl_ok_def dest: eq_key_imp_eq_value)
  then show ?thesis using a b by simp
qed

lemma select_unique:
  assumes ok: "tbl_ok (\<lambda>i ic. xc_id ic = i \<and> good ic) idx" and pairs: "checkPairs ambiguous idx = Inr ()"
  shows "case selectCandidate (offers idx) of
      Inl e \<Rightarrow> e = notFoundError \<and> (\<forall>(i, ic) \<in> set idx. cand ic = None)
    | Inr w \<Rightarrow> \<exists>ic c. (w, ic) \<in> set idx \<and> cand ic = Some c \<and> bestOf (offers idx) c \<and>
        (\<forall>(j, jc) \<in> set idx. \<forall>d. j \<noteq> w \<longrightarrow> cand jc = Some d \<longrightarrow> \<not> bestOf (offers idx) d)"
proof -
  let ?cand = "offers idx"
  obtain best where best0: "set best = {c. bestOf ?cand c} \<and> (best = [] \<longleftrightarrow> ?cand = []) \<and> length best \<le> length ?cand \<and>
     (distinct (map mc_id ?cand) \<longrightarrow> distinct (map mc_id best)) \<and>
     selectCandidate ?cand = (case sort (map mc_id best) of [] \<Rightarrow> Inl notFoundError | [w] \<Rightarrow> Inr w | w1 # w2 # _ \<Rightarrow> Inl (ambiguousError w1 w2))"
    using selectCandidate_best [of ?cand] by (rule exE)
  have best: "set best = {c. bestOf ?cand c}" "best = [] \<longleftrightarrow> ?cand = []" "distinct (map mc_id best)"
    and sel: "selectCandidate ?cand = (case sort (map mc_id best) of [] \<Rightarrow> Inl notFoundError | [w] \<Rightarrow> Inr w | w1 # w2 # _ \<Rightarrow> Inl (ambiguousError w1 w2))"
    using best0 offers_distinct [OF ok] by simp_all
  show ?thesis
  proof (cases best rule: remdups_adj.cases)
    case 1
    have "cand ic = None" if "(i, ic) \<in> set idx" for i ic
    proof (cases "cand ic")
      case (Some c)
      then have "c \<in> set ?cand" using that unfolding offers_mem by blast
      with best(2) 1 show ?thesis by simp
    qed
    then show ?thesis using sel 1 by auto
  next
    case (2 c)
    then have c: "bestOf ?cand c" using best(1) by auto
    then obtain w ic where w: "(w, ic) \<in> set idx" "cand ic = Some c" by (auto simp: bestOf_def offers_mem)
    have key: "xc_id jc = j" if "(j, jc) \<in> set idx" for j jc using ok that by (auto simp: tbl_ok_def)
    have "\<not> bestOf ?cand d" if j: "(j, jc) \<in> set idx" "j \<noteq> w" "cand jc = Some d" for j jc d
      using best_unique [OF ok pairs _ c, of d] cand_own [OF j(3)] cand_own [OF w(2)] key [OF j(1)] key [OF w(1)] j(2) by metis
    then show ?thesis using sel 2 w c cand_own [OF w(2)] key [OF w(1)] by (auto intro!: exI [of _ ic])
  next
    case (3 c d rest)
    then have "c = d" using best_unique [OF ok pairs] best(1) by (metis (mono_tags) list.set_intros mem_Collect_eq)
    then show ?thesis using best(3) 3 by simp
  qed
qed

end

definition netsOK :: "indexClient \<Rightarrow> bool" where
  "netsOK ic \<longleftrightarrow> list_all netOK (xc_cidrs ic)"

interpretation udp: peer_index "\<lambda>ic. map_option (candidate ic) (longestContaining (xc_cidrs ic) canon v4)" radiusPairAmbiguous netsOK
  for canon v4
proof unfold_locales
  fix ic c assume "map_option (candidate ic) (longestContaining (xc_cidrs ic) canon v4) = Some c"
  then show "mc_id c = xc_id ic \<and> mc_priority c = xc_priority ic" by (auto simp: candidate_def)
next
  fix a b c d
  assume "netsOK a" "netsOK b" "map_option (candidate a) (longestContaining (xc_cidrs a) canon v4) = Some c"
    "map_option (candidate b) (longestContaining (xc_cidrs b) canon v4) = Some d" "mc_priority c = mc_priority d"
    "mc_prefix c < 0 \<or> mc_prefix d < 0 \<or> mc_prefix c = mc_prefix d"
  then show "radiusPairAmbiguous a b"
    by (auto simp: candidate_def netsOK_def radiusPairAmbiguous_def intro: share_of_same_prefix)
qed

definition legacyCand :: "bytes \<Rightarrow> bool \<Rightarrow> indexClient \<Rightarrow> matchCandidate option" where
  "legacyCand canon v4 ic =
     (if ''legacy'' \<notin> set (xc_transports ic) then None
      else if xc_mode ic = MatchCertificateOnly then Some (certOnlyCandidate ic)
      else map_option (candidate ic) (longestContaining (xc_cidrs ic) canon v4))"

interpretation legacy: peer_index "legacyCand canon v4" "pairAmbiguous eqf" netsOK
  for canon v4 eqf
proof unfold_locales
  fix ic c assume "legacyCand canon v4 ic = Some c"
  then show "mc_id c = xc_id ic \<and> mc_priority c = xc_priority ic" by (auto simp: legacyCand_def candidate_def certOnlyCandidate_def split: if_splits)
next
  fix a b c d
  assume a: "netsOK a" "netsOK b" "legacyCand canon v4 a = Some c" "legacyCand canon v4 b = Some d" "mc_priority c = mc_priority d"
    "mc_prefix c < 0 \<or> mc_prefix d < 0 \<or> mc_prefix c = mc_prefix d"
  then have tr: "''legacy'' \<in> set (xc_transports a)" "''legacy'' \<in> set (xc_transports b)" "xc_priority a = xc_priority b"
    by (auto simp: legacyCand_def candidate_def certOnlyCandidate_def split: if_splits)
  have "xc_mode a = MatchCertificateOnly \<or> xc_mode b = MatchCertificateOnly \<or> shareIdenticalCIDR a b"
    using a by (auto simp: legacyCand_def candidate_def certOnlyCandidate_def netsOK_def split: if_splits intro: share_of_same_prefix)
  then show "pairAmbiguous eqf a b" using tr by (auto simp: pairAmbiguous_def list_ex_iff)
qed

lemma udp_offers: "udp.offers canon v4 idx = radiusCandidates canon v4 idx"
  unfolding udp.offers_def radiusCandidates_def by (intro arg_cong [where f = concat] map_cong refl) (auto split: option.splits)

lemma legacy_offers: "legacy.offers canon v4 idx = clientCandidates eqf ''legacy'' canon v4 cert idx"
  unfolding legacy.offers_def clientCandidates_def by (intro arg_cong [where f = concat] map_cong refl) (auto simp: legacyCand_def split: option.splits)

lemma indexOK_good: "indexOK idx \<Longrightarrow> tbl_ok (\<lambda>i ic. xc_id ic = i \<and> netsOK ic) idx"
  by (simp add: indexOK_def netsOK_def)

lemma radiusCandidates_mem:
  "c \<in> set (radiusCandidates canon v4 idx) \<longleftrightarrow>
     (\<exists>i ic n. (i, ic) \<in> set idx \<and> longestContaining (xc_cidrs ic) canon v4 = Some n \<and> c = candidate ic n)"
  by (force simp: radiusCandidates_def split: option.splits)

lemma endpointOf_client:
  assumes "indexOK idx" "(w, ic) \<in> set idx"
  shows "endpointOf idx w = xc_endpointID ic"
proof -
  have fst_hit: "find (\<lambda>(_, ic). xc_id ic = w) idx = Some (w, ic)" if "distinct (map fst idx)" "\<forall>(i, ic) \<in> set idx. xc_id ic = i"
    using that assms(2) by (induction idx) force+
  have d: "distinct (map fst idx)" and keys: "\<forall>(i, ic) \<in> set idx. xc_id ic = i" using assms(1) by (auto simp: indexOK_def tbl_ok_def)
  show ?thesis unfolding endpointOf_def fst_hit [OF d keys] by simp
qed

lemma best_beats:
  assumes "bestOf (radiusCandidates canon v4 idx) (candidate ic n)" "\<not> bestOf (radiusCandidates canon v4 idx) (candidate jc k)"
    "candidate jc k \<in> set (radiusCandidates canon v4 idx)"
  shows "k < n \<or> k = n \<and> xc_priority ic < xc_priority jc"
proof -
  have le: "\<And>d. d \<in> set (radiusCandidates canon v4 idx) \<Longrightarrow> mc_prefix d \<le> int n"
    using assms(1) by (auto simp: bestOf_def candidate_def)
  have "k \<le> n" using le [OF assms(3)] by (simp add: candidate_def)
  moreover have "xc_priority ic < xc_priority jc" if "k = n"
  proof (rule ccontr)
    assume "\<not> xc_priority ic < xc_priority jc"
    then have "bestOf (radiusCandidates canon v4 idx) (candidate jc k)"
      using assms(1,3) le that by (force simp: bestOf_def candidate_def)
    with assms(2) show False by simp
  qed
  ultimately show ?thesis by linarith
qed

text \<open>
  Property C28. A RADIUS peer selects at most one client. In an index that compiled, matching an address never ends
  in an ambiguity: it finds no client exactly when no network of an indexed client contains the
  address; otherwise it selects an enabled client with a UDP endpoint of the role, and its endpoint,
  whose longest containing prefix is the longest of all clients and whose priority is
  strictly smaller than that of every other client with a prefix of that length.
\<close>

theorem radius_client_unique:
  assumes "CompileRADIUSIndex clients role = Inr idx" and "canonicalizeIP ip = Some (canon, v4)"
  shows "case RADIUSIndex_Match (Some idx) ip of
      Inl e \<Rightarrow> e = notFoundError \<and> (\<forall>(i, ic) \<in> set idx. longestContaining (xc_cidrs ic) canon v4 = None)
    | Inr (w, endpoint) \<Rightarrow>
        (\<exists>c \<in> set clients. \<exists>ep. cl_ID c = w \<and> cl_Enabled c \<and> radiusEndpoint c ''udp'' = Some ep \<and> endpointHasRole ep role \<and> endpoint = ep_ID ep) \<and>
        (\<exists>ic n. (w, ic) \<in> set idx \<and> longestContaining (xc_cidrs ic) canon v4 = Some n \<and>
           (\<forall>(j, jc) \<in> set idx. \<forall>k. j \<noteq> w \<longrightarrow> longestContaining (xc_cidrs jc) canon v4 = Some k \<longrightarrow>
              k < n \<or> k = n \<and> xc_priority ic < xc_priority jc))"
proof -
  have loop: "radiusIndexLoop role 0 clients [] = Inr idx" and pairs: "checkPairs radiusPairAmbiguous idx = Inr ()"
    using assms(1) by (auto simp: CompileRADIUSIndex_def rbind_eq_Inr split: if_splits)
  have ok: "indexOK idx" and from_cl: "fromClients role clients idx"
    using radiusIndexLoop_OK [OF loop, of clients] by (auto simp: indexOK_def fromClients_def)
  note sel = udp.select_unique [OF indexOK_good [OF ok] pairs, of canon v4, unfolded udp_offers]
  show ?thesis
  proof (cases "selectCandidate (radiusCandidates canon v4 idx)")
    case (Inl e)
    then show ?thesis using sel assms(2) by (auto simp: RADIUSIndex_Match_def)
  next
    case (Inr w)
    then obtain ic n where w: "(w, ic) \<in> set idx" "longestContaining (xc_cidrs ic) canon v4 = Some n"
      and best: "bestOf (radiusCandidates canon v4 idx) (candidate ic n)"
      and other: "\<And>j jc k. (j, jc) \<in> set idx \<Longrightarrow> j \<noteq> w \<Longrightarrow> longestContaining (xc_cidrs jc) canon v4 = Some k \<Longrightarrow>
        \<not> bestOf (radiusCandidates canon v4 idx) (candidate jc k)"
      using sel by fastforce
    have match: "RADIUSIndex_Match (Some idx) ip = Inr (w, xc_endpointID ic)"
      using endpointOf_client [OF ok w(1)] Inr assms(2) by (simp add: RADIUSIndex_Match_def)
    have "k < n \<or> k = n \<and> xc_priority ic < xc_priority jc"
      if j: "(j, jc) \<in> set idx" "j \<noteq> w" "longestContaining (xc_cidrs jc) canon v4 = Some k" for j jc k
      using best_beats [OF best other [OF j]] radiusCandidates_mem [of "candidate jc k"] j by auto
    then show ?thesis using match w from_cl by (fastforce simp: fromClients_def)
  qed
qed


definition wit_peers :: "(string \<times> indexClient) list" where
  "wit_peers = (case CompileRADIUSIndex [wit_client] ''access'' of Inr idx \<Rightarrow> idx | Inl _ \<Rightarrow> [])"

theorem radius_client_unique_witness:
  "\<exists>c \<in> set [wit_client]. RADIUSIndex_Match (Some wit_peers) [10, 1, 2, 3] = Inr (cl_ID c, ''udp1'') \<and> cl_Enabled c"
proof -
  have "case CompileRADIUSIndex [wit_client] ''access'' of Inr _ \<Rightarrow> True | Inl _ \<Rightarrow> False" by code_simp
  then have idx: "CompileRADIUSIndex [wit_client] ''access'' = Inr wit_peers"
    by (auto simp: wit_peers_def split: sum.splits)
  have ip: "canonicalizeIP [10, 1, 2, 3] = Some ([10, 1, 2, 3], True)" by code_simp
  have "RADIUSIndex_Match (Some wit_peers) [10, 1, 2, 3] = Inr (''nas1'', ''udp1'')" by code_simp
  with radius_client_unique [OF idx ip] show ?thesis by auto
qed

end
