(* ===== verification/State_Manager.thy ===== *)
theory State_Manager
  imports Config_Validate Credentials Assoc_Table Radius_Policy Client_Match
begin

text \<open>
  The state manager (\<open>internal/state/manager.go\<close>, \<open>overlay.go\<close>, \<open>compile.go\<close>, \<open>patch.go\<close>): a baseline document,
  a runtime overlay of objects and tombstones over it, and the snapshot compiled from both. The
  four object kinds are kept by the same code written four times; the model has it once,
  polymorphic in the object, and one definition per kind. What the package only calls is
  the record \<open>compileEnv\<close>: the parts of validation that are parameters there (\<open>ce_ve\<close>), Unicode case
  folding (\<open>ce_equalFold\<close>), the dictionary, secret evaluation and hashing that come after the
  policy compilers (\<open>ce_attach\<close>), and the secret files (\<open>ce_lookup\<close>); the runs of a manager
  keep it fixed, so the secret files do not change between the compilations of one run.
\<close>

subsection \<open>Overlay\<close>

text \<open>An entry of the overlay is a tombstone or a live object; the other fields of the Go structure are unused then.\<close>

datatype 'o ovEntry = ovDeleted Tombstone ObjectMeta | ovLive 'o ObjectMeta

record tokenRecord =
  tk_ID :: string
  tk_Name :: string
  tk_Scopes :: "string list"
  tk_Enabled :: bool
  tk_ExpiresAt :: "int option"
  tk_HasDigest :: bool
  tk_Digest :: bytes

record overlay =
  ov_users :: "(string \<times> CfgUser ovEntry) list"
  ov_groups :: "(string \<times> CfgGroup ovEntry) list"
  ov_clients :: "(string \<times> CfgClient ovEntry) list"
  ov_tokens :: "(string \<times> tokenRecord ovEntry) list"
  ov_secrets :: "(string \<times> bytes) list"
  ov_fallback :: "RuleSet option"

definition newOverlay :: overlay where
  "newOverlay = \<lparr>ov_users = [], ov_groups = [], ov_clients = [], ov_tokens = [], ov_secrets = [], ov_fallback = None\<rparr>"

definition baselineUser :: "Document \<Rightarrow> string \<Rightarrow> CfgUser option" where
  "baselineUser doc i = find (\<lambda>u. us_ID u = i) (doc_Users doc)"

definition baselineGroup :: "Document \<Rightarrow> string \<Rightarrow> CfgGroup option" where
  "baselineGroup doc i = find (\<lambda>g. gr_ID g = i) (doc_Groups doc)"

definition baselineClient :: "Document \<Rightarrow> string \<Rightarrow> CfgClient option" where
  "baselineClient doc i = find (\<lambda>c. cl_ID c = i) (doc_Clients doc)"

definition baselineToken :: "Document \<Rightarrow> string \<Rightarrow> BootstrapToken option" where
  "baselineToken doc i = find (\<lambda>t. bt_ID t = i) (doc_BootstrapTokens doc)"

text \<open>The shape shared by \<open>liveUser\<close>, \<open>liveGroup\<close>, \<open>liveClient\<close> and \<open>liveToken\<close>.\<close>

definition liveObj :: "(string \<times> 'o ovEntry) list \<Rightarrow> 'o option \<Rightarrow> string \<Rightarrow> 'o option" where
  "liveObj ov base i =
     (case map_of ov i of
        Some (ovDeleted _ _) \<Rightarrow> None
      | Some (ovLive x _) \<Rightarrow> Some x
      | None \<Rightarrow> base)"

definition live_User :: "Document \<Rightarrow> overlay \<Rightarrow> string \<Rightarrow> CfgUser option" where
  "live_User base ov i = liveObj (ov_users ov) (baselineUser base i) i"

definition live_Group :: "Document \<Rightarrow> overlay \<Rightarrow> string \<Rightarrow> CfgGroup option" where
  "live_Group base ov i = liveObj (ov_groups ov) (baselineGroup base i) i"

definition live_Client :: "Document \<Rightarrow> overlay \<Rightarrow> string \<Rightarrow> CfgClient option" where
  "live_Client base ov i = liveObj (ov_clients ov) (baselineClient base i) i"

definition bootRecord :: "BootstrapToken \<Rightarrow> tokenRecord" where
  "bootRecord t =
     \<lparr>tk_ID = bt_ID t, tk_Name = bt_ID t, tk_Scopes = bt_Scopes t, tk_Enabled = True, tk_ExpiresAt = bt_ExpiresAt t,
      tk_HasDigest = SecretRef_Set (bt_Token t), tk_Digest = []\<rparr>"

definition live_Token :: "Document \<Rightarrow> overlay \<Rightarrow> string \<Rightarrow> tokenRecord option" where
  "live_Token base ov i = liveObj (ov_tokens ov) (map_option bootRecord (baselineToken base i)) i"

text \<open>Runtime secrets not referenced by a live overlay user are dropped.\<close>

definition liveRefs :: "(string \<times> CfgUser ovEntry) list \<Rightarrow> string list" where
  "liveRefs us =
     concat (map (\<lambda>(_, e). case e of
                              ovDeleted _ _ \<Rightarrow> []
                            | ovLive u _ \<Rightarrow> filter (\<lambda>k. k \<noteq> '''') [ref_MemoryID (us_Login u), ref_MemoryID (us_Enable u), ref_MemoryID (us_Challenge u)])
               us)"

definition pruneOverlaySecrets :: "overlay \<Rightarrow> overlay" where
  "pruneOverlaySecrets ov = ov\<lparr>ov_secrets := filter (\<lambda>(k, _). k \<in> set (liveRefs (ov_users ov))) (ov_secrets ov)\<rparr>"

subsection \<open>Metadata\<close>

record identityStamp =
  is_created :: int
  is_createdRev :: uint64
  is_updated :: int
  is_updatedRev :: uint64

type_synonym stamps = "(string \<times> identityStamp) list"

definition objKey :: "string \<Rightarrow> string \<Rightarrow> string" where
  "objKey kind i = kind @ ''/'' @ i"

definition touchStamp :: "uint64 \<Rightarrow> int \<Rightarrow> string \<Rightarrow> string \<Rightarrow> stamps \<Rightarrow> stamps" where
  "touchStamp rv now kind i born =
     (case map_of born (objKey kind i) of
        None \<Rightarrow> born
      | Some st \<Rightarrow> AList.update (objKey kind i) (st\<lparr>is_updated := now, is_updatedRev := rv\<rparr>) born)"

definition touchBaselineStamps :: "Document \<Rightarrow> uint64 \<Rightarrow> int \<Rightarrow> stamps \<Rightarrow> stamps" where
  "touchBaselineStamps base rv now born =
     (let touch = (\<lambda>kind ids born. foldl (\<lambda>b i. touchStamp rv now kind i b) born ids)
      in touch KindToken (map bt_ID (doc_BootstrapTokens base))
         (touch KindClient (map cl_ID (doc_Clients base))
         (touch KindGroup (map gr_ID (doc_Groups base))
         (touch KindUser (map us_ID (doc_Users base)) born))))"

definition configMeta ::
  "string \<Rightarrow> string \<Rightarrow> string \<Rightarrow> bool \<Rightarrow> (string \<times> string) list \<Rightarrow> uint64 \<Rightarrow> int \<Rightarrow> stamps \<Rightarrow> ObjectMeta \<times> stamps" where
  "configMeta kind i display enabled labels rv now born =
     (let (st, born) = (case map_of born (objKey kind i) of
             Some st \<Rightarrow> (st, born)
           | None \<Rightarrow> (let st = \<lparr>is_created = now, is_createdRev = rv, is_updated = now, is_updatedRev = rv\<rparr>
                     in (st, AList.update (objKey kind i) st born)))
      in (\<lparr>om_ID = i, om_Kind = kind, om_DisplayName = display, om_Source = SourceConfig, om_ShadowsSource = '''', om_Deleted = False,
           om_RevisionCreated = is_createdRev st, om_RevisionUpdated = is_updatedRev st, om_EffectiveRevision = rv,
           om_Enabled = enabled, om_Labels = labels, om_CreatedAt = Some (is_created st), om_UpdatedAt = Some (is_updated st)\<rparr>, born))"

definition newOverlayMeta ::
  "string \<Rightarrow> string \<Rightarrow> string \<Rightarrow> string \<Rightarrow> string \<Rightarrow> bool \<Rightarrow> (string \<times> string) list \<Rightarrow> uint64 \<Rightarrow> int \<Rightarrow> ObjectMeta option \<Rightarrow> ObjectMeta" where
  "newOverlayMeta kind i display source shadows enabled labels rv now prev =
     (let (created, createdRev) =
            (case prev of
               Some p \<Rightarrow> if om_RevisionCreated p \<noteq> 0 then (om_CreatedAt p, om_RevisionCreated p) else (Some now, rv)
             | None \<Rightarrow> (Some now, rv))
      in \<lparr>om_ID = i, om_Kind = kind, om_DisplayName = display, om_Source = source, om_ShadowsSource = shadows, om_Deleted = False,
          om_RevisionCreated = createdRev, om_RevisionUpdated = rv, om_EffectiveRevision = rv,
          om_Enabled = enabled, om_Labels = labels, om_CreatedAt = created, om_UpdatedAt = Some now\<rparr>)"

subsection \<open>Merging\<close>

record 'o effective =
  ef_Meta :: ObjectMeta
  ef_Obj :: 'o

text \<open>
  The shape shared by \<open>mergeUsers\<close>, \<open>mergeGroups\<close>, \<open>mergeClients\<close> and \<open>mergeTokens\<close>: the baseline in its
  order, each object replaced or dropped by its overlay entry, then the other overlay
  entries by identifier.
\<close>

fun mergeBase ::
  "('o \<Rightarrow> string) \<Rightarrow> ('o \<Rightarrow> stamps \<Rightarrow> ObjectMeta \<times> stamps) \<Rightarrow> uint64 \<Rightarrow> (string \<times> 'o ovEntry) list \<Rightarrow> 'o list \<Rightarrow> stamps
     \<Rightarrow> 'o effective list \<times> Tombstone list \<times> stamps" where
  "mergeBase ident meta rv ov [] born = ([], [], born)"
| "mergeBase ident meta rv ov (x # xs) born =
     (case map_of ov (ident x) of
        Some (ovDeleted t _) \<Rightarrow>
          (let (out, tombs, born) = mergeBase ident meta rv ov xs born in (out, t # tombs, born))
      | Some (ovLive y m) \<Rightarrow>
          (let (out, tombs, born) = mergeBase ident meta rv ov xs born
           in (\<lparr>ef_Meta = m\<lparr>om_EffectiveRevision := rv\<rparr>, ef_Obj = y\<rparr> # out, tombs, born))
      | None \<Rightarrow>
          (let (m, born) = meta x born;
               (out, tombs, born) = mergeBase ident meta rv ov xs born
           in (\<lparr>ef_Meta = m, ef_Obj = x\<rparr> # out, tombs, born)))"

fun mergeRest :: "uint64 \<Rightarrow> (string \<times> 'o ovEntry) list \<Rightarrow> string list \<Rightarrow> 'o effective list \<times> Tombstone list" where
  "mergeRest rv ov [] = ([], [])"
| "mergeRest rv ov (i # ids) =
     (let (out, tombs) = mergeRest rv ov ids
      in case map_of ov i of
           None \<Rightarrow> (out, tombs)
         | Some (ovDeleted t _) \<Rightarrow> (out, t # tombs)
         | Some (ovLive y m) \<Rightarrow> (\<lparr>ef_Meta = m\<lparr>om_EffectiveRevision := rv\<rparr>, ef_Obj = y\<rparr> # out, tombs))"

definition mergeObjs ::
  "('o \<Rightarrow> string) \<Rightarrow> ('o \<Rightarrow> stamps \<Rightarrow> ObjectMeta \<times> stamps) \<Rightarrow> uint64 \<Rightarrow> (string \<times> 'o ovEntry) list \<Rightarrow> 'o list \<Rightarrow> stamps
     \<Rightarrow> 'o effective list \<times> Tombstone list \<times> stamps" where
  "mergeObjs ident meta rv ov base born =
     (let (out, tombs, born) = mergeBase ident meta rv ov base born;
          ids = filter (\<lambda>i. i \<notin> set (map ident base)) (sort (map fst ov));
          (out', tombs') = mergeRest rv ov ids
      in (out @ out', tombs @ tombs', born))"

definition mergeUsers :: "Document \<Rightarrow> overlay \<Rightarrow> uint64 \<Rightarrow> int \<Rightarrow> stamps \<Rightarrow> CfgUser effective list \<times> Tombstone list \<times> stamps" where
  "mergeUsers base ov rv now =
     mergeObjs us_ID (\<lambda>u. configMeta KindUser (us_ID u) (us_DisplayName u) (us_Enabled u) (us_Labels u) rv now) rv
       (ov_users ov) (doc_Users base)"

definition mergeGroups :: "Document \<Rightarrow> overlay \<Rightarrow> uint64 \<Rightarrow> int \<Rightarrow> stamps \<Rightarrow> CfgGroup effective list \<times> Tombstone list \<times> stamps" where
  "mergeGroups base ov rv now =
     mergeObjs gr_ID (\<lambda>g. configMeta KindGroup (gr_ID g) (gr_DisplayName g) (gr_Enabled g) (gr_Labels g) rv now) rv
       (ov_groups ov) (doc_Groups base)"

definition mergeClients :: "Document \<Rightarrow> overlay \<Rightarrow> uint64 \<Rightarrow> int \<Rightarrow> stamps \<Rightarrow> CfgClient effective list \<times> Tombstone list \<times> stamps" where
  "mergeClients base ov rv now =
     mergeObjs cl_ID (\<lambda>c. configMeta KindClient (cl_ID c) (cl_DisplayName c) (cl_Enabled c) (cl_Labels c) rv now) rv
       (ov_clients ov) (doc_Clients base)"

text \<open>Of a token the overlay also keeps the digest, which \<open>mergeTokens\<close> returns beside the descriptors.\<close>

definition mergeTokens ::
  "Document \<Rightarrow> overlay \<Rightarrow> uint64 \<Rightarrow> int \<Rightarrow> stamps \<Rightarrow> tokenRecord effective list \<times> Tombstone list \<times> stamps" where
  "mergeTokens base ov rv now =
     mergeObjs tk_ID (\<lambda>t. configMeta KindToken (tk_ID t) '''' True [] rv now) rv
       (ov_tokens ov) (map bootRecord (doc_BootstrapTokens base))"

subsection \<open>Snapshots\<close>

record CredentialCapabilities =
  cc_Login :: bool
  cc_Challenge :: bool
  cc_Enable :: bool

record EffectiveToken =
  et_Meta :: ObjectMeta
  et_ID :: string
  et_Name :: string
  et_Scopes :: "string list"
  et_Enabled :: bool
  et_ExpiresAt :: "int option"
  et_HasDigest :: bool
  et_generation :: uint64

text \<open>The match indexes of a snapshot: TACACS+, RADIUS over UDP by role, RADIUS over TLS by role.\<close>

record SnapIndexes =
  si_index :: clientIndex
  si_radiusAccess :: clientIndex
  si_radiusAcct :: clientIndex
  si_radiusAccessTLS :: clientIndex
  si_radiusAcctTLS :: clientIndex
  si_radiusDynAuth :: clientIndex

definition compileIndexes :: "(string \<Rightarrow> string \<Rightarrow> bool) \<Rightarrow> CfgClient list \<Rightarrow> Error + SnapIndexes" where
  "compileIndexes eqf clients =
     rbind (CompileClientIndex eqf clients) (\<lambda>idx.
     rbind (CompileRADIUSIndex clients ''access'') (\<lambda>accessIdx.
     rbind (CompileRADIUSIndex clients ''accounting'') (\<lambda>acctIdx.
     rbind (CompileRADIUSCertIndex eqf clients ''access'') (\<lambda>accessTLS.
     rbind (CompileRADIUSCertIndex eqf clients ''accounting'') (\<lambda>acctTLS.
     rbind (CompileRADIUSIndex clients ''dynamic_authorization'') (\<lambda>dynIdx.
     Inr \<lparr>si_index = idx, si_radiusAccess = accessIdx, si_radiusAcct = acctIdx, si_radiusAccessTLS = accessTLS,
          si_radiusAcctTLS = acctTLS, si_radiusDynAuth = dynIdx\<rparr>))))))"

record 're StateSnapshot =
  sn_Revision :: uint64
  sn_CompiledAt :: int
  sn_settings :: "Document option"
  sn_users :: "(string \<times> CfgUser effective) list"
  sn_groups :: "(string \<times> CfgGroup effective) list"
  sn_clients :: "(string \<times> CfgClient effective) list"
  sn_tokens :: "(string \<times> EffectiveToken) list"
  sn_userIDs :: "string list"
  sn_groupIDs :: "string list"
  sn_clientIDs :: "string list"
  sn_tokenIDs :: "string list"
  sn_tokenIndex :: "(bytes \<times> string) list"
  sn_tokenDigests :: "(string \<times> bytes) list"
  sn_tombstones :: "Tombstone list"
  sn_fallback :: RuleSet
  sn_indexes :: "SnapIndexes option"
  sn_tacacsPolicies :: "'re PolicyEngine option"
  sn_radiusPolicies :: "RadiusEngine option"
  sn_runtimeSecrets :: "(string \<times> bytes) list"

definition RuntimeSecret :: "'re StateSnapshot \<Rightarrow> string \<Rightarrow> bytes option" where
  "RuntimeSecret s i = (if i = '''' then None else map_of (sn_runtimeSecrets s) i)"

definition snap_User :: "'re StateSnapshot \<Rightarrow> string \<Rightarrow> CfgUser option" where
  "snap_User s i = map_option ef_Obj (map_of (sn_users s) i)"

definition snap_Group :: "'re StateSnapshot \<Rightarrow> string \<Rightarrow> CfgGroup option" where
  "snap_Group s i = map_option ef_Obj (map_of (sn_groups s) i)"

definition snap_Client :: "'re StateSnapshot \<Rightarrow> string \<Rightarrow> CfgClient option" where
  "snap_Client s i = map_option ef_Obj (map_of (sn_clients s) i)"

definition snap_Token :: "'re StateSnapshot \<Rightarrow> string \<Rightarrow> EffectiveToken option" where
  "snap_Token s i = map_of (sn_tokens s) i"

definition DigestToken :: "bytes \<Rightarrow> bytes" where
  "DigestToken material = sha256 material"

definition EqualDigest :: "bytes \<Rightarrow> bytes \<Rightarrow> bool" where
  "EqualDigest a b \<longleftrightarrow> a = b \<and> length a = 32"

text \<open>A map key of 32 octets: the digest cut or padded with zeros.\<close>

definition DigestIndex :: "bytes \<Rightarrow> bytes" where
  "DigestIndex d = take 32 (d @ replicate 32 0)"

definition AuthenticateToken :: "'re StateSnapshot \<Rightarrow> bytes \<Rightarrow> int \<Rightarrow> Error + EffectiveToken" where
  "AuthenticateToken s raw now =
     (let denied = NewError CodeUnauthenticated ''authentication required''
      in if length raw = 0 then Inl denied
         else case map_of (sn_tokenIndex s) (DigestIndex (DigestToken raw)) of
           None \<Rightarrow> Inl denied
         | Some i \<Rightarrow>
             (case snap_Token s i of
                None \<Rightarrow> Inl denied
              | Some tok \<Rightarrow>
                  if \<not> et_Enabled tok then Inl denied
                  else if (case et_ExpiresAt tok of None \<Rightarrow> False | Some t \<Rightarrow> \<not> now < t) then Inl denied
                  else Inr tok))"

subsection \<open>Compilation of a snapshot\<close>

record 're compileEnv =
  ce_ve :: "'re validateEnv"
  ce_equalFold :: "string \<Rightarrow> string \<Rightarrow> bool"
  ce_isIP :: "string \<Rightarrow> bool"
  ce_tzdb :: "string \<Rightarrow> unit option"
  ce_attach :: "Document \<Rightarrow> overlay \<Rightarrow> int \<Rightarrow> Error + unit"
  ce_lookup :: "(SecretRef \<Rightarrow> Error + bytes) option"

record 're Manager =
  mg_baseline :: Document
  mg_overlay :: overlay
  mg_current :: "'re StateSnapshot option"
  mg_revision :: uint64
  mg_born :: stamps

definition putTokenDigest :: "bytes \<Rightarrow> string \<Rightarrow> (bytes \<times> string) list \<Rightarrow> Error + (bytes \<times> string) list" where
  "putTokenDigest d i idx =
     (if d = [] \<or> i = '''' then Inr idx
      else case map_of idx (DigestIndex d) of
        Some existing \<Rightarrow>
          if existing \<noteq> i
          then (let (a, b) = (if i < existing then (i, existing) else (existing, i))
                in Inl (WithPath (NewError CodeConflict (''token digest is reused by '' @ a @ '' and '' @ b)) ''tokens''))
          else Inr (AList.update (DigestIndex d) i idx)
      | None \<Rightarrow> Inr (AList.update (DigestIndex d) i idx))"

type_synonym tokIdx = "(string \<times> bytes) list \<times> (bytes \<times> string) list"

fun overlayDigests :: "tokenRecord list \<Rightarrow> tokIdx \<Rightarrow> Error + tokIdx" where
  "overlayDigests [] st = Inr st"
| "overlayDigests (t # ts) (digs, idx) =
     (if tk_Digest t = [] then overlayDigests ts (digs, idx)
      else rbind (putTokenDigest (tk_Digest t) (tk_ID t) idx) (\<lambda>idx.
           overlayDigests ts (AList.update (tk_ID t) (tk_Digest t) digs, idx)))"

fun bootDigests ::
  "(SecretRef \<Rightarrow> Error + bytes) \<Rightarrow> tokenRecord list \<Rightarrow> BootstrapToken list \<Rightarrow> tokIdx \<Rightarrow> Error + tokIdx" where
  "bootDigests lookup toks [] st = Inr st"
| "bootDigests lookup toks (b # bs) (digs, idx) =
     (if bt_ID b \<notin> set (map tk_ID toks) then bootDigests lookup toks bs (digs, idx)
      else if \<exists>t \<in> set toks. tk_ID t = bt_ID b \<and> tk_Digest t \<noteq> [] then bootDigests lookup toks bs (digs, idx)
      else if \<not> SecretRef_Set (bt_Token b) then bootDigests lookup toks bs (digs, idx)
      else rbind (lookup (bt_Token b)) (\<lambda>raw.
           (let d = DigestToken raw
            in rbind (putTokenDigest d (bt_ID b) idx) (\<lambda>idx.
               bootDigests lookup toks bs (AList.update (bt_ID b) d digs, idx)))))"

text \<open>
  The overlay digests are a Go map: they are indexed in the order of the tokens here. The order
  decides nothing but which of two clashing identifiers was stored first, and the error
  names both in alphabetical order.
\<close>

definition indexTokenDigests ::
  "(SecretRef \<Rightarrow> Error + bytes) option \<Rightarrow> Document \<Rightarrow> tokenRecord list \<Rightarrow> Error + tokIdx" where
  "indexTokenDigests lookup base toks =
     rbind (overlayDigests toks ([], [])) (\<lambda>st.
     (case lookup of None \<Rightarrow> Inr st | Some f \<Rightarrow> bootDigests f toks (doc_BootstrapTokens base) st))"

definition policyInput :: "Document \<Rightarrow> PolicyInput" where
  "policyInput synth =
     \<lparr>in_Users = map (\<lambda>u. \<lparr>pu_ID = us_ID u, pu_Enabled = us_Enabled u, pu_GroupIDs = us_GroupIDs u, pu_Rules = us_Rules u,
                           pu_ClientIDs = us_ClientIDs u, pu_ValidAfter = us_ValidAfter u, pu_ValidBefore = us_ValidBefore u\<rparr>)
                  (doc_Users synth),
      in_Groups = map (\<lambda>g. \<lparr>pg_ID = gr_ID g, pg_Priority = gr_Priority g, pg_Enabled = gr_Enabled g,
                            pg_Services = gr_Services g, pg_CommandRules = gr_CommandRules g\<rparr>) (doc_Groups synth),
      in_Clients = map (\<lambda>c. \<lparr>pc_ID = cl_ID c, pc_Enabled = cl_Enabled c, pc_DefaultGroupIDs = cl_DefaultGroupIDs c\<rparr>) (doc_Clients synth),
      in_Fallback = doc_FallbackRules synth, in_Limits = doc_Limits synth\<rparr>"

text \<open>The rule sets are compiled a second time for display; only their failure matters here.\<close>

definition rulesCompile :: "(string \<Rightarrow> 're option) \<Rightarrow> RuleSet \<Rightarrow> Error + unit" where
  "rulesCompile reCompile rs =
     foldl (\<lambda>acc r. rbind acc (\<lambda>_.
        if sm_Pattern (cr_Command r) \<noteq> '''' \<and> reCompile (sm_Pattern (cr_Command r)) = None
        then Inl (WithPath (NewError CodeRegexInvalid ''invalid regular expression'') ''command.pattern'')
        else if sm_Pattern (cr_Arguments r) \<noteq> '''' \<and> reCompile (sm_Pattern (cr_Arguments r)) = None
        then Inl (WithPath (NewError CodeRegexInvalid ''invalid regular expression'') ''arguments.pattern'')
        else Inr ())) (Inr ()) (rs_CommandRules rs)"

definition tokenCredential :: "'re StateSnapshot \<Rightarrow> string \<Rightarrow> bytes \<times> bool" where
  "tokenCredential s i = (case map_of (sn_tokenDigests s) i of None \<Rightarrow> ([], False) | Some d \<Rightarrow> (d, True))"

text \<open>The incarnation of a token's credential: kept from the previous snapshot while nothing about it changed.\<close>

definition tokenGeneration ::
  "uint64 \<Rightarrow> 're StateSnapshot option \<Rightarrow> (string \<times> bytes) list \<Rightarrow> tokenRecord effective \<Rightarrow> uint64" where
  "tokenGeneration rv previous digs tok =
     (case previous of
        None \<Rightarrow> rv
      | Some p \<Rightarrow>
          (case map_of (sn_tokens p) (tk_ID (ef_Obj tok)) of
             None \<Rightarrow> rv
           | Some old \<Rightarrow>
               (let (before, boundBefore) = tokenCredential p (tk_ID (ef_Obj tok));
                    (after, boundAfter) = (case map_of digs (tk_ID (ef_Obj tok)) of None \<Rightarrow> ([], False) | Some d \<Rightarrow> (d, True));
                    sameCredential = (boundBefore = boundAfter \<and> EqualDigest before after);
                    sameOverlay = (om_Source (ef_Meta tok) = SourceConfig \<or> om_RevisionUpdated (et_Meta old) = om_RevisionUpdated (ef_Meta tok));
                    sameGrant = (et_Enabled old = tk_Enabled (ef_Obj tok) \<and> et_Scopes old = tk_Scopes (ef_Obj tok)
                                 \<and> et_ExpiresAt old = tk_ExpiresAt (ef_Obj tok))
                in if sameCredential \<and> sameGrant \<and> om_Source (et_Meta old) = om_Source (ef_Meta tok) \<and> sameOverlay
                   then et_generation old else rv)))"

definition tokenFromRecord ::
  "uint64 \<Rightarrow> 're StateSnapshot option \<Rightarrow> (string \<times> bytes) list \<Rightarrow> tokenRecord effective \<Rightarrow> EffectiveToken" where
  "tokenFromRecord rv previous digs t =
     \<lparr>et_Meta = (ef_Meta t)\<lparr>om_EffectiveRevision := rv\<rparr>, et_ID = tk_ID (ef_Obj t), et_Name = tk_Name (ef_Obj t), et_Scopes = tk_Scopes (ef_Obj t),
      et_Enabled = tk_Enabled (ef_Obj t), et_ExpiresAt = tk_ExpiresAt (ef_Obj t), et_HasDigest = tk_HasDigest (ef_Obj t),
      et_generation = tokenGeneration rv previous digs t\<rparr>"

definition byID :: "('a \<Rightarrow> string) \<Rightarrow> 'a list \<Rightarrow> (string \<times> 'a) list" where
  "byID ident xs = foldl (\<lambda>m x. AList.update (ident x) x m) [] xs"

text \<open>Every baseline object keeps its stamp while it is in the baseline or live.\<close>

definition usedKeys :: "Document \<Rightarrow> string list \<Rightarrow> string list \<Rightarrow> string list \<Rightarrow> string list \<Rightarrow> string list" where
  "usedKeys base us gs cs ts =
     map (objKey KindUser) (map us_ID (doc_Users base) @ us) @ map (objKey KindGroup) (map gr_ID (doc_Groups base) @ gs) @
     map (objKey KindClient) (map cl_ID (doc_Clients base) @ cs) @ map (objKey KindToken) (map bt_ID (doc_BootstrapTokens base) @ ts)"

definition synthDoc ::
  "Document \<Rightarrow> RuleSet \<Rightarrow> CfgUser list \<Rightarrow> CfgGroup list \<Rightarrow> CfgClient list \<Rightarrow> tokenRecord list \<Rightarrow> Document" where
  "synthDoc base fallback us gs cs ts =
     base\<lparr>doc_Users := us, doc_Groups := gs, doc_Clients := cs, doc_FallbackRules := fallback,
          doc_BootstrapTokens := filter (\<lambda>t. bt_ID t \<in> set (map tk_ID ts)) (doc_BootstrapTokens base)\<rparr>"

definition compile ::
  "'re compileEnv \<Rightarrow> 're Manager \<Rightarrow> Document \<Rightarrow> overlay \<Rightarrow> uint64 \<Rightarrow> int \<Rightarrow> bool \<Rightarrow> Error + 're StateSnapshot \<times> stamps" where
  "compile ce m base ov rv now touchBaseline =
     (let born = (if touchBaseline then touchBaselineStamps base rv now (mg_born m) else mg_born m);
          (users, userTombs, born) = mergeUsers base ov rv now born;
          (groups, groupTombs, born) = mergeGroups base ov rv now born;
          (clients, clientTombs, born) = mergeClients base ov rv now born;
          (tokens, tokenTombs, born) = mergeTokens base ov rv now born;
          fallback = (case ov_fallback ov of None \<Rightarrow> doc_FallbackRules base | Some fb \<Rightarrow> fb);
          synth = synthDoc base fallback (map ef_Obj users) (map ef_Obj groups) (map ef_Obj clients) (map ef_Obj tokens)
      in if doc_MaxAPITokens synth > 0 \<and> int (length tokens) > doc_MaxAPITokens synth
         then Inl (WithPath (NewError CodeObjectLimitExceeded ''token count exceeds configured maximum'') ''tokens'')
         else
           rbind (validateDocument (ce_ve ce) synth) (\<lambda>_.
           rbind (compileIndexes (ce_equalFold ce) (doc_Clients synth)) (\<lambda>indexes.
           rbind (Compile (ve_reCompile (ce_ve ce)) (ce_isIP ce) (ce_tzdb ce) (policyInput synth)) (\<lambda>tacPol.
           rbind (radius_CompileDocument synth) (\<lambda>radPol.
           rbind (ce_attach ce synth ov now) (\<lambda>_.
           rbind (rulesCompile (ve_reCompile (ce_ve ce)) fallback) (\<lambda>_.
           rbind (rmap (\<lambda>u. rulesCompile (ve_reCompile (ce_ve ce)) (us_Rules (ef_Obj u))) users) (\<lambda>_.
           rbind (rmap (\<lambda>g. rulesCompile (ve_reCompile (ce_ve ce))
                    \<lparr>rs_Services = gr_Services (ef_Obj g), rs_CommandRules = gr_CommandRules (ef_Obj g)\<rparr>) groups) (\<lambda>_.
           rbind (indexTokenDigests (ce_lookup ce) base (map ef_Obj tokens)) (\<lambda>(digs, idx).
             let snap =
               \<lparr>sn_Revision = rv, sn_CompiledAt = now, sn_settings = Some base,
                sn_users = byID (\<lambda>u. us_ID (ef_Obj u)) (map (\<lambda>u. u\<lparr>ef_Meta := (ef_Meta u)\<lparr>om_EffectiveRevision := rv\<rparr>\<rparr>) users),
                sn_groups = byID (\<lambda>g. gr_ID (ef_Obj g)) (map (\<lambda>g. g\<lparr>ef_Meta := (ef_Meta g)\<lparr>om_EffectiveRevision := rv\<rparr>\<rparr>) groups),
                sn_clients = byID (\<lambda>c. cl_ID (ef_Obj c)) (map (\<lambda>c. c\<lparr>ef_Meta := (ef_Meta c)\<lparr>om_EffectiveRevision := rv\<rparr>\<rparr>) clients),
                sn_tokens = byID et_ID (map (tokenFromRecord rv (mg_current m) digs) tokens),
                sn_userIDs = sort (map (\<lambda>u. us_ID (ef_Obj u)) users), sn_groupIDs = sort (map (\<lambda>g. gr_ID (ef_Obj g)) groups),
                sn_clientIDs = sort (map (\<lambda>c. cl_ID (ef_Obj c)) clients), sn_tokenIDs = sort (map (\<lambda>t. tk_ID (ef_Obj t)) tokens),
                sn_tokenIndex = idx, sn_tokenDigests = digs,
                sn_tombstones = userTombs @ groupTombs @ clientTombs @ tokenTombs, sn_fallback = fallback,
                sn_indexes = Some indexes, sn_tacacsPolicies = Some tacPol, sn_radiusPolicies = Some radPol, sn_runtimeSecrets = ov_secrets ov\<rparr>;
                 used = usedKeys base (map fst (sn_users snap)) (map fst (sn_groups snap)) (map fst (sn_clients snap)) (map fst (sn_tokens snap))
             in Inr (snap, filter (\<lambda>(k, _). k \<in> set used) born)))))))))))"

subsection \<open>Publication\<close>

definition checkRevision :: "uint64 option \<Rightarrow> uint64 \<Rightarrow> Error + unit" where
  "checkRevision expected actual =
     (case expected of
        None \<Rightarrow> Inr ()
      | Some e \<Rightarrow> if e \<noteq> actual then Inl (NewError CodeRevisionMismatch ''expected revision does not match published snapshot'') else Inr ())"

text \<open>
  A mutation function takes the manager's baseline, a private copy of the overlay, the time and
  the next revision, and returns the next overlay and possibly a new baseline. Under the mutex the
  whole of \<open>mutate\<close> is one step; readers see either the old or the new snapshot.
\<close>

type_synonym mutation = "Document \<Rightarrow> overlay \<Rightarrow> int \<Rightarrow> uint64 \<Rightarrow> Error + overlay \<times> Document option"

definition mutate ::
  "'re compileEnv \<Rightarrow> int \<Rightarrow> uint64 option \<Rightarrow> mutation \<Rightarrow> 're Manager \<Rightarrow> 're Manager \<times> (Error + 're StateSnapshot)" where
  "mutate ce now expected f m =
     (case checkRevision expected (mg_revision m) of
        Inl e \<Rightarrow> (m, Inl e)
      | Inr _ \<Rightarrow>
          (let nextRev = mg_revision m + 1
           in case f (mg_baseline m) (mg_overlay m) now nextRev of
                Inl e \<Rightarrow> (m, Inl e)
              | Inr (ov, newBase) \<Rightarrow>
                  (let base = (case newBase of None \<Rightarrow> mg_baseline m | Some b \<Rightarrow> b);
                       ov = pruneOverlaySecrets ov
                   in case compile ce m base ov nextRev now (newBase \<noteq> None) of
                        Inl e \<Rightarrow> (m, Inl e)
                      | Inr (snap, born) \<Rightarrow>
                          (m\<lparr>mg_baseline := base, mg_overlay := ov, mg_born := born, mg_revision := nextRev, mg_current := Some snap\<rparr>,
                           Inr snap))))"

definition NewManager :: "'re compileEnv \<Rightarrow> int \<Rightarrow> Document \<Rightarrow> Error + 're Manager" where
  "NewManager ce now baseline =
     (let m = \<lparr>mg_baseline = baseline, mg_overlay = newOverlay, mg_current = None, mg_revision = 0, mg_born = []\<rparr>
      in rbind (compile ce m baseline newOverlay 1 now True) (\<lambda>(snap, born).
         Inr (m\<lparr>mg_born := born, mg_revision := 1, mg_current := Some snap\<rparr>)))"

definition ValidateCandidate :: "'re compileEnv \<Rightarrow> int \<Rightarrow> Document \<Rightarrow> 're Manager \<Rightarrow> Error + unit" where
  "ValidateCandidate ce now newBaseline m =
     (let ov = (if doc_ReloadOverlayBehavior newBaseline = ''reset'' then newOverlay else mg_overlay m)
      in rbind (compile ce m newBaseline ov (mg_revision m + 1) now True) (\<lambda>_. Inr ()))"

definition reloadMut :: "Document \<Rightarrow> mutation" where
  "reloadMut newBaseline base ov now rv =
     (if doc_ReloadOverlayBehavior newBaseline = ''reset'' then Inr (newOverlay, Some newBaseline)
      else Inr (ov, Some newBaseline))"

definition resetMut :: mutation where
  "resetMut base ov now rv = Inr (newOverlay, None)"

subsection \<open>Users\<close>

definition NormalizeUserID :: "credLib \<Rightarrow> string \<Rightarrow> Error + string" where
  "NormalizeUserID lib i =
     (if i = '''' then Inl (WithPath (NewError CodeInvalidArgument ''id is required'') ''id'')
      else case cl_precis lib i of
        None \<Rightarrow> Inl (WithPath (NewError CodeInvalidArgument ''id is not a valid UsernameCasePreserved identifier'') ''id'')
      | Some out \<Rightarrow> if out = ''''
                    then Inl (WithPath (NewError CodeInvalidArgument ''id is not a valid UsernameCasePreserved identifier'') ''id'')
                    else Inr out)"

definition requireID :: "string \<Rightarrow> string \<Rightarrow> Error + unit" where
  "requireID i path = (if i = '''' then Inl (WithPath (NewError CodeInvalidArgument ''id is required'') path) else Inr ())"

record SecretPatch =
  sp_Clear :: bool
  sp_Ref :: SecretRef

definition applySecret :: "SecretRef \<Rightarrow> SecretPatch option \<Rightarrow> bool \<Rightarrow> string \<Rightarrow> Error + SecretRef" where
  "applySecret cur patch methodEnabled path =
     (case patch of
        None \<Rightarrow> Inr cur
      | Some p \<Rightarrow>
          if sp_Clear p \<or> \<not> SecretRef_Set (sp_Ref p)
          then (if methodEnabled
                then Inl (WithPath (NewError CodeAuthMethodCredentialMissing ''enabled method is missing required credential material'') path)
                else Inr (noRef\<lparr>ref_Purpose := ref_Purpose cur\<rparr>))
          else Inr (if ref_Purpose (sp_Ref p) = '''' then (sp_Ref p)\<lparr>ref_Purpose := ref_Purpose cur\<rparr> else sp_Ref p))"

record UserRestrictions =
  ur_ClientIDs :: "string list"
  ur_ValidAfter :: "int option"
  ur_ValidBefore :: "int option"

record UpdateUser =
  uu_DisplayName :: "string option"
  uu_Enabled :: "bool option"
  uu_Labels :: "(string \<times> string) list option"
  uu_GroupIDs :: "string list option"
  uu_Rules :: "RuleSet option"
  uu_Login :: "SecretPatch option"
  uu_Challenge :: "SecretPatch option"
  uu_Enable :: "SecretPatch option"
  uu_Restrictions :: "UserRestrictions option"
  uu_MustChangeLogin :: "bool option"
  uu_MustChangeEnable :: "bool option"
  uu_RADIUSPolicyID :: "string option"

text \<open>\<open>orElse p v\<close> is the value of an optional field, \<open>v\<close> when it is omitted.\<close>

definition orElse :: "'a option \<Rightarrow> 'a \<Rightarrow> 'a" where
  "orElse p v = (case p of None \<Rightarrow> v | Some x \<Rightarrow> x)"

definition applyUserPatch :: "CfgUser \<Rightarrow> UpdateUser \<Rightarrow> Error + CfgUser" where
  "applyUserPatch cur p =
     (let out = cur\<lparr>us_DisplayName := orElse (uu_DisplayName p) (us_DisplayName cur), us_Enabled := orElse (uu_Enabled p) (us_Enabled cur),
                    us_Labels := orElse (uu_Labels p) (us_Labels cur), us_GroupIDs := orElse (uu_GroupIDs p) (us_GroupIDs cur),
                    us_Rules := orElse (uu_Rules p) (us_Rules cur)\<rparr>;
          out = (case uu_Restrictions p of
                   None \<Rightarrow> out
                 | Some r \<Rightarrow> out\<lparr>us_ClientIDs := ur_ClientIDs r, us_ValidAfter := ur_ValidAfter r, us_ValidBefore := ur_ValidBefore r\<rparr>)
      in rbind (applySecret (us_Login out) (uu_Login p) (us_Enabled out) ''credentials.login.verifier'') (\<lambda>login.
         rbind (applySecret (us_Challenge out) (uu_Challenge p) False ''credentials.challenge.secret'') (\<lambda>challenge.
         rbind (applySecret (us_Enable out) (uu_Enable p) False ''credentials.enable.verifier'') (\<lambda>enable.
         let out = out\<lparr>us_Login := login, us_Challenge := challenge, us_Enable := enable\<rparr>;
             out = (if uu_Login p \<noteq> None \<and> uu_MustChangeLogin p = None then out\<lparr>us_MustChangeLogin := False\<rparr> else out);
             out = out\<lparr>us_MustChangeLogin := orElse (uu_MustChangeLogin p) (us_MustChangeLogin out)\<rparr>;
             out = (if uu_Enable p \<noteq> None \<and> uu_MustChangeEnable p = None then out\<lparr>us_MustChangeEnable := False\<rparr> else out);
             out = out\<lparr>us_MustChangeEnable := orElse (uu_MustChangeEnable p) (us_MustChangeEnable out)\<rparr>
         in if us_MustChangeLogin out \<and> \<not> SecretRef_Set (us_Login out)
            then Inl (WithPath (NewError CodeInvalidArgument ''must_change_login requires a login verifier'') ''must_change_login'')
            else if us_MustChangeEnable out \<and> \<not> SecretRef_Set (us_Enable out)
            then Inl (WithPath (NewError CodeInvalidArgument ''must_change_enable requires an enable verifier'') ''must_change_enable'')
            else Inr (case uu_RADIUSPolicyID p of None \<Rightarrow> out | Some i \<Rightarrow> out\<lparr>us_RADIUSPolicyID := TrimSpace i\<rparr>)))))"

definition zeroUser :: CfgUser where
  "zeroUser =
     \<lparr>us_ID = '''', us_DisplayName = '''', us_Enabled = False, us_Labels = [], us_GroupIDs = [], us_Rules = \<lparr>rs_Services = [], rs_CommandRules = []\<rparr>,
      us_Login = noRef, us_Challenge = noRef, us_Enable = noRef, us_ClientIDs = [], us_ValidAfter = None, us_ValidBefore = None,
      us_MustChangeLogin = False, us_MustChangeEnable = False, us_RADIUSPolicyID = ''''\<rparr>"

record CreateUser =
  cru_ID :: string
  cru_Patch :: UpdateUser
  cru_Override :: bool

definition userFromCreate :: "CfgUser option \<Rightarrow> string \<Rightarrow> UpdateUser \<Rightarrow> Error + CfgUser" where
  "userFromCreate base i p =
     (let cur = (case base of
                   Some b \<Rightarrow> b
                 | None \<Rightarrow> zeroUser\<lparr>us_Enabled := True, us_Login := noRef\<lparr>ref_Purpose := ''login_verifier''\<rparr>,
                             us_Challenge := noRef\<lparr>ref_Purpose := ''challenge_secret''\<rparr>,
                             us_Enable := noRef\<lparr>ref_Purpose := ''enable_verifier''\<rparr>\<rparr>)
      in applyUserPatch (cur\<lparr>us_ID := i\<rparr>) p)"

text \<open>The metadata of an entry that a new live entry replaces.\<close>

definition prevMeta :: "(string \<times> 'o ovEntry) list \<Rightarrow> string \<Rightarrow> ObjectMeta option" where
  "prevMeta ov i = (case map_of ov i of Some (ovLive _ m) \<Rightarrow> Some m | _ \<Rightarrow> None)"

definition putUser :: "string \<Rightarrow> string \<Rightarrow> string \<Rightarrow> uint64 \<Rightarrow> int \<Rightarrow> ObjectMeta option \<Rightarrow> CfgUser \<Rightarrow> overlay \<Rightarrow> overlay" where
  "putUser i src shadows rv now prev u ov =
     ov\<lparr>ov_users := AList.update i
         (ovLive u (newOverlayMeta KindUser i (us_DisplayName u) src shadows (us_Enabled u) (us_Labels u) rv now prev)) (ov_users ov)\<rparr>"

abbreviation (input) usersPath :: "string \<Rightarrow> string" where "usersPath i \<equiv> ''users/'' @ i"

definition createUserMut :: "credLib \<Rightarrow> CreateUser \<Rightarrow> mutation" where
  "createUserMut lib req base ov now rv =
     rbind (NormalizeUserID lib (cru_ID req)) (\<lambda>i.
     let exists = Inl (WithPath (NewError CodeAlreadyExists ''user already exists'') (usersPath i));
         noShadow = Inl (WithPath (NewError CodeConflict ''shadowing is disabled'') (usersPath i))
     in if live_User base ov i \<noteq> None
        then (if \<not> cru_Override req then exists
              else case baselineUser base i of
                None \<Rightarrow> exists
              | Some b \<Rightarrow>
                  if \<not> doc_AllowShadowing base then noShadow
                  else rbind (userFromCreate (Some b) i (cru_Patch req)) (\<lambda>u.
                       Inr (putUser i SourceOverride SourceConfig rv now (prevMeta (ov_users ov) i) u ov, None)))
        else case baselineUser base i of
          Some b \<Rightarrow>
            if \<not> cru_Override req then exists
            else if \<not> doc_AllowShadowing base then noShadow
            else rbind (userFromCreate (Some b) i (cru_Patch req)) (\<lambda>u.
                 Inr (putUser i SourceOverride SourceConfig rv now None u ov, None))
        | None \<Rightarrow>
            rbind (userFromCreate None i (cru_Patch req)) (\<lambda>u.
            Inr (putUser i SourceRuntime '''' rv now None u ov, None)))"

text \<open>The part that \<open>UpdateUser\<close> and the two verifier overrides share: find the live user, refuse
  to shadow the baseline when that is disabled, replace the user.\<close>

definition editUser :: "credLib \<Rightarrow> string \<Rightarrow> (string \<Rightarrow> CfgUser \<Rightarrow> overlay \<Rightarrow> Error + CfgUser \<times> overlay) \<Rightarrow> mutation" where
  "editUser lib userID f base ov now rv =
     rbind (NormalizeUserID lib userID) (\<lambda>i.
     case live_User base ov i of
       None \<Rightarrow> Inl (WithPath (NewError CodeNotFound ''user not found'') (usersPath i))
     | Some cur \<Rightarrow>
         (let inBase = (baselineUser base i \<noteq> None)
          in if inBase \<and> \<not> doc_AllowShadowing base \<and> prevMeta (ov_users ov) i = None
             then Inl (WithPath (NewError CodeConflict ''shadowing is disabled'') (usersPath i))
             else rbind (f i cur ov) (\<lambda>(next, ov).
                  Inr (putUser i (if inBase then SourceOverride else SourceRuntime) (if inBase then SourceConfig else '''') rv now
                         (prevMeta (ov_users ov) i) next ov, None))))"

definition updateUserMut :: "credLib \<Rightarrow> string \<Rightarrow> UpdateUser \<Rightarrow> mutation" where
  "updateUserMut lib userID p = editUser lib userID (\<lambda>i cur ov. rbind (applyUserPatch cur p) (\<lambda>next. Inr (next, ov)))"

definition overrideLoginMut :: "credLib \<Rightarrow> string \<Rightarrow> bytes \<Rightarrow> mutation" where
  "overrideLoginMut lib userID verifier =
     editUser lib userID (\<lambda>i cur ov.
       let key = ''login:'' @ i
       in Inr (cur\<lparr>us_Login := noRef\<lparr>ref_Purpose := ''login_verifier'', ref_MemoryID := key\<rparr>, us_MustChangeLogin := False\<rparr>,
               ov\<lparr>ov_secrets := AList.update key verifier (ov_secrets ov)\<rparr>))"

definition overrideEnableMut :: "credLib \<Rightarrow> string \<Rightarrow> bytes \<Rightarrow> mutation" where
  "overrideEnableMut lib userID verifier =
     editUser lib userID (\<lambda>i cur ov.
       let key = ''enable:'' @ i
       in Inr (cur\<lparr>us_Enable := noRef\<lparr>ref_Purpose := ''enable_verifier'', ref_MemoryID := key\<rparr>, us_MustChangeEnable := False\<rparr>,
               ov\<lparr>ov_secrets := AList.update key verifier (ov_secrets ov)\<rparr>))"

definition OverrideLoginVerifier ::
  "credLib \<Rightarrow> 're compileEnv \<Rightarrow> int \<Rightarrow> string \<Rightarrow> bytes \<Rightarrow> uint64 option \<Rightarrow> 're Manager \<Rightarrow> 're Manager \<times> (Error + 're StateSnapshot)" where
  "OverrideLoginVerifier lib ce now userID verifier expected m =
     (case ValidatePHC verifier of
        Inl _ \<Rightarrow> (m, Inl (NewError CodeInvalidArgument ''login verifier is not a valid argon2id PHC string''))
      | Inr _ \<Rightarrow> mutate ce now expected (overrideLoginMut lib userID verifier) m)"

definition OverrideEnableVerifier ::
  "credLib \<Rightarrow> 're compileEnv \<Rightarrow> int \<Rightarrow> string \<Rightarrow> bytes \<Rightarrow> uint64 option \<Rightarrow> 're Manager \<Rightarrow> 're Manager \<times> (Error + 're StateSnapshot)" where
  "OverrideEnableVerifier lib ce now userID verifier expected m =
     (case ValidatePHC verifier of
        Inl _ \<Rightarrow> (m, Inl (NewError CodeInvalidArgument ''enable verifier is not a valid argon2id PHC string''))
      | Inr _ \<Rightarrow> mutate ce now expected (overrideEnableMut lib userID verifier) m)"

record DeleteOptions =
  do_Tombstone :: bool
  do_ActorID :: string

text \<open>Deleting, the same for every kind: a runtime object disappears, an override reveals the baseline
  unless a tombstone is asked for, and a baseline object is hidden by a tombstone.\<close>

definition deleteObj ::
  "string \<Rightarrow> string \<Rightarrow> ObjectMeta \<Rightarrow> uint64 \<Rightarrow> int \<Rightarrow> DeleteOptions \<Rightarrow> bool \<Rightarrow> Error \<Rightarrow> (string \<times> 'o ovEntry) list \<Rightarrow> Error + (string \<times> 'o ovEntry) list" where
  "deleteObj kind i dmeta rv now opts inBase missing ov =
     (let entry = map_of ov i;
          live = (case entry of Some (ovLive _ _) \<Rightarrow> True | Some (ovDeleted _ _) \<Rightarrow> False | None \<Rightarrow> inBase)
      in if \<not> live then Inl missing
         else if (case entry of
                    Some (ovLive _ m) \<Rightarrow> om_Source m = SourceRuntime \<or> om_Source m = SourceOverride \<and> \<not> do_Tombstone opts
                  | _ \<Rightarrow> False)
         then Inr (AList.delete i ov)
         else if \<not> inBase then Inr (AList.delete i ov)
         else Inr (AList.update i (ovDeleted (NewTombstone kind i (do_ActorID opts) rv now) dmeta) ov))"

definition deletedMeta :: "string \<Rightarrow> string \<Rightarrow> uint64 \<Rightarrow> int \<Rightarrow> ObjectMeta" where
  "deletedMeta kind i rv now =
     \<lparr>om_ID = i, om_Kind = kind, om_DisplayName = '''', om_Source = SourceConfig, om_ShadowsSource = '''', om_Deleted = True,
      om_RevisionCreated = 0, om_RevisionUpdated = rv, om_EffectiveRevision = 0, om_Enabled = False, om_Labels = [],
      om_CreatedAt = None, om_UpdatedAt = Some now\<rparr>"

definition deleteUserMut :: "credLib \<Rightarrow> string \<Rightarrow> DeleteOptions \<Rightarrow> mutation" where
  "deleteUserMut lib userID opts base ov now rv =
     rbind (NormalizeUserID lib userID) (\<lambda>i.
     rbind (deleteObj KindUser i ((deletedMeta KindUser i rv now)\<lparr>om_RevisionCreated := rv, om_CreatedAt := Some now\<rparr>) rv now opts
              (baselineUser base i \<noteq> None) (WithPath (NewError CodeNotFound ''user not found'') (usersPath i)) (ov_users ov)) (\<lambda>us.
     Inr (ov\<lparr>ov_users := us\<rparr>, None)))"

subsection \<open>Groups, clients and tokens\<close>

record UpdateGroup =
  ug_DisplayName :: "string option"
  ug_Enabled :: "bool option"
  ug_Priority :: "int option"
  ug_Labels :: "(string \<times> string) list option"
  ug_Services :: "ServiceRule list option"
  ug_CommandRules :: "CommandRule list option"
  ug_DefaultCommandAction :: "AuthorDecision option"
  ug_RADIUSPolicyID :: "string option"

definition applyGroupPatch :: "CfgGroup \<Rightarrow> UpdateGroup \<Rightarrow> CfgGroup" where
  "applyGroupPatch cur p =
     cur\<lparr>gr_DisplayName := orElse (ug_DisplayName p) (gr_DisplayName cur), gr_Enabled := orElse (ug_Enabled p) (gr_Enabled cur),
         gr_Priority := orElse (ug_Priority p) (gr_Priority cur), gr_Labels := orElse (ug_Labels p) (gr_Labels cur),
         gr_Services := orElse (ug_Services p) (gr_Services cur), gr_CommandRules := orElse (ug_CommandRules p) (gr_CommandRules cur),
         gr_DefaultCommandAction := orElse (ug_DefaultCommandAction p) (gr_DefaultCommandAction cur),
         gr_RADIUSPolicyID := (case ug_RADIUSPolicyID p of None \<Rightarrow> gr_RADIUSPolicyID cur | Some i \<Rightarrow> TrimSpace i)\<rparr>"

record CreateGroup =
  crg_ID :: string
  crg_Patch :: UpdateGroup
  crg_Override :: bool

definition groupFromCreate :: "CfgGroup option \<Rightarrow> string \<Rightarrow> UpdateGroup \<Rightarrow> CfgGroup" where
  "groupFromCreate base i p =
     (let cur = (case base of
                   Some b \<Rightarrow> b
                 | None \<Rightarrow> \<lparr>gr_ID = '''', gr_DisplayName = '''', gr_Priority = 0, gr_Enabled = True, gr_Labels = [], gr_Services = [],
                            gr_CommandRules = [], gr_DefaultCommandAction = DecisionDeny, gr_RADIUSPolicyID = ''''\<rparr>)
      in applyGroupPatch (cur\<lparr>gr_ID := i\<rparr>) p)"

definition putGroup :: "string \<Rightarrow> bool \<Rightarrow> uint64 \<Rightarrow> int \<Rightarrow> CfgGroup \<Rightarrow> overlay \<Rightarrow> overlay" where
  "putGroup i inBase rv now g ov =
     ov\<lparr>ov_groups := AList.update i
         (ovLive g (newOverlayMeta KindGroup i (gr_DisplayName g) (if inBase then SourceOverride else SourceRuntime)
            (if inBase then SourceConfig else '''') (gr_Enabled g) (gr_Labels g) rv now (prevMeta (ov_groups ov) i))) (ov_groups ov)\<rparr>"

definition createGroupMut :: "CreateGroup \<Rightarrow> mutation" where
  "createGroupMut req base ov now rv =
     rbind (requireID (crg_ID req) ''id'') (\<lambda>_.
     let i = crg_ID req;
         exists = Inl (WithPath (NewError CodeAlreadyExists ''group already exists'') (''groups/'' @ i))
     in if live_Group base ov i \<noteq> None \<and> \<not> crg_Override req then exists
        else case baselineGroup base i of
          Some b \<Rightarrow>
            if \<not> crg_Override req then exists
            else if \<not> doc_AllowShadowing base then Inl (WithPath (NewError CodeConflict ''shadowing is disabled'') (''groups/'' @ i))
            else Inr (putGroup i True rv now (groupFromCreate (Some b) i (crg_Patch req)) ov, None)
        | None \<Rightarrow>
            if live_Group base ov i \<noteq> None then exists
            else Inr (putGroup i False rv now (groupFromCreate None i (crg_Patch req)) ov, None))"

definition updateGroupMut :: "string \<Rightarrow> UpdateGroup \<Rightarrow> mutation" where
  "updateGroupMut i p base ov now rv =
     rbind (requireID i ''id'') (\<lambda>_.
     case live_Group base ov i of
       None \<Rightarrow> Inl (WithPath (NewError CodeNotFound ''group not found'') (''groups/'' @ i))
     | Some cur \<Rightarrow>
         (let inBase = (baselineGroup base i \<noteq> None)
          in if inBase \<and> \<not> doc_AllowShadowing base \<and> prevMeta (ov_groups ov) i = None
             then Inl (WithPath (NewError CodeConflict ''shadowing is disabled'') (''groups/'' @ i))
             else Inr (putGroup i inBase rv now (applyGroupPatch cur p) ov, None)))"

definition deleteGroupMut :: "string \<Rightarrow> DeleteOptions \<Rightarrow> mutation" where
  "deleteGroupMut i opts base ov now rv =
     rbind (requireID i ''id'') (\<lambda>_.
     rbind (deleteObj KindGroup i (deletedMeta KindGroup i rv now) rv now opts (baselineGroup base i \<noteq> None)
              (WithPath (NewError CodeNotFound ''group not found'') (''groups/'' @ i)) (ov_groups ov)) (\<lambda>gs.
     Inr (ov\<lparr>ov_groups := gs\<rparr>, None)))"

definition deleteClientMut :: "string \<Rightarrow> DeleteOptions \<Rightarrow> mutation" where
  "deleteClientMut i opts base ov now rv =
     rbind (requireID i ''id'') (\<lambda>_.
     rbind (deleteObj KindClient i (deletedMeta KindClient i rv now) rv now opts (baselineClient base i \<noteq> None)
              (WithPath (NewError CodeNotFound ''client not found'') (''clients/'' @ i)) (ov_clients ov)) (\<lambda>cs.
     Inr (ov\<lparr>ov_clients := cs\<rparr>, None)))"

definition deleteTokenMut :: "string \<Rightarrow> DeleteOptions \<Rightarrow> mutation" where
  "deleteTokenMut i opts base ov now rv =
     rbind (requireID i ''id'') (\<lambda>_.
     rbind (deleteObj KindToken i (deletedMeta KindToken i rv now) rv now opts (baselineToken base i \<noteq> None)
              (WithPath (NewError CodeNotFound ''token not found'') (''tokens/'' @ i)) (ov_tokens ov)) (\<lambda>ts.
     Inr (ov\<lparr>ov_tokens := ts\<rparr>, None)))"

record CreateToken =
  crt_ID :: string
  crt_Name :: string
  crt_Scopes :: "string list"
  crt_Enabled :: "bool option"
  crt_ExpiresAt :: "int option"
  crt_Material :: bytes
  crt_Override :: bool

definition createTokenMut :: "CreateToken \<Rightarrow> mutation" where
  "createTokenMut req base ov now rv =
     rbind (requireID (crt_ID req) ''id'') (\<lambda>_.
     rbind (scopesLoop ''scopes'' 0 (crt_Scopes req)) (\<lambda>_.
     let i = crt_ID req; inBase = (baselineToken base i \<noteq> None);
         exists = Inl (WithPath (NewError CodeAlreadyExists ''token already exists'') (''tokens/'' @ i))
     in if length (crt_Scopes req) = 0 then Inl (WithPath (NewError CodeInvalidArgument ''at least one scope is required'') ''scopes'')
        else if live_Token base ov i \<noteq> None \<and> \<not> crt_Override req then exists
        else if inBase \<and> \<not> crt_Override req then exists
        else if inBase \<and> \<not> doc_AllowShadowing base then Inl (WithPath (NewError CodeConflict ''shadowing is disabled'') (''tokens/'' @ i))
        else let enabled = orElse (crt_Enabled req) True;
                 dig = (if crt_Material req = [] then [] else DigestToken (crt_Material req));
                 tok = \<lparr>tk_ID = i, tk_Name = crt_Name req, tk_Scopes = crt_Scopes req, tk_Enabled = enabled,
                        tk_ExpiresAt = crt_ExpiresAt req, tk_HasDigest = dig \<noteq> [], tk_Digest = dig\<rparr>;
                 meta = newOverlayMeta KindToken i (crt_Name req) (if inBase then SourceOverride else SourceRuntime)
                          (if inBase then SourceConfig else '''') enabled [] rv now (prevMeta (ov_tokens ov) i)
             in Inr (ov\<lparr>ov_tokens := AList.update i (ovLive tok meta) (ov_tokens ov)\<rparr>, None)))"

text \<open>The mutations as operations of the manager.\<close>

datatype mutOp =
    OpReload Document
  | OpReset
  | OpCreateUser CreateUser
  | OpUpdateUser string UpdateUser
  | OpOverrideLogin string bytes
  | OpOverrideEnable string bytes
  | OpDeleteUser string DeleteOptions
  | OpCreateGroup CreateGroup
  | OpUpdateGroup string UpdateGroup
  | OpDeleteGroup string DeleteOptions
  | OpDeleteClient string DeleteOptions
  | OpCreateToken CreateToken
  | OpDeleteToken string DeleteOptions

definition runOp ::
  "credLib \<Rightarrow> 're compileEnv \<Rightarrow> int \<Rightarrow> uint64 option \<Rightarrow> mutOp \<Rightarrow> 're Manager \<Rightarrow> 're Manager \<times> (Error + 're StateSnapshot)" where
  "runOp lib ce now expected oper =
     (case oper of
        OpReload d \<Rightarrow> mutate ce now expected (reloadMut d)
      | OpReset \<Rightarrow> mutate ce now expected resetMut
      | OpCreateUser r \<Rightarrow> mutate ce now expected (createUserMut lib r)
      | OpUpdateUser i p \<Rightarrow> mutate ce now expected (updateUserMut lib i p)
      | OpOverrideLogin i v \<Rightarrow> OverrideLoginVerifier lib ce now i v expected
      | OpOverrideEnable i v \<Rightarrow> OverrideEnableVerifier lib ce now i v expected
      | OpDeleteUser i d \<Rightarrow> mutate ce now expected (deleteUserMut lib i d)
      | OpCreateGroup r \<Rightarrow> mutate ce now expected (createGroupMut r)
      | OpUpdateGroup i p \<Rightarrow> mutate ce now expected (updateGroupMut i p)
      | OpDeleteGroup i d \<Rightarrow> mutate ce now expected (deleteGroupMut i d)
      | OpDeleteClient i d \<Rightarrow> mutate ce now expected (deleteClientMut i d)
      | OpCreateToken r \<Rightarrow> mutate ce now expected (createTokenMut r)
      | OpDeleteToken i d \<Rightarrow> mutate ce now expected (deleteTokenMut i d))"

end
