(* ===== verification/State_View.thy ===== *)
theory State_View
  imports State_Manager
begin

text \<open>
  What a compiled snapshot shows: the merged objects are the live objects of overlay over baseline,
  and every mutation keeps the overlay well formed.
\<close>

subsection \<open>The merged view\<close>

text \<open>An overlay table holds each object under its own identifier.\<close>

definition ovOK :: "('o \<Rightarrow> string) \<Rightarrow> (string \<times> 'o ovEntry) list \<Rightarrow> bool" where
  "ovOK ident ov \<longleftrightarrow> tbl_ok (\<lambda>k e. case e of ovDeleted _ _ \<Rightarrow> True | ovLive y _ \<Rightarrow> ident y = k) ov"

lemma ovOK_live: "ovOK ident ov \<Longrightarrow> map_of ov k = Some (ovLive y m) \<Longrightarrow> ident y = k"
  unfolding ovOK_def by (drule tbl_ok_lookup) auto

text \<open>The merged objects without their metadata.\<close>

definition ovObj :: "'o ovEntry \<Rightarrow> 'o option" where
  "ovObj e = (case e of ovDeleted _ _ \<Rightarrow> None | ovLive y _ \<Rightarrow> Some y)"

definition mergedObjs :: "('o \<Rightarrow> string) \<Rightarrow> (string \<times> 'o ovEntry) list \<Rightarrow> 'o list \<Rightarrow> 'o list" where
  "mergedObjs ident ov xs =
     List.map_filter (\<lambda>x. case map_of ov (ident x) of None \<Rightarrow> Some x | Some e \<Rightarrow> ovObj e) xs @
     List.map_filter (\<lambda>i. Option.bind (map_of ov i) ovObj) (filter (\<lambda>i. i \<notin> set (map ident xs)) (sort (map fst ov)))"

lemma mergeBase_objs:
  "map ef_Obj (fst (mergeBase ident meta rv ov xs born)) =
     List.map_filter (\<lambda>x. case map_of ov (ident x) of None \<Rightarrow> Some x | Some e \<Rightarrow> ovObj e) xs"
proof (induction xs arbitrary: born)
  case (Cons x xs)
  show ?case
  proof (cases "map_of ov (ident x)")
    case None
    then show ?thesis using Cons.IH [of "snd (meta x born)"] by (simp add: List.map_filter_simps case_prod_unfold Let_def)
  next
    case (Some e)
    then show ?thesis using Cons.IH [of born] by (cases e) (simp_all add: List.map_filter_simps ovObj_def case_prod_unfold Let_def)
  qed
qed (simp add: List.map_filter_simps)

lemma mergeRest_objs: "map ef_Obj (fst (mergeRest rv ov ids)) = List.map_filter (\<lambda>i. Option.bind (map_of ov i) ovObj) ids"
  by (induction rv ov ids rule: mergeRest.induct)
    (auto simp: List.map_filter_simps ovObj_def split: option.splits ovEntry.splits prod.splits)

lemma mergeObjs_objs: "map ef_Obj (fst (mergeObjs ident meta rv ov xs born)) = mergedObjs ident ov xs"
  using mergeBase_objs [of ident meta rv ov xs born]
    mergeRest_objs [of rv ov "filter (\<lambda>i. i \<notin> set (map ident xs)) (sort (map fst ov))"]
  by (simp add: mergeObjs_def mergedObjs_def case_prod_unfold Let_def)

lemma map_filter_mem: "y \<in> set (List.map_filter f xs) \<longleftrightarrow> (\<exists>x \<in> set xs. f x = Some y)"
  by (force simp: List.map_filter_def)

lemma mergedObjs_mem:
  "y \<in> set (mergedObjs ident ov xs) \<longleftrightarrow> (\<exists>k m. map_of ov k = Some (ovLive y m)) \<or> y \<in> set xs \<and> map_of ov (ident y) = None"
proof -
  have obj: "ovObj e = Some y \<longleftrightarrow> (\<exists>m. e = ovLive y m)" for e by (cases e) (auto simp: ovObj_def)
  have "(case map_of ov (ident x) of None \<Rightarrow> Some x | Some e \<Rightarrow> ovObj e) = Some y \<longleftrightarrow>
      map_of ov (ident x) = None \<and> y = x \<or> (\<exists>m. map_of ov (ident x) = Some (ovLive y m))" for x
    by (cases "map_of ov (ident x)") (auto simp: obj)
  moreover have "Option.bind (map_of ov i) ovObj = Some y \<longleftrightarrow> (\<exists>m. map_of ov i = Some (ovLive y m))" for i
    by (cases "map_of ov i") (auto simp: obj)
  ultimately have "y \<in> set (mergedObjs ident ov xs) \<longleftrightarrow>
      (\<exists>x \<in> set xs. map_of ov (ident x) = None \<and> y = x \<or> (\<exists>m. map_of ov (ident x) = Some (ovLive y m))) \<or>
      (\<exists>i \<in> set (filter (\<lambda>i. i \<notin> set (map ident xs)) (sort (map fst ov))). \<exists>m. map_of ov i = Some (ovLive y m))"
    by (simp add: mergedObjs_def map_filter_mem)
  also have "\<dots> \<longleftrightarrow> (\<exists>k m. map_of ov k = Some (ovLive y m)) \<or> y \<in> set xs \<and> map_of ov (ident y) = None" (is "?l \<longleftrightarrow> ?r")
  proof
    show "?l \<Longrightarrow> ?r" by auto
    have "?l" if k: "map_of ov k = Some (ovLive y m)" for k m
    proof (cases "k \<in> ident ` set xs")
      case False
      with map_of_fst [OF k] have "k \<in> set (filter (\<lambda>i. i \<notin> set (map ident xs)) (sort (map fst ov)))" by simp
      with k show ?thesis by blast
    qed (use k in blast)
    then show "?r \<Longrightarrow> ?l" by blast
  qed
  finally show ?thesis .
qed

lemma find_distinct: "distinct (map f xs) \<Longrightarrow> find (\<lambda>x. f x = i) xs = Some y \<longleftrightarrow> y \<in> set xs \<and> f y = i"
  by (induction xs) (auto simp: image_iff)

lemma find_eq_None: "find P xs = None \<longleftrightarrow> (\<forall>x \<in> set xs. \<not> P x)"
  by (induction xs) auto

text \<open>With distinct identifiers in the result, the merged list shows exactly the live objects.\<close>

lemma mergedObjs_live:
  assumes ok: "ovOK ident ov" and dist: "distinct (map ident (mergedObjs ident ov xs))"
  shows "find (\<lambda>y. ident y = i) (mergedObjs ident ov xs) = liveObj ov (find (\<lambda>x. ident x = i) xs) i"
proof -
  let ?L = "mergedObjs ident ov xs"
  have mem: "y \<in> set ?L \<and> ident y = i \<longleftrightarrow> (\<exists>m. map_of ov i = Some (ovLive y m)) \<or> y \<in> set xs \<and> ident y = i \<and> map_of ov i = None" for y
    using mergedObjs_mem [of y ident ov xs] ovOK_live [OF ok] by auto
  have inj: "y = z" if "y \<in> set ?L" "z \<in> set ?L" "ident y = i" "ident z = i" for y z
    using dist that by (auto simp: distinct_map dest: inj_onD [of ident])
  show ?thesis
  proof (cases "map_of ov i")
    case None
    then have "find (\<lambda>x. ident x = i) xs = Some y \<longrightarrow> y \<in> set ?L \<and> ident y = i" for y
      using mem [of y] by (auto simp: find_Some_iff)
    moreover have "find (\<lambda>x. ident x = i) xs = None \<longrightarrow> (\<forall>y \<in> set ?L. ident y \<noteq> i)"
      using mem None by (auto simp: find_eq_None)
    ultimately have "find (\<lambda>y. ident y = i) ?L = find (\<lambda>x. ident x = i) xs"
      using find_eq_None [of "\<lambda>y. ident y = i" ?L] find_distinct [OF dist] by (cases "find (\<lambda>x. ident x = i) xs") auto
    then show ?thesis using None by (simp add: liveObj_def)
  next
    case (Some e)
    show ?thesis
    proof (cases e)
      case (ovDeleted t m)
      then have "\<forall>y \<in> set ?L. ident y \<noteq> i" using mem Some by auto
      then show ?thesis using Some ovDeleted by (auto simp: liveObj_def find_eq_None)
    next
      case (ovLive z m)
      then show ?thesis using mem [of z] Some by (auto simp: liveObj_def find_distinct [OF dist])
    qed
  qed
qed

lemma byID_snoc: "byID f (xs @ [x]) = AList.update (f x) x (byID f xs)"
  by (simp add: byID_def)

lemma byID_find: "distinct (map f xs) \<Longrightarrow> map_of (byID f xs) i = find (\<lambda>x. f x = i) xs"
proof (induction xs rule: rev_induct)
  case (snoc x xs)
  then have "find (\<lambda>y. f y = f x) xs = None" by (force simp: find_eq_None image_iff)
  with snoc show ?case by (auto simp: byID_snoc update_conv' find_append split: option.splits)
qed (simp add: byID_def)

lemma byID_view:
  assumes "distinct (map ident (map ef_Obj us))"
  shows "map_option ef_Obj (map_of (byID (\<lambda>u. ident (ef_Obj u)) (map (\<lambda>u. u\<lparr>ef_Meta := g u\<rparr>) us)) i) = find (\<lambda>y. ident y = i) (map ef_Obj us)"
proof -
  have "distinct (map (\<lambda>u. ident (ef_Obj u)) (map (\<lambda>u. u\<lparr>ef_Meta := g u\<rparr>) us))" using assms by (simp add: comp_def)
  then show ?thesis by (simp add: byID_find find_map option.map_comp comp_def)
qed

subsection \<open>What a compiled snapshot shows\<close>

definition overlayOK :: "overlay \<Rightarrow> bool" where
  "overlayOK ov \<longleftrightarrow> ovOK us_ID (ov_users ov) \<and> ovOK gr_ID (ov_groups ov) \<and> ovOK cl_ID (ov_clients ov) \<and> ovOK tk_ID (ov_tokens ov) \<and>
     distinct (map fst (ov_secrets ov))"

text \<open>The document a baseline and an overlay stand for.\<close>

definition effectiveDoc :: "Document \<Rightarrow> overlay \<Rightarrow> Document" where
  "effectiveDoc base ov =
     synthDoc base (case ov_fallback ov of None \<Rightarrow> doc_FallbackRules base | Some fb \<Rightarrow> fb)
       (mergedObjs us_ID (ov_users ov) (doc_Users base)) (mergedObjs gr_ID (ov_groups ov) (doc_Groups base))
       (mergedObjs cl_ID (ov_clients ov) (doc_Clients base)) (mergedObjs tk_ID (ov_tokens ov) (map bootRecord (doc_BootstrapTokens base)))"

lemmas merge_defs = mergeUsers_def mergeGroups_def mergeClients_def mergeTokens_def

definition snapOf :: "'re compileEnv \<Rightarrow> 're Manager \<Rightarrow> Document \<Rightarrow> overlay \<Rightarrow> uint64 \<Rightarrow> int \<Rightarrow> 're StateSnapshot \<Rightarrow> bool" where
  "snapOf ce m base ov rv now snap \<longleftrightarrow>
     sn_Revision snap = rv \<and> sn_CompiledAt snap = now \<and> sn_settings snap = Some base \<and> sn_runtimeSecrets snap = ov_secrets ov \<and>
     validateDocument (ce_ve ce) (effectiveDoc base ov) = Inr () \<and>
     (\<exists>pol. sn_tacacsPolicies snap = Some pol \<and>
        Compile (ve_reCompile (ce_ve ce)) (ce_isIP ce) (ce_tzdb ce) (policyInput (effectiveDoc base ov)) = Inr pol) \<and>
     (\<exists>rp. sn_radiusPolicies snap = Some rp \<and> radius_CompileDocument (effectiveDoc base ov) = Inr rp) \<and>
     (\<exists>ix. sn_indexes snap = Some ix \<and> compileIndexes (ce_equalFold ce) (doc_Clients (effectiveDoc base ov)) = Inr ix) \<and>
     (\<exists>us. map ef_Obj us = doc_Users (effectiveDoc base ov) \<and>
        sn_users snap = byID (\<lambda>u. us_ID (ef_Obj u)) (map (\<lambda>u. u\<lparr>ef_Meta := (ef_Meta u)\<lparr>om_EffectiveRevision := rv\<rparr>\<rparr>) us)) \<and>
     (\<exists>gs. map ef_Obj gs = doc_Groups (effectiveDoc base ov) \<and>
        sn_groups snap = byID (\<lambda>g. gr_ID (ef_Obj g)) (map (\<lambda>g. g\<lparr>ef_Meta := (ef_Meta g)\<lparr>om_EffectiveRevision := rv\<rparr>\<rparr>) gs)) \<and>
     (\<exists>cs. map ef_Obj cs = doc_Clients (effectiveDoc base ov) \<and>
        sn_clients snap = byID (\<lambda>c. cl_ID (ef_Obj c)) (map (\<lambda>c. c\<lparr>ef_Meta := (ef_Meta c)\<lparr>om_EffectiveRevision := rv\<rparr>\<rparr>) cs)) \<and>
     (\<exists>ts. map ef_Obj ts = mergedObjs tk_ID (ov_tokens ov) (map bootRecord (doc_BootstrapTokens base)) \<and>
        sn_tokens snap = byID et_ID (map (tokenFromRecord rv (mg_current m) (sn_tokenDigests snap)) ts)) \<and>
     indexTokenDigests (ce_lookup ce) base (mergedObjs tk_ID (ov_tokens ov) (map bootRecord (doc_BootstrapTokens base))) =
       Inr (sn_tokenDigests snap, sn_tokenIndex snap)"

lemma merge_objs:
  "map ef_Obj (fst (mergeUsers base ov rv now born)) = mergedObjs us_ID (ov_users ov) (doc_Users base)"
  "map ef_Obj (fst (mergeGroups base ov rv now born)) = mergedObjs gr_ID (ov_groups ov) (doc_Groups base)"
  "map ef_Obj (fst (mergeClients base ov rv now born)) = mergedObjs cl_ID (ov_clients ov) (doc_Clients base)"
  "map ef_Obj (fst (mergeTokens base ov rv now born)) = mergedObjs tk_ID (ov_tokens ov) (map bootRecord (doc_BootstrapTokens base))"
  by (simp_all add: merge_defs mergeObjs_objs)

lemma compile_snapOf:
  assumes "compile ce m base ov rv now touch = Inr (snap, born)"
  shows "snapOf ce m base ov rv now snap"
proof -
  define b0 where "b0 = (if touch then touchBaselineStamps base rv now (mg_born m) else mg_born m)"
  obtain us ut b1 where us: "mergeUsers base ov rv now b0 = (us, ut, b1)" by (cases "mergeUsers base ov rv now b0") auto
  obtain gs gt b2 where gs: "mergeGroups base ov rv now b1 = (gs, gt, b2)" by (cases "mergeGroups base ov rv now b1") auto
  obtain cs ct b3 where cs: "mergeClients base ov rv now b2 = (cs, ct, b3)" by (cases "mergeClients base ov rv now b2") auto
  obtain ts tt b4 where ts: "mergeTokens base ov rv now b3 = (ts, tt, b4)" by (cases "mergeTokens base ov rv now b3") auto
  have objs: "map ef_Obj us = mergedObjs us_ID (ov_users ov) (doc_Users base)"
    "map ef_Obj gs = mergedObjs gr_ID (ov_groups ov) (doc_Groups base)"
    "map ef_Obj cs = mergedObjs cl_ID (ov_clients ov) (doc_Clients base)"
    "map ef_Obj ts = mergedObjs tk_ID (ov_tokens ov) (map bootRecord (doc_BootstrapTokens base))"
    using merge_objs [of base ov rv now] us gs cs ts by (metis fst_conv)+
  show ?thesis
    using assms us gs cs ts objs [symmetric]
    unfolding compile_def b0_def [symmetric] snapOf_def effectiveDoc_def
    by (auto simp: Let_def rbind_eq_Inr synthDoc_def split: if_splits prod.splits)
qed

lemma liveObj_ident: "ovOK ident ov \<Longrightarrow> liveObj ov (find (\<lambda>x. ident x = i) xs) i = Some y \<Longrightarrow> ident y = i"
  by (auto simp: liveObj_def find_Some_iff dest: ovOK_live split: option.splits ovEntry.splits)

lemma live_User_ID: "overlayOK ov \<Longrightarrow> live_User base ov i = Some u \<Longrightarrow> us_ID u = i"
  using liveObj_ident [of us_ID "ov_users ov" i "doc_Users base" u] by (simp add: overlayOK_def live_User_def baselineUser_def)

lemma live_Group_ID: "overlayOK ov \<Longrightarrow> live_Group base ov i = Some g \<Longrightarrow> gr_ID g = i"
  using liveObj_ident [of gr_ID "ov_groups ov" i "doc_Groups base" g] by (simp add: overlayOK_def live_Group_def baselineGroup_def)

lemma snapOf_distinct:
  assumes "snapOf ce m base ov rv now snap"
  shows "distinct (map us_ID (mergedObjs us_ID (ov_users ov) (doc_Users base)))"
    "distinct (map gr_ID (mergedObjs gr_ID (ov_groups ov) (doc_Groups base)))"
    "distinct (map cl_ID (mergedObjs cl_ID (ov_clients ov) (doc_Clients base)))"
    "docOK (ve_reCompile (ce_ve ce)) (effectiveDoc base ov)"
  using assms by (auto simp: snapOf_def validateDocument_iff docOK_def effectiveDoc_def synthDoc_def)

lemma snapOf_view:
  assumes snap: "snapOf ce m base ov rv now snap" and ok: "overlayOK ov"
  shows "snap_User snap i = live_User base ov i" "snap_Group snap i = live_Group base ov i" "snap_Client snap i = live_Client base ov i"
proof -
  note dist = snapOf_distinct [OF snap]
  obtain us gs cs where
    "map ef_Obj us = mergedObjs us_ID (ov_users ov) (doc_Users base)" "sn_users snap = byID (\<lambda>u. us_ID (ef_Obj u)) (map (\<lambda>u. u\<lparr>ef_Meta := (ef_Meta u)\<lparr>om_EffectiveRevision := rv\<rparr>\<rparr>) us)"
    "map ef_Obj gs = mergedObjs gr_ID (ov_groups ov) (doc_Groups base)" "sn_groups snap = byID (\<lambda>g. gr_ID (ef_Obj g)) (map (\<lambda>g. g\<lparr>ef_Meta := (ef_Meta g)\<lparr>om_EffectiveRevision := rv\<rparr>\<rparr>) gs)"
    "map ef_Obj cs = mergedObjs cl_ID (ov_clients ov) (doc_Clients base)" "sn_clients snap = byID (\<lambda>c. cl_ID (ef_Obj c)) (map (\<lambda>c. c\<lparr>ef_Meta := (ef_Meta c)\<lparr>om_EffectiveRevision := rv\<rparr>\<rparr>) cs)"
    using snap by (auto simp: snapOf_def effectiveDoc_def synthDoc_def)
  note views = this
  have ovs: "ovOK us_ID (ov_users ov)" "ovOK gr_ID (ov_groups ov)" "ovOK cl_ID (ov_clients ov)" using ok by (simp_all add: overlayOK_def)
  show "snap_User snap i = live_User base ov i"
    using byID_view [of us_ID us _ i] views(1,2) dist(1) mergedObjs_live [OF ovs(1) dist(1)]
    by (simp add: snap_User_def live_User_def baselineUser_def)
  show "snap_Group snap i = live_Group base ov i"
    using byID_view [of gr_ID gs _ i] views(3,4) dist(2) mergedObjs_live [OF ovs(2) dist(2)]
    by (simp add: snap_Group_def live_Group_def baselineGroup_def)
  show "snap_Client snap i = live_Client base ov i"
    using byID_view [of cl_ID cs _ i] views(5,6) dist(3) mergedObjs_live [OF ovs(3) dist(3)]
    by (simp add: snap_Client_def live_Client_def baselineClient_def)
qed

subsection \<open>Mutations keep the overlay well formed\<close>

definition mutOK :: "mutation \<Rightarrow> bool" where
  "mutOK f \<longleftrightarrow> (\<forall>base ov now rv ov' nb. overlayOK ov \<longrightarrow> f base ov now rv = Inr (ov', nb) \<longrightarrow> overlayOK ov')"

lemma mutOKD: "mutOK f \<Longrightarrow> overlayOK ov \<Longrightarrow> f base ov now rv = Inr (ov', nb) \<Longrightarrow> overlayOK ov'"
  unfolding mutOK_def by blast

lemma ovOK_update: "ovOK ident ov \<Longrightarrow> ident y = k \<Longrightarrow> ovOK ident (AList.update k (ovLive y m) ov)"
  by (simp add: ovOK_def tbl_ok_update)

lemma ovOK_deleteObj: "ovOK ident ov \<Longrightarrow> deleteObj kind i dm rv now opts inBase e ov = Inr ov' \<Longrightarrow> ovOK ident ov'"
  by (auto simp: deleteObj_def ovOK_def Let_def tbl_ok_delete tbl_ok_update split: if_splits)

lemma overlayOK_new [simp]: "overlayOK newOverlay"
  by (simp add: overlayOK_def newOverlay_def ovOK_def)

lemma overlayOK_prune: "overlayOK ov \<Longrightarrow> overlayOK (pruneOverlaySecrets ov)"
  by (simp add: overlayOK_def pruneOverlaySecrets_def distinct_map_filter)

lemma guarded_Inr: "(if b then Inl e else r) = Inr u \<longleftrightarrow> \<not> b \<and> r = Inr u"
  by simp

lemma applyUserPatch_ID: "applyUserPatch cur p = Inr u \<Longrightarrow> us_ID u = us_ID cur"
  unfolding applyUserPatch_def Let_def rbind_eq_Inr guarded_Inr
  by (elim exE conjE) (auto simp: if_distrib [of us_ID] option.case_distrib [of us_ID] cong: if_cong option.case_cong split: option.split)

lemma userFromCreate_ID: "userFromCreate b i p = Inr u \<Longrightarrow> us_ID u = i"
  by (auto simp: userFromCreate_def Let_def dest: applyUserPatch_ID)

lemma putUser_OK: "overlayOK ov \<Longrightarrow> us_ID u = i \<Longrightarrow> overlayOK (putUser i src sh rv now prev u ov)"
  by (simp add: overlayOK_def putUser_def ovOK_update)

lemma putGroup_OK: "overlayOK ov \<Longrightarrow> gr_ID g = i \<Longrightarrow> overlayOK (putGroup i inBase rv now g ov)"
  by (simp add: overlayOK_def putGroup_def ovOK_update)

lemma groupPatch_ID [simp]: "gr_ID (applyGroupPatch g p) = gr_ID g" "gr_ID (groupFromCreate b i p) = i"
  by (simp_all add: applyGroupPatch_def groupFromCreate_def Let_def)

lemma editUser_OK:
  assumes "\<And>i cur ov u ov'. overlayOK ov \<Longrightarrow> f i cur ov = Inr (u, ov') \<Longrightarrow> overlayOK ov' \<and> us_ID u = us_ID cur"
  shows "mutOK (editUser lib userID f)"
  unfolding mutOK_def
proof (intro allI impI)
  fix base ov now rv ov' nb
  assume ok: "overlayOK ov" and "editUser lib userID f base ov now rv = Inr (ov', nb)"
  then obtain i cur u ov1 src sh prev where "live_User base ov i = Some cur" "f i cur ov = Inr (u, ov1)" "ov' = putUser i src sh rv now prev u ov1"
    by (auto simp: editUser_def Let_def rbind_eq_Inr split: option.splits if_splits)
  then show "overlayOK ov'" using assms [OF ok] live_User_ID [OF ok] by (simp add: putUser_OK)
qed

lemma mutations_OK:
  "mutOK (reloadMut d)" "mutOK resetMut" "mutOK (createUserMut lib r)" "mutOK (updateUserMut lib i p)"
  "mutOK (overrideLoginMut lib i v)" "mutOK (overrideEnableMut lib i v)" "mutOK (deleteUserMut lib i opts)"
  "mutOK (createGroupMut cg)" "mutOK (updateGroupMut i ug)" "mutOK (deleteGroupMut i opts)" "mutOK (deleteClientMut i opts)"
  "mutOK (createTokenMut ct)" "mutOK (deleteTokenMut i opts)"
proof -
  show "mutOK (reloadMut d)" "mutOK resetMut" by (auto simp: mutOK_def reloadMut_def resetMut_def split: if_splits)
  show "mutOK (createUserMut lib r)"
    by (auto simp: mutOK_def createUserMut_def Let_def rbind_eq_Inr putUser_OK userFromCreate_ID split: if_splits option.splits)
  show "mutOK (updateUserMut lib i p)"
    unfolding updateUserMut_def by (rule editUser_OK) (auto simp: rbind_eq_Inr applyUserPatch_ID)
  show "mutOK (overrideLoginMut lib i v)"
    unfolding overrideLoginMut_def by (rule editUser_OK) (auto simp: Let_def overlayOK_def distinct_update)
  show "mutOK (overrideEnableMut lib i v)"
    unfolding overrideEnableMut_def by (rule editUser_OK) (auto simp: Let_def overlayOK_def distinct_update)
  show "mutOK (deleteUserMut lib i opts)"
    by (auto simp: mutOK_def deleteUserMut_def rbind_eq_Inr overlayOK_def dest: ovOK_deleteObj)
  show "mutOK (createGroupMut cg)"
    by (auto simp: mutOK_def createGroupMut_def Let_def rbind_eq_Inr putGroup_OK split: if_splits option.splits)
  show "mutOK (updateGroupMut i ug)"
    by (auto simp: mutOK_def updateGroupMut_def Let_def rbind_eq_Inr putGroup_OK live_Group_ID split: if_splits option.splits)
  show "mutOK (deleteGroupMut i opts)" "mutOK (deleteClientMut i opts)" "mutOK (deleteTokenMut i opts)"
    by (auto simp: mutOK_def deleteGroupMut_def deleteClientMut_def deleteTokenMut_def rbind_eq_Inr overlayOK_def dest: ovOK_deleteObj)
  show "mutOK (createTokenMut ct)"
    by (auto simp: mutOK_def createTokenMut_def Let_def rbind_eq_Inr overlayOK_def ovOK_update split: if_splits)
qed

end
