(* ===== verification/State_Publish.thy ===== *)
theory State_Publish
  imports State_View
begin

text \<open>
  The manager as a transition system: its invariant, atomic publication with optimistic
  revisions, and what replacing a password verifier publishes.
\<close>

subsection \<open>The manager\<close>

text \<open>Every mutation goes through \<open>mutate\<close>, the verifier overrides after a check of the verifier.\<close>

definition opMut :: "credLib \<Rightarrow> mutOp \<Rightarrow> mutation" where
  "opMut lib oper =
     (case oper of
        OpReload d \<Rightarrow> reloadMut d | OpReset \<Rightarrow> resetMut
      | OpCreateUser r \<Rightarrow> createUserMut lib r | OpUpdateUser i p \<Rightarrow> updateUserMut lib i p
      | OpOverrideLogin i v \<Rightarrow> overrideLoginMut lib i v | OpOverrideEnable i v \<Rightarrow> overrideEnableMut lib i v
      | OpDeleteUser i d \<Rightarrow> deleteUserMut lib i d
      | OpCreateGroup r \<Rightarrow> createGroupMut r | OpUpdateGroup i p \<Rightarrow> updateGroupMut i p | OpDeleteGroup i d \<Rightarrow> deleteGroupMut i d
      | OpDeleteClient i d \<Rightarrow> deleteClientMut i d
      | OpCreateToken r \<Rightarrow> createTokenMut r | OpDeleteToken i d \<Rightarrow> deleteTokenMut i d)"

lemma opMut_OK: "mutOK (opMut lib oper)"
  by (cases oper) (simp_all add: opMut_def mutations_OK)

lemma runOp_mutate:
  "runOp lib ce now expected oper m = mutate ce now expected (opMut lib oper) m \<or>
   (\<exists>e. runOp lib ce now expected oper m = (m, Inl e))"
  by (cases oper) (auto simp: runOp_def opMut_def OverrideLoginVerifier_def OverrideEnableVerifier_def split: sum.splits)

lemma mutate_cases:
  assumes "mutate ce now expected f m = (m', r)"
  obtains (failed) e where "r = Inl e" "m' = m"
  | (published) ov nb base snap born where "expected = None \<or> expected = Some (mg_revision m)"
      "f (mg_baseline m) (mg_overlay m) now (mg_revision m + 1) = Inr (ov, nb)" "base = (case nb of None \<Rightarrow> mg_baseline m | Some b \<Rightarrow> b)"
      "compile ce m base (pruneOverlaySecrets ov) (mg_revision m + 1) now (nb \<noteq> None) = Inr (snap, born)" "r = Inr snap"
      "m' = m\<lparr>mg_baseline := base, mg_overlay := pruneOverlaySecrets ov, mg_born := born, mg_revision := mg_revision m + 1, mg_current := Some snap\<rparr>"
proof (cases r)
  case (Inl e)
  with assms show ?thesis by (intro failed) (auto simp: mutate_def Let_def split: sum.splits prod.splits)
next
  case (Inr snap)
  with assms show ?thesis
    by (auto simp: mutate_def checkRevision_def Let_def split: sum.splits prod.splits option.splits if_splits intro!: published)
qed

inductive mgr_reach :: "credLib \<Rightarrow> 're compileEnv \<Rightarrow> 're Manager \<Rightarrow> bool" for lib ce where
  init: "NewManager ce now d = Inr m \<Longrightarrow> mgr_reach lib ce m"
| step: "mgr_reach lib ce m \<Longrightarrow> runOp lib ce now expected oper m = (m', r) \<Longrightarrow> mgr_reach lib ce m'"

definition mgrOK :: "'re compileEnv \<Rightarrow> 're Manager \<Rightarrow> bool" where
  "mgrOK ce m \<longleftrightarrow> overlayOK (mg_overlay m) \<and> set (map fst (ov_secrets (mg_overlay m))) \<subseteq> set (liveRefs (ov_users (mg_overlay m))) \<and>
     (\<exists>snap m0 now. mg_current m = Some snap \<and> snapOf ce m0 (mg_baseline m) (mg_overlay m) (mg_revision m) now snap)"

lemma prune_keys: "set (map fst (ov_secrets (pruneOverlaySecrets ov))) \<subseteq> set (liveRefs (ov_users (pruneOverlaySecrets ov)))"
  by (auto simp: pruneOverlaySecrets_def)

lemma mutate_mgrOK:
  assumes "mutOK f" "mgrOK ce m" "mutate ce now expected f m = (m', r)"
  shows "mgrOK ce m'"
  using assms(3)
proof (cases rule: mutate_cases)
  case (published ov nb base snap born)
  have ok: "overlayOK (pruneOverlaySecrets ov)"
    using assms(2) mutOKD [OF assms(1) _ published(2)] by (simp add: mgrOK_def overlayOK_prune)
  have "snapOf ce m base (pruneOverlaySecrets ov) (mg_revision m + 1) now snap"
    using published(4) by (rule compile_snapOf)
  with ok prune_keys [of ov] published(6) show ?thesis by (auto simp: mgrOK_def)
qed (use assms(2) in simp)

lemma mgr_reach_OK: "mgr_reach lib ce m \<Longrightarrow> mgrOK ce m"
proof (induction rule: mgr_reach.induct)
  case (init now d m)
  then obtain snap born m0 where "compile ce m0 d newOverlay 1 now True = Inr (snap, born)"
    "m = m0\<lparr>mg_born := born, mg_revision := 1, mg_current := Some snap\<rparr>" "mg_baseline m0 = d" "mg_overlay m0 = newOverlay"
    by (auto simp: NewManager_def Let_def rbind_eq_Inr)
  then show ?case using compile_snapOf [of ce m0 d newOverlay 1 now True snap born]
    by (auto simp: mgrOK_def newOverlay_def overlayOK_def ovOK_def)
next
  case (step m now expected oper m' r)
  then consider "mutate ce now expected (opMut lib oper) m = (m', r)" | "m' = m"
    using runOp_mutate [of lib ce now expected oper m] by auto
  then show ?case using mutate_mgrOK [OF opMut_OK step.IH] step.IH by cases auto
qed

text \<open>
  Property C29. The published snapshot refines overlay over baseline: in every state the manager reaches, a
  snapshot of the manager's revision is published; its users, groups and clients are exactly the
  live ones (an overlay entry replaces the baseline object, a tombstone hides it); the effective
  document it was compiled from is valid: unique identifiers, existing references, distinct and
  compilable rules, object counts within the caps; and every runtime secret it holds is
  referenced by a live overlay user.
\<close>

theorem published_view:
  assumes "mgr_reach lib ce m"
  shows "\<exists>snap. mg_current m = Some snap \<and> sn_Revision snap = mg_revision m \<and>
    (\<forall>i. snap_User snap i = live_User (mg_baseline m) (mg_overlay m) i \<and>
         snap_Group snap i = live_Group (mg_baseline m) (mg_overlay m) i \<and>
         snap_Client snap i = live_Client (mg_baseline m) (mg_overlay m) i) \<and>
    docOK (ve_reCompile (ce_ve ce)) (effectiveDoc (mg_baseline m) (mg_overlay m)) \<and>
    set (map fst (sn_runtimeSecrets snap)) \<subseteq> set (liveRefs (ov_users (mg_overlay m)))"
proof -
  from mgr_reach_OK [OF assms] obtain snap m0 now where ok: "overlayOK (mg_overlay m)"
    "set (map fst (ov_secrets (mg_overlay m))) \<subseteq> set (liveRefs (ov_users (mg_overlay m)))" and cur: "mg_current m = Some snap"
    and so: "snapOf ce m0 (mg_baseline m) (mg_overlay m) (mg_revision m) now snap" by (auto simp: mgrOK_def)
  have "sn_Revision snap = mg_revision m" "sn_runtimeSecrets snap = ov_secrets (mg_overlay m)" using so by (simp_all add: snapOf_def)
  with cur ok snapOf_view [OF so ok(1)] snapOf_distinct(4) [OF so] show ?thesis by auto
qed

text \<open>
  Property C30. Mutations are atomic and optimistic: an operation that fails leaves the manager as it was; one
  that succeeds found the expected revision, if one was given, raises the revision by
  exactly one and publishes the snapshot it returns. Of two operations that expect the same
  revision at most one succeeds: after the first succeeds the second fails.
\<close>

theorem mutation_atomic:
  assumes "runOp lib ce now expected oper m = (m', r)"
  shows "(case r of
      Inl e \<Rightarrow> m' = m
    | Inr snap \<Rightarrow> (expected = None \<or> expected = Some (mg_revision m)) \<and> mg_revision m' = mg_revision m + 1 \<and>
        mg_current m' = Some snap \<and> sn_Revision snap = mg_revision m + 1 \<and>
        (expected \<noteq> None \<longrightarrow> (\<exists>e. runOp lib ce now2 expected oper2 m' = (m', Inl e))))"
proof -
  have step: "(case r of Inl e \<Rightarrow> m' = m | Inr snap \<Rightarrow> (expected = None \<or> expected = Some (mg_revision m)) \<and>
      mg_revision m' = mg_revision m + 1 \<and> mg_current m' = Some snap \<and> sn_Revision snap = mg_revision m + 1)"
    if "mutate ce now expected f m = (m', r)" for f
    using that by (cases rule: mutate_cases) (auto simp: snapOf_def dest: compile_snapOf)
  have stale: "\<exists>e. runOp lib ce now2 (Some k) oper2 m' = (m', Inl e)" if "k \<noteq> mg_revision m'" for k
    using runOp_mutate [of lib ce now2 "Some k" oper2 m'] that by (auto simp: mutate_def checkRevision_def)
  have main: "(case r of Inl e \<Rightarrow> m' = m | Inr snap \<Rightarrow> (expected = None \<or> expected = Some (mg_revision m)) \<and>
      mg_revision m' = mg_revision m + 1 \<and> mg_current m' = Some snap \<and> sn_Revision snap = mg_revision m + 1)"
  proof (cases "mutate ce now expected (opMut lib oper) m = (m', r)")
    case False
    with runOp_mutate [of lib ce now expected oper m] assms obtain e where "(m', r) = (m, Inl e)" by auto
    then show ?thesis by simp
  qed (rule step)
  show ?thesis
  proof (cases r)
    case (Inr snap)
    with main have "mg_revision m' = mg_revision m + 1" "expected = None \<or> expected = Some (mg_revision m)" by simp_all
    then have "expected \<noteq> None \<longrightarrow> (\<exists>e. runOp lib ce now2 expected oper2 m' = (m', Inl e))" using stale [of "mg_revision m"] by auto
    with main Inr show ?thesis by simp
  qed (use main in simp)
qed

subsection \<open>Replacing a password verifier\<close>

lemma live_User_put:
  "live_User base (putUser i src sh rv now prev u ov) j = (if j = i then Some u else live_User base ov j)"
  by (simp add: live_User_def liveObj_def putUser_def update_conv')

lemma live_User_secrets [simp]:
  "live_User base (ov\<lparr>ov_secrets := s\<rparr>) j = live_User base ov j" "live_User base (pruneOverlaySecrets ov) j = live_User base ov j"
  by (simp_all add: live_User_def pruneOverlaySecrets_def)

lemma liveRefs_mem:
  "(i, ovLive u m) \<in> set us \<Longrightarrow> k \<noteq> '''' \<Longrightarrow> k = ref_MemoryID (us_Login u) \<or> k = ref_MemoryID (us_Enable u) \<or> k = ref_MemoryID (us_Challenge u) \<Longrightarrow>
     k \<in> set (liveRefs us)"
  unfolding liveRefs_def by (auto simp: set_concat intro!: bexI [of _ "(i, ovLive u m)"])

lemma liveRefs_put:
  assumes "k \<noteq> ''''" "k \<in> {ref_MemoryID (us_Login u), ref_MemoryID (us_Enable u), ref_MemoryID (us_Challenge u)}"
  shows "k \<in> set (liveRefs (ov_users (putUser i src sh rv now prev u ov)))"
proof -
  obtain mt where "map_of (ov_users (putUser i src sh rv now prev u ov)) i = Some (ovLive u mt)" by (simp add: putUser_def update_conv')
  then have "(i, ovLive u mt) \<in> set (ov_users (putUser i src sh rv now prev u ov))" by (rule map_of_SomeD)
  then show ?thesis using assms by (intro liveRefs_mem) auto
qed

lemma prune_lookup: "k \<in> set (liveRefs (ov_users ov)) \<Longrightarrow> map_of (ov_secrets (pruneOverlaySecrets ov)) k = map_of (ov_secrets ov) k"
proof -
  have filt: "P k \<Longrightarrow> map_of (filter (\<lambda>(k, _). P k) al) k = map_of al k" for P and al :: "(string \<times> bytes) list"
    by (induction al) auto
  show "k \<in> set (liveRefs (ov_users ov)) \<Longrightarrow> map_of (ov_secrets (pruneOverlaySecrets ov)) k = map_of (ov_secrets ov) k"
    using filt [of "\<lambda>k. k \<in> set (liveRefs (ov_users ov))" "ov_secrets ov"] by (simp add: pruneOverlaySecrets_def)
qed

text \<open>What a successful override of a verifier publishes, for the login and the enable verifier alike.\<close>

lemma override_effect:
  assumes ok: "mgrOK ce m"
    and mut: "mutate ce now expected (editUser lib userID (\<lambda>i cur ov. Inr (g i cur, ov\<lparr>ov_secrets := AList.update (h i) v (ov_secrets ov)\<rparr>))) m = (m', Inr snap)"
    and ID: "\<And>i cur. us_ID (g i cur) = us_ID cur"
    and ref: "\<And>i cur. h i \<noteq> '''' \<and> h i \<in> {ref_MemoryID (us_Login (g i cur)), ref_MemoryID (us_Enable (g i cur)), ref_MemoryID (us_Challenge (g i cur))}"
  obtains i cur where "NormalizeUserID lib userID = Inr i" "live_User (mg_baseline m) (mg_overlay m) i = Some cur"
    "snap_User snap i = Some (g i cur)" "RuntimeSecret snap (h i) = Some v" "mg_current m' = Some snap" "mgrOK ce m'"
    "\<And>j. j \<noteq> i \<Longrightarrow> snap_User snap j = live_User (mg_baseline m) (mg_overlay m) j"
  using mut
proof (cases rule: mutate_cases)
  case (published ov nb base snap' born)
  then obtain i cur src sh prev where i: "NormalizeUserID lib userID = Inr i" and cur: "live_User (mg_baseline m) (mg_overlay m) i = Some cur"
    and ov: "ov = putUser i src sh (mg_revision m + 1) now prev (g i cur) ((mg_overlay m)\<lparr>ov_secrets := AList.update (h i) v (ov_secrets (mg_overlay m))\<rparr>)"
    and nb: "nb = None" and snap': "snap' = snap"
    by (auto simp: editUser_def Let_def rbind_eq_Inr split: option.splits if_splits)
  have base: "base = mg_baseline m" using published(3) nb by simp
  have okm: "overlayOK (mg_overlay m)" using ok by (simp add: mgrOK_def)
  then have okov: "overlayOK (pruneOverlaySecrets ov)"
    unfolding ov by (intro overlayOK_prune putUser_OK) (use okm live_User_ID [OF okm cur] ID in \<open>auto simp: overlayOK_def distinct_update\<close>)
  have so: "snapOf ce m base (pruneOverlaySecrets ov) (mg_revision m + 1) now snap"
    using published(4) snap' by (auto intro: compile_snapOf)
  have view: "snap_User snap j = (if j = i then Some (g i cur) else live_User (mg_baseline m) (mg_overlay m) j)" for j
    using snapOf_view(1) [OF so okov, of j] by (simp add: base ov live_User_put)
  have "RuntimeSecret snap (h i) = map_of (ov_secrets (pruneOverlaySecrets ov)) (h i)"
    using so ref by (simp add: RuntimeSecret_def snapOf_def)
  also have "\<dots> = map_of (ov_secrets ov) (h i)"
    using ref unfolding ov by (intro prune_lookup liveRefs_put) auto
  also have "\<dots> = Some v" by (simp add: ov putUser_def update_conv')
  finally have "RuntimeSecret snap (h i) = Some v" .
  moreover have "mgrOK ce m'"
    using okov so prune_keys [of ov] published(6) snap' by (auto simp: mgrOK_def)
  ultimately show ?thesis using that [OF i cur] view published(6) snap' by simp
qed simp

subsection \<open>Bearer tokens\<close>

text \<open>Why a digest is in the index: it is the stored digest of a live token, or that of its secret file.\<close>

definition tokenBasis :: "(SecretRef \<Rightarrow> Error + bytes) option \<Rightarrow> Document \<Rightarrow> tokenRecord list \<Rightarrow> bytes \<Rightarrow> string \<Rightarrow> bool" where
  "tokenBasis lookup base toks k i \<longleftrightarrow>
     (\<exists>t \<in> set toks. tk_ID t = i \<and> tk_Digest t \<noteq> [] \<and> k = DigestIndex (tk_Digest t)) \<or>
     (\<exists>b \<in> set (doc_BootstrapTokens base). \<exists>f raw. bt_ID b = i \<and> lookup = Some f \<and> f (bt_Token b) = Inr raw \<and> k = DigestIndex (DigestToken raw) \<and>
        (\<forall>t \<in> set toks. tk_ID t = i \<longrightarrow> tk_Digest t = []))"

definition idxOK :: "(bytes \<Rightarrow> string \<Rightarrow> bool) \<Rightarrow> (bytes \<times> string) list \<Rightarrow> bool" where
  "idxOK P idx \<longleftrightarrow> (\<forall>k i. map_of idx k = Some i \<longrightarrow> P k i)"

lemma putTokenDigest_idxOK: "putTokenDigest d i idx = Inr idx' \<Longrightarrow> idxOK P idx \<Longrightarrow> (d \<noteq> [] \<Longrightarrow> P (DigestIndex d) i) \<Longrightarrow> idxOK P idx'"
  by (auto simp: putTokenDigest_def idxOK_def update_conv' split: if_splits option.splits)

lemma overlayDigests_idxOK:
  "overlayDigests ts (digs, idx) = Inr (digs', idx') \<Longrightarrow> idxOK P idx \<Longrightarrow>
     (\<And>t. t \<in> set ts \<Longrightarrow> tk_Digest t \<noteq> [] \<Longrightarrow> P (DigestIndex (tk_Digest t)) (tk_ID t)) \<Longrightarrow> idxOK P idx'"
  by (induction ts arbitrary: digs idx) (auto simp: rbind_eq_Inr split: if_splits dest: putTokenDigest_idxOK)

lemma bootDigests_idxOK:
  "bootDigests f toks bs (digs, idx) = Inr (digs', idx') \<Longrightarrow> idxOK P idx \<Longrightarrow>
     (\<And>b raw. b \<in> set bs \<Longrightarrow> f (bt_Token b) = Inr raw \<Longrightarrow> (\<forall>t \<in> set toks. tk_ID t = bt_ID b \<longrightarrow> tk_Digest t = []) \<Longrightarrow>
        P (DigestIndex (DigestToken raw)) (bt_ID b)) \<Longrightarrow> idxOK P idx'"
proof (induction bs arbitrary: digs idx)
  case (Cons b bs)
  show ?case
  proof (cases "bt_ID b \<notin> set (map tk_ID toks) \<or> (\<exists>t \<in> set toks. tk_ID t = bt_ID b \<and> tk_Digest t \<noteq> []) \<or> \<not> SecretRef_Set (bt_Token b)")
    case True
    with Cons.prems show ?thesis by (auto split: if_splits intro: Cons.IH)
  next
    case False
    with Cons.prems(1) obtain raw idx1 where raw: "f (bt_Token b) = Inr raw" and put: "putTokenDigest (DigestToken raw) (bt_ID b) idx = Inr idx1"
      and rest: "bootDigests f toks bs (AList.update (bt_ID b) (DigestToken raw) digs, idx1) = Inr (digs', idx')"
      by (auto simp: rbind_eq_Inr Let_def split: if_splits)
    have "P (DigestIndex (DigestToken raw)) (bt_ID b)" using Cons.prems(3) [of b raw] raw False by auto
    with putTokenDigest_idxOK [OF put Cons.prems(2)] have "idxOK P idx1" by blast
    then show ?thesis using Cons.IH [OF rest] Cons.prems(3) by simp
  qed
qed simp

lemma indexTokenDigests_basis:
  assumes "indexTokenDigests lookup base toks = Inr (digs, idx)"
  shows "idxOK (tokenBasis lookup base toks) idx"
proof -
  obtain d0 i0 where ov: "overlayDigests toks ([], []) = Inr (d0, i0)"
    and boot: "(case lookup of None \<Rightarrow> Inr (d0, i0) | Some f \<Rightarrow> bootDigests f toks (doc_BootstrapTokens base) (d0, i0)) = Inr (digs, idx)"
    using assms by (auto simp: indexTokenDigests_def rbind_eq_Inr)
  have "idxOK (tokenBasis lookup base toks) i0"
    by (rule overlayDigests_idxOK [OF ov]) (auto simp: idxOK_def tokenBasis_def)
  then show ?thesis
  proof (cases lookup)
    case (Some f)
    with boot have "bootDigests f toks (doc_BootstrapTokens base) (d0, i0) = Inr (digs, idx)" by simp
    from bootDigests_idxOK [OF this \<open>idxOK _ i0\<close>] Some show ?thesis by (auto simp: tokenBasis_def)
  qed (use boot in simp)
qed

lemma DigestIndex_sha256 [simp]: "DigestIndex (sha256 b) = sha256 b"
  by (simp add: DigestIndex_def)

lemma byID_mem: "map_of (byID f xs) i = Some x \<Longrightarrow> x \<in> set xs \<and> f x = i"
proof (induction xs rule: rev_induct)
  case (snoc y xs)
  then show ?case by (auto simp: byID_snoc update_conv' split: if_splits)
qed (simp add: byID_def)

lemma token_live:
  assumes so: "snapOf ce m base ov rv now snap" and ok: "overlayOK ov"
    and t: "t \<in> set (mergedObjs tk_ID (ov_tokens ov) (map bootRecord (doc_BootstrapTokens base)))"
  shows "live_Token base ov (tk_ID t) = Some t"
proof -
  let ?ts = "mergedObjs tk_ID (ov_tokens ov) (map bootRecord (doc_BootstrapTokens base))"
  have okt: "ovOK tk_ID (ov_tokens ov)" using ok by (simp add: overlayOK_def)
  have dist: "distinct (map bt_ID (filter (\<lambda>b. bt_ID b \<in> set (map tk_ID ?ts)) (doc_BootstrapTokens base)))"
    using snapOf_distinct(4) [OF so] by (simp add: docOK_def effectiveDoc_def synthDoc_def)
  from t mergedObjs_mem [of t tk_ID "ov_tokens ov" "map bootRecord (doc_BootstrapTokens base)"]
  consider k mt where "map_of (ov_tokens ov) k = Some (ovLive t mt)"
    | b where "b \<in> set (doc_BootstrapTokens base)" "t = bootRecord b" "map_of (ov_tokens ov) (tk_ID t) = None" by auto
  then show ?thesis
  proof cases
    case 1
    then show ?thesis using ovOK_live [OF okt 1] by (simp add: live_Token_def liveObj_def)
  next
    case 2
    have ID: "tk_ID t = bt_ID b" using 2 by (simp add: bootRecord_def)
    obtain c where c: "baselineToken base (bt_ID b) = Some c"
      using 2(1) by (cases "baselineToken base (bt_ID b)") (auto simp: baselineToken_def find_eq_None)
    then have "c \<in> set (doc_BootstrapTokens base)" "bt_ID c = bt_ID b" by (auto simp: baselineToken_def find_Some_iff)
    moreover have "bt_ID b \<in> set (map tk_ID ?ts)" using imageI [OF t, of tk_ID] ID by simp
    ultimately have "c = b" using dist 2(1) by (auto simp: distinct_map dest: inj_onD [of bt_ID])
    then show ?thesis using 2 c ID by (simp add: live_Token_def liveObj_def)
  qed
qed

text \<open>
  Property C31. A bearer token opens the administrative interface only for a live token: when the published
  snapshot authenticates a presented value, the token it names is live in the overlay over
  baseline, enabled and not expired, and the SHA-256 digest of the value is the one stored for
  that token, or, when none is stored, that of the contents of the token's secret file.
\<close>

theorem bearer_token_authentic:
  assumes "mgr_reach lib ce m" and "mg_current m = Some snap" and "AuthenticateToken snap raw now = Inr tok"
  shows "\<exists>t. live_Token (mg_baseline m) (mg_overlay m) (et_ID tok) = Some t \<and> tk_Enabled t \<and> et_Scopes tok = tk_Scopes t \<and>
    (\<forall>x. tk_ExpiresAt t = Some x \<longrightarrow> now < x) \<and>
    (tk_Digest t \<noteq> [] \<and> DigestIndex (tk_Digest t) = sha256 raw \<or>
     tk_Digest t = [] \<and> (\<exists>b f content. b \<in> set (doc_BootstrapTokens (mg_baseline m)) \<and> bt_ID b = et_ID tok \<and> ce_lookup ce = Some f \<and>
       f (bt_Token b) = Inr content \<and> sha256 content = sha256 raw))"
proof -
  from mgr_reach_OK [OF assms(1)] assms(2) obtain m0 now0 where ok: "overlayOK (mg_overlay m)"
    and so: "snapOf ce m0 (mg_baseline m) (mg_overlay m) (mg_revision m) now0 snap" by (auto simp: mgrOK_def)
  let ?ts = "mergedObjs tk_ID (ov_tokens (mg_overlay m)) (map bootRecord (doc_BootstrapTokens (mg_baseline m)))"
  from assms(3) obtain i where i: "map_of (sn_tokenIndex snap) (DigestIndex (sha256 raw)) = Some i" and tok: "map_of (sn_tokens snap) i = Some tok"
    and en: "et_Enabled tok" "\<forall>x. et_ExpiresAt tok = Some x \<longrightarrow> now < x"
    by (auto simp: AuthenticateToken_def Let_def DigestToken_def snap_Token_def split: if_splits option.splits)
  from so obtain ts where ts: "map ef_Obj ts = ?ts"
    "sn_tokens snap = byID et_ID (map (tokenFromRecord (mg_revision m) (mg_current m0) (sn_tokenDigests snap)) ts)"
    and idx: "indexTokenDigests (ce_lookup ce) (mg_baseline m) ?ts = Inr (sn_tokenDigests snap, sn_tokenIndex snap)" by (auto simp: snapOf_def)
  from byID_mem tok ts(2) obtain e where e: "e \<in> set ts" "tok = tokenFromRecord (mg_revision m) (mg_current m0) (sn_tokenDigests snap) e" "et_ID tok = i"
    by fastforce
  define t where "t = ef_Obj e"
  have mem: "t \<in> set ?ts" using e(1) by (simp add: t_def flip: ts(1))
  have flds: "tk_ID t = i" "et_Enabled tok = tk_Enabled t" "et_Scopes tok = tk_Scopes t" "et_ExpiresAt tok = tk_ExpiresAt t"
    using e by (simp_all add: tokenFromRecord_def t_def)
  have live: "live_Token (mg_baseline m) (mg_overlay m) i = Some t" using token_live [OF so ok mem] flds(1) by simp
  have same: "s = t" if "s \<in> set ?ts" "tk_ID s = i" for s using token_live [OF so ok that(1)] live that(2) by simp
  have "tokenBasis (ce_lookup ce) (mg_baseline m) ?ts (DigestIndex (sha256 raw)) i"
    using indexTokenDigests_basis [OF idx] i by (simp add: idxOK_def)
  then consider s where "s \<in> set ?ts" "tk_ID s = i" "tk_Digest s \<noteq> []" "sha256 raw = DigestIndex (tk_Digest s)"
    | b f content where "b \<in> set (doc_BootstrapTokens (mg_baseline m))" "bt_ID b = i" "ce_lookup ce = Some f" "f (bt_Token b) = Inr content"
      "sha256 raw = sha256 content" "\<forall>s \<in> set ?ts. tk_ID s = i \<longrightarrow> tk_Digest s = []"
    unfolding tokenBasis_def DigestToken_def DigestIndex_sha256 by blast
  then show ?thesis
  proof cases
    case 1
    then show ?thesis using same [OF 1(1,2)] live flds en e(3) by (intro exI [of _ t]) simp
  next
    case 2
    have "tk_Digest t = []" using 2(6) mem flds(1) by blast
    moreover have "\<exists>b f content. b \<in> set (doc_BootstrapTokens (mg_baseline m)) \<and> bt_ID b = et_ID tok \<and> ce_lookup ce = Some f \<and>
        f (bt_Token b) = Inr content \<and> sha256 content = sha256 raw"
      using 2 e(3) by metis
    ultimately show ?thesis using live flds en e(3) by (intro exI [of _ t]) simp
  qed
qed

subsection \<open>A small instance\<close>

definition wit_user :: CfgUser where
  "wit_user = zeroUser\<lparr>us_ID := ''alice'', us_Enabled := True, us_Login := noRef\<lparr>ref_File := ''alice.phc''\<rparr>\<rparr>"

definition wit_doc :: Document where
  "wit_doc =
     \<lparr>doc_AllowShadowing = True, doc_ReloadOverlayBehavior = ''rebase'', doc_MaxUsers = 10, doc_MaxGroups = 10, doc_MaxClients = 10,
      doc_MaxAPITokens = 10, doc_Settings = wit_settings, doc_Limits = wit_polLimits, doc_Clients = [], doc_Groups = [],
      doc_Users = [wit_user], doc_BootstrapTokens = [], doc_FallbackRules = \<lparr>rs_Services = [], rs_CommandRules = []\<rparr>,
      doc_RADIUSPolicies = [], doc_RADIUSReplyProfiles = [], doc_FallbackRADIUSPolicyID = ''''\<rparr>"

definition wit_env :: "unit compileEnv" where
  "wit_env =
     \<lparr>ce_ve = \<lparr>ve_reCompile = (\<lambda>_. Some ()), ve_listeners = (\<lambda>_. Inr ()), ve_client = (\<lambda>_ _ _. Inr ()), ve_indexes = (\<lambda>_. Inr ())\<rparr>,
      ce_equalFold = (\<lambda>a b. a = b), ce_isIP = (\<lambda>_. False), ce_tzdb = (\<lambda>_. None), ce_attach = (\<lambda>_ _ _. Inr ()), ce_lookup = None\<rparr>"

definition wit_mgr :: "unit Manager" where
  "wit_mgr = (case NewManager wit_env 0 wit_doc of Inr m \<Rightarrow> m
     | Inl _ \<Rightarrow> \<lparr>mg_baseline = wit_doc, mg_overlay = newOverlay, mg_current = None, mg_revision = 0, mg_born = []\<rparr>)"

definition wit_delete :: mutOp where
  "wit_delete = OpDeleteUser ''alice'' \<lparr>do_Tombstone = True, do_ActorID = ''ops''\<rparr>"

text \<open>Everything the witnesses need of the manager, evaluated once.\<close>

lemma wit_mgr_evaluated:
  "case NewManager wit_env 0 wit_doc of
     Inl _ \<Rightarrow> False
   | Inr m \<Rightarrow> live_User (mg_baseline m) (mg_overlay m) ''alice'' = Some wit_user \<and> mg_revision m = 1 \<and> mg_baseline m = wit_doc \<and>
       \<not> isl (snd (runOp wit_lib wit_env 5 (Some 1) wit_delete m)) \<and>
       \<not> isl (snd (mutate wit_env 7 (Some 1) (overrideLoginMut wit_lib ''alice'' phc) m))"
  by code_simp

lemma wit_mgr: "NewManager wit_env 0 wit_doc = Inr wit_mgr"
  using wit_mgr_evaluated by (auto simp: wit_mgr_def split: sum.splits)

lemmas wit_mgr_facts = wit_mgr_evaluated [unfolded wit_mgr sum.case]

theorem published_view_witness:
  "\<exists>snap. mg_current wit_mgr = Some snap \<and> sn_Revision snap = mg_revision wit_mgr \<and> snap_User snap ''alice'' = Some wit_user"
proof -
  have "mgr_reach lib wit_env wit_mgr" for lib by (rule mgr_reach.init [OF wit_mgr])
  from published_view [OF this] obtain snap where "mg_current wit_mgr = Some snap" "sn_Revision snap = mg_revision wit_mgr"
    "snap_User snap ''alice'' = live_User (mg_baseline wit_mgr) (mg_overlay wit_mgr) ''alice''" by blast
  moreover have "live_User (mg_baseline wit_mgr) (mg_overlay wit_mgr) ''alice'' = Some wit_user" using wit_mgr_facts by blast
  ultimately show ?thesis by auto
qed

theorem mutation_atomic_witness:
  "\<exists>snap. snd (runOp wit_lib wit_env 5 (Some 1) wit_delete wit_mgr) = Inr snap \<and> sn_Revision snap = 2"
proof -
  obtain m' r where run: "runOp wit_lib wit_env 5 (Some 1) wit_delete wit_mgr = (m', r)" by (meson surj_pair)
  have "\<not> isl (snd (runOp wit_lib wit_env 5 (Some 1) wit_delete wit_mgr))" using wit_mgr_facts by blast
  then obtain snap where r: "r = Inr snap" using run by (cases r) auto
  have "mg_revision wit_mgr = 1" using wit_mgr_facts by blast
  then have "sn_Revision snap = 2" using mutation_atomic [OF run] r by simp
  then show ?thesis using run r by simp
qed

definition wit_token :: CreateToken where
  "wit_token = \<lparr>crt_ID = ''ci'', crt_Name = ''ci'', crt_Scopes = [''state:read''], crt_Enabled = None, crt_ExpiresAt = Some 100,
     crt_Material = [1, 2], crt_Override = False\<rparr>"

text \<open>The witness is evaluated with the digest as an uninterpreted function.\<close>

declare DigestToken_def [code del]

lemma digest_ne: "DigestToken b \<noteq> []"
  unfolding DigestToken_def using length_sha256 [of b] by force

theorem bearer_token_authentic_witness:
  "\<exists>m' snap tok. runOp wit_lib wit_env 5 None (OpCreateToken wit_token) wit_mgr = (m', Inr snap) \<and> AuthenticateToken snap [1, 2] 7 = Inr tok \<and>
     (\<exists>t. live_Token (mg_baseline m') (mg_overlay m') (et_ID tok) = Some t \<and> tk_Enabled t)"
proof -
  obtain m' r where run: "runOp wit_lib wit_env 5 None (OpCreateToken wit_token) wit_mgr = (m', r)" by (meson surj_pair)
  have "case snd (runOp wit_lib wit_env 5 None (OpCreateToken wit_token) wit_mgr) of
      Inl _ \<Rightarrow> False | Inr snap \<Rightarrow> (case AuthenticateToken snap [1, 2] 7 of Inl _ \<Rightarrow> False | Inr _ \<Rightarrow> True)"
    by (code_simp, simp add: digest_ne putTokenDigest_def AuthenticateToken_def snap_Token_def byID_def tokenFromRecord_def Let_def)
  then obtain snap tok where snap: "r = Inr snap" and tok: "AuthenticateToken snap [1, 2] 7 = Inr tok" using run by (auto split: sum.splits)
  have reach: "mgr_reach wit_lib wit_env m'" by (rule mgr_reach.step [OF mgr_reach.init [OF wit_mgr] run])
  have "mg_current m' = Some snap"
    using run snap by (auto simp: runOp_def elim: mutate_cases)
  from bearer_token_authentic [OF reach this tok] run snap tok show ?thesis by blast
qed

declare DigestToken_def [code]

end
