(* ===== verification/Aaa_Authen.thy ===== *)
theory Aaa_Authen
  imports State_Publish
begin

text \<open>
  Authentication in the AAA service (\<open>internal/aaa/auth.go\<close>, \<open>authn.go\<close>, \<open>store.go\<close>, \<open>service.go\<close>, \<open>types.go\<close>): one-shot
  logins (PAP, CHAP, MS-CHAP) and the interactive conversations (ASCII login, enable, password
  change) with their session table. An operation takes the environment of the call (\<open>callEnv\<close>: the
  credential libraries, the compile environment, the context and the clock) and the service, and
  returns the service, the step and the error. Metrics are not modelled.
\<close>

record AuthenticationStart =
  sta_ConnKey :: uint64
  sta_SessionID :: uint32
  sta_UserID :: string
  sta_ClientID :: string
  sta_Action :: byte
  sta_Type :: byte
  sta_Service :: byte
  sta_PrivLvl :: byte
  sta_Port :: string
  sta_Remote :: string
  sta_Data :: bytes
  sta_Revision :: uint64
  sta_Transport :: string

record AuthenticationContinue =
  cnt_ConnKey :: uint64
  cnt_SessionID :: uint32
  cnt_Abort :: bool
  cnt_UserMsg :: bytes
  cnt_ClientID :: string
  cnt_Revision :: uint64
  cnt_Transport :: string

record AuthenticationAbort =
  abt_ConnKey :: uint64
  abt_SessionID :: uint32
  abt_ClientID :: string
  abt_Revision :: uint64

record AuthenticationStep =
  stp_Status :: byte
  stp_NoEcho :: bool
  stp_ServerMsg :: string

abbreviation (input) StatusPass :: byte where "StatusPass \<equiv> 0x01"
abbreviation (input) StatusFail :: byte where "StatusFail \<equiv> 0x02"
abbreviation (input) StatusGetData :: byte where "StatusGetData \<equiv> 0x03"
abbreviation (input) StatusGetUser :: byte where "StatusGetUser \<equiv> 0x04"
abbreviation (input) StatusGetPass :: byte where "StatusGetPass \<equiv> 0x05"
abbreviation (input) StatusRestart :: byte where "StatusRestart \<equiv> 0x06"
abbreviation (input) StatusError :: byte where "StatusError \<equiv> 0x07"

definition plainStep :: "byte \<Rightarrow> AuthenticationStep" where
  "plainStep status = \<lparr>stp_Status = status, stp_NoEcho = False, stp_ServerMsg = ''''\<rparr>"

definition errorStep :: AuthenticationStep where "errorStep = plainStep StatusError"
definition failStep :: AuthenticationStep where "failStep = plainStep StatusFail"
definition passStep :: AuthenticationStep where "passStep = plainStep StatusPass"
definition failStepMsg :: "string \<Rightarrow> AuthenticationStep" where "failStepMsg msg = failStep\<lparr>stp_ServerMsg := msg\<rparr>"
definition userPrompt :: AuthenticationStep where
  "userPrompt = \<lparr>stp_Status = StatusGetUser, stp_NoEcho = False, stp_ServerMsg = ''Username: ''\<rparr>"
definition passPrompt :: AuthenticationStep where
  "passPrompt = \<lparr>stp_Status = StatusGetPass, stp_NoEcho = True, stp_ServerMsg = ''Password: ''\<rparr>"
definition dataPrompt :: AuthenticationStep where
  "dataPrompt = \<lparr>stp_Status = StatusGetData, stp_NoEcho = True, stp_ServerMsg = ''Password: ''\<rparr>"
definition newPassPrompt :: AuthenticationStep where
  "newPassPrompt = \<lparr>stp_Status = StatusGetPass, stp_NoEcho = True, stp_ServerMsg = ''New Password: ''\<rparr>"
definition confirmPassPrompt :: AuthenticationStep where
  "confirmPassPrompt = \<lparr>stp_Status = StatusGetPass, stp_NoEcho = True, stp_ServerMsg = ''Retype New Password: ''\<rparr>"

subsection \<open>Credentials of a snapshot\<close>

definition clientRestricted :: "string list \<Rightarrow> string \<Rightarrow> bool" where
  "clientRestricted allowed clientID \<longleftrightarrow> allowed \<noteq> [] \<and> clientID \<notin> set allowed"

type_synonym secretLookup = "(SecretRef \<Rightarrow> Error + bytes) option"

definition resolveSecret :: "'re StateSnapshot \<Rightarrow> secretLookup \<Rightarrow> SecretRef \<Rightarrow> bytes option" where
  "resolveSecret snap lookup ref =
     (case (if ref_MemoryID ref \<noteq> '''' then RuntimeSecret snap (ref_MemoryID ref) else None) of
        Some b \<Rightarrow> Some b
      | None \<Rightarrow>
          (case lookup of
             None \<Rightarrow> None
           | Some f \<Rightarrow> if \<not> SecretRef_Set ref \<or> ref_MemoryID ref \<noteq> '''' then None
                      else (case f ref of Inl _ \<Rightarrow> None | Inr b \<Rightarrow> Some b)))"

text \<open>The material of a reference; a credential that cannot be resolved stays empty.\<close>

definition refMaterial :: "'re StateSnapshot \<Rightarrow> secretLookup \<Rightarrow> SecretRef \<Rightarrow> bytes" where
  "refMaterial snap lookup ref =
     (if SecretRef_Set ref then (case resolveSecret snap lookup ref of None \<Rightarrow> [] | Some b \<Rightarrow> b) else [])"

definition storeLookup :: "'re StateSnapshot \<Rightarrow> secretLookup \<Rightarrow> string \<Rightarrow> string \<Rightarrow> CredRecord option" where
  "storeLookup snap lookup clientID userID =
     map_option (\<lambda>u.
       \<lparr>rec_ID = us_ID u, rec_Enabled = us_Enabled u, rec_Restricted = clientRestricted (us_ClientIDs u) clientID,
        rec_Login = refMaterial snap lookup (us_Login u), rec_Challenge = refMaterial snap lookup (us_Challenge u),
        rec_Enable = refMaterial snap lookup (us_Enable u), rec_ValidAfter = us_ValidAfter u, rec_ValidBefore = us_ValidBefore u,
        rec_MustChangeLogin = us_MustChangeLogin u, rec_MustChangeEnable = us_MustChangeEnable u\<rparr>) (snap_User snap userID)"

subsection \<open>The service\<close>

datatype authFlow =
  flowASCII | flowEnable | flowCHPASS | flowPAP | flowCHAP | flowMSCHAPv1 | flowMSCHAPv2 | flowNone

record 're authSession =
  se_flow :: authFlow
  se_user :: string
  se_clientID :: string
  se_needUser :: bool
  se_needOld :: bool
  se_needNew :: bool
  se_needConfirm :: bool
  se_newPass :: bytes
  se_fails :: int
  se_snap :: "'re StateSnapshot"
  se_creds :: CredService
  se_maxRounds :: int
  se_rev :: uint64

type_synonym sessionKey = "uint64 \<times> uint32"

text \<open>
  The snapshot function of the service is that of its manager, or a fixed one when it has none.
\<close>

record 're AAAService =
  sv_mgr :: "'re Manager option"
  sv_fixed :: "'re StateSnapshot option"
  sv_secrets :: secretLookup
  sv_ring :: Ring
  sv_params :: Argon2Params
  sv_minCHAP :: int
  sv_entropy :: bytes
  sv_sessions :: "(sessionKey \<times> 're authSession) list"

record 're callEnv =
  en_lib :: credLib
  en_ce :: "'re compileEnv"
  en_ctx :: callCtx
  en_now :: int

definition svc_snap :: "'re AAAService \<Rightarrow> 're StateSnapshot option" where
  "svc_snap s = (case sv_mgr s of Some m \<Rightarrow> mg_current m | None \<Rightarrow> sv_fixed s)"

definition snapSettings :: "'re StateSnapshot \<Rightarrow> AAASettings option" where
  "snapSettings snap = map_option doc_Settings (sn_settings snap)"

definition boundCreds :: "'re AAAService \<Rightarrow> 're StateSnapshot \<Rightarrow> string \<Rightarrow> CredService" where
  "boundCreds s snap clientID =
     \<lparr>cs_store = storeLookup snap (sv_secrets s) clientID, cs_params = sv_params s, cs_minCHAP = sv_minCHAP s\<rparr>"

definition maxRounds :: "'re StateSnapshot \<Rightarrow> int" where
  "maxRounds snap =
     (case snapSettings snap of
        None \<Rightarrow> 3
      | Some st \<Rightarrow> if set_MaxAuthenticationRounds st \<le> 0 then 3 else set_MaxAuthenticationRounds st)"

definition putSession :: "sessionKey \<Rightarrow> 're authSession \<Rightarrow> 're AAAService \<Rightarrow> 're AAAService" where
  "putSession key se s = s\<lparr>sv_sessions := AList.update key se (sv_sessions s)\<rparr>"

definition svc_dropSession :: "sessionKey \<Rightarrow> 're AAAService \<Rightarrow> 're AAAService" where
  "svc_dropSession key s = s\<lparr>sv_sessions := AList.delete key (sv_sessions s)\<rparr>"

definition canonUser :: "credLib \<Rightarrow> string \<Rightarrow> string" where
  "canonUser lib user = (if user = '''' then '''' else case CanonicalUsername lib user of Inr canon \<Rightarrow> canon | Inl _ \<Rightarrow> user)"

definition protoError :: "credErr \<Rightarrow> bool" where
  "protoError e \<longleftrightarrow> e = AuthErr KindMalformed \<or> e = AuthErr KindInvalid"

definition userMustChangeLogin :: "'re StateSnapshot \<Rightarrow> string \<Rightarrow> bool" where
  "userMustChangeLogin snap userID \<longleftrightarrow>
     userID \<noteq> '''' \<and> (case snap_User snap userID of None \<Rightarrow> False | Some u \<Rightarrow> us_MustChangeLogin u)"

definition userMustChangeEnable :: "'re StateSnapshot \<Rightarrow> string \<Rightarrow> bool" where
  "userMustChangeEnable snap userID \<longleftrightarrow>
     userID \<noteq> '''' \<and> (case snap_User snap userID of None \<Rightarrow> False | Some u \<Rightarrow> us_MustChangeEnable u)"

definition recordAuthReason ::
  "int \<Rightarrow> 're StateSnapshot \<Rightarrow> AuthenticationStart \<Rightarrow> string \<Rightarrow> string \<Rightarrow> string \<Rightarrow> string \<Rightarrow> 're AAAService \<Rightarrow> 're AAAService" where
  "recordAuthReason now snap start user kind result reason s =
     (if (case snapSettings snap of
            None \<Rightarrow> True
          | Some st \<Rightarrow> if result = ''pass'' then set_IncludeSuccessfulAuthentication st else set_IncludeFailedAuthentication st)
      then s\<lparr>sv_ring := fst (ring_Accept now
               (zeroEvent\<lparr>ev_Category := ''authen'', ev_Type := kind, ev_Result := result, ev_Transport := sta_Transport start,
                  ev_ClientID := sta_ClientID start, ev_SessionID := sta_SessionID start, ev_Revision := sta_Revision start,
                  ev_UserID := user, ev_ReasonCode := reason\<rparr>) (sv_ring s))\<rparr>
      else s)"

definition recordAuth ::
  "int \<Rightarrow> 're StateSnapshot \<Rightarrow> AuthenticationStart \<Rightarrow> string \<Rightarrow> string \<Rightarrow> string \<Rightarrow> 're AAAService \<Rightarrow> 're AAAService" where
  "recordAuth now snap start user kind result = recordAuthReason now snap start user kind result ''''"

text \<open>The START fields an event of a CONTINUE or an abort carries.\<close>

definition eventStart :: "string \<Rightarrow> uint32 \<Rightarrow> string \<Rightarrow> uint64 \<Rightarrow> AuthenticationStart" where
  "eventStart clientID sid transport rv =
     \<lparr>sta_ConnKey = 0, sta_SessionID = sid, sta_UserID = '''', sta_ClientID = clientID, sta_Action = 0, sta_Type = 0, sta_Service = 0,
      sta_PrivLvl = 0, sta_Port = '''', sta_Remote = '''', sta_Data = [], sta_Revision = rv, sta_Transport = transport\<rparr>"

definition contStart :: "'re authSession \<Rightarrow> AuthenticationContinue \<Rightarrow> AuthenticationStart" where
  "contStart se cont = eventStart (se_clientID se) (cnt_SessionID cont) (cnt_Transport cont) (cnt_Revision cont)"

subsection \<open>Classification\<close>

definition classifyStart :: "AuthenticationStart \<Rightarrow> authFlow \<times> byte option" where
  "classifyStart start =
     (if sta_Action start = 0x04 \<or> sta_Action start = 0x03 then (flowNone, Some StatusError)
      else if sta_Action start = 0x02 then
        (if sta_Service start = 0x02 then (flowNone, Some StatusFail)
         else if sta_Type start \<noteq> 0x01 then (flowNone, Some StatusError)
         else if sta_Service start = 0x00 \<or> \<not> AuthenService_Valid (sta_Service start) then (flowNone, Some StatusFail)
         else (flowCHPASS, None))
      else if sta_Action start = 0x01 then
        (if sta_Service start = 0x02 then (flowEnable, None)
         else if sta_Service start = 0x00 \<or> \<not> AuthenService_Valid (sta_Service start) then (flowNone, Some StatusFail)
         else if sta_Type start = 0x01 then (flowASCII, None)
         else if sta_Type start = 0x02 then (flowPAP, None)
         else if sta_Type start = 0x03 then (flowCHAP, None)
         else if sta_Type start = 0x05 then (flowMSCHAPv1, None)
         else if sta_Type start = 0x06 then (flowMSCHAPv2, None)
         else (flowNone, Some StatusError))
      else (flowNone, Some StatusError))"

definition methodForFlow :: "authFlow \<Rightarrow> string" where
  "methodForFlow flow =
     (case flow of flowASCII \<Rightarrow> ''ascii'' | flowPAP \<Rightarrow> ''pap'' | flowCHAP \<Rightarrow> ''chap'' | flowMSCHAPv1 \<Rightarrow> ''mschapv1''
      | flowMSCHAPv2 \<Rightarrow> ''mschapv2'' | flowEnable \<Rightarrow> ''enable'' | flowCHPASS \<Rightarrow> ''ascii_chpass'' | flowNone \<Rightarrow> '''')"

definition methodAllowed :: "'re StateSnapshot \<Rightarrow> string \<Rightarrow> string \<Rightarrow> bool" where
  "methodAllowed snap clientID method =
     (if clientID = '''' \<or> method = '''' then True
      else case snap_Client snap clientID of
        None \<Rightarrow> False
      | Some c \<Rightarrow> cl_Enabled c \<and> (cl_AllowedMethods c = [] \<or> method \<in> set (cl_AllowedMethods c)))"

definition asciiChpassAllowed :: "'re StateSnapshot \<Rightarrow> string \<Rightarrow> bool" where
  "asciiChpassAllowed snap clientID = methodAllowed snap clientID ''ascii_chpass''"

definition eventType :: "authFlow \<Rightarrow> byte \<Rightarrow> string" where
  "eventType flow action =
     (case flow of flowASCII \<Rightarrow> ''ascii_login'' | flowPAP \<Rightarrow> ''pap_login'' | flowCHAP \<Rightarrow> ''chap_login'' | flowMSCHAPv1 \<Rightarrow> ''mschapv1_login''
      | flowMSCHAPv2 \<Rightarrow> ''mschapv2_login'' | flowEnable \<Rightarrow> ''enable'' | flowCHPASS \<Rightarrow> ''ascii_chpass''
      | flowNone \<Rightarrow> if action = 0x04 then ''sendauth'' else if action = 0x03 then ''sendpass'' else ''authen'')"

definition CheckBytes :: "string \<Rightarrow> nat \<Rightarrow> int \<Rightarrow> Error + unit" where
  "CheckBytes name n mx =
     (if mx \<le> 0 \<or> int n \<le> mx then Inr ()
      else Inl (WithPath (NewError CodeInvalidArgument ''field exceeds configured limit'') name))"

definition checkAuthenFields :: "'re AAAService \<Rightarrow> string \<Rightarrow> string \<Rightarrow> string \<Rightarrow> Error + unit" where
  "checkAuthenFields s user port remote =
     (let pick = (\<lambda>f. case Option.bind (svc_snap s) snapSettings of None \<Rightarrow> 253 | Some st \<Rightarrow> if f st > 0 then f st else 253)
      in rbind (CheckBytes ''user'' (length user) (pick set_MaxUsernameBytes)) (\<lambda>_.
         rbind (CheckBytes ''port'' (length port) (pick set_MaxPortBytes)) (\<lambda>_.
         CheckBytes ''rem_addr'' (length remote) (pick set_MaxRemoteAddressBytes))))"

subsection \<open>One-shot authentication\<close>

abbreviation (input) AuthPass :: string where "AuthPass \<equiv> ''pass''"
abbreviation (input) AuthReject :: string where "AuthReject \<equiv> ''reject''"
abbreviation (input) AuthError :: string where "AuthError \<equiv> ''error''"

definition outcomeFromCreds :: "credErr + unit \<Rightarrow> string" where
  "outcomeFromCreds r = (case r of Inr _ \<Rightarrow> AuthPass | Inl e \<Rightarrow> if protoError e then AuthError else AuthReject)"

record CredentialEvidence =
  ce_Method :: string
  ce_Password :: bytes
  ce_CHAPID :: byte
  ce_Challenge :: bytes
  ce_Response :: bytes

definition verifyAgainst :: "'re callEnv \<Rightarrow> 're AAAService \<Rightarrow> 're StateSnapshot \<Rightarrow> string \<Rightarrow> string \<Rightarrow> CredentialEvidence \<Rightarrow> string" where
  "verifyAgainst en s snap userID clientID ev =
     (let creds = boundCreds s snap clientID
      in if ce_Method ev = ''password'' then outcomeFromCreds (VerifyASCIIOrPAP (en_lib en) (en_ctx en) (en_now en) creds userID (ce_Password ev))
         else if ce_Method ev = ''chap'' \<or> ce_Method ev = ''eap''
         then outcomeFromCreds (VerifyCHAP (en_lib en) (en_ctx en) (en_now en) creds userID (ce_CHAPID ev) (ce_Challenge ev) (ce_Response ev))
         else if ce_Method ev = ''mschapv1''
         then outcomeFromCreds (VerifyMSCHAPv1 (en_lib en) (en_ctx en) (en_now en) creds userID (ce_Challenge ev) (ce_Response ev))
         else if ce_Method ev = ''mschapv2''
         then outcomeFromCreds (VerifyMSCHAPv2 (en_lib en) (en_ctx en) (en_now en) creds userID (ce_Challenge ev) (ce_Response ev))
         else AuthError)"

definition VerifyCredentials ::
  "'re callEnv \<Rightarrow> 're AAAService \<Rightarrow> string \<Rightarrow> string \<Rightarrow> CredentialEvidence \<Rightarrow> string \<times> callErr option" where
  "VerifyCredentials en s userID clientID ev =
     (if cx_done (en_ctx en) then (AuthError, Some ErrContext)
      else if \<not> AuthMethod_Valid (ce_Method ev)
      then (AuthError, Some (ErrDomain (NewError CodeInvalidArgument
             ''authentication method must be password, pap, chap, mschapv1, mschapv2, or eap'')))
      else case svc_snap s of
        None \<Rightarrow> (AuthError, Some (ErrDomain (NewError CodeUnavailable ''no published snapshot'')))
      | Some snap \<Rightarrow> (verifyAgainst en s snap userID clientID ev, None))"

definition finishOneShotOutcome ::
  "'re callEnv \<Rightarrow> 're StateSnapshot \<Rightarrow> AuthenticationStart \<Rightarrow> string \<Rightarrow> string \<Rightarrow> string \<Rightarrow> 're AAAService \<Rightarrow> 're AAAService \<times> AuthenticationStep" where
  "finishOneShotOutcome en snap start user kind outcome s =
     (if outcome = AuthPass then
        (if userMustChangeLogin snap user
         then (recordAuthReason (en_now en) snap start user kind ''fail'' ''password_change_required'' s, failStepMsg ''Password change required'')
         else (recordAuth (en_now en) snap start user kind ''pass'' s, passStep))
      else if outcome = AuthError then (recordAuth (en_now en) snap start user kind ''error'' s, errorStep)
      else (recordAuth (en_now en) snap start user kind ''fail'' s, failStep))"

definition oneShotPAP :: "'re callEnv \<Rightarrow> 're StateSnapshot \<Rightarrow> AuthenticationStart \<Rightarrow> 're AAAService \<Rightarrow> 're AAAService \<times> AuthenticationStep" where
  "oneShotPAP en snap start s =
     (let user = canonUser (en_lib en) (sta_UserID start)
      in if user = '''' \<or> length (sta_Data start) = 0
         then (recordAuth (en_now en) snap start user ''pap_login'' ''fail'' s, failStep)
         else finishOneShotOutcome en snap start user ''pap_login''
                (verifyAgainst en s snap user (sta_ClientID start)
                   \<lparr>ce_Method = ''password'', ce_Password = sta_Data start, ce_CHAPID = 0, ce_Challenge = [], ce_Response = []\<rparr>) s)"

definition oneShotCHAP :: "'re callEnv \<Rightarrow> 're StateSnapshot \<Rightarrow> AuthenticationStart \<Rightarrow> 're AAAService \<Rightarrow> 're AAAService \<times> AuthenticationStep" where
  "oneShotCHAP en snap start s =
     (let user = canonUser (en_lib en) (sta_UserID start)
      in case SplitCHAPData (sta_Data start) 8 of
           Inl _ \<Rightarrow> (recordAuth (en_now en) snap start user ''chap_login'' ''error'' s, errorStep)
         | Inr (ident, chal, resp) \<Rightarrow>
             if user = '''' then (recordAuth (en_now en) snap start user ''chap_login'' ''fail'' s, failStep)
             else finishOneShotOutcome en snap start user ''chap_login''
                    (verifyAgainst en s snap user (sta_ClientID start)
                       \<lparr>ce_Method = ''chap'', ce_Password = [], ce_CHAPID = ident, ce_Challenge = chal, ce_Response = resp\<rparr>) s)"

definition oneShotMSCHAP ::
  "'re callEnv \<Rightarrow> 're StateSnapshot \<Rightarrow> AuthenticationStart \<Rightarrow> bool \<Rightarrow> 're AAAService \<Rightarrow> 're AAAService \<times> AuthenticationStep" where
  "oneShotMSCHAP en snap start v2 s =
     (let user = canonUser (en_lib en) (sta_UserID start);
          kind = (if v2 then ''mschapv2_login'' else ''mschapv1_login'')
      in case (if v2 then SplitMSCHAPv2Data (sta_Data start) else SplitMSCHAPv1Data (sta_Data start)) of
           Inl _ \<Rightarrow> (recordAuth (en_now en) snap start user kind ''error'' s, errorStep)
         | Inr (ident, chal, resp) \<Rightarrow>
             (let creds = boundCreds s snap (sta_ClientID start);
                  ver = (if v2 then VerifyMSCHAPv2 (en_lib en) (en_ctx en) (en_now en) creds user chal resp
                         else VerifyMSCHAPv1 (en_lib en) (en_ctx en) (en_now en) creds user chal resp)
              in if (case ver of Inl e \<Rightarrow> protoError e | Inr _ \<Rightarrow> False)
                 then finishOneShotOutcome en snap start user kind (outcomeFromCreds ver) s
                 else if user = '''' then (recordAuth (en_now en) snap start user kind ''fail'' s, failStep)
                 else finishOneShotOutcome en snap start user kind (outcomeFromCreds ver) s))"

subsection \<open>Interactive conversations\<close>

definition userMessage :: "AuthenticationContinue \<Rightarrow> string" where
  "userMessage cont = string_of_bytes (cnt_UserMsg cont)"

definition beginInteractive ::
  "'re callEnv \<Rightarrow> AuthenticationStart \<Rightarrow> 're StateSnapshot \<Rightarrow> authFlow \<Rightarrow> 're AAAService \<Rightarrow> 're AAAService \<times> AuthenticationStep" where
  "beginInteractive en start snap flow s =
     (if flow = flowEnable \<and> sta_PrivLvl start > 15
      then (recordAuth (en_now en) snap start (canonUser (en_lib en) (sta_UserID start)) ''enable'' ''fail'' s, failStep)
      else let user = canonUser (en_lib en) (sta_UserID start);
               se = \<lparr>se_flow = flow, se_user = user, se_clientID = sta_ClientID start, se_needUser = (user = ''''),
                     se_needOld = (flow = flowCHPASS), se_needNew = (flow = flowCHPASS), se_needConfirm = False, se_newPass = [],
                     se_fails = 0, se_snap = snap, se_creds = boundCreds s snap (sta_ClientID start), se_maxRounds = maxRounds snap,
                     se_rev = sn_Revision snap\<rparr>
           in (putSession (sta_ConnKey start, sta_SessionID start) se s,
               if se_needUser se then userPrompt else if flow = flowCHPASS then dataPrompt else passPrompt))"

definition retryOrFail ::
  "'re callEnv \<Rightarrow> sessionKey \<Rightarrow> 're authSession \<Rightarrow> AuthenticationContinue \<Rightarrow> string \<Rightarrow> AuthenticationStep \<Rightarrow> 're AAAService
     \<Rightarrow> 're AAAService \<times> AuthenticationStep" where
  "retryOrFail en key se cont kind retry s =
     (let se = se\<lparr>se_fails := se_fails se + 1\<rparr>;
          limit = (if se_maxRounds se \<le> 0 then maxRounds (se_snap se) else se_maxRounds se)
      in if se_fails se \<ge> limit
         then (recordAuth (en_now en) (se_snap se) (contStart se cont) (se_user se) kind ''fail'' (svc_dropSession key s), failStep)
         else (putSession key se s, retry))"

definition finishPassword ::
  "'re callEnv \<Rightarrow> sessionKey \<Rightarrow> 're authSession \<Rightarrow> AuthenticationContinue \<Rightarrow> bool \<Rightarrow> 're AAAService \<Rightarrow> 're AAAService \<times> AuthenticationStep" where
  "finishPassword en key se cont enable s =
     (let ver = (if enable then VerifyEnable (en_lib en) (en_ctx en) (en_now en) (se_creds se) (se_user se) (cnt_UserMsg cont)
                 else VerifyASCIIOrPAP (en_lib en) (en_ctx en) (en_now en) (se_creds se) (se_user se) (cnt_UserMsg cont));
          kind = (if enable then ''enable'' else ''ascii_login'')
      in case ver of
           Inr _ \<Rightarrow>
             if \<not> enable \<and> userMustChangeLogin (se_snap se) (se_user se)
             then (if \<not> asciiChpassAllowed (se_snap se) (se_clientID se)
                   then (recordAuthReason (en_now en) (se_snap se) (contStart se cont) (se_user se) kind ''fail'' ''password_change_required''
                           (svc_dropSession key s), failStepMsg ''Password change required'')
                   else (putSession key (se\<lparr>se_needNew := True, se_fails := 0\<rparr>) s, newPassPrompt))
             else if enable \<and> userMustChangeEnable (se_snap se) (se_user se)
             then (putSession key (se\<lparr>se_needNew := True, se_fails := 0\<rparr>) s, newPassPrompt)
             else (recordAuth (en_now en) (se_snap se) (contStart se cont) (se_user se) kind ''pass'' (svc_dropSession key s), passStep)
         | Inl e \<Rightarrow>
             if protoError e
             then (recordAuth (en_now en) (se_snap se) (contStart se cont) (se_user se) kind ''error'' (svc_dropSession key s), errorStep)
             else retryOrFail en key se cont kind passPrompt s)"

text \<open>
  \<open>publishLogin\<close> and \<open>publishEnable\<close> differ in the manager's operation, the default event type and the
  reason they record.
\<close>

definition publishVia ::
  "('re Manager \<Rightarrow> 're Manager \<times> (Error + 're StateSnapshot)) \<Rightarrow> string \<Rightarrow> 're callEnv \<Rightarrow> 're authSession \<Rightarrow> AuthenticationContinue \<Rightarrow> string
     \<Rightarrow> 're AAAService \<Rightarrow> 're AAAService \<times> AuthenticationStep" where
  "publishVia oper reason en se cont kind s =
     (let key = (cnt_ConnKey cont, cnt_SessionID cont);
          done = (\<lambda>result s. recordAuth (en_now en) (se_snap se) (contStart se cont) (se_user se) kind result s)
      in case sv_mgr s of
           None \<Rightarrow> (done ''error'' (svc_dropSession key s), errorStep)
         | Some m \<Rightarrow>
             (let (m', r) = oper m;
                  s = svc_dropSession key (s\<lparr>sv_mgr := Some m'\<rparr>)
              in case r of
                   Inl e \<Rightarrow>
                     if err_Code e = CodeConflict \<or> err_Code e = CodeNotFound then (done ''fail'' s, failStep)
                     else (done ''error'' s, errorStep)
                 | Inr _ \<Rightarrow>
                     (recordAuthReason (en_now en) (se_snap se) (contStart se cont) (se_user se) kind ''pass'' reason s, passStep)))"

definition publishLogin ::
  "'re callEnv \<Rightarrow> 're authSession \<Rightarrow> AuthenticationContinue \<Rightarrow> bytes \<Rightarrow> string \<Rightarrow> 're AAAService \<Rightarrow> 're AAAService \<times> AuthenticationStep" where
  "publishLogin en se cont phc kind =
     publishVia (OverrideLoginVerifier (en_lib en) (en_ce en) (en_now en) (se_user se) phc (Some (se_rev se))) ''password_changed'' en se cont
       (if kind = '''' then ''ascii_chpass'' else kind)"

definition publishEnable ::
  "'re callEnv \<Rightarrow> 're authSession \<Rightarrow> AuthenticationContinue \<Rightarrow> bytes \<Rightarrow> string \<Rightarrow> 're AAAService \<Rightarrow> 're AAAService \<times> AuthenticationStep" where
  "publishEnable en se cont phc kind =
     publishVia (OverrideEnableVerifier (en_lib en) (en_ce en) (en_now en) (se_user se) phc (Some (se_rev se))) ''enable_password_changed'' en se cont
       (if kind = '''' then ''enable'' else kind)"

text \<open>
  The last two steps of a change, a new password and its confirmation, are written out both in
  \<open>continueCHPASS\<close> and in \<open>continueNewConfirm\<close>; the prompt after the new password differs. Deriving a login
  or an enable verifier is the same computation.
\<close>

definition confirmChange ::
  "('re authSession \<Rightarrow> AuthenticationContinue \<Rightarrow> bytes \<Rightarrow> string \<Rightarrow> 're AAAService \<Rightarrow> 're AAAService \<times> AuthenticationStep) \<Rightarrow> AuthenticationStep
     \<Rightarrow> 're callEnv \<Rightarrow> sessionKey \<Rightarrow> 're authSession \<Rightarrow> AuthenticationContinue \<Rightarrow> string \<Rightarrow> 're AAAService \<Rightarrow> 're AAAService \<times> AuthenticationStep" where
  "confirmChange publish prompt en key se cont kind s =
     (let done = (\<lambda>result s. recordAuth (en_now en) (se_snap se) (contStart se cont) (se_user se) kind result s)
      in if se_needNew se then
           (if length (cnt_UserMsg cont) = 0 then (done ''fail'' (svc_dropSession key s), failStep)
            else (putSession key (se\<lparr>se_newPass := cnt_UserMsg cont, se_needNew := False, se_needConfirm := True\<rparr>) s, prompt))
         else if \<not> se_needConfirm se then (svc_dropSession key s, errorStep)
         else if se_newPass se \<noteq> cnt_UserMsg cont then (done ''fail'' (svc_dropSession key s), failStep)
         else let (entropy, derived) = DeriveVerifier (en_lib en) (en_ctx en) (se_creds se) (se_newPass se) (sv_entropy s);
                  s = s\<lparr>sv_entropy := entropy\<rparr>
              in case derived of
                   Inl e \<Rightarrow>
                     if protoError e then (done ''error'' (svc_dropSession key s), errorStep)
                     else (done ''fail'' (svc_dropSession key s), failStep)
                 | Inr phc \<Rightarrow> publish se cont phc kind s)"

definition continueNewConfirm ::
  "'re callEnv \<Rightarrow> sessionKey \<Rightarrow> 're authSession \<Rightarrow> AuthenticationContinue \<Rightarrow> bool \<Rightarrow> 're AAAService \<Rightarrow> 're AAAService \<times> AuthenticationStep" where
  "continueNewConfirm en key se cont enable =
     confirmChange (if enable then publishEnable en else publishLogin en) confirmPassPrompt en key se cont
       (if enable then ''enable'' else ''ascii_login'')"

text \<open>\<open>continueASCII\<close> and \<open>continueEnable\<close> are the same up to the credential.\<close>

definition continueLogin ::
  "'re callEnv \<Rightarrow> sessionKey \<Rightarrow> 're authSession \<Rightarrow> AuthenticationContinue \<Rightarrow> bool \<Rightarrow> 're AAAService \<Rightarrow> 're AAAService \<times> AuthenticationStep" where
  "continueLogin en key se cont enable s =
     (if se_needUser se
      then (putSession key (se\<lparr>se_user := canonUser (en_lib en) (userMessage cont), se_needUser := False\<rparr>) s, passPrompt)
      else if se_needNew se \<or> se_needConfirm se then continueNewConfirm en key se cont enable s
      else finishPassword en key se cont enable s)"

definition continueASCII ::
  "'re callEnv \<Rightarrow> sessionKey \<Rightarrow> 're authSession \<Rightarrow> AuthenticationContinue \<Rightarrow> 're AAAService \<Rightarrow> 're AAAService \<times> AuthenticationStep" where
  "continueASCII en key se cont = continueLogin en key se cont False"

definition continueEnable ::
  "'re callEnv \<Rightarrow> sessionKey \<Rightarrow> 're authSession \<Rightarrow> AuthenticationContinue \<Rightarrow> 're AAAService \<Rightarrow> 're AAAService \<times> AuthenticationStep" where
  "continueEnable en key se cont = continueLogin en key se cont True"

definition continueCHPASS ::
  "'re callEnv \<Rightarrow> sessionKey \<Rightarrow> 're authSession \<Rightarrow> AuthenticationContinue \<Rightarrow> 're AAAService \<Rightarrow> 're AAAService \<times> AuthenticationStep" where
  "continueCHPASS en key se cont s =
     (if se_needUser se
      then (putSession key (se\<lparr>se_user := canonUser (en_lib en) (userMessage cont), se_needUser := False\<rparr>) s, dataPrompt)
      else if se_needOld se then
        (case VerifyASCIIOrPAP (en_lib en) (en_ctx en) (en_now en) (se_creds se) (se_user se) (cnt_UserMsg cont) of
           Inl e \<Rightarrow>
             if protoError e
             then (recordAuth (en_now en) (se_snap se) (contStart se cont) (se_user se) ''ascii_chpass'' ''error'' (svc_dropSession key s), errorStep)
             else retryOrFail en key se cont ''ascii_chpass'' dataPrompt s
         | Inr _ \<Rightarrow> (putSession key (se\<lparr>se_needOld := False, se_fails := 0\<rparr>) s, passPrompt))
      else confirmChange (publishLogin en) passPrompt en key se cont ''ascii_chpass'' s)"

subsection \<open>The operations\<close>

definition BeginAuthentication ::
  "'re callEnv \<Rightarrow> AuthenticationStart \<Rightarrow> 're AAAService \<Rightarrow> 're AAAService \<times> AuthenticationStep \<times> callErr option" where
  "BeginAuthentication en start s =
     (if cx_done (en_ctx en) then (s, errorStep, Some ErrContext)
      else case checkAuthenFields s (sta_UserID start) (sta_Port start) (sta_Remote start) of
        Inl e \<Rightarrow> (s, errorStep, Some (ErrDomain e))
      | Inr _ \<Rightarrow>
          (let s = svc_dropSession (sta_ConnKey start, sta_SessionID start) s
           in case svc_snap s of
                None \<Rightarrow> (s, errorStep, None)
              | Some snap \<Rightarrow>
                  (let (flow, term) = classifyStart start
                   in case term of
                        Some status \<Rightarrow>
                          (recordAuth (en_now en) snap start '''' (eventType flow (sta_Action start)) (AuthenStatus_String status) s, plainStep status, None)
                      | None \<Rightarrow>
                          if \<not> methodAllowed snap (sta_ClientID start) (methodForFlow flow)
                          then (recordAuth (en_now en) snap start (canonUser (en_lib en) (sta_UserID start)) (eventType flow (sta_Action start)) ''restart'' s,
                                plainStep StatusRestart, None)
                          else let (s, step) =
                                 (case flow of
                                    flowPAP \<Rightarrow> oneShotPAP en snap start s
                                  | flowCHAP \<Rightarrow> oneShotCHAP en snap start s
                                  | flowMSCHAPv1 \<Rightarrow> oneShotMSCHAP en snap start False s
                                  | flowMSCHAPv2 \<Rightarrow> oneShotMSCHAP en snap start True s
                                  | flowNone \<Rightarrow> (recordAuth (en_now en) snap start (canonUser (en_lib en) (sta_UserID start)) ''unsupported'' ''error'' s, errorStep)
                                  | _ \<Rightarrow> beginInteractive en start snap flow s)
                               in (s, step, None))))"

definition ContinueAuthentication ::
  "'re callEnv \<Rightarrow> AuthenticationContinue \<Rightarrow> 're AAAService \<Rightarrow> 're AAAService \<times> AuthenticationStep \<times> callErr option" where
  "ContinueAuthentication en cont s =
     (if cx_done (en_ctx en) then (s, errorStep, Some ErrContext)
      else let key = (cnt_ConnKey cont, cnt_SessionID cont)
           in case map_of (sv_sessions s) key of
                None \<Rightarrow> (s, errorStep, None)
              | Some se \<Rightarrow>
                  if cnt_Abort cont
                  then (recordAuth (en_now en) (se_snap se) (eventStart (cnt_ClientID cont) (cnt_SessionID cont) (cnt_Transport cont) (cnt_Revision cont))
                          (se_user se) (eventType (se_flow se) 0) ''abort'' (svc_dropSession key s), failStep, None)
                  else let (s, step) =
                         (case se_flow se of
                            flowASCII \<Rightarrow> continueASCII en key se cont s
                          | flowEnable \<Rightarrow> continueEnable en key se cont s
                          | flowCHPASS \<Rightarrow> continueCHPASS en key se cont s
                          | _ \<Rightarrow> (svc_dropSession key s, errorStep))
                       in (s, step, None))"

definition AbortAuthentication :: "'re callEnv \<Rightarrow> AuthenticationAbort \<Rightarrow> 're AAAService \<Rightarrow> 're AAAService" where
  "AbortAuthentication en abort s =
     (let key = (abt_ConnKey abort, abt_SessionID abort)
      in case map_of (sv_sessions s) key of
           None \<Rightarrow> s
         | Some se \<Rightarrow>
             recordAuth (en_now en) (se_snap se) (eventStart (abt_ClientID abort) (abt_SessionID abort) '''' (abt_Revision abort))
               (se_user se) (eventType (se_flow se) 0) ''abort'' (svc_dropSession key s))"

end
