(* ===== verification/Aaa_Authen_Proofs.thy ===== *)
theory Aaa_Authen_Proofs
  imports Aaa_Authen
begin

text \<open>
  The conversations of the AAA service: who passes, that they end, how credential failures map to
  reply statuses, and what a password change publishes.
\<close>

subsection \<open>Sessions\<close>

lemma record_frame [simp]:
  "sv_sessions (recordAuthReason now snap start user kind result reason s) = sv_sessions s"
  "sv_mgr (recordAuthReason now snap start user kind result reason s) = sv_mgr s"
  "sv_sessions (recordAuth now snap start user kind result s) = sv_sessions s"
  "sv_mgr (recordAuth now snap start user kind result s) = sv_mgr s"
  by (simp_all add: recordAuth_def recordAuthReason_def)

lemma session_frame [simp]:
  "map_of (sv_sessions (putSession key se s)) = (map_of (sv_sessions s))(key \<mapsto> se)"
  "map_of (sv_sessions (svc_dropSession key s)) = (map_of (sv_sessions s))(key := None)"
  "sv_mgr (putSession key se s) = sv_mgr s" "sv_mgr (svc_dropSession key s) = sv_mgr s"
  by (simp_all add: putSession_def svc_dropSession_def update_conv' delete_conv')

lemma step_status [simp]:
  "stp_Status errorStep = StatusError" "stp_Status failStep = StatusFail" "stp_Status passStep = StatusPass"
  "stp_Status (failStepMsg m) = StatusFail" "stp_Status userPrompt = StatusGetUser" "stp_Status passPrompt = StatusGetPass"
  "stp_Status dataPrompt = StatusGetData" "stp_Status newPassPrompt = StatusGetPass" "stp_Status confirmPassPrompt = StatusGetPass"
  "stp_Status (plainStep b) = b"
  by (simp_all add: errorStep_def failStep_def passStep_def failStepMsg_def userPrompt_def passPrompt_def dataPrompt_def
      newPassPrompt_def confirmPassPrompt_def plainStep_def)

lemma maxRounds_pos: "maxRounds snap > 0"
  by (simp add: maxRounds_def split: option.splits)

text \<open>
  The stages of a conversation: the user name, the password (for a change, the old one), the new password,
  its confirmation.
\<close>

datatype stage = NeedUser | NeedPassword | NeedNew | NeedConfirm

definition stage_of :: "'re authSession \<Rightarrow> stage" where
  "stage_of se =
     (if se_needUser se then NeedUser
      else if se_needOld se \<or> \<not> se_needNew se \<and> \<not> se_needConfirm se then NeedPassword
      else if se_needNew se then NeedNew else NeedConfirm)"

text \<open>The check of a password message by the session's credential service.\<close>

definition pwVerified :: "'re authSession \<Rightarrow> 're callEnv \<Rightarrow> AuthenticationContinue \<Rightarrow> bool" where
  "pwVerified se en cont \<longleftrightarrow>
     (if se_flow se = flowEnable
      then VerifyEnable (en_lib en) (en_ctx en) (en_now en) (se_creds se) (se_user se) (cnt_UserMsg cont) = Inr ()
      else VerifyASCIIOrPAP (en_lib en) (en_ctx en) (en_now en) (se_creds se) (se_user se) (cnt_UserMsg cont) = Inr ())"

definition mustChange :: "'re authSession \<Rightarrow> bool" where
  "mustChange se \<longleftrightarrow>
     se_flow se = flowCHPASS \<or> se_flow se = flowASCII \<and> userMustChangeLogin (se_snap se) (se_user se) \<or>
     se_flow se = flowEnable \<and> userMustChangeEnable (se_snap se) (se_user se)"

definition wellStaged :: "'re authSession \<Rightarrow> bool" where
  "wellStaged se \<longleftrightarrow>
     (case stage_of se of
        NeedUser \<Rightarrow> if se_flow se = flowCHPASS then se_needOld se \<and> se_needNew se \<and> \<not> se_needConfirm se
                    else \<not> se_needOld se \<and> \<not> se_needNew se \<and> \<not> se_needConfirm se
      | NeedPassword \<Rightarrow> if se_flow se = flowCHPASS then se_needOld se \<and> se_needNew se \<and> \<not> se_needConfirm se
                        else \<not> se_needOld se \<and> \<not> se_needNew se \<and> \<not> se_needConfirm se
      | NeedNew \<Rightarrow> \<not> se_needConfirm se
      | NeedConfirm \<Rightarrow> True) \<and> se_flow se \<in> {flowASCII, flowEnable, flowCHPASS}"

text \<open>
  One CONTINUE, by stage: the session moves to the next stage, stays with one failure more, or
  ends. It ends with PASS after a verified password that need not change, or after a
  published change.
\<close>

definition sameConv :: "'re authSession \<Rightarrow> 're authSession \<Rightarrow> bool" where
  "sameConv se se' \<longleftrightarrow> se_flow se' = se_flow se \<and> se_clientID se' = se_clientID se \<and> se_snap se' = se_snap se \<and> se_creds se' = se_creds se \<and>
     se_maxRounds se' = se_maxRounds se \<and> se_rev se' = se_rev se"

definition roundLimit :: "'re authSession \<Rightarrow> int" where
  "roundLimit se = (if se_maxRounds se \<le> 0 then maxRounds (se_snap se) else se_maxRounds se)"

lemma retry_stored:
  "retryOrFail en key se cont kind retry s = (s', step) \<Longrightarrow> map_of (sv_sessions s') key = Some se' \<Longrightarrow>
     se' = se\<lparr>se_fails := se_fails se + 1\<rparr> \<and> se_fails se + 1 < roundLimit se \<and> step = retry"
  by (auto simp: retryOrFail_def roundLimit_def Let_def split: if_splits)

lemma publish_drops:
  "publishVia oper reason en se cont kind s = (s', step) \<Longrightarrow> map_of (sv_sessions s') (cnt_ConnKey cont, cnt_SessionID cont) = None"
  by (auto simp: publishVia_def Let_def split: option.splits sum.splits prod.splits if_splits)

definition publishes ::
  "('re authSession \<Rightarrow> AuthenticationContinue \<Rightarrow> bytes \<Rightarrow> string \<Rightarrow> 're AAAService \<Rightarrow> 're AAAService \<times> AuthenticationStep) \<Rightarrow> bool" where
  "publishes publish \<longleftrightarrow> (\<forall>se cont phc kind s s' step. publish se cont phc kind s = (s', step) \<longrightarrow>
     map_of (sv_sessions s') (cnt_ConnKey cont, cnt_SessionID cont) = None)"

lemma publishesD: "publish se cont phc kind s = (s', step) \<Longrightarrow> publishes publish \<Longrightarrow>
    map_of (sv_sessions s') (cnt_ConnKey cont, cnt_SessionID cont) = None"
  unfolding publishes_def by blast

lemma publishes_both: "publishes (publishLogin en)" "publishes (publishEnable en)"
  by (auto simp: publishes_def publishLogin_def publishEnable_def dest: publish_drops)

lemma confirm_stored:
  assumes "confirmChange publish prompt en key se cont kind s = (s', step)" "publishes publish"
    "key = (cnt_ConnKey cont, cnt_SessionID cont)" "map_of (sv_sessions s') key = Some se'"
  shows "se_needNew se \<and> se' = se\<lparr>se_newPass := cnt_UserMsg cont, se_needNew := False, se_needConfirm := True\<rparr> \<and> step = prompt"
  using assms by (auto simp: confirmChange_def Let_def split: if_splits sum.splits prod.splits dest: publishesD)

lemma finish_stored:
  assumes "finishPassword en key se cont enable s = (s', step)" "map_of (sv_sessions s') key = Some se'"
  shows "se' = se\<lparr>se_fails := se_fails se + 1\<rparr> \<and> se_fails se + 1 < roundLimit se \<and> step = passPrompt \<or>
    se' = se\<lparr>se_needNew := True, se_fails := 0\<rparr> \<and> step = newPassPrompt \<and>
      (if enable then VerifyEnable (en_lib en) (en_ctx en) (en_now en) (se_creds se) (se_user se) (cnt_UserMsg cont) = Inr () \<and>
         userMustChangeEnable (se_snap se) (se_user se)
       else VerifyASCIIOrPAP (en_lib en) (en_ctx en) (en_now en) (se_creds se) (se_user se) (cnt_UserMsg cont) = Inr () \<and>
         userMustChangeLogin (se_snap se) (se_user se))"
  using assms by (auto simp: finishPassword_def Let_def split: if_splits sum.splits dest: retry_stored)

text \<open>What one CONTINUE does to the session of its key, once the call reached the conversation.\<close>

definition converse ::
  "'re callEnv \<Rightarrow> sessionKey \<Rightarrow> 're authSession \<Rightarrow> AuthenticationContinue \<Rightarrow> 're AAAService \<Rightarrow> 're AAAService \<times> AuthenticationStep" where
  "converse en key se cont s =
     (case se_flow se of
        flowASCII \<Rightarrow> continueASCII en key se cont s
      | flowEnable \<Rightarrow> continueEnable en key se cont s
      | flowCHPASS \<Rightarrow> continueCHPASS en key se cont s
      | _ \<Rightarrow> (svc_dropSession key s, errorStep))"

lemma Continue_converse:
  assumes "ContinueAuthentication en cont s = (s', step, None)" "key = (cnt_ConnKey cont, cnt_SessionID cont)" "map_of (sv_sessions s) key = Some se"
  shows "converse en key se cont s = (s', step) \<or> stp_Status step = StatusFail \<and> map_of (sv_sessions s') key = None"
  using assms by (auto simp: ContinueAuthentication_def converse_def Let_def split: if_splits prod.splits)

lemma login_stored:
  assumes "continueLogin en key se cont enable s = (s', step)" "key = (cnt_ConnKey cont, cnt_SessionID cont)" "map_of (sv_sessions s') key = Some se'"
    "wellStaged se" "se_flow se = (if enable then flowEnable else flowASCII)"
  shows "sameConv se se' \<and> wellStaged se' \<and> stp_Status step = StatusGetPass \<and>
     (case stage_of se of
        NeedUser \<Rightarrow> stage_of se' = NeedPassword \<and> se_fails se' = se_fails se
      | NeedPassword \<Rightarrow> se_user se' = se_user se \<and>
          (stage_of se' = NeedPassword \<and> se_fails se' = se_fails se + 1 \<and> se_fails se' < roundLimit se \<or>
           stage_of se' = NeedNew \<and> se_fails se' = 0 \<and> pwVerified se en cont \<and> mustChange se)
      | NeedNew \<Rightarrow> stage_of se' = NeedConfirm \<and> se_fails se' = se_fails se \<and> se_user se' = se_user se \<and> se_newPass se' = cnt_UserMsg cont
      | NeedConfirm \<Rightarrow> False)"
proof (cases "stage_of se")
  case NeedUser
  then show ?thesis
    using assms by (auto simp: continueLogin_def stage_of_def sameConv_def wellStaged_def split: if_splits)
next
  case NeedPassword
  then have "finishPassword en key se cont enable s = (s', step)"
    using assms by (auto simp: continueLogin_def wellStaged_def stage_of_def split: if_splits)
  from finish_stored [OF this assms(3)] NeedPassword assms(4,5) show ?thesis
    by (auto simp: stage_of_def sameConv_def wellStaged_def pwVerified_def mustChange_def split: if_splits)
next
  case NeedNew
  then have "continueNewConfirm en key se cont enable s = (s', step)"
    using assms by (auto simp: continueLogin_def stage_of_def split: if_splits)
  from confirm_stored [OF this [unfolded continueNewConfirm_def] _ assms(2,3)] NeedNew assms(4,5) show ?thesis
    by (auto simp: stage_of_def sameConv_def wellStaged_def publishes_both split: if_splits)
next
  case NeedConfirm
  then have "continueNewConfirm en key se cont enable s = (s', step)"
    using assms by (auto simp: continueLogin_def stage_of_def split: if_splits)
  from confirm_stored [OF this [unfolded continueNewConfirm_def] _ assms(2,3)] NeedConfirm show ?thesis
    by (auto simp: stage_of_def publishes_both split: if_splits)
qed

lemma chpass_stored:
  assumes "continueCHPASS en key se cont s = (s', step)" "key = (cnt_ConnKey cont, cnt_SessionID cont)" "map_of (sv_sessions s') key = Some se'"
    "wellStaged se" "se_flow se = flowCHPASS"
  shows "sameConv se se' \<and> wellStaged se' \<and> stp_Status step \<in> {StatusGetPass, StatusGetData} \<and>
     (case stage_of se of
        NeedUser \<Rightarrow> stage_of se' = NeedPassword \<and> se_fails se' = se_fails se
      | NeedPassword \<Rightarrow> se_user se' = se_user se \<and>
          (stage_of se' = NeedPassword \<and> se_fails se' = se_fails se + 1 \<and> se_fails se' < roundLimit se \<or>
           stage_of se' = NeedNew \<and> se_fails se' = 0 \<and> pwVerified se en cont \<and> mustChange se)
      | NeedNew \<Rightarrow> stage_of se' = NeedConfirm \<and> se_fails se' = se_fails se \<and> se_user se' = se_user se \<and> se_newPass se' = cnt_UserMsg cont
      | NeedConfirm \<Rightarrow> False)"
proof (cases "stage_of se")
  case NeedUser
  then show ?thesis
    using assms by (auto simp: continueCHPASS_def stage_of_def sameConv_def wellStaged_def split: if_splits)
next
  case NeedPassword
  then show ?thesis
    using assms by (auto simp: continueCHPASS_def stage_of_def sameConv_def wellStaged_def pwVerified_def mustChange_def
        split: if_splits sum.splits dest!: retry_stored)
next
  case NeedNew
  then have "confirmChange (publishLogin en) passPrompt en key se cont ''ascii_chpass'' s = (s', step)"
    using assms by (auto simp: continueCHPASS_def stage_of_def split: if_splits)
  from confirm_stored [OF this publishes_both(1) assms(2,3)] NeedNew assms(4,5) show ?thesis
    by (auto simp: stage_of_def sameConv_def wellStaged_def split: if_splits)
next
  case NeedConfirm
  then have "confirmChange (publishLogin en) passPrompt en key se cont ''ascii_chpass'' s = (s', step)"
    using assms by (auto simp: continueCHPASS_def stage_of_def split: if_splits)
  from confirm_stored [OF this publishes_both(1) assms(2,3)] NeedConfirm show ?thesis
    by (auto simp: stage_of_def split: if_splits)
qed

subsection \<open>Conversations\<close>

text \<open>
  \<open>talk key start s0 log se\<close>: the session \<open>se\<close> is what a conversation left in the table that began with \<open>start\<close>
  in the service state \<open>s0\<close> and went on with the CONTINUEs of \<open>log\<close> that were not cancelled. Between
  two messages the service may do anything else; only the session must still be there.
\<close>

inductive talk ::
  "sessionKey \<Rightarrow> AuthenticationStart \<Rightarrow> 're AAAService \<Rightarrow> ('re callEnv \<times> AuthenticationContinue) list \<Rightarrow> 're authSession \<Rightarrow> bool"
  for key start s0 where
  start: "BeginAuthentication en start s0 = (s', step, None) \<Longrightarrow> key = (sta_ConnKey start, sta_SessionID start) \<Longrightarrow>
     map_of (sv_sessions s') key = Some se \<Longrightarrow> talk key start s0 [] se"
| cont: "talk key start s0 log se \<Longrightarrow> map_of (sv_sessions s) key = Some se \<Longrightarrow> key = (cnt_ConnKey cont, cnt_SessionID cont) \<Longrightarrow>
     ContinueAuthentication en cont s = (s', step, None) \<Longrightarrow> map_of (sv_sessions s') key = Some se' \<Longrightarrow> talk key start s0 (log @ [(en, cont)]) se'"

text \<open>The session is bound to the snapshot, the client and the method of the START.\<close>

definition boundTo :: "AuthenticationStart \<Rightarrow> 're AAAService \<Rightarrow> 're authSession \<Rightarrow> bool" where
  "boundTo start s0 se \<longleftrightarrow>
     svc_snap s0 = Some (se_snap se) \<and> se_creds se = boundCreds s0 (se_snap se) (sta_ClientID start) \<and> se_clientID se = sta_ClientID start \<and>
     se_maxRounds se = maxRounds (se_snap se) \<and> se_rev se = sn_Revision (se_snap se) \<and> classifyStart start = (se_flow se, None) \<and>
     methodAllowed (se_snap se) (sta_ClientID start) (methodForFlow (se_flow se))"

definition staged :: "('re callEnv \<times> AuthenticationContinue) list \<Rightarrow> 're authSession \<Rightarrow> bool" where
  "staged log se \<longleftrightarrow> wellStaged se \<and> 0 \<le> se_fails se \<and>
     (case stage_of se of
        NeedUser \<Rightarrow> log = [] \<and> se_fails se = 0
      | NeedPassword \<Rightarrow> int (length log) \<le> 1 + se_fails se \<and> se_fails se < maxRounds (se_snap se)
      | NeedNew \<Rightarrow> int (length log) \<le> maxRounds (se_snap se) + 1 \<and> mustChange se \<and> (\<exists>(en, cont) \<in> set log. pwVerified se en cont)
      | NeedConfirm \<Rightarrow> int (length log) \<le> maxRounds (se_snap se) + 2 \<and> mustChange se \<and> (\<exists>(en, cont) \<in> set log. pwVerified se en cont) \<and>
          se_newPass se = cnt_UserMsg (snd (last log)))"

lemma drop_frame [simp]:
  "svc_snap (svc_dropSession key s) = svc_snap s" "boundCreds (svc_dropSession key s) snap c = boundCreds s snap c"
  by (simp_all add: svc_snap_def svc_dropSession_def boundCreds_def split: option.split)

lemma oneShot_frame [simp]:
  "sv_sessions (fst (oneShotPAP en snap start s)) = sv_sessions s"
  "sv_sessions (fst (oneShotCHAP en snap start s)) = sv_sessions s"
  "sv_sessions (fst (oneShotMSCHAP en snap start v2 s)) = sv_sessions s"
  by (auto simp: oneShotPAP_def oneShotCHAP_def oneShotMSCHAP_def finishOneShotOutcome_def Let_def split: sum.splits prod.splits)

text \<open>The flow of a START that passed the checks: what \<open>BeginAuthentication\<close> runs once the method is allowed.\<close>

definition runFlow ::
  "'re callEnv \<Rightarrow> 're StateSnapshot \<Rightarrow> AuthenticationStart \<Rightarrow> authFlow \<Rightarrow> 're AAAService \<Rightarrow> 're AAAService \<times> AuthenticationStep" where
  "runFlow en snap start flow s =
     (case flow of
        flowPAP \<Rightarrow> oneShotPAP en snap start s
      | flowCHAP \<Rightarrow> oneShotCHAP en snap start s
      | flowMSCHAPv1 \<Rightarrow> oneShotMSCHAP en snap start False s
      | flowMSCHAPv2 \<Rightarrow> oneShotMSCHAP en snap start True s
      | flowNone \<Rightarrow> (recordAuth (en_now en) snap start (canonUser (en_lib en) (sta_UserID start)) ''unsupported'' ''error'' s, errorStep)
      | _ \<Rightarrow> beginInteractive en start snap flow s)"

lemma Begin_runFlow:
  "BeginAuthentication en start s =
     (if cx_done (en_ctx en) then (s, errorStep, Some ErrContext)
      else case checkAuthenFields s (sta_UserID start) (sta_Port start) (sta_Remote start) of
        Inl e \<Rightarrow> (s, errorStep, Some (ErrDomain e))
      | Inr _ \<Rightarrow>
          (let s = svc_dropSession (sta_ConnKey start, sta_SessionID start) s
           in case svc_snap s of
                None \<Rightarrow> (s, errorStep, None)
              | Some snap \<Rightarrow>
                  (let (flow, term) = classifyStart start
                   in case term of
                        Some status \<Rightarrow>
                          (recordAuth (en_now en) snap start '''' (eventType flow (sta_Action start)) (AuthenStatus_String status) s, plainStep status, None)
                      | None \<Rightarrow>
                          if \<not> methodAllowed snap (sta_ClientID start) (methodForFlow flow)
                          then (recordAuth (en_now en) snap start (canonUser (en_lib en) (sta_UserID start)) (eventType flow (sta_Action start)) ''restart'' s,
                                plainStep StatusRestart, None)
                          else let (s, step) = runFlow en snap start flow s in (s, step, None))))"
  unfolding BeginAuthentication_def runFlow_def ..

lemma runFlow_session:
  assumes "runFlow en snap start flow s = (s', step)" "map_of (sv_sessions s) key = None" "map_of (sv_sessions s') key \<noteq> None"
  shows "flow \<in> {flowASCII, flowEnable, flowCHPASS} \<and> beginInteractive en start snap flow s = (s', step)"
proof -
  have "s' = fst (runFlow en snap start flow s)" using assms(1) by simp
  with assms show ?thesis by (cases flow) (simp_all add: runFlow_def)
qed

lemma begin_bound:
  assumes "BeginAuthentication en start s0 = (s', step, None)" "key = (sta_ConnKey start, sta_SessionID start)" "map_of (sv_sessions s') key = Some se"
  shows "boundTo start s0 se \<and> staged [] se"
proof -
  have none: "map_of (sv_sessions (svc_dropSession key s0)) key = None" by simp
  obtain snap flow where f: "svc_snap s0 = Some snap" "classifyStart start = (flow, None)" "methodAllowed snap (sta_ClientID start) (methodForFlow flow)"
      "runFlow en snap start flow (svc_dropSession key s0) = (s', step)"
    using assms none
    by (simp add: Begin_runFlow Let_def split: if_splits sum.splits option.splits prod.splits) auto
  have fl: "flow \<in> {flowASCII, flowEnable, flowCHPASS}" "beginInteractive en start snap flow (svc_dropSession key s0) = (s', step)"
    using runFlow_session [OF f(4) none] assms(3) by auto
  from fl(2) assms(2,3) none have "se = \<lparr>se_flow = flow, se_user = canonUser (en_lib en) (sta_UserID start), se_clientID = sta_ClientID start,
      se_needUser = (canonUser (en_lib en) (sta_UserID start) = ''''), se_needOld = (flow = flowCHPASS), se_needNew = (flow = flowCHPASS),
      se_needConfirm = False, se_newPass = [], se_fails = 0, se_snap = snap, se_creds = boundCreds s0 snap (sta_ClientID start),
      se_maxRounds = maxRounds snap, se_rev = sn_Revision snap\<rparr>"
    by (auto simp: beginInteractive_def Let_def split: if_splits)
  with f fl show ?thesis
    using maxRounds_pos [of snap] by (auto simp: boundTo_def staged_def wellStaged_def stage_of_def)
qed

lemma converse_stored:
  assumes "converse en key se cont s = (s', step)" "key = (cnt_ConnKey cont, cnt_SessionID cont)" "map_of (sv_sessions s') key = Some se'" "wellStaged se"
  shows "sameConv se se' \<and> wellStaged se' \<and> stp_Status step \<in> {StatusGetPass, StatusGetData} \<and>
     (case stage_of se of
        NeedUser \<Rightarrow> stage_of se' = NeedPassword \<and> se_fails se' = se_fails se
      | NeedPassword \<Rightarrow> se_user se' = se_user se \<and>
          (stage_of se' = NeedPassword \<and> se_fails se' = se_fails se + 1 \<and> se_fails se' < roundLimit se \<or>
           stage_of se' = NeedNew \<and> se_fails se' = 0 \<and> pwVerified se en cont \<and> mustChange se)
      | NeedNew \<Rightarrow> stage_of se' = NeedConfirm \<and> se_fails se' = se_fails se \<and> se_user se' = se_user se \<and> se_newPass se' = cnt_UserMsg cont
      | NeedConfirm \<Rightarrow> False)"
proof -
  from assms(4) consider "se_flow se = flowASCII" | "se_flow se = flowEnable" | "se_flow se = flowCHPASS" by (auto simp: wellStaged_def)
  then show ?thesis
  proof cases
    case 1
    with assms login_stored [of en key se cont False s s' step se'] show ?thesis by (simp add: converse_def continueASCII_def)
  next
    case 2
    with assms login_stored [of en key se cont True s s' step se'] show ?thesis by (simp add: converse_def continueEnable_def)
  next
    case 3
    with assms chpass_stored [of en key se cont s s' step se'] show ?thesis by (simp add: converse_def)
  qed
qed

lemma talk_invariant: "talk key start s0 log se \<Longrightarrow> boundTo start s0 se \<and> staged log se"
proof (induction rule: talk.induct)
  case (start en s' step se)
  then show ?case by (rule begin_bound)
next
  case (cont log se s cont en s' step se')
  then have conv: "converse en key se cont s = (s', step)" using Continue_converse [of en cont s s' step key se] by auto
  have ok: "wellStaged se" "boundTo start s0 se" "staged log se" using cont.IH by (auto simp: staged_def)
  from converse_stored [OF conv cont.hyps(3,5) ok(1)]
  have st: "sameConv se se'" "wellStaged se'" and stage: "case stage_of se of
        NeedUser \<Rightarrow> stage_of se' = NeedPassword \<and> se_fails se' = se_fails se
      | NeedPassword \<Rightarrow> se_user se' = se_user se \<and>
          (stage_of se' = NeedPassword \<and> se_fails se' = se_fails se + 1 \<and> se_fails se' < roundLimit se \<or>
           stage_of se' = NeedNew \<and> se_fails se' = 0 \<and> pwVerified se en cont \<and> mustChange se)
      | NeedNew \<Rightarrow> stage_of se' = NeedConfirm \<and> se_fails se' = se_fails se \<and> se_user se' = se_user se \<and> se_newPass se' = cnt_UserMsg cont
      | NeedConfirm \<Rightarrow> False" by auto
  have lim: "roundLimit se = maxRounds (se_snap se)" using ok(2) by (simp add: roundLimit_def boundTo_def)
  have bound: "boundTo start s0 se'" using ok(2) st(1) by (auto simp: boundTo_def sameConv_def)
  have keep: "pwVerified se' e c = pwVerified se e c" "mustChange se' = mustChange se" if "se_user se' = se_user se" for e c
    using st(1) that by (simp_all add: pwVerified_def mustChange_def sameConv_def)
  have "staged (log @ [(en, cont)]) se'"
    using stage ok(3) st keep lim maxRounds_pos [of "se_snap se"]
    by (auto simp: staged_def sameConv_def split: stage.splits)
  with bound show ?case by simp
qed

subsection \<open>How a conversation passes\<close>

lemma finish_pass:
  assumes "finishPassword en key se cont enable s = (s', step)" "stp_Status step = StatusPass" "se_flow se = (if enable then flowEnable else flowASCII)"
  shows "map_of (sv_sessions s') key = None \<and> sv_mgr s' = sv_mgr s \<and> pwVerified se en cont \<and> \<not> mustChange se"
  using assms by (auto simp: finishPassword_def retryOrFail_def pwVerified_def mustChange_def Let_def split: if_splits sum.splits)

text \<open>The operation of the manager a confirmed change runs.\<close>

definition overrideFor :: "'re callEnv \<Rightarrow> 're authSession \<Rightarrow> bytes \<Rightarrow> 're Manager \<Rightarrow> 're Manager \<times> (Error + 're StateSnapshot)" where
  "overrideFor en se phc =
     (if se_flow se = flowEnable then OverrideEnableVerifier (en_lib en) (en_ce en) (en_now en) (se_user se) phc (Some (se_rev se))
      else OverrideLoginVerifier (en_lib en) (en_ce en) (en_now en) (se_user se) phc (Some (se_rev se)))"

text \<open>The password changed: the verifier derived from the message was published against the revision of the START.\<close>

definition changed :: "'re callEnv \<Rightarrow> 're authSession \<Rightarrow> AuthenticationContinue \<Rightarrow> 're AAAService \<Rightarrow> 're AAAService \<Rightarrow> bool" where
  "changed en se cont s s' \<longleftrightarrow>
     (\<exists>m m' snap phc entropy.
        sv_mgr s = Some m \<and> DeriveVerifier (en_lib en) (en_ctx en) (se_creds se) (cnt_UserMsg cont) (sv_entropy s) = (entropy, Inr phc) \<and>
        overrideFor en se phc m = (m', Inr snap) \<and> sv_mgr s' = Some m' \<and> sv_secrets s' = sv_secrets s)"

lemma record_secrets [simp]:
  "sv_secrets (recordAuthReason now snap start user kind result reason s) = sv_secrets s"
  "sv_secrets (recordAuth now snap start user kind result s) = sv_secrets s"
  "sv_secrets (svc_dropSession key s) = sv_secrets s"
  by (simp_all add: recordAuth_def recordAuthReason_def svc_dropSession_def)

lemma publish_pass:
  assumes "publishVia oper reason en se cont kind s = (s', step)" "stp_Status step = StatusPass"
  shows "\<exists>m m' snap. sv_mgr s = Some m \<and> oper m = (m', Inr snap) \<and> sv_mgr s' = Some m' \<and> sv_secrets s' = sv_secrets s"
  using assms by (auto simp: publishVia_def Let_def split: option.splits sum.splits prod.splits if_splits)

lemma confirm_pass:
  assumes run: "confirmChange (if se_flow se = flowEnable then publishEnable en else publishLogin en) prompt en key se cont kind s = (s', step)"
    and "stp_Status step = StatusPass" "key = (cnt_ConnKey cont, cnt_SessionID cont)" "stp_Status prompt \<noteq> StatusPass"
  shows "\<not> se_needNew se \<and> se_newPass se = cnt_UserMsg cont \<and> changed en se cont s s' \<and> map_of (sv_sessions s') key = None"
proof -
  let ?publish = "if se_flow se = flowEnable then publishEnable en else publishLogin en"
  obtain entropy phc where c: "\<not> se_needNew se" "se_newPass se = cnt_UserMsg cont"
      "DeriveVerifier (en_lib en) (en_ctx en) (se_creds se) (cnt_UserMsg cont) (sv_entropy s) = (entropy, Inr phc)"
      "?publish se cont phc kind (s\<lparr>sv_entropy := entropy\<rparr>) = (s', step)"
    using assms by (auto simp: confirmChange_def Let_def split: if_splits sum.splits prod.splits)
  have "changed en se cont s s'"
    using c publish_pass [OF _ assms(2)]
    by (fastforce simp: changed_def overrideFor_def publishEnable_def publishLogin_def split: if_splits)
  moreover have "map_of (sv_sessions s') key = None"
    using c(4) publishes_both [of en] assms(3) by (auto dest: publishesD split: if_splits)
  ultimately show ?thesis using c by simp
qed

text \<open>A CONTINUE that passes ends the conversation after a verified password that need not change, or after a change.\<close>

lemma converse_pass:
  assumes "converse en key se cont s = (s', step)" "stp_Status step = StatusPass" "key = (cnt_ConnKey cont, cnt_SessionID cont)" "wellStaged se"
  shows "map_of (sv_sessions s') key = None \<and>
    (stage_of se = NeedPassword \<and> pwVerified se en cont \<and> \<not> mustChange se \<and> sv_mgr s' = sv_mgr s \<or>
     stage_of se = NeedConfirm \<and> se_newPass se = cnt_UserMsg cont \<and> changed en se cont s s')"
proof (cases "se_flow se = flowCHPASS")
  case True
  then have run: "continueCHPASS en key se cont s = (s', step)" using assms(1) by (simp add: converse_def)
  then have "\<not> se_needUser se" "\<not> se_needOld se" and conf: "confirmChange (publishLogin en) passPrompt en key se cont ''ascii_chpass'' s = (s', step)"
    using assms(2) by (auto simp: continueCHPASS_def retryOrFail_def Let_def split: if_splits sum.splits)
  then show ?thesis
    using confirm_pass [of se en passPrompt key cont "''ascii_chpass''" s s' step] assms(2-4) True
    by (auto simp: stage_of_def wellStaged_def split: if_splits)
next
  case False
  define enable where "enable \<longleftrightarrow> se_flow se = flowEnable"
  have fl: "se_flow se = (if enable then flowEnable else flowASCII)" using False assms(4) by (auto simp: enable_def wellStaged_def)
  then have run: "continueLogin en key se cont enable s = (s', step)"
    using assms(1) by (auto simp: converse_def continueASCII_def continueEnable_def split: if_splits)
  then consider (password) "\<not> se_needUser se" "\<not> se_needNew se" "\<not> se_needConfirm se" "finishPassword en key se cont enable s = (s', step)"
    | (change) "\<not> se_needUser se" "se_needNew se \<or> se_needConfirm se" "continueNewConfirm en key se cont enable s = (s', step)"
    using assms(2) by (auto simp: continueLogin_def split: if_splits)
  then show ?thesis
  proof cases
    case password
    then show ?thesis using finish_pass [OF password(4) assms(2) fl] by (simp add: stage_of_def)
  next
    case change
    have run: "confirmChange (if se_flow se = flowEnable then publishEnable en else publishLogin en) confirmPassPrompt en key se cont
        (if enable then ''enable'' else ''ascii_login'') s = (s', step)"
      using change(3) fl by (cases enable) (simp_all add: continueNewConfirm_def)
    show ?thesis
      using confirm_pass [OF run assms(2,3)] change(1,2) assms(4) fl
      by (auto simp: stage_of_def wellStaged_def split: if_splits)
  qed
qed

text \<open>A CONTINUE that ends the conversation answers with a final status.\<close>

lemma publish_final: "publishVia oper reason en se cont kind s = (s', step) \<Longrightarrow> stp_Status step \<in> {StatusPass, StatusFail, StatusError}"
  by (auto simp: publishVia_def Let_def split: option.splits sum.splits prod.splits if_splits)

lemma confirm_final:
  assumes "confirmChange publish prompt en key se cont kind s = (s', step)" "publish \<in> {publishLogin en, publishEnable en}" "map_of (sv_sessions s') key = None"
  shows "stp_Status step \<in> {StatusPass, StatusFail, StatusError}"
proof -
  have "stp_Status step \<in> {StatusPass, StatusFail, StatusError}" if "publish se cont phc kind s = (s', step)" for phc and s :: "'a AAAService"
    using that assms(2) unfolding publishLogin_def publishEnable_def by (blast dest: publish_final)
  with assms(1,3) show ?thesis by (auto simp: confirmChange_def Let_def split: if_splits sum.splits prod.splits)
qed

lemma retry_final: "retryOrFail en key se cont kind retry s = (s', step) \<Longrightarrow> map_of (sv_sessions s') key = None \<Longrightarrow> stp_Status step = StatusFail"
  by (auto simp: retryOrFail_def Let_def split: if_splits)

lemma converse_final:
  assumes "converse en key se cont s = (s', step)" "map_of (sv_sessions s') key = None"
  shows "stp_Status step \<in> {StatusPass, StatusFail, StatusError}"
proof -
  have "stp_Status step \<in> {StatusPass, StatusFail, StatusError}" if "continueLogin en key se cont enable s = (s', step)" for enable
    using that assms(2) confirm_final [of "if enable then publishEnable en else publishLogin en" confirmPassPrompt en key se cont "if enable then ''enable'' else ''ascii_login''" s s' step]
    by (auto simp: continueLogin_def continueNewConfirm_def finishPassword_def Let_def split: if_splits sum.splits dest: retry_final)
  moreover have "stp_Status step \<in> {StatusPass, StatusFail, StatusError}" if "continueCHPASS en key se cont s = (s', step)"
    using that assms(2) confirm_final [of "publishLogin en" passPrompt en key se cont "''ascii_chpass''" s s' step]
    by (auto simp: continueCHPASS_def split: if_splits sum.splits dest: retry_final)
  ultimately show ?thesis
    using assms by (auto simp: converse_def continueASCII_def continueEnable_def split: authFlow.splits)
qed

subsection \<open>What a change publishes\<close>

lemma newLogin_material:
  assumes "RuntimeSecret snap key = Some phc" "key \<noteq> ''''"
  shows "refMaterial snap lookup (noRef\<lparr>ref_Purpose := p, ref_MemoryID := key\<rparr>) = phc"
  using assms by (simp add: refMaterial_def resolveSecret_def SecretRef_Set_def noRef_def)

lemma live_current:
  assumes "mgrOK ce m" "mg_current m = Some old"
  shows "snap_User old j = live_User (mg_baseline m) (mg_overlay m) j" "sn_Revision old = mg_revision m"
proof -
  from assms obtain m0 now where so: "snapOf ce m0 (mg_baseline m) (mg_overlay m) (mg_revision m) now old" and ok: "overlayOK (mg_overlay m)"
    by (auto simp: mgrOK_def)
  show "snap_User old j = live_User (mg_baseline m) (mg_overlay m) j" by (rule snapOf_view(1) [OF so ok])
  show "sn_Revision old = mg_revision m" using so by (simp add: snapOf_def)
qed

text \<open>
  The next check against a record whose login material is the derived verifier: only the
  account can still be refused.
\<close>

lemma verify_derived:
  assumes "cl_precis lib user = Some i" "map_option rec_Login (cs_store cs i) = Some phc" "phc \<noteq> []" "VerifyArgon2id lib phc pw = Inr ()"
  shows "VerifyASCIIOrPAP lib ctx now cs user pw =
    (if cx_done ctx \<or> cx_kdfCancelled ctx then Inl CtxErr else map_sum id (\<lambda>_. ()) (cred_lookup lib now cs user))"
  using assms by (auto simp: VerifyASCIIOrPAP_def cred_lookup_def CanonicalUsername_def split: sum.splits if_splits)

lemma verified_nonempty: "VerifyArgon2id lib phc pw = Inr () \<Longrightarrow> phc \<noteq> []"
  by (auto simp: VerifyArgon2id_def parsePHC_def string_of_bytes_def)

lemma mutate_revision:
  assumes "mutate ce now (Some rv) f m = (m', Inr snap)"
  shows "mg_revision m = rv" "mg_current m' = Some snap" "sn_Revision snap = rv + 1"
  using assms by (auto elim!: mutate_cases dest!: compile_snapOf simp: snapOf_def)

lemma login_change_effect:
  assumes argon: "\<forall>pw salt t m p n. length (cl_argon2 (en_lib en) pw salt t m p n) = unat n"
    and ok: "mgrOK (en_ce en) m" and m: "sv_mgr s = Some m" "mg_current m = Some old" and ch: "changed en se cont s s'"
    and fl: "se_flow se \<noteq> flowEnable"
  shows "\<exists>snap i cur. svc_snap s' = Some snap \<and> sn_Revision old = se_rev se \<and> sn_Revision snap = se_rev se + 1 \<and>
    cl_precis (en_lib en) (se_user se) = Some i \<and> snap_User old i = Some cur \<and>
    snap_User snap = (snap_User old)(i \<mapsto> cur\<lparr>us_Login := noRef\<lparr>ref_Purpose := ''login_verifier'', ref_MemoryID := ''login:'' @ i\<rparr>, us_MustChangeLogin := False\<rparr>) \<and>
    (\<forall>ctx now c. VerifyASCIIOrPAP (en_lib en) ctx now (boundCreds s' snap c) (se_user se) (cnt_UserMsg cont) =
       (if cx_done ctx \<or> cx_kdfCancelled ctx then Inl CtxErr
        else map_sum id (\<lambda>_. ()) (cred_lookup (en_lib en) now (boundCreds s' snap c) (se_user se))))"
proof -
  from ch m obtain m' snap phc entropy where
    der: "DeriveVerifier (en_lib en) (en_ctx en) (se_creds se) (cnt_UserMsg cont) (sv_entropy s) = (entropy, Inr phc)"
    and ov: "overrideFor en se phc m = (m', Inr snap)" and s': "sv_mgr s' = Some m'"
    by (auto simp: changed_def)
  have ver: "VerifyArgon2id (en_lib en) phc (cnt_UserMsg cont) = Inr ()"
    using derived_parse(3) [OF argon _ refl] der by (auto simp: DeriveVerifier_def split: if_splits)
  have mut: "mutate (en_ce en) (en_now en) (Some (se_rev se)) (editUser (en_lib en) (se_user se) (\<lambda>i cur ov.
      Inr (cur\<lparr>us_Login := noRef\<lparr>ref_Purpose := ''login_verifier'', ref_MemoryID := ''login:'' @ i\<rparr>, us_MustChangeLogin := False\<rparr>,
        ov\<lparr>ov_secrets := AList.update (''login:'' @ i) phc (ov_secrets ov)\<rparr>))) m = (m', Inr snap)"
    using ov fl by (simp add: overrideFor_def OverrideLoginVerifier_def overrideLoginMut_def Let_def split: sum.splits)
  obtain i cur where e: "NormalizeUserID (en_lib en) (se_user se) = Inr i"
    "live_User (mg_baseline m) (mg_overlay m) i = Some cur"
    "snap_User snap i = Some (cur\<lparr>us_Login := noRef\<lparr>ref_Purpose := ''login_verifier'', ref_MemoryID := ''login:'' @ i\<rparr>, us_MustChangeLogin := False\<rparr>)"
    "RuntimeSecret snap (''login:'' @ i) = Some phc" "mg_current m' = Some snap"
    "\<And>j. j \<noteq> i \<Longrightarrow> snap_User snap j = live_User (mg_baseline m) (mg_overlay m) j"
    by (rule override_effect [OF ok mut]) (simp, simp, blast intro: that)
  have i: "cl_precis (en_lib en) (se_user se) = Some i"
    using e(1) by (auto simp: NormalizeUserID_def split: if_splits option.splits)
  have snap: "svc_snap s' = Some snap" using s' e(5) by (simp add: svc_snap_def)
  have view: "snap_User snap = (snap_User old)(i \<mapsto> cur\<lparr>us_Login := noRef\<lparr>ref_Purpose := ''login_verifier'', ref_MemoryID := ''login:'' @ i\<rparr>, us_MustChangeLogin := False\<rparr>)"
    using e live_current(1) [OF ok m(2)] by (auto simp: fun_eq_iff)
  have "VerifyASCIIOrPAP (en_lib en) ctx now (boundCreds s' snap c) (se_user se) (cnt_UserMsg cont) =
      (if cx_done ctx \<or> cx_kdfCancelled ctx then Inl CtxErr
       else map_sum id (\<lambda>_. ()) (cred_lookup (en_lib en) now (boundCreds s' snap c) (se_user se)))" for ctx now c
    using e(3,4) by (intro verify_derived [OF i _ verified_nonempty [OF ver] ver])
      (simp add: boundCreds_def storeLookup_def newLogin_material)
  moreover have "sn_Revision old = se_rev se" "sn_Revision snap = se_rev se + 1"
    using mutate_revision [OF mut] live_current(2) [OF ok m(2)] by auto
  moreover have "snap_User old i = Some cur" using live_current(1) [OF ok m(2)] e(2) by simp
  ultimately show ?thesis using snap i view by blast
qed

subsection \<open>One-shot starts\<close>

text \<open>The check of the credentials a one-shot START carries.\<close>

definition oneShotCheck :: "'re callEnv \<Rightarrow> 're AAAService \<Rightarrow> 're StateSnapshot \<Rightarrow> AuthenticationStart \<Rightarrow> authFlow \<Rightarrow> credErr + unit" where
  "oneShotCheck en s snap start flow =
     (let user = canonUser (en_lib en) (sta_UserID start); creds = boundCreds s snap (sta_ClientID start);
          named = (\<lambda>r. if user = '''' then Inl (AuthErr KindUnknown) else r)
      in case flow of
           flowPAP \<Rightarrow> if sta_Data start = [] then Inl (AuthErr KindUnknown)
                      else named (VerifyASCIIOrPAP (en_lib en) (en_ctx en) (en_now en) creds user (sta_Data start))
         | flowCHAP \<Rightarrow> rbind (SplitCHAPData (sta_Data start) 8) (\<lambda>(ident, chal, resp).
             named (VerifyCHAP (en_lib en) (en_ctx en) (en_now en) creds user ident chal resp))
         | flowMSCHAPv1 \<Rightarrow> rbind (SplitMSCHAPv1Data (sta_Data start)) (\<lambda>(ident, chal, resp).
             case VerifyMSCHAPv1 (en_lib en) (en_ctx en) (en_now en) creds user chal resp of
               Inl e \<Rightarrow> if protoError e then Inl e else named (Inl e) | Inr _ \<Rightarrow> named (Inr ()))
         | flowMSCHAPv2 \<Rightarrow> rbind (SplitMSCHAPv2Data (sta_Data start)) (\<lambda>(ident, chal, resp).
             case VerifyMSCHAPv2 (en_lib en) (en_ctx en) (en_now en) creds user chal resp of
               Inl e \<Rightarrow> if protoError e then Inl e else named (Inl e) | Inr _ \<Rightarrow> named (Inr ()))
         | _ \<Rightarrow> Inl (AuthErr KindInvalid))"

definition oneShotStatus :: "'re StateSnapshot \<Rightarrow> string \<Rightarrow> credErr + unit \<Rightarrow> byte" where
  "oneShotStatus snap user r =
     (case r of Inr _ \<Rightarrow> if userMustChangeLogin snap user then StatusFail else StatusPass
      | Inl e \<Rightarrow> if protoError e then StatusError else StatusFail)"

lemma protoError_kinds [simp]:
  "protoError (AuthErr KindMalformed)" "protoError (AuthErr KindInvalid)" "\<not> protoError (AuthErr KindUnknown)"
  by (simp_all add: protoError_def)

lemma Split_malformed:
  "SplitCHAPData d n = Inl e \<Longrightarrow> e = AuthErr KindMalformed" "SplitMSCHAPv1Data d = Inl e \<Longrightarrow> e = AuthErr KindMalformed"
  "SplitMSCHAPv2Data d = Inl e \<Longrightarrow> e = AuthErr KindMalformed"
  by (auto simp: SplitCHAPData_def SplitMSCHAPv1Data_def SplitMSCHAPv2Data_def splitMSCHAP_def Let_def split: if_splits)

lemma finishOneShot_status:
  "stp_Status (snd (finishOneShotOutcome en snap start user kind (outcomeFromCreds r) s)) = oneShotStatus snap user r"
  "sv_mgr (fst (finishOneShotOutcome en snap start user kind (outcomeFromCreds r) s)) = sv_mgr s"
  by (auto simp: finishOneShotOutcome_def outcomeFromCreds_def oneShotStatus_def split: sum.splits)

lemma pap_status:
  "stp_Status (snd (oneShotPAP en snap start s)) = oneShotStatus snap (canonUser (en_lib en) (sta_UserID start)) (oneShotCheck en s snap start flowPAP)"
  "sv_mgr (fst (oneShotPAP en snap start s)) = sv_mgr s"
  by (simp_all add: oneShotPAP_def oneShotCheck_def verifyAgainst_def finishOneShot_status oneShotStatus_def [of _ _ "Inl _"] Let_def)

lemma chap_status:
  "stp_Status (snd (oneShotCHAP en snap start s)) = oneShotStatus snap (canonUser (en_lib en) (sta_UserID start)) (oneShotCheck en s snap start flowCHAP)"
  "sv_mgr (fst (oneShotCHAP en snap start s)) = sv_mgr s"
  by (auto simp: oneShotCHAP_def oneShotCheck_def verifyAgainst_def finishOneShot_status oneShotStatus_def [of _ _ "Inl _"] Let_def
      split: sum.split prod.split dest: Split_malformed)

lemma mschap_status:
  "stp_Status (snd (oneShotMSCHAP en snap start v2 s)) =
     oneShotStatus snap (canonUser (en_lib en) (sta_UserID start)) (oneShotCheck en s snap start (if v2 then flowMSCHAPv2 else flowMSCHAPv1))"
  "sv_mgr (fst (oneShotMSCHAP en snap start v2 s)) = sv_mgr s"
  by (cases v2; auto simp: oneShotMSCHAP_def oneShotCheck_def finishOneShot_status oneShotStatus_def [of _ _ "Inl _"] Let_def
      split: sum.split prod.split dest: Split_malformed)+

lemma oneShot_status:
  assumes "flow \<in> {flowPAP, flowCHAP, flowMSCHAPv1, flowMSCHAPv2}"
  shows "stp_Status (snd (runFlow en snap start flow s)) =
      oneShotStatus snap (canonUser (en_lib en) (sta_UserID start)) (oneShotCheck en s snap start flow)"
    and "sv_mgr (fst (runFlow en snap start flow s)) = sv_mgr s"
  using assms mschap_status [of en snap start True s] mschap_status [of en snap start False s]
  by (auto simp: runFlow_def pap_status chap_status)

lemma runFlow_oneShot_sessions:
  "flow \<in> {flowPAP, flowCHAP, flowMSCHAPv1, flowMSCHAPv2} \<Longrightarrow> sv_sessions (fst (runFlow en snap start flow s)) = sv_sessions s"
  by (auto simp: runFlow_def)

end
