(* ===== verification/Aaa_Authen_Props.thy ===== *)
theory Aaa_Authen_Props
  imports Aaa_Authen_Proofs
begin

text \<open>
  The properties of authentication: what PASS means, that a conversation ends, how a one-shot START is
  answered and what a password change publishes. The witnesses run one change of password.
\<close>

subsection \<open>Properties\<close>

text \<open>
  Property C8. PASS is safe. When a CONTINUE of a conversation passes, the session is bound to the snapshot, the
  client and the method of its START (the method was allowed there), it is removed, and some message of the
  conversation was verified as the password of the session's user by the credential service of that
  snapshot. If the password must change, or the conversation is a change, the last two
  messages are the same new password and its verifier was published against the revision of
  the START; otherwise nothing is published.
\<close>

theorem authentication_pass_safe:
  assumes "talk key start s0 log se" and "map_of (sv_sessions s) key = Some se" and "key = (cnt_ConnKey cont, cnt_SessionID cont)"
    and "ContinueAuthentication en cont s = (s', step, None)" and "stp_Status step = StatusPass"
  shows "boundTo start s0 se \<and> map_of (sv_sessions s') key = None \<and> (\<exists>(e, c) \<in> set (log @ [(en, cont)]). pwVerified se e c) \<and>
    (if mustChange se then log \<noteq> [] \<and> cnt_UserMsg (snd (last log)) = cnt_UserMsg cont \<and> changed en se cont s s'
     else sv_mgr s' = sv_mgr s)"
proof -
  have inv: "boundTo start s0 se" "staged log se" using talk_invariant [OF assms(1)] by auto
  have conv: "converse en key se cont s = (s', step)"
    using Continue_converse [OF assms(4,3,2)] assms(5) by auto
  from converse_pass [OF conv assms(5,3)] inv show ?thesis
    by (fastforce simp: staged_def)
qed

text \<open>
  Property C10. Conversations end. A conversation that is still in the session table has taken at most two
  CONTINUEs more than the configured rounds; every further one that is not cancelled either ends
  it, with a final status (PASS, FAIL or ERROR) and the session removed, or asks again (GETPASS or GETDATA), which
  it can only do below that bound.
\<close>

theorem authentication_terminates:
  assumes "talk key start s0 log se" and "svc_snap s0 = Some snap" and "map_of (sv_sessions s) key = Some se"
    and "key = (cnt_ConnKey cont, cnt_SessionID cont)" and "ContinueAuthentication en cont s = (s', step, None)"
  shows "int (length log) \<le> maxRounds snap + 2 \<and>
    (if map_of (sv_sessions s') key = None then stp_Status step \<in> {StatusPass, StatusFail, StatusError}
     else stp_Status step \<in> {StatusGetPass, StatusGetData} \<and> int (length log) < maxRounds snap + 2)"
proof -
  have bound: "svc_snap s0 = Some (se_snap se)" "staged log se" using talk_invariant [OF assms(1)] by (auto simp: boundTo_def)
  then have len: "int (length log) \<le> maxRounds snap + 2"
    using assms(2) maxRounds_pos [of snap] by (auto simp: staged_def split: stage.splits)
  show ?thesis
  proof (cases "map_of (sv_sessions s') key")
    case None
    then have "stp_Status step \<in> {StatusPass, StatusFail, StatusError}"
      using Continue_converse [OF assms(5,4,3)] converse_final by fastforce
    then show ?thesis using len None by simp
  next
    case (Some se')
    then have conv: "converse en key se cont s = (s', step)" using Continue_converse [OF assms(5,4,3)] by auto
    have "int (length (log @ [(en, cont)])) \<le> maxRounds (se_snap se') + 2" and snap': "svc_snap s0 = Some (se_snap se')"
      using talk_invariant [OF talk.cont [OF assms(1,3,4,5) Some]] maxRounds_pos [of "se_snap se'"]
      by (auto simp: staged_def boundTo_def split: stage.splits)
    then have "int (length log) < maxRounds snap + 2" using assms(2) by simp
    moreover have "stp_Status step \<in> {StatusGetPass, StatusGetData}"
      using converse_stored [OF conv assms(4) Some] bound(2) by (simp add: staged_def)
    ultimately show ?thesis using len Some by simp
  qed
qed

text \<open>
  Property C11. One-shot logins (PAP, CHAP, MS-CHAP) are answered from the credential check alone: PASS exactly when
  it succeeds and the login password need not change, ERROR exactly when the payload or the stored
  material is malformed, FAIL for every other refusal; a method the client may not use restarts.
  No session is left, and the manager is not touched.
\<close>

theorem one_shot_outcome:
  assumes "BeginAuthentication en start s = (s', step, None)" and "svc_snap s = Some snap" and "classifyStart start = (flow, None)"
    and "flow \<in> {flowPAP, flowCHAP, flowMSCHAPv1, flowMSCHAPv2}"
    and "key = (sta_ConnKey start, sta_SessionID start)" and "user = canonUser (en_lib en) (sta_UserID start)"
  shows "(if methodAllowed snap (sta_ClientID start) (methodForFlow flow)
     then (case oneShotCheck en s snap start flow of
             Inr _ \<Rightarrow> stp_Status step = (if userMustChangeLogin snap user then StatusFail else StatusPass)
           | Inl e \<Rightarrow> stp_Status step = (if e = AuthErr KindMalformed \<or> e = AuthErr KindInvalid then StatusError else StatusFail))
     else stp_Status step = StatusRestart) \<and> map_of (sv_sessions s') key = None \<and> sv_mgr s' = sv_mgr s"
proof -
  have check: "oneShotCheck en (svc_dropSession key s) snap start flow = oneShotCheck en s snap start flow"
    by (simp add: oneShotCheck_def)
  show ?thesis
  proof (cases "methodAllowed snap (sta_ClientID start) (methodForFlow flow)")
    case True
    then have "runFlow en snap start flow (svc_dropSession key s) = (s', step)"
      using assms by (simp add: Begin_runFlow Let_def split: if_splits sum.splits prod.splits)
    with oneShot_status [OF assms(4), of en snap start "svc_dropSession key s"] runFlow_oneShot_sessions [OF assms(4), of en snap start "svc_dropSession key s"]
    show ?thesis using True assms(6) by (simp add: check oneShotStatus_def protoError_def split: sum.splits)
  next
    case False
    then show ?thesis
      using assms by (auto simp: Begin_runFlow Let_def split: if_splits sum.splits)
  qed
qed

text \<open>
  Property C9. A completed password change takes effect. When a change of a login password passes on a reachable
  manager, and Argon2id returns keys of the requested length, then the manager was still at the
  revision of the START; the published snapshot is the next revision and differs from the previous
  one in the session's user only, whose login verifier is the new one and whose change is no
  longer required; and checking the new password against it fails only when the account itself is
  refused (disabled, restricted to other clients or outside its validity).
\<close>

theorem password_change_effective:
  assumes "talk key start s0 log se" and "map_of (sv_sessions s) key = Some se" and "key = (cnt_ConnKey cont, cnt_SessionID cont)"
    and "ContinueAuthentication en cont s = (s', step, None)" and "stp_Status step = StatusPass" and "mustChange se" and "se_flow se \<noteq> flowEnable"
    and "sv_mgr s = Some m" and "mgr_reach lib (en_ce en) m" and "mg_current m = Some old"
    and "\<forall>pw salt t m p n. length (cl_argon2 (en_lib en) pw salt t m p n) = unat n"
  shows "\<exists>snap i cur. svc_snap s' = Some snap \<and> sn_Revision old = se_rev se \<and> sn_Revision snap = se_rev se + 1 \<and>
    cl_precis (en_lib en) (se_user se) = Some i \<and> snap_User old i = Some cur \<and>
    snap_User snap = (snap_User old)(i \<mapsto> cur\<lparr>us_Login := noRef\<lparr>ref_Purpose := ''login_verifier'', ref_MemoryID := ''login:'' @ i\<rparr>, us_MustChangeLogin := False\<rparr>) \<and>
    (\<forall>ctx now c. VerifyASCIIOrPAP (en_lib en) ctx now (boundCreds s' snap c) (se_user se) (cnt_UserMsg cont) =
       (if cx_done ctx \<or> cx_kdfCancelled ctx then Inl CtxErr
        else map_sum id (\<lambda>_. ()) (cred_lookup (en_lib en) now (boundCreds s' snap c) (se_user se))))"
proof -
  have conv: "converse en key se cont s = (s', step)" using Continue_converse [OF assms(4,3,2)] assms(5) by auto
  have "changed en se cont s s'"
    using converse_pass [OF conv assms(5,3)] talk_invariant [OF assms(1)] assms(6) by (auto simp: staged_def)
  from login_change_effect [OF assms(11) mgr_reach_OK [OF assms(9)] assms(8,10) this assms(7)] show ?thesis .
qed

subsection \<open>A change of password\<close>

text \<open>Alice's stored verifier is derived from the password \<open>[1]\<close>; she changes it to \<open>[2]\<close>.\<close>

definition wit_phc :: "byte \<Rightarrow> bytes" where
  "wit_phc b = bytes_of_string (encodePHC DefaultParams (replicate 16 5) (replicate 32 b))"

definition wit_service :: "unit AAAService" where
  "wit_service =
     \<lparr>sv_mgr = Some wit_mgr, sv_fixed = None, sv_secrets = Some (\<lambda>ref. Inr (wit_phc 7)), sv_ring = NewRing 8 None, sv_params = DefaultParams,
      sv_minCHAP = 8, sv_entropy = replicate 20 5, sv_sessions = []\<rparr>"

definition wit_call :: "unit callEnv" where
  "wit_call = \<lparr>en_lib = wit_lib, en_ce = wit_env, en_ctx = \<lparr>cx_done = False, cx_kdfCancelled = False\<rparr>, en_now = 7\<rparr>"

definition wit_start :: "byte \<Rightarrow> byte \<Rightarrow> bytes \<Rightarrow> AuthenticationStart" where
  "wit_start action kind data = (eventStart '''' 9 '''' 1)\<lparr>sta_ConnKey := 1, sta_UserID := ''alice'', sta_Action := action, sta_Type := kind,
     sta_Service := 1, sta_Data := data\<rparr>"

definition wit_cont :: "byte \<Rightarrow> AuthenticationContinue" where
  "wit_cont b = \<lparr>cnt_ConnKey = 1, cnt_SessionID = 9, cnt_Abort = False, cnt_UserMsg = [b], cnt_ClientID = '''', cnt_Revision = 1, cnt_Transport = ''''\<rparr>"

definition wit_snap :: "unit StateSnapshot" where
  "wit_snap = the (mg_current wit_mgr)"

definition wit_se :: "bool \<Rightarrow> bool \<Rightarrow> bool \<Rightarrow> bytes \<Rightarrow> unit authSession" where
  "wit_se old new conf pw =
     \<lparr>se_flow = flowCHPASS, se_user = ''alice'', se_clientID = '''', se_needUser = False, se_needOld = old, se_needNew = new, se_needConfirm = conf,
      se_newPass = pw, se_fails = 0, se_snap = wit_snap, se_creds = boundCreds wit_service wit_snap '''', se_maxRounds = 3, se_rev = 1\<rparr>"

lemma wit_reach: "mgr_reach lib wit_env wit_mgr"
  by (rule mgr_reach.init [OF wit_mgr])

lemma wit_current:
  "mg_current wit_mgr = Some wit_snap" "snap_User wit_snap ''alice'' = Some wit_user" "sn_Revision wit_snap = 1" "sn_settings wit_snap = Some wit_doc"
proof -
  obtain snap m0 now where c: "mg_current wit_mgr = Some snap" "snapOf wit_env m0 (mg_baseline wit_mgr) (mg_overlay wit_mgr) (mg_revision wit_mgr) now snap"
    using mgr_reach_OK [OF wit_reach] by (auto simp: mgrOK_def)
  then show cur: "mg_current wit_mgr = Some wit_snap" by (simp add: wit_snap_def)
  have "live_User (mg_baseline wit_mgr) (mg_overlay wit_mgr) ''alice'' = Some wit_user" using wit_mgr_facts by blast
  then show "snap_User wit_snap ''alice'' = Some wit_user"
    using live_current(1) [OF mgr_reach_OK [OF wit_reach] cur] by simp
  have "mg_revision wit_mgr = 1" "mg_baseline wit_mgr = wit_doc" using wit_mgr_facts by blast+
  then show "sn_Revision wit_snap = 1" "sn_settings wit_snap = Some wit_doc"
    using c cur by (simp_all add: snapOf_def)
qed

lemma wit_verifiers: "VerifyArgon2id wit_lib (wit_phc 7) [1] = Inr ()" "wit_phc 7 \<noteq> []" "ValidatePHC (wit_phc 8) = Inr ()"
proof -
  have len: "\<forall>pw salt t m p n. length (cl_argon2 wit_lib pw salt t m p n) = unat n" by (simp add: wit_lib_def)
  have der: "DeriveArgon2id wit_lib [1] DefaultParams (replicate 20 5) = (replicate 4 5, Inr (wit_phc 7))"
    "DeriveArgon2id wit_lib [2] DefaultParams (replicate 20 5) = (replicate 4 5, Inr (wit_phc 8))"
    by (simp_all add: DeriveArgon2id_def validEncode_def DefaultParams_def wit_lib_def wit_phc_def Let_def)
  show "VerifyArgon2id wit_lib (wit_phc 7) [1] = Inr ()" by (rule derived_parse(3) [OF len der(1) refl])
  then show "wit_phc 7 \<noteq> []" by (rule verified_nonempty)
  show "ValidatePHC (wit_phc 8) = Inr ()" using derived_parse(2) [OF len der(2) refl] by (simp add: ValidatePHC_def)
qed

lemma wit_derive: "DeriveVerifier wit_lib (en_ctx wit_call) (boundCreds wit_service wit_snap '''') [2] (replicate 20 5) = (replicate 4 5, Inr (wit_phc 8))"
  by (simp add: DeriveVerifier_def boundCreds_def wit_call_def wit_service_def DeriveArgon2id_def validEncode_def DefaultParams_def wit_lib_def wit_phc_def Let_def)

lemma wit_override: "\<exists>m' snap. OverrideLoginVerifier wit_lib wit_env 7 ''alice'' (wit_phc 8) (Some 1) wit_mgr = (m', Inr snap)"
proof -
  have "case snd (mutate wit_env 7 (Some 1) (overrideLoginMut wit_lib ''alice'' phc) wit_mgr) of Inr _ \<Rightarrow> True | Inl _ \<Rightarrow> False" for phc
    using wit_mgr_facts [of phc] by (auto split: sum.split)
  from this [of "wit_phc 8"] show ?thesis
    by (cases "mutate wit_env 7 (Some 1) (overrideLoginMut wit_lib ''alice'' (wit_phc 8)) wit_mgr")
      (auto simp: OverrideLoginVerifier_def wit_verifiers split: sum.splits)
qed

lemma wit_verify: "VerifyASCIIOrPAP wit_lib (en_ctx wit_call) 7 (boundCreds wit_service wit_snap '''') ''alice'' [1] = Inr ()"
  by (simp add: VerifyASCIIOrPAP_def cred_lookup_def CanonicalUsername_def boundCreds_def storeLookup_def wit_current wit_call_def wit_lib_def wit_user_def
      zeroUser_def wit_service_def refMaterial_def resolveSecret_def SecretRef_Set_def noRef_def clientRestricted_def wit_verifiers [unfolded wit_lib_def])

lemmas wit_defs = wit_call_def wit_start_def wit_cont_def wit_se_def eventStart_def

lemma wit_begin:
  "BeginAuthentication wit_call (wit_start 2 1 []) wit_service = (putSession (1, 9) (wit_se True True False []) wit_service, dataPrompt, None)"
proof -
  have svc: "svc_snap wit_service = Some wit_snap" "svc_dropSession (1, 9) wit_service = wit_service"
    by (simp_all add: svc_snap_def svc_dropSession_def wit_service_def wit_current)
  have st: "snapSettings wit_snap = Some wit_settings" by (simp add: snapSettings_def wit_current wit_doc_def)
  have "checkAuthenFields wit_service ''alice'' '''' '''' = Inr ()"
    by (simp add: checkAuthenFields_def CheckBytes_def svc st wit_settings_def Let_def)
  moreover have "maxRounds wit_snap = 3" by (simp add: maxRounds_def st wit_settings_def)
  moreover have "classifyStart (wit_start 2 1 []) = (flowCHPASS, None)" by (simp add: classifyStart_def wit_defs AuthenService_Valid_def)
  ultimately show ?thesis
    by (simp add: BeginAuthentication_def svc Let_def)
      (simp add: wit_defs svc methodAllowed_def beginInteractive_def canonUser_def CanonicalUsername_def wit_lib_def wit_current Let_def)
qed

lemma wit_step:
  "ContinueAuthentication wit_call (wit_cont b) (putSession (1, 9) (wit_se old new conf pw) s) =
     (let (s, step) = continueCHPASS wit_call (1, 9) (wit_se old new conf pw) (wit_cont b) (putSession (1, 9) (wit_se old new conf pw) s) in (s, step, None))"
  by (simp add: ContinueAuthentication_def wit_call_def wit_cont_def wit_se_def Let_def)

lemma wit_talk:
  "talk (1, 9) (wit_start 2 1 []) wit_service [(wit_call, wit_cont 1), (wit_call, wit_cont 2)] (wit_se False False True [2])"
proof -
  have t0: "talk (1, 9) (wit_start 2 1 []) wit_service [] (wit_se True True False [])"
    by (rule talk.start [OF wit_begin]) (simp_all add: wit_start_def eventStart_def)
  have 1: "ContinueAuthentication wit_call (wit_cont 1) (putSession (1, 9) (wit_se True True False []) wit_service) =
      (putSession (1, 9) (wit_se False True False []) (putSession (1, 9) (wit_se True True False []) wit_service), passPrompt, None)"
    using wit_verify unfolding wit_step by (simp add: wit_defs continueCHPASS_def)
  have 2: "ContinueAuthentication wit_call (wit_cont 2) (putSession (1, 9) (wit_se False True False []) wit_service) =
      (putSession (1, 9) (wit_se False False True [2]) (putSession (1, 9) (wit_se False True False []) wit_service), passPrompt, None)"
    unfolding wit_step by (simp add: wit_defs continueCHPASS_def confirmChange_def)
  have t1: "talk (1, 9) (wit_start 2 1 []) wit_service ([] @ [(wit_call, wit_cont 1)]) (wit_se False True False [])"
    by (rule talk.cont [OF t0 _ _ 1]) (simp_all add: wit_cont_def)
  have "talk (1, 9) (wit_start 2 1 []) wit_service (([] @ [(wit_call, wit_cont 1)]) @ [(wit_call, wit_cont 2)]) (wit_se False False True [2])"
    by (rule talk.cont [OF t1 _ _ 2]) (simp_all add: wit_cont_def)
  then show ?thesis by simp
qed

definition wit_last :: "unit AAAService" where
  "wit_last = putSession (1, 9) (wit_se False False True [2]) wit_service"

lemma wit_last: "map_of (sv_sessions wit_last) (1, 9) = Some (wit_se False False True [2])" "sv_mgr wit_last = Some wit_mgr"
  by (simp_all add: wit_last_def wit_service_def)

lemma wit_pass:
  obtains s' where "ContinueAuthentication wit_call (wit_cont 2) wit_last = (s', passStep, None)"
proof -
  obtain m' snap where ov: "OverrideLoginVerifier wit_lib wit_env 7 ''alice'' (wit_phc 8) (Some 1) wit_mgr = (m', Inr snap)"
    using wit_override by blast
  have ent: "sv_entropy wit_last = replicate 20 5" by (simp add: wit_last_def putSession_def wit_service_def)
  have "snd (continueCHPASS wit_call (1, 9) (wit_se False False True [2]) (wit_cont 2) wit_last) = passStep"
    using wit_derive ov ent wit_last(2)
    by (simp add: wit_defs continueCHPASS_def confirmChange_def publishLogin_def publishVia_def Let_def)
  then show ?thesis
    using that wit_step [of 2 False False True "[2]" wit_service] by (auto simp: wit_last_def split: prod.splits)
qed

theorem authentication_pass_safe_witness:
  "\<exists>s'. boundTo (wit_start 2 1 []) wit_service (wit_se False False True [2]) \<and> map_of (sv_sessions s') (1, 9) = None \<and>
     changed wit_call (wit_se False False True [2]) (wit_cont 2) wit_last s'"
proof -
  obtain s' where run: "ContinueAuthentication wit_call (wit_cont 2) wit_last = (s', passStep, None)" by (rule wit_pass)
  have "mustChange (wit_se False False True [2])" by (simp add: mustChange_def wit_se_def)
  with authentication_pass_safe [OF wit_talk wit_last(1) _ run] show ?thesis by (auto simp: wit_cont_def)
qed

theorem authentication_terminates_witness:
  "\<exists>s'. ContinueAuthentication wit_call (wit_cont 2) wit_last = (s', passStep, None) \<and> map_of (sv_sessions s') (1, 9) = None"
proof -
  obtain s' where run: "ContinueAuthentication wit_call (wit_cont 2) wit_last = (s', passStep, None)" by (rule wit_pass)
  have "svc_snap wit_service = Some wit_snap" by (simp add: svc_snap_def wit_service_def wit_current)
  from authentication_terminates [OF wit_talk this wit_last(1) _ run] have "map_of (sv_sessions s') (1, 9) = None"
    by (simp add: wit_cont_def split: if_splits)
  with run show ?thesis by blast
qed

theorem password_change_effective_witness:
  "\<exists>s' snap. ContinueAuthentication wit_call (wit_cont 2) wit_last = (s', passStep, None) \<and> svc_snap s' = Some snap \<and> sn_Revision snap = 2 \<and>
     map_option us_MustChangeLogin (snap_User snap ''alice'') = Some False"
proof -
  obtain s' where run: "ContinueAuthentication wit_call (wit_cont 2) wit_last = (s', passStep, None)" by (rule wit_pass)
  have reach: "mgr_reach wit_lib (en_ce wit_call) wit_mgr" using wit_reach by (simp add: wit_call_def)
  have len: "\<forall>pw salt t m p n. length (cl_argon2 (en_lib wit_call) pw salt t m p n) = unat n" by (simp add: wit_lib_def wit_call_def)
  have "mustChange (wit_se False False True [2])" "se_flow (wit_se False False True [2]) \<noteq> flowEnable" by (simp_all add: mustChange_def wit_se_def)
  from password_change_effective [OF wit_talk wit_last(1) _ run _ this wit_last(2) reach wit_current(1) len]
  obtain snap i cur where "svc_snap s' = Some snap" "sn_Revision snap = 1 + 1" "i = ''alice''" "snap_User wit_snap i = Some cur"
    "snap_User snap = (snap_User wit_snap)(i \<mapsto> cur\<lparr>us_Login := noRef\<lparr>ref_Purpose := ''login_verifier'', ref_MemoryID := ''login:'' @ i\<rparr>, us_MustChangeLogin := False\<rparr>)"
    by (auto simp: wit_cont_def wit_se_def wit_lib_def wit_call_def)
  with run show ?thesis by auto
qed

text \<open>A PAP login with the right password.\<close>

lemma wit_pap: "\<exists>s'. BeginAuthentication wit_call ((wit_start 1 2 [1])\<lparr>sta_Transport := t\<rparr>) wit_service = (s', passStep, None)"
proof -
  have svc: "svc_snap wit_service = Some wit_snap" "svc_dropSession (1, 9) wit_service = wit_service"
    by (simp_all add: svc_snap_def svc_dropSession_def wit_service_def wit_current)
  have st: "snapSettings wit_snap = Some wit_settings" by (simp add: snapSettings_def wit_current wit_doc_def)
  have cf: "checkAuthenFields wit_service ''alice'' '''' '''' = Inr ()"
    by (simp add: checkAuthenFields_def CheckBytes_def svc st wit_settings_def Let_def)
  have cl: "classifyStart ((wit_start 1 2 [1])\<lparr>sta_Transport := t\<rparr>) = (flowPAP, None)"
    by (simp add: classifyStart_def wit_defs AuthenService_Valid_def)
  have user: "canonUser (en_lib wit_call) ''alice'' = ''alice''" by (simp add: canonUser_def CanonicalUsername_def wit_lib_def wit_call_def)
  have free: "\<not> userMustChangeLogin wit_snap ''alice''" by (simp add: userMustChangeLogin_def wit_current wit_user_def zeroUser_def)
  show ?thesis
    using wit_verify free cf cl user
    by (simp add: BeginAuthentication_def svc Let_def)
      (simp add: wit_defs svc methodAllowed_def oneShotPAP_def verifyAgainst_def outcomeFromCreds_def finishOneShotOutcome_def Let_def)
qed

theorem one_shot_outcome_witness:
  "\<exists>s'. BeginAuthentication wit_call (wit_start 1 2 [1]) wit_service = (s', passStep, None) \<and> sv_mgr s' = Some wit_mgr"
proof -
  have snap: "svc_snap wit_service = Some wit_snap" by (simp add: svc_snap_def wit_service_def wit_current)
  have cl: "classifyStart (wit_start 1 2 [1]) = (flowPAP, None)" by (simp add: classifyStart_def wit_defs AuthenService_Valid_def)
  have "(wit_start 1 2 [1])\<lparr>sta_Transport := ''''\<rparr> = wit_start 1 2 [1]" by (simp add: wit_defs)
  then obtain s' where run: "BeginAuthentication wit_call (wit_start 1 2 [1]) wit_service = (s', passStep, None)" using wit_pap [of "''''"] by auto
  from one_shot_outcome [OF run snap cl _ refl refl] have "sv_mgr s' = sv_mgr wit_service" by simp
  with run show ?thesis by (simp add: wit_service_def)
qed

end
