(* ===== verification/Radius_Policy_Props.thy ===== *)
theory Radius_Policy_Props
  imports Radius_Policy Config_Example
begin

text \<open>
  Properties of the RADIUS access policy: its dictionary is one, a compiled engine is closed under its
  references and holds only legal replies, and \<open>rad_Evaluate\<close> is the first matching rule of the chain
  user, groups, endpoint, fallback.
\<close>

subsection \<open>The policy dictionary is a dictionary\<close>

lemma polDefs_distinct:
  "distinct (map ad_Name polDefs) \<and> distinct (map (\<lambda>d. (ad_Vendor d, ad_Code d)) polDefs)"
  by code_simp

lemma polDefs_codes:
  "list_all (\<lambda>d. ad_Vendor d = 0 \<longrightarrow> pol_lookupCode (ad_Code d) = Some d) polDefs"
  by code_simp

lemma lookupCode_row: "d \<in> set polDefs \<Longrightarrow> ad_Vendor d = 0 \<Longrightarrow> pol_lookupCode (ad_Code d) = Some d"
  using polDefs_codes by (auto simp: list_all_iff)

lemma lookupName_row: "pol_lookupName n = Some d \<Longrightarrow> d \<in> set polDefs"
  by (auto simp: pol_lookupName_def find_Some_iff)

lemma lookupVSA_vendor: "pol_lookupVSA v c = Some d \<Longrightarrow> ad_Vendor d = v"
  by (auto simp: pol_lookupVSA_def find_Some_iff)

lemma lookupCode_self: "pol_lookupCode c = Some d \<Longrightarrow> pol_lookupCode (ad_Code d) = Some d"
  by (auto simp: pol_lookupCode_def find_Some_iff)

text \<open>An attribute that resolves to the IETF space resolves to the row of its code.\<close>

lemma resolveAttr_row:
  assumes "resolveAttr name vendor code path = Inr (def, key)" and "ak_Vendor key = 0"
  shows "pol_lookupCode (ak_Code key) = Some def"
  using assms
  by (auto simp: resolveAttr_def Let_def attrDef_key_def split: if_splits option.splits
      dest: lookupVSA_vendor lookupCode_self lookupCode_row [OF lookupName_row])

lemma parseTypedValue_key: "parseTypedValue def key v h path = Inr tv \<Longrightarrow> ty_Key tv = key"
  by (auto simp: parseTypedValue_def Let_def zeroTyped_def split: if_splits option.splits)

subsection \<open>What compilation guarantees\<close>

definition replyAttrOK :: "compiledReplyAttr \<Rightarrow> bool" where
  "replyAttrOK a \<longleftrightarrow>
     ty_Key (cra_attr a) = cra_key a \<and> \<not> ad_Secret (cra_def a) \<and> \<not> ad_ServerOwned (cra_def a) \<and>
     (ak_Vendor (cra_key a) = 0 \<longrightarrow> pol_lookupCode (ak_Code (cra_key a)) = Some (cra_def a))"

lemma compileReplyAttr_OK: "compileReplyAttr a path = Inr c \<Longrightarrow> replyAttrOK c"
  by (auto simp: compileReplyAttr_def replyAttrOK_def result_simps split: if_splits
      dest: parseTypedValue_key resolveAttr_row)

lemma replyAttrsLoop_OK: "replyAttrsLoop path i as = Inr cs \<Longrightarrow> list_all replyAttrOK cs"
  by (induction as arbitrary: i cs) (auto simp: result_simps dest: compileReplyAttr_OK)

lemma compileReplyProfiles_OK:
  "compileReplyProfiles ps out = Inr profs \<Longrightarrow> (\<And>i as. out i = Some as \<Longrightarrow> list_all replyAttrOK as) \<Longrightarrow>
     profs i = Some as \<Longrightarrow> list_all replyAttrOK as"
proof (induction ps arbitrary: out)
  case (Cons p ps)
  then obtain bs where bs: "replyAttrsLoop (''radius_reply_profiles.'' @ rpf_ID p @ ''.attributes'') 0 (rpf_Attributes p) = Inr bs"
    and rest: "compileReplyProfiles ps (out(rpf_ID p \<mapsto> bs)) = Inr profs"
    by (auto simp: result_simps)
  show ?case
    by (rule Cons.IH [OF rest]) (use Cons.prems replyAttrsLoop_OK [OF bs] in \<open>auto split: if_splits\<close>)
qed auto

abbreviation (input) replyLegal :: "bool \<Rightarrow> TypedSet \<Rightarrow> bool" where
  "replyLegal reject reply \<equiv> list_all (\<lambda>a. replyAttrLegal reject a = Inr ()) reply"

lemma mergeAttrs_legal:
  "mergeAttrs reject i path as seen out = Inr (seen', out') \<Longrightarrow> list_all replyAttrOK as \<Longrightarrow> replyLegal reject out \<Longrightarrow>
     replyLegal reject out'"
proof (induction as arbitrary: seen out)
  case (Cons a as)
  from Cons.prems have "replyAttrLegal reject (cra_attr a) = Inr ()"
    by (auto simp: Let_def replyAttrOK_def replyAttrLegal_def split: if_splits)
  with Cons show ?case
    by (auto simp: Let_def split: if_splits option.splits)
qed simp

lemma mergeLoop_legal:
  "mergeLoop reject path profs n ids seen out = Inr reply \<Longrightarrow> (\<And>i as. profs i = Some as \<Longrightarrow> list_all replyAttrOK as) \<Longrightarrow>
     replyLegal reject out \<Longrightarrow> replyLegal reject reply"
proof (induction ids arbitrary: n seen out)
  case (Cons i ids)
  then obtain as seen' out' where as: "profs i = Some as" "mergeAttrs reject i path as seen out = Inr (seen', out')"
    and rest: "mergeLoop reject path profs (n + 1) ids seen' out' = Inr reply"
    by (auto simp: result_simps split: option.splits)
  show ?case
    by (rule Cons.IH [OF rest Cons.prems(2) mergeAttrs_legal [OF as(2) Cons.prems(2) [OF as(1)] Cons.prems(3)]])
qed simp

lemma rmap_units: "rmap f xs = Inr us \<longleftrightarrow> list_all (\<lambda>x. f x = Inr ()) xs \<and> us = replicate (length xs) ()"
  by (induction xs arbitrary: us) (auto simp: result_simps)

lemma CheckReplyLegal_iff:
  "CheckReplyLegal effect reply = Inr () \<longleftrightarrow>
     (effect = EffectDeny \<longrightarrow> replyLegal True reply) \<and> (effect = EffectPermit \<longrightarrow> replyLegal False reply)"
  by (auto simp: CheckReplyLegal_def result_simps rmap_units)

definition ruleOK :: "compiledRule \<Rightarrow> bool" where
  "ruleOK r \<longleftrightarrow> (crl_effect r = EffectPermit \<or> crl_effect r = EffectDeny) \<and> CheckReplyLegal (crl_effect r) (crl_reply r) = Inr ()"

lemma rulesCompileLoop_OK:
  "rulesCompileLoop i profs seen rs = Inr cs \<Longrightarrow> (\<And>i as. profs i = Some as \<Longrightarrow> list_all replyAttrOK as) \<Longrightarrow> list_all ruleOK cs"
proof (induction rs arbitrary: seen cs)
  case (Cons r rs)
  show ?case
  proof (cases "rul_Enabled r")
    case True
    with Cons.prems(1) obtain m reply ds
      where reply: "mergeReplyProfiles (rul_Effect r) (rul_ReplyProfiles r) profs (''radius_policies.'' @ i @ ''.rules.'' @ rul_ID r) = Inr reply"
        and ds: "rulesCompileLoop i profs (rul_ID r # seen) rs = Inr ds"
        and cs: "cs = \<lparr>crl_id = rul_ID r, crl_match = m, crl_effect = rul_Effect r, crl_reply = reply\<rparr> # ds"
        and eff: "rul_Effect r = EffectPermit \<or> rul_Effect r = EffectDeny"
      by (auto simp: Let_def result_simps split: if_splits)
    have "replyLegal (rul_Effect r = EffectDeny) reply"
      using reply mergeLoop_legal [OF _ Cons.prems(2)] by (auto simp: mergeReplyProfiles_def split: if_splits)
    with eff have "ruleOK \<lparr>crl_id = rul_ID r, crl_match = m, crl_effect = rul_Effect r, crl_reply = reply\<rparr>"
      by (auto simp: ruleOK_def CheckReplyLegal_iff)
    with Cons.IH [OF ds Cons.prems(2)] cs show ?thesis by simp
  next
    case False
    with Cons show ?thesis by simp
  qed
qed simp

lemma policiesLoop_OK:
  "policiesLoop profs ps out = Inr pols \<Longrightarrow> (\<And>i as. profs i = Some as \<Longrightarrow> list_all replyAttrOK as) \<Longrightarrow>
     (\<And>i p. out i = Some p \<Longrightarrow> list_all ruleOK (cp_rules p)) \<Longrightarrow> pols i = Some p \<Longrightarrow> list_all ruleOK (cp_rules p)"
proof (induction ps arbitrary: out)
  case (Cons q ps)
  then obtain cp where cp: "compilePolicy q profs = Inr cp" and rest: "policiesLoop profs ps (out(rp_ID q \<mapsto> cp)) = Inr pols"
    by (auto simp: result_simps split: if_splits)
  have "list_all ruleOK (cp_rules cp)"
    using cp rulesCompileLoop_OK [OF _ Cons.prems(2)] by (auto simp: compilePolicy_def result_simps)
  then show ?case
    by (intro Cons.IH [OF rest Cons.prems(2) _ Cons.prems(4)]) (auto split: if_splits dest: Cons.prems(3))
qed auto

text \<open>A reference of the engine is empty or names a compiled policy.\<close>

definition refOK :: "(string \<rightharpoonup> compiledPolicy) \<Rightarrow> string \<Rightarrow> bool" where
  "refOK pols pid \<longleftrightarrow> pid = '''' \<or> pols pid \<noteq> None"

definition engineOK :: "RadiusEngine \<Rightarrow> bool" where
  "engineOK e \<longleftrightarrow>
     (\<forall>i p. re_policies e i = Some p \<longrightarrow> list_all ruleOK (cp_rules p)) \<and>
     (\<forall>i u. re_users e i = Some u \<longrightarrow> refOK (re_policies e) (ru_policyID u)) \<and>
     (\<forall>i g. re_groups e i = Some g \<longrightarrow> refOK (re_policies e) (rg_policyID g)) \<and>
     (\<forall>i c. re_clients e i = Some c \<longrightarrow> list_all (refOK (re_policies e)) (map snd (rc_endpoints c))) \<and>
     refOK (re_policies e) (re_fallback e)"

lemma radUsersLoop_OK:
  "radUsersLoop pols us out = Inr res \<Longrightarrow> (\<And>i u. out i = Some u \<Longrightarrow> refOK pols (ru_policyID u)) \<Longrightarrow>
     res i = Some u \<Longrightarrow> refOK pols (ru_policyID u)"
proof (induction us arbitrary: out)
  case (Cons x xs)
  let ?e = "\<lparr>ru_id = us_ID x, ru_enabled = us_Enabled x, ru_groupIDs = us_GroupIDs x, ru_policyID = us_RADIUSPolicyID x\<rparr>"
  from Cons.prems(1) have rest: "radUsersLoop pols xs (out(us_ID x \<mapsto> ?e)) = Inr res" and "refOK pols (ru_policyID ?e)"
    by (auto simp: refOK_def split: if_splits)
  with Cons.prems(2) show ?case by (intro Cons.IH [OF rest _ Cons.prems(3)]) (auto split: if_splits)
qed auto

lemma radGroupsLoop_OK:
  "radGroupsLoop pols gs out = Inr res \<Longrightarrow> (\<And>i g. out i = Some g \<Longrightarrow> refOK pols (rg_policyID g)) \<Longrightarrow>
     res i = Some g \<Longrightarrow> refOK pols (rg_policyID g)"
proof (induction gs arbitrary: out)
  case (Cons x xs)
  let ?e = "\<lparr>rg_id = gr_ID x, rg_enabled = gr_Enabled x, rg_priority = gr_Priority x, rg_policyID = gr_RADIUSPolicyID x\<rparr>"
  from Cons.prems(1) have rest: "radGroupsLoop pols xs (out(gr_ID x \<mapsto> ?e)) = Inr res" and "refOK pols (rg_policyID ?e)"
    by (auto simp: refOK_def split: if_splits)
  with Cons.prems(2) show ?case by (intro Cons.IH [OF rest _ Cons.prems(3)]) (auto split: if_splits)
qed auto

abbreviation (input) bindingsOK :: "(string \<rightharpoonup> compiledPolicy) \<Rightarrow> (string \<rightharpoonup> radClient) \<Rightarrow> bool" where
  "bindingsOK pols cls \<equiv> \<forall>i c. cls i = Some c \<longrightarrow> list_all (refOK pols) (map snd (rc_endpoints c))"

lemma list_all_update:
  "list_all P (map snd xs) \<Longrightarrow> P v \<Longrightarrow> list_all P (map snd (AList.update k v xs))"
  by (induction xs) auto

lemma endpointsLoop_OK: "endpointsLoop pols c eps cls = Inr res \<Longrightarrow> bindingsOK pols cls \<Longrightarrow> bindingsOK pols res"
proof (induction eps arbitrary: cls)
  case (Cons ep eps)
  show ?case
  proof (cases "\<exists>r. ep_RADIUS ep = Some r \<and> ep_Protocol ep = ''radius''")
    case True
    then obtain r where r: "ep_RADIUS ep = Some r" "ep_Protocol ep = ''radius''" by blast
    let ?b = "case cls (cl_ID c) of Some b \<Rightarrow> b | None \<Rightarrow> \<lparr>rc_endpoints = [], rc_defaultGroupIDs = cl_DefaultGroupIDs c\<rparr>"
    let ?b' = "?b\<lparr>rc_endpoints := AList.update (ep_ID ep) (rep_AccessPolicyID r) (rc_endpoints ?b)\<rparr>"
    from Cons.prems(1) r have rest: "endpointsLoop pols c eps (cls(cl_ID c \<mapsto> ?b')) = Inr res" and ok: "refOK pols (rep_AccessPolicyID r)"
      by (auto simp: refOK_def Let_def split: if_splits)
    have "list_all (refOK pols) (map snd (rc_endpoints ?b))"
      using Cons.prems(2) by (auto split: option.splits)
    from list_all_update [where k="ep_ID ep", OF this ok] Cons.prems(2)
    have "bindingsOK pols (cls(cl_ID c \<mapsto> ?b'))" by simp
    then show ?thesis by (rule Cons.IH [OF rest])
  next
    case False
    with Cons show ?thesis by (cases "ep_RADIUS ep") auto
  qed
qed simp

lemma radClientsLoop_OK: "radClientsLoop pols cs cls = Inr res \<Longrightarrow> bindingsOK pols cls \<Longrightarrow> bindingsOK pols res"
proof (induction cs arbitrary: cls)
  case (Cons c cs)
  then show ?case
    by (cases "cl_Enabled c") (auto simp: result_simps dest!: endpointsLoop_OK)
qed simp

lemma compile_engineOK:
  assumes "radius_CompileDocument doc = Inr e" shows "engineOK e"
proof -
  from assms obtain profs pols cls gs us
    where profs: "compileReplyProfiles (doc_RADIUSReplyProfiles doc) Map.empty = Inr profs"
      and pols: "policiesLoop profs (doc_RADIUSPolicies doc) Map.empty = Inr pols"
      and fb: "refOK pols (doc_FallbackRADIUSPolicyID doc)"
      and cls: "radClientsLoop pols (doc_Clients doc) Map.empty = Inr cls"
      and gs: "radGroupsLoop pols (doc_Groups doc) Map.empty = Inr gs"
      and us: "radUsersLoop pols (doc_Users doc) Map.empty = Inr us"
      and e: "e = \<lparr>re_policies = pols, re_clients = cls, re_users = us, re_groups = gs, re_fallback = doc_FallbackRADIUSPolicyID doc\<rparr>"
    by (auto simp: radius_CompileDocument_def result_simps refOK_def split: if_splits)
  have "list_all ruleOK (cp_rules p)" if "pols i = Some p" for i p
    by (rule policiesLoop_OK [OF pols _ _ that]) (auto intro: compileReplyProfiles_OK [OF profs])
  moreover have "refOK pols (ru_policyID u)" if "us i = Some u" for i u
    by (rule radUsersLoop_OK [OF us _ that]) auto
  moreover have "refOK pols (rg_policyID g)" if "gs i = Some g" for i g
    by (rule radGroupsLoop_OK [OF gs _ that]) auto
  moreover have "bindingsOK pols cls" by (rule radClientsLoop_OK [OF cls]) simp
  ultimately show ?thesis using fb unfolding engineOK_def e by auto
qed


subsection \<open>Evaluation is the first match along the chain\<close>

interpretation radrules: first_match "rulesWalk req source" "\<lambda>r. fst (rad_matchRule r req)" "rad_remark req source"
    "\<lambda>r tr. rad_matchedResult tr source (crl_id r) (crl_effect r) (crl_reply r)"
  by unfold_locales (simp_all add: Let_def)

text \<open>
  The reference: the rules of a request in the order they count, each with the source it is reported under.
\<close>

definition taggedRules :: "RadiusEngine \<Rightarrow> string \<Rightarrow> string \<Rightarrow> (string \<times> compiledRule) list" where
  "taggedRules e source pid =
     (case re_policies e pid of None \<Rightarrow> [] | Some p \<Rightarrow> map (Pair source) (cp_rules p))"

definition radChain :: "RadiusEngine \<Rightarrow> PolicyRequest \<Rightarrow> (string \<times> string) list" where
  "radChain e req =
     (case re_users e (par_UserID req) of
        Some u \<Rightarrow> if ru_enabled u then [(''user_policy:'' @ ru_policyID u, ru_policyID u)] else []
      | None \<Rightarrow> []) @
     map (\<lambda>g. (''group_policy:'' @ rg_policyID g, rg_policyID g)) (rad_effectiveGroups e (par_UserID req) (par_ClientID req)) @
     [(''client_policy:'' @ endpointPolicy e req, endpointPolicy e req), (''fallback'', re_fallback e)]"

definition stageRules :: "RadiusEngine \<Rightarrow> string \<times> string \<Rightarrow> (string \<times> compiledRule) list" where
  "stageRules e = (\<lambda>(source, pid). if pid = '''' then [] else taggedRules e source pid)"

definition radRules :: "RadiusEngine \<Rightarrow> PolicyRequest \<Rightarrow> (string \<times> compiledRule) list" where
  "radRules e req = concat (map (stageRules e) (radChain e req))"

definition evalRequest :: "RadiusEngine \<Rightarrow> PolicyRequest \<Rightarrow> PolicyRequest" where
  "evalRequest e req =
     (if re_users e (par_UserID req) \<noteq> None
      then req\<lparr>par_Groups := map rg_id (rad_effectiveGroups e (par_UserID req) (par_ClientID req))\<rparr> else req)"

text \<open>The walk along such a list, each rule under its own source.\<close>

fun taggedWalk :: "PolicyRequest \<Rightarrow> (string \<times> compiledRule) list \<Rightarrow> AccessTrace \<Rightarrow> AccessTrace \<times> AccessResult option" where
  "taggedWalk req [] tr = (tr, None)"
| "taggedWalk req (sr # srs) tr =
     thenWalk (rulesWalk req (fst sr) [snd sr] tr) (taggedWalk req srs)"

interpretation tagged: first_match "taggedWalk req" "\<lambda>sr. fst (rad_matchRule (snd sr) req)" "\<lambda>sr. rad_remark req (fst sr) (snd sr)"
    "\<lambda>sr tr. rad_matchedResult tr (fst sr) (crl_id (snd sr)) (crl_effect (snd sr)) (crl_reply (snd sr))"
  by unfold_locales (simp_all add: Let_def thenWalk_def)

lemma taggedWalk_append: "taggedWalk req (a @ b) tr = thenWalk (taggedWalk req a tr) (taggedWalk req b)"
  by (simp add: tagged.walk_append thenWalk_def)

lemma taggedWalk_Pair: "taggedWalk req (map (Pair source) rs) tr = rulesWalk req source rs tr"
  by (induction rs arbitrary: tr) (auto simp: Let_def thenWalk_def)

lemma rad_walk_tagged:
  "refOK (re_policies e) pid \<Longrightarrow>
     (if pid \<noteq> '''' then rad_walk e source pid req tr else (tr, None)) = taggedWalk req (stageRules e (source, pid)) tr"
  by (auto simp: stageRules_def rad_walk_def taggedRules_def refOK_def taggedWalk_Pair split: option.splits)

lemma rad_walkGroups_tagged:
  "list_all (\<lambda>g. refOK (re_policies e) (rg_policyID g)) gs \<Longrightarrow>
     rad_walkGroups e gs req tr =
     taggedWalk req (concat (map (\<lambda>g. stageRules e (''group_policy:'' @ rg_policyID g, rg_policyID g)) gs)) tr"
proof (induction gs arbitrary: tr)
  case (Cons g gs)
  have "rad_walkGroups e (g # gs) req tr =
      thenWalk (if rg_policyID g \<noteq> '''' then rad_walk e (''group_policy:'' @ rg_policyID g) (rg_policyID g) req tr else (tr, None))
        (rad_walkGroups e gs req)"
    by (simp add: thenWalk_def split: prod.splits option.splits)
  also have "\<dots> = thenWalk (taggedWalk req (stageRules e (''group_policy:'' @ rg_policyID g, rg_policyID g)) tr) (rad_walkGroups e gs req)"
    using Cons.prems by (subst rad_walk_tagged) simp_all
  finally show ?case
    using Cons by (simp add: taggedWalk_append thenWalk_def split: prod.splits option.splits)
qed simp

lemma rad_effectiveGroups_ref:
  "engineOK e \<Longrightarrow> list_all (\<lambda>g. refOK (re_policies e) (rg_policyID g)) (rad_effectiveGroups e u c)"
  by (auto simp: rad_effectiveGroups_def Let_def list_all_iff engineOK_def split: option.splits if_splits)

lemma evalRequest_sel [simp]:
  "par_UserID (evalRequest e req) = par_UserID req" "par_ClientID (evalRequest e req) = par_ClientID req"
  "par_EndpointID (evalRequest e req) = par_EndpointID req"
  by (simp_all add: evalRequest_def)

lemma endpointPolicy_ref:
  assumes "engineOK e" shows "refOK (re_policies e) (endpointPolicy e req)"
proof (cases "re_clients e (par_ClientID req)")
  case (Some b)
  with assms have eps: "refOK (re_policies e) pid" if "(i, pid) \<in> set (rc_endpoints b)" for i pid
    using that by (fastforce simp: engineOK_def list_all_iff)
  have "endpointPolicy e req = '''' \<or> (\<exists>i. (i, endpointPolicy e req) \<in> set (rc_endpoints b))"
    unfolding endpointPolicy_def using Some by (auto simp: length_Suc_conv dest: map_of_SomeD split: option.splits)
  then show ?thesis using eps by (auto simp: refOK_def)
qed (simp add: endpointPolicy_def refOK_def)

lemma endpointPolicy_evalRequest [simp]: "endpointPolicy e (evalRequest e req) = endpointPolicy e req"
  unfolding endpointPolicy_def evalRequest_sel ..

definition endpointRequired :: "RadiusEngine \<Rightarrow> PolicyRequest \<Rightarrow> bool" where
  "endpointRequired e req \<longleftrightarrow>
     par_EndpointID req = '''' \<and> (case re_clients e (par_ClientID req) of Some b \<Rightarrow> length (rc_endpoints b) > 1 | None \<Rightarrow> False)"

lemma stageRules_Nil [simp]: "stageRules e (source, []) = []"
  by (simp add: stageRules_def)

lemma thenWalk_None [simp]: "thenWalk (tr, None) f = f tr"
  by (simp add: thenWalk_def)

lemma thenWalk_assoc: "thenWalk (thenWalk r f) g = thenWalk r (\<lambda>tr. thenWalk (f tr) g)"
  by (simp add: thenWalk_def split: prod.splits option.splits)

lemma Evaluate_tagged:
  assumes "engineOK e" and "\<not> endpointRequired e req"
  shows "rad_Evaluate (Some e) req =
    (case taggedWalk (evalRequest e req) (radRules e req) (rad_newTrace (evalRequest e req)) of
       (tr, Some res) \<Rightarrow> res | (tr, None) \<Rightarrow> rad_denyResult tr ''no matching access rule'')"
proof -
  let ?req = "evalRequest e req" and ?tr = "rad_newTrace (evalRequest e req)"
  have refs: "refOK (re_policies e) (endpointPolicy e req)" "refOK (re_policies e) (re_fallback e)"
    using endpointPolicy_ref [OF assms(1)] assms(1) by (simp_all add: engineOK_def)
  define us where "us = (case re_users e (par_UserID req) of
      Some u \<Rightarrow> if ru_enabled u then stageRules e (''user_policy:'' @ ru_policyID u, ru_policyID u) else [] | None \<Rightarrow> [])"
  have user: "(case re_users e (par_UserID req) of
      Some u \<Rightarrow> if ru_enabled u \<and> ru_policyID u \<noteq> ''''
                then rad_walk e (''user_policy:'' @ ru_policyID u) (ru_policyID u) ?req ?tr else (?tr, None)
    | None \<Rightarrow> (?tr, None)) = taggedWalk ?req us ?tr"
  proof (cases "re_users e (par_UserID req)")
    case (Some u)
    with assms(1) have "refOK (re_policies e) (ru_policyID u)" by (auto simp: engineOK_def)
    from rad_walk_tagged [OF this, where source="''user_policy:'' @ ru_policyID u", symmetric] Some
    show ?thesis by (simp add: us_def)
  qed (simp add: us_def)
  note groups = rad_walkGroups_tagged [OF rad_effectiveGroups_ref [OF assms(1)]]
  have rules: "radRules e req = us @
      concat (map (\<lambda>g. stageRules e (''group_policy:'' @ rg_policyID g, rg_policyID g))
        (rad_effectiveGroups e (par_UserID req) (par_ClientID req))) @
      stageRules e (''client_policy:'' @ endpointPolicy e req, endpointPolicy e req) @ stageRules e (''fallback'', re_fallback e)"
    by (simp add: radRules_def radChain_def us_def comp_def split: option.split)
  show ?thesis
    using assms(2)
    unfolding rad_Evaluate_def Let_def endpointRequired_def [symmetric] evalRequest_def [symmetric]
      evalRequest_sel endpointPolicy_evalRequest option.case if_not_P [OF assms(2)] user groups
      rad_walk_tagged [OF refs(1)] rad_walk_tagged [OF refs(2)] rules taggedWalk_append thenWalk_assoc
    by simp
qed

text \<open>
  Property C27. For an engine compiled from a document and a request that names the endpoint where one is
  required, evaluation is decided by the first matching rule of the user's policy, the policies of the
  effective groups by priority, the endpoint's policy and the fallback, in this order: its effect is the
  result's, its reply attributes are the result's and are legal in the packet of that effect, and it is
  the winner of the trace. If no rule matches, the request is denied without attributes. So such an
  evaluation permits or denies and does not end in the error effect; a request that leaves out an endpoint
  that is required (the client has several and the request names none) is outside the statement: the code
  answers it with the error effect.
\<close>
theorem radius_policy_first_match:
  assumes "radius_CompileDocument doc = Inr e" and "\<not> endpointRequired e req"
  shows "(case find (\<lambda>sr. fst (rad_matchRule (snd sr) (evalRequest e req))) (radRules e req) of
      None \<Rightarrow> ares_Effect (rad_Evaluate (Some e) req) = EffectDeny \<and> ares_ReplyAttributes (rad_Evaluate (Some e) req) = [] \<and>
        at_Winner (ares_Trace (rad_Evaluate (Some e) req)) = None
    | Some (source, r) \<Rightarrow>
        ares_Effect (rad_Evaluate (Some e) req) = crl_effect r \<and>
        (crl_effect r = EffectPermit \<or> crl_effect r = EffectDeny) \<and>
        ares_ReplyAttributes (rad_Evaluate (Some e) req) = crl_reply r \<and>
        CheckReplyLegal (crl_effect r) (crl_reply r) = Inr () \<and>
        at_Winner (ares_Trace (rad_Evaluate (Some e) req)) =
          Some \<lparr>aw_Source = source, aw_RuleID = crl_id r, aw_Effect = crl_effect r\<rparr>)"
proof -
  let ?req = "evalRequest e req" and ?f = "\<lambda>res. (ares_Effect res, ares_ReplyAttributes res, at_Winner (ares_Trace res))"
  note ok = compile_engineOK [OF assms(1)]
  have indep: "?f (rad_matchedResult t source i eff reply) = ?f (rad_matchedResult t' source i eff reply)" for t t' source i eff reply
    by (simp add: rad_matchedResult_def rad_errorResult_def split: sum.split)
  obtain tr o' where walk: "taggedWalk ?req (radRules e req) (rad_newTrace ?req) = (tr, o')" by fastforce
  have found: "map_option ?f o' = map_option (\<lambda>sr. ?f (rad_matchedResult tr (fst sr) (crl_id (snd sr)) (crl_effect (snd sr)) (crl_reply (snd sr))))
      (find (\<lambda>sr. fst (rad_matchRule (snd sr) ?req)) (radRules e req))"
    unfolding arg_cong [where f=snd, OF walk, unfolded snd_conv, symmetric] by (rule tagged.walk_outcome) (rule indep)
  show ?thesis
  proof (cases "find (\<lambda>sr. fst (rad_matchRule (snd sr) ?req)) (radRules e req)")
    case None
    with found walk have "o' = None" by simp
    with None walk show ?thesis
      by (simp add: Evaluate_tagged [OF ok assms(2)] rad_denyResult_def)
  next
    case (Some sr)
    obtain source r where sr: "sr = (source, r)" by fastforce
    from Some sr have "(source, r) \<in> set (radRules e req)" by (auto simp: find_Some_iff)
    then obtain pid p where "re_policies e pid = Some p" "r \<in> set (cp_rules p)"
      by (auto simp: radRules_def stageRules_def taggedRules_def dest: sym [of "Some _"] split: if_splits option.splits)
    with ok have r: "ruleOK r" by (auto simp: engineOK_def list_all_iff)
    from Some sr found walk obtain res where "o' = Some res" "?f res = ?f (rad_matchedResult tr source (crl_id r) (crl_effect r) (crl_reply r))"
      by auto
    with Some sr r walk show ?thesis
      by (auto simp: Evaluate_tagged [OF ok assms(2)] ruleOK_def rad_matchedResult_def)
  qed
qed

definition wit_engine :: RadiusEngine where
  "wit_engine = (case radius_CompileDocument wit_radius_doc of Inr e \<Rightarrow> e
     | Inl _ \<Rightarrow> \<lparr>re_policies = Map.empty, re_clients = Map.empty, re_users = Map.empty, re_groups = Map.empty, re_fallback = ''''\<rparr>)"

definition wit_polRequest :: PolicyRequest where
  "wit_polRequest = \<lparr>par_UserID = ''bob'', par_ClientID = ''nas1'', par_EndpointID = '''', par_Method = ''pap'', par_Groups = [''staff''], par_Attributes = []\<rparr>"

lemma wit_engine_compiled: "radius_CompileDocument wit_radius_doc = Inr wit_engine"
proof -
  have "case radius_CompileDocument wit_radius_doc of Inr _ \<Rightarrow> True | Inl _ \<Rightarrow> False" by code_simp
  then show ?thesis by (auto simp: wit_engine_def split: sum.splits)
qed

theorem radius_policy_first_match_witness:
  "ares_Effect (rad_Evaluate (Some wit_engine) wit_polRequest) = EffectPermit \<and>
     map ty_Text (ares_ReplyAttributes (rad_Evaluate (Some wit_engine) wit_polRequest)) = [''hello'']"
proof -
  have "\<not> endpointRequired wit_engine wit_polRequest" by code_simp
  note this [THEN radius_policy_first_match [OF wit_engine_compiled]]
  moreover have "case find (\<lambda>sr. fst (rad_matchRule (snd sr) (evalRequest wit_engine wit_polRequest))) (radRules wit_engine wit_polRequest) of
      None \<Rightarrow> False | Some sr \<Rightarrow> crl_effect (snd sr) = EffectPermit \<and> map ty_Text (crl_reply (snd sr)) = [''hello'']" by code_simp
  ultimately show ?thesis by (auto split: option.splits prod.splits)
qed

end
