(* ===== verification/Aaa_Radius_Access.thy ===== *)
theory Aaa_Radius_Access
  imports Aaa_Authen_Proofs Radius_Policy_Props Radius_Dictionary
begin

text \<open>
  The RADIUS access decision of the AAA service (\<open>internal/aaa/radius_access.go\<close>, \<open>radius_access_attrs.go\<close>, \<open>radius_mschap.go\<close>):
  credentials are verified against the admission snapshot, then the snapshot's RADIUS policy decides, and its
  reply attributes are encoded for the packet. Wiping of secrets is not modelled.
\<close>

subsection \<open>Attempts and decisions\<close>

abbreviation (input) RadiusAccessAccept :: string where "RadiusAccessAccept \<equiv> ''accept''"
abbreviation (input) RadiusAccessReject :: string where "RadiusAccessReject \<equiv> ''reject''"
abbreviation (input) RadiusAccessChallenge :: string where "RadiusAccessChallenge \<equiv> ''challenge''"

abbreviation (input) ReasonOK :: string where "ReasonOK \<equiv> ''ok''"
abbreviation (input) ReasonBadCredentials :: string where "ReasonBadCredentials \<equiv> ''reject_bad_credentials''"
abbreviation (input) ReasonPolicy :: string where "ReasonPolicy \<equiv> ''reject_policy''"
abbreviation (input) ReasonUnsupportedMethod :: string where "ReasonUnsupportedMethod \<equiv> ''reject_unsupported_method''"
abbreviation (input) ReasonInternal :: string where "ReasonInternal \<equiv> ''internal_error''"
abbreviation (input) ReasonPasswordChangeRequired :: string where "ReasonPasswordChangeRequired \<equiv> ''reject_password_change_required''"

text \<open>Of the request context the fields that the decision reads.\<close>

record 're RadiusAccessAttempt =
  raa_Snapshot :: "'re StateSnapshot option"
  raa_PolicyMethod :: string
  raa_Protocol :: string
  raa_ClientID :: string
  raa_EndpointID :: string
  raa_SnapshotRevision :: uint64
  raa_UserID :: string
  raa_Evidence :: CredentialEvidence
  raa_Attributes :: RawSet

text \<open>The challenge of a decision is never set by this code.\<close>

record RadiusAccessDecision =
  dec_Outcome :: string
  dec_ReasonCode :: string
  dec_UserID :: string
  dec_ReplyAttributes :: RawSet
  dec_Trace :: "AccessTrace option"

definition rejectAccess :: "string \<Rightarrow> string \<Rightarrow> RadiusAccessDecision" where
  "rejectAccess user reason =
     \<lparr>dec_Outcome = RadiusAccessReject, dec_ReasonCode = reason, dec_UserID = user, dec_ReplyAttributes = [], dec_Trace = None\<rparr>"

subsection \<open>Request attributes for the policy\<close>

definition Sensitive :: "byte \<Rightarrow> bool" where
  "Sensitive ty \<longleftrightarrow> SensitivityOf Builtin ty = SensitivitySecret"

definition skipRequestAttr :: "byte \<Rightarrow> bool" where
  "skipRequestAttr ty \<longleftrightarrow> Sensitive ty \<or> ty = 80 \<or> ty = 33 \<or> ty = 24"

definition typedFromRaw :: "Raw \<Rightarrow> Typed option" where
  "typedFromRaw a =
     (case LookupIETF Builtin (raw_Type a) of
        None \<Rightarrow> None
      | Some def \<Rightarrow>
          let tv = zeroTyped \<lparr>ak_Vendor = 0, ak_Code = def_Code def, ak_Name = def_Name def\<rparr> (def_Kind def)
          in if def_Kind def = KindInteger \<or> def_Kind def = KindTime then
               (case raw_Value a of [b0, b1, b2, b3] \<Rightarrow> Some (tv\<lparr>ty_Uint := Uint32_BE b0 b1 b2 b3\<rparr>) | _ \<Rightarrow> None)
             else if def_Kind def = KindIPv4 then
               (case AddrFromSlice (raw_Value a) of None \<Rightarrow> None | Some ad \<Rightarrow> if Addr_Is4 ad then Some (tv\<lparr>ty_Addr := ad\<rparr>) else None)
             else if def_Kind def = KindIPv6 then
               (case AddrFromSlice (raw_Value a) of None \<Rightarrow> None | Some ad \<Rightarrow> if Addr_Is6 ad then Some (tv\<lparr>ty_Addr := ad\<rparr>) else None)
             else if def_Kind def = KindText then Some (tv\<lparr>ty_Text := string_of_bytes (raw_Value a)\<rparr>)
             else Some (tv\<lparr>ty_Raw := raw_Value a\<rparr>))"

definition typedFromTLV :: "uint32 \<Rightarrow> VendorTLV \<Rightarrow> Typed" where
  "typedFromTLV vendor tlv =
     (case LookupKey Builtin \<lparr>key_Vendor = vendor, key_Code = ucast (tlv_Type tlv), key_Space = SpaceVSA\<rparr> of
        Some def \<Rightarrow>
          (zeroTyped \<lparr>ak_Vendor = vendor, ak_Code = tlv_Type tlv, ak_Name = def_Name def\<rparr> (def_Kind def))
            \<lparr>ty_Text := (if def_Kind def = KindText then string_of_bytes (tlv_Value tlv) else ''''), ty_Raw := tlv_Value tlv\<rparr>
      | None \<Rightarrow>
          (zeroTyped \<lparr>ak_Vendor = vendor, ak_Code = tlv_Type tlv, ak_Name = ''Vendor-Specific''\<rparr> KindVSA)\<lparr>ty_Raw := tlv_Value tlv\<rparr>)"

definition typedFromVSAAll :: "Raw \<Rightarrow> Typed list" where
  "typedFromVSAAll a =
     (case ParseVSA a of
        Inl _ \<Rightarrow> []
      | Inr vsa \<Rightarrow> (case ParseVendorTLVs (vsa_Payload vsa) of Inl _ \<Rightarrow> [] | Inr tlvs \<Rightarrow> map (typedFromTLV (vsa_Vendor vsa)) tlvs))"

definition policyRequestAttrs :: "RawSet \<Rightarrow> TypedSet" where
  "policyRequestAttrs raw =
     concat (map (\<lambda>a.
       if skipRequestAttr (raw_Type a) \<or> MicrosoftSecret a then []
       else if raw_Type a = TypeVendorSpecific then typedFromVSAAll a
       else case typedFromRaw a of Some tv \<Rightarrow> [tv] | None \<Rightarrow> []) raw)"

subsection \<open>Reply attributes of the policy\<close>

datatype replyErr = ErrReply Error | ErrWire radius_err

definition wireErr :: "radius_err + 'a \<Rightarrow> replyErr + 'a" where
  "wireErr r = (case r of Inl e \<Rightarrow> Inl (ErrWire e) | Inr x \<Rightarrow> Inr x)"

definition encodeVSA :: "Typed \<Rightarrow> replyErr + Raw" where
  "encodeVSA a =
     (let inner = (if length (ty_Raw a) = 0 \<and> ty_Text a \<noteq> '''' then bytes_of_string (ty_Text a) else ty_Raw a)
      in if length inner > MaxVendorTLVValue then Inl (ErrReply (NewError CodeInvalidArgument ''reply VSA exceeds attribute maximum''))
         else wireErr (rbind (EncodeVendorTLVs [\<lparr>tlv_Type = ak_Code (ty_Key a), tlv_Value = inner\<rparr>]) (\<lambda>payload.
                VSA_Raw \<lparr>vsa_Vendor = ak_Vendor (ty_Key a), vsa_Payload = payload\<rparr>)))"

definition encodeTyped :: "Typed \<Rightarrow> replyErr + Raw" where
  "encodeTyped a =
     (let code = ak_Code (ty_Key a)
      in if ak_Vendor (ty_Key a) \<noteq> 0 then encodeVSA a
         else if ty_Kind a = KindInteger \<or> ty_Kind a = KindTime then Inr \<lparr>raw_Type = code, raw_Value = PutUint32_BE (ty_Uint a)\<rparr>
         else if ty_Kind a = KindIPv4 then
           (if \<not> Addr_IsValid (ty_Addr a) \<or> \<not> Addr_Is4 (ty_Addr a)
            then Inl (ErrReply (NewError CodeInvalidArgument ''reply IPv4 attribute is invalid''))
            else Inr \<lparr>raw_Type = code, raw_Value = fst (ty_Addr a)\<rparr>)
         else if ty_Kind a = KindIPv6 then
           (if \<not> Addr_IsValid (ty_Addr a) \<or> \<not> Addr_Is6 (ty_Addr a)
            then Inl (ErrReply (NewError CodeInvalidArgument ''reply IPv6 attribute is invalid''))
            else Inr \<lparr>raw_Type = code, raw_Value = fst (ty_Addr a)\<rparr>)
         else if ty_Kind a = KindText then Inr \<lparr>raw_Type = code, raw_Value = bytes_of_string (ty_Text a)\<rparr>
         else Inr \<lparr>raw_Type = code, raw_Value = ty_Raw a\<rparr>)"

definition encodeAllowed :: "byte \<Rightarrow> Typed \<Rightarrow> replyErr + Raw" where
  "encodeAllowed packet a =
     rbind (encodeTyped a) (\<lambda>raw.
       if \<not> Dictionary_AllowedIn Builtin (raw_Type raw) packet
       then Inl (ErrReply (NewError CodeInvalidArgument ''attribute is not legal in this RADIUS reply''))
       else Inr raw)"

definition encodePolicyReply :: "TypedSet \<Rightarrow> byte \<Rightarrow> replyErr + RawSet" where
  "encodePolicyReply attrs packet =
     (case CheckReplyLegal (if packet = PacketAccessReject then EffectDeny else EffectPermit) attrs of
        Inl e \<Rightarrow> Inl (ErrReply e)
      | Inr _ \<Rightarrow> rmap (encodeAllowed packet) attrs)"

subsection \<open>The decision\<close>

definition mapPolicyResult :: "string \<Rightarrow> AccessResult \<Rightarrow> RadiusAccessDecision" where
  "mapPolicyResult user res =
     (let failed = (rejectAccess user ReasonInternal)\<lparr>dec_Trace := Some (ares_Trace res)\<rparr>
      in if ares_Effect res = EffectPermit then
           (case encodePolicyReply (ares_ReplyAttributes res) PacketAccessAccept of
              Inl _ \<Rightarrow> failed
            | Inr raw \<Rightarrow>
                \<lparr>dec_Outcome = RadiusAccessAccept, dec_ReasonCode = ReasonOK, dec_UserID = user, dec_ReplyAttributes = raw,
                 dec_Trace = Some (ares_Trace res)\<rparr>)
         else if ares_Effect res = EffectDeny then
           (case encodePolicyReply (ares_ReplyAttributes res) PacketAccessReject of
              Inl _ \<Rightarrow> failed
            | Inr raw \<Rightarrow> (rejectAccess user ReasonPolicy)\<lparr>dec_ReplyAttributes := raw, dec_Trace := Some (ares_Trace res)\<rparr>)
         else failed)"

text \<open>The ranked groups collected so far are pairs of priority and identifier.\<close>

definition addRADIUSGroups :: "'re StateSnapshot \<Rightarrow> (int \<times> string) list \<Rightarrow> string list \<Rightarrow> (int \<times> string) list" where
  "addRADIUSGroups snap = foldl (\<lambda>out i.
     if i = '''' \<or> i \<in> set (map snd out) then out
     else case snap_Group snap i of
       None \<Rightarrow> out
     | Some g \<Rightarrow> if gr_Enabled g then out @ [(gr_Priority g, i)] else out)"

definition effectiveRADIUSGroups :: "'re StateSnapshot \<Rightarrow> string \<Rightarrow> string \<Rightarrow> string list" where
  "effectiveRADIUSGroups snap userID clientID =
     (let own = (case snap_User snap userID of Some u \<Rightarrow> if us_Enabled u then us_GroupIDs u else [] | None \<Rightarrow> []);
          defaults = (case snap_Client snap clientID of Some c \<Rightarrow> cl_DefaultGroupIDs c | None \<Rightarrow> [])
      in map snd (sort (addRADIUSGroups snap (addRADIUSGroups snap [] own) defaults)))"

definition evaluateAccess ::
  "'re StateSnapshot option \<Rightarrow> string \<Rightarrow> string \<Rightarrow> string \<Rightarrow> string \<Rightarrow> TypedSet \<Rightarrow> RadiusAccessDecision" where
  "evaluateAccess snap user clientID endpointID method attrs =
     (case snap of
        None \<Rightarrow> rejectAccess user ReasonInternal
      | Some snap \<Rightarrow>
          mapPolicyResult user (rad_Evaluate (sn_radiusPolicies snap)
            \<lparr>par_UserID = user, par_ClientID = clientID, par_EndpointID = endpointID, par_Method = method,
             par_Groups = effectiveRADIUSGroups snap user clientID, par_Attributes = attrs\<rparr>))"

definition ExplainRADIUSAccess ::
  "credLib \<Rightarrow> 're StateSnapshot option \<Rightarrow> string \<Rightarrow> string \<Rightarrow> string \<Rightarrow> string \<Rightarrow> RawSet \<Rightarrow> RadiusAccessDecision" where
  "ExplainRADIUSAccess lib snap userID clientID endpointID method attrs =
     evaluateAccess snap (canonUser lib userID) clientID endpointID method (policyRequestAttrs attrs)"

definition appendMSCHAP2Success ::
  "'re callEnv \<Rightarrow> 're AAAService \<Rightarrow> 're StateSnapshot \<Rightarrow> string \<Rightarrow> string \<Rightarrow> CredentialEvidence \<Rightarrow> RadiusAccessDecision \<Rightarrow>
   RadiusAccessDecision option" where
  "appendMSCHAP2Success en s snap clientID user ev dec =
     (if length (ce_Response ev) < 49 then None
      else case MSCHAPv2Success (en_lib en) (en_ctx en) (en_now en) (boundCreds s snap clientID) user (ce_CHAPID ev)
                  (ce_Challenge ev) (take 16 (ce_Response ev)) of
        Inl _ \<Rightarrow> None
      | Inr success \<Rightarrow>
          (case MicrosoftVSA 26 success of
             Inl _ \<Rightarrow> None
           | Inr raw \<Rightarrow> Some (dec\<lparr>dec_ReplyAttributes := raw # dec_ReplyAttributes dec\<rparr>)))"

definition admissionSnapshot :: "'re AAAService \<Rightarrow> 're RadiusAccessAttempt \<Rightarrow> 're StateSnapshot option" where
  "admissionSnapshot s att =
     (let snap = (if raa_Snapshot att = None \<and> raa_SnapshotRevision att = 0 then svc_snap s else raa_Snapshot att)
      in case snap of
           None \<Rightarrow> None
         | Some sn \<Rightarrow> if raa_SnapshotRevision att \<noteq> 0 \<and> sn_Revision sn \<noteq> raa_SnapshotRevision att then None else Some sn)"

definition AuthenticateAccess ::
  "'re callEnv \<Rightarrow> 're AAAService \<Rightarrow> 're RadiusAccessAttempt \<Rightarrow> RadiusAccessDecision \<times> callErr option" where
  "AuthenticateAccess en s att =
     (if cx_done (en_ctx en) then (rejectAccess '''' ReasonInternal, Some ErrContext)
      else if raa_Protocol att \<noteq> '''' \<and> raa_Protocol att \<noteq> ''radius''
      then (rejectAccess '''' ReasonInternal, Some (ErrDomain (NewError CodeInvalidArgument ''RADIUS access protocol must be radius'')))
      else
        let user = canonUser (en_lib en) (raa_UserID att); ev = raa_Evidence att
        in if \<not> AuthMethod_Valid (ce_Method ev) then (rejectAccess user ReasonUnsupportedMethod, None)
           else case admissionSnapshot s att of
             None \<Rightarrow> (rejectAccess user ReasonInternal, Some (ErrDomain (NewError CodeUnavailable ''no published snapshot'')))
           | Some snap \<Rightarrow>
               let outcome = verifyAgainst en s snap user (raa_ClientID att) ev;
                   reqAttrs = policyRequestAttrs (raa_Attributes att)
               in if outcome = AuthPass then
                    (if userMustChangeLogin snap user then (rejectAccess user ReasonPasswordChangeRequired, None)
                     else
                       let policyMethod = (if AuthMethod_Valid (raa_PolicyMethod att) then raa_PolicyMethod att else ce_Method ev);
                           dec = evaluateAccess (Some snap) user (raa_ClientID att) (raa_EndpointID att) policyMethod reqAttrs
                       in if dec_Outcome dec = RadiusAccessAccept \<and> ce_Method ev = ''mschapv2'' then
                            (case appendMSCHAP2Success en s snap (raa_ClientID att) user ev dec of
                               None \<Rightarrow> (rejectAccess user ReasonInternal, None)
                             | Some dec \<Rightarrow> (dec, None))
                          else (dec, None))
                  else if outcome = AuthReject then (rejectAccess user ReasonBadCredentials, None)
                  else (rejectAccess user ReasonInternal, None))"

end
