(* ===== verification/Peap.thy ===== *)
theory Peap
  imports Radius_Attribute Go_Ip Assoc_Table
begin

text \<open>
  PEAP (\<open>internal/radius/eap/peap\<close>: \<open>flags.go\<close>, \<open>inner.go\<close>, \<open>tunnel.go\<close>, \<open>registry.go\<close>): TLS records in EAP bodies, the inner EAP
  packets, fragmentation and reassembly of TLS flights, and the bounded registry of tunnels. The TLS connection of
  a tunnel (\<open>crypto/tls\<close> on two in-memory pipes, its handshake in a goroutine) is a value of type \<open>'tls\<close> and the
  operations the package calls on it are the record \<open>tlsEngine\<close>.
\<close>

subsection \<open>Bodies\<close>

unbundle bit_operations_syntax

abbreviation (input) MaxTLSFlightBytes :: nat where "MaxTLSFlightBytes \<equiv> 65536"

record Payload =
  pl_LengthIncluded :: bool
  pl_MoreFragments :: bool
  pl_Start :: bool
  pl_Version :: byte
  pl_TLSMessageLen :: uint32
  pl_TLSData :: bytes

definition zeroPayload :: Payload where
  "zeroPayload = \<lparr>pl_LengthIncluded = False, pl_MoreFragments = False, pl_Start = False, pl_Version = 0, pl_TLSMessageLen = 0, pl_TLSData = []\<rparr>"

definition peap_Encode :: "Payload \<Rightarrow> bytes" where
  "peap_Encode p =
     (let flags = pl_Version p AND 0x07;
          flags = (if pl_LengthIncluded p then flags OR 0x80 else flags);
          flags = (if pl_MoreFragments p then flags OR 0x40 else flags);
          flags = (if pl_Start p then flags OR 0x20 else flags)
      in if pl_LengthIncluded p then flags # PutUint32_BE (pl_TLSMessageLen p) @ pl_TLSData p else flags # pl_TLSData p)"

definition EncodeStart :: bytes where
  "EncodeStart = peap_Encode (zeroPayload\<lparr>pl_Start := True\<rparr>)"

definition peap_Parse :: "bytes \<Rightarrow> Payload option" where
  "peap_Parse data =
     (case data of
        [] \<Rightarrow> None
      | b # rest \<Rightarrow>
          let flags = b AND NOT 0x18
          in if flags AND 0x07 \<noteq> 0 then None
             else let p = zeroPayload\<lparr>pl_LengthIncluded := (flags AND 0x80 \<noteq> 0), pl_MoreFragments := (flags AND 0x40 \<noteq> 0),
                        pl_Start := (flags AND 0x20 \<noteq> 0), pl_Version := flags AND 0x07\<rparr>
                  in if pl_LengthIncluded p then
                       (case rest of
                          b0 # b1 # b2 # b3 # body \<Rightarrow> Some (p\<lparr>pl_TLSMessageLen := Uint32_BE b0 b1 b2 b3, pl_TLSData := body\<rparr>)
                        | _ \<Rightarrow> None)
                     else Some (p\<lparr>pl_TLSData := rest\<rparr>))"

subsection \<open>Inner EAP packets\<close>

record InnerPacket =
  ip_Code :: byte
  ip_Identifier :: byte
  ip_Type :: byte
  ip_Data :: bytes
  ip_HasType :: bool

definition innerPacket :: "byte \<Rightarrow> byte \<Rightarrow> InnerPacket" where
  "innerPacket code i = \<lparr>ip_Code = code, ip_Identifier = i, ip_Type = 0, ip_Data = [], ip_HasType = False\<rparr>"

definition EncodeInner :: "InnerPacket \<Rightarrow> bytes" where
  "EncodeInner p =
     (if ip_Code p = 3 \<or> ip_Code p = 4 then [ip_Code p, ip_Identifier p, 0, 4]
      else let n = 5 + length (ip_Data p)
           in [ip_Code p, ip_Identifier p, of_nat (n div 256), of_nat n, ip_Type p] @ ip_Data p)"

definition DecodeInner :: "bytes \<Rightarrow> InnerPacket option" where
  "DecodeInner b =
     (case b of
        code # ident # h # l # rest \<Rightarrow>
          let n = unat h * 256 + unat l
          in if n \<noteq> length b \<or> n < 4 then None
             else if code = 3 \<or> code = 4 then (if n \<noteq> 4 then None else Some (innerPacket code ident))
             else if code = 1 \<or> code = 2 then
               (case rest of
                  [] \<Rightarrow> None
                | ty # data \<Rightarrow> Some \<lparr>ip_Code = code, ip_Identifier = ident, ip_Type = ty, ip_Data = data, ip_HasType = True\<rparr>)
             else None
      | _ \<Rightarrow> None)"

definition typedRequest :: "byte \<Rightarrow> byte \<Rightarrow> bytes \<Rightarrow> bytes" where
  "typedRequest i ty data = EncodeInner \<lparr>ip_Code = 1, ip_Identifier = i, ip_Type = ty, ip_Data = data, ip_HasType = True\<rparr>"

definition IdentityRequest :: "byte \<Rightarrow> bytes" where
  "IdentityRequest i = typedRequest i 1 []"

definition InnerSuccess :: "byte \<Rightarrow> bytes" where
  "InnerSuccess i = EncodeInner (innerPacket 3 i)"

definition InnerFailure :: "byte \<Rightarrow> bytes" where
  "InnerFailure i = EncodeInner (innerPacket 4 i)"

text \<open>The challenge is 16 octets where the function is called; the code panics for a longer one.\<close>

definition EncodeMSCHAPChallenge :: "byte \<Rightarrow> byte \<Rightarrow> bytes \<Rightarrow> string \<Rightarrow> bytes" where
  "EncodeMSCHAPChallenge eapID msID challenge name =
     (let msLen = 21 + length name
      in typedRequest eapID 26
           ([1, msID] @ PutUint16_BE (of_nat msLen) @ [16] @ take 16 (challenge @ replicate (16 - length challenge) 0) @ bytes_of_string name))"

definition EncodeMSCHAPSuccess :: "byte \<Rightarrow> byte \<Rightarrow> bytes \<Rightarrow> bytes" where
  "EncodeMSCHAPSuccess eapID msID message =
     typedRequest eapID 26 ([3, msID] @ PutUint16_BE (of_nat (4 + length message)) @ message)"

definition ParseMSCHAPResponse :: "InnerPacket \<Rightarrow> (byte \<times> bytes \<times> string) option" where
  "ParseMSCHAPResponse p =
     (if ip_Code p \<noteq> 2 \<or> ip_Type p \<noteq> 26 \<or> length (ip_Data p) < 54 then None
      else if ip_Data p ! 0 \<noteq> 2 \<or> ip_Data p ! 4 \<noteq> 49 then None
      else Some (ip_Data p ! 1, take 49 (drop 5 (ip_Data p)), string_of_bytes (drop 54 (ip_Data p))))"

subsection \<open>Flights\<close>

abbreviation (input) MaxTLSPerMessage :: nat where "MaxTLSPerMessage \<equiv> 1000"

function flightLoop :: "nat \<Rightarrow> bool \<Rightarrow> bytes \<Rightarrow> bytes list" where
  "flightLoop nTotal first rest =
     (if rest = [] then []
      else let n = min (length rest) MaxTLSPerMessage;
               p = zeroPayload\<lparr>pl_TLSData := take n rest, pl_LengthIncluded := first,
                     pl_TLSMessageLen := (if first then of_nat nTotal else 0), pl_MoreFragments := (n < length rest)\<rparr>
           in peap_Encode p # flightLoop nTotal False (drop n rest))"
  by pat_completeness auto
termination
  by (relation "measure (\<lambda>(_, _, rest). length rest)") (auto simp: min_def)

declare flightLoop.simps [simp del]

definition EncodeFlight :: "bytes \<Rightarrow> bytes list" where
  "EncodeFlight tlsData =
     (if length tlsData = 0 then [peap_Encode zeroPayload]
      else if length tlsData \<le> MaxTLSPerMessage then [peap_Encode (zeroPayload\<lparr>pl_TLSData := tlsData\<rparr>)]
      else flightLoop (length tlsData) True tlsData)"

subsection \<open>Tunnels\<close>

text \<open>
  \<open>te_wait\<close> is what the handshake goroutine does while \<open>WaitProgress\<close> waits; pushing fails when the pipe is full or closed,
  reading when nothing comes before the deadline.
\<close>

record 'tls tlsEngine =
  te_new :: "'tls option"
  te_push :: "bytes \<Rightarrow> 'tls \<Rightarrow> 'tls option"
  te_wait :: "'tls \<Rightarrow> 'tls"
  te_take :: "'tls \<Rightarrow> 'tls \<times> bytes"
  te_done :: "'tls \<Rightarrow> bool"
  te_failed :: "'tls \<Rightarrow> bool"
  te_write :: "bytes \<Rightarrow> 'tls \<Rightarrow> 'tls option"
  te_read :: "'tls \<Rightarrow> 'tls \<times> bytes option"

record 'tls Tunnel =
  tn_conn :: 'tls
  tn_frag :: bytes
  tn_fragLen :: uint32
  tn_fragErr :: bool
  tn_pending :: "bytes list"

definition NewTunnel :: "'tls tlsEngine \<Rightarrow> 'tls Tunnel option" where
  "NewTunnel te = map_option (\<lambda>c. \<lparr>tn_conn = c, tn_frag = [], tn_fragLen = 0, tn_fragErr = False, tn_pending = []\<rparr>) (te_new te)"

definition PushClient :: "'tls tlsEngine \<Rightarrow> bytes \<Rightarrow> 'tls Tunnel \<Rightarrow> 'tls Tunnel option" where
  "PushClient te records t =
     (if length records = 0 then Some t else map_option (\<lambda>c. t\<lparr>tn_conn := c\<rparr>) (te_push te records (tn_conn t)))"

definition PullServer :: "'tls tlsEngine \<Rightarrow> 'tls Tunnel \<Rightarrow> 'tls Tunnel \<times> bytes" where
  "PullServer te t = (case te_take te (tn_conn t) of (c, out) \<Rightarrow> (t\<lparr>tn_conn := c\<rparr>, out))"

definition WaitProgress :: "'tls tlsEngine \<Rightarrow> 'tls Tunnel \<Rightarrow> 'tls Tunnel" where
  "WaitProgress te t = t\<lparr>tn_conn := te_wait te (tn_conn t)\<rparr>"

definition WriteApp :: "'tls tlsEngine \<Rightarrow> bytes \<Rightarrow> 'tls Tunnel \<Rightarrow> 'tls Tunnel option" where
  "WriteApp te p t =
     (if \<not> te_done te (tn_conn t) then None else map_option (\<lambda>c. t\<lparr>tn_conn := c\<rparr>) (te_write te p (tn_conn t)))"

definition ReadApp :: "'tls tlsEngine \<Rightarrow> 'tls Tunnel \<Rightarrow> 'tls Tunnel \<times> bytes option" where
  "ReadApp te t =
     (if \<not> te_done te (tn_conn t) then (t, None)
      else case te_read te (tn_conn t) of (c, out) \<Rightarrow> (t\<lparr>tn_conn := c\<rparr>, out))"

definition BufferFragment :: "Payload \<Rightarrow> 'tls Tunnel \<Rightarrow> 'tls Tunnel \<times> bytes option" where
  "BufferFragment p t =
     (if tn_fragErr t then (t, None)
      else if pl_MoreFragments p \<and> length (tn_frag t) = 0 \<and> tn_fragLen t = 0 \<and> \<not> pl_LengthIncluded p
      then (t\<lparr>tn_fragErr := True\<rparr>, None)
      else if pl_LengthIncluded p \<and> (tn_fragLen t \<noteq> 0 \<or> length (tn_frag t) \<noteq> 0 \<or> pl_TLSMessageLen p = 0 \<or> unat (pl_TLSMessageLen p) > MaxTLSFlightBytes)
      then (t\<lparr>tn_fragErr := True, tn_frag := []\<rparr>, None)
      else
        let t = (if pl_LengthIncluded p then t\<lparr>tn_fragLen := pl_TLSMessageLen p\<rparr> else t)
        in if int (length (pl_TLSData p)) > int MaxTLSFlightBytes - int (length (tn_frag t)) \<or>
              tn_fragLen t > 0 \<and> length (tn_frag t) + length (pl_TLSData p) > unat (tn_fragLen t)
           then (t\<lparr>tn_fragErr := True, tn_frag := []\<rparr>, None)
           else
             let t = t\<lparr>tn_frag := tn_frag t @ pl_TLSData p\<rparr>
             in if pl_MoreFragments p then (t, None)
                else if tn_fragLen t > 0 \<and> length (tn_frag t) \<noteq> unat (tn_fragLen t) then (t\<lparr>tn_fragErr := True, tn_frag := []\<rparr>, None)
                else (t\<lparr>tn_frag := [], tn_fragLen := 0\<rparr>, Some (tn_frag t)))"

definition QueueFlight :: "bytes \<Rightarrow> 'tls Tunnel \<Rightarrow> 'tls Tunnel \<times> bytes" where
  "QueueFlight tlsRec t =
     (case EncodeFlight tlsRec of
        [] \<Rightarrow> (t, peap_Encode zeroPayload)
      | part # parts \<Rightarrow> (t\<lparr>tn_pending := parts\<rparr>, part))"

definition NextFragment :: "'tls Tunnel \<Rightarrow> 'tls Tunnel \<times> bytes option" where
  "NextFragment t = (case tn_pending t of [] \<Rightarrow> (t, None) | p # ps \<Rightarrow> (t\<lparr>tn_pending := ps\<rparr>, Some p))"

subsection \<open>The registry\<close>

text \<open>
  Entries are a tunnel and its expiry. The timer of an entry runs \<open>expireLocked\<close> in the background; every operation that reads runs it
  first, so the model does not need the timer.
\<close>

record 'tls Registry =
  rgy_items :: "(string \<times> 'tls Tunnel \<times> int) list"
  rgy_maxEntries :: int
  rgy_ttl :: int

definition tunnelCapacity :: "int \<Rightarrow> int \<Rightarrow> int" where
  "tunnelCapacity entries nbytes = Orderings.max 1 (min entries (nbytes div (4 * int MaxTLSFlightBytes)))"

definition NewRegistryWithLimits :: "int \<Rightarrow> int \<Rightarrow> int \<Rightarrow> 'tls Registry" where
  "NewRegistryWithLimits entries nbytes ttl =
     \<lparr>rgy_items = [], rgy_maxEntries = tunnelCapacity (if entries \<le> 0 then 4096 else entries) (if nbytes \<le> 0 then 1048576 else nbytes),
      rgy_ttl = (if ttl \<le> 0 then 30000000000 else ttl)\<rparr>"

definition registry_expire :: "int \<Rightarrow> 'tls Registry \<Rightarrow> 'tls Registry" where
  "registry_expire now r = r\<lparr>rgy_items := filter (\<lambda>(_, _, expires). expires > now) (rgy_items r)\<rparr>"

definition registry_Put :: "string \<Rightarrow> 'tls Tunnel \<Rightarrow> int \<Rightarrow> 'tls Registry \<Rightarrow> 'tls Registry \<times> bool" where
  "registry_Put i t now r =
     (if i = '''' then (r, False)
      else let r = registry_expire now r
           in if map_of (rgy_items r) i \<noteq> None \<or> int (length (rgy_items r)) \<ge> rgy_maxEntries r then (r, False)
              else (r\<lparr>rgy_items := (i, t, now + rgy_ttl r) # rgy_items r\<rparr>, True))"

definition registry_Get :: "string \<Rightarrow> int \<Rightarrow> 'tls Registry \<Rightarrow> 'tls Registry \<times> 'tls Tunnel option" where
  "registry_Get i now r =
     (if i = '''' then (r, None)
      else let r = registry_expire now r
           in case map_of (rgy_items r) i of
                None \<Rightarrow> (r, None)
              | Some (t, _) \<Rightarrow> (r\<lparr>rgy_items := AList.update i (t, now + rgy_ttl r) (rgy_items r)\<rparr>, Some t))"

definition registry_Delete :: "string \<Rightarrow> 'tls Registry \<Rightarrow> 'tls Registry" where
  "registry_Delete i r = r\<lparr>rgy_items := AList.delete i (rgy_items r)\<rparr>"

definition registry_Reset :: "'tls Registry \<Rightarrow> 'tls Registry" where
  "registry_Reset r = r\<lparr>rgy_items := []\<rparr>"

text \<open>A tunnel is shared by reference: what a handler does to one that is still registered is seen there.\<close>

definition registry_store :: "string \<Rightarrow> 'tls Tunnel \<Rightarrow> 'tls Registry \<Rightarrow> 'tls Registry" where
  "registry_store i t r =
     (case map_of (rgy_items r) i of
        None \<Rightarrow> r
      | Some (_, expires) \<Rightarrow> r\<lparr>rgy_items := AList.update i (t, expires) (rgy_items r)\<rparr>)"


subsection \<open>Bodies and inner packets survive their codecs\<close>

lemma flag_bits:
  "(0 :: byte) AND 7 = 0" "\<And>l m s. (let f = (0 :: byte); f = (if l then f OR 0x80 else f); f = (if m then f OR 0x40 else f);
     f = (if s then f OR 0x20 else f) in (f AND NOT 0x18) AND 7 = 0 \<and> ((f AND NOT 0x18) AND 0x80 \<noteq> 0) = l \<and>
     ((f AND NOT 0x18) AND 0x40 \<noteq> 0) = m \<and> ((f AND NOT 0x18) AND 0x20 \<noteq> 0) = s)"
  by (simp_all add: Let_def)

lemma peap_Parse_Encode:
  assumes "pl_Version p = 0" and "pl_LengthIncluded p \<or> pl_TLSMessageLen p = 0"
  shows "peap_Parse (peap_Encode p) = Some p"
proof -
  obtain b0 b1 b2 b3 where u: "PutUint32_BE (pl_TLSMessageLen p) = [b0, b1, b2, b3]" "Uint32_BE b0 b1 b2 b3 = pl_TLSMessageLen p"
    by (simp add: PutUint32_BE_def Uint32_PutUint32)
  show ?thesis
    using assms u by (cases p) (auto simp: peap_Parse_def peap_Encode_def zeroPayload_def Let_def)
qed

lemma length_octets: "n < 65536 \<Longrightarrow> unat (of_nat (n div 256) :: byte) * 256 + unat (of_nat n :: byte) = n"
  by (simp add: unat_of_nat)

lemma DecodeInner_typed:
  "n = 5 + length data \<Longrightarrow> n < 65536 \<Longrightarrow> code = 1 \<or> code = 2 \<Longrightarrow>
     DecodeInner ([code, i, of_nat (n div 256), of_nat n, ty] @ data) =
       Some \<lparr>ip_Code = code, ip_Identifier = i, ip_Type = ty, ip_Data = data, ip_HasType = True\<rparr>"
  using length_octets [of n] by (auto simp: DecodeInner_def Let_def)

lemma DecodeInner_EncodeInner:
  assumes "ip_Code p \<in> {1, 2} \<and> ip_HasType p \<and> length (ip_Data p) < 65531 \<or>
    ip_Code p \<in> {3, 4} \<and> \<not> ip_HasType p \<and> ip_Type p = 0 \<and> ip_Data p = []"
  shows "DecodeInner (EncodeInner p) = Some p"
proof (cases "ip_Code p \<in> {1, 2}")
  case True
  with assms have "5 + length (ip_Data p) < 65536" "ip_HasType p" by auto
  then have "DecodeInner (EncodeInner p) =
      Some \<lparr>ip_Code = ip_Code p, ip_Identifier = ip_Identifier p, ip_Type = ip_Type p, ip_Data = ip_Data p, ip_HasType = True\<rparr>"
    unfolding EncodeInner_def Let_def using True by (subst if_not_P) (force, rule DecodeInner_typed, auto)
  with \<open>ip_HasType p\<close> show ?thesis by (cases p) simp
next
  case False
  with assms show ?thesis by (cases p) (auto simp: DecodeInner_def EncodeInner_def innerPacket_def Let_def)
qed

subsection \<open>A flight is reassembled\<close>

text \<open>Bodies delivered to a tunnel, with what each delivery completes; a body that does not parse completes nothing.\<close>

fun deliver :: "bytes list \<Rightarrow> 'tls Tunnel \<Rightarrow> 'tls Tunnel \<times> bytes option list" where
  "deliver [] t = (t, [])"
| "deliver (b # bs) t =
     (case peap_Parse b of
        None \<Rightarrow> (case deliver bs t of (t, outs) \<Rightarrow> (t, None # outs))
      | Some p \<Rightarrow> (case BufferFragment p t of (t, out) \<Rightarrow> (case deliver bs t of (t, outs) \<Rightarrow> (t, out # outs))))"

definition idle :: "'tls Tunnel \<Rightarrow> bool" where
  "idle t \<longleftrightarrow> tn_frag t = [] \<and> tn_fragLen t = 0 \<and> \<not> tn_fragErr t"

text \<open>Between two fragments: what has arrived, and the announced length (none before the first).\<close>

definition midFlight :: "nat \<Rightarrow> bool \<Rightarrow> bytes \<Rightarrow> 'tls Tunnel \<Rightarrow> bool" where
  "midFlight n first pre t \<longleftrightarrow>
     \<not> tn_fragErr t \<and> tn_frag t = pre \<and> (if first then pre = [] \<and> tn_fragLen t = 0 else unat (tn_fragLen t) = n)"

lemma BufferFragment_mid:
  assumes "midFlight n first pre t" and "p = zeroPayload\<lparr>pl_TLSData := d, pl_LengthIncluded := first,
      pl_TLSMessageLen := (if first then of_nat n else 0), pl_MoreFragments := m\<rparr>"
    and "0 < n" "n \<le> MaxTLSFlightBytes" and "length pre + length d \<le> n" and "\<not> m \<longrightarrow> length pre + length d = n"
  shows "BufferFragment p t =
    (if m then (t\<lparr>tn_frag := pre @ d, tn_fragLen := of_nat n\<rparr>, None) else (t\<lparr>tn_frag := [], tn_fragLen := 0\<rparr>, Some (pre @ d)))"
proof -
  have u: "unat (of_nat n :: uint32) = n" using assms(4) by (simp add: unat_of_nat)
  have nz: "(of_nat n :: uint32) \<noteq> 0" using u assms(3) by (metis less_numeral_extra(3) unat_0)
  have len: "tn_fragLen t = of_nat n" if "\<not> first" using assms(1) that by (auto simp: midFlight_def)
  show ?thesis
    using assms u nz len
    by (cases first; cases m) (auto simp: BufferFragment_def midFlight_def zeroPayload_def Let_def word_gt_0)
qed

lemma flight_delivered:
  assumes "rest \<noteq> []" and "midFlight n first pre t" and "length pre + length rest = n" and "0 < n" and "n \<le> MaxTLSFlightBytes"
  shows "\<exists>k. deliver (flightLoop n first rest) t = (t\<lparr>tn_frag := [], tn_fragLen := 0\<rparr>, replicate k None @ [Some (pre @ rest)])"
  using assms
proof (induction n first rest arbitrary: pre t rule: flightLoop.induct)
  case (1 n first rest)
  let ?d = "take (min (length rest) MaxTLSPerMessage) rest" and ?rest = "drop (min (length rest) MaxTLSPerMessage) rest"
  let ?m = "min (length rest) MaxTLSPerMessage < length rest"
  let ?p = "zeroPayload\<lparr>pl_TLSData := ?d, pl_LengthIncluded := first, pl_TLSMessageLen := (if first then of_nat n else 0), pl_MoreFragments := ?m\<rparr>"
  have loop: "flightLoop n first rest = peap_Encode ?p # flightLoop n False ?rest"
    using "1.prems"(1) by (subst flightLoop.simps) (simp add: Let_def)
  have parse: "peap_Parse (peap_Encode ?p) = Some ?p" by (rule peap_Parse_Encode) (simp_all add: zeroPayload_def)
  have buf: "BufferFragment ?p t = (if ?m then (t\<lparr>tn_frag := pre @ ?d, tn_fragLen := of_nat n\<rparr>, None)
      else (t\<lparr>tn_frag := [], tn_fragLen := 0\<rparr>, Some (pre @ ?d)))"
    by (rule BufferFragment_mid [OF "1.prems"(2) refl "1.prems"(4,5)]) (use "1.prems"(3) in auto)
  show ?case
  proof (cases ?m)
    case True
    have mid: "midFlight n False (pre @ ?d) (t\<lparr>tn_frag := pre @ ?d, tn_fragLen := of_nat n\<rparr>)"
      using "1.prems" by (simp add: midFlight_def unat_of_nat)
    obtain k where "deliver (flightLoop n False ?rest) (t\<lparr>tn_frag := pre @ ?d, tn_fragLen := of_nat n\<rparr>) =
        (t\<lparr>tn_frag := [], tn_fragLen := 0\<rparr>, replicate k None @ [Some ((pre @ ?d) @ ?rest)])"
      using "1.IH" [OF "1.prems"(1) refl refl _ mid] True "1.prems" by (auto simp: min_def split: if_splits)
    then show ?thesis
      using True loop parse buf by (intro exI [of _ "Suc k"]) (simp add: min_def split: if_splits)
  next
    case False
    then have "?rest = []" "?d = rest" by auto
    moreover have "flightLoop n False [] = []" by (simp add: flightLoop.simps)
    ultimately show ?thesis
      using False loop parse buf by (intro exI [of _ 0]) simp
  qed
qed

lemma flightLoop_bodies: "list_all (\<lambda>b. length b \<le> 1005) (flightLoop n first rest)"
proof (induction n first rest rule: flightLoop.induct)
  case (1 n first rest)
  show ?case
    using 1 by (subst flightLoop.simps) (auto simp: Let_def peap_Encode_def PutUint32_BE_def)
qed

text \<open>
  Property C39. A TLS flight of at most 64 KiB that the server fragments is reassembled by a tunnel that is between flights:
  delivering the bodies of \<open>EncodeFlight\<close> in order completes nothing before the last body, which completes exactly the
  flight, and leaves the tunnel between flights again. No body is longer than 1005 octets, so that each fits one
  concatenated EAP message of 1020.
\<close>

theorem peap_flight_round_trip:
  assumes "idle t" and "length tlsData \<le> MaxTLSFlightBytes"
  shows "\<exists>k. deliver (EncodeFlight tlsData) t = (t, replicate k None @ [Some tlsData]) \<and> list_all (\<lambda>b. length b \<le> 1005) (EncodeFlight tlsData)"
proof -
  have t: "t\<lparr>tn_frag := [], tn_fragLen := 0\<rparr> = t" using assms(1) by (cases t) (simp add: idle_def)
  show ?thesis
  proof (cases "length tlsData \<le> MaxTLSPerMessage")
    case True
    have "peap_Parse (peap_Encode (zeroPayload\<lparr>pl_TLSData := d\<rparr>)) = Some (zeroPayload\<lparr>pl_TLSData := d\<rparr>)" for d
      by (rule peap_Parse_Encode) (simp_all add: zeroPayload_def)
    moreover have "EncodeFlight tlsData = [peap_Encode (zeroPayload\<lparr>pl_TLSData := tlsData\<rparr>)]"
      using True by (auto simp: EncodeFlight_def zeroPayload_def)
    moreover have "BufferFragment (zeroPayload\<lparr>pl_TLSData := tlsData\<rparr>) t = (t, Some tlsData)"
      using assms True t by (simp add: BufferFragment_def zeroPayload_def idle_def Let_def)
    moreover have "length (peap_Encode (zeroPayload\<lparr>pl_TLSData := tlsData\<rparr>)) \<le> 1005"
      using True by (simp add: peap_Encode_def zeroPayload_def)
    ultimately show ?thesis by (intro exI [of _ 0]) simp
  next
    case False
    then have "EncodeFlight tlsData = flightLoop (length tlsData) True tlsData" by (auto simp: EncodeFlight_def)
    moreover from False have "tlsData \<noteq> []" by auto
    moreover have "midFlight (length tlsData) True [] t" using assms(1) by (simp add: midFlight_def idle_def)
    ultimately show ?thesis
      using flight_delivered [of tlsData "length tlsData" True "[]" t] flightLoop_bodies False assms(2) t by auto
  qed
qed

definition wit_tunnel :: "unit Tunnel" where
  "wit_tunnel = \<lparr>tn_conn = (), tn_frag = [], tn_fragLen = 0, tn_fragErr = False, tn_pending = []\<rparr>"

theorem peap_flight_round_trip_witness:
  "\<exists>k. deliver (EncodeFlight (replicate 1500 7)) wit_tunnel = (wit_tunnel, replicate k None @ [Some (replicate 1500 7)])"
  using peap_flight_round_trip [of wit_tunnel "replicate 1500 7"] by (auto simp: idle_def wit_tunnel_def)

end
