(* ===== verification/Radius_Access.thy ===== *)
theory Radius_Access
  imports Aaa_Radius_Access Peap Radius_Reply Challenge_Store
begin

text \<open>
  The Access-Request handler (\<open>internal/radius/server/access.go\<close>, \<open>challenge.go\<close>, \<open>mschap.go\<close>, \<open>eap.go\<close>, \<open>peap_access.go\<close>): evidence from
  PAP, CHAP and MS-CHAP attributes, the Challenge gate, EAP-MD5 and PEAP conversations, and the signed
  replies. The handler's state is its challenge store, its source of entropy and its tunnels; metrics are left out.
\<close>

subsection \<open>Environment and state\<close>

record ('re, 'tls) accessEnv =
  ae_call :: "'re callEnv"
  ae_svc :: "'re AAAService option"
  ae_snap :: "'re StateSnapshot option"
  ae_tls :: "'tls tlsEngine"

record 'tls AccessState =
  ax_store :: "ChallengeStore option"
  ax_entropy :: bytes
  ax_peap :: bool
  ax_tunnels :: "'tls Registry option"

abbreviation (input) ReasonConflictingAuth :: string where "ReasonConflictingAuth \<equiv> ''reject_conflicting_auth''"
abbreviation (input) ReasonMissingUsername :: string where "ReasonMissingUsername \<equiv> ''reject_missing_username''"
abbreviation (input) ReasonInvalidState :: string where "ReasonInvalidState \<equiv> ''reject_invalid_state''"
abbreviation (input) ReasonChallengeExpired :: string where "ReasonChallengeExpired \<equiv> ''reject_challenge_expired''"
abbreviation (input) ReasonChallengeBinding :: string where "ReasonChallengeBinding \<equiv> ''reject_challenge_binding''"
abbreviation (input) ReasonChallengeCapacity :: string where "ReasonChallengeCapacity \<equiv> ''reject_challenge_capacity''"
abbreviation (input) ReasonChallenge :: string where "ReasonChallenge \<equiv> ''challenge''"
abbreviation (input) ReasonUnsupportedEAPMethod :: string where "ReasonUnsupportedEAPMethod \<equiv> ''reject_unsupported_eap_method''"
abbreviation (input) ReasonEAPTooLong :: string where "ReasonEAPTooLong \<equiv> ''reject_eap_too_long''"
abbreviation (input) ReasonCHAPPasswordLength :: string where "ReasonCHAPPasswordLength \<equiv> ''reject_chap_password_length''"

abbreviation (input) reqAttrs :: "RadiusRequest \<Rightarrow> RawSet" where
  "reqAttrs q \<equiv> pk_Attributes (rq_Packet q)"

text \<open>\<open>io.ReadFull\<close> on the entropy source: a short source is drained and fails.\<close>

definition readRand :: "nat \<Rightarrow> 'tls AccessState \<Rightarrow> 'tls AccessState \<times> bytes option" where
  "readRand n a =
     (if n \<le> length (ax_entropy a) then (a\<lparr>ax_entropy := drop n (ax_entropy a)\<rparr>, Some (take n (ax_entropy a)))
      else (a\<lparr>ax_entropy := []\<rparr>, None))"

subsection \<open>Replies\<close>

definition srv_methodAllowed :: "string list \<Rightarrow> string \<Rightarrow> bool" where
  "srv_methodAllowed allowed method \<longleftrightarrow> length allowed = 0 \<or> method \<in> set allowed"

definition wireAccessReason :: "string \<Rightarrow> string" where
  "wireAccessReason code =
     (if code \<in> {ReasonPolicy, ReasonBadCredentials, ReasonUnsupportedMethod, ReasonInternal, ReasonMissingUsername, ReasonConflictingAuth,
        ReasonCHAPPasswordLength, ReasonPasswordChangeRequired, ReasonInvalidState, ReasonChallengeExpired, ReasonChallengeBinding,
        ReasonChallengeCapacity, ReasonChallenge, ReasonUnsupportedEAPMethod, ReasonEAPTooLong} then code
      else ReasonBadCredentials)"

definition policySafeAttrs :: "RawSet \<Rightarrow> RawSet" where
  "policySafeAttrs attrs =
     filter (\<lambda>a. \<not> (Sensitive (raw_Type a) \<or> MicrosoftSecret a \<or> raw_Type a = 80 \<or> raw_Type a = 33 \<or> raw_Type a = 24 \<or> raw_Type a = 79)) attrs"

definition replyAttrsLegal :: "Code \<Rightarrow> RawSet \<Rightarrow> bool" where
  "replyAttrsLegal code attrs \<longleftrightarrow> list_all (\<lambda>a. Dictionary_AllowedIn Builtin (raw_Type a) code) attrs"

definition signAccess :: "RadiusRequest \<Rightarrow> Code \<Rightarrow> string \<Rightarrow> RawSet \<Rightarrow> RadiusResult" where
  "signAccess q code reason policy =
     (case ReplyAccess (rq_Secret q) code (pk_Identifier (rq_Packet q)) (pk_Authenticator (rq_Packet q)) (reqAttrs q) policy of
        Inl _ \<Rightarrow> discard ''discard_malformed_header''
      | Inr wire \<Rightarrow> \<lparr>rr_Action = ActionReply, rr_Reason = reason, rr_Response = wire, rr_JournalSaturated = False\<rparr>)"

definition replyAccess :: "RadiusRequest \<Rightarrow> Code \<Rightarrow> string \<Rightarrow> RawSet \<Rightarrow> RadiusResult" where
  "replyAccess q code reason policy =
     (if length policy > 0 \<and> \<not> replyAttrsLegal code policy
      then (if code = CodeAccessAccept then signAccess q CodeAccessReject ReasonInternal [] else signAccess q code reason [])
      else signAccess q code reason policy)"

subsection \<open>The challenge gate\<close>

text \<open>Absent, present and bad, or the value.\<close>

definition extractState :: "RawSet \<Rightarrow> (string + bytes) option" where
  "extractState attrs =
     (case AllOf attrs 24 of
        [] \<Rightarrow> None
      | [a] \<Rightarrow> Some (if length (raw_Value a) = 0 then Inl ReasonInvalidState else Inr (raw_Value a))
      | _ \<Rightarrow> Some (Inl ReasonInvalidState))"

definition bindFromRequest :: "RadiusRequest \<Rightarrow> string + ChallengeBind" where
  "bindFromRequest q =
     (if requestCarrier q = ''radius_tls'' then
        (if rq_TLSCertFP q = zeroFP then Inl ReasonChallengeBinding
         else Inr \<lparr>cb_Kind = BindTLSCert, cb_SourceIP = None, cb_CertFP = rq_TLSCertFP q\<rparr>)
      else
        (case fst (rq_Peer q) of
           None \<Rightarrow> Inl ReasonChallengeBinding
         | Some ip \<Rightarrow> Inr \<lparr>cb_Kind = BindUDPIP, cb_SourceIP = Some ip, cb_CertFP = zeroFP\<rparr>))"

definition zeroIssue :: ChallengeIssue where
  "zeroIssue =
     \<lparr>ci_State = [], ci_EndpointID = '''', ci_ClientID = '''', ci_Bind = \<lparr>cb_Kind = BindUDPIP, cb_SourceIP = None, cb_CertFP = zeroFP\<rparr>,
      ci_UserID = '''', ci_Method = '''', ci_EAPID = 0, ci_EAPType = 0, ci_Step = '''', ci_ReplyAttributes = [], ci_MD5Challenge = [],
      ci_TunnelID = '''', ci_Revision = 0\<rparr>"

definition fillIssue :: "RadiusRequest \<Rightarrow> ChallengeIssue \<Rightarrow> ChallengeIssue" where
  "fillIssue q i =
     (let i = (if ci_EndpointID i = '''' then i\<lparr>ci_EndpointID := rq_EndpointID q\<rparr> else i);
          i = (if ci_ClientID i = '''' then i\<lparr>ci_ClientID := rq_ClientID q\<rparr> else i)
      in if ci_Revision i = 0 then i\<lparr>ci_Revision := rq_Revision q\<rparr> else i)"

definition IssueChallenge :: "int \<Rightarrow> RadiusRequest \<Rightarrow> ChallengeIssue \<Rightarrow> 'tls AccessState \<Rightarrow> 'tls AccessState \<times> string" where
  "IssueChallenge now q i a =
     (case ax_store a of
        None \<Rightarrow> (a, ReasonChallengeCapacity)
      | Some st \<Rightarrow>
          let i = fillIssue q i
          in case (if Bind_Unset (ci_Bind i) then bindFromRequest q else Inr (ci_Bind i)) of
               Inl reason \<Rightarrow> (a, reason)
             | Inr bind \<Rightarrow>
                 (case Issue (i\<lparr>ci_Bind := bind\<rparr>) now st of
                    (st, r) \<Rightarrow> (a\<lparr>ax_store := Some st\<rparr>,
                      (case r of IssueOK \<Rightarrow> '''' | IssueSaturated \<Rightarrow> ReasonChallengeCapacity | _ \<Rightarrow> ReasonInvalidState))))"

definition consumeContinuation :: "int \<Rightarrow> RadiusRequest \<Rightarrow> bytes \<Rightarrow> 'tls AccessState \<Rightarrow> 'tls AccessState \<times> (string + ChallengeRecord)" where
  "consumeContinuation now q state a =
     (case ax_store a of
        None \<Rightarrow> (a, Inl ReasonInvalidState)
      | Some st \<Rightarrow>
          (case bindFromRequest q of
             Inl reason \<Rightarrow> (a, Inl reason)
           | Inr bind \<Rightarrow>
               (case Consume (rq_EndpointID q) state (rq_ClientID q) bind now st of
                  (st, r) \<Rightarrow> (a\<lparr>ax_store := Some st\<rparr>,
                    (case r of
                       ConsumeOK rc \<Rightarrow> Inr rc
                     | ConsumeExpired \<Rightarrow> Inl ReasonChallengeExpired
                     | ConsumeBinding \<Rightarrow> Inl ReasonChallengeBinding
                     | ConsumeUnknown \<Rightarrow> Inl ReasonInvalidState)))))"

subsection \<open>Evidence of PAP, CHAP and MS-CHAP\<close>

record mschapEvidence =
  ms_v1Resp :: "VendorTLV list"
  ms_v2Resp :: "VendorTLV list"
  ms_chal :: "VendorTLV list"
  ms_malformed :: bool

definition addMSCHAP :: "VendorTLV list \<Rightarrow> mschapEvidence \<Rightarrow> mschapEvidence" where
  "addMSCHAP tlvs ev =
     ev\<lparr>ms_chal := ms_chal ev @ filter (\<lambda>t. tlv_Type t = 11) tlvs, ms_v1Resp := ms_v1Resp ev @ filter (\<lambda>t. tlv_Type t = 1) tlvs,
        ms_v2Resp := ms_v2Resp ev @ filter (\<lambda>t. tlv_Type t = 25) tlvs\<rparr>"

fun collectLoop :: "RawSet \<Rightarrow> mschapEvidence \<Rightarrow> mschapEvidence" where
  "collectLoop [] ev = ev"
| "collectLoop (raw # rest) ev =
     (case ParseVSA raw of
        Inl _ \<Rightarrow> collectLoop rest ev
      | Inr vsa \<Rightarrow>
          if vsa_Vendor vsa \<noteq> VendorMicrosoft then collectLoop rest ev
          else (case ParseVendorTLVs (vsa_Payload vsa) of
                  Inl _ \<Rightarrow> ev\<lparr>ms_malformed := True\<rparr>
                | Inr tlvs \<Rightarrow> collectLoop rest (addMSCHAP tlvs ev)))"

definition collectMSCHAP :: "RawSet \<Rightarrow> mschapEvidence" where
  "collectMSCHAP attrs = collectLoop (AllOf attrs TypeVendorSpecific) \<lparr>ms_v1Resp = [], ms_v2Resp = [], ms_chal = [], ms_malformed = False\<rparr>"

definition ms_present :: "mschapEvidence \<Rightarrow> bool" where
  "ms_present e \<longleftrightarrow> length (ms_chal e) > 0 \<or> length (ms_v1Resp e) > 0 \<or> length (ms_v2Resp e) > 0 \<or> ms_malformed e"

definition mapMSCHAPv1 :: "bytes \<Rightarrow> bytes" where
  "mapMSCHAPv1 radius = take 24 (drop 2 radius) @ take 24 (drop 26 radius) @ [radius ! 1]"

definition mapMSCHAPv2 :: "bytes \<Rightarrow> bytes option" where
  "mapMSCHAPv2 radius =
     (let out = take 16 (drop 2 radius) @ take 8 (drop 18 radius) @ take 24 (drop 26 radius) @ [0]
      in if list_ex (\<lambda>b. b \<noteq> 0) (take 8 (drop 16 out)) then None else Some out)"

definition evidence :: "string \<Rightarrow> byte \<Rightarrow> bytes \<Rightarrow> bytes \<Rightarrow> CredentialEvidence" where
  "evidence method i challenge response =
     \<lparr>ce_Method = method, ce_Password = [], ce_CHAPID = i, ce_Challenge = challenge, ce_Response = response\<rparr>"

definition extractMSCHAPEvidence :: "RadiusRequest \<Rightarrow> mschapEvidence \<Rightarrow> string + CredentialEvidence" where
  "extractMSCHAPEvidence q ms =
     (if ms_malformed ms then Inl ReasonConflictingAuth
      else if length (ms_v1Resp ms) > 1 \<or> length (ms_v2Resp ms) > 1 \<or> length (ms_chal ms) > 1 then Inl ReasonConflictingAuth
      else if length (ms_v1Resp ms) > 0 \<and> length (ms_v2Resp ms) > 0 then Inl ReasonConflictingAuth
      else if length (ms_v1Resp ms) = 0 \<and> length (ms_v2Resp ms) = 0 then Inl ReasonUnsupportedMethod
      else if length (ms_v1Resp ms) = 1 then
        (let wire = tlv_Value (ms_v1Resp ms ! 0)
         in if \<not> srv_methodAllowed (rq_AllowedMethods q) ''mschapv1'' then Inl ReasonUnsupportedMethod
            else if length (ms_chal ms) \<noteq> 1 \<or> length (tlv_Value (ms_chal ms ! 0)) \<noteq> 8 then Inl ReasonConflictingAuth
            else if length wire \<noteq> 50 then Inl ReasonConflictingAuth
            else Inr (evidence ''mschapv1'' (wire ! 0) (tlv_Value (ms_chal ms ! 0)) (mapMSCHAPv1 wire)))
      else
        (let wire = tlv_Value (ms_v2Resp ms ! 0)
         in if \<not> srv_methodAllowed (rq_AllowedMethods q) ''mschapv2'' then Inl ReasonUnsupportedMethod
            else if length (ms_chal ms) \<noteq> 1 \<or> length (tlv_Value (ms_chal ms ! 0)) \<noteq> 16 then Inl ReasonConflictingAuth
            else if length wire \<noteq> 50 then Inl ReasonConflictingAuth
            else case mapMSCHAPv2 wire of
              None \<Rightarrow> Inl ReasonConflictingAuth
            | Some mapped \<Rightarrow> Inr (evidence ''mschapv2'' (wire ! 0) (tlv_Value (ms_chal ms ! 0)) mapped)))"

text \<open>The user and the evidence, or the reason of the reject.\<close>

definition extractAccessEvidence :: "RadiusRequest \<Rightarrow> string + string \<times> CredentialEvidence" where
  "extractAccessEvidence q =
     (let attrs = reqAttrs q; names = AllOf attrs 1; paps = AllOf attrs 2; chaps = AllOf attrs 3; chals = AllOf attrs 60;
          eaps = AllOf attrs TypeEAPMessage; ms = collectMSCHAP attrs
      in if length names \<noteq> 1 \<or> length (raw_Value (names ! 0)) = 0 then Inl ReasonMissingUsername
         else
           let user = string_of_bytes (raw_Value (names ! 0))
           in if length paps > 1 \<or> length chaps > 1 \<or> length chals > 1 \<or> length paps > 0 \<and> length chaps > 0 then Inl ReasonConflictingAuth
              else if ms_present ms \<and> (length paps > 0 \<or> length chaps > 0 \<or> length eaps > 0) then Inl ReasonConflictingAuth
              else if length eaps > 0 then Inl ReasonUnsupportedMethod
              else if ms_present ms then rbind (extractMSCHAPEvidence q ms) (\<lambda>ev. Inr (user, ev))
              else if length paps = 0 \<and> length chaps = 0 then Inl ReasonUnsupportedMethod
              else if length chaps = 1 then
                (let val = raw_Value (chaps ! 0)
                 in if length val \<noteq> 17 then Inl ReasonCHAPPasswordLength
                    else if \<not> srv_methodAllowed (rq_AllowedMethods q) ''chap'' then Inl ReasonUnsupportedMethod
                    else Inr (user, evidence ''chap'' (val ! 0)
                           (if length chals = 1 then raw_Value (chals ! 0) else pk_Authenticator (rq_Packet q)) (drop 1 val)))
              else if \<not> srv_methodAllowed (rq_AllowedMethods q) ''pap'' then Inl ReasonUnsupportedMethod
              else case UnhideUserPassword (rq_Secret q) (pk_Authenticator (rq_Packet q)) (raw_Value (paps ! 0)) of
                Inl _ \<Rightarrow> Inl ReasonBadCredentials
              | Inr plain \<Rightarrow> Inr (user, (evidence ''password'' 0 [] [])\<lparr>ce_Password := plain\<rparr>))"

definition accessAttempt ::
  "('re, 'tls) accessEnv \<Rightarrow> RadiusRequest \<Rightarrow> string \<Rightarrow> string \<Rightarrow> CredentialEvidence \<Rightarrow> 're RadiusAccessAttempt" where
  "accessAttempt e q policyMethod user ev =
     \<lparr>raa_Snapshot = ae_snap e, raa_PolicyMethod = policyMethod, raa_Protocol = ''radius'', raa_ClientID = rq_ClientID q,
      raa_EndpointID = rq_EndpointID q, raa_SnapshotRevision = rq_Revision q, raa_UserID = user, raa_Evidence = ev,
      raa_Attributes = policySafeAttrs (reqAttrs q)\<rparr>"

definition ctxDone :: "('re, 'tls) accessEnv \<Rightarrow> bool" where
  "ctxDone e \<longleftrightarrow> cx_done (en_ctx (ae_call e))"

text \<open>PAP, CHAP and MS-CHAP: the end of \<open>Access.Handle\<close>.\<close>

definition handleEvidence :: "('re, 'tls) accessEnv \<Rightarrow> RadiusRequest \<Rightarrow> RadiusResult" where
  "handleEvidence e q =
     (case extractAccessEvidence q of
        Inl reason \<Rightarrow> replyAccess q CodeAccessReject reason []
      | Inr (user, ev) \<Rightarrow>
          (case ae_svc e of
             None \<Rightarrow> replyAccess q CodeAccessReject ReasonInternal []
           | Some s \<Rightarrow>
               (case AuthenticateAccess (ae_call e) s (accessAttempt e q '''' user ev) of
                  (dec, Some _) \<Rightarrow> if ctxDone e then discard ''drop_overload'' else replyAccess q CodeAccessReject ReasonInternal []
                | (dec, None) \<Rightarrow>
                    if dec_Outcome dec = RadiusAccessAccept then replyAccess q CodeAccessAccept ReasonOK (dec_ReplyAttributes dec)
                    else if dec_Outcome dec = RadiusAccessChallenge then replyAccess q CodeAccessReject ReasonInternal []
                    else replyAccess q CodeAccessReject (wireAccessReason (dec_ReasonCode dec)) (dec_ReplyAttributes dec))))"


subsection \<open>EAP packets\<close>

record eapPacket =
  ea_Code :: byte
  ea_Identifier :: byte
  ea_Type :: byte
  ea_Data :: bytes
  ea_HasType :: bool

abbreviation (input) maxEAPPayload :: nat where "maxEAPPayload \<equiv> 1020"
abbreviation (input) eapStateLen :: nat where "eapStateLen \<equiv> 16"

definition concatEAPMessage :: "RawSet \<Rightarrow> string + bytes" where
  "concatEAPMessage attrs =
     (let out = concat (map raw_Value (AllOf attrs TypeEAPMessage))
      in if length out > maxEAPPayload then Inl ReasonEAPTooLong else Inr out)"

definition parseEAP :: "bytes \<Rightarrow> eapPacket option" where
  "parseEAP b =
     (case b of
        code # ident # h # l # rest \<Rightarrow>
          let n = unat h * 256 + unat l
          in if n \<noteq> length b \<or> n < 4 then None
             else if code = 3 \<or> code = 4 then
               (if n \<noteq> 4 then None else Some \<lparr>ea_Code = code, ea_Identifier = ident, ea_Type = 0, ea_Data = [], ea_HasType = False\<rparr>)
             else if code = 1 \<or> code = 2 then
               (case rest of
                  [] \<Rightarrow> None
                | ty # data \<Rightarrow> Some \<lparr>ea_Code = code, ea_Identifier = ident, ea_Type = ty, ea_Data = data, ea_HasType = True\<rparr>)
             else None
      | _ \<Rightarrow> None)"

definition encodeEAP :: "eapPacket \<Rightarrow> bytes" where
  "encodeEAP p =
     (if ea_Code p = 3 \<or> ea_Code p = 4 then [ea_Code p, ea_Identifier p, 0, 4]
      else let n = 5 + length (ea_Data p)
           in [ea_Code p, ea_Identifier p, of_nat (n div 256), of_nat n, ea_Type p] @ ea_Data p)"

definition genericEAPFailure :: "byte \<Rightarrow> bytes" where
  "genericEAPFailure i = [4, i, 0, 4]"

definition eapSuccess :: "byte \<Rightarrow> bytes" where
  "eapSuccess i = [3, i, 0, 4]"

definition eapRequest :: "byte \<Rightarrow> byte \<Rightarrow> bytes \<Rightarrow> bytes" where
  "eapRequest i ty data = encodeEAP \<lparr>ea_Code = 1, ea_Identifier = i, ea_Type = ty, ea_Data = data, ea_HasType = True\<rparr>"

definition eapRequestIdentity :: "byte \<Rightarrow> bytes" where
  "eapRequestIdentity i = eapRequest i 1 []"

definition eapRequestMD5 :: "byte \<Rightarrow> bytes \<Rightarrow> bytes" where
  "eapRequestMD5 i challenge = eapRequest i 4 (of_nat (length challenge) # challenge)"

definition eapRequestPEAPStart :: "byte \<Rightarrow> bytes" where
  "eapRequestPEAPStart i = eapRequest i 25 EncodeStart"

definition parseMD5Response :: "bytes \<Rightarrow> bytes option" where
  "parseMD5Response data =
     (if length data < 17 \<or> data ! 0 \<noteq> 16 then None else Some (take 16 (drop 1 data)))"

function eapMessageAttrs :: "bytes \<Rightarrow> RawSet" where
  "eapMessageAttrs pkt =
     (if pkt = [] then []
      else let n = min (length pkt) MaxValueLength
           in \<lparr>raw_Type = TypeEAPMessage, raw_Value = take n pkt\<rparr> # eapMessageAttrs (drop n pkt))"
  by pat_completeness auto
termination
  by (relation "measure length") (auto simp: min_def)

declare eapMessageAttrs.simps [simp del]

definition eapReject :: "RadiusRequest \<Rightarrow> string \<Rightarrow> byte \<Rightarrow> RadiusResult" where
  "eapReject q reason i = replyAccess q CodeAccessReject reason (eapMessageAttrs (genericEAPFailure i))"

definition eapChallenge :: "RadiusRequest \<Rightarrow> bytes \<Rightarrow> bytes \<Rightarrow> RadiusResult" where
  "eapChallenge q state pkt =
     replyAccess q CodeAccessChallenge ReasonChallenge (\<lparr>raw_Type = 24, raw_Value = state\<rparr> # eapMessageAttrs pkt)"

subsection \<open>Starting a conversation\<close>

definition papOrCHAPPresent :: "RadiusRequest \<Rightarrow> bool" where
  "papOrCHAPPresent q \<longleftrightarrow> length (AllOf (reqAttrs q) 2) > 0 \<or> length (AllOf (reqAttrs q) 3) > 0"

definition singleUserName :: "RawSet \<Rightarrow> string + string option" where
  "singleUserName attrs =
     (case AllOf attrs 1 of
        [] \<Rightarrow> Inr None
      | [a] \<Rightarrow> if length (raw_Value a) = 0 then Inl ReasonMissingUsername else Inr (Some (string_of_bytes (raw_Value a)))
      | _ \<Rightarrow> Inl ReasonMissingUsername)"

definition sameRADIUSUser :: "credLib \<Rightarrow> string \<Rightarrow> string \<Rightarrow> bool" where
  "sameRADIUSUser lib a b =
     (case (CanonicalUsername lib a, CanonicalUsername lib b) of (Inr ca, Inr cb) \<Rightarrow> ca = cb | _ \<Rightarrow> False)"

definition eapConversationAllowed :: "string list \<Rightarrow> bool" where
  "eapConversationAllowed methods \<longleftrightarrow> srv_methodAllowed methods ''eap'' \<or> srv_methodAllowed methods ''peap''"

text \<open>Drawing the State, storing the challenge and answering with it: what the issuers have in common.\<close>

definition issueIdentityChallenge :: "('re, 'tls) accessEnv \<Rightarrow> RadiusRequest \<Rightarrow> byte \<Rightarrow> 'tls AccessState \<Rightarrow> 'tls AccessState \<times> RadiusResult" where
  "issueIdentityChallenge e q peerID a =
     (case readRand eapStateLen a of
        (a, None) \<Rightarrow> (a, eapReject q ReasonInternal peerID)
      | (a, Some state) \<Rightarrow>
          (case IssueChallenge (en_now (ae_call e)) q
                  (zeroIssue\<lparr>ci_State := state, ci_Method := ''eap'', ci_EAPID := peerID + 1, ci_EAPType := 1, ci_Step := ''identity'',
                     ci_EndpointID := rq_EndpointID q, ci_ClientID := rq_ClientID q\<rparr>) a of
             (a, reason) \<Rightarrow> if reason \<noteq> '''' then (a, eapReject q reason peerID)
                             else (a, eapChallenge q state (eapRequestIdentity (peerID + 1)))))"

definition issueMD5Challenge ::
  "('re, 'tls) accessEnv \<Rightarrow> RadiusRequest \<Rightarrow> string \<Rightarrow> byte \<Rightarrow> 'tls AccessState \<Rightarrow> 'tls AccessState \<times> RadiusResult" where
  "issueMD5Challenge e q user peerID a =
     (case readRand eapStateLen a of
        (a, None) \<Rightarrow> (a, eapReject q ReasonInternal peerID)
      | (a, Some state) \<Rightarrow>
          (case readRand 16 a of
             (a, None) \<Rightarrow> (a, eapReject q ReasonInternal peerID)
           | (a, Some chal) \<Rightarrow>
               (case IssueChallenge (en_now (ae_call e)) q
                       (zeroIssue\<lparr>ci_State := state, ci_UserID := user, ci_Method := ''eap'', ci_EAPID := peerID + 1, ci_EAPType := 4,
                          ci_Step := ''md5_challenge'', ci_MD5Challenge := chal, ci_EndpointID := rq_EndpointID q, ci_ClientID := rq_ClientID q\<rparr>) a of
                  (a, reason) \<Rightarrow> if reason \<noteq> '''' then (a, eapReject q reason peerID)
                                  else (a, eapChallenge q state (eapRequestMD5 (peerID + 1) chal)))))"

definition EncodeHexString :: "bytes \<Rightarrow> string" where
  "EncodeHexString b = concat (map (\<lambda>x. [hexDigit (unat x div 16), hexDigit (unat x mod 16)]) b)"

definition tunnelIDFromState :: "bytes \<Rightarrow> string" where
  "tunnelIDFromState state = EncodeHexString state"

definition issuePEAPStart ::
  "('re, 'tls) accessEnv \<Rightarrow> RadiusRequest \<Rightarrow> string \<Rightarrow> byte \<Rightarrow> 'tls AccessState \<Rightarrow> 'tls AccessState \<times> RadiusResult" where
  "issuePEAPStart e q user peerID a =
     (case (ax_tunnels a, NewTunnel (ae_tls e)) of
        (Some reg, Some tun) \<Rightarrow>
          if \<not> ax_peap a then (a, eapReject q ReasonInternal peerID)
          else
            (case readRand eapStateLen a of
               (a, None) \<Rightarrow> (a, eapReject q ReasonInternal peerID)
             | (a, Some state) \<Rightarrow>
                 let tid = tunnelIDFromState state
                 in case registry_Put tid tun (en_now (ae_call e)) reg of
                      (reg, False) \<Rightarrow> (a\<lparr>ax_tunnels := Some reg\<rparr>, eapReject q ReasonChallengeCapacity peerID)
                    | (reg, True) \<Rightarrow>
                        (case IssueChallenge (en_now (ae_call e)) q
                                (zeroIssue\<lparr>ci_State := state, ci_UserID := user, ci_Method := ''peap'', ci_EAPID := peerID + 1, ci_EAPType := 25,
                                   ci_Step := ''peap_start'', ci_TunnelID := tid, ci_EndpointID := rq_EndpointID q, ci_ClientID := rq_ClientID q\<rparr>)
                                (a\<lparr>ax_tunnels := Some reg\<rparr>) of
                           (a, reason) \<Rightarrow>
                             if reason \<noteq> '''' then (a\<lparr>ax_tunnels := Some (registry_Delete tid reg)\<rparr>, eapReject q reason peerID)
                             else (a, eapChallenge q state (eapRequestPEAPStart (peerID + 1)))))
      | _ \<Rightarrow> (a, eapReject q ReasonInternal peerID))"

definition startFromIdentity ::
  "('re, 'tls) accessEnv \<Rightarrow> RadiusRequest \<Rightarrow> eapPacket \<Rightarrow> 'tls AccessState \<Rightarrow> 'tls AccessState \<times> RadiusResult" where
  "startFromIdentity e q pkt a =
     (let ident = string_of_bytes (ea_Data pkt)
      in case singleUserName (reqAttrs q) of
           Inl reason \<Rightarrow> (a, eapReject q reason (ea_Identifier pkt))
         | Inr name \<Rightarrow>
             if ident \<noteq> '''' \<and> (case name of None \<Rightarrow> False | Some n \<Rightarrow> \<not> sameRADIUSUser (en_lib (ae_call e)) ident n)
             then (a, eapReject q ReasonConflictingAuth (ea_Identifier pkt))
             else
               let user = (if ident = '''' then (case name of None \<Rightarrow> '''' | Some n \<Rightarrow> n) else ident)
               in if user = '''' then issueIdentityChallenge e q (ea_Identifier pkt) a
                  else if srv_methodAllowed (rq_AllowedMethods q) ''peap'' then issuePEAPStart e q user (ea_Identifier pkt) a
                  else issueMD5Challenge e q user (ea_Identifier pkt) a)"

definition handleEAPStart :: "('re, 'tls) accessEnv \<Rightarrow> RadiusRequest \<Rightarrow> 'tls AccessState \<Rightarrow> 'tls AccessState \<times> RadiusResult" where
  "handleEAPStart e q a =
     (if papOrCHAPPresent q \<or> ms_present (collectMSCHAP (reqAttrs q)) then (a, eapReject q ReasonConflictingAuth 0)
      else if length (rq_AllowedMethods q) = 0 \<or> \<not> eapConversationAllowed (rq_AllowedMethods q)
      then (a, replyAccess q CodeAccessReject ReasonUnsupportedMethod [])
      else case concatEAPMessage (reqAttrs q) of
        Inl reason \<Rightarrow> (a, eapReject q reason 0)
      | Inr raw \<Rightarrow>
          (case parseEAP raw of
             None \<Rightarrow> (a, eapReject q ReasonUnsupportedEAPMethod 0)
           | Some pkt \<Rightarrow>
               if ea_Code pkt \<noteq> 2 then (a, eapReject q ReasonUnsupportedEAPMethod (ea_Identifier pkt))
               else if ea_Type pkt = 1 then startFromIdentity e q pkt a
               else if ea_Type pkt = 4 then (a, eapReject q ReasonInvalidState (ea_Identifier pkt))
               else (a, eapReject q ReasonUnsupportedEAPMethod (ea_Identifier pkt))))"

subsection \<open>EAP-MD5\<close>

definition verifyMD5 :: "('re, 'tls) accessEnv \<Rightarrow> RadiusRequest \<Rightarrow> ChallengeRecord \<Rightarrow> eapPacket \<Rightarrow> RadiusResult" where
  "verifyMD5 e q rc pkt =
     (case parseMD5Response (ea_Data pkt) of
        None \<Rightarrow> eapReject q ReasonBadCredentials (ea_Identifier pkt)
      | Some hash \<Rightarrow>
          (case ae_svc e of
             None \<Rightarrow> eapReject q ReasonInternal (ea_Identifier pkt)
           | Some s \<Rightarrow>
               (case (if cr_UserID rc = '''' then singleUserName (reqAttrs q) else Inr (Some (cr_UserID rc))) of
                  Inl reason \<Rightarrow> eapReject q reason (ea_Identifier pkt)
                | Inr name \<Rightarrow>
                    let user = (case name of None \<Rightarrow> '''' | Some n \<Rightarrow> n)
                    in case AuthenticateAccess (ae_call e) s
                              (accessAttempt e q '''' user (evidence ''eap'' (ea_Identifier pkt) (cr_MD5Challenge rc) hash)) of
                         (dec, Some _) \<Rightarrow> if ctxDone e then discard ''drop_overload'' else eapReject q ReasonInternal (ea_Identifier pkt)
                       | (dec, None) \<Rightarrow>
                           if dec_Outcome dec = RadiusAccessAccept
                           then replyAccess q CodeAccessAccept ReasonOK (eapMessageAttrs (eapSuccess (ea_Identifier pkt)) @ dec_ReplyAttributes dec)
                           else eapReject q (wireAccessReason (dec_ReasonCode dec)) (ea_Identifier pkt))))"

subsection \<open>PEAP\<close>

definition setTunnel :: "string \<Rightarrow> 'tls Tunnel \<Rightarrow> 'tls AccessState \<Rightarrow> 'tls AccessState" where
  "setTunnel tid tun a = a\<lparr>ax_tunnels := map_option (registry_store tid tun) (ax_tunnels a)\<rparr>"

definition issuePEAPContinue ::
  "('re, 'tls) accessEnv \<Rightarrow> RadiusRequest \<Rightarrow> ChallengeRecord \<Rightarrow> bytes \<Rightarrow> string \<Rightarrow> 'tls AccessState \<Rightarrow> 'tls AccessState \<times> RadiusResult" where
  "issuePEAPContinue e q rc body step a =
     (case readRand eapStateLen a of
        (a, None) \<Rightarrow> (a, eapReject q ReasonInternal (cr_EAPID rc))
      | (a, Some state) \<Rightarrow>
          (case IssueChallenge (en_now (ae_call e)) q
                  (zeroIssue\<lparr>ci_State := state, ci_UserID := cr_UserID rc, ci_Method := ''peap'', ci_EAPID := cr_EAPID rc + 1, ci_EAPType := 25,
                     ci_Step := step, ci_ReplyAttributes := cr_ReplyAttributes rc, ci_MD5Challenge := cr_MD5Challenge rc,
                     ci_TunnelID := cr_TunnelID rc, ci_EndpointID := rq_EndpointID q, ci_ClientID := rq_ClientID q\<rparr>) a of
             (a, reason) \<Rightarrow>
               if reason \<noteq> '''' then (a, eapReject q reason (cr_EAPID rc))
               else (a, eapChallenge q state (eapRequest (cr_EAPID rc + 1) 25 (if length body = 0 then peap_Encode zeroPayload else body)))))"

definition firstMS2Success :: "VendorTLV list \<Rightarrow> bytes option" where
  "firstMS2Success tlvs = map_option (\<lambda>t. drop 1 (tlv_Value t)) (find (\<lambda>t. tlv_Type t = 26 \<and> length (tlv_Value t) > 1) tlvs)"

fun successLoop :: "RawSet \<Rightarrow> bytes option" where
  "successLoop [] = None"
| "successLoop (raw # rest) =
     (case ParseVSA raw of
        Inl _ \<Rightarrow> successLoop rest
      | Inr vsa \<Rightarrow>
          if vsa_Vendor vsa \<noteq> VendorMicrosoft then successLoop rest
          else (case ParseVendorTLVs (vsa_Payload vsa) of
                  Inl _ \<Rightarrow> successLoop rest
                | Inr tlvs \<Rightarrow> (case firstMS2Success tlvs of Some m \<Rightarrow> Some m | None \<Rightarrow> successLoop rest)))"

definition microsoftSuccessMessage :: "RawSet \<Rightarrow> bytes option" where
  "microsoftSuccessMessage attrs = successLoop (AllOf attrs TypeVendorSpecific)"

text \<open>Writes whose error the code ignores leave the connection as it was when they fail.\<close>

definition tryWrite :: "'tls tlsEngine \<Rightarrow> bytes \<Rightarrow> 'tls Tunnel \<Rightarrow> 'tls Tunnel" where
  "tryWrite te p t = (case WriteApp te p t of None \<Rightarrow> t | Some t' \<Rightarrow> t')"

definition sendFlight ::
  "('re, 'tls) accessEnv \<Rightarrow> RadiusRequest \<Rightarrow> ChallengeRecord \<Rightarrow> string \<Rightarrow> bytes \<Rightarrow> 'tls Tunnel \<Rightarrow> 'tls AccessState \<Rightarrow> 'tls AccessState \<times> RadiusResult" where
  "sendFlight e q rc step recs tun a =
     (case QueueFlight recs tun of (tun, body) \<Rightarrow> issuePEAPContinue e q rc body step (setTunnel (cr_TunnelID rc) tun a))"


definition innerIdentity ::
  "('re, 'tls) accessEnv \<Rightarrow> RadiusRequest \<Rightarrow> ChallengeRecord \<Rightarrow> 'tls Tunnel \<Rightarrow> InnerPacket \<Rightarrow> 'tls AccessState \<Rightarrow> 'tls AccessState \<times> RadiusResult" where
  "innerIdentity e q rc tun pkt a =
     (if ip_Code pkt \<noteq> 2 \<or> ip_Type pkt \<noteq> 1 then (a, eapReject q ReasonUnsupportedEAPMethod (ip_Identifier pkt))
      else
        let ident = string_of_bytes (ip_Data pkt);
            user = (if ident \<noteq> '''' then ident else cr_UserID rc);
            msID = ip_Identifier pkt + 1
        in case readRand 16 a of
             (a, None) \<Rightarrow> (a, eapReject q ReasonInternal (ip_Identifier pkt))
           | (a, Some chal) \<Rightarrow>
               (case WriteApp (ae_tls e) (EncodeMSCHAPChallenge msID msID chal ''taclab'') tun of
                  None \<Rightarrow> (a, eapReject q ReasonInternal (ip_Identifier pkt))
                | Some tun \<Rightarrow>
                    (case PullServer (ae_tls e) tun of
                       (tun, recs) \<Rightarrow>
                         sendFlight e q (rc\<lparr>cr_UserID := user, cr_MD5Challenge := chal, cr_EAPID := msID\<rparr>) ''peap_mschap'' recs tun a)))"

text \<open>The decision was an accept: the peer is told in the tunnel and the attributes are kept for the last message.\<close>

definition innerAccepted ::
  "('re, 'tls) accessEnv \<Rightarrow> RadiusRequest \<Rightarrow> ChallengeRecord \<Rightarrow> 'tls Tunnel \<Rightarrow> byte \<Rightarrow> byte \<Rightarrow> string \<Rightarrow> RadiusAccessDecision \<Rightarrow>
   'tls AccessState \<Rightarrow> 'tls AccessState \<times> RadiusResult" where
  "innerAccepted e q rc tun ident msID user dec a =
     (let tun = (case microsoftSuccessMessage (dec_ReplyAttributes dec) of
                   None \<Rightarrow> tun
                 | Some msg \<Rightarrow> tryWrite (ae_tls e) (EncodeMSCHAPSuccess (ident + 1) msID msg) tun)
      in case WriteApp (ae_tls e) (InnerSuccess (ident + 1)) tun of
           None \<Rightarrow> (setTunnel (cr_TunnelID rc) tun a, eapReject q ReasonInternal ident)
         | Some tun \<Rightarrow>
             (case PullServer (ae_tls e) tun of
                (tun, recs) \<Rightarrow>
                  sendFlight e q (rc\<lparr>cr_UserID := user, cr_ReplyAttributes := policySafeAttrs (dec_ReplyAttributes dec)\<rparr>)
                    ''peap_finish'' recs tun a))"

definition innerMSCHAP ::
  "('re, 'tls) accessEnv \<Rightarrow> RadiusRequest \<Rightarrow> ChallengeRecord \<Rightarrow> 'tls Tunnel \<Rightarrow> InnerPacket \<Rightarrow> 'tls AccessState \<Rightarrow> 'tls AccessState \<times> RadiusResult" where
  "innerMSCHAP e q rc tun pkt a =
     (case ParseMSCHAPResponse pkt of
        None \<Rightarrow> (a, eapReject q ReasonBadCredentials (ip_Identifier pkt))
      | Some (msID, resp, name) \<Rightarrow>
          let user = (if name \<noteq> '''' then name else cr_UserID rc)
          in case ae_svc e of
               None \<Rightarrow> (a, eapReject q ReasonInternal (ip_Identifier pkt))
             | Some s \<Rightarrow>
                 (case AuthenticateAccess (ae_call e) s (accessAttempt e q ''eap'' user (evidence ''mschapv2'' msID (cr_MD5Challenge rc) resp)) of
                    (dec, Some _) \<Rightarrow> (a, if ctxDone e then discard ''drop_overload'' else eapReject q ReasonInternal (ip_Identifier pkt))
                  | (dec, None) \<Rightarrow>
                      if dec_Outcome dec \<noteq> RadiusAccessAccept
                      then (setTunnel (cr_TunnelID rc) (tryWrite (ae_tls e) (InnerFailure (ip_Identifier pkt)) tun) a,
                            eapReject q (wireAccessReason (dec_ReasonCode dec)) (ip_Identifier pkt))
                      else innerAccepted e q rc tun (ip_Identifier pkt) msID user dec a))"

definition handlePEAPInner ::
  "('re, 'tls) accessEnv \<Rightarrow> RadiusRequest \<Rightarrow> ChallengeRecord \<Rightarrow> 'tls Tunnel \<Rightarrow> bytes \<Rightarrow> 'tls AccessState \<Rightarrow> 'tls AccessState \<times> RadiusResult" where
  "handlePEAPInner e q rc tun inner a =
     (case DecodeInner inner of
        None \<Rightarrow> (a, eapReject q ReasonUnsupportedEAPMethod (cr_EAPID rc))
      | Some pkt \<Rightarrow>
          if cr_Step rc = ''peap_inner'' \<or> cr_Step rc = ''peap_handshake'' then innerIdentity e q rc tun pkt a
          else if cr_Step rc = ''peap_mschap'' then innerMSCHAP e q rc tun pkt a
          else (a, eapReject q ReasonInvalidState (ip_Identifier pkt)))"

text \<open>The handshake is not complete when a flight arrives.\<close>

definition peapHandshake ::
  "('re, 'tls) accessEnv \<Rightarrow> RadiusRequest \<Rightarrow> ChallengeRecord \<Rightarrow> eapPacket \<Rightarrow> 'tls Tunnel \<Rightarrow> bytes \<Rightarrow> 'tls AccessState \<Rightarrow> 'tls AccessState \<times> RadiusResult" where
  "peapHandshake e q rc pkt tun complete a =
     (case PushClient (ae_tls e) complete tun of
        None \<Rightarrow> (a, eapReject q ReasonUnsupportedEAPMethod (ea_Identifier pkt))
      | Some tun \<Rightarrow>
          (case PullServer (ae_tls e) (WaitProgress (ae_tls e) tun) of
             (tun, recs) \<Rightarrow>
               let a = setTunnel (cr_TunnelID rc) tun a
               in if te_done (ae_tls e) (tn_conn tun) then
                    (case WriteApp (ae_tls e) (IdentityRequest (ea_Identifier pkt + 1)) tun of
                       None \<Rightarrow> (a, eapReject q ReasonInternal (ea_Identifier pkt))
                     | Some tun \<Rightarrow>
                         (case PullServer (ae_tls e) tun of (tun, recs2) \<Rightarrow> sendFlight e q rc ''peap_inner'' (recs @ recs2) tun a))
                  else if te_failed (ae_tls e) (tn_conn tun) \<and> length recs = 0
                  then (a, eapReject q ReasonUnsupportedEAPMethod (ea_Identifier pkt))
                  else sendFlight e q rc ''peap_handshake'' recs tun a))"

text \<open>A whole flight has arrived.\<close>

definition peapComplete ::
  "('re, 'tls) accessEnv \<Rightarrow> RadiusRequest \<Rightarrow> ChallengeRecord \<Rightarrow> eapPacket \<Rightarrow> 'tls Tunnel \<Rightarrow> bytes \<Rightarrow> 'tls AccessState \<Rightarrow> 'tls AccessState \<times> RadiusResult" where
  "peapComplete e q rc pkt tun complete a =
     (if \<not> te_done (ae_tls e) (tn_conn tun) then peapHandshake e q rc pkt tun complete a
      else if cr_Step rc = ''peap_finish'' then
        (a\<lparr>ax_tunnels := map_option (registry_Delete (cr_TunnelID rc)) (ax_tunnels a)\<rparr>,
         replyAccess q CodeAccessAccept ReasonOK (cr_ReplyAttributes rc @ eapMessageAttrs (eapSuccess (ea_Identifier pkt))))
      else case PushClient (ae_tls e) complete tun of
        None \<Rightarrow> (a, eapReject q ReasonUnsupportedEAPMethod (ea_Identifier pkt))
      | Some tun \<Rightarrow>
          (case ReadApp (ae_tls e) tun of
             (tun, None) \<Rightarrow> (setTunnel (cr_TunnelID rc) tun a, eapReject q ReasonUnsupportedEAPMethod (ea_Identifier pkt))
           | (tun, Some inner) \<Rightarrow> handlePEAPInner e q rc tun inner (setTunnel (cr_TunnelID rc) tun a)))"

text \<open>A body has been parsed: the next queued fragment goes out if the peer acknowledged, otherwise the body is buffered.\<close>

definition peapBody ::
  "('re, 'tls) accessEnv \<Rightarrow> RadiusRequest \<Rightarrow> ChallengeRecord \<Rightarrow> eapPacket \<Rightarrow> 'tls Tunnel \<Rightarrow> Payload \<Rightarrow> 'tls AccessState \<Rightarrow> 'tls AccessState \<times> RadiusResult" where
  "peapBody e q rc pkt tun body a =
     (case NextFragment tun of
        (tun, next) \<Rightarrow>
          if next \<noteq> None \<and> length (pl_TLSData body) = 0
          then issuePEAPContinue e q rc (the next) (cr_Step rc) (setTunnel (cr_TunnelID rc) tun a)
          else
            (case BufferFragment body tun of
               (tun, complete) \<Rightarrow>
                 let a = setTunnel (cr_TunnelID rc) tun a
                 in if tn_fragErr tun then (a, eapReject q ReasonEAPTooLong (ea_Identifier pkt))
                    else case complete of
                      None \<Rightarrow> issuePEAPContinue e q rc (peap_Encode zeroPayload) (cr_Step rc) a
                    | Some complete \<Rightarrow> peapComplete e q rc pkt tun complete a))"

definition handlePEAP ::
  "('re, 'tls) accessEnv \<Rightarrow> RadiusRequest \<Rightarrow> ChallengeRecord \<Rightarrow> eapPacket \<Rightarrow> 'tls AccessState \<Rightarrow> 'tls AccessState \<times> RadiusResult" where
  "handlePEAP e q rc pkt a =
     (if ea_Identifier pkt \<noteq> cr_EAPID rc then (a, eapReject q ReasonInvalidState (ea_Identifier pkt))
      else if ea_Type pkt \<noteq> 25 then (a, eapReject q ReasonUnsupportedEAPMethod (ea_Identifier pkt))
      else if \<not> srv_methodAllowed (rq_AllowedMethods q) ''peap'' then (a, eapReject q ReasonUnsupportedEAPMethod (ea_Identifier pkt))
      else case ax_tunnels a of
        None \<Rightarrow> (a, eapReject q ReasonInternal (ea_Identifier pkt))
      | Some reg \<Rightarrow>
          if \<not> ax_peap a then (a, eapReject q ReasonInternal (ea_Identifier pkt))
          else
            (case registry_Get (cr_TunnelID rc) (en_now (ae_call e)) reg of
               (reg, None) \<Rightarrow> (a\<lparr>ax_tunnels := Some reg\<rparr>, eapReject q ReasonInvalidState (ea_Identifier pkt))
             | (reg, Some tun) \<Rightarrow>
                 (case peap_Parse (ea_Data pkt) of
                    None \<Rightarrow> (a\<lparr>ax_tunnels := Some reg\<rparr>, eapReject q ReasonUnsupportedEAPMethod (ea_Identifier pkt))
                  | Some body \<Rightarrow> peapBody e q rc pkt tun body (a\<lparr>ax_tunnels := Some reg\<rparr>))))"

definition peapSteps :: "string list" where
  "peapSteps = [''peap_start'', ''peap_handshake'', ''peap_inner'', ''peap_mschap'', ''peap_finish'']"

definition handleEAPContinuation ::
  "('re, 'tls) accessEnv \<Rightarrow> RadiusRequest \<Rightarrow> ChallengeRecord \<Rightarrow> 'tls AccessState \<Rightarrow> 'tls AccessState \<times> RadiusResult" where
  "handleEAPContinuation e q rc a =
     (if papOrCHAPPresent q then (a, eapReject q ReasonConflictingAuth (cr_EAPID rc))
      else case concatEAPMessage (reqAttrs q) of
        Inl reason \<Rightarrow> (a, eapReject q reason (cr_EAPID rc))
      | Inr raw \<Rightarrow>
          if length raw = 0 then (a, replyAccess q CodeAccessReject ReasonUnsupportedMethod [])
          else case parseEAP raw of
            None \<Rightarrow> (a, eapReject q ReasonUnsupportedEAPMethod (cr_EAPID rc))
          | Some pkt \<Rightarrow>
              if ea_Code pkt \<noteq> 2 then (a, eapReject q ReasonUnsupportedEAPMethod (ea_Identifier pkt))
              else if cr_Step rc = ''identity'' then
                (if ea_Type pkt = 1 then startFromIdentity e q pkt a else (a, eapReject q ReasonUnsupportedEAPMethod (ea_Identifier pkt)))
              else if cr_Step rc \<in> set peapSteps then handlePEAP e q rc pkt a
              else if cr_Step rc = ''md5_challenge'' then
                (if ea_Type pkt \<noteq> 4 then (a, eapReject q ReasonUnsupportedEAPMethod (ea_Identifier pkt))
                 else if ea_Identifier pkt \<noteq> cr_EAPID rc then (a, eapReject q ReasonInvalidState (ea_Identifier pkt))
                 else (a, verifyMD5 e q rc pkt))
              else (a, eapReject q ReasonInvalidState (ea_Identifier pkt)))"

subsection \<open>The handler\<close>

definition handleContinuation ::
  "('re, 'tls) accessEnv \<Rightarrow> RadiusRequest \<Rightarrow> ChallengeRecord \<Rightarrow> 'tls AccessState \<Rightarrow> 'tls AccessState \<times> RadiusResult" where
  "handleContinuation e q rc a =
     (case handleEAPContinuation e q rc a of
        (a, res) \<Rightarrow>
          if cr_Method rc = ''peap'' \<and> rr_Reason res \<noteq> ReasonChallenge
          then (a\<lparr>ax_tunnels := map_option (registry_Delete (cr_TunnelID rc)) (ax_tunnels a)\<rparr>, res) else (a, res))"

definition Access_Handle :: "('re, 'tls) accessEnv \<Rightarrow> RadiusRequest \<Rightarrow> 'tls AccessState \<Rightarrow> 'tls AccessState \<times> RadiusResult" where
  "Access_Handle e q a =
     (if ctxDone e then (a, discard ''drop_overload'')
      else if rq_Role q = RoleAccounting then (a, Stub_Handle (ctxDone e) q)
      else if rq_Role q \<noteq> RoleAccess \<or> pk_Code (rq_Packet q) \<noteq> CodeAccessRequest then (a, discard ''discard_invalid_code'')
      else if CheckIntegrity q \<noteq> '''' then (a, discard (CheckIntegrity q))
      else case extractState (reqAttrs q) of
        Some (Inl reason) \<Rightarrow> (a, replyAccess q CodeAccessReject reason [])
      | Some (Inr state) \<Rightarrow>
          (case consumeContinuation (en_now (ae_call e)) q state a of
             (a, Inl reason) \<Rightarrow> (a, replyAccess q CodeAccessReject reason [])
           | (a, Inr rc) \<Rightarrow> handleContinuation e q rc a)
      | None \<Rightarrow>
          if length (AllOf (reqAttrs q) TypeEAPMessage) > 0 then handleEAPStart e q a
          else (a, handleEvidence e q))"

end
