(* ===== verification/Radius_Access_Props.thy ===== *)
theory Radius_Access_Props
  imports Radius_Access Aaa_Authen_Props
begin

text \<open>
  What an Access-Accept means: every path of the handler that sends one has passed the integrity check, verified
  credentials in the admission snapshot and found a permitting policy. For PEAP the accept is sent a message
  later than the decision; the invariant of the challenge store carries it there.
\<close>

subsection \<open>Accepting replies\<close>

definition isAccept :: "RadiusResult \<Rightarrow> bool" where
  "isAccept res \<longleftrightarrow> rr_Action res = ActionReply \<and> rr_Response res \<noteq> [] \<and> hd (rr_Response res) = CodeAccessAccept"

lemma SignResponse_code: "SignResponse secret code i auth rest = Inr wire \<Longrightarrow> length auth = 16 \<Longrightarrow> wire \<noteq> [] \<and> hd wire = code"
  by (auto simp: SignResponse_Inr sentReply_def wirePacket_def)

lemma isAccept_sign:
  "isAccept (signAccess q code reason policy) \<Longrightarrow> length (pk_Authenticator (rq_Packet q)) = 16 \<Longrightarrow> code = CodeAccessAccept"
  by (auto simp: isAccept_def signAccess_def discard_def ReplyAccess_def Let_def dest: SignResponse_code split: sum.splits if_splits)

lemma isAccept_reply:
  "isAccept (replyAccess q code reason policy) \<Longrightarrow> length (pk_Authenticator (rq_Packet q)) = 16 \<Longrightarrow>
     code = CodeAccessAccept \<and> replyAttrsLegal CodeAccessAccept policy"
  by (auto simp: replyAccess_def replyAttrsLegal_def dest!: isAccept_sign split: if_splits)

lemma isAccept_discard [simp]: "\<not> isAccept (discard reason)"
  by (simp add: isAccept_def discard_def)


lemma isAccept_reject: "length (pk_Authenticator (rq_Packet q)) = 16 \<Longrightarrow> \<not> isAccept (eapReject q reason i)"
  by (auto simp: eapReject_def dest: isAccept_reply)

lemma isAccept_challenge: "length (pk_Authenticator (rq_Packet q)) = 16 \<Longrightarrow> \<not> isAccept (eapChallenge q st pkt)"
  by (auto simp: eapChallenge_def dest: isAccept_reply)

lemma isAccept_replyReject: "length (pk_Authenticator (rq_Packet q)) = 16 \<Longrightarrow> \<not> isAccept (replyAccess q CodeAccessReject reason attrs)"
  by (auto dest: isAccept_reply)

lemmas not_accept = isAccept_reject isAccept_challenge isAccept_replyReject

subsection \<open>What the decision rests on\<close>

text \<open>
  The credentials of \<open>user\<close> were verified with the evidence in the admission snapshot of the request, need no change, and its policy
  permits; \<open>pm\<close> is the method the policy sees, empty for the method of the evidence.
\<close>

definition permittedAs :: "('re, 'tls) accessEnv \<Rightarrow> RadiusRequest \<Rightarrow> string \<Rightarrow> string \<Rightarrow> CredentialEvidence \<Rightarrow> bool" where
  "permittedAs e q pm user ev \<longleftrightarrow>
     (\<exists>s snap. ae_svc e = Some s \<and> admissionSnapshot s (accessAttempt e q pm user ev) = Some snap \<and>
        (let canon = canonUser (en_lib (ae_call e)) user
         in verifyAgainst (ae_call e) s snap canon (rq_ClientID q) ev = AuthPass \<and> \<not> userMustChangeLogin snap canon \<and>
            ares_Effect (rad_Evaluate (sn_radiusPolicies snap)
              \<lparr>par_UserID = canon, par_ClientID = rq_ClientID q, par_EndpointID = rq_EndpointID q,
               par_Method = (if AuthMethod_Valid pm then pm else ce_Method ev), par_Groups = effectiveRADIUSGroups snap canon (rq_ClientID q),
               par_Attributes = policyRequestAttrs (policySafeAttrs (reqAttrs q))\<rparr>) = EffectPermit))"

lemma mapPolicyResult_accept: "dec_Outcome (mapPolicyResult user res) = RadiusAccessAccept \<Longrightarrow> ares_Effect res = EffectPermit"
  by (auto simp: mapPolicyResult_def rejectAccess_def Let_def split: if_splits sum.splits)

lemma evaluateAccess_accept:
  "dec_Outcome (evaluateAccess (Some snap) user client ep m attrs) = RadiusAccessAccept \<Longrightarrow>
     ares_Effect (rad_Evaluate (sn_radiusPolicies snap)
       \<lparr>par_UserID = user, par_ClientID = client, par_EndpointID = ep, par_Method = m,
        par_Groups = effectiveRADIUSGroups snap user client, par_Attributes = attrs\<rparr>) = EffectPermit"
  by (auto simp: evaluateAccess_def dest: mapPolicyResult_accept)

lemma AuthenticateAccess_accept:
  assumes "AuthenticateAccess (ae_call e) s (accessAttempt e q pm user ev) = (dec, None)" and "dec_Outcome dec = RadiusAccessAccept"
    and "ae_svc e = Some s"
  shows "permittedAs e q pm user ev"
proof -
  let ?att = "accessAttempt e q pm user ev" and ?canon = "canonUser (en_lib (ae_call e)) user"
  obtain snap where snap: "admissionSnapshot s ?att = Some snap"
    and pass: "verifyAgainst (ae_call e) s snap ?canon (rq_ClientID q) ev = AuthPass" "\<not> userMustChangeLogin snap ?canon"
    and dec: "dec_Outcome (evaluateAccess (Some snap) ?canon (rq_ClientID q) (rq_EndpointID q) (if AuthMethod_Valid pm then pm else ce_Method ev)
        (policyRequestAttrs (policySafeAttrs (reqAttrs q)))) = RadiusAccessAccept"
    using assms(1,2)
    by (auto simp: AuthenticateAccess_def accessAttempt_def rejectAccess_def Let_def split: if_splits option.splits)
  with evaluateAccess_accept [OF dec] assms(3) show ?thesis
    unfolding permittedAs_def Let_def by blast
qed

lemma handleEvidence_accept:
  assumes "isAccept (handleEvidence e q)" and "length (pk_Authenticator (rq_Packet q)) = 16"
  shows "\<exists>user ev. extractAccessEvidence q = Inr (user, ev) \<and> permittedAs e q '''' user ev"
proof -
  from assms obtain user ev s dec where "extractAccessEvidence q = Inr (user, ev)" "ae_svc e = Some s"
    "AuthenticateAccess (ae_call e) s (accessAttempt e q '''' user ev) = (dec, None)" "dec_Outcome dec = RadiusAccessAccept"
    by (auto simp: handleEvidence_def not_accept split: sum.splits option.splits prod.splits if_splits)
  then show ?thesis using AuthenticateAccess_accept by blast
qed

text \<open>
  The EAP-MD5 response of the request to the challenge of the record: the EAP packet of the request has the type and the
  identifier of the challenge, and its hash is what was verified, for the user of the record or, if that has none, the
  User-Name of the request.
\<close>

definition md5Granted :: "('re, 'tls) accessEnv \<Rightarrow> RadiusRequest \<Rightarrow> ChallengeRecord \<Rightarrow> bool" where
  "md5Granted e q rc \<longleftrightarrow> cr_Step rc = ''md5_challenge'' \<and>
     (\<exists>raw pkt hash name. concatEAPMessage (reqAttrs q) = Inr raw \<and> parseEAP raw = Some pkt \<and> ea_Code pkt = 2 \<and> ea_Type pkt = 4 \<and>
        ea_Identifier pkt = cr_EAPID rc \<and> parseMD5Response (ea_Data pkt) = Some hash \<and>
        (if cr_UserID rc = '''' then singleUserName (reqAttrs q) else Inr (Some (cr_UserID rc))) = Inr name \<and>
        permittedAs e q '''' (case name of None \<Rightarrow> '''' | Some n \<Rightarrow> n) (evidence ''eap'' (ea_Identifier pkt) (cr_MD5Challenge rc) hash))"

lemma verifyMD5_accept:
  assumes "isAccept (verifyMD5 e q rc pkt)" and "length (pk_Authenticator (rq_Packet q)) = 16"
  shows "\<exists>hash name. parseMD5Response (ea_Data pkt) = Some hash \<and>
    (if cr_UserID rc = '''' then singleUserName (reqAttrs q) else Inr (Some (cr_UserID rc))) = Inr name \<and>
    permittedAs e q '''' (case name of None \<Rightarrow> '''' | Some n \<Rightarrow> n) (evidence ''eap'' (ea_Identifier pkt) (cr_MD5Challenge rc) hash)"
proof -
  from assms obtain hash s name dec where hash: "parseMD5Response (ea_Data pkt) = Some hash" and svc: "ae_svc e = Some s"
    and name: "(if cr_UserID rc = '''' then singleUserName (reqAttrs q) else Inr (Some (cr_UserID rc))) = Inr name"
    and dec: "AuthenticateAccess (ae_call e) s (accessAttempt e q '''' (case name of None \<Rightarrow> '''' | Some n \<Rightarrow> n)
        (evidence ''eap'' (ea_Identifier pkt) (cr_MD5Challenge rc) hash)) = (dec, None)" "dec_Outcome dec = RadiusAccessAccept"
    unfolding verifyMD5_def Let_def by (auto simp: not_accept split: sum.splits option.splits prod.splits if_splits)
  from AuthenticateAccess_accept [OF dec svc] hash name show ?thesis by blast
qed

subsection \<open>No issuer accepts\<close>

lemma issuePEAPContinue_accept: "length (pk_Authenticator (rq_Packet q)) = 16 \<Longrightarrow> \<not> isAccept (snd (issuePEAPContinue e q rc body step a))"
  by (simp add: issuePEAPContinue_def not_accept split: prod.splits option.splits)

lemma sendFlight_accept: "length (pk_Authenticator (rq_Packet q)) = 16 \<Longrightarrow> \<not> isAccept (snd (sendFlight e q rc step recs tun a))"
  by (simp add: sendFlight_def issuePEAPContinue_accept split: prod.splits)

lemma issuers_accept:
  assumes "length (pk_Authenticator (rq_Packet q)) = 16"
  shows "\<not> isAccept (snd (issueIdentityChallenge e q i a))" "\<not> isAccept (snd (issueMD5Challenge e q user i a))"
    "\<not> isAccept (snd (issuePEAPStart e q user i a))"
  using assms
  by (simp_all add: issueIdentityChallenge_def issuePEAPStart_def issueMD5Challenge_def not_accept Let_def
      split: prod.split option.split bool.split)

lemma startFromIdentity_accept: "length (pk_Authenticator (rq_Packet q)) = 16 \<Longrightarrow> \<not> isAccept (snd (startFromIdentity e q pkt a))"
  by (simp add: startFromIdentity_def issuers_accept not_accept Let_def split: option.split sum.split)

lemma handleEAPStart_accept: "length (pk_Authenticator (rq_Packet q)) = 16 \<Longrightarrow> \<not> isAccept (snd (handleEAPStart e q a))"
  by (simp add: handleEAPStart_def startFromIdentity_accept not_accept split: option.splits sum.splits)

lemma innerIdentity_accept: "length (pk_Authenticator (rq_Packet q)) = 16 \<Longrightarrow> \<not> isAccept (snd (innerIdentity e q rc tun pkt a))"
  by (simp add: innerIdentity_def sendFlight_accept not_accept Let_def split: prod.split option.split)

lemma innerAccepted_accept: "length (pk_Authenticator (rq_Packet q)) = 16 \<Longrightarrow> \<not> isAccept (snd (innerAccepted e q rc tun i m user dec a))"
  by (simp add: innerAccepted_def sendFlight_accept not_accept Let_def split: prod.split option.split)

lemma innerMSCHAP_accept:
  assumes "length (pk_Authenticator (rq_Packet q)) = 16" shows "\<not> isAccept (snd (innerMSCHAP e q rc tun pkt a))"
proof (cases "ParseMSCHAPResponse pkt")
  case (Some x)
  obtain msID resp name where "x = (msID, resp, name)" by (cases x) auto
  with Some assms show ?thesis
    by (auto simp: innerMSCHAP_def innerAccepted_accept not_accept Let_def split: option.split prod.split)
qed (simp add: innerMSCHAP_def not_accept assms)

lemma handlePEAPInner_accept: "length (pk_Authenticator (rq_Packet q)) = 16 \<Longrightarrow> \<not> isAccept (snd (handlePEAPInner e q rc tun inner a))"
  by (simp add: handlePEAPInner_def innerIdentity_accept innerMSCHAP_accept not_accept split: option.split)

lemma peapHandshake_accept: "length (pk_Authenticator (rq_Packet q)) = 16 \<Longrightarrow> \<not> isAccept (snd (peapHandshake e q rc pkt tun c a))"
  by (simp add: peapHandshake_def sendFlight_accept not_accept Let_def split: prod.splits option.splits)

lemma peapComplete_accept:
  "isAccept (snd (peapComplete e q rc pkt tun c a)) \<Longrightarrow> length (pk_Authenticator (rq_Packet q)) = 16 \<Longrightarrow> cr_Step rc = ''peap_finish''"
  by (simp add: peapComplete_def peapHandshake_accept handlePEAPInner_accept not_accept split: prod.splits option.splits if_splits)

lemma peapBody_accept:
  "isAccept (snd (peapBody e q rc pkt tun body a)) \<Longrightarrow> length (pk_Authenticator (rq_Packet q)) = 16 \<Longrightarrow> cr_Step rc = ''peap_finish''"
  by (auto simp: peapBody_def issuePEAPContinue_accept not_accept Let_def intro: peapComplete_accept
      split: prod.splits option.splits if_splits)

lemma handlePEAP_accept:
  "isAccept (snd (handlePEAP e q rc pkt a)) \<Longrightarrow> length (pk_Authenticator (rq_Packet q)) = 16 \<Longrightarrow> cr_Step rc = ''peap_finish''"
  by (auto simp: handlePEAP_def not_accept intro: peapBody_accept split: prod.splits option.splits if_splits)

lemma handleContinuation_accept:
  assumes "isAccept (snd (handleContinuation e q rc a))" and "length (pk_Authenticator (rq_Packet q)) = 16"
  shows "cr_Step rc = ''peap_finish'' \<or> md5Granted e q rc"
proof -
  from assms(1) have acc: "isAccept (snd (handleEAPContinuation e q rc a))"
    by (auto simp: handleContinuation_def split: prod.splits if_splits)
  from acc assms(2) obtain raw pkt where raw: "concatEAPMessage (reqAttrs q) = Inr raw" "raw \<noteq> []" "parseEAP raw = Some pkt"
    and pkt: "\<not> papOrCHAPPresent q" "ea_Code pkt = 2"
    by (auto simp: handleEAPContinuation_def not_accept split: sum.splits option.splits if_splits)
  show ?thesis
  proof (cases "cr_Step rc \<in> set peapSteps")
    case True
    then have "cr_Step rc \<noteq> ''identity''" by (auto simp: peapSteps_def)
    with True acc raw pkt have "isAccept (snd (handlePEAP e q rc pkt a))" by (simp add: handleEAPContinuation_def)
    from handlePEAP_accept [OF this assms(2)] show ?thesis by simp
  next
    case False
    with acc raw pkt assms(2) have md5: "isAccept (verifyMD5 e q rc pkt)" "cr_Step rc = ''md5_challenge''" "ea_Type pkt = 4" "ea_Identifier pkt = cr_EAPID rc"
      by (simp_all add: handleEAPContinuation_def not_accept startFromIdentity_accept split: if_splits)
    from verifyMD5_accept [OF md5(1) assms(2)] md5 raw pkt show ?thesis unfolding md5Granted_def by blast
  qed
qed

subsection \<open>What a request adds to the challenge store\<close>

definition entriesOf :: "'tls AccessState \<Rightarrow> challengeEntry set" where
  "entriesOf a = (case ax_store a of None \<Rightarrow> {} | Some st \<Rightarrow> snd ` set (cs_entries st))"

lemma entriesOf_upd [simp]:
  "entriesOf (a\<lparr>ax_tunnels := t\<rparr>) = entriesOf a" "entriesOf (a\<lparr>ax_entropy := b\<rparr>) = entriesOf a" "entriesOf (setTunnel i tun a) = entriesOf a"
  by (simp_all add: entriesOf_def setTunnel_def)

lemma entriesOf_readRand: "readRand n a = (a', r) \<Longrightarrow> entriesOf a' = entriesOf a"
  by (auto simp: readRand_def split: if_splits)

lemma remove_entries: "set (cs_entries (store_removeLocked k s)) \<subseteq> set (cs_entries s)"
  by (auto simp: store_removeLocked_def Let_def AList.delete_eq split: option.splits)

lemma fold_removeLocked_subset:
  "set (cs_entries (fold (\<lambda>(k, e) s. if P e then store_removeLocked k s else s) es s)) \<subseteq> set (cs_entries s)"
proof (induction es arbitrary: s)
  case (Cons ke es)
  show ?case
    using Cons [of "if P (snd ke) then store_removeLocked (fst ke) s else s"] remove_entries [of "fst ke" s]
    by (auto simp: case_prod_beta split: if_splits)
qed simp

lemma Issue_entries:
  assumes "Issue i now s = (s', r)"
  shows "snd ` set (cs_entries s') \<subseteq> snd ` set (cs_entries s) \<union> {entryOf i x |x. True}"
proof -
  have exp: "set (cs_entries (store_expireLocked now s)) \<subseteq> set (cs_entries s)"
    unfolding store_expireLocked_def using fold_removeLocked_subset [of "\<lambda>e. \<not> ch_expires e > now" "cs_entries s" s] by simp
  let ?s = "store_expireLocked now s" and ?k = "challengeKey (ci_EndpointID i) (ci_State i)"
  have upd: "snd ` set (AList.update k v xs) \<subseteq> insert v (snd ` set xs)" for k v and xs :: "(bytes \<times> challengeEntry) list"
    by (induction xs) auto
  have "cs_entries s' = cs_entries s \<or> cs_entries s' = cs_entries ?s \<or>
      cs_entries s' = AList.update ?k (entryOf i (now + cs_ttl ?s)) (cs_entries ?s)"
    using assms by (auto simp: Issue_def Let_def split: if_splits)
  moreover have "snd ` set (cs_entries ?s) \<subseteq> snd ` set (cs_entries s)" using exp by blast
  ultimately show ?thesis using upd [of ?k "entryOf i (now + cs_ttl ?s)" "cs_entries ?s"] by (elim disjE; simp; blast)
qed

lemma Consume_entries:
  assumes "Consume ep st client bind now s = (s', r)"
  shows "snd ` set (cs_entries s') \<subseteq> snd ` set (cs_entries s)"
    and "r = ConsumeOK rc \<Longrightarrow> \<exists>ent \<in> snd ` set (cs_entries s). rc = recordOf ent \<and> ch_clientID ent = client"
  using assms remove_entries [of "challengeKey ep st" s]
  by (auto simp: Consume_def Let_def dest!: map_of_SomeD split: if_splits option.splits) force+

text \<open>An entry of a request: its step, its user, its tunnel, its attributes and the client of the request.\<close>

definition issuedFor :: "RadiusRequest \<Rightarrow> ChallengeIssue \<Rightarrow> challengeEntry \<Rightarrow> bool" where
  "issuedFor q i ent \<longleftrightarrow> ch_step ent = ci_Step i \<and> ch_userID ent = ci_UserID i \<and> ch_tunnelID ent = ci_TunnelID i \<and> ch_reply ent = ci_ReplyAttributes i \<and>
     (ci_ClientID i = rq_ClientID q \<longrightarrow> ch_clientID ent = rq_ClientID q)"

lemma fillIssue_sel [simp]:
  "ci_Step (fillIssue q i) = ci_Step i" "ci_UserID (fillIssue q i) = ci_UserID i" "ci_ReplyAttributes (fillIssue q i) = ci_ReplyAttributes i"
  "ci_TunnelID (fillIssue q i) = ci_TunnelID i"
  "ci_ClientID i = rq_ClientID q \<Longrightarrow> ci_ClientID (fillIssue q i) = rq_ClientID q"
  by (simp_all add: fillIssue_def Let_def)

lemma issuedFor_entryOf: "issuedFor q i (entryOf ((fillIssue q i)\<lparr>ci_Bind := b\<rparr>) x)"
  by (simp add: issuedFor_def entryOf_def Let_def)

lemma IssueChallenge_entries:
  assumes "IssueChallenge now q i a = (a', reason)"
  shows "entriesOf a' \<subseteq> entriesOf a \<union> {ent. issuedFor q i ent}"
proof (cases "ax_store a' = ax_store a")
  case False
  with assms obtain st b st' r where st: "ax_store a = Some st" "Issue ((fillIssue q i)\<lparr>ci_Bind := b\<rparr>) now st = (st', r)" "ax_store a' = Some st'"
    by (auto simp: IssueChallenge_def Let_def split: option.splits sum.splits prod.splits)
  from Issue_entries [OF st(2)] st(1,3) issuedFor_entryOf [of q i b] show ?thesis by (auto simp: entriesOf_def)
qed (simp add: entriesOf_def)

definition stepFor :: "RadiusRequest \<Rightarrow> string \<Rightarrow> ChallengeRecord \<Rightarrow> challengeEntry \<Rightarrow> bool" where
  "stepFor q step rc ent \<longleftrightarrow> ch_step ent = step \<and> ch_userID ent = cr_UserID rc \<and> ch_tunnelID ent = cr_TunnelID rc \<and> ch_clientID ent = rq_ClientID q"

lemma issuePEAPContinue_adds:
  "entriesOf (fst (issuePEAPContinue e q rc body step a)) \<subseteq> entriesOf a \<union> {ent. stepFor q step rc ent}"
  unfolding issuePEAPContinue_def
  by (auto simp: issuedFor_def stepFor_def zeroIssue_def entriesOf_readRand split: prod.splits option.splits
      dest!: IssueChallenge_entries)

lemma sendFlight_adds:
  "entriesOf (fst (sendFlight e q rc step recs tun a)) \<subseteq> entriesOf a \<union> {ent. stepFor q step rc ent}"
proof -
  obtain tun' body where "QueueFlight recs tun = (tun', body)" by fastforce
  with issuePEAPContinue_adds [of e q rc body step "setTunnel (cr_TunnelID rc) tun' a"] show ?thesis by (simp add: sendFlight_def)
qed

abbreviation (input) unfinished :: "challengeEntry set" where
  "unfinished \<equiv> {ent. ch_step ent \<noteq> ''peap_finish''}"

lemma issuers_adds:
  "entriesOf (fst (issueIdentityChallenge e q i a)) \<subseteq> entriesOf a \<union> unfinished"
  "entriesOf (fst (issueMD5Challenge e q user i a)) \<subseteq> entriesOf a \<union> unfinished"
  "entriesOf (fst (issuePEAPStart e q user i a)) \<subseteq> entriesOf a \<union> unfinished"
  unfolding issueIdentityChallenge_def issueMD5Challenge_def issuePEAPStart_def Let_def
  by (auto simp: issuedFor_def zeroIssue_def entriesOf_readRand split: prod.splits option.splits bool.splits
      dest!: IssueChallenge_entries)

lemma startFromIdentity_adds: "entriesOf (fst (startFromIdentity e q pkt a)) \<subseteq> entriesOf a \<union> unfinished"
  by (simp add: startFromIdentity_def issuers_adds Let_def split: option.split sum.split)

lemma handleEAPStart_adds: "entriesOf (fst (handleEAPStart e q a)) \<subseteq> entriesOf a \<union> unfinished"
  by (simp add: handleEAPStart_def startFromIdentity_adds split: option.split sum.split)

subsection \<open>What a PEAP message carries\<close>

text \<open>
  The inner packet that a request delivers to the tunnel of its record: the EAP message of the request, its PEAP body, the flight
  reassembled from it, decrypted by the TLS connection and decoded.
\<close>

definition tunnelInner :: "'tls tlsEngine \<Rightarrow> bytes \<Rightarrow> 'tls Tunnel \<Rightarrow> InnerPacket option" where
  "tunnelInner te flight tun = Option.bind (PushClient te flight tun) (\<lambda>tun. Option.bind (snd (ReadApp te tun)) DecodeInner)"

definition bodyInner :: "'tls tlsEngine \<Rightarrow> Payload \<Rightarrow> 'tls Tunnel \<Rightarrow> InnerPacket option" where
  "bodyInner te body tun =
     (case BufferFragment body (fst (NextFragment tun)) of (tun, flight) \<Rightarrow> Option.bind flight (\<lambda>flight. tunnelInner te flight tun))"

definition peapInner :: "('re, 'tls) accessEnv \<Rightarrow> ChallengeRecord \<Rightarrow> eapPacket \<Rightarrow> 'tls AccessState \<Rightarrow> InnerPacket option" where
  "peapInner e rc pkt a =
     Option.bind (ax_tunnels a) (\<lambda>reg.
     Option.bind (snd (registry_Get (cr_TunnelID rc) (en_now (ae_call e)) reg)) (\<lambda>tun.
     Option.bind (peap_Parse (ea_Data pkt)) (\<lambda>body. bodyInner (ae_tls e) body tun)))"

definition requestInner :: "('re, 'tls) accessEnv \<Rightarrow> RadiusRequest \<Rightarrow> ChallengeRecord \<Rightarrow> 'tls AccessState \<Rightarrow> InnerPacket option" where
  "requestInner e q rc a =
     (case concatEAPMessage (reqAttrs q) of
        Inl _ \<Rightarrow> None
      | Inr raw \<Rightarrow> Option.bind (parseEAP raw) (\<lambda>pkt. peapInner e rc pkt a))"

text \<open>The users for which the response in an inner packet to the MS-CHAPv2 challenge of the record is permitted.\<close>

definition answeredAs :: "('re, 'tls) accessEnv \<Rightarrow> RadiusRequest \<Rightarrow> ChallengeRecord \<Rightarrow> InnerPacket option \<Rightarrow> string set" where
  "answeredAs e q rc inner = {user. cr_Step rc = ''peap_mschap'' \<and>
     (\<exists>pkt msID resp name. inner = Some pkt \<and> ParseMSCHAPResponse pkt = Some (msID, resp, name) \<and>
        user = (if name \<noteq> '''' then name else cr_UserID rc) \<and>
        permittedAs e q ''eap'' user (evidence ''mschapv2'' msID (cr_MD5Challenge rc) resp))}"

text \<open>
  An entry for the last message of PEAP repeats the one of the record, or its user has just been permitted; it keeps
  the tunnel of the record.
\<close>

definition newEntry :: "RadiusRequest \<Rightarrow> ChallengeRecord \<Rightarrow> string set \<Rightarrow> challengeEntry \<Rightarrow> bool" where
  "newEntry q rc U ent \<longleftrightarrow> (ch_step ent = ''peap_finish'' \<longrightarrow> ch_clientID ent = rq_ClientID q \<and> ch_tunnelID ent = cr_TunnelID rc \<and>
     (cr_Step rc = ''peap_finish'' \<and> ch_userID ent = cr_UserID rc \<or> ch_userID ent \<in> U))"

lemma newEntry_same: "stepFor q (cr_Step rc) rc ent \<Longrightarrow> newEntry q rc U ent"
  by (simp add: newEntry_def stepFor_def)

lemma newEntry_other: "stepFor q step rc' ent \<Longrightarrow> step \<noteq> ''peap_finish'' \<Longrightarrow> newEntry q rc U ent"
  by (simp add: newEntry_def stepFor_def)

lemma newEntry_granted: "stepFor q step rc' ent \<Longrightarrow> cr_UserID rc' \<in> U \<Longrightarrow> cr_TunnelID rc' = cr_TunnelID rc \<Longrightarrow> newEntry q rc U ent"
  by (simp add: newEntry_def stepFor_def)

abbreviation (input) adds :: "RadiusRequest \<Rightarrow> ChallengeRecord \<Rightarrow> string set \<Rightarrow> 'tls AccessState \<Rightarrow> 'tls AccessState \<Rightarrow> bool" where
  "adds q rc U a a' \<equiv> entriesOf a' \<subseteq> entriesOf a \<union> {ent. newEntry q rc U ent}"

lemma innerIdentity_adds: "adds q rc U a (fst (innerIdentity e q rc tun pkt a))"
proof -
  have "adds q rc U a (fst (sendFlight e q rc' ''peap_mschap'' recs t a'))" if "entriesOf a' = entriesOf a" for rc' recs t a'
    using sendFlight_adds [of e q rc' "''peap_mschap''" recs t a'] newEntry_other that by fastforce
  then show ?thesis
    by (auto simp: innerIdentity_def entriesOf_readRand Let_def split: prod.split option.split)
qed

lemma innerAccepted_adds:
  assumes "user \<in> U" shows "adds q rc U a (fst (innerAccepted e q rc tun i m user dec a))"
proof -
  have "adds q rc U a (fst (sendFlight e q rc' ''peap_finish'' recs t a))" if "cr_UserID rc' = user" "cr_TunnelID rc' = cr_TunnelID rc" for rc' recs t
    using sendFlight_adds [of e q rc' "''peap_finish''" recs t a] newEntry_granted assms that by fastforce
  then show ?thesis by (auto simp: innerAccepted_def Let_def split: prod.split option.split)
qed

lemma innerMSCHAP_adds:
  assumes "cr_Step rc = ''peap_mschap''" shows "adds q rc (answeredAs e q rc (Some pkt)) a (fst (innerMSCHAP e q rc tun pkt a))"
proof (cases "ParseMSCHAPResponse pkt")
  case (Some x)
  obtain msID resp name where x: "x = (msID, resp, name)" by (cases x) auto
  define user where "user = (if name \<noteq> '''' then name else cr_UserID rc)"
  let ?att = "accessAttempt e q ''eap'' user (evidence ''mschapv2'' msID (cr_MD5Challenge rc) resp)"
  have "adds q rc (answeredAs e q rc (Some pkt)) a (fst (innerAccepted e q rc tun (ip_Identifier pkt) msID user dec a))"
    if "ae_svc e = Some s" "AuthenticateAccess (ae_call e) s ?att = (dec, None)" "dec_Outcome dec = RadiusAccessAccept" for s dec
  proof (rule innerAccepted_adds)
    show "user \<in> answeredAs e q rc (Some pkt)"
      using AuthenticateAccess_accept [OF that(2,3,1)] assms Some by (simp add: answeredAs_def x user_def)
  qed
  then show ?thesis
    unfolding innerMSCHAP_def Some x option.case prod.case Let_def user_def [symmetric]
    by (auto split: option.split prod.split)
qed (auto simp: innerMSCHAP_def)

lemma handlePEAPInner_adds: "adds q rc (answeredAs e q rc (DecodeInner inner)) a (fst (handlePEAPInner e q rc tun inner a))"
  by (simp add: handlePEAPInner_def innerIdentity_adds innerMSCHAP_adds split: option.split)

lemma peapHandshake_adds: "adds q rc U a (fst (peapHandshake e q rc pkt tun c a))"
proof -
  have "adds q rc U a (fst (sendFlight e q rc step recs t a'))" if "entriesOf a' = entriesOf a" "step \<noteq> ''peap_finish''" for step recs t a'
    using sendFlight_adds [of e q rc step recs t a'] newEntry_other that by fastforce
  then show ?thesis by (auto simp: peapHandshake_def Let_def split: prod.split option.split)
qed

lemma issuePEAPContinue_same_adds: "adds q rc U a (fst (issuePEAPContinue e q rc body (cr_Step rc) a))"
  using issuePEAPContinue_adds [of e q rc body "cr_Step rc" a] newEntry_same [of q rc] by blast

lemma peapComplete_adds: "adds q rc (answeredAs e q rc (tunnelInner (ae_tls e) c tun)) a (fst (peapComplete e q rc pkt tun c a))"
  using handlePEAPInner_adds [where e=e and q=q and rc=rc and a="setTunnel (cr_TunnelID rc) t a" for t] peapHandshake_adds [where e=e]
  by (simp add: peapComplete_def tunnelInner_def split: prod.split option.split)

lemma peapBody_adds: "adds q rc (answeredAs e q rc (bodyInner (ae_tls e) body tun)) a (fst (peapBody e q rc pkt tun body a))"
  using issuePEAPContinue_same_adds [where e=e and q=q and rc=rc and a="setTunnel (cr_TunnelID rc) t a" for t]
    peapComplete_adds [where e=e and q=q and rc=rc and a="setTunnel (cr_TunnelID rc) t a" for t]
  by (simp add: peapBody_def bodyInner_def Let_def split: prod.split option.split)

lemma handlePEAP_adds: "adds q rc (answeredAs e q rc (peapInner e rc pkt a)) a (fst (handlePEAP e q rc pkt a))"
  using peapBody_adds [where e=e and q=q and rc=rc and a="a\<lparr>ax_tunnels := Some reg\<rparr>" for reg]
  by (simp add: handlePEAP_def peapInner_def split: prod.split option.split)

lemma handleContinuation_adds: "adds q rc (answeredAs e q rc (requestInner e q rc a)) a (fst (handleContinuation e q rc a))"
proof -
  have "unfinished \<subseteq> {ent. newEntry q rc U ent}" for U by (auto simp: newEntry_def)
  then have start: "adds q rc U a (fst (startFromIdentity e q pkt a))" for pkt U
    using startFromIdentity_adds [of e q pkt a] by blast
  have "adds q rc (answeredAs e q rc (requestInner e q rc a)) a (fst (handleEAPContinuation e q rc a))"
    by (simp add: handleEAPContinuation_def requestInner_def start handlePEAP_adds split: sum.split option.split)
  then show ?thesis by (auto simp: handleContinuation_def split: prod.splits)
qed

subsection \<open>The handler over time\<close>

text \<open>
  The states of a handler that started with an empty store, with the requests it has handled, each with the environment and
  the state in which it was handled.
\<close>

inductive acc_reach :: "(('re, 'tls) accessEnv \<times> RadiusRequest \<times> 'tls AccessState) list \<Rightarrow> 'tls AccessState \<Rightarrow> bool" where
  acc_start: "entriesOf a = {} \<Longrightarrow> acc_reach [] a"
| acc_step: "acc_reach log a \<Longrightarrow> Access_Handle e q a = (a', res) \<Longrightarrow> acc_reach (log @ [(e, q, a)]) a'"

text \<open>
  A request handled in state \<open>a\<close> consumed the record of an MS-CHAPv2 challenge of the tunnel, and the response that it
  carried through the tunnel verified for \<open>user\<close>.
\<close>

definition peapGranted :: "('re, 'tls) accessEnv \<Rightarrow> RadiusRequest \<Rightarrow> 'tls AccessState \<Rightarrow> string \<Rightarrow> string \<Rightarrow> bool" where
  "peapGranted e q a tunnel user \<longleftrightarrow> CheckIntegrity q = '''' \<and>
     (\<exists>st a1 rc. extractState (reqAttrs q) = Some (Inr st) \<and> consumeContinuation (en_now (ae_call e)) q st a = (a1, Inr rc) \<and>
        cr_TunnelID rc = tunnel \<and> user \<in> answeredAs e q rc (requestInner e q rc a1))"

definition finishGranted :: "(('re, 'tls) accessEnv \<times> RadiusRequest \<times> 'tls AccessState) list \<Rightarrow> challengeEntry \<Rightarrow> bool" where
  "finishGranted log ent \<longleftrightarrow> (ch_step ent = ''peap_finish'' \<longrightarrow>
     (\<exists>(e, q, a) \<in> set log. rq_ClientID q = ch_clientID ent \<and> peapGranted e q a (ch_tunnelID ent) (ch_userID ent)))"

lemma consume_entries:
  assumes "consumeContinuation now q st a = (a', r)"
  shows "entriesOf a' \<subseteq> entriesOf a"
    and "r = Inr rc \<Longrightarrow> \<exists>ent \<in> entriesOf a. rc = recordOf ent \<and> ch_clientID ent = rq_ClientID q"
proof -
  have "entriesOf a' \<subseteq> entriesOf a \<and> (r = Inr rc \<longrightarrow> (\<exists>ent \<in> entriesOf a. rc = recordOf ent \<and> ch_clientID ent = rq_ClientID q))"
  proof (cases "(\<exists>s. ax_store a = Some s) \<and> (\<exists>b. bindFromRequest q = Inr b)")
    case True
    then obtain s b s' c where s: "ax_store a = Some s" "bindFromRequest q = Inr b"
      and c: "Consume (rq_EndpointID q) st (rq_ClientID q) b now s = (s', c)" by (metis surj_pair)
    have a': "a' = a\<lparr>ax_store := Some s'\<rparr>" and r: "r = Inr rc \<Longrightarrow> c = ConsumeOK rc"
      using assms s c by (auto simp: consumeContinuation_def split: ConsumeResult.splits)
    from Consume_entries(1) [OF c] Consume_entries(2) [OF c] r s(1) show ?thesis by (simp add: entriesOf_def a')
  next
    case False
    with assms show ?thesis by (auto simp: consumeContinuation_def split: option.splits sum.splits)
  qed
  then show "entriesOf a' \<subseteq> entriesOf a" "r = Inr rc \<Longrightarrow> \<exists>ent \<in> entriesOf a. rc = recordOf ent \<and> ch_clientID ent = rq_ClientID q"
    by blast+
qed

lemma finishGranted_mono: "finishGranted log ent \<Longrightarrow> finishGranted (log @ more') ent"
  by (auto simp: finishGranted_def)

lemma finishGranted_newEntry:
  assumes "newEntry q rc (answeredAs e q rc (requestInner e q rc a1)) ent" and "rc = recordOf old" and "ch_clientID old = rq_ClientID q"
    and "finishGranted log old" and "CheckIntegrity q = ''''" and "extractState (reqAttrs q) = Some (Inr st)"
    and "consumeContinuation (en_now (ae_call e)) q st a = (a1, Inr rc)"
  shows "finishGranted (log @ [(e, q, a)]) ent"
proof (cases "ch_step ent = ''peap_finish''")
  case True
  with assms(1) consider "ch_step old = ''peap_finish''" "ch_userID ent = ch_userID old" "ch_tunnelID ent = ch_tunnelID old" "ch_clientID ent = ch_clientID old"
    | "ch_clientID ent = rq_ClientID q" "ch_tunnelID ent = cr_TunnelID rc" "ch_userID ent \<in> answeredAs e q rc (requestInner e q rc a1)"
    using assms(2,3) by (auto simp: newEntry_def recordOf_def)
  then show ?thesis
  proof cases
    case 1
    with assms(4) show ?thesis by (auto simp: finishGranted_def)
  next
    case 2
    with assms(5-7) have "peapGranted e q a (ch_tunnelID ent) (ch_userID ent)" unfolding peapGranted_def by (intro conjI exI) simp_all
    with 2(1) show ?thesis by (simp add: finishGranted_def)
  qed
qed (simp add: finishGranted_def)

lemma acc_invariant: "acc_reach log a \<Longrightarrow> ent \<in> entriesOf a \<Longrightarrow> finishGranted log ent"
proof (induction arbitrary: ent rule: acc_reach.induct)
  case (acc_step log a e q a' res)
  show ?case
  proof (cases "ent \<in> entriesOf a")
    case True
    then show ?thesis by (rule finishGranted_mono [OF acc_step.IH])
  next
    case False
    with acc_step.prems acc_step.hyps(2) consider "ch_step ent \<noteq> ''peap_finish''"
      | st a1 rc where "CheckIntegrity q = ''''" "extractState (reqAttrs q) = Some (Inr st)"
          "consumeContinuation (en_now (ae_call e)) q st a = (a1, Inr rc)" "ent \<in> entriesOf (fst (handleContinuation e q rc a1))"
      using handleEAPStart_adds [of e q a] consume_entries(1)
      by (auto simp: Access_Handle_def split: if_splits option.splits sum.splits prod.splits) blast+
    then show ?thesis
    proof cases
      case 2
      from consume_entries [OF 2(3)] obtain old where old: "old \<in> entriesOf a" "rc = recordOf old" "ch_clientID old = rq_ClientID q"
        and "entriesOf a1 \<subseteq> entriesOf a" by blast
      with handleContinuation_adds [of e q rc a1] 2(4) False have "newEntry q rc (answeredAs e q rc (requestInner e q rc a1)) ent" by blast
      from finishGranted_newEntry [OF this old(2,3) acc_step.IH [OF old(1)] 2(1-3)] show ?thesis .
    qed (simp add: finishGranted_def)
  qed
qed simp

subsection \<open>An accept is safe\<close>

lemma Stub_not_accept: "length (pk_Authenticator (rq_Packet q)) = 16 \<Longrightarrow> rq_Role q = RoleAccounting \<Longrightarrow> \<not> isAccept (Stub_Handle b q)"
  by (auto simp: Stub_Handle_def signedReply_def isAccept_def discard_def dest: SignResponse_code split: sum.splits)

text \<open>
  Property C4. An Access-Accept is never sent without a decision on a credential that was presented. Take any sequence of requests handled
  from an empty challenge store, and a next request that is answered by an Access-Accept. Then it passed the integrity check, and
  one of three things holds. It carries PAP, CHAP or MS-CHAP evidence with which the credentials of its user were verified
  in the admission snapshot of the request, the login need not change and the snapshot's RADIUS policy permits. Or it consumed
  the State of an EAP-MD5 challenge, its EAP message is a response with the identifier of that challenge, and the same holds
  for the hash in that response against the stored challenge, for the stored user or, if there is none, the User-Name of the request.
  Or it consumed the State of the last step of PEAP, and an earlier request of the same client, itself authentic, consumed
  the record of an MS-CHAPv2 challenge of the same tunnel and carried through the tunnel a response to that challenge with
  which the user of the record was so permitted.
\<close>

theorem radius_accept_safe:
  assumes "acc_reach log a" and "Access_Handle e q a = (a', res)" and "isAccept res" and "length (pk_Authenticator (rq_Packet q)) = 16"
  shows "CheckIntegrity q = '''' \<and>
    ((\<exists>user ev. extractAccessEvidence q = Inr (user, ev) \<and> permittedAs e q '''' user ev) \<or>
     (\<exists>st a1 rc. extractState (reqAttrs q) = Some (Inr st) \<and> consumeContinuation (en_now (ae_call e)) q st a = (a1, Inr rc) \<and>
        (md5Granted e q rc \<or>
         cr_Step rc = ''peap_finish'' \<and>
         (\<exists>(e0, q0, a0) \<in> set log. rq_ClientID q0 = rq_ClientID q \<and> peapGranted e0 q0 a0 (cr_TunnelID rc) (cr_UserID rc)))))"
proof -
  have "rq_Role q \<noteq> RoleAccounting" using Stub_not_accept [OF assms(4)] assms(2,3) by (auto simp: Access_Handle_def split: if_splits)
  with assms(2-4) consider "CheckIntegrity q = ''''" "isAccept (handleEvidence e q)"
    | st a1 rc where "CheckIntegrity q = ''''" "extractState (reqAttrs q) = Some (Inr st)"
      "consumeContinuation (en_now (ae_call e)) q st a = (a1, Inr rc)" "isAccept (snd (handleContinuation e q rc a1))"
    using handleEAPStart_accept [OF assms(4), of e a]
    by (auto simp: Access_Handle_def not_accept split: if_splits option.splits sum.splits prod.splits)
  then show ?thesis
  proof cases
    case 1
    with handleEvidence_accept [OF 1(2) assms(4)] show ?thesis by blast
  next
    case 2
    obtain ent where ent: "ent \<in> entriesOf a" "rc = recordOf ent" "ch_clientID ent = rq_ClientID q"
      using consume_entries(2) [OF 2(3) refl] by blast
    have "finishGranted log ent" by (rule acc_invariant [OF assms(1) ent(1)])
    then have "\<exists>(e0, q0, a0) \<in> set log. rq_ClientID q0 = rq_ClientID q \<and> peapGranted e0 q0 a0 (cr_TunnelID rc) (cr_UserID rc)" if "cr_Step rc = ''peap_finish''"
      using that ent by (simp add: finishGranted_def recordOf_def)
    with handleContinuation_accept [OF 2(4) assms(4)] 2(1-3) show ?thesis by blast
  qed
qed

subsection \<open>A PAP login\<close>

definition wit_permit :: RadiusEngine where
  "wit_permit =
     \<lparr>re_policies = [''p'' \<mapsto> \<lparr>cp_id = ''p'', cp_rules = [\<lparr>crl_id = ''all'', crl_match = \<lparr>cm_groupsAny = [], cm_method = None, cm_attrs = []\<rparr>,
        crl_effect = ''permit'', crl_reply = []\<rparr>]\<rparr>], re_clients = Map.empty, re_users = Map.empty, re_groups = Map.empty, re_fallback = ''p''\<rparr>"

definition wit_hidden :: bytes where
  "wit_hidden = hideLoop [115] (replicate 16 1) ([1] @ replicate 15 0)"

definition wit_pap :: RadiusRequest where
  "wit_pap = wit_access\<lparr>rq_Packet := \<lparr>pk_Code = 1, pk_Identifier = 7, pk_Authenticator = replicate 16 1,
     pk_Attributes = [\<lparr>raw_Type = 1, raw_Value = bytes_of_string ''alice''\<rparr>, \<lparr>raw_Type = 2, raw_Value = wit_hidden\<rparr>]\<rparr>,
     rq_Declared := [0], rq_Revision := 0\<rparr>"

definition wit_access_env :: "(unit, unit) accessEnv" where
  "wit_access_env =
     \<lparr>ae_call = wit_call, ae_svc = Some wit_service, ae_snap = Some (wit_snap\<lparr>sn_radiusPolicies := Some wit_permit\<rparr>),
      ae_tls = \<lparr>te_new = None, te_push = (\<lambda>_ _. None), te_wait = (\<lambda>t. t), te_take = (\<lambda>t. (t, [])), te_done = (\<lambda>_. False), te_failed = (\<lambda>_. True),
        te_write = (\<lambda>_ _. None), te_read = (\<lambda>t. (t, None))\<rparr>\<rparr>"

definition wit_access_state :: "unit AccessState" where
  "wit_access_state = \<lparr>ax_store = None, ax_entropy = [], ax_peap = False, ax_tunnels = None\<rparr>"

lemma wit_unhide: "UnhideUserPassword [115] (replicate 16 1) wit_hidden = Inr [1]"
  unfolding wit_hidden_def
  by (simp add: UnhideUserPassword_def length_hideLoop unhide_hide stripNUL_pad del: append.simps) (simp add: stripNUL_def)

lemma wit_evidence: "extractAccessEvidence wit_pap = Inr (''alice'', (evidence ''password'' 0 [] [])\<lparr>ce_Password := [1]\<rparr>)"
  using wit_unhide
  by (simp add: extractAccessEvidence_def wit_pap_def wit_access_def collectMSCHAP_def ms_present_def srv_methodAllowed_def Let_def)


abbreviation (input) wit_rsnap :: "unit StateSnapshot" where
  "wit_rsnap \<equiv> wit_snap\<lparr>sn_radiusPolicies := Some wit_permit\<rparr>"

lemma wit_rsnap_user: "snap_User wit_rsnap ''alice'' = Some wit_user"
  using wit_current(2) by (simp add: snap_User_def)

lemma wit_rverify:
  "verifyAgainst wit_call wit_service wit_rsnap ''alice'' ''nas'' ((evidence ''password'' 0 [] [])\<lparr>ce_Password := [1]\<rparr>) = AuthPass"
proof -
  have "VerifyASCIIOrPAP wit_lib (en_ctx wit_call) 7 (boundCreds wit_service wit_rsnap ''nas'') ''alice'' [1] = Inr ()"
    by (simp add: VerifyASCIIOrPAP_def cred_lookup_def CanonicalUsername_def boundCreds_def storeLookup_def wit_rsnap_user wit_call_def wit_lib_def
        wit_user_def zeroUser_def wit_service_def refMaterial_def resolveSecret_def SecretRef_Set_def noRef_def clientRestricted_def
        wit_verifiers [unfolded wit_lib_def])
  then show ?thesis by (simp add: verifyAgainst_def evidence_def outcomeFromCreds_def wit_call_def)
qed

lemma wit_decision:
  "\<exists>dec. AuthenticateAccess wit_call wit_service (accessAttempt wit_access_env wit_pap '''' ''alice'' ((evidence ''password'' 0 [] [])\<lparr>ce_Password := [1]\<rparr>)) =
     (dec, None) \<and> dec_Outcome dec = RadiusAccessAccept \<and> dec_ReplyAttributes dec = []"
proof -
  have adm: "admissionSnapshot wit_service (accessAttempt wit_access_env wit_pap '''' ''alice'' ev) = Some wit_rsnap" for ev
    by (simp add: admissionSnapshot_def accessAttempt_def wit_access_env_def wit_pap_def)
  have "dec_Outcome (evaluateAccess (Some wit_rsnap) u c ep m attrs) = RadiusAccessAccept \<and> dec_ReplyAttributes (evaluateAccess (Some wit_rsnap) u c ep m attrs) = []"
    for u c ep m attrs
    by (simp add: evaluateAccess_def rad_Evaluate_def wit_permit_def endpointPolicy_def rad_effectiveGroups_def rad_walk_def rad_remark_def
        rad_matchRule_def rad_matchedResult_def CheckReplyLegal_def mapPolicyResult_def encodePolicyReply_def orElse_def Let_def)
  moreover have "\<not> userMustChangeLogin wit_rsnap ''alice''"
    by (simp add: userMustChangeLogin_def wit_rsnap_user) (simp add: wit_user_def zeroUser_def)
  moreover have "canonUser (en_lib wit_call) ''alice'' = ''alice''"
    by (simp add: canonUser_def CanonicalUsername_def wit_call_def wit_lib_def)
  moreover have "rq_ClientID wit_pap = ''nas''" by (simp add: wit_pap_def wit_access_def)
  ultimately show ?thesis
    using wit_rverify adm
    by (simp add: AuthenticateAccess_def accessAttempt_def Let_def AuthMethod_Valid_def) (simp add: evidence_def wit_call_def AuthMethod_Valid_def)
qed

theorem radius_accept_safe_witness:
  "isAccept (snd (Access_Handle wit_access_env wit_pap wit_access_state)) \<and>
     permittedAs wit_access_env wit_pap '''' ''alice'' ((evidence ''password'' 0 [] [])\<lparr>ce_Password := [1]\<rparr>)"
proof -
  obtain dec where dec: "AuthenticateAccess wit_call wit_service (accessAttempt wit_access_env wit_pap '''' ''alice'' ((evidence ''password'' 0 [] [])\<lparr>ce_Password := [1]\<rparr>)) =
     (dec, None)" "dec_Outcome dec = RadiusAccessAccept" "dec_ReplyAttributes dec = []" using wit_decision by blast
  have attrs: "reqAttrs wit_pap = [\<lparr>raw_Type = 1, raw_Value = bytes_of_string ''alice''\<rparr>, \<lparr>raw_Type = 2, raw_Value = wit_hidden\<rparr>]"
    and auth: "pk_Authenticator (rq_Packet wit_pap) = replicate 16 1" and code: "pk_Code (rq_Packet wit_pap) = 1" "rq_Role wit_pap = RoleAccess"
    "rq_Secret wit_pap = [115]"
    by (simp_all add: wit_pap_def wit_access_def)
  obtain w where w: "SignResponse [115] 2 7 (replicate 16 1) [] = Inr w" using wit_sign [of 2] by blast
  have sign: "isAccept (replyAccess wit_pap CodeAccessAccept ReasonOK [])"
    using attrs auth code w SignResponse_code [OF w]
    by (simp add: replyAccess_def signAccess_def ReplyAccess_def isAccept_def CopyProxyState_def wit_pap_def)
  have env: "ae_call wit_access_env = wit_call" "ae_svc wit_access_env = Some wit_service" "\<not> ctxDone wit_access_env"
    by (simp_all add: wit_access_env_def ctxDone_def wit_call_def)
  have "CheckIntegrity wit_pap = ''''"
    using attrs code by (simp add: CheckIntegrity_def checkAccessIntegrity_def Let_def) (simp add: wit_pap_def wit_access_def declaredPacket_def)
  then have run: "Access_Handle wit_access_env wit_pap wit_access_state = (wit_access_state, replyAccess wit_pap CodeAccessAccept ReasonOK [])"
    using dec attrs code wit_evidence env
    by (simp add: Access_Handle_def handleEvidence_def extractState_def)
  have "acc_reach [] wit_access_state" by (rule acc_start) (simp add: entriesOf_def wit_access_state_def)
  from radius_accept_safe [OF this run sign] auth attrs wit_evidence sign run show ?thesis by (simp add: extractState_def)
qed

end
