(* ===== verification/Radius_DynAuth.thy ===== *)
theory Radius_DynAuth
  imports Radius_Reply Radius_Dictionary Session_Index Go_Ip
begin

text \<open>
  Dynamic authorization (RFC 5176). Inbound (\<open>internal/radius/server/dynauth_inbound.go\<close>): a CoA-Request or
  Disconnect-Request is checked and applied to the session index. Outbound (\<open>dynauth.go\<close>): \<open>SignDynAuthRequest\<close>
  signs a request, and \<open>Send\<close> exchanges one datagram with a NAS. What the socket returns is a list of reads, the
  clock readings are arguments, and metrics are left out.
\<close>

subsection \<open>The inbound handler\<close>

abbreviation (input) ReasonUnsupportedAttribute :: string where "ReasonUnsupportedAttribute \<equiv> ''unsupported_attribute''"
abbreviation (input) ReasonSessionNotFound :: string where "ReasonSessionNotFound \<equiv> ''session_context_not_found''"
abbreviation (input) ReasonMultipleSessions :: string where "ReasonMultipleSessions \<equiv> ''multiple_session_selection''"
abbreviation (input) ErrorCauseUnsupportedAttribute :: uint32 where "ErrorCauseUnsupportedAttribute \<equiv> 401"
abbreviation (input) ErrorCauseSessionContextNotFound :: uint32 where "ErrorCauseSessionContextNotFound \<equiv> 503"
abbreviation (input) ErrorCauseMultipleSessionSelection :: uint32 where "ErrorCauseMultipleSessionSelection \<equiv> 508"

definition dynAuthAttrAllowed :: "Code \<Rightarrow> byte \<Rightarrow> bool" where
  "dynAuthAttrAllowed code ty \<longleftrightarrow>
     ty \<in> set [80, 1, 4, 95, 32, 5, 44, 25, 55, 33] \<or> ty \<in> set [27, 28, 18] \<and> code = CodeCoARequest"

definition firstUnsupportedDynAuthAttr :: "Code \<Rightarrow> RawSet \<Rightarrow> bool" where
  "firstUnsupportedDynAuthAttr code attrs \<longleftrightarrow> list_ex (\<lambda>a. \<not> dynAuthAttrAllowed code (raw_Type a)) attrs"

definition das_text :: "RawSet \<Rightarrow> byte \<Rightarrow> string" where
  "das_text attrs ty = (case AllOf attrs ty of [] \<Rightarrow> '''' | a # _ \<Rightarrow> string_of_bytes (raw_Value a))"

definition dasQuery :: "RawSet \<Rightarrow> DASQuery" where
  "dasQuery attrs =
     \<lparr>das_ClientID = '''', das_SessionID = das_text attrs 44, das_UserID = das_text attrs 1,
      das_NASIP = (case AllOf attrs 4 of [] \<Rightarrow> None | a # _ \<Rightarrow> if length (raw_Value a) = 4 then Some (IPv4_String (raw_Value a)) else None),
      das_NASIdentifier = das_text attrs 32\<rparr>"

definition das_lookup :: "RawSet \<Rightarrow> int \<Rightarrow> SessionIndex option \<Rightarrow> SessionIndex option \<times> SessionRecord option \<times> nat" where
  "das_lookup attrs now sessions =
     (case sessions of
        None \<Rightarrow> (None, None, 0)
      | Some ix \<Rightarrow>
          let q = dasQuery attrs
          in if das_SessionID q = '''' \<and> das_UserID q = '''' then (Some ix, None, 0)
             else case FindDAS q now ix of (ix, rec, n) \<Rightarrow> (Some ix, rec, n))"

definition coaUint :: "RawSet \<Rightarrow> byte \<Rightarrow> uint32 option" where
  "coaUint attrs ty =
     (case AllOf attrs ty of [] \<Rightarrow> None | a # _ \<Rightarrow> (case raw_Value a of [b0, b1, b2, b3] \<Rightarrow> Some (Uint32_BE b0 b1 b2 b3) | _ \<Rightarrow> None))"

definition lastCoAFrom :: "RawSet \<Rightarrow> LastCoA" where
  "lastCoAFrom attrs =
     \<lparr>lc_SessionTimeout = coaUint attrs 27, lc_IdleTimeout = coaUint attrs 28,
      lc_ReplyMessage = map (\<lambda>a. string_of_bytes (raw_Value a)) (AllOf attrs 18)\<rparr>"

definition das_reply :: "RadiusRequest \<Rightarrow> Code \<Rightarrow> string \<Rightarrow> RawSet \<Rightarrow> RadiusResult" where
  "das_reply q code reason extra =
     (case SignResponse (rq_Secret q) code (pk_Identifier (rq_Packet q)) (pk_Authenticator (rq_Packet q))
             (CopyProxyState (pk_Attributes (rq_Packet q)) @ extra) of
        Inl _ \<Rightarrow> discard ''discard_malformed_header''
      | Inr wire \<Rightarrow> \<lparr>rr_Action = ActionReply, rr_Reason = reason, rr_Response = wire, rr_JournalSaturated = False\<rparr>)"

definition replyACK :: "RadiusRequest \<Rightarrow> string \<Rightarrow> RadiusResult" where
  "replyACK q reason =
     das_reply q (if pk_Code (rq_Packet q) = CodeDisconnectRequest then CodeDisconnectACK else CodeCoAACK) reason []"

definition replyNAK :: "RadiusRequest \<Rightarrow> string \<Rightarrow> uint32 \<Rightarrow> RadiusResult" where
  "replyNAK q reason cause =
     das_reply q (if pk_Code (rq_Packet q) = CodeDisconnectRequest then CodeDisconnectNAK else CodeCoANAK) reason
       [\<lparr>raw_Type = 101, raw_Value = PutUint32_BE cause\<rparr>]"

text \<open>
  The readings of the clock are those of the lookup, of the change and of the time stored with it. A record
  returned with the count 1 is the only hit, so the last case does not occur.
\<close>

definition DynamicAuth_Handle ::
  "bool \<Rightarrow> int \<times> int \<times> int \<Rightarrow> RadiusRequest \<Rightarrow> SessionIndex option \<Rightarrow> SessionIndex option \<times> RadiusResult" where
  "DynamicAuth_Handle ctxDone clk q sessions =
     (case clk of (t1, t2, t3) \<Rightarrow>
      if ctxDone then (sessions, discard ''drop_overload'')
      else if rq_Role q \<noteq> RoleDynamicAuthorization then (sessions, discard ''discard_invalid_code'')
      else if \<not> (pk_Code (rq_Packet q) = CodeCoARequest \<or> pk_Code (rq_Packet q) = CodeDisconnectRequest)
      then (sessions, discard ''discard_invalid_code'')
      else if CheckIntegrity q \<noteq> '''' then (sessions, discard (CheckIntegrity q))
      else
        let attrs = pk_Attributes (rq_Packet q); code = pk_Code (rq_Packet q)
        in if firstUnsupportedDynAuthAttr code attrs
           then (sessions, replyNAK q ReasonUnsupportedAttribute ErrorCauseUnsupportedAttribute)
           else case das_lookup attrs t1 sessions of
             (sessions, rec, n) \<Rightarrow>
               if n = 0 then (sessions, replyNAK q ReasonSessionNotFound ErrorCauseSessionContextNotFound)
               else if n > 1 then (sessions, replyNAK q ReasonMultipleSessions ErrorCauseMultipleSessionSelection)
               else case (sessions, rec) of
                 (Some ix, Some rec) \<Rightarrow>
                   if code = CodeDisconnectRequest then (Some (fst (index_Delete (sr_Key rec) t2 ix)), replyACK q ''ok'')
                   else (Some (fst (StoreLastCoA (sr_Key rec) (lastCoAFrom attrs) t2 t3 ix)), replyACK q ''ok'')
               | _ \<Rightarrow> (sessions, discard ''discard_invalid_code''))"

subsection \<open>Signing a request\<close>

datatype originErr = ErrOrigin Error | ErrSign radius_err | ErrOriginCtx | ErrSocket

definition SignDynAuthRequest :: "bytes \<Rightarrow> Code \<Rightarrow> byte \<Rightarrow> RawSet \<Rightarrow> originErr + bytes" where
  "SignDynAuthRequest secret code ident rest =
     (if code \<noteq> CodeCoARequest \<and> code \<noteq> CodeDisconnectRequest
      then Inl (ErrOrigin (NewError CodeInvalidArgument ''dynauth request code must be CoA-Request or Disconnect-Request''))
      else
        let attrs = \<lparr>raw_Type = TypeMessageAuthenticator, raw_Value = zero16\<rparr> # rest
        in case CheckSet Builtin attrs code of
             Inl _ \<Rightarrow> Inl (ErrOrigin (NewError CodeInvalidArgument ''illegal dynauth attribute set''))
           | Inr _ \<Rightarrow>
               (case radius_Encode \<lparr>pk_Code = code, pk_Identifier = ident, pk_Authenticator = zero16, pk_Attributes = attrs\<rparr> of
                  Inl e \<Rightarrow> Inl (ErrSign e)
                | Inr wire \<Rightarrow>
                    (case DynAuthMessageAuthenticator secret wire of
                       Inl e \<Rightarrow> Inl (ErrSign e)
                     | Inr mac \<Rightarrow>
                         if length wire < 20 + 2 + 16 \<or> wire ! 20 \<noteq> TypeMessageAuthenticator
                         then Inl (ErrSign ErrInvalidMessageAuthenticator)
                         else
                           let wire = take 22 wire @ mac @ drop 38 wire
                           in case DynAuthRequestAuthenticator secret wire of
                                Inl e \<Rightarrow> Inl (ErrSign e)
                              | Inr auth \<Rightarrow> Inr (take 4 wire @ auth @ drop 20 wire))))"

subsection \<open>The originator\<close>

record originateEntry =
  oe_wire :: bytes
  oe_reqAuth :: bytes
  oe_deadline :: int

record OriginateRequest =
  og_Secret :: bytes
  og_Destination :: string
  og_Code :: Code
  og_Attributes :: RawSet
  og_CacheKey :: string

record OriginateResult =
  gr_Outcome :: string
  gr_ErrorCause :: uint32
  gr_Code :: Code

record UDPAddr =
  ua_IP :: bytes
  ua_Port :: int
  ua_Zone :: string

text \<open>
  What \<open>ReadFrom\<close> returns: a datagram with its peer (\<open>None\<close> if that is no UDP address), a time-out, another error, or an error
  after the context was cancelled.
\<close>

datatype dynRead = ReadPacket "UDPAddr option" bytes | ReadTimeout | ReadFailed | ReadCancelled

definition decodeDeclared :: "bytes \<Rightarrow> radius_err + RadiusHeader \<times> bytes" where
  "decodeDeclared packet =
     rbind (radius_DecodeHeader packet) (\<lambda>h.
       if unat (rh_Length h) > length packet then Inl ErrInvalidLength else Inr (h, take (unat (rh_Length h)) packet))"

definition errorCauseOf :: "bytes \<Rightarrow> uint32" where
  "errorCauseOf packet =
     (case rbind (decodeDeclared packet) (\<lambda>(h, declared). attribute_Decode (drop RadiusHeaderSize declared) 0 0) of
        Inl _ \<Rightarrow> 0
      | Inr attrs \<Rightarrow> (case coaUint attrs 101 of None \<Rightarrow> 0 | Some v \<Rightarrow> v))"

text \<open>A datagram answers the request: sent from the destination, with its identifier, an ACK or NAK of its code, and both authenticators.\<close>

definition sameUDPAddr :: "UDPAddr \<Rightarrow> UDPAddr \<Rightarrow> bool" where
  "sameUDPAddr a b \<longleftrightarrow> ua_Port a = ua_Port b \<and> ua_Zone a = ua_Zone b \<and> IP_Equal (ua_IP a) (ua_IP b)"

definition answers :: "bytes \<Rightarrow> Code \<Rightarrow> bytes \<Rightarrow> bytes \<Rightarrow> UDPAddr \<Rightarrow> UDPAddr option \<Rightarrow> bytes \<Rightarrow> OriginateResult option" where
  "answers secret reqCode wire reqAuth addr peer pkt =
     (case (peer, radius_DecodeHeader pkt) of
        (Some remote, Inr h) \<Rightarrow>
          let ack = (if reqCode = CodeDisconnectRequest then CodeDisconnectACK else CodeCoAACK);
              nak = (if reqCode = CodeDisconnectRequest then CodeDisconnectNAK else CodeCoANAK);
              forMA = take 4 pkt @ reqAuth @ drop 20 pkt
          in if \<not> sameUDPAddr remote addr then None
             else if rh_Identifier h \<noteq> wire ! 1 then None
             else if rh_Code h \<noteq> ack \<and> rh_Code h \<noteq> nak then None
             else if ValidateMessageAuthenticator secret forMA \<noteq> Inr () \<or> ValidateResponseAuthenticator secret pkt reqAuth \<noteq> Inr ()
             then None
             else if rh_Code h = nak then Some \<lparr>gr_Outcome = ''nak'', gr_ErrorCause = errorCauseOf pkt, gr_Code = rh_Code h\<rparr>
             else Some \<lparr>gr_Outcome = ''ack'', gr_ErrorCause = 0, gr_Code = rh_Code h\<rparr>
      | _ \<Rightarrow> None)"

text \<open>The read loop of \<open>exchange\<close>; \<open>None\<close> is still waiting when the reads are used up.\<close>

fun exchangeLoop :: "bytes \<Rightarrow> Code \<Rightarrow> bytes \<Rightarrow> bytes \<Rightarrow> UDPAddr \<Rightarrow> dynRead list \<Rightarrow> (originErr + OriginateResult) option" where
  "exchangeLoop secret reqCode wire reqAuth addr [] = None"
| "exchangeLoop secret reqCode wire reqAuth addr (ReadCancelled # rs) = Some (Inl ErrOriginCtx)"
| "exchangeLoop secret reqCode wire reqAuth addr (ReadFailed # rs) = Some (Inl ErrSocket)"
| "exchangeLoop secret reqCode wire reqAuth addr (ReadTimeout # rs) =
     Some (Inr \<lparr>gr_Outcome = ''timeout'', gr_ErrorCause = 0, gr_Code = 0\<rparr>)"
| "exchangeLoop secret reqCode wire reqAuth addr (ReadPacket peer buf # rs) =
     (case answers secret reqCode wire reqAuth addr peer (take 4096 buf) of
        Some out \<Rightarrow> Some (Inr out)
      | None \<Rightarrow> exchangeLoop secret reqCode wire reqAuth addr rs)"

text \<open>
  \<open>dial\<close> is the socket of the exchange: the resolved destination and its reads, or \<open>None\<close> when it cannot be reached. A
  deadline that cannot be set and a failed write are a failed first read: all three return the error of the socket.
\<close>

definition exchange ::
  "(string \<Rightarrow> (UDPAddr \<times> dynRead list) option) \<Rightarrow> bytes \<Rightarrow> string \<Rightarrow> Code \<Rightarrow> bytes \<Rightarrow> bytes \<Rightarrow> (originErr + OriginateResult) option" where
  "exchange dial secret dest reqCode wire reqAuth =
     (case dial dest of
        None \<Rightarrow> Some (Inl (ErrOrigin (WithPath (NewError CodeInvalidArgument ''dynauth destination is not reachable'') ''destination'')))
      | Some (addr, reads) \<Rightarrow> exchangeLoop secret reqCode wire reqAuth addr reads)"

type_synonym originCache = "(string \<times> originateEntry) list"

definition purgeLocked :: "int \<Rightarrow> originCache \<Rightarrow> originCache" where
  "purgeLocked now c = filter (\<lambda>(k, e). oe_deadline e > now) c"

definition cached :: "string \<Rightarrow> int \<Rightarrow> originCache \<Rightarrow> originCache \<times> originateEntry option" where
  "cached key now c =
     (if key = '''' then (c, None)
      else let c = purgeLocked now c
           in (c, case map_of c key of None \<Rightarrow> None | Some e \<Rightarrow> if now > oe_deadline e then None else Some e))"

definition remember :: "string \<Rightarrow> bytes \<Rightarrow> bytes \<Rightarrow> int \<Rightarrow> originCache \<Rightarrow> originCache" where
  "remember key wire auth until c =
     (if key = '''' then c
      else if length c \<ge> 256 then c
      else AList.update key \<lparr>oe_wire = wire, oe_reqAuth = auth, oe_deadline = until\<rparr> c)"

definition Originator_Send ::
  "(string \<Rightarrow> (UDPAddr \<times> dynRead list) option) \<Rightarrow> bool \<Rightarrow> int \<Rightarrow> OriginateRequest \<Rightarrow> originCache \<Rightarrow>
     originCache \<times> (originErr + OriginateResult) option" where
  "Originator_Send dial ctxDone now req c =
     (if ctxDone then (c, Some (Inl ErrOriginCtx))
      else if length (og_Secret req) = 0
      then (c, Some (Inl (ErrOrigin (NewError ''RADIUS_SECRET_MISSING'' ''RADIUS shared secret is not configured''))))
      else if og_Destination req = ''''
      then (c, Some (Inl (ErrOrigin (WithPath (NewError CodeInvalidArgument ''destination is required'') ''destination''))))
      else if og_Code req \<noteq> CodeCoARequest \<and> og_Code req \<noteq> CodeDisconnectRequest
      then (c, Some (Inl (ErrOrigin (NewError CodeInvalidArgument ''dynauth request code must be CoA-Request or Disconnect-Request''))))
      else case cached (og_CacheKey req) now c of
        (c, Some e) \<Rightarrow> (c, exchange dial (og_Secret req) (og_Destination req) (og_Code req) (oe_wire e) (oe_reqAuth e))
      | (c, None) \<Rightarrow>
          (case SignDynAuthRequest (og_Secret req) (og_Code req) (of_int now) (og_Attributes req) of
             Inl e \<Rightarrow> (c, Some (Inl e))
           | Inr wire \<Rightarrow>
               let reqAuth = take 16 (drop 4 wire)
               in (remember (og_CacheKey req) wire reqAuth (now + 15 * 1000000000) c,
                   exchange dial (og_Secret req) (og_Destination req) (og_Code req) wire reqAuth)))"


subsection \<open>What a signed request is\<close>

lemma SignDynAuthRequest_wire:
  assumes "code = CodeCoARequest \<or> code = CodeDisconnectRequest" "CheckSet Builtin (maAttr zero16 # rest) code = Inr ()"
    and "secret \<noteq> []" "AllOf rest 80 = []" "packetFits DefaultBounds (unsignedReply code ident zero16 rest)"
  shows "SignDynAuthRequest secret code ident rest = Inr (wirePacket (sentReply secret code ident zero16 rest))"
proof -
  let ?p = "unsignedReply code ident zero16 rest" and ?mac = "replyMAC secret code ident zero16 rest"
  let ?p2 = "?p\<lparr>pk_Attributes := maAttr ?mac # rest\<rparr>"
  have lit: "\<lparr>pk_Code = code, pk_Identifier = ident, pk_Authenticator = zero16, pk_Attributes = maAttr zero16 # rest\<rparr> = ?p"
      "\<lparr>raw_Type = 80, raw_Value = zero16\<rparr> = maAttr zero16"
    by (simp_all add: unsignedReply_def maAttr_def)
  have p: "signable ?p" using assms(5) by (simp add: signable_def unsignedReply_def)
  have attrs: "pk_Attributes ?p = maAttr zero16 # rest" "length (pk_Authenticator ?p) = 16" by (simp_all add: unsignedReply_def)
  have enc: "radius_Encode ?p = Inr (wirePacket ?p)" using assms(5) by (simp add: radius_Encode_Inr)
  have ma: "theMA (pk_Attributes ?p) = Some zero16" using assms(4) by (simp add: attrs theMA_maAttr)
  have same: "?p\<lparr>pk_Attributes := zeroMA (pk_Attributes ?p)\<rparr> = ?p" using assms(4) by (simp add: attrs zeroMA_maAttr)
  have "pk_Authenticator ?p = zero16" by (simp add: unsignedReply_def)
  then have "?p\<lparr>pk_Authenticator := zero16\<rparr> = ?p" by (cases ?p) simp
  then have "take 4 (wirePacket ?p) @ zero16 @ drop 20 (wirePacket ?p) = wirePacket ?p"
    using patch_authenticator [OF attrs(2), of zero16] by simp
  then have mac: "DynAuthMessageAuthenticator secret (wirePacket ?p) = Inr ?mac"
    using assms(3) by (simp only: DynAuthMessageAuthenticator_def packetWithZeroedMA_wire [OF p ma] same) (simp add: replyMAC_def)
  have lm: "length ?mac = 16" by (simp add: replyMAC_def)
  have "wirePacket ?p = wirePacket (?p\<lparr>pk_Attributes := maAttr zero16 # rest\<rparr>)" by (simp add: unsignedReply_def)
  then have patched: "take 22 (wirePacket ?p) @ ?mac @ drop 38 (wirePacket ?p) = wirePacket ?p2"
    using patch_ma [OF attrs(2) _ lm, of zero16 rest] by simp
  have p2: "signable ?p2" using assms(5) lm by (simp add: signable_def packetFits_def unsignedReply_def)
  have "drop 20 (wirePacket ?p2) = wireOf rawItem (maAttr ?mac # rest)" using attrs(2) by (simp add: drop_wirePacket)
  then have "DynAuthRequestAuthenticator secret (wirePacket ?p2) = Inr (md5 (head4 ?p2 @ zero16 @ wireOf rawItem (maAttr ?mac # rest) @ secret))"
    using assms(3) by (simp add: DynAuthRequestAuthenticator_def declaredHeader_wire [OF p2] md5Concat_def)
  moreover have "head4 ?p2 = head4 ?p" by (simp add: head4_def unsignedReply_def replyMAC_def)
  ultimately have auth: "DynAuthRequestAuthenticator secret (wirePacket ?p2) = Inr (pk_Authenticator (sentReply secret code ident zero16 rest))"
    by (simp add: sentReply_def Let_def)
  have sent: "take 4 (wirePacket ?p2) @ pk_Authenticator (sentReply secret code ident zero16 rest) @ drop 20 (wirePacket ?p2) =
      wirePacket (sentReply secret code ident zero16 rest)"
    using patch_authenticator [of ?p2] by (simp add: unsignedReply_def sentReply_def Let_def)
  note layout = wirePacket_ma_layout [OF attrs(2) _ attrs(1)]
  show ?thesis
    unfolding SignDynAuthRequest_def Let_def lit assms(2) enc sum.case mac patched auth sent using assms(1) layout by auto
qed

lemma SignDynAuthRequest_Inr:
  assumes "SignDynAuthRequest secret code ident rest = Inr w"
  shows "(code = CodeCoARequest \<or> code = CodeDisconnectRequest) \<and> secret \<noteq> [] \<and> AllOf rest 80 = [] \<and>
    packetFits DefaultBounds (unsignedReply code ident zero16 rest) \<and> w = wirePacket (sentReply secret code ident zero16 rest)"
proof -
  let ?p = "unsignedReply code ident zero16 rest"
  have lit: "\<lparr>pk_Code = code, pk_Identifier = ident, pk_Authenticator = zero16, pk_Attributes = maAttr zero16 # rest\<rparr> = ?p"
      "\<lparr>raw_Type = 80, raw_Value = zero16\<rparr> = maAttr zero16"
    by (simp_all add: unsignedReply_def maAttr_def)
  obtain wire mac where enc: "radius_Encode ?p = Inr wire" and m: "DynAuthMessageAuthenticator secret wire = Inr mac"
    and code: "code = CodeCoARequest \<or> code = CodeDisconnectRequest" and set: "CheckSet Builtin (maAttr zero16 # rest) code = Inr ()"
    using assms unfolding SignDynAuthRequest_def Let_def lit by (auto split: if_splits sum.splits)
  have fits: "packetFits DefaultBounds ?p" and wire: "wire = wirePacket ?p" using enc by (simp_all add: radius_Encode_Inr)
  have p: "signable ?p" using fits by (simp add: signable_def unsignedReply_def)
  have attrs: "pk_Attributes ?p = maAttr zero16 # rest" by (simp add: unsignedReply_def)
  have secret: "secret \<noteq> []" using m by (auto simp: DynAuthMessageAuthenticator_def)
  have none: "AllOf rest 80 = []"
  proof (rule ccontr)
    assume "AllOf rest 80 \<noteq> []"
    then have "theMA (pk_Attributes ?p) = None" by (simp add: attrs theMA_maAttr)
    then obtain e where "packetWithZeroedMA (wirePacket ?p) = Inl e" by (rule packetWithZeroedMA_None [OF p])
    then show False using m wire secret by (simp add: DynAuthMessageAuthenticator_def)
  qed
  show ?thesis using assms code secret none fits SignDynAuthRequest_wire [OF code set secret none fits] by simp
qed


text \<open>The packet of a signed request passes the gate of the inbound handler.\<close>

lemma sentRequest_gate:
  assumes "SignDynAuthRequest secret code ident rest = Inr wire"
    and "rq_Role q = RoleDynamicAuthorization" "rq_Packet q = sentReply secret code ident zero16 rest" "rq_Declared q = wire" "rq_Secret q = secret"
  shows "CheckIntegrity q = ''''"
proof -
  note w = SignDynAuthRequest_Inr [OF assms(1)]
  let ?p = "sentReply secret code ident zero16 rest" and ?mac = "replyMAC secret code ident zero16 rest"
  have p: "signable ?p" using sentReply_signable(1) [of zero16] w by simp
  have lm: "length ?mac = 16" by (simp add: replyMAC_def)
  have attrs: "pk_Attributes ?p = maAttr ?mac # rest" by (rule sentReply_fields)
  have "?p\<lparr>pk_Authenticator := zero16, pk_Attributes := zeroMA (pk_Attributes ?p)\<rparr> = unsignedReply code ident zero16 rest"
    using lm w by (simp add: attrs zeroMA_maAttr sentReply_def Let_def unsignedReply_def)
  then have "theMA (pk_Attributes ?p) = Some (hmac_md5 secret (wirePacket (?p\<lparr>pk_Authenticator := zero16, pk_Attributes := zeroMA (pk_Attributes ?p)\<rparr>)))"
    using w lm by (simp only: attrs theMA_maAttr [OF lm]) (simp add: replyMAC_def)
  then have ma: "ValidateDynAuthMessageAuthenticator secret (wirePacket ?p) = Inr ()" using w by (simp add: ValidateDynAuthMA_wire [OF p])
  have "pk_Authenticator ?p = md5 (head4 ?p @ zero16 @ wireOf rawItem (pk_Attributes ?p) @ secret)"
    by (simp add: sentReply_def Let_def head4_def unsignedReply_def replyMAC_def)
  then have ra: "ValidateDynAuthRequestAuthenticator secret (wirePacket ?p) = Inr ()" using w by (simp add: ValidateDynAuthRequest_wire [OF p])
  have "wirePacket ?p \<noteq> []" by (simp add: wirePacket_head4 head4_def)
  then have "declaredPacket q = wirePacket ?p" using assms(4) w by (simp add: declaredPacket_def)
  then show ?thesis
    using assms(2,3,5) w ma ra by (simp add: CheckIntegrity_def checkDynAuthIntegrity_def Let_def attrs wirePacket_head4 head4_def)
qed

subsection \<open>Replies of the inbound handler\<close>

definition dasReplyOf :: "RadiusRequest \<Rightarrow> string \<times> uint32 \<Rightarrow> RadiusResult" where
  "dasReplyOf q o' = (if fst o' = ''ok'' then replyACK q ''ok'' else replyNAK q (fst o') (snd o'))"

text \<open>What the handler decides: nothing, an acknowledgement, or one of three refusals.\<close>

lemma DynamicAuth_reply:
  assumes "DynamicAuth_Handle ctxDone clk q sessions = (sessions', res)" and "rr_Action res = ActionReply"
  shows "CheckIntegrity q = '''' \<and> rq_Role q = RoleDynamicAuthorization \<and>
    (\<exists>o' \<in> {(''ok'', 0), (ReasonUnsupportedAttribute, 401), (ReasonSessionNotFound, 503), (ReasonMultipleSessions, 508)}. res = dasReplyOf q o')"
  using assms by (auto simp: DynamicAuth_Handle_def discard_def dasReplyOf_def Let_def split: prod.splits if_splits option.splits)

lemma AllOf_reply: "AllOf (CopyProxyState s @ extra) 101 = AllOf extra 101"
  by (induction s) (auto simp: CopyProxyState_def)


lemma das_reply_wire:
  assumes "das_reply q code reason extra = res" "rr_Action res = ActionReply" "length (pk_Authenticator (rq_Packet q)) = 16"
  shows "rr_Reason res = reason \<and> (let rest = CopyProxyState (pk_Attributes (rq_Packet q)) @ extra; auth = pk_Authenticator (rq_Packet q) in
    rq_Secret q \<noteq> [] \<and> AllOf rest 80 = [] \<and> packetFits DefaultBounds (unsignedReply code (pk_Identifier (rq_Packet q)) auth rest) \<and>
    rr_Response res = wirePacket (sentReply (rq_Secret q) code (pk_Identifier (rq_Packet q)) auth rest))"
  using assms(1,2) by (auto simp: das_reply_def discard_def SignResponse_Inr [OF assms(3)] Let_def split: sum.splits)

lemma headerOf_length:
  assumes "signable p" shows "unat (rh_Length (headerOf p)) = 20 + WireSize (pk_Attributes p)"
proof -
  have "unat (of_nat (20 + WireSize (pk_Attributes p)) :: uint16) = 20 + WireSize (pk_Attributes p)"
    using signable_size [OF assms] by (simp add: unat_of_nat del: of_nat_add)
  then show ?thesis by (simp add: headerOf_def)
qed

text \<open>A reply signed for a request answers it, with the error cause it carries.\<close>

lemma sent_answers:
  assumes "length auth = 16" "packetFits DefaultBounds (unsignedReply code i auth rest)" "secret \<noteq> []" "AllOf rest 80 = []"
    and "sameUDPAddr remote addr" "wire ! 1 = i"
    and "code = (if reqCode = CodeDisconnectRequest then CodeDisconnectACK else CodeCoAACK) \<and> out = \<lparr>gr_Outcome = ''ack'', gr_ErrorCause = 0, gr_Code = code\<rparr> \<or>
      code = (if reqCode = CodeDisconnectRequest then CodeDisconnectNAK else CodeCoANAK) \<and>
      out = \<lparr>gr_Outcome = ''nak'', gr_ErrorCause = (case coaUint rest 101 of None \<Rightarrow> 0 | Some v \<Rightarrow> v), gr_Code = code\<rparr>"
  shows "answers secret reqCode wire auth addr (Some remote) (wirePacket (sentReply secret code i auth rest)) = Some out"
proof -
  let ?p = "sentReply secret code i auth rest"
  note p = sentReply_signable(1) [OF assms(1,2), of secret]
  have dh: "declaredHeader (wirePacket ?p) = Inr (headerOf ?p, wirePacket ?p)" by (rule declaredHeader_wire [OF p])
  have len: "length (wirePacket ?p) = 20 + WireSize (pk_Attributes ?p)"
    using p by (simp add: wirePacket_head4 signable_def)
  have h: "radius_DecodeHeader (wirePacket ?p) = Inr (headerOf ?p)"
    using dh by (auto simp: declaredHeader_def rbind_eq_Inr Let_def split: if_splits)
  have fields: "rh_Code (headerOf ?p) = code" "rh_Identifier (headerOf ?p) = i" "unat (rh_Length (headerOf ?p)) = length (wirePacket ?p)"
    using headerOf_length [OF p] by (simp_all add: len) (simp_all add: headerOf_def sentReply_fields)
  have "coaUint (pk_Attributes ?p) 101 = coaUint rest 101" by (simp add: sentReply_fields coaUint_def)
  then have cause: "errorCauseOf (wirePacket ?p) = (case coaUint rest 101 of None \<Rightarrow> 0 | Some v \<Rightarrow> v)"
    by (simp add: errorCauseOf_def decodeDeclared_def h fields attrs_wire [OF p])
  have auth: "length (pk_Authenticator ?p) = 16" using p by (simp add: signable_def)
  have forMA: "take 4 (wirePacket ?p) @ auth @ drop 20 (wirePacket ?p) = wirePacket (?p\<lparr>pk_Authenticator := auth\<rparr>)"
    by (rule patch_authenticator [OF auth])
  have ok: "ValidateMessageAuthenticator secret (wirePacket (?p\<lparr>pk_Authenticator := auth\<rparr>)) = Inr ()"
    "ValidateResponseAuthenticator secret (wirePacket ?p) auth = Inr ()"
    using sentReply_validates [OF assms(1-3)] sentReply_ma_validates [OF assms(1-4)] by blast+
  have "answers secret reqCode wire auth addr (Some remote) (wirePacket ?p) =
      (let ack = (if reqCode = CodeDisconnectRequest then CodeDisconnectACK else CodeCoAACK);
           nak = (if reqCode = CodeDisconnectRequest then CodeDisconnectNAK else CodeCoANAK)
       in if code \<noteq> ack \<and> code \<noteq> nak then None
          else if code = nak then Some \<lparr>gr_Outcome = ''nak'', gr_ErrorCause = errorCauseOf (wirePacket ?p), gr_Code = code\<rparr>
          else Some \<lparr>gr_Outcome = ''ack'', gr_ErrorCause = 0, gr_Code = code\<rparr>)"
    unfolding answers_def h option.case sum.case prod.case forMA Let_def ok fields using assms(5,6) by simp
  then show ?thesis using assms(7) unfolding cause Let_def by (elim disjE conjE) simp_all
qed


text \<open>Reads from elsewhere, which the exchange skips.\<close>

definition foreign :: "UDPAddr \<Rightarrow> dynRead \<Rightarrow> bool" where
  "foreign addr r = (case r of ReadPacket (Some remote) _ \<Rightarrow> \<not> sameUDPAddr remote addr | ReadPacket None _ \<Rightarrow> True | _ \<Rightarrow> False)"

lemma exchange_skips:
  "list_all (foreign addr) junk \<Longrightarrow> exchangeLoop secret code wire auth addr (junk @ rs) = exchangeLoop secret code wire auth addr rs"
proof (induction junk)
  case (Cons r junk)
  have "answers secret code wire auth addr peer (take 4096 buf) = None" if "foreign addr (ReadPacket peer buf)" for peer buf
    using that by (cases peer) (auto simp: foreign_def answers_def Let_def split: sum.split)
  with Cons show ?case by (cases r) (auto simp: foreign_def)
qed simp

definition dynOutcome :: "string \<Rightarrow> string \<times> uint32" where
  "dynOutcome reason =
     (if reason = ''ok'' then (''ack'', 0) else if reason = ReasonUnsupportedAttribute then (''nak'', 401)
      else if reason = ReasonSessionNotFound then (''nak'', 503) else (''nak'', 508))"

lemma coaUint_cause: "coaUint (CopyProxyState s @ [\<lparr>raw_Type = 101, raw_Value = PutUint32_BE v\<rparr>]) 101 = Some v"
  by (simp add: coaUint_def AllOf_reply PutUint32_BE_def Uint32_PutUint32)

text \<open>
  Property C18. Both ends of a dynamic authorization agree. A request signed by the originator passes the integrity
  gate of the inbound handler under the same secret. If the handler answers it, the originator, whatever
  datagrams arrive from elsewhere before, takes the answer, and its outcome is the handler's decision: acknowledged, or
  refused with error cause 401 for an unsupported attribute, 503 for no session and 508 for several.
\<close>

theorem dynauth_round_trip:
  assumes "SignDynAuthRequest secret code ident rest = Inr wire"
    and "radius_Decode wire = Inr (rq_Packet q)" "rq_Declared q = wire" "rq_Secret q = secret" "rq_Role q = RoleDynamicAuthorization"
    and "DynamicAuth_Handle False clk q sessions = (sessions', res)" "rr_Action res = ActionReply"
    and "sameUDPAddr remote addr" "list_all (foreign addr) junk"
  shows "CheckIntegrity q = '''' \<and> (\<exists>c. exchangeLoop secret code wire (take 16 (drop 4 wire)) addr
      (junk @ ReadPacket (Some remote) (rr_Response res) # later) =
    Some (Inr \<lparr>gr_Outcome = fst (dynOutcome (rr_Reason res)), gr_ErrorCause = snd (dynOutcome (rr_Reason res)), gr_Code = c\<rparr>))"
proof -
  note w = SignDynAuthRequest_Inr [OF assms(1)]
  let ?p = "sentReply secret code ident zero16 rest" and ?rest = "CopyProxyState (pk_Attributes (rq_Packet q))"
  have p: "signable ?p" using sentReply_signable(1) [of zero16] w by simp
  have pkt: "rq_Packet q = ?p" using assms(2) w signable_Decode [OF p] by simp
  have gate: "CheckIntegrity q = ''''" by (rule sentRequest_gate [OF assms(1,5) pkt assms(3,4)])
  have wire: "wire = wirePacket ?p" using w by blast
  have len: "length (pk_Authenticator ?p) = 16" using p by (simp add: signable_def)
  have auth: "length (pk_Authenticator (rq_Packet q)) = 16" "take 16 (drop 4 wire) = pk_Authenticator (rq_Packet q)" "wire ! 1 = pk_Identifier (rq_Packet q)"
    "pk_Code (rq_Packet q) = code"
    unfolding pkt wire by (simp_all only: len sentReply_fields) (simp_all add: wirePacket_head4 len, simp add: head4_def sentReply_fields)
  obtain o' where o': "res = dasReplyOf q o'" "o' \<in> {(''ok'', 0), (ReasonUnsupportedAttribute, 401), (ReasonSessionNotFound, 503), (ReasonMultipleSessions, 508)}"
    using DynamicAuth_reply [OF assms(6,7)] by (elim conjE bexE) (rule that)
  obtain rc extra where rep: "das_reply q rc (fst o') extra = res" and out:
    "rc = (if code = CodeDisconnectRequest then CodeDisconnectACK else CodeCoAACK) \<and> extra = [] \<and> fst o' = ''ok'' \<and> snd o' = 0 \<or>
     rc = (if code = CodeDisconnectRequest then CodeDisconnectNAK else CodeCoANAK) \<and> fst o' \<noteq> ''ok'' \<and> extra = [\<lparr>raw_Type = 101, raw_Value = PutUint32_BE (snd o')\<rparr>]"
    using o' by (cases "fst o' = ''ok''") (auto simp: dasReplyOf_def replyACK_def replyNAK_def auth(4))
  note rep_wire = das_reply_wire [OF rep assms(7) auth(1), unfolded Let_def]
  let ?out = "\<lparr>gr_Outcome = fst (dynOutcome (fst o')), gr_ErrorCause = snd (dynOutcome (fst o')), gr_Code = rc\<rparr>"
  have "(case coaUint (?rest @ extra) 101 of None \<Rightarrow> 0 | Some v \<Rightarrow> v) = snd o'" using out o'(2)
    by (elim disjE conjE) (simp_all add: coaUint_cause, simp add: coaUint_def AllOf_reply [of _ "[]", simplified])
  then have "answers secret code wire (pk_Authenticator (rq_Packet q)) addr (Some remote) (rr_Response res) = Some ?out"
    using rep_wire out o'(2) assms(4) by (simp only:) (rule sent_answers [OF auth(1) _ _ _ assms(8) auth(3)], auto simp: dynOutcome_def)
  moreover have "length (rr_Response res) \<le> 4096"
  proof -
    note s = sentReply_signable(1) [OF auth(1), of rc "pk_Identifier (rq_Packet q)" "?rest @ extra" "rq_Secret q"]
    show ?thesis using rep_wire signable_size [OF s] s by (simp add: wirePacket_head4 signable_def)
  qed
  ultimately have "exchangeLoop secret code wire (pk_Authenticator (rq_Packet q)) addr (ReadPacket (Some remote) (rr_Response res) # later) = Some (Inr ?out)"
    by simp
  then show ?thesis using gate rep_wire by (simp add: exchange_skips [OF assms(9)] auth(2))
qed


subsection \<open>What the inbound handler changes\<close>

lemma index_Delete_abs:
  assumes "index_ok s" "sk_AcctSessionID k \<noteq> ''''"
  shows "index_ok (fst (index_Delete k now s)) \<and> index_abs (fst (index_Delete k now s)) = (liveAt now (ix_ttl s) (index_abs s))(k := None)"
proof -
  note e = expire_index_ok [OF assms(1), of now]
  then have "map_of (ix_byKey (index_expireLocked now s)) k = None \<longleftrightarrow> liveAt now (ix_ttl s) (index_abs s) k = None"
    using index_abs_None [of "index_expireLocked now s" k] by metis
  with e assms(2) deleteKeyLocked_ok [of "index_expireLocked now s" k] show ?thesis
    by (auto simp: index_Delete_def Let_def fun_upd_idem)
qed

lemma StoreLastCoA_abs:
  assumes "index_ok s" "sk_AcctSessionID k \<noteq> ''''"
  shows "index_abs (fst (StoreLastCoA k lc now now' s)) =
    (liveAt now (ix_ttl s) (index_abs s))(k := map_option (\<lambda>rec. rec\<lparr>sr_LastCoA := lc, sr_LastUpdate := now'\<rparr>) (liveAt now (ix_ttl s) (index_abs s) k))"
proof -
  let ?e = "index_expireLocked now s"
  note e = expire_index_ok [OF assms(1), of now]
  show ?thesis
  proof (cases "map_of (ix_byKey ?e) k")
    case None
    with e have "liveAt now (ix_ttl s) (index_abs s) k = None" using index_abs_None [of ?e k] by metis
    with None e assms(2) show ?thesis by (simp add: StoreLastCoA_def Let_def fun_upd_idem)
  next
    case (Some h)
    with e obtain rec where rec: "map_of (ix_byHandle ?e) h = Some rec" "sr_Key rec = k" "index_abs ?e k = Some rec" using index_abs_byKey by blast
    with Some e assms(2) put_record_ok [of ?e h rec "rec\<lparr>sr_LastCoA := lc, sr_LastUpdate := now'\<rparr>"] show ?thesis
      by (auto simp: StoreLastCoA_def Let_def)
  qed
qed

text \<open>The live sessions a request selects, and what becomes of the sessions when it is applied to one.\<close>

definition dasHits :: "RadiusRequest \<Rightarrow> (SessionKey \<Rightarrow> SessionRecord option) \<Rightarrow> SessionRecord set" where
  "dasHits q live = {rec \<in> ran live. dasMatch (dasQuery (pk_Attributes (rq_Packet q))) rec}"

definition dynApplied :: "RadiusRequest \<Rightarrow> int \<Rightarrow> SessionRecord \<Rightarrow> (SessionKey \<Rightarrow> SessionRecord option) \<Rightarrow> SessionKey \<Rightarrow> SessionRecord option" where
  "dynApplied q t rec live =
     live(sr_Key rec := (if pk_Code (rq_Packet q) = CodeDisconnectRequest then None
       else map_option (\<lambda>r. r\<lparr>sr_LastCoA := lastCoAFrom (pk_Attributes (rq_Packet q)), sr_LastUpdate := t\<rparr>) (live (sr_Key rec))))"

lemma FindDAS_hit:
  assumes "index_ok ix" "FindDAS (dasQuery (pk_Attributes (rq_Packet q))) now ix = (ix1, Some rec, n)"
  shows "ix1 = index_expireLocked now ix \<and> n = 1 \<and> dasHits q (liveAt now (ix_ttl ix) (index_abs ix)) = {rec} \<and> sk_AcctSessionID (sr_Key rec) \<noteq> ''''"
proof -
  let ?e = "index_expireLocked now ix"
  note e = expire_index_ok [OF assms(1), of now]
  have hit: "ix1 = ?e" "n = 1" "filter (dasMatch (dasQuery (pk_Attributes (rq_Packet q)))) (map snd (ix_byHandle ?e)) = [rec]"
    using assms(2) by (auto simp: FindDAS_def Let_def split: list.splits)
  have d: "distinct (map fst (ix_byHandle ?e))" using e by (simp add: index_ok_def)
  have "r \<in> ran (index_abs ?e) \<longleftrightarrow> (\<exists>h. map_of (ix_byHandle ?e) h = Some r)" for r
    using index_abs_Some [of ?e _ r] e unfolding ran_def by blast
  then have "ran (index_abs ?e) = snd ` set (ix_byHandle ?e)" using d by (force simp: image_iff)
  then have "dasHits q (index_abs ?e) = set (filter (dasMatch (dasQuery (pk_Attributes (rq_Packet q)))) (map snd (ix_byHandle ?e)))"
    by (auto simp: dasHits_def)
  then have hits: "dasHits q (index_abs ?e) = {rec}" using hit(3) by simp
  then obtain k where "index_abs ?e k = Some rec" unfolding dasHits_def ran_def by blast
  then have "sk_AcctSessionID (sr_Key rec) \<noteq> ''''" using index_abs_Some [of ?e k rec] e unfolding index_ok_def by blast
  with hit hits e show ?thesis by simp
qed

text \<open>
  Property C17. Inbound dynamic authorization changes one session or none. Either the sessions are those before the
  request, up to expiry, and the answer is not an acknowledgement, or the request carried a valid
  Message-Authenticator and request authenticator, names a session or a user, exactly one live session
  matches it, and this session alone is removed (Disconnect-Request) or given the new attributes (CoA-Request); a reply to it
  is the acknowledgement.
\<close>

theorem dynauth_effect:
  assumes "index_ok ix" and "DynamicAuth_Handle ctxDone (t1, t2, t3) q (Some ix) = (sessions', res)"
  shows "\<exists>ix'. sessions' = Some ix' \<and> index_ok ix' \<and> (let live = liveAt t1 (ix_ttl ix) (index_abs ix) in
    (index_abs ix' = index_abs ix \<or> index_abs ix' = live) \<and> rr_Reason res \<noteq> ''ok'' \<or>
    CheckIntegrity q = '''' \<and> rq_Role q = RoleDynamicAuthorization \<and>
      (das_SessionID (dasQuery (pk_Attributes (rq_Packet q))) \<noteq> '''' \<or> das_UserID (dasQuery (pk_Attributes (rq_Packet q))) \<noteq> '''') \<and>
      (\<exists>rec. dasHits q live = {rec} \<and> index_abs ix' = dynApplied q t3 rec (liveAt t2 (ix_ttl ix) live)) \<and>
      (rr_Action res = ActionReply \<longrightarrow> rr_Reason res = ''ok''))"
proof -
  have nak: "rr_Reason (replyNAK q reason cause) \<noteq> ''ok''" if "reason \<noteq> ''ok''" for reason cause
    using that by (simp add: replyNAK_def das_reply_def discard_def split: sum.split)
  have ack: "rr_Action (replyACK q ''ok'') = ActionReply \<longrightarrow> rr_Reason (replyACK q ''ok'') = ''ok''"
    by (simp add: replyACK_def das_reply_def discard_def split: sum.split)
  note e = expire_index_ok [OF assms(1), of t1]
  let ?q = "dasQuery (pk_Attributes (rq_Packet q))"
  have dis: "rr_Reason (discard r) = r" for r by (simp add: discard_def)
  have bad: "rq_Role q = RoleDynamicAuthorization \<Longrightarrow> CheckIntegrity q \<noteq> ''ok''"
    by (simp add: CheckIntegrity_def checkDynAuthIntegrity_def Let_def)
  show ?thesis
  proof (cases "\<exists>ix1 rec. das_lookup (pk_Attributes (rq_Packet q)) t1 (Some ix) = (Some ix1, Some rec, 1) \<and> \<not> ctxDone \<and>
      rq_Role q = RoleDynamicAuthorization \<and> (pk_Code (rq_Packet q) = CodeCoARequest \<or> pk_Code (rq_Packet q) = CodeDisconnectRequest) \<and>
      CheckIntegrity q = '''' \<and> \<not> firstUnsupportedDynAuthAttr (pk_Code (rq_Packet q)) (pk_Attributes (rq_Packet q))")
    case True
    then obtain ix1 rec where l: "das_lookup (pk_Attributes (rq_Packet q)) t1 (Some ix) = (Some ix1, Some rec, 1)" by blast
    then have find: "FindDAS ?q t1 ix = (ix1, Some rec, 1)" and named: "das_SessionID ?q \<noteq> '''' \<or> das_UserID ?q \<noteq> ''''"
      by (auto simp: das_lookup_def Let_def split: if_splits prod.splits)
    note hit = FindDAS_hit [OF assms(1) find]
    have ok1: "index_ok ix1" and abs1: "index_abs ix1 = liveAt t1 (ix_ttl ix) (index_abs ix)" and ttl: "ix_ttl ix1 = ix_ttl ix" using hit e by auto
    have hits: "dasHits q (liveAt t1 (ix_ttl ix) (index_abs ix)) = {rec}" and key: "sk_AcctSessionID (sr_Key rec) \<noteq> ''''" using hit by blast+
    note del = index_Delete_abs [OF ok1 key, of t2, unfolded abs1 ttl]
    note store = StoreLastCoA_abs [OF ok1 key, of _ t2, unfolded abs1 ttl] StoreLastCoA_index_ok [OF ok1]
    let ?ix = "if pk_Code (rq_Packet q) = CodeDisconnectRequest then fst (index_Delete (sr_Key rec) t2 ix1)
        else fst (StoreLastCoA (sr_Key rec) (lastCoAFrom (pk_Attributes (rq_Packet q))) t2 t3 ix1)"
    have res: "res = replyACK q ''ok''" "sessions' = Some ?ix"
      using assms(2) True l by (auto simp: DynamicAuth_Handle_def Let_def split: if_splits)
    have "index_ok ?ix" "index_abs ?ix = dynApplied q t3 rec (liveAt t2 (ix_ttl ix) (liveAt t1 (ix_ttl ix) (index_abs ix)))"
      using del store by (simp_all add: dynApplied_def)
    then show ?thesis
      unfolding Let_def using True named hits ack res(1) by (intro exI [of _ ?ix] conjI res(2)) blast+
  next
    case False
    have "das_lookup (pk_Attributes (rq_Packet q)) t1 (Some ix) = (Some ix, None, 0) \<or>
        (\<exists>rec n. das_lookup (pk_Attributes (rq_Packet q)) t1 (Some ix) = (Some (index_expireLocked t1 ix), rec, n) \<and> (n = 1 \<longrightarrow> rec \<noteq> None))"
      by (auto simp: das_lookup_def FindDAS_def Let_def split: list.split)
    then show ?thesis
      using assms False nak bad e by (elim disjE exE conjE)
        (auto simp: DynamicAuth_Handle_def Let_def dis split: if_splits option.splits)
  qed
qed

subsection \<open>Witnesses\<close>

text \<open>A session that was started, and the signed request to disconnect it.\<close>

definition wit_disconnect :: RadiusRequest where
  "wit_disconnect = (let p = sentReply [1] CodeDisconnectRequest 7 zero16 wit_dasAttrs in
     wit_access\<lparr>rq_Role := RoleDynamicAuthorization, rq_Packet := p, rq_Declared := wirePacket p, rq_Secret := [1]\<rparr>)"

definition wit_session :: SessionIndex where
  "wit_session = fst (index_Apply wit_start 1 1 wit_index)"

lemma wit_disconnect_fields:
  "rq_Role wit_disconnect = RoleDynamicAuthorization" "rq_Secret wit_disconnect = [1]"
  "rq_Packet wit_disconnect = sentReply [1] CodeDisconnectRequest 7 zero16 wit_dasAttrs"
  "rq_Declared wit_disconnect = wirePacket (sentReply [1] CodeDisconnectRequest 7 zero16 wit_dasAttrs)"
  by (simp_all add: wit_disconnect_def Let_def)

lemma wit_disconnect_fits: "AllOf wit_dasAttrs 80 = []" "packetFits DefaultBounds (unsignedReply CodeDisconnectRequest 7 zero16 wit_dasAttrs)"
  by (simp add: wit_dasAttrs_def, simp add: packetFits_def unsignedReply_def wit_dasAttrs_def maAttr_def rawFits_def WireLength_def)

lemma wit_disconnect_signed:
  "SignDynAuthRequest [1] CodeDisconnectRequest 7 wit_dasAttrs = Inr (rq_Declared wit_disconnect)"
  "radius_Decode (rq_Declared wit_disconnect) = Inr (rq_Packet wit_disconnect)"
proof -
  show "SignDynAuthRequest [1] CodeDisconnectRequest 7 wit_dasAttrs = Inr (rq_Declared wit_disconnect)"
    unfolding wit_disconnect_fields using wit_disconnect_fits Builtin_facts(6)
    by (intro SignDynAuthRequest_wire) (simp_all add: maAttr_def)
  show "radius_Decode (rq_Declared wit_disconnect) = Inr (rq_Packet wit_disconnect)"
    unfolding wit_disconnect_fields using wit_disconnect_fits by (intro signable_Decode sentReply_signable(1)) simp_all
qed

lemma wit_session_found:
  "case FindDAS \<lparr>das_ClientID = '''', das_SessionID = ''s'', das_UserID = '''', das_NASIP = None, das_NASIdentifier = ''''\<rparr> 2 wit_session of
     (_, rec, n) \<Rightarrow> rec \<noteq> None \<and> n = 1"
  by code_simp

lemma wit_disconnect_handled:
  "\<exists>ix res. DynamicAuth_Handle False (2, 2, 2) wit_disconnect (Some wit_session) = (Some ix, res) \<and>
     rr_Action res = ActionReply \<and> rr_Reason res = ''ok''"
proof -
  let ?q = wit_disconnect and ?attrs = "pk_Attributes (rq_Packet wit_disconnect)"
  have attrs: "?attrs = maAttr (replyMAC [1] CodeDisconnectRequest 7 zero16 wit_dasAttrs) # wit_dasAttrs" "pk_Code (rq_Packet ?q) = CodeDisconnectRequest"
    unfolding wit_disconnect_fields by (simp_all add: sentReply_fields)
  have gate: "CheckIntegrity ?q = ''''" by (rule sentRequest_gate [OF wit_disconnect_signed(1)]) (simp_all add: wit_disconnect_fields)
  have allowed: "\<not> firstUnsupportedDynAuthAttr CodeDisconnectRequest ?attrs"
    unfolding attrs by (simp add: firstUnsupportedDynAuthAttr_def dynAuthAttrAllowed_def wit_dasAttrs_def maAttr_def)
  have "string_of_bytes [115] = ''s''" by code_simp
  then have query: "dasQuery ?attrs = \<lparr>das_ClientID = '''', das_SessionID = ''s'', das_UserID = '''', das_NASIP = None, das_NASIdentifier = ''''\<rparr>"
    unfolding attrs by (simp add: dasQuery_def das_text_def wit_dasAttrs_def maAttr_def)
  obtain ix rec where "das_lookup ?attrs 2 (Some wit_session) = (Some ix, Some rec, 1)"
    using wit_session_found by (auto simp: das_lookup_def query split: prod.splits)
  then have h: "DynamicAuth_Handle False (2, 2, 2) ?q (Some wit_session) = (Some (fst (index_Delete (sr_Key rec) 2 ix)), replyACK ?q ''ok'')"
    using gate allowed attrs(2) by (simp add: DynamicAuth_Handle_def wit_disconnect_fields(1))
  have none: "CopyProxyState ?attrs = []" unfolding attrs by (simp add: CopyProxyState_def wit_dasAttrs_def maAttr_def)
  have auth: "length (pk_Authenticator (rq_Packet ?q)) = 16"
    unfolding wit_disconnect_fields using sentReply_signable(1) [OF _ wit_disconnect_fits(2)] by (simp add: signable_def)
  then have "packetFits DefaultBounds (unsignedReply CodeDisconnectACK (pk_Identifier (rq_Packet ?q)) (pk_Authenticator (rq_Packet ?q)) [])"
    by (simp add: packetFits_def unsignedReply_def maAttr_def rawFits_def WireLength_def)
  then obtain w where "SignResponse [1] CodeDisconnectACK (pk_Identifier (rq_Packet ?q)) (pk_Authenticator (rq_Packet ?q)) [] = Inr w"
    using SignResponse_Inr [OF auth, of "[1]"] by simp
  then have "rr_Action (replyACK ?q ''ok'') = ActionReply \<and> rr_Reason (replyACK ?q ''ok'') = ''ok''"
    by (simp only: replyACK_def das_reply_def none attrs(2) wit_disconnect_fields(2) if_True append.simps sum.case) simp
  with h show ?thesis by blast
qed

theorem dynauth_round_trip_witness:
  "\<exists>ix res c. DynamicAuth_Handle False (2, 2, 2) wit_disconnect (Some wit_session) = (Some ix, res) \<and>
     exchangeLoop [1] CodeDisconnectRequest (rq_Declared wit_disconnect) (take 16 (drop 4 (rq_Declared wit_disconnect)))
       \<lparr>ua_IP = [10, 0, 0, 1], ua_Port = 3799, ua_Zone = ''''\<rparr>
       [ReadPacket (Some \<lparr>ua_IP = [10, 0, 0, 2], ua_Port = 3799, ua_Zone = ''''\<rparr>) [],
        ReadPacket (Some \<lparr>ua_IP = [10, 0, 0, 1], ua_Port = 3799, ua_Zone = ''''\<rparr>) (rr_Response res)] =
     Some (Inr \<lparr>gr_Outcome = ''ack'', gr_ErrorCause = 0, gr_Code = c\<rparr>)"
proof -
  obtain ix res where h: "DynamicAuth_Handle False (2, 2, 2) wit_disconnect (Some wit_session) = (Some ix, res)"
      "rr_Action res = ActionReply" "rr_Reason res = ''ok''"
    using wit_disconnect_handled by blast
  show ?thesis
    using dynauth_round_trip [OF wit_disconnect_signed refl wit_disconnect_fields(2,1) h(1,2),
        of "\<lparr>ua_IP = [10, 0, 0, 1], ua_Port = 3799, ua_Zone = ''''\<rparr>" "\<lparr>ua_IP = [10, 0, 0, 1], ua_Port = 3799, ua_Zone = ''''\<rparr>"
          "[ReadPacket (Some \<lparr>ua_IP = [10, 0, 0, 2], ua_Port = 3799, ua_Zone = ''''\<rparr>) []]" "[]"] h(1)
    by (simp add: sameUDPAddr_def IP_Equal_def foreign_def h(3) dynOutcome_def)
qed

theorem dynauth_effect_witness:
  "\<exists>ix res rec. DynamicAuth_Handle False (2, 2, 2) wit_disconnect (Some wit_session) = (Some ix, res) \<and> rr_Reason res = ''ok'' \<and>
     dasHits wit_disconnect (liveAt 2 10 (index_abs wit_session)) = {rec} \<and> index_abs ix (sr_Key rec) = None"
proof -
  obtain ix res where h: "DynamicAuth_Handle False (2, 2, 2) wit_disconnect (Some wit_session) = (Some ix, res)" "rr_Reason res = ''ok''"
    using wit_disconnect_handled by blast
  have "index_reach 1 300 10 wit_session"
    using icall [OF wit_index_start, of "CallApply wit_start 1 1"] by (simp add: wit_session_def)
  then have "index_ok wit_session" "ix_ttl wit_session = 10" using index_reach_ok by blast+
  moreover have "pk_Code (rq_Packet wit_disconnect) = CodeDisconnectRequest"
    unfolding wit_disconnect_fields by (rule sentReply_fields)
  ultimately show ?thesis
    using dynauth_effect [OF _ h(1)] h by (auto simp: Let_def dynApplied_def)
qed

end
