(* ===== verification/Aaa_Author.thy ===== *)
theory Aaa_Author
  imports Aaa_Authen_Proofs Policy_Evaluate Domain_Enums
begin

text \<open>
  TACACS+ authorization and accounting in the AAA service (\<open>internal/aaa/author.go\<close>, \<open>account.go\<close>, \<open>dictionary.go\<close>): the
  request with its attribute-value pairs is handed to the policy engine of the published snapshot, the
  trace is redacted, and an event is recorded; an accounting record is checked, parsed and accepted by the event
  ring. Times are nanoseconds: the time zone of a parsed epoch is the way it is displayed and not part of
  the instant. Metrics and the details attached to errors are left out.
\<close>

subsection \<open>Data\<close>

record AuthorizationRequest =
  azq_UserID :: string
  azq_ClientID :: string
  azq_Service :: string
  azq_Protocol :: string
  azq_Cmd :: string
  azq_CmdArgs :: "string list"
  azq_Arguments :: AVPairs
  azq_AuthenMethod :: byte
  azq_AuthenType :: byte
  azq_AuthenService :: byte
  azq_Privilege :: byte
  azq_Port :: string
  azq_Remote :: string
  azq_Revision :: uint64
  azq_Transport :: string
  azq_SessionID :: uint32

text \<open>The trace of the service is the engine's with four fields of the request.\<close>

record PolicyTrace = Trace +
  pt_AuthenType :: string
  pt_AuthenService :: string
  pt_Port :: string
  pt_Remote :: string

record AuthorizationDecision =
  azd_Decision :: AuthorDecision
  azd_Status :: AuthorStatus
  azd_Arguments :: AVPairs
  azd_Trace :: PolicyTrace

record AccountingRecord =
  acc_Flags :: byte
  acc_UserID :: string
  acc_ClientID :: string
  acc_SessionID :: uint32
  acc_Arguments :: AVPairs
  acc_Revision :: uint64
  acc_Transport :: string
  acc_Port :: string
  acc_Remote :: string
  acc_AuthenMethod :: byte
  acc_Privilege :: byte
  acc_AuthenType :: byte
  acc_Service :: byte

abbreviation (input) AcctFlagStart :: byte where "AcctFlagStart \<equiv> 0x02"
abbreviation (input) AcctFlagStop :: byte where "AcctFlagStop \<equiv> 0x04"
abbreviation (input) AcctFlagWatchdog :: byte where "AcctFlagWatchdog \<equiv> 0x08"
abbreviation (input) AcctFlagWatchdogUpdate :: byte where "AcctFlagWatchdogUpdate \<equiv> 0x0a"

definition aaa_ValidAcctFlags :: "byte \<Rightarrow> bool" where
  "aaa_ValidAcctFlags f \<longleftrightarrow> f \<in> set [AcctFlagStart, AcctFlagStop, AcctFlagWatchdog, AcctFlagWatchdogUpdate]"

subsection \<open>Requests for the policy engine\<close>

text \<open>The first pair named \<open>service\<close>, \<open>protocol\<close> or \<open>cmd\<close> and every \<open>cmd-arg\<close> win over the typed fields.\<close>

definition applyWireAVs :: "AuthorizationRequest \<Rightarrow> AuthorizationRequest" where
  "applyWireAVs req =
     (let args = azq_Arguments req;
          first = (\<lambda>name d. case firstAV args name of Some v \<Rightarrow> v | None \<Rightarrow> d);
          cmdArgs = map av_Value (filter (\<lambda>p. av_Name p = ''cmd-arg'') args)
      in if length args = 0 then req
         else req\<lparr>azq_Service := first ''service'' (azq_Service req), azq_Protocol := first ''protocol'' (azq_Protocol req),
                  azq_Cmd := first ''cmd'' (azq_Cmd req), azq_CmdArgs := (if cmdArgs = [] then azq_CmdArgs req else cmdArgs)\<rparr>)"

definition toPolicyRequest :: "AuthorizationRequest \<Rightarrow> Request" where
  "toPolicyRequest req0 =
     (let req = applyWireAVs req0
      in \<lparr>prq_UserID = azq_UserID req, prq_ClientID = azq_ClientID req, prq_Service = azq_Service req, prq_Protocol = azq_Protocol req,
          prq_Cmd = azq_Cmd req, prq_CmdArgs = azq_CmdArgs req, prq_Arguments = azq_Arguments req, prq_AuthenMethod = azq_AuthenMethod req,
          prq_Privilege = azq_Privilege req, prq_Port = azq_Port req, prq_RemoteAddr = azq_Remote req\<rparr>)"

subsection \<open>Traces\<close>

definition sensitiveAVName :: "string \<Rightarrow> bool" where
  "sensitiveAVName name \<longleftrightarrow>
     (let n = ToLower name
      in n \<in> set [''password'', ''passwd'', ''secret'', ''key'', ''token'', ''chap'', ''mschap'', ''ms-chap'', ''mschapv1'', ''mschapv2'', ''ms-chap-v2'', ''challenge''] \<or>
         list_ex (Contains n) [''password'', ''passwd'', ''secret'', ''token'', ''chap'', ''challenge''] \<or>
         HasSuffix n ''-key'' \<or> HasSuffix n ''_key'')"

definition redactTraceAVs :: "TraceAV list \<Rightarrow> TraceAV list" where
  "redactTraceAVs avs = map (\<lambda>a. if sensitiveAVName (tav_Name a) then a\<lparr>tav_Value := ''[redacted]''\<rparr> else a) avs"

definition redactTrace :: "PolicyTrace \<Rightarrow> PolicyTrace" where
  "redactTrace tr =
     tr\<lparr>tr_RequestArguments := redactTraceAVs (tr_RequestArguments tr), tr_Arguments := redactTraceAVs (tr_Arguments tr)\<rparr>"

definition copyTrace :: "Trace \<Rightarrow> PolicyTrace" where
  "copyTrace tr = Trace.extend tr (PolicyTrace.fields '''' '''' '''' '''')"

definition finishTrace :: "AuthorizationRequest \<Rightarrow> PolicyResult \<Rightarrow> PolicyTrace" where
  "finishTrace req res =
     redactTrace ((copyTrace (res_Trace res))\<lparr>pt_Port := azq_Port req, pt_Remote := azq_Remote req,
       pt_AuthenType := AuthenType_String (azq_AuthenType req), pt_AuthenService := AuthenService_String (azq_AuthenService req)\<rparr>)"

definition errorTrace :: "string \<Rightarrow> PolicyTrace" where
  "errorTrace reason = (copyTrace zero_Trace)\<lparr>tr_Error := reason, tr_Status := AuthorStatus_String StError\<rparr>"

definition errorDecision :: "string \<Rightarrow> AuthorizationDecision" where
  "errorDecision reason = \<lparr>azd_Decision = DecisionUnset, azd_Status = StError, azd_Arguments = [], azd_Trace = errorTrace reason\<rparr>"

subsection \<open>Authorization\<close>

text \<open>
  The engine of the snapshot was compiled with the clock of the manager and reads it in every evaluation. The
  reading is that of the moment of the call (\<open>en_now\<close>), not of the publication: the manager and the
  service run on the same clock of the process.
\<close>

text \<open>The evaluator result beside an error: an empty one with status ERROR.\<close>

definition noResult :: PolicyResult where
  "noResult = \<lparr>res_Decision = DecisionUnset, res_Status = StError, res_Arguments = [], res_Trace = zero_Trace\<rparr>"

definition aaa_Evaluate ::
  "('re \<Rightarrow> string \<Rightarrow> bool) \<Rightarrow> int option \<Rightarrow> 're PolicyEngine option \<Rightarrow> AuthorizationRequest \<Rightarrow> PolicyTrace \<times> PolicyResult \<times> Error option" where
  "aaa_Evaluate reMatch now eng req =
     (if eng = None then (errorTrace ''policy engine is not compiled'', noResult, Some (NewError ''internal'' ''policy engine is not compiled''))
      else let res = Authorize reMatch now eng (toPolicyRequest req) in (finishTrace req res, res, None))"

definition svc_engine :: "'re StateSnapshot option \<Rightarrow> Error + 're PolicyEngine" where
  "svc_engine snap =
     (case snap of
        None \<Rightarrow> Inl (NewError CodeUnavailable ''no published snapshot'')
      | Some sn \<Rightarrow>
          (case sn_tacacsPolicies sn of None \<Rightarrow> Inl (NewError CodeUnavailable ''policy engine is not compiled'') | Some e \<Rightarrow> Inr e))"

definition svc_evaluate ::
  "('re \<Rightarrow> string \<Rightarrow> bool) \<Rightarrow> int option \<Rightarrow> 're AAAService \<Rightarrow> AuthorizationRequest \<Rightarrow> PolicyTrace \<times> PolicyResult \<times> Error option" where
  "svc_evaluate reMatch now s req =
     (case svc_engine (svc_snap s) of
        Inl e \<Rightarrow> (errorTrace (Error_Error e), noResult, Some e)
      | Inr eng \<Rightarrow> aaa_Evaluate reMatch now (Some eng) req)"

fun checkArgs :: "string \<Rightarrow> int \<Rightarrow> AVPairs \<Rightarrow> Error + unit" where
  "checkArgs name mx [] = Inr ()"
| "checkArgs name mx (a # as) = rbind (CheckBytes name (length (av_Name a @ ''='' @ av_Value a)) mx) (\<lambda>_. checkArgs name mx as)"

text \<open>A configured limit when positive, else the default.\<close>

definition pickLimit :: "'re AAAService \<Rightarrow> (Document \<Rightarrow> int) \<Rightarrow> int \<Rightarrow> int" where
  "pickLimit s f d = (case Option.bind (svc_snap s) sn_settings of None \<Rightarrow> d | Some doc \<Rightarrow> if f doc > 0 then f doc else d)"

definition maxArgCount :: "'re AAAService \<Rightarrow> int" where
  "maxArgCount s = pickLimit s (\<lambda>doc. set_MaxAuthorizationArguments (doc_Settings doc)) 256"

definition maxArgSize :: "'re AAAService \<Rightarrow> int" where
  "maxArgSize s = pickLimit s (\<lambda>doc. set_MaxArgumentBytes (doc_Settings doc)) 65535"

definition checkAuthorFields :: "'re AAAService \<Rightarrow> AuthorizationRequest \<Rightarrow> Error + unit" where
  "checkAuthorFields s req =
     rbind (CheckBytes ''user'' (length (azq_UserID req)) (pickLimit s (\<lambda>d. set_MaxUsernameBytes (doc_Settings d)) 253)) (\<lambda>_.
     rbind (CheckBytes ''port'' (length (azq_Port req)) (pickLimit s (\<lambda>d. set_MaxPortBytes (doc_Settings d)) 253)) (\<lambda>_.
     rbind (CheckBytes ''rem_addr'' (length (azq_Remote req)) (pickLimit s (\<lambda>d. set_MaxRemoteAddressBytes (doc_Settings d)) 253)) (\<lambda>_.
     rbind (CheckBytes ''cmd'' (length (azq_Cmd req)) (pickLimit s (\<lambda>d. pl_maxCmdBytes (doc_Limits d)) 65535)) (\<lambda>_.
     rbind (CheckCount ''arguments'' (int (length (azq_Arguments req))) (maxArgCount s)) (\<lambda>_.
     checkArgs ''argument'' (maxArgSize s) (azq_Arguments req))))))"

definition includeAuthorization :: "'re StateSnapshot option \<Rightarrow> bool" where
  "includeAuthorization snap = (case Option.bind snap snapSettings of None \<Rightarrow> True | Some st \<Rightarrow> set_IncludeAuthorization st)"

definition authorEvent :: "AuthorizationRequest \<Rightarrow> PolicyTrace \<Rightarrow> Event" where
  "authorEvent req tr =
     zeroEvent\<lparr>ev_Category := ''author'', ev_Type := tr_Evaluator tr, ev_Result := tr_Decision tr, ev_Transport := azq_Transport req,
       ev_ClientID := azq_ClientID req, ev_SessionID := azq_SessionID req, ev_Revision := azq_Revision req, ev_UserID := azq_UserID req,
       ev_Command := tr_DisplayCmd tr\<rparr>"

definition aaa_Authorize ::
  "('re \<Rightarrow> string \<Rightarrow> bool) \<Rightarrow> 're callEnv \<Rightarrow> AuthorizationRequest \<Rightarrow> 're AAAService \<Rightarrow>
     're AAAService \<times> AuthorizationDecision \<times> callErr option" where
  "aaa_Authorize reMatch en req s =
     (if cx_done (en_ctx en) then (s, errorDecision ''context canceled'', Some ErrContext)
      else case checkAuthorFields s req of
        Inl e \<Rightarrow> (s, errorDecision (Error_Error e), None)
      | Inr _ \<Rightarrow>
          (case svc_evaluate reMatch (Some (en_now en)) s req of
             (tr, res, Some e) \<Rightarrow> (s, errorDecision (Error_Error e), None)
           | (tr, res, None) \<Rightarrow>
               (if includeAuthorization (svc_snap s) then s\<lparr>sv_ring := fst (ring_Accept (en_now en) (authorEvent req tr) (sv_ring s))\<rparr> else s,
                \<lparr>azd_Decision = res_Decision res, azd_Status = res_Status res, azd_Arguments = res_Arguments res, azd_Trace = tr\<rparr>, None)))"

definition ExplainAuthorization ::
  "('re \<Rightarrow> string \<Rightarrow> bool) \<Rightarrow> 're callEnv \<Rightarrow> AuthorizationRequest \<Rightarrow> 're AAAService \<Rightarrow> callErr + PolicyTrace \<times> Error option" where
  "ExplainAuthorization reMatch en req s =
     (if cx_done (en_ctx en) then Inl ErrContext
      else case svc_evaluate reMatch (Some (en_now en)) s req of (tr, _, err) \<Rightarrow> Inr (tr, err))"

subsection \<open>Accounting\<close>

definition clientAccepts :: "'re AAAService \<Rightarrow> AccountingRecord \<Rightarrow> Error + unit" where
  "clientAccepts s rec =
     (if acc_ClientID rec = '''' then Inr ()
      else case Option.bind (svc_snap s) (\<lambda>sn. snap_Client sn (acc_ClientID rec)) of
        None \<Rightarrow> Inr ()
      | Some c \<Rightarrow>
          let refuse = (\<lambda>m. Inl (NewError CodeInvalidArgument m))
          in if \<not> cl_AcctEnabled c then refuse ''accounting disabled for client''
             else if acc_Flags rec = AcctFlagStart \<and> \<not> cl_AcceptStart c then refuse ''client does not accept accounting START''
             else if acc_Flags rec = AcctFlagStop \<and> \<not> cl_AcceptStop c then refuse ''client does not accept accounting STOP''
             else if (acc_Flags rec = AcctFlagWatchdog \<or> acc_Flags rec = AcctFlagWatchdogUpdate) \<and> \<not> cl_AcceptWatchdog c
             then refuse ''client does not accept accounting WATCHDOG''
             else Inr ())"

definition checkArgBudget :: "'re AAAService \<Rightarrow> AVPairs \<Rightarrow> Error + unit" where
  "checkArgBudget s args =
     (if length args = 0 then Inr ()
      else rbind (CheckCount ''arguments'' (int (length args)) (maxArgCount s)) (\<lambda>_. checkArgs ''argument'' (maxArgSize s) args))"

definition acctType :: "byte \<Rightarrow> string" where
  "acctType flags =
     (if flags = AcctFlagStart then ''start'' else if flags = AcctFlagStop then ''stop''
      else if flags = AcctFlagWatchdog then ''watchdog'' else if flags = AcctFlagWatchdogUpdate then ''watchdog_update'' else ''unknown'')"

text \<open>The first command that is not empty, followed by every command argument.\<close>

definition commandText :: "AVPairs \<Rightarrow> string" where
  "commandText args =
     (let cmd = (case find (\<lambda>p. av_Name p = ''cmd'' \<and> av_Value p \<noteq> '''') args of None \<Rightarrow> '''' | Some p \<Rightarrow> av_Value p);
          extras = map av_Value (filter (\<lambda>p. av_Name p = ''cmd-arg'') args)
      in if cmd = '''' then '''' else cmd @ concat (map (\<lambda>a. '' '' @ a) extras))"

record parsedAcct =
  pa_taskID :: string
  pa_args :: AVPairs
  pa_startTime :: "int option"
  pa_stopTime :: "int option"

definition aaa_requirePrintable :: "string \<Rightarrow> string \<Rightarrow> Error + unit" where
  "aaa_requirePrintable name value =
     (if list_ex (\<lambda>c. let r = (of_char c :: nat) in r > 127 \<or> r < 0x20 \<or> r = 0x7f) value
      then Inl (WithPath (NewError CodeInvalidArgument ''argument must be printable US-ASCII'') name) else Inr ())"

definition validateAccountingValue :: "'re compileEnv \<Rightarrow> AVPair \<Rightarrow> Error + unit" where
  "validateAccountingValue ce p =
     rbind (if av_Name p \<in> set [''task_id'', ''reason'', ''err_msg'', ''event''] then aaa_requirePrintable (av_Name p) (av_Value p) else Inr ())
       (\<lambda>_. ValidatePair (ce_isIP ce) (ce_tzdb ce) p)"

fun validateAccountingLoop :: "'re compileEnv \<Rightarrow> AVPairs \<Rightarrow> Error + unit" where
  "validateAccountingLoop ce [] = Inr ()"
| "validateAccountingLoop ce (p # ps) =
     rbind (AVPair_Validate p) (\<lambda>_. rbind (validateAccountingValue ce p) (\<lambda>_. validateAccountingLoop ce ps))"

text \<open>\<open>time.Unix\<close> of the parsed number, which is converted to a signed integer.\<close>

definition ParseEpochSeconds :: "string \<Rightarrow> Error + int" where
  "ParseEpochSeconds value =
     (case parseBoundedUint value of
        Inl _ \<Rightarrow> Inl (NewError CodeInvalidArgument ''epoch seconds are unrepresentable'')
      | Inr n \<Rightarrow> Inr (sint (of_nat n :: uint64) * 1000000000))"

fun acctTimes :: "AVPairs \<Rightarrow> parsedAcct \<Rightarrow> Error + parsedAcct" where
  "acctTimes [] out = Inr out"
| "acctTimes (p # ps) out =
     (if av_Name p = ''start_time''
      then rbind (ParseEpochSeconds (av_Value p)) (\<lambda>t. acctTimes ps (out\<lparr>pa_startTime := Some t\<rparr>))
      else if av_Name p = ''stop_time''
      then rbind (ParseEpochSeconds (av_Value p)) (\<lambda>t. acctTimes ps (out\<lparr>pa_stopTime := Some t\<rparr>))
      else acctTimes ps out)"

text \<open>The first value that is not empty among the pairs of a name.\<close>

definition firstNonEmpty :: "string \<Rightarrow> AVPairs \<Rightarrow> string" where
  "firstNonEmpty name args = (case find (\<lambda>p. av_Name p = name \<and> av_Value p \<noteq> '''') args of None \<Rightarrow> '''' | Some p \<Rightarrow> av_Value p)"

definition parseAccountingArgs :: "'re compileEnv \<Rightarrow> AVPairs \<Rightarrow> Error + parsedAcct" where
  "parseAccountingArgs ce args =
     rbind (validateAccountingLoop ce args) (\<lambda>_.
       let tzName = firstNonEmpty ''timezone'' args;
           out = \<lparr>pa_taskID = firstNonEmpty ''task_id'' args, pa_args = args, pa_startTime = None, pa_stopTime = None\<rparr>
       in rbind (if tzName \<noteq> '''' then rbind (LoadLocation (ce_tzdb ce) tzName) (\<lambda>_. Inr ()) else Inr ())
            (\<lambda>_. acctTimes args out))"

definition eventArgs :: "AVPairs \<Rightarrow> EventAV list" where
  "eventArgs args =
     map (\<lambda>p. \<lparr>ea_Name = av_Name p, ea_Separator = (if av_Separator p \<noteq> 0 then [char_of (unat (av_Separator p))] else ''''),
               ea_Value = av_Value p\<rparr>) args"

definition acctEvent :: "'re AAAService \<Rightarrow> AccountingRecord \<Rightarrow> AVPairs \<Rightarrow> parsedAcct \<Rightarrow> Event" where
  "acctEvent s rec args parsed =
     zeroEvent\<lparr>ev_Category := ''acct'', ev_Type := acctType (acc_Flags rec), ev_Result := ''success'', ev_Transport := acc_Transport rec,
       ev_ClientID := acc_ClientID rec, ev_SessionID := acc_SessionID rec, ev_Revision := acc_Revision rec, ev_UserID := acc_UserID rec,
       ev_TaskID := pa_taskID parsed, ev_StartTime := pa_startTime parsed, ev_StopTime := pa_stopTime parsed,
       ev_AuthenMethod := AuthenMethod_String (acc_AuthenMethod rec), ev_AuthenType := AuthenType_String (acc_AuthenType rec),
       ev_Service := AuthenService_String (acc_Service rec), ev_Privilege := acc_Privilege rec, ev_Port := acc_Port rec,
       ev_Remote := acc_Remote rec, ev_SuppressExport := \<not> includeAccounting (Option.bind (svc_snap s) snapSettings),
       ev_Command := commandText args, ev_Arguments := eventArgs (pa_args parsed)\<rparr>"

definition RecordAccounting :: "'re callEnv \<Rightarrow> AccountingRecord \<Rightarrow> 're AAAService \<Rightarrow> 're AAAService \<times> (callErr + AccountingResult)" where
  "RecordAccounting en rec s =
     (if cx_done (en_ctx en) then (s, Inl ErrContext)
      else if \<not> aaa_ValidAcctFlags (acc_Flags rec) then (s, Inl (ErrDomain (NewError CodeInvalidArgument ''invalid accounting flags'')))
      else
        let args = (if acc_Flags rec = AcctFlagWatchdog then [] else acc_Arguments rec)
        in case rbind (clientAccepts s rec) (\<lambda>_. rbind (checkArgBudget s args) (\<lambda>_. parseAccountingArgs (en_ce en) args)) of
             Inl e \<Rightarrow> (s, Inl (ErrDomain e))
           | Inr parsed \<Rightarrow>
               (let (r, accepted) = ring_Accept (en_now en) (acctEvent s rec args parsed) (sv_ring s);
                    s' = s\<lparr>sv_ring := r\<rparr>
                in if ev_ID accepted = 0 then (s', Inl (ErrDomain (NewError ''internal'' ''accounting ring rejected the record'')))
                   else (s', Inr \<lparr>ar_OK = True, ar_EventID = ev_ID accepted\<rparr>)))"

end
