(* ===== verification/Tacacs_Bridge.thy ===== *)
theory Tacacs_Bridge
  imports Aaa_Author Aaa_Authen_Props Tacacs_Dispatch
begin

text \<open>
  The adapter between the TACACS+ dispatcher and the AAA service (\<open>internal/tacacs/server/bridge.go\<close>). \<open>Bridge\<close> is the
  dispatcher's \<open>Handler\<close> over the state of the service, which is \<open>None\<close> for a bridge without one. The theorems follow a
  packet through decoding, dispatch, the service and the encoding of the reply.
\<close>

subsection \<open>Packets and requests of the service\<close>

definition Transport_String :: "Transport \<Rightarrow> string" where
  "Transport_String t = (case t of TransportLegacy \<Rightarrow> ''legacy'' | TransportTLS \<Rightarrow> ''tls'')"

definition mapAuthen :: "AuthenticationStep \<Rightarrow> AuthenReply" where
  "mapAuthen step =
     \<lparr>ar_Status = stp_Status step, ar_Flags = (if stp_NoEcho step then ReplyFlagNoEcho else 0),
      ar_ServerMsg = (if stp_ServerMsg step \<noteq> '''' then bytes_of_string (stp_ServerMsg step) else []), ar_Data = []\<rparr>"

definition argsToAV :: "Argument list \<Rightarrow> AVPairs" where
  "argsToAV args = map (\<lambda>a. \<lparr>av_Name = arg_Name a, av_Separator = arg_Separator a, av_Value = arg_Value a\<rparr>) args"

definition avToArgs :: "AVPairs \<Rightarrow> Argument list" where
  "avToArgs avs = map (\<lambda>a. \<lparr>arg_Name = av_Name a, arg_Separator = av_Separator a, arg_Value = av_Value a\<rparr>) avs"

definition startOf :: "Env \<Rightarrow> AuthenStart \<Rightarrow> AuthenticationStart" where
  "startOf env start =
     \<lparr>sta_ConnKey = env_ConnKey env, sta_SessionID = env_SessionID env, sta_UserID = string_of_bytes (as_User start),
      sta_ClientID = id_ClientID (env_Identity env), sta_Action = as_Action start, sta_Type = as_Type start, sta_Service = as_Service start,
      sta_PrivLvl = as_PrivLvl start, sta_Port = string_of_bytes (as_Port start), sta_Remote = string_of_bytes (as_RemAddr start),
      sta_Data = as_Data start, sta_Revision = id_Revision (env_Identity env), sta_Transport = Transport_String (id_Transport (env_Identity env))\<rparr>"

definition continueOf :: "Env \<Rightarrow> AuthenContinue \<Rightarrow> AuthenticationContinue" where
  "continueOf env cont =
     \<lparr>cnt_ConnKey = env_ConnKey env, cnt_SessionID = env_SessionID env, cnt_Abort = False, cnt_UserMsg = ac_UserMsg cont,
      cnt_ClientID = id_ClientID (env_Identity env), cnt_Revision = id_Revision (env_Identity env),
      cnt_Transport = Transport_String (id_Transport (env_Identity env))\<rparr>"

definition abortOf :: "Env \<Rightarrow> AuthenticationAbort" where
  "abortOf env =
     \<lparr>abt_ConnKey = env_ConnKey env, abt_SessionID = env_SessionID env, abt_ClientID = id_ClientID (env_Identity env),
      abt_Revision = id_Revision (env_Identity env)\<rparr>"

definition authorizeOf :: "Env \<Rightarrow> AuthorRequest \<Rightarrow> AuthorizationRequest" where
  "authorizeOf env req =
     \<lparr>azq_UserID = string_of_bytes (arq_User req), azq_ClientID = id_ClientID (env_Identity env), azq_Service = '''', azq_Protocol = '''',
      azq_Cmd = '''', azq_CmdArgs = [], azq_Arguments = argsToAV (arq_Args req), azq_AuthenMethod = arq_AuthenMethod req,
      azq_AuthenType = arq_AuthenType req, azq_AuthenService = arq_Service req, azq_Privilege = arq_PrivLvl req,
      azq_Port = string_of_bytes (arq_Port req), azq_Remote = string_of_bytes (arq_RemAddr req), azq_Revision = id_Revision (env_Identity env),
      azq_Transport = Transport_String (id_Transport (env_Identity env)), azq_SessionID = env_SessionID env\<rparr>"

definition accountOf :: "Env \<Rightarrow> AcctRequest \<Rightarrow> AccountingRecord" where
  "accountOf env req =
     \<lparr>acc_Flags = acq_Flags req, acc_UserID = string_of_bytes (acq_User req), acc_ClientID = id_ClientID (env_Identity env),
      acc_SessionID = env_SessionID env, acc_Arguments = argsToAV (if UseArguments req then acq_Args req else []),
      acc_Revision = id_Revision (env_Identity env), acc_Transport = Transport_String (id_Transport (env_Identity env)),
      acc_Port = string_of_bytes (acq_Port req), acc_Remote = string_of_bytes (acq_RemAddr req), acc_AuthenMethod = acq_AuthenMethod req,
      acc_Privilege = acq_PrivLvl req, acc_AuthenType = acq_AuthenType req, acc_Service = acq_Service req\<rparr>"

subsection \<open>The handler\<close>

definition Bridge_AuthenStart ::
  "'re callEnv \<Rightarrow> Env \<Rightarrow> AuthenStart \<Rightarrow> 're AAAService option \<Rightarrow> 're AAAService option \<times> (tac_err + AuthenReply)" where
  "Bridge_AuthenStart en env start b =
     (case b of
        None \<Rightarrow> (b, Inr (authenStatus AuthenStatusError))
      | Some s \<Rightarrow>
          (case BeginAuthentication en (startOf env start) s of
             (s, _, Some _) \<Rightarrow> (Some s, Inr (authenStatus AuthenStatusError))
           | (s, step, None) \<Rightarrow> (Some s, Inr (mapAuthen step))))"

definition Bridge_AuthenContinue ::
  "'re callEnv \<Rightarrow> Env \<Rightarrow> AuthenContinue \<Rightarrow> 're AAAService option \<Rightarrow> 're AAAService option \<times> (tac_err + AuthenReply)" where
  "Bridge_AuthenContinue en env cont b =
     (case b of
        None \<Rightarrow> (b, Inr (authenStatus AuthenStatusError))
      | Some s \<Rightarrow>
          if AuthenContinue_Abort cont then (Some (AbortAuthentication en (abortOf env) s), Inr (authenStatus AuthenStatusFail))
          else (case ContinueAuthentication en (continueOf env cont) s of
                  (s, _, Some _) \<Rightarrow> (Some s, Inr (authenStatus AuthenStatusError))
                | (s, step, None) \<Rightarrow> (Some s, Inr (mapAuthen step))))"

definition Bridge_Authorize ::
  "('re \<Rightarrow> string \<Rightarrow> bool) \<Rightarrow> 're callEnv \<Rightarrow> Env \<Rightarrow> AuthorRequest \<Rightarrow> 're AAAService option \<Rightarrow> 're AAAService option \<times> (tac_err + AuthorResponse)" where
  "Bridge_Authorize reMatch en env req b =
     (case b of
        None \<Rightarrow> (b, Inr (authorStatus AuthorStatusError))
      | Some s \<Rightarrow>
          (case aaa_Authorize reMatch en (authorizeOf env req) s of
             (s, _, Some _) \<Rightarrow> (Some s, Inr (authorStatus AuthorStatusError))
           | (s, dec, None) \<Rightarrow>
               (Some s, Inr ((authorStatus (AuthorStatus_byte (azd_Status dec)))\<lparr>ars_Args := avToArgs (azd_Arguments dec)\<rparr>))))"

definition Bridge_Account ::
  "'re callEnv \<Rightarrow> Env \<Rightarrow> AcctRequest \<Rightarrow> 're AAAService option \<Rightarrow> 're AAAService option \<times> (tac_err + AcctReply)" where
  "Bridge_Account en env req b =
     (case b of
        None \<Rightarrow> (b, Inr (acctStatus AcctStatusError))
      | Some s \<Rightarrow>
          (case RecordAccounting en (accountOf env req) s of
             (s, Inl _) \<Rightarrow> (Some s, Inr (acctStatus AcctStatusError))
           | (s, Inr res) \<Rightarrow> (Some s, Inr (acctStatus (if ar_OK res then AcctStatusSuccess else AcctStatusError)))))"

definition Bridge_EndSession :: "'re callEnv \<Rightarrow> Env \<Rightarrow> 're AAAService option \<Rightarrow> 're AAAService option" where
  "Bridge_EndSession en env b = map_option (AbortAuthentication en (abortOf env)) b"

definition Bridge :: "('re \<Rightarrow> string \<Rightarrow> bool) \<Rightarrow> 're callEnv \<Rightarrow> 're AAAService option Handler" where
  "Bridge reMatch en =
     \<lparr>h_AuthenStart = Bridge_AuthenStart en, h_AuthenContinue = Bridge_AuthenContinue en, h_Authorize = Bridge_Authorize reMatch en,
      h_Account = Bridge_Account en, h_EndSession = Some (Bridge_EndSession en)\<rparr>"

subsection \<open>Packets through the dispatcher\<close>

definition packetEnv :: "Identity \<Rightarrow> uint64 \<Rightarrow> Header \<Rightarrow> Env" where
  "packetEnv ident key hdr = \<lparr>env_Identity = ident, env_SessionID = hdr_SessionID hdr, env_ConnKey = key\<rparr>"

lemma Bridge_fields [simp]:
  "h_AuthenStart (Bridge reMatch en) = Bridge_AuthenStart en" "h_AuthenContinue (Bridge reMatch en) = Bridge_AuthenContinue en"
  "h_Authorize (Bridge reMatch en) = Bridge_Authorize reMatch en" "h_Account (Bridge reMatch en) = Bridge_Account en"
  by (simp_all add: Bridge_def)

text \<open>A reply on the wire decodes to the reply that was encoded.\<close>

lemma encoded_replies:
  "encodeAuthen rh ra t = Inr out \<Longrightarrow> DecodeAuthenReply (out_body out) = Inr (ra\<lparr>ar_Flags := ar_Flags ra AND ReplyFlagKnownMask\<rparr>)"
  "encodeAuthor rh rz = Inr out \<Longrightarrow> DecodeAuthorResponse (out_body out) = Inr rz"
  "encodeAcct rh rc = Inr out \<Longrightarrow> DecodeAcctReply (out_body out) = Inr rc"
  unfolding encode_packed by (simp_all add: authen_reply.packed_reply author_reply.packed_reply acct_reply.packed_reply)

lemma dispatch_typed:
  assumes "dispatch H ident key q hdr body b = (q', b', Inr out)"
  shows "hdr_Type hdr = TypeAuthen \<Longrightarrow> \<exists>rh. dispatchAuthen H (packetEnv ident key hdr) hdr rh body b = (b', Inr out)"
    and "hdr_Type hdr = TypeAuthor \<Longrightarrow> \<exists>rh. dispatchAuthor H (packetEnv ident key hdr) hdr rh body b = (b', Inr out)"
    and "hdr_Type hdr = TypeAcct \<Longrightarrow> \<exists>rh. dispatchAcct H (packetEnv ident key hdr) hdr rh body b = (b', Inr out)"
  using assms by (auto simp: dispatch_def Let_def packetEnv_def split: sum.splits prod.splits if_splits)

subsection \<open>Authorization\<close>

text \<open>The verdict of the policy for a request as it arrived.\<close>

definition authorVerdict ::
  "('re \<Rightarrow> string \<Rightarrow> bool) \<Rightarrow> int option \<Rightarrow> 're PolicyEngine \<Rightarrow> AuthorizationRequest \<Rightarrow> AuthorDecision \<times> AuthorStatus \<times> AVPairs" where
  "authorVerdict reMatch now eng req =
     (let r = policy_normalize (toPolicyRequest req)
      in specVerdict reMatch now eng r (if prq_Cmd r \<noteq> '''' then RuleKindCommand else RuleKindService))"

lemma Authorize_verdict: "verdict (Authorize reMatch now (Some eng) (toPolicyRequest req)) = authorVerdict reMatch now eng req"
  by (simp add: authorVerdict_def Authorize_def Let_def commandKey_def evaluate_verdict)

lemma aaa_Authorize_error: "aaa_Authorize reMatch en req s = (s', dec, Some e) \<Longrightarrow> s' = s"
  by (auto simp: aaa_Authorize_def split: if_splits sum.splits prod.splits option.splits)

lemma aaa_Authorize_cases:
  assumes "aaa_Authorize reMatch en req s = (s', dec, None)"
  shows "azd_Status dec = StError \<and> azd_Arguments dec = [] \<and> s' = s \<or>
    (\<exists>snap eng ev. svc_snap s = Some snap \<and> sn_tacacsPolicies snap = Some eng \<and>
      authorVerdict reMatch (Some (en_now en)) eng req = (azd_Decision dec, azd_Status dec, azd_Arguments dec) \<and>
      ev_Category ev = ''author'' \<and> ev_UserID ev = azq_UserID req \<and> ev_ClientID ev = azq_ClientID req \<and>
      s' = (if includeAuthorization (svc_snap s) then s\<lparr>sv_ring := fst (ring_Accept (en_now en) ev (sv_ring s))\<rparr> else s))"
proof -
  have ev: "ev_Category (authorEvent req tr) = ''author''" "ev_UserID (authorEvent req tr) = azq_UserID req"
    "ev_ClientID (authorEvent req tr) = azq_ClientID req" for tr
    by (simp_all add: authorEvent_def)
  have v: "authorVerdict reMatch (Some (en_now en)) eng req = (res_Decision r, res_Status r, res_Arguments r)"
    if "r = Authorize reMatch (Some (en_now en)) (Some eng) (toPolicyRequest req)" for eng r
    using Authorize_verdict [of reMatch "Some (en_now en)" eng req] that by (simp add: verdict_def)
  show ?thesis
    using assms ev v unfolding aaa_Authorize_def svc_evaluate_def svc_engine_def aaa_Evaluate_def Let_def
    by (fastforce simp: errorDecision_def split: if_splits sum.splits option.splits prod.splits)
qed

text \<open>
  Property C6. What an authorization reply says is what the published policy decides. A reply to an authorization
  packet is either the bare status ERROR, and then the service is unchanged, or it carries exactly the status and
  the arguments of the verdict of the policy engine of the published snapshot, for the user, the arguments, the method and the
  privilege in the packet and the client of the connection, at the time of the packet (the user's validity
  window is checked against the clock at that moment, not at publication): the first matching rule behind the admission
  checks, by default FAIL. The service changes by one event for that user and client, if authorization events are on, and
  in nothing else.
\<close>

theorem tacacs_authorization_decides:
  assumes "dispatch (Bridge reMatch en) ident key q hdr body (Some s) = (q', b, Inr out)" and "hdr_Type hdr = TypeAuthor"
  shows "DecodeAuthorResponse (out_body out) = Inr (authorStatus AuthorStatusError) \<and> b = Some s \<or>
    (\<exists>req snap eng d st avs ev. DecodeAuthorRequest body = Inr req \<and> svc_snap s = Some snap \<and> sn_tacacsPolicies snap = Some eng \<and>
      authorVerdict reMatch (Some (en_now en)) eng (authorizeOf (packetEnv ident key hdr) req) = (d, st, avs) \<and>
      DecodeAuthorResponse (out_body out) = Inr ((authorStatus (AuthorStatus_byte st))\<lparr>ars_Args := avToArgs avs\<rparr>) \<and>
      ev_Category ev = ''author'' \<and> ev_UserID ev = string_of_bytes (arq_User req) \<and> ev_ClientID ev = id_ClientID ident \<and>
      b = Some (if includeAuthorization (Some snap) then s\<lparr>sv_ring := fst (ring_Accept (en_now en) ev (sv_ring s))\<rparr> else s))"
proof -
  obtain rh where d: "dispatchAuthor (Bridge reMatch en) (packetEnv ident key hdr) hdr rh body (Some s) = (b, Inr out)"
    using dispatch_typed(2) [OF assms] by blast
  consider "b = Some s" "encodeAuthor rh (authorStatus AuthorStatusError) = Inr out"
    | req s' dec where "DecodeAuthorRequest body = Inr req" "aaa_Authorize reMatch en (authorizeOf (packetEnv ident key hdr) req) s = (s', dec, None)"
        "b = Some s'" "encodeAuthor rh ((authorStatus (AuthorStatus_byte (azd_Status dec)))\<lparr>ars_Args := avToArgs (azd_Arguments dec)\<rparr>) = Inr out"
    using d aaa_Authorize_error by (fastforce simp: dispatchAuthor_def Bridge_Authorize_def split: if_splits sum.splits prod.splits option.splits)
  then show ?thesis
  proof cases
    case 1
    then show ?thesis using encoded_replies(2) by blast
  next
    case 2
    have user: "azq_UserID (authorizeOf (packetEnv ident key hdr) req) = string_of_bytes (arq_User req)"
      "azq_ClientID (authorizeOf (packetEnv ident key hdr) req) = id_ClientID ident"
      by (simp_all add: authorizeOf_def packetEnv_def)
    from aaa_Authorize_cases [OF 2(2)] show ?thesis
    proof (elim disjE exE conjE)
      assume "azd_Status dec = StError" "azd_Arguments dec = []" "s' = s"
      then show ?thesis using encoded_replies(2) [OF 2(4)] 2(3) by (simp add: AuthorStatus_byte_def avToArgs_def authorStatus_def)
    next
      fix snap eng ev
      assume "svc_snap s = Some snap" "sn_tacacsPolicies snap = Some eng"
        "authorVerdict reMatch (Some (en_now en)) eng (authorizeOf (packetEnv ident key hdr) req) = (azd_Decision dec, azd_Status dec, azd_Arguments dec)"
        "ev_Category ev = ''author''" "ev_UserID ev = azq_UserID (authorizeOf (packetEnv ident key hdr) req)"
        "ev_ClientID ev = azq_ClientID (authorizeOf (packetEnv ident key hdr) req)"
        "s' = (if includeAuthorization (svc_snap s) then s\<lparr>sv_ring := fst (ring_Accept (en_now en) ev (sv_ring s))\<rparr> else s)"
      then show ?thesis unfolding user using encoded_replies(2) [OF 2(4)] 2(1,3) by (intro disjI2 exI conjI) (assumption | simp)+
    qed
  qed
qed

subsection \<open>Accounting\<close>

lemma acctTimes_args: "acctTimes ps out = Inr out' \<Longrightarrow> pa_args out' = pa_args out"
  by (induction ps arbitrary: out) (fastforce simp: rbind_eq_Inr split: if_splits)+

lemma parseAccountingArgs_args: "parseAccountingArgs ce args = Inr p \<Longrightarrow> pa_args p = args"
  by (auto simp: parseAccountingArgs_def rbind_eq_Inr Let_def dest: acctTimes_args)

lemma ring_Accept_id:
  "ring_Accept now e r = (r', e') \<Longrightarrow>
     (if rg_reject r \<or> rg_closed r then r' = r \<and> ev_ID e' = 0 else ev_ID e' = rg_seq r + 1)"
  by (cases "rg_reject r"; cases "rg_closed r") (auto simp: ring_Accept_def stamped_def zeroEvent_def Let_def)

lemma RecordAccounting_cases:
  assumes "RecordAccounting en rec s = (s', res)"
  shows "(\<exists>e. res = Inl e) \<and> (s' = s \<or> rg_seq (sv_ring s) + 1 = 0) \<or>
    (\<exists>args parsed. res = Inr \<lparr>ar_OK = True, ar_EventID = rg_seq (sv_ring s) + 1\<rparr> \<and> aaa_ValidAcctFlags (acc_Flags rec) \<and> clientAccepts s rec = Inr () \<and>
      args = (if acc_Flags rec = 0x08 then [] else acc_Arguments rec) \<and> pa_args parsed = args \<and> \<not> rg_reject (sv_ring s) \<and> \<not> rg_closed (sv_ring s) \<and>
      s' = s\<lparr>sv_ring := fst (ring_Accept (en_now en) (acctEvent s rec args parsed) (sv_ring s))\<rparr>)"
proof -
  let ?args = "if acc_Flags rec = 0x08 then [] else acc_Arguments rec"
  show ?thesis
  proof (cases "\<not> cx_done (en_ctx en) \<and> aaa_ValidAcctFlags (acc_Flags rec)")
    case False
    then have "\<exists>e. RecordAccounting en rec s = (s, Inl e)" by (cases "cx_done (en_ctx en)") (simp_all add: RecordAccounting_def)
    then show ?thesis using assms by auto
  next
    case valid: True
    show ?thesis
    proof (cases "rbind (clientAccepts s rec) (\<lambda>_. rbind (checkArgBudget s ?args) (\<lambda>_. parseAccountingArgs (en_ce en) ?args))")
      case (Inl e)
      with valid have "RecordAccounting en rec s = (s, Inl (ErrDomain e))" by (simp add: RecordAccounting_def Let_def)
      then show ?thesis using assms by simp
    next
      case (Inr parsed)
      then have ok: "clientAccepts s rec = Inr ()" "pa_args parsed = ?args"
        by (auto simp: rbind_eq_Inr dest: parseAccountingArgs_args)
      obtain r e where acc: "ring_Accept (en_now en) (acctEvent s rec ?args parsed) (sv_ring s) = (r, e)" by fastforce
      then have "RecordAccounting en rec s = (s\<lparr>sv_ring := r\<rparr>,
          if ev_ID e = 0 then Inl (ErrDomain (NewError ''internal'' ''accounting ring rejected the record'')) else Inr \<lparr>ar_OK = True, ar_EventID = ev_ID e\<rparr>)"
        using valid Inr by (simp add: RecordAccounting_def Let_def)
      then show ?thesis
        using assms ring_Accept_id [OF acc] ok valid acc by (auto split: if_splits)
    qed
  qed
qed

text \<open>The kinds of records a client accepts.\<close>

definition acceptsAcct :: "CfgClient \<Rightarrow> byte \<Rightarrow> bool" where
  "acceptsAcct c flags \<longleftrightarrow> cl_AcctEnabled c \<and>
     (if flags = 0x02 then cl_AcceptStart c else if flags = 0x04 then cl_AcceptStop c else cl_AcceptWatchdog c)"

lemma clientAccepts_Inr:
  "clientAccepts s rec = Inr () \<Longrightarrow> aaa_ValidAcctFlags (acc_Flags rec) \<Longrightarrow> svc_snap s = Some snap \<Longrightarrow>
     snap_Client snap (acc_ClientID rec) = Some c \<Longrightarrow> acc_ClientID rec \<noteq> '''' \<Longrightarrow> acceptsAcct c (acc_Flags rec)"
  by (auto simp: clientAccepts_def acceptsAcct_def aaa_ValidAcctFlags_def Let_def split: if_splits)

text \<open>
  Property C7. An accounting SUCCESS means that the record is in the event ring. A reply to an accounting packet is
  SUCCESS or ERROR. SUCCESS is sent only for valid flags that the configured client accepts, and the ring then has
  accepted, under the next identifier, an event of that kind with the user, the session and the client of the packet
  and its arguments unchanged (none for a watchdog without update). After ERROR the service is as before, unless the event
  counter of 64 bits wrapped to zero.
\<close>

theorem tacacs_accounting_recorded:
  assumes "dispatch (Bridge reMatch en) ident key q hdr body (Some s) = (q', b, Inr out)" and "hdr_Type hdr = TypeAcct"
  shows "DecodeAcctReply (out_body out) = Inr (acctStatus AcctStatusError) \<and> (b = Some s \<or> rg_seq (sv_ring s) + 1 = 0) \<or>
    DecodeAcctReply (out_body out) = Inr (acctStatus AcctStatusSuccess) \<and>
    (\<exists>req ev. DecodeAcctRequest body = Inr req \<and> ValidAcctFlags (acq_Flags req) \<and>
      (\<forall>snap c. svc_snap s = Some snap \<longrightarrow> snap_Client snap (id_ClientID ident) = Some c \<longrightarrow> id_ClientID ident \<noteq> '''' \<longrightarrow> acceptsAcct c (acq_Flags req)) \<and>
      \<not> rg_reject (sv_ring s) \<and> \<not> rg_closed (sv_ring s) \<and> b = Some (s\<lparr>sv_ring := fst (ring_Accept (en_now en) ev (sv_ring s))\<rparr>) \<and>
      ev_ID (snd (ring_Accept (en_now en) ev (sv_ring s))) = rg_seq (sv_ring s) + 1 \<and> ev_Category ev = ''acct'' \<and> ev_Type ev = acctType (acq_Flags req) \<and>
      ev_UserID ev = string_of_bytes (acq_User req) \<and> ev_ClientID ev = id_ClientID ident \<and> ev_SessionID ev = hdr_SessionID hdr \<and>
      ev_Arguments ev = eventArgs (argsToAV (if UseArguments req then acq_Args req else [])))"
proof -
  let ?env = "packetEnv ident key hdr"
  obtain rh where d: "dispatchAcct (Bridge reMatch en) ?env hdr rh body (Some s) = (b, Inr out)"
    using dispatch_typed(3) [OF assms] by blast
  consider "b = Some s" "encodeAcct rh (acctStatus AcctStatusError) = Inr out"
    | req s' res where "DecodeAcctRequest body = Inr req" "RecordAccounting en (accountOf ?env req) s = (s', res)" "b = Some s'"
        "encodeAcct rh (acctStatus (case res of Inl _ \<Rightarrow> AcctStatusError | Inr r \<Rightarrow> if ar_OK r then AcctStatusSuccess else AcctStatusError)) = Inr out"
    using d by (fastforce simp: dispatchAcct_def Bridge_Account_def split: if_splits sum.splits prod.splits)
  then show ?thesis
  proof cases
    case 1
    then show ?thesis using encoded_replies(3) by blast
  next
    case 2
    let ?rec = "accountOf ?env req"
    have rec: "acc_Flags ?rec = acq_Flags req" "acc_ClientID ?rec = id_ClientID ident" "acc_UserID ?rec = string_of_bytes (acq_User req)"
      "acc_SessionID ?rec = hdr_SessionID hdr" "acc_Arguments ?rec = argsToAV (if UseArguments req then acq_Args req else [])"
      by (simp_all add: accountOf_def packetEnv_def)
    from RecordAccounting_cases [OF 2(2)] show ?thesis
    proof (elim disjE exE conjE)
      fix e assume "res = Inl e" "s' = s"
      then show ?thesis using encoded_replies(3) [OF 2(4)] 2(3) by simp
    next
      fix e assume "res = Inl e" "rg_seq (sv_ring s) + 1 = 0"
      then show ?thesis using encoded_replies(3) [OF 2(4)] by simp
    next
      fix args parsed
      assume ok: "res = Inr \<lparr>ar_OK = True, ar_EventID = rg_seq (sv_ring s) + 1\<rparr>" "aaa_ValidAcctFlags (acc_Flags ?rec)" "clientAccepts s ?rec = Inr ()"
        "args = (if acc_Flags ?rec = 0x08 then [] else acc_Arguments ?rec)" "pa_args parsed = args" "\<not> rg_reject (sv_ring s)" "\<not> rg_closed (sv_ring s)"
        and s': "s' = s\<lparr>sv_ring := fst (ring_Accept (en_now en) (acctEvent s ?rec args parsed) (sv_ring s))\<rparr>"
      let ?ev = "acctEvent s ?rec args parsed"
      have ev: "ev_Category ?ev = ''acct''" "ev_Type ?ev = acctType (acq_Flags req)" "ev_UserID ?ev = string_of_bytes (acq_User req)"
        "ev_ClientID ?ev = id_ClientID ident" "ev_SessionID ?ev = hdr_SessionID hdr"
        "ev_Arguments ?ev = eventArgs (argsToAV (if UseArguments req then acq_Args req else []))"
        using ok(4,5) by (simp_all add: acctEvent_def rec UseArguments_def argsToAV_def)
      have id: "ev_ID (snd (ring_Accept (en_now en) ?ev (sv_ring s))) = rg_seq (sv_ring s) + 1"
        using ring_Accept_id [where r = "sv_ring s", OF prod.collapse [symmetric]] ok(6,7) by simp
      have flags: "ValidAcctFlags (acq_Flags req)" using ok(2) by (simp add: rec ValidAcctFlags_def aaa_ValidAcctFlags_def)
      have acc: "\<forall>snap c. svc_snap s = Some snap \<longrightarrow> snap_Client snap (id_ClientID ident) = Some c \<longrightarrow> id_ClientID ident \<noteq> '''' \<longrightarrow> acceptsAcct c (acq_Flags req)"
        using clientAccepts_Inr [OF ok(3,2)] unfolding rec by blast
      show ?thesis
        using encoded_replies(3) [OF 2(4)] 2(1,3) ok(1,6,7) flags acc ev id s'
        by (intro disjI2 conjI exI [of _ req] exI [of _ ?ev]) simp_all
    qed
  qed
qed

subsection \<open>Authentication\<close>

lemma classify_terminal: "classifyStart start = (flow, Some st) \<Longrightarrow> st \<noteq> StatusPass"
  by (auto simp: classifyStart_def split: if_splits)

lemma interactive_not_pass: "beginInteractive en start snap flow s = (s', step) \<Longrightarrow> stp_Status step \<noteq> StatusPass"
  by (auto simp: beginInteractive_def Let_def userPrompt_def dataPrompt_def passPrompt_def split: if_splits)

lemma begin_pass:
  assumes "BeginAuthentication en start s = (s', step, None)" "stp_Status step = StatusPass"
  shows "\<exists>snap flow. svc_snap s = Some snap \<and> classifyStart start = (flow, None) \<and> methodAllowed snap (sta_ClientID start) (methodForFlow flow) \<and>
    oneShotCheck en s snap start flow = Inr () \<and> \<not> userMustChangeLogin snap (canonUser (en_lib en) (sta_UserID start)) \<and> sv_mgr s' = sv_mgr s"
proof -
  let ?s = "svc_dropSession (sta_ConnKey start, sta_SessionID start) s"
  obtain snap flow where r: "svc_snap s = Some snap" "classifyStart start = (flow, None)" "methodAllowed snap (sta_ClientID start) (methodForFlow flow)"
    "runFlow en snap start flow ?s = (s', step)"
    using assms classify_terminal
    by (auto simp: Begin_runFlow Let_def split: if_splits sum.splits option.splits prod.splits)
  have flow: "flow \<in> {flowPAP, flowCHAP, flowMSCHAPv1, flowMSCHAPv2}"
    using r(4) assms(2) by (cases flow) (auto simp: runFlow_def dest: interactive_not_pass)
  have "oneShotStatus snap (canonUser (en_lib en) (sta_UserID start)) (oneShotCheck en ?s snap start flow) = StatusPass" "sv_mgr s' = sv_mgr s"
    using oneShot_status [OF flow, of en snap start ?s] r(4) assms(2) by simp_all
  moreover have "oneShotCheck en ?s snap start flow = oneShotCheck en s snap start flow" by (simp add: oneShotCheck_def)
  ultimately show ?thesis using r(1-3) by (auto simp: oneShotStatus_def split: sum.splits if_splits)
qed

text \<open>
  Property C5. A PASS on the wire is a verified login. If the reply to an authentication packet says PASS, then
  either the packet is a START of PAP, CHAP or MS-CHAP, of a method the client of the connection may use, whose data verifies against
  the credentials of the user in the published snapshot, and the password need not change; or the packet is a
  CONTINUE without the abort flag of a conversation of this connection and session, a password given in the conversation
  verifies for the session bound to its START, and where the password must change, the change is published with
  this packet.
\<close>

theorem tacacs_pass_verified:
  assumes "dispatch (Bridge reMatch en) ident key q hdr body (Some s) = (q', b, Inr out)" and "hdr_Type hdr = TypeAuthen"
    and "DecodeAuthenReply (out_body out) = Inr reply" and "ar_Status reply = AuthenStatusPass"
    and "\<And>se. map_of (sv_sessions s) (key, hdr_SessionID hdr) = Some se \<Longrightarrow> talk (key, hdr_SessionID hdr) first s0 log se"
  shows "if hdr_SeqNo hdr = 1
    then (\<exists>start snap flow. DecodeAuthenStart body = Inr start \<and> svc_snap s = Some snap \<and>
      classifyStart (startOf (packetEnv ident key hdr) start) = (flow, None) \<and> methodAllowed snap (id_ClientID ident) (methodForFlow flow) \<and>
      oneShotCheck en s snap (startOf (packetEnv ident key hdr) start) flow = Inr () \<and>
      \<not> userMustChangeLogin snap (canonUser (en_lib en) (string_of_bytes (as_User start))))
    else (\<exists>msg se s'. DecodeAuthenContinue body = Inr msg \<and> \<not> AuthenContinue_Abort msg \<and> b = Some s' \<and>
      map_of (sv_sessions s) (key, hdr_SessionID hdr) = Some se \<and> map_of (sv_sessions s') (key, hdr_SessionID hdr) = None \<and> boundTo first s0 se \<and>
      (\<exists>(e, c) \<in> set (log @ [(en, continueOf (packetEnv ident key hdr) msg)]). pwVerified se e c) \<and>
      (mustChange se \<longrightarrow> changed en se (continueOf (packetEnv ident key hdr) msg) s s'))"
proof -
  let ?env = "packetEnv ident key hdr" and ?key = "(key, hdr_SessionID hdr)"
  obtain rh where d: "dispatchAuthen (Bridge reMatch en) ?env hdr rh body (Some s) = (b, Inr out)"
    using dispatch_typed(1) [OF assms(1,2)] by blast
  have pass: "ar_Status r = AuthenStatusPass" if "encodeAuthen rh r t = Inr out" for r t
    using encoded_replies(1) [OF that] assms(3,4) by auto
  have status: "ar_Status (authenStatus st) = st" "ar_Status (mapAuthen step) = stp_Status step" for st step
    by (simp_all add: authenStatus_def mapAuthen_def)
  show ?thesis
  proof (cases "hdr_SeqNo hdr = 1")
    case True
    obtain start s' step where st: "DecodeAuthenStart body = Inr start" "BeginAuthentication en (startOf ?env start) s = (s', step, None)" "stp_Status step = StatusPass"
      using d True by (auto simp: dispatchAuthen_def Bridge_AuthenStart_def Let_def status Disposition_AuthenStatus_def
        split: if_splits sum.splits prod.splits option.splits Disposition.splits dest!: pass)
    have "sta_ClientID (startOf ?env start) = id_ClientID ident" "sta_UserID (startOf ?env start) = string_of_bytes (as_User start)"
      by (simp_all add: startOf_def packetEnv_def)
    with begin_pass [OF st(2,3)] st(1) True show ?thesis by auto
  next
    case False
    obtain msg s' step where ct: "DecodeAuthenContinue body = Inr msg" "\<not> AuthenContinue_Abort msg" "b = Some s'"
        "ContinueAuthentication en (continueOf ?env msg) s = (s', step, None)" "stp_Status step = StatusPass"
      using d False by (auto simp: dispatchAuthen_def Bridge_AuthenContinue_def Let_def status
        split: if_splits sum.splits prod.splits option.splits dest!: pass)
    have k: "?key = (cnt_ConnKey (continueOf ?env msg), cnt_SessionID (continueOf ?env msg))" by (simp add: continueOf_def packetEnv_def)
    obtain se where se: "map_of (sv_sessions s) ?key = Some se"
      using ct(4,5) unfolding k by (auto simp: ContinueAuthentication_def Let_def split: if_splits option.splits)
    have inv: "boundTo first s0 se" "staged log se" using talk_invariant [OF assms(5) [OF se]] by auto
    have conv: "converse en ?key se (continueOf ?env msg) s = (s', step)"
      using Continue_converse [OF ct(4) k se] ct(5) by auto
    from converse_pass [OF conv ct(5) k] inv ct(1-3) se False show ?thesis
      by (fastforce simp: staged_def)
  qed
qed

subsection \<open>Witnesses\<close>

text \<open>A service with the small policy of \<open>Policy_Evaluate\<close>, and a packet of each kind.\<close>

definition wit_policySnap :: "unit PolicyEngine \<Rightarrow> unit StateSnapshot" where
  "wit_policySnap e =
     \<lparr>sn_Revision = 1, sn_CompiledAt = 0, sn_settings = None, sn_users = [], sn_groups = [], sn_clients = [], sn_tokens = [], sn_userIDs = [],
      sn_groupIDs = [], sn_clientIDs = [], sn_tokenIDs = [], sn_tokenIndex = [], sn_tokenDigests = [], sn_tombstones = [],
      sn_fallback = \<lparr>rs_Services = [], rs_CommandRules = []\<rparr>, sn_indexes = None, sn_tacacsPolicies = Some e, sn_radiusPolicies = None,
      sn_runtimeSecrets = []\<rparr>"

definition wit_policyService :: "unit PolicyEngine \<Rightarrow> unit AAAService" where
  "wit_policyService e =
     \<lparr>sv_mgr = None, sv_fixed = Some (wit_policySnap e), sv_secrets = None, sv_ring = NewRing 2 None, sv_params = DefaultParams, sv_minCHAP = 8,
      sv_entropy = [], sv_sessions = []\<rparr>"

definition wit_packet_header :: "byte \<Rightarrow> byte \<Rightarrow> Header" where
  "wit_packet_header version ty = \<lparr>hdr_Version = version, hdr_Type = ty, hdr_SeqNo = 1, hdr_Flags = 0, hdr_SessionID = 9, hdr_Length = 0\<rparr>"

definition wit_author_request :: AuthorRequest where
  "wit_author_request =
     \<lparr>arq_AuthenMethod = 6, arq_PrivLvl = 1, arq_AuthenType = 1, arq_Service = 1, arq_User = bytes_of_string ''alice'', arq_Port = [], arq_RemAddr = [],
      arq_Args = [\<lparr>arg_Name = ''service'', arg_Separator = 0x3d, arg_Value = ''shell''\<rparr>, \<lparr>arg_Name = ''cmd'', arg_Separator = 0x3d, arg_Value = ''show''\<rparr>]\<rparr>"

definition wit_acct_request :: AcctRequest where
  "wit_acct_request =
     \<lparr>acq_Flags = 2, acq_AuthenMethod = 6, acq_PrivLvl = 1, acq_AuthenType = 1, acq_Service = 1, acq_User = bytes_of_string ''alice'',
      acq_Port = [], acq_RemAddr = [], acq_Args = [\<lparr>arg_Name = ''task_id'', arg_Separator = 0x3d, arg_Value = ''1''\<rparr>]\<rparr>"

lemma wit_args:
  "argsRead [13, 8] (bytes_of_string (''service=shell'' @ ''cmd=show'')) (arq_Args wit_author_request)"
  "argsRead [9] (bytes_of_string ''task_id=1'') (acq_Args wit_acct_request)"
proof -
  have e: "Argument_Encode \<lparr>arg_Name = ''service'', arg_Separator = 0x3d, arg_Value = ''shell''\<rparr> = Inr (bytes_of_string ''service=shell'')"
    "Argument_Encode \<lparr>arg_Name = ''cmd'', arg_Separator = 0x3d, arg_Value = ''show''\<rparr> = Inr (bytes_of_string ''cmd=show'')"
    "Argument_Encode \<lparr>arg_Name = ''task_id'', arg_Separator = 0x3d, arg_Value = ''1''\<rparr> = Inr (bytes_of_string ''task_id=1'')"
    by (simp_all add: Argument_Encode_Inr containsArgSep_def isArgSep_def PrintableASCII_def bytes_of_string_def)
  have "argsOnWire (arq_Args wit_author_request) [13, 8] (bytes_of_string (''service=shell'' @ ''cmd=show''))"
    unfolding argsOnWire_def using e
    by (intro exI [of _ "[bytes_of_string ''service=shell'', bytes_of_string ''cmd=show'']"]) (simp add: wit_author_request_def, simp add: bytes_of_string_def)
  moreover have "argsOnWire (acq_Args wit_acct_request) [9] (bytes_of_string ''task_id=1'')"
    unfolding argsOnWire_def using e
    by (intro exI [of _ "[bytes_of_string ''task_id=1'']"]) (simp add: wit_acct_request_def)
  ultimately show "argsRead [13, 8] (bytes_of_string (''service=shell'' @ ''cmd=show'')) (arq_Args wit_author_request)"
    "argsRead [9] (bytes_of_string ''task_id=1'') (acq_Args wit_acct_request)"
    by (simp_all only: argsRead_onWire)
qed

lemma wit_bodies:
  "DecodeAuthorRequest ([6, 1, 1, 1, 5, 0, 0, 2, 13, 8] @ bytes_of_string (''alice'' @ ''service=shell'' @ ''cmd=show'')) = Inr wit_author_request"
  "DecodeAcctRequest ([2, 6, 1, 1, 1, 5, 0, 0, 1, 9] @ bytes_of_string (''alice'' @ ''task_id=1'')) = Inr wit_acct_request"
proof -
  show "DecodeAuthorRequest ([6, 1, 1, 1, 5, 0, 0, 2, 13, 8] @ bytes_of_string (''alice'' @ ''service=shell'' @ ''cmd=show'')) = Inr wit_author_request"
    unfolding DecodeAuthorRequest_Inr using wit_args(1)
    by (intro conjI exI [of _ "[13, 8]"] exI [of _ "bytes_of_string (''service=shell'' @ ''cmd=show'')"])
      (simp_all add: wit_author_request_def PrintableASCII_def bytes_of_string_def)
  have "decodeAcctFields ([2, 6, 1, 1, 1, 5, 0, 0, 1, 9] @ bytes_of_string (''alice'' @ ''task_id=1'')) = Inr wit_acct_request"
    unfolding decodeAcctFields_Inr using wit_args(2)
    by (intro conjI exI [of _ "[9]"] exI [of _ "bytes_of_string ''task_id=1''"])
      (simp_all add: wit_acct_request_def PrintableASCII_def bytes_of_string_def)
  then show "DecodeAcctRequest ([2, 6, 1, 1, 1, 5, 0, 0, 1, 9] @ bytes_of_string (''alice'' @ ''task_id=1'')) = Inr wit_acct_request"
    by (simp add: DecodeAcctRequest_Inr) (simp add: wit_acct_request_def ValidAcctFlags_def)
qed

lemma wit_checked:
  "snd (CheckRequest (NewSequence 9 2) (wit_packet_header 0xc0 2)) = Inr ()"
  "snd (NextReply (fst (CheckRequest (NewSequence 9 2) (wit_packet_header 0xc0 2))) 0) =
     Inr \<lparr>hdr_Version = 0, hdr_Type = 2, hdr_SeqNo = 2, hdr_Flags = 0, hdr_SessionID = 9, hdr_Length = 0\<rparr>"
  "snd (CheckRequest (NewSequence 9 3) (wit_packet_header 0xc0 3)) = Inr ()"
  "snd (NextReply (fst (CheckRequest (NewSequence 9 3) (wit_packet_header 0xc0 3))) 0) =
     Inr \<lparr>hdr_Version = 0, hdr_Type = 3, hdr_SeqNo = 2, hdr_Flags = 0, hdr_SessionID = 9, hdr_Length = 0\<rparr>"
  "snd (CheckRequest (NewSequence 9 1) (wit_packet_header 0xc1 1)) = Inr ()"
  "snd (NextReply (fst (CheckRequest (NewSequence 9 1) (wit_packet_header 0xc1 1))) 0) =
     Inr \<lparr>hdr_Version = 0, hdr_Type = 1, hdr_SeqNo = 2, hdr_Flags = 0, hdr_SessionID = 9, hdr_Length = 0\<rparr>"
  by code_simp+

lemma wit_authorVerdict:
  assumes "wit_compile = Inr e"
  shows "authorVerdict (\<lambda>_ _. True) now e (authorizeOf (packetEnv wit_identity 1 (wit_packet_header 0xc0 2)) wit_author_request) = (DecisionPermitAdd, StPassAdd, [])"
proof -
  let ?r = "policy_normalize (toPolicyRequest (authorizeOf (packetEnv wit_identity 1 (wit_packet_header 0xc0 2)) wit_author_request))"
  have r: "prq_UserID ?r = ''alice''" "prq_ClientID ?r = ''nas''" "prq_Cmd ?r = ''show''" "prq_CmdArgs ?r = []"
    by (simp_all add: policy_normalize_def toPolicyRequest_def applyWireAVs_def authorizeOf_def packetEnv_def wit_identity_def wit_author_request_def
        argsToAV_def firstAV_def allAV_def orEmptyString_def extractFromAVs_def Let_def)
  show ?thesis
    using assms r
    by (auto simp: authorVerdict_def Let_def Compile_def wit_input_def wit_rules_def compileRuleSet_def compileReply_def
        compileMatcher_def result_simps specVerdict_def admitted_def userValid_always
        clientAllowed_def ruleOrder_def candidates_def effectiveGroups_def commandRank_def
        matchCommand_def matcher_match_def ruleVerdict_def ruleEffect_def buildReply_def WireStatus_def
        zero_limits_def split: sum.splits)
qed

text \<open>Dispatch of a packet of each type that passes the checks of the session.\<close>

lemma wit_dispatch:
  assumes "DecodeAuthorRequest zbody = Inr req" "Bridge_Authorize reMatch en (packetEnv ident 1 (wit_packet_header 0xc0 2)) req b = (b', Inr zr)"
      "AuthorResponse_Encode zr = Inr zw"
  shows "\<exists>q' out. dispatch (Bridge reMatch en) ident 1 (NewSequence 9 2) (wit_packet_header 0xc0 2) zbody b = (q', b', Inr out) \<and> out_body out = zw"
  using wit_checked(1,2) assms unfolding dispatch_def packetEnv_def
  by (auto simp: wit_packet_header_def dispatchAuthor_def ClassifyAuthorMinor_def Header_Minor_def encodeAuthor_def split: prod.splits sum.splits)

lemma wit_dispatch_acct:
  assumes "DecodeAcctRequest body = Inr req" "Bridge_Account en (packetEnv ident 1 (wit_packet_header 0xc0 3)) req b = (b', Inr r)"
      "AcctReply_Encode r = Inr w"
  shows "\<exists>q' out. dispatch (Bridge reMatch en) ident 1 (NewSequence 9 3) (wit_packet_header 0xc0 3) body b = (q', b', Inr out) \<and> out_body out = w"
  using wit_checked(3,4) assms unfolding dispatch_def packetEnv_def
  by (auto simp: wit_packet_header_def dispatchAcct_def ClassifyAcctMinor_def Header_Minor_def encodeAcct_def split: prod.splits sum.splits)

theorem tacacs_authorization_decides_witness:
  "\<exists>e q' b out. wit_compile = Inr e \<and>
     dispatch (Bridge (\<lambda>_ _. True) wit_call) wit_identity 1 (NewSequence 9 2) (wit_packet_header 0xc0 2)
       ([6, 1, 1, 1, 5, 0, 0, 2, 13, 8] @ bytes_of_string (''alice'' @ ''service=shell'' @ ''cmd=show'')) (Some (wit_policyService e)) = (q', b, Inr out) \<and>
     DecodeAuthorResponse (out_body out) = Inr (authorStatus AuthorStatusPassAdd)"
proof -
  obtain e where e: "wit_compile = Inr e" using wit_compile_ok by blast
  let ?req = "authorizeOf (packetEnv wit_identity 1 (wit_packet_header 0xc0 2)) wit_author_request" and ?s = "wit_policyService e"
  have snap: "svc_snap ?s = Some (wit_policySnap e)" "sn_tacacsPolicies (wit_policySnap e) = Some e" "sn_settings (wit_policySnap e) = None"
    by (simp_all add: svc_snap_def wit_policyService_def wit_policySnap_def)
  have fields: "checkAuthorFields ?s ?req = Inr ()"
    by (simp add: checkAuthorFields_def pickLimit_def maxArgCount_def maxArgSize_def snap authorizeOf_def wit_author_request_def packetEnv_def
        CheckBytes_def CheckCount_def argsToAV_def)
  obtain s' dec where az: "aaa_Authorize (\<lambda>_ _. True) wit_call ?req ?s = (s', dec, None)" "azd_Status dec = StPassAdd" "azd_Arguments dec = []"
    using Authorize_verdict [of "\<lambda>_ _. True" "Some (en_now wit_call)" e ?req] wit_authorVerdict [OF e] fields
    by (simp add: aaa_Authorize_def svc_evaluate_def svc_engine_def aaa_Evaluate_def snap wit_call_def verdict_def Let_def)
  obtain q' out where d: "dispatch (Bridge (\<lambda>_ _. True) wit_call) wit_identity 1 (NewSequence 9 2) (wit_packet_header 0xc0 2)
      ([6, 1, 1, 1, 5, 0, 0, 2, 13, 8] @ bytes_of_string (''alice'' @ ''service=shell'' @ ''cmd=show'')) (Some ?s) = (q', Some s', Inr out)"
      "out_body out = [1, 0, 0, 0, 0, 0]"
    using wit_dispatch [OF wit_bodies(1), of "\<lambda>_ _. True" wit_call wit_identity "Some ?s" "Some s'" "authorStatus 1" "[1, 0, 0, 0, 0, 0]"] az authorStatus_Encode [of 1]
    by (auto simp: Bridge_Authorize_def AuthorStatus_byte_def avToArgs_def authorStatus_def)
  have "hdr_Type (wit_packet_header 0xc0 2) = TypeAuthor" by (simp add: wit_packet_header_def)
  from tacacs_authorization_decides [OF d(1) this] wit_bodies(1) wit_authorVerdict [OF e]
  have "DecodeAuthorResponse (out_body out) = Inr (authorStatus AuthorStatusPassAdd) \<or> DecodeAuthorResponse (out_body out) = Inr (authorStatus AuthorStatusError)"
    by (auto simp: snap AuthorStatus_byte_def avToArgs_def authorStatus_def)
  moreover have "DecodeAuthorResponse (out_body out) \<noteq> Inr (authorStatus AuthorStatusError)"
    unfolding d(2) by (simp add: DecodeAuthorResponse_Inr authorStatus_def)
  ultimately show ?thesis using e d(1) by blast
qed

lemma wit_accounted:
  assumes "svc_snap s = Some (wit_policySnap e)" "sv_ring s = NewRing 2 None"
  shows "\<exists>s'. RecordAccounting wit_call (accountOf (packetEnv wit_identity 1 (wit_packet_header 0xc0 3)) wit_acct_request) s = (s', Inr \<lparr>ar_OK = True, ar_EventID = 1\<rparr>)"
proof -
  let ?rec = "accountOf (packetEnv wit_identity 1 (wit_packet_header 0xc0 3)) wit_acct_request"
  have rec: "acc_Flags ?rec = 2" "acc_ClientID ?rec = ''nas''" "acc_Arguments ?rec = [\<lparr>av_Name = ''task_id'', av_Separator = 0x3d, av_Value = ''1''\<rparr>]"
    by (simp_all add: accountOf_def packetEnv_def wit_identity_def wit_acct_request_def wit_packet_header_def UseArguments_def argsToAV_def)
  have snap: "sn_settings (wit_policySnap e) = None" "snap_Client (wit_policySnap e) ''nas'' = None" by (simp_all add: wit_policySnap_def snap_Client_def)
  have "case parseAccountingArgs wit_env [\<lparr>av_Name = ''task_id'', av_Separator = 0x3d, av_Value = ''1''\<rparr>] of Inl _ \<Rightarrow> False | Inr _ \<Rightarrow> True" by code_simp
  then obtain parsed where "parseAccountingArgs wit_env (acc_Arguments ?rec) = Inr parsed" unfolding rec by (auto split: sum.splits)
  moreover have "checkArgBudget s (acc_Arguments ?rec) = Inr ()"
    by (simp add: rec checkArgBudget_def maxArgCount_def maxArgSize_def pickLimit_def assms snap CheckCount_def CheckBytes_def)
  moreover have "clientAccepts s ?rec = Inr ()" by (simp add: rec clientAccepts_def assms snap)
  moreover have "rg_reject (NewRing 2 None) = False" "rg_closed (NewRing 2 None) = False" "rg_seq (NewRing 2 None) = 0" by (simp_all add: NewRing_def)
  then have "ev_ID (snd (ring_Accept now ev (sv_ring s))) = 1" for now ev
    using ring_Accept_id [where r = "sv_ring s", OF prod.collapse [symmetric]] assms(2) by simp
  ultimately show ?thesis
    by (simp add: RecordAccounting_def aaa_ValidAcctFlags_def rec(1) wit_call_def Let_def case_prod_beta)
qed

theorem tacacs_accounting_recorded_witness:
  "\<exists>e q' b out ev. wit_compile = Inr e \<and>
     dispatch (Bridge (\<lambda>_ _. True) wit_call) wit_identity 1 (NewSequence 9 3) (wit_packet_header 0xc0 3)
       ([2, 6, 1, 1, 1, 5, 0, 0, 1, 9] @ bytes_of_string (''alice'' @ ''task_id=1'')) (Some (wit_policyService e)) = (q', b, Inr out) \<and>
     DecodeAcctReply (out_body out) = Inr (acctStatus AcctStatusSuccess) \<and> ev_UserID ev = ''alice'' \<and>
     b = Some ((wit_policyService e)\<lparr>sv_ring := fst (ring_Accept 7 ev (NewRing 2 None))\<rparr>)"
proof -
  obtain e where e: "wit_compile = Inr e" using wit_compile_ok by blast
  let ?s = "wit_policyService e"
  have s: "svc_snap ?s = Some (wit_policySnap e)" "sv_ring ?s = NewRing 2 None" by (simp_all add: svc_snap_def wit_policyService_def)
  then obtain s' where "RecordAccounting wit_call (accountOf (packetEnv wit_identity 1 (wit_packet_header 0xc0 3)) wit_acct_request) ?s = (s', Inr \<lparr>ar_OK = True, ar_EventID = 1\<rparr>)"
    using wit_accounted by blast
  then obtain q' out where d: "dispatch (Bridge (\<lambda>_ _. True) wit_call) wit_identity 1 (NewSequence 9 3) (wit_packet_header 0xc0 3)
      ([2, 6, 1, 1, 1, 5, 0, 0, 1, 9] @ bytes_of_string (''alice'' @ ''task_id=1'')) (Some ?s) = (q', Some s', Inr out)" "out_body out = [0, 0, 0, 0, 1]"
    using wit_dispatch_acct [OF wit_bodies(2), of wit_call wit_identity "Some ?s" "Some s'" "acctStatus 1" "[0, 0, 0, 0, 1]" "\<lambda>_ _. True"] acctStatus_Encode [of 1]
    by (auto simp: Bridge_Account_def)
  have ty: "hdr_Type (wit_packet_header 0xc0 3) = TypeAcct" and user: "string_of_bytes (acq_User wit_acct_request) = ''alice''" and now: "en_now wit_call = 7"
    by (simp_all add: wit_packet_header_def wit_acct_request_def wit_call_def)
  have "DecodeAcctReply (out_body out) \<noteq> Inr (acctStatus AcctStatusError)"
    unfolding d(2) by (simp add: DecodeAcctReply_Inr acctStatus_def)
  with tacacs_accounting_recorded [OF d(1) ty] have "DecodeAcctReply (out_body out) = Inr (acctStatus AcctStatusSuccess) \<and>
      (\<exists>ev. ev_UserID ev = ''alice'' \<and> s' = ?s\<lparr>sv_ring := fst (ring_Accept 7 ev (sv_ring ?s))\<rparr>)"
    unfolding wit_bodies(2) by (auto simp: user now)
  then show ?thesis using e d(1) unfolding s(2) by blast
qed

theorem tacacs_pass_verified_witness:
  "\<exists>q' b out start. dispatch (Bridge (\<lambda>_ _. True) wit_call) (wit_identity\<lparr>id_ClientID := ''''\<rparr>) 1 (NewSequence 9 1) (wit_packet_header 0xc1 1)
       ([1, 0, 2, 1, 5, 0, 0, 1] @ bytes_of_string ''alice'' @ [1]) (Some wit_service) = (q', b, Inr out) \<and>
     DecodeAuthenReply (out_body out) = Inr (authenStatus AuthenStatusPass) \<and>
     oneShotCheck wit_call wit_service wit_snap (startOf (packetEnv (wit_identity\<lparr>id_ClientID := ''''\<rparr>) 1 (wit_packet_header 0xc1 1)) start) flowPAP = Inr ()"
proof -
  let ?id = "wit_identity\<lparr>id_ClientID := ''''\<rparr>" and ?hdr = "wit_packet_header 0xc1 1" and ?body = "[1, 0, 2, 1, 5, 0, 0, 1] @ bytes_of_string ''alice'' @ [1]"
  define start where "start = \<lparr>as_Action = 1, as_PrivLvl = 0, as_Type = 2, as_Service = 1, as_User = bytes_of_string ''alice'', as_Port = [], as_RemAddr = [], as_Data = [1]\<rparr>"
  have dec: "DecodeAuthenStart ?body = Inr start" unfolding start_def by code_simp
  have cls: "snd (ClassifyAuthenStart (Header_Minor ?hdr) start) = DispositionAccept" unfolding start_def by code_simp
  have st: "startOf (packetEnv ?id 1 ?hdr) start = (wit_start 1 2 [1])\<lparr>sta_Transport := ''legacy''\<rparr>"
    by (simp add: startOf_def packetEnv_def start_def wit_start_def eventStart_def wit_identity_def wit_packet_header_def Transport_String_def)
  obtain s' where run: "BeginAuthentication wit_call (startOf (packetEnv ?id 1 ?hdr) start) wit_service = (s', passStep, None)"
    unfolding st using wit_pap by blast
  have pass: "mapAuthen passStep = authenStatus 1" by (simp add: mapAuthen_def passStep_def plainStep_def authenStatus_def)
  have d: "\<exists>q' out. dispatch (Bridge (\<lambda>_ _. True) wit_call) ?id 1 (NewSequence 9 1) ?hdr ?body (Some wit_service) = (q', Some s', Inr out) \<and>
      out_body out = [1, 0, 0, 0, 0, 0]"
    using wit_checked(5,6) dec cls run pass authenStatus_Encode [of 1] unfolding dispatch_def packetEnv_def
    by (auto simp: wit_packet_header_def dispatchAuthen_def Bridge_AuthenStart_def encodeAuthen_def Let_def split: prod.splits sum.splits)
  then obtain q' out where d: "dispatch (Bridge (\<lambda>_ _. True) wit_call) ?id 1 (NewSequence 9 1) ?hdr ?body (Some wit_service) = (q', Some s', Inr out)"
      "out_body out = [1, 0, 0, 0, 0, 0]" by blast
  have reply: "DecodeAuthenReply (out_body out) = Inr (authenStatus AuthenStatusPass)" unfolding d(2) by code_simp
  have hdr: "hdr_Type ?hdr = TypeAuthen" "hdr_SeqNo ?hdr = 1" "ar_Status (authenStatus AuthenStatusPass) = AuthenStatusPass"
    by (simp_all add: wit_packet_header_def authenStatus_def)
  have none: "map_of (sv_sessions wit_service) k = Some se \<Longrightarrow> talk k (wit_start 1 2 [1]) wit_service [] se" for k se by (simp add: wit_service_def)
  have snap: "svc_snap wit_service = Some wit_snap" by (simp add: svc_snap_def wit_service_def wit_current)
  have "classifyStart (startOf (packetEnv ?id 1 ?hdr) start) = (flowPAP, None)"
    unfolding st by (simp add: classifyStart_def wit_start_def eventStart_def AuthenService_Valid_def)
  then have "oneShotCheck wit_call wit_service wit_snap (startOf (packetEnv ?id 1 ?hdr) start) flowPAP = Inr ()"
    using tacacs_pass_verified [OF d(1) hdr(1) reply hdr(3) none] dec snap hdr(2) by auto
  with d(1) reply show ?thesis by blast
qed

end
