(* ===== verification/Spec2Isabelle.thy ===== *)
theory Spec2Isabelle
  imports Tacacs_Conn Tacacs_Obfuscate Policy_Evaluate Radius_Cache Radius_Journal Challenge_Store
    Radius_Operator Event_Ring Session_Index Radius_Accounting Domain_Enums Aaa_Authen_Props
    Radius_Access_Props Radius_DynAuth Tacacs_Bridge
begin

text \<open>
  TacLab is an AAA server: TACACS+ over TCP, RADIUS over UDP and TLS, one store of users, groups, clients and
  policies, a ring of events and an administrative API. This library models its core, the code under
  \<open>src/internal\<close>, and proves what makes it correct. Every definition names the Go function it translates;
  the theories are listed here by component, in the order in which a request meets them.

  \<^bold>\<open>Conventions.\<close> Go's unsigned integers are words, \<open>int\<close> is \<open>int\<close> or \<open>nat\<close> where it cannot be negative, a byte slice is a
  list of octets, a string is a list of characters (one per octet), a map is an association list with distinct
  keys or a partial function, an error is the left part of a sum, and an operation on a mutable object
  returns the object changed. Clocks, entropy and cancellation are arguments. Code outside the repository
  (\<open>argon2\<close>, \<open>md4\<close>, \<open>precis\<close>, the regular expression compiler, the time zone database) is a parameter; MD5, HMAC,
  SHA-1, DES and base64 are defined (\<open>Go_Crypto\<close>, \<open>Go_Legacy_Crypto\<close>, \<open>Go_Base64\<close>), as is what the program uses of
  \<open>strconv\<close>, \<open>strings\<close>, \<open>netip\<close> and \<open>utf8\<close> (\<open>Go_Strings\<close>, \<open>Go_Ascii\<close>, \<open>Go_Netip\<close>, \<open>Go_Ip\<close>). \<open>Taclab_Prelude\<close> has the types, the error monad
  and the shared list and word lemmas; \<open>Assoc_Table\<close> the lemmas on maps as lists.

  \<^bold>\<open>TACACS+ codec\<close> (\<open>tacacs/codec\<close>): \<open>Tacacs_Header\<close>, \<open>Tacacs_Cursor\<close> (locale \<open>byte_reader\<close>), \<open>Tacacs_Authen\<close>, \<open>Tacacs_Author\<close>, \<open>Tacacs_Acct\<close>,
  \<open>Tacacs_Args\<close>, \<open>Tacacs_Flows\<close>, \<open>Tacacs_Obfuscate\<close> (locale \<open>keystream\<close>), \<open>Tacacs_Sequence\<close>. Decoders accept exactly the encodings, within
  the caps; obfuscation is an involution; the sequence machine numbers the replies of a session without gap or wrap.

  \<^bold>\<open>TACACS+ server\<close> (\<open>tacacs/server/conn.go\<close>, \<open>limits.go\<close>): \<open>Tacacs_Dispatch\<close> is one packet of one session, over the locale
  \<open>reply_codec\<close> of the three reply bodies; \<open>Tacacs_Conn\<close> is the connection as a step relation with its session table, the
  connection slots and the deadlines. The AAA service is a handler argument there.
  \<open>Tacacs_Bridge\<close> (\<open>bridge.go\<close>) instantiates that handler with the AAA service and follows packets from the wire to the wire:
  what PASS, an authorization status and an accounting SUCCESS mean.

  \<^bold>\<open>Authorization policy\<close> (\<open>policy\<close>): \<open>Policy_Dictionary\<close>, \<open>Policy_Engine\<close> (compilation), \<open>Policy_Evaluate\<close> (evaluation). The rule
  walks are interpretations of the locale \<open>first_match\<close> (\<open>First_Match\<close>); \<open>Authorize\<close> is the first matching rule in
  the order user, groups, fallback, behind the admission checks, with default deny.
  \<open>Radius_Policy\<close> (\<open>policy/radius\<close>) compiles and evaluates access rules; \<open>Radius_Policy_Props\<close> shows, over the same locale,
  that evaluation is the first match over user, groups, endpoint and fallback and replies are legal.

  \<^bold>\<open>RADIUS wire layer\<close> (\<open>radius/attribute\<close>, \<open>codec\<close>, \<open>crypto\<close>): \<open>Radius_Attribute\<close> (locale \<open>tlv_stream\<close> of \<open>Tlv_Stream\<close>, interpreted for
  attributes and for vendor attributes), \<open>Radius_Codec\<close>, \<open>Radius_Crypto\<close>, \<open>Radius_Dictionary\<close>, \<open>Radius_Operator\<close>. Codecs are exact,
  hiding is invertible, the dictionary checks are equivalent to their declarative reading, and
  operator dictionaries only add.

  \<^bold>\<open>RADIUS server\<close> (\<open>radius/server\<close>, \<open>radius/udp\<close>, \<open>radius/runtime\<close>): \<open>Radius_Reply\<close> signs replies and gates requests;
  \<open>Radius_Cache\<close> and \<open>Radius_Journal\<close> suppress retransmissions; \<open>Challenge_Store\<close> keeps challenge states; \<open>Session_Index\<close> keeps
  accounting sessions. The stores with byte budgets are interpretations of \<open>accounted_store\<close> and \<open>bounded_store\<close>
  (\<open>Bounded_Store\<close>). \<open>Radius_Accounting\<close> is the accounting handler over journal, AAA service, session index and ring,
  and runs any number of handlers in every interleaving. \<open>Radius_Access\<close> is the Access-Request handler: PAP, CHAP, MS-CHAP,
  EAP-MD5 and PEAP over \<open>Challenge_Store\<close> and the tunnels of \<open>Peap\<close>; \<open>Radius_Access_Props\<close> shows that no Access-Accept
  is sent without a verified credential and a permitting policy, over all sequences of requests.
  \<open>Radius_DynAuth\<close> is dynamic authorization, both ends: the inbound handler changes one session or none, and the
  originator reads from the answer to a request it signed what the handler decided.
  \<open>Peap\<close> (\<open>radius/eap/peap\<close>) has framing, fragmentation and the tunnel registry; the TLS engine is a parameter.

  \<^bold>\<open>Events\<close> (\<open>events\<close>): \<open>Event_Ring\<close>, an interpretation of \<open>overwrite_log\<close> (\<open>Overwrite_Log\<close>): the ring shows the last events
  accepted, subscribers receive a gapless prefix, pages enumerate without gap.

  \<^bold>\<open>Credentials\<close> (\<open>credentials\<close>): \<open>Credentials\<close> has PHC verifiers, CHAP, MS-CHAP and the verification service.

  \<^bold>\<open>State\<close> (\<open>state\<close>, \<open>config\<close>): \<open>Config_Types\<close> and \<open>Config_Validate\<close> are the document and its validation (\<open>Config_Example\<close> holds a small
  document for witnesses); \<open>Client_Match\<close> compiles the indexes that select the client of a peer by address and
  certificate, over the locale \<open>peer_index\<close>; \<open>State_Manager\<close> merges
  overlay over baseline, compiles and publishes; \<open>State_View\<close> and \<open>State_Publish\<close> show that the published
  snapshot is that view, that mutations are atomic and that bearer tokens authenticate live tokens only.

  \<^bold>\<open>AAA service\<close> (\<open>aaa\<close>): \<open>Aaa_Authen\<close> is authentication, one-shot and in conversations with prompts;
  \<open>Aaa_Authen_Proofs\<close> and \<open>Aaa_Authen_Props\<close> show what a PASS means, that conversations end, and that a password
  change takes effect, over \<open>Credentials\<close> and \<open>State_Publish\<close>. \<open>Aaa_Author\<close> authorizes and accounts for TACACS+; \<open>Aaa_Accounting\<close> records RADIUS accounting;
  \<open>Aaa_Radius_Access\<close> is the access decision: credentials, must-change, policy and reply attributes.

  \<^bold>\<open>Domain values\<close> (\<open>domain\<close>): \<open>Domain_AVPair\<close> and \<open>Domain_Enums\<close> (locale \<open>vocabulary\<close>).

  \<^bold>\<open>Loops and bounds.\<close> Loops over slices recurse on the list; loops over offsets have a measure; none needs fuel.
  Waiting in the journal is a step that leaves the state unchanged, so that interleavings and progress
  are stated over a step relation.

  \<^bold>\<open>Not modelled.\<close> Sockets and TLS handshakes (\<open>radius/tls\<close>, the TLS inside \<open>radius/eap/peap\<close>), which rest on \<open>crypto/tls\<close> and on the scheduler;
  YAML parsing and normalisation (\<open>config/parse.go\<close>, \<open>normalize.go\<close>); HTTP, JSON and MCP adapters (\<open>api\<close>); metrics, tracing and
  logging (\<open>observability\<close>); process wiring (\<open>cmd\<close>, \<open>runtime\<close>); development tools (\<open>tools\<close>, \<open>radius/testclient\<close>).
\<close>

end
